(* ===== verification/Soma_Prelude.thy ===== *)
theory Soma_Prelude
  imports Main "HOL-Library.Char_ord" "HOL-Library.List_Lexorder"
begin

text \<open>
  The shared part of the development.

  \<^item> The exceptions the modelled Python raises (\<open>py_error\<close>) and the type \<open>outcome\<close> of an
    operation on the database: an exception or a value, together with the database that is
    committed. An operation that raises inside one SQLite transaction returns the database it
    was given; one that commits several transactions can raise after the first of them.
  \<^item> JSON documents (\<open>json\<close>) and what the code uses of Python's \<open>str\<close> on them. A float inside
    a document is kept as its printed form, since the code only prints it.
  \<^item> SQL on tables. A table is the list of its rows in insertion order; \<open>sql_update\<close>,
    \<open>sql_delete\<close>, \<open>sql_count\<close> and \<open>sql_fetchone\<close> are UPDATE, DELETE, the row count of a
    statement and the first row of a SELECT.
  \<^item> The contract of a compare-and-set store (locale \<open>versioned_store\<close>), which the run store
    and the task store both promise.
  Messages of exceptions keep the literal text of the source and the interpolated identifiers.
\<close>

section \<open>Exceptions and outcomes\<close>

datatype py_error =
    ValueError string
  | KeyError string
  | RuntimeError string
  | PermissionError string
  | IntegrityError string
  | OperationalError string
  | TypeError string
  | TaskRequestConflict string
  | ProjectScopeError string
  | ProjectScopeMismatch string
  | FileNotFoundError string
  | OSError string

type_synonym ('db, 'a) outcome = "(py_error + 'a) \<times> 'db"

type_synonym timestamp = string

text \<open>A float, kept as its printed form: the modelled code stores and prints it.\<close>

type_synonym pyfloat = string

named_theorems op_defs \<open>definitions of the database operations\<close>
named_theorems frame \<open>what an operation leaves unchanged\<close>

section \<open>JSON documents\<close>

datatype json =
    JNull
  | JBool bool
  | JInt int
  | JFloat pyfloat
  | JStr string
  | JArr "json list"
  | JObj "(string \<times> json) list"

definition jget :: "string \<Rightarrow> (string \<times> json) list \<Rightarrow> json option" where
  "jget k d = map_of d k"

text \<open>\<open>dict.update\<close>: an existing key keeps its place, a new key is appended.\<close>

fun jset :: "string \<Rightarrow> json \<Rightarrow> (string \<times> json) list \<Rightarrow> (string \<times> json) list" where
  "jset k v [] = [(k, v)]"
| "jset k v ((k', v') # d) = (if k = k' then (k, v) # d else (k', v') # jset k v d)"

definition jupdate :: "(string \<times> json) list \<Rightarrow> (string \<times> json) list \<Rightarrow> (string \<times> json) list" where
  "jupdate d u = foldl (\<lambda>acc (k, v). jset k v acc) d u"

text \<open>Python's truth value of a document.\<close>

fun py_truthy :: "json \<Rightarrow> bool" where
  "py_truthy JNull = False"
| "py_truthy (JBool b) = b"
| "py_truthy (JInt n) = (n \<noteq> 0)"
| "py_truthy (JFloat t) = (t \<notin> {''0.0'', ''-0.0''})"
| "py_truthy (JStr s) = (s \<noteq> [])"
| "py_truthy (JArr xs) = (xs \<noteq> [])"
| "py_truthy (JObj d) = (d \<noteq> [])"

definition digit_char :: "nat \<Rightarrow> char" where
  "digit_char d = char_of (48 + d)"

fun nat_digits :: "nat \<Rightarrow> string" where
  "nat_digits n = (if n < 10 then [digit_char n] else nat_digits (n div 10) @ [digit_char (n mod 10)])"

declare nat_digits.simps [simp del]

definition py_str_int :: "int \<Rightarrow> string" where
  "py_str_int n = (if n < 0 then CHR ''-'' # nat_digits (nat (- n)) else nat_digits (nat n))"

definition hex_digit :: "nat \<Rightarrow> char" where
  "hex_digit d = (if d < 10 then char_of (48 + d) else char_of (87 + d))"

text \<open>\<open>repr\<close> of a string: single quotes unless the text has a single quote and no double one.\<close>

definition repr_char :: "char \<Rightarrow> char \<Rightarrow> string" where
  "repr_char q c =
     (let n = (of_char c :: nat) in
      if c = q \<or> n = 92 then [CHR 0x5C, c]
      else if n = 10 then [CHR 0x5C, CHR ''n'']
      else if n = 13 then [CHR 0x5C, CHR ''r'']
      else if n = 9 then [CHR 0x5C, CHR ''t'']
      else if n < 32 \<or> n = 127 then [CHR 0x5C, CHR ''x'', hex_digit (n div 16), hex_digit (n mod 16)]
      else [c])"

definition py_repr_str :: "string \<Rightarrow> string" where
  "py_repr_str s =
     (let q = (if CHR 0x27 \<in> set s \<and> CHR 0x22 \<notin> set s then CHR 0x22 else CHR 0x27)
      in [q] @ concat (map (repr_char q) s) @ [q])"

fun join_with :: "string \<Rightarrow> string list \<Rightarrow> string" where
  "join_with sep [] = []"
| "join_with sep [x] = x"
| "join_with sep (x # y # ys) = x @ sep @ join_with sep (y # ys)"

fun py_repr :: "json \<Rightarrow> string" and py_repr_item :: "string \<times> json \<Rightarrow> string" where
  "py_repr JNull = ''None''"
| "py_repr (JBool b) = (if b then ''True'' else ''False'')"
| "py_repr (JInt n) = py_str_int n"
| "py_repr (JFloat t) = t"
| "py_repr (JStr s) = py_repr_str s"
| "py_repr (JArr xs) = ''['' @ join_with '', '' (map py_repr xs) @ '']''"
| "py_repr (JObj d) = ''{'' @ join_with '', '' (map py_repr_item d) @ ''}''"
| "py_repr_item (k, v) = py_repr_str k @ '': '' @ py_repr v"

fun py_str :: "json \<Rightarrow> string" where
  "py_str (JStr s) = s"
| "py_str j = py_repr j"

text \<open>\<open>str(value or "")\<close>\<close>

definition py_str_or_empty :: "json option \<Rightarrow> string" where
  "py_str_or_empty j = (case j of None \<Rightarrow> [] | Some v \<Rightarrow> if py_truthy v then py_str v else [])"

text \<open>The class of an exception and its \<open>str\<close>; \<open>str\<close> of a \<open>KeyError\<close> is the \<open>repr\<close> of its argument.\<close>

fun error_parts :: "py_error \<Rightarrow> string \<times> string" where
  "error_parts (ValueError m) = (''ValueError'', m)"
| "error_parts (KeyError m) = (''KeyError'', py_repr_str m)"
| "error_parts (RuntimeError m) = (''RuntimeError'', m)"
| "error_parts (PermissionError m) = (''PermissionError'', m)"
| "error_parts (IntegrityError m) = (''IntegrityError'', m)"
| "error_parts (OperationalError m) = (''OperationalError'', m)"
| "error_parts (TypeError m) = (''TypeError'', m)"
| "error_parts (TaskRequestConflict m) = (''TaskRequestConflict'', m)"
| "error_parts (ProjectScopeError m) = (''ProjectScopeError'', m)"
| "error_parts (ProjectScopeMismatch m) = (''ProjectScopeMismatch'', m)"
| "error_parts (FileNotFoundError m) = (''FileNotFoundError'', m)"
| "error_parts (OSError m) = (''OSError'', m)"

section \<open>Characters\<close>

definition is_digit :: "char \<Rightarrow> bool" where
  "is_digit c = (48 \<le> (of_char c :: nat) \<and> (of_char c :: nat) \<le> 57)"

definition is_hex_lower :: "char \<Rightarrow> bool" where
  "is_hex_lower c = (is_digit c \<or> (97 \<le> (of_char c :: nat) \<and> (of_char c :: nat) \<le> 102))"

definition is_lower_alpha :: "char \<Rightarrow> bool" where
  "is_lower_alpha c = (97 \<le> (of_char c :: nat) \<and> (of_char c :: nat) \<le> 122)"

text \<open>ASCII \<open>lower()\<close>, which SQLite's \<open>lower\<close> and \<open>COLLATE NOCASE\<close> use.\<close>

definition lower_char :: "char \<Rightarrow> char" where
  "lower_char c = (if 65 \<le> (of_char c :: nat) \<and> (of_char c :: nat) \<le> 90
                   then char_of ((of_char c :: nat) + 32) else c)"

definition lower :: "string \<Rightarrow> string" where
  "lower s = map lower_char s"

text \<open>\<open>str.strip()\<close> on the ASCII white space characters.\<close>

definition is_space :: "char \<Rightarrow> bool" where
  "is_space c = ((of_char c :: nat) \<in> {9, 10, 11, 12, 13, 28, 29, 30, 31, 32})"

definition py_strip :: "string \<Rightarrow> string" where
  "py_strip s = rev (dropWhile is_space (rev (dropWhile is_space s)))"

text \<open>\<open>x or default\<close> on text.\<close>

definition str_or :: "string \<Rightarrow> string \<Rightarrow> string" where
  "str_or s d = (if s = [] then d else s)"

text \<open>
  Python's \<open>$\<close> at the end of a pattern matches at the end of the string and before one final
  newline: \<open>re_end p s\<close> is \<open>re.match(p + "$", s)\<close> for a matcher \<open>p\<close> of whole strings.
\<close>

definition newline :: char where
  "newline = CHR 0x0A"

definition re_end :: "(string \<Rightarrow> bool) \<Rightarrow> string \<Rightarrow> bool" where
  "re_end p s = (p s \<or> (s \<noteq> [] \<and> last s = newline \<and> p (butlast s)))"

section \<open>SQL on tables\<close>

definition sql_update :: "('r \<Rightarrow> bool) \<Rightarrow> ('r \<Rightarrow> 'r) \<Rightarrow> 'r list \<Rightarrow> 'r list" where
  "sql_update p f rows = map (\<lambda>r. if p r then f r else r) rows"

definition sql_delete :: "('r \<Rightarrow> bool) \<Rightarrow> 'r list \<Rightarrow> 'r list" where
  "sql_delete p rows = filter (\<lambda>r. \<not> p r) rows"

definition sql_count :: "('r \<Rightarrow> bool) \<Rightarrow> 'r list \<Rightarrow> nat" where
  "sql_count p rows = length (filter p rows)"

definition sql_fetchone :: "('r \<Rightarrow> bool) \<Rightarrow> 'r list \<Rightarrow> 'r option" where
  "sql_fetchone p rows = find p rows"

text \<open>The row with a given primary key.\<close>

definition by_key :: "('r \<Rightarrow> 'k) \<Rightarrow> 'k \<Rightarrow> 'r list \<Rightarrow> 'r option" where
  "by_key key k rows = find (\<lambda>r. key r = k) rows"

definition unique_key :: "('r \<Rightarrow> 'k) \<Rightarrow> 'r list \<Rightarrow> bool" where
  "unique_key key rows = distinct (map key rows)"

subsection \<open>Lookup by primary key\<close>

lemma by_key_Nil [simp]: "by_key key k [] = None"
  by (simp add: by_key_def)

lemma by_key_Cons [simp]:
  "by_key key k (r # rows) = (if key r = k then Some r else by_key key k rows)"
  by (simp add: by_key_def)

lemma by_key_append: "by_key key k (xs @ ys) =
    (case by_key key k xs of None \<Rightarrow> by_key key k ys | Some r \<Rightarrow> Some r)"
  by (induction xs) auto

lemma by_key_Some_key: "by_key key k rows = Some r \<Longrightarrow> key r = k"
  by (induction rows) (auto split: if_splits)

lemma by_key_Some_in: "by_key key k rows = Some r \<Longrightarrow> r \<in> set rows"
  by (induction rows) (auto split: if_splits)

lemma by_key_None_iff: "by_key key k rows = None \<longleftrightarrow> k \<notin> key ` set rows"
  by (induction rows) auto

lemma by_key_ex: "r \<in> set rows \<Longrightarrow> \<exists>r'. by_key key (key r) rows = Some r'"
  by (induction rows) auto

lemma unique_key_Nil [simp]: "unique_key key []"
  by (simp add: unique_key_def)

lemma unique_key_Cons [simp]:
  "unique_key key (r # rows) \<longleftrightarrow> key r \<notin> key ` set rows \<and> unique_key key rows"
  by (simp add: unique_key_def)

lemma unique_key_append_one:
  "unique_key key (rows @ [r]) \<longleftrightarrow> unique_key key rows \<and> by_key key (key r) rows = None"
  by (auto simp: unique_key_def by_key_None_iff)

lemma by_key_unique: "unique_key key rows \<Longrightarrow> r \<in> set rows \<Longrightarrow> by_key key (key r) rows = Some r"
  by (induction rows) (auto simp: image_iff)

lemma unique_key_inj:
  "unique_key key rows \<Longrightarrow> r \<in> set rows \<Longrightarrow> r' \<in> set rows \<Longrightarrow> key r = key r' \<Longrightarrow> r = r'"
  by (metis by_key_unique option.inject)

subsection \<open>UPDATE and DELETE\<close>

lemma length_sql_update [simp]: "length (sql_update p f rows) = length rows"
  by (simp add: sql_update_def)

lemma set_sql_update: "set (sql_update p f rows) = (\<lambda>r. if p r then f r else r) ` set rows"
  by (simp add: sql_update_def)

lemma sql_update_keys:
  "(\<And>r. key (f r) = key r) \<Longrightarrow> map key (sql_update p f rows) = map key rows"
  by (simp add: sql_update_def)

lemma unique_key_sql_update [simp]:
  "(\<And>r. key (f r) = key r) \<Longrightarrow> unique_key key (sql_update p f rows) = unique_key key rows"
  by (simp add: unique_key_def sql_update_keys)

lemma unique_key_sql_delete: "unique_key key rows \<Longrightarrow> unique_key key (sql_delete p rows)"
  by (induction rows) (auto simp: sql_delete_def)

lemma by_key_sql_update:
  assumes "\<And>r. key (f r) = key r"
  shows "by_key key k (sql_update p f rows) =
     map_option (\<lambda>r. if p r then f r else r) (by_key key k rows)"
  using assms by (induction rows) (auto simp: sql_update_def)

lemma by_key_sql_delete_other:
  "(\<And>r. p r \<Longrightarrow> key r \<noteq> k) \<Longrightarrow> by_key key k (sql_delete p rows) = by_key key k rows"
  by (induction rows) (auto simp: sql_delete_def)

lemma by_key_sql_delete_hit:
  "unique_key key rows \<Longrightarrow> by_key key k rows = Some r \<Longrightarrow> p r \<Longrightarrow> by_key key k (sql_delete p rows) = None"
  by (induction rows) (auto simp: sql_delete_def by_key_None_iff split: if_splits)

lemma sql_update_noop: "(\<And>r. r \<in> set rows \<Longrightarrow> \<not> p r) \<Longrightarrow> sql_update p f rows = rows"
  by (simp add: sql_update_def map_idI)

lemma sql_delete_noop: "(\<And>r. r \<in> set rows \<Longrightarrow> \<not> p r) \<Longrightarrow> sql_delete p rows = rows"
  by (simp add: sql_delete_def)

lemma sql_update_cong:
  "(\<And>r. r \<in> set rows \<Longrightarrow> p r = q r) \<Longrightarrow> sql_update p f rows = sql_update q f rows"
  by (auto simp: sql_update_def)

subsection \<open>Row counts\<close>

lemma sql_count_Nil [simp]: "sql_count p [] = 0"
  by (simp add: sql_count_def)

lemma sql_count_Cons [simp]: "sql_count p (r # rows) = (if p r then Suc (sql_count p rows) else sql_count p rows)"
  by (simp add: sql_count_def)

lemma sql_count_append [simp]: "sql_count p (xs @ ys) = sql_count p xs + sql_count p ys"
  by (simp add: sql_count_def)

lemma sql_count_0_iff: "sql_count p rows = 0 \<longleftrightarrow> (\<forall>r \<in> set rows. \<not> p r)"
  by (simp add: sql_count_def filter_empty_conv)

text \<open>A statement whose WHERE clause fixes the primary key touches at most one row.\<close>

lemma sql_count_key:
  assumes "unique_key key rows"
  shows "sql_count (\<lambda>r. key r = k \<and> q r) rows =
    (case by_key key k rows of None \<Rightarrow> 0 | Some r \<Rightarrow> if q r then 1 else 0)"
  using assms
proof (induction rows)
  case (Cons a rows)
  show ?case
  proof (cases "key a = k")
    case True
    with Cons.prems have "\<forall>r \<in> set rows. key r \<noteq> k" by (auto simp: image_iff)
    then have "sql_count (\<lambda>r. key r = k \<and> q r) rows = 0"
      by (simp add: sql_count_0_iff)
    with True show ?thesis by simp
  next
    case False
    with Cons show ?thesis by simp
  qed
qed simp

lemma sql_count_key_le_1: "unique_key key rows \<Longrightarrow> sql_count (\<lambda>r. key r = k \<and> q r) rows \<le> 1"
  by (simp add: sql_count_key split: option.split)

lemma sql_count_key_1_iff:
  "unique_key key rows \<Longrightarrow> sql_count (\<lambda>r. key r = k \<and> q r) rows = 1 \<longleftrightarrow>
     (\<exists>r. by_key key k rows = Some r \<and> q r)"
  by (simp add: sql_count_key split: option.split)

section \<open>Compare-and-set stores\<close>

text \<open>
  What the run store and the task store promise of a guarded update. \<open>cas k v u db\<close> applies the
  update \<open>u\<close> to the row with key \<open>k\<close> when its version is \<open>v\<close>; it answers the new row, or
  \<open>None\<close> when the guard does not hold.
\<close>

locale versioned_store =
  fixes wf :: "'db \<Rightarrow> bool"
    and lookup :: "'db \<Rightarrow> 'k \<Rightarrow> 'row option"
    and version :: "'row \<Rightarrow> int"
    and cas :: "'k \<Rightarrow> int \<Rightarrow> 'upd \<Rightarrow> 'db \<Rightarrow> 'row option \<times> 'db"
  assumes cas_hit: "wf db \<Longrightarrow> cas k v u db = (Some row, db') \<Longrightarrow>
      \<exists>old. lookup db k = Some old \<and> version old = v \<and> lookup db' k = Some row \<and> version row = v + 1"
    and cas_miss: "wf db \<Longrightarrow> cas k v u db = (None, db') \<Longrightarrow> db' = db"
    and cas_other: "wf db \<Longrightarrow> cas k v u db = (res, db') \<Longrightarrow> k' \<noteq> k \<Longrightarrow> lookup db' k' = lookup db k'"
    and cas_wf: "wf db \<Longrightarrow> cas k v u db = (res, db') \<Longrightarrow> wf db'"
begin

text \<open>Several writers in the order in which SQLite serialises them: their answers, and the store.\<close>

fun cas_seq :: "('k \<times> int \<times> 'upd) list \<Rightarrow> 'db \<Rightarrow> 'row option list \<times> 'db" where
  "cas_seq [] db = ([], db)"
| "cas_seq ((k, v, u) # ws) db =
     (let (res, db1) = cas k v u db; (rest, db2) = cas_seq ws db1 in (res # rest, db2))"

definition winners :: "'row option list \<Rightarrow> nat" where
  "winners rs = length (filter (\<lambda>r. r \<noteq> None) rs)"

lemma winners_simps [simp]:
  "winners [] = 0" "winners (None # rs) = winners rs" "winners (Some x # rs) = Suc (winners rs)"
  by (simp_all add: winners_def)

lemma cas_version_mono:
  assumes "wf db" "cas k v u db = (res, db')" "lookup db k' = Some old"
  shows "\<exists>new. lookup db' k' = Some new \<and> version old \<le> version new"
proof (cases "k' = k")
  case True
  show ?thesis
  proof (cases res)
    case None
    with assms cas_miss show ?thesis by fastforce
  next
    case (Some row)
    with assms True cas_hit [of db k v u row db'] show ?thesis by auto
  qed
next
  case False
  with assms cas_other [of db k v u res db' k'] show ?thesis by auto
qed

text \<open>A writer that read an older version loses, whatever it wants to write.\<close>

lemma stale_writer_loses:
  assumes "wf db" "lookup db k = Some row" "version row \<noteq> v"
  shows "cas k v u db = (None, db)"
proof (cases "cas k v u db")
  case (Pair res db')
  show ?thesis
  proof (cases res)
    case None
    with Pair assms cas_miss [of db k v u db'] show ?thesis by auto
  next
    case (Some r)
    with Pair assms cas_hit [of db k v u r db'] show ?thesis by auto
  qed
qed

lemma cas_seq_stale:
  assumes "wf db" "lookup db k = Some row" "v < version row"
    and "\<forall>w \<in> set ws. fst w = k \<and> fst (snd w) = v"
  shows "cas_seq ws db = (replicate (length ws) None, db)"
  using assms
proof (induction ws)
  case (Cons w ws)
  obtain k' v' u where w: "w = (k', v', u)" by (cases w)
  with Cons.prems have "k' = k" "v' = v" by auto
  moreover have "cas k v u db = (None, db)"
    using Cons.prems stale_writer_loses [of db k row v u] by simp
  ultimately show ?case using Cons w by simp
qed simp

text \<open>Of any number of writers that read the same version of a row, at most one wins.\<close>

lemma at_most_one_winner:
  assumes "wf db" "\<forall>w \<in> set ws. fst w = k \<and> fst (snd w) = v"
  shows "winners (fst (cas_seq ws db)) \<le> 1"
  using assms
proof (induction ws arbitrary: db)
  case (Cons w ws)
  obtain k' v' u where w: "w = (k', v', u)" by (cases w)
  with Cons.prems have kv: "k' = k" "v' = v" by auto
  obtain res db1 where c: "cas k v u db = (res, db1)" by (cases "cas k v u db")
  have wf1: "wf db1" using cas_wf Cons.prems(1) c by blast
  show ?case
  proof (cases res)
    case None
    with Cons.IH [OF wf1] Cons.prems(2) w kv c show ?thesis
      by (simp add: Let_def split: prod.split) (metis fst_conv)
  next
    case (Some row)
    with c Cons.prems(1) cas_hit [of db k v u row db1]
    have "lookup db1 k = Some row" "v < version row" by auto
    with cas_seq_stale [OF wf1, of k row v ws] Cons.prems(2)
    have "cas_seq ws db1 = (replicate (length ws) None, db1)" by simp
    then show ?thesis using w kv c Some by (simp add: winners_def)
  qed
qed simp

text \<open>The version counts the accepted writes: no accepted write is lost.\<close>

lemma version_counts_winners:
  assumes "wf db" "lookup db k = Some row" "\<forall>w \<in> set ws. fst w = k" "cas_seq ws db = (rs, db')"
  shows "\<exists>row'. lookup db' k = Some row' \<and> version row' = version row + int (winners rs)"
  using assms
proof (induction ws arbitrary: db row rs)
  case (Cons w ws)
  obtain k' v u where w: "w = (k', v, u)" by (cases w)
  with Cons.prems have k': "k' = k" by auto
  obtain res db1 where c: "cas k v u db = (res, db1)" by (cases "cas k v u db")
  obtain rest where rest: "cas_seq ws db1 = (rest, db')" "rs = res # rest"
    using Cons.prems(4) w k' c by (auto simp: Let_def split: prod.splits)
  have wf1: "wf db1" using cas_wf Cons.prems(1) c by blast
  show ?case
  proof (cases res)
    case None
    with c Cons.prems(1) cas_miss have "db1 = db" by blast
    with Cons.IH [OF wf1 _ _ rest(1)] Cons.prems rest None show ?thesis by auto
  next
    case (Some r)
    with c Cons.prems(1,2) cas_hit [of db k v u r db1]
    have "lookup db1 k = Some r" "version r = version row + 1" by auto
    with Cons.IH [OF wf1 _ _ rest(1)] Cons.prems rest Some show ?thesis by auto
  qed
qed simp

end

end
