(* ===== verification/Run_Store.thy ===== *)
theory Run_Store
  imports Soma_Prelude
begin

text \<open>
  The durable run store of \<open>src/soma/run_store.py\<close>: the rows of the tables \<open>runs\<close> and
  \<open>events\<close>, the guarded update \<open>conditional_update\<close> every lifecycle operation goes through, and
  those operations. A column with JSON text is represented by the document it encodes; a REAL
  column by the printed form of its value. \<open>utc_now()\<close> is the argument \<open>now\<close> of the operations that read
  the clock. The fields \<open>get_run\<close> derives for display (elapsed time, age of the heartbeat) are
  not part of the row.
\<close>

section \<open>Run identifiers\<close>

text \<open>\<open>RUN_ID_PATTERN\<close>, without its final \<open>$\<close>.\<close>

definition run_id_core :: "string \<Rightarrow> bool" where
  "run_id_core s =
     (let rest = drop 17 s; mid = take (length rest - 9) rest; tail = drop (length rest - 9) rest in
      length s \<ge> 27 \<and>
      list_all is_digit (take 8 s) \<and> s ! 8 = CHR ''T'' \<and>
      list_all is_digit (take 6 (drop 9 s)) \<and> s ! 15 = CHR ''Z'' \<and> s ! 16 = CHR ''_'' \<and>
      mid \<noteq> [] \<and> list_all (\<lambda>c. is_lower_alpha c \<or> is_digit c \<or> c = CHR ''_'') mid \<and>
      hd tail = CHR ''_'' \<and> list_all is_hex_lower (tl tail))"

definition valid_run_id :: "string \<Rightarrow> bool" where
  "valid_run_id s = re_end run_id_core s"

definition invalid_run_id :: "string \<Rightarrow> py_error" where
  "invalid_run_id run_id = ValueError (''Invalid run_id: '' @ run_id)"

section \<open>Tables\<close>

record run_row =
  r_run_id :: string
  r_repo_name :: string
  r_tool :: string
  r_status :: string
  r_risk_level :: string
  r_requires_human :: bool
  r_created_at :: timestamp
  r_started_at :: "timestamp option"
  r_ended_at :: "timestamp option"
  r_duration_seconds :: "pyfloat option"
  r_pid :: "int option"
  r_launcher_pid :: "int option"
  r_worker_pid :: "int option"
  r_worker_lease_token :: string
  r_lease_generation :: int
  r_state_version :: int
  r_worker_identity :: string
  r_worker_claimed_at :: "timestamp option"
  r_launch_attempts :: int
  r_recovery_reason :: string
  r_exit_code :: "int option"
  r_run_dir :: string
  r_summary :: string
  r_error :: string
  r_safety_failure :: bool
  r_current_phase :: string
  r_elapsed_seconds :: pyfloat
  r_heartbeat_at :: "timestamp option"
  r_last_output_at :: string
  r_cancellation_requested_at :: string
  r_progress_json :: json
  r_input_json :: json
  r_result_json :: json
  r_result_publication_status :: string
  r_result_published_hash :: string
  r_result_published_at :: "timestamp option"
  r_result_publication_error :: string
  r_public_result_json :: json
  r_public_result_schema_version :: string
  r_public_result_source_sha256 :: string
  r_public_result_status :: string
  r_public_result_error :: string

text \<open>An event as \<open>append_event\<close> returns it, and as a row of \<open>events\<close>.\<close>

record run_event =
  e_timestamp :: timestamp
  e_run_id :: string
  e_level :: string
  e_stage :: string
  e_message :: string
  e_data :: json

record event_row = run_event +
  e_id :: int

text \<open>
  The part of \<open>runs/soma.sqlite3\<close> this store owns. \<open>event_seq\<close> is the AUTOINCREMENT counter of
  \<open>events\<close>. The other components extend the record with their own tables of the same database.
\<close>

record run_db =
  runs :: "run_row list"
  events :: "event_row list"
  event_seq :: int

definition TERMINAL_STATUSES :: "string list" where
  "TERMINAL_STATUSES =
     [''completed'', ''partial'', ''failed'', ''cancelled'', ''timed_out'', ''needs_input'']"

definition is_terminal :: "string \<Rightarrow> bool" where
  "is_terminal s = (s \<in> set TERMINAL_STATUSES)"

definition run_by_id :: "string \<Rightarrow> 'a run_db_scheme \<Rightarrow> run_row option" where
  "run_by_id run_id db = by_key r_run_id run_id (runs db)"

section \<open>Field assignments\<close>

text \<open>One entry of the keyword dictionary of an update: a column and its new value.\<close>

datatype run_field =
    F_status string
  | F_risk_level string
  | F_requires_human bool
  | F_current_phase string
  | F_launcher_pid "int option"
  | F_worker_pid "int option"
  | F_worker_lease_token string
  | F_lease_generation int
  | F_worker_identity string
  | F_worker_claimed_at "timestamp option"
  | F_launch_attempts int
  | F_started_at "timestamp option"
  | F_ended_at "timestamp option"
  | F_duration_seconds "pyfloat option"
  | F_pid "int option"
  | F_exit_code "int option"
  | F_summary string
  | F_error string
  | F_safety_failure bool
  | F_heartbeat_at "timestamp option"
  | F_elapsed_seconds pyfloat
  | F_last_output_at string
  | F_cancellation_requested_at string
  | F_progress_json json
  | F_input_json json
  | F_result_json json
  | F_result_publication_status string
  | F_result_published_hash string
  | F_result_published_at "timestamp option"
  | F_result_publication_error string
  | F_public_result_json json
  | F_public_result_schema_version string
  | F_public_result_source_sha256 string
  | F_public_result_status string
  | F_public_result_error string
  | F_recovery_reason string

fun field_name :: "run_field \<Rightarrow> string" where
  "field_name (F_status _) = ''status''"
| "field_name (F_risk_level _) = ''risk_level''"
| "field_name (F_requires_human _) = ''requires_human''"
| "field_name (F_current_phase _) = ''current_phase''"
| "field_name (F_launcher_pid _) = ''launcher_pid''"
| "field_name (F_worker_pid _) = ''worker_pid''"
| "field_name (F_worker_lease_token _) = ''worker_lease_token''"
| "field_name (F_lease_generation _) = ''lease_generation''"
| "field_name (F_worker_identity _) = ''worker_identity''"
| "field_name (F_worker_claimed_at _) = ''worker_claimed_at''"
| "field_name (F_launch_attempts _) = ''launch_attempts''"
| "field_name (F_started_at _) = ''started_at''"
| "field_name (F_ended_at _) = ''ended_at''"
| "field_name (F_duration_seconds _) = ''duration_seconds''"
| "field_name (F_pid _) = ''pid''"
| "field_name (F_exit_code _) = ''exit_code''"
| "field_name (F_summary _) = ''summary''"
| "field_name (F_error _) = ''error''"
| "field_name (F_safety_failure _) = ''safety_failure''"
| "field_name (F_heartbeat_at _) = ''heartbeat_at''"
| "field_name (F_elapsed_seconds _) = ''elapsed_seconds''"
| "field_name (F_last_output_at _) = ''last_output_at''"
| "field_name (F_cancellation_requested_at _) = ''cancellation_requested_at''"
| "field_name (F_progress_json _) = ''progress_json''"
| "field_name (F_input_json _) = ''input_json''"
| "field_name (F_result_json _) = ''result_json''"
| "field_name (F_result_publication_status _) = ''result_publication_status''"
| "field_name (F_result_published_hash _) = ''result_published_hash''"
| "field_name (F_result_published_at _) = ''result_published_at''"
| "field_name (F_result_publication_error _) = ''result_publication_error''"
| "field_name (F_public_result_json _) = ''public_result_json''"
| "field_name (F_public_result_schema_version _) = ''public_result_schema_version''"
| "field_name (F_public_result_source_sha256 _) = ''public_result_source_sha256''"
| "field_name (F_public_result_status _) = ''public_result_status''"
| "field_name (F_public_result_error _) = ''public_result_error''"
| "field_name (F_recovery_reason _) = ''recovery_reason''"

definition CONDITIONAL_UPDATE_FIELDS :: "string list" where
  "CONDITIONAL_UPDATE_FIELDS =
     [''status'', ''current_phase'', ''launcher_pid'', ''worker_pid'', ''worker_lease_token'',
      ''lease_generation'', ''worker_identity'', ''worker_claimed_at'', ''launch_attempts'',
      ''started_at'', ''ended_at'', ''duration_seconds'', ''pid'', ''exit_code'', ''summary'',
      ''error'', ''safety_failure'', ''heartbeat_at'', ''elapsed_seconds'', ''progress_json'',
      ''result_json'', ''result_publication_status'', ''result_published_hash'',
      ''result_published_at'', ''result_publication_error'', ''public_result_json'',
      ''public_result_schema_version'', ''public_result_source_sha256'',
      ''public_result_status'', ''public_result_error'', ''recovery_reason'']"

text \<open>\<open>SET column = ?\<close>\<close>

fun apply_field :: "run_field \<Rightarrow> run_row \<Rightarrow> run_row" where
  "apply_field (F_status v) r = r\<lparr>r_status := v\<rparr>"
| "apply_field (F_risk_level v) r = r\<lparr>r_risk_level := v\<rparr>"
| "apply_field (F_requires_human v) r = r\<lparr>r_requires_human := v\<rparr>"
| "apply_field (F_current_phase v) r = r\<lparr>r_current_phase := v\<rparr>"
| "apply_field (F_launcher_pid v) r = r\<lparr>r_launcher_pid := v\<rparr>"
| "apply_field (F_worker_pid v) r = r\<lparr>r_worker_pid := v\<rparr>"
| "apply_field (F_worker_lease_token v) r = r\<lparr>r_worker_lease_token := v\<rparr>"
| "apply_field (F_lease_generation v) r = r\<lparr>r_lease_generation := v\<rparr>"
| "apply_field (F_worker_identity v) r = r\<lparr>r_worker_identity := v\<rparr>"
| "apply_field (F_worker_claimed_at v) r = r\<lparr>r_worker_claimed_at := v\<rparr>"
| "apply_field (F_launch_attempts v) r = r\<lparr>r_launch_attempts := v\<rparr>"
| "apply_field (F_started_at v) r = r\<lparr>r_started_at := v\<rparr>"
| "apply_field (F_ended_at v) r = r\<lparr>r_ended_at := v\<rparr>"
| "apply_field (F_duration_seconds v) r = r\<lparr>r_duration_seconds := v\<rparr>"
| "apply_field (F_pid v) r = r\<lparr>r_pid := v\<rparr>"
| "apply_field (F_exit_code v) r = r\<lparr>r_exit_code := v\<rparr>"
| "apply_field (F_summary v) r = r\<lparr>r_summary := v\<rparr>"
| "apply_field (F_error v) r = r\<lparr>r_error := v\<rparr>"
| "apply_field (F_safety_failure v) r = r\<lparr>r_safety_failure := v\<rparr>"
| "apply_field (F_heartbeat_at v) r = r\<lparr>r_heartbeat_at := v\<rparr>"
| "apply_field (F_elapsed_seconds v) r = r\<lparr>r_elapsed_seconds := v\<rparr>"
| "apply_field (F_last_output_at v) r = r\<lparr>r_last_output_at := v\<rparr>"
| "apply_field (F_cancellation_requested_at v) r = r\<lparr>r_cancellation_requested_at := v\<rparr>"
| "apply_field (F_progress_json v) r = r\<lparr>r_progress_json := v\<rparr>"
| "apply_field (F_input_json v) r = r\<lparr>r_input_json := v\<rparr>"
| "apply_field (F_result_json v) r = r\<lparr>r_result_json := v\<rparr>"
| "apply_field (F_result_publication_status v) r = r\<lparr>r_result_publication_status := v\<rparr>"
| "apply_field (F_result_published_hash v) r = r\<lparr>r_result_published_hash := v\<rparr>"
| "apply_field (F_result_published_at v) r = r\<lparr>r_result_published_at := v\<rparr>"
| "apply_field (F_result_publication_error v) r = r\<lparr>r_result_publication_error := v\<rparr>"
| "apply_field (F_public_result_json v) r = r\<lparr>r_public_result_json := v\<rparr>"
| "apply_field (F_public_result_schema_version v) r = r\<lparr>r_public_result_schema_version := v\<rparr>"
| "apply_field (F_public_result_source_sha256 v) r = r\<lparr>r_public_result_source_sha256 := v\<rparr>"
| "apply_field (F_public_result_status v) r = r\<lparr>r_public_result_status := v\<rparr>"
| "apply_field (F_public_result_error v) r = r\<lparr>r_public_result_error := v\<rparr>"
| "apply_field (F_recovery_reason v) r = r\<lparr>r_recovery_reason := v\<rparr>"

definition apply_fields :: "run_field list \<Rightarrow> run_row \<Rightarrow> run_row" where
  "apply_fields fs r = foldl (\<lambda>acc f. apply_field f acc) r fs"

text \<open>
  \<open>_normalize_update_values\<close>: bounded text columns are cut, and a progress document that names
  \<open>last_output_at\<close> or \<open>cancellation_requested_at\<close> also sets those scalar columns.
\<close>

fun normalize_field :: "run_field \<Rightarrow> run_field" where
  "normalize_field (F_last_output_at v) = F_last_output_at (take 128 v)"
| "normalize_field (F_cancellation_requested_at v) = F_cancellation_requested_at (take 128 v)"
| "normalize_field (F_result_publication_status v) = F_result_publication_status (take 32 v)"
| "normalize_field (F_result_published_hash v) = F_result_published_hash (take 128 v)"
| "normalize_field (F_result_publication_error v) = F_result_publication_error (take 2000 v)"
| "normalize_field (F_public_result_schema_version v) = F_public_result_schema_version (take 128 v)"
| "normalize_field (F_public_result_source_sha256 v) = F_public_result_source_sha256 (take 128 v)"
| "normalize_field (F_public_result_status v) = F_public_result_status (take 32 v)"
| "normalize_field (F_public_result_error v) = F_public_result_error (take 2000 v)"
| "normalize_field f = f"

fun progress_document :: "run_field list \<Rightarrow> (string \<times> json) list option" where
  "progress_document [] = None"
| "progress_document (F_progress_json (JObj d) # fs) = Some d"
| "progress_document (f # fs) = progress_document fs"

definition progress_scalar :: "run_field list \<Rightarrow> string \<Rightarrow> (string \<Rightarrow> run_field) \<Rightarrow> run_field list" where
  "progress_scalar fs column mk =
     (case progress_document fs of
        None \<Rightarrow> []
      | Some d \<Rightarrow> if jget column d \<noteq> None \<and> column \<notin> field_name ` set fs
                  then [mk (take 128 (py_str_or_empty (jget column d)))] else [])"

definition normalize_update_values :: "run_field list \<Rightarrow> run_field list" where
  "normalize_update_values fs =
     map normalize_field
       (fs @ progress_scalar fs ''last_output_at'' F_last_output_at
           @ progress_scalar fs ''cancellation_requested_at'' F_cancellation_requested_at)"

fun phase_value :: "run_field list \<Rightarrow> string option" where
  "phase_value [] = None"
| "phase_value (F_current_phase v # fs) = Some v"
| "phase_value (f # fs) = phase_value fs"

section \<open>Guarded update\<close>

text \<open>
  The keyword arguments of \<open>conditional_update\<close>. In \<open>expected_heartbeat_at\<close>, \<open>None\<close> is the
  unset default and \<open>Some None\<close> asks for a NULL heartbeat.
\<close>

record guard =
  expected_statuses :: "string list option"
  expected_state_version :: "int option"
  expected_lease_token :: "string option"
  expected_lease_generation :: "int option"
  expected_heartbeat_at :: "timestamp option option"
  reject_terminal :: bool
  bump_state_version :: bool
  bump_state_version_if_phase_changes :: bool

definition default_guard :: guard where
  "default_guard = \<lparr>expected_statuses = None, expected_state_version = None,
     expected_lease_token = None, expected_lease_generation = None, expected_heartbeat_at = None,
     reject_terminal = False, bump_state_version = True, bump_state_version_if_phase_changes = False\<rparr>"

definition opt_is :: "'a option \<Rightarrow> 'a \<Rightarrow> bool" where
  "opt_is expected v = (case expected of None \<Rightarrow> True | Some e \<Rightarrow> v = e)"

definition guard_holds :: "guard \<Rightarrow> run_row \<Rightarrow> bool" where
  "guard_holds g r =
     ((case expected_statuses g of None \<Rightarrow> True | Some ss \<Rightarrow> r_status r \<in> set ss) \<and>
      opt_is (expected_state_version g) (r_state_version r) \<and>
      opt_is (expected_lease_token g) (r_worker_lease_token r) \<and>
      opt_is (expected_lease_generation g) (r_lease_generation r) \<and>
      opt_is (expected_heartbeat_at g) (r_heartbeat_at r) \<and>
      (reject_terminal g \<longrightarrow> \<not> is_terminal (r_status r)))"

definition set_clause :: "run_field list \<Rightarrow> guard \<Rightarrow> run_row \<Rightarrow> run_row" where
  "set_clause fs g r =
     (let r' = apply_fields fs r in
      if bump_state_version g then r'\<lparr>r_state_version := r_state_version r + 1\<rparr>
      else if bump_state_version_if_phase_changes g then
        (case phase_value fs of
           None \<Rightarrow> r'
         | Some ph \<Rightarrow> r'\<lparr>r_state_version := r_state_version r + (if r_current_phase r \<noteq> ph then 1 else 0)\<rparr>)
      else r')"

definition get_run :: "string \<Rightarrow> 'a run_db_scheme \<Rightarrow> py_error + run_row" where
  "get_run run_id db =
     (if \<not> valid_run_id run_id then Inl (invalid_run_id run_id)
      else case run_by_id run_id db of
             None \<Rightarrow> Inl (KeyError (''Run not found: '' @ run_id))
           | Some r \<Rightarrow> Inr r)"

text \<open>The statement \<open>conditional_update\<close> builds, executed in one transaction, and its row count.\<close>

definition exec_conditional ::
  "string \<Rightarrow> run_field list \<Rightarrow> guard \<Rightarrow> 'a run_db_scheme \<Rightarrow> ('a run_db_scheme, run_row option) outcome" where
  "exec_conditional run_id normalized g db =
     (let hit = (\<lambda>r. r_run_id r = run_id \<and> guard_holds g r);
          db' = db\<lparr>runs := sql_update hit (set_clause normalized g) (runs db)\<rparr>
      in if sql_count hit (runs db) \<noteq> 1 then (Inr None, db')
         else (case get_run run_id db' of Inl e \<Rightarrow> (Inl e, db') | Inr r \<Rightarrow> (Inr (Some r), db')))"

definition conditional_update ::
  "string \<Rightarrow> run_field list \<Rightarrow> guard \<Rightarrow> 'a run_db_scheme \<Rightarrow> ('a run_db_scheme, run_row option) outcome" where
  "conditional_update run_id fs g db =
     (if \<not> valid_run_id run_id then (Inl (invalid_run_id run_id), db)
      else if \<not> list_all (\<lambda>f. field_name f \<in> set CONDITIONAL_UPDATE_FIELDS) fs
        then (Inl (ValueError ''Unsupported conditional run fields''), db)
      else
        let normalized = normalize_update_values fs in
        if bump_state_version g \<and> bump_state_version_if_phase_changes g
          then (Inl (ValueError ''State version bump modes are mutually exclusive''), db)
        else if normalized = [] \<and> \<not> (bump_state_version g \<or> bump_state_version_if_phase_changes g)
          then (Inl (ValueError ''Conditional update requires fields or a version bump''), db)
        else if \<not> bump_state_version g \<and> bump_state_version_if_phase_changes g \<and> phase_value normalized = None
          then (Inl (ValueError ''Phase-sensitive state version bump requires current_phase''), db)
        else if expected_statuses g = Some [] then (Inr None, db)
        else exec_conditional run_id normalized g db)"

definition update_run ::
  "string \<Rightarrow> run_field list \<Rightarrow> 'a run_db_scheme \<Rightarrow> ('a run_db_scheme, run_row) outcome" where
  "update_run run_id fs db =
     (if \<not> valid_run_id run_id then (Inl (invalid_run_id run_id), db)
      else if fs = [] then (get_run run_id db, db)
      else
        let normalized = normalize_update_values fs;
            db' = db\<lparr>runs := sql_update (\<lambda>r. r_run_id r = run_id) (apply_fields normalized) (runs db)\<rparr>
        in (get_run run_id db', db'))"

subsection \<open>What an assignment keeps\<close>

lemma apply_field_keeps [simp]:
  "r_run_id (apply_field f r) = r_run_id r"
  "r_state_version (apply_field f r) = r_state_version r"
  "r_created_at (apply_field f r) = r_created_at r"
  "r_repo_name (apply_field f r) = r_repo_name r"
  "r_tool (apply_field f r) = r_tool r"
  "r_run_dir (apply_field f r) = r_run_dir r"
  by (cases f; simp)+

lemma apply_fields_Nil [simp]: "apply_fields [] r = r"
  by (simp add: apply_fields_def)

lemma apply_fields_Cons [simp]: "apply_fields (f # fs) r = apply_fields fs (apply_field f r)"
  by (simp add: apply_fields_def)

lemma apply_fields_keeps [simp]:
  "r_run_id (apply_fields fs r) = r_run_id r"
  "r_state_version (apply_fields fs r) = r_state_version r"
  "r_created_at (apply_fields fs r) = r_created_at r"
  "r_repo_name (apply_fields fs r) = r_repo_name r"
  "r_tool (apply_fields fs r) = r_tool r"
  "r_run_dir (apply_fields fs r) = r_run_dir r"
  by (induction fs arbitrary: r) simp_all

lemma set_clause_keeps [simp]:
  "r_run_id (set_clause fs g r) = r_run_id r"
  "r_created_at (set_clause fs g r) = r_created_at r"
  "r_repo_name (set_clause fs g r) = r_repo_name r"
  "r_tool (set_clause fs g r) = r_tool r"
  "r_run_dir (set_clause fs g r) = r_run_dir r"
  by (simp_all add: set_clause_def Let_def split: option.split)

lemma set_clause_version_bump:
  "bump_state_version g \<Longrightarrow> r_state_version (set_clause fs g r) = r_state_version r + 1"
  by (simp add: set_clause_def)

lemma set_clause_version_mono: "r_state_version r \<le> r_state_version (set_clause fs g r)"
  by (simp add: set_clause_def Let_def split: option.split)

lemma normalize_field_name [simp]: "field_name (normalize_field f) = field_name f"
  by (cases f) simp_all

lemma phase_value_None_iff: "phase_value fs = None \<longleftrightarrow> ''current_phase'' \<notin> field_name ` set fs"
proof (induction fs)
  case (Cons f fs)
  then show ?case by (cases f) simp_all
qed simp

subsection \<open>The guarded update as a compare-and-set\<close>

definition wf_runs :: "'a run_db_scheme \<Rightarrow> bool" where
  "wf_runs db = unique_key r_run_id (runs db)"

text \<open>The table after a guarded update that matched.\<close>

definition put_run :: "string \<Rightarrow> run_row \<Rightarrow> 'a run_db_scheme \<Rightarrow> 'a run_db_scheme" where
  "put_run run_id row db = db\<lparr>runs := sql_update (\<lambda>r. r_run_id r = run_id) (\<lambda>_. row) (runs db)\<rparr>"

lemma put_run_eq:
  assumes "wf_runs db" "run_by_id run_id db = Some old" "guard_holds g old"
  shows "sql_update (\<lambda>r. r_run_id r = run_id \<and> guard_holds g r) f (runs db)
       = sql_update (\<lambda>r. r_run_id r = run_id) (\<lambda>_. f old) (runs db)"
proof -
  have "r = old" if "r \<in> set (runs db)" "r_run_id r = run_id" for r
    using assms that by_key_unique [of r_run_id "runs db" r] by (simp add: wf_runs_def run_by_id_def)
  with assms(3) show ?thesis by (auto simp: sql_update_def)
qed

lemma put_run_more [simp]:
  "events (put_run k row db) = events db" "event_seq (put_run k row db) = event_seq db"
  "run_db.more (put_run k row db) = run_db.more db"
  by (simp_all add: put_run_def)

lemma run_by_id_put_run:
  assumes "r_run_id row = k"
  shows "run_by_id k' (put_run k row db) = (if k' = k then map_option (\<lambda>_. row) (run_by_id k db) else run_by_id k' db)"
proof -
  have "by_key r_run_id k' (sql_update (\<lambda>r. r_run_id r = k) (\<lambda>_. row) rows) =
      (if k' = k then map_option (\<lambda>_. row) (by_key r_run_id k rows) else by_key r_run_id k' rows)" for rows
    using assms by (induction rows) (auto simp: sql_update_def)
  then show ?thesis by (simp add: run_by_id_def put_run_def)
qed

lemma put_run_keys:
  "r_run_id row = k \<Longrightarrow> map r_run_id (runs (put_run k row db)) = map r_run_id (runs db)"
  by (auto simp: put_run_def sql_update_def)

lemma wf_runs_put_run [simp]: "r_run_id row = k \<Longrightarrow> wf_runs (put_run k row db) = wf_runs db"
  by (simp add: wf_runs_def unique_key_def put_run_keys)

lemma run_by_id_key: "run_by_id k db = Some r \<Longrightarrow> r_run_id r = k"
  unfolding run_by_id_def by (rule by_key_Some_key)

text \<open>
  The three ways a guarded update ends: it raises and nothing is written, its guard does not
  hold and nothing is written, or exactly the named row is replaced.
\<close>

lemma exec_conditional_hit:
  assumes "wf_runs db" "valid_run_id k" "run_by_id k db = Some old" "guard_holds g old"
  shows "exec_conditional k fs g db = (Inr (Some (set_clause fs g old)), put_run k (set_clause fs g old) db)"
proof -
  let ?hit = "\<lambda>r. r_run_id r = k \<and> guard_holds g r"
  have cnt: "sql_count ?hit (runs db) = 1"
    using assms sql_count_key_1_iff [of r_run_id "runs db" k "guard_holds g"]
    by (simp add: wf_runs_def run_by_id_def)
  have upd: "db\<lparr>runs := sql_update ?hit (set_clause fs g) (runs db)\<rparr> = put_run k (set_clause fs g old) db"
    using put_run_eq [OF assms(1,3,4)] by (simp add: put_run_def)
  have "r_run_id (set_clause fs g old) = k" using run_by_id_key [OF assms(3)] by simp
  then have "get_run k (put_run k (set_clause fs g old) db) = Inr (set_clause fs g old)"
    using assms(2,3) by (simp add: get_run_def run_by_id_put_run)
  with cnt upd show ?thesis by (simp add: exec_conditional_def)
qed

lemma exec_conditional_miss:
  assumes "wf_runs db" "\<And>old. run_by_id k db = Some old \<Longrightarrow> \<not> guard_holds g old"
  shows "exec_conditional k fs g db = (Inr None, db)"
proof -
  let ?hit = "\<lambda>r. r_run_id r = k \<and> guard_holds g r"
  have cnt: "sql_count ?hit (runs db) = 0"
    using assms by (auto simp: sql_count_key wf_runs_def run_by_id_def split: option.split)
  then have "sql_update ?hit (set_clause fs g) (runs db) = runs db"
    by (intro sql_update_noop) (simp add: sql_count_0_iff)
  with cnt show ?thesis by (simp add: exec_conditional_def)
qed

lemma conditional_update_exec:
  "(\<exists>e. conditional_update k fs g db = (Inl e, db)) \<or>
   conditional_update k fs g db = (Inr None, db) \<or>
   valid_run_id k \<and> conditional_update k fs g db = exec_conditional k (normalize_update_values fs) g db"
  by (simp add: conditional_update_def Let_def)

lemma conditional_update_cases:
  assumes wf: "wf_runs db" and eq: "conditional_update k fs g db = (res, db')"
  obtains (raised) e where "res = Inl e" "db' = db"
    | (missed) "res = Inr None" "db' = db"
    | (updated) old where "run_by_id k db = Some old" "guard_holds g old" "valid_run_id k"
        "res = Inr (Some (set_clause (normalize_update_values fs) g old))"
        "db' = put_run k (set_clause (normalize_update_values fs) g old) db"
proof (cases "valid_run_id k \<and> (\<exists>old. run_by_id k db = Some old \<and> guard_holds g old)
    \<and> conditional_update k fs g db = exec_conditional k (normalize_update_values fs) g db")
  case True
  then show thesis using updated exec_conditional_hit [OF wf] eq by fastforce
next
  case False
  then have "(\<exists>e. conditional_update k fs g db = (Inl e, db)) \<or> conditional_update k fs g db = (Inr None, db)"
    using conditional_update_exec [of k fs g db] exec_conditional_miss [OF wf, of k g] by metis
  then show thesis using raised missed eq by auto
qed

text \<open>When the arguments are well formed, the guard alone decides.\<close>

definition update_args_ok :: "run_field list \<Rightarrow> guard \<Rightarrow> bool" where
  "update_args_ok fs g =
     (list_all (\<lambda>f. field_name f \<in> set CONDITIONAL_UPDATE_FIELDS) fs \<and>
      \<not> (bump_state_version g \<and> bump_state_version_if_phase_changes g) \<and>
      (fs \<noteq> [] \<or> bump_state_version g) \<and>
      (bump_state_version_if_phase_changes g \<longrightarrow> ''current_phase'' \<in> field_name ` set fs))"

lemma normalize_empty_iff: "normalize_update_values fs = [] \<longleftrightarrow> fs = []"
  by (auto simp: normalize_update_values_def progress_scalar_def)

lemma phase_value_normalize:
  "''current_phase'' \<in> field_name ` set fs \<Longrightarrow> phase_value (normalize_update_values fs) \<noteq> None"
  by (auto simp: phase_value_None_iff normalize_update_values_def image_Un image_image)

lemma conditional_update_ok:
  assumes "wf_runs db" "valid_run_id k" "update_args_ok fs g" "expected_statuses g \<noteq> Some []"
  shows "conditional_update k fs g db =
     (case run_by_id k db of
        Some old \<Rightarrow> if guard_holds g old
          then (Inr (Some (set_clause (normalize_update_values fs) g old)),
                put_run k (set_clause (normalize_update_values fs) g old) db)
          else (Inr None, db)
      | None \<Rightarrow> (Inr None, db))"
proof -
  have "conditional_update k fs g db = exec_conditional k (normalize_update_values fs) g db"
    using assms phase_value_normalize [of fs]
    by (auto simp: conditional_update_def update_args_ok_def Let_def normalize_empty_iff)
  then show ?thesis
  proof (cases "run_by_id k db")
    case None
    then show ?thesis
      using \<open>conditional_update k fs g db = _\<close> exec_conditional_miss [OF assms(1), of k g] by simp
  next
    case (Some old)
    show ?thesis
    proof (cases "guard_holds g old")
      case True
      with Some show ?thesis
        using \<open>conditional_update k fs g db = _\<close> exec_conditional_hit [OF assms(1,2)] by simp
    next
      case False
      with Some show ?thesis
        using \<open>conditional_update k fs g db = _\<close> exec_conditional_miss [OF assms(1), of k g] by simp
    qed
  qed
qed

end
