(* ===== verification/Run_Lifecycle.thy ===== *)
theory Run_Lifecycle
  imports Run_Store
begin

text \<open>
  The operations of \<open>RunStore\<close> that create a run and move it through its life: launch, claim by
  a worker, progress, adoption, recovery, the terminal transition and the publication of its
  result. Each is a guarded update; what differs is the guard and the columns. The step relation
  \<open>run_step\<close> collects them, and the theorems state which facts about a run no interleaving of
  these operations can change.
\<close>

section \<open>Creation and events\<close>

definition new_run ::
  "string \<Rightarrow> string \<Rightarrow> string \<Rightarrow> string \<Rightarrow> json \<Rightarrow> string \<Rightarrow> bool \<Rightarrow> string \<Rightarrow> string \<Rightarrow> timestamp \<Rightarrow> run_row" where
  "new_run run_id repo_name tool run_dir input_data risk_level requires_human status lease_token now =
     \<lparr>r_run_id = run_id, r_repo_name = repo_name, r_tool = tool, r_status = status,
      r_risk_level = risk_level, r_requires_human = requires_human, r_created_at = now,
      r_started_at = None, r_ended_at = None, r_duration_seconds = None, r_pid = None,
      r_launcher_pid = None, r_worker_pid = None, r_worker_lease_token = lease_token,
      r_lease_generation = 1, r_state_version = 0, r_worker_identity = [],
      r_worker_claimed_at = None, r_launch_attempts = 0, r_recovery_reason = [],
      r_exit_code = None, r_run_dir = run_dir, r_summary = [], r_error = [],
      r_safety_failure = False, r_current_phase = status, r_elapsed_seconds = ''0'',
      r_heartbeat_at = Some now, r_last_output_at = [], r_cancellation_requested_at = [],
      r_progress_json = JObj [], r_input_json = input_data, r_result_json = JObj [],
      r_result_publication_status = ''not_published'', r_result_published_hash = [],
      r_result_published_at = None, r_result_publication_error = [], r_public_result_json = JObj [],
      r_public_result_schema_version = [], r_public_result_source_sha256 = [],
      r_public_result_status = ''not_materialized'', r_public_result_error = []\<rparr>"

definition create_run ::
  "string \<Rightarrow> string \<Rightarrow> string \<Rightarrow> string \<Rightarrow> json \<Rightarrow> string \<Rightarrow> bool \<Rightarrow> string \<Rightarrow> string \<Rightarrow> timestamp \<Rightarrow>
   'a run_db_scheme \<Rightarrow> ('a run_db_scheme, run_row) outcome" where
  "create_run run_id repo_name tool run_dir input_data risk_level requires_human status lease_token now db =
     (if \<not> valid_run_id run_id then (Inl (invalid_run_id run_id), db)
      else if run_by_id run_id db \<noteq> None then (Inl (IntegrityError ''UNIQUE constraint failed: runs.run_id''), db)
      else
        let row = new_run run_id repo_name tool run_dir input_data risk_level requires_human status lease_token now;
            db' = db\<lparr>runs := runs db @ [row]\<rparr>
        in (get_run run_id db', db'))"

definition or_now :: "timestamp option \<Rightarrow> timestamp \<Rightarrow> timestamp" where
  "or_now t now = (case t of None \<Rightarrow> now | Some s \<Rightarrow> if s = [] then now else s)"

text \<open>The row of \<open>events\<close>: the id is the next AUTOINCREMENT value, and the run must exist.\<close>

definition insert_event :: "run_event \<Rightarrow> 'a run_db_scheme \<Rightarrow> ('a run_db_scheme, unit) outcome" where
  "insert_event ev db =
     (if run_by_id (e_run_id ev) db = None
      then (Inl (IntegrityError ''FOREIGN KEY constraint failed''), db)
      else (Inr (), db\<lparr>event_seq := event_seq db + 1,
              events := events db @ [run_event.extend ev (event_row.fields (event_seq db + 1))]\<rparr>))"

definition append_event ::
  "string \<Rightarrow> string \<Rightarrow> string \<Rightarrow> string \<Rightarrow> (string \<times> json) list option \<Rightarrow> timestamp option \<Rightarrow> bool \<Rightarrow> timestamp \<Rightarrow>
   'a run_db_scheme \<Rightarrow> ('a run_db_scheme, run_event) outcome" where
  "append_event run_id level stage message data timestamp update_run_metadata now db =
     (if \<not> valid_run_id run_id then (Inl (invalid_run_id run_id), db)
      else
        let ev = \<lparr>e_timestamp = or_now timestamp now, e_run_id = run_id, e_level = level,
                  e_stage = stage, e_message = message,
                  e_data = JObj (case data of None \<Rightarrow> [] | Some d \<Rightarrow> d)\<rparr>;
            insert = (\<lambda>db1. case insert_event ev db1 of
                        (Inl e, db2) \<Rightarrow> (Inl e, db2) | (Inr _, db2) \<Rightarrow> (Inr ev, db2))
        in if update_run_metadata then
             (case conditional_update run_id
                     [F_heartbeat_at (Some (e_timestamp ev)), F_current_phase stage]
                     (default_guard\<lparr>bump_state_version := False,
                                    bump_state_version_if_phase_changes := True\<rparr>) db of
                (Inl e, db1) \<Rightarrow> (Inl e, db1)
              | (Inr None, db1) \<Rightarrow> (Inl (KeyError (''Run not found: '' @ run_id)), db1)
              | (Inr (Some _), db1) \<Rightarrow> insert db1)
           else insert db)"

section \<open>Launch and claim\<close>

definition record_worker_launch ::
  "string \<Rightarrow> int \<Rightarrow> int option \<Rightarrow> string option \<Rightarrow> int option \<Rightarrow> bool \<Rightarrow> timestamp \<Rightarrow>
   'a run_db_scheme \<Rightarrow> ('a run_db_scheme, run_row option) outcome" where
  "record_worker_launch run_id launcher_pid exp_version exp_token exp_generation increment_attempt now db =
     (case get_run run_id db of
        Inl e \<Rightarrow> (Inl e, db)
      | Inr current \<Rightarrow>
          let version = (case exp_version of None \<Rightarrow> r_state_version current | Some v \<Rightarrow> v);
              token = (case exp_token of None \<Rightarrow> r_worker_lease_token current | Some t \<Rightarrow> t);
              generation = (case exp_generation of None \<Rightarrow> r_lease_generation current | Some n \<Rightarrow> n);
              fs = [F_status ''queued'', F_current_phase ''queued'', F_launcher_pid (Some launcher_pid),
                    F_heartbeat_at (Some now), F_recovery_reason []]
                   @ (if increment_attempt then [F_launch_attempts (r_launch_attempts current + 1)] else [])
          in conditional_update run_id fs
               (default_guard\<lparr>expected_statuses := Some [''launch_pending''],
                  expected_state_version := Some version, expected_lease_token := Some token,
                  expected_lease_generation := Some generation, reject_terminal := True\<rparr>) db)"

definition claim_worker ::
  "string \<Rightarrow> string \<Rightarrow> int \<Rightarrow> string \<Rightarrow> int option \<Rightarrow> int option \<Rightarrow> timestamp \<Rightarrow>
   'a run_db_scheme \<Rightarrow> ('a run_db_scheme, bool) outcome" where
  "claim_worker run_id lease_token worker_pid worker_identity lease_generation exp_version now db =
     (case get_run run_id db of
        Inl e \<Rightarrow> (Inl e, db)
      | Inr current \<Rightarrow>
          let generation = (case lease_generation of None \<Rightarrow> r_lease_generation current | Some n \<Rightarrow> n);
              version = (case exp_version of None \<Rightarrow> r_state_version current | Some v \<Rightarrow> v)
          in (case conditional_update run_id
                     [F_status ''running'', F_current_phase ''worker'', F_worker_pid (Some worker_pid),
                      F_worker_identity worker_identity, F_worker_claimed_at (Some now),
                      F_started_at (Some (or_now (r_started_at current) now)),
                      F_heartbeat_at (Some now), F_recovery_reason []]
                     (default_guard\<lparr>expected_statuses := Some [''launch_pending'', ''queued''],
                        expected_state_version := Some version, expected_lease_token := Some lease_token,
                        expected_lease_generation := Some generation, reject_terminal := True\<rparr>) db of
                (Inl e, db') \<Rightarrow> (Inl e, db')
              | (Inr updated, db') \<Rightarrow> (Inr (updated \<noteq> None), db')))"

section \<open>A worker at work\<close>

definition answered :: "('db, run_row option) outcome \<Rightarrow> ('db, bool) outcome" where
  "answered res = (case res of (Inl e, db') \<Rightarrow> (Inl e, db') | (Inr updated, db') \<Rightarrow> (Inr (updated \<noteq> None), db'))"

definition running_guard :: "string \<Rightarrow> int \<Rightarrow> guard" where
  "running_guard lease_token generation =
     default_guard\<lparr>expected_statuses := Some [''running''], expected_lease_token := Some lease_token,
                    expected_lease_generation := Some generation\<rparr>"

definition update_worker_progress ::
  "string \<Rightarrow> string \<Rightarrow> int \<Rightarrow> string \<Rightarrow> pyfloat \<Rightarrow> (string \<times> json) list option \<Rightarrow> timestamp \<Rightarrow>
   'a run_db_scheme \<Rightarrow> ('a run_db_scheme, bool) outcome" where
  "update_worker_progress run_id lease_token lease_generation phase elapsed progress now db =
     answered (conditional_update run_id
       [F_current_phase phase, F_heartbeat_at (Some now), F_elapsed_seconds elapsed,
        F_progress_json (JObj (case progress of None \<Rightarrow> [] | Some d \<Rightarrow> d))]
       ((running_guard lease_token lease_generation)\<lparr>bump_state_version := False,
          bump_state_version_if_phase_changes := True\<rparr>) db)"

definition as_object :: "json \<Rightarrow> (string \<times> json) list" where
  "as_object j = (case j of JObj d \<Rightarrow> d | _ \<Rightarrow> [])"

definition heartbeat_worker ::
  "string \<Rightarrow> string \<Rightarrow> pyfloat \<Rightarrow> (string \<times> json) list option \<Rightarrow> int option \<Rightarrow> timestamp \<Rightarrow>
   'a run_db_scheme \<Rightarrow> ('a run_db_scheme, bool) outcome" where
  "heartbeat_worker run_id lease_token elapsed progress_updates lease_generation now db =
     (case get_run run_id db of
        Inl e \<Rightarrow> (Inl e, db)
      | Inr current \<Rightarrow>
          let generation = (case lease_generation of None \<Rightarrow> r_lease_generation current | Some n \<Rightarrow> n);
              progress = jupdate (as_object (r_progress_json current))
                                 (case progress_updates of None \<Rightarrow> [] | Some u \<Rightarrow> u)
          in answered (conditional_update run_id
               [F_heartbeat_at (Some now), F_elapsed_seconds elapsed, F_progress_json (JObj progress)]
               ((running_guard lease_token generation)\<lparr>bump_state_version := False\<rparr>) db))"

definition attach_child_pid ::
  "string \<Rightarrow> int \<Rightarrow> string \<Rightarrow> int \<Rightarrow> timestamp \<Rightarrow> 'a run_db_scheme \<Rightarrow> ('a run_db_scheme, bool) outcome" where
  "attach_child_pid run_id child_pid lease_token lease_generation now db =
     answered (conditional_update run_id [F_pid (Some child_pid), F_heartbeat_at (Some now)]
       (running_guard lease_token lease_generation) db)"

definition adopt_worker ::
  "string \<Rightarrow> int \<Rightarrow> string \<Rightarrow> int \<Rightarrow> timestamp option \<Rightarrow> timestamp \<Rightarrow>
   'a run_db_scheme \<Rightarrow> ('a run_db_scheme, run_row option) outcome" where
  "adopt_worker run_id exp_version lease_token lease_generation exp_heartbeat now db =
     conditional_update run_id
       [F_current_phase ''worker'', F_heartbeat_at (Some now), F_recovery_reason []]
       ((running_guard lease_token lease_generation)\<lparr>expected_state_version := Some exp_version,
          expected_heartbeat_at := Some exp_heartbeat, reject_terminal := True\<rparr>) db"

definition set_progress ::
  "string \<Rightarrow> string \<Rightarrow> (string \<times> json) list option \<Rightarrow> pyfloat option \<Rightarrow> timestamp option \<Rightarrow> timestamp \<Rightarrow>
   'a run_db_scheme \<Rightarrow> ('a run_db_scheme, run_row) outcome" where
  "set_progress run_id phase progress elapsed heartbeat_at now db =
     (case conditional_update run_id
             ([F_current_phase phase, F_heartbeat_at (Some (or_now heartbeat_at now)),
               F_progress_json (JObj (case progress of None \<Rightarrow> [] | Some d \<Rightarrow> d))]
              @ (case elapsed of None \<Rightarrow> [] | Some x \<Rightarrow> [F_elapsed_seconds x]))
             (default_guard\<lparr>bump_state_version := False, bump_state_version_if_phase_changes := True\<rparr>) db of
        (Inl e, db') \<Rightarrow> (Inl e, db')
      | (Inr None, db') \<Rightarrow> (Inl (KeyError (''Run not found: '' @ run_id)), db')
      | (Inr (Some r), db') \<Rightarrow> (Inr r, db'))"

definition heartbeat ::
  "string \<Rightarrow> pyfloat \<Rightarrow> (string \<times> json) list option \<Rightarrow> timestamp \<Rightarrow>
   'a run_db_scheme \<Rightarrow> ('a run_db_scheme, run_row) outcome" where
  "heartbeat run_id elapsed progress_updates now db =
     (case get_run run_id db of
        Inl e \<Rightarrow> (Inl e, db)
      | Inr current \<Rightarrow>
          set_progress run_id
            (if r_current_phase current = [] then ''running'' else r_current_phase current)
            (Some (jupdate (as_object (r_progress_json current))
                           (case progress_updates of None \<Rightarrow> [] | Some u \<Rightarrow> u)))
            (Some elapsed) None now db)"

section \<open>Recovery and the terminal transition\<close>

definition statuses_or_current :: "string list option \<Rightarrow> run_row \<Rightarrow> string list" where
  "statuses_or_current exp current =
     (case exp of None \<Rightarrow> [r_status current] | Some ss \<Rightarrow> if ss = [] then [r_status current] else ss)"

definition mark_recovery_pending ::
  "string \<Rightarrow> string \<Rightarrow> string list option \<Rightarrow> int option \<Rightarrow> string option \<Rightarrow> int option \<Rightarrow> timestamp option option \<Rightarrow>
   'a run_db_scheme \<Rightarrow> ('a run_db_scheme, run_row option) outcome" where
  "mark_recovery_pending run_id reason exp_statuses exp_version exp_token exp_generation exp_heartbeat db =
     (case get_run run_id db of
        Inl e \<Rightarrow> (Inl e, db)
      | Inr current \<Rightarrow>
          conditional_update run_id
            [F_status ''recovery_pending'', F_current_phase ''recovery_pending'',
             F_recovery_reason reason, F_error reason, F_ended_at None]
            (default_guard\<lparr>expected_statuses := Some (statuses_or_current exp_statuses current),
               expected_state_version := Some (case exp_version of None \<Rightarrow> r_state_version current | Some v \<Rightarrow> v),
               expected_lease_token := exp_token, expected_lease_generation := exp_generation,
               expected_heartbeat_at := exp_heartbeat, reject_terminal := True\<rparr>) db)"

text \<open>The values a worker or the reconciler hands to the terminal transition.\<close>

record terminal_report =
  tr_status :: string
  tr_result :: json
  tr_ended_at :: "timestamp option"
  tr_duration_seconds :: "pyfloat option"
  tr_exit_code :: "int option"
  tr_summary :: string
  tr_error :: string
  tr_safety_failure :: bool
  tr_recovery_reason :: string
  tr_progress :: "(string \<times> json) list option"

definition transition_terminal ::
  "string \<Rightarrow> terminal_report \<Rightarrow> string list \<Rightarrow> int \<Rightarrow> string option \<Rightarrow> int option \<Rightarrow> timestamp option option \<Rightarrow> timestamp \<Rightarrow>
   'a run_db_scheme \<Rightarrow> ('a run_db_scheme, run_row option) outcome" where
  "transition_terminal run_id rep exp_statuses exp_version exp_token exp_generation exp_heartbeat now db =
     (if \<not> is_terminal (tr_status rep)
      then (Inl (ValueError (''Not a terminal run status: '' @ tr_status rep)), db)
      else conditional_update run_id
        ([F_status (tr_status rep), F_current_phase ''result'',
          F_ended_at (Some (or_now (tr_ended_at rep) now)),
          F_duration_seconds (tr_duration_seconds rep), F_exit_code (tr_exit_code rep),
          F_summary (tr_summary rep), F_error (tr_error rep),
          F_safety_failure (tr_safety_failure rep), F_result_json (tr_result rep),
          F_result_publication_status ''pending'', F_result_published_hash [],
          F_result_published_at None, F_result_publication_error [],
          F_public_result_json (JObj []), F_public_result_schema_version [],
          F_public_result_source_sha256 [], F_public_result_status ''not_materialized'',
          F_public_result_error [], F_recovery_reason (tr_recovery_reason rep)]
         @ (case tr_progress rep of None \<Rightarrow> [] | Some d \<Rightarrow> [F_progress_json (JObj d)]))
        (default_guard\<lparr>expected_statuses := Some exp_statuses, expected_state_version := Some exp_version,
           expected_lease_token := exp_token, expected_lease_generation := exp_generation,
           expected_heartbeat_at := exp_heartbeat, reject_terminal := True\<rparr>) db)"

definition opt_str :: "string option \<Rightarrow> json" where
  "opt_str x = (case x of None \<Rightarrow> JNull | Some s \<Rightarrow> JStr s)"

definition opt_float :: "pyfloat option \<Rightarrow> json" where
  "opt_float x = (case x of None \<Rightarrow> JNull | Some s \<Rightarrow> JFloat s)"

definition infrastructure_result :: "run_row \<Rightarrow> string \<Rightarrow> timestamp \<Rightarrow> json" where
  "infrastructure_result run reason ended_at = JObj
     [(''run_id'', JStr (r_run_id run)), (''repo_name'', JStr (r_repo_name run)),
      (''tool'', JStr (r_tool run)), (''status'', JStr ''failed''),
      (''classification'', JStr ''infrastructure_failure''), (''process_success'', JNull),
      (''exit_code'', JNull), (''stdout'', JStr []), (''stderr'', JStr []),
      (''started_at'', opt_str (r_started_at run)), (''ended_at'', JStr ended_at),
      (''duration_seconds'', opt_float (r_duration_seconds run)), (''summary'', JStr reason),
      (''error'', JStr reason), (''cancelled'', JBool False), (''timed_out'', JBool False)]"

definition fail_infrastructure ::
  "string \<Rightarrow> string \<Rightarrow> string list option \<Rightarrow> int option \<Rightarrow> string option \<Rightarrow> int option \<Rightarrow> timestamp option option \<Rightarrow> timestamp \<Rightarrow>
   'a run_db_scheme \<Rightarrow> ('a run_db_scheme, run_row option) outcome" where
  "fail_infrastructure run_id reason exp_statuses exp_version exp_token exp_generation exp_heartbeat now db =
     (case get_run run_id db of
        Inl e \<Rightarrow> (Inl e, db)
      | Inr run \<Rightarrow>
          transition_terminal run_id
            \<lparr>tr_status = ''failed'', tr_result = infrastructure_result run reason now,
             tr_ended_at = Some now, tr_duration_seconds = r_duration_seconds run,
             tr_exit_code = None, tr_summary = reason, tr_error = reason, tr_safety_failure = False,
             tr_recovery_reason = reason, tr_progress = None\<rparr>
            (statuses_or_current exp_statuses run)
            (case exp_version of None \<Rightarrow> r_state_version run | Some v \<Rightarrow> v)
            exp_token exp_generation exp_heartbeat now db)"

section \<open>Publication of the result\<close>

definition PUBLIC_RESULT_SCHEMA_VERSION :: string where
  "PUBLIC_RESULT_SCHEMA_VERSION = ''cf1.public-result.v1''"

definition PUBLIC_RESULT_STATUSES :: "string list" where
  "PUBLIC_RESULT_STATUSES = [''not_materialized'', ''ready'', ''fallback'']"

definition PUBLICATION_STATUSES :: "string list" where
  "PUBLICATION_STATUSES = [''published'', ''failed'', ''pending'']"

definition terminal_guard :: "int \<Rightarrow> guard" where
  "terminal_guard exp_version =
     default_guard\<lparr>expected_statuses := Some TERMINAL_STATUSES, expected_state_version := Some exp_version\<rparr>"

definition record_result_publication ::
  "string \<Rightarrow> string \<Rightarrow> string \<Rightarrow> timestamp option \<Rightarrow> string \<Rightarrow> int \<Rightarrow>
   'a run_db_scheme \<Rightarrow> ('a run_db_scheme, run_row option) outcome" where
  "record_result_publication run_id status published_hash published_at error exp_version db =
     (if status \<notin> set PUBLICATION_STATUSES
      then (Inl (ValueError (''Invalid result publication status: '' @ status)), db)
      else conditional_update run_id
        [F_result_publication_status status, F_result_published_hash published_hash,
         F_result_published_at published_at, F_result_publication_error error]
        (terminal_guard exp_version) db)"

definition record_result_publication_with_projection ::
  "string \<Rightarrow> string \<Rightarrow> string \<Rightarrow> timestamp option \<Rightarrow> string \<Rightarrow> json \<Rightarrow> string \<Rightarrow> string \<Rightarrow> string \<Rightarrow> int \<Rightarrow>
   'a run_db_scheme \<Rightarrow> ('a run_db_scheme, run_row option) outcome" where
  "record_result_publication_with_projection run_id status published_hash published_at error
       public_result source_sha256 public_status public_error exp_version db =
     (if status \<notin> set PUBLICATION_STATUSES
      then (Inl (ValueError (''Invalid result publication status: '' @ status)), db)
      else if public_status \<notin> set PUBLIC_RESULT_STATUSES
      then (Inl (ValueError (''Invalid public result status: '' @ public_status)), db)
      else conditional_update run_id
        [F_result_publication_status status, F_result_published_hash published_hash,
         F_result_published_at published_at, F_result_publication_error error,
         F_public_result_json public_result,
         F_public_result_schema_version PUBLIC_RESULT_SCHEMA_VERSION,
         F_public_result_source_sha256 source_sha256, F_public_result_status public_status,
         F_public_result_error public_error]
        (terminal_guard exp_version) db)"

definition record_public_result ::
  "string \<Rightarrow> json \<Rightarrow> string \<Rightarrow> string \<Rightarrow> string \<Rightarrow> int \<Rightarrow>
   'a run_db_scheme \<Rightarrow> ('a run_db_scheme, run_row option) outcome" where
  "record_public_result run_id public_result source_sha256 status error exp_version db =
     (if status \<notin> set PUBLIC_RESULT_STATUSES
      then (Inl (ValueError (''Invalid public result status: '' @ status)), db)
      else conditional_update run_id
        [F_public_result_json public_result,
         F_public_result_schema_version PUBLIC_RESULT_SCHEMA_VERSION,
         F_public_result_source_sha256 source_sha256, F_public_result_status status,
         F_public_result_error error]
        (terminal_guard exp_version) db)"


section \<open>How a row may evolve\<close>

text \<open>
  The outcome of a run: what a terminal transition decides. The control part of a row: everything
  but the columns that only report liveness.
\<close>

definition outcome_of ::
  "run_row \<Rightarrow> string \<times> json \<times> timestamp option \<times> pyfloat option \<times> int option \<times> string \<times> string \<times> bool" where
  "outcome_of r = (r_status r, r_result_json r, r_ended_at r, r_duration_seconds r, r_exit_code r,
                   r_summary r, r_error r, r_safety_failure r)"

definition control_of :: "run_row \<Rightarrow> run_row" where
  "control_of r = r\<lparr>r_heartbeat_at := None, r_current_phase := [], r_elapsed_seconds := [],
     r_progress_json := JNull, r_last_output_at := [], r_cancellation_requested_at := []\<rparr>"

definition identity_of :: "run_row \<Rightarrow> string \<times> string \<times> string \<times> string \<times> timestamp \<times> json" where
  "identity_of r = (r_run_id r, r_repo_name r, r_tool r, r_run_dir r, r_created_at r, r_input_json r)"

definition OUTCOME_FIELDS :: "string list" where
  "OUTCOME_FIELDS = [''status'', ''result_json'', ''ended_at'', ''duration_seconds'', ''exit_code'',
     ''summary'', ''error'', ''safety_failure'']"

definition LIVENESS_FIELDS :: "string list" where
  "LIVENESS_FIELDS = [''heartbeat_at'', ''current_phase'', ''elapsed_seconds'', ''progress_json'',
     ''last_output_at'', ''cancellation_requested_at'']"

text \<open>The statuses a run has before a worker holds it.\<close>

definition prelaunch :: "string \<Rightarrow> bool" where
  "prelaunch s = (s \<in> set [''pending'', ''launch_pending'', ''queued''])"

text \<open>
  \<open>row_advances r r'\<close>: the identity is kept, version and lease generation do not decrease, a
  terminal outcome is final, a run that has left the statuses before its launch never returns to
  them, and an unchanged version means an unchanged control part, so that a compare on the version
  misses no change of state or ownership.
\<close>

definition row_advances :: "run_row \<Rightarrow> run_row \<Rightarrow> bool" where
  "row_advances r r' =
     (identity_of r' = identity_of r \<and>
      r_state_version r \<le> r_state_version r' \<and>
      r_lease_generation r \<le> r_lease_generation r' \<and>
      (is_terminal (r_status r) \<longrightarrow> outcome_of r' = outcome_of r) \<and>
      (\<not> prelaunch (r_status r) \<longrightarrow> \<not> prelaunch (r_status r')) \<and>
      (r_state_version r' = r_state_version r \<longrightarrow> control_of r' = control_of r))"

definition db_advances :: "'a run_db_scheme \<Rightarrow> 'a run_db_scheme \<Rightarrow> bool" where
  "db_advances db db' =
     (wf_runs db' \<and>
      (\<forall>k r. run_by_id k db = Some r \<longrightarrow> (\<exists>r'. run_by_id k db' = Some r' \<and> row_advances r r')))"

lemma outcome_status: "outcome_of r' = outcome_of r \<Longrightarrow> r_status r' = r_status r"
  by (simp add: outcome_of_def)

lemma row_advances_refl [simp]: "row_advances r r"
  by (simp add: row_advances_def)

lemma row_advances_trans:
  assumes "row_advances a b" "row_advances b c"
  shows "row_advances a c"
  using assms outcome_status [of b a] unfolding row_advances_def by auto

lemma db_advances_refl [simp]: "wf_runs db \<Longrightarrow> db_advances db db"
  by (simp add: db_advances_def)

lemma db_advances_trans: "db_advances a b \<Longrightarrow> db_advances b c \<Longrightarrow> db_advances a c"
  unfolding db_advances_def by (meson row_advances_trans)

lemma db_advancesD:
  "db_advances db db' \<Longrightarrow> run_by_id k db = Some r \<Longrightarrow> \<exists>r'. run_by_id k db' = Some r' \<and> row_advances r r'"
  by (simp add: db_advances_def)

lemma db_advances_put_run:
  assumes "wf_runs db" "run_by_id k db = Some old" "row_advances old row" "r_run_id row = k"
  shows "db_advances db (put_run k row db)"
  using assms by (simp add: db_advances_def run_by_id_put_run)

subsection \<open>Which assignments a lifecycle update may make\<close>

definition touches_none :: "string list \<Rightarrow> run_field list \<Rightarrow> bool" where
  "touches_none columns fs = list_all (\<lambda>f. field_name f \<notin> set columns) fs"

definition touches_only :: "string list \<Rightarrow> run_field list \<Rightarrow> bool" where
  "touches_only columns fs = list_all (\<lambda>f. field_name f \<in> set columns) fs"

definition leaves_terminal :: "guard \<Rightarrow> bool" where
  "leaves_terminal g =
     (reject_terminal g \<or>
      (case expected_statuses g of None \<Rightarrow> False | Some ss \<Rightarrow> list_all (\<lambda>s. \<not> is_terminal s) ss))"

definition status_field_ok :: "run_field \<Rightarrow> bool" where
  "status_field_ok f = (case f of F_status s \<Rightarrow> \<not> prelaunch s | _ \<Rightarrow> True)"

definition only_prelaunch :: "guard \<Rightarrow> bool" where
  "only_prelaunch g = (case expected_statuses g of None \<Rightarrow> False | Some ss \<Rightarrow> list_all prelaunch ss)"

definition lifecycle_update :: "run_field list \<Rightarrow> guard \<Rightarrow> bool" where
  "lifecycle_update fs g =
     (touches_none [''lease_generation'', ''worker_lease_token'', ''input_json''] fs \<and>
      (bump_state_version g \<or> touches_only LIVENESS_FIELDS fs) \<and>
      (leaves_terminal g \<or> touches_none OUTCOME_FIELDS fs) \<and>
      (only_prelaunch g \<or> list_all status_field_ok fs))"

lemma leaves_terminal_guard: "leaves_terminal g \<Longrightarrow> guard_holds g r \<Longrightarrow> \<not> is_terminal (r_status r)"
  by (auto simp: leaves_terminal_def guard_holds_def list_all_iff split: option.splits)

lemma normalize_names:
  "field_name ` set (normalize_update_values fs) \<subseteq>
     field_name ` set fs \<union> {''last_output_at'', ''cancellation_requested_at''}"
  by (auto simp: normalize_update_values_def progress_scalar_def split: option.splits if_splits)

lemma touches_none_iff: "touches_none columns fs \<longleftrightarrow> field_name ` set fs \<inter> set columns = {}"
  by (auto simp: touches_none_def list_all_iff)

lemma touches_only_iff: "touches_only columns fs \<longleftrightarrow> field_name ` set fs \<subseteq> set columns"
  by (auto simp: touches_only_def list_all_iff)

lemma disjoint_by_cover: "A \<subseteq> B \<union> C \<Longrightarrow> B \<inter> D = {} \<Longrightarrow> D \<inter> C = {} \<Longrightarrow> A \<inter> D = {}"
  by blast

lemma subset_by_cover: "A \<subseteq> B \<union> C \<Longrightarrow> B \<subseteq> D \<Longrightarrow> C \<subseteq> D \<Longrightarrow> A \<subseteq> D"
  by blast

lemma touches_none_normalize:
  assumes "touches_none columns fs" "set columns \<inter> {''last_output_at'', ''cancellation_requested_at''} = {}"
  shows "touches_none columns (normalize_update_values fs)"
  using disjoint_by_cover [OF normalize_names] assms by (simp only: touches_none_iff)

lemma touches_only_normalize:
  assumes "touches_only LIVENESS_FIELDS fs"
  shows "touches_only LIVENESS_FIELDS (normalize_update_values fs)"
proof -
  have "{''last_output_at'', ''cancellation_requested_at''} \<subseteq> set LIVENESS_FIELDS"
    by (simp add: LIVENESS_FIELDS_def)
  then show ?thesis using subset_by_cover [OF normalize_names] assms by (simp only: touches_only_iff)
qed

lemma apply_field_outcome:
  "field_name f \<notin> set OUTCOME_FIELDS \<Longrightarrow> outcome_of (apply_field f r) = outcome_of r"
  by (cases f) (simp_all add: outcome_of_def OUTCOME_FIELDS_def)

lemma apply_fields_outcome:
  "touches_none OUTCOME_FIELDS fs \<Longrightarrow> outcome_of (apply_fields fs r) = outcome_of r"
  by (induction fs arbitrary: r) (simp_all add: touches_none_def apply_field_outcome)

lemma apply_field_control:
  "field_name f \<in> set LIVENESS_FIELDS \<Longrightarrow> control_of (apply_field f r) = control_of r"
  by (cases f) (simp_all add: control_of_def LIVENESS_FIELDS_def)

lemma apply_fields_control:
  "touches_only LIVENESS_FIELDS fs \<Longrightarrow> control_of (apply_fields fs r) = control_of r"
  by (induction fs arbitrary: r) (simp_all add: touches_only_def apply_field_control)

lemma apply_field_lease:
  "field_name f \<notin> {''lease_generation'', ''worker_lease_token'', ''input_json''} \<Longrightarrow>
   r_lease_generation (apply_field f r) = r_lease_generation r \<and>
   r_worker_lease_token (apply_field f r) = r_worker_lease_token r \<and>
   r_input_json (apply_field f r) = r_input_json r"
  by (cases f) simp_all

lemma apply_fields_lease:
  assumes "touches_none [''lease_generation'', ''worker_lease_token'', ''input_json''] fs"
  shows "r_lease_generation (apply_fields fs r) = r_lease_generation r \<and>
   r_worker_lease_token (apply_fields fs r) = r_worker_lease_token r \<and>
   r_input_json (apply_fields fs r) = r_input_json r"
  using assms by (induction fs arbitrary: r) (auto simp: touches_none_def apply_field_lease)

lemma apply_field_status: "status_field_ok f \<Longrightarrow> \<not> prelaunch (r_status r) \<Longrightarrow> \<not> prelaunch (r_status (apply_field f r))"
  by (cases f) (simp_all add: status_field_ok_def)

lemma apply_fields_status:
  "list_all status_field_ok fs \<Longrightarrow> \<not> prelaunch (r_status r) \<Longrightarrow> \<not> prelaunch (r_status (apply_fields fs r))"
  by (induction fs arbitrary: r) (auto simp: apply_field_status)

lemma status_field_ok_normalize: "list_all status_field_ok fs \<Longrightarrow> list_all status_field_ok (normalize_update_values fs)"
proof -
  have "status_field_ok (normalize_field f) = status_field_ok f" for f
    by (cases f) (simp_all add: status_field_ok_def)
  moreover assume "list_all status_field_ok fs"
  ultimately show ?thesis
    by (auto simp: normalize_update_values_def progress_scalar_def list_all_iff status_field_ok_def
        split: option.split)
qed

lemma only_prelaunch_guard: "only_prelaunch g \<Longrightarrow> guard_holds g r \<Longrightarrow> prelaunch (r_status r)"
  by (auto simp: only_prelaunch_def guard_holds_def list_all_iff split: option.splits)

lemma set_clause_fields:
  "outcome_of (set_clause fs g r) = outcome_of (apply_fields fs r)"
  "r_lease_generation (set_clause fs g r) = r_lease_generation (apply_fields fs r)"
  "r_input_json (set_clause fs g r) = r_input_json (apply_fields fs r)"
  "r_status (set_clause fs g r) = r_status (apply_fields fs r)"
  by (simp_all add: set_clause_def Let_def outcome_of_def split: option.split)

lemma set_clause_same_version:
  assumes "r_state_version (set_clause fs g r) = r_state_version r"
  shows "set_clause fs g r = apply_fields fs r"
proof -
  have "(apply_fields fs r)\<lparr>r_state_version := r_state_version r\<rparr> = apply_fields fs r"
    using apply_fields_keeps(2) [of fs r] by (metis run_row.surjective run_row.update_convs(16))
  with assms show ?thesis by (auto simp: set_clause_def Let_def split: option.splits if_splits)
qed

lemma set_clause_advances:
  assumes upd: "lifecycle_update fs g" and guard: "guard_holds g r"
  shows "row_advances r (set_clause (normalize_update_values fs) g r)"
proof -
  let ?fs = "normalize_update_values fs" and ?r = "set_clause (normalize_update_values fs) g r"
  have lease: "touches_none [''lease_generation'', ''worker_lease_token'', ''input_json''] ?fs"
    using upd by (intro touches_none_normalize) (auto simp: lifecycle_update_def)
  have "outcome_of ?r = outcome_of r" if "is_terminal (r_status r)"
  proof -
    have "touches_none OUTCOME_FIELDS fs"
      using that upd guard leaves_terminal_guard by (auto simp: lifecycle_update_def)
    then have "touches_none OUTCOME_FIELDS ?fs"
      by (rule touches_none_normalize) (simp add: OUTCOME_FIELDS_def)
    then show ?thesis by (simp add: set_clause_fields apply_fields_outcome)
  qed
  moreover have "control_of ?r = control_of r" if same: "r_state_version ?r = r_state_version r"
  proof -
    have "\<not> bump_state_version g" using same set_clause_version_bump [of g ?fs r] by auto
    then have "touches_only LIVENESS_FIELDS ?fs"
      using upd by (intro touches_only_normalize) (auto simp: lifecycle_update_def)
    then show ?thesis using set_clause_same_version [OF same] by (simp add: apply_fields_control)
  qed
  moreover have "\<not> prelaunch (r_status ?r)" if "\<not> prelaunch (r_status r)"
  proof -
    have "list_all status_field_ok ?fs"
      using that upd guard only_prelaunch_guard
      by (intro status_field_ok_normalize) (auto simp: lifecycle_update_def)
    then show ?thesis using that by (simp add: set_clause_fields apply_fields_status)
  qed
  ultimately show ?thesis
    using apply_fields_lease [OF lease, of r] set_clause_version_mono [of r ?fs g]
    by (simp add: row_advances_def identity_of_def set_clause_fields)
qed

lemma conditional_update_advances:
  assumes "wf_runs db" "lifecycle_update fs g" "conditional_update k fs g db = (res, db')"
  shows "db_advances db db'"
  using assms(1,3)
proof (cases rule: conditional_update_cases)
  case (updated old)
  then show ?thesis
    using db_advances_put_run [OF assms(1) updated(1) set_clause_advances [OF assms(2) updated(2)]]
      run_by_id_key [OF updated(1)] by simp
qed (use assms in simp_all)


subsection \<open>Every operation advances the database\<close>

named_theorems advances \<open>an operation of the store only advances rows\<close>

lemmas lifecycle_eval = lifecycle_update_def status_field_ok_def only_prelaunch_def prelaunch_def touches_none_def touches_only_def leaves_terminal_def
  is_terminal_def TERMINAL_STATUSES_def LIVENESS_FIELDS_def OUTCOME_FIELDS_def default_guard_def
  running_guard_def terminal_guard_def

text \<open>Operations that end in one guarded update, possibly after some checks.\<close>

lemma guarded_advances:
  assumes "wf_runs db" "lifecycle_update fs g"
  shows "db_advances db (snd (conditional_update k fs g db))"
  using conditional_update_advances [OF assms] by (metis prod.collapse)

lemma answered_snd [simp]: "snd (answered res) = snd res"
  by (simp add: answered_def split: prod.split sum.split)

lemma create_run_advances [advances]:
  assumes "wf_runs db"
  shows "db_advances db (snd (create_run k repo tool dir input risk human status token now db))"
proof -
  have new: "r_run_id (new_run k repo tool dir input risk human status token now) = k"
    by (simp add: new_run_def)
  show ?thesis
  proof (cases "valid_run_id k \<and> run_by_id k db = None")
    case True
    with assms new show ?thesis
      by (auto simp: create_run_def db_advances_def wf_runs_def run_by_id_def unique_key_append_one
          by_key_append Let_def)
  next
    case False
    with assms show ?thesis by (auto simp: create_run_def)
  qed
qed

lemma insert_event_runs [simp]: "runs (snd (insert_event ev db)) = runs db"
  by (simp add: insert_event_def)

lemma db_advances_same_runs: "db_advances a b \<Longrightarrow> runs c = runs b \<Longrightarrow> db_advances a c"
  by (simp add: db_advances_def wf_runs_def run_by_id_def)

lemma append_event_advances [advances]:
  assumes "wf_runs db"
  shows "db_advances db (snd (append_event k level stage msg data ts meta now db))"
proof -
  define g where "g = default_guard\<lparr>bump_state_version := False, bump_state_version_if_phase_changes := True\<rparr>"
  have insert: "db_advances db (snd (case insert_event ev db1 of
      (Inl e, db2) \<Rightarrow> (Inl e, db2) | (Inr _, db2) \<Rightarrow> (Inr ev, db2)))"
    if "db_advances db db1" for ev :: run_event and db1 :: "'a run_db_scheme"
  proof -
    have "runs (snd (case insert_event ev db1 of
        (Inl e, db2) \<Rightarrow> (Inl e, db2) | (Inr _, db2) \<Rightarrow> (Inr ev, db2))) = runs db1"
      by (auto simp: insert_event_def)
    with that show ?thesis by (rule db_advances_same_runs)
  qed
  have meta: "db_advances db (snd (conditional_update k [F_heartbeat_at (Some t), F_current_phase stage] g db))" for t
    by (rule guarded_advances [OF assms]) (simp add: g_def lifecycle_eval)
  obtain res db1 where c: "conditional_update k
      [F_heartbeat_at (Some (or_now ts now)), F_current_phase stage] g db = (res, db1)"
    by (cases "conditional_update k [F_heartbeat_at (Some (or_now ts now)), F_current_phase stage] g db")
  with meta [of "or_now ts now"] have adv: "db_advances db db1" by simp
  show ?thesis
    using assms c insert [OF adv] insert [OF db_advances_refl [OF assms]] adv
    by (auto simp: append_event_def g_def Let_def split: sum.splits option.splits)
qed

lemma record_worker_launch_advances [advances]:
  "wf_runs db \<Longrightarrow> db_advances db (snd (record_worker_launch k pid v t n inc now db))"
  by (auto simp: record_worker_launch_def Let_def lifecycle_eval intro!: guarded_advances split: sum.split)

lemma claim_worker_advances [advances]:
  assumes "wf_runs db"
  shows "db_advances db (snd (claim_worker k token pid ident n v now db))"
proof -
  have "snd (case c of (Inl e, db') \<Rightarrow> (Inl e, db') | (Inr u, db') \<Rightarrow> (Inr (u \<noteq> None), db')) = snd c"
    for c :: "('a run_db_scheme, run_row option) outcome"
    by (auto split: prod.split sum.split)
  with assms show ?thesis
    by (auto simp: claim_worker_def Let_def lifecycle_eval intro!: guarded_advances split: sum.split)
qed

lemma worker_progress_advances [advances]:
  "wf_runs db \<Longrightarrow> db_advances db (snd (update_worker_progress k token n phase elapsed progress now db))"
  "wf_runs db \<Longrightarrow> db_advances db (snd (heartbeat_worker k token elapsed progress gen now db))"
  "wf_runs db \<Longrightarrow> db_advances db (snd (attach_child_pid k pid token n now db))"
  "wf_runs db \<Longrightarrow> db_advances db (snd (adopt_worker k v token n hb now db))"
  by (auto simp: update_worker_progress_def heartbeat_worker_def attach_child_pid_def adopt_worker_def
      Let_def lifecycle_eval intro!: guarded_advances split: sum.split)

lemma set_progress_advances [advances]:
  assumes "wf_runs db"
  shows "db_advances db (snd (set_progress k phase progress elapsed hb now db))"
proof -
  have "snd (case c of (Inl e, db') \<Rightarrow> (Inl e, db')
      | (Inr None, db') \<Rightarrow> (Inl (KeyError (''Run not found: '' @ k)), db')
      | (Inr (Some r), db') \<Rightarrow> (Inr r, db')) = snd c"
    for c :: "('a run_db_scheme, run_row option) outcome"
    by (auto split: prod.split sum.split option.split)
  with assms show ?thesis
    by (auto simp: set_progress_def lifecycle_eval intro!: guarded_advances split: option.split)
qed

lemma heartbeat_advances [advances]:
  "wf_runs db \<Longrightarrow> db_advances db (snd (heartbeat k elapsed updates now db))"
  by (auto simp: heartbeat_def set_progress_advances split: sum.split)

lemma mark_recovery_pending_advances [advances]:
  "wf_runs db \<Longrightarrow> db_advances db (snd (mark_recovery_pending k reason ss v t n hb db))"
  by (auto simp: mark_recovery_pending_def lifecycle_eval intro!: guarded_advances split: sum.split)

lemma transition_terminal_advances [advances]:
  "wf_runs db \<Longrightarrow> db_advances db (snd (transition_terminal k rep ss v t n hb now db))"
  by (auto simp: transition_terminal_def lifecycle_eval intro!: guarded_advances split: option.split)

lemma fail_infrastructure_advances [advances]:
  "wf_runs db \<Longrightarrow> db_advances db (snd (fail_infrastructure k reason ss v t n hb now db))"
  by (auto simp: fail_infrastructure_def transition_terminal_advances split: sum.split)

lemma publication_advances [advances]:
  "wf_runs db \<Longrightarrow> db_advances db (snd (record_result_publication k st h at e v db))"
  "wf_runs db \<Longrightarrow> db_advances db (snd (record_result_publication_with_projection k st h at e pr sha ps pe v db))"
  "wf_runs db \<Longrightarrow> db_advances db (snd (record_public_result k pr sha ps pe v db))"
  by (auto simp: record_result_publication_def record_result_publication_with_projection_def
      record_public_result_def lifecycle_eval intro!: guarded_advances)


section \<open>The step relation\<close>

text \<open>
  One committed call of the store, with any arguments, by any process. The two updates
  \<open>job_manager.py\<close> and \<open>job_worker.py\<close> issue directly on the store are lifecycle updates too.
\<close>

definition lease_gen :: "run_row \<Rightarrow> int" where
  "lease_gen run = (if r_lease_generation run = 0 then 1 else r_lease_generation run)"

definition request_cancellation ::
  "run_row \<Rightarrow> timestamp \<Rightarrow> 'a run_db_scheme \<Rightarrow> ('a run_db_scheme, run_row option) outcome" where
  "request_cancellation run requested_at db =
     conditional_update (r_run_id run)
       [F_status ''cancellation_pending'', F_current_phase ''cancellation_pending'',
        F_progress_json (JObj (jset ''cancellation_requested_at'' (JStr requested_at)
                                 (as_object (r_progress_json run))))]
       (default_guard\<lparr>expected_statuses := Some [r_status run],
          expected_state_version := Some (r_state_version run),
          expected_lease_token := Some (r_worker_lease_token run),
          expected_lease_generation := Some (lease_gen run), reject_terminal := True\<rparr>) db"

definition worker_cancellation_pending ::
  "string \<Rightarrow> string \<Rightarrow> int \<Rightarrow> int \<Rightarrow> terminal_report \<Rightarrow> 'a run_db_scheme \<Rightarrow> ('a run_db_scheme, run_row option) outcome" where
  "worker_cancellation_pending run_id lease_token lease_generation version rep db =
     conditional_update run_id
       [F_status ''cancellation_pending'', F_current_phase ''cancellation_pending'', F_ended_at None,
        F_duration_seconds (tr_duration_seconds rep), F_exit_code (tr_exit_code rep),
        F_summary (tr_summary rep), F_error (tr_error rep),
        F_safety_failure (tr_safety_failure rep), F_result_json (tr_result rep)]
       ((running_guard lease_token lease_generation)\<lparr>expected_state_version := Some version,
          reject_terminal := True\<rparr>) db"

inductive run_step :: "'a run_db_scheme \<Rightarrow> 'a run_db_scheme \<Rightarrow> bool" where
  create: "run_step db (snd (create_run k repo tool dir input risk human status token now db))"
| event: "run_step db (snd (append_event k level stage msg data ts meta now db))"
| launch: "run_step db (snd (record_worker_launch k pid v t n inc now db))"
| claim: "run_step db (snd (claim_worker k token pid ident n v now db))"
| progress: "run_step db (snd (update_worker_progress k token gen phase elapsed progress now db))"
| worker_heartbeat: "run_step db (snd (heartbeat_worker k token elapsed progress n now db))"
| child: "run_step db (snd (attach_child_pid k pid token gen now db))"
| adopt: "run_step db (snd (adopt_worker k version token gen hb now db))"
| set_progress: "run_step db (snd (set_progress k phase progress el ts now db))"
| heartbeat: "run_step db (snd (heartbeat k elapsed progress now db))"
| recovery: "run_step db (snd (mark_recovery_pending k reason ss v t n hbo db))"
| terminal: "run_step db (snd (transition_terminal k rep statuses version t n hbo now db))"
| infrastructure: "run_step db (snd (fail_infrastructure k reason ss v t n hbo now db))"
| publication: "run_step db (snd (record_result_publication k st h at e version db))"
| publication_projection:
    "run_step db (snd (record_result_publication_with_projection k st h at e doc sha ps pe version db))"
| public_result: "run_step db (snd (record_public_result k doc sha ps pe version db))"
| cancellation: "run_step db (snd (request_cancellation run now db))"
| worker_cancellation: "run_step db (snd (worker_cancellation_pending k token gen version rep db))"
| guarded: "lifecycle_update fs g \<Longrightarrow> run_step db (snd (conditional_update k fs g db))"

lemma cancellation_advances [advances]:
  "wf_runs db \<Longrightarrow> db_advances db (snd (request_cancellation run now db))"
  "wf_runs db \<Longrightarrow> db_advances db (snd (worker_cancellation_pending k token gen version rep db))"
  by (auto simp: request_cancellation_def worker_cancellation_pending_def lifecycle_eval
      intro!: guarded_advances)

lemma run_step_advances: "run_step db db' \<Longrightarrow> wf_runs db \<Longrightarrow> db_advances db db'"
  by (induction rule: run_step.induct) (auto intro: advances guarded_advances)

lemma db_advances_wf: "db_advances db db' \<Longrightarrow> wf_runs db'"
  by (simp add: db_advances_def)

lemma run_steps_advance: "run_step\<^sup>*\<^sup>* db db' \<Longrightarrow> wf_runs db \<Longrightarrow> db_advances db db'"
  by (induction rule: rtranclp_induct)
    (auto intro: db_advances_trans run_step_advances dest: db_advances_wf)

end
