(* ===== verification/Run_Guarantees.thy ===== *)
theory Run_Guarantees
  imports Run_Lifecycle
begin

text \<open>
  What the run store guarantees to the processes that share it: a terminal transition has one
  winner whose report stays, a stale lease can change nothing, a run is claimed once per lease,
  and the columns \<open>_normalize_update_values\<close> bounds stay bounded. The races are proved once in
  the locale \<open>versioned_store\<close> and hold here through its interpretations.
\<close>

section \<open>The terminal transition as a compare-and-set\<close>

text \<open>The arguments of one attempt to end a run, besides the run and the version it read.\<close>

record terminal_try =
  ty_report :: terminal_report
  ty_statuses :: "string list"
  ty_token :: "string option"
  ty_generation :: "int option"
  ty_heartbeat :: "timestamp option option"
  ty_now :: timestamp

definition try_terminal ::
  "string \<Rightarrow> int \<Rightarrow> terminal_try \<Rightarrow> 'a run_db_scheme \<Rightarrow> run_row option \<times> 'a run_db_scheme" where
  "try_terminal k v t db =
     (case transition_terminal k (ty_report t) (ty_statuses t) v (ty_token t) (ty_generation t)
             (ty_heartbeat t) (ty_now t) db of
        (Inr row, db') \<Rightarrow> (row, db') | (Inl e, db') \<Rightarrow> (None, db'))"

text \<open>Any guarded update that names the version it read and bumps it.\<close>

definition run_cas ::
  "string \<Rightarrow> int \<Rightarrow> run_field list \<times> guard \<Rightarrow> 'a run_db_scheme \<Rightarrow> run_row option \<times> 'a run_db_scheme" where
  "run_cas k v u db =
     (case conditional_update k (fst u) ((snd u)\<lparr>expected_state_version := Some v, bump_state_version := True\<rparr>) db of
        (Inr row, db') \<Rightarrow> (row, db') | (Inl e, db') \<Rightarrow> (None, db'))"

definition run_lookup :: "'a run_db_scheme \<Rightarrow> string \<Rightarrow> run_row option" where
  "run_lookup db k = run_by_id k db"

lemma run_cas_cases:
  assumes "wf_runs db" "run_cas k v u db = (res, db')"
  obtains "res = None" "db' = db"
    | old row where "run_by_id k db = Some old" "r_state_version old = v" "res = Some row"
        "db' = put_run k row db" "r_run_id row = k" "r_state_version row = v + 1"
proof -
  let ?g = "(snd u)\<lparr>expected_state_version := Some v, bump_state_version := True\<rparr>"
  obtain c db1 where c: "conditional_update k (fst u) ?g db = (c, db1)"
    by (cases "conditional_update k (fst u) ?g db")
  from assms(1) c show thesis
  proof (cases rule: conditional_update_cases)
    case (updated old)
    then have "r_state_version old = v" by (simp add: guard_holds_def opt_is_def)
    moreover have "res = Some (set_clause (normalize_update_values (fst u)) ?g old)"
        "db' = put_run k (set_clause (normalize_update_values (fst u)) ?g old) db"
      using updated c assms(2) by (simp_all add: run_cas_def)
    ultimately show thesis
      using that(2) [OF updated(1)] run_by_id_key [OF updated(1)] by (simp add: set_clause_version_bump)
  qed (use that(1) assms(2) c in \<open>auto simp: run_cas_def\<close>)
qed

interpretation run_updates: versioned_store wf_runs run_lookup r_state_version run_cas
proof
  fix db :: "'a run_db_scheme" and k k' :: string and v u row db' res
  assume wf: "wf_runs db"
  show "\<exists>old. run_lookup db k = Some old \<and> r_state_version old = v \<and>
      run_lookup db' k = Some row \<and> r_state_version row = v + 1"
    if "run_cas k v u db = (Some row, db')"
    using wf that by (rule run_cas_cases) (simp_all add: run_by_id_put_run run_lookup_def)
  show "db' = db" if "run_cas k v u db = (None, db')"
    using wf that by (rule run_cas_cases) simp_all
  show "run_lookup db' k' = run_lookup db k'" if "run_cas k v u db = (res, db')" "k' \<noteq> k"
    using wf that(1) by (rule run_cas_cases) (simp_all add: run_by_id_put_run run_lookup_def that(2))
  show "wf_runs db'" if "run_cas k v u db = (res, db')"
    using wf that by (rule run_cas_cases) (simp_all add: wf)
qed

text \<open>An attempt to end a run is a guarded update, or an error that writes nothing.\<close>

definition terminal_fields :: "terminal_try \<Rightarrow> run_field list" where
  "terminal_fields t =
     (let rep = ty_report t in
      [F_status (tr_status rep), F_current_phase ''result'',
       F_ended_at (Some (or_now (tr_ended_at rep) (ty_now t))),
       F_duration_seconds (tr_duration_seconds rep), F_exit_code (tr_exit_code rep),
       F_summary (tr_summary rep), F_error (tr_error rep),
       F_safety_failure (tr_safety_failure rep), F_result_json (tr_result rep),
       F_result_publication_status ''pending'', F_result_published_hash [],
       F_result_published_at None, F_result_publication_error [],
       F_public_result_json (JObj []), F_public_result_schema_version [],
       F_public_result_source_sha256 [], F_public_result_status ''not_materialized'',
       F_public_result_error [], F_recovery_reason (tr_recovery_reason rep)]
      @ (case tr_progress rep of None \<Rightarrow> [] | Some d \<Rightarrow> [F_progress_json (JObj d)]))"

definition terminal_try_guard :: "terminal_try \<Rightarrow> guard" where
  "terminal_try_guard t =
     default_guard\<lparr>expected_statuses := Some (ty_statuses t), expected_lease_token := ty_token t,
       expected_lease_generation := ty_generation t, expected_heartbeat_at := ty_heartbeat t,
       reject_terminal := True\<rparr>"

lemma try_terminal_cas:
  "try_terminal k v t db =
     (if is_terminal (tr_status (ty_report t)) then run_cas k v (terminal_fields t, terminal_try_guard t) db
      else (None, db))"
  by (simp add: try_terminal_def transition_terminal_def run_cas_def terminal_fields_def
      terminal_try_guard_def Let_def default_guard_def)

interpretation terminal_updates: versioned_store wf_runs run_lookup r_state_version try_terminal
proof
  fix db :: "'a run_db_scheme" and k k' :: string and v t row db' res
  assume wf: "wf_runs db"
  show "\<exists>old. run_lookup db k = Some old \<and> r_state_version old = v \<and>
      run_lookup db' k = Some row \<and> r_state_version row = v + 1"
    if "try_terminal k v t db = (Some row, db')"
    using that run_updates.cas_hit [OF wf] by (auto simp: try_terminal_cas split: if_splits)
  show "db' = db" if "try_terminal k v t db = (None, db')"
    using that run_updates.cas_miss [OF wf] by (auto simp: try_terminal_cas split: if_splits)
  show "run_lookup db' k' = run_lookup db k'" if "try_terminal k v t db = (res, db')" "k' \<noteq> k"
    using that run_updates.cas_other [OF wf] by (auto simp: try_terminal_cas split: if_splits)
  show "wf_runs db'" if "try_terminal k v t db = (res, db')"
    using that run_updates.cas_wf [OF wf] wf by (auto simp: try_terminal_cas split: if_splits)
qed


section \<open>Races to end a run\<close>

definition try_accepted :: "string \<Rightarrow> int \<Rightarrow> terminal_try \<Rightarrow> 'a run_db_scheme \<Rightarrow> bool" where
  "try_accepted k v t db =
     (valid_run_id k \<and> is_terminal (tr_status (ty_report t)) \<and>
      (case run_by_id k db of None \<Rightarrow> False
       | Some r \<Rightarrow> guard_holds ((terminal_try_guard t)\<lparr>expected_state_version := Some v\<rparr>) r))"

definition ended_row :: "terminal_try \<Rightarrow> run_row \<Rightarrow> run_row" where
  "ended_row t r = set_clause (normalize_update_values (terminal_fields t)) default_guard r"

lemma terminal_fields_ok: "bump_state_version g \<Longrightarrow> \<not> bump_state_version_if_phase_changes g \<Longrightarrow> update_args_ok (terminal_fields t) g"
  by (simp add: update_args_ok_def terminal_fields_def Let_def CONDITIONAL_UPDATE_FIELDS_def split: option.split)

lemma set_clause_bump_cong:
  "bump_state_version g = bump_state_version g' \<Longrightarrow>
   bump_state_version_if_phase_changes g = bump_state_version_if_phase_changes g' \<Longrightarrow>
   set_clause fs g = set_clause fs g'"
  by (simp add: set_clause_def Let_def fun_eq_iff)

lemma try_terminal_accepted:
  assumes "wf_runs db" "try_accepted k v t db" "run_by_id k db = Some r"
  shows "try_terminal k v t db = (Some (ended_row t r), put_run k (ended_row t r) db)"
proof -
  let ?g = "(terminal_try_guard t)\<lparr>expected_state_version := Some v, bump_state_version := True\<rparr>"
  have g: "?g = (terminal_try_guard t)\<lparr>expected_state_version := Some v\<rparr>"
    by (simp add: terminal_try_guard_def default_guard_def)
  have hold: "guard_holds ?g r" using assms by (simp add: try_accepted_def g)
  then have ne: "expected_statuses ?g \<noteq> Some []" by (auto simp: guard_holds_def)
  have row: "set_clause (normalize_update_values (terminal_fields t)) ?g = set_clause (normalize_update_values (terminal_fields t)) default_guard"
    by (rule set_clause_bump_cong) (simp_all add: terminal_try_guard_def default_guard_def)
  have "update_args_ok (terminal_fields t) ?g"
    by (rule terminal_fields_ok) (simp_all add: terminal_try_guard_def default_guard_def)
  then show ?thesis
    using conditional_update_ok [OF assms(1) _ _ ne, of k "terminal_fields t"] assms(2,3) hold row
    by (simp add: try_terminal_cas try_accepted_def run_cas_def ended_row_def)
qed

lemma try_terminal_rejected:
  assumes "wf_runs db" "\<not> try_accepted k v t db"
  shows "try_terminal k v t db = (None, db)"
proof -
  let ?g = "(terminal_try_guard t)\<lparr>expected_state_version := Some v, bump_state_version := True\<rparr>"
  have g: "?g = (terminal_try_guard t)\<lparr>expected_state_version := Some v\<rparr>"
    by (simp add: terminal_try_guard_def default_guard_def)
  obtain c db1 where c: "conditional_update k (terminal_fields t) ?g db = (c, db1)"
    by (cases "conditional_update k (terminal_fields t) ?g db")
  from assms(1) c show ?thesis
    by (cases rule: conditional_update_cases)
      (use assms(2) c in \<open>auto simp: try_terminal_cas run_cas_def try_accepted_def g\<close>)
qed

text \<open>Several processes end the same run, each having read version \<open>v\<close>, in the order SQLite
  serialises them.\<close>

fun terminal_race ::
  "string \<Rightarrow> int \<Rightarrow> terminal_try list \<Rightarrow> 'a run_db_scheme \<Rightarrow> run_row option list \<times> 'a run_db_scheme" where
  "terminal_race k v [] db = ([], db)"
| "terminal_race k v (t # ts) db =
     (let (res, db1) = try_terminal k v t db; (rest, db2) = terminal_race k v ts db1 in (res # rest, db2))"

definition wins :: "run_row option list \<Rightarrow> nat" where
  "wins rs = length (filter (\<lambda>r. r \<noteq> None) rs)"

lemma terminal_race_cas_seq: "terminal_race k v ts db = terminal_updates.cas_seq (map (\<lambda>t. (k, v, t)) ts) db"
  by (induction ts arbitrary: db) simp_all

lemma wins_simps [simp]: "wins [] = 0" "wins (None # rs) = wins rs" "wins (Some r # rs) = Suc (wins rs)"
  "wins (replicate n None) = 0"
  by (simp_all add: wins_def)

lemma terminal_race_after_win:
  assumes "wf_runs db" "run_by_id k db = Some row" "v < r_state_version row"
  shows "terminal_race k v ts db = (replicate (length ts) None, db)"
proof -
  have "\<forall>w \<in> set (map (\<lambda>t. (k, v, t)) ts). fst w = k \<and> fst (snd w) = v" by auto
  from terminal_updates.cas_seq_stale [OF assms(1) _ assms(3) this] assms(2)
  show ?thesis by (simp add: terminal_race_cas_seq run_lookup_def)
qed

lemma ended_row_facts [simp]:
  "r_run_id (ended_row t r) = r_run_id r" "r_state_version (ended_row t r) = r_state_version r + 1"
  by (simp_all add: ended_row_def set_clause_version_bump default_guard_def)

lemma try_accepted_version:
  "try_accepted k v t db \<Longrightarrow> \<exists>r. run_by_id k db = Some r \<and> r_state_version r = v"
  by (auto simp: try_accepted_def guard_holds_def opt_is_def split: option.splits)

lemma terminal_race_first_accepted:
  assumes "wf_runs db" "\<forall>t \<in> set pre. \<not> try_accepted k v t db" "try_accepted k v t db" "run_by_id k db = Some r"
  shows "terminal_race k v (pre @ t # post) db =
     (replicate (length pre) None @ Some (ended_row t r) # replicate (length post) None, put_run k (ended_row t r) db)"
  using assms(2)
proof (induction pre)
  case Nil
  have id: "r_run_id r = k" using run_by_id_key [OF assms(4)] .
  have v: "r_state_version r = v" using try_accepted_version [OF assms(3)] assms(4) by auto
  have "terminal_race k v post (put_run k (ended_row t r) db) = (replicate (length post) None, put_run k (ended_row t r) db)"
    using assms(1,4) id v by (intro terminal_race_after_win [where row = "ended_row t r"])
      (simp_all add: run_by_id_put_run)
  then show ?case using try_terminal_accepted [OF assms(1,3,4)] by simp
next
  case (Cons a pre)
  then show ?case using try_terminal_rejected [OF assms(1)] by simp
qed

lemma terminal_race_none_accepted:
  assumes "wf_runs db" "\<forall>t \<in> set ts. \<not> try_accepted k v t db"
  shows "terminal_race k v ts db = (replicate (length ts) None, db)"
  using assms(2) by (induction ts) (simp_all add: try_terminal_rejected [OF assms(1)])


text \<open>The outcome a report asks for.\<close>

definition reported_outcome ::
  "terminal_try \<Rightarrow> string \<times> json \<times> timestamp option \<times> pyfloat option \<times> int option \<times> string \<times> string \<times> bool" where
  "reported_outcome t =
     (let rep = ty_report t in
      (tr_status rep, tr_result rep, Some (or_now (tr_ended_at rep) (ty_now t)), tr_duration_seconds rep,
       tr_exit_code rep, tr_summary rep, tr_error rep, tr_safety_failure rep))"

lemma apply_fields_append: "apply_fields (fs @ gs) r = apply_fields gs (apply_fields fs r)"
  by (simp add: apply_fields_def)

lemma progress_scalar_outcome:
  "outcome_of (apply_fields (map normalize_field (progress_scalar fs ''last_output_at'' F_last_output_at)) r) = outcome_of r"
  "outcome_of (apply_fields (map normalize_field
     (progress_scalar fs ''cancellation_requested_at'' F_cancellation_requested_at)) r) = outcome_of r"
  by (simp_all add: progress_scalar_def outcome_of_def split: option.split)

lemma ended_row_outcome [simp]: "outcome_of (ended_row t r) = reported_outcome t"
  by (simp add: ended_row_def set_clause_fields normalize_update_values_def apply_fields_append
      progress_scalar_outcome)
    (simp add: terminal_fields_def reported_outcome_def outcome_of_def Let_def split: option.split)

text \<open>Any number of processes that end the same run from the same version it read: exactly one
  of them wins when at least one is accepted by the guard, none otherwise; and the row the winner
  gets is the row of the run afterwards, with the outcome of the winner's report.\<close>

theorem terminal_race_one_winner:
  assumes "wf_runs db" "terminal_race k v ts db = (rs, db')"
  shows "wins rs = (if \<exists>t \<in> set ts. try_accepted k v t db then 1 else 0) \<and>
    (\<forall>i row. i < length ts \<and> rs ! i = Some row \<longrightarrow>
       run_by_id k db' = Some row \<and> outcome_of row = reported_outcome (ts ! i))"
proof (cases "\<exists>t \<in> set ts. try_accepted k v t db")
  case True
  then obtain pre t post where ts: "ts = pre @ t # post" "\<forall>x \<in> set pre. \<not> try_accepted k v x db"
      "try_accepted k v t db"
    using split_list_first_prop [of ts "\<lambda>t. try_accepted k v t db"] by blast
  then obtain r where r: "run_by_id k db = Some r" using try_accepted_version by blast
  have rs: "rs = replicate (length pre) None @ Some (ended_row t r) # replicate (length post) None"
    and db': "db' = put_run k (ended_row t r) db"
    using terminal_race_first_accepted [OF assms(1) ts(2,3) r, of post] assms(2) ts(1) by auto
  have id: "r_run_id r = k" using run_by_id_key [OF r] .
  have "i = length pre \<and> row = ended_row t r" if "i < length ts" "rs ! i = Some row" for i row
    using that by (auto simp: rs ts(1) nth_append nth_Cons' split: if_splits)
  moreover have "run_by_id k db' = Some (ended_row t r)" "ts ! length pre = t"
    using r id by (simp_all add: db' ts(1) run_by_id_put_run)
  ultimately have "\<forall>i row. i < length ts \<and> rs ! i = Some row \<longrightarrow>
       run_by_id k db' = Some row \<and> outcome_of row = reported_outcome (ts ! i)"
    by (metis ended_row_outcome)
  moreover have "wins rs = 1" by (simp add: rs wins_def)
  ultimately show ?thesis using True by simp
next
  case False
  then have "rs = replicate (length ts) None"
    using terminal_race_none_accepted [OF assms(1)] assms(2) by auto
  with False show ?thesis by auto
qed


section \<open>Leases\<close>

text \<open>A worker whose token or generation is not the one of the row.\<close>

definition stale_lease :: "string \<Rightarrow> int \<Rightarrow> run_row \<Rightarrow> bool" where
  "stale_lease token generation r = (r_worker_lease_token r \<noteq> token \<or> r_lease_generation r \<noteq> generation)"

text \<open>A call that wrote nothing and did not succeed.\<close>

definition no_row :: "'db \<Rightarrow> ('db, 'r option) outcome \<Rightarrow> bool" where
  "no_row db c = (snd c = db \<and> (case fst c of Inr (Some _) \<Rightarrow> False | _ \<Rightarrow> True))"

definition no_success :: "'db \<Rightarrow> ('db, bool) outcome \<Rightarrow> bool" where
  "no_success db c = (snd c = db \<and> fst c \<noteq> Inr True)"

lemma no_row_update:
  assumes "wf_runs db" "\<And>r. run_by_id k db = Some r \<Longrightarrow> \<not> guard_holds g r"
  shows "no_row db (conditional_update k fs g db)"
proof -
  obtain c db1 where c: "conditional_update k fs g db = (c, db1)" by (cases "conditional_update k fs g db")
  from assms(1) c show ?thesis
    by (cases rule: conditional_update_cases) (use assms c in \<open>auto simp: no_row_def\<close>)
qed

lemma no_success_answered: "no_row db c \<Longrightarrow> no_success db (answered c)"
  by (auto simp: no_row_def no_success_def answered_def split: prod.splits sum.splits option.splits)

lemma stale_no_row:
  assumes "wf_runs db" "run_by_id k db = Some r" "stale_lease token gen r"
    "expected_lease_token g = Some token" "expected_lease_generation g = Some gen"
  shows "no_row db (conditional_update k fs g db)"
  using assms by (intro no_row_update) (auto simp: stale_lease_def guard_holds_def opt_is_def)

lemma claim_worker_answered:
  "claim_worker k token pid ident n v now db =
     (case get_run k db of Inl e \<Rightarrow> (Inl e, db) | Inr current \<Rightarrow>
        answered (conditional_update k
          [F_status ''running'', F_current_phase ''worker'', F_worker_pid (Some pid),
           F_worker_identity ident, F_worker_claimed_at (Some now),
           F_started_at (Some (or_now (r_started_at current) now)), F_heartbeat_at (Some now), F_recovery_reason []]
          (default_guard\<lparr>expected_statuses := Some [''launch_pending'', ''queued''],
             expected_state_version := Some (case v of None \<Rightarrow> r_state_version current | Some x \<Rightarrow> x),
             expected_lease_token := Some token,
             expected_lease_generation := Some (case n of None \<Rightarrow> r_lease_generation current | Some x \<Rightarrow> x),
             reject_terminal := True\<rparr>) db))"
  by (simp add: claim_worker_def answered_def Let_def split: sum.split)

lemma no_success_get_run:
  "(\<And>r. get_run k db = Inr r \<Longrightarrow> no_success db (f r)) \<Longrightarrow>
   no_success db (case get_run k db of Inl e \<Rightarrow> (Inl e, db) | Inr r \<Rightarrow> f r)"
  by (simp add: no_success_def split: sum.split)

text \<open>Fencing. A worker that shows a lease token or a lease generation the run no longer has
  cannot claim the run, report progress, refresh the heartbeat, attach a child process, be adopted
  or end the run: every such call leaves the database as it was and does not report success.\<close>

theorem stale_lease_changes_nothing:
  assumes "wf_runs db" "run_by_id k db = Some r" "stale_lease token gen r"
  shows "no_success db (claim_worker k token pid ident (Some gen) v now db) \<and>
    no_success db (update_worker_progress k token gen phase elapsed progress now db) \<and>
    no_success db (heartbeat_worker k token elapsed progress (Some gen) now db) \<and>
    no_success db (attach_child_pid k pid token gen now db) \<and>
    no_row db (adopt_worker k version token gen hb now db) \<and>
    no_row db (transition_terminal k rep ss version (Some token) (Some gen) hbo now db)"
proof (intro conjI)
  note stale = stale_no_row [OF assms]
  show "no_success db (claim_worker k token pid ident (Some gen) v now db)"
    unfolding claim_worker_answered by (intro no_success_get_run no_success_answered stale) simp_all
  show "no_success db (update_worker_progress k token gen phase elapsed progress now db)"
    unfolding update_worker_progress_def
    by (intro no_success_answered stale) (simp_all add: running_guard_def)
  show "no_success db (heartbeat_worker k token elapsed progress (Some gen) now db)"
    unfolding heartbeat_worker_def Let_def
    by (intro no_success_get_run no_success_answered stale) (simp_all add: running_guard_def)
  show "no_success db (attach_child_pid k pid token gen now db)"
    unfolding attach_child_pid_def by (intro no_success_answered stale) (simp_all add: running_guard_def)
  show "no_row db (adopt_worker k version token gen hb now db)"
    unfolding adopt_worker_def by (intro stale) (simp_all add: running_guard_def)
  show "no_row db (transition_terminal k rep ss version (Some token) (Some gen) hbo now db)"
    unfolding transition_terminal_def using stale by (auto simp: no_row_def)
qed

section \<open>Claims\<close>

lemma get_run_Inr: "get_run k db = Inr r \<longleftrightarrow> valid_run_id k \<and> run_by_id k db = Some r"
  by (auto simp: get_run_def split: option.splits)

lemma claim_success_status:
  assumes "wf_runs db" "claim_worker k token pid ident n v now db = (Inr True, db')"
  shows "\<exists>r r'. run_by_id k db = Some r \<and> r_status r \<in> {''launch_pending'', ''queued''} \<and>
    r_worker_lease_token r = token \<and> run_by_id k db' = Some r' \<and> r_status r' = ''running'' \<and>
    r_worker_pid r' = Some pid \<and> r_lease_generation r' = r_lease_generation r \<and>
    r_state_version r' = r_state_version r + 1"
proof -
  from assms(2) obtain cur where cur: "run_by_id k db = Some cur"
    by (auto simp: claim_worker_answered get_run_Inr split: sum.splits)
  define fs where "fs = [F_status ''running'', F_current_phase ''worker'', F_worker_pid (Some pid),
           F_worker_identity ident, F_worker_claimed_at (Some now),
           F_started_at (Some (or_now (r_started_at cur) now)), F_heartbeat_at (Some now), F_recovery_reason []]"
  define g where "g = default_guard\<lparr>expected_statuses := Some [''launch_pending'', ''queued''],
             expected_state_version := Some (case v of None \<Rightarrow> r_state_version cur | Some x \<Rightarrow> x),
             expected_lease_token := Some token,
             expected_lease_generation := Some (case n of None \<Rightarrow> r_lease_generation cur | Some x \<Rightarrow> x),
             reject_terminal := True\<rparr>"
  obtain c db1 where c: "conditional_update k fs g db = (c, db1)" by (cases "conditional_update k fs g db")
  have ans: "answered (c, db1) = (Inr True, db')"
    using assms(2) cur c by (auto simp: claim_worker_answered get_run_Inr fs_def g_def split: sum.splits)
  from assms(1) c show ?thesis
  proof (cases rule: conditional_update_cases)
    case (updated old)
    have norm: "normalize_update_values fs = fs"
      by (simp add: fs_def normalize_update_values_def progress_scalar_def)
    have "r_run_id old = k" using run_by_id_key [OF updated(1)] .
    moreover have "db' = put_run k (set_clause fs g old) db"
      using updated ans by (simp add: answered_def norm)
    moreover have "r_status old \<in> {''launch_pending'', ''queued''}" "r_worker_lease_token old = token"
      using updated(2) by (auto simp: guard_holds_def opt_is_def g_def)
    moreover have "r_status (set_clause fs g old) = ''running''"
        "r_worker_pid (set_clause fs g old) = Some pid"
        "r_lease_generation (set_clause fs g old) = r_lease_generation old"
        "r_state_version (set_clause fs g old) = r_state_version old + 1"
      by (simp_all add: set_clause_def fs_def g_def default_guard_def)
    ultimately show ?thesis using updated(1) by (simp add: run_by_id_put_run)
  qed (use ans in \<open>auto simp: answered_def\<close>)
qed

lemma claim_after_launch:
  assumes "wf_runs db" "run_by_id k db = Some r" "\<not> prelaunch (r_status r)"
  shows "no_success db (claim_worker k token pid ident n v now db)"
  unfolding claim_worker_answered using assms
  by (intro no_success_get_run no_success_answered no_row_update) (auto simp: guard_holds_def prelaunch_def)

section \<open>Bounded columns\<close>

definition row_bounded :: "run_row \<Rightarrow> bool" where
  "row_bounded r =
     (length (r_last_output_at r) \<le> 128 \<and> length (r_cancellation_requested_at r) \<le> 128 \<and>
      length (r_result_publication_status r) \<le> 32 \<and> length (r_result_published_hash r) \<le> 128 \<and>
      length (r_result_publication_error r) \<le> 2000 \<and> length (r_public_result_schema_version r) \<le> 128 \<and>
      length (r_public_result_source_sha256 r) \<le> 128 \<and> length (r_public_result_status r) \<le> 32 \<and>
      length (r_public_result_error r) \<le> 2000)"

lemma apply_normalized_bounded: "row_bounded r \<Longrightarrow> row_bounded (apply_field (normalize_field f) r)"
  by (cases f) (simp_all add: row_bounded_def)

lemma apply_fields_normalized_bounded:
  "row_bounded r \<Longrightarrow> row_bounded (apply_fields (map normalize_field fs) r)"
  by (induction fs arbitrary: r) (simp_all add: apply_normalized_bounded)

lemma set_clause_bounded: "row_bounded (apply_fields fs r) \<Longrightarrow> row_bounded (set_clause fs g r)"
  by (simp add: set_clause_def Let_def row_bounded_def split: option.split)

lemma normalized_update_bounded:
  "row_bounded r \<Longrightarrow> row_bounded (set_clause (normalize_update_values fs) g r)"
  by (rule set_clause_bounded)
    (simp add: normalize_update_values_def apply_fields_append apply_fields_normalized_bounded
      del: map_append add: map_append [symmetric])

definition db_bounded :: "'a run_db_scheme \<Rightarrow> bool" where
  "db_bounded db = list_all row_bounded (runs db)"

lemma sql_update_all: "list_all P rows \<Longrightarrow> (\<And>r. P r \<Longrightarrow> P (f r)) \<Longrightarrow> list_all P (sql_update p f rows)"
  by (auto simp: sql_update_def list_all_iff)

lemma exec_conditional_runs:
  "runs (snd (exec_conditional k fs g db)) =
     sql_update (\<lambda>r. r_run_id r = k \<and> guard_holds g r) (set_clause fs g) (runs db)"
  by (simp add: exec_conditional_def Let_def split: sum.split)

lemma conditional_update_bounded: "db_bounded db \<Longrightarrow> db_bounded (snd (conditional_update k fs g db))"
proof -
  assume b: "db_bounded db"
  then have "db_bounded (snd (exec_conditional k (normalize_update_values fs) g db))"
    unfolding db_bounded_def exec_conditional_runs
    by (intro sql_update_all normalized_update_bounded)
  with b conditional_update_exec [of k fs g db] show ?thesis by auto
qed

text \<open>The table \<open>runs\<close> after a call: as before, or after one guarded update.\<close>

definition via_update :: "'a run_db_scheme \<Rightarrow> 'a run_db_scheme \<Rightarrow> bool" where
  "via_update db db' = (runs db' = runs db \<or> (\<exists>k fs g. runs db' = runs (snd (conditional_update k fs g db))))"

lemma via_update_intros:
  "via_update db db" "via_update db (snd (conditional_update k fs g db))"
  by (auto simp: via_update_def)

lemma via_update_event:
  assumes "via_update db db1"
  shows "via_update db (snd (case insert_event ev db1 of (Inl e, db2) \<Rightarrow> (Inl e, db2) | (Inr _, db2) \<Rightarrow> (Inr ev, db2)))"
  using assms by (auto simp: via_update_def insert_event_def)

lemma snd_case_row:
  "snd (case c of (Inl e, db') \<Rightarrow> (Inl e, db') | (Inr None, db') \<Rightarrow> (Inl m, db') | (Inr (Some r), db') \<Rightarrow> (Inr r, db')) = snd c"
  by (auto split: prod.split sum.split option.split)

lemma append_event_via: "via_update db (snd (append_event k level stage msg data ts meta now db))"
proof -
  obtain res db1 where c: "conditional_update k [F_heartbeat_at (Some (or_now ts now)), F_current_phase stage]
      (default_guard\<lparr>bump_state_version := False, bump_state_version_if_phase_changes := True\<rparr>) db = (res, db1)"
    by (metis surj_pair)
  then have via: "via_update db db1" by (metis via_update_intros(2) snd_conv)
  show ?thesis
    using via_update_event [OF via] via_update_event [OF via_update_intros(1)] via c
    by (auto simp: append_event_def Let_def via_update_intros split: sum.split option.split)
qed

lemma set_progress_via: "via_update db (snd (set_progress k phase progress el ts now db))"
  unfolding set_progress_def snd_case_row by (rule via_update_intros)

lemma run_step_runs:
  assumes "run_step db db'"
  shows "via_update db db' \<or>
    (\<exists>k repo tool dir input risk human status token now.
       runs db' = runs db @ [new_run k repo tool dir input risk human status token now])"
  using assms
proof cases
  case create
  then show ?thesis by (simp add: create_run_def Let_def via_update_intros split: if_splits) blast
next
  case event
  then show ?thesis by (simp add: append_event_via)
next
  case set_progress
  then show ?thesis by (simp add: set_progress_via)
next
  case heartbeat
  then show ?thesis by (auto simp: heartbeat_def via_update_intros set_progress_via split: sum.split)
qed (simp_all add: record_worker_launch_def claim_worker_answered update_worker_progress_def
    heartbeat_worker_def attach_child_pid_def adopt_worker_def mark_recovery_pending_def
    transition_terminal_def fail_infrastructure_def record_result_publication_def
    record_result_publication_with_projection_def record_public_result_def request_cancellation_def
    worker_cancellation_pending_def Let_def via_update_intros split: sum.split)

lemma via_update_bounded: "via_update db db' \<Longrightarrow> db_bounded db \<Longrightarrow> db_bounded db'"
  using conditional_update_bounded unfolding via_update_def db_bounded_def by metis

lemma new_run_bounded: "row_bounded (new_run k repo tool dir input risk human status token now)"
  by (simp add: row_bounded_def new_run_def)

lemma run_step_bounded: "run_step db db' \<Longrightarrow> db_bounded db \<Longrightarrow> db_bounded db'"
  using run_step_runs [of db db'] via_update_bounded [of db db'] new_run_bounded
  by (auto simp: db_bounded_def)

text \<open>The tables of the other components, and what the operations of the store do to them.\<close>

lemma exec_conditional_more: "run_db.more (snd (exec_conditional k fs g db)) = run_db.more db"
  by (simp add: exec_conditional_def Let_def split: sum.split)

lemma conditional_update_more [simp]: "run_db.more (snd (conditional_update k fs g db)) = run_db.more db"
  using conditional_update_exec [of k fs g db] exec_conditional_more [of k "normalize_update_values fs" g db] by auto

lemma append_event_more: "run_db.more (snd (append_event k level stage msg data ts meta now db)) = run_db.more db"
proof -
  have ins: "run_db.more (snd (case insert_event ev db1 of (Inl e, db2) \<Rightarrow> (Inl e, db2) | (Inr _, db2) \<Rightarrow> (Inr ev, db2))) = run_db.more db1"
    for ev and db1 :: "'a run_db_scheme" by (simp add: insert_event_def)
  obtain res db1 where c: "conditional_update k [F_heartbeat_at (Some (or_now ts now)), F_current_phase stage]
      (default_guard\<lparr>bump_state_version := False, bump_state_version_if_phase_changes := True\<rparr>) db = (res, db1)"
    by (metis surj_pair)
  then have "run_db.more db1 = run_db.more db" by (metis conditional_update_more snd_conv)
  then show ?thesis using c by (auto simp: append_event_def Let_def ins split: sum.split option.split)
qed

lemma run_step_more: "run_step db db' \<Longrightarrow> run_db.more db' = run_db.more db"
proof (induction rule: run_step.induct)
  case create
  then show ?case by (simp add: create_run_def Let_def)
qed (simp_all add: append_event_more record_worker_launch_def claim_worker_answered update_worker_progress_def
    heartbeat_worker_def attach_child_pid_def adopt_worker_def mark_recovery_pending_def
    transition_terminal_def fail_infrastructure_def record_result_publication_def
    record_result_publication_with_projection_def record_public_result_def request_cancellation_def
    worker_cancellation_pending_def set_progress_def snd_case_row heartbeat_def Let_def split: sum.split)

text \<open>Whatever text the callers hand in, in every database reached from one where they hold the
  bounded columns of every run keep their documented maximal lengths.\<close>

theorem bounded_columns_invariant:
  assumes "run_step\<^sup>*\<^sup>* db db'" "db_bounded db"
  shows "db_bounded db'"
  using assms by (induction rule: rtranclp_induct) (auto intro: run_step_bounded)


section \<open>Run identifiers as directory names\<close>

definition run_id_char :: "char \<Rightarrow> bool" where
  "run_id_char c = (is_digit c \<or> is_lower_alpha c \<or> c \<in> {CHR ''T'', CHR ''Z'', CHR ''_''})"

lemma is_hex_lower_char: "is_hex_lower c \<Longrightarrow> run_id_char c"
  by (auto simp: is_hex_lower_def run_id_char_def is_lower_alpha_def)

lemma split_at_17:
  assumes "17 \<le> length s"
  shows "s = take 8 s @ s ! 8 # take 6 (drop 9 s) @ s ! 15 # s ! 16 # drop 17 s"
proof -
  have "drop 8 s = s ! 8 # drop 9 s" "drop 15 s = s ! 15 # drop 16 s" "drop 16 s = s ! 16 # drop 17 s"
    using assms Cons_nth_drop_Suc [of 8 s] Cons_nth_drop_Suc [of 15 s] Cons_nth_drop_Suc [of 16 s] by simp_all
  moreover have "drop 9 s = take 6 (drop 9 s) @ drop 15 s"
    using append_take_drop_id [of 6 "drop 9 s"] by simp
  ultimately show ?thesis using append_take_drop_id [of 8 s] by metis
qed

lemma run_id_core_chars:
  assumes "run_id_core s"
  shows "list_all run_id_char s"
proof -
  let ?rest = "drop 17 s"
  have len: "27 \<le> length s" using assms by (simp add: run_id_core_def Let_def)
  have "list_all run_id_char (take (length ?rest - 9) ?rest)"
    using assms by (auto simp: run_id_core_def Let_def list_all_iff run_id_char_def)
  moreover have "list_all run_id_char (drop (length ?rest - 9) ?rest)"
  proof (cases "drop (length ?rest - 9) ?rest")
    case (Cons a b)
    with assms show ?thesis
      by (auto simp: run_id_core_def Let_def list_all_iff is_hex_lower_char) (simp add: run_id_char_def)
  qed simp
  ultimately have "list_all run_id_char ?rest"
    by (metis append_take_drop_id list_all_append)
  moreover have "list_all run_id_char (take 8 s)" "list_all run_id_char (take 6 (drop 9 s))"
      "run_id_char (s ! 8)" "run_id_char (s ! 15)" "run_id_char (s ! 16)"
    using assms by (auto simp: run_id_core_def Let_def list_all_iff run_id_char_def)
  ultimately have "list_all run_id_char (take 8 s @ s ! 8 # take 6 (drop 9 s) @ s ! 15 # s ! 16 # drop 17 s)"
    by simp
  moreover have "17 \<le> length s" using len by simp
  ultimately show ?thesis using split_at_17 [of s] by simp
qed

text \<open>A validated run id is safe as a directory name: it has at least 27 characters, every one is
  a digit, a lower-case letter, \<open>T\<close>, \<open>Z\<close> or an underscore, so no path separator, dot or drive colon
  occurs; the only other character it may have is one final newline.\<close>

theorem valid_run_id_path_safe:
  assumes "valid_run_id s"
  shows "27 \<le> length s \<and> list_all run_id_char (butlast s) \<and> (run_id_char (last s) \<or> last s = newline) \<and>
    list_all (\<lambda>c. c \<notin> set s) [CHR ''/'', CHR 0x5C, CHR ''.'', CHR '':'']"
proof -
  have safe: "27 \<le> length t \<and> list_all run_id_char t" if "run_id_core t" for t
    using that run_id_core_chars by (simp add: run_id_core_def Let_def)
  have no: "\<not> run_id_char c" if "c \<in> {CHR ''/'', CHR 0x5C, CHR ''.'', CHR '':''}" for c
    using that by (auto simp: run_id_char_def is_digit_def is_lower_alpha_def)
  from assms consider "run_id_core s" | "s \<noteq> []" "last s = newline" "run_id_core (butlast s)"
    by (auto simp: valid_run_id_def re_end_def)
  then show ?thesis
  proof cases
    case 1
    then have all: "list_all run_id_char s" "27 \<le> length s" using safe by auto
    then have "s \<noteq> []" by auto
    moreover from this all have "run_id_char (last s)" "list_all run_id_char (butlast s)"
      by (simp_all add: list_all_iff in_set_butlastD)
    moreover have "c \<notin> set s" if "\<not> run_id_char c" for c
      using that all by (auto simp: list_all_iff)
    ultimately show ?thesis using no all by simp
  next
    case 2
    then have all: "list_all run_id_char (butlast s)" "27 \<le> length (butlast s)"
      using safe [OF 2(3)] by blast+
    have "set s = insert newline (set (butlast s))"
      using 2 by (metis append_butlast_last_id list.simps(15) rotate1.simps(2) set_rotate1)
    then have "c \<notin> set s" if "\<not> run_id_char c" "c \<noteq> newline" for c
      using that all(1) by (auto simp: list_all_iff)
    then show ?thesis using no all 2 by (simp add: newline_def)
  qed
qed


section \<open>Concrete instances\<close>

definition sample_id :: string where
  "sample_id = ''20240101T000000Z_py_0123abcd''"

definition sample_db :: run_db where
  "sample_db = \<lparr>runs = [new_run sample_id ''repo'' ''pytest'' ''runs/1'' (JObj []) ''low'' False ''queued'' ''tok'' ''t0''],
     events = [], event_seq = 0\<rparr>"

definition sample_try :: terminal_try where
  "sample_try = \<lparr>ty_report = \<lparr>tr_status = ''failed'', tr_result = JObj [], tr_ended_at = None,
       tr_duration_seconds = None, tr_exit_code = Some 1, tr_summary = ''s'', tr_error = ''e'',
       tr_safety_failure = False, tr_recovery_reason = [], tr_progress = None\<rparr>,
     ty_statuses = [''queued''], ty_token = Some ''tok'', ty_generation = Some 1, ty_heartbeat = None,
     ty_now = ''t1''\<rparr>"

lemma sample_wf: "wf_runs sample_db"
  by (simp add: wf_runs_def sample_db_def)

lemma sample_id_valid: "valid_run_id sample_id"
  by code_simp

lemma sample_accepted: "try_accepted sample_id 0 sample_try sample_db"
  by code_simp

theorem terminal_race_one_winner_witness:
  "wins (fst (terminal_race sample_id 0 [sample_try, sample_try] sample_db)) = 1"
  using terminal_race_one_winner [OF sample_wf surjective_pairing,
      of sample_id 0 "[sample_try, sample_try]"] sample_accepted by simp

theorem stale_lease_changes_nothing_witness:
  "no_success sample_db (claim_worker sample_id ''old'' 7 ''w'' (Some 1) None ''t1'' sample_db)"
proof -
  have "run_by_id sample_id sample_db = Some (hd (runs sample_db))"
    by (simp add: run_by_id_def sample_db_def new_run_def)
  moreover have "stale_lease ''old'' 1 (hd (runs sample_db))"
    by (simp add: stale_lease_def sample_db_def new_run_def)
  ultimately show ?thesis using stale_lease_changes_nothing [OF sample_wf] by blast
qed

theorem bounded_columns_invariant_witness:
  "db_bounded (snd (record_public_result sample_id (JObj []) (replicate 200 CHR ''a'') ''ready'' [] 0 sample_db))"
proof -
  have "db_bounded sample_db" by code_simp
  moreover have "run_step sample_db
      (snd (record_public_result sample_id (JObj []) (replicate 200 CHR ''a'') ''ready'' [] 0 sample_db))"
    by (rule run_step.public_result)
  ultimately show ?thesis using bounded_columns_invariant by blast
qed

theorem valid_run_id_path_safe_witness:
  "valid_run_id (sample_id @ [newline]) \<and> list_all run_id_char sample_id"
proof -
  have v: "valid_run_id (sample_id @ [newline])" by code_simp
  from valid_run_id_path_safe [OF v] v show ?thesis by (simp add: butlast_append)
qed

end
