(* ===== verification/Process_Control.thy ===== *)
theory Process_Control
  imports Soma_Prelude
begin

text \<open>
  Process liveness as \<open>src/soma/process_control.py\<close> decides it. What the operating system knows is
  a parameter: whether a positive pid answers the probe, and the text that identifies the start of
  that process (\<open>/proc/<pid>/stat\<close> or the creation time), empty when it cannot be read.
\<close>

record proc_world =
  pw_alive :: "int \<Rightarrow> bool"
  pw_start :: "int \<Rightarrow> string"

definition process_is_running :: "proc_world \<Rightarrow> int option \<Rightarrow> bool" where
  "process_is_running w pid = (case pid of None \<Rightarrow> False | Some p \<Rightarrow> p > 0 \<and> pw_alive w p)"

definition pid_or_zero :: "int option \<Rightarrow> int" where
  "pid_or_zero pid = (case pid of None \<Rightarrow> 0 | Some p \<Rightarrow> p)"

definition process_identity :: "proc_world \<Rightarrow> int option \<Rightarrow> string" where
  "process_identity w pid =
     (let p = pid_or_zero pid in
      if p \<le> 0 \<or> \<not> process_is_running w (Some p) then [] else pw_start w p)"

definition process_matches_identity :: "proc_world \<Rightarrow> int option \<Rightarrow> string \<Rightarrow> bool" where
  "process_matches_identity w pid expected = (expected \<noteq> [] \<and> process_identity w pid = expected)"

lemma matches_identity_running:
  "process_matches_identity w pid expected \<Longrightarrow> process_is_running w (Some (pid_or_zero pid))"
  by (auto simp: process_matches_identity_def process_identity_def Let_def split: if_splits)

lemma process_is_running_or_zero: "process_is_running w (Some (pid_or_zero pid)) = process_is_running w pid"
  by (simp add: process_is_running_def pid_or_zero_def split: option.split)

end
