(* ===== verification/Operation_Locks.thy ===== *)
theory Operation_Locks
  imports Run_Guarantees Process_Control
begin

text \<open>
  The repository lock of \<open>src/soma/operation_locks.py\<close>: one row per repository, owned by a run
  through its lease token and generation, in the same database as the runs. \<open>fingerprint\<close>
  arguments stand for the SHA-256 text of the normalised input.
\<close>

section \<open>Rows and answers\<close>

record lock_row =
  l_repo_name :: string
  l_tool :: string
  l_input_fingerprint :: string
  l_run_id :: string
  l_owner_pid :: "int option"
  l_owner_token :: string
  l_lease_generation :: int
  l_acquired_at :: timestamp
  l_heartbeat_at :: timestamp
  l_bound :: bool

record lock_db = run_db +
  locks :: "lock_row list"

record lock_acquisition =
  a_acquired :: bool
  a_duplicate :: bool
  a_repo_name :: string
  a_lock_key :: string
  a_reason :: string
  a_fingerprint :: string

definition lock_by_repo :: "string \<Rightarrow> 'a lock_db_scheme \<Rightarrow> lock_row option" where
  "lock_by_repo repo_name db = by_key l_repo_name repo_name (locks db)"

text \<open>The WHERE clause of the ownership-checked statements, with its two optional conditions.\<close>

definition lock_where :: "string \<Rightarrow> string \<Rightarrow> string option \<Rightarrow> int option \<Rightarrow> lock_row \<Rightarrow> bool" where
  "lock_where repo_name run_id token generation l =
     (l_repo_name l = repo_name \<and> l_run_id l = run_id \<and>
      opt_is token (l_owner_token l) \<and> opt_is generation (l_lease_generation l))"

section \<open>Binding a lock to the version of its run\<close>

definition bump_run_state_version :: "string \<Rightarrow> 'a run_db_scheme \<Rightarrow> bool \<times> 'a run_db_scheme" where
  "bump_run_state_version run_id db =
     (sql_count (\<lambda>r. r_run_id r = run_id) (runs db) = 1,
      db\<lparr>runs := sql_update (\<lambda>r. r_run_id r = run_id) (\<lambda>r. r\<lparr>r_state_version := r_state_version r + 1\<rparr>) (runs db)\<rparr>)"

definition bind_in_connection ::
  "string \<Rightarrow> string \<Rightarrow> string \<Rightarrow> int \<Rightarrow> 'a lock_db_scheme \<Rightarrow> ('a lock_db_scheme, bool) outcome" where
  "bind_in_connection repo_name run_id token generation db =
     (let mine = lock_where repo_name run_id (Some token) (Some generation) in
      case sql_fetchone mine (locks db) of
        None \<Rightarrow> (Inr False, db)
      | Some row \<Rightarrow>
          if l_bound row then (Inr True, db)
          else
            let (bumped, db1) = bump_run_state_version run_id db in
            if \<not> bumped then (Inr False, db1)
            else
              let unbound = (\<lambda>l. mine l \<and> \<not> l_bound l) in
              if sql_count unbound (locks db1) \<noteq> 1
              then (Inl (RuntimeError ''Repository lock decision-version binding lost a race''), db1)
              else (Inr True, db1\<lparr>locks := sql_update unbound (\<lambda>l. l\<lparr>l_bound := True\<rparr>) (locks db1)\<rparr>))"

text \<open>\<open>BEGIN IMMEDIATE\<close> \<open>...\<close> \<open>commit\<close>, with a rollback when the body raises.\<close>

definition in_transaction :: "('db \<Rightarrow> ('db, 'a) outcome) \<Rightarrow> 'db \<Rightarrow> ('db, 'a) outcome" where
  "in_transaction body db = (case body db of (Inl e, _) \<Rightarrow> (Inl e, db) | (Inr v, db') \<Rightarrow> (Inr v, db'))"

definition bind_run_ownership ::
  "string \<Rightarrow> string \<Rightarrow> string \<Rightarrow> int \<Rightarrow> 'a lock_db_scheme \<Rightarrow> ('a lock_db_scheme, bool) outcome" where
  "bind_run_ownership repo_name run_id token generation =
     in_transaction (bind_in_connection repo_name run_id token generation)"

section \<open>Staleness\<close>

definition lock_is_stale :: "proc_world \<Rightarrow> 'a run_db_scheme \<Rightarrow> lock_row \<Rightarrow> bool" where
  "lock_is_stale w db row =
     (case run_by_id (l_run_id row) db of
        None \<Rightarrow> \<not> (case l_owner_pid row of None \<Rightarrow> False | Some p \<Rightarrow> p \<noteq> 0 \<and> process_is_running w (Some p))
      | Some run \<Rightarrow>
          let worker_pid = pid_or_zero (r_worker_pid run);
              verified_worker = process_matches_identity w (Some worker_pid) (r_worker_identity run);
              live_launcher = process_is_running w (Some (pid_or_zero (r_launcher_pid run)));
              live_child = process_is_running w (Some (pid_or_zero (r_pid run)))
          in if is_terminal (r_status run) then \<not> (verified_worker \<or> live_launcher \<or> live_child)
             else False)"

section \<open>Acquire\<close>

text \<open>
  \<open>acquire\<close> first reads the row of the repository and decides whether it is stale; this read is
  not part of the transaction its first write opens. \<open>acquire_write\<close> is the transaction, given
  what was read.
\<close>

datatype acquire_view = Free | Stale lock_row | Busy lock_row

definition acquire_read :: "proc_world \<Rightarrow> string \<Rightarrow> 'a lock_db_scheme \<Rightarrow> acquire_view" where
  "acquire_read w repo_name db =
     (case lock_by_repo repo_name db of
        None \<Rightarrow> Free
      | Some row \<Rightarrow> if lock_is_stale w db row then Stale row else Busy row)"

definition refused_acquisition :: "string \<Rightarrow> string \<Rightarrow> string \<Rightarrow> lock_row \<Rightarrow> lock_acquisition" where
  "refused_acquisition repo_name tool fingerprint existing =
     (let duplicate = (l_tool existing = tool \<and> l_input_fingerprint existing = fingerprint) in
      \<lparr>a_acquired = False, a_duplicate = duplicate, a_repo_name = repo_name, a_lock_key = repo_name,
       a_reason = (if duplicate then ''duplicate active task'' else ''repository busy''),
       a_fingerprint = fingerprint\<rparr>)"

definition granted_acquisition :: "string \<Rightarrow> string \<Rightarrow> lock_acquisition" where
  "granted_acquisition repo_name fingerprint =
     \<lparr>a_acquired = True, a_duplicate = False, a_repo_name = repo_name, a_lock_key = repo_name,
      a_reason = [], a_fingerprint = fingerprint\<rparr>"

definition new_lock ::
  "string \<Rightarrow> string \<Rightarrow> string \<Rightarrow> string \<Rightarrow> int option \<Rightarrow> string \<Rightarrow> int \<Rightarrow> timestamp \<Rightarrow> lock_row" where
  "new_lock repo_name tool fingerprint run_id owner_pid token generation now =
     \<lparr>l_repo_name = repo_name, l_tool = tool, l_input_fingerprint = fingerprint, l_run_id = run_id,
      l_owner_pid = owner_pid, l_owner_token = token, l_lease_generation = generation,
      l_acquired_at = now, l_heartbeat_at = now, l_bound = False\<rparr>"

definition insert_lock :: "lock_row \<Rightarrow> 'a lock_db_scheme \<Rightarrow> ('a lock_db_scheme, unit) outcome" where
  "insert_lock row db =
     (if lock_by_repo (l_repo_name row) db \<noteq> None
      then (Inl (IntegrityError ''UNIQUE constraint failed: operation_locks.repo_name''), db)
      else (Inr (), db\<lparr>locks := locks db @ [row]\<rparr>))"

definition delete_stale :: "string \<Rightarrow> lock_row \<Rightarrow> 'a lock_db_scheme \<Rightarrow> 'a lock_db_scheme" where
  "delete_stale repo_name existing db =
     (let here = (\<lambda>l. l_repo_name l = repo_name);
          db1 = db\<lparr>locks := sql_delete here (locks db)\<rparr>
      in if sql_count here (locks db) = 1 then snd (bump_run_state_version (l_run_id existing) db1) else db1)"

definition acquire_write ::
  "acquire_view \<Rightarrow> string \<Rightarrow> string \<Rightarrow> string \<Rightarrow> string \<Rightarrow> int option \<Rightarrow> string \<Rightarrow> int \<Rightarrow> timestamp \<Rightarrow>
   'a lock_db_scheme \<Rightarrow> ('a lock_db_scheme, lock_acquisition) outcome" where
  "acquire_write view repo_name tool fingerprint run_id owner_pid token generation now db =
     (let row = new_lock repo_name tool fingerprint run_id owner_pid token generation now;
          store = (\<lambda>db1. case insert_lock row db1 of
                     (Inl e, _) \<Rightarrow> (Inl e, db)
                   | (Inr _, db2) \<Rightarrow>
                       (case bind_run_ownership repo_name run_id token generation db2 of
                          (Inl e, db3) \<Rightarrow> (Inl e, db3) | (Inr _, db3) \<Rightarrow> (Inr (granted_acquisition repo_name fingerprint), db3)))
      in case view of
           Busy existing \<Rightarrow> (Inr (refused_acquisition repo_name tool fingerprint existing), db)
         | Free \<Rightarrow> store db
         | Stale existing \<Rightarrow> store (delete_stale repo_name existing db))"

definition acquire ::
  "proc_world \<Rightarrow> string \<Rightarrow> string \<Rightarrow> string \<Rightarrow> string \<Rightarrow> int option \<Rightarrow> string \<Rightarrow> int \<Rightarrow> timestamp \<Rightarrow>
   'a lock_db_scheme \<Rightarrow> ('a lock_db_scheme, lock_acquisition) outcome" where
  "acquire w repo_name tool fingerprint run_id owner_pid token generation now db =
     acquire_write (acquire_read w repo_name db) repo_name tool fingerprint run_id owner_pid token generation now db"

section \<open>Claim, heartbeat and release\<close>

definition claim_owner ::
  "string \<Rightarrow> string \<Rightarrow> int \<Rightarrow> string \<Rightarrow> int option \<Rightarrow> timestamp \<Rightarrow> 'a lock_db_scheme \<Rightarrow> ('a lock_db_scheme, bool) outcome" where
  "claim_owner repo_name run_id owner_pid token generation now =
     in_transaction (\<lambda>db.
       let mine = lock_where repo_name run_id (Some token) generation in
       case sql_fetchone mine (locks db) of
         None \<Rightarrow> (Inr False, db)
       | Some row \<Rightarrow>
           let actual = (if l_lease_generation row = 0 then 1 else l_lease_generation row) in
           (case bind_in_connection repo_name run_id token actual db of
              (Inl e, db1) \<Rightarrow> (Inl e, db1)
            | (Inr _, db1) \<Rightarrow>
                let owner_changed = (pid_or_zero (l_owner_pid row) \<noteq> owner_pid);
                    db2 = db1\<lparr>locks := sql_update mine (\<lambda>l. l\<lparr>l_owner_pid := Some owner_pid, l_heartbeat_at := now\<rparr>) (locks db1)\<rparr>
                in if sql_count mine (locks db1) \<noteq> 1 then (Inr False, db)
                   else (Inr True, if owner_changed then snd (bump_run_state_version run_id db2) else db2)))"

definition lock_heartbeat ::
  "string \<Rightarrow> string \<Rightarrow> string option \<Rightarrow> int option \<Rightarrow> timestamp \<Rightarrow> 'a lock_db_scheme \<Rightarrow> bool \<times> 'a lock_db_scheme" where
  "lock_heartbeat repo_name run_id token generation now db =
     (let mine = lock_where repo_name run_id token generation in
      (sql_count mine (locks db) = 1, db\<lparr>locks := sql_update mine (\<lambda>l. l\<lparr>l_heartbeat_at := now\<rparr>) (locks db)\<rparr>))"

definition release ::
  "string \<Rightarrow> string \<Rightarrow> string option \<Rightarrow> int option \<Rightarrow> 'a lock_db_scheme \<Rightarrow> bool \<times> 'a lock_db_scheme" where
  "release repo_name run_id token generation db =
     (let mine = lock_where repo_name run_id token generation;
          released = (sql_count mine (locks db) = 1);
          db1 = db\<lparr>locks := sql_delete mine (locks db)\<rparr>
      in (released, if released then snd (bump_run_state_version run_id db1) else db1))"

section \<open>Reservation of the next launch\<close>

record reservation =
  rv_owner_token :: string
  rv_lease_generation :: int
  rv_state_version :: int
  rv_launch_attempts :: int

definition relaunch_row :: "string \<Rightarrow> int \<Rightarrow> timestamp \<Rightarrow> run_row \<Rightarrow> run_row" where
  "relaunch_row token generation now r =
     r\<lparr>r_status := ''launch_pending'', r_current_phase := ''launch_pending'',
       r_worker_lease_token := token, r_lease_generation := generation,
       r_state_version := r_state_version r + 1, r_launch_attempts := r_launch_attempts r + 1,
       r_launcher_pid := None, r_worker_pid := None, r_worker_identity := [],
       r_worker_claimed_at := None, r_pid := None, r_heartbeat_at := Some now,
       r_recovery_reason := [], r_ended_at := None\<rparr>"

definition relaunch_where :: "string \<Rightarrow> string list \<Rightarrow> int \<Rightarrow> string \<Rightarrow> int \<Rightarrow> run_row \<Rightarrow> bool" where
  "relaunch_where run_id statuses version token generation r =
     (r_run_id r = run_id \<and> r_state_version r = version \<and> r_worker_lease_token r = token \<and>
      r_lease_generation r = generation \<and> r_status r \<in> set statuses)"

definition reserve_next_launch ::
  "string \<Rightarrow> string \<Rightarrow> string list \<Rightarrow> int \<Rightarrow> string \<Rightarrow> int \<Rightarrow> string \<Rightarrow> int option \<Rightarrow> timestamp \<Rightarrow>
   'a lock_db_scheme \<Rightarrow> reservation option \<times> 'a lock_db_scheme" where
  "reserve_next_launch repo_name run_id statuses version token generation new_token owner_pid now db =
     (if statuses = [] then (None, db)
      else
        let new_generation = generation + 1;
            due = relaunch_where run_id statuses version token generation;
            mine = lock_where repo_name run_id (Some token) (Some generation);
            db1 = db\<lparr>runs := sql_update due (relaunch_row new_token new_generation now) (runs db)\<rparr>;
            db2 = db1\<lparr>locks := sql_update mine (\<lambda>l. l\<lparr>l_owner_pid := owner_pid, l_owner_token := new_token,
                      l_lease_generation := new_generation, l_heartbeat_at := now, l_bound := True\<rparr>) (locks db1)\<rparr>
        in if sql_count due (runs db) \<noteq> 1 then (None, db)
           else if sql_count mine (locks db1) \<noteq> 1 then (None, db)
           else (case run_by_id run_id db2 of
                   None \<Rightarrow> (None, db2)
                 | Some r \<Rightarrow> (Some \<lparr>rv_owner_token = new_token, rv_lease_generation = r_lease_generation r,
                                    rv_state_version = r_state_version r, rv_launch_attempts = r_launch_attempts r\<rparr>, db2)))"

section \<open>Listing and recovery\<close>

record lock_listing =
  ll_repo_name :: string
  ll_tool :: string
  ll_run_id :: string
  ll_owner_pid :: int
  ll_lease_generation :: int
  ll_acquired_at :: timestamp
  ll_heartbeat_at :: timestamp
  ll_stale :: bool
  ll_run_status :: string
  ll_launcher_pid :: int
  ll_worker_pid :: int
  ll_worker_identity_present :: bool
  ll_child_pid :: int

definition run_column :: "run_row option \<Rightarrow> (run_row \<Rightarrow> 'c) \<Rightarrow> 'c \<Rightarrow> 'c" where
  "run_column run f z = (case run of None \<Rightarrow> z | Some r \<Rightarrow> f r)"

definition list_lock :: "proc_world \<Rightarrow> 'a lock_db_scheme \<Rightarrow> lock_row \<Rightarrow> lock_listing" where
  "list_lock w db l =
     (let run = run_by_id (l_run_id l) db
      in \<lparr>ll_repo_name = l_repo_name l, ll_tool = l_tool l, ll_run_id = l_run_id l,
          ll_owner_pid = pid_or_zero (l_owner_pid l),
          ll_lease_generation = (if l_lease_generation l = 0 then 1 else l_lease_generation l),
          ll_acquired_at = l_acquired_at l, ll_heartbeat_at = l_heartbeat_at l,
          ll_stale = lock_is_stale w db l, ll_run_status = run_column run r_status [],
          ll_launcher_pid = run_column run (pid_or_zero \<circ> r_launcher_pid) 0,
          ll_worker_pid = run_column run (pid_or_zero \<circ> r_worker_pid) 0,
          ll_worker_identity_present = run_column run (\<lambda>r. r_worker_identity r \<noteq> []) False,
          ll_child_pid = run_column run (pid_or_zero \<circ> r_pid) 0\<rparr>)"

definition list_locks :: "proc_world \<Rightarrow> string option \<Rightarrow> bool \<Rightarrow> 'a lock_db_scheme \<Rightarrow> lock_listing list" where
  "list_locks w repo_name include_stale db =
     (let named = (case repo_name of None \<Rightarrow> locks db | Some n \<Rightarrow>
                     if n = [] then locks db else filter (\<lambda>l. lower (l_repo_name l) = lower n) (locks db));
          rows = sort_key l_acquired_at named
      in map (list_lock w db) (filter (\<lambda>l. \<not> (lock_is_stale w db l \<and> \<not> include_stale)) rows))"

definition find_lock :: "proc_world \<Rightarrow> string \<Rightarrow> string \<Rightarrow> 'a lock_db_scheme \<Rightarrow> lock_listing option" where
  "find_lock w repo_name run_id db = find (\<lambda>l. ll_run_id l = run_id) (list_locks w (Some repo_name) True db)"

text \<open>One row of the recovery loop: bind it, and remove it when it is stale.\<close>

definition recover_row :: "proc_world \<Rightarrow> lock_row \<Rightarrow> 'a lock_db_scheme \<Rightarrow> ('a lock_db_scheme, nat) outcome" where
  "recover_row w existing db =
     (let generation = (if l_lease_generation existing = 0 then 1 else l_lease_generation existing) in
      case bind_in_connection (l_repo_name existing) (l_run_id existing) (l_owner_token existing) generation db of
        (Inl e, db1) \<Rightarrow> (Inl e, db1)
      | (Inr _, db1) \<Rightarrow>
          if \<not> lock_is_stale w db1 existing then (Inr 0, db1)
          else
            let mine = lock_where (l_repo_name existing) (l_run_id existing) (Some (l_owner_token existing)) (Some generation);
                removed_now = sql_count mine (locks db1);
                db2 = db1\<lparr>locks := sql_delete mine (locks db1)\<rparr>
            in (Inr removed_now, if removed_now = 1 then snd (bump_run_state_version (l_run_id existing) db2) else db2))"

fun recover_rows :: "proc_world \<Rightarrow> lock_row list \<Rightarrow> 'a lock_db_scheme \<Rightarrow> ('a lock_db_scheme, nat) outcome" where
  "recover_rows w [] db = (Inr 0, db)"
| "recover_rows w (row # rows) db =
     (case recover_row w row db of
        (Inl e, db1) \<Rightarrow> (Inl e, db1)
      | (Inr n, db1) \<Rightarrow>
          (case recover_rows w rows db1 of (Inl e, db2) \<Rightarrow> (Inl e, db2) | (Inr m, db2) \<Rightarrow> (Inr (n + m), db2)))"

definition recover_stale :: "proc_world \<Rightarrow> 'a lock_db_scheme \<Rightarrow> ('a lock_db_scheme, nat) outcome" where
  "recover_stale w db = in_transaction (recover_rows w (locks db)) db"

text \<open>
  \<open>repository_operation_lock\<close>: acquire under a synthetic owner, run the body, release whatever
  the body did, and re-raise what it raised.
\<close>

definition repository_operation_lock ::
  "proc_world \<Rightarrow> string \<Rightarrow> string \<Rightarrow> string \<Rightarrow> string \<Rightarrow> int \<Rightarrow> timestamp \<Rightarrow>
   ('a lock_db_scheme \<Rightarrow> ('a lock_db_scheme, 'v) outcome) \<Rightarrow> 'a lock_db_scheme \<Rightarrow> ('a lock_db_scheme, 'v) outcome" where
  "repository_operation_lock w repo_name tool fingerprint owner_id pid now body db =
     (case acquire w repo_name tool fingerprint owner_id (Some pid) [] 1 now db of
        (Inl e, db1) \<Rightarrow> (Inl e, db1)
      | (Inr a, db1) \<Rightarrow>
          if \<not> a_acquired a
          then (Inl (RuntimeError (''Repository operation lock unavailable for '' @ repo_name @ '': '' @ a_reason a)), db1)
          else (case body db1 of (res, db2) \<Rightarrow> (res, snd (release repo_name owner_id None None db2))))"

end
