(* ===== verification/Lock_Guarantees.thy ===== *)
theory Lock_Guarantees
  imports Operation_Locks
begin

text \<open>
  What the repository lock guarantees. The locale \<open>exclusive_lock\<close> is the contract the launcher
  relies on; it is interpreted on \<open>acquire\<close> and \<open>release\<close>, and gives mutual exclusion over any
  number of attempts. The rest of the theory is about the operations that span the two tables:
  binding, takeover, relaunch and recovery, and about the window between the read and the write
  of \<open>acquire\<close>.
\<close>

section \<open>Statements that name the key of a row\<close>

lemma find_key:
  assumes "unique_key key rows"
  shows "find (\<lambda>r. key r = k \<and> q r) rows =
    (case by_key key k rows of None \<Rightarrow> None | Some r \<Rightarrow> if q r then Some r else None)"
  using assms
proof (induction rows)
  case (Cons a rows)
  have "find (\<lambda>r. key r = k \<and> q r) rows = None" if "key a = k"
    using that Cons.prems by (auto simp: find_None_iff image_iff)
  with Cons show ?case by auto
qed simp

lemma by_key_update_key:
  assumes "\<And>r. key (f r) = key r"
  shows "by_key key k' (sql_update (\<lambda>r. key r = k \<and> q r) f rows) =
    (if k' = k then map_option (\<lambda>r. if q r then f r else r) (by_key key k rows) else by_key key k' rows)"
proof (cases "by_key key k' rows")
  case (Some r)
  then have "key r = k'" by (rule by_key_Some_key)
  with Some show ?thesis using by_key_sql_update [of key f k'] assms by (auto split: if_splits)
qed (use assms by_key_sql_update [of key f k'] in auto)

lemma by_key_delete_key:
  assumes "unique_key key rows"
  shows "by_key key k' (sql_delete (\<lambda>r. key r = k \<and> q r) rows) =
    (if k' = k then (case by_key key k rows of None \<Rightarrow> None | Some r \<Rightarrow> if q r then None else Some r)
     else by_key key k' rows)"
  using assms
proof (induction rows)
  case (Cons a rows)
  have "by_key key k rows = None" if "key a = k" using that Cons.prems by (auto simp: by_key_None_iff)
  with Cons show ?case by (auto simp: sql_delete_def)
qed (simp add: sql_delete_def)

section \<open>The tables under a bump of a run's version\<close>

definition wf_locks :: "'a lock_db_scheme \<Rightarrow> bool" where
  "wf_locks db = (wf_runs db \<and> unique_key l_repo_name (locks db))"

definition owns :: "string \<Rightarrow> string option \<Rightarrow> int option \<Rightarrow> lock_row \<Rightarrow> bool" where
  "owns run_id token generation l =
     (l_run_id l = run_id \<and> opt_is token (l_owner_token l) \<and> opt_is generation (l_lease_generation l))"

lemma lock_where_key: "lock_where repo run t n = (\<lambda>l. l_repo_name l = repo \<and> owns run t n l)"
  by (auto simp: lock_where_def owns_def)

definition bumped :: "run_row \<Rightarrow> run_row" where
  "bumped r = r\<lparr>r_state_version := r_state_version r + 1\<rparr>"

lemma bumped_advances [simp]: "row_advances r (bumped r)"
  by (simp add: row_advances_def bumped_def identity_of_def outcome_of_def)

lemma bumped_keeps [simp]:
  "r_run_id (bumped r) = r_run_id r" "r_state_version (bumped r) = r_state_version r + 1"
  "r_status (bumped r) = r_status r" "r_worker_pid (bumped r) = r_worker_pid r"
  "r_worker_identity (bumped r) = r_worker_identity r" "r_launcher_pid (bumped r) = r_launcher_pid r"
  "r_pid (bumped r) = r_pid r" "r_worker_lease_token (bumped r) = r_worker_lease_token r"
  "r_lease_generation (bumped r) = r_lease_generation r" "r_launch_attempts (bumped r) = r_launch_attempts r"
  by (simp_all add: bumped_def)

definition bump_db :: "string \<Rightarrow> 'a run_db_scheme \<Rightarrow> 'a run_db_scheme" where
  "bump_db k db = snd (bump_run_state_version k db)"

lemma bump_run_by_id:
  "run_by_id k' (bump_db k db) = (if k' = k then map_option bumped (run_by_id k db) else run_by_id k' db)"
proof -
  have "bump_db k db = db\<lparr>runs := sql_update (\<lambda>r. r_run_id r = k) bumped (runs db)\<rparr>"
    by (simp add: bump_db_def bump_run_state_version_def bumped_def [abs_def])
  then show ?thesis
    using by_key_update_key [of r_run_id bumped k' k "\<lambda>_. True" "runs db"] by (simp add: run_by_id_def)
qed

lemma bump_result: "wf_runs db \<Longrightarrow> bump_run_state_version k db = (run_by_id k db \<noteq> None, bump_db k db)"
  using sql_count_key [of r_run_id "runs db" k "\<lambda>_. True"]
  by (simp add: bump_db_def bump_run_state_version_def wf_runs_def run_by_id_def split: option.split)

lemma bump_other_tables [simp]:
  "locks (bump_db k db) = locks db" "events (bump_db k db) = events db" "event_seq (bump_db k db) = event_seq db"
  by (simp_all add: bump_db_def bump_run_state_version_def)

lemma bump_wf [simp]: "wf_runs (bump_db k db) = wf_runs db" "wf_locks (bump_db k db') = wf_locks db'"
  by (simp_all add: wf_locks_def wf_runs_def bump_db_def bump_run_state_version_def)

lemma bump_absent: "run_by_id k db = None \<Longrightarrow> bump_db k db = db"
proof -
  assume "run_by_id k db = None"
  then have "sql_update (\<lambda>r. r_run_id r = k) (\<lambda>r. r\<lparr>r_state_version := r_state_version r + 1\<rparr>) (runs db) = runs db"
    by (intro sql_update_noop) (auto simp: run_by_id_def by_key_None_iff)
  then show ?thesis by (simp add: bump_db_def bump_run_state_version_def)
qed

lemma bump_db_advances: "wf_runs db \<Longrightarrow> db_advances db (bump_db k db)"
  by (auto simp: db_advances_def bump_run_by_id)

lemma bump_stale [simp]: "lock_is_stale w (bump_db k db) l = lock_is_stale w db l"
  by (auto simp: lock_is_stale_def bump_run_by_id Let_def split: option.split)

lemma locks_update_stale [simp]: "lock_is_stale w (db\<lparr>locks := ls\<rparr>) l = lock_is_stale w db l"
  by (simp add: lock_is_stale_def run_by_id_def)

lemma locks_update_runs [simp]:
  "run_by_id k (db\<lparr>locks := ls\<rparr>) = run_by_id k db" "wf_runs (db\<lparr>locks := ls\<rparr>) = wf_runs db"
  by (simp_all add: run_by_id_def wf_runs_def)

lemma bump_locks_update: "bump_db k (db\<lparr>locks := ls\<rparr>) = (bump_db k db)\<lparr>locks := ls\<rparr>"
  by (simp add: bump_db_def bump_run_state_version_def)

section \<open>Statements on the lock of a repository\<close>

definition lock_update :: "string \<Rightarrow> (lock_row \<Rightarrow> bool) \<Rightarrow> (lock_row \<Rightarrow> lock_row) \<Rightarrow> 'a lock_db_scheme \<Rightarrow> 'a lock_db_scheme" where
  "lock_update repo q f db = db\<lparr>locks := sql_update (\<lambda>l. l_repo_name l = repo \<and> q l) f (locks db)\<rparr>"

definition lock_delete :: "string \<Rightarrow> (lock_row \<Rightarrow> bool) \<Rightarrow> 'a lock_db_scheme \<Rightarrow> 'a lock_db_scheme" where
  "lock_delete repo q db = db\<lparr>locks := sql_delete (\<lambda>l. l_repo_name l = repo \<and> q l) (locks db)\<rparr>"

lemma lock_update_lookup:
  assumes "\<And>l. l_repo_name (f l) = l_repo_name l"
  shows "lock_by_repo k (lock_update repo q f db) =
    (if k = repo then map_option (\<lambda>l. if q l then f l else l) (lock_by_repo repo db) else lock_by_repo k db)"
  using assms by (simp add: lock_update_def lock_by_repo_def by_key_update_key)

lemma lock_delete_lookup:
  assumes "wf_locks db"
  shows "lock_by_repo k (lock_delete repo q db) =
    (if k = repo then (case lock_by_repo repo db of None \<Rightarrow> None | Some l \<Rightarrow> if q l then None else Some l)
     else lock_by_repo k db)"
  using assms by (simp add: lock_delete_def lock_by_repo_def by_key_delete_key wf_locks_def)

lemma lock_update_wf: "(\<And>l. l_repo_name (f l) = l_repo_name l) \<Longrightarrow> wf_locks (lock_update repo q f db) = wf_locks db"
  by (simp add: lock_update_def wf_locks_def)

lemma lock_delete_wf: "wf_locks db \<Longrightarrow> wf_locks (lock_delete repo q db)"
  by (simp add: lock_delete_def wf_locks_def unique_key_sql_delete)

lemma lock_tables_runs [simp]:
  "runs (lock_update repo q f db) = runs db" "runs (lock_delete repo q db) = runs db"
  "run_by_id k (lock_update repo q f db) = run_by_id k db" "run_by_id k (lock_delete repo q db) = run_by_id k db"
  "lock_is_stale w (lock_update repo q f db) l = lock_is_stale w db l"
  "lock_is_stale w (lock_delete repo q db) l = lock_is_stale w db l"
  by (simp_all add: lock_update_def lock_delete_def)

lemma lock_count:
  assumes "wf_locks db"
  shows "sql_count (\<lambda>l. l_repo_name l = repo \<and> q l) (locks db) =
    (case lock_by_repo repo db of None \<Rightarrow> 0 | Some l \<Rightarrow> if q l then 1 else 0)"
  using assms by (simp add: sql_count_key wf_locks_def lock_by_repo_def)

lemma lock_fetch:
  assumes "wf_locks db"
  shows "sql_fetchone (\<lambda>l. l_repo_name l = repo \<and> q l) (locks db) =
    (case lock_by_repo repo db of None \<Rightarrow> None | Some l \<Rightarrow> if q l then Some l else None)"
  using assms by (simp add: sql_fetchone_def find_key wf_locks_def lock_by_repo_def)

lemma lock_delete_miss:
  assumes "wf_locks db" "\<And>l. lock_by_repo repo db = Some l \<Longrightarrow> \<not> q l"
  shows "lock_delete repo q db = db"
proof -
  have "sql_count (\<lambda>l. l_repo_name l = repo \<and> q l) (locks db) = 0"
    using assms by (auto simp: lock_count split: option.split)
  then have "sql_delete (\<lambda>l. l_repo_name l = repo \<and> q l) (locks db) = locks db"
    by (intro sql_delete_noop) (simp add: sql_count_0_iff)
  then show ?thesis by (simp add: lock_delete_def)
qed

lemma lock_by_repo_key: "lock_by_repo repo db = Some l \<Longrightarrow> l_repo_name l = repo"
  unfolding lock_by_repo_def by (rule by_key_Some_key)

lemma lock_by_repo_runs [simp]: "lock_by_repo repo (db\<lparr>runs := rs\<rparr>) = lock_by_repo repo db"
  by (simp add: lock_by_repo_def)

lemma lock_by_repo_bump [simp]: "lock_by_repo repo (bump_db k db) = lock_by_repo repo db"
  by (simp add: lock_by_repo_def)


section \<open>Operations in closed form\<close>

definition bound_lock :: "lock_row \<Rightarrow> lock_row" where
  "bound_lock l = l\<lparr>l_bound := True\<rparr>"

lemma bound_lock_keeps [simp]:
  "l_repo_name (bound_lock l) = l_repo_name l" "l_run_id (bound_lock l) = l_run_id l"
  "l_owner_token (bound_lock l) = l_owner_token l" "l_lease_generation (bound_lock l) = l_lease_generation l"
  "l_owner_pid (bound_lock l) = l_owner_pid l" "l_bound (bound_lock l)"
  "l_tool (bound_lock l) = l_tool l" "l_input_fingerprint (bound_lock l) = l_input_fingerprint l"
  "owns run t n (bound_lock l) = owns run t n l"
  by (simp_all add: bound_lock_def owns_def)

lemma bind_in_connection_eq:
  assumes wf: "wf_locks db"
  shows "bind_in_connection repo run tok gen db =
    (case lock_by_repo repo db of
       None \<Rightarrow> (Inr False, db)
     | Some l \<Rightarrow>
         if \<not> owns run (Some tok) (Some gen) l then (Inr False, db)
         else if l_bound l then (Inr True, db)
         else if run_by_id run db = None then (Inr False, db)
         else (Inr True, lock_update repo (\<lambda>l. owns run (Some tok) (Some gen) l \<and> \<not> l_bound l) bound_lock (bump_db run db)))"
proof (cases "lock_by_repo repo db")
  case None
  with wf show ?thesis by (simp add: bind_in_connection_def lock_where_key lock_fetch)
next
  case (Some l)
  let ?q = "\<lambda>l. owns run (Some tok) (Some gen) l \<and> \<not> l_bound l"
  have runs_wf: "wf_runs db" using wf by (simp add: wf_locks_def)
  have conj: "(\<lambda>l. (l_repo_name l = repo \<and> owns run (Some tok) (Some gen) l) \<and> \<not> l_bound l) = (\<lambda>l. l_repo_name l = repo \<and> ?q l)"
    by auto
  have cnt: "sql_count (\<lambda>l. l_repo_name l = repo \<and> ?q l) (locks db) = (if ?q l then 1 else 0)"
    using wf Some by (subst lock_count) auto
  show ?thesis
    using wf Some cnt
    by (simp add: bind_in_connection_def lock_where_key lock_fetch Let_def bump_result [OF runs_wf] conj
        lock_update_def bound_lock_def [abs_def] bump_absent)
qed

lemma bind_answers:
  "wf_locks db \<Longrightarrow> \<exists>b. bind_in_connection repo run tok gen db = (Inr b, snd (bind_in_connection repo run tok gen db))"
  by (cases "lock_by_repo repo db") (auto simp: bind_in_connection_eq)

lemma bind_run_ownership_eq: "wf_locks db \<Longrightarrow> bind_run_ownership repo run tok gen db = bind_in_connection repo run tok gen db"
  by (simp add: bind_run_ownership_def in_transaction_def bind_in_connection_eq split: option.split)

lemma bind_wf: "wf_locks db \<Longrightarrow> wf_locks (snd (bind_in_connection repo run tok gen db))"
  by (simp add: bind_in_connection_eq lock_update_wf split: option.split)

lemma bind_lookup:
  "wf_locks db \<Longrightarrow> lock_by_repo k (snd (bind_in_connection repo run tok gen db)) =
    (case lock_by_repo repo db of
       Some l \<Rightarrow> if k = repo \<and> owns run (Some tok) (Some gen) l \<and> \<not> l_bound l \<and> run_by_id run db \<noteq> None
                  then Some (bound_lock l) else lock_by_repo k db
     | None \<Rightarrow> lock_by_repo k db)"
  by (simp add: bind_in_connection_eq lock_update_lookup split: option.split)

lemma bind_runs:
  "wf_locks db \<Longrightarrow> runs (snd (bind_in_connection repo run tok gen db)) =
    (case lock_by_repo repo db of
       Some l \<Rightarrow> if owns run (Some tok) (Some gen) l \<and> \<not> l_bound l then runs (bump_db run db) else runs db
     | None \<Rightarrow> runs db)"
  by (simp add: bind_in_connection_eq bump_absent split: option.split)

lemma bind_stale:
  assumes "wf_locks db"
  shows "lock_is_stale w (snd (bind_in_connection repo run tok gen db)) l = lock_is_stale w db l"
  using assms by (simp add: bind_in_connection_eq split: option.split)

definition insert_db :: "lock_row \<Rightarrow> 'a lock_db_scheme \<Rightarrow> 'a lock_db_scheme" where
  "insert_db row db = db\<lparr>locks := locks db @ [row]\<rparr>"

lemma insert_db_facts:
  assumes "wf_locks db" "lock_by_repo (l_repo_name row) db = None"
  shows "wf_locks (insert_db row db)"
    "lock_by_repo k (insert_db row db) = (if k = l_repo_name row then Some row else lock_by_repo k db)"
    "runs (insert_db row db) = runs db" "run_by_id j (insert_db row db) = run_by_id j db"
    "lock_is_stale w (insert_db row db) l = lock_is_stale w db l"
  using assms by (auto simp: insert_db_def wf_locks_def lock_by_repo_def unique_key_append_one by_key_append
      split: option.split)

definition takeover_db :: "string \<Rightarrow> lock_row \<Rightarrow> 'a lock_db_scheme \<Rightarrow> 'a lock_db_scheme" where
  "takeover_db repo existing db = bump_db (l_run_id existing) (lock_delete repo (\<lambda>_. True) db)"

lemma delete_stale_eq:
  "wf_locks db \<Longrightarrow> lock_by_repo repo db = Some l \<Longrightarrow> delete_stale repo existing db = takeover_db repo existing db"
  using lock_count [of db repo "\<lambda>_. True"]
  by (simp add: delete_stale_def takeover_db_def lock_delete_def bump_db_def Let_def)

lemma takeover_facts:
  assumes "wf_locks db"
  shows "wf_locks (takeover_db repo existing db)"
    "lock_by_repo k (takeover_db repo existing db) = (if k = repo then None else lock_by_repo k db)"
    "lock_is_stale w (takeover_db repo existing db) l = lock_is_stale w db l"
    "run_by_id j (takeover_db repo existing db) = (if j = l_run_id existing then map_option bumped (run_by_id j db) else run_by_id j db)"
  using assms by (auto simp: takeover_db_def lock_delete_wf lock_delete_lookup bump_run_by_id split: option.split)

text \<open>The database in which \<open>acquire\<close> inserts: after the removal of a stale lock, if there is one.\<close>

definition cleared_db :: "proc_world \<Rightarrow> string \<Rightarrow> 'a lock_db_scheme \<Rightarrow> 'a lock_db_scheme" where
  "cleared_db w repo db =
     (case acquire_read w repo db of Stale existing \<Rightarrow> takeover_db repo existing db | _ \<Rightarrow> db)"

definition acquired_db :: "proc_world \<Rightarrow> lock_row \<Rightarrow> 'a lock_db_scheme \<Rightarrow> 'a lock_db_scheme" where
  "acquired_db w row db =
     snd (bind_in_connection (l_repo_name row) (l_run_id row) (l_owner_token row) (l_lease_generation row)
            (insert_db row (cleared_db w (l_repo_name row) db)))"

definition lock_free :: "proc_world \<Rightarrow> string \<Rightarrow> 'a lock_db_scheme \<Rightarrow> bool" where
  "lock_free w repo db = (case lock_by_repo repo db of None \<Rightarrow> True | Some l \<Rightarrow> lock_is_stale w db l)"

lemma cleared_facts:
  assumes "wf_locks db" "lock_free w repo db"
  shows "wf_locks (cleared_db w repo db)"
    "lock_by_repo k (cleared_db w repo db) = (if k = repo then None else lock_by_repo k db)"
    "lock_is_stale w' (cleared_db w repo db) l = lock_is_stale w' db l"
    "db_advances db (cleared_db w repo db)"
proof -
  show "wf_locks (cleared_db w repo db)"
    "lock_by_repo k (cleared_db w repo db) = (if k = repo then None else lock_by_repo k db)"
    "lock_is_stale w' (cleared_db w repo db) l = lock_is_stale w' db l"
    using assms by (auto simp: cleared_db_def acquire_read_def lock_free_def takeover_facts split: option.split)
  have "db_advances db (takeover_db repo e db)" for e
    using assms(1) takeover_facts(1) [OF assms(1), of repo e]
    by (auto simp: db_advances_def wf_locks_def takeover_facts(4) [OF assms(1)])
  then show "db_advances db (cleared_db w repo db)"
    using assms by (auto simp: cleared_db_def wf_locks_def split: acquire_view.split)
qed

lemma acquire_eq:
  assumes wf: "wf_locks db"
  shows "acquire w repo tool fp run pid tok gen now db =
    (case lock_by_repo repo db of
       Some l \<Rightarrow> if lock_is_stale w db l
                  then (Inr (granted_acquisition repo fp), acquired_db w (new_lock repo tool fp run pid tok gen now) db)
                  else (Inr (refused_acquisition repo tool fp l), db)
     | None \<Rightarrow> (Inr (granted_acquisition repo fp), acquired_db w (new_lock repo tool fp run pid tok gen now) db))"
proof -
  let ?row = "new_lock repo tool fp run pid tok gen now"
  have row [simp]: "l_repo_name ?row = repo" "l_run_id ?row = run" "l_owner_token ?row = tok" "l_lease_generation ?row = gen"
    by (simp_all add: new_lock_def)
  show ?thesis
  proof (cases "lock_free w repo db")
    case True
    note clr = cleared_facts [OF wf True]
    have ins: "insert_lock ?row (cleared_db w repo db) = (Inr (), insert_db ?row (cleared_db w repo db))"
      by (simp add: insert_lock_def clr insert_db_def)
    have wf2: "wf_locks (insert_db ?row (cleared_db w repo db))"
      by (rule insert_db_facts) (simp_all add: clr)
    obtain b where b: "bind_in_connection repo run tok gen (insert_db ?row (cleared_db w repo db)) =
        (Inr b, acquired_db w ?row db)"
      using bind_in_connection_eq [OF wf2, of repo run tok gen]
      by (auto simp: acquired_db_def split: option.splits if_splits)
    have "acquire w repo tool fp run pid tok gen now db = (Inr (granted_acquisition repo fp), acquired_db w ?row db)"
    proof (cases "lock_by_repo repo db")
      case None
      then have "cleared_db w repo db = db" by (simp add: cleared_db_def acquire_read_def)
      with None ins b wf2 show ?thesis
        by (simp add: acquire_def acquire_read_def acquire_write_def Let_def bind_run_ownership_eq)
    next
      case (Some l)
      with True have st: "lock_is_stale w db l" by (simp add: lock_free_def)
      then have "cleared_db w repo db = delete_stale repo l db"
        using Some by (simp add: cleared_db_def acquire_read_def delete_stale_eq [OF wf Some])
      with Some st ins b wf2 show ?thesis
        by (simp add: acquire_def acquire_read_def acquire_write_def Let_def bind_run_ownership_eq)
    qed
    with True show ?thesis by (auto simp: lock_free_def split: option.splits)
  next
    case False
    then show ?thesis
      by (auto simp: lock_free_def acquire_def acquire_read_def acquire_write_def Let_def split: option.splits)
  qed
qed


lemma bind_advances: "wf_locks db \<Longrightarrow> db_advances db (snd (bind_in_connection repo run tok gen db))"
  using bump_db_advances [of db run]
  by (auto simp: db_advances_def wf_runs_def run_by_id_def bind_runs wf_locks_def split: option.split)

lemma bind_status:
  "wf_locks db \<Longrightarrow> map_option r_status (run_by_id j (snd (bind_in_connection repo run tok gen db))) = map_option r_status (run_by_id j db)"
  using bump_run_by_id [of j run db]
  by (auto simp: run_by_id_def bind_runs option.map_comp comp_def split: option.split if_splits)

lemma acquired_facts:
  assumes wf: "wf_locks db" and free: "lock_free w repo db" and repo: "l_repo_name row = repo"
  shows "wf_locks (acquired_db w row db)"
    "lock_by_repo k (acquired_db w row db) =
      (if k = repo then Some (if l_bound row \<or> run_by_id (l_run_id row) db = None then row else bound_lock row)
       else lock_by_repo k db)"
    "lock_is_stale w' (acquired_db w row db) l = lock_is_stale w' db l"
    "map_option r_status (run_by_id j (acquired_db w row db)) = map_option r_status (run_by_id j db)"
    "db_advances db (acquired_db w row db)"
proof -
  note clr = cleared_facts [OF wf free]
  have none: "lock_by_repo (l_repo_name row) (cleared_db w repo db) = None" by (simp add: clr repo)
  note ins = insert_db_facts [OF clr(1) none]
  have present: "run_by_id j (cleared_db w repo db) = None \<longleftrightarrow> run_by_id j db = None" for j
    using wf by (auto simp: cleared_db_def takeover_facts split: acquire_view.split)
  have status: "map_option r_status (run_by_id j (cleared_db w repo db)) = map_option r_status (run_by_id j db)" for j
    using wf by (auto simp: cleared_db_def takeover_facts option.map_comp comp_def split: acquire_view.split)
  show "wf_locks (acquired_db w row db)"
    by (simp add: acquired_db_def repo bind_wf ins)
  show "lock_is_stale w' (acquired_db w row db) l = lock_is_stale w' db l"
    by (simp add: acquired_db_def repo bind_stale ins clr)
  show "map_option r_status (run_by_id j (acquired_db w row db)) = map_option r_status (run_by_id j db)"
    by (simp add: acquired_db_def repo bind_status ins status)
  show "lock_by_repo k (acquired_db w row db) =
      (if k = repo then Some (if l_bound row \<or> run_by_id (l_run_id row) db = None then row else bound_lock row)
       else lock_by_repo k db)"
    by (auto simp: acquired_db_def repo bind_lookup ins clr present owns_def opt_is_def)
  have "db_advances (cleared_db w repo db) (insert_db row (cleared_db w repo db))"
    using clr(1) by (auto simp: wf_locks_def insert_db_def intro: db_advances_same_runs [OF db_advances_refl])
  then show "db_advances db (acquired_db w row db)"
    unfolding acquired_db_def repo using clr(4) bind_advances [OF ins(1)] db_advances_trans by blast
qed

section \<open>Mutual exclusion\<close>

text \<open>
  The contract of a lock whose holder may die. A request succeeds exactly when nobody holds the
  key or the holder has expired; a live holder does not expire; requests do not affect who is live.
\<close>

locale exclusive_lock =
  fixes wf :: "'db \<Rightarrow> bool"
    and holder :: "'db \<Rightarrow> 'k \<Rightarrow> 'o option"
    and expired :: "'db \<Rightarrow> 'k \<Rightarrow> bool"
    and live :: "'db \<Rightarrow> 'o \<Rightarrow> bool"
    and owner_of :: "'req \<Rightarrow> 'o"
    and request :: "'k \<Rightarrow> 'req \<Rightarrow> 'db \<Rightarrow> bool \<times> 'db"
  assumes request_busy: "wf db \<Longrightarrow> holder db k \<noteq> None \<Longrightarrow> \<not> expired db k \<Longrightarrow> request k q db = (False, db)"
    and request_free: "wf db \<Longrightarrow> holder db k = None \<or> expired db k \<Longrightarrow>
      \<exists>db'. request k q db = (True, db') \<and> holder db' k = Some (owner_of q) \<and> wf db'"
    and request_live: "wf db \<Longrightarrow> live (snd (request k q db)) o' = live db o'"
    and live_not_expired: "wf db \<Longrightarrow> holder db k = Some o' \<Longrightarrow> live db o' \<Longrightarrow> \<not> expired db k"
begin

fun requests :: "'k \<Rightarrow> 'req list \<Rightarrow> 'db \<Rightarrow> bool list \<times> 'db" where
  "requests k [] db = ([], db)"
| "requests k (q # qs) db =
     (let (ok, db1) = request k q db; (oks, db2) = requests k qs db1 in (ok # oks, db2))"

lemma requests_refused:
  assumes "wf db" "holder db k = Some o'" "live db o'"
  shows "requests k qs db = (replicate (length qs) False, db)"
proof -
  have "request k q db = (False, db)" for q
    using assms request_busy live_not_expired by simp
  then show ?thesis by (induction qs) simp_all
qed

lemma requests_one_granted:
  assumes "wf db" "holder db k = None \<or> expired db k" "live db (owner_of q)"
  shows "fst (requests k (q # qs) db) = True # replicate (length qs) False"
    and "holder (snd (requests k (q # qs) db)) k = Some (owner_of q)"
proof -
  obtain db' where db': "request k q db = (True, db')" "holder db' k = Some (owner_of q)" "wf db'"
    using request_free [OF assms(1,2)] by blast
  have "live db' (owner_of q)" using request_live [OF assms(1), of k q] db'(1) assms(3) by simp
  then have "requests k qs db' = (replicate (length qs) False, db')"
    using requests_refused [OF db'(3,2)] by blast
  with db' show "fst (requests k (q # qs) db) = True # replicate (length qs) False"
    and "holder (snd (requests k (q # qs) db)) k = Some (owner_of q)" by simp_all
qed

end

record lock_request =
  q_tool :: string
  q_fingerprint :: string
  q_run_id :: string
  q_owner_pid :: "int option"
  q_token :: string
  q_generation :: int
  q_now :: timestamp

definition request_owner :: "lock_request \<Rightarrow> string \<times> string \<times> int" where
  "request_owner q = (q_run_id q, q_token q, q_generation q)"

definition try_acquire :: "proc_world \<Rightarrow> string \<Rightarrow> lock_request \<Rightarrow> 'a lock_db_scheme \<Rightarrow> bool \<times> 'a lock_db_scheme" where
  "try_acquire w repo q db =
     (case acquire w repo (q_tool q) (q_fingerprint q) (q_run_id q) (q_owner_pid q) (q_token q) (q_generation q) (q_now q) db of
        (Inl e, db') \<Rightarrow> (False, db') | (Inr a, db') \<Rightarrow> (a_acquired a, db'))"

definition lock_holder :: "'a lock_db_scheme \<Rightarrow> string \<Rightarrow> (string \<times> string \<times> int) option" where
  "lock_holder db repo = map_option (\<lambda>l. (l_run_id l, l_owner_token l, l_lease_generation l)) (lock_by_repo repo db)"

definition lock_expired :: "proc_world \<Rightarrow> 'a lock_db_scheme \<Rightarrow> string \<Rightarrow> bool" where
  "lock_expired w db repo = (case lock_by_repo repo db of None \<Rightarrow> False | Some l \<Rightarrow> lock_is_stale w db l)"

text \<open>An owner is live while its run is stored and not terminal.\<close>

definition owner_live :: "'a run_db_scheme \<Rightarrow> string \<times> string \<times> int \<Rightarrow> bool" where
  "owner_live db own = (case run_by_id (fst own) db of None \<Rightarrow> False | Some r \<Rightarrow> \<not> is_terminal (r_status r))"

lemma owner_live_status: "owner_live db own = (case map_option r_status (run_by_id (fst own) db) of None \<Rightarrow> False | Some s \<Rightarrow> \<not> is_terminal s)"
  by (simp add: owner_live_def split: option.split)

lemma owner_live_cong:
  "map_option r_status (run_by_id (fst own) a) = map_option r_status (run_by_id (fst own) b) \<Longrightarrow> owner_live a own = owner_live b own"
  by (simp only: owner_live_status)

lemma try_acquire_eq:
  "wf_locks db \<Longrightarrow> try_acquire w repo q db =
    (if lock_free w repo db
     then (True, acquired_db w (new_lock repo (q_tool q) (q_fingerprint q) (q_run_id q) (q_owner_pid q) (q_token q) (q_generation q) (q_now q)) db)
     else (False, db))"
  by (simp add: try_acquire_def acquire_eq lock_free_def granted_acquisition_def refused_acquisition_def Let_def
      split: option.split)

lemma lock_free_iff: "lock_free w repo db \<longleftrightarrow> lock_holder db repo = None \<or> lock_expired w db repo"
  by (simp add: lock_free_def lock_holder_def lock_expired_def split: option.split)

interpretation repo_lock: exclusive_lock wf_locks lock_holder "lock_expired w" owner_live request_owner "try_acquire w" for w
proof
  fix db :: "'a lock_db_scheme" and k q own
  assume wf: "wf_locks db"
  show "try_acquire w k q db = (False, db)" if "lock_holder db k \<noteq> None" "\<not> lock_expired w db k"
    using that by (simp add: try_acquire_eq [OF wf] lock_free_iff)
  show "\<exists>db'. try_acquire w k q db = (True, db') \<and> lock_holder db' k = Some (request_owner q) \<and> wf_locks db'"
    if "lock_holder db k = None \<or> lock_expired w db k"
    using that acquired_facts [OF wf, of w k]
    by (auto simp: try_acquire_eq [OF wf] lock_free_iff lock_holder_def request_owner_def new_lock_def)
  show "owner_live (snd (try_acquire w k q db)) own = owner_live db own"
    using acquired_facts(4) [OF wf, of w k]
    by (auto simp: try_acquire_eq [OF wf] new_lock_def intro!: owner_live_cong)
  show "\<not> lock_expired w db k" if "lock_holder db k = Some own" "owner_live db own"
    using that by (auto simp: lock_expired_def lock_holder_def owner_live_def lock_is_stale_def Let_def split: option.splits)
qed


text \<open>Attempts to take the lock of one repository, one after the other.\<close>

fun acquire_all :: "proc_world \<Rightarrow> string \<Rightarrow> lock_request list \<Rightarrow> 'a lock_db_scheme \<Rightarrow> bool list \<times> 'a lock_db_scheme" where
  "acquire_all w repo [] db = ([], db)"
| "acquire_all w repo (q # qs) db =
     (let (ok, db1) = try_acquire w repo q db; (oks, db2) = acquire_all w repo qs db1 in (ok # oks, db2))"

lemma acquire_all_requests: "acquire_all w repo qs db = repo_lock.requests w repo qs db"
  by (induction qs arbitrary: db) simp_all

text \<open>C29. Mutual exclusion of repository operations. Of any sequence of acquisitions on one repository
  by runs that are stored and not terminal, the first gets the lock when the repository has none (or
  a stale one) and all the others are refused; and while a run that is not terminal holds the lock,
  every acquisition is refused and the database stays as it was.\<close>

theorem repository_lock_exclusive:
  assumes "wf_locks db"
  shows "(lock_free w repo db \<and> owner_live db (request_owner q) \<longrightarrow>
      fst (acquire_all w repo (q # qs) db) = True # replicate (length qs) False \<and>
      lock_holder (snd (acquire_all w repo (q # qs) db)) repo = Some (request_owner q)) \<and>
    (\<forall>own. lock_holder db repo = Some own \<and> owner_live db own \<longrightarrow>
      acquire_all w repo qs db = (replicate (length qs) False, db))"
  using repo_lock.requests_one_granted [OF assms, of repo w q qs] repo_lock.requests_refused [OF assms, of repo _ w qs]
  by (simp only: acquire_all_requests lock_free_iff) blast


section \<open>Release, binding and relaunch\<close>

lemma release_eq:
  assumes "wf_locks db"
  shows "release repo run t n db =
    (case lock_by_repo repo db of
       Some l \<Rightarrow> if owns run t n l then (True, bump_db run (lock_delete repo (owns run t n) db)) else (False, db)
     | None \<Rightarrow> (False, db))"
proof -
  have raw: "db\<lparr>locks := sql_delete (\<lambda>l. l_repo_name l = repo \<and> owns run t n l) (locks db)\<rparr> = lock_delete repo (owns run t n) db"
    by (simp add: lock_delete_def)
  show ?thesis
    using assms lock_delete_miss [OF assms, of repo "owns run t n"]
    by (auto simp: release_def lock_where_key lock_count Let_def raw bump_db_def split: option.split)
qed

text \<open>Release removes the lock of a repository exactly when the row carries the run, and the token
  and generation when they are given: then it answers True, the repository is free, the version of
  the run is bumped and the other locks stay; otherwise it answers False and nothing changes.\<close>

theorem release_only_by_owner:
  assumes "wf_locks db" "release repo run t n db = (ok, db')"
  shows "(ok \<longleftrightarrow> (\<exists>l. lock_by_repo repo db = Some l \<and> owns run t n l)) \<and>
    (ok \<longrightarrow> lock_by_repo repo db' = None \<and>
       run_by_id run db' = map_option bumped (run_by_id run db) \<and>
       (\<forall>k. k \<noteq> repo \<longrightarrow> lock_by_repo k db' = lock_by_repo k db) \<and>
       (\<forall>k. k \<noteq> run \<longrightarrow> run_by_id k db' = run_by_id k db)) \<and>
    (\<not> ok \<longrightarrow> db' = db)"
  using assms
  by (auto simp: release_eq lock_delete_lookup bump_run_by_id split: option.splits if_splits)

text \<open>Binding a lock to its run bumps the version of the run once: a second binding with the same
  owner gives the same answer and changes nothing, and a first one on an unbound lock of a stored
  run bumps that run's version by one and no other run.\<close>

theorem bind_once:
  assumes "wf_locks db" "bind_run_ownership repo run tok gen db = (res, db')"
  shows "bind_run_ownership repo run tok gen db' = (res, db') \<and>
    (\<forall>l r. lock_by_repo repo db = Some l \<and> owns run (Some tok) (Some gen) l \<and> run_by_id run db = Some r \<longrightarrow>
       res = Inr True \<and> run_by_id run db' = Some (if l_bound l then r else bumped r)) \<and>
    (\<forall>k. k \<noteq> run \<longrightarrow> run_by_id k db' = run_by_id k db)"
proof -
  have wf': "wf_locks db'" using bind_wf [OF assms(1)] assms by (metis bind_run_ownership_eq snd_conv)
  have eq: "bind_in_connection repo run tok gen db = (res, db')"
    using assms by (simp add: bind_run_ownership_eq)
  show ?thesis
  proof (cases "lock_by_repo repo db")
    case None
    with eq assms(1) show ?thesis by (auto simp: bind_run_ownership_eq bind_in_connection_eq)
  next
    case (Some l)
    with eq assms(1) wf' show ?thesis
      by (auto simp: bind_run_ownership_eq bind_in_connection_eq lock_update_lookup bump_run_by_id
          split: if_splits)
  qed
qed

lemma relaunch_row_keeps [simp]:
  "r_run_id (relaunch_row tok n now r) = r_run_id r"
  "r_worker_lease_token (relaunch_row tok n now r) = tok" "r_lease_generation (relaunch_row tok n now r) = n"
  "r_state_version (relaunch_row tok n now r) = r_state_version r + 1"
  "r_status (relaunch_row tok n now r) = ''launch_pending''"
  "r_launch_attempts (relaunch_row tok n now r) = r_launch_attempts r + 1"
  by (simp_all add: relaunch_row_def)

text \<open>When the next launch may be reserved: the run and the lock both show the observed lease.\<close>

definition relaunch_due :: "string \<Rightarrow> string \<Rightarrow> string list \<Rightarrow> int \<Rightarrow> string \<Rightarrow> int \<Rightarrow> 'a lock_db_scheme \<Rightarrow> bool" where
  "relaunch_due repo run statuses version tok gen db =
     ((case run_by_id run db of None \<Rightarrow> False
       | Some r \<Rightarrow> r_state_version r = version \<and> r_worker_lease_token r = tok \<and> r_lease_generation r = gen \<and>
                   r_status r \<in> set statuses) \<and>
      (case lock_by_repo repo db of None \<Rightarrow> False | Some l \<Rightarrow> owns run (Some tok) (Some gen) l))"

definition relaunched_lock :: "string \<Rightarrow> int \<Rightarrow> int option \<Rightarrow> timestamp \<Rightarrow> lock_row \<Rightarrow> lock_row" where
  "relaunched_lock tok gen owner_pid now l =
     l\<lparr>l_owner_pid := owner_pid, l_owner_token := tok, l_lease_generation := gen, l_heartbeat_at := now, l_bound := True\<rparr>"

lemma relaunched_lock_keeps [simp]:
  "l_repo_name (relaunched_lock tok gen p now l) = l_repo_name l" "l_run_id (relaunched_lock tok gen p now l) = l_run_id l"
  "l_owner_token (relaunched_lock tok gen p now l) = tok" "l_lease_generation (relaunched_lock tok gen p now l) = gen"
  by (simp_all add: relaunched_lock_def)

lemma relaunch_where_key:
  "relaunch_where run statuses version tok gen =
    (\<lambda>r. r_run_id r = run \<and> (r_state_version r = version \<and> r_worker_lease_token r = tok \<and>
        r_lease_generation r = gen \<and> r_status r \<in> set statuses))"
  by (auto simp: relaunch_where_def)

lemma reserve_due:
  assumes wf: "wf_locks db" and due: "relaunch_due repo run statuses version tok gen db"
    and r: "run_by_id run db = Some r" and l: "lock_by_repo repo db = Some l"
    and eq: "reserve_next_launch repo run statuses version tok gen new_tok pid now db = (res, db')"
  shows "res = Some \<lparr>rv_owner_token = new_tok, rv_lease_generation = gen + 1,
      rv_state_version = version + 1, rv_launch_attempts = r_launch_attempts r + 1\<rparr>"
    and "run_by_id k db' = (if k = run then Some (relaunch_row new_tok (gen + 1) now r) else run_by_id k db)"
    and "lock_by_repo j db' = (if j = repo then Some (relaunched_lock new_tok (gen + 1) pid now l) else lock_by_repo j db)"
    and "wf_locks db'"
proof -
  let ?q = "\<lambda>r. r_state_version r = version \<and> r_worker_lease_token r = tok \<and> r_lease_generation r = gen \<and> r_status r \<in> set statuses"
  let ?db1 = "db\<lparr>runs := sql_update (\<lambda>r. r_run_id r = run \<and> ?q r) (relaunch_row new_tok (gen + 1) now) (runs db)\<rparr>"
  let ?db2 = "lock_update repo (owns run (Some tok) (Some gen)) (relaunched_lock new_tok (gen + 1) pid now) ?db1"
  have q: "?q r" "statuses \<noteq> []" and o: "owns run (Some tok) (Some gen) l" using due r l by (auto simp: relaunch_due_def)
  have runs1: "run_by_id k ?db1 = (if k = run then Some (relaunch_row new_tok (gen + 1) now r) else run_by_id k db)" for k
    using r q by (simp add: run_by_id_def by_key_update_key)
  have wf1: "wf_locks ?db1" using wf by (simp add: wf_locks_def wf_runs_def)
  have cnt: "sql_count (\<lambda>r. r_run_id r = run \<and> ?q r) (runs db) = 1"
    using wf r q(1) by (simp add: sql_count_key wf_locks_def wf_runs_def run_by_id_def)
  have cntl: "sql_count (\<lambda>x. l_repo_name x = repo \<and> owns run (Some tok) (Some gen) x) (locks db) = 1"
    using wf l o by (simp add: lock_count)
  have up: "(\<lambda>l. l\<lparr>l_owner_pid := pid, l_owner_token := new_tok, l_lease_generation := gen + 1,
      l_heartbeat_at := now, l_bound := True\<rparr>) = relaunched_lock new_tok (gen + 1) pid now"
    by (simp add: relaunched_lock_def fun_eq_iff)
  have found: "run_by_id run ?db2 = Some (relaunch_row new_tok (gen + 1) now r)"
    by (simp add: runs1)
  have "reserve_next_launch repo run statuses version tok gen new_tok pid now db =
      (Some \<lparr>rv_owner_token = new_tok, rv_lease_generation = gen + 1, rv_state_version = version + 1,
        rv_launch_attempts = r_launch_attempts r + 1\<rparr>, ?db2)"
    using found cnt cntl q
    by (simp add: reserve_next_launch_def relaunch_where_key lock_where_key Let_def lock_update_def up)
  with eq have res: "res = Some \<lparr>rv_owner_token = new_tok, rv_lease_generation = gen + 1, rv_state_version = version + 1,
        rv_launch_attempts = r_launch_attempts r + 1\<rparr>" and db': "db' = ?db2" by auto
  show "res = Some \<lparr>rv_owner_token = new_tok, rv_lease_generation = gen + 1,
      rv_state_version = version + 1, rv_launch_attempts = r_launch_attempts r + 1\<rparr>" by (rule res)
  show "run_by_id k db' = (if k = run then Some (relaunch_row new_tok (gen + 1) now r) else run_by_id k db)"
    by (simp add: db' runs1)
  show "lock_by_repo j db' = (if j = repo then Some (relaunched_lock new_tok (gen + 1) pid now l) else lock_by_repo j db)"
    using l o by (simp add: db' lock_update_lookup)
  show "wf_locks db'" using wf1 by (simp add: db' lock_update_wf)
qed

lemma reserve_not_due:
  assumes wf: "wf_locks db" and not: "\<not> relaunch_due repo run statuses version tok gen db"
  shows "reserve_next_launch repo run statuses version tok gen new_tok pid now db = (None, db)"
proof -
  let ?q = "\<lambda>r. r_state_version r = version \<and> r_worker_lease_token r = tok \<and> r_lease_generation r = gen \<and> r_status r \<in> set statuses"
  have "sql_count (\<lambda>r. r_run_id r = run \<and> ?q r) (runs db) =
      (case run_by_id run db of None \<Rightarrow> 0 | Some r \<Rightarrow> if ?q r then 1 else 0)"
    using wf by (simp only: sql_count_key wf_locks_def wf_runs_def run_by_id_def)
  moreover have "sql_count (\<lambda>x. l_repo_name x = repo \<and> owns run (Some tok) (Some gen) x) (locks db) =
      (case lock_by_repo repo db of None \<Rightarrow> 0 | Some l \<Rightarrow> if owns run (Some tok) (Some gen) l then 1 else 0)"
    using wf by (simp add: lock_count)
  ultimately show ?thesis
    using not by (auto simp: reserve_next_launch_def relaunch_where_key lock_where_key Let_def relaunch_due_def
        split: option.splits if_splits)
qed


text \<open>Reserving the next launch is all or nothing over the two tables. When the run and the lock
  both show the lease, the version and a status that were observed, the run gets the new token, the
  next generation, the next version and one more launch attempt, the lock gets the same token and
  generation, and the observed lease is fenced off; in every other case nothing changes.\<close>

theorem reserve_next_launch_atomic:
  assumes "wf_locks db" "reserve_next_launch repo run statuses version tok gen new_tok pid now db = (res, db')"
  shows "(\<not> relaunch_due repo run statuses version tok gen db \<longrightarrow> res = None \<and> db' = db) \<and>
    (relaunch_due repo run statuses version tok gen db \<longrightarrow>
      (\<exists>v r l. res = Some v \<and> run_by_id run db' = Some r \<and> lock_by_repo repo db' = Some l \<and>
        rv_owner_token v = new_tok \<and> rv_lease_generation v = gen + 1 \<and> rv_state_version v = version + 1 \<and>
        r_worker_lease_token r = new_tok \<and> r_lease_generation r = gen + 1 \<and> r_state_version r = version + 1 \<and>
        r_status r = ''launch_pending'' \<and> r_launch_attempts r = rv_launch_attempts v \<and>
        owns run (Some new_tok) (Some (gen + 1)) l \<and> stale_lease tok gen r))"
proof (cases "relaunch_due repo run statuses version tok gen db")
  case True
  then obtain r l where r: "run_by_id run db = Some r" and l: "lock_by_repo repo db = Some l"
      and v: "r_state_version r = version" and o: "l_run_id l = run"
    by (auto simp: relaunch_due_def owns_def split: option.splits)
  note R = reserve_due [OF assms(1) True r l assms(2)]
  show ?thesis using True v o R(1) R(2) [of run] R(3) [of repo]
    by (simp add: stale_lease_def owns_def opt_is_def)
next
  case False
  with reserve_not_due [OF assms(1) False, of new_tok pid now] assms(2) show ?thesis by simp
qed

section \<open>Recovery of stale locks\<close>

definition recover_outcome :: "proc_world \<Rightarrow> 'a lock_db_scheme \<Rightarrow> string \<Rightarrow> lock_row option" where
  "recover_outcome w db repo =
     (case lock_by_repo repo db of
        None \<Rightarrow> None
      | Some l \<Rightarrow> if lock_is_stale w db l then None
                  else if run_by_id (l_run_id l) db = None then Some l else Some (bound_lock l))"

lemma bound_lock_idem: "l_bound l \<Longrightarrow> bound_lock l = l"
  by (simp add: bound_lock_def)

lemma owns_self: "owns (l_run_id l) (Some (l_owner_token l)) (Some (l_lease_generation l)) l"
  by (simp add: owns_def opt_is_def)

lemma recover_row_spec:
  assumes wf: "wf_locks db" and l: "lock_by_repo (l_repo_name l) db = Some l" and gen: "l_lease_generation l \<noteq> 0"
    and eq: "recover_row w l db = (res, db')"
  shows "res = Inr (if lock_is_stale w db l then 1 else 0) \<and> wf_locks db' \<and>
    (\<forall>k. lock_by_repo k db' = (if k = l_repo_name l then recover_outcome w db k else lock_by_repo k db)) \<and>
    (\<forall>x. lock_is_stale w db' x = lock_is_stale w db x) \<and>
    (\<forall>k. run_by_id k db' = None \<longleftrightarrow> run_by_id k db = None) \<and> db_advances db db'"
proof -
  let ?b = "bind_in_connection (l_repo_name l) (l_run_id l) (l_owner_token l) (l_lease_generation l) db"
  define db1 where "db1 = snd ?b"
  obtain x where b: "?b = (Inr x, db1)"
    using bind_answers [OF wf] unfolding db1_def by blast
  have wf1: "wf_locks db1" using bind_wf [OF wf] by (simp add: db1_def)
  have look1: "lock_by_repo k db1 = (if k = l_repo_name l \<and> run_by_id (l_run_id l) db \<noteq> None
      then Some (bound_lock l) else lock_by_repo k db)" for k
    using l owns_self [of l] by (auto simp: db1_def bind_lookup [OF wf] bound_lock_idem)
  have st1: "lock_is_stale w db1 y = lock_is_stale w db y" for y by (simp add: db1_def bind_stale [OF wf])
  have adv1: "db_advances db db1" by (simp add: db1_def bind_advances [OF wf])
  have some1: "run_by_id k db1 = None \<longleftrightarrow> run_by_id k db = None" for k
    using bind_status [OF wf, of k] unfolding db1_def by (metis option.map_disc_iff)
  show ?thesis
  proof (cases "lock_is_stale w db l")
    case False
    then have "res = Inr 0" "db' = db1" using eq gen by (simp_all add: recover_row_def b st1)
    with False wf1 l adv1 some1 st1 show ?thesis by (auto simp: look1 recover_outcome_def)
  next
    case True
    let ?q = "owns (l_run_id l) (Some (l_owner_token l)) (Some (l_lease_generation l))"
    have cnt: "sql_count (\<lambda>z. l_repo_name z = l_repo_name l \<and> ?q z) (locks db1) = 1"
      using wf1 l by (simp add: lock_count look1 owns_self split: option.split)
    have res: "res = Inr 1" and db': "db' = bump_db (l_run_id l) (lock_delete (l_repo_name l) ?q db1)"
      using eq gen True cnt by (simp_all add: recover_row_def b st1 lock_where_key lock_delete_def bump_db_def)
    have "db_advances db1 db'"
      using wf1 bump_db_advances [of "lock_delete (l_repo_name l) ?q db1" "l_run_id l"]
      by (auto simp: db' wf_locks_def db_advances_def wf_runs_def)
    then show ?thesis
      using res True wf1 l adv1 db_advances_trans some1
      by (auto simp: db' lock_delete_wf lock_delete_lookup [OF wf1] look1 recover_outcome_def owns_self
          bump_run_by_id st1 split: option.split if_splits)
  qed
qed


lemma recover_rows_spec:
  assumes "wf_locks db" "distinct (map l_repo_name rows)"
    "\<forall>l \<in> set rows. lock_by_repo (l_repo_name l) db = Some l \<and> l_lease_generation l \<noteq> 0"
    "recover_rows w rows db = (res, db')"
  shows "res = Inr (length (filter (lock_is_stale w db) rows)) \<and> wf_locks db' \<and>
    (\<forall>k. lock_by_repo k db' = (if k \<in> l_repo_name ` set rows then recover_outcome w db k else lock_by_repo k db)) \<and>
    (\<forall>x. lock_is_stale w db' x = lock_is_stale w db x) \<and>
    (\<forall>k. run_by_id k db' = None \<longleftrightarrow> run_by_id k db = None) \<and> db_advances db db'"
  using assms
proof (induction rows arbitrary: db res db')
  case Nil
  then show ?case by (simp add: wf_locks_def)
next
  case (Cons l rows)
  obtain r1 db1 where r1: "recover_row w l db = (r1, db1)" by (cases "recover_row w l db")
  have l: "lock_by_repo (l_repo_name l) db = Some l" "l_lease_generation l \<noteq> 0" using Cons.prems(3) by auto
  note S = recover_row_spec [OF Cons.prems(1) l r1]
  have st: "lock_is_stale w db1 = lock_is_stale w db" using S by (simp add: fun_eq_iff)
  obtain res2 db2 where r2: "recover_rows w rows db1 = (res2, db2)" by (cases "recover_rows w rows db1")
  have "\<forall>x \<in> set rows. lock_by_repo (l_repo_name x) db1 = Some x \<and> l_lease_generation x \<noteq> 0"
    using S Cons.prems(2,3) by (auto simp: image_iff)
  then have IH: "res2 = Inr (length (filter (lock_is_stale w db1) rows)) \<and> wf_locks db2 \<and>
    (\<forall>k. lock_by_repo k db2 = (if k \<in> l_repo_name ` set rows then recover_outcome w db1 k else lock_by_repo k db1)) \<and>
    (\<forall>x. lock_is_stale w db2 x = lock_is_stale w db1 x) \<and>
    (\<forall>k. run_by_id k db2 = None \<longleftrightarrow> run_by_id k db1 = None) \<and> db_advances db1 db2"
    using Cons.IH [OF _ _ _ r2] S Cons.prems(2) by (simp add: st)
  have eq: "res = Inr (length (filter (lock_is_stale w db) (l # rows)))" "db' = db2"
    using Cons.prems(4) r1 r2 S IH by (auto simp: st)
  have out: "recover_outcome w db1 k = recover_outcome w db k" if "k \<noteq> l_repo_name l" for k
    using that S by (auto simp: recover_outcome_def split: option.split)
  have "\<forall>k. lock_by_repo k db2 = (if k \<in> l_repo_name ` set (l # rows) then recover_outcome w db k else lock_by_repo k db)"
  proof
    fix k
    show "lock_by_repo k db2 = (if k \<in> l_repo_name ` set (l # rows) then recover_outcome w db k else lock_by_repo k db)"
      using IH S out [of k] Cons.prems(2) by (cases "k = l_repo_name l") auto
  qed
  with eq IH S show ?case using db_advances_trans [of db db1 db2] by simp
qed

lemma locks_lookup: "wf_locks db \<Longrightarrow> l \<in> set (locks db) \<Longrightarrow> lock_by_repo (l_repo_name l) db = Some l"
  unfolding lock_by_repo_def wf_locks_def by (simp add: by_key_unique)

lemma recover_stale_spec:
  assumes wf: "wf_locks db" and gens: "\<forall>l \<in> set (locks db). l_lease_generation l \<noteq> 0"
    and eq: "recover_stale w db = (res, db')"
  shows "res = Inr (length (filter (lock_is_stale w db) (locks db))) \<and> wf_locks db' \<and>
    (\<forall>k. lock_by_repo k db' = recover_outcome w db k) \<and> db_advances db db'"
proof -
  obtain r1 db1 where r1: "recover_rows w (locks db) db = (r1, db1)" by (cases "recover_rows w (locks db) db")
  have S: "r1 = Inr (length (filter (lock_is_stale w db) (locks db))) \<and> wf_locks db1 \<and>
    (\<forall>k. lock_by_repo k db1 = (if k \<in> l_repo_name ` set (locks db) then recover_outcome w db k else lock_by_repo k db)) \<and>
    db_advances db db1"
    using recover_rows_spec [OF wf _ _ r1] wf gens locks_lookup [OF wf] by (simp add: wf_locks_def unique_key_def)
  moreover have "lock_by_repo k db = None \<and> recover_outcome w db k = None" if "k \<notin> l_repo_name ` set (locks db)" for k
  proof -
    have "lock_by_repo k db = None" using that by (simp add: lock_by_repo_def by_key_None_iff)
    then show ?thesis by (simp add: recover_outcome_def)
  qed
  ultimately show ?thesis using eq r1 by (auto simp: recover_stale_def in_transaction_def)
qed

text \<open>Recovery removes exactly the stale locks and answers how many there were. In particular a lock
  whose run is stored and not terminal stays with its run, and so does one without a stored run
  whose owner process is alive; and no run loses its place in its life cycle.\<close>

theorem recover_stale_exact:
  assumes "wf_locks db" "\<forall>l \<in> set (locks db). l_lease_generation l \<noteq> 0" "recover_stale w db = (res, db')"
  shows "res = Inr (length (filter (lock_is_stale w db) (locks db))) \<and>
    (\<forall>k. lock_by_repo k db' = recover_outcome w db k) \<and>
    (\<forall>k l r. lock_by_repo k db = Some l \<and> run_by_id (l_run_id l) db = Some r \<and> \<not> is_terminal (r_status r) \<longrightarrow>
       lock_by_repo k db' = Some (bound_lock l)) \<and>
    db_advances db db'"
proof -
  note S = recover_stale_spec [OF assms]
  have "recover_outcome w db k = Some (bound_lock l)"
    if "lock_by_repo k db = Some l" "run_by_id (l_run_id l) db = Some r" "\<not> is_terminal (r_status r)" for k l r
    using that by (simp add: recover_outcome_def lock_is_stale_def Let_def)
  with S show ?thesis by auto
qed


section \<open>The window between the read and the write of acquire\<close>

lemma acquire_write_stale:
  assumes wf: "wf_locks db" and held: "lock_by_repo repo db = Some l"
  shows "\<exists>db'. acquire_write (Stale x) repo tool fp run pid tok gen now db = (Inr (granted_acquisition repo fp), db') \<and>
    wf_locks db' \<and> lock_holder db' repo = Some (run, tok, gen) \<and>
    (\<forall>j. map_option r_status (run_by_id j db') = map_option r_status (run_by_id j db))"
proof -
  let ?row = "new_lock repo tool fp run pid tok gen now" and ?t = "takeover_db repo x db"
  have row [simp]: "l_repo_name ?row = repo" "l_run_id ?row = run" "l_owner_token ?row = tok" "l_lease_generation ?row = gen"
    by (simp_all add: new_lock_def)
  have none: "lock_by_repo (l_repo_name ?row) ?t = None" by (simp add: takeover_facts [OF wf])
  note ins = insert_db_facts [OF takeover_facts(1) [OF wf] none]
  have insert: "insert_lock ?row ?t = (Inr (), insert_db ?row ?t)"
    by (simp add: insert_lock_def insert_db_def takeover_facts [OF wf])
  define db3 where "db3 = snd (bind_in_connection repo run tok gen (insert_db ?row ?t))"
  obtain b where b: "bind_in_connection repo run tok gen (insert_db ?row ?t) = (Inr b, db3)"
    using bind_answers [OF ins(1)] unfolding db3_def by blast
  have "acquire_write (Stale x) repo tool fp run pid tok gen now db = (Inr (granted_acquisition repo fp), db3)"
    using insert b ins(1) by (simp add: acquire_write_def Let_def delete_stale_eq [OF wf held] bind_run_ownership_eq)
  moreover have "lock_holder db3 repo = Some (run, tok, gen)"
    using ins(1) by (simp add: db3_def lock_holder_def bind_lookup ins)
  moreover have "map_option r_status (run_by_id j (insert_db ?row ?t)) = map_option r_status (run_by_id j db)" for j
    by (simp add: ins takeover_facts [OF wf] option.map_comp comp_def)
  ultimately show ?thesis using bind_wf [OF ins(1)] bind_status [OF ins(1)] by (auto simp: db3_def)
qed

text \<open>C33. The read of \<open>acquire\<close> is outside the transaction that writes, and the delete names only the
  repository. Two processes that both read the same stale lock are both told that they acquired it:
  the second removes the lock the first has just been granted, although the first run is live.\<close>

theorem acquire_race_grants_twice:
  assumes "wf_locks db" "lock_by_repo repo db = Some l" "lock_is_stale w db l"
    "run_by_id runA db = Some a" "\<not> is_terminal (r_status a)"
  shows "\<exists>db1 db2.
    acquire_write (acquire_read w repo db) repo tool fp runA pidA tokA genA now db = (Inr (granted_acquisition repo fp), db1) \<and>
    acquire_write (acquire_read w repo db) repo tool' fp' runB pidB tokB genB now' db1 = (Inr (granted_acquisition repo fp'), db2) \<and>
    owner_live db2 (runA, tokA, genA) \<and> lock_holder db2 repo = Some (runB, tokB, genB)"
proof -
  have view: "acquire_read w repo db = Stale l" using assms(2,3) by (simp add: acquire_read_def)
  obtain db1 where A: "acquire_write (Stale l) repo tool fp runA pidA tokA genA now db = (Inr (granted_acquisition repo fp), db1)"
      "wf_locks db1" "lock_holder db1 repo = Some (runA, tokA, genA)"
      "\<forall>j. map_option r_status (run_by_id j db1) = map_option r_status (run_by_id j db)"
    using acquire_write_stale [OF assms(1,2)] by blast
  then obtain l1 where l1: "lock_by_repo repo db1 = Some l1" by (auto simp: lock_holder_def)
  obtain db2 where B: "acquire_write (Stale l) repo tool' fp' runB pidB tokB genB now' db1 = (Inr (granted_acquisition repo fp'), db2)"
      "lock_holder db2 repo = Some (runB, tokB, genB)"
      "\<forall>j. map_option r_status (run_by_id j db2) = map_option r_status (run_by_id j db1)"
    using acquire_write_stale [OF A(2) l1] by blast
  have "owner_live db2 (runA, tokA, genA) = owner_live db (runA, tokA, genA)"
    by (rule owner_live_cong) (simp add: A(4) B(3))
  then have "owner_live db2 (runA, tokA, genA)" using assms(4,5) by (simp add: owner_live_def)
  with A(1) B(1,2) view show ?thesis by auto
qed

section \<open>The lock operations advance the runs\<close>

lemma lock_update_advances: "wf_runs db \<Longrightarrow> db_advances db (lock_update repo q f db)"
  by (rule db_advances_same_runs [OF db_advances_refl]) simp_all

lemma claim_owner_eq:
  assumes wf: "wf_locks db"
  shows "claim_owner repo run pid tok n now db =
    (case lock_by_repo repo db of
       Some l \<Rightarrow>
         if owns run (Some tok) n l then
           let actual = (if l_lease_generation l = 0 then 1 else l_lease_generation l);
               db2 = lock_update repo (owns run (Some tok) n) (\<lambda>l. l\<lparr>l_owner_pid := Some pid, l_heartbeat_at := now\<rparr>)
                       (snd (bind_in_connection repo run tok actual db))
           in (Inr True, if pid_or_zero (l_owner_pid l) \<noteq> pid then bump_db run db2 else db2)
         else (Inr False, db)
     | None \<Rightarrow> (Inr False, db))"
proof (cases "lock_by_repo repo db")
  case None
  with wf show ?thesis by (simp add: claim_owner_def in_transaction_def lock_where_key lock_fetch)
next
  case (Some l)
  show ?thesis
  proof (cases "owns run (Some tok) n l")
    case False
    with wf Some show ?thesis by (simp add: claim_owner_def in_transaction_def lock_where_key lock_fetch)
  next
    case True
    let ?actual = "if l_lease_generation l = 0 then 1 else l_lease_generation l"
    define db1 where "db1 = snd (bind_in_connection repo run tok ?actual db)"
    obtain b where b: "bind_in_connection repo run tok ?actual db = (Inr b, db1)"
      using bind_answers [OF wf] unfolding db1_def by blast
    have "sql_count (\<lambda>l. l_repo_name l = repo \<and> owns run (Some tok) n l) (locks db1) = 1"
      using True Some by (simp add: db1_def lock_count [OF bind_wf [OF wf]] bind_lookup [OF wf] split: option.split)
    with wf Some True b show ?thesis
      by (simp add: claim_owner_def in_transaction_def lock_where_key lock_fetch Let_def lock_update_def bump_db_def)
  qed
qed


lemma more_locks: "run_db.more a = run_db.more b \<Longrightarrow> locks a = locks b"
  for a b :: "'a lock_db_scheme"
  by (cases a; cases b) simp

lemma run_step_locks: "run_step db db' \<Longrightarrow> locks db' = locks db"
  for db db' :: "'a lock_db_scheme"
  using run_step_more more_locks by blast

lemma insert_bind_advances:
  assumes wf: "wf_locks db1" and row: "lock_by_repo (l_repo_name row) db1 = None"
  shows "db_advances db1 (snd (bind_in_connection repo run tok gen (insert_db row db1))) \<and>
    wf_locks (snd (bind_in_connection repo run tok gen (insert_db row db1)))"
proof -
  note ins = insert_db_facts [OF wf row]
  have "db_advances db1 (insert_db row db1)"
    using wf by (intro db_advances_same_runs [OF db_advances_refl]) (simp_all add: ins wf_locks_def)
  then show ?thesis using bind_advances [OF ins(1)] bind_wf [OF ins(1)] db_advances_trans by blast
qed

lemma delete_stale_advances:
  assumes "wf_locks db"
  shows "db_advances db (delete_stale repo x db) \<and> wf_locks (delete_stale repo x db)"
proof -
  have "db_advances db (takeover_db repo x db)"
    using assms takeover_facts(1) [OF assms, of repo x]
    by (auto simp: db_advances_def wf_locks_def takeover_facts(4) [OF assms])
  moreover have "delete_stale repo x db = db" if "lock_by_repo repo db = None"
    using that assms lock_count [OF assms, of repo "\<lambda>_. True"] lock_delete_miss [OF assms, of repo "\<lambda>_. True"]
    by (simp add: delete_stale_def lock_delete_def)
  ultimately show ?thesis
    using assms delete_stale_eq [OF assms] takeover_facts(1) [OF assms, of repo x]
    by (cases "lock_by_repo repo db") (auto simp: wf_locks_def)
qed

lemma acquire_write_advances:
  assumes wf: "wf_locks db"
  shows "db_advances db (snd (acquire_write view repo tool fp run pid tok gen now db)) \<and>
    wf_locks (snd (acquire_write view repo tool fp run pid tok gen now db))"
proof -
  have same: "db_advances db db" using wf by (simp add: wf_locks_def)
  let ?row = "new_lock repo tool fp run pid tok gen now"
  let ?store = "\<lambda>db1. case insert_lock ?row db1 of (Inl e, _) \<Rightarrow> (Inl e, db)
      | (Inr _, db2) \<Rightarrow> (case bind_run_ownership repo run tok gen db2 of
          (Inl e, db3) \<Rightarrow> (Inl e, db3) | (Inr _, db3) \<Rightarrow> (Inr (granted_acquisition repo fp), db3))"
  have store: "db_advances db (snd (?store db1)) \<and> wf_locks (snd (?store db1))"
    if adv: "db_advances db db1" and wf1: "wf_locks db1" for db1
  proof (cases "lock_by_repo repo db1")
    case None
    then have none: "lock_by_repo (l_repo_name ?row) db1 = None" by (simp add: new_lock_def)
    have ins: "insert_lock ?row db1 = (Inr (), insert_db ?row db1)"
      using none by (simp add: insert_lock_def insert_db_def)
    note wf2 = insert_db_facts(1) [OF wf1 none]
    define db3 where "db3 = snd (bind_in_connection repo run tok gen (insert_db ?row db1))"
    obtain b where "bind_in_connection repo run tok gen (insert_db ?row db1) = (Inr b, db3)"
      using bind_answers [OF wf2] unfolding db3_def by blast
    then have "snd (?store db1) = db3" by (simp add: ins bind_run_ownership_eq [OF wf2])
    then show ?thesis
      using insert_bind_advances [OF wf1 none, of repo run tok gen] adv db_advances_trans by (auto simp: db3_def)
  next
    case (Some l)
    then have "insert_lock ?row db1 = (Inl (IntegrityError ''UNIQUE constraint failed: operation_locks.repo_name''), db1)"
      by (simp add: insert_lock_def new_lock_def)
    with same wf show ?thesis by simp
  qed
  show ?thesis
    using same wf store [OF same wf] delete_stale_advances [OF wf, of repo] store
    by (cases view) (simp_all add: acquire_write_def Let_def)
qed

lemma claim_owner_advances:
  assumes wf: "wf_locks db"
  shows "db_advances db (snd (claim_owner repo run pid tok n now db)) \<and> wf_locks (snd (claim_owner repo run pid tok n now db))"
proof (cases "lock_by_repo repo db")
  case None
  with wf show ?thesis by (simp add: claim_owner_eq wf_locks_def)
next
  case (Some l)
  show ?thesis
  proof (cases "owns run (Some tok) n l")
    case False
    with wf Some show ?thesis by (simp add: claim_owner_eq wf_locks_def)
  next
    case True
    let ?actual = "if l_lease_generation l = 0 then 1 else l_lease_generation l"
    define db1 where "db1 = snd (bind_in_connection repo run tok ?actual db)"
    define db2 where "db2 = lock_update repo (owns run (Some tok) n) (\<lambda>l. l\<lparr>l_owner_pid := Some pid, l_heartbeat_at := now\<rparr>) db1"
    have 1: "db_advances db db1" "wf_locks db1" using bind_advances [OF wf] bind_wf [OF wf] by (simp_all add: db1_def)
    have 2: "db_advances db1 db2" "wf_locks db2"
      using 1 db_advances_wf [OF 1(1)] by (simp_all add: db2_def lock_update_wf lock_update_advances)
    have 3: "db_advances db2 (bump_db run db2)" using 2 by (simp add: bump_db_advances wf_locks_def)
    have "snd (claim_owner repo run pid tok n now db) = (if pid_or_zero (l_owner_pid l) \<noteq> pid then bump_db run db2 else db2)"
      using wf Some True by (simp add: claim_owner_eq Let_def db1_def db2_def)
    with 1 2 3 db_advances_trans show ?thesis by auto
  qed
qed

lemma release_advances:
  assumes wf: "wf_locks db"
  shows "db_advances db (snd (release repo run t n db)) \<and> wf_locks (snd (release repo run t n db))"
proof -
  let ?d = "lock_delete repo (owns run t n) db"
  have "db_advances db ?d" using wf by (intro db_advances_same_runs [OF db_advances_refl]) (simp_all add: wf_locks_def)
  moreover have "wf_locks ?d" using lock_delete_wf [OF wf] .
  moreover from this have "db_advances ?d (bump_db run ?d)" by (simp add: bump_db_advances wf_locks_def)
  ultimately show ?thesis
    using wf db_advances_trans by (auto simp: release_eq [OF wf] wf_locks_def split: option.split)
qed

lemma reserve_advances:
  assumes wf: "wf_locks db" and st: "list_all prelaunch statuses"
  shows "db_advances db (snd (reserve_next_launch repo run statuses version tok gen new_tok pid now db)) \<and>
    wf_locks (snd (reserve_next_launch repo run statuses version tok gen new_tok pid now db))"
proof (cases "relaunch_due repo run statuses version tok gen db")
  case True
  then obtain r l where r: "run_by_id run db = Some r" and l: "lock_by_repo repo db = Some l"
      and q: "r_lease_generation r = gen" "r_status r \<in> set statuses"
    by (auto simp: relaunch_due_def split: option.splits)
  obtain res db' where eq: "reserve_next_launch repo run statuses version tok gen new_tok pid now db = (res, db')"
    by (cases "reserve_next_launch repo run statuses version tok gen new_tok pid now db")
  note R = reserve_due [OF wf True r l eq]
  have pre: "prelaunch (r_status r)" using q(2) st by (simp add: list_all_iff)
  then have "\<not> is_terminal (r_status r)" by (auto simp: prelaunch_def is_terminal_def TERMINAL_STATUSES_def)
  then have "row_advances r (relaunch_row new_tok (gen + 1) now r)"
    using q(1) pre by (simp add: row_advances_def) (simp add: relaunch_row_def identity_of_def)
  then show ?thesis using R(2,4) r eq by (simp add: db_advances_def wf_locks_def)
next
  case False
  then show ?thesis using wf reserve_not_due [OF wf False, of new_tok pid now] by (simp add: wf_locks_def)
qed


lemma lock_heartbeat_advances:
  assumes wf: "wf_locks db"
  shows "db_advances db (snd (lock_heartbeat repo run t n now db)) \<and> wf_locks (snd (lock_heartbeat repo run t n now db))"
proof -
  have "snd (lock_heartbeat repo run t n now db) = lock_update repo (owns run t n) (\<lambda>l. l\<lparr>l_heartbeat_at := now\<rparr>) db"
    by (simp add: lock_heartbeat_def lock_where_key lock_update_def Let_def)
  with wf show ?thesis by (simp add: lock_update_wf lock_update_advances wf_locks_def [of db])
qed

lemma recover_row_advances:
  assumes wf: "wf_locks db"
  shows "\<exists>n. recover_row w l db = (Inr n, snd (recover_row w l db)) \<and>
    db_advances db (snd (recover_row w l db)) \<and> wf_locks (snd (recover_row w l db))"
proof -
  let ?gen = "if l_lease_generation l = 0 then 1 else l_lease_generation l"
  define db1 where "db1 = snd (bind_in_connection (l_repo_name l) (l_run_id l) (l_owner_token l) ?gen db)"
  obtain b where b: "bind_in_connection (l_repo_name l) (l_run_id l) (l_owner_token l) ?gen db = (Inr b, db1)"
    using bind_answers [OF wf] unfolding db1_def by blast
  let ?q = "owns (l_run_id l) (Some (l_owner_token l)) (Some ?gen)"
  let ?d = "lock_delete (l_repo_name l) ?q db1"
  have 1: "db_advances db db1" "wf_locks db1" using bind_advances [OF wf] bind_wf [OF wf] by (simp_all add: db1_def)
  have 2: "db_advances db1 ?d" "wf_locks ?d"
    using db_advances_same_runs [OF db_advances_refl [OF db_advances_wf [OF 1(1)]], of ?d] lock_delete_wf [OF 1(2)]
    by simp_all
  have 3: "db_advances ?d (bump_db (l_run_id l) ?d)" using db_advances_wf [OF 2(1)] by (rule bump_db_advances)
  have "recover_row w l db \<in> {(Inr 0, db1), (Inr (sql_count (\<lambda>z. l_repo_name z = l_repo_name l \<and> ?q z) (locks db1)), bump_db (l_run_id l) ?d),
      (Inr (sql_count (\<lambda>z. l_repo_name z = l_repo_name l \<and> ?q z) (locks db1)), ?d)}"
    by (simp add: recover_row_def b lock_where_key lock_delete_def bump_db_def Let_def)
  moreover have 4: "db_advances db ?d" using db_advances_trans [OF 1(1) 2(1)] .
  moreover have "db_advances db (bump_db (l_run_id l) ?d)" using db_advances_trans [OF 4 3] .
  ultimately show ?thesis using 1 2(2) by auto
qed

lemma recover_rows_advances:
  "wf_locks db \<Longrightarrow> \<exists>n. recover_rows w rows db = (Inr n, snd (recover_rows w rows db)) \<and>
    db_advances db (snd (recover_rows w rows db)) \<and> wf_locks (snd (recover_rows w rows db))"
proof (induction rows arbitrary: db)
  case Nil
  then show ?case by (simp add: wf_locks_def)
next
  case (Cons l rows)
  obtain n db1 where 1: "recover_row w l db = (Inr n, db1)" "db_advances db db1" "wf_locks db1"
    using recover_row_advances [OF Cons.prems, of w l] by (metis)
  obtain m db2 where 2: "recover_rows w rows db1 = (Inr m, db2)" "db_advances db1 db2" "wf_locks db2"
    using Cons.IH [OF 1(3)] by metis
  from 1 2 show ?case using db_advances_trans by auto
qed

lemma recover_stale_advances:
  assumes wf: "wf_locks db"
  shows "db_advances db (snd (recover_stale w db)) \<and> wf_locks (snd (recover_stale w db))"
proof -
  obtain m db2 where "recover_rows w (locks db) db = (Inr m, db2)" "db_advances db db2" "wf_locks db2"
    using recover_rows_advances [OF wf] by metis
  then show ?thesis by (simp add: recover_stale_def in_transaction_def)
qed

text \<open>
  One committed call on the locks. \<open>acquire\<close> appears as its transaction, with whatever view an
  earlier read gave; the reconciler reserves launches only for runs that were not launched yet.
\<close>

inductive lock_step :: "'a lock_db_scheme \<Rightarrow> 'a lock_db_scheme \<Rightarrow> bool" where
  acquire: "lock_step db (snd (acquire_write view repo tool fp run pid tok gen now db))"
| bind: "lock_step db (snd (bind_run_ownership repo run tok gen db))"
| claim: "lock_step db (snd (claim_owner repo run owner tok n now db))"
| beat: "lock_step db (snd (lock_heartbeat repo run t n now db))"
| release: "lock_step db (snd (release repo run t n db))"
| reserve: "list_all prelaunch statuses \<Longrightarrow>
    lock_step db (snd (reserve_next_launch repo run statuses version tok gen new_tok pid now db))"
| recover: "lock_step db (snd (recover_stale w db))"

lemma lock_step_advances: "lock_step db db' \<Longrightarrow> wf_locks db \<Longrightarrow> db_advances db db' \<and> wf_locks db'"
proof (induction rule: lock_step.induct)
  case (bind db repo run tok gen)
  then show ?case by (simp add: bind_run_ownership_eq bind_advances bind_wf)
qed (simp_all add: acquire_write_advances claim_owner_advances lock_heartbeat_advances release_advances
    reserve_advances recover_stale_advances)


section \<open>Concrete instances\<close>

text \<open>Two runs; the first is over and still holds the lock of the repository.\<close>

definition old_id :: string where
  "old_id = ''20231231T000000Z_py_0123abcd''"

definition sample_locks :: lock_db where
  "sample_locks =
     \<lparr>runs = [(new_run old_id ''repo'' ''pytest'' ''runs/0'' (JObj []) ''low'' False ''completed'' ''old'' ''t0''),
              (new_run sample_id ''repo'' ''pytest'' ''runs/1'' (JObj []) ''low'' False ''launch_pending'' ''tok'' ''t0'')],
      events = [], event_seq = 0,
      locks = [(new_lock ''repo'' ''pytest'' ''f0'' old_id None ''old'' 1 ''t0'')]\<rparr>"

definition sample_world :: proc_world where
  "sample_world = \<lparr>pw_alive = (\<lambda>p. p = 7), pw_start = (\<lambda>p. ''7:proc:1'')\<rparr>"

definition sample_request :: lock_request where
  "sample_request = \<lparr>q_tool = ''pytest'', q_fingerprint = ''f1'', q_run_id = sample_id, q_owner_pid = Some 7,
     q_token = ''tok'', q_generation = 1, q_now = ''t1''\<rparr>"

lemma sample_locks_wf: "wf_locks sample_locks"
  by code_simp

lemma sample_lock_free: "lock_free sample_world ''repo'' sample_locks"
  by code_simp

lemma sample_lock: "lock_by_repo ''repo'' sample_locks = Some (hd (locks sample_locks))"
  by code_simp

lemma sample_stale: "lock_is_stale sample_world sample_locks (hd (locks sample_locks))"
  by code_simp

definition sample_held :: lock_db where
  "sample_held = snd (try_acquire sample_world ''repo'' sample_request sample_locks)"

lemma sample_held_wf: "wf_locks sample_held"
  by code_simp

theorem repository_lock_exclusive_witness:
  "fst (acquire_all sample_world ''repo'' [sample_request, sample_request] sample_locks) = [True, False] \<and>
   acquire_all sample_world ''repo'' [sample_request] sample_held = ([False], sample_held)"
proof -
  have "owner_live sample_locks (request_owner sample_request)" by code_simp
  then have "fst (acquire_all sample_world ''repo'' [sample_request, sample_request] sample_locks) = [True, False]"
    using repository_lock_exclusive [OF sample_locks_wf, of sample_world "''repo''" sample_request "[sample_request]"]
      sample_lock_free by simp
  moreover have "lock_holder sample_held ''repo'' = Some (sample_id, ''tok'', 1)" by code_simp
  moreover have "owner_live sample_held (sample_id, ''tok'', 1)" by code_simp
  ultimately show ?thesis
    using repository_lock_exclusive [OF sample_held_wf, of sample_world "''repo''" sample_request "[sample_request]"] by simp
qed

theorem release_only_by_owner_witness:
  "fst (release ''repo'' sample_id (Some ''tok'') (Some 1) sample_held) \<and>
   lock_by_repo ''repo'' (snd (release ''repo'' sample_id (Some ''tok'') (Some 1) sample_held)) = None"
proof -
  have "fst (release ''repo'' sample_id (Some ''tok'') (Some 1) sample_held)" by code_simp
  with release_only_by_owner [OF sample_held_wf surjective_pairing] show ?thesis by blast
qed

theorem bind_once_witness:
  "bind_run_ownership ''repo'' old_id ''old'' 1 (snd (bind_run_ownership ''repo'' old_id ''old'' 1 sample_locks)) =
   bind_run_ownership ''repo'' old_id ''old'' 1 sample_locks"
  using bind_once [OF sample_locks_wf surjective_pairing, of "''repo''" old_id "''old''" 1] by simp

theorem reserve_next_launch_atomic_witness:
  "\<exists>v. fst (reserve_next_launch ''repo'' sample_id [''launch_pending''] 1 ''tok'' 1 ''new'' (Some 7) ''t2'' sample_held) = Some v \<and>
       rv_lease_generation v = 2"
proof -
  have "relaunch_due ''repo'' sample_id [''launch_pending''] 1 ''tok'' 1 sample_held" by code_simp
  with reserve_next_launch_atomic [OF sample_held_wf surjective_pairing,
      of "''repo''" sample_id "[''launch_pending'']" 1 "''tok''" 1 "''new''" "Some 7" "''t2''"]
  show ?thesis by auto
qed

theorem recover_stale_exact_witness:
  "fst (recover_stale sample_world sample_locks) = Inr 1"
proof -
  have "\<forall>l \<in> set (locks sample_locks). l_lease_generation l \<noteq> 0" by code_simp
  from recover_stale_exact [OF sample_locks_wf this surjective_pairing]
  have "fst (recover_stale sample_world sample_locks) = Inr (length (filter (lock_is_stale sample_world sample_locks) (locks sample_locks)))"
    by simp
  moreover have "length (filter (lock_is_stale sample_world sample_locks) (locks sample_locks)) = 1" by code_simp
  ultimately show ?thesis by simp
qed

theorem acquire_race_grants_twice_witness:
  "\<exists>db1 db2.
    acquire_write (acquire_read sample_world ''repo'' sample_locks) ''repo'' ''pytest'' ''fa'' sample_id None ''tok'' 1 ''t1'' sample_locks
      = (Inr (granted_acquisition ''repo'' ''fa''), db1) \<and>
    acquire_write (acquire_read sample_world ''repo'' sample_locks) ''repo'' ''pytest'' ''fb'' ''other'' None ''tb'' 1 ''t1'' db1
      = (Inr (granted_acquisition ''repo'' ''fb''), db2) \<and>
    owner_live db2 (sample_id, ''tok'', 1) \<and> lock_holder db2 ''repo'' = Some (''other'', ''tb'', 1)"
proof -
  have "run_by_id sample_id sample_locks = Some ((runs sample_locks) ! 1)" by code_simp
  moreover have "\<not> is_terminal (r_status ((runs sample_locks) ! 1))" by code_simp
  ultimately show ?thesis
    by (rule acquire_race_grants_twice [OF sample_locks_wf sample_lock sample_stale])
qed

end
