(* ===== verification/Parallel_Groups.thy ===== *)
theory Parallel_Groups
  imports Lock_Guarantees
begin

text \<open>
  Parallel command groups, \<open>src/soma/parallel_groups.py\<close>: a group row, its children, one run per
  child in the table of runs. Reservation inserts all of it in one transaction, refresh derives
  the status of the group from its children, and \<open>claim_pending_launches\<close> promotes pending
  children within the global and the per-group limit. The path normalisation of \<open>Path\<close> and the
  artifact files are left out.
\<close>

section \<open>Tables\<close>

record group_row =
  g_group_id :: string
  g_repo_name :: string
  g_status :: string
  g_mode :: string
  g_failure_policy :: string
  g_repository_lock_policy :: string
  g_requested_concurrency :: "int option"
  g_created_at :: timestamp
  g_ended_at :: "timestamp option"
  g_input_json :: json
  g_result_json :: json

record child_row =
  c_group_id :: string
  c_position :: nat
  c_run_id :: string
  c_idempotency_key :: string

record group_db = lock_db +
  groups :: "group_row list"
  children :: "child_row list"

definition group_by_id :: "string \<Rightarrow> 'a group_db_scheme \<Rightarrow> group_row option" where
  "group_by_id group_id db = by_key g_group_id group_id (groups db)"

section \<open>Reservation\<close>

text \<open>The dictionary of one child; an absent entry is the empty text, or \<open>None\<close> for the directory.\<close>

record child_spec =
  cs_run_id :: string
  cs_idempotency_key :: string
  cs_worker_lease_token :: string
  cs_run_dir :: "string option"
  cs_initial_status :: string
  cs_tool :: string
  cs_input_data :: "(string \<times> json) list"
  cs_risk_level :: string
  cs_requires_human :: bool

record planned_child =
  pc_position :: nat
  pc_run_id :: string
  pc_idempotency_key :: string
  pc_tool :: string
  pc_run_dir :: string
  pc_input_data :: "(string \<times> json) list"
  pc_risk_level :: string
  pc_requires_human :: bool
  pc_worker_lease_token :: string
  pc_initial_status :: string

definition normalize_child :: "nat \<Rightarrow> string list \<Rightarrow> string list \<Rightarrow> child_spec \<Rightarrow> py_error + planned_child" where
  "normalize_child position seen_run_ids seen_keys child =
     (let run_id = cs_run_id child; key = py_strip (cs_idempotency_key child);
          token = cs_worker_lease_token child; status = str_or (cs_initial_status child) ''launch_pending'' in
      if \<not> valid_run_id run_id then Inl (invalid_run_id run_id)
      else if key = [] then Inl (ValueError ''Every parallel child requires an idempotency_key'')
      else if run_id \<in> set seen_run_ids then Inl (ValueError (''Duplicate child run_id: '' @ run_id))
      else if key \<in> set seen_keys then Inl (ValueError (''Duplicate child idempotency_key: '' @ key))
      else if token = [] then Inl (ValueError ''Every parallel child requires a worker lease token'')
      else case cs_run_dir child of
        None \<Rightarrow> Inl (ValueError ''Every parallel child requires a run_dir'')
      | Some dir \<Rightarrow>
          if py_strip dir = [] then Inl (ValueError ''Every parallel child requires a run_dir'')
          else if status \<notin> set [''pending'', ''launch_pending'']
          then Inl (ValueError ''Parallel child initial_status must be pending or launch_pending'')
          else Inr \<lparr>pc_position = position, pc_run_id = run_id, pc_idempotency_key = key,
                     pc_tool = str_or (cs_tool child) ''executable_profile'', pc_run_dir = dir,
                     pc_input_data = cs_input_data child, pc_risk_level = str_or (cs_risk_level child) ''high'',
                     pc_requires_human = cs_requires_human child, pc_worker_lease_token = token,
                     pc_initial_status = status\<rparr>)"

fun normalize_children ::
  "nat \<Rightarrow> string list \<Rightarrow> string list \<Rightarrow> child_spec list \<Rightarrow> py_error + planned_child list" where
  "normalize_children position ids keys [] = Inr []"
| "normalize_children position ids keys (child # rest) =
     (case normalize_child position ids keys child of
        Inl e \<Rightarrow> Inl e
      | Inr c \<Rightarrow>
          (case normalize_children (position + 1) (pc_run_id c # ids) (pc_idempotency_key c # keys) rest of
             Inl e \<Rightarrow> Inl e | Inr cs \<Rightarrow> Inr (c # cs)))"

definition insert_group_row :: "group_row \<Rightarrow> 'a group_db_scheme \<Rightarrow> ('a group_db_scheme, unit) outcome" where
  "insert_group_row row db =
     (if group_by_id (g_group_id row) db \<noteq> None
      then (Inl (IntegrityError ''UNIQUE constraint failed: command_groups.group_id''), db)
      else (Inr (), db\<lparr>groups := groups db @ [row]\<rparr>))"

definition child_run :: "string \<Rightarrow> timestamp \<Rightarrow> planned_child \<Rightarrow> run_row" where
  "child_run repo_name created_at c =
     new_run (pc_run_id c) repo_name (pc_tool c) (pc_run_dir c) (JObj (pc_input_data c)) (pc_risk_level c)
       (pc_requires_human c) (pc_initial_status c) (pc_worker_lease_token c) created_at"

definition child_entry :: "string \<Rightarrow> planned_child \<Rightarrow> child_row" where
  "child_entry group_id c = \<lparr>c_group_id = group_id, c_position = pc_position c, c_run_id = pc_run_id c,
     c_idempotency_key = pc_idempotency_key c\<rparr>"

text \<open>The constraints of \<open>command_group_children\<close>: primary key, and two unique indexes.\<close>

definition child_conflict :: "child_row \<Rightarrow> child_row \<Rightarrow> bool" where
  "child_conflict a b =
     (c_run_id a = c_run_id b \<or>
      c_group_id a = c_group_id b \<and> (c_position a = c_position b \<or> c_idempotency_key a = c_idempotency_key b))"

definition insert_child ::
  "string \<Rightarrow> string \<Rightarrow> timestamp \<Rightarrow> planned_child \<Rightarrow> 'a group_db_scheme \<Rightarrow> ('a group_db_scheme, unit) outcome" where
  "insert_child group_id repo_name created_at c db =
     (let row = child_entry group_id c in
      if run_by_id (pc_run_id c) db \<noteq> None
      then (Inl (IntegrityError ''UNIQUE constraint failed: runs.run_id''), db)
      else if list_ex (child_conflict row) (children db)
      then (Inl (IntegrityError ''UNIQUE constraint failed: command_group_children''), db)
      else (Inr (), db\<lparr>runs := runs db @ [child_run repo_name created_at c], children := children db @ [row]\<rparr>))"

fun insert_children ::
  "string \<Rightarrow> string \<Rightarrow> timestamp \<Rightarrow> planned_child list \<Rightarrow> 'a group_db_scheme \<Rightarrow> ('a group_db_scheme, unit) outcome" where
  "insert_children group_id repo_name created_at [] db = (Inr (), db)"
| "insert_children group_id repo_name created_at (c # cs) db =
     (case insert_child group_id repo_name created_at c db of
        (Inl e, db1) \<Rightarrow> (Inl e, db1)
      | (Inr _, db1) \<Rightarrow> insert_children group_id repo_name created_at cs db1)"

section \<open>Reading a group\<close>

record child_payload =
  cp_position :: nat
  cp_run_id :: string
  cp_idempotency_key :: string
  cp_status :: string
  cp_current_phase :: string
  cp_summary :: string
  cp_error :: string
  cp_exit_code :: "int option"
  cp_started_at :: "timestamp option"
  cp_ended_at :: "timestamp option"
  cp_artifacts :: "(string \<times> json) list"

definition child_artifacts :: "json \<Rightarrow> (string \<times> json) list" where
  "child_artifacts result =
     (let r = as_object result;
          picked = concat (map (\<lambda>k. case jget k r of Some v \<Rightarrow> if py_truthy v then [(k, v)] else [] | None \<Rightarrow> [])
                     [''stdout_artifact'', ''stderr_artifact'', ''transcript_artifact''])
      in case jget ''artifacts'' r of Some (JObj extra) \<Rightarrow> jupdate picked extra | _ \<Rightarrow> picked)"

definition child_payload_of :: "child_row \<times> run_row \<Rightarrow> child_payload" where
  "child_payload_of cr = (case cr of (c, r) \<Rightarrow>
     \<lparr>cp_position = c_position c, cp_run_id = c_run_id c, cp_idempotency_key = c_idempotency_key c,
      cp_status = r_status r, cp_current_phase = r_current_phase r, cp_summary = r_summary r,
      cp_error = r_error r, cp_exit_code = r_exit_code r, cp_started_at = r_started_at r,
      cp_ended_at = r_ended_at r, cp_artifacts = child_artifacts (r_result_json r)\<rparr>)"

text \<open>\<open>command_group_children JOIN runs\<close>\<close>

definition join_runs :: "child_row list \<Rightarrow> 'a run_db_scheme \<Rightarrow> (child_row \<times> run_row) list" where
  "join_runs cs db =
     concat (map (\<lambda>c. case run_by_id (c_run_id c) db of None \<Rightarrow> [] | Some r \<Rightarrow> [(c, r)]) cs)"

definition group_children :: "string \<Rightarrow> 'a group_db_scheme \<Rightarrow> (child_row \<times> run_row) list" where
  "group_children group_id db =
     sort_key (c_position \<circ> fst) (join_runs (filter (\<lambda>c. c_group_id c = group_id) (children db)) db)"

record group_view =
  gv_group :: group_row
  gv_children :: "child_payload list"
  gv_child_run_ids :: "string list"

definition get_group :: "string \<Rightarrow> 'a group_db_scheme \<Rightarrow> py_error + group_view" where
  "get_group group_id db =
     (if \<not> valid_run_id group_id then Inl (invalid_run_id group_id)
      else case group_by_id group_id db of
        None \<Rightarrow> Inl (KeyError (''Command group not found: '' @ group_id))
      | Some g \<Rightarrow>
          let cs = map child_payload_of (group_children group_id db)
          in Inr \<lparr>gv_group = g, gv_children = cs, gv_child_run_ids = map cp_run_id cs\<rparr>)"

definition reserve_group ::
  "string \<Rightarrow> string \<Rightarrow> child_spec list \<Rightarrow> string \<Rightarrow> string \<Rightarrow> string \<Rightarrow> int option \<Rightarrow> (string \<times> json) list \<Rightarrow> timestamp \<Rightarrow>
   'a group_db_scheme \<Rightarrow> ('a group_db_scheme, group_view) outcome" where
  "reserve_group group_id repo_name specs mode failure_policy lock_policy requested input_data now db =
     (if \<not> valid_run_id group_id then (Inl (invalid_run_id group_id), db)
      else if specs = [] then (Inl (ValueError ''Parallel command group requires at least one child''), db)
      else if (case requested of None \<Rightarrow> False | Some n \<Rightarrow> n < 1)
      then (Inl (ValueError ''requested_concurrency must be positive or null''), db)
      else case normalize_children 0 [] [] specs of
        Inl e \<Rightarrow> (Inl e, db)
      | Inr planned \<Rightarrow>
          let row = \<lparr>g_group_id = group_id, g_repo_name = repo_name, g_status = ''launch_pending'', g_mode = mode,
                     g_failure_policy = failure_policy, g_repository_lock_policy = lock_policy,
                     g_requested_concurrency = requested, g_created_at = now, g_ended_at = None,
                     g_input_json = JObj input_data, g_result_json = JObj []\<rparr>;
              body = (\<lambda>db. case insert_group_row row db of
                        (Inl e, db1) \<Rightarrow> (Inl e, db1)
                      | (Inr _, db1) \<Rightarrow> insert_children group_id repo_name now planned db1)
          in case in_transaction body db of
               (Inl e, db1) \<Rightarrow> (Inl e, db1)
             | (Inr _, db1) \<Rightarrow> (get_group group_id db1, db1))"

definition get_group_for_child :: "string \<Rightarrow> 'a group_db_scheme \<Rightarrow> py_error + group_view" where
  "get_group_for_child run_id db =
     (if \<not> valid_run_id run_id then Inl (invalid_run_id run_id)
      else case sql_fetchone (\<lambda>c. c_run_id c = run_id) (children db) of
        None \<Rightarrow> Inl (KeyError (''Parallel child is not attached to a command group: '' @ run_id))
      | Some c \<Rightarrow> get_group (c_group_id c) db)"

definition repository_lock_required_for_child :: "string \<Rightarrow> 'a group_db_scheme \<Rightarrow> py_error + bool" where
  "repository_lock_required_for_child run_id db =
     (if \<not> valid_run_id run_id then Inl (invalid_run_id run_id)
      else case sql_fetchone (\<lambda>c. c_run_id c = run_id \<and> group_by_id (c_group_id c) db \<noteq> None) (children db) of
        None \<Rightarrow> Inr True
      | Some c \<Rightarrow> (case group_by_id (c_group_id c) db of
                      None \<Rightarrow> Inr True | Some g \<Rightarrow> Inr (g_repository_lock_policy g \<noteq> ''none'')))"

definition repository_lock_required_for_run :: "run_row \<Rightarrow> 'a group_db_scheme \<Rightarrow> py_error + bool" where
  "repository_lock_required_for_run run db =
     (case r_input_json run of
        JObj input_data \<Rightarrow>
          (case jget ''repository_lock_required'' input_data of
             Some (JBool required) \<Rightarrow>
               if \<not> required \<and> \<not> (r_tool run = ''executable_profile'' \<and>
                    (case jget ''hermes_companion'' input_data of Some (JObj _) \<Rightarrow> True | _ \<Rightarrow> False))
               then Inl (ValueError ''Only persisted Hermes companion executable runs may disable the repository lock'')
               else Inr required
           | Some _ \<Rightarrow> Inl (ValueError ''Persisted repository_lock_required must be boolean'')
           | None \<Rightarrow> repository_lock_required_for_child (r_run_id run) db)
      | _ \<Rightarrow> repository_lock_required_for_child (r_run_id run) db)"

section \<open>Refresh\<close>

definition aggregate_status :: "string list \<Rightarrow> string" where
  "aggregate_status statuses =
     (if statuses \<noteq> [] \<and> length (filter is_terminal statuses) = length statuses then
        (if list_all (\<lambda>s. s = ''completed'') statuses then ''completed''
         else if list_all (\<lambda>s. s = ''cancelled'') statuses then ''cancelled''
         else if list_ex (\<lambda>s. s \<in> set [''failed'', ''timed_out'']) statuses then ''failed''
         else ''partial'')
      else if list_ex (\<lambda>s. s \<in> set [''queued'', ''running'', ''cancellation_pending'', ''recovery_pending'']) statuses
      then ''running''
      else ''launch_pending'')"

definition latest_end :: "timestamp \<Rightarrow> child_payload list \<Rightarrow> timestamp" where
  "latest_end now cs =
     (let ends = map (\<lambda>c. case cp_ended_at c of None \<Rightarrow> [] | Some t \<Rightarrow> t) cs
      in str_or (case ends of [] \<Rightarrow> now | t # ts \<Rightarrow> foldl max t ts) now)"

definition opt_int :: "int option \<Rightarrow> json" where
  "opt_int x = (case x of None \<Rightarrow> JNull | Some n \<Rightarrow> JInt n)"

definition child_json :: "child_payload \<Rightarrow> json" where
  "child_json c = JObj
     [(''position'', JInt (int (cp_position c))), (''run_id'', JStr (cp_run_id c)),
      (''idempotency_key'', JStr (cp_idempotency_key c)), (''status'', JStr (cp_status c)),
      (''current_phase'', JStr (cp_current_phase c)), (''summary'', JStr (cp_summary c)),
      (''error'', JStr (cp_error c)), (''exit_code'', opt_int (cp_exit_code c)),
      (''started_at'', opt_str (cp_started_at c)), (''ended_at'', opt_str (cp_ended_at c)),
      (''artifacts'', JObj (cp_artifacts c))]"

definition refresh_result :: "group_row \<Rightarrow> child_payload list \<Rightarrow> json" where
  "refresh_result g cs =
     (let statuses = map cp_status cs in JObj
       [(''group_id'', JStr (g_group_id g)), (''repo_name'', JStr (g_repo_name g)),
        (''status'', JStr (aggregate_status statuses)), (''child_count'', JInt (int (length statuses))),
        (''terminal_child_count'', JInt (int (length (filter is_terminal statuses)))),
        (''status_counts'', JObj (map (\<lambda>s. (s, JInt (int (length (filter (\<lambda>t. t = s) statuses))))) (sort (remdups statuses)))),
        (''children'', JArr (map child_json cs))])"

definition refresh_group ::
  "string \<Rightarrow> timestamp \<Rightarrow> 'a group_db_scheme \<Rightarrow> ('a group_db_scheme, group_view) outcome" where
  "refresh_group group_id now db =
     (if \<not> valid_run_id group_id then (Inl (invalid_run_id group_id), db)
      else case group_by_id group_id db of
        None \<Rightarrow> (Inl (KeyError (''Command group not found: '' @ group_id)), db)
      | Some g \<Rightarrow>
          let cs = map child_payload_of (group_children group_id db);
              statuses = map cp_status cs;
              ended = (if statuses \<noteq> [] \<and> list_all is_terminal statuses then Some (latest_end now cs) else None);
              db1 = db\<lparr>groups := sql_update (\<lambda>x. g_group_id x = group_id)
                      (\<lambda>x. x\<lparr>g_status := aggregate_status statuses, g_ended_at := ended,
                              g_result_json := refresh_result g cs\<rparr>) (groups db)\<rparr>
          in (get_group group_id db1, db1))"

fun refresh_each :: "string list \<Rightarrow> timestamp \<Rightarrow> 'a group_db_scheme \<Rightarrow> ('a group_db_scheme, group_view list) outcome" where
  "refresh_each [] now db = (Inr [], db)"
| "refresh_each (i # is) now db =
     (case refresh_group i now db of
        (Inl e, db1) \<Rightarrow> (Inl e, db1)
      | (Inr v, db1) \<Rightarrow>
          (case refresh_each is now db1 of (Inl e, db2) \<Rightarrow> (Inl e, db2) | (Inr vs, db2) \<Rightarrow> (Inr (v # vs), db2)))"

definition refresh_all_groups :: "timestamp \<Rightarrow> 'a group_db_scheme \<Rightarrow> ('a group_db_scheme, group_view list) outcome" where
  "refresh_all_groups now db = refresh_each (map g_group_id (sort_key g_created_at (groups db))) now db"

section \<open>Claiming pending launches\<close>

definition ACTIVE_STATUSES :: "string list" where
  "ACTIVE_STATUSES = [''launch_pending'', ''queued'', ''running'', ''cancellation_pending'', ''recovery_pending'']"

definition active_total :: "'a group_db_scheme \<Rightarrow> nat" where
  "active_total db = length (filter (\<lambda>(c, r). r_status r \<in> set ACTIVE_STATUSES) (join_runs (children db) db))"

definition active_in_group :: "string \<Rightarrow> 'a group_db_scheme \<Rightarrow> nat" where
  "active_in_group group_id db =
     length (filter (\<lambda>(c, r). c_group_id c = group_id \<and> r_status r \<in> set ACTIVE_STATUSES) (join_runs (children db) db))"

definition pending_groups :: "'a group_db_scheme \<Rightarrow> group_row list" where
  "pending_groups db =
     sort_key g_created_at (sort_key g_group_id
       (filter (\<lambda>g. list_ex (\<lambda>(c, r). c_group_id c = g_group_id g \<and> r_status r = ''pending'') (join_runs (children db) db))
          (groups db)))"

text \<open>\<open>max(0, limit - active)\<close>, \<open>None\<close> for no limit.\<close>

definition free_slots :: "int option \<Rightarrow> nat \<Rightarrow> nat option" where
  "free_slots limit active = map_option (\<lambda>n. nat (n - int active)) limit"

definition min_slots :: "nat option \<Rightarrow> nat option \<Rightarrow> nat option" where
  "min_slots a b = (case b of None \<Rightarrow> a | Some y \<Rightarrow> (case a of None \<Rightarrow> Some y | Some x \<Rightarrow> Some (min x y)))"

definition take_slots :: "nat option \<Rightarrow> 'r list \<Rightarrow> 'r list" where
  "take_slots slots xs = (case slots of None \<Rightarrow> xs | Some n \<Rightarrow> take n xs)"

definition pending_candidates :: "string \<Rightarrow> 'a group_db_scheme \<Rightarrow> string list" where
  "pending_candidates group_id db =
     map (c_run_id \<circ> fst) (filter (\<lambda>(c, r). r_status r = ''pending'') (group_children group_id db))"

definition promote :: "timestamp \<Rightarrow> string \<Rightarrow> 'a run_db_scheme \<Rightarrow> bool \<times> 'a run_db_scheme" where
  "promote now run_id db =
     (let due = (\<lambda>r. r_run_id r = run_id \<and> r_status r = ''pending'') in
      (sql_count due (runs db) = 1,
       db\<lparr>runs := sql_update due (\<lambda>r. r\<lparr>r_status := ''launch_pending'', r_current_phase := ''launch_pending'',
              r_heartbeat_at := Some now, r_state_version := r_state_version r + 1\<rparr>) (runs db)\<rparr>))"

fun claim_candidates ::
  "timestamp \<Rightarrow> string list \<Rightarrow> nat option \<Rightarrow> 'a run_db_scheme \<Rightarrow> string list \<times> nat option \<times> 'a run_db_scheme" where
  "claim_candidates now [] gs db = ([], gs, db)"
| "claim_candidates now (i # is) gs db =
     (let (ok, db1) = promote now i db in
      if \<not> ok then claim_candidates now is gs db1
      else (case gs of
              None \<Rightarrow> (let (cl, gs', db2) = claim_candidates now is None db1 in (i # cl, gs', db2))
            | Some n \<Rightarrow>
                if n - 1 = 0 then ([i], Some 0, db1)
                else (let (cl, gs', db2) = claim_candidates now is (Some (n - 1)) db1 in (i # cl, gs', db2))))"

fun claim_groups ::
  "timestamp \<Rightarrow> group_row list \<Rightarrow> nat option \<Rightarrow> 'a group_db_scheme \<Rightarrow> string list \<times> 'a group_db_scheme" where
  "claim_groups now [] gs db = ([], db)"
| "claim_groups now (g # rest) gs db =
     (if gs = Some 0 then ([], db)
      else
        let slots = min_slots (free_slots (g_requested_concurrency g) (active_in_group (g_group_id g) db)) gs in
        if slots = Some 0 then claim_groups now rest gs db
        else
          let (cl, gs', db1) = claim_candidates now (take_slots slots (pending_candidates (g_group_id g) db)) gs db in
          if gs' = Some 0 then (cl, db1)
          else (let (cl2, db2) = claim_groups now rest gs' db1 in (cl @ cl2, db2)))"

definition claim_pending_ids ::
  "int option \<Rightarrow> timestamp \<Rightarrow> 'a group_db_scheme \<Rightarrow> string list \<times> 'a group_db_scheme" where
  "claim_pending_ids limit now db =
     claim_groups now (pending_groups db) (free_slots limit (active_total db)) db"

fun get_runs :: "string list \<Rightarrow> 'a run_db_scheme \<Rightarrow> py_error + run_row list" where
  "get_runs [] db = Inr []"
| "get_runs (i # is) db =
     (case get_run i db of
        Inl e \<Rightarrow> Inl e
      | Inr r \<Rightarrow> (case get_runs is db of Inl e \<Rightarrow> Inl e | Inr rs \<Rightarrow> Inr (r # rs)))"

definition claim_pending_launches ::
  "int option \<Rightarrow> timestamp \<Rightarrow> 'a group_db_scheme \<Rightarrow> ('a group_db_scheme, run_row list) outcome" where
  "claim_pending_launches limit now db =
     (let (claimed, db1) = claim_pending_ids limit now db in (get_runs claimed db1, db1))"

end
