(* ===== verification/Group_Guarantees.thy ===== *)
theory Group_Guarantees
  imports Parallel_Groups
begin

text \<open>
  What parallel groups guarantee: a reservation is all or nothing, claiming launches respects the
  global limit and the limit of every group and touches only the runs it reports, and the status
  of a group is decided by its children.
\<close>

section \<open>Well-formed group tables\<close>

definition wf_groups :: "'a group_db_scheme \<Rightarrow> bool" where
  "wf_groups db =
     (wf_locks db \<and> unique_key g_group_id (groups db) \<and> unique_key c_run_id (children db) \<and>
      list_all (\<lambda>c. group_by_id (c_group_id c) db \<noteq> None \<and> run_by_id (c_run_id c) db \<noteq> None) (children db))"

lemma more_children: "run_db.more a = run_db.more b \<Longrightarrow> children a = children b \<and> groups a = groups b \<and> locks a = locks b"
  for a b :: "'a group_db_scheme"
  by (cases a; cases b) simp

section \<open>Promotion\<close>

definition promoted :: "timestamp \<Rightarrow> run_row \<Rightarrow> run_row" where
  "promoted now r = r\<lparr>r_status := ''launch_pending'', r_current_phase := ''launch_pending'',
     r_heartbeat_at := Some now, r_state_version := r_state_version r + 1\<rparr>"

lemma promoted_keeps [simp]:
  "r_run_id (promoted now r) = r_run_id r" "r_status (promoted now r) = ''launch_pending''"
  "r_state_version (promoted now r) = r_state_version r + 1" "r_lease_generation (promoted now r) = r_lease_generation r"
  by (simp_all add: promoted_def)

lemma promoted_advances: "r_status r = ''pending'' \<Longrightarrow> row_advances r (promoted now r)"
  by (simp add: row_advances_def is_terminal_def TERMINAL_STATUSES_def prelaunch_def)
    (simp add: promoted_def identity_of_def)

definition is_pending :: "string \<Rightarrow> 'a run_db_scheme \<Rightarrow> bool" where
  "is_pending i db = (case run_by_id i db of None \<Rightarrow> False | Some r \<Rightarrow> r_status r = ''pending'')"

lemma promote_spec:
  assumes wf: "wf_runs db" and eq: "promote now i db = (ok, db1)"
  shows "ok = is_pending i db" "wf_runs db1" "run_db.more db1 = run_db.more db"
    "run_by_id k db1 = (if k = i \<and> is_pending i db then map_option (promoted now) (run_by_id k db) else run_by_id k db)"
proof -
  let ?q = "\<lambda>r. r_status r = ''pending''"
  have db1: "db1 = db\<lparr>runs := sql_update (\<lambda>r. r_run_id r = i \<and> ?q r) (promoted now) (runs db)\<rparr>"
    and ok: "ok = (sql_count (\<lambda>r. r_run_id r = i \<and> ?q r) (runs db) = 1)"
    using eq by (auto simp: promote_def promoted_def [abs_def] Let_def)
  show "ok = is_pending i db"
    using wf by (simp add: ok is_pending_def sql_count_key wf_runs_def run_by_id_def split: option.split)
  show "wf_runs db1" "run_db.more db1 = run_db.more db" using wf by (simp_all add: db1 wf_runs_def)
  show "run_by_id k db1 = (if k = i \<and> is_pending i db then map_option (promoted now) (run_by_id k db) else run_by_id k db)"
    by (simp add: db1 run_by_id_def by_key_update_key is_pending_def split: option.split)
qed

lemma promote_miss:
  assumes wf: "wf_runs db" and not: "\<not> is_pending i db"
  shows "promote now i db = (False, db)"
proof -
  have cnt: "sql_count (\<lambda>r. r_run_id r = i \<and> r_status r = ''pending'') (runs db) = 0"
    using assms by (auto simp: is_pending_def sql_count_key wf_runs_def run_by_id_def split: option.splits)
  then have "sql_update (\<lambda>r. r_run_id r = i \<and> r_status r = ''pending'') f (runs db) = runs db" for f
    by (intro sql_update_noop) (simp add: sql_count_0_iff)
  with cnt show ?thesis by (simp add: promote_def Let_def)
qed

text \<open>What a batch of promotions did: \<open>cl\<close> are the runs it promoted.\<close>

definition promotes :: "timestamp \<Rightarrow> string list \<Rightarrow> 'a run_db_scheme \<Rightarrow> 'a run_db_scheme \<Rightarrow> bool" where
  "promotes now cl db db' =
     (distinct cl \<and> wf_runs db' \<and> run_db.more db' = run_db.more db \<and>
      (\<forall>k \<in> set cl. is_pending k db) \<and>
      (\<forall>k. run_by_id k db' = (if k \<in> set cl then map_option (promoted now) (run_by_id k db) else run_by_id k db)))"

lemma promotes_refl: "wf_runs db \<Longrightarrow> promotes now [] db db"
  by (simp add: promotes_def)

lemma promotes_pending: "promotes now cl db db' \<Longrightarrow> is_pending k db' \<longleftrightarrow> is_pending k db \<and> k \<notin> set cl"
  by (auto simp: promotes_def is_pending_def split: option.splits)

lemma promotes_append:
  assumes "promotes now a db db1" "promotes now b db1 db2"
  shows "promotes now (a @ b) db db2"
proof -
  have dis: "set a \<inter> set b = {}"
    using assms promotes_pending [OF assms(1)] by (auto simp: promotes_def [of now b])
  with assms promotes_pending [OF assms(1)] show ?thesis by (auto simp: promotes_def)
qed

lemma promote_promotes:
  assumes "wf_runs db" "promote now i db = (True, db1)"
  shows "promotes now [i] db db1"
  using promote_spec [OF assms] assms(1) by (simp add: promotes_def)

lemma claim_candidates_spec:
  assumes "wf_runs db" "claim_candidates now is gs db = (cl, gs', db')" "gs \<noteq> Some 0"
  shows "promotes now cl db db' \<and> set cl \<subseteq> set is \<and> length cl \<le> length is \<and>
    (\<forall>n. gs = Some n \<longrightarrow> length cl \<le> n \<and> gs' = Some (n - length cl)) \<and> (gs = None \<longrightarrow> gs' = None)"
  using assms
proof (induction "is" arbitrary: gs db cl gs' db')
  case Nil
  then show ?case by (auto simp: promotes_refl)
next
  case (Cons i "is")
  obtain ok db1 where p: "promote now i db = (ok, db1)" by (cases "promote now i db")
  note P = promote_spec [OF Cons.prems(1) p]
  show ?case
  proof (cases ok)
    case False
    then have "db1 = db" using P(1) p promote_miss [OF Cons.prems(1), of i now] by simp
    with Cons.prems p False have "claim_candidates now is gs db = (cl, gs', db')" by simp
    from Cons.IH [OF Cons.prems(1) this Cons.prems(3)] show ?thesis by auto
  next
    case True
    have one: "promotes now [i] db db1" using promote_promotes [OF Cons.prems(1)] p True by simp
    show ?thesis
    proof (cases "gs = Some 1")
      case stop: True
      with Cons.prems p True have "cl = [i]" "gs' = Some 0" "db' = db1" by auto
      with one stop show ?thesis by simp
    next
      case False
      define gs1 where "gs1 = map_option (\<lambda>n. n - 1) gs"
      have nz: "gs1 \<noteq> Some 0" using False Cons.prems(3) by (cases gs) (auto simp: gs1_def)
      obtain cl1 gs2 db2 where r: "claim_candidates now is gs1 db1 = (cl1, gs2, db2)"
        by (cases "claim_candidates now is gs1 db1")
      have eqs: "cl = i # cl1" "gs' = gs2" "db' = db2"
        using Cons.prems(2) p True r nz by (cases gs; auto simp: gs1_def)+
      from Cons.IH [OF P(2) r nz] one promotes_append [OF one, of cl1 db2] nz Cons.prems(3)
      show ?thesis by (cases gs) (auto simp: eqs gs1_def)
    qed
  qed
qed


section \<open>Counting active children\<close>

definition is_active :: "string \<Rightarrow> 'a run_db_scheme \<Rightarrow> bool" where
  "is_active i db = (case run_by_id i db of None \<Rightarrow> False | Some r \<Rightarrow> r_status r \<in> set ACTIVE_STATUSES)"

definition count_children :: "(child_row \<Rightarrow> bool) \<Rightarrow> child_row list \<Rightarrow> nat" where
  "count_children p cs = length (filter p cs)"

lemma join_filter:
  "length (filter (\<lambda>(c, r). q c \<and> p r) (join_runs cs db)) =
    count_children (\<lambda>c. q c \<and> (case run_by_id (c_run_id c) db of None \<Rightarrow> False | Some r \<Rightarrow> p r)) cs"
  by (induction cs) (auto simp: join_runs_def count_children_def split: option.split)

lemma active_total_count: "active_total db = count_children (\<lambda>c. is_active (c_run_id c) db) (children db)"
  using join_filter [of "\<lambda>_. True" "\<lambda>r. r_status r \<in> set ACTIVE_STATUSES" "children db" db]
  by (simp add: active_total_def is_active_def)

lemma active_in_group_count:
  "active_in_group g db = count_children (\<lambda>c. c_group_id c = g \<and> is_active (c_run_id c) db) (children db)"
  using join_filter [of "\<lambda>c. c_group_id c = g" "\<lambda>r. r_status r \<in> set ACTIVE_STATUSES" "children db" db]
  by (simp add: active_in_group_def is_active_def)

lemma promotes_active:
  assumes "promotes now cl db db'"
  shows "is_active k db' \<longleftrightarrow> is_active k db \<or> k \<in> set cl" "k \<in> set cl \<Longrightarrow> \<not> is_active k db"
proof -
  have "is_pending k db" if "k \<in> set cl" using that assms by (simp add: promotes_def)
  then show "is_active k db' \<longleftrightarrow> is_active k db \<or> k \<in> set cl" "k \<in> set cl \<Longrightarrow> \<not> is_active k db"
    using assms by (auto simp: promotes_def is_active_def is_pending_def ACTIVE_STATUSES_def split: option.splits)
qed

lemma count_split:
  "count_children (\<lambda>c. q c \<and> (a c \<or> b c)) cs = count_children (\<lambda>c. q c \<and> a c) cs + count_children (\<lambda>c. q c \<and> b c) cs"
  if "\<And>c. b c \<Longrightarrow> \<not> a c"
  using that by (induction cs) (auto simp: count_children_def)

lemma promotes_count:
  assumes "promotes now cl db db'"
  shows "count_children (\<lambda>c. q c \<and> is_active (c_run_id c) db') cs =
    count_children (\<lambda>c. q c \<and> is_active (c_run_id c) db) cs + count_children (\<lambda>c. q c \<and> c_run_id c \<in> set cl) cs"
proof -
  have "count_children (\<lambda>c. q c \<and> is_active (c_run_id c) db') cs =
      count_children (\<lambda>c. q c \<and> (is_active (c_run_id c) db \<or> c_run_id c \<in> set cl)) cs"
    by (simp add: promotes_active(1) [OF assms])
  also have "\<dots> = count_children (\<lambda>c. q c \<and> is_active (c_run_id c) db) cs + count_children (\<lambda>c. q c \<and> c_run_id c \<in> set cl) cs"
    by (rule count_split) (rule promotes_active(2) [OF assms])
  finally show ?thesis .
qed

lemma count_members:
  assumes "unique_key c_run_id cs"
  shows "count_children (\<lambda>c. q c \<and> c_run_id c \<in> set cl) cs \<le> length cl"
proof -
  let ?f = "filter (\<lambda>c. q c \<and> c_run_id c \<in> set cl) cs"
  have "distinct (map c_run_id ?f)" using assms by (simp add: unique_key_def distinct_map_filter)
  then have "length ?f = card (set (map c_run_id ?f))" using distinct_card [of "map c_run_id ?f"] by simp
  also have "\<dots> \<le> card (set cl)" by (intro card_mono) auto
  also have "\<dots> \<le> length cl" by (rule card_length)
  finally show ?thesis by (simp add: count_children_def)
qed

section \<open>Claiming within the limits\<close>

lemma pending_candidates_child:
  assumes "i \<in> set (pending_candidates g db)"
  shows "\<exists>c \<in> set (children db). c_group_id c = g \<and> c_run_id c = i"
  using assms by (auto simp: pending_candidates_def group_children_def join_runs_def split: option.splits)

lemma take_slots_subset: "set (take_slots s xs) \<subseteq> set xs"
  by (auto simp: take_slots_def split: option.split dest: in_set_takeD)

lemma take_slots_length: "length (take_slots (min_slots (Some n) gs) xs) \<le> n"
  by (cases gs) (simp_all add: take_slots_def min_slots_def)

text \<open>The children of group \<open>g\<close> among the runs \<open>cl\<close>.\<close>

definition claimed_in :: "string \<Rightarrow> string list \<Rightarrow> 'a group_db_scheme \<Rightarrow> nat" where
  "claimed_in g cl db = count_children (\<lambda>c. c_group_id c = g \<and> c_run_id c \<in> set cl) (children db)"

lemma claimed_in_append_le: "claimed_in g (a @ b) db \<le> claimed_in g a db + claimed_in g b db"
proof -
  have "count_children (\<lambda>c. p c \<and> c_run_id c \<in> set (a @ b)) cs \<le>
      count_children (\<lambda>c. p c \<and> c_run_id c \<in> set a) cs + count_children (\<lambda>c. p c \<and> c_run_id c \<in> set b) cs" for p cs
    by (induction cs) (auto simp: count_children_def)
  then show ?thesis by (simp add: claimed_in_def)
qed

lemma claimed_in_other:
  assumes "unique_key c_run_id (children db)"
    "\<And>i. i \<in> set cl \<Longrightarrow> \<exists>c \<in> set (children db). c_run_id c = i \<and> c_group_id c \<noteq> g"
  shows "claimed_in g cl db = 0"
proof -
  have "\<not> (c_group_id c = g \<and> c_run_id c \<in> set cl)" if "c \<in> set (children db)" for c
    using that assms(2) unique_key_inj [OF assms(1)] by metis
  then show ?thesis by (simp add: claimed_in_def count_children_def filter_empty_conv)
qed


lemma promotes_children: "promotes now cl db db' \<Longrightarrow> children db' = children db \<and> groups db' = groups db \<and> locks db' = locks db"
  for db db' :: "'a group_db_scheme"
  using more_children [of db' db] by (simp add: promotes_def)

definition from_groups :: "string set \<Rightarrow> string list \<Rightarrow> 'a group_db_scheme \<Rightarrow> bool" where
  "from_groups G cl db = (\<forall>i \<in> set cl. \<exists>c \<in> set (children db). c_run_id c = i \<and> c_group_id c \<in> G)"

lemma from_groups_mono: "from_groups G cl db \<Longrightarrow> G \<subseteq> H \<Longrightarrow> from_groups H cl db"
  unfolding from_groups_def by blast

lemma from_groups_append: "from_groups G (a @ b) db \<longleftrightarrow> from_groups G a db \<and> from_groups G b db"
  by (auto simp: from_groups_def)

lemma from_groups_other:
  assumes "unique_key c_run_id (children db)" "from_groups G cl db" "g \<notin> G"
  shows "claimed_in g cl db = 0"
  using assms by (intro claimed_in_other) (auto simp: from_groups_def)

lemma candidates_from_groups: "set cl \<subseteq> set (pending_candidates g db) \<Longrightarrow> from_groups {g} cl db"
  unfolding from_groups_def using pending_candidates_child by blast

text \<open>What a pass over the groups \<open>gl\<close> with \<open>gs\<close> global slots may claim.\<close>

definition within_limits :: "group_row list \<Rightarrow> nat option \<Rightarrow> string list \<Rightarrow> 'a group_db_scheme \<Rightarrow> bool" where
  "within_limits gl gs cl db =
     ((\<forall>n. gs = Some n \<longrightarrow> length cl \<le> n) \<and>
      from_groups (g_group_id ` set gl) cl db \<and>
      (\<forall>g \<in> set gl. \<forall>q. g_requested_concurrency g = Some q \<longrightarrow>
         claimed_in (g_group_id g) cl db \<le> nat (q - int (active_in_group (g_group_id g) db))))"

lemma claimed_in_Nil [simp]: "claimed_in g [] db = 0"
  by (simp add: claimed_in_def count_children_def)

lemma within_limits_Nil [simp]: "within_limits gl gs [] db"
  by (simp add: within_limits_def from_groups_def)

lemma within_limits_skip:
  assumes "unique_key c_run_id (children db)" "g_group_id g \<notin> g_group_id ` set gl" "within_limits gl gs cl db"
  shows "within_limits (g # gl) gs cl db"
proof -
  have "claimed_in (g_group_id g) cl db = 0"
    using assms by (auto simp: within_limits_def intro: from_groups_other)
  with assms(3) show ?thesis by (auto simp: within_limits_def intro: from_groups_mono)
qed

lemma head_within_limits:
  assumes uniq: "unique_key c_run_id (children db)" and dis: "g_group_id g \<notin> g_group_id ` set gl"
    and sub: "set cl \<subseteq> set (pending_candidates (g_group_id g) db)"
    and len: "\<forall>n. gs = Some n \<longrightarrow> length cl \<le> n"
    and slots: "\<And>q. g_requested_concurrency g = Some q \<Longrightarrow> length cl \<le> nat (q - int (active_in_group (g_group_id g) db))"
  shows "within_limits (g # gl) gs cl db"
proof -
  have own: "from_groups {g_group_id g} cl db" using sub by (rule candidates_from_groups)
  have "claimed_in (g_group_id x) cl db = 0" if "x \<in> set gl" for x
    using that dis by (intro from_groups_other [OF uniq own]) (metis image_eqI singletonD)
  moreover have "claimed_in (g_group_id g) cl db \<le> length cl"
    unfolding claimed_in_def by (rule count_members [OF uniq])
  then have "claimed_in (g_group_id g) cl db \<le> nat (q - int (active_in_group (g_group_id g) db))"
    if "g_requested_concurrency g = Some q" for q
    using slots [OF that] by linarith
  moreover have "from_groups (g_group_id ` set (g # gl)) cl db"
    using own by (rule from_groups_mono) simp
  ultimately show ?thesis using len by (simp add: within_limits_def)
qed

lemma within_limits_append:
  assumes uniq: "unique_key c_run_id (children db)" and dis: "g_group_id g \<notin> g_group_id ` set gl"
    and a: "within_limits (g # gl) gs a db" and own: "set a \<subseteq> set (pending_candidates (g_group_id g) db)"
    and p: "promotes now a db db1"
    and b: "within_limits gl (map_option (\<lambda>n. n - length a) gs) b db1"
  shows "within_limits (g # gl) gs (a @ b) db"
proof -
  have ch: "children db1 = children db" using promotes_children [OF p] by simp
  have la: "length a \<le> n" if "gs = Some n" for n using a that by (simp add: within_limits_def)
  have fb: "from_groups (g_group_id ` set gl) b db" using b by (simp add: within_limits_def from_groups_def ch)
  have zero: "claimed_in (g_group_id g) b db = 0" using from_groups_other [OF uniq fb dis] .
  have zero': "claimed_in (g_group_id x) a db = 0" if "x \<in> set gl" for x
    using that dis by (intro from_groups_other [OF uniq candidates_from_groups [OF own]]) (metis image_eqI singletonD)
  have act: "active_in_group (g_group_id x) db1 = active_in_group (g_group_id x) db" if "x \<in> set gl" for x
    using promotes_count [OF p, of "\<lambda>c. c_group_id c = g_group_id x" "children db"] zero' [OF that]
    by (simp add: active_in_group_count ch claimed_in_def)
  have same: "claimed_in x b db1 = claimed_in x b db" for x by (simp add: claimed_in_def ch)
  have "claimed_in (g_group_id x) (a @ b) db \<le> nat (q - int (active_in_group (g_group_id x) db))"
    if "x \<in> set (g # gl)" "g_requested_concurrency x = Some q" for x q
  proof (cases "x = g")
    case True
    with a that(2) zero claimed_in_append_le [of "g_group_id g" a b db] show ?thesis by (fastforce simp: within_limits_def)
  next
    case False
    with that have x: "x \<in> set gl" by simp
    then show ?thesis
      using b that(2) zero' [OF x] act [OF x] claimed_in_append_le [of "g_group_id x" a b db]
      by (fastforce simp: within_limits_def same)
  qed
  moreover have "length (a @ b) \<le> n" if "gs = Some n" for n
    using b la [OF that] that by (auto simp: within_limits_def)
  moreover have "from_groups (g_group_id ` set (g # gl)) (a @ b) db"
    using a fb from_groups_mono [OF fb, of "g_group_id ` set (g # gl)"]
    by (simp add: from_groups_append within_limits_def subset_insertI)
  ultimately show ?thesis by (simp add: within_limits_def)
qed

lemma claim_groups_spec:
  assumes "wf_runs db" "unique_key c_run_id (children db)" "distinct (map g_group_id gl)"
    "claim_groups now gl gs db = (cl, db')"
  shows "promotes now cl db db' \<and> within_limits gl gs cl db"
  using assms
proof (induction gl arbitrary: gs db cl db')
  case Nil
  then show ?case by (simp add: promotes_refl)
next
  case (Cons g gl)
  note uniq = Cons.prems(2)
  have dis: "g_group_id g \<notin> g_group_id ` set gl" using Cons.prems(3) by simp
  let ?slots = "min_slots (free_slots (g_requested_concurrency g) (active_in_group (g_group_id g) db)) gs"
  let ?cands = "take_slots ?slots (pending_candidates (g_group_id g) db)"
  show ?case
  proof (cases "gs = Some 0 \<or> ?slots = Some 0")
    case True
    then show ?thesis
      using Cons.prems Cons.IH [OF Cons.prems(1,2), of gs] within_limits_skip [OF uniq dis]
      by (cases "gs = Some 0") (auto simp: promotes_refl)
  next
    case False
    obtain a gs1 db1 where c: "claim_candidates now ?cands gs db = (a, gs1, db1)"
      by (cases "claim_candidates now ?cands gs db")
    have S: "promotes now a db db1" "set a \<subseteq> set ?cands" "length a \<le> length ?cands"
        "\<forall>n. gs = Some n \<longrightarrow> length a \<le> n \<and> gs1 = Some (n - length a)" "gs = None \<longrightarrow> gs1 = None"
      using claim_candidates_spec [OF Cons.prems(1) c] False by auto
    have own: "set a \<subseteq> set (pending_candidates (g_group_id g) db)"
      using subset_trans [OF S(2) take_slots_subset] .
    have "length a \<le> nat (q - int (active_in_group (g_group_id g) db))" if "g_requested_concurrency g = Some q" for q
      using S(3) that take_slots_length [of "nat (q - int (active_in_group (g_group_id g) db))" gs
          "pending_candidates (g_group_id g) db"]
      by (simp add: free_slots_def)
    then have head: "within_limits (g # gl) gs a db"
      using S(4) own by (intro head_within_limits [OF uniq dis]) auto
    show ?thesis
    proof (cases "gs1 = Some 0")
      case True
      then have "cl = a" "db' = db1" using Cons.prems(4) False c by simp_all
      with S(1) head show ?thesis by simp
    next
      case go: False
      obtain b db2 where r: "claim_groups now gl gs1 db1 = (b, db2)" by (cases "claim_groups now gl gs1 db1")
      have eqs: "cl = a @ b" "db' = db2" using Cons.prems(4) False c go r by simp_all
      have gs1: "gs1 = map_option (\<lambda>n. n - length a) gs" using S(4,5) by (cases gs) auto
      have "wf_runs db1" "unique_key c_run_id (children db1)"
        using S(1) uniq promotes_children [OF S(1)] by (simp_all add: promotes_def)
      from Cons.IH [OF this _ r] Cons.prems(3) have "promotes now b db1 db2" "within_limits gl gs1 b db1" by auto
      then show ?thesis
        using promotes_append [OF S(1)] within_limits_append [OF uniq dis head own S(1), of b]
        by (simp add: eqs gs1)
    qed
  qed
qed


subsection \<open>No slot is left unused\<close>

lemma claim_candidates_all:
  assumes "wf_runs db" "distinct is" "\<forall>i \<in> set is. is_pending i db" "gs \<noteq> Some 0"
    "claim_candidates now is gs db = (cl, gs', db')"
  shows "cl = take_slots gs is"
  using assms
proof (induction "is" arbitrary: gs db cl gs' db')
  case Nil
  then show ?case by (simp add: take_slots_def split: option.split)
next
  case (Cons i "is")
  obtain ok db1 where p: "promote now i db = (ok, db1)" by (cases "promote now i db")
  note P = promote_spec [OF Cons.prems(1) p]
  have ok: ok using P(1) Cons.prems(3) by simp
  have one: "promotes now [i] db db1" using promote_promotes [OF Cons.prems(1)] p ok by simp
  show ?case
  proof (cases "gs = Some 1")
    case True
    with Cons.prems p ok show ?thesis by (simp add: take_slots_def)
  next
    case False
    define gs1 where "gs1 = map_option (\<lambda>n. n - 1) gs"
    have nz: "gs1 \<noteq> Some 0" using False Cons.prems(4) by (cases gs) (auto simp: gs1_def)
    obtain cl1 gs2 db2 where r: "claim_candidates now is gs1 db1 = (cl1, gs2, db2)"
      by (cases "claim_candidates now is gs1 db1")
    have cl: "cl = i # cl1" using Cons.prems(5) p ok r nz by (cases gs) (auto simp: gs1_def)
    have "cl1 = take_slots gs1 is"
      using Cons.IH [OF P(2) _ _ nz r] Cons.prems(2,3) promotes_pending [OF one] by auto
    with nz show ?thesis using Cons.prems(4)
      by (cases gs) (auto simp: cl take_slots_def gs1_def take_Cons')
  qed
qed

lemma join_runs_children: "map fst (join_runs cs db) = filter (\<lambda>c. run_by_id (c_run_id c) db \<noteq> None) cs"
  by (induction cs) (auto simp: join_runs_def split: option.split)

lemma pending_candidates_props:
  assumes "unique_key c_run_id (children db)"
  shows "distinct (pending_candidates g db)" "\<forall>i \<in> set (pending_candidates g db). is_pending i db"
    "c \<in> set (children db) \<Longrightarrow> c_group_id c = g \<Longrightarrow> is_pending (c_run_id c) db \<Longrightarrow> c_run_id c \<in> set (pending_candidates g db)"
proof -
  let ?cs = "filter (\<lambda>c. c_group_id c = g) (children db)"
  have "distinct (map c_run_id (map fst (join_runs ?cs db)))"
    using assms by (simp only: join_runs_children filter_filter) (simp add: unique_key_def distinct_map_filter)
  then have inj: "distinct (join_runs ?cs db)" "inj_on (c_run_id \<circ> fst) (set (join_runs ?cs db))"
    by (simp_all add: distinct_map comp_def)
  then show "distinct (pending_candidates g db)"
    by (auto simp: pending_candidates_def group_children_def distinct_map intro: inj_on_subset)
  show "\<forall>i \<in> set (pending_candidates g db). is_pending i db"
    by (auto simp: pending_candidates_def group_children_def join_runs_def is_pending_def split: option.splits)
  show "c_run_id c \<in> set (pending_candidates g db)"
    if c: "c \<in> set (children db)" "c_group_id c = g" "is_pending (c_run_id c) db"
  proof -
    obtain r where r: "run_by_id (c_run_id c) db = Some r" "r_status r = ''pending''"
      using c(3) by (auto simp: is_pending_def split: option.splits)
    then have "(c, r) \<in> set (join_runs ?cs db)"
      using c(1,2) by (auto simp: join_runs_def intro!: bexI [of _ c])
    then have "(c, r) \<in> set (filter (\<lambda>(c, r). r_status r = ''pending'') (group_children g db))"
      using r(2) by (simp add: group_children_def)
    then show ?thesis by (force simp: pending_candidates_def)
  qed
qed

lemma claimed_in_own:
  assumes "unique_key c_run_id (children db)" "from_groups {g} cl db" "distinct cl"
  shows "claimed_in g cl db = length cl"
proof -
  let ?f = "filter (\<lambda>c. c_group_id c = g \<and> c_run_id c \<in> set cl) (children db)"
  have "distinct (map c_run_id ?f)" using assms(1) by (simp add: unique_key_def distinct_map_filter)
  moreover have "set (map c_run_id ?f) = set cl" using assms(2) by (auto simp: from_groups_def)
  ultimately have "length ?f = card (set cl)" using distinct_card [of "map c_run_id ?f"] by simp
  with assms(3) show ?thesis by (simp add: claimed_in_def count_children_def distinct_card)
qed

text \<open>A child of \<open>g\<close> that is still pending means that a limit is used up.\<close>

definition exhausted :: "group_row \<Rightarrow> nat option \<Rightarrow> string list \<Rightarrow> 'a group_db_scheme \<Rightarrow> bool" where
  "exhausted g gs cl db =
     (gs = Some (length cl) \<or>
      (\<exists>q. g_requested_concurrency g = Some q \<and>
         nat (q - int (active_in_group (g_group_id g) db)) \<le> claimed_in (g_group_id g) cl db))"

lemma claimed_in_mono: "set a \<subseteq> set b \<Longrightarrow> claimed_in g a db \<le> claimed_in g b db"
proof -
  assume sub: "set a \<subseteq> set b"
  have "count_children (\<lambda>c. p c \<and> c_run_id c \<in> set a) cs \<le> count_children (\<lambda>c. p c \<and> c_run_id c \<in> set b) cs" for p cs
    using sub by (induction cs) (auto simp: count_children_def)
  then show ?thesis by (simp add: claimed_in_def)
qed

lemma head_exhausted:
  assumes uniq: "unique_key c_run_id (children db)" and wf: "wf_runs db" and nz: "gs \<noteq> Some 0"
    and slots: "slots = min_slots (free_slots (g_requested_concurrency g) (active_in_group (g_group_id g) db)) gs" "slots \<noteq> Some 0"
    and c: "claim_candidates now (take_slots slots (pending_candidates (g_group_id g) db)) gs db = (a, gs1, db1)"
    and child: "x \<in> set (children db)" "c_group_id x = g_group_id g" "is_pending (c_run_id x) db" "c_run_id x \<notin> set a"
  shows "exhausted g gs a db"
proof -
  let ?cands = "pending_candidates (g_group_id g) db"
  note P = pending_candidates_props [OF uniq]
  have sub: "set (take_slots slots ?cands) \<subseteq> set ?cands" by (rule take_slots_subset)
  have "distinct (take_slots slots ?cands)" using P(1) by (simp add: take_slots_def split: option.split)
  then have "a = take_slots gs (take_slots slots ?cands)"
    using claim_candidates_all [OF wf _ _ nz c] P(2) sub by blast
  then have a: "a = take_slots slots ?cands"
    using slots(1) by (auto simp: take_slots_def min_slots_def split: option.splits)
  have "c_run_id x \<in> set ?cands" using P(3) child by blast
  with a child(4) obtain n where n: "slots = Some n" "n < length ?cands"
    by (cases slots) (simp_all add: take_slots_def, metis leI take_all)
  then have len: "length a = n" by (simp add: a take_slots_def)
  have own: "claimed_in (g_group_id g) a db = length a"
  proof (rule claimed_in_own [OF uniq])
    show "from_groups {g_group_id g} a db" using candidates_from_groups sub by (simp add: a)
    show "distinct a" using P(1) by (simp add: a take_slots_def split: option.split)
  qed
  show ?thesis
    using n(1) slots(1) len own
    by (cases gs; cases "g_requested_concurrency g") (auto simp: exhausted_def min_slots_def free_slots_def min_def split: if_splits)
qed


lemma claim_groups_exhausted:
  assumes "wf_runs db" "unique_key c_run_id (children db)" "distinct (map g_group_id gl)"
    "claim_groups now gl gs db = (cl, db')" "g \<in> set gl"
    "x \<in> set (children db)" "c_group_id x = g_group_id g" "is_pending (c_run_id x) db'"
  shows "exhausted g gs cl db"
  using assms
proof (induction gl arbitrary: gs db cl db')
  case (Cons h gl)
  note uniq = Cons.prems(2)
  have dis: "g_group_id h \<notin> g_group_id ` set gl" using Cons.prems(3) by simp
  have all: "promotes now cl db db'" using claim_groups_spec [OF Cons.prems(1-4)] by simp
  have px: "is_pending (c_run_id x) db" "c_run_id x \<notin> set cl" using Cons.prems(8) promotes_pending [OF all] by auto
  let ?slots = "min_slots (free_slots (g_requested_concurrency h) (active_in_group (g_group_id h) db)) gs"
  let ?cands = "take_slots ?slots (pending_candidates (g_group_id h) db)"
  consider "gs = Some 0" | "gs \<noteq> Some 0" "?slots = Some 0" | "gs \<noteq> Some 0" "?slots \<noteq> Some 0" by blast
  then show ?case
  proof cases
    case 1
    with Cons.prems(4) show ?thesis by (simp add: exhausted_def)
  next
    case 2
    then have r: "claim_groups now gl gs db = (cl, db')" using Cons.prems(4) by simp
    show ?thesis
    proof (cases "g = h")
      case True
      with 2 show ?thesis
        by (cases gs; cases "g_requested_concurrency h")
          (auto simp: exhausted_def min_slots_def free_slots_def min_def split: if_splits)
    next
      case False
      then show ?thesis using Cons.IH [OF Cons.prems(1,2) _ r] Cons.prems by simp
    qed
  next
    case 3
    obtain a gs1 db1 where c: "claim_candidates now ?cands gs db = (a, gs1, db1)"
      by (cases "claim_candidates now ?cands gs db")
    have S: "promotes now a db db1" "set a \<subseteq> set ?cands"
        "\<forall>n. gs = Some n \<longrightarrow> length a \<le> n \<and> gs1 = Some (n - length a)" "gs = None \<longrightarrow> gs1 = None"
      using claim_candidates_spec [OF Cons.prems(1) c 3(1)] by simp_all
    have gs1: "gs1 = map_option (\<lambda>n. n - length a) gs" using S(3,4) by (cases gs) auto
    show ?thesis
    proof (cases "gs1 = Some 0")
      case True
      then have "cl = a" using Cons.prems(4) 3 c by simp
      with True S(3) gs1 show ?thesis by (cases gs) (auto simp: exhausted_def)
    next
      case go: False
      obtain b db2 where r: "claim_groups now gl gs1 db1 = (b, db2)" by (cases "claim_groups now gl gs1 db1")
      have eqs: "cl = a @ b" "db' = db2" using Cons.prems(4) 3 c go r by simp_all
      have ch: "children db1 = children db" using promotes_children [OF S(1)] by simp
      have wf1: "wf_runs db1" using S(1) by (simp add: promotes_def)
      have own: "from_groups {g_group_id h} a db"
        using candidates_from_groups subset_trans [OF S(2) take_slots_subset] by blast
      show ?thesis
      proof (cases "g = h")
        case True
        have "exhausted h gs a db"
          using head_exhausted [OF uniq Cons.prems(1) 3(1) refl 3(2) c] Cons.prems(6,7) px True by (simp add: eqs)
        moreover have "gs \<noteq> Some (length a)" using go gs1 by (cases gs) auto
        ultimately show ?thesis
          using True claimed_in_mono [of a cl "g_group_id h" db] by (fastforce simp: exhausted_def eqs)
      next
        case False
        then have g: "g \<in> set gl" using Cons.prems(5) by simp
        then have "g_group_id g \<noteq> g_group_id h" using dis by (metis image_eqI)
        then have zero: "claimed_in (g_group_id g) a db = 0" by (intro from_groups_other [OF uniq own]) simp
        have act: "active_in_group (g_group_id g) db1 = active_in_group (g_group_id g) db"
          using promotes_count [OF S(1), of "\<lambda>c. c_group_id c = g_group_id g" "children db"] zero
          by (simp add: active_in_group_count ch claimed_in_def)
        have "exhausted g gs1 b db1"
          using Cons.IH [OF wf1 _ _ r g] uniq Cons.prems(3,6,7,8) by (simp add: ch eqs)
        then show ?thesis
          using claimed_in_mono [of b cl "g_group_id g" db] S(3) gs1
          by (cases gs) (fastforce simp: exhausted_def eqs act claimed_in_def ch)+
      qed
    qed
  qed
qed simp


subsection \<open>The transaction as a whole\<close>

lemma pending_groups_distinct: "unique_key g_group_id (groups db) \<Longrightarrow> distinct (map g_group_id (pending_groups db))"
  by (auto simp: pending_groups_def unique_key_def distinct_map intro: inj_on_subset)

lemma claim_ids_spec:
  assumes wf: "wf_groups db" and eq: "claim_pending_ids limit now db = (cl, db')"
  shows "promotes now cl db db'" "within_limits (pending_groups db) (free_slots limit (active_total db)) cl db"
  using claim_groups_spec [of db "pending_groups db" now "free_slots limit (active_total db)" cl db'] assms
    pending_groups_distinct [of db]
  by (simp_all add: wf_groups_def wf_locks_def claim_pending_ids_def)

lemma claim_ids_group:
  assumes wf: "wf_groups db" and eq: "claim_pending_ids limit now db = (cl, db')"
    and g: "g \<in> set (groups db)" "g_requested_concurrency g = Some q"
  shows "active_in_group (g_group_id g) db' \<le> max (active_in_group (g_group_id g) db) (nat q)"
proof -
  note S = claim_ids_spec [OF wf eq]
  have uniq: "unique_key c_run_id (children db)" using wf by (simp add: wf_groups_def)
  have "active_in_group (g_group_id g) db' = active_in_group (g_group_id g) db + claimed_in (g_group_id g) cl db"
    using promotes_count [OF S(1), of "\<lambda>c. c_group_id c = g_group_id g" "children db"] promotes_children [OF S(1)]
    by (simp add: active_in_group_count claimed_in_def)
  moreover have "claimed_in (g_group_id g) cl db \<le> nat (q - int (active_in_group (g_group_id g) db))"
  proof (cases "g \<in> set (pending_groups db)")
    case True
    with S(2) g(2) show ?thesis by (auto simp: within_limits_def)
  next
    case False
    have "g_group_id g \<notin> g_group_id ` set (pending_groups db)"
    proof
      assume "g_group_id g \<in> g_group_id ` set (pending_groups db)"
      then obtain h where "h \<in> set (pending_groups db)" "g_group_id h = g_group_id g" by auto
      then have "h = g" using wf g(1) unique_key_inj [of g_group_id "groups db" h g]
        by (auto simp: wf_groups_def pending_groups_def)
      with \<open>h \<in> set (pending_groups db)\<close> False show False by simp
    qed
    then have "claimed_in (g_group_id g) cl db = 0"
      using S(2) from_groups_other [OF uniq] by (auto simp: within_limits_def)
    then show ?thesis by simp
  qed
  ultimately show ?thesis by linarith
qed

lemma claim_ids_total:
  assumes wf: "wf_groups db" and eq: "claim_pending_ids limit now db = (cl, db')"
  shows "active_total db' = active_total db + length cl"
proof -
  note S = claim_ids_spec [OF wf eq]
  have uniq: "unique_key c_run_id (children db)" using wf by (simp add: wf_groups_def)
  have "length (filter (\<lambda>c. c_run_id c \<in> set cl) (children db)) = length cl"
  proof -
    let ?f = "filter (\<lambda>c. c_run_id c \<in> set cl) (children db)"
    have "distinct (map c_run_id ?f)" using uniq by (simp add: unique_key_def distinct_map_filter)
    moreover have "set (map c_run_id ?f) = set cl" using S(2) by (auto simp: within_limits_def from_groups_def)
    ultimately have "length ?f = card (set cl)" using distinct_card [of "map c_run_id ?f"] by simp
    with S(1) show ?thesis by (simp add: promotes_def distinct_card)
  qed
  then show ?thesis
    using promotes_count [OF S(1), of "\<lambda>_. True" "children db"] promotes_children [OF S(1)]
    by (simp add: active_total_count count_children_def)
qed

text \<open>C32. Claiming launches respects every limit: the number of active children overall does not rise
  above the configured maximum, nor that of any group above the concurrency it requested (a number
  that was already above stays where it was). The runs it reports are distinct, were pending and
  are now launch-pending with the next version, and no other run changes.\<close>

theorem claim_within_limits:
  assumes "wf_groups db" "claim_pending_ids limit now db = (cl, db')"
  shows "(\<forall>n. limit = Some n \<longrightarrow> active_total db' \<le> max (active_total db) (nat n)) \<and>
    (\<forall>g \<in> set (groups db). \<forall>q. g_requested_concurrency g = Some q \<longrightarrow>
       active_in_group (g_group_id g) db' \<le> max (active_in_group (g_group_id g) db) (nat q)) \<and>
    distinct cl \<and> (\<forall>k \<in> set cl. is_pending k db) \<and>
    (\<forall>k. run_by_id k db' = (if k \<in> set cl then map_option (promoted now) (run_by_id k db) else run_by_id k db))"
proof -
  note S = claim_ids_spec [OF assms]
  have "active_total db' \<le> max (active_total db) (nat n)" if "limit = Some n" for n
    using claim_ids_total [OF assms] S(2) that by (auto simp: within_limits_def free_slots_def)
  with S(1) claim_ids_group [OF assms] show ?thesis by (auto simp: promotes_def)
qed

text \<open>No slot is left unused: a child of a stored group that is still pending after the claim waits
  because the configured maximum is reached or because its group has as many active children as it
  requested.\<close>

theorem claim_uses_every_slot:
  assumes "wf_groups db" "claim_pending_ids limit now db = (cl, db')"
    "g \<in> set (groups db)" "x \<in> set (children db)" "c_group_id x = g_group_id g" "is_pending (c_run_id x) db'"
  shows "(\<exists>n. limit = Some n \<and> nat n \<le> active_total db') \<or>
    (\<exists>q. g_requested_concurrency g = Some q \<and> nat q \<le> active_in_group (g_group_id g) db')"
proof -
  note S = claim_ids_spec [OF assms(1,2)]
  have "is_pending (c_run_id x) db" using assms(6) promotes_pending [OF S(1)] by blast
  then have "list_ex (\<lambda>(c, r). c_group_id c = g_group_id g \<and> r_status r = ''pending'') (join_runs (children db) db)"
    using assms(4,5) by (auto simp: list_ex_iff join_runs_def is_pending_def split: option.splits intro!: bexI [of _ x])
  then have "g \<in> set (pending_groups db)" using assms(3) by (simp add: pending_groups_def)
  then have ex: "exhausted g (free_slots limit (active_total db)) cl db"
    using claim_groups_exhausted [of db "pending_groups db" now _ cl db' g x] assms pending_groups_distinct [of db]
    by (simp add: wf_groups_def wf_locks_def claim_pending_ids_def)
  have act: "active_in_group (g_group_id g) db' = active_in_group (g_group_id g) db + claimed_in (g_group_id g) cl db"
    using promotes_count [OF S(1), of "\<lambda>c. c_group_id c = g_group_id g" "children db"] promotes_children [OF S(1)]
    by (simp add: active_in_group_count claimed_in_def)
  from ex show ?thesis
    unfolding exhausted_def using claim_ids_total [OF assms(1,2)] act by (fastforce simp: free_slots_def)
qed


section \<open>Reservation\<close>

lemma normalize_child_Inr:
  "normalize_child n ids keys spec = Inr c \<Longrightarrow>
    pc_run_id c = cs_run_id spec \<and> pc_position c = n \<and> valid_run_id (pc_run_id c) \<and> pc_run_id c \<notin> set ids \<and>
    pc_idempotency_key c \<notin> set keys \<and> pc_initial_status c \<in> {''pending'', ''launch_pending''} \<and>
    pc_worker_lease_token c \<noteq> []"
  by (auto simp: normalize_child_def Let_def split: if_splits option.splits)

lemma normalize_children_Inr:
  "normalize_children n ids keys specs = Inr cs \<Longrightarrow>
    map pc_run_id cs = map cs_run_id specs \<and> map pc_position cs = [n ..< n + length specs] \<and>
    list_all (\<lambda>c. valid_run_id (pc_run_id c) \<and> pc_run_id c \<notin> set ids \<and> pc_initial_status c \<in> {''pending'', ''launch_pending''}) cs \<and>
    distinct (map pc_run_id cs)"
proof (induction specs arbitrary: n ids keys cs)
  case (Cons spec specs)
  from Cons.prems obtain c cs' where c: "normalize_child n ids keys spec = Inr c"
      "normalize_children (n + 1) (pc_run_id c # ids) (pc_idempotency_key c # keys) specs = Inr cs'" "cs = c # cs'"
    by (auto split: sum.splits)
  note IH = Cons.IH [OF c(2)] and N = normalize_child_Inr [OF c(1)]
  have pos: "map pc_position cs = [n ..< n + length (spec # specs)]"
    using IH N upt_conv_Cons [of n "n + Suc (length specs)"] by (simp add: c(3) del: upt_Suc)
  have "list_all (\<lambda>x. pc_run_id x \<notin> set (pc_run_id c # ids)) cs'" using IH by (simp add: list_all_iff)
  then have "pc_run_id c \<notin> set (map pc_run_id cs')" by (auto simp: list_all_iff)
  moreover have "distinct (map pc_run_id cs')" using IH by blast
  ultimately have dist: "distinct (map pc_run_id cs)" by (simp add: c(3))
  have all: "list_all (\<lambda>c. valid_run_id (pc_run_id c) \<and> pc_run_id c \<notin> set ids \<and>
      pc_initial_status c \<in> {''pending'', ''launch_pending''}) cs"
    using IH N by (auto simp: c(3) list_all_iff)
  have "map pc_run_id cs = map cs_run_id (spec # specs)" using IH N by (simp add: c(3))
  with pos dist all show ?case by blast
qed simp

lemma insert_children_Inr:
  assumes "insert_children gid repo now cs db = (Inr u, db')"
  shows "db' = db\<lparr>runs := runs db @ map (child_run repo now) cs, children := children db @ map (child_entry gid) cs\<rparr> \<and>
    (\<forall>c \<in> set cs. run_by_id (pc_run_id c) db = None) \<and>
    (unique_key c_run_id (children db) \<longrightarrow> unique_key c_run_id (children db'))"
  using assms
proof (induction cs arbitrary: db)
  case Nil
  then show ?case by simp
next
  case (Cons c cs)
  let ?db1 = "db\<lparr>runs := runs db @ [child_run repo now c], children := children db @ [child_entry gid c]\<rparr>"
  have one: "insert_child gid repo now c db = (Inr (), ?db1)" "run_by_id (pc_run_id c) db = None"
      "\<not> list_ex (child_conflict (child_entry gid c)) (children db)"
    using Cons.prems by (auto simp: insert_child_def Let_def split: if_splits)
  with Cons.prems have rest: "insert_children gid repo now cs ?db1 = (Inr u, db')" by simp
  have "unique_key c_run_id (children ?db1)" if "unique_key c_run_id (children db)"
    using that one(3) by (auto simp: unique_key_append_one by_key_None_iff list_ex_iff child_conflict_def child_entry_def)
  moreover have "run_by_id k db = None" if "run_by_id k ?db1 = None" for k
    using that by (auto simp: run_by_id_def by_key_append split: option.splits)
  ultimately show ?case using Cons.IH [OF rest] one(2) by auto
qed

lemma child_run_id [simp]: "r_run_id (child_run repo now c) = pc_run_id c"
  by (simp add: child_run_def new_run_def)

lemma child_entry_fields [simp]:
  "c_run_id (child_entry gid c) = pc_run_id c" "c_group_id (child_entry gid c) = gid" "c_position (child_entry gid c) = pc_position c"
  by (simp_all add: child_entry_def)

text \<open>The database after a reservation that succeeded.\<close>

definition reserved_db :: "group_row \<Rightarrow> string \<Rightarrow> timestamp \<Rightarrow> planned_child list \<Rightarrow> 'a group_db_scheme \<Rightarrow> 'a group_db_scheme" where
  "reserved_db row repo now cs db =
     db\<lparr>runs := runs db @ map (child_run repo now) cs, groups := groups db @ [row],
        children := children db @ map (child_entry (g_group_id row)) cs\<rparr>"

lemma by_key_append_fresh:
  "by_key key k rows = Some r \<Longrightarrow> by_key key k (rows @ new) = Some r"
  by (simp add: by_key_append)

lemma unique_key_append_new:
  assumes "unique_key key rows" "distinct (map key new)" "\<forall>r \<in> set new. by_key key (key r) rows = None"
  shows "unique_key key (rows @ new)"
proof -
  have "key x \<noteq> key r" if "x \<in> set rows" "r \<in> set new" for x r
    using assms(3) that by (metis by_key_None_iff imageI)
  then have "set (map key rows) \<inter> set (map key new) = {}" by auto
  with assms(1,2) show ?thesis by (simp add: unique_key_def)
qed

lemma reserved_facts:
  assumes wf: "wf_groups db" and new: "group_by_id (g_group_id row) db = None"
    and fresh: "\<forall>c \<in> set cs. run_by_id (pc_run_id c) db = None" and dist: "distinct (map pc_run_id cs)"
    and uniq: "unique_key c_run_id (children (reserved_db row repo now cs db))"
  shows "wf_groups (reserved_db row repo now cs db)" "db_advances db (reserved_db row repo now cs db)"
    "group_by_id (g_group_id row) (reserved_db row repo now cs db) = Some row"
    "filter (\<lambda>c. c_group_id c = g_group_id row) (children (reserved_db row repo now cs db)) = map (child_entry (g_group_id row)) cs"
    "c \<in> set cs \<Longrightarrow> run_by_id (pc_run_id c) (reserved_db row repo now cs db) = Some (child_run repo now c)"
proof -
  let ?d = "reserved_db row repo now cs db"
  have wfr: "wf_runs ?d"
    using wf fresh dist by (auto simp: wf_groups_def wf_locks_def wf_runs_def reserved_db_def run_by_id_def
        comp_def intro!: unique_key_append_new)
  have old: "run_by_id k ?d = Some r" if "run_by_id k db = Some r" for k r
    using that by (simp add: run_by_id_def reserved_db_def by_key_append_fresh)
  have own: "run_by_id (pc_run_id c) ?d = Some (child_run repo now c)" if "c \<in> set cs" for c
    using by_key_unique [of r_run_id "runs ?d" "child_run repo now c"] wfr that
    by (simp add: run_by_id_def wf_runs_def reserved_db_def)
  have grp: "group_by_id k ?d = (if k = g_group_id row then Some row else group_by_id k db)" for k
    using new by (auto simp: group_by_id_def reserved_db_def by_key_append split: option.split)
  show "group_by_id (g_group_id row) ?d = Some row" by (simp add: grp)
  show "run_by_id (pc_run_id c) ?d = Some (child_run repo now c)" if "c \<in> set cs" using own that .
  show "db_advances db ?d" using wfr old by (auto simp: db_advances_def)
  have "c_group_id c \<noteq> g_group_id row" if "c \<in> set (children db)" for c
    using that wf new by (auto simp: wf_groups_def list_all_iff)
  then show "filter (\<lambda>c. c_group_id c = g_group_id row) (children ?d) = map (child_entry (g_group_id row)) cs"
    by (auto simp: reserved_db_def filter_map comp_def filter_empty_conv)
  have fk: "list_all (\<lambda>c. group_by_id (c_group_id c) ?d \<noteq> None \<and> run_by_id (c_run_id c) ?d \<noteq> None) (children ?d)"
    using wf old own grp by (auto simp: wf_groups_def list_all_iff reserved_db_def)
  have ug: "unique_key g_group_id (groups ?d)"
    using wf new by (simp add: wf_groups_def reserved_db_def unique_key_append_one group_by_id_def)
  have "unique_key l_repo_name (locks ?d)" using wf by (simp add: wf_groups_def wf_locks_def reserved_db_def)
  with wfr fk ug uniq show "wf_groups ?d" by (simp add: wf_groups_def wf_locks_def)
qed


lemma group_children_entries:
  assumes "filter (\<lambda>c. c_group_id c = gid) (children db) = map (child_entry gid) cs"
    "\<And>c. c \<in> set cs \<Longrightarrow> run_by_id (pc_run_id c) db = Some (f c)" "sorted (map pc_position cs)"
  shows "group_children gid db = map (\<lambda>c. (child_entry gid c, f c)) cs"
proof -
  have join: "join_runs (map (child_entry gid) cs) db = map (\<lambda>c. (child_entry gid c, f c)) cs"
    using assms(2) by (induction cs) (auto simp: join_runs_def)
  have "map (c_position \<circ> fst) (map (\<lambda>c. (child_entry gid c, f c)) cs) = map pc_position cs" by simp
  then have "sort_key (c_position \<circ> fst) (map (\<lambda>c. (child_entry gid c, f c)) cs) = map (\<lambda>c. (child_entry gid c, f c)) cs"
    using assms(3) by (metis sort_key_id_if_sorted)
  then show ?thesis by (simp add: group_children_def assms(1) join)
qed

lemma reserve_group_spec:
  assumes "wf_groups db" "reserve_group gid repo specs mode fp lp req inp now db = (res, db')"
  shows "(\<forall>e. res = Inl e \<longrightarrow> db' = db) \<and>
    (\<forall>v. res = Inr v \<longrightarrow> gv_child_run_ids v = map cs_run_id specs \<and> group_by_id gid db = None \<and>
       wf_groups db' \<and> db_advances db db' \<and> (\<exists>row cs. g_group_id row = gid \<and> db' = reserved_db row repo now cs db) \<and>
       (\<forall>k r. run_by_id k db = Some r \<longrightarrow> run_by_id k db' = Some r) \<and>
       (\<forall>k \<in> set (map cs_run_id specs). run_by_id k db = None \<and>
          (\<exists>r. run_by_id k db' = Some r \<and> r_status r \<in> {''pending'', ''launch_pending''} \<and> r_repo_name r = repo)))"
proof (cases "\<exists>e. res = Inl e \<and> db' = db")
  case True
  then show ?thesis by auto
next
  case False
  define row where "row = \<lparr>g_group_id = gid, g_repo_name = repo, g_status = ''launch_pending'', g_mode = mode,
      g_failure_policy = fp, g_repository_lock_policy = lp, g_requested_concurrency = req, g_created_at = now,
      g_ended_at = None, g_input_json = JObj inp, g_result_json = JObj []\<rparr>"
  have gid: "g_group_id row = gid" by (simp add: row_def)
  from False assms(2) obtain cs db1 where valid: "valid_run_id gid"
      and cs: "normalize_children 0 [] [] specs = Inr cs" and new: "group_by_id gid db = None"
      and ins: "insert_children gid repo now cs (db\<lparr>groups := groups db @ [row]\<rparr>) = (Inr (), db1)"
      and res: "res = get_group gid db1" "db' = db1"
    by (auto simp: reserve_group_def Let_def in_transaction_def insert_group_row_def row_def [symmetric] gid
        split: if_splits sum.splits option.splits prod.splits)
  note N = normalize_children_Inr [OF cs]
  have I: "db1 = reserved_db row repo now cs db" "\<forall>c \<in> set cs. run_by_id (pc_run_id c) db = None"
      "unique_key c_run_id (children db) \<longrightarrow> unique_key c_run_id (children db1)"
    using insert_children_Inr [OF ins] by (auto simp: reserved_db_def gid run_by_id_def)
  have uniq: "unique_key c_run_id (children (reserved_db row repo now cs db))"
    using I(1,3) assms(1) by (simp add: wf_groups_def)
  note F = reserved_facts [OF assms(1) _ I(2) _ uniq, unfolded gid, OF new] N
  have dist: "distinct (map pc_run_id cs)" using N by blast
  have gc: "group_children gid db1 = map (\<lambda>c. (child_entry gid c, child_run repo now c)) cs"
    using F(4,5) [OF dist] N by (intro group_children_entries) (simp_all add: I(1))
  have v: "res = Inr \<lparr>gv_group = row, gv_children = map child_payload_of (map (\<lambda>c. (child_entry gid c, child_run repo now c)) cs),
      gv_child_run_ids = map cs_run_id specs\<rparr>"
    using valid F(3) [OF dist] gc N by (simp add: res(1) get_group_def I(1) child_payload_of_def comp_def)
  have stat: "r_status (child_run repo now c) \<in> {''pending'', ''launch_pending''}" if "c \<in> set cs" for c
    using that N by (auto simp: child_run_def new_run_def list_all_iff)
  have repo: "r_repo_name (child_run repo now c) = repo" for c by (simp add: child_run_def new_run_def)
  have runs: "\<forall>k \<in> set (map pc_run_id cs). run_by_id k db = None \<and>
      (\<exists>r. run_by_id k db1 = Some r \<and> r_status r \<in> {''pending'', ''launch_pending''} \<and> r_repo_name r = repo)"
    using I(2) F(5) [OF dist] stat repo by (auto simp: I(1))
  moreover have "run_by_id k db1 = Some r" if "run_by_id k db = Some r" for k r
    using that by (simp add: I(1) run_by_id_def reserved_db_def by_key_append_fresh)
  ultimately show ?thesis using v res(2) new F(1,2) [OF dist] I(1) N gid by auto
qed

text \<open>Reserving a group is all or nothing: an error leaves the database as it was; success stores the
  group and one run per child in the order given, every run prelaunch, and the group that is returned
  lists exactly those run ids; the tables stay well formed and no existing run is affected.\<close>

theorem reserve_group_atomic:
  assumes "wf_groups db" "reserve_group gid repo specs mode fp lp req inp now db = (res, db')"
  shows "(\<forall>e. res = Inl e \<longrightarrow> db' = db) \<and>
    (\<forall>v. res = Inr v \<longrightarrow> gv_child_run_ids v = map cs_run_id specs \<and> group_by_id gid db = None \<and>
       wf_groups db' \<and> (\<forall>k r. run_by_id k db = Some r \<longrightarrow> run_by_id k db' = Some r) \<and>
       (\<forall>k \<in> set (map cs_run_id specs). run_by_id k db = None \<and>
          (\<exists>r. run_by_id k db' = Some r \<and> r_status r \<in> {''pending'', ''launch_pending''} \<and> r_repo_name r = repo)))"
  using reserve_group_spec [OF assms] by blast

section \<open>The status of a group\<close>

definition child_statuses :: "string \<Rightarrow> 'a group_db_scheme \<Rightarrow> string list" where
  "child_statuses gid db = map (\<lambda>(c, r). r_status r) (group_children gid db)"

lemma payload_statuses: "map cp_status (map child_payload_of (group_children gid db)) = child_statuses gid db"
  by (auto simp: child_statuses_def child_payload_of_def)

lemma aggregate_terminal: "is_terminal (aggregate_status ss) \<longleftrightarrow> ss \<noteq> [] \<and> list_all is_terminal ss"
proof -
  have "length (filter is_terminal ss) = length ss \<longleftrightarrow> list_all is_terminal ss"
    by (metis filter_id_conv filter_True length_filter_less list_all_iff less_irrefl)
  then show ?thesis
    by (auto simp: aggregate_status_def is_terminal_def [abs_def] TERMINAL_STATUSES_def)
qed

lemma aggregate_completed: "aggregate_status ss = ''completed'' \<longleftrightarrow> ss \<noteq> [] \<and> list_all (\<lambda>s. s = ''completed'') ss"
proof -
  have "filter is_terminal ss = ss" if "list_all (\<lambda>s. s = ''completed'') ss"
    using that by (induction ss) (simp_all add: is_terminal_def TERMINAL_STATUSES_def)
  then show ?thesis by (auto simp: aggregate_status_def)
qed

definition refreshed :: "timestamp \<Rightarrow> child_payload list \<Rightarrow> group_row \<Rightarrow> group_row" where
  "refreshed now cs g =
     g\<lparr>g_status := aggregate_status (map cp_status cs),
       g_ended_at := (if map cp_status cs \<noteq> [] \<and> list_all is_terminal (map cp_status cs) then Some (latest_end now cs) else None),
       g_result_json := refresh_result g cs\<rparr>"

lemma refreshed_keeps [simp]: "g_group_id (refreshed now cs g) = g_group_id g"
  by (simp add: refreshed_def)

lemma refresh_idem: "refreshed now cs (refreshed now cs g) = refreshed now cs g"
  by (simp add: refreshed_def refresh_result_def)

lemma refresh_group_eq:
  assumes wf: "wf_groups db" and g: "group_by_id gid db = Some g" and v: "valid_run_id gid"
  shows "refresh_group gid now db =
    (let cs = map child_payload_of (group_children gid db);
         db1 = db\<lparr>groups := sql_update (\<lambda>x. g_group_id x = gid) (refreshed now cs) (groups db)\<rparr>
     in (get_group gid db1, db1))"
proof -
  let ?cs = "map child_payload_of (group_children gid db)"
  have "x = g" if "x \<in> set (groups db)" "g_group_id x = gid" for x
    using that wf g by_key_unique [of g_group_id "groups db" x] by (simp add: wf_groups_def group_by_id_def)
  then have "sql_update (\<lambda>x. g_group_id x = gid)
      (\<lambda>x. x\<lparr>g_status := aggregate_status (map cp_status ?cs),
        g_ended_at := (if map cp_status ?cs \<noteq> [] \<and> list_all is_terminal (map cp_status ?cs) then Some (latest_end now ?cs) else None),
        g_result_json := refresh_result g ?cs\<rparr>) (groups db) =
      sql_update (\<lambda>x. g_group_id x = gid) (refreshed now ?cs) (groups db)"
    unfolding sql_update_def refreshed_def by (intro map_cong) auto
  then show ?thesis using g v by (simp add: refresh_group_def Let_def)
qed

lemma refresh_lookup:
  "group_by_id k (db\<lparr>groups := sql_update (\<lambda>x. g_group_id x = gid) (refreshed now cs) (groups db)\<rparr>) =
    (if k = gid then map_option (refreshed now cs) (group_by_id gid db) else group_by_id k db)"
  using by_key_update_key [of g_group_id "refreshed now cs" k gid "\<lambda>_. True" "groups db"]
  by (simp add: group_by_id_def)

text \<open>Refreshing a group derives its status from its children alone: it is terminal exactly when the
  group has children and all of them are terminal, it is completed exactly when all of them
  completed, and only then does it have an end time. Runs, children and the other groups stay as
  they are, and a second refresh at the same time changes nothing.\<close>

theorem refresh_group_sound:
  assumes "wf_groups db" "valid_run_id gid" "group_by_id gid db = Some g" "refresh_group gid now db = (res, db')"
  shows "\<exists>g'. group_by_id gid db' = Some g' \<and>
    (is_terminal (g_status g') \<longleftrightarrow> child_statuses gid db \<noteq> [] \<and> list_all is_terminal (child_statuses gid db)) \<and>
    (g_status g' = ''completed'' \<longleftrightarrow> child_statuses gid db \<noteq> [] \<and> list_all (\<lambda>s. s = ''completed'') (child_statuses gid db)) \<and>
    (g_ended_at g' \<noteq> None \<longleftrightarrow> is_terminal (g_status g')) \<and>
    runs db' = runs db \<and> children db' = children db \<and> (\<forall>k. k \<noteq> gid \<longrightarrow> group_by_id k db' = group_by_id k db) \<and>
    refresh_group gid now db' = (res, db')"
proof -
  let ?cs = "map child_payload_of (group_children gid db)"
  let ?db1 = "db\<lparr>groups := sql_update (\<lambda>x. g_group_id x = gid) (refreshed now ?cs) (groups db)\<rparr>"
  have eqs: "db' = ?db1" "res = get_group gid ?db1" 
    using assms(4) refresh_group_eq [OF assms(1,3,2), of now] by (auto simp: Let_def)
  have g': "group_by_id gid db' = Some (refreshed now ?cs g)" by (simp add: eqs refresh_lookup assms(3))
  have same: "group_children gid db' = group_children gid db" by (simp add: eqs group_children_def join_runs_def run_by_id_def)
  have wf': "wf_groups db'"
    using assms(1) by (auto simp: eqs wf_groups_def wf_locks_def wf_runs_def refresh_lookup list_all_iff run_by_id_def)
  have "sql_update (\<lambda>x. g_group_id x = gid) (refreshed now ?cs) (groups db') = groups db'"
    by (simp add: eqs sql_update_def refresh_idem)
  then have again: "refresh_group gid now db' = (get_group gid db', db')"
    using refresh_group_eq [OF wf' g' assms(2), of now] by (simp add: Let_def same)
  have st: "g_status (refreshed now ?cs g) = aggregate_status (child_statuses gid db)"
      "g_ended_at (refreshed now ?cs g) \<noteq> None \<longleftrightarrow> child_statuses gid db \<noteq> [] \<and> list_all is_terminal (child_statuses gid db)"
    unfolding refreshed_def payload_statuses by simp_all
  have frame: "runs db' = runs db" "children db' = children db" "\<forall>k. k \<noteq> gid \<longrightarrow> group_by_id k db' = group_by_id k db"
    by (simp_all add: eqs refresh_lookup)
  have res: "res = get_group gid db'" by (simp add: eqs)
  show ?thesis
    by (intro exI [of _ "refreshed now ?cs g"], simp only: st aggregate_terminal aggregate_completed)
      (use g' again frame res in simp)
qed


section \<open>Steps of the groups\<close>

inductive group_step :: "'a group_db_scheme \<Rightarrow> 'a group_db_scheme \<Rightarrow> bool" where
  reserve: "group_step db (snd (reserve_group gid repo specs mode fp lp req inp now db))"
| refresh: "group_step db (snd (refresh_group gid now db))"
| claim: "group_step db (snd (claim_pending_launches limit now db))"

lemma promotes_advances: "promotes now cl db db' \<Longrightarrow> db_advances db db'"
proof -
  assume P: "promotes now cl db db'"
  have "row_advances r (promoted now r)" if "k \<in> set cl" "run_by_id k db = Some r" for k r
    using P that promoted_advances [of r now] by (auto simp: promotes_def is_pending_def)
  with P show ?thesis by (auto simp: promotes_def db_advances_def)
qed

text \<open>What every step of the system keeps of the groups: the rows of a group and its children.\<close>

definition groups_kept :: "'a group_db_scheme \<Rightarrow> 'a group_db_scheme \<Rightarrow> bool" where
  "groups_kept db db' =
     ((\<forall>k g. group_by_id k db = Some g \<longrightarrow> (\<exists>g'. group_by_id k db' = Some g')) \<and>
      (\<forall>k g. group_by_id k db = Some g \<longrightarrow>
         filter (\<lambda>c. c_group_id c = k) (children db') = filter (\<lambda>c. c_group_id c = k) (children db)))"

lemma groups_kept_same: "groups db' = groups db \<Longrightarrow> children db' = children db \<Longrightarrow> groups_kept db db'"
  by (simp add: groups_kept_def group_by_id_def)

lemma groups_kept_trans: "groups_kept a b \<Longrightarrow> groups_kept b c \<Longrightarrow> groups_kept a c"
  unfolding groups_kept_def by metis

lemma groups_kept_reserved:
  assumes "group_by_id (g_group_id row) db = None"
  shows "groups_kept db (reserved_db row repo now cs db)"
proof -
  have "k \<noteq> g_group_id row" if "group_by_id k db = Some g" for k g using that assms by auto
  then have "filter (\<lambda>c. c_group_id c = k) (map (child_entry (g_group_id row)) cs) = []"
    if "group_by_id k db = Some g" for k g using that by (auto simp: filter_empty_conv)
  moreover have "\<exists>g'. group_by_id k (reserved_db row repo now cs db) = Some g'" if "group_by_id k db = Some g" for k g
    using that by_key_append_fresh [of g_group_id k "groups db" g] by (simp add: group_by_id_def reserved_db_def)
  moreover have "children (reserved_db row repo now cs db) = children db @ map (child_entry (g_group_id row)) cs"
    by (simp add: reserved_db_def)
  ultimately show ?thesis unfolding groups_kept_def by (simp only: filter_append) simp
qed

lemma promotes_wf:
  assumes "wf_groups db" "promotes now cl db db'"
  shows "wf_groups db'"
proof -
  have "run_by_id k db' \<noteq> None" if "run_by_id k db \<noteq> None" for k using that assms(2) by (auto simp: promotes_def)
  with assms promotes_children [OF assms(2)] show ?thesis
    by (auto simp: wf_groups_def wf_locks_def promotes_def group_by_id_def list_all_iff)
qed

lemma group_step_spec:
  assumes "group_step db db'" "wf_groups db"
  shows "db_advances db db' \<and> wf_groups db' \<and> groups_kept db db'"
proof -
  have same: "db_advances db db" using assms(2) by (simp add: wf_groups_def wf_locks_def)
  show ?thesis using assms(1)
  proof cases
    case (reserve gid repo specs mode fp lp req inp now)
    obtain res d where r: "reserve_group gid repo specs mode fp lp req inp now db = (res, d)"
      by (cases "reserve_group gid repo specs mode fp lp req inp now db")
    then have d: "db' = d" using reserve by simp
    show ?thesis
    proof (cases res)
      case (Inl e)
      with reserve_group_spec [OF assms(2) r] have "d = db" by blast
      with d same assms(2) show ?thesis by (simp add: groups_kept_same)
    next
      case (Inr v)
      from reserve_group_spec [OF assms(2) r] Inr obtain row cs where
        "db_advances db d" "wf_groups d" "g_group_id row = gid" "group_by_id gid db = None" "d = reserved_db row repo now cs db"
        by blast
      with d show ?thesis using groups_kept_reserved [of row db repo now cs] by simp
    qed
  next
    case (refresh gid now)
    show ?thesis
    proof (cases "valid_run_id gid \<and> group_by_id gid db \<noteq> None")
      case True
      then obtain g where g: "group_by_id gid db = Some g" and v: "valid_run_id gid" by auto
      let ?cs = "map child_payload_of (group_children gid db)"
      have db': "db' = db\<lparr>groups := sql_update (\<lambda>x. g_group_id x = gid) (refreshed now ?cs) (groups db)\<rparr>"
        using refresh refresh_group_eq [OF assms(2) g v, of now] by (simp add: Let_def)
      have "db_advances db db'" by (rule db_advances_same_runs [OF same]) (simp add: db')
      moreover have "wf_groups db'"
        using assms(2) by (auto simp: db' wf_groups_def wf_locks_def wf_runs_def refresh_lookup list_all_iff run_by_id_def)
      moreover have "groups_kept db db'" by (auto simp: db' groups_kept_def refresh_lookup)
      ultimately show ?thesis by simp
    next
      case False
      then have "db' = db" using refresh by (auto simp: refresh_group_def split: option.splits)
      with same assms(2) show ?thesis by (simp add: groups_kept_same)
    qed
  next
    case (claim limit now)
    obtain cl d where c: "claim_pending_ids limit now db = (cl, d)" by (cases "claim_pending_ids limit now db")
    with claim have "db' = d" by (simp add: claim_pending_launches_def)
    with claim_ids_spec(1) [OF assms(2) c] promotes_advances promotes_wf [OF assms(2)] promotes_children [of now cl db d]
    show ?thesis by (simp add: groups_kept_same)
  qed
qed


section \<open>Concrete instances\<close>

definition spec_of :: "string \<Rightarrow> string \<Rightarrow> string \<Rightarrow> child_spec" where
  "spec_of i key status = \<lparr>cs_run_id = i, cs_idempotency_key = key, cs_worker_lease_token = ''tok'',
     cs_run_dir = Some ''runs/x'', cs_initial_status = status, cs_tool = [], cs_input_data = [],
     cs_risk_level = [], cs_requires_human = False\<rparr>"

definition empty_groups :: group_db where
  "empty_groups = \<lparr>runs = [], events = [], event_seq = 0, locks = [], groups = [], children = []\<rparr>"

definition group_id_1 :: string where
  "group_id_1 = ''20240101T000000Z_group_00000001''"

definition child_a :: string where
  "child_a = ''20240101T000000Z_run_0000000a''"

definition child_b :: string where
  "child_b = ''20240101T000000Z_run_0000000b''"

definition sample_specs :: "child_spec list" where
  "sample_specs = [spec_of child_a ''a'' ''launch_pending'', spec_of child_b ''b'' ''pending'']"

definition sample_groups :: group_db where
  "sample_groups = snd (reserve_group group_id_1 ''repo'' sample_specs ''all_at_once'' ''continue_all'' ''none'' None [] ''t0'' empty_groups)"

lemma empty_groups_wf: "wf_groups empty_groups"
  by code_simp

lemma sample_groups_wf: "wf_groups sample_groups"
  by code_simp

theorem claim_within_limits_witness:
  "active_total (snd (claim_pending_ids (Some 1) ''t1'' sample_groups)) \<le> 1"
proof -
  have "active_total sample_groups = 1" by code_simp
  with claim_within_limits [OF sample_groups_wf surjective_pairing, of "Some 1" "''t1''"] show ?thesis by simp
qed

theorem claim_uses_every_slot_witness:
  "is_pending child_b (snd (claim_pending_ids (Some 1) ''t1'' sample_groups)) \<and>
   (nat 1 \<le> active_total (snd (claim_pending_ids (Some 1) ''t1'' sample_groups)))"
proof -
  let ?g = "hd (groups sample_groups)" and ?x = "children sample_groups ! 1"
  have "?g \<in> set (groups sample_groups)" "?x \<in> set (children sample_groups)" "c_group_id ?x = g_group_id ?g"
      "c_run_id ?x = child_b" "is_pending (c_run_id ?x) (snd (claim_pending_ids (Some 1) ''t1'' sample_groups))"
      "g_requested_concurrency ?g = None"
    by code_simp+
  with claim_uses_every_slot [OF sample_groups_wf surjective_pairing, of ?g ?x "Some 1" "''t1''"] show ?thesis by auto
qed

theorem reserve_group_atomic_witness:
  "\<exists>v. fst (reserve_group group_id_1 ''repo'' sample_specs ''all_at_once'' ''continue_all'' ''none'' None [] ''t0'' empty_groups) = Inr v \<and>
       gv_child_run_ids v = [child_a, child_b]"
proof -
  let ?r = "reserve_group group_id_1 ''repo'' sample_specs ''all_at_once'' ''continue_all'' ''none'' None [] ''t0'' empty_groups"
  have "(case fst ?r of Inr v \<Rightarrow> True | Inl e \<Rightarrow> False)" by code_simp
  then obtain v d where r: "?r = (Inr v, d)" by (cases ?r) (auto split: sum.splits)
  have "gv_child_run_ids v = map cs_run_id sample_specs" using reserve_group_atomic [OF empty_groups_wf r] by blast
  moreover have "map cs_run_id sample_specs = [child_a, child_b]" by code_simp
  ultimately show ?thesis using r by simp
qed

theorem refresh_group_sound_witness:
  "\<exists>g'. group_by_id group_id_1 (snd (refresh_group group_id_1 ''t1'' sample_groups)) = Some g' \<and> \<not> is_terminal (g_status g')"
proof -
  have g: "group_by_id group_id_1 sample_groups = Some (hd (groups sample_groups))" by code_simp
  have v: "valid_run_id group_id_1" by code_simp
  have "\<not> list_all is_terminal (child_statuses group_id_1 sample_groups)" by code_simp
  with refresh_group_sound [OF sample_groups_wf v g surjective_pairing, of "''t1''"] show ?thesis by metis
qed

end
