(* ===== verification/Task_Store.thy ===== *)
theory Task_Store
  imports Group_Guarantees
begin

text \<open>
  Canonical tasks: the vocabulary of \<open>src/soma/tasks/models.py\<close> and the store of
  \<open>src/soma/tasks/store.py\<close>. The enumerations are datatypes; a column that holds one of them holds
  the constructor. Identifiers of commands and checkpoints, which the code draws from \<open>uuid4\<close>, and
  the clock are arguments. Hashes are opaque text.
\<close>

section \<open>Vocabulary\<close>

definition task_id_core :: "string \<Rightarrow> bool" where
  "task_id_core s =
     (length s = 34 \<and> take 5 s = ''task_'' \<and> list_all is_digit (take 8 (drop 5 s)) \<and> s ! 13 = CHR ''T'' \<and>
      list_all is_digit (take 6 (drop 14 s)) \<and> s ! 20 = CHR ''Z'' \<and> s ! 21 = CHR ''_'' \<and>
      list_all is_hex_lower (drop 22 s))"

definition valid_task_id :: "string \<Rightarrow> bool" where
  "valid_task_id s = re_end task_id_core s"

definition invalid_task_id :: "string \<Rightarrow> py_error" where
  "invalid_task_id task_id = ValueError (''Invalid task_id: '' @ task_id)"

datatype task_state =
    ACCEPTED | QUEUED | RUNNING | AWAITING_CONTROLLER | PAUSED | CANCELLATION_PENDING
  | RECOVERY_PENDING | COMPLETED | FAILED | CANCELLED | UNCERTAIN

fun task_state_value :: "task_state \<Rightarrow> string" where
  "task_state_value ACCEPTED = ''accepted''"
| "task_state_value QUEUED = ''queued''"
| "task_state_value RUNNING = ''running''"
| "task_state_value AWAITING_CONTROLLER = ''awaiting_controller''"
| "task_state_value PAUSED = ''paused''"
| "task_state_value CANCELLATION_PENDING = ''cancellation_pending''"
| "task_state_value RECOVERY_PENDING = ''recovery_pending''"
| "task_state_value COMPLETED = ''completed''"
| "task_state_value FAILED = ''failed''"
| "task_state_value CANCELLED = ''cancelled''"
| "task_state_value UNCERTAIN = ''uncertain''"

definition TERMINAL_TASK_STATES :: "task_state list" where
  "TERMINAL_TASK_STATES = [COMPLETED, FAILED, CANCELLED]"

definition terminal_task :: "task_state \<Rightarrow> bool" where
  "terminal_task s = (s \<in> set TERMINAL_TASK_STATES)"

datatype task_phase =
    PHASE_NONE | PHASE_ACCEPTED | BACKEND_RESERVED | BACKEND_LAUNCHING | BACKEND_RUNNING
  | BACKEND_TERMINAL | CANCELLATION_REQUESTED | RECOVERY | RESULT_PUBLISHED

datatype task_kind = DURABLE_COMMAND

datatype backend_kind = SOMA_DURABLE_RUN

datatype link_type = LINK_PARENT | LINK_CHILD | LINK_BACKEND_RUN | LINK_RELATED | LINK_SUPERSEDES

datatype link_target = TARGET_TASK | TARGET_DURABLE_RUN

datatype command_kind = CANCEL_COMMAND

datatype command_status = CMD_ACCEPTED | REJECTED_STALE_VERSION | CMD_COMPLETED | CMD_FAILED

datatype checkpoint_status = CKPT_OPEN | CKPT_RESOLVED | CKPT_CANCELLED

datatype recovery_state = REC_NONE | REC_PENDING | REC_RESOLVED | REC_UNRESOLVED

datatype event_level = LEVEL_INFO | LEVEL_WARNING | LEVEL_ERROR

definition run_input_reference :: "string \<Rightarrow> string" where
  "run_input_reference run_id = ''run_input:'' @ run_id"

definition run_terminal_reference :: "string \<Rightarrow> string" where
  "run_terminal_reference run_id = ''run_terminal:'' @ run_id"

text \<open>The two maps from the status of a durable run, and the projection built on them.\<close>

definition BACKEND_RUN_STATE_MAP :: "(string \<times> task_state) list" where
  "BACKEND_RUN_STATE_MAP =
     [(''launch_pending'', QUEUED), (''queued'', QUEUED), (''running'', RUNNING),
      (''cancellation_pending'', CANCELLATION_PENDING), (''recovery_pending'', RECOVERY_PENDING),
      (''completed'', COMPLETED), (''partial'', COMPLETED), (''timed_out'', FAILED), (''failed'', FAILED),
      (''cancelled'', CANCELLED), (''needs_input'', AWAITING_CONTROLLER)]"

definition BACKEND_RUN_PHASE_MAP :: "(string \<times> task_phase) list" where
  "BACKEND_RUN_PHASE_MAP =
     [(''launch_pending'', BACKEND_LAUNCHING), (''queued'', BACKEND_LAUNCHING), (''running'', BACKEND_RUNNING),
      (''cancellation_pending'', CANCELLATION_REQUESTED), (''recovery_pending'', RECOVERY)]"

definition map_backend_status :: "string \<Rightarrow> task_state \<times> task_phase" where
  "map_backend_status status =
     (case map_of BACKEND_RUN_STATE_MAP status of
        None \<Rightarrow> (UNCERTAIN, RECOVERY)
      | Some state \<Rightarrow>
          (state, case map_of BACKEND_RUN_PHASE_MAP status of
                    Some phase \<Rightarrow> phase
                  | None \<Rightarrow> if terminal_task state \<or> state = AWAITING_CONTROLLER then BACKEND_TERMINAL else PHASE_NONE))"

section \<open>Rows\<close>

record task_row =
  t_task_id :: string
  t_parent_task_id :: string
  t_task_kind :: task_kind
  t_controller_request_id :: string
  t_request_hash :: string
  t_objective_ref :: string
  t_constraints_ref :: string
  t_backend_kind :: backend_kind
  t_backend_executor :: string
  t_backend_ref :: string
  t_backend_identity :: "(string \<times> json) list"
  t_workspace_kind :: string
  t_workspace_ref :: string
  t_state :: task_state
  t_phase :: task_phase
  t_state_version :: int
  t_checkpoint_ref :: string
  t_result_ref :: string
  t_result_hash :: string
  t_evidence_ref :: string
  t_recovery_state :: recovery_state
  t_recovery_reason :: string
  t_reconciled_at :: "timestamp option"
  t_created_at :: timestamp
  t_updated_at :: timestamp
  t_started_at :: "timestamp option"
  t_ended_at :: "timestamp option"

record link_row =
  k_id :: int
  k_task_id :: string
  k_link_type :: link_type
  k_target_kind :: link_target
  k_target_id :: string
  k_created_at :: timestamp
  k_metadata :: "(string \<times> json) list"

record task_event =
  te_id :: int
  te_task_id :: string
  te_timestamp :: timestamp
  te_level :: event_level
  te_stage :: string
  te_message :: string
  te_state :: string
  te_state_version :: int
  te_data :: "(string \<times> json) list"

record command_row =
  m_command_id :: string
  m_task_id :: string
  m_command_kind :: command_kind
  m_controller_request_id :: string
  m_requested_state_version :: int
  m_observed_state_version :: int
  m_status :: command_status
  m_reason :: string
  m_created_at :: timestamp
  m_completed_at :: "timestamp option"

record checkpoint_row =
  x_checkpoint_id :: string
  x_task_id :: string
  x_kind :: string
  x_prompt :: string
  x_expected_input_schema :: "(string \<times> json) list"
  x_context_ref :: string
  x_evidence_ref :: string
  x_required_state_version :: int
  x_status :: checkpoint_status
  x_created_at :: timestamp
  x_resolved_at :: "timestamp option"

record task_db = group_db +
  tasks :: "task_row list"
  links :: "link_row list"
  link_seq :: int
  task_events :: "task_event list"
  task_event_seq :: int
  commands :: "command_row list"
  checkpoints :: "checkpoint_row list"

section \<open>Reads\<close>

definition task_by_id :: "string \<Rightarrow> 'a task_db_scheme \<Rightarrow> task_row option" where
  "task_by_id task_id db = by_key t_task_id task_id (tasks db)"

definition get_task :: "string \<Rightarrow> 'a task_db_scheme \<Rightarrow> py_error + task_row" where
  "get_task task_id db =
     (if \<not> valid_task_id task_id then Inl (invalid_task_id task_id)
      else case task_by_id task_id db of
        None \<Rightarrow> Inl (KeyError (''Task not found: '' @ task_id)) | Some t \<Rightarrow> Inr t)"

definition find_by_controller_request :: "string \<Rightarrow> 'a task_db_scheme \<Rightarrow> task_row option" where
  "find_by_controller_request request_id db = sql_fetchone (\<lambda>t. t_controller_request_id t = request_id) (tasks db)"

definition find_by_backend_ref :: "backend_kind \<Rightarrow> string \<Rightarrow> 'a task_db_scheme \<Rightarrow> task_row option" where
  "find_by_backend_ref kind ref db =
     (if ref = [] then None else sql_fetchone (\<lambda>t. t_backend_kind t = kind \<and> t_backend_ref t = ref) (tasks db))"

text \<open>\<open>LIMIT\<close>: a negative limit is no limit.\<close>

definition sql_limit :: "int \<Rightarrow> 'r list \<Rightarrow> 'r list" where
  "sql_limit n rows = (if n < 0 then rows else take (nat n) rows)"

definition list_active_tasks :: "int \<Rightarrow> 'a task_db_scheme \<Rightarrow> task_row list" where
  "list_active_tasks limit db =
     sql_limit limit (sort_key t_created_at (filter (\<lambda>t. \<not> terminal_task (t_state t)) (tasks db)))"

definition list_links :: "string \<Rightarrow> int \<Rightarrow> 'a task_db_scheme \<Rightarrow> py_error + link_row list" where
  "list_links task_id limit db =
     (if \<not> valid_task_id task_id then Inl (invalid_task_id task_id)
      else Inr (sql_limit limit (sort_key k_id (filter (\<lambda>k. k_task_id k = task_id) (links db)))))"

definition list_task_events :: "string \<Rightarrow> int \<Rightarrow> int option \<Rightarrow> 'a task_db_scheme \<Rightarrow> py_error + task_event list" where
  "list_task_events task_id limit after_id db =
     (if \<not> valid_task_id task_id then Inl (invalid_task_id task_id)
      else Inr (sql_limit limit (sort_key te_id
        (filter (\<lambda>e. te_task_id e = task_id \<and> (case after_id of None \<Rightarrow> True | Some n \<Rightarrow> te_id e > n)) (task_events db)))))"

definition latest_event_id :: "string \<Rightarrow> 'a task_db_scheme \<Rightarrow> py_error + int" where
  "latest_event_id task_id db =
     (if \<not> valid_task_id task_id then Inl (invalid_task_id task_id)
      else case map te_id (filter (\<lambda>e. te_task_id e = task_id) (task_events db)) of
        [] \<Rightarrow> Inr 0 | i # is \<Rightarrow> Inr (foldl max i is))"

definition list_commands :: "string \<Rightarrow> int \<Rightarrow> 'a task_db_scheme \<Rightarrow> py_error + command_row list" where
  "list_commands task_id limit db =
     (if \<not> valid_task_id task_id then Inl (invalid_task_id task_id)
      else Inr (sql_limit limit (sort_key m_created_at (sort_key m_command_id (filter (\<lambda>m. m_task_id m = task_id) (commands db))))))"

definition open_checkpoint_count :: "string \<Rightarrow> 'a task_db_scheme \<Rightarrow> py_error + nat" where
  "open_checkpoint_count task_id db =
     (if \<not> valid_task_id task_id then Inl (invalid_task_id task_id)
      else Inr (sql_count (\<lambda>x. x_task_id x = task_id \<and> x_status x = CKPT_OPEN) (checkpoints db)))"

section \<open>Reservation\<close>

record task_request =
  rq_task_id :: string
  rq_task_kind :: task_kind
  rq_controller_request_id :: string
  rq_request_hash :: string
  rq_backend_kind :: backend_kind
  rq_backend_executor :: string
  rq_backend_ref :: string
  rq_backend_identity :: "(string \<times> json) list"
  rq_objective_ref :: string
  rq_constraints_ref :: string
  rq_workspace_kind :: string
  rq_workspace_ref :: string
  rq_parent_task_id :: string
  rq_state :: task_state
  rq_phase :: task_phase

definition new_task :: "task_request \<Rightarrow> timestamp \<Rightarrow> task_row" where
  "new_task q now =
     \<lparr>t_task_id = rq_task_id q, t_parent_task_id = rq_parent_task_id q, t_task_kind = rq_task_kind q,
      t_controller_request_id = rq_controller_request_id q, t_request_hash = rq_request_hash q,
      t_objective_ref = rq_objective_ref q, t_constraints_ref = rq_constraints_ref q,
      t_backend_kind = rq_backend_kind q, t_backend_executor = rq_backend_executor q,
      t_backend_ref = rq_backend_ref q, t_backend_identity = rq_backend_identity q,
      t_workspace_kind = rq_workspace_kind q, t_workspace_ref = rq_workspace_ref q,
      t_state = rq_state q, t_phase = rq_phase q, t_state_version = 0, t_checkpoint_ref = [],
      t_result_ref = [], t_result_hash = [], t_evidence_ref = [], t_recovery_state = REC_NONE,
      t_recovery_reason = [], t_reconciled_at = None, t_created_at = now, t_updated_at = now,
      t_started_at = None, t_ended_at = None\<rparr>"

text \<open>The unique indexes of \<open>tasks\<close>: the key, the controller request, and a non-empty backend reference.\<close>

definition task_conflict :: "task_row \<Rightarrow> task_row \<Rightarrow> bool" where
  "task_conflict a b =
     (t_task_id a = t_task_id b \<or> t_controller_request_id a = t_controller_request_id b \<or>
      (t_backend_ref a \<noteq> [] \<and> t_backend_kind a = t_backend_kind b \<and> t_backend_ref a = t_backend_ref b))"

text \<open>\<open>INSERT OR IGNORE\<close>\<close>

definition insert_link ::
  "string \<Rightarrow> link_type \<Rightarrow> link_target \<Rightarrow> string \<Rightarrow> (string \<times> json) list \<Rightarrow> timestamp \<Rightarrow>
   'a task_db_scheme \<Rightarrow> ('a task_db_scheme, unit) outcome" where
  "insert_link task_id ty kind target metadata now db =
     (if list_ex (\<lambda>k. k_task_id k = task_id \<and> k_link_type k = ty \<and> k_target_kind k = kind \<and> k_target_id k = target) (links db)
      then (Inr (), db)
      else if task_by_id task_id db = None then (Inl (IntegrityError ''FOREIGN KEY constraint failed''), db)
      else (Inr (), db\<lparr>link_seq := link_seq db + 1,
              links := links db @ [\<lparr>k_id = link_seq db + 1, k_task_id = task_id, k_link_type = ty, k_target_kind = kind,
                                    k_target_id = target, k_created_at = now, k_metadata = metadata\<rparr>]\<rparr>))"

text \<open>The sequence of two calls in one transaction.\<close>

definition and_then :: "('db, unit) outcome \<Rightarrow> ('db \<Rightarrow> ('db, 'a) outcome) \<Rightarrow> ('db, 'a) outcome" where
  "and_then a f = (case a of (Inl e, db) \<Rightarrow> (Inl e, db) | (Inr _, db) \<Rightarrow> f db)"

definition reserve_task_in_connection ::
  "task_request \<Rightarrow> timestamp \<Rightarrow> 'a task_db_scheme \<Rightarrow> ('a task_db_scheme, task_row \<times> bool) outcome" where
  "reserve_task_in_connection q now db =
     (if \<not> valid_task_id (rq_task_id q) then (Inl (invalid_task_id (rq_task_id q)), db)
      else case find_by_controller_request (rq_controller_request_id q) db of
        Some existing \<Rightarrow>
          if t_request_hash existing \<noteq> rq_request_hash q
          then (Inl (TaskRequestConflict (t_task_id existing)), db)
          else (Inr (existing, False), db)
      | None \<Rightarrow>
          if list_ex (task_conflict (new_task q now)) (tasks db)
          then (Inl (IntegrityError ''UNIQUE constraint failed: tasks''), db)
          else
            let db1 = db\<lparr>tasks := tasks db @ [new_task q now]\<rparr>;
                run_link = (\<lambda>d. if rq_backend_ref q = [] then (Inr (), d)
                  else insert_link (rq_task_id q) LINK_BACKEND_RUN TARGET_DURABLE_RUN (rq_backend_ref q)
                         [(''backend_kind'', JStr ''soma_durable_run''), (''backend_executor'', JStr (rq_backend_executor q))] now d);
                parent_link = (\<lambda>d. if rq_parent_task_id q = [] then (Inr (), d)
                  else insert_link (rq_task_id q) LINK_PARENT TARGET_TASK (rq_parent_task_id q) [] now d)
            in and_then (run_link db1) (\<lambda>db2. and_then (parent_link db2) (\<lambda>db3.
                 case task_by_id (rq_task_id q) db3 of
                   None \<Rightarrow> (Inl (TypeError ''row is None''), db3)
                 | Some t \<Rightarrow> (Inr (t, True), db3))))"

definition reserve_task :: "task_request \<Rightarrow> timestamp \<Rightarrow> 'a task_db_scheme \<Rightarrow> ('a task_db_scheme, task_row \<times> bool) outcome" where
  "reserve_task q now db =
     (if \<not> valid_task_id (rq_task_id q) then (Inl (invalid_task_id (rq_task_id q)), db)
      else in_transaction (reserve_task_in_connection q now) db)"

definition add_link ::
  "string \<Rightarrow> link_type \<Rightarrow> link_target \<Rightarrow> string \<Rightarrow> (string \<times> json) list \<Rightarrow> timestamp \<Rightarrow>
   'a task_db_scheme \<Rightarrow> ('a task_db_scheme, unit) outcome" where
  "add_link task_id ty kind target metadata now db =
     (if \<not> valid_task_id task_id then (Inl (invalid_task_id task_id), db)
      else insert_link task_id ty kind target metadata now db)"

section \<open>Compare-and-set update\<close>

datatype task_field =
    T_state task_state
  | T_phase task_phase
  | T_backend_ref string
  | T_backend_executor string
  | T_backend_identity "(string \<times> json) list"
  | T_objective_ref string
  | T_constraints_ref string
  | T_workspace_kind string
  | T_workspace_ref string
  | T_checkpoint_ref string
  | T_result_ref string
  | T_result_hash string
  | T_evidence_ref string
  | T_recovery_state recovery_state
  | T_recovery_reason string
  | T_reconciled_at "timestamp option"
  | T_started_at "timestamp option"
  | T_ended_at "timestamp option"
  | T_unsupported string

fun updatable_task_field :: "task_field \<Rightarrow> bool" where
  "updatable_task_field (T_unsupported _) = False"
| "updatable_task_field _ = True"

fun apply_task_field :: "task_field \<Rightarrow> task_row \<Rightarrow> task_row" where
  "apply_task_field (T_state v) t = t\<lparr>t_state := v\<rparr>"
| "apply_task_field (T_phase v) t = t\<lparr>t_phase := v\<rparr>"
| "apply_task_field (T_backend_ref v) t = t\<lparr>t_backend_ref := v\<rparr>"
| "apply_task_field (T_backend_executor v) t = t\<lparr>t_backend_executor := v\<rparr>"
| "apply_task_field (T_backend_identity v) t = t\<lparr>t_backend_identity := v\<rparr>"
| "apply_task_field (T_objective_ref v) t = t\<lparr>t_objective_ref := v\<rparr>"
| "apply_task_field (T_constraints_ref v) t = t\<lparr>t_constraints_ref := v\<rparr>"
| "apply_task_field (T_workspace_kind v) t = t\<lparr>t_workspace_kind := v\<rparr>"
| "apply_task_field (T_workspace_ref v) t = t\<lparr>t_workspace_ref := v\<rparr>"
| "apply_task_field (T_checkpoint_ref v) t = t\<lparr>t_checkpoint_ref := v\<rparr>"
| "apply_task_field (T_result_ref v) t = t\<lparr>t_result_ref := v\<rparr>"
| "apply_task_field (T_result_hash v) t = t\<lparr>t_result_hash := v\<rparr>"
| "apply_task_field (T_evidence_ref v) t = t\<lparr>t_evidence_ref := v\<rparr>"
| "apply_task_field (T_recovery_state v) t = t\<lparr>t_recovery_state := v\<rparr>"
| "apply_task_field (T_recovery_reason v) t = t\<lparr>t_recovery_reason := v\<rparr>"
| "apply_task_field (T_reconciled_at v) t = t\<lparr>t_reconciled_at := v\<rparr>"
| "apply_task_field (T_started_at v) t = t\<lparr>t_started_at := v\<rparr>"
| "apply_task_field (T_ended_at v) t = t\<lparr>t_ended_at := v\<rparr>"
| "apply_task_field (T_unsupported _) t = t"

definition apply_task_fields :: "task_field list \<Rightarrow> task_row \<Rightarrow> task_row" where
  "apply_task_fields fs t = foldl (\<lambda>acc f. apply_task_field f acc) t fs"

definition task_set :: "task_field list \<Rightarrow> bool \<Rightarrow> timestamp \<Rightarrow> task_row \<Rightarrow> task_row" where
  "task_set fs bump now t =
     (let t' = (apply_task_fields fs t)\<lparr>t_updated_at := now\<rparr>
      in if bump then t'\<lparr>t_state_version := t_state_version t + 1\<rparr> else t')"

definition task_guard :: "int \<Rightarrow> task_state list option \<Rightarrow> task_row \<Rightarrow> bool" where
  "task_guard version states t =
     (t_state_version t = version \<and> (case states of None \<Rightarrow> True | Some ss \<Rightarrow> ss = [] \<or> t_state t \<in> set ss))"

text \<open>An update that sets \<open>backend_ref\<close> is checked against the unique index of that column.\<close>

definition task_conditional_update ::
  "string \<Rightarrow> task_field list \<Rightarrow> int \<Rightarrow> task_state list option \<Rightarrow> bool \<Rightarrow> timestamp \<Rightarrow>
   'a task_db_scheme \<Rightarrow> ('a task_db_scheme, task_row option) outcome" where
  "task_conditional_update task_id fs version states bump now db =
     (if \<not> valid_task_id task_id then (Inl (invalid_task_id task_id), db)
      else if \<not> list_all updatable_task_field fs then (Inl (ValueError ''Unsupported task update fields''), db)
      else if fs = [] then (Inl (OperationalError ''syntax error''), db)
      else
        let hit = (\<lambda>t. t_task_id t = task_id \<and> task_guard version states t) in
        if sql_count hit (tasks db) \<noteq> 1 then (Inr None, db)
        else
          let rows = sql_update hit (task_set fs bump now) (tasks db) in
          if list_ex (\<lambda>t. list_ex (\<lambda>u. t_task_id t \<noteq> t_task_id u \<and> t_backend_ref t \<noteq> [] \<and>
                 t_backend_kind t = t_backend_kind u \<and> t_backend_ref t = t_backend_ref u) rows) rows
          then (Inl (IntegrityError ''UNIQUE constraint failed: tasks.backend_ref''), db)
          else
            let db1 = db\<lparr>tasks := rows\<rparr> in (Inr (task_by_id task_id db1), db1))"

section \<open>Events, commands and checkpoints\<close>

definition append_task_event ::
  "string \<Rightarrow> event_level \<Rightarrow> string \<Rightarrow> string \<Rightarrow> string \<Rightarrow> int \<Rightarrow> (string \<times> json) list \<Rightarrow> timestamp \<Rightarrow>
   'a task_db_scheme \<Rightarrow> ('a task_db_scheme, task_event) outcome" where
  "append_task_event task_id level stage message state version data now db =
     (if \<not> valid_task_id task_id then (Inl (invalid_task_id task_id), db)
      else if task_by_id task_id db = None then (Inl (IntegrityError ''FOREIGN KEY constraint failed''), db)
      else
        let ev = \<lparr>te_id = task_event_seq db + 1, te_task_id = task_id, te_timestamp = now, te_level = level,
                  te_stage = stage, te_message = message, te_state = state, te_state_version = version, te_data = data\<rparr>
        in (Inr ev, db\<lparr>task_event_seq := task_event_seq db + 1, task_events := task_events db @ [ev]\<rparr>))"

definition record_command ::
  "string \<Rightarrow> string \<Rightarrow> command_kind \<Rightarrow> int \<Rightarrow> int \<Rightarrow> command_status \<Rightarrow> string \<Rightarrow> string \<Rightarrow> timestamp \<Rightarrow>
   'a task_db_scheme \<Rightarrow> ('a task_db_scheme, command_row) outcome" where
  "record_command command_id task_id kind requested observed status request_id reason now db =
     (if \<not> valid_task_id task_id then (Inl (invalid_task_id task_id), db)
      else if task_by_id task_id db = None then (Inl (IntegrityError ''FOREIGN KEY constraint failed''), db)
      else if by_key m_command_id command_id (commands db) \<noteq> None
      then (Inl (IntegrityError ''UNIQUE constraint failed: task_commands.command_id''), db)
      else
        let cmd = \<lparr>m_command_id = command_id, m_task_id = task_id, m_command_kind = kind,
                   m_controller_request_id = request_id, m_requested_state_version = requested,
                   m_observed_state_version = observed, m_status = status, m_reason = reason, m_created_at = now,
                   m_completed_at = (if status \<in> set [CMD_COMPLETED, CMD_FAILED, REJECTED_STALE_VERSION] then Some now else None)\<rparr>
        in (Inr cmd, db\<lparr>commands := commands db @ [cmd]\<rparr>))"

definition complete_command :: "string \<Rightarrow> command_status \<Rightarrow> string \<Rightarrow> timestamp \<Rightarrow> 'a task_db_scheme \<Rightarrow> 'a task_db_scheme" where
  "complete_command command_id status reason now db =
     db\<lparr>commands := sql_update (\<lambda>m. m_command_id m = command_id)
          (\<lambda>m. m\<lparr>m_status := status, m_reason := reason, m_completed_at := Some now\<rparr>) (commands db)\<rparr>"

definition create_checkpoint ::
  "string \<Rightarrow> string \<Rightarrow> string \<Rightarrow> int \<Rightarrow> string \<Rightarrow> (string \<times> json) list \<Rightarrow> string \<Rightarrow> string \<Rightarrow> timestamp \<Rightarrow>
   'a task_db_scheme \<Rightarrow> ('a task_db_scheme, checkpoint_row) outcome" where
  "create_checkpoint checkpoint_id task_id kind version prompt input_schema context_ref evidence_ref now db =
     (if \<not> valid_task_id task_id then (Inl (invalid_task_id task_id), db)
      else if task_by_id task_id db = None then (Inl (IntegrityError ''FOREIGN KEY constraint failed''), db)
      else if by_key x_checkpoint_id checkpoint_id (checkpoints db) \<noteq> None
      then (Inl (IntegrityError ''UNIQUE constraint failed: task_checkpoints.checkpoint_id''), db)
      else
        let ck = \<lparr>x_checkpoint_id = checkpoint_id, x_task_id = task_id, x_kind = kind, x_prompt = prompt,
                  x_expected_input_schema = input_schema, x_context_ref = context_ref, x_evidence_ref = evidence_ref,
                  x_required_state_version = version, x_status = CKPT_OPEN, x_created_at = now, x_resolved_at = None\<rparr>
        in (Inr ck, db\<lparr>checkpoints := checkpoints db @ [ck]\<rparr>))"

end
