(* ===== verification/Project_Scope.thy ===== *)
theory Project_Scope
  imports Task_Store
begin

text \<open>
  The project scope sidecar, \<open>src/soma/project_scope/\<close>: which project owns a repository, a
  canonical task and a durable run, and the quarantine of records that no longer agree with each other.

  \<open>scope_env\<close> holds what the code takes from the machine and from \<open>hashlib\<close>: the canonical form of
  a repository path, SHA-256 of a text, and SHA-256 of the canonical JSON of a document. The tables
  are created by two migrations, and \<open>scope_schema\<close> is the number of them that have been applied.
  The clock is an argument and is constant during one call.
\<close>

section \<open>Vocabulary\<close>

datatype project_lifecycle = PROJECT_ACTIVE | PROJECT_SUSPENDED | PROJECT_ARCHIVED

datatype access_mode = EXCLUSIVE | SHARED

datatype task_binding = TB_RESERVED | TB_ATTACHED | TB_QUARANTINED

datatype attempt_binding = AB_RESERVED | AB_ATTACHED | AB_RECOVERY_PENDING | AB_QUARANTINED

datatype record_kind = TASK_RESERVATION | RUN_ATTEMPT

datatype disposition = ACKNOWLEDGED | SUPERSEDED

fun access_mode_value :: "access_mode \<Rightarrow> string" where
  "access_mode_value EXCLUSIVE = ''exclusive''"
| "access_mode_value SHARED = ''shared''"

fun task_binding_value :: "task_binding \<Rightarrow> string" where
  "task_binding_value TB_RESERVED = ''reserved''"
| "task_binding_value TB_ATTACHED = ''attached''"
| "task_binding_value TB_QUARANTINED = ''quarantined''"

fun attempt_binding_value :: "attempt_binding \<Rightarrow> string" where
  "attempt_binding_value AB_RESERVED = ''reserved''"
| "attempt_binding_value AB_ATTACHED = ''attached''"
| "attempt_binding_value AB_RECOVERY_PENDING = ''recovery_pending''"
| "attempt_binding_value AB_QUARANTINED = ''quarantined''"

fun record_kind_value :: "record_kind \<Rightarrow> string" where
  "record_kind_value TASK_RESERVATION = ''task_reservation''"
| "record_kind_value RUN_ATTEMPT = ''run_attempt''"

fun disposition_value :: "disposition \<Rightarrow> string" where
  "disposition_value ACKNOWLEDGED = ''acknowledged''"
| "disposition_value SUPERSEDED = ''superseded''"

definition parse_access_mode :: "string \<Rightarrow> access_mode option" where
  "parse_access_mode s = find (\<lambda>m. access_mode_value m = s) [EXCLUSIVE, SHARED]"

definition parse_record_kind :: "string \<Rightarrow> record_kind option" where
  "parse_record_kind s = find (\<lambda>k. record_kind_value k = s) [TASK_RESERVATION, RUN_ATTEMPT]"

definition parse_disposition :: "string \<Rightarrow> disposition option" where
  "parse_disposition s = find (\<lambda>d. disposition_value d = s) [ACKNOWLEDGED, SUPERSEDED]"

record repository_binding =
  rb_project_id :: string
  rb_resource_id :: string
  rb_repo_name :: string
  rb_repository_root :: string
  rb_identity_hash :: string
  rb_scope_generation :: int
  rb_access_mode :: access_mode

record scope_projection =
  sp_binding_status :: string
  sp_project_id :: string
  sp_resource_id :: string
  sp_scope_generation :: int
  sp_attempt_status :: string

definition legacy_unassigned :: scope_projection where
  "legacy_unassigned = \<lparr>sp_binding_status = ''legacy_unassigned'', sp_project_id = [], sp_resource_id = [],
     sp_scope_generation = 0, sp_attempt_status = []\<rparr>"

definition NUL :: char where
  "NUL = CHR 0x00"

text \<open>\<open>validate_opaque_id\<close>: \<open>None\<close> when the value is accepted.\<close>

definition opaque_id_error :: "string \<Rightarrow> string \<Rightarrow> py_error option" where
  "opaque_id_error v name =
     (if v = [] \<or> length v > 128 then Some (ProjectScopeError (name @ '' must be a non-empty opaque string''))
      else if NUL \<in> set v then Some (ProjectScopeError (name @ '' contains an embedded NUL''))
      else None)"

text \<open>The first complaint of a list of checks.\<close>

definition first_error :: "py_error option list \<Rightarrow> py_error option" where
  "first_error es = (case find (\<lambda>e. e \<noteq> None) es of Some (Some e) \<Rightarrow> Some e | _ \<Rightarrow> None)"

definition check :: "bool \<Rightarrow> py_error \<Rightarrow> py_error option" where
  "check ok e = (if ok then None else Some e)"

record scope_env =
  canonical_repository_root :: "string \<Rightarrow> string"
  sha256 :: "string \<Rightarrow> string"
  json_digest :: "json \<Rightarrow> string"

definition repository_identity_hash :: "scope_env \<Rightarrow> string \<Rightarrow> string" where
  "repository_identity_hash env v = sha256 env (canonical_repository_root env v)"

section \<open>Tables\<close>

record project_row =
  p_project_id :: string
  p_project_key :: string
  p_lifecycle_state :: project_lifecycle
  p_scope_generation :: int
  p_created_at :: timestamp
  p_updated_at :: timestamp

record resource_row =
  s_resource_id :: string
  s_resource_kind :: string
  s_opaque_ref :: string
  s_identity_hash :: string
  s_created_at :: timestamp

record resource_binding_row =
  b_project_id :: string
  b_resource_id :: string
  b_access_mode :: access_mode
  b_created_at :: timestamp

record repository_binding_row =
  y_project_id :: string
  y_resource_id :: string
  y_repo_name :: string
  y_repository_root :: string
  y_identity_hash :: string
  y_created_at :: timestamp

record reservation_row =
  v_task_id :: string
  v_project_id :: string
  v_scope_generation :: int
  v_status :: task_binding
  v_created_at :: timestamp
  v_updated_at :: timestamp

record attempt_row =
  a_run_id :: string
  a_project_id :: string
  a_task_id :: string
  a_resource_id :: string
  a_scope_generation :: int
  a_status :: attempt_binding
  a_recovery_reason :: string
  a_created_at :: timestamp
  a_updated_at :: timestamp

record quarantine_row =
  q_record_kind :: record_kind
  q_record_id :: string
  q_reason_code :: string
  q_evidence_hash :: string
  q_created_at :: timestamp

record bootstrap_event =
  z_event_id :: string
  z_input_hash :: string
  z_outcome_hash :: string
  z_created_at :: timestamp

record adjudication_row =
  j_adjudication_id :: string
  j_project_id :: string
  j_record_kind :: record_kind
  j_record_id :: string
  j_disposition :: disposition
  j_successor_task_id :: string
  j_reason :: string
  j_idempotency_key :: string
  j_request_hash :: string
  j_evidence_hash :: string
  j_created_at :: timestamp

record scope_db = task_db +
  scope_schema :: nat
  writes_enabled :: bool
  ever_activated :: bool
  settings_updated_at :: timestamp
  projects :: "project_row list"
  resources :: "resource_row list"
  resource_bindings :: "resource_binding_row list"
  repository_bindings :: "repository_binding_row list"
  reservations :: "reservation_row list"
  attempts :: "attempt_row list"
  quarantine :: "quarantine_row list"
  bootstrap_events :: "bootstrap_event list"
  adjudications :: "adjudication_row list"

section \<open>Schema and enforcement\<close>

definition init_scope_db :: "'a scope_db_scheme \<Rightarrow> 'a scope_db_scheme" where
  "init_scope_db db =
     (let db1 = (if scope_schema db = 0
        then db\<lparr>writes_enabled := False, ever_activated := False, settings_updated_at := [],
                projects := [], resources := [], resource_bindings := [], repository_bindings := [],
                reservations := [], attempts := [], quarantine := [], bootstrap_events := [], adjudications := []\<rparr>
        else if scope_schema db = 1 then db\<lparr>adjudications := []\<rparr> else db)
      in db1\<lparr>scope_schema := max 2 (scope_schema db)\<rparr>)"

definition is_installed :: "'a scope_db_scheme \<Rightarrow> bool" where
  "is_installed db = (scope_schema db \<ge> 1)"

definition not_installed_error :: py_error where
  "not_installed_error = ProjectScopeError ''ProjectScope schema is inactive; live activation requires Gate B''"

definition enforcement_state :: "'a scope_db_scheme \<Rightarrow> string" where
  "enforcement_state db =
     (if \<not> is_installed db then ''inactive''
      else if \<not> ever_activated db then ''inactive''
      else if writes_enabled db then ''enforced'' else ''paused'')"

definition scoped_writes_enabled :: "'a scope_db_scheme \<Rightarrow> bool" where
  "scoped_writes_enabled db = (enforcement_state db = ''enforced'')"

text \<open>\<open>_require_adjudication_schema\<close>\<close>

definition adjudication_schema_error :: "'a scope_db_scheme \<Rightarrow> py_error option" where
  "adjudication_schema_error db =
     (if \<not> is_installed db then Some not_installed_error
      else if scope_schema db < 2
      then Some (ProjectScopeError ''Quarantine adjudication requires ProjectScope schema v2'')
      else None)"

text \<open>A statement on a table that has not been created.\<close>

definition no_such_table :: py_error where
  "no_such_table = OperationalError ''no such table''"

section \<open>Bootstrap\<close>

record bootstrap_request =
  br_project_id :: string
  br_project_key :: string
  br_resource_id :: string
  br_repo_name :: string
  br_repository_root :: string
  br_access_mode :: string

record bootstrap_preview =
  pv_project_id :: string
  pv_project_key :: string
  pv_resource_id :: string
  pv_repo_name :: string
  pv_repository_root :: string
  pv_identity_hash :: string
  pv_access_mode :: access_mode
  pv_input_hash :: string
  pv_conflicts :: "string list"

definition bootstrap_request_error :: "bootstrap_request \<Rightarrow> 'a scope_db_scheme \<Rightarrow> py_error option" where
  "bootstrap_request_error q db = first_error
     [check (is_installed db) not_installed_error,
      opaque_id_error (br_project_id q) ''project_id'',
      opaque_id_error (br_resource_id q) ''resource_id'',
      check (br_project_key q \<noteq> [] \<and> length (br_project_key q) \<le> 128) (ProjectScopeError ''project_key must be a non-empty string''),
      check (br_repo_name q \<noteq> [] \<and> length (br_repo_name q) \<le> 128) (ProjectScopeError ''repo_name must be a non-empty string''),
      check (parse_access_mode (br_access_mode q) \<noteq> None) (ProjectScopeError ''access_mode must be exclusive or shared'')]"

definition bootstrap_payload :: "bootstrap_request \<Rightarrow> string \<Rightarrow> string \<Rightarrow> json" where
  "bootstrap_payload q root hash =
     JObj [(''project_id'', JStr (br_project_id q)), (''project_key'', JStr (br_project_key q)),
           (''resource_id'', JStr (br_resource_id q)), (''resource_kind'', JStr ''repository''),
           (''repo_name'', JStr (br_repo_name q)), (''repository_root'', JStr root),
           (''identity_hash'', JStr hash), (''access_mode'', JStr (br_access_mode q))]"

text \<open>The conflicts of a request with the stored identities; the answer is sorted and has no duplicates.\<close>

definition bootstrap_conflicts ::
  "bootstrap_request \<Rightarrow> string \<Rightarrow> access_mode \<Rightarrow> 'a scope_db_scheme \<Rightarrow> string list" where
  "bootstrap_conflicts q hash mode db = remdups (sort (
     map (\<lambda>_. ''project_identity_conflict'')
       (filter (\<lambda>p. (p_project_id p = br_project_id q \<or> p_project_key p = br_project_key q) \<and>
                    (p_project_id p \<noteq> br_project_id q \<or> p_project_key p \<noteq> br_project_key q)) (projects db)) @
     map (\<lambda>_. ''repository_identity_conflict'')
       (filter (\<lambda>s. (s_resource_id s = br_resource_id q \<or> (s_resource_kind s = ''repository'' \<and> s_identity_hash s = hash)) \<and>
                    (s_resource_id s \<noteq> br_resource_id q \<or> s_identity_hash s \<noteq> hash)) (resources db)) @
     concat (map (\<lambda>b.
         if b_resource_id b \<noteq> br_resource_id q then []
         else if b_project_id b = br_project_id q \<and> b_access_mode b \<noteq> mode then [''resource_access_mode_conflict'']
         else if b_project_id b \<noteq> br_project_id q \<and> (b_access_mode b \<noteq> SHARED \<or> mode \<noteq> SHARED)
         then [''resource_exclusivity_conflict''] else []) (resource_bindings db)) @
     map (\<lambda>_. ''repository_binding_conflict'')
       (filter (\<lambda>y. y_project_id y = br_project_id q \<and> (y_resource_id y = br_resource_id q \<or> y_repo_name y = br_repo_name q) \<and>
                    (y_resource_id y \<noteq> br_resource_id q \<or> y_repo_name y \<noteq> br_repo_name q \<or> y_identity_hash y \<noteq> hash))
         (repository_bindings db))))"

definition preview_bootstrap ::
  "scope_env \<Rightarrow> bootstrap_request \<Rightarrow> 'a scope_db_scheme \<Rightarrow> py_error + bootstrap_preview" where
  "preview_bootstrap env q db =
     (case bootstrap_request_error q db of
        Some e \<Rightarrow> Inl e
      | None \<Rightarrow>
          (case parse_access_mode (br_access_mode q) of
             None \<Rightarrow> Inl (ProjectScopeError ''access_mode must be exclusive or shared'')
           | Some mode \<Rightarrow>
               let root = canonical_repository_root env (br_repository_root q);
                   hash = repository_identity_hash env root
               in Inr \<lparr>pv_project_id = br_project_id q, pv_project_key = br_project_key q,
                       pv_resource_id = br_resource_id q, pv_repo_name = br_repo_name q,
                       pv_repository_root = root, pv_identity_hash = hash, pv_access_mode = mode,
                       pv_input_hash = json_digest env (bootstrap_payload q root hash),
                       pv_conflicts = bootstrap_conflicts q hash mode db\<rparr>))"

definition fk_error :: py_error where
  "fk_error = IntegrityError ''FOREIGN KEY constraint failed''"

text \<open>The four \<open>INSERT OR IGNORE\<close> statements. A row that breaks a unique index is dropped; one that
  breaks a foreign key raises.\<close>

definition insert_project :: "bootstrap_preview \<Rightarrow> timestamp \<Rightarrow> 'a scope_db_scheme \<Rightarrow> ('a scope_db_scheme, unit) outcome" where
  "insert_project item now db =
     (Inr (), if list_ex (\<lambda>p. p_project_id p = pv_project_id item \<or> p_project_key p = pv_project_key item) (projects db) then db
        else db\<lparr>projects := projects db @ [\<lparr>p_project_id = pv_project_id item, p_project_key = pv_project_key item,
               p_lifecycle_state = PROJECT_ACTIVE, p_scope_generation = 1, p_created_at = now, p_updated_at = now\<rparr>]\<rparr>)"

definition insert_resource :: "bootstrap_preview \<Rightarrow> timestamp \<Rightarrow> 'a scope_db_scheme \<Rightarrow> ('a scope_db_scheme, unit) outcome" where
  "insert_resource item now db =
     (Inr (), if list_ex (\<lambda>s. s_resource_id s = pv_resource_id item \<or>
                     (s_resource_kind s = ''repository'' \<and> s_identity_hash s = pv_identity_hash item)) (resources db) then db
        else db\<lparr>resources := resources db @ [\<lparr>s_resource_id = pv_resource_id item, s_resource_kind = ''repository'',
               s_opaque_ref = pv_repo_name item, s_identity_hash = pv_identity_hash item, s_created_at = now\<rparr>]\<rparr>)"

definition binding_exists :: "string \<Rightarrow> string \<Rightarrow> 'a scope_db_scheme \<Rightarrow> bool" where
  "binding_exists project resource db =
     list_ex (\<lambda>b. b_project_id b = project \<and> b_resource_id b = resource) (resource_bindings db)"

definition insert_resource_binding :: "bootstrap_preview \<Rightarrow> timestamp \<Rightarrow> 'a scope_db_scheme \<Rightarrow> ('a scope_db_scheme, unit) outcome" where
  "insert_resource_binding item now db =
     (if binding_exists (pv_project_id item) (pv_resource_id item) db then (Inr (), db)
      else if by_key p_project_id (pv_project_id item) (projects db) = None \<or>
              by_key s_resource_id (pv_resource_id item) (resources db) = None then (Inl fk_error, db)
      else (Inr (), db\<lparr>resource_bindings := resource_bindings db @ [\<lparr>b_project_id = pv_project_id item,
              b_resource_id = pv_resource_id item, b_access_mode = pv_access_mode item, b_created_at = now\<rparr>]\<rparr>))"

definition insert_repository_binding :: "bootstrap_preview \<Rightarrow> timestamp \<Rightarrow> 'a scope_db_scheme \<Rightarrow> ('a scope_db_scheme, unit) outcome" where
  "insert_repository_binding item now db =
     (if list_ex (\<lambda>y. y_project_id y = pv_project_id item \<and>
            (y_resource_id y = pv_resource_id item \<or> y_repo_name y = pv_repo_name item)) (repository_bindings db) then (Inr (), db)
      else if \<not> binding_exists (pv_project_id item) (pv_resource_id item) db then (Inl fk_error, db)
      else (Inr (), db\<lparr>repository_bindings := repository_bindings db @ [\<lparr>y_project_id = pv_project_id item,
              y_resource_id = pv_resource_id item, y_repo_name = pv_repo_name item,
              y_repository_root = pv_repository_root item, y_identity_hash = pv_identity_hash item, y_created_at = now\<rparr>]\<rparr>))"

text \<open>\<open>_bootstrap_outcome_hash\<close>: the joined rows must be the one requested identity.\<close>

definition bootstrap_outcome_rows :: "bootstrap_preview \<Rightarrow> 'a scope_db_scheme \<Rightarrow> (string \<times> json) list list" where
  "bootstrap_outcome_rows item db =
     [[(''project_id'', JStr (p_project_id p)), (''project_key'', JStr (p_project_key p)),
       (''scope_generation'', JInt (p_scope_generation p)), (''resource_id'', JStr (s_resource_id s)),
       (''identity_hash'', JStr (s_identity_hash s)), (''access_mode'', JStr (access_mode_value (b_access_mode b))),
       (''repo_name'', JStr (y_repo_name y)), (''repository_root'', JStr (y_repository_root y))].
      p \<leftarrow> projects db, b \<leftarrow> resource_bindings db, b_project_id b = p_project_id p,
      s \<leftarrow> resources db, s_resource_id s = b_resource_id b,
      y \<leftarrow> repository_bindings db, y_project_id y = b_project_id b \<and> y_resource_id y = b_resource_id b,
      p_project_id p = pv_project_id item \<and> s_resource_id s = pv_resource_id item]"

definition bootstrap_expected :: "bootstrap_preview \<Rightarrow> (string \<times> json) list" where
  "bootstrap_expected item =
     [(''project_id'', JStr (pv_project_id item)), (''project_key'', JStr (pv_project_key item)),
      (''scope_generation'', JInt 1), (''resource_id'', JStr (pv_resource_id item)),
      (''identity_hash'', JStr (pv_identity_hash item)), (''access_mode'', JStr (access_mode_value (pv_access_mode item))),
      (''repo_name'', JStr (pv_repo_name item)), (''repository_root'', JStr (pv_repository_root item))]"

definition bootstrap_outcome_hash :: "scope_env \<Rightarrow> bootstrap_preview \<Rightarrow> 'a scope_db_scheme \<Rightarrow> py_error + string" where
  "bootstrap_outcome_hash env item db =
     (case bootstrap_outcome_rows item db of
        [row] \<Rightarrow> if row \<noteq> bootstrap_expected item
                 then Inl (ProjectScopeError ''Bootstrap outcome differs from the explicit requested identity'')
                 else Inr (json_digest env (JArr [JObj row]))
      | _ \<Rightarrow> Inl (ProjectScopeError ''Bootstrap outcome does not resolve to one exact binding''))"

record bootstrap_outcome =
  bo_preview :: bootstrap_preview
  bo_outcome_hash :: string
  bo_event_id :: string

definition record_bootstrap ::
  "scope_env \<Rightarrow> bootstrap_preview \<Rightarrow> timestamp \<Rightarrow> 'a scope_db_scheme \<Rightarrow> ('a scope_db_scheme, bootstrap_outcome) outcome" where
  "record_bootstrap env item now db =
     (case bootstrap_outcome_hash env item db of
        Inl e \<Rightarrow> (Inl e, db)
      | Inr h \<Rightarrow>
          let ev = sha256 env (pv_input_hash item @ [NUL] @ h @ [NUL] @ ''apply'') in
          (Inr \<lparr>bo_preview = item, bo_outcome_hash = h, bo_event_id = ev\<rparr>,
           if list_ex (\<lambda>z. z_event_id z = ev) (bootstrap_events db) then db
           else db\<lparr>bootstrap_events := bootstrap_events db @ [\<lparr>z_event_id = ev, z_input_hash = pv_input_hash item,
                  z_outcome_hash = h, z_created_at = now\<rparr>]\<rparr>))"

text \<open>The transaction of \<open>apply_bootstrap\<close>, on the preview that an earlier connection computed.\<close>

definition apply_bootstrap_write ::
  "scope_env \<Rightarrow> bootstrap_preview \<Rightarrow> timestamp \<Rightarrow> 'a scope_db_scheme \<Rightarrow> ('a scope_db_scheme, bootstrap_outcome) outcome" where
  "apply_bootstrap_write env item now = in_transaction (\<lambda>db.
     let others = filter (\<lambda>b. b_resource_id b = pv_resource_id item \<and> b_project_id b \<noteq> pv_project_id item) (resource_bindings db) in
     if others \<noteq> [] \<and> (pv_access_mode item \<noteq> SHARED \<or> list_ex (\<lambda>b. b_access_mode b \<noteq> SHARED) others)
     then (Inl (ProjectScopeError ''Repository resource has an exclusive project binding''), db)
     else and_then (insert_project item now db) (\<lambda>db1.
          and_then (insert_resource item now db1) (\<lambda>db2.
          and_then (insert_resource_binding item now db2) (\<lambda>db3.
          and_then (insert_repository_binding item now db3) (record_bootstrap env item now)))))"

definition apply_bootstrap ::
  "scope_env \<Rightarrow> bootstrap_request \<Rightarrow> timestamp \<Rightarrow> 'a scope_db_scheme \<Rightarrow> ('a scope_db_scheme, bootstrap_outcome) outcome" where
  "apply_bootstrap env q now db =
     (case preview_bootstrap env q db of
        Inl e \<Rightarrow> (Inl e, db)
      | Inr item \<Rightarrow>
          if pv_conflicts item \<noteq> []
          then (Inl (ProjectScopeError (''Bootstrap conflicts: '' @ join_with '', '' (pv_conflicts item))), db)
          else apply_bootstrap_write env item now db)"

definition set_scoped_writes_enabled ::
  "bool \<Rightarrow> timestamp \<Rightarrow> 'a scope_db_scheme \<Rightarrow> ('a scope_db_scheme, bool \<times> string) outcome" where
  "set_scoped_writes_enabled enabled now db =
     (if \<not> is_installed db then (Inl not_installed_error, db)
      else if enabled \<and> \<not> list_ex (\<lambda>y. list_ex (\<lambda>p. p_project_id p = y_project_id y \<and> p_lifecycle_state p = PROJECT_ACTIVE)
                                 (projects db)) (repository_bindings db)
      then (Inl (ProjectScopeError ''Cannot enable scoped writes without an active repository binding''), db)
      else
        let db1 = db\<lparr>writes_enabled := enabled, ever_activated := (enabled \<or> ever_activated db), settings_updated_at := now\<rparr>
        in (Inr (enabled, enforcement_state db1), db1))"

section \<open>Resolution and exact assertions\<close>

text \<open>The rows of the query: active bindings of a repository name and identity, of one project or of any.\<close>

definition repository_rows :: "string \<Rightarrow> string \<Rightarrow> string \<Rightarrow> 'a scope_db_scheme \<Rightarrow> repository_binding list" where
  "repository_rows project repo hash db =
     [\<lparr>rb_project_id = y_project_id y, rb_resource_id = y_resource_id y, rb_repo_name = y_repo_name y,
       rb_repository_root = y_repository_root y, rb_identity_hash = y_identity_hash y,
       rb_scope_generation = p_scope_generation p, rb_access_mode = b_access_mode b\<rparr>.
      y \<leftarrow> repository_bindings db,
      b \<leftarrow> resource_bindings db, b_project_id b = y_project_id y \<and> b_resource_id b = y_resource_id y,
      p \<leftarrow> projects db, p_project_id p = y_project_id y,
      lower (y_repo_name y) = lower repo \<and> y_identity_hash y = hash \<and> p_lifecycle_state p = PROJECT_ACTIVE \<and>
        (project = [] \<or> y_project_id y = project)]"

definition resolve_repository ::
  "scope_env \<Rightarrow> string \<Rightarrow> string \<Rightarrow> string \<Rightarrow> 'a scope_db_scheme \<Rightarrow> py_error + repository_binding" where
  "resolve_repository env project repo root db =
     (if project \<noteq> [] \<and> opaque_id_error project ''project_id'' \<noteq> None then Inl (the (opaque_id_error project ''project_id''))
      else if \<not> is_installed db then Inl no_such_table
      else case repository_rows project repo (repository_identity_hash env (canonical_repository_root env root)) db of
             [] \<Rightarrow> Inl (ProjectScopeError (''No active repository binding'' @
                      (if project = [] then [] else '' for project '' @ py_repr_str project) @ '' matches '' @ py_repr_str repo))
           | [row] \<Rightarrow> Inr row
           | _ \<Rightarrow> Inl (ProjectScopeError (''Repository binding for '' @ py_repr_str repo @ '' is ambiguous across projects'')))"

definition scope_for_task :: "string \<Rightarrow> 'a scope_db_scheme \<Rightarrow> scope_projection" where
  "scope_for_task task_id db =
     (if \<not> is_installed db then legacy_unassigned
      else case by_key v_task_id task_id (reservations db) of
        None \<Rightarrow> legacy_unassigned
      | Some v \<Rightarrow>
          let attempt = by_key a_task_id task_id (attempts db) in
          \<lparr>sp_binding_status = task_binding_value (v_status v), sp_project_id = v_project_id v,
           sp_resource_id = (case attempt of None \<Rightarrow> [] | Some a \<Rightarrow> a_resource_id a),
           sp_scope_generation = v_scope_generation v,
           sp_attempt_status = (case attempt of None \<Rightarrow> [] | Some a \<Rightarrow> attempt_binding_value (a_status a))\<rparr>)"

definition scope_for_run :: "string \<Rightarrow> 'a scope_db_scheme \<Rightarrow> scope_projection" where
  "scope_for_run run_id db =
     (if \<not> is_installed db then legacy_unassigned
      else case by_key a_run_id run_id (attempts db) of
        None \<Rightarrow> legacy_unassigned
      | Some a \<Rightarrow>
          (case by_key v_task_id (a_task_id a) (reservations db) of
             None \<Rightarrow> legacy_unassigned
           | Some v \<Rightarrow> \<lparr>sp_binding_status = task_binding_value (v_status v), sp_project_id = a_project_id a,
                        sp_resource_id = a_resource_id a, sp_scope_generation = a_scope_generation a,
                        sp_attempt_status = attempt_binding_value (a_status a)\<rparr>))"

definition require_task :: "string \<Rightarrow> string \<Rightarrow> 'a scope_db_scheme \<Rightarrow> py_error + scope_projection" where
  "require_task project task_id db =
     (case opaque_id_error project ''project_id'' of
        Some e \<Rightarrow> Inl e
      | None \<Rightarrow>
          let scope = scope_for_task task_id db in
          if sp_project_id scope = [] then Inl (ProjectScopeMismatch (''Task '' @ py_repr_str task_id @ '' is legacy_unassigned''))
          else if sp_project_id scope \<noteq> project then Inl (ProjectScopeMismatch ''Task project scope mismatch'')
          else Inr scope)"

definition require_task_attempt :: "string \<Rightarrow> string \<Rightarrow> string \<Rightarrow> 'a scope_db_scheme \<Rightarrow> py_error + scope_projection" where
  "require_task_attempt project task_id run_id db =
     (case require_task project task_id db of
        Inl e \<Rightarrow> Inl e
      | Inr scope \<Rightarrow>
          if list_ex (\<lambda>a. a_project_id a = project \<and> a_task_id a = task_id \<and> a_run_id a = run_id \<and> a_status a \<noteq> AB_QUARANTINED)
               (attempts db)
          then Inr scope
          else Inl (ProjectScopeMismatch ''Task backend reference does not match its scoped run attempt''))"

definition require_run :: "string \<Rightarrow> string \<Rightarrow> 'a scope_db_scheme \<Rightarrow> py_error + scope_projection" where
  "require_run project run_id db =
     (case opaque_id_error project ''project_id'' of
        Some e \<Rightarrow> Inl e
      | None \<Rightarrow>
          let scope = scope_for_run run_id db in
          if sp_project_id scope = [] then Inl (ProjectScopeMismatch (''Run '' @ py_repr_str run_id @ '' is legacy_unassigned''))
          else if sp_project_id scope \<noteq> project then Inl (ProjectScopeMismatch ''Run project scope mismatch'')
          else Inr scope)"

section \<open>Reservations and attempts\<close>

definition reserve_task_attempt ::
  "scope_env \<Rightarrow> repository_binding \<Rightarrow> string \<Rightarrow> string \<Rightarrow> string \<Rightarrow> timestamp \<Rightarrow>
   'a scope_db_scheme \<Rightarrow> ('a scope_db_scheme, unit) outcome" where
  "reserve_task_attempt env binding task_id run_id parent now db =
     (case first_error [opaque_id_error task_id ''task_id'', opaque_id_error run_id ''run_id''] of
        Some e \<Rightarrow> (Inl e, db)
      | None \<Rightarrow>
          (case resolve_repository env (rb_project_id binding) (rb_repo_name binding) (rb_repository_root binding) db of
             Inl e \<Rightarrow> (Inl e, db)
           | Inr current \<Rightarrow>
               let scope_error =
                 (if current \<noteq> binding then Some (ProjectScopeError ''Repository binding changed before reservation'')
                  else if parent = [] then None
                  else case by_key v_task_id parent (reservations db) of
                    None \<Rightarrow> Some (ProjectScopeMismatch ''Parent task is legacy_unassigned or does not exist'')
                  | Some v \<Rightarrow> check (v_project_id v = rb_project_id binding) (ProjectScopeMismatch ''Parent task project scope mismatch''))
               in case scope_error of
                    Some e \<Rightarrow> (Inl e, db)
                  | None \<Rightarrow>
                      if by_key v_task_id task_id (reservations db) \<noteq> None
                      then (Inl (IntegrityError ''UNIQUE constraint failed: project_task_reservations.task_id''), db)
                      else
                        let db1 = db\<lparr>reservations := reservations db @ [\<lparr>v_task_id = task_id, v_project_id = rb_project_id binding,
                                    v_scope_generation = rb_scope_generation binding, v_status = TB_RESERVED,
                                    v_created_at = now, v_updated_at = now\<rparr>]\<rparr>
                        in if list_ex (\<lambda>a. a_run_id a = run_id \<or> a_task_id a = task_id) (attempts db1)
                           then (Inl (IntegrityError ''UNIQUE constraint failed: project_run_attempts''), db1)
                           else (Inr (), db1\<lparr>attempts := attempts db1 @ [\<lparr>a_run_id = run_id, a_project_id = rb_project_id binding,
                                    a_task_id = task_id, a_resource_id = rb_resource_id binding,
                                    a_scope_generation = rb_scope_generation binding, a_status = AB_RESERVED,
                                    a_recovery_reason = [], a_created_at = now, a_updated_at = now\<rparr>]\<rparr>)))"

text \<open>The joined row that \<open>require_launchable_attempt\<close> reads.\<close>

definition launch_rows ::
  "repository_binding \<Rightarrow> string \<Rightarrow> string \<Rightarrow> 'a scope_db_scheme \<Rightarrow> (attempt_row \<times> reservation_row \<times> project_row) list" where
  "launch_rows binding task_id run_id db =
     [(a, v, p). a \<leftarrow> attempts db, v \<leftarrow> reservations db, v_task_id v = a_task_id a,
        p \<leftarrow> projects db, p_project_id p = a_project_id a,
        y \<leftarrow> repository_bindings db, y_project_id y = a_project_id a \<and> y_resource_id y = a_resource_id a,
        a_task_id a = task_id \<and> a_run_id a = run_id \<and> y_identity_hash y = rb_identity_hash binding]"

definition launchable :: "repository_binding \<Rightarrow> attempt_row \<times> reservation_row \<times> project_row \<Rightarrow> bool" where
  "launchable binding = (\<lambda>(a, v, p).
     a_project_id a = rb_project_id binding \<and> a_resource_id a = rb_resource_id binding \<and>
     a_scope_generation a = rb_scope_generation binding \<and> p_scope_generation p = rb_scope_generation binding \<and>
     p_lifecycle_state p = PROJECT_ACTIVE \<and> v_status v = TB_ATTACHED \<and> a_status a = AB_RESERVED)"

definition require_launchable_attempt ::
  "repository_binding \<Rightarrow> string \<Rightarrow> string \<Rightarrow> 'a scope_db_scheme \<Rightarrow> py_error + unit" where
  "require_launchable_attempt binding task_id run_id db =
     (if \<not> is_installed db then Inl no_such_table
      else if \<not> writes_enabled db then Inl (ProjectScopeError ''ProjectScope writes were paused before launch'')
      else case launch_rows binding task_id run_id db of
        [] \<Rightarrow> Inl (ProjectScopeError ''Scoped launch reservation is missing'')
      | row # _ \<Rightarrow> if launchable binding row then Inr ()
                   else Inl (ProjectScopeError ''Scoped launch reservation is stale or not launchable''))"

definition attach_task :: "string \<Rightarrow> timestamp \<Rightarrow> 'a scope_db_scheme \<Rightarrow> ('a scope_db_scheme, unit) outcome" where
  "attach_task task_id now db =
     (if \<not> is_installed db then (Inl no_such_table, db)
      else
        let hit = (\<lambda>v. v_task_id v = task_id \<and> v_status v = TB_RESERVED \<and> task_by_id task_id db \<noteq> None);
            db1 = db\<lparr>reservations := sql_update hit (\<lambda>v. v\<lparr>v_status := TB_ATTACHED, v_updated_at := now\<rparr>) (reservations db)\<rparr>
        in if sql_count hit (reservations db) \<noteq> 1
           then (Inl (ProjectScopeError ''Task scope attachment lost its reservation''), db1)
           else (Inr (), db1))"

definition set_attempt :: "attempt_binding \<Rightarrow> string \<Rightarrow> timestamp \<Rightarrow> attempt_row \<Rightarrow> attempt_row" where
  "set_attempt status reason now a = a\<lparr>a_status := status, a_recovery_reason := reason, a_updated_at := now\<rparr>"

definition attach_attempt :: "string \<Rightarrow> timestamp \<Rightarrow> 'a scope_db_scheme \<Rightarrow> ('a scope_db_scheme, bool) outcome" where
  "attach_attempt run_id now = in_transaction (\<lambda>db.
     if \<not> is_installed db then (Inl no_such_table, db)
     else case by_key a_run_id run_id (attempts db) of
       None \<Rightarrow> (Inl (ProjectScopeError (''Run attempt is not reserved: '' @ run_id)), db)
     | Some a \<Rightarrow>
         if a_status a = AB_ATTACHED then (Inr False, db)
         else if run_by_id run_id db = None then (Inl (ProjectScopeError ''Durable run row is not present''), db)
         else
           let hit = (\<lambda>x. a_run_id x = run_id \<and> a_status x \<in> {AB_RESERVED, AB_RECOVERY_PENDING})
           in if sql_count hit (attempts db) \<noteq> 1
              then (Inl (ProjectScopeError ''Run attempt attachment lost its reservation''), db)
              else (Inr True, db\<lparr>attempts := sql_update hit (set_attempt AB_ATTACHED [] now) (attempts db)\<rparr>))"

definition mark_attempt_recovery_pending ::
  "string \<Rightarrow> string \<Rightarrow> timestamp \<Rightarrow> 'a scope_db_scheme \<Rightarrow> ('a scope_db_scheme, bool) outcome" where
  "mark_attempt_recovery_pending run_id reason now db =
     (if \<not> is_installed db then (Inl no_such_table, db)
      else
        let hit = (\<lambda>x. a_run_id x = run_id \<and> a_status x = AB_RESERVED)
        in (Inr (sql_count hit (attempts db) = 1),
            db\<lparr>attempts := sql_update hit (set_attempt AB_RECOVERY_PENDING (take 256 reason) now) (attempts db)\<rparr>))"

section \<open>Quarantine\<close>

definition quarantine_evidence :: "scope_env \<Rightarrow> record_kind \<Rightarrow> string \<Rightarrow> string \<Rightarrow> string" where
  "quarantine_evidence env kind record_id reason =
     json_digest env (JObj [(''record_kind'', JStr (record_kind_value kind)), (''record_id'', JStr record_id),
                            (''reason_code'', JStr reason)])"

definition quarantine_key :: "quarantine_row \<Rightarrow> record_kind \<times> string" where
  "quarantine_key q = (q_record_kind q, q_record_id q)"

text \<open>\<open>_quarantine\<close>, an \<open>INSERT OR IGNORE\<close>: the first evidence of a record stays.\<close>

definition quarantine_record ::
  "scope_env \<Rightarrow> record_kind \<Rightarrow> string \<Rightarrow> string \<Rightarrow> timestamp \<Rightarrow> 'a scope_db_scheme \<Rightarrow> 'a scope_db_scheme" where
  "quarantine_record env kind record_id reason now db =
     (if by_key quarantine_key (kind, record_id) (quarantine db) \<noteq> None then db
      else db\<lparr>quarantine := quarantine db @ [\<lparr>q_record_kind = kind, q_record_id = record_id, q_reason_code = reason,
                q_evidence_hash = quarantine_evidence env kind record_id reason, q_created_at = now\<rparr>]\<rparr>)"

definition quarantine_task ::
  "scope_env \<Rightarrow> string \<Rightarrow> string \<Rightarrow> timestamp \<Rightarrow> 'a scope_db_scheme \<Rightarrow> 'a scope_db_scheme" where
  "quarantine_task env task_id reason now db =
     quarantine_record env TASK_RESERVATION task_id reason now
       (db\<lparr>reservations := sql_update (\<lambda>v. v_task_id v = task_id \<and> v_status v \<noteq> TB_QUARANTINED)
              (\<lambda>v. v\<lparr>v_status := TB_QUARANTINED, v_updated_at := now\<rparr>) (reservations db),
           attempts := sql_update (\<lambda>a. a_task_id a = task_id \<and> a_status a \<noteq> AB_QUARANTINED)
              (set_attempt AB_QUARANTINED reason now) (attempts db)\<rparr>)"

definition quarantine_attempt ::
  "scope_env \<Rightarrow> string \<Rightarrow> string \<Rightarrow> timestamp \<Rightarrow> 'a scope_db_scheme \<Rightarrow> 'a scope_db_scheme" where
  "quarantine_attempt env run_id reason now db =
     quarantine_record env RUN_ATTEMPT run_id reason now
       (db\<lparr>attempts := sql_update (\<lambda>a. a_run_id a = run_id \<and> a_status a \<noteq> AB_QUARANTINED)
              (set_attempt AB_QUARANTINED reason now) (attempts db)\<rparr>)"

section \<open>Startup reconciliation\<close>

record scope_counts =
  n_task_quarantined :: nat
  n_attempt_recovery_pending :: nat
  n_attempt_attached :: nat
  n_attempt_quarantined :: nat
  n_generation_quarantined :: nat

definition no_counts :: scope_counts where
  "no_counts = \<lparr>n_task_quarantined = 0, n_attempt_recovery_pending = 0, n_attempt_attached = 0,
     n_attempt_quarantined = 0, n_generation_quarantined = 0\<rparr>"

definition counts_sum :: "scope_counts \<Rightarrow> nat" where
  "counts_sum c = n_task_quarantined c + n_attempt_recovery_pending c + n_attempt_attached c +
     n_attempt_quarantined c + n_generation_quarantined c"

text \<open>The rows of the first query: a reservation, the current generation of its project, and whether
  the canonical task is stored.\<close>

definition reservation_rows :: "'a scope_db_scheme \<Rightarrow> (reservation_row \<times> int \<times> bool) list" where
  "reservation_rows db =
     [(v, p_scope_generation p, task_by_id (v_task_id v) db \<noteq> None).
        v \<leftarrow> reservations db, p \<leftarrow> projects db, p_project_id p = v_project_id v, v_status v \<noteq> TB_QUARANTINED]"

definition reconcile_reservation ::
  "scope_env \<Rightarrow> timestamp \<Rightarrow> reservation_row \<times> int \<times> bool \<Rightarrow>
   'a scope_db_scheme \<times> scope_counts \<Rightarrow> 'a scope_db_scheme \<times> scope_counts" where
  "reconcile_reservation env now row st = (case row of (v, current, stored) \<Rightarrow> (case st of (db, c) \<Rightarrow>
     if v_scope_generation v \<noteq> current
     then (quarantine_task env (v_task_id v) ''project_generation_mismatch'' now db,
           c\<lparr>n_generation_quarantined := n_generation_quarantined c + 1\<rparr>)
     else if \<not> stored
     then (quarantine_task env (v_task_id v) ''task_row_missing'' now db, c\<lparr>n_task_quarantined := n_task_quarantined c + 1\<rparr>)
     else (db, c)))"

record attempt_view =
  w_attempt :: attempt_row
  w_task_status :: task_binding
  w_run_stored :: bool
  w_current_generation :: int
  w_backend_ref :: "string option"

definition attempt_views :: "'a scope_db_scheme \<Rightarrow> attempt_view list" where
  "attempt_views db =
     [\<lparr>w_attempt = a, w_task_status = v_status v, w_run_stored = (run_by_id (a_run_id a) db \<noteq> None),
       w_current_generation = p_scope_generation p, w_backend_ref = map_option t_backend_ref (task_by_id (a_task_id a) db)\<rparr>.
        a \<leftarrow> attempts db, v \<leftarrow> reservations db, v_task_id v = a_task_id a,
        p \<leftarrow> projects db, p_project_id p = a_project_id a, a_status a \<noteq> AB_QUARANTINED]"

definition reconcile_attempt ::
  "scope_env \<Rightarrow> timestamp \<Rightarrow> attempt_view \<Rightarrow>
   'a scope_db_scheme \<times> scope_counts \<Rightarrow> 'a scope_db_scheme \<times> scope_counts" where
  "reconcile_attempt env now w st = (case st of (db, c) \<Rightarrow>
     let a = w_attempt w; run_id = a_run_id a; status = a_status a in
     if w_task_status w = TB_QUARANTINED then (db, c)
     else if w_backend_ref w \<noteq> None \<and> w_backend_ref w \<noteq> Some run_id
     then (quarantine_task env (a_task_id a) ''backend_reference_mismatch'' now db,
           c\<lparr>n_attempt_quarantined := n_attempt_quarantined c + 1\<rparr>)
     else if a_scope_generation a \<noteq> w_current_generation w
     then (quarantine_attempt env run_id ''project_generation_mismatch'' now db,
           c\<lparr>n_generation_quarantined := n_generation_quarantined c + 1\<rparr>)
     else if status = AB_RESERVED \<or> status = AB_RECOVERY_PENDING
     then
       if \<not> w_run_stored w
       then
         if status = AB_RESERVED
         then (db\<lparr>attempts := sql_update (\<lambda>x. a_run_id x = run_id \<and> a_status x = AB_RESERVED)
                   (set_attempt AB_RECOVERY_PENDING ''run_row_missing'' now) (attempts db)\<rparr>,
               c\<lparr>n_attempt_recovery_pending := n_attempt_recovery_pending c + 1\<rparr>)
         else (db, c)
       else (db\<lparr>attempts := sql_update (\<lambda>x. a_run_id x = run_id \<and> a_status x \<in> {AB_RESERVED, AB_RECOVERY_PENDING})
                 (set_attempt AB_ATTACHED [] now) (attempts db)\<rparr>,
             c\<lparr>n_attempt_attached := n_attempt_attached c + 1\<rparr>)
     else if status = AB_ATTACHED \<and> \<not> w_run_stored w
     then (quarantine_attempt env run_id ''attached_run_row_missing'' now db,
           c\<lparr>n_attempt_quarantined := n_attempt_quarantined c + 1\<rparr>)
     else (db, c))"

record scope_report =
  rp_available :: bool
  rp_examined :: nat
  rp_changed :: nat
  rp_counts :: scope_counts

definition scope_reconcile_startup :: "scope_env \<Rightarrow> timestamp \<Rightarrow> 'a scope_db_scheme \<Rightarrow> scope_report \<times> 'a scope_db_scheme" where
  "scope_reconcile_startup env now db =
     (if \<not> is_installed db
      then (\<lparr>rp_available = False, rp_examined = 0, rp_changed = 0, rp_counts = no_counts\<rparr>, db)
      else
        let (db1, c1) = fold (reconcile_reservation env now) (reservation_rows db) (db, no_counts);
            (db2, c2) = fold (reconcile_attempt env now) (attempt_views db1) (db1, c1)
        in (\<lparr>rp_available = True, rp_examined = length (reservation_rows db) + length (attempt_views db1),
             rp_changed = counts_sum c2, rp_counts = c2\<rparr>, db2))"

section \<open>Adjudication\<close>

text \<open>The project and the state of the owner of a quarantined record, and the stored evidence.\<close>

definition quarantine_owner :: "record_kind \<Rightarrow> string \<Rightarrow> 'a scope_db_scheme \<Rightarrow> (string \<times> bool) option" where
  "quarantine_owner kind record_id db =
     (case kind of
        TASK_RESERVATION \<Rightarrow> map_option (\<lambda>v. (v_project_id v, v_status v = TB_QUARANTINED)) (by_key v_task_id record_id (reservations db))
      | RUN_ATTEMPT \<Rightarrow> map_option (\<lambda>a. (a_project_id a, a_status a = AB_QUARANTINED)) (by_key a_run_id record_id (attempts db)))"

definition quarantine_view :: "record_kind \<Rightarrow> string \<Rightarrow> 'a scope_db_scheme \<Rightarrow> (string \<times> bool \<times> string) option" where
  "quarantine_view kind record_id db =
     (case (by_key quarantine_key (kind, record_id) (quarantine db), quarantine_owner kind record_id db) of
        (Some q, Some (project, quarantined)) \<Rightarrow> Some (project, quarantined, q_evidence_hash q)
      | _ \<Rightarrow> None)"

definition join_nul :: "string list \<Rightarrow> string" where
  "join_nul = join_with [NUL]"

definition adjudication_id :: "scope_env \<Rightarrow> string \<Rightarrow> record_kind \<Rightarrow> string \<Rightarrow> string \<Rightarrow> string" where
  "adjudication_id env project kind record_id key = sha256 env (join_nul
     [''soma.project_scope.quarantine_adjudication.v1'', project, record_kind_value kind, record_id, key])"

definition adjudication_request :: "string \<Rightarrow> record_kind \<Rightarrow> string \<Rightarrow> disposition \<Rightarrow> string \<Rightarrow> string \<Rightarrow> string" where
  "adjudication_request project kind record_id disp reason successor = join_nul
     [''soma.project_scope.quarantine_adjudication_request.v1'', project, record_kind_value kind, record_id,
      disposition_value disp, successor, reason]"

definition adjudication_request_hash ::
  "scope_env \<Rightarrow> string \<Rightarrow> record_kind \<Rightarrow> string \<Rightarrow> disposition \<Rightarrow> string \<Rightarrow> string \<Rightarrow> string" where
  "adjudication_request_hash env project kind record_id disp reason successor =
     sha256 env (adjudication_request project kind record_id disp reason successor)"

record adjudication_request_args =
  ar_project_id :: string
  ar_record_kind :: string
  ar_record_id :: string
  ar_disposition :: string
  ar_reason :: string
  ar_idempotency_key :: string
  ar_successor_task_id :: string

definition trimmed_reason :: "adjudication_request_args \<Rightarrow> string" where
  "trimmed_reason q = take 512 (py_strip (ar_reason q))"

definition adjudication_request_error :: "adjudication_request_args \<Rightarrow> 'a scope_db_scheme \<Rightarrow> py_error option" where
  "adjudication_request_error q db = first_error
     [opaque_id_error (ar_project_id q) ''project_id'', opaque_id_error (ar_record_id q) ''record_id'',
      opaque_id_error (ar_idempotency_key q) ''idempotency_key'',
      check (parse_record_kind (ar_record_kind q) \<noteq> None) (ProjectScopeError ''record_kind must be task_reservation or run_attempt''),
      check (parse_disposition (ar_disposition q) \<noteq> None) (ProjectScopeError ''disposition must be acknowledged or superseded''),
      check (trimmed_reason q \<noteq> []) (ProjectScopeError ''reason is required to adjudicate a quarantine''),
      if parse_disposition (ar_disposition q) = Some SUPERSEDED
      then first_error [opaque_id_error (ar_successor_task_id q) ''successor_task_id'',
             check (ar_successor_task_id q \<noteq> ar_record_id q) (ProjectScopeError ''successor_task_id must differ from record_id'')]
      else check (ar_successor_task_id q = []) (ProjectScopeError ''successor_task_id is only valid with disposition superseded''),
      adjudication_schema_error db]"

definition successor_ok :: "string \<Rightarrow> string \<Rightarrow> 'a scope_db_scheme \<Rightarrow> bool" where
  "successor_ok project successor db =
     (case by_key v_task_id successor (reservations db) of
        None \<Rightarrow> False | Some v \<Rightarrow> v_project_id v = project \<and> v_status v \<noteq> TB_QUARANTINED)"

definition adjudication_key :: "adjudication_row \<Rightarrow> record_kind \<times> string" where
  "adjudication_key j = (j_record_kind j, j_record_id j)"

definition divergent_fields :: "adjudication_row \<Rightarrow> disposition \<Rightarrow> string \<Rightarrow> string \<Rightarrow> string" where
  "divergent_fields j disp successor reason = join_with '', '' (map fst (filter snd
     [(''disposition'', j_disposition j \<noteq> disp), (''successor_task_id'', j_successor_task_id j \<noteq> successor),
      (''reason'', j_reason j \<noteq> reason)]))"

text \<open>The unique indexes and CHECK clauses of \<open>project_scope_adjudications\<close>.\<close>

definition adjudication_insert_ok :: "adjudication_row \<Rightarrow> 'a scope_db_scheme \<Rightarrow> bool" where
  "adjudication_insert_ok j db =
     (\<not> list_ex (\<lambda>x. j_adjudication_id x = j_adjudication_id j \<or> adjudication_key x = adjudication_key j) (adjudications db) \<and>
      length (j_request_hash j) = 64 \<and>
      (if j_disposition j = SUPERSEDED then j_successor_task_id j \<noteq> [] else j_successor_task_id j = []) \<and>
      j_successor_task_id j \<noteq> j_record_id j \<and>
      by_key p_project_id (j_project_id j) (projects db) \<noteq> None \<and>
      by_key quarantine_key (adjudication_key j) (quarantine db) \<noteq> None)"

definition adjudicate_in_transaction ::
  "scope_env \<Rightarrow> adjudication_request_args \<Rightarrow> record_kind \<Rightarrow> disposition \<Rightarrow> timestamp \<Rightarrow>
   'a scope_db_scheme \<Rightarrow> ('a scope_db_scheme, adjudication_row \<times> bool) outcome" where
  "adjudicate_in_transaction env q kind disp now db =
     (let project = ar_project_id q; record_id = ar_record_id q; successor = ar_successor_task_id q; reason = trimmed_reason q;
          owner_error = ProjectScopeMismatch ''No adjudicable quarantined record matches this project scope'' in
      case quarantine_view kind record_id db of
        None \<Rightarrow> (Inl owner_error, db)
      | Some (owner, quarantined, evidence) \<Rightarrow>
          if owner \<noteq> project \<or> \<not> quarantined then (Inl owner_error, db)
          else if disp = SUPERSEDED \<and> \<not> successor_ok project successor db
          then (Inl (ProjectScopeMismatch ''Successor task is not an active reservation in this project''), db)
          else
            let aid = adjudication_id env project kind record_id (ar_idempotency_key q);
                hash = adjudication_request_hash env project kind record_id disp reason successor in
            case by_key adjudication_key (kind, record_id) (adjudications db) of
              Some existing \<Rightarrow>
                if j_adjudication_id existing \<noteq> aid
                then (Inl (ProjectScopeError
                   ''Record is already adjudicated under a different idempotency key; adjudication is single-shot''), db)
                else if j_request_hash existing \<noteq> hash
                then (Inl (ProjectScopeError (''Idempotency key was already used for a different decision (differing fields: '' @
                        divergent_fields existing disp successor reason @ ''); adjudication is single-shot'')), db)
                else (Inr (existing, True), db)
            | None \<Rightarrow>
                let row = \<lparr>j_adjudication_id = aid, j_project_id = project, j_record_kind = kind, j_record_id = record_id,
                           j_disposition = disp, j_successor_task_id = successor, j_reason = reason,
                           j_idempotency_key = ar_idempotency_key q, j_request_hash = hash, j_evidence_hash = evidence,
                           j_created_at = now\<rparr>;
                    db1 = db\<lparr>adjudications := adjudications db @ [row]\<rparr>
                in if \<not> adjudication_insert_ok row db
                   then (Inl (IntegrityError ''project_scope_adjudications''), db)
                   else if (case quarantine_view kind record_id db1 of
                              None \<Rightarrow> True | Some (_, quarantined', evidence') \<Rightarrow> \<not> quarantined' \<or> evidence' \<noteq> evidence)
                   then (Inl (ProjectScopeError ''Adjudication would have altered the preserved quarantine record''), db1)
                   else (case by_key j_adjudication_id aid (adjudications db1) of
                           None \<Rightarrow> (Inl (TypeError ''row is None''), db1)
                         | Some written \<Rightarrow> (Inr (written, False), db1)))"

definition adjudicate_quarantine ::
  "scope_env \<Rightarrow> adjudication_request_args \<Rightarrow> timestamp \<Rightarrow> 'a scope_db_scheme \<Rightarrow>
   ('a scope_db_scheme, adjudication_row \<times> bool) outcome" where
  "adjudicate_quarantine env q now db =
     (case adjudication_request_error q db of
        Some e \<Rightarrow> (Inl e, db)
      | None \<Rightarrow>
          (case (parse_record_kind (ar_record_kind q), parse_disposition (ar_disposition q)) of
             (Some kind, Some disp) \<Rightarrow> in_transaction (adjudicate_in_transaction env q kind disp now) db
           | _ \<Rightarrow> (Inl (ProjectScopeError ''record_kind must be task_reservation or run_attempt''), db)))"

text \<open>The listing for the owner: per kind the newest rows up to the limit, then merged and cut again.\<close>

record quarantine_item =
  qi_quarantine :: quarantine_row
  qi_adjudication :: "adjudication_row option"

definition quarantine_items :: "record_kind \<Rightarrow> string \<Rightarrow> nat \<Rightarrow> 'a scope_db_scheme \<Rightarrow> quarantine_item list" where
  "quarantine_items kind project bound db =
     take bound (rev (sort_key (\<lambda>i. q_created_at (qi_quarantine i)) (rev
       (map (\<lambda>q. \<lparr>qi_quarantine = q, qi_adjudication = by_key adjudication_key (quarantine_key q) (adjudications db)\<rparr>)
         (filter (\<lambda>q. q_record_kind q = kind \<and> map_option fst (quarantine_owner kind (q_record_id q) db) = Some project)
           (quarantine db))))))"

definition list_quarantine :: "string \<Rightarrow> int \<Rightarrow> 'a scope_db_scheme \<Rightarrow> py_error + quarantine_item list" where
  "list_quarantine project limit db =
     (case first_error [opaque_id_error project ''project_id'', adjudication_schema_error db] of
        Some e \<Rightarrow> Inl e
      | None \<Rightarrow>
          let bound = nat (max 1 (min limit 200));
              rows = quarantine_items TASK_RESERVATION project bound db @ quarantine_items RUN_ATTEMPT project bound db
          in Inr (take bound (rev (sort_key (\<lambda>i. q_created_at (qi_quarantine i))
                   (sort_key (\<lambda>i. q_record_id (qi_quarantine i)) (rev rows))))))"

end
