(* ===== verification/Task_Manager.thy ===== *)
theory Task_Manager
  imports Project_Scope
begin

text \<open>
  The task manager, \<open>src/soma/tasks/manager.py\<close>, and the part of \<open>src/soma/tasks/backends.py\<close> it
  reads: the projection of a durable run onto its canonical task, start-up reconciliation, version
  guarded cancellation, the idempotent start of a durable command, and the terminal resolution of a
  task whose run never existed.

  A handler that reads the store, decides, and writes later is split at that point
  (\<open>reconcile_view\<close> and \<open>reconcile_write\<close>), so that the write can be run on a database that other
  calls have changed in the meantime. Identifiers drawn from \<open>uuid4\<close> and the clock are arguments. The
  launch and the cancellation of the process are the arguments \<open>start\<close> and \<open>cancel\<close> of the handlers that
  call them: functions of the database. \<open>redact\<close> is the redaction of secrets in a text.
\<close>

section \<open>The backend\<close>

record observation =
  ob_exists :: bool
  ob_status :: string
  ob_executor :: string
  ob_repo_name :: string
  ob_state_version :: int
  ob_exit_code :: "int option"
  ob_started_at :: "timestamp option"
  ob_ended_at :: "timestamp option"
  ob_publication_status :: string
  ob_published_hash :: string
  ob_published_at :: "timestamp option"
  ob_error_code :: string

definition DURABLE_RUN_EXECUTOR :: string where
  "DURABLE_RUN_EXECUTOR = ''executable_profile''"

definition absent_observation :: "string \<Rightarrow> observation" where
  "absent_observation code = \<lparr>ob_exists = False, ob_status = [], ob_executor = [], ob_repo_name = [], ob_state_version = 0,
     ob_exit_code = None, ob_started_at = None, ob_ended_at = None, ob_publication_status = [], ob_published_hash = [],
     ob_published_at = None, ob_error_code = code\<rparr>"

definition run_observation :: "run_row \<Rightarrow> observation" where
  "run_observation r = \<lparr>ob_exists = True, ob_status = r_status r, ob_executor = r_tool r, ob_repo_name = r_repo_name r,
     ob_state_version = r_state_version r, ob_exit_code = r_exit_code r, ob_started_at = r_started_at r,
     ob_ended_at = r_ended_at r, ob_publication_status = r_result_publication_status r,
     ob_published_hash = r_result_published_hash r, ob_published_at = r_result_published_at r, ob_error_code = []\<rparr>"

definition query :: "string \<Rightarrow> 'a run_db_scheme \<Rightarrow> observation" where
  "query backend_ref db =
     (if backend_ref = [] then absent_observation ''missing_backend_ref''
      else if \<not> valid_run_id backend_ref then absent_observation ''invalid_backend_reference''
      else case run_by_id backend_ref db of
        None \<Rightarrow> absent_observation ''backend_run_not_found''
      | Some r \<Rightarrow> run_observation r)"

record result_source =
  rs_available :: bool
  rs_run_id :: string
  rs_backend_status :: string
  rs_exit_code :: "int option"
  rs_schema_version :: string
  rs_status :: string
  rs_source_sha256 :: string

definition result_reference :: "string \<Rightarrow> 'a run_db_scheme \<Rightarrow> result_source" where
  "result_reference backend_ref db =
     (case (if valid_run_id backend_ref then run_by_id backend_ref db else None) of
        None \<Rightarrow> \<lparr>rs_available = False, rs_run_id = backend_ref, rs_backend_status = [], rs_exit_code = None,
                 rs_schema_version = [], rs_status = [], rs_source_sha256 = []\<rparr>
      | Some r \<Rightarrow> \<lparr>rs_available = True, rs_run_id = str_or (r_run_id r) backend_ref, rs_backend_status = r_status r,
                   rs_exit_code = r_exit_code r, rs_schema_version = r_public_result_schema_version r,
                   rs_status = r_public_result_status r, rs_source_sha256 = r_public_result_source_sha256 r\<rparr>)"

section \<open>Projection of a run onto its task\<close>

definition backend_identity_matches :: "task_row \<Rightarrow> observation \<Rightarrow> bool" where
  "backend_identity_matches t ob =
     (if t_backend_executor t \<noteq> [] \<and> ob_executor ob \<noteq> t_backend_executor t then False
      else
        let recorded = py_str_or_empty (jget ''repo_name'' (t_backend_identity t)) in
        if recorded = [] \<or> ob_repo_name ob = [] then True else lower recorded = lower (ob_repo_name ob))"

record target =
  tg_fields :: "task_field list"
  tg_level :: event_level
  tg_message :: string
  tg_data :: "(string \<times> json) list"

text \<open>What the branches of \<open>_derive_target\<close> decide: state, phase, recovery, further fields, level,
  message and further event data.\<close>

record verdict =
  vd_state :: task_state
  vd_phase :: task_phase
  vd_recovery :: recovery_state
  vd_reason :: string
  vd_fields :: "task_field list"
  vd_level :: event_level
  vd_message :: string
  vd_data :: "(string \<times> json) list"

definition plain_verdict :: "task_state \<Rightarrow> recovery_state \<Rightarrow> string \<Rightarrow> verdict" where
  "plain_verdict state rec reason = \<lparr>vd_state = state, vd_phase = RECOVERY, vd_recovery = rec, vd_reason = reason,
     vd_fields = [], vd_level = LEVEL_INFO, vd_message = ''Canonical task projection reconciled with its backend'', vd_data = []\<rparr>"

definition publishes :: "task_state \<Rightarrow> bool" where
  "publishes s = (terminal_task s \<or> s = AWAITING_CONTROLLER)"

definition nonempty :: "string option \<Rightarrow> bool" where
  "nonempty x = (case x of None \<Rightarrow> False | Some s \<Rightarrow> s \<noteq> [])"

text \<open>The branch for a run that exists and is the task's own.\<close>

definition run_verdict :: "task_row \<Rightarrow> observation \<Rightarrow> verdict" where
  "run_verdict t ob =
     (case map_backend_status (ob_status ob) of (state, phase) \<Rightarrow>
      let base =
        (if state = UNCERTAIN
         then (plain_verdict state REC_UNRESOLVED ''unknown_backend_status'')
                \<lparr>vd_level := LEVEL_ERROR, vd_message := ''Backend reported an unmapped status''\<rparr>
         else if state = RECOVERY_PENDING
         then (plain_verdict state REC_PENDING ''backend_recovery_pending'')
                \<lparr>vd_level := LEVEL_WARNING, vd_message := ''Backend is in conservative recovery''\<rparr>
         else plain_verdict state REC_NONE [])
      in base\<lparr>vd_phase := (if terminal_task state then RESULT_PUBLISHED else phase),
              vd_fields :=
                (if nonempty (ob_started_at ob) \<and> \<not> nonempty (t_started_at t) then [T_started_at (ob_started_at ob)] else []) @
                (if publishes state
                 then (if nonempty (ob_ended_at ob) then [T_ended_at (ob_ended_at ob)] else []) @
                      [T_result_ref (t_backend_ref t), T_result_hash (ob_published_hash ob),
                       T_evidence_ref (run_terminal_reference (t_backend_ref t))]
                 else [])\<rparr>)"

definition derive_verdict :: "task_row \<Rightarrow> observation \<Rightarrow> verdict" where
  "derive_verdict t ob =
     (if t_backend_kind t \<noteq> SOMA_DURABLE_RUN then plain_verdict UNCERTAIN REC_UNRESOLVED ''unsupported_backend_kind''
      else if t_backend_ref t = [] then plain_verdict RECOVERY_PENDING REC_PENDING ''backend_reference_missing''
      else if \<not> ob_exists ob
      then (if t_state t \<in> {ACCEPTED, QUEUED} then plain_verdict RECOVERY_PENDING REC_PENDING ''backend_launch_incomplete''
            else plain_verdict UNCERTAIN REC_UNRESOLVED ''backend_run_record_missing'')
           \<lparr>vd_level := LEVEL_WARNING, vd_message := ''Backend run record is not present for this canonical task''\<rparr>
      else if \<not> backend_identity_matches t ob
      then (plain_verdict UNCERTAIN REC_UNRESOLVED ''backend_identity_mismatch'')
           \<lparr>vd_level := LEVEL_ERROR, vd_message := ''Backend identity does not match the recorded task mapping'',
            vd_data := [(''observed_executor'', JStr (ob_executor ob)), (''observed_repo_name'', JStr (ob_repo_name ob))]\<rparr>
      else run_verdict t ob)"

fun task_field_name :: "task_field \<Rightarrow> string" where
  "task_field_name (T_state _) = ''state''"
| "task_field_name (T_phase _) = ''phase''"
| "task_field_name (T_backend_ref _) = ''backend_ref''"
| "task_field_name (T_backend_executor _) = ''backend_executor''"
| "task_field_name (T_backend_identity _) = ''backend_identity_json''"
| "task_field_name (T_objective_ref _) = ''objective_ref''"
| "task_field_name (T_constraints_ref _) = ''constraints_ref''"
| "task_field_name (T_workspace_kind _) = ''workspace_kind''"
| "task_field_name (T_workspace_ref _) = ''workspace_ref''"
| "task_field_name (T_checkpoint_ref _) = ''checkpoint_ref''"
| "task_field_name (T_result_ref _) = ''result_ref''"
| "task_field_name (T_result_hash _) = ''result_hash''"
| "task_field_name (T_evidence_ref _) = ''evidence_ref''"
| "task_field_name (T_recovery_state _) = ''recovery_state''"
| "task_field_name (T_recovery_reason _) = ''recovery_reason''"
| "task_field_name (T_reconciled_at _) = ''reconciled_at''"
| "task_field_name (T_started_at _) = ''started_at''"
| "task_field_name (T_ended_at _) = ''ended_at''"
| "task_field_name (T_unsupported n) = n"

definition verdict_fields :: "verdict \<Rightarrow> task_field list" where
  "verdict_fields v = vd_fields v @ [T_state (vd_state v), T_phase (vd_phase v), T_recovery_state (vd_recovery v),
     T_recovery_reason (vd_reason v)]"

text \<open>A field is material when its value differs from the stored one.\<close>

definition material :: "task_row \<Rightarrow> task_field \<Rightarrow> bool" where
  "material t f = (apply_task_field f t \<noteq> t)"

definition derive_target :: "task_row \<Rightarrow> observation \<Rightarrow> timestamp \<Rightarrow> target option" where
  "derive_target t ob now =
     (let v = derive_verdict t ob; changed = filter (material t) (verdict_fields v) in
      if changed = [] then None
      else Some \<lparr>tg_fields = verdict_fields v @ [T_reconciled_at (Some now)], tg_level = vd_level v, tg_message = vd_message v,
             tg_data = [(''backend_reference'', JStr (t_backend_ref t)), (''backend_status'', JStr (ob_status ob))] @ vd_data v @
                       [(''changed_fields'', JArr (map JStr (sort (map task_field_name changed))))]\<rparr>)"

section \<open>Reconciliation\<close>

text \<open>The scope check of \<open>reconcile_task\<close> and \<open>_load_task_scope\<close>: a scoped task must own its run.\<close>

definition attempt_error :: "scope_projection \<Rightarrow> task_row \<Rightarrow> 'a scope_db_scheme \<Rightarrow> py_error option" where
  "attempt_error scope t db =
     (if sp_project_id scope = [] then None
      else case require_task_attempt (sp_project_id scope) (t_task_id t) (t_backend_ref t) db of
        Inl e \<Rightarrow> Some e | Inr _ \<Rightarrow> None)"

definition reconcile_view :: "string \<Rightarrow> timestamp \<Rightarrow> 'a scope_db_scheme \<Rightarrow> py_error + (task_row \<times> target option)" where
  "reconcile_view task_id now db =
     (case get_task task_id db of
        Inl e \<Rightarrow> Inl e
      | Inr t \<Rightarrow>
          (case attempt_error (scope_for_task (t_task_id t) db) t db of
             Some e \<Rightarrow> Inl e
           | None \<Rightarrow> Inr (t, derive_target t (query (t_backend_ref t) db) now)))"

definition reconcile_write ::
  "task_row \<Rightarrow> target option \<Rightarrow> string \<Rightarrow> timestamp \<Rightarrow> 'a task_db_scheme \<Rightarrow> ('a task_db_scheme, task_row) outcome" where
  "reconcile_write t target stage now db =
     (case target of
        None \<Rightarrow> (Inr t, db)
      | Some tg \<Rightarrow>
          (case task_conditional_update (t_task_id t) (tg_fields tg) (t_state_version t) (Some [t_state t]) True now db of
             (Inl e, db1) \<Rightarrow> (Inl e, db1)
           | (Inr None, db1) \<Rightarrow> (get_task (t_task_id t) db1, db1)
           | (Inr (Some u), db1) \<Rightarrow>
               (case append_task_event (t_task_id u) (tg_level tg) stage (tg_message tg) (task_state_value (t_state u))
                       (t_state_version u) (tg_data tg) now db1 of
                  (Inl e, db2) \<Rightarrow> (Inl e, db2)
                | (Inr _, db2) \<Rightarrow> (Inr u, db2))))"

definition reconcile_task :: "string \<Rightarrow> string \<Rightarrow> timestamp \<Rightarrow> 'a scope_db_scheme \<Rightarrow> ('a scope_db_scheme, task_row) outcome" where
  "reconcile_task task_id stage now db =
     (case reconcile_view task_id now db of
        Inl e \<Rightarrow> (Inl e, db)
      | Inr (t, target) \<Rightarrow> reconcile_write t target stage now db)"

text \<open>Start-up: every non-terminal task in the order of the listing; a failure is recorded as an event
  and the loop goes on.\<close>

record startup_report =
  su_examined :: nat
  su_changed :: nat
  su_failures :: "(string \<times> string) list"

definition error_detail :: "(string \<Rightarrow> string) \<Rightarrow> py_error \<Rightarrow> string" where
  "error_detail redact e = (case error_parts e of (cls, text) \<Rightarrow> cls @ '': '' @ redact text)"

definition startup_one ::
  "(string \<Rightarrow> string) \<Rightarrow> timestamp \<Rightarrow> task_row \<Rightarrow> startup_report \<times> 'a scope_db_scheme \<Rightarrow> startup_report \<times> 'a scope_db_scheme" where
  "startup_one redact now t st = (case st of (rep, db) \<Rightarrow>
     let rep1 = rep\<lparr>su_examined := su_examined rep + 1\<rparr> in
     case reconcile_task (t_task_id t) ''startup_recovery'' now db of
       (Inl e, db1) \<Rightarrow>
         let detail = error_detail redact e;
             ev = append_task_event (t_task_id t) LEVEL_ERROR ''startup_recovery'' ''Startup reconciliation failed for this task''
                    (task_state_value (t_state t)) (t_state_version t) [(''error'', JStr detail)] now db1
         in (rep1\<lparr>su_failures := su_failures rep1 @ [(t_task_id t, detail)]\<rparr>, case ev of (Inl _, _) \<Rightarrow> db1 | (Inr _, db2) \<Rightarrow> db2)
     | (Inr u, db1) \<Rightarrow>
         (if t_state_version u \<noteq> t_state_version t then rep1\<lparr>su_changed := su_changed rep1 + 1\<rparr> else rep1, db1))"

definition reconcile_startup ::
  "(string \<Rightarrow> string) \<Rightarrow> int \<Rightarrow> timestamp \<Rightarrow> 'a scope_db_scheme \<Rightarrow> startup_report \<times> 'a scope_db_scheme" where
  "reconcile_startup redact limit now db =
     fold (startup_one redact now) (list_active_tasks limit db) (\<lparr>su_examined = 0, su_changed = 0, su_failures = []\<rparr>, db)"

section \<open>Reading a task in its scope\<close>

definition load_task_scope :: "string \<Rightarrow> string \<Rightarrow> 'a scope_db_scheme \<Rightarrow> py_error + (task_row \<times> scope_projection)" where
  "load_task_scope task_id project db =
     (case get_task task_id db of
        Inl e \<Rightarrow> Inl e
      | Inr t \<Rightarrow>
          (case (if project \<noteq> [] then require_task project (t_task_id t) db else Inr (scope_for_task (t_task_id t) db)) of
             Inl e \<Rightarrow> Inl e
           | Inr scope \<Rightarrow> (case attempt_error scope t db of Some e \<Rightarrow> Inl e | None \<Rightarrow> Inr (t, scope))))"

definition get_status ::
  "string \<Rightarrow> string \<Rightarrow> bool \<Rightarrow> timestamp \<Rightarrow> 'a scope_db_scheme \<Rightarrow> ('a scope_db_scheme, task_row \<times> observation) outcome" where
  "get_status task_id project reconcile now db =
     (case load_task_scope task_id project db of
        Inl e \<Rightarrow> (Inl e, db)
      | Inr (t, _) \<Rightarrow>
          (case (if reconcile \<and> \<not> terminal_task (t_state t) then reconcile_task (t_task_id t) ''reconcile'' now db else (Inr t, db)) of
             (Inl e, db1) \<Rightarrow> (Inl e, db1)
           | (Inr u, db1) \<Rightarrow> (Inr (u, query (t_backend_ref u) db1), db1)))"

definition get_result ::
  "string \<Rightarrow> string \<Rightarrow> timestamp \<Rightarrow> 'a scope_db_scheme \<Rightarrow>
   ('a scope_db_scheme, task_row \<times> observation \<times> result_source option) outcome" where
  "get_result task_id project now db =
     (case load_task_scope task_id project db of
        Inl e \<Rightarrow> (Inl e, db)
      | Inr (t, _) \<Rightarrow>
          (case (if \<not> terminal_task (t_state t) then reconcile_task (t_task_id t) ''reconcile'' now db else (Inr t, db)) of
             (Inl e, db1) \<Rightarrow> (Inl e, db1)
           | (Inr u, db1) \<Rightarrow>
               (Inr (u, query (t_backend_ref u) db1,
                     if t_backend_ref u = [] then None else Some (result_reference (t_backend_ref u) db1)), db1)))"

section \<open>Cancellation\<close>

record cancel_result =
  cr_ok :: bool
  cr_status :: string
  cr_cancelled :: bool
  cr_termination_confirmed :: bool
  cr_reason :: string

record cancel_reply =
  cy_task :: task_row
  cy_command_id :: string
  cy_backend :: "cancel_result option"
  cy_already_terminal :: bool
  cy_ok :: bool
  cy_error_code :: string

definition cancel_reply_of :: "task_row \<Rightarrow> string \<Rightarrow> cancel_result option \<Rightarrow> bool \<Rightarrow> string \<Rightarrow> cancel_reply" where
  "cancel_reply_of t cid backend terminal code =
     \<lparr>cy_task = t, cy_command_id = cid, cy_backend = backend, cy_already_terminal = terminal, cy_ok = (code = []), cy_error_code = code\<rparr>"

text \<open>The reply claims a cancellation only when the projected state says so.\<close>

definition cancellation_claimed :: "cancel_reply \<Rightarrow> bool" where
  "cancellation_claimed y = (t_state (cy_task y) = CANCELLED)"

datatype cancel_answer = Stale_version int int | Cancel_answer cancel_reply

text \<open>Reconcile, then complete the command with a given status.\<close>

definition settle_command ::
  "task_row \<Rightarrow> string \<Rightarrow> command_status \<Rightarrow> string \<Rightarrow> cancel_result option \<Rightarrow> string \<Rightarrow> timestamp \<Rightarrow>
   'a scope_db_scheme \<Rightarrow> ('a scope_db_scheme, cancel_answer) outcome" where
  "settle_command t cid status reason backend code now db =
     (case reconcile_task (t_task_id t) ''cancel'' now db of
        (Inl e, db1) \<Rightarrow> (Inl e, db1)
      | (Inr u, db1) \<Rightarrow> (Inr (Cancel_answer (cancel_reply_of u cid backend False code)), complete_command cid status reason now db1))"

definition cancel_accepted ::
  "(string \<Rightarrow> 'a scope_db_scheme \<Rightarrow> cancel_result \<times> 'a scope_db_scheme) \<Rightarrow> task_row \<Rightarrow> string \<Rightarrow> timestamp \<Rightarrow>
   'a scope_db_scheme \<Rightarrow> ('a scope_db_scheme, cancel_answer) outcome" where
  "cancel_accepted cancel t cid now db =
     (if terminal_task (t_state t)
      then (Inr (Cancel_answer (cancel_reply_of t cid None True [])), complete_command cid CMD_COMPLETED ''task already terminal'' now db)
      else if t_backend_ref t = []
      then settle_command t cid CMD_FAILED ''task has no backend reference to cancel'' None ''backend_reference_missing'' now db
      else if \<not> ob_exists (query (t_backend_ref t) db)
      then settle_command t cid CMD_FAILED ''backend run record is not present'' None ''backend_run_not_found'' now db
      else
        (case cancel (t_backend_ref t) db of (res, db1) \<Rightarrow>
           (case append_task_event (t_task_id t) LEVEL_WARNING ''cancel'' ''Cancellation delegated to the durable backend authority''
                   (task_state_value (t_state t)) (t_state_version t)
                   [(''backend_reference'', JStr (t_backend_ref t)), (''backend_ok'', JBool (cr_ok res)),
                    (''backend_status'', JStr (cr_status res))] now db1 of
              (Inl e, db2) \<Rightarrow> (Inl e, db2)
            | (Inr _, db2) \<Rightarrow> settle_command t cid CMD_COMPLETED (cr_reason res) (Some res) [] now db2)))"

definition cancel_task ::
  "(string \<Rightarrow> string) \<Rightarrow> (string \<Rightarrow> 'a scope_db_scheme \<Rightarrow> cancel_result \<times> 'a scope_db_scheme) \<Rightarrow>
   string \<Rightarrow> int \<Rightarrow> string \<Rightarrow> string \<Rightarrow> string \<Rightarrow> string \<Rightarrow> timestamp \<Rightarrow>
   'a scope_db_scheme \<Rightarrow> ('a scope_db_scheme, cancel_answer) outcome" where
  "cancel_task redact cancel task_id version reason request_id project cid now db =
     (case load_task_scope task_id project db of
        Inl e \<Rightarrow> (Inl e, db)
      | Inr (t, _) \<Rightarrow>
          if version \<noteq> t_state_version t
          then (case record_command cid (t_task_id t) CANCEL_COMMAND version (t_state_version t) REJECTED_STALE_VERSION request_id
                       ''state version guard did not match'' now db of
                  (Inl e, db1) \<Rightarrow> (Inl e, db1)
                | (Inr _, db1) \<Rightarrow> (Inr (Stale_version version (t_state_version t)), db1))
          else (case record_command cid (t_task_id t) CANCEL_COMMAND version (t_state_version t) CMD_ACCEPTED request_id
                       (take 512 (redact reason)) now db of
                  (Inl e, db1) \<Rightarrow> (Inl e, db1)
                | (Inr _, db1) \<Rightarrow> cancel_accepted cancel t cid now db1))"

section \<open>Starting a durable command\<close>

text \<open>
  A start request after normalisation. \<open>sr_legacy_hash\<close> and \<open>sr_scoped_hash\<close> are the hashes of the
  normalised request without and with a binding; \<open>sr_identity\<close> is the configured repository
  (canonical name and root), and \<open>sr_within\<close> tells whether the working directory is empty or inside it.
\<close>

record start_request =
  sr_controller_request_id :: string
  sr_project_id :: string
  sr_parent_task_id :: string
  sr_profile_id :: string
  sr_repo_name :: string
  sr_legacy_hash :: string
  sr_scoped_hash :: "repository_binding \<Rightarrow> string"
  sr_identity :: "py_error + (string \<times> string)"
  sr_within :: bool

datatype start_answer =
    Start_refused string
  | Start_scope_conflict
  | Start_hash_conflict string string
  | Start_replay task_row
  | Start_created task_row bool string

definition resolve_binding ::
  "scope_env \<Rightarrow> start_request \<Rightarrow> string \<Rightarrow> 'a scope_db_scheme \<Rightarrow> py_error + (repository_binding \<times> string)" where
  "resolve_binding env q project db =
     (case sr_identity q of
        Inl e \<Rightarrow> Inl e
      | Inr (name, root) \<Rightarrow>
          if \<not> sr_within q then Inl (ProjectScopeError ''working_directory is outside the bound repository root'')
          else (case resolve_repository env project name root db of Inl e \<Rightarrow> Inl e | Inr b \<Rightarrow> Inr (b, name)))"

definition is_scope_error :: "py_error \<Rightarrow> bool" where
  "is_scope_error e = (case e of ProjectScopeError _ \<Rightarrow> True | ProjectScopeMismatch _ \<Rightarrow> True | _ \<Rightarrow> False)"

definition is_value_error :: "py_error \<Rightarrow> bool" where
  "is_value_error e = (is_scope_error e \<or> (case e of ValueError _ \<Rightarrow> True | TaskRequestConflict _ \<Rightarrow> True | _ \<Rightarrow> False))"

text \<open>\<open>_replay_response\<close>\<close>

definition replay_response :: "task_row \<Rightarrow> timestamp \<Rightarrow> 'a scope_db_scheme \<Rightarrow> ('a scope_db_scheme, start_answer) outcome" where
  "replay_response t now db =
     (if terminal_task (t_state t) then (Inr (Start_replay t), db)
      else case reconcile_task (t_task_id t) ''idempotent_replay'' now db of
        (Inl e, db1) \<Rightarrow> (Inl e, db1)
      | (Inr u, db1) \<Rightarrow> (Inr (Start_replay u), db1))"

definition answer_existing :: "task_row \<Rightarrow> string \<Rightarrow> timestamp \<Rightarrow> 'a scope_db_scheme \<Rightarrow> ('a scope_db_scheme, start_answer) outcome" where
  "answer_existing t hash now db =
     (if t_request_hash t \<noteq> hash then (Inr (Start_hash_conflict (t_task_id t) hash), db) else replay_response t now db)"

text \<open>The request is already bound to a task.\<close>

definition start_existing ::
  "scope_env \<Rightarrow> start_request \<Rightarrow> task_row \<Rightarrow> timestamp \<Rightarrow> 'a scope_db_scheme \<Rightarrow> ('a scope_db_scheme, start_answer) outcome" where
  "start_existing env q t now db =
     (let scope = scope_for_task (t_task_id t) db in
      if sp_project_id scope \<noteq> []
      then
        if sr_project_id q \<noteq> [] \<and> sr_project_id q \<noteq> sp_project_id scope then (Inr Start_scope_conflict, db)
        else (case require_task_attempt (sp_project_id scope) (t_task_id t) (t_backend_ref t) db of
                Inl e \<Rightarrow> if is_value_error e then (Inr Start_scope_conflict, db) else (Inl e, db)
              | Inr _ \<Rightarrow>
                  (case resolve_binding env q (str_or (sr_project_id q) (sp_project_id scope)) db of
                     Inl e \<Rightarrow> if is_value_error e then (Inr Start_scope_conflict, db) else (Inl e, db)
                   | Inr (b, _) \<Rightarrow> answer_existing t (sr_scoped_hash q b) now db))
      else if sr_project_id q \<noteq> [] then (Inr Start_scope_conflict, db)
      else answer_existing t (sr_legacy_hash q) now db)"

definition start_task_request :: "start_request \<Rightarrow> string \<Rightarrow> string \<Rightarrow> string \<Rightarrow> string \<Rightarrow> task_request" where
  "start_task_request q hash repo task_id run_id =
     \<lparr>rq_task_id = task_id, rq_task_kind = DURABLE_COMMAND, rq_controller_request_id = sr_controller_request_id q,
      rq_request_hash = hash, rq_backend_kind = SOMA_DURABLE_RUN, rq_backend_executor = DURABLE_RUN_EXECUTOR,
      rq_backend_ref = run_id,
      rq_backend_identity = [(''engine'', JStr ''soma_durable_run''), (''run_tool'', JStr DURABLE_RUN_EXECUTOR),
                             (''repo_name'', JStr repo), (''profile_id'', JStr (sr_profile_id q))],
      rq_objective_ref = run_input_reference run_id, rq_constraints_ref = run_input_reference run_id,
      rq_workspace_kind = ''repository'', rq_workspace_ref = repo, rq_parent_task_id = sr_parent_task_id q,
      rq_state = ACCEPTED, rq_phase = BACKEND_RESERVED\<rparr>"

datatype reserved = Reserved task_row bool | Scope_conflict

text \<open>The shared transaction of a scoped start: reservation, task row and attachment together.\<close>

definition reserve_scoped ::
  "scope_env \<Rightarrow> repository_binding \<Rightarrow> task_request \<Rightarrow> timestamp \<Rightarrow> 'a scope_db_scheme \<Rightarrow> ('a scope_db_scheme, reserved) outcome" where
  "reserve_scoped env b rq now = in_transaction (\<lambda>db.
     case find_by_controller_request (rq_controller_request_id rq) db of
       Some t \<Rightarrow>
         if sp_project_id (scope_for_task (t_task_id t) db) = [] \<or> sp_project_id (scope_for_task (t_task_id t) db) \<noteq> rb_project_id b
         then (Inr Scope_conflict, db)
         else (case require_task_attempt (rb_project_id b) (t_task_id t) (t_backend_ref t) db of
                 Inl e \<Rightarrow> (Inl e, db)
               | Inr _ \<Rightarrow> if t_request_hash t \<noteq> rq_request_hash rq then (Inl (TaskRequestConflict (t_task_id t)), db)
                          else (Inr (Reserved t False), db))
     | None \<Rightarrow>
         and_then (reserve_task_attempt env b (rq_task_id rq) (rq_backend_ref rq) (rq_parent_task_id rq) now db) (\<lambda>db1.
           case reserve_task_in_connection rq now db1 of
             (Inl e, db2) \<Rightarrow> (Inl e, db2)
           | (Inr (t, created), db2) \<Rightarrow> and_then (attach_task (t_task_id t) now db2) (\<lambda>db3. (Inr (Reserved t created), db3))))"

definition reserve_for_start ::
  "scope_env \<Rightarrow> repository_binding option \<Rightarrow> task_request \<Rightarrow> timestamp \<Rightarrow> 'a scope_db_scheme \<Rightarrow> ('a scope_db_scheme, reserved) outcome" where
  "reserve_for_start env binding rq now db =
     (case binding of
        Some b \<Rightarrow> reserve_scoped env b rq now db
      | None \<Rightarrow> (case reserve_task rq now db of
                   (Inl e, db1) \<Rightarrow> (Inl e, db1) | (Inr (t, created), db1) \<Rightarrow> (Inr (Reserved t created), db1)))"

text \<open>A unique index was violated: answer with the task that won, and never launch.\<close>

definition answer_winner ::
  "repository_binding option \<Rightarrow> start_request \<Rightarrow> string \<Rightarrow> py_error \<Rightarrow> timestamp \<Rightarrow> 'a scope_db_scheme \<Rightarrow>
   ('a scope_db_scheme, start_answer) outcome" where
  "answer_winner binding q hash e now db =
     (case find_by_controller_request (sr_controller_request_id q) db of
        None \<Rightarrow> (Inl e, db)
      | Some t \<Rightarrow>
          let project = sp_project_id (scope_for_task (t_task_id t) db) in
          case binding of
            None \<Rightarrow> if project \<noteq> [] then (Inr Start_scope_conflict, db) else answer_existing t hash now db
          | Some b \<Rightarrow>
              if project \<noteq> rb_project_id b then (Inr Start_scope_conflict, db)
              else (case require_task_attempt (rb_project_id b) (t_task_id t) (t_backend_ref t) db of
                      Inl e' \<Rightarrow> if is_scope_error e' then (Inr Start_scope_conflict, db) else (Inl e', db)
                    | Inr _ \<Rightarrow> answer_existing t hash now db))"

type_synonym 'db launcher = "string \<Rightarrow> 'db \<Rightarrow> (py_error + (bool \<times> string)) \<times> 'db"

definition event_step ::
  "task_row \<Rightarrow> event_level \<Rightarrow> string \<Rightarrow> string \<Rightarrow> (string \<times> json) list \<Rightarrow> timestamp \<Rightarrow>
   'a task_db_scheme \<Rightarrow> ('a task_db_scheme, unit) outcome" where
  "event_step t level stage msg data now db =
     (case append_task_event (t_task_id t) level stage msg (task_state_value (t_state t)) (t_state_version t) data now db of
        (Inl e, db1) \<Rightarrow> (Inl e, db1) | (Inr _, db1) \<Rightarrow> (Inr (), db1))"

text \<open>The launch: revalidate the reservation, hand over to the backend, record a refusal or a failure.
  The answer is whether the launch was accepted, and the recorded error.\<close>

definition launch_backend ::
  "(string \<Rightarrow> string) \<Rightarrow> 'a scope_db_scheme launcher \<Rightarrow> repository_binding option \<Rightarrow> task_row \<Rightarrow> timestamp \<Rightarrow>
   'a scope_db_scheme \<Rightarrow> ('a scope_db_scheme, bool \<times> string) outcome" where
  "launch_backend redact start binding t now db =
     (let check = (case binding of None \<Rightarrow> Inr () | Some b \<Rightarrow> require_launchable_attempt b (t_task_id t) (t_backend_ref t) db);
          failed = (\<lambda>err d. case event_step t LEVEL_ERROR ''backend_launch'' ''Durable backend launch did not complete''
                          [(''error'', JStr err)] now d of (Inl e, d1) \<Rightarrow> (Inl e, d1) | (Inr _, d1) \<Rightarrow> (Inr (False, err), d1)) in
      case check of
        Inl e \<Rightarrow> if is_scope_error e then failed (''ProjectScopeError: '' @ redact (snd (error_parts e))) db else (Inl e, db)
      | Inr _ \<Rightarrow>
          (case start (t_backend_ref t) db of
             (Inl e, db1) \<Rightarrow> failed (error_detail redact e) db1
           | (Inr (accepted, reason), db1) \<Rightarrow>
               if accepted then (Inr (True, []), db1)
               else (case event_step t LEVEL_WARNING ''backend_launch'' ''Durable backend refused the launch''
                             [(''reason'', JStr (redact reason))] now db1 of
                       (Inl e, db2) \<Rightarrow> (Inl e, db2) | (Inr _, db2) \<Rightarrow> (Inr (False, redact reason), db2))))"

definition attach_after_launch ::
  "(string \<Rightarrow> string) \<Rightarrow> repository_binding option \<Rightarrow> task_row \<Rightarrow> timestamp \<Rightarrow> 'a scope_db_scheme \<Rightarrow> ('a scope_db_scheme, unit) outcome" where
  "attach_after_launch redact binding t now db =
     (case binding of
        None \<Rightarrow> (Inr (), db)
      | Some _ \<Rightarrow>
          (case attach_attempt (t_backend_ref t) now db of
             (Inr _, db1) \<Rightarrow> (Inr (), db1)
           | (Inl e, db1) \<Rightarrow>
               if \<not> is_scope_error e then (Inl e, db1)
               else (case mark_attempt_recovery_pending (t_backend_ref t) ''run_attachment_incomplete'' now db1 of
                       (Inl e', db2) \<Rightarrow> (Inl e', db2)
                     | (Inr _, db2) \<Rightarrow>
                         event_step t LEVEL_WARNING ''project_scope_attachment'' ''Project run-attempt attachment requires reconciliation''
                           [(''error'', JStr (redact (snd (error_parts e))))] now db2)))"

definition binding_data :: "repository_binding option \<Rightarrow> (string \<times> json) list" where
  "binding_data binding = (case binding of None \<Rightarrow> []
     | Some b \<Rightarrow> [(''project_id'', JStr (rb_project_id b)), (''resource_id'', JStr (rb_resource_id b)),
                  (''scope_generation'', JInt (rb_scope_generation b))])"

definition start_created ::
  "(string \<Rightarrow> string) \<Rightarrow> 'a scope_db_scheme launcher \<Rightarrow> repository_binding option \<Rightarrow> task_row \<Rightarrow> timestamp \<Rightarrow>
   'a scope_db_scheme \<Rightarrow> ('a scope_db_scheme, start_answer) outcome" where
  "start_created redact start binding t now db =
     and_then (event_step t LEVEL_INFO ''reserved'' ''Canonical task reserved its durable backend reference''
       ([(''backend_kind'', JStr ''soma_durable_run''), (''backend_reference'', JStr (t_backend_ref t))] @ binding_data binding) now db)
     (\<lambda>db1. case launch_backend redact start binding t now db1 of
        (Inl e, db2) \<Rightarrow> (Inl e, db2)
      | (Inr (accepted, err), db2) \<Rightarrow>
          and_then (attach_after_launch redact binding t now db2) (\<lambda>db3.
            case reconcile_task (t_task_id t) ''backend_attachment'' now db3 of
              (Inl e, db4) \<Rightarrow> (Inl e, db4)
            | (Inr u, db4) \<Rightarrow> (Inr (Start_created u accepted err), db4)))"

text \<open>The part of the handler from the reservation on.\<close>

definition start_new ::
  "scope_env \<Rightarrow> (string \<Rightarrow> string) \<Rightarrow> 'a scope_db_scheme launcher \<Rightarrow> start_request \<Rightarrow> repository_binding option \<Rightarrow> string \<Rightarrow> string \<Rightarrow>
   string \<Rightarrow> string \<Rightarrow> timestamp \<Rightarrow> 'a scope_db_scheme \<Rightarrow> ('a scope_db_scheme, start_answer) outcome" where
  "start_new env redact start q binding hash repo task_id run_id now db =
     (case reserve_for_start env binding (start_task_request q hash repo task_id run_id) now db of
        (Inr Scope_conflict, db1) \<Rightarrow> (Inr Start_scope_conflict, db1)
      | (Inr (Reserved t created), db1) \<Rightarrow>
          if created then start_created redact start binding t now db1 else replay_response t now db1
      | (Inl e, db1) \<Rightarrow>
          (case e of
             TaskRequestConflict other \<Rightarrow> (Inr (Start_hash_conflict other hash), db1)
           | IntegrityError _ \<Rightarrow> answer_winner binding q hash e now db1
           | _ \<Rightarrow> if is_scope_error e then (Inr (Start_refused ''project_scope_reservation_failed''), db1) else (Inl e, db1)))"

definition start_durable_command ::
  "scope_env \<Rightarrow> (string \<Rightarrow> string) \<Rightarrow> 'a scope_db_scheme launcher \<Rightarrow> start_request \<Rightarrow> string \<Rightarrow> string \<Rightarrow> timestamp \<Rightarrow>
   'a scope_db_scheme \<Rightarrow> ('a scope_db_scheme, start_answer) outcome" where
  "start_durable_command env redact start q task_id run_id now db =
     (case find_by_controller_request (sr_controller_request_id q) db of
        Some t \<Rightarrow> start_existing env q t now db
      | None \<Rightarrow>
          if enforcement_state db = ''paused'' then (Inr (Start_refused ''project_scope_paused''), db)
          else if sr_project_id q \<noteq> [] \<and> enforcement_state db \<noteq> ''enforced''
          then (Inr (Start_refused ''project_scope_inactive''), db)
          else if enforcement_state db = ''enforced''
          then (case resolve_binding env q (sr_project_id q) db of
                  Inl e \<Rightarrow> if is_value_error e then (Inr (Start_refused ''project_scope_resolution_failed''), db) else (Inl e, db)
                | Inr (b, name) \<Rightarrow> start_new env redact start q (Some b) (sr_scoped_hash q b) name task_id run_id now db)
          else start_new env redact start q None (sr_legacy_hash q) (sr_repo_name q) task_id run_id now db)"

section \<open>Resolving an unrecoverable task\<close>

record recovery_request =
  rr_project_id :: string
  rr_task_id :: string
  rr_if_state_version :: int
  rr_successor_task_id :: string
  rr_reason :: string
  rr_idempotency_key :: string

definition recovery_reason_code :: string where
  "recovery_reason_code = ''owner_superseded_unresolved_backend''"

datatype recovery_answer = Recovery_stale task_row | Recovery_resolved task_row adjudication_row bool

definition recovery_request_error :: "recovery_request \<Rightarrow> 'a scope_db_scheme \<Rightarrow> py_error option" where
  "recovery_request_error q db = first_error
     [check (take 512 (py_strip (rr_reason q)) \<noteq> []) (ValueError ''reason is required''),
      opaque_id_error (rr_project_id q) ''project_id'', opaque_id_error (rr_task_id q) ''task_id'',
      opaque_id_error (rr_successor_task_id q) ''successor_task_id'', opaque_id_error (rr_idempotency_key q) ''idempotency_key'',
      check (is_installed db \<and> scope_schema db \<ge> 2) (ProjectScopeError ''ProjectScope adjudication schema is unavailable'')]"

text \<open>The scope rows of the request: the reservation of the task, its attempt, the successor's reservation.\<close>

definition recovery_scope :: "recovery_request \<Rightarrow> 'a scope_db_scheme \<Rightarrow> (reservation_row \<times> attempt_row \<times> reservation_row) option" where
  "recovery_scope q db =
     (case (by_key v_task_id (rr_task_id q) (reservations db), by_key a_task_id (rr_task_id q) (attempts db),
            by_key v_task_id (rr_successor_task_id q) (reservations db)) of
        (Some v, Some a, Some s) \<Rightarrow>
          if v_project_id v = rr_project_id q \<and> a_project_id a = rr_project_id q \<and> a_scope_generation a = v_scope_generation v \<and>
             v_project_id s = rr_project_id q
          then Some (v, a, s) else None
      | _ \<Rightarrow> None)"

definition in_unresolved_recovery :: "task_row \<Rightarrow> bool" where
  "in_unresolved_recovery t = (t_state t \<in> {UNCERTAIN, RECOVERY_PENDING} \<and> t_recovery_state t \<in> {REC_UNRESOLVED, REC_PENDING})"

definition recovery_refusal ::
  "recovery_request \<Rightarrow> task_row \<Rightarrow> task_row \<Rightarrow> reservation_row \<times> attempt_row \<times> reservation_row \<Rightarrow> 'a scope_db_scheme \<Rightarrow> py_error option" where
  "recovery_refusal q t s scope db = (case scope of (v, a, vs) \<Rightarrow> first_error
     [check (in_unresolved_recovery t) (ProjectScopeError ''Task is not in unresolved recovery''),
      check (rr_task_id q \<noteq> rr_successor_task_id q) (ProjectScopeError ''successor_task_id must differ from task_id''),
      check (t_state s = COMPLETED) (ProjectScopeError ''Successor task must be completed''),
      check (v_status vs \<noteq> TB_QUARANTINED) (ProjectScopeMismatch ''Successor task is not active in this project''),
      check (run_by_id (a_run_id a) db = None) (ProjectScopeError ''Backend run exists; normal reconciliation owns this task''),
      check (v_status v \<noteq> TB_QUARANTINED) (ProjectScopeError ''Task is already quarantined without an adjudication'')])"

definition resolved_task :: "timestamp \<Rightarrow> task_row \<Rightarrow> task_row" where
  "resolved_task now t = t\<lparr>t_state := FAILED, t_phase := RECOVERY, t_state_version := t_state_version t + 1,
     t_recovery_state := REC_RESOLVED, t_recovery_reason := recovery_reason_code, t_reconciled_at := Some now,
     t_ended_at := Some now, t_updated_at := now\<rparr>"

definition recovery_evidence :: "scope_env \<Rightarrow> string \<Rightarrow> string" where
  "recovery_evidence env task_id = quarantine_evidence env TASK_RESERVATION task_id recovery_reason_code"

definition recovery_adjudication :: "scope_env \<Rightarrow> recovery_request \<Rightarrow> timestamp \<Rightarrow> adjudication_row" where
  "recovery_adjudication env q now =
     \<lparr>j_adjudication_id = adjudication_id env (rr_project_id q) TASK_RESERVATION (rr_task_id q) (rr_idempotency_key q),
      j_project_id = rr_project_id q, j_record_kind = TASK_RESERVATION, j_record_id = rr_task_id q,
      j_disposition = SUPERSEDED, j_successor_task_id = rr_successor_task_id q,
      j_reason = take 512 (py_strip (rr_reason q)), j_idempotency_key = rr_idempotency_key q,
      j_request_hash = adjudication_request_hash env (rr_project_id q) TASK_RESERVATION (rr_task_id q) SUPERSEDED
                         (take 512 (py_strip (rr_reason q))) (rr_successor_task_id q),
      j_evidence_hash = recovery_evidence env (rr_task_id q), j_created_at = now\<rparr>"

text \<open>The writes of a first resolution, in the order of the statements.\<close>

definition resolve_writes ::
  "scope_env \<Rightarrow> recovery_request \<Rightarrow> task_row \<Rightarrow> timestamp \<Rightarrow> 'a scope_db_scheme \<Rightarrow> ('a scope_db_scheme, adjudication_row) outcome" where
  "resolve_writes env q t now db =
     (let tid = rr_task_id q; row = recovery_adjudication env q now;
          db1 = db\<lparr>tasks := sql_update (\<lambda>x. t_task_id x = tid \<and> t_state_version x = t_state_version t \<and>
                 t_state x \<in> {UNCERTAIN, RECOVERY_PENDING}) (resolved_task now) (tasks db)\<rparr>;
          db2 = quarantine_task env tid recovery_reason_code now db1 in
      if map_option q_evidence_hash (by_key quarantine_key (TASK_RESERVATION, tid) (quarantine db2)) \<noteq> Some (recovery_evidence env tid)
      then (Inl (ProjectScopeError ''Recovery quarantine evidence does not match''), db2)
      else if \<not> adjudication_insert_ok row db2 then (Inl (IntegrityError ''project_scope_adjudications''), db2)
      else
        and_then (insert_link (rr_successor_task_id q) LINK_SUPERSEDES TARGET_TASK tid
                    [(''project_id'', JStr (rr_project_id q)), (''reason'', JStr ''recovery_disposition'')] now
                    (db2\<lparr>adjudications := adjudications db2 @ [row]\<rparr>)) (\<lambda>db3.
          case append_task_event tid LEVEL_WARNING ''recovery_disposition''
                 ''Unresolved missing-backend task was terminally quarantined and superseded'' ''failed'' (t_state_version t + 1)
                 [(''project_id'', JStr (rr_project_id q)), (''successor_task_id'', JStr (rr_successor_task_id q)),
                  (''backend_reference'', JStr (t_backend_ref t)), (''backend_run_fabricated'', JBool False),
                  (''adjudication_id'', JStr (j_adjudication_id row))] now db3 of
            (Inl e, db4) \<Rightarrow> (Inl e, db4) | (Inr _, db4) \<Rightarrow> (Inr row, db4)))"

text \<open>The check on the stored disposition before the transaction commits.\<close>

definition disposition_complete :: "recovery_request \<Rightarrow> task_row \<Rightarrow> adjudication_row \<Rightarrow> 'a scope_db_scheme \<Rightarrow> bool" where
  "disposition_complete q t j db =
     (t_state t = FAILED \<and> t_recovery_state t = REC_RESOLVED \<and>
      map_option v_status (by_key v_task_id (rr_task_id q) (reservations db)) = Some TB_QUARANTINED \<and>
      map_option a_status (by_key a_task_id (rr_task_id q) (attempts db)) = Some AB_QUARANTINED \<and>
      map_option q_evidence_hash (by_key quarantine_key (TASK_RESERVATION, rr_task_id q) (quarantine db)) = Some (j_evidence_hash j) \<and>
      list_ex (\<lambda>k. k_task_id k = rr_successor_task_id q \<and> k_link_type k = LINK_SUPERSEDES \<and> k_target_kind k = TARGET_TASK \<and>
                   k_target_id k = rr_task_id q) (links db))"

definition finish_resolution ::
  "recovery_request \<Rightarrow> adjudication_row \<Rightarrow> bool \<Rightarrow> 'a scope_db_scheme \<Rightarrow> ('a scope_db_scheme, recovery_answer) outcome" where
  "finish_resolution q j replayed db =
     (case get_task (rr_task_id q) db of
        Inl e \<Rightarrow> (Inl e, db)
      | Inr t \<Rightarrow> if disposition_complete q t j db then (Inr (Recovery_resolved t j replayed), db)
                 else (Inl (ProjectScopeError ''Stored recovery disposition is incomplete''), db))"

definition resolve_in_transaction ::
  "scope_env \<Rightarrow> recovery_request \<Rightarrow> timestamp \<Rightarrow> 'a scope_db_scheme \<Rightarrow> ('a scope_db_scheme, recovery_answer) outcome" where
  "resolve_in_transaction env q now db =
     (case (get_task (rr_task_id q) db, get_task (rr_successor_task_id q) db) of
        (Inl e, _) \<Rightarrow> (Inl e, db)
      | (Inr _, Inl e) \<Rightarrow> (Inl e, db)
      | (Inr t, Inr s) \<Rightarrow>
          (case recovery_scope q db of
             None \<Rightarrow> (Inl (ProjectScopeMismatch ''No recoverable task matches this project scope''), db)
           | Some scope \<Rightarrow>
               let row = recovery_adjudication env q now in
               case by_key adjudication_key (TASK_RESERVATION, rr_task_id q) (adjudications db) of
                 Some j \<Rightarrow>
                   if j_adjudication_id j \<noteq> j_adjudication_id row
                   then (Inl (ProjectScopeError
                      ''Record is already adjudicated under a different idempotency key; adjudication is single-shot''), db)
                   else if j_request_hash j \<noteq> j_request_hash row
                   then (Inl (ProjectScopeError ''Idempotency key was already used for a different recovery decision''), db)
                   else finish_resolution q j True db
               | None \<Rightarrow>
                   if rr_if_state_version q \<noteq> t_state_version t then (Inr (Recovery_stale t), db)
                   else (case recovery_refusal q t s scope db of
                           Some e \<Rightarrow> (Inl e, db)
                         | None \<Rightarrow> (case resolve_writes env q t now db of
                                      (Inl e, db1) \<Rightarrow> (Inl e, db1)
                                    | (Inr j, db1) \<Rightarrow> finish_resolution q j False db1))))"

definition resolve_recovery ::
  "scope_env \<Rightarrow> recovery_request \<Rightarrow> timestamp \<Rightarrow> 'a scope_db_scheme \<Rightarrow> ('a scope_db_scheme, recovery_answer) outcome" where
  "resolve_recovery env q now db =
     (case recovery_request_error q db of
        Some e \<Rightarrow> (Inl e, db) | None \<Rightarrow> in_transaction (resolve_in_transaction env q now) db)"

end
