(* ===== verification/Task_Guarantees.thy ===== *)
theory Task_Guarantees
  imports Task_Store
begin

text \<open>
  What the task store guarantees. Task rows keep their identity and their version never decreases
  (\<open>tasks_advance\<close>, preserved by every operation, \<open>task_step_spec\<close>); the guarded update is a
  compare-and-set store (an interpretation of \<open>versioned_store\<close>); a controller request creates at most one task
  and a replay is answered with it; event pages are consecutive pieces of the log.
\<close>

section \<open>Well-formed task tables\<close>

definition backend_key :: "task_row \<Rightarrow> backend_kind \<times> string" where
  "backend_key t = (t_backend_kind t, t_backend_ref t)"

definition bound :: "task_row list \<Rightarrow> task_row list" where
  "bound ts = filter (\<lambda>t. t_backend_ref t \<noteq> []) ts"

definition wf_tasks :: "'a task_db_scheme \<Rightarrow> bool" where
  "wf_tasks db =
     (unique_key t_task_id (tasks db) \<and> unique_key t_controller_request_id (tasks db) \<and>
      unique_key backend_key (bound (tasks db)))"

definition wf_events :: "'a task_db_scheme \<Rightarrow> bool" where
  "wf_events db = (sorted_wrt (<) (map te_id (task_events db)) \<and> (\<forall>e \<in> set (task_events db). te_id e \<le> task_event_seq db))"

definition task_identity :: "task_row \<Rightarrow> string \<times> string \<times> task_kind \<times> string \<times> string \<times> backend_kind \<times> timestamp" where
  "task_identity t = (t_task_id t, t_parent_task_id t, t_task_kind t, t_controller_request_id t, t_request_hash t,
     t_backend_kind t, t_created_at t)"

definition task_row_advances :: "task_row \<Rightarrow> task_row \<Rightarrow> bool" where
  "task_row_advances t t' =
     (task_identity t' = task_identity t \<and> t_state_version t \<le> t_state_version t' \<and>
      (t_state_version t' = t_state_version t \<longrightarrow> t' = t))"

definition tasks_advance :: "'a task_db_scheme \<Rightarrow> 'a task_db_scheme \<Rightarrow> bool" where
  "tasks_advance db db' =
     (\<forall>k t. task_by_id k db = Some t \<longrightarrow> (\<exists>t'. task_by_id k db' = Some t' \<and> task_row_advances t t'))"

lemma task_row_advances_refl [simp]: "task_row_advances t t"
  by (simp add: task_row_advances_def)

lemma task_row_advances_trans: "task_row_advances a b \<Longrightarrow> task_row_advances b c \<Longrightarrow> task_row_advances a c"
  by (auto simp: task_row_advances_def)

lemma tasks_advance_refl [simp]: "tasks_advance db db"
  by (simp add: tasks_advance_def)

lemma tasks_advance_trans: "tasks_advance a b \<Longrightarrow> tasks_advance b c \<Longrightarrow> tasks_advance a c"
  unfolding tasks_advance_def by (meson task_row_advances_trans)

lemma tasks_advanceD:
  "tasks_advance db db' \<Longrightarrow> task_by_id k db = Some t \<Longrightarrow> \<exists>t'. task_by_id k db' = Some t' \<and> task_row_advances t t'"
  by (simp add: tasks_advance_def)

lemma same_tasks: "tasks b = tasks a \<Longrightarrow> wf_tasks a \<Longrightarrow> wf_tasks b"
  by (simp add: wf_tasks_def)

lemma tasks_advance_same: "tasks b = tasks a \<Longrightarrow> tasks_advance a b"
  by (simp add: tasks_advance_def task_by_id_def)

lemma task_by_id_key: "task_by_id k db = Some t \<Longrightarrow> t_task_id t = k"
  unfolding task_by_id_def by (rule by_key_Some_key)

lemma task_by_id_in: "task_by_id k db = Some t \<Longrightarrow> t \<in> set (tasks db)"
  unfolding task_by_id_def by (rule by_key_Some_in)

section \<open>The guarded update\<close>

definition put_task :: "string \<Rightarrow> task_row \<Rightarrow> 'a task_db_scheme \<Rightarrow> 'a task_db_scheme" where
  "put_task k row db = db\<lparr>tasks := sql_update (\<lambda>t. t_task_id t = k) (\<lambda>_. row) (tasks db)\<rparr>"

lemma apply_task_field_key [simp]:
  "t_task_id (apply_task_field f t) = t_task_id t"
  "task_identity (apply_task_field f t) = task_identity t"
  "t_state_version (apply_task_field f t) = t_state_version t"
  by (cases f; simp add: task_identity_def)+

lemma apply_task_fields_key [simp]:
  "t_task_id (apply_task_fields fs t) = t_task_id t"
  "task_identity (apply_task_fields fs t) = task_identity t"
  "t_state_version (apply_task_fields fs t) = t_state_version t"
  unfolding apply_task_fields_def by (induction fs arbitrary: t; simp)+

lemma task_identity_updated [simp]:
  "task_identity (t\<lparr>t_updated_at := n\<rparr>) = task_identity t"
  "task_identity (t\<lparr>t_state_version := i\<rparr>) = task_identity t"
  by (simp_all add: task_identity_def)

lemma task_set_facts [simp]:
  "t_task_id (task_set fs b now t) = t_task_id t"
  "task_identity (task_set fs b now t) = task_identity t"
  "t_state_version (task_set fs b now t) = (if b then t_state_version t + 1 else t_state_version t)"
  by (simp_all add: task_set_def Let_def)

lemma task_identity_parts:
  "task_identity a = task_identity b \<Longrightarrow>
     t_task_id a = t_task_id b \<and> t_controller_request_id a = t_controller_request_id b \<and> t_request_hash a = t_request_hash b \<and>
     t_backend_kind a = t_backend_kind b"
  by (simp add: task_identity_def)

lemma sql_update_by_key:
  assumes "unique_key key rows" "by_key key k rows = Some r"
  shows "sql_update (\<lambda>x. key x = k \<and> q x) f rows = (if q r then sql_update (\<lambda>x. key x = k) (\<lambda>_. f r) rows else rows)"
proof -
  have "\<And>x. x \<in> set rows \<Longrightarrow> key x = k \<Longrightarrow> x = r"
    using assms by (metis by_key_Some_in by_key_Some_key unique_key_inj)
  then show ?thesis
    by (cases "q r") (auto simp: sql_update_def intro!: map_cong map_idI)
qed

definition task_index_ok :: "task_row list \<Rightarrow> bool" where
  "task_index_ok rows = (\<not> list_ex (\<lambda>t. list_ex (\<lambda>u. t_task_id t \<noteq> t_task_id u \<and> t_backend_ref t \<noteq> [] \<and>
                 t_backend_kind t = t_backend_kind u \<and> t_backend_ref t = t_backend_ref u) rows) rows)"

lemma task_update_cases:
  assumes "wf_tasks db" "task_conditional_update k fs v ss b now db = (res, db')"
  obtains (refused) e where "res = Inl e" "db' = db"
    | (missed) "res = Inr None" "db' = db" "\<not> (\<exists>t. task_by_id k db = Some t \<and> task_guard v ss t)"
    | (updated) old row where "task_by_id k db = Some old" "task_guard v ss old" "row = task_set fs b now old"
        "res = Inr (Some row)" "db' = put_task k row db" "task_index_ok (tasks db')" "list_all updatable_task_field fs"
proof -
  let ?hit = "\<lambda>t. t_task_id t = k \<and> task_guard v ss t"
  let ?rows = "sql_update ?hit (task_set fs b now) (tasks db)"
  have uq: "unique_key t_task_id (tasks db)" using assms(1) by (simp add: wf_tasks_def)
  show thesis
  proof (cases "\<not> valid_task_id k \<or> \<not> list_all updatable_task_field fs \<or> fs = []")
    case True
    then show ?thesis using assms(2) refused by (auto simp: task_conditional_update_def split: if_splits)
  next
    case ok: False
    show ?thesis
    proof (cases "\<exists>t. task_by_id k db = Some t \<and> task_guard v ss t")
      case False
      then have "sql_count ?hit (tasks db) \<noteq> 1"
        using sql_count_key_1_iff [OF uq, of k "task_guard v ss"] by (simp add: task_by_id_def)
      then show ?thesis using assms(2) ok False missed by (simp add: task_conditional_update_def Let_def)
    next
      case True
      then obtain old where old: "task_by_id k db = Some old" "task_guard v ss old" by blast
      then have c: "sql_count ?hit (tasks db) = 1"
        using sql_count_key_1_iff [OF uq, of k "task_guard v ss"] by (auto simp: task_by_id_def)
      have rows: "?rows = tasks (put_task k (task_set fs b now old) db)"
        using sql_update_by_key [OF uq, of k old "task_guard v ss"] old by (simp add: task_by_id_def put_task_def)
      have hit: "task_by_id k (put_task k (task_set fs b now old) db) = Some (task_set fs b now old)"
        using old task_by_id_key [OF old(1)] rows
        by (simp add: task_by_id_def by_key_sql_update rows [symmetric])
      have put: "db\<lparr>tasks := ?rows\<rparr> = put_task k (task_set fs b now old) db" using rows by (simp add: put_task_def)
      show ?thesis
      proof (cases "task_index_ok ?rows")
        case True
        then have "(res, db') = (Inr (Some (task_set fs b now old)), put_task k (task_set fs b now old) db)"
          using assms(2) ok c put hit unfolding task_conditional_update_def Let_def task_index_ok_def by simp
        with updated [OF old refl] True ok rows show ?thesis by simp
      next
        case False
        then have "res = Inl (IntegrityError ''UNIQUE constraint failed: tasks.backend_ref'') \<and> db' = db"
          using assms(2) ok c unfolding task_conditional_update_def Let_def task_index_ok_def by simp
        with refused show ?thesis by blast
      qed
    qed
  qed
qed

lemma by_key_put:
  "key row = k \<Longrightarrow> by_key key k' (sql_update (\<lambda>x. key x = k) (\<lambda>_. row) rows) =
     (if k' = k then map_option (\<lambda>_. row) (by_key key k rows) else by_key key k' rows)"
  by (induction rows) (auto simp: sql_update_def)

lemma put_task_lookup:
  "t_task_id row = k \<Longrightarrow> task_by_id k db = Some old \<Longrightarrow> task_by_id k' (put_task k row db) = (if k' = k then Some row else task_by_id k' db)"
  by (simp add: put_task_def task_by_id_def by_key_put)

lemma unique_key_put:
  assumes "unique_key key rows" "unique_key t_task_id rows" "by_key t_task_id k rows = Some old" "key row = key old" "t_task_id row = k"
  shows "unique_key key (sql_update (\<lambda>x. t_task_id x = k) (\<lambda>_. row) rows)"
proof -
  have "\<And>x. x \<in> set rows \<Longrightarrow> t_task_id x = k \<Longrightarrow> x = old"
    using assms(2,3) by (metis by_key_Some_in by_key_Some_key unique_key_inj)
  then have "map key (sql_update (\<lambda>x. t_task_id x = k) (\<lambda>_. row) rows) = map key rows"
    using assms(4) by (auto simp: sql_update_def)
  then show ?thesis using assms(1) by (simp add: unique_key_def)
qed

lemma index_ok_unique: "unique_key t_task_id rows \<Longrightarrow> task_index_ok rows \<Longrightarrow> unique_key backend_key (bound rows)"
proof (induction rows)
  case (Cons t rows)
  have ne: "\<And>u. u \<in> set rows \<Longrightarrow> t_task_id u \<noteq> t_task_id t"
    using Cons.prems(1) by (auto simp: image_iff)
  have "task_index_ok rows" using Cons.prems(2) by (auto simp: task_index_ok_def list_ex_iff)
  moreover have "t_backend_ref t \<noteq> [] \<Longrightarrow> backend_key t \<notin> backend_key ` set (bound rows)"
    using Cons.prems(2) ne by (auto simp: task_index_ok_def list_ex_iff backend_key_def bound_def)
  ultimately show ?case using Cons by (auto simp: bound_def)
qed (simp add: bound_def)

lemma put_task_wf:
  assumes "wf_tasks db" "task_by_id k db = Some old" "task_identity row = task_identity old" "task_index_ok (tasks (put_task k row db))"
  shows "wf_tasks (put_task k row db)"
proof -
  note id = task_identity_parts [OF assms(3)]
  have k: "t_task_id row = k" using id task_by_id_key [OF assms(2)] by simp
  have o: "by_key t_task_id k (tasks db) = Some old" using assms(2) by (simp add: task_by_id_def)
  have u: "unique_key t_task_id (tasks (put_task k row db))"
    using unique_key_put [OF _ _ o _ k, of t_task_id] assms(1) id by (simp add: wf_tasks_def put_task_def)
  moreover have "unique_key t_controller_request_id (tasks (put_task k row db))"
    using unique_key_put [OF _ _ o _ k, of t_controller_request_id] assms(1) id by (simp add: wf_tasks_def put_task_def)
  ultimately show ?thesis using index_ok_unique [OF u assms(4)] by (simp add: wf_tasks_def)
qed

lemma put_task_advances:
  assumes "task_by_id k db = Some old" "task_row_advances old row"
  shows "tasks_advance db (put_task k row db)"
proof -
  have "t_task_id row = k"
    using assms(2) task_by_id_key [OF assms(1)] task_identity_parts [of row old] by (simp add: task_row_advances_def)
  then show ?thesis using assms by (auto simp: tasks_advance_def put_task_lookup)
qed

lemma task_update_advances:
  assumes "wf_tasks db" "task_conditional_update k fs v ss True now db = (res, db')"
  shows "tasks_advance db db' \<and> wf_tasks db'"
  using assms
proof (cases rule: task_update_cases)
  case (updated old row)
  then have "task_row_advances old row" by (simp add: task_row_advances_def)
  then show ?thesis
    using put_task_advances [OF updated(1)] put_task_wf [OF assms(1) updated(1), of row] updated by simp
qed (use assms in simp_all)

section \<open>The guarded update as a compare-and-set store\<close>

definition task_cas ::
  "string \<Rightarrow> int \<Rightarrow> task_field list \<times> task_state list option \<times> timestamp \<Rightarrow> 'a task_db_scheme \<Rightarrow> task_row option \<times> 'a task_db_scheme" where
  "task_cas k v u db =
     (case task_conditional_update k (fst u) v (fst (snd u)) True (snd (snd u)) db of
        (Inr row, db') \<Rightarrow> (row, db') | (Inl e, db') \<Rightarrow> (None, db'))"

definition task_lookup :: "'a task_db_scheme \<Rightarrow> string \<Rightarrow> task_row option" where
  "task_lookup db k = task_by_id k db"

lemma task_cas_cases:
  assumes "wf_tasks db" "task_cas k v u db = (res, db')"
  obtains "res = None" "db' = db"
    | old row where "task_by_id k db = Some old" "t_state_version old = v" "res = Some row" "db' = put_task k row db"
        "t_task_id row = k" "t_state_version row = v + 1"
proof -
  obtain c db1 where c: "task_conditional_update k (fst u) v (fst (snd u)) True (snd (snd u)) db = (c, db1)" by fastforce
  from assms(1) c show thesis
  proof (cases rule: task_update_cases)
    case (updated old row)
    then have "t_state_version old = v" by (simp add: task_guard_def)
    moreover have "res = Some row" "db' = put_task k row db" using updated c assms(2) by (simp_all add: task_cas_def)
    ultimately show thesis
      using that(2) [OF updated(1), of row] task_by_id_key [OF updated(1)] updated(3) by simp
  qed (use that(1) assms(2) c in \<open>auto simp: task_cas_def\<close>)
qed

lemma task_cas_wf: "wf_tasks db \<Longrightarrow> task_cas k v u db = (res, db') \<Longrightarrow> wf_tasks db'"
  using task_update_advances [of db k "fst u" v "fst (snd u)" "snd (snd u)"]
  by (cases "task_conditional_update k (fst u) v (fst (snd u)) True (snd (snd u)) db")
    (simp add: task_cas_def split: sum.splits)

interpretation task_updates: versioned_store wf_tasks task_lookup t_state_version task_cas
proof
  fix db :: "'a task_db_scheme" and k k' :: string and v u row db' res
  assume wf: "wf_tasks db"
  show "\<exists>old. task_lookup db k = Some old \<and> t_state_version old = v \<and>
      task_lookup db' k = Some row \<and> t_state_version row = v + 1"
    if "task_cas k v u db = (Some row, db')"
    using wf that by (rule task_cas_cases) (auto simp: put_task_lookup task_lookup_def)
  show "db' = db" if "task_cas k v u db = (None, db')"
    using wf that by (rule task_cas_cases) simp_all
  show "task_lookup db' k' = task_lookup db k'" if "task_cas k v u db = (res, db')" "k' \<noteq> k"
    using wf that(1) by (rule task_cas_cases) (auto simp: put_task_lookup task_lookup_def that(2))
  show "wf_tasks db'" if "task_cas k v u db = (res, db')"
    using wf that by (rule task_cas_wf)
qed

section \<open>Reservation\<close>

lemma insert_link_tasks [simp]:
  "tasks (snd (insert_link a b c d e f db)) = tasks db"
  "task_events (snd (insert_link a b c d e f db)) = task_events db"
  "task_event_seq (snd (insert_link a b c d e f db)) = task_event_seq db"
  by (simp_all add: insert_link_def)

lemma insert_link_ok: "task_by_id k db \<noteq> None \<Longrightarrow> \<exists>db'. insert_link k a b c d e db = (Inr (), db')"
  by (auto simp: insert_link_def)

lemma new_task_facts [simp]:
  "t_task_id (new_task q now) = rq_task_id q"
  "t_controller_request_id (new_task q now) = rq_controller_request_id q"
  "t_request_hash (new_task q now) = rq_request_hash q"
  "t_backend_ref (new_task q now) = rq_backend_ref q"
  "t_state (new_task q now) = rq_state q"
  "t_state_version (new_task q now) = 0"
  by (simp_all add: new_task_def)

lemma and_then_snd:
  "and_then a f = (res, db') \<Longrightarrow> (\<exists>e. a = (Inl e, db') \<and> res = Inl e) \<or> (\<exists>db1. a = (Inr (), db1) \<and> f db1 = (res, db'))"
  by (auto simp: and_then_def split: prod.splits sum.splits)

text \<open>What an operation on the task tables leaves alone: the runs, locks and groups, and the tables of the scope sidecar.\<close>

definition task_frame :: "'a task_db_scheme \<Rightarrow> 'a task_db_scheme \<Rightarrow> bool" where
  "task_frame db db' = (group_db.truncate db' = group_db.truncate db \<and> task_db.more db' = task_db.more db)"

lemma task_frame_refl [simp]: "task_frame db db"
  by (simp add: task_frame_def)

lemma task_frame_trans: "task_frame a b \<Longrightarrow> task_frame b c \<Longrightarrow> task_frame a c"
  by (simp add: task_frame_def)

lemma task_frame_runs: "task_frame db db' \<Longrightarrow> runs db' = runs db \<and> locks db' = locks db \<and> groups db' = groups db \<and> children db' = children db"
  by (simp add: task_frame_def group_db.defs)

lemma task_frame_updates [simp]:
  "task_frame db (db\<lparr>tasks := ts\<rparr>)"
  "task_frame db (db\<lparr>commands := cs\<rparr>)"
  "task_frame db (db\<lparr>checkpoints := xs\<rparr>)"
  "task_frame db (db\<lparr>link_seq := n, links := ls\<rparr>)"
  "task_frame db (db\<lparr>task_event_seq := n, task_events := es\<rparr>)"
  by (simp_all add: task_frame_def group_db.defs)

lemma insert_link_frame: "task_frame db (snd (insert_link a b c d e f db))"
  by (simp add: insert_link_def)

lemma insert_link_pair:
  assumes "insert_link a b c d e f db = (res, db')"
  shows "tasks db' = tasks db \<and> task_events db' = task_events db \<and> task_event_seq db' = task_event_seq db \<and> task_frame db db'"
  using insert_link_tasks [of a b c d e f db] insert_link_frame [of db a b c d e f] assms by simp

text \<open>A new task row, with no other task of the same key, request or run.\<close>

definition fresh_task :: "task_row \<Rightarrow> 'a task_db_scheme \<Rightarrow> bool" where
  "fresh_task t db = (\<not> list_ex (task_conflict t) (tasks db))"

lemma fresh_task_wf: "wf_tasks db \<Longrightarrow> fresh_task t db \<Longrightarrow> tasks db' = tasks db @ [t] \<Longrightarrow> wf_tasks db'"
  by (auto simp: wf_tasks_def fresh_task_def task_conflict_def list_ex_iff unique_key_append_one by_key_None_iff bound_def backend_key_def)

lemma fresh_task_lookup:
  "fresh_task t db \<Longrightarrow> tasks db' = tasks db @ [t] \<Longrightarrow>
     task_by_id k db' = (if k = t_task_id t then Some t else task_by_id k db)"
proof -
  assume f: "fresh_task t db" "tasks db' = tasks db @ [t]"
  have "by_key t_task_id (t_task_id t) (tasks db) = None"
    using f(1) by (auto simp: fresh_task_def task_conflict_def list_ex_iff by_key_None_iff)
  then show ?thesis using f(2) by (auto simp: task_by_id_def by_key_append split: option.split)
qed

lemma fresh_task_advances: "fresh_task t db \<Longrightarrow> tasks db' = tasks db @ [t] \<Longrightarrow> tasks_advance db db'"
  unfolding tasks_advance_def task_by_id_def by (auto simp: by_key_append)

lemma find_request_Some:
  "find_by_controller_request r db = Some t \<Longrightarrow> t \<in> set (tasks db) \<and> t_controller_request_id t = r"
  by (auto simp: find_by_controller_request_def sql_fetchone_def find_Some_iff)

lemma reserve_in_spec:
  assumes "reserve_task_in_connection q now db = (Inr (t, created), db')"
  shows "if created
         then t = new_task q now \<and> fresh_task t db \<and> tasks db' = tasks db @ [t] \<and> task_frame db db' \<and>
              task_events db' = task_events db \<and> task_event_seq db' = task_event_seq db
         else db' = db \<and> t \<in> set (tasks db) \<and> t_controller_request_id t = rq_controller_request_id q \<and>
              t_request_hash t = rq_request_hash q"
proof (cases "find_by_controller_request (rq_controller_request_id q) db")
  case (Some x)
  with assms find_request_Some [OF Some] show ?thesis
    by (auto simp: reserve_task_in_connection_def split: if_splits)
next
  case None
  let ?t = "new_task q now"
  let ?db1 = "db\<lparr>tasks := tasks db @ [?t]\<rparr>"
  let ?kept = "\<lambda>d d'. tasks d' = tasks d \<and> task_events d' = task_events d \<and> task_event_seq d' = task_event_seq d \<and> task_frame d d'"
  define run_link where "run_link = (\<lambda>d :: 'a task_db_scheme. if rq_backend_ref q = [] then (Inr (), d)
     else insert_link (rq_task_id q) LINK_BACKEND_RUN TARGET_DURABLE_RUN (rq_backend_ref q)
            [(''backend_kind'', JStr ''soma_durable_run''), (''backend_executor'', JStr (rq_backend_executor q))] now d)"
  define parent_link where "parent_link = (\<lambda>d :: 'a task_db_scheme. if rq_parent_task_id q = [] then (Inr (), d)
     else insert_link (rq_task_id q) LINK_PARENT TARGET_TASK (rq_parent_task_id q) [] now d)"
  have l: "run_link d = (r, d') \<Longrightarrow> ?kept d d'" "parent_link d = (r, d') \<Longrightarrow> ?kept d d'" for d r d'
    by (auto simp: run_link_def parent_link_def dest: insert_link_pair split: if_splits)
  have b: "fresh_task ?t db"
    using assms None by (auto simp: reserve_task_in_connection_def fresh_task_def split: if_splits)
  have eq: "and_then (run_link ?db1) (\<lambda>db2. and_then (parent_link db2) (\<lambda>db3.
                 case task_by_id (rq_task_id q) db3 of None \<Rightarrow> (Inl (TypeError ''row is None''), db3) | Some t \<Rightarrow> (Inr (t, True), db3)))
             = (Inr (t, created), db')"
    using assms None b unfolding reserve_task_in_connection_def Let_def fresh_task_def run_link_def parent_link_def
    by (simp split: if_splits)
  from and_then_snd [OF eq] obtain db2 where 2: "run_link ?db1 = (Inr (), db2)"
    "and_then (parent_link db2) (\<lambda>db3. case task_by_id (rq_task_id q) db3 of None \<Rightarrow> (Inl (TypeError ''row is None''), db3)
        | Some t \<Rightarrow> (Inr (t, True), db3)) = (Inr (t, created), db')" by auto
  from and_then_snd [OF 2(2)] obtain db3 where 3: "parent_link db2 = (Inr (), db3)"
    "(case task_by_id (rq_task_id q) db3 of None \<Rightarrow> (Inl (TypeError ''row is None''), db3) | Some t \<Rightarrow> (Inr (t, True), db3)) = (Inr (t, created), db')"
    by auto
  have "tasks db3 = tasks db @ [?t]" using l(1) [OF 2(1)] l(2) [OF 3(1)] by simp
  moreover from this have "task_by_id (rq_task_id q) db3 = Some ?t"
    using fresh_task_lookup [OF b, of db3 "rq_task_id q"] by simp
  moreover have "task_frame db db3"
    using l(1) [OF 2(1)] l(2) [OF 3(1)] task_frame_trans task_frame_updates(1) by blast
  ultimately show ?thesis using 3(2) b l(1) [OF 2(1)] l(2) [OF 3(1)] by simp
qed

lemma reserve_task_spec:
  assumes "reserve_task q now db = (res, db')"
  shows "(\<exists>e. res = Inl e) \<and> db' = db \<or>
    (\<exists>t. res = Inr (t, False)) \<and> db' = db \<or>
    (res = Inr (new_task q now, True) \<and> fresh_task (new_task q now) db \<and> tasks db' = tasks db @ [new_task q now] \<and>
     task_frame db db' \<and> task_events db' = task_events db \<and> task_event_seq db' = task_event_seq db)"
proof (cases res)
  case (Inl e)
  with assms show ?thesis by (auto simp: reserve_task_def in_transaction_def split: if_splits prod.splits sum.splits)
next
  case (Inr p)
  obtain t created where p: "p = (t, created)" by (cases p)
  with assms Inr have "reserve_task_in_connection q now db = (Inr (t, created), db')"
    by (auto simp: reserve_task_def in_transaction_def split: if_splits prod.splits sum.splits)
  from reserve_in_spec [OF this] Inr p show ?thesis by (cases created) auto
qed

section \<open>Steps of the task store\<close>

text \<open>One committed call of the task store; the code always lets an update bump the version.\<close>

inductive task_step :: "'a task_db_scheme \<Rightarrow> 'a task_db_scheme \<Rightarrow> bool" where
  reserve: "task_step db (snd (reserve_task q now db))"
| update: "task_step db (snd (task_conditional_update k fs v ss True now db))"
| event: "task_step db (snd (append_task_event k level stage msg state version data now db))"
| command: "task_step db (snd (record_command cid k kind req obs status rid reason now db))"
| complete: "task_step db (complete_command cid status reason now db)"
| checkpoint: "task_step db (snd (create_checkpoint xid k kind version prompt schema cref eref now db))"
| link: "task_step db (snd (add_link k ty kind target metadata now db))"

lemma append_event_spec:
  assumes "append_task_event k level stage msg state version data now db = (res, db')"
  shows "tasks db' = tasks db \<and> task_frame db db' \<and>
    (db' = db \<or> (\<exists>ev. task_events db' = task_events db @ [ev] \<and> te_id ev = task_event_seq db + 1 \<and> task_event_seq db' = task_event_seq db + 1))"
  using assms by (auto simp: append_task_event_def Let_def split: if_splits)

lemma wf_events_same: "task_events db' = task_events db \<Longrightarrow> task_event_seq db' = task_event_seq db \<Longrightarrow> wf_events db \<Longrightarrow> wf_events db'"
  by (simp add: wf_events_def)

lemma wf_events_append:
  "wf_events db \<Longrightarrow> task_events db' = task_events db @ [ev] \<Longrightarrow> te_id ev = task_event_seq db + 1 \<Longrightarrow>
     task_event_seq db' = task_event_seq db + 1 \<Longrightarrow> wf_events db'"
  by (auto simp: wf_events_def sorted_wrt_append)

lemma append_event_wf:
  assumes "append_task_event k level stage msg state version data now db = (res, db')" "wf_events db"
  shows "wf_events db'"
  using append_event_spec [OF assms(1)] assms(2) wf_events_append by blast

definition log_extends :: "'a task_db_scheme \<Rightarrow> 'a task_db_scheme \<Rightarrow> bool" where
  "log_extends db db' = (\<exists>es. task_events db' = task_events db @ es)"

lemma log_extends_same [simp]: "task_events db' = task_events db \<Longrightarrow> log_extends db db'"
  by (simp add: log_extends_def)

lemma log_extends_trans: "log_extends a b \<Longrightarrow> log_extends b c \<Longrightarrow> log_extends a c"
  by (auto simp: log_extends_def)

text \<open>The contract that every operation keeps.\<close>

definition task_safe :: "'a task_db_scheme \<Rightarrow> 'a task_db_scheme \<Rightarrow> bool" where
  "task_safe db db' = (tasks_advance db db' \<and> wf_tasks db' \<and> (wf_events db \<longrightarrow> wf_events db') \<and> log_extends db db' \<and> task_frame db db')"

lemma task_safe_refl: "wf_tasks db \<Longrightarrow> task_safe db db"
  by (simp add: task_safe_def)

lemma task_safe_trans: "task_safe a b \<Longrightarrow> task_safe b c \<Longrightarrow> task_safe a c"
  unfolding task_safe_def by (meson tasks_advance_trans log_extends_trans task_frame_trans)

lemma task_safe_other:
  assumes "wf_tasks db" "tasks db' = tasks db" "task_events db' = task_events db" "task_event_seq db' = task_event_seq db" "task_frame db db'"
  shows "task_safe db db'"
  using assms tasks_advance_same [of db' db] same_tasks [of db' db] wf_events_same [of db' db] by (simp add: task_safe_def)

lemma append_event_safe:
  assumes "append_task_event k level stage msg state version data now db = (res, db')" "wf_tasks db"
  shows "task_safe db db'"
  using append_event_spec [OF assms(1)] append_event_wf [OF assms(1)] assms(2) tasks_advance_same [of db' db] same_tasks [of db' db]
  by (auto simp: task_safe_def log_extends_def)

lemma task_update_safe:
  assumes "task_conditional_update k fs v ss True now db = (res, db')" "wf_tasks db"
  shows "task_safe db db'"
proof -
  have "task_events db' = task_events db \<and> task_event_seq db' = task_event_seq db \<and> task_frame db db'"
    using assms(2,1) by (cases rule: task_update_cases) (simp_all add: put_task_def)
  then show ?thesis using task_update_advances [OF assms(2,1)] wf_events_same [of db' db] by (simp add: task_safe_def)
qed

lemma fresh_task_safe:
  "wf_tasks db \<Longrightarrow> fresh_task t db \<Longrightarrow> tasks db' = tasks db @ [t] \<Longrightarrow> task_frame db db' \<Longrightarrow> task_events db' = task_events db \<Longrightarrow>
     task_event_seq db' = task_event_seq db \<Longrightarrow> task_safe db db'"
  using fresh_task_advances [of t db db'] fresh_task_wf [of db t db'] wf_events_same [of db' db] by (simp add: task_safe_def)

lemma task_step_safe: "task_step db db' \<Longrightarrow> wf_tasks db \<Longrightarrow> task_safe db db'"
proof (induction rule: task_step.induct)
  case (reserve db q now)
  obtain res d where r: "reserve_task q now db = (res, d)" by fastforce
  from reserve_task_spec [OF r] reserve r fresh_task_safe [of db "new_task q now" d] task_safe_refl show ?case by auto
next
  case (update db k fs v ss now)
  then show ?case by (metis prod.collapse task_update_safe)
next
  case (event db k level stage msg state version data now)
  then show ?case by (metis prod.collapse append_event_safe)
next
  case (link db k ty kind target metadata now)
  then show ?case using insert_link_tasks insert_link_frame
    by (auto simp: add_link_def intro!: task_safe_other)
qed (auto simp: record_command_def complete_command_def create_checkpoint_def Let_def intro!: task_safe_other)

lemma task_steps_safe:
  assumes "task_step\<^sup>*\<^sup>* db db'" "wf_tasks db"
  shows "task_safe db db'"
  using assms
proof (induction rule: rtranclp_induct)
  case (step y z)
  then have "task_safe db y" by simp
  with task_step_safe [OF step.hyps(2)] show ?case by (meson task_safe_def task_safe_trans)
qed (simp add: task_safe_refl)

lemma task_safeD: "task_safe db db' \<Longrightarrow> tasks_advance db db' \<and> wf_tasks db' \<and> task_frame db db'"
  by (simp add: task_safe_def)

section \<open>Properties\<close>

lemma find_request_unique:
  assumes "wf_tasks db" "u \<in> set (tasks db)"
  shows "find_by_controller_request (t_controller_request_id u) db = Some u"
  using by_key_unique [of t_controller_request_id "tasks db" u] assms
  by (simp add: find_by_controller_request_def sql_fetchone_def by_key_def wf_tasks_def)

lemma reserve_task_stored:
  assumes "reserve_task q now db = (Inr (t, created), db')"
  shows "t \<in> set (tasks db') \<and> t_controller_request_id t = rq_controller_request_id q \<and> t_request_hash t = rq_request_hash q"
proof -
  have "reserve_task_in_connection q now db = (Inr (t, created), db')"
    using assms by (auto simp: reserve_task_def in_transaction_def split: if_splits prod.splits sum.splits)
  from reserve_in_spec [OF this] show ?thesis by (cases created) auto
qed

lemma reserve_task_known:
  assumes "wf_tasks db" "u \<in> set (tasks db)" "rq_controller_request_id q = t_controller_request_id u" "valid_task_id (rq_task_id q)"
  shows "reserve_task q now db = (if rq_request_hash q = t_request_hash u then (Inr (u, False), db)
           else (Inl (TaskRequestConflict (t_task_id u)), db))"
  using find_request_unique [OF assms(1,2)] assms(3,4)
  by (auto simp: reserve_task_def reserve_task_in_connection_def in_transaction_def)

lemma task_by_id_unique: "wf_tasks db \<Longrightarrow> u \<in> set (tasks db) \<Longrightarrow> task_by_id (t_task_id u) db = Some u"
  by (simp add: task_by_id_def wf_tasks_def by_key_unique)

text \<open>A controller request creates at most one task. Once a reservation has answered with a task, whatever the task
  store does afterwards, every later reservation under the same controller request is answered with that task and
  writes nothing; when the normalised request differs the answer is a conflict naming the task, and again nothing is written.\<close>

theorem controller_request_idempotent:
  assumes "wf_tasks db" "reserve_task q now db = (Inr (t, created), db1)" "task_step\<^sup>*\<^sup>* db1 db2"
    and "rq_controller_request_id q' = rq_controller_request_id q" "valid_task_id (rq_task_id q')"
  shows "\<exists>u. task_by_id (t_task_id t) db2 = Some u \<and> task_identity u = task_identity t \<and>
    reserve_task q' now' db2 = (if rq_request_hash q' = rq_request_hash q then (Inr (u, False), db2)
      else (Inl (TaskRequestConflict (t_task_id t)), db2))"
proof -
  have step: "task_step db db1" using task_step.reserve [of db q now] assms(2) by simp
  note wf1 = task_safeD [OF task_step_safe [OF step assms(1)]]
  note st = reserve_task_stored [OF assms(2)]
  note wf2 = task_safeD [OF task_steps_safe [OF assms(3)]]
  have "task_by_id (t_task_id t) db1 = Some t" using task_by_id_unique wf1 st by blast
  then obtain u where u: "task_by_id (t_task_id t) db2 = Some u" "task_row_advances t u"
    using tasks_advanceD wf1 wf2 by blast
  then have id: "task_identity u = task_identity t" by (simp add: task_row_advances_def)
  have "reserve_task q' now' db2 = (if rq_request_hash q' = t_request_hash u then (Inr (u, False), db2)
      else (Inl (TaskRequestConflict (t_task_id u)), db2))"
    using reserve_task_known [of db2 u q' now'] wf1 wf2 task_by_id_in [OF u(1)] task_identity_parts [OF id] st assms(4,5) by simp
  then show ?thesis using u id task_identity_parts [OF id] st by auto
qed

text \<open>Writers in the order in which SQLite serialises their updates.\<close>

fun task_race ::
  "string \<Rightarrow> int \<Rightarrow> (task_field list \<times> task_state list option \<times> timestamp) list \<Rightarrow> 'a task_db_scheme \<Rightarrow> task_row option list \<times> 'a task_db_scheme" where
  "task_race k v [] db = ([], db)"
| "task_race k v (u # us) db = (let (res, db1) = task_cas k v u db; (rest, db2) = task_race k v us db1 in (res # rest, db2))"

lemma task_race_cas_seq: "task_race k v us db = task_updates.cas_seq (map (\<lambda>u. (k, v, u)) us) db"
  by (induction us arbitrary: db) (simp_all add: Let_def split: prod.split)

text \<open>Compare-and-set on a task: of any number of updates that were prepared from the same version of a task,
  at most one is accepted, and the version of the task grows by exactly the number of accepted updates.\<close>

theorem task_update_race:
  assumes "wf_tasks db" "task_by_id k db = Some t" "task_race k v us db = (answers, db')"
  shows "length (filter (\<lambda>r. r \<noteq> None) answers) \<le> 1 \<and>
    (\<exists>t'. task_by_id k db' = Some t' \<and> t_state_version t' = t_state_version t + int (length (filter (\<lambda>r. r \<noteq> None) answers)))"
proof -
  let ?ws = "map (\<lambda>u. (k, v, u)) us"
  have seq: "task_updates.cas_seq ?ws db = (answers, db')" using assms(3) by (simp add: task_race_cas_seq)
  have "task_updates.winners answers \<le> 1" using task_updates.at_most_one_winner [OF assms(1), of ?ws k v] seq by simp
  moreover have "\<exists>t'. task_lookup db' k = Some t' \<and> t_state_version t' = t_state_version t + int (task_updates.winners answers)"
    using task_updates.version_counts_winners [OF assms(1) _ _ seq] assms(2) by (simp add: task_lookup_def)
  ultimately show ?thesis by (simp add: task_updates.winners_def task_lookup_def)
qed

subsection \<open>Event pages\<close>

lemma filter_after_last:
  fixes f :: "'a \<Rightarrow> int"
  assumes "sorted_wrt (<) (map f xs)" "take n xs \<noteq> []"
  shows "filter (\<lambda>x. f x > f (last (take n xs))) xs = drop n xs"
proof -
  have xs: "xs = take n xs @ drop n xs" by simp
  have s: "sorted_wrt (<) (map f (take n xs) @ map f (drop n xs))" using assms(1) by (simp flip: map_append)
  have l: "last (take n xs) \<in> set (take n xs)" using assms(2) by (rule last_in_set)
  have "\<forall>x \<in> set (take n xs). \<not> f x > f (last (take n xs))"
  proof
    fix x assume x: "x \<in> set (take n xs)"
    obtain ys where ys: "take n xs = ys @ [last (take n xs)]" using append_butlast_last_id [OF assms(2)] by metis
    have "sorted_wrt (<) (map f ys @ [f (last (take n xs))])"
      using s ys by (metis map_append list.simps(8,9) sorted_wrt_append)
    moreover have "x \<in> set ys \<or> x = last (take n xs)" using x ys by (metis Un_iff empty_iff list.set(1,2) insert_iff set_append)
    ultimately show "\<not> f x > f (last (take n xs))" by (auto simp: sorted_wrt_append)
  qed
  moreover have "\<forall>x \<in> set (drop n xs). f x > f (last (take n xs))"
    using s l by (simp add: sorted_wrt_append)
  ultimately have "filter (\<lambda>x. f x > f (last (take n xs))) (take n xs @ drop n xs) = drop n xs"
    by (simp only: filter_append filter_False filter_True append_Nil)
  then show ?thesis by simp
qed

definition events_after :: "string \<Rightarrow> int option \<Rightarrow> 'a task_db_scheme \<Rightarrow> task_event list" where
  "events_after k a db = filter (\<lambda>e. te_task_id e = k \<and> (case a of None \<Rightarrow> True | Some n \<Rightarrow> te_id e > n)) (task_events db)"

lemma events_after_sorted: "wf_events db \<Longrightarrow> sorted_wrt (<) (map te_id (events_after k a db))"
  by (simp add: events_after_def wf_events_def sorted_wrt_map sorted_wrt_filter)

lemma list_events_eq:
  assumes "wf_events db" "valid_task_id k"
  shows "list_task_events k n a db = Inr (sql_limit n (events_after k a db))"
proof -
  have "sorted (map te_id (events_after k a db))"
    using events_after_sorted [OF assms(1)] by (simp add: strict_sorted_iff)
  then show ?thesis using assms(2) by (simp add: list_task_events_def events_after_def sort_key_id_if_sorted)
qed

lemma events_after_next:
  assumes "wf_events db" "take n (events_after k a db) \<noteq> []"
  shows "events_after k (Some (te_id (last (take n (events_after k a db))))) db = drop n (events_after k a db)"
proof -
  let ?l = "last (take n (events_after k a db))"
  have "?l \<in> set (events_after k a db)" using last_in_set [OF assms(2)] by (rule in_set_takeD)
  then have "\<And>e. te_id e > te_id ?l \<Longrightarrow> (case a of None \<Rightarrow> True | Some m \<Rightarrow> te_id e > m)"
    by (auto simp: events_after_def split: option.splits)
  then have "events_after k (Some (te_id ?l)) db = filter (\<lambda>e. te_id e > te_id ?l) (events_after k a db)"
    unfolding events_after_def filter_filter by (intro filter_cong) auto
  with filter_after_last [OF events_after_sorted [OF assms(1)] assms(2)] show ?thesis by simp
qed

text \<open>Event pages. Reading a page of a task's events and then the page after its last event gives the same
  events, in the same order, as one larger page: nothing is skipped and nothing is repeated.\<close>

theorem event_pages_consecutive:
  assumes "wf_events db" "0 \<le> n" "0 \<le> m" "list_task_events k n a db = Inr page" "page \<noteq> []"
    and "list_task_events k m (Some (te_id (last page))) db = Inr rest"
  shows "list_task_events k (n + m) a db = Inr (page @ rest)"
proof -
  have v: "valid_task_id k" using assms(4) by (auto simp: list_task_events_def split: if_splits)
  have page: "page = take (nat n) (events_after k a db)"
    using assms(2,4) list_events_eq [OF assms(1) v, of n a] by (simp add: sql_limit_def)
  have "rest = take (nat m) (drop (nat n) (events_after k a db))"
    using assms(3,6) list_events_eq [OF assms(1) v] events_after_next [OF assms(1), of "nat n" k a] assms(5)
    by (simp add: sql_limit_def page)
  then have "page @ rest = take (nat n + nat m) (events_after k a db)" using page by (simp add: take_add)
  then show ?thesis using list_events_eq [OF assms(1) v, of "n + m" a] assms(2,3) by (simp add: sql_limit_def nat_add_distrib)
qed

section \<open>Concrete instances\<close>

definition sample_task_id :: string where
  "sample_task_id = ''task_20240101T000000Z_0123456789ab''"

definition sample_task_request :: task_request where
  "sample_task_request = \<lparr>rq_task_id = sample_task_id, rq_task_kind = DURABLE_COMMAND, rq_controller_request_id = ''req-1'',
     rq_request_hash = ''h1'', rq_backend_kind = SOMA_DURABLE_RUN, rq_backend_executor = ''executable_profile'',
     rq_backend_ref = sample_id, rq_backend_identity = [(''repo_name'', JStr ''repo'')], rq_objective_ref = [], rq_constraints_ref = [],
     rq_workspace_kind = [], rq_workspace_ref = [], rq_parent_task_id = [], rq_state = ACCEPTED, rq_phase = BACKEND_RESERVED\<rparr>"

definition empty_tasks :: task_db where
  "empty_tasks = \<lparr>runs = [], events = [], event_seq = 0, locks = [], groups = [], children = [], tasks = [], links = [],
     link_seq = 0, task_events = [], task_event_seq = 0, commands = [], checkpoints = []\<rparr>"

definition one_task :: task_db where
  "one_task = snd (reserve_task sample_task_request ''t1'' empty_tasks)"

definition two_events :: task_db where
  "two_events = snd (append_task_event sample_task_id LEVEL_INFO ''s'' ''second'' ''accepted'' 0 [] ''t3''
     (snd (append_task_event sample_task_id LEVEL_INFO ''s'' ''first'' ''accepted'' 0 [] ''t2'' one_task)))"

lemma sample_task_valid: "valid_task_id sample_task_id"
  by code_simp

lemma empty_tasks_wf: "wf_tasks empty_tasks" "wf_events empty_tasks"
  by (simp_all add: empty_tasks_def wf_tasks_def bound_def wf_events_def)

lemma one_task_eq: "reserve_task sample_task_request ''t1'' empty_tasks = (Inr (new_task sample_task_request ''t1'', True), one_task)"
  by code_simp

lemma one_task_wf: "wf_tasks one_task"
  using task_safeD [OF task_step_safe [OF task_step.reserve empty_tasks_wf(1)]] by (simp add: one_task_def)

lemma two_events_wf: "wf_events two_events"
  by code_simp

theorem controller_request_idempotent_witness:
  "reserve_task (sample_task_request\<lparr>rq_request_hash := ''h2''\<rparr>) ''t9'' two_events = (Inl (TaskRequestConflict sample_task_id), two_events)"
proof -
  have "task_step\<^sup>*\<^sup>* one_task two_events"
    unfolding two_events_def by (meson task_step.event rtranclp.rtrancl_into_rtrancl rtranclp.rtrancl_refl)
  from controller_request_idempotent [OF empty_tasks_wf(1) one_task_eq this, of "sample_task_request\<lparr>rq_request_hash := ''h2''\<rparr>" "''t9''"]
  show ?thesis using sample_task_valid by (auto simp: sample_task_request_def)
qed

theorem task_update_race_witness:
  "\<exists>answers db'. task_race sample_task_id 0
       [([T_state RUNNING], None, ''t2''), ([T_state FAILED], None, ''t3'')] one_task = (answers, db') \<and>
     length (filter (\<lambda>r. r \<noteq> None) answers) \<le> 1"
proof -
  obtain answers db' where r: "task_race sample_task_id 0
      [([T_state RUNNING], None, ''t2''), ([T_state FAILED], None, ''t3'')] one_task = (answers, db')" by fastforce
  have "task_by_id sample_task_id one_task = Some (new_task sample_task_request ''t1'')" by code_simp
  from task_update_race [OF one_task_wf this r] r show ?thesis by blast
qed

theorem event_pages_consecutive_witness:
  "list_task_events sample_task_id 2 None two_events = Inr (task_events two_events)"
proof -
  have 1: "list_task_events sample_task_id 1 None two_events = Inr [hd (task_events two_events)]" by code_simp
  have 2: "list_task_events sample_task_id 1 (Some (te_id (last [hd (task_events two_events)]))) two_events
      = Inr (tl (task_events two_events))" by code_simp
  have "task_events two_events \<noteq> []" by code_simp
  then show ?thesis using event_pages_consecutive [OF two_events_wf _ _ 1 _ 2] by simp
qed

end
