(* ===== verification/Scope_Guarantees.thy ===== *)
theory Scope_Guarantees
  imports Project_Scope Task_Guarantees
begin

text \<open>
  What the project scope guarantees. \<open>wf_scope\<close> is the invariant of its tables: the unique
  indexes, an exclusive resource belongs to one project, a run attempt belongs to the project of its task
  reservation and to a resource bound to that project, and an adjudicated record is still quarantined with the
  evidence the decision was made on. \<open>scope_advances\<close> says what no call ever undoes: identities,
  quarantine, evidence, decisions, and the fact that scoping was once activated. Every call preserves both
  (\<open>scope_step_safe\<close>).
\<close>

section \<open>The invariant\<close>

definition binding_key :: "resource_binding_row \<Rightarrow> string \<times> string" where
  "binding_key b = (b_project_id b, b_resource_id b)"

definition exclusive_bindings :: "resource_binding_row list \<Rightarrow> bool" where
  "exclusive_bindings bs =
     (\<forall>b \<in> set bs. \<forall>c \<in> set bs. b_resource_id b = b_resource_id c \<and> b_project_id b \<noteq> b_project_id c \<longrightarrow> b_access_mode b = SHARED)"

definition attempt_in_scope :: "reservation_row list \<Rightarrow> resource_binding_row list \<Rightarrow> attempt_row \<Rightarrow> bool" where
  "attempt_in_scope vs bs a =
     ((\<exists>v. by_key v_task_id (a_task_id a) vs = Some v \<and> v_project_id v = a_project_id a) \<and>
      (\<exists>b. by_key binding_key (a_project_id a, a_resource_id a) bs = Some b))"

definition decided_and_preserved :: "'a scope_db_scheme \<Rightarrow> adjudication_row \<Rightarrow> bool" where
  "decided_and_preserved db j = (quarantine_view (j_record_kind j) (j_record_id j) db = Some (j_project_id j, True, j_evidence_hash j))"

definition wf_scope :: "'a scope_db_scheme \<Rightarrow> bool" where
  "wf_scope db =
     (unique_key v_task_id (reservations db) \<and> unique_key a_run_id (attempts db) \<and> unique_key a_task_id (attempts db) \<and>
      unique_key quarantine_key (quarantine db) \<and> unique_key adjudication_key (adjudications db) \<and>
      unique_key p_project_id (projects db) \<and> unique_key binding_key (resource_bindings db) \<and>
      exclusive_bindings (resource_bindings db) \<and>
      (\<forall>a \<in> set (attempts db). attempt_in_scope (reservations db) (resource_bindings db) a) \<and>
      (\<forall>j \<in> set (adjudications db). decided_and_preserved db j) \<and>
      (scope_schema db = 0 \<longrightarrow> reservations db = [] \<and> attempts db = [] \<and> quarantine db = [] \<and> resource_bindings db = [] \<and>
         projects db = [] \<and> \<not> ever_activated db) \<and>
      (scope_schema db < 2 \<longrightarrow> adjudications db = []))"

section \<open>What no call undoes\<close>

definition reservation_advances :: "reservation_row \<Rightarrow> reservation_row \<Rightarrow> bool" where
  "reservation_advances v v' =
     (v_task_id v' = v_task_id v \<and> v_project_id v' = v_project_id v \<and> v_scope_generation v' = v_scope_generation v \<and>
      (v_status v = TB_QUARANTINED \<longrightarrow> v' = v) \<and> (v_status v = TB_ATTACHED \<longrightarrow> v_status v' \<noteq> TB_RESERVED))"

definition attempt_advances :: "attempt_row \<Rightarrow> attempt_row \<Rightarrow> bool" where
  "attempt_advances a a' =
     (a_run_id a' = a_run_id a \<and> a_project_id a' = a_project_id a \<and> a_task_id a' = a_task_id a \<and> a_resource_id a' = a_resource_id a \<and>
      a_scope_generation a' = a_scope_generation a \<and> (a_status a = AB_QUARANTINED \<longrightarrow> a' = a) \<and>
      (a_status a \<noteq> AB_RESERVED \<longrightarrow> a_status a' \<noteq> AB_RESERVED))"

text \<open>Every row that a lookup finds is found later, related by \<open>R\<close>.\<close>

definition rows_kept :: "('r \<Rightarrow> 'k) \<Rightarrow> ('r \<Rightarrow> 'r \<Rightarrow> bool) \<Rightarrow> 'r list \<Rightarrow> 'r list \<Rightarrow> bool" where
  "rows_kept key R rows rows' = (\<forall>k r. by_key key k rows = Some r \<longrightarrow> (\<exists>r'. by_key key k rows' = Some r' \<and> R r r'))"

definition scope_advances :: "'a scope_db_scheme \<Rightarrow> 'a scope_db_scheme \<Rightarrow> bool" where
  "scope_advances db db' =
     (rows_kept v_task_id reservation_advances (reservations db) (reservations db') \<and>
      rows_kept a_run_id attempt_advances (attempts db) (attempts db') \<and>
      rows_kept quarantine_key (=) (quarantine db) (quarantine db') \<and>
      rows_kept adjudication_key (=) (adjudications db) (adjudications db') \<and>
      rows_kept binding_key (=) (resource_bindings db) (resource_bindings db') \<and>
      (ever_activated db \<longrightarrow> ever_activated db') \<and> scope_schema db \<le> scope_schema db')"

text \<open>What an operation of the sidecar leaves alone.\<close>

definition scope_frame :: "'a scope_db_scheme \<Rightarrow> 'a scope_db_scheme \<Rightarrow> bool" where
  "scope_frame db db' = (task_db.truncate db' = task_db.truncate db \<and> scope_db.more db' = scope_db.more db)"

definition scope_safe :: "'a scope_db_scheme \<Rightarrow> 'a scope_db_scheme \<Rightarrow> bool" where
  "scope_safe db db' = (wf_scope db' \<and> scope_advances db db' \<and> scope_frame db db')"

lemma rows_kept_refl [simp]: "(\<And>r. R r r) \<Longrightarrow> rows_kept key R rows rows"
  by (auto simp: rows_kept_def)

lemma rows_kept_trans:
  "rows_kept key R a b \<Longrightarrow> rows_kept key R b c \<Longrightarrow> (\<And>x y z. R x y \<Longrightarrow> R y z \<Longrightarrow> R x z) \<Longrightarrow> rows_kept key R a c"
  unfolding rows_kept_def by meson

lemma rows_kept_append [simp]: "(\<And>r. R r r) \<Longrightarrow> rows_kept key R rows (rows @ more_rows)"
  by (auto simp: rows_kept_def by_key_append)

lemma rows_kept_update:
  assumes "\<And>r. key (f r) = key r" "\<And>r. p r \<Longrightarrow> R r (f r)" "\<And>r. R r r"
  shows "rows_kept key R rows (sql_update p f rows)"
  using assms by (auto simp: rows_kept_def by_key_sql_update)

lemma advances_refl [simp]: "reservation_advances v v" "attempt_advances a a"
  by (simp_all add: reservation_advances_def attempt_advances_def)

lemma advances_trans:
  "reservation_advances u v \<Longrightarrow> reservation_advances v w \<Longrightarrow> reservation_advances u w"
  "attempt_advances a b \<Longrightarrow> attempt_advances b c \<Longrightarrow> attempt_advances a c"
proof -
  assume "reservation_advances u v" "reservation_advances v w"
  then show "reservation_advances u w" by (cases "v_status v") (auto simp: reservation_advances_def)
next
  assume "attempt_advances a b" "attempt_advances b c"
  then show "attempt_advances a c" by (auto simp: attempt_advances_def)
qed

lemma scope_advances_refl [simp]: "scope_advances db db"
  by (simp add: scope_advances_def)

lemma scope_advances_trans: "scope_advances a b \<Longrightarrow> scope_advances b c \<Longrightarrow> scope_advances a c"
  unfolding scope_advances_def
  by (intro conjI; (elim conjE)?) (erule (1) rows_kept_trans; blast intro: advances_trans | linarith | blast)+

lemma scope_frame_refl [simp]: "scope_frame db db"
  by (simp add: scope_frame_def)

lemma scope_frame_trans: "scope_frame a b \<Longrightarrow> scope_frame b c \<Longrightarrow> scope_frame a c"
  by (simp add: scope_frame_def)

lemma scope_safe_refl: "wf_scope db \<Longrightarrow> scope_safe db db"
  by (simp add: scope_safe_def)

lemma scope_safe_trans: "scope_safe a b \<Longrightarrow> scope_safe b c \<Longrightarrow> scope_safe a c"
  unfolding scope_safe_def using scope_advances_trans scope_frame_trans by blast

lemma scope_safe_wf: "scope_safe db db' \<Longrightarrow> wf_scope db'"
  by (simp add: scope_safe_def)

lemma scope_frame_tasks: "scope_frame db db' \<Longrightarrow> tasks db' = tasks db \<and> runs db' = runs db \<and> task_events db' = task_events db"
  by (simp add: scope_frame_def task_db.defs)

lemma scope_frame_updates [simp]:
  "scope_frame db (db\<lparr>reservations := x\<rparr>)" "scope_frame db (db\<lparr>attempts := y\<rparr>)" "scope_frame db (db\<lparr>quarantine := q\<rparr>)"
  "scope_frame db (db\<lparr>adjudications := j\<rparr>)" "scope_frame db (db\<lparr>projects := p\<rparr>)" "scope_frame db (db\<lparr>resources := s\<rparr>)"
  "scope_frame db (db\<lparr>resource_bindings := b\<rparr>)" "scope_frame db (db\<lparr>repository_bindings := r\<rparr>)"
  "scope_frame db (db\<lparr>bootstrap_events := z\<rparr>)"
  "scope_frame db (db\<lparr>writes_enabled := e, ever_activated := ea, settings_updated_at := t\<rparr>)"
  "scope_frame db (db\<lparr>reservations := x, attempts := y\<rparr>)"
  by (simp_all add: scope_frame_def task_db.defs)

section \<open>Every call is safe\<close>

lemma rows_keptD: "rows_kept key R rows rows' \<Longrightarrow> by_key key k rows = Some r \<Longrightarrow> \<exists>r'. by_key key k rows' = Some r' \<and> R r r'"
  by (simp add: rows_kept_def)

lemma owner_kept:
  assumes "scope_advances db db'" "quarantine_owner kind k db = Some (project, True)"
  shows "quarantine_owner kind k db' = Some (project, True)"
proof (cases kind)
  case TASK_RESERVATION
  with assms(2) obtain v where v: "by_key v_task_id k (reservations db) = Some v" "v_status v = TB_QUARANTINED" "v_project_id v = project"
    by (auto simp: quarantine_owner_def)
  from rows_keptD [OF _ v(1), of reservation_advances "reservations db'"] assms(1) v
  show ?thesis by (auto simp: scope_advances_def reservation_advances_def quarantine_owner_def TASK_RESERVATION)
next
  case RUN_ATTEMPT
  with assms(2) obtain a where a: "by_key a_run_id k (attempts db) = Some a" "a_status a = AB_QUARANTINED" "a_project_id a = project"
    by (auto simp: quarantine_owner_def)
  from rows_keptD [OF _ a(1), of attempt_advances "attempts db'"] assms(1) a
  show ?thesis by (auto simp: scope_advances_def attempt_advances_def quarantine_owner_def RUN_ATTEMPT)
qed

lemma view_kept:
  assumes "scope_advances db db'" "quarantine_view kind k db = Some (project, True, ev)"
  shows "quarantine_view kind k db' = Some (project, True, ev)"
proof -
  obtain q where q: "by_key quarantine_key (kind, k) (quarantine db) = Some q" "q_evidence_hash q = ev"
      "quarantine_owner kind k db = Some (project, True)"
    using assms(2) by (auto simp: quarantine_view_def split: option.splits)
  have "by_key quarantine_key (kind, k) (quarantine db') = Some q"
    using assms(1) q(1) by (auto simp: scope_advances_def dest: rows_keptD)
  with owner_kept [OF assms(1) q(3)] q(2) show ?thesis by (simp add: quarantine_view_def)
qed

lemma decided_kept: "scope_advances db db' \<Longrightarrow> decided_and_preserved db j \<Longrightarrow> decided_and_preserved db' j"
  by (simp add: decided_and_preserved_def view_kept)

lemma in_scope_kept:
  assumes "rows_kept v_task_id reservation_advances vs vs'" "rows_kept binding_key (=) bs bs'" "attempt_in_scope vs bs a"
  shows "attempt_in_scope vs' bs' a"
proof -
  obtain v b where "by_key v_task_id (a_task_id a) vs = Some v" "v_project_id v = a_project_id a"
      "by_key binding_key (a_project_id a, a_resource_id a) bs = Some b"
    using assms(3) by (auto simp: attempt_in_scope_def)
  with rows_keptD [OF assms(1)] rows_keptD [OF assms(2)] show ?thesis
    by (fastforce simp: attempt_in_scope_def reservation_advances_def)
qed

lemma set_attempt_facts [simp]:
  "a_run_id (set_attempt s r n a) = a_run_id a" "a_task_id (set_attempt s r n a) = a_task_id a"
  "a_project_id (set_attempt s r n a) = a_project_id a" "a_resource_id (set_attempt s r n a) = a_resource_id a"
  "a_status (set_attempt s r n a) = s"
  by (simp_all add: set_attempt_def)

lemma in_scope_cong:
  "a_task_id a' = a_task_id a \<Longrightarrow> a_project_id a' = a_project_id a \<Longrightarrow> a_resource_id a' = a_resource_id a \<Longrightarrow>
     attempt_in_scope vs bs a' = attempt_in_scope vs bs a"
  by (simp add: attempt_in_scope_def)

lemma sql_update_Nil_iff [simp]: "sql_update p f rows = [] \<longleftrightarrow> rows = []"
  by (simp add: sql_update_def)

lemma attempts_update_safe:
  assumes "wf_scope db" "\<And>a. p a \<Longrightarrow> a_status a \<noteq> AB_QUARANTINED" "s \<noteq> AB_RESERVED"
  shows "scope_safe db (db\<lparr>attempts := sql_update p (set_attempt s r n) (attempts db)\<rparr>)"
proof -
  let ?db = "db\<lparr>attempts := sql_update p (set_attempt s r n) (attempts db)\<rparr>"
  have adv: "scope_advances db ?db"
    using assms(2,3) by (auto simp: scope_advances_def attempt_advances_def set_attempt_def intro!: rows_kept_update)
  have "\<And>a. a \<in> set (attempts ?db) \<Longrightarrow> attempt_in_scope (reservations db) (resource_bindings db) a"
    using assms(1) by (auto simp: wf_scope_def set_sql_update in_scope_cong [of "set_attempt s r n _"])
  moreover have "\<And>j. j \<in> set (adjudications db) \<Longrightarrow> decided_and_preserved ?db j"
    using assms(1) decided_kept [OF adv] by (simp add: wf_scope_def)
  ultimately have "wf_scope ?db" using assms(1) by (simp add: wf_scope_def)
  with adv show ?thesis by (simp add: scope_safe_def)
qed

lemma reservations_update_safe:
  assumes "wf_scope db" "\<And>v. p v \<Longrightarrow> v_status v \<noteq> TB_QUARANTINED" "s \<noteq> TB_RESERVED"
  shows "scope_safe db (db\<lparr>reservations := sql_update p (\<lambda>v. v\<lparr>v_status := s, v_updated_at := n\<rparr>) (reservations db)\<rparr>)"
proof -
  let ?db = "db\<lparr>reservations := sql_update p (\<lambda>v. v\<lparr>v_status := s, v_updated_at := n\<rparr>) (reservations db)\<rparr>"
  have adv: "scope_advances db ?db"
    using assms(2,3) by (auto simp: scope_advances_def reservation_advances_def intro!: rows_kept_update)
  have "\<And>a. a \<in> set (attempts db) \<Longrightarrow> attempt_in_scope (reservations ?db) (resource_bindings db) a"
    using assms(1) adv in_scope_kept [of "reservations db" "reservations ?db" "resource_bindings db" "resource_bindings db"]
    by (simp add: wf_scope_def scope_advances_def)
  moreover have "\<And>j. j \<in> set (adjudications db) \<Longrightarrow> decided_and_preserved ?db j"
    using assms(1) decided_kept [OF adv] by (simp add: wf_scope_def)
  moreover have "unique_key v_task_id (reservations ?db)" using assms(1) by (simp add: wf_scope_def)
  ultimately have "wf_scope ?db" using assms(1) by (simp add: wf_scope_def)
  with adv show ?thesis by (simp add: scope_safe_def)
qed

lemma quarantine_record_safe:
  assumes "wf_scope db" "is_installed db"
  shows "scope_safe db (quarantine_record env kind k reason now db)"
proof (cases "by_key quarantine_key (kind, k) (quarantine db)")
  case (Some q)
  then show ?thesis using assms by (simp add: quarantine_record_def scope_safe_refl)
next
  case None
  define row where "row = \<lparr>q_record_kind = kind, q_record_id = k, q_reason_code = reason,
     q_evidence_hash = quarantine_evidence env kind k reason, q_created_at = now\<rparr>"
  let ?db = "db\<lparr>quarantine := quarantine db @ [row]\<rparr>"
  have adv: "scope_advances db ?db" by (simp add: scope_advances_def)
  have "\<And>j. j \<in> set (adjudications db) \<Longrightarrow> decided_and_preserved ?db j"
    using assms(1) decided_kept [OF adv] by (simp add: wf_scope_def)
  moreover have "unique_key quarantine_key (quarantine ?db)"
    using assms(1) None by (simp add: wf_scope_def unique_key_append_one quarantine_key_def row_def)
  ultimately have "wf_scope ?db" using assms by (simp add: wf_scope_def is_installed_def)
  with adv show ?thesis using None by (simp add: scope_safe_def quarantine_record_def row_def)
qed

lemma quarantine_attempt_safe:
  assumes "wf_scope db" "is_installed db"
  shows "scope_safe db (quarantine_attempt env k reason now db)"
proof -
  have 1: "scope_safe db (db\<lparr>attempts := sql_update (\<lambda>a. a_run_id a = k \<and> a_status a \<noteq> AB_QUARANTINED)
              (set_attempt AB_QUARANTINED reason now) (attempts db)\<rparr>)" (is "scope_safe db ?db")
    using assms(1) by (rule attempts_update_safe) simp_all
  moreover have "scope_safe ?db (quarantine_record env RUN_ATTEMPT k reason now ?db)"
    using scope_safe_wf [OF 1] assms(2) by (intro quarantine_record_safe) (simp_all add: is_installed_def)
  ultimately show ?thesis unfolding quarantine_attempt_def by (rule scope_safe_trans)
qed

lemma quarantine_task_safe:
  assumes "wf_scope db" "is_installed db"
  shows "scope_safe db (quarantine_task env k reason now db)"
proof -
  define db1 where "db1 = db\<lparr>reservations := sql_update (\<lambda>v. v_task_id v = k \<and> v_status v \<noteq> TB_QUARANTINED)
              (\<lambda>v. v\<lparr>v_status := TB_QUARANTINED, v_updated_at := now\<rparr>) (reservations db)\<rparr>"
  define db2 where "db2 = db1\<lparr>attempts := sql_update (\<lambda>a. a_task_id a = k \<and> a_status a \<noteq> AB_QUARANTINED)
              (set_attempt AB_QUARANTINED reason now) (attempts db1)\<rparr>"
  have 1: "scope_safe db db1" unfolding db1_def using assms(1) by (rule reservations_update_safe) simp_all
  have 2: "scope_safe db1 db2" unfolding db2_def using scope_safe_wf [OF 1] by (rule attempts_update_safe) simp_all
  have 3: "scope_safe db2 (quarantine_record env TASK_RESERVATION k reason now db2)"
    using scope_safe_wf [OF 2] assms(2) by (intro quarantine_record_safe) (simp_all add: is_installed_def db1_def db2_def)
  have "quarantine_task env k reason now db = quarantine_record env TASK_RESERVATION k reason now db2"
    by (simp add: quarantine_task_def db1_def db2_def)
  then show ?thesis using scope_safe_trans [OF scope_safe_trans [OF 1 2] 3] by simp
qed

subsection \<open>Bootstrap\<close>

text \<open>Tables that the invariant does not mention may change freely.\<close>

lemma scope_safe_other:
  assumes "wf_scope db" "reservations db' = reservations db" "attempts db' = attempts db" "quarantine db' = quarantine db"
    "adjudications db' = adjudications db" "resource_bindings db' = resource_bindings db" "projects db' = projects db"
    "ever_activated db' = ever_activated db" "scope_schema db' = scope_schema db" "scope_frame db db'"
  shows "scope_safe db db'"
proof -
  have adv: "scope_advances db db'" using assms by (simp add: scope_advances_def)
  have "\<And>j. j \<in> set (adjudications db) \<Longrightarrow> decided_and_preserved db' j"
    using assms(1) decided_kept [OF adv] by (simp add: wf_scope_def)
  then have "wf_scope db'" using assms by (simp add: wf_scope_def)
  with adv assms show ?thesis by (simp add: scope_safe_def)
qed

lemma insert_project_safe:
  assumes "wf_scope db" "is_installed db" "insert_project item now db = (res, db')"
  shows "scope_safe db db' \<and> is_installed db' \<and> resource_bindings db' = resource_bindings db"
proof (cases "list_ex (\<lambda>p. p_project_id p = pv_project_id item \<or> p_project_key p = pv_project_key item) (projects db)")
  case True
  then show ?thesis using assms by (auto simp: insert_project_def scope_safe_refl)
next
  case False
  then have db': "db' = db\<lparr>projects := projects db @ [\<lparr>p_project_id = pv_project_id item, p_project_key = pv_project_key item,
               p_lifecycle_state = PROJECT_ACTIVE, p_scope_generation = 1, p_created_at = now, p_updated_at = now\<rparr>]\<rparr>"
    using assms(3) by (auto simp: insert_project_def)
  have adv: "scope_advances db db'" by (simp add: db' scope_advances_def)
  have "\<And>j. j \<in> set (adjudications db) \<Longrightarrow> decided_and_preserved db' j"
    using assms(1) decided_kept [OF adv] by (simp add: wf_scope_def)
  moreover have "by_key p_project_id (pv_project_id item) (projects db) = None"
    using False by (auto simp: list_ex_iff by_key_None_iff)
  ultimately have "wf_scope db'" using assms(1,2) by (simp add: wf_scope_def db' unique_key_append_one is_installed_def)
  with adv show ?thesis using assms(2) by (simp add: scope_safe_def db' is_installed_def)
qed

lemma insert_resource_safe:
  assumes "wf_scope db" "is_installed db" "insert_resource item now db = (res, db')"
  shows "scope_safe db db' \<and> is_installed db' \<and> resource_bindings db' = resource_bindings db"
  using assms by (auto simp: insert_resource_def is_installed_def intro!: scope_safe_other split: if_splits)

lemma binding_exists_by_key: "binding_exists project resource db = (by_key binding_key (project, resource) (resource_bindings db) \<noteq> None)"
  by (force simp: binding_exists_def by_key_None_iff list_ex_iff binding_key_def)

text \<open>The check that \<open>apply_bootstrap\<close> makes in its transaction.\<close>

definition may_bind :: "bootstrap_preview \<Rightarrow> resource_binding_row list \<Rightarrow> bool" where
  "may_bind item bs = (\<forall>b \<in> set bs. b_resource_id b = pv_resource_id item \<and> b_project_id b \<noteq> pv_project_id item \<longrightarrow>
     pv_access_mode item = SHARED \<and> b_access_mode b = SHARED)"

lemma insert_binding_safe:
  assumes "wf_scope db" "is_installed db" "may_bind item (resource_bindings db)" "insert_resource_binding item now db = (Inr u, db')"
  shows "scope_safe db db' \<and> is_installed db'"
proof (cases "binding_exists (pv_project_id item) (pv_resource_id item) db")
  case True
  then show ?thesis using assms by (auto simp: insert_resource_binding_def scope_safe_refl)
next
  case False
  define row where "row = \<lparr>b_project_id = pv_project_id item, b_resource_id = pv_resource_id item,
     b_access_mode = pv_access_mode item, b_created_at = now\<rparr>"
  have db': "db' = db\<lparr>resource_bindings := resource_bindings db @ [row]\<rparr>"
    using assms(4) False by (auto simp: insert_resource_binding_def row_def split: if_splits)
  have adv: "scope_advances db db'" by (simp add: db' scope_advances_def)
  have "\<And>j. j \<in> set (adjudications db) \<Longrightarrow> decided_and_preserved db' j"
    using assms(1) decided_kept [OF adv] by (simp add: wf_scope_def)
  moreover have "\<And>a. a \<in> set (attempts db) \<Longrightarrow> attempt_in_scope (reservations db) (resource_bindings db') a"
    using assms(1) in_scope_kept [of "reservations db" "reservations db" "resource_bindings db" "resource_bindings db'"]
    by (simp add: wf_scope_def db')
  moreover have "exclusive_bindings (resource_bindings db')"
    using assms(1,3) by (auto simp: wf_scope_def exclusive_bindings_def db' may_bind_def row_def)
  moreover have "unique_key binding_key (resource_bindings db')"
    using assms(1) False by (simp add: wf_scope_def db' unique_key_append_one binding_exists_by_key row_def binding_key_def)
  ultimately have "wf_scope db'" using assms(1,2) by (simp add: wf_scope_def db' is_installed_def)
  with adv show ?thesis using assms(2) by (simp add: scope_safe_def db' is_installed_def)
qed

lemma insert_repository_safe:
  assumes "wf_scope db" "insert_repository_binding item now db = (Inr u, db')"
  shows "scope_safe db db'"
  using assms by (auto simp: insert_repository_binding_def intro!: scope_safe_other split: if_splits)

lemma record_bootstrap_safe:
  assumes "wf_scope db" "record_bootstrap env item now db = (Inr u, db')"
  shows "scope_safe db db'"
  using assms by (auto simp: record_bootstrap_def Let_def intro!: scope_safe_other split: sum.splits if_splits)

lemma in_transaction_Inr: "in_transaction body db = (Inr v, db') \<Longrightarrow> body db = (Inr v, db')"
  by (auto simp: in_transaction_def split: prod.splits sum.splits)

lemma in_transaction_Inl: "in_transaction body db = (Inl e, db') \<Longrightarrow> db' = db"
  by (auto simp: in_transaction_def split: prod.splits sum.splits)

text \<open>A transaction is safe when its body is safe whenever it returns.\<close>

lemma in_transaction_safe:
  assumes "wf_scope db" "in_transaction body db = (res, db')" "\<And>v d. body db = (Inr v, d) \<Longrightarrow> scope_safe db d"
  shows "scope_safe db db'"
  using assms by (cases res) (auto dest: in_transaction_Inl in_transaction_Inr simp: scope_safe_refl)

lemma and_then_Inr: "and_then a f = (Inr v, db') \<Longrightarrow> \<exists>db1. a = (Inr (), db1) \<and> f db1 = (Inr v, db')"
  using and_then_snd [of a f "Inr v" db'] by auto

lemma apply_bootstrap_safe:
  assumes "wf_scope db" "is_installed db" "apply_bootstrap_write env item now db = (res, db')"
  shows "scope_safe db db'"
proof (rule in_transaction_safe [OF assms(1) assms(3) [unfolded apply_bootstrap_write_def]])
  let ?others = "filter (\<lambda>b. b_resource_id b = pv_resource_id item \<and> b_project_id b \<noteq> pv_project_id item) (resource_bindings db)"
  fix v d
  assume body: "(let others = ?others in
     if others \<noteq> [] \<and> (pv_access_mode item \<noteq> SHARED \<or> list_ex (\<lambda>b. b_access_mode b \<noteq> SHARED) others)
     then (Inl (ProjectScopeError ''Repository resource has an exclusive project binding''), db)
     else and_then (insert_project item now db) (\<lambda>db1.
          and_then (insert_resource item now db1) (\<lambda>db2.
          and_then (insert_resource_binding item now db2) (\<lambda>db3.
          and_then (insert_repository_binding item now db3) (record_bootstrap env item now))))) = (Inr v, d)"
  then have ok: "\<not> (?others \<noteq> [] \<and> (pv_access_mode item \<noteq> SHARED \<or> list_ex (\<lambda>b. b_access_mode b \<noteq> SHARED) ?others))"
    by (intro notI) (simp add: Let_def)
  then have may: "may_bind item (resource_bindings db)" by (auto simp: may_bind_def filter_empty_conv list_ex_iff)
  from body ok have "and_then (insert_project item now db) (\<lambda>db1.
          and_then (insert_resource item now db1) (\<lambda>db2.
          and_then (insert_resource_binding item now db2) (\<lambda>db3.
          and_then (insert_repository_binding item now db3) (record_bootstrap env item now)))) = (Inr v, d)"
    by (simp only: Let_def if_False)
  then obtain db1 db2 db3 db4 where steps: "insert_project item now db = (Inr (), db1)" "insert_resource item now db1 = (Inr (), db2)"
      "insert_resource_binding item now db2 = (Inr (), db3)" "insert_repository_binding item now db3 = (Inr (), db4)"
      "record_bootstrap env item now db4 = (Inr v, d)"
    by (auto dest!: and_then_Inr)
  note 1 = insert_project_safe [OF assms(1,2) steps(1)]
  note 2 = insert_resource_safe [OF _ _ steps(2)]
  have s2: "scope_safe db1 db2" "is_installed db2" "resource_bindings db2 = resource_bindings db"
    using 1 2 scope_safe_wf by auto
  have s3: "scope_safe db2 db3" using insert_binding_safe [OF scope_safe_wf [OF s2(1)] s2(2) _ steps(3)] may s2(3) by simp
  have s4: "scope_safe db3 db4" using insert_repository_safe [OF scope_safe_wf [OF s3] steps(4)] .
  have s5: "scope_safe db4 d" using record_bootstrap_safe [OF scope_safe_wf [OF s4] steps(5)] .
  show "scope_safe db d" using 1 s2(1) s3 s4 s5 by (meson scope_safe_trans)
qed

lemma set_enabled_safe:
  assumes "wf_scope db" "set_scoped_writes_enabled enabled now db = (res, db')"
  shows "scope_safe db db'"
proof (cases "db' = db")
  case False
  have i: "is_installed db" and db': "db' = db\<lparr>writes_enabled := enabled, ever_activated := (enabled \<or> ever_activated db), settings_updated_at := now\<rparr>"
    using assms(2) False by (auto simp: set_scoped_writes_enabled_def Let_def split: if_splits)
  have adv: "scope_advances db db'" by (simp add: db' scope_advances_def)
  have "\<And>j. j \<in> set (adjudications db) \<Longrightarrow> decided_and_preserved db' j"
    using assms(1) decided_kept [OF adv] by (simp add: wf_scope_def)
  then have "wf_scope db'" using assms(1) i by (simp add: wf_scope_def db' is_installed_def)
  with adv show ?thesis by (simp add: scope_safe_def db')
qed (simp add: assms scope_safe_refl)

subsection \<open>Reservations and attempts\<close>

lemma repository_rows_bound:
  assumes "b \<in> set (repository_rows project repo hash db)"
  shows "binding_exists (rb_project_id b) (rb_resource_id b) db \<and>
     (\<exists>p \<in> set (projects db). p_project_id p = rb_project_id b \<and> p_lifecycle_state p = PROJECT_ACTIVE \<and>
        p_scope_generation p = rb_scope_generation b) \<and> (project = [] \<or> rb_project_id b = project)"
  using assms by (auto simp: repository_rows_def binding_exists_def list_ex_iff)

lemma resolve_rows:
  assumes "resolve_repository env project repo root db = Inr b"
  shows "is_installed db \<and> repository_rows project repo (repository_identity_hash env (canonical_repository_root env root)) db = [b]"
  using assms by (auto simp: resolve_repository_def split: if_splits list.splits)

lemma resolve_bound:
  assumes "resolve_repository env project repo root db = Inr b"
  shows "is_installed db \<and> by_key binding_key (rb_project_id b, rb_resource_id b) (resource_bindings db) \<noteq> None"
proof -
  note r = resolve_rows [OF assms]
  then have "binding_exists (rb_project_id b) (rb_resource_id b) db" 
    using repository_rows_bound [of b project repo "repository_identity_hash env (canonical_repository_root env root)" db] by simp
  with r show ?thesis by (simp add: binding_exists_by_key)
qed

definition new_reservation :: "repository_binding \<Rightarrow> string \<Rightarrow> timestamp \<Rightarrow> reservation_row" where
  "new_reservation b task_id now = \<lparr>v_task_id = task_id, v_project_id = rb_project_id b, v_scope_generation = rb_scope_generation b,
     v_status = TB_RESERVED, v_created_at = now, v_updated_at = now\<rparr>"

definition new_attempt :: "repository_binding \<Rightarrow> string \<Rightarrow> string \<Rightarrow> timestamp \<Rightarrow> attempt_row" where
  "new_attempt b task_id run_id now = \<lparr>a_run_id = run_id, a_project_id = rb_project_id b, a_task_id = task_id,
     a_resource_id = rb_resource_id b, a_scope_generation = rb_scope_generation b, a_status = AB_RESERVED,
     a_recovery_reason = [], a_created_at = now, a_updated_at = now\<rparr>"

lemma reserve_attempt_Inr:
  assumes "reserve_task_attempt env b task_id run_id parent now db = (Inr u, db')"
  shows "resolve_repository env (rb_project_id b) (rb_repo_name b) (rb_repository_root b) db = Inr b \<and>
    by_key v_task_id task_id (reservations db) = None \<and> \<not> list_ex (\<lambda>a. a_run_id a = run_id \<or> a_task_id a = task_id) (attempts db) \<and>
    db' = db\<lparr>reservations := reservations db @ [new_reservation b task_id now], attempts := attempts db @ [new_attempt b task_id run_id now]\<rparr>"
  using assms unfolding new_reservation_def new_attempt_def
  by (auto simp: reserve_task_attempt_def Let_def split: option.splits sum.splits if_splits)

lemma reserve_attempt_safe:
  assumes "wf_scope db" "reserve_task_attempt env b task_id run_id parent now db = (Inr u, db')"
  shows "scope_safe db db'"
proof -
  note r = reserve_attempt_Inr [OF assms(2)]
  have adv: "scope_advances db db'" using r by (auto simp: scope_advances_def)
  have i: "is_installed db" and bound: "by_key binding_key (rb_project_id b, rb_resource_id b) (resource_bindings db) \<noteq> None"
    using r resolve_bound by blast+
  have "\<And>j. j \<in> set (adjudications db) \<Longrightarrow> decided_and_preserved db' j"
    using assms(1) decided_kept [OF adv] by (simp add: wf_scope_def)
  moreover have "\<And>a. a \<in> set (attempts db) \<Longrightarrow> attempt_in_scope (reservations db') (resource_bindings db) a"
    using assms(1) adv in_scope_kept [of "reservations db" "reservations db'" "resource_bindings db" "resource_bindings db"]
    by (simp add: wf_scope_def scope_advances_def)
  moreover have "attempt_in_scope (reservations db') (resource_bindings db) (new_attempt b task_id run_id now)"
    using r bound by (auto simp: attempt_in_scope_def new_attempt_def new_reservation_def by_key_append)
  moreover have "unique_key v_task_id (reservations db')"
    using assms(1) r by (simp add: wf_scope_def unique_key_append_one new_reservation_def)
  moreover have "by_key a_run_id run_id (attempts db) = None" "by_key a_task_id task_id (attempts db) = None"
    using r by (auto simp: list_ex_iff by_key_None_iff)
  then have "unique_key a_run_id (attempts db')" "unique_key a_task_id (attempts db')"
    using assms(1) r by (simp_all add: wf_scope_def unique_key_append_one new_attempt_def)
  ultimately have "wf_scope db'" using assms(1) r i by (auto simp: wf_scope_def is_installed_def)
  with adv r show ?thesis by (simp add: scope_safe_def)
qed

lemma attach_task_safe:
  assumes "wf_scope db" "attach_task task_id now db = (res, db')"
  shows "scope_safe db db'"
  using assms by (auto simp: attach_task_def Let_def scope_safe_refl intro!: reservations_update_safe split: if_splits)

lemma attach_attempt_safe:
  assumes "wf_scope db" "attach_attempt run_id now db = (res, db')"
  shows "scope_safe db db'"
proof (rule in_transaction_safe [OF assms(1) assms(2) [unfolded attach_attempt_def]])
  fix v d
  assume "(if \<not> is_installed db then (Inl no_such_table, db)
     else case by_key a_run_id run_id (attempts db) of
       None \<Rightarrow> (Inl (ProjectScopeError (''Run attempt is not reserved: '' @ run_id)), db)
     | Some a \<Rightarrow>
         if a_status a = AB_ATTACHED then (Inr False, db)
         else if run_by_id run_id db = None then (Inl (ProjectScopeError ''Durable run row is not present''), db)
         else
           let hit = (\<lambda>x. a_run_id x = run_id \<and> a_status x \<in> {AB_RESERVED, AB_RECOVERY_PENDING})
           in if sql_count hit (attempts db) \<noteq> 1
              then (Inl (ProjectScopeError ''Run attempt attachment lost its reservation''), db)
              else (Inr True, db\<lparr>attempts := sql_update hit (set_attempt AB_ATTACHED [] now) (attempts db)\<rparr>)) = (Inr v, d)"
  then show "scope_safe db d"
    using assms(1) by (auto simp: Let_def scope_safe_refl intro!: attempts_update_safe split: if_splits option.splits)
qed

lemma mark_recovery_safe:
  assumes "wf_scope db" "mark_attempt_recovery_pending run_id reason now db = (res, db')"
  shows "scope_safe db db'"
  using assms by (auto simp: mark_attempt_recovery_pending_def Let_def scope_safe_refl intro!: attempts_update_safe split: if_splits)

subsection \<open>Reconciliation\<close>

lemma quarantine_installed [simp]:
  "is_installed (quarantine_task env k reason now db) = is_installed db"
  "is_installed (quarantine_attempt env k reason now db) = is_installed db"
  by (simp_all add: quarantine_task_def quarantine_attempt_def quarantine_record_def is_installed_def)

lemma reconcile_reservation_safe:
  assumes "wf_scope db" "is_installed db"
  shows "scope_safe db (fst (reconcile_reservation env now row (db, c))) \<and> is_installed (fst (reconcile_reservation env now row (db, c)))"
  using assms by (cases row) (simp add: reconcile_reservation_def scope_safe_refl quarantine_task_safe)

lemma reconcile_attempt_safe:
  assumes "wf_scope db" "is_installed db"
  shows "scope_safe db (fst (reconcile_attempt env now w (db, c))) \<and> is_installed (fst (reconcile_attempt env now w (db, c)))"
proof -
  have "scope_safe db (db\<lparr>attempts := sql_update (\<lambda>x. a_run_id x = k \<and> a_status x = AB_RESERVED) (set_attempt AB_RECOVERY_PENDING r now) (attempts db)\<rparr>)"
    "scope_safe db (db\<lparr>attempts := sql_update (\<lambda>x. a_run_id x = k \<and> (a_status x = AB_RESERVED \<or> a_status x = AB_RECOVERY_PENDING))
        (set_attempt AB_ATTACHED r now) (attempts db)\<rparr>)" for k r
    by (rule attempts_update_safe [OF assms(1)]; auto)+
  then show ?thesis
    using assms quarantine_task_safe [OF assms] quarantine_attempt_safe [OF assms]
    by (simp add: reconcile_attempt_def Let_def scope_safe_refl) (simp add: is_installed_def)
qed

lemma fold_safe:
  assumes "\<And>d c x. wf_scope d \<Longrightarrow> is_installed d \<Longrightarrow> scope_safe d (fst (f x (d, c))) \<and> is_installed (fst (f x (d, c)))"
    and "wf_scope db" "is_installed db"
  shows "scope_safe db (fst (fold f xs (db, c))) \<and> is_installed (fst (fold f xs (db, c)))"
  using assms(2,3)
proof (induction xs arbitrary: db c)
  case (Cons x xs)
  obtain d c' where fx: "f x (db, c) = (d, c')" by fastforce
  with assms(1) [OF Cons.prems, of x c] have 1: "scope_safe db d" "is_installed d" by simp_all
  with Cons.IH [OF scope_safe_wf [OF 1(1)] 1(2), of c'] fx show ?case by (auto intro: scope_safe_trans)
qed (simp add: scope_safe_refl)

lemma scope_reconcile_safe:
  assumes "wf_scope db"
  shows "scope_safe db (snd (scope_reconcile_startup env now db))"
proof (cases "is_installed db")
  case True
  obtain db1 c1 where 1: "fold (reconcile_reservation env now) (reservation_rows db) (db, no_counts) = (db1, c1)" by fastforce
  obtain db2 c2 where 2: "fold (reconcile_attempt env now) (attempt_views db1) (db1, c1) = (db2, c2)" by fastforce
  have s1: "scope_safe db db1" "is_installed db1"
    using fold_safe [of "reconcile_reservation env now", OF reconcile_reservation_safe assms True, of "reservation_rows db" no_counts] 1
    by simp_all
  have s2: "scope_safe db1 db2"
    using fold_safe [of "reconcile_attempt env now", OF reconcile_attempt_safe scope_safe_wf [OF s1(1)] s1(2), of "attempt_views db1" c1] 2
    by simp
  show ?thesis using scope_safe_trans [OF s1(1) s2] True by (simp add: scope_reconcile_startup_def 1 2)
qed (simp add: scope_reconcile_startup_def scope_safe_refl assms)

subsection \<open>Adjudication\<close>

definition decision_row :: "scope_env \<Rightarrow> adjudication_request_args \<Rightarrow> record_kind \<Rightarrow> disposition \<Rightarrow> string \<Rightarrow> timestamp \<Rightarrow> adjudication_row" where
  "decision_row env q kind disp evidence now =
     \<lparr>j_adjudication_id = adjudication_id env (ar_project_id q) kind (ar_record_id q) (ar_idempotency_key q),
      j_project_id = ar_project_id q, j_record_kind = kind, j_record_id = ar_record_id q,
      j_disposition = disp, j_successor_task_id = ar_successor_task_id q, j_reason = trimmed_reason q,
      j_idempotency_key = ar_idempotency_key q,
      j_request_hash = adjudication_request_hash env (ar_project_id q) kind (ar_record_id q) disp (trimmed_reason q) (ar_successor_task_id q),
      j_evidence_hash = evidence, j_created_at = now\<rparr>"

lemma quarantine_view_adjudications [simp]: "quarantine_view kind k (db\<lparr>adjudications := x\<rparr>) = quarantine_view kind k db"
  by (cases kind) (simp_all add: quarantine_view_def quarantine_owner_def)

lemma by_key_fresh_append: "by_key key (key r) rows = None \<Longrightarrow> by_key key (key r) (rows @ [r]) = Some r"
  by (simp add: by_key_append)

lemma adjudicate_Inr:
  assumes "adjudicate_in_transaction env q kind disp now db = (Inr (row, replayed), db')"
  shows "\<exists>evidence. quarantine_view kind (ar_record_id q) db = Some (ar_project_id q, True, evidence) \<and>
    (disp = SUPERSEDED \<longrightarrow> successor_ok (ar_project_id q) (ar_successor_task_id q) db) \<and>
    (if replayed
     then db' = db \<and> by_key adjudication_key (kind, ar_record_id q) (adjudications db) = Some row \<and>
          j_adjudication_id row = j_adjudication_id (decision_row env q kind disp evidence now) \<and>
          j_request_hash row = j_request_hash (decision_row env q kind disp evidence now)
     else by_key adjudication_key (kind, ar_record_id q) (adjudications db) = None \<and>
          row = decision_row env q kind disp evidence now \<and> adjudication_insert_ok row db \<and>
          db' = db\<lparr>adjudications := adjudications db @ [row]\<rparr>)"
proof -
  obtain owner quarantined evidence where view: "quarantine_view kind (ar_record_id q) db = Some (owner, quarantined, evidence)"
    using assms by (auto simp: adjudicate_in_transaction_def Let_def split: option.splits)
  let ?row = "decision_row env q kind disp evidence now"
  have scope: "owner = ar_project_id q" "quarantined" "disp = SUPERSEDED \<longrightarrow> successor_ok (ar_project_id q) (ar_successor_task_id q) db"
    using assms view by (auto simp: adjudicate_in_transaction_def Let_def split: if_splits)
  show ?thesis
  proof (cases "by_key adjudication_key (kind, ar_record_id q) (adjudications db)")
    case (Some j)
    then show ?thesis using assms view scope
      by (auto simp: adjudicate_in_transaction_def Let_def decision_row_def split: if_splits)
  next
    case None
    have ns: "(disp = SUPERSEDED \<and> \<not> successor_ok (ar_project_id q) (ar_successor_task_id q) db) = False" using scope(3) by blast
    have red: "adjudicate_in_transaction env q kind disp now db =
       (if \<not> adjudication_insert_ok ?row db then (Inl (IntegrityError ''project_scope_adjudications''), db)
        else case by_key j_adjudication_id (j_adjudication_id ?row) (adjudications db @ [?row]) of
           None \<Rightarrow> (Inl (TypeError ''row is None''), db\<lparr>adjudications := adjudications db @ [?row]\<rparr>)
         | Some w \<Rightarrow> (Inr (w, False), db\<lparr>adjudications := adjudications db @ [?row]\<rparr>))"
      using view scope(1,2) None unfolding adjudicate_in_transaction_def decision_row_def by (simp add: Let_def ns)
    have "adjudication_insert_ok ?row db" using assms red by (auto split: if_splits)
    moreover from this have "by_key j_adjudication_id (j_adjudication_id ?row) (adjudications db) = None"
      by (auto simp: adjudication_insert_ok_def list_ex_iff by_key_None_iff)
    ultimately show ?thesis using assms red None view scope by (auto simp: by_key_append)
  qed
qed

lemma adjudication_append_safe:
  assumes "wf_scope db" "adjudication_insert_ok j db" "scope_schema db \<ge> 2"
    "quarantine_view (j_record_kind j) (j_record_id j) db = Some (j_project_id j, True, j_evidence_hash j)"
  shows "scope_safe db (db\<lparr>adjudications := adjudications db @ [j]\<rparr>)" (is "scope_safe db ?db")
proof -
  have adv: "scope_advances db ?db" by (simp add: scope_advances_def)
  have "\<And>x. x \<in> set (adjudications db) \<Longrightarrow> decided_and_preserved ?db x"
    using assms(1) decided_kept [OF adv] by (simp add: wf_scope_def)
  moreover have "decided_and_preserved ?db j" using assms(4) by (simp add: decided_and_preserved_def)
  moreover have "by_key adjudication_key (adjudication_key j) (adjudications db) = None"
    using assms(2) by (force simp: adjudication_insert_ok_def list_ex_iff by_key_None_iff)
  ultimately have "wf_scope ?db" using assms(1,3) by (simp add: wf_scope_def unique_key_append_one)
  with adv show ?thesis by (simp add: scope_safe_def)
qed

lemma adjudicate_safe:
  assumes "wf_scope db" "adjudicate_quarantine env q now db = (res, db')"
  shows "scope_safe db db'"
proof (cases "adjudication_request_error q db")
  case (Some e)
  then show ?thesis using assms by (simp add: adjudicate_quarantine_def scope_safe_refl)
next
  case ok: None
  then have schema: "scope_schema db \<ge> 2"
    by (auto simp: adjudication_request_error_def first_error_def adjudication_schema_error_def split: if_splits option.splits)
  show ?thesis
  proof (cases "parse_record_kind (ar_record_kind q) = None \<or> parse_disposition (ar_disposition q) = None")
    case True
    then show ?thesis using assms ok by (auto simp: adjudicate_quarantine_def scope_safe_refl split: option.splits)
  next
    case False
    then obtain kind disp where "parse_record_kind (ar_record_kind q) = Some kind" "parse_disposition (ar_disposition q) = Some disp" by auto
    then have "in_transaction (adjudicate_in_transaction env q kind disp now) db = (res, db')"
      using assms(2) ok by (simp add: adjudicate_quarantine_def)
    then show ?thesis
    proof (rule in_transaction_safe [OF assms(1)])
      fix v d assume body: "adjudicate_in_transaction env q kind disp now db = (Inr v, d)"
      obtain row replayed where v: "v = (row, replayed)" by (cases v)
      from adjudicate_Inr [OF body [unfolded v]] show "scope_safe db d"
        using adjudication_append_safe [OF assms(1) _ schema] assms(1)
        by (cases replayed) (auto simp: scope_safe_refl decision_row_def)
    qed
  qed
qed

subsection \<open>Steps\<close>

lemma init_scope_safe: "wf_scope db \<Longrightarrow> scope_safe db (init_scope_db db)"
proof -
  assume wf: "wf_scope db"
  consider "scope_schema db = 0" | "scope_schema db = 1" | "scope_schema db \<ge> 2" by linarith
  then show ?thesis
  proof cases
    case 1
    then show ?thesis using wf
      by (simp add: scope_safe_def wf_scope_def init_scope_db_def scope_advances_def scope_frame_def task_db.defs rows_kept_def exclusive_bindings_def)
  next
    case 2
    then show ?thesis using wf
      by (simp add: scope_safe_def wf_scope_def init_scope_db_def scope_advances_def scope_frame_def task_db.defs)
  next
    case 3
    then have "init_scope_db db = db" by (simp add: init_scope_db_def max_def)
    then show ?thesis using wf by (simp add: scope_safe_refl)
  qed
qed

text \<open>One committed call on the sidecar. The preview of a bootstrap may have been computed on any earlier
  database; the reservation and attachment of a task run inside a transaction of their caller.\<close>

inductive scope_step :: "'a scope_db_scheme \<Rightarrow> 'a scope_db_scheme \<Rightarrow> bool" where
  init: "scope_step db (init_scope_db db)"
| bootstrap: "is_installed db \<Longrightarrow> scope_step db (snd (apply_bootstrap_write env item now db))"
| enable: "scope_step db (snd (set_scoped_writes_enabled enabled now db))"
| reserve: "scope_step db (snd (in_transaction (reserve_task_attempt env b task_id run_id parent now) db))"
| attach_task: "scope_step db (snd (in_transaction (attach_task task_id now) db))"
| attach_attempt: "scope_step db (snd (attach_attempt run_id now db))"
| recovery: "scope_step db (snd (mark_attempt_recovery_pending run_id reason now db))"
| reconcile: "scope_step db (snd (scope_reconcile_startup env now db))"
| adjudicate: "scope_step db (snd (adjudicate_quarantine env q now db))"

lemma scope_step_safe: "scope_step db db' \<Longrightarrow> wf_scope db \<Longrightarrow> scope_safe db db'"
proof (induction rule: scope_step.induct)
  case (bootstrap db env item now)
  then show ?case using apply_bootstrap_safe by (metis prod.collapse)
next
  case (enable db enabled now)
  then show ?case using set_enabled_safe by (metis prod.collapse)
next
  case (reserve db env b task_id run_id parent now)
  then show ?case by (metis prod.collapse in_transaction_safe reserve_attempt_safe)
next
  case (attach_task db task_id now)
  then show ?case by (metis prod.collapse in_transaction_safe attach_task_safe)
next
  case (attach_attempt db run_id now)
  then show ?case using attach_attempt_safe by (metis prod.collapse)
next
  case (recovery db run_id reason now)
  then show ?case using mark_recovery_safe by (metis prod.collapse)
next
  case (adjudicate db env q now)
  then show ?case using adjudicate_safe by (metis prod.collapse)
qed (simp_all add: init_scope_safe scope_reconcile_safe)

lemma scope_steps_safe:
  assumes "scope_step\<^sup>*\<^sup>* db db'" "wf_scope db"
  shows "scope_safe db db'"
  using assms
proof (induction rule: rtranclp_induct)
  case (step y z)
  then have "scope_safe db y" by simp
  with scope_step_safe [OF step.hyps(2) scope_safe_wf] show ?case using scope_safe_trans by blast
qed (simp add: scope_safe_refl)

section \<open>Properties\<close>

lemma quarantined_attempt_kept:
  assumes "scope_advances db db'" "by_key a_run_id k (attempts db) = Some a" "a_status a = AB_QUARANTINED"
  shows "by_key a_run_id k (attempts db') = Some a"
  using assms by (auto simp: scope_advances_def attempt_advances_def dest: rows_keptD)

lemma quarantined_reservation_kept:
  assumes "scope_advances db db'" "by_key v_task_id k (reservations db) = Some v" "v_status v = TB_QUARANTINED"
  shows "by_key v_task_id k (reservations db') = Some v"
  using assms by (auto simp: scope_advances_def reservation_advances_def dest: rows_keptD)

lemma attempt_unique: "wf_scope db \<Longrightarrow> by_key a_run_id k (attempts db) = Some a \<Longrightarrow> x \<in> set (attempts db) \<Longrightarrow> a_run_id x = k \<Longrightarrow> x = a"
  by (metis by_key_unique option.inject wf_scope_def)

lemma quarantined_not_launchable:
  assumes "wf_scope db" "by_key a_run_id k (attempts db) = Some a" "a_status a = AB_QUARANTINED"
  shows "require_launchable_attempt b t k db \<noteq> Inr ()" "require_task_attempt project t k db \<noteq> Inr scope"
proof -
  have q: "\<And>x. x \<in> set (attempts db) \<Longrightarrow> a_run_id x = k \<Longrightarrow> a_status x = AB_QUARANTINED"
    using attempt_unique [OF assms(1,2)] assms(3) by blast
  have "\<And>r rs. launch_rows b t k db = r # rs \<Longrightarrow> \<not> launchable b r"
  proof -
    fix r rs assume "launch_rows b t k db = r # rs"
    then have "r \<in> set (launch_rows b t k db)" by simp
    then show "\<not> launchable b r" using q by (auto simp: launch_rows_def launchable_def split: if_splits)
  qed
  then show "require_launchable_attempt b t k db \<noteq> Inr ()" by (auto simp: require_launchable_attempt_def split: list.splits)
  show "require_task_attempt project t k db \<noteq> Inr scope"
    using q by (auto simp: require_task_attempt_def list_ex_iff split: sum.splits if_splits)
qed

text \<open>C30. Quarantine is final. Whatever calls follow, a quarantined run attempt keeps its row unchanged, the evidence of its
  quarantine stays, it is never again accepted for launch, and it is never again accepted as the run of a task.\<close>

theorem quarantine_is_final:
  assumes "wf_scope db" "scope_step\<^sup>*\<^sup>* db db'" "by_key a_run_id k (attempts db) = Some a" "a_status a = AB_QUARANTINED"
  shows "by_key a_run_id k (attempts db') = Some a \<and>
    (\<forall>q. by_key quarantine_key (RUN_ATTEMPT, k) (quarantine db) = Some q \<longrightarrow> by_key quarantine_key (RUN_ATTEMPT, k) (quarantine db') = Some q) \<and>
    require_launchable_attempt b t k db' \<noteq> Inr () \<and> (\<forall>scope. require_task_attempt project t k db' \<noteq> Inr scope)"
proof -
  have safe: "wf_scope db'" "scope_advances db db'" using scope_steps_safe [OF assms(2,1)] by (simp_all add: scope_safe_def)
  note a = quarantined_attempt_kept [OF safe(2) assms(3,4)]
  have "\<forall>q. by_key quarantine_key (RUN_ATTEMPT, k) (quarantine db) = Some q \<longrightarrow> by_key quarantine_key (RUN_ATTEMPT, k) (quarantine db') = Some q"
    using safe(2) by (auto simp: scope_advances_def dest: rows_keptD)
  with a quarantined_not_launchable [OF safe(1) a assms(4)] show ?thesis by blast
qed

text \<open>Ownership. In every database reached from a well-formed one, a resource bound to two projects is shared in
  both, and every run attempt belongs to the project of its task's reservation and to a resource bound to that project.\<close>

theorem scope_ownership:
  assumes "wf_scope db" "scope_step\<^sup>*\<^sup>* db db'"
  shows "(\<forall>b \<in> set (resource_bindings db'). \<forall>c \<in> set (resource_bindings db').
           b_resource_id b = b_resource_id c \<and> b_project_id b \<noteq> b_project_id c \<longrightarrow> b_access_mode b = SHARED) \<and>
    (\<forall>a \<in> set (attempts db'). \<exists>v. by_key v_task_id (a_task_id a) (reservations db') = Some v \<and> v_project_id v = a_project_id a \<and>
           binding_exists (a_project_id a) (a_resource_id a) db')"
proof -
  have wf: "wf_scope db'" using scope_steps_safe [OF assms(2,1)] by (simp add: scope_safe_def)
  have "\<exists>v. by_key v_task_id (a_task_id a) (reservations db') = Some v \<and> v_project_id v = a_project_id a \<and>
       binding_exists (a_project_id a) (a_resource_id a) db'" if "a \<in> set (attempts db')" for a
  proof -
    have "attempt_in_scope (reservations db') (resource_bindings db') a" using wf that by (simp add: wf_scope_def)
    then show ?thesis by (auto simp: attempt_in_scope_def binding_exists_by_key)
  qed
  moreover have "exclusive_bindings (resource_bindings db')" using wf by (simp add: wf_scope_def)
  ultimately show ?thesis unfolding exclusive_bindings_def by blast
qed

end
