(* ===== verification/Scope_Decisions.thy ===== *)
theory Scope_Decisions
  imports Scope_Guarantees
begin

text \<open>
  Decisions on quarantined records, and start-up recovery of the scope tables. An adjudication is
  single-shot: after the first, the only accepted request is a replay that carries the same decision, and it is
  answered with the stored row. Reconciling twice changes nothing the second time.
\<close>

section \<open>Adjudication is single-shot\<close>

text \<open>The text that is hashed is unambiguous: the fields before the last contain no separator.\<close>

lemma nul_split:
  "NUL \<notin> set a \<Longrightarrow> NUL \<notin> set b \<Longrightarrow> a @ NUL # x = b @ NUL # y \<Longrightarrow> a = b \<and> x = y"
proof (induction a arbitrary: b)
  case Nil
  then show ?case by (cases b) auto
next
  case (Cons c a)
  then obtain c' b' where b: "b = c' # b'" by (cases b) auto
  with Cons.IH [of b'] Cons.prems show ?case by auto
qed

lemma request_text_injective:
  assumes "adjudication_request project kind record_id d reason s = adjudication_request project kind record_id d' reason' s'"
    and "NUL \<notin> set s" "NUL \<notin> set s'"
  shows "d = d' \<and> s = s' \<and> reason = reason'"
proof -
  have eq: "disposition_value d @ NUL # (s @ NUL # reason) = disposition_value d' @ NUL # (s' @ NUL # reason')"
    using assms(1) by (simp add: adjudication_request_def join_nul_def)
  have nul: "NUL \<notin> set (disposition_value d)" "NUL \<notin> set (disposition_value d')"
    by (cases d; simp add: NUL_def)(cases d'; simp add: NUL_def)
  from nul_split [OF nul eq] have "disposition_value d = disposition_value d'" "s @ NUL # reason = s' @ NUL # reason'" by simp_all
  with nul_split [OF assms(2,3)] show ?thesis by (cases d; cases d') auto
qed

lemma request_error_None:
  assumes "adjudication_request_error q db = None"
  shows "NUL \<notin> set (ar_successor_task_id q)" "scope_schema db \<ge> 2"
    "\<exists>kind disp. parse_record_kind (ar_record_kind q) = Some kind \<and> parse_disposition (ar_disposition q) = Some disp"
  using assms
  by (auto simp: adjudication_request_error_def first_error_def adjudication_schema_error_def opaque_id_error_def check_def
      split: if_splits option.splits)

lemma adjudicate_unfold:
  assumes "adjudicate_quarantine env q now db = (Inr (row, replayed), db')"
  obtains kind disp where "parse_record_kind (ar_record_kind q) = Some kind" "parse_disposition (ar_disposition q) = Some disp"
    "adjudicate_in_transaction env q kind disp now db = (Inr (row, replayed), db')" "NUL \<notin> set (ar_successor_task_id q)"
proof -
  have e: "adjudication_request_error q db = None"
    using assms by (auto simp: adjudicate_quarantine_def split: option.splits)
  note f = request_error_None [OF e]
  then obtain kind disp where p: "parse_record_kind (ar_record_kind q) = Some kind" "parse_disposition (ar_disposition q) = Some disp"
    by blast
  then have "in_transaction (adjudicate_in_transaction env q kind disp now) db = (Inr (row, replayed), db')"
    using assms e by (simp add: adjudicate_quarantine_def)
  from that [OF p in_transaction_Inr [OF this] f(1)] show thesis .
qed

text \<open>What a request decides: kind, record, disposition, successor and normalised reason.\<close>

definition decision_of :: "adjudication_request_args \<Rightarrow> string \<times> string \<times> string \<times> string \<times> string" where
  "decision_of q = (ar_record_kind q, ar_record_id q, ar_disposition q, ar_successor_task_id q, trimmed_reason q)"

lemma parse_injective:
  "parse_record_kind a = Some k \<Longrightarrow> a = record_kind_value k"
  "parse_disposition b = Some d \<Longrightarrow> b = disposition_value d"
  by (auto simp: parse_record_kind_def parse_disposition_def split: if_splits)

text \<open>The text hashed for a request with a given kind and disposition.\<close>

definition request_text :: "adjudication_request_args \<Rightarrow> string" where
  "request_text q =
     (case (parse_record_kind (ar_record_kind q), parse_disposition (ar_disposition q)) of
        (Some kind, Some disp) \<Rightarrow> adjudication_request (ar_project_id q) kind (ar_record_id q) disp (trimmed_reason q) (ar_successor_task_id q)
      | _ \<Rightarrow> [])"

lemma adjudicated_row:
  assumes "wf_scope db" "adjudicate_quarantine env q now db = (Inr (row, False), db1)" "parse_record_kind (ar_record_kind q) = Some kind"
  shows "by_key adjudication_key (kind, ar_record_id q) (adjudications db1) = Some row \<and> j_request_hash row = sha256 env (request_text q) \<and>
     j_project_id row = ar_project_id q"
proof -
  from assms(2) obtain kind' disp where p: "parse_record_kind (ar_record_kind q) = Some kind'" "parse_disposition (ar_disposition q) = Some disp"
    "adjudicate_in_transaction env q kind' disp now db = (Inr (row, False), db1)" by (rule adjudicate_unfold)
  have k: "kind' = kind" using p(1) assms(3) by simp
  from adjudicate_Inr [OF p(3)] k obtain ev where
    n: "by_key adjudication_key (kind, ar_record_id q) (adjudications db) = None" "row = decision_row env q kind disp ev now"
      "db1 = db\<lparr>adjudications := adjudications db @ [row]\<rparr>" by auto
  have "adjudication_key row = (kind, ar_record_id q)" by (simp add: n(2) decision_row_def adjudication_key_def)
  then have "by_key adjudication_key (kind, ar_record_id q) (adjudications db1) = Some row"
    using n(1,3) by_key_fresh_append [of adjudication_key row "adjudications db"] by simp
  moreover have "j_request_hash row = sha256 env (request_text q) \<and> j_project_id row = ar_project_id q"
    using p(2) assms(3) by (simp add: n(2) decision_row_def request_text_def adjudication_request_hash_def)
  ultimately show ?thesis by simp
qed

text \<open>Adjudication is single-shot. After a decision on a quarantined record has been stored, whatever the scope store does
  next, a further request for that record writes nothing; if it is accepted it is answered with the stored row, marked as a replay,
  and (when SHA-256 does not collide on the two texts) it carries the same disposition, successor and reason.\<close>

theorem adjudication_single_shot:
  assumes "wf_scope db" "adjudicate_quarantine env q now db = (Inr (row, False), db1)" "scope_step\<^sup>*\<^sup>* db1 db2"
    and "ar_record_kind q' = ar_record_kind q" "ar_record_id q' = ar_record_id q"
    and "sha256 env (request_text q) = sha256 env (request_text q') \<Longrightarrow> request_text q = request_text q'"
  shows "snd (adjudicate_quarantine env q' now' db2) = db2 \<and>
    (\<forall>answer. fst (adjudicate_quarantine env q' now' db2) = Inr answer \<longrightarrow> answer = (row, True) \<and> decision_of q' = decision_of q)"
proof -
  from assms(2) obtain kind disp where p: "parse_record_kind (ar_record_kind q) = Some kind" "parse_disposition (ar_disposition q) = Some disp"
    "NUL \<notin> set (ar_successor_task_id q)" by (rule adjudicate_unfold)
  note row = adjudicated_row [OF assms(1,2) p(1)]
  have "scope_safe db db1" using adjudicate_safe [OF assms(1,2)] .
  then have safe2: "scope_advances db1 db2" "wf_scope db2"
    using scope_steps_safe [OF assms(3)] by (simp_all add: scope_safe_def)
  have stored: "by_key adjudication_key (kind, ar_record_id q) (adjudications db2) = Some row"
    using row safe2(1) by (auto simp: scope_advances_def dest: rows_keptD)
  obtain res db3 where r: "adjudicate_quarantine env q' now' db2 = (res, db3)" by fastforce
  show ?thesis
  proof (cases res)
    case (Inl e)
    then have "db3 = db2" using r
      by (auto simp: adjudicate_quarantine_def split: option.splits dest: in_transaction_Inl)
    with r Inl show ?thesis by simp
  next
    case (Inr a)
    obtain row' replayed where a: "a = (row', replayed)" by (cases a)
    from r [unfolded Inr a] obtain kind' disp' where p': "parse_record_kind (ar_record_kind q') = Some kind'"
      "parse_disposition (ar_disposition q') = Some disp'"
      "adjudicate_in_transaction env q' kind' disp' now' db2 = (Inr (row', replayed), db3)" "NUL \<notin> set (ar_successor_task_id q')"
      by (rule adjudicate_unfold)
    have k: "kind' = kind" using p(1) p'(1) assms(4) by simp
    from adjudicate_Inr [OF p'(3)] stored k assms(5) obtain ev where
      ans: "replayed" "db3 = db2" "row' = row" "j_request_hash row = j_request_hash (decision_row env q' kind disp' ev now')"
        "quarantine_view kind (ar_record_id q) db2 = Some (ar_project_id q', True, ev)"
      by (cases replayed) auto
    have proj: "ar_project_id q' = ar_project_id q"
    proof -
      have "row \<in> set (adjudications db2)" using stored by (rule by_key_Some_in)
      then have "decided_and_preserved db2 row" using safe2(2) by (simp add: wf_scope_def)
      moreover have "adjudication_key row = (kind, ar_record_id q)" using stored by (rule by_key_Some_key)
      ultimately show ?thesis using ans(5) row by (simp add: decided_and_preserved_def adjudication_key_def)
    qed
    have "sha256 env (request_text q) = sha256 env (request_text q')"
      using ans(4) row p'(1,2) k by (simp add: decision_row_def request_text_def adjudication_request_hash_def)
    then have "request_text q = request_text q'" by (rule assms(6))
    then have "disp = disp' \<and> ar_successor_task_id q = ar_successor_task_id q' \<and> trimmed_reason q = trimmed_reason q'"
      using request_text_injective [OF _ p(3) p'(4)] p p' k proj assms(5) by (simp add: request_text_def)
    then have "decision_of q' = decision_of q" 
      using assms(4,5) parse_injective(2) [OF p(2)] parse_injective(2) [OF p'(2)] by (simp add: decision_of_def)
    with r Inr a ans show ?thesis by simp
  qed
qed

section \<open>Recovery is idempotent\<close>

subsection \<open>Reservations\<close>

text \<open>Recovery only touches the reservations, the attempts and the quarantine.\<close>

definition same_facts :: "'a scope_db_scheme \<Rightarrow> 'a scope_db_scheme \<Rightarrow> bool" where
  "same_facts db db' = (projects db' = projects db \<and> tasks db' = tasks db \<and> runs db' = runs db \<and>
     map v_task_id (reservations db') = map v_task_id (reservations db) \<and> map a_run_id (attempts db') = map a_run_id (attempts db))"

lemma same_facts_refl [simp]: "same_facts db db"
  by (simp add: same_facts_def)

lemma same_facts_trans: "same_facts a b \<Longrightarrow> same_facts b c \<Longrightarrow> same_facts a c"
  by (simp add: same_facts_def)

lemma quarantine_facts [simp]:
  "same_facts db (quarantine_task env k reason now db)" "same_facts db (quarantine_attempt env k reason now db)"
  by (simp_all add: same_facts_def quarantine_task_def quarantine_attempt_def quarantine_record_def sql_update_keys)

lemma reconcile_facts:
  "same_facts db (fst (reconcile_reservation env now row (db, c)))"
  "same_facts db (fst (reconcile_attempt env now w (db, c)))"
proof -
  show "same_facts db (fst (reconcile_reservation env now row (db, c)))" by (cases row) (simp add: reconcile_reservation_def)
  show "same_facts db (fst (reconcile_attempt env now w (db, c)))"
    by (simp add: reconcile_attempt_def Let_def) (simp add: same_facts_def sql_update_keys)
qed

lemma fold_facts: "(\<And>d c x. same_facts d (fst (f x (d, c)))) \<Longrightarrow> same_facts db (fst (fold f xs (db, c)))"
proof (induction xs arbitrary: db c)
  case (Cons x xs)
  obtain d c' where fx: "f x (db, c) = (d, c')" by fastforce
  with Cons.prems [of db x c] Cons.IH [OF Cons.prems, of d c'] show ?case by (auto intro: same_facts_trans)
qed simp

definition bad_reservation :: "reservation_row \<times> int \<times> bool \<Rightarrow> bool" where
  "bad_reservation row = (case row of (v, current, stored) \<Rightarrow> v_scope_generation v \<noteq> current \<or> \<not> stored)"

lemma reconcile_reservation_good: "\<not> bad_reservation row \<Longrightarrow> reconcile_reservation env now row st = st"
  by (cases row; cases st) (simp add: reconcile_reservation_def bad_reservation_def)

lemma by_key_same_keys: "map key rows' = map key rows \<Longrightarrow> (by_key key k rows' = None) = (by_key key k rows = None)"
proof -
  assume "map key rows' = map key rows"
  then have "key ` set rows' = key ` set rows" by (metis list.set_map)
  then show ?thesis by (simp add: by_key_None_iff)
qed

lemma quarantine_task_hits:
  "by_key v_task_id k (reservations db) \<noteq> None \<Longrightarrow>
     \<exists>v. by_key v_task_id k (reservations (quarantine_task env k reason now db)) = Some v \<and> v_status v = TB_QUARANTINED"
proof -
  assume "by_key v_task_id k (reservations db) \<noteq> None"
  then obtain v where v: "by_key v_task_id k (reservations db) = Some v" by blast
  have "v_task_id v = k" using v by (rule by_key_Some_key)
  with v show ?thesis by (cases "v_status v = TB_QUARANTINED") (simp_all add: quarantine_task_def quarantine_record_def by_key_sql_update)
qed

lemma bad_reservation_quarantined:
  assumes "wf_scope db" "is_installed db" "row \<in> set rows" "bad_reservation row" "by_key v_task_id (v_task_id (fst row)) (reservations db) \<noteq> None"
  shows "\<exists>v. by_key v_task_id (v_task_id (fst row)) (reservations (fst (fold (reconcile_reservation env now) rows (db, c)))) = Some v \<and>
     v_status v = TB_QUARANTINED"
proof -
  let ?f = "reconcile_reservation env now"
  obtain xs ys where rows: "rows = xs @ row # ys" using split_list [OF assms(3)] by blast
  obtain d1 c1 where 1: "fold ?f xs (db, c) = (d1, c1)" by fastforce
  obtain d2 c2 where 2: "?f row (d1, c1) = (d2, c2)" by fastforce
  have w1: "scope_safe db d1" "is_installed d1"
    using fold_safe [of ?f, OF reconcile_reservation_safe assms(1,2), of xs c] 1 by simp_all
  have "same_facts db d1" using fold_facts [of ?f, OF reconcile_facts(1), of db xs c] 1 by simp
  then have present: "by_key v_task_id (v_task_id (fst row)) (reservations d1) \<noteq> None"
    using assms(5) by_key_same_keys [of v_task_id "reservations d1" "reservations db"] by (simp add: same_facts_def)
  have "\<exists>reason. d2 = quarantine_task env (v_task_id (fst row)) reason now d1"
    using 2 assms(4) by (cases row) (auto simp: reconcile_reservation_def bad_reservation_def split: if_splits)
  then obtain v where v: "by_key v_task_id (v_task_id (fst row)) (reservations d2) = Some v" "v_status v = TB_QUARANTINED"
    using quarantine_task_hits [OF present] by blast
  have w2: "wf_scope d2" "is_installed d2"
    using reconcile_reservation_safe [OF scope_safe_wf [OF w1(1)] w1(2), of env now row c1] 2 by (simp_all add: scope_safe_def)
  have "scope_advances d2 (fst (fold ?f ys (d2, c2)))"
    using fold_safe [of ?f, OF reconcile_reservation_safe w2, of ys c2] by (simp add: scope_safe_def)
  from quarantined_reservation_kept [OF this v] v(2) show ?thesis using 1 2 by (simp add: rows)
qed

subsection \<open>Attempts\<close>

text \<open>A view on which the second pass would do nothing.\<close>

definition settled :: "attempt_view \<Rightarrow> attempt_binding \<Rightarrow> bool" where
  "settled w s = (w_task_status w = TB_QUARANTINED \<or>
     (w_backend_ref w = None \<or> w_backend_ref w = Some (a_run_id (w_attempt w))) \<and>
     a_scope_generation (w_attempt w) = w_current_generation w \<and> s \<noteq> AB_RESERVED \<and>
     (s = AB_RECOVERY_PENDING \<longrightarrow> \<not> w_run_stored w) \<and> (s = AB_ATTACHED \<longrightarrow> w_run_stored w))"

lemma reconcile_attempt_settled: "settled w (a_status (w_attempt w)) \<Longrightarrow> reconcile_attempt env now w st = st"
  by (cases st; cases "a_status (w_attempt w)") (auto simp: reconcile_attempt_def settled_def Let_def)

text \<open>One pass over a view: the attempt of the view ends quarantined or settled; another attempt is untouched.\<close>

definition finished :: "attempt_view \<Rightarrow> 'a scope_db_scheme \<Rightarrow> bool" where
  "finished w d = (\<exists>a. by_key a_run_id (a_run_id (w_attempt w)) (attempts d) = Some a \<and> (a_status a = AB_QUARANTINED \<or> settled w (a_status a)))"

lemma reconcile_attempt_own:
  assumes "by_key a_run_id (a_run_id (w_attempt w)) (attempts d) = Some (w_attempt w)"
  shows "finished w (fst (reconcile_attempt env now w (d, c)))"
  using assms
  by (cases "a_status (w_attempt w)")
    (auto simp: reconcile_attempt_def finished_def Let_def quarantine_task_def quarantine_attempt_def quarantine_record_def
      by_key_sql_update settled_def)

lemma reconcile_attempt_again:
  assumes "finished w d" "wf_scope d"
    "by_key a_run_id (a_run_id (w_attempt w)) (attempts d) = Some a" "a_task_id a = a_task_id (w_attempt w)"
  shows "finished w (fst (reconcile_attempt env now w (d, c)))"
  using assms
  by (cases "a_status (w_attempt w)"; cases "a_status a")
    (auto simp: reconcile_attempt_def finished_def Let_def quarantine_task_def quarantine_attempt_def quarantine_record_def
      by_key_sql_update settled_def)

lemma reconcile_attempt_other:
  assumes "by_key a_run_id k (attempts d) = Some a" "a_run_id (w_attempt w) \<noteq> k" "a_task_id (w_attempt w) \<noteq> a_task_id a"
  shows "by_key a_run_id k (attempts (fst (reconcile_attempt env now w (d, c)))) = Some a"
proof -
  have "a_run_id a = k" using assms(1) by (rule by_key_Some_key)
  then show ?thesis using assms
    by (auto simp: reconcile_attempt_def Let_def quarantine_task_def quarantine_attempt_def quarantine_record_def by_key_sql_update)
qed

lemma attempt_viewsD:
  assumes "w \<in> set (attempt_views db)"
  shows "w_attempt w \<in> set (attempts db) \<and> a_status (w_attempt w) \<noteq> AB_QUARANTINED \<and>
    (\<exists>v \<in> set (reservations db). v_task_id v = a_task_id (w_attempt w) \<and> w_task_status w = v_status v) \<and>
    (\<exists>p \<in> set (projects db). p_project_id p = a_project_id (w_attempt w) \<and> w_current_generation w = p_scope_generation p) \<and>
    w_run_stored w = (run_by_id (a_run_id (w_attempt w)) db \<noteq> None) \<and>
    w_backend_ref w = map_option t_backend_ref (task_by_id (a_task_id (w_attempt w)) db)"
  using assms by (auto simp: attempt_views_def)

lemma attempt_viewsI:
  assumes "a \<in> set (attempts db)" "a_status a \<noteq> AB_QUARANTINED" "v \<in> set (reservations db)" "v_task_id v = a_task_id a"
    "p \<in> set (projects db)" "p_project_id p = a_project_id a"
  shows "\<lparr>w_attempt = a, w_task_status = v_status v, w_run_stored = (run_by_id (a_run_id a) db \<noteq> None),
     w_current_generation = p_scope_generation p, w_backend_ref = map_option t_backend_ref (task_by_id (a_task_id a) db)\<rparr> \<in> set (attempt_views db)"
  using assms unfolding attempt_views_def by fastforce

lemma view_unique:
  assumes "wf_scope db" "w \<in> set (attempt_views db)" "w' \<in> set (attempt_views db)"
    and "a_run_id (w_attempt w) = a_run_id (w_attempt w') \<or> a_task_id (w_attempt w) = a_task_id (w_attempt w')"
  shows "w = w'"
proof -
  note d = attempt_viewsD [OF assms(2)] attempt_viewsD [OF assms(3)]
  have u: "unique_key a_run_id (attempts db)" "unique_key a_task_id (attempts db)" "unique_key v_task_id (reservations db)"
      "unique_key p_project_id (projects db)"
    using assms(1) by (simp_all add: wf_scope_def)
  have a: "w_attempt w = w_attempt w'"
    using unique_key_inj [OF u(1)] unique_key_inj [OF u(2)] d assms(4) by blast
  then have "w_task_status w = w_task_status w'" "w_current_generation w = w_current_generation w'"
    using unique_key_inj [OF u(3)] unique_key_inj [OF u(4)] d by metis+
  with a d show ?thesis by (simp add: attempt_view.equality)
qed

lemma view_row: "wf_scope db \<Longrightarrow> w \<in> set (attempt_views db) \<Longrightarrow> by_key a_run_id (a_run_id (w_attempt w)) (attempts db) = Some (w_attempt w)"
  using attempt_viewsD by_key_unique by (fastforce simp: wf_scope_def)

lemma fold_untouched:
  assumes "by_key a_run_id k (attempts d) = Some a" "\<And>w. w \<in> set ws \<Longrightarrow> a_run_id (w_attempt w) \<noteq> k \<and> a_task_id (w_attempt w) \<noteq> a_task_id a"
  shows "by_key a_run_id k (attempts (fst (fold (reconcile_attempt env now) ws (d, c)))) = Some a"
  using assms
proof (induction ws arbitrary: d c)
  case (Cons w ws)
  obtain d' c' where f: "reconcile_attempt env now w (d, c) = (d', c')" by fastforce
  have "by_key a_run_id k (attempts d') = Some a"
    using reconcile_attempt_other [OF Cons.prems(1), of w env now c] Cons.prems(2) [of w] f by simp
  from Cons.IH [OF this, of c'] Cons.prems(2) f show ?case by simp
qed simp

lemma fold_finished:
  assumes "wf_scope db" "is_installed db" "w \<in> set (attempt_views db)" "set ws \<subseteq> set (attempt_views db)"
    and "scope_safe db d" "is_installed d" "finished w d"
  shows "finished w (fst (fold (reconcile_attempt env now) ws (d, c)))"
  using assms(4-7)
proof (induction ws arbitrary: d c)
  case (Cons x ws)
  obtain d' c' where f: "reconcile_attempt env now x (d, c) = (d', c')" by fastforce
  have s: "scope_safe d d'" "is_installed d'"
    using reconcile_attempt_safe [OF scope_safe_wf [OF Cons.prems(2)] Cons.prems(3), of env now x c] f by simp_all
  obtain a where a: "by_key a_run_id (a_run_id (w_attempt w)) (attempts d) = Some a" "a_status a = AB_QUARANTINED \<or> settled w (a_status a)"
    using Cons.prems(4) by (auto simp: finished_def)
  have "attempt_advances (w_attempt w) a"
    using Cons.prems(2) view_row [OF assms(1,3)] a(1) by (auto simp: scope_safe_def scope_advances_def dest: rows_keptD)
  then have t: "a_task_id a = a_task_id (w_attempt w)" by (simp add: attempt_advances_def)
  have "finished w d'"
  proof (cases "x = w")
    case True
    then show ?thesis
      using reconcile_attempt_again [OF Cons.prems(4) scope_safe_wf [OF Cons.prems(2)] a(1) t, of env now c] f by simp
  next
    case False
    then have "a_run_id (w_attempt x) \<noteq> a_run_id (w_attempt w)" "a_task_id (w_attempt x) \<noteq> a_task_id a"
      using view_unique [OF assms(1), of x w] Cons.prems(1) assms(3) t by auto
    from reconcile_attempt_other [OF a(1) this, of env now c] f a(2) show ?thesis by (simp add: finished_def)
  qed
  with Cons.IH [of d' c'] Cons.prems(1) scope_safe_trans [OF Cons.prems(2) s(1)] s(2) f show ?case by simp
qed simp

lemma views_finished:
  assumes "wf_scope db" "is_installed db" "w \<in> set (attempt_views db)"
  shows "finished w (fst (fold (reconcile_attempt env now) (attempt_views db) (db, c)))"
proof -
  let ?f = "reconcile_attempt env now"
  obtain xs ys where split: "attempt_views db = xs @ w # ys" "w \<notin> set xs" using split_list_first [OF assms(3)] by blast
  obtain d1 c1 where 1: "fold ?f xs (db, c) = (d1, c1)" by fastforce
  obtain d2 c2 where 2: "?f w (d1, c1) = (d2, c2)" by fastforce
  have "x \<in> set (attempt_views db) \<and> x \<noteq> w" if "x \<in> set xs" for x using that split by auto
  then have "by_key a_run_id (a_run_id (w_attempt w)) (attempts d1) = Some (w_attempt w)"
    using fold_untouched [OF view_row [OF assms(1,3)], of xs env now c] view_unique [OF assms(1) _ assms(3)] 1 by fastforce
  then have f: "finished w d2" using reconcile_attempt_own [of w d1 env now c1] 2 by simp
  have s1: "scope_safe db d1" "is_installed d1" using fold_safe [of ?f, OF reconcile_attempt_safe assms(1,2), of xs c] 1 by simp_all
  have s2: "scope_safe d1 d2" "is_installed d2"
    using reconcile_attempt_safe [OF scope_safe_wf [OF s1(1)] s1(2), of env now w c1] 2 by simp_all
  have "finished w (fst (fold ?f ys (d2, c2)))"
    using split(1) by (intro fold_finished [OF assms _ scope_safe_trans [OF s1(1) s2(1)] s2(2) f]) auto
  then show ?thesis using split(1) 1 2 by simp
qed

lemma fold_idle: "(\<And>x st. x \<in> set xs \<Longrightarrow> f x st = st) \<Longrightarrow> fold f xs st = st"
  by (induction xs arbitrary: st) auto

lemma second_reservations:
  assumes "wf_scope db" "is_installed db" "fold (reconcile_reservation env now) (reservation_rows db) (db, c) = (db1, c1)"
    and "scope_safe db1 db2" "same_facts db1 db2" "row \<in> set (reservation_rows db2)"
  shows "\<not> bad_reservation row"
proof
  assume bad: "bad_reservation row"
  obtain v p where row: "row = (v, p_scope_generation p, task_by_id (v_task_id v) db2 \<noteq> None)" "v \<in> set (reservations db2)"
      "p \<in> set (projects db2)" "p_project_id p = v_project_id v" "v_status v \<noteq> TB_QUARANTINED"
    using assms(6) by (auto simp: reservation_rows_def split: if_splits)
  let ?k = "v_task_id v"
  have safe1: "scope_safe db db1" using fold_safe [of "reconcile_reservation env now", OF reconcile_reservation_safe assms(1,2), of "reservation_rows db" c] assms(3) by simp
  have facts1: "same_facts db db1" using fold_facts [of "reconcile_reservation env now", OF reconcile_facts(1), of db "reservation_rows db" c] assms(3) by simp
  note facts = same_facts_trans [OF facts1 assms(5)]
  have v2: "by_key v_task_id ?k (reservations db2) = Some v"
    using scope_safe_wf [OF assms(4)] row(2) by (simp add: wf_scope_def by_key_unique)
  have "by_key v_task_id ?k (reservations db) \<noteq> None"
    using by_key_same_keys [of v_task_id "reservations db2" "reservations db" ?k] facts v2 by (simp add: same_facts_def)
  then obtain v0 where v0: "by_key v_task_id ?k (reservations db) = Some v0" by blast
  have "scope_advances db db2" using scope_safe_trans [OF safe1 assms(4)] by (simp add: scope_safe_def)
  then have adv: "reservation_advances v0 v" using v0 v2 by (auto simp: scope_advances_def dest: rows_keptD)
  then have same: "v_task_id v0 = ?k" "v_project_id v0 = v_project_id v" "v_scope_generation v0 = v_scope_generation v" "v_status v0 \<noteq> TB_QUARANTINED"
    using row(5) by (auto simp: reservation_advances_def)
  let ?row0 = "(v0, p_scope_generation p, task_by_id (v_task_id v0) db \<noteq> None)"
  have "?row0 \<in> set (reservation_rows db)"
    using by_key_Some_in [OF v0] facts row(3,4) same unfolding reservation_rows_def by (fastforce simp: same_facts_def)
  moreover have "bad_reservation ?row0" using bad facts same by (simp add: row(1) bad_reservation_def same_facts_def task_by_id_def)
  ultimately obtain v1 where v1: "by_key v_task_id ?k (reservations db1) = Some v1" "v_status v1 = TB_QUARANTINED"
    using bad_reservation_quarantined [OF assms(1,2), of ?row0 "reservation_rows db" env now c] v0 same(1) assms(3) by auto
  have "by_key v_task_id ?k (reservations db2) = Some v1"
    using quarantined_reservation_kept [OF _ v1] assms(4) by (simp add: scope_safe_def)
  with v2 v1(2) row(5) show False by simp
qed

lemma second_attempts:
  assumes "wf_scope db1" "is_installed db1" "fold (reconcile_attempt env now) (attempt_views db1) (db1, c) = (db2, c2)"
    and "w \<in> set (attempt_views db2)"
  shows "settled w (a_status (w_attempt w))"
proof -
  let ?a = "w_attempt w"
  have safe: "scope_safe db1 db2" using fold_safe [of "reconcile_attempt env now", OF reconcile_attempt_safe assms(1,2), of "attempt_views db1" c] assms(3) by simp
  have facts: "same_facts db1 db2" using fold_facts [of "reconcile_attempt env now", OF reconcile_facts(2), of db1 "attempt_views db1" c] assms(3) by simp
  note wf2 = scope_safe_wf [OF safe]
  note d = attempt_viewsD [OF assms(4)]
  have a2: "by_key a_run_id (a_run_id ?a) (attempts db2) = Some ?a" by (rule view_row [OF wf2 assms(4)])
  then obtain a1 where a1: "by_key a_run_id (a_run_id ?a) (attempts db1) = Some a1"
    using by_key_same_keys [of a_run_id "attempts db2" "attempts db1" "a_run_id ?a"] facts by (fastforce simp: same_facts_def)
  have adv: "attempt_advances a1 ?a" using safe a1 a2 by (auto simp: scope_safe_def scope_advances_def dest: rows_keptD)
  then have same: "a_run_id a1 = a_run_id ?a" "a_task_id a1 = a_task_id ?a" "a_project_id a1 = a_project_id ?a"
      "a_scope_generation a1 = a_scope_generation ?a" "a_status a1 \<noteq> AB_QUARANTINED"
    using d by (auto simp: attempt_advances_def)
  obtain v2 p where vp: "v2 \<in> set (reservations db2)" "v_task_id v2 = a_task_id ?a" "w_task_status w = v_status v2"
      "p \<in> set (projects db2)" "p_project_id p = a_project_id ?a" "w_current_generation w = p_scope_generation p" using d by blast
  have v2: "by_key v_task_id (a_task_id ?a) (reservations db2) = Some v2"
    using wf2 vp(1,2) by_key_unique [of v_task_id "reservations db2" v2] by (simp add: wf_scope_def)
  then obtain v1 where v1: "by_key v_task_id (a_task_id ?a) (reservations db1) = Some v1"
    using by_key_same_keys [of v_task_id "reservations db2" "reservations db1" "a_task_id ?a"] facts by (fastforce simp: same_facts_def)
  define w1 where "w1 = \<lparr>w_attempt = a1, w_task_status = v_status v1, w_run_stored = (run_by_id (a_run_id a1) db1 \<noteq> None),
     w_current_generation = p_scope_generation p, w_backend_ref = map_option t_backend_ref (task_by_id (a_task_id a1) db1)\<rparr>"
  have "w1 \<in> set (attempt_views db1)"
    unfolding w1_def using attempt_viewsI [OF by_key_Some_in [OF a1] same(5) by_key_Some_in [OF v1]] by_key_Some_key [OF v1] vp(4,5) facts same
    by (simp add: same_facts_def)
  from views_finished [OF assms(1,2) this, of env now c] assms(3) have "finished w1 db2" by simp
  then have "settled w1 (a_status ?a)" using a2 same(1) d by (auto simp: finished_def w1_def)
  moreover have "w_task_status w = TB_QUARANTINED" if "v_status v1 = TB_QUARANTINED"
    using quarantined_reservation_kept [OF _ v1 that] safe v2 vp(3) that by (simp add: scope_safe_def)
  moreover have "w_run_stored w = w_run_stored w1" "w_backend_ref w = w_backend_ref w1"
    using d same facts by (simp_all add: w1_def same_facts_def run_by_id_def task_by_id_def)
  ultimately show ?thesis using same vp(6) by (auto simp: settled_def w1_def)
qed

text \<open>Start-up recovery of the scope tables is idempotent: a second reconciliation changes nothing and reports no
  change. In particular a record that was attached, set to recovery or quarantined by the first one is stable.\<close>

theorem scope_recovery_idempotent:
  assumes "wf_scope db" "scope_reconcile_startup env now db = (report, db')"
  shows "snd (scope_reconcile_startup env now' db') = db' \<and> rp_changed (fst (scope_reconcile_startup env now' db')) = 0"
proof (cases "is_installed db")
  case False
  then show ?thesis using assms(2) by (auto simp: scope_reconcile_startup_def)
next
  case True
  obtain db1 c1 where 1: "fold (reconcile_reservation env now) (reservation_rows db) (db, no_counts) = (db1, c1)" by fastforce
  obtain db2 c2 where 2: "fold (reconcile_attempt env now) (attempt_views db1) (db1, c1) = (db2, c2)" by fastforce
  have db': "db' = db2" using assms(2) True 1 2 by (simp add: scope_reconcile_startup_def)
  have s1: "scope_safe db db1" "is_installed db1"
    using fold_safe [of "reconcile_reservation env now", OF reconcile_reservation_safe assms(1) True, of "reservation_rows db" no_counts] 1 by simp_all
  note wf1 = scope_safe_wf [OF s1(1)]
  have s2: "scope_safe db1 db2" "is_installed db2"
    using fold_safe [of "reconcile_attempt env now", OF reconcile_attempt_safe wf1 s1(2), of "attempt_views db1" c1] 2 by simp_all
  have facts: "same_facts db1 db2"
    using fold_facts [of "reconcile_attempt env now", OF reconcile_facts(2), of db1 "attempt_views db1" c1] 2 by simp
  have "fold (reconcile_reservation env now') (reservation_rows db2) (db2, no_counts) = (db2, no_counts)"
    using second_reservations [OF assms(1) True 1 s2(1) facts] reconcile_reservation_good by (intro fold_idle) blast
  moreover have "fold (reconcile_attempt env now') (attempt_views db2) (db2, no_counts) = (db2, no_counts)"
    using second_attempts [OF wf1 s1(2) 2] reconcile_attempt_settled by (intro fold_idle) blast
  ultimately show ?thesis using s2(2) by (simp add: db' scope_reconcile_startup_def counts_sum_def no_counts_def)
qed

section \<open>Concrete instances\<close>

text \<open>A toy environment: paths are canonical, and a digest has 64 characters.\<close>

definition sample_env :: scope_env where
  "sample_env = \<lparr>canonical_repository_root = (\<lambda>p. p), sha256 = (\<lambda>s. take 64 (rev s @ replicate 64 (CHR ''0''))), json_digest = (\<lambda>j. ''digest'')\<rparr>"

definition empty_scope :: scope_db where
  "empty_scope = init_scope_db \<lparr>runs = [], events = [], event_seq = 0, locks = [], groups = [], children = [], tasks = [], links = [],
     link_seq = 0, task_events = [], task_event_seq = 0, commands = [], checkpoints = [], scope_schema = 0, writes_enabled = False,
     ever_activated = False, settings_updated_at = [], projects = [], resources = [], resource_bindings = [], repository_bindings = [],
     reservations = [], attempts = [], quarantine = [], bootstrap_events = [], adjudications = []\<rparr>"

definition sample_bootstrap :: bootstrap_request where
  "sample_bootstrap = \<lparr>br_project_id = ''p1'', br_project_key = ''alpha'', br_resource_id = ''res1'', br_repo_name = ''repo'',
     br_repository_root = ''/r'', br_access_mode = ''exclusive''\<rparr>"

definition bound_scope :: scope_db where
  "bound_scope = snd (apply_bootstrap sample_env sample_bootstrap ''t0'' empty_scope)"

definition sample_binding :: repository_binding where
  "sample_binding = \<lparr>rb_project_id = ''p1'', rb_resource_id = ''res1'', rb_repo_name = ''repo'', rb_repository_root = ''/r'',
     rb_identity_hash = take 64 (''r/'' @ replicate 64 (CHR ''0'')), rb_scope_generation = 1, rb_access_mode = EXCLUSIVE\<rparr>"

text \<open>A reservation; recovery quarantines it, since no canonical task is stored.\<close>

definition reserved_scope :: scope_db where
  "reserved_scope = snd (in_transaction (reserve_task_attempt sample_env sample_binding sample_task_id sample_id [] ''t1'') bound_scope)"

definition quarantined_scope :: scope_db where
  "quarantined_scope = snd (scope_reconcile_startup sample_env ''t2'' reserved_scope)"

lemma empty_scope_wf: "wf_scope empty_scope"
  by (simp add: empty_scope_def wf_scope_def init_scope_db_def exclusive_bindings_def)

lemma bound_scope_write: "\<exists>item. bound_scope = snd (apply_bootstrap_write sample_env item ''t0'' empty_scope)"
  unfolding bound_scope_def apply_bootstrap_def
  by (rule exI [of _ "case preview_bootstrap sample_env sample_bootstrap empty_scope of Inr item \<Rightarrow> item"]) code_simp

lemma sample_steps: "scope_step empty_scope bound_scope" "scope_step bound_scope reserved_scope" "scope_step reserved_scope quarantined_scope"
proof -
  have "is_installed empty_scope" by code_simp
  then show "scope_step empty_scope bound_scope" using bound_scope_write scope_step.bootstrap [of empty_scope] by metis
qed (simp_all add: reserved_scope_def quarantined_scope_def scope_step.reserve scope_step.reconcile)

lemma sample_scope_wf: "wf_scope bound_scope" "wf_scope reserved_scope" "wf_scope quarantined_scope"
  using sample_steps scope_step_safe scope_safe_wf empty_scope_wf by blast+

lemma sample_attempt:
  "by_key a_run_id sample_id (attempts reserved_scope) = Some (new_attempt sample_binding sample_task_id sample_id ''t1'')"
  by code_simp

definition sample_quarantined :: attempt_row where
  "sample_quarantined = set_attempt AB_QUARANTINED ''task_row_missing'' ''t2'' (new_attempt sample_binding sample_task_id sample_id ''t1'')"

lemma quarantined_attempt_row: "by_key a_run_id sample_id (attempts quarantined_scope) = Some sample_quarantined"
  by code_simp

definition sample_adjudication :: adjudication_request_args where
  "sample_adjudication = \<lparr>ar_project_id = ''p1'', ar_record_kind = ''task_reservation'', ar_record_id = sample_task_id,
     ar_disposition = ''acknowledged'', ar_reason = ''lost task'', ar_idempotency_key = ''k1'', ar_successor_task_id = []\<rparr>"

definition decided_scope :: scope_db where
  "decided_scope = snd (adjudicate_quarantine sample_env sample_adjudication ''t3'' quarantined_scope)"

definition sample_decision :: adjudication_row where
  "sample_decision = decision_row sample_env sample_adjudication TASK_RESERVATION ACKNOWLEDGED ''digest'' ''t3''"

lemma sample_decided:
  "adjudicate_quarantine sample_env sample_adjudication ''t3'' quarantined_scope = (Inr (sample_decision, False), decided_scope)"
  by code_simp

theorem quarantine_is_final_witness:
  "by_key a_run_id sample_id (attempts decided_scope) = Some sample_quarantined \<and>
   require_launchable_attempt sample_binding sample_task_id sample_id decided_scope \<noteq> Inr ()"
proof -
  have "scope_step quarantined_scope decided_scope" by (simp add: decided_scope_def scope_step.adjudicate)
  then have steps: "scope_step\<^sup>*\<^sup>* quarantined_scope decided_scope" by blast
  have "a_status sample_quarantined = AB_QUARANTINED" by (simp add: sample_quarantined_def)
  from quarantine_is_final [OF sample_scope_wf(3) steps quarantined_attempt_row this] show ?thesis by blast
qed

theorem scope_ownership_witness:
  "attempts quarantined_scope \<noteq> [] \<and>
   list_all (\<lambda>a. \<exists>v. by_key v_task_id (a_task_id a) (reservations quarantined_scope) = Some v \<and> v_project_id v = a_project_id a)
     (attempts quarantined_scope)"
proof -
  have "scope_step\<^sup>*\<^sup>* bound_scope quarantined_scope"
    using sample_steps by (meson rtranclp.rtrancl_into_rtrancl rtranclp.rtrancl_refl)
  moreover have "attempts quarantined_scope \<noteq> []" by code_simp
  ultimately show ?thesis using scope_ownership [OF sample_scope_wf(1)] by (fastforce simp: list_all_iff)
qed

theorem adjudication_single_shot_witness:
  "snd (adjudicate_quarantine sample_env (sample_adjudication\<lparr>ar_reason := ''other''\<rparr>) ''t9'' decided_scope) = decided_scope"
proof -
  have "request_text sample_adjudication = request_text (sample_adjudication\<lparr>ar_reason := ''other''\<rparr>)"
    if "sha256 sample_env (request_text sample_adjudication) = sha256 sample_env (request_text (sample_adjudication\<lparr>ar_reason := ''other''\<rparr>))"
    using that by code_simp
  from adjudication_single_shot [OF sample_scope_wf(3) sample_decided _ _ _ this, of decided_scope "''t9''"]
  show ?thesis by (simp add: sample_adjudication_def)
qed

theorem scope_recovery_idempotent_witness:
  "snd (scope_reconcile_startup sample_env ''t7'' quarantined_scope) = quarantined_scope \<and>
   rp_changed (fst (scope_reconcile_startup sample_env ''t2'' reserved_scope)) = 1"
proof -
  have "scope_reconcile_startup sample_env ''t2'' reserved_scope =
      (fst (scope_reconcile_startup sample_env ''t2'' reserved_scope), quarantined_scope)" by (simp add: quarantined_scope_def)
  from scope_recovery_idempotent [OF sample_scope_wf(2) this] have "snd (scope_reconcile_startup sample_env ''t7'' quarantined_scope) = quarantined_scope"
    by blast
  moreover have "rp_changed (fst (scope_reconcile_startup sample_env ''t2'' reserved_scope)) = 1" by code_simp
  ultimately show ?thesis by blast
qed

end
