(* ===== verification/Start_Guarantees.thy ===== *)
theory Start_Guarantees
  imports Manager_Guarantees
begin

text \<open>
  What the commands of the task manager guarantee: a cancellation prepared from an old version changes no task and reaches no process, a
  claimed cancellation is the run's own, a repeated start never launches a second time, a scoped start reserves everything or nothing, and
  the resolution of an unrecoverable task is complete or has no effect.

  The launcher and the canceller are parameters. What the theorems need of them is that they do not write the task table
  (\<open>keeps_tasks\<close>): the job manager behind them writes only runs, events and locks.
\<close>

definition keeps_tasks :: "('k \<Rightarrow> 'a task_db_scheme \<Rightarrow> 'r \<times> 'a task_db_scheme) \<Rightarrow> bool" where
  "keeps_tasks f = (\<forall>k db. tasks (snd (f k db)) = tasks db)"

lemma keeps_tasksD: "keeps_tasks f \<Longrightarrow> f k db = (res, db') \<Longrightarrow> tasks db' = tasks db"
  unfolding keeps_tasks_def by (metis snd_conv)

section \<open>Cancellation\<close>

lemma record_command_spec:
  assumes "record_command cid k kind req obs status rid reason now db = (res, db')"
  shows "\<exists>cs. db' = db\<lparr>commands := cs\<rparr>"
proof -
  have "\<exists>cs. db = db\<lparr>commands := cs\<rparr>" by (rule exI [of _ "commands db"]) simp
  with assms show ?thesis by (auto simp: record_command_def Let_def split: if_splits)
qed

text \<open>A cancellation prepared from an outdated version is refused and nothing but the command log changes: no task, run, event or
  scope record, and the outcome does not depend on the canceller, so no process is signalled. The refusal reports both versions.\<close>

theorem stale_cancel_changes_nothing:
  assumes "load_task_scope k project db = Inr (t, scope)" "version \<noteq> t_state_version t"
    and "cancel_task redact cancel k version reason rid project cid now db = (res, db')"
  shows "(\<exists>cs. db' = db\<lparr>commands := cs\<rparr>) \<and> (res = Inr (Stale_version version (t_state_version t)) \<or> (\<exists>e. res = Inl e)) \<and>
    (\<forall>cancel'. cancel_task redact cancel' k version reason rid project cid now db = (res, db'))"
proof -
  obtain c db1 where c: "record_command cid (t_task_id t) CANCEL_COMMAND version (t_state_version t) REJECTED_STALE_VERSION rid
      ''state version guard did not match'' now db = (c, db1)" by fastforce
  have all: "cancel_task redact cancel' k version reason rid project cid now db =
      (case c of Inl e \<Rightarrow> Inl e | Inr _ \<Rightarrow> Inr (Stale_version version (t_state_version t)), db1)" for cancel'
    using assms(1,2) c by (simp add: cancel_task_def split: sum.split)
  with record_command_spec [OF c] assms(3) show ?thesis by (auto split: sum.splits)
qed

lemma settle_command_reply:
  fixes db :: "'a scope_db_scheme"
  assumes "wf_tasks db" "settle_command t cid status reason backend code now db = (Inr (Cancel_answer y), db')" "cancellation_claimed y"
  shows "\<exists>r. run_by_id (t_backend_ref (cy_task y)) db' = Some r \<and> r_status r = ''cancelled'' \<and> task_by_id (t_task_id t) db' = Some (cy_task y)"
proof -
  obtain u db1 where u: "reconcile_task (t_task_id t) ''cancel'' now db = (Inr u, db1)"
    and y: "y = cancel_reply_of u cid backend False code" and d: "db' = complete_command cid status reason now db1"
    using assms(2) by (auto simp: settle_command_def split: prod.splits sum.splits)
  have st: "t_state u = CANCELLED" and tu: "cy_task y = u" using assms(3) y by (simp_all add: cancellation_claimed_def cancel_reply_of_def)
  obtain t0 where t0: "t_state u = vd_state (derive_verdict t0 (query (t_backend_ref t0) db))" "backend_of u = backend_of t0"
      "task_by_id (t_task_id t) db1 = Some u" "runs db1 = runs db"
    by (rule reconcile_Inr_state [OF assms(1) u])
  have "\<exists>r. run_by_id (t_backend_ref t0) db = Some r \<and> r_status r = ''cancelled''"
    using terminal_run [of t0 db CANCELLED] t0(1) st by (auto simp: terminal_task_iff)
  moreover have "t_backend_ref u = t_backend_ref t0" using t0(2) by (simp add: backend_of_def)
  ultimately show ?thesis using t0(3,4) tu d by (simp add: complete_command_def run_by_id_def task_by_id_def)
qed

text \<open>A cancellation is claimed only when it happened. If the reply to a cancellation says that the task is cancelled, then either the
  task had reached that state before the request, or the durable run behind it is stored with status \<open>cancelled\<close> when the reply is
  made, whatever the canceller did or reported; and the reply shows the stored task.\<close>

theorem cancellation_claim_honest:
  fixes db :: "'a scope_db_scheme"
  assumes "wf_tasks db" "keeps_tasks cancel"
    and "cancel_task redact cancel k version reason rid project cid now db = (Inr (Cancel_answer y), db')" "cancellation_claimed y"
  shows "(\<exists>t. task_by_id k db = Some t \<and> t_state t = CANCELLED \<and> cy_task y = t) \<or>
    (task_by_id k db' = Some (cy_task y) \<and> (\<exists>r. run_by_id (t_backend_ref (cy_task y)) db' = Some r \<and> r_status r = ''cancelled''))"
proof -
  obtain t scope where l: "load_task_scope k project db = Inr (t, scope)"
    using assms(3) by (auto simp: cancel_task_def split: sum.splits)
  then have t: "task_by_id k db = Some t" by (auto simp: load_task_scope_def get_task_def split: if_splits option.splits sum.splits)
  then have id: "t_task_id t = k" by (rule task_by_id_key)
  obtain c db1 where c: "record_command cid (t_task_id t) CANCEL_COMMAND version (t_state_version t) CMD_ACCEPTED rid
      (take 512 (redact reason)) now db = (Inr c, db1)" and a: "cancel_accepted cancel t cid now db1 = (Inr (Cancel_answer y), db')"
    using assms(3) l by (auto simp: cancel_task_def split: if_splits prod.splits sum.splits)
  have wf1: "wf_tasks db1" using record_command_spec [OF c] assms(1) by (auto simp: wf_tasks_def)
  show ?thesis
  proof (cases "terminal_task (t_state t)")
    case True
    then have "cy_task y = t" using a by (auto simp: cancel_accepted_def cancel_reply_of_def)
    with assms(4) t show ?thesis by (simp add: cancellation_claimed_def)
  next
    case False
    obtain d status reason' backend code where d: "wf_tasks d" and s: "settle_command t cid status reason' backend code now d = (Inr (Cancel_answer y), db')"
    proof (cases "t_backend_ref t = [] \<or> \<not> ob_exists (query (t_backend_ref t) db1)")
      case True
      with a False wf1 that show ?thesis by (auto simp: cancel_accepted_def split: if_splits)
    next
      case go: False
      obtain res d1 where d1: "cancel (t_backend_ref t) db1 = (res, d1)" by fastforce
      obtain e d2 where d2: "append_task_event (t_task_id t) LEVEL_WARNING ''cancel'' ''Cancellation delegated to the durable backend authority''
          (task_state_value (t_state t)) (t_state_version t) [(''backend_reference'', JStr (t_backend_ref t)), (''backend_ok'', JBool (cr_ok res)),
            (''backend_status'', JStr (cr_status res))] now d1 = (e, d2)" by fastforce
      have "wf_tasks d2" using keeps_tasksD [OF assms(2) d1] append_event_spec [OF d2] wf1 by (simp add: wf_tasks_def)
      with a False go d1 d2 that show ?thesis by (auto simp: cancel_accepted_def split: sum.splits)
    qed
    from settle_command_reply [OF d s assms(4)] id show ?thesis by blast
  qed
qed

section \<open>Starting a command\<close>

lemma event_step_tasks: "event_step t level stage msg data now db = (res, db') \<Longrightarrow> tasks db' = tasks db"
  using append_event_spec [of "t_task_id t" level stage msg "task_state_value (t_state t)" "t_state_version t" data now db]
  by (auto simp: event_step_def split: prod.splits sum.splits)

lemma launch_backend_tasks:
  assumes "keeps_tasks start" "launch_backend redact start binding t now db = (res, db')"
  shows "tasks db' = tasks db"
proof -
  obtain c d where "start (t_backend_ref t) db = (c, d)" by fastforce
  with keeps_tasksD [OF assms(1) this] assms(2) show ?thesis
    unfolding launch_backend_def Let_def by (auto split: option.splits sum.splits prod.splits if_splits dest: event_step_tasks)
qed

lemma attach_attempt_tasks: "attach_attempt k now db = (res, db') \<Longrightarrow> tasks db' = tasks db"
  by (auto simp: attach_attempt_def in_transaction_def Let_def split: prod.splits sum.splits if_splits option.splits)

lemma mark_recovery_tasks: "mark_attempt_recovery_pending k reason now db = (res, db') \<Longrightarrow> tasks db' = tasks db"
  by (auto simp: mark_attempt_recovery_pending_def Let_def split: if_splits)

lemma attach_task_tasks: "attach_task k now db = (res, db') \<Longrightarrow> tasks db' = tasks db"
  by (auto simp: attach_task_def Let_def split: if_splits)

lemma attach_after_launch_tasks:
  assumes "attach_after_launch redact binding t now db = (res, db')"
  shows "tasks db' = tasks db"
proof (cases binding)
  case (Some b)
  obtain c d where c: "attach_attempt (t_backend_ref t) now db = (c, d)" by fastforce
  obtain c2 d2 where c2: "mark_attempt_recovery_pending (t_backend_ref t) ''run_attachment_incomplete'' now d = (c2, d2)" by fastforce
  show ?thesis
    using assms Some c c2 attach_attempt_tasks [OF c] mark_recovery_tasks [OF c2]
    by (auto simp: attach_after_launch_def split: sum.splits if_splits dest: event_step_tasks)
qed (use assms in \<open>simp add: attach_after_launch_def\<close>)

text \<open>A reservation that created a task stores exactly the requested row.\<close>

lemma reserve_for_start_created:
  fixes db :: "'a scope_db_scheme"
  assumes "wf_tasks db" "reserve_for_start env binding rq now db = (Inr (Reserved t True), db')"
  shows "t = new_task rq now \<and> wf_tasks db' \<and> t \<in> set (tasks db')"
proof (cases binding)
  case None
  then have "reserve_task rq now db = (Inr (t, True), db')"
    using assms(2) by (auto simp: reserve_for_start_def split: prod.splits sum.splits)
  from reserve_task_spec [OF this] show ?thesis using fresh_task_wf [OF assms(1)] by auto
next
  case (Some b)
  then have b: "reserve_scoped env b rq now db = (Inr (Reserved t True), db')" using assms(2) by (simp add: reserve_for_start_def)
  obtain d1 d2 where d1: "reserve_task_attempt env b (rq_task_id rq) (rq_backend_ref rq) (rq_parent_task_id rq) now db = (Inr (), d1)"
      and d2: "reserve_task_in_connection rq now d1 = (Inr (t, True), d2)" and d3: "attach_task (t_task_id t) now d2 = (Inr (), db')"
    using in_transaction_Inr [OF b [unfolded reserve_scoped_def]]
    by (auto split: option.splits if_splits sum.splits prod.splits dest!: and_then_Inr)
  have same: "tasks d1 = tasks db" using reserve_attempt_Inr [OF d1] by simp
  then have wf: "wf_tasks d1" using same_tasks [of d1 db] assms(1) by simp
  from reserve_in_spec [OF d2] fresh_task_wf [OF wf] have "t = new_task rq now \<and> wf_tasks d2 \<and> t \<in> set (tasks d2)" by auto
  then show ?thesis using attach_task_tasks [OF d3] same_tasks [of db' d2] by auto
qed

lemma start_created_task:
  fixes db :: "'a scope_db_scheme"
  assumes "wf_tasks db" "t \<in> set (tasks db)" "keeps_tasks start"
    and "start_created redact start binding t now db = (Inr (Start_created u acc err), db')"
  shows "wf_tasks db' \<and> task_by_id (t_task_id t) db' = Some u \<and> task_identity u = task_identity t"
proof -
  obtain d1 where d1: "event_step t LEVEL_INFO ''reserved'' ''Canonical task reserved its durable backend reference''
        ([(''backend_kind'', JStr ''soma_durable_run''), (''backend_reference'', JStr (t_backend_ref t))] @ binding_data binding) now db = (Inr (), d1)"
      and r1: "(case launch_backend redact start binding t now d1 of (Inl e, db2) \<Rightarrow> (Inl e, db2)
      | (Inr (accepted, err), db2) \<Rightarrow>
          and_then (attach_after_launch redact binding t now db2) (\<lambda>db3.
            case reconcile_task (t_task_id t) ''backend_attachment'' now db3 of
              (Inl e, db4) \<Rightarrow> (Inl e, db4) | (Inr u, db4) \<Rightarrow> (Inr (Start_created u accepted err), db4))) = (Inr (Start_created u acc err), db')"
    using and_then_Inr [OF assms(4) [unfolded start_created_def]] by blast
  obtain l d2 where d2: "launch_backend redact start binding t now d1 = (l, d2)" by fastforce
  obtain d3 where d3: "attach_after_launch redact binding t now d2 = (Inr (), d3)"
      and rec: "reconcile_task (t_task_id t) ''backend_attachment'' now d3 = (Inr u, db')"
    using r1 d2 by (auto split: sum.splits prod.splits dest!: and_then_Inr)
  have same: "tasks d3 = tasks db"
    using event_step_tasks [OF d1] launch_backend_tasks [OF assms(3) d2] attach_after_launch_tasks [OF d3] by simp
  then have wf: "wf_tasks d3" using same_tasks [of d3 db] assms(1) by simp
  obtain t0 where t0: "task_by_id (t_task_id t) d3 = Some t0" "task_by_id (t_task_id t) db' = Some u" "task_identity u = task_identity t0"
    by (rule reconcile_Inr_state [OF wf rec])
  moreover have "task_by_id (t_task_id t) d3 = Some t" using task_by_id_unique [OF wf] assms(2) same by simp
  ultimately show ?thesis using task_safeD [OF reconcile_safe [OF wf rec]] by simp
qed

text \<open>The first start under a request, when it created the task.\<close>

lemma start_creates:
  fixes db :: "'a scope_db_scheme"
  assumes "wf_tasks db" "keeps_tasks start" "start_durable_command env redact start q tid rid now db = (Inr (Start_created u acc err), db')"
  shows "wf_tasks db' \<and> task_by_id tid db' = Some u \<and> t_task_id u = tid \<and> t_controller_request_id u = sr_controller_request_id q"
proof -
  have ex: "start_existing env q t now db \<noteq> (Inr (Start_created u acc err), db')" for t
    by (auto simp: start_existing_def answer_existing_def replay_response_def Let_def split: sum.splits prod.splits)
  obtain binding hash repo where n: "start_new env redact start q binding hash repo tid rid now db = (Inr (Start_created u acc err), db')"
    using assms(3) ex by (auto simp: start_durable_command_def split: option.splits if_splits sum.splits)
  let ?rq = "start_task_request q hash repo tid rid"
  have aw: "answer_winner binding q hash e now d \<noteq> (Inr (Start_created u acc err), db')" for e d
    by (auto simp: answer_winner_def answer_existing_def replay_response_def Let_def split: option.splits sum.splits prod.splits)
  have rr: "replay_response t now d \<noteq> (Inr (Start_created u acc err), db')" for t d
    by (auto simp: replay_response_def split: sum.splits prod.splits)
  obtain t d where r: "reserve_for_start env binding ?rq now db = (Inr (Reserved t True), d)"
      and c: "start_created redact start binding t now d = (Inr (Start_created u acc err), db')"
    using n aw rr by (auto simp: start_new_def split: sum.splits prod.splits reserved.splits if_splits py_error.splits)
  note t = reserve_for_start_created [OF assms(1) r]
  have t_id: "t_task_id t = tid" "t_controller_request_id t = sr_controller_request_id q" using t by (simp_all add: start_task_request_def)
  from start_created_task [OF _ _ assms(2) c] t have "wf_tasks db' \<and> task_by_id (t_task_id t) db' = Some u \<and> task_identity u = task_identity t" by blast
  with t_id task_identity_parts [of u t] show ?thesis by simp
qed

lemma reconcile_keeps_ids:
  fixes db :: "'a scope_db_scheme"
  assumes "wf_tasks db" "reconcile_task k stage now db = (res, db')"
  shows "map t_task_id (tasks db') = map t_task_id (tasks db)"
proof -
  have upd: "map t_task_id (tasks d) = map t_task_id (tasks db)"
    if "task_conditional_update i fs v ss b n db = (c, d)" for i fs v ss b n c and d :: "'a scope_db_scheme"
    using assms(1) that
  proof (cases rule: task_update_cases)
    case (updated old row)
    then have "t_task_id row = i" using task_by_id_key [of i db old] by simp
    then show ?thesis using updated by (auto simp: put_task_def sql_update_def)
  qed auto
  have app: "map t_task_id (tasks e) = map t_task_id (tasks d)"
    if "append_task_event i l s m st v j n d = (c, e)" for i l s m st v j n c and d e :: "'a scope_db_scheme"
    using append_event_spec [OF that] by simp
  show ?thesis
    using assms(2) by (auto simp: reconcile_task_def reconcile_write_def split: sum.splits option.splits prod.splits dest!: upd app)
qed

text \<open>What a start may answer when its request already has the task \<open>k\<close>.\<close>

fun answers_with :: "string \<Rightarrow> (py_error + start_answer) \<Rightarrow> bool" where
  "answers_with k (Inl _) = True"
| "answers_with k (Inr Start_scope_conflict) = True"
| "answers_with k (Inr (Start_hash_conflict other _)) = (other = k)"
| "answers_with k (Inr (Start_replay u)) = (t_task_id u = k)"
| "answers_with k (Inr _) = False"

lemma answer_existing_effect:
  fixes db :: "'a scope_db_scheme"
  assumes "wf_tasks db" "answer_existing t hash now db = (res, db')"
  shows "answers_with (t_task_id t) res \<and> runs db' = runs db \<and> map t_task_id (tasks db') = map t_task_id (tasks db)"
proof (cases "t_request_hash t \<noteq> hash \<or> terminal_task (t_state t)")
  case True
  then show ?thesis using assms(2) by (auto simp: answer_existing_def replay_response_def split: if_splits)
next
  case False
  obtain c d where c: "reconcile_task (t_task_id t) ''idempotent_replay'' now db = (c, d)" by fastforce
  have id: "t_task_id u = t_task_id t" if u: "c = Inr u" for u
  proof (rule reconcile_Inr_state [OF assms(1) c [unfolded u]])
    assume "task_by_id (t_task_id t) d = Some u"
    then show ?thesis by (rule task_by_id_key)
  qed
  have "db' = d \<and> answers_with (t_task_id t) res"
  proof (cases c)
    case (Inr u)
    then have "res = Inr (Start_replay u) \<and> db' = d" using assms(2) False c by (simp add: answer_existing_def replay_response_def)
    with id [OF Inr] show ?thesis by (elim conjE) simp
  qed (use assms(2) False c in \<open>auto simp: answer_existing_def replay_response_def\<close>)
  moreover have "runs d = runs db" using task_safeD [OF reconcile_safe [OF assms(1) c]] task_frame_runs by blast
  ultimately show ?thesis using reconcile_keeps_ids [OF assms(1) c] by simp
qed

lemma start_existing_effect:
  fixes db :: "'a scope_db_scheme"
  assumes "wf_tasks db" "start_existing env q t now db = (res, db')"
  shows "answers_with (t_task_id t) res \<and> runs db' = runs db \<and> map t_task_id (tasks db') = map t_task_id (tasks db)"
proof -
  have "(db' = db \<and> answers_with (t_task_id t) res) \<or> (\<exists>hash. answer_existing t hash now db = (res, db'))"
    using assms(2) by (auto simp: start_existing_def Let_def split: if_splits sum.splits prod.splits)
  with answer_existing_effect [OF assms(1)] show ?thesis by blast
qed


section \<open>Scoped reservations\<close>

text \<open>The three writes of a scoped reservation that had an effect.\<close>

lemma reserve_scoped_steps:
  fixes db :: "'a scope_db_scheme"
  assumes "wf_tasks db" "reserve_scoped env b rq now db = (res, db')" "db' \<noteq> db"
  obtains t d1 d2 where "reserve_task_attempt env b (rq_task_id rq) (rq_backend_ref rq) (rq_parent_task_id rq) now db = (Inr (), d1)"
    "reserve_task_in_connection rq now d1 = (Inr (t, True), d2)" "attach_task (t_task_id t) now d2 = (Inr (), db')" "res = Inr (Reserved t True)"
proof -
  obtain x where x: "res = Inr x" using assms(2,3)
    by (cases res) (auto simp: reserve_scoped_def dest: in_transaction_Inl)
  obtain d1 t created d2 where d1: "reserve_task_attempt env b (rq_task_id rq) (rq_backend_ref rq) (rq_parent_task_id rq) now db = (Inr (), d1)"
      and none: "find_by_controller_request (rq_controller_request_id rq) db = None"
      and d2: "reserve_task_in_connection rq now d1 = (Inr (t, created), d2)" and d3: "attach_task (t_task_id t) now d2 = (Inr (), db')"
      and res: "x = Reserved t created"
    using in_transaction_Inr [OF assms(2) [unfolded reserve_scoped_def x]] assms(3)
    by (auto split: option.splits if_splits sum.splits prod.splits dest!: and_then_Inr)
  have "created"
  proof (rule ccontr)
    assume "\<not> created"
    with reserve_in_spec [OF d2] have "t \<in> set (tasks db)" "t_controller_request_id t = rq_controller_request_id rq"
      using reserve_attempt_Inr [OF d1] by auto
    with find_request_unique [OF assms(1)] none show False by force
  qed
  with that d1 d2 d3 res x show thesis by simp
qed

text \<open>A scoped start reserves everything or nothing. Either the database is unchanged, or one transaction has added the task, an attached
  reservation of that task and a reserved attempt for its run, all under the project of the binding and at its generation; and the
  reservation is made only while the repository still resolves to that very binding.\<close>

theorem reserve_scoped_atomic:
  fixes db :: "'a scope_db_scheme"
  assumes "wf_tasks db" "reserve_scoped env b rq now db = (res, db')"
  shows "db' = db \<or>
    (\<exists>v a. res = Inr (Reserved (new_task rq now) True) \<and> tasks db' = tasks db @ [new_task rq now] \<and> runs db' = runs db \<and>
      resolve_repository env (rb_project_id b) (rb_repo_name b) (rb_repository_root b) db = Inr b \<and>
      reservations db' = reservations db @ [v] \<and> v_task_id v = rq_task_id rq \<and> v_project_id v = rb_project_id b \<and>
      v_scope_generation v = rb_scope_generation b \<and> v_status v = TB_ATTACHED \<and>
      attempts db' = attempts db @ [a] \<and> a_run_id a = rq_backend_ref rq \<and> a_task_id a = rq_task_id rq \<and>
      a_project_id a = rb_project_id b \<and> a_resource_id a = rb_resource_id b \<and> a_status a = AB_RESERVED)"
proof (cases "db' = db")
  case False
  obtain t d1 d2 where d1: "reserve_task_attempt env b (rq_task_id rq) (rq_backend_ref rq) (rq_parent_task_id rq) now db = (Inr (), d1)"
      and d2: "reserve_task_in_connection rq now d1 = (Inr (t, True), d2)" and d3: "attach_task (t_task_id t) now d2 = (Inr (), db')"
      and res: "res = Inr (Reserved t True)"
    by (rule reserve_scoped_steps [OF assms False])
  note r1 = reserve_attempt_Inr [OF d1]
  note r2 = reserve_in_spec [OF d2, unfolded if_True]
  have sc: "reservations d2 = reservations db @ [new_reservation b (rq_task_id rq) now]"
      "attempts d2 = attempts db @ [new_attempt b (rq_task_id rq) (rq_backend_ref rq) now]"
    using r1 more_scope [of d2 d1] r2 by (auto simp: task_frame_def)
  have fresh: "\<forall>v \<in> set (reservations db). v_task_id v \<noteq> rq_task_id rq" using r1 by (force simp: by_key_None_iff)
  have tid: "t_task_id t = rq_task_id rq" using r2 by simp
  have at: "task_by_id (rq_task_id rq) d2 \<noteq> None" using r2 tid fresh_task_lookup [of t d1 d2 "rq_task_id rq"] by auto
  let ?hit = "\<lambda>v. v_task_id v = rq_task_id rq \<and> v_status v = TB_RESERVED \<and> task_by_id (rq_task_id rq) d2 \<noteq> None"
  have "sql_update ?hit (\<lambda>v. v\<lparr>v_status := TB_ATTACHED, v_updated_at := now\<rparr>) (reservations db) = reservations db"
    using fresh by (auto simp: sql_update_def intro!: map_idI)
  then have "reservations db' = reservations db @ [(new_reservation b (rq_task_id rq) now)\<lparr>v_status := TB_ATTACHED, v_updated_at := now\<rparr>]"
      "attempts db' = attempts d2" "tasks db' = tasks d2" "runs db' = runs d2"
    using d3 sc at tid by (auto simp: attach_task_def Let_def sql_update_def new_reservation_def split: if_splits)
  moreover have "runs d2 = runs db" using r1 r2 task_frame_runs [of d1 d2] by simp
  ultimately show ?thesis
    using sc r1 r2 res by (simp add: new_reservation_def new_attempt_def)
qed simp

section \<open>Resolution of an unrecoverable task\<close>

lemma check_None: "check ok e = None \<longleftrightarrow> ok"
  by (simp add: check_def)

lemma first_error_None: "first_error es = None \<longleftrightarrow> (\<forall>e \<in> set es. e = None)"
  by (induction es) (auto simp: first_error_def split: option.splits)

lemma finish_resolution_spec:
  "finish_resolution q j replayed db = (Inr x, db') \<Longrightarrow>
     db' = db \<and> (\<exists>u. x = Recovery_resolved u j replayed \<and> task_by_id (rr_task_id q) db = Some u \<and> disposition_complete q u j db)"
  by (auto simp: finish_resolution_def get_task_def split: sum.splits if_splits option.splits)

lemma resolve_writes_spec:
  assumes "resolve_writes env q t now db = (Inr j, db')"
  shows "j = recovery_adjudication env q now \<and> adjudications db' = adjudications db @ [j] \<and> runs db' = runs db \<and> locks db' = locks db \<and>
    tasks db' = sql_update (\<lambda>x. t_task_id x = rr_task_id q \<and> t_state_version x = t_state_version t \<and> t_state x \<in> {UNCERTAIN, RECOVERY_PENDING})
      (resolved_task now) (tasks db)"
proof -
  define db2 where "db2 = quarantine_task env (rr_task_id q) recovery_reason_code now
    (db\<lparr>tasks := sql_update (\<lambda>x. t_task_id x = rr_task_id q \<and> t_state_version x = t_state_version t \<and> t_state x \<in> {UNCERTAIN, RECOVERY_PENDING})
      (resolved_task now) (tasks db)\<rparr>)"
  have d2: "runs db2 = runs db" "locks db2 = locks db" "adjudications db2 = adjudications db"
      "tasks db2 = sql_update (\<lambda>x. t_task_id x = rr_task_id q \<and> t_state_version x = t_state_version t \<and> t_state x \<in> {UNCERTAIN, RECOVERY_PENDING})
      (resolved_task now) (tasks db)"
    by (simp_all add: db2_def quarantine_task_def quarantine_record_def)
  let ?row = "recovery_adjudication env q now"
  obtain d3 where i: "insert_link (rr_successor_task_id q) LINK_SUPERSEDES TARGET_TASK (rr_task_id q)
        [(''project_id'', JStr (rr_project_id q)), (''reason'', JStr ''recovery_disposition'')] now
        (db2\<lparr>adjudications := adjudications db2 @ [?row]\<rparr>) = (Inr (), d3)"
      and j: "j = ?row" and ev: "\<exists>a b c d e f g r. append_task_event a b c d e f g now d3 = (r, db')"
    using assms unfolding resolve_writes_def Let_def db2_def [symmetric]
    by (auto split: if_splits prod.splits sum.splits dest!: and_then_Inr) blast
  have "runs d3 = runs db2 \<and> locks d3 = locks db2 \<and> tasks d3 = tasks db2 \<and> adjudications d3 = adjudications db2 @ [?row]"
    using i by (auto simp: insert_link_def split: if_splits)
  moreover have "runs db' = runs d3 \<and> locks db' = locks d3 \<and> tasks db' = tasks d3 \<and> adjudications db' = adjudications d3"
    using ev by (auto simp: append_task_event_def Let_def split: if_splits)
  ultimately show ?thesis using d2 j by simp
qed

text \<open>The writes and the final check of a resolution that had an effect, with what the refusals have excluded.\<close>

lemma resolve_recovery_steps:
  fixes db :: "'a scope_db_scheme"
  assumes "resolve_recovery env q now db = (res, db')" "db' \<noteq> db"
  obtains t s v a vs j u where "recovery_request_error q db = None" "task_by_id (rr_task_id q) db = Some t"
    "task_by_id (rr_successor_task_id q) db = Some s" "recovery_scope q db = Some (v, a, vs)" "rr_if_state_version q = t_state_version t"
    "in_unresolved_recovery t" "rr_task_id q \<noteq> rr_successor_task_id q" "t_state s = COMPLETED" "run_by_id (a_run_id a) db = None"
    "resolve_writes env q t now db = (Inr j, db')" "res = Inr (Recovery_resolved u j False)" "task_by_id (rr_task_id q) db' = Some u"
    "disposition_complete q u j db'"
proof -
  have ok: "recovery_request_error q db = None" and it: "in_transaction (resolve_in_transaction env q now) db = (res, db')"
    using assms by (auto simp: resolve_recovery_def split: option.splits)
  then obtain x where x: "res = Inr x" using assms(2) by (cases res) (auto dest: in_transaction_Inl)
  note body = in_transaction_Inr [OF it [unfolded x]]
  obtain t s scope where t: "task_by_id (rr_task_id q) db = Some t" and s: "task_by_id (rr_successor_task_id q) db = Some s"
      and sc: "recovery_scope q db = Some scope"
    using body by (auto simp: resolve_in_transaction_def get_task_def split: if_splits option.splits sum.splits)
  have get: "get_task (rr_task_id q) db = Inr t" "get_task (rr_successor_task_id q) db = Inr s"
    using body t s by (auto simp: resolve_in_transaction_def get_task_def split: if_splits option.splits sum.splits)
  have fin: "finish_resolution q j r db \<noteq> (Inr x, db')" for j r using finish_resolution_spec [of q j r db x db'] assms(2) by blast
  obtain j d where ver: "rr_if_state_version q = t_state_version t" and ref: "recovery_refusal q t s scope db = None"
      and w: "resolve_writes env q t now db = (Inr j, d)" and f: "finish_resolution q j False d = (Inr x, db')"
    using body get sc assms(2) fin by (auto simp: resolve_in_transaction_def Let_def split: option.splits if_splits sum.splits prod.splits)
  obtain v a vs where scope: "scope = (v, a, vs)" by (cases scope)
  have "in_unresolved_recovery t" "rr_task_id q \<noteq> rr_successor_task_id q" "t_state s = COMPLETED" "run_by_id (a_run_id a) db = None"
    using ref scope by (simp_all add: recovery_refusal_def first_error_None check_None)
  with that [OF ok t s sc [unfolded scope] ver] w x finish_resolution_spec [OF f] show thesis by blast
qed

text \<open>The resolution of an unrecoverable task is complete or has no effect. Either the database is as before, or the task is failed and
  resolved one version later, its reservation and its attempt are quarantined with matching evidence, the completed successor is linked to
  it, exactly one adjudication was added, and no run was written. It is applied only to a task in unresolved recovery, at the version the
  owner named, whose run does not exist and whose successor is another, completed task.\<close>

theorem resolve_recovery_all_or_nothing:
  fixes db :: "'a scope_db_scheme"
  assumes "resolve_recovery env q now db = (res, db')"
  shows "db' = db \<or>
    (\<exists>t s u a j. res = Inr (Recovery_resolved u j False) \<and> task_by_id (rr_task_id q) db = Some t \<and> in_unresolved_recovery t \<and>
      t_state_version t = rr_if_state_version q \<and> by_key a_task_id (rr_task_id q) (attempts db) = Some a \<and> run_by_id (a_run_id a) db = None \<and>
      task_by_id (rr_successor_task_id q) db = Some s \<and> t_state s = COMPLETED \<and> rr_successor_task_id q \<noteq> rr_task_id q \<and>
      task_by_id (rr_task_id q) db' = Some u \<and> t_state_version u = t_state_version t + 1 \<and> disposition_complete q u j db' \<and>
      adjudications db' = adjudications db @ [j] \<and> runs db' = runs db \<and> locks db' = locks db)"
proof (cases "db' = db")
  case False
  obtain t s v a vs j u where t: "task_by_id (rr_task_id q) db = Some t" and s: "task_by_id (rr_successor_task_id q) db = Some s"
      and sc: "recovery_scope q db = Some (v, a, vs)" and ver: "rr_if_state_version q = t_state_version t"
      and ok: "in_unresolved_recovery t" "rr_task_id q \<noteq> rr_successor_task_id q" "t_state s = COMPLETED" "run_by_id (a_run_id a) db = None"
      and w: "resolve_writes env q t now db = (Inr j, db')" and u: "res = Inr (Recovery_resolved u j False)" "task_by_id (rr_task_id q) db' = Some u"
        "disposition_complete q u j db'"
    by (rule resolve_recovery_steps [OF assms False])
  have a: "by_key a_task_id (rr_task_id q) (attempts db) = Some a"
    using sc by (auto simp: recovery_scope_def split: option.splits if_splits)
  note w' = resolve_writes_spec [OF w]
  have "task_by_id (rr_task_id q) db' = Some (resolved_task now t)"
    using w' t ok(1) task_by_id_key [OF t]
    by (simp add: task_by_id_def by_key_sql_update resolved_task_def in_unresolved_recovery_def)
  then have "t_state_version u = t_state_version t + 1" using u(2) by (simp add: resolved_task_def)
  with u t s ok a ver w' show ?thesis by simp
qed simp

section \<open>Sample databases and witnesses\<close>

definition running_plane :: scope_db where
  "running_plane = accepted_plane\<lparr>runs := [new_run sample_id ''Repo'' ''executable_profile'' ''runs/1'' (JObj []) ''low'' False ''running'' ''tok'' ''t0'']\<rparr>"

definition sample_canceller :: "string \<Rightarrow> scope_db \<Rightarrow> cancel_result \<times> scope_db" where
  "sample_canceller k db = (\<lparr>cr_ok = True, cr_status = ''cancelled'', cr_cancelled = True, cr_termination_confirmed = True, cr_reason = []\<rparr>,
     db\<lparr>runs := sql_update (\<lambda>r. r_run_id r = k) (\<lambda>r. r\<lparr>r_status := ''cancelled''\<rparr>) (runs db)\<rparr>)"

definition sample_launcher :: "scope_db launcher" where
  "sample_launcher k db = (Inr (True, []),
     db\<lparr>runs := runs db @ [new_run k ''Repo'' ''executable_profile'' ''runs/1'' (JObj []) ''low'' False ''queued'' ''tok'' ''t0'']\<rparr>)"

lemma sample_keeps_tasks: "keeps_tasks sample_canceller" "keeps_tasks sample_launcher"
  by (simp_all add: keeps_tasks_def sample_canceller_def sample_launcher_def)

definition sample_start :: start_request where
  "sample_start = \<lparr>sr_controller_request_id = ''req-1'', sr_project_id = [], sr_parent_task_id = [], sr_profile_id = ''p'', sr_repo_name = ''repo'',
     sr_legacy_hash = ''h1'', sr_scoped_hash = (\<lambda>b. ''h2''), sr_identity = Inr (''repo'', ''/r''), sr_within = True\<rparr>"

definition started_plane :: scope_db where
  "started_plane = snd (start_durable_command sample_env (\<lambda>x. x) sample_launcher sample_start sample_task_id sample_id ''t1'' empty_scope)"

definition successor_id :: string where
  "successor_id = ''task_20240102T000000Z_0123456789ab''"

definition lost_plane :: scope_db where
  "lost_plane = bound_scope\<lparr>
     tasks := [(new_task sample_task_request ''t1'')\<lparr>t_state := UNCERTAIN, t_recovery_state := REC_UNRESOLVED, t_state_version := 2\<rparr>,
               (new_task (sample_task_request\<lparr>rq_task_id := successor_id, rq_controller_request_id := ''req-2'', rq_backend_ref := ''r2''\<rparr>) ''t1'')
                 \<lparr>t_state := COMPLETED\<rparr>],
     reservations := [(new_reservation sample_binding sample_task_id ''t1'')\<lparr>v_status := TB_ATTACHED\<rparr>,
                      (new_reservation sample_binding successor_id ''t1'')\<lparr>v_status := TB_ATTACHED\<rparr>],
     attempts := [new_attempt sample_binding sample_task_id sample_id ''t1'']\<rparr>"

definition sample_recovery :: recovery_request where
  "sample_recovery = \<lparr>rr_project_id = ''p1'', rr_task_id = sample_task_id, rr_if_state_version = 2, rr_successor_task_id = successor_id,
     rr_reason = ''lost'', rr_idempotency_key = ''key1''\<rparr>"

lemma sample_start_wf: "wf_tasks bound_scope" "wf_tasks running_plane" "wf_tasks empty_scope"
  unfolding wf_tasks_def by code_simp+

theorem stale_cancel_changes_nothing_witness:
  "\<exists>cs. snd (cancel_task (\<lambda>x. x) sample_canceller sample_task_id 7 ''why'' ''req-9'' [] ''cmd-1'' ''t2'' running_plane) = running_plane\<lparr>commands := cs\<rparr>"
proof -
  have l: "load_task_scope sample_task_id [] running_plane = Inr (new_task sample_task_request ''t1'', legacy_unassigned)" by code_simp
  obtain res db' where c: "cancel_task (\<lambda>x. x) sample_canceller sample_task_id 7 ''why'' ''req-9'' [] ''cmd-1'' ''t2'' running_plane = (res, db')" by fastforce
  have "(7::int) \<noteq> t_state_version (new_task sample_task_request ''t1'')" by simp
  from stale_cancel_changes_nothing [OF l this c] c show ?thesis by auto
qed

theorem cancellation_claim_honest_witness:
  "\<exists>r. run_by_id sample_id (snd (cancel_task (\<lambda>x. x) sample_canceller sample_task_id 0 ''why'' ''req-9'' [] ''cmd-1'' ''t2'' running_plane)) = Some r \<and>
     r_status r = ''cancelled''"
proof -
  let ?c = "cancel_task (\<lambda>x. x) sample_canceller sample_task_id 0 ''why'' ''req-9'' [] ''cmd-1'' ''t2'' running_plane"
  have "case fst ?c of Inr (Cancel_answer y) \<Rightarrow> cancellation_claimed y \<and> t_backend_ref (cy_task y) = sample_id | _ \<Rightarrow> False" by code_simp
  then obtain y db' where y: "?c = (Inr (Cancel_answer y), db')" "cancellation_claimed y" "t_backend_ref (cy_task y) = sample_id"
    by (cases ?c) (auto split: sum.splits cancel_answer.splits)
  have "task_by_id sample_task_id running_plane = Some (new_task sample_task_request ''t1'')" by code_simp
  with cancellation_claim_honest [OF sample_start_wf(2) sample_keeps_tasks(1) y(1,2)] y show ?thesis by (auto simp: sample_task_request_def)
qed


theorem reserve_scoped_atomic_witness:
  "list_all (\<lambda>v. v_status v = TB_ATTACHED) (reservations (snd (reserve_scoped sample_env sample_binding sample_task_request ''t1'' bound_scope))) \<and>
   length (attempts (snd (reserve_scoped sample_env sample_binding sample_task_request ''t1'' bound_scope))) = 1"
proof -
  obtain res db' where r: "reserve_scoped sample_env sample_binding sample_task_request ''t1'' bound_scope = (res, db')" by fastforce
  have "length (tasks (snd (reserve_scoped sample_env sample_binding sample_task_request ''t1'' bound_scope))) \<noteq> length (tasks bound_scope)" by code_simp
  then have "db' \<noteq> bound_scope" using r by auto
  moreover have "reservations bound_scope = []" "attempts bound_scope = []" by code_simp+
  ultimately show ?thesis using reserve_scoped_atomic [OF sample_start_wf(1) r] r by auto
qed

theorem resolve_recovery_all_or_nothing_witness:
  "\<exists>u j. fst (resolve_recovery sample_env sample_recovery ''t9'' lost_plane) = Inr (Recovery_resolved u j False) \<and>
     adjudications (snd (resolve_recovery sample_env sample_recovery ''t9'' lost_plane)) = [j]"
proof -
  obtain res db' where r: "resolve_recovery sample_env sample_recovery ''t9'' lost_plane = (res, db')" by fastforce
  have "length (adjudications (snd (resolve_recovery sample_env sample_recovery ''t9'' lost_plane))) \<noteq> length (adjudications lost_plane)" by code_simp
  then have "db' \<noteq> lost_plane" using r by auto
  moreover have "adjudications lost_plane = []" by code_simp
  ultimately show ?thesis using resolve_recovery_all_or_nothing [OF r] r by auto
qed

end
