(* ===== verification/System_Steps.thy ===== *)
theory System_Steps
  imports Start_Guarantees
begin

text \<open>
  The components together. All stores live in one SQLite file, so a step of one component is a transaction on the database of all of them.
  This theory proves what each component leaves alone of the others (the frames), collects the transactions of every component in one
  relation \<open>system_step\<close>, in which any number of reconciliations are in flight between their read and their write, and proves the invariant
  that every step keeps.
\<close>

section \<open>Frames of the lock store\<close>

definition lock_frame :: "'a lock_db_scheme \<Rightarrow> 'a lock_db_scheme \<Rightarrow> bool" where
  "lock_frame db db' = (lock_db.more db' = lock_db.more db)"

lemma lock_frame_refl [simp]: "lock_frame db db"
  by (simp add: lock_frame_def)

lemma lock_frame_trans: "lock_frame a b \<Longrightarrow> lock_frame b c \<Longrightarrow> lock_frame a c"
  by (simp add: lock_frame_def)

lemma lock_frame_updates [simp]:
  "lock_frame db (db'\<lparr>locks := ls\<rparr>) = lock_frame db db'"
  "lock_frame db (db'\<lparr>runs := rs\<rparr>) = lock_frame db db'"
  by (simp_all add: lock_frame_def)

lemma bump_frame [simp]: "lock_frame db (snd (bump_run_state_version k db')) = lock_frame db db'"
  by (simp add: bump_run_state_version_def)

lemma bump_pair_frame: "bump_run_state_version k db' = (b, d) \<Longrightarrow> lock_frame db d = lock_frame db db'"
  using bump_frame [of db k db'] by simp

lemma bind_frame: "bind_in_connection repo run tok gen db = (res, db') \<Longrightarrow> lock_frame db db'"
  by (auto simp: bind_in_connection_def Let_def bump_pair_frame split: option.splits prod.splits if_splits)

lemma in_transaction_frame:
  "in_transaction body db = (res, db') \<Longrightarrow> (\<And>v d. body db = (Inr v, d) \<Longrightarrow> lock_frame db d) \<Longrightarrow> lock_frame db db'"
  by (cases res) (auto dest: in_transaction_Inl in_transaction_Inr)

lemma bind_ownership_frame: "bind_run_ownership repo run tok gen db = (res, db') \<Longrightarrow> lock_frame db db'"
  unfolding bind_run_ownership_def by (erule in_transaction_frame) (rule bind_frame)

lemma acquire_frame:
  assumes "acquire_write view repo tool fp run pid tok gen now db = (res, db')"
  shows "lock_frame db db'"
proof -
  let ?row = "new_lock repo tool fp run pid tok gen now"
  have store: "lock_frame db d"
    if f: "lock_frame db d0" and i: "insert_lock ?row d0 = (Inr u, d1)" and b: "bind_run_ownership repo run tok gen d1 = (c, d)" for d0 d1 d u c
  proof -
    have "lock_frame d0 d1" using i by (auto simp: insert_lock_def split: if_splits)
    with f bind_ownership_frame [OF b] show ?thesis using lock_frame_trans by blast
  qed
  have del: "lock_frame db (delete_stale repo l db)" for l by (simp add: delete_stale_def Let_def)
  show ?thesis
    using assms unfolding acquire_write_def Let_def
    by (auto split: acquire_view.splits prod.splits sum.splits dest: store [OF del] store [OF lock_frame_refl])
qed

lemma claim_owner_frame:
  assumes "claim_owner repo run owner tok n now db = (res, db')"
  shows "lock_frame db db'"
  using assms unfolding claim_owner_def
  by (rule in_transaction_frame) (auto simp: Let_def dest!: bind_frame split: option.splits prod.splits sum.splits if_splits)

lemma recover_row_frame: "recover_row w l db = (res, db') \<Longrightarrow> lock_frame db db'"
  by (auto simp: recover_row_def Let_def dest!: bind_frame split: prod.splits sum.splits if_splits)

lemma recover_rows_frame: "recover_rows w rows db = (res, db') \<Longrightarrow> lock_frame db db'"
proof (induction rows arbitrary: db res db')
  case (Cons l rows)
  obtain c d where c: "recover_row w l db = (c, d)" by fastforce
  obtain c2 d2 where c2: "recover_rows w rows d = (c2, d2)" by fastforce
  have "db' = d \<or> db' = d2" using Cons.prems c c2 by (auto split: sum.splits)
  with recover_row_frame [OF c] Cons.IH [OF c2] show ?case using lock_frame_trans by blast
qed simp

lemma lock_step_frame: "lock_step db db' \<Longrightarrow> lock_frame db db'"
proof (induction rule: lock_step.induct)
  case (acquire db view repo tool fp run pid tok gen now)
  show ?case using acquire_frame by (metis prod.collapse)
next
  case (bind db repo run tok gen)
  show ?case using bind_ownership_frame by (metis prod.collapse)
next
  case (claim db repo run owner tok n now)
  show ?case using claim_owner_frame by (metis prod.collapse)
next
  case (reserve statuses db repo run version tok gen new_tok pid now)
  show ?case by (simp add: reserve_next_launch_def Let_def split: option.split)
next
  case (recover db w)
  obtain res d where "recover_stale w db = (res, d)" by fastforce
  then show ?case unfolding recover_stale_def using in_transaction_frame recover_rows_frame by (metis snd_conv)
qed (simp_all add: lock_heartbeat_def release_def Let_def)

section \<open>Frames of the group store\<close>

definition group_frame :: "'a group_db_scheme \<Rightarrow> 'a group_db_scheme \<Rightarrow> bool" where
  "group_frame db db' = (group_db.more db' = group_db.more db)"

lemma group_frame_refl [simp]: "group_frame db db"
  by (simp add: group_frame_def)

lemma group_frame_trans: "group_frame a b \<Longrightarrow> group_frame b c \<Longrightarrow> group_frame a c"
  by (simp add: group_frame_def)

lemma group_frame_updates [simp]:
  "group_frame db (db'\<lparr>groups := gs\<rparr>) = group_frame db db'"
  "group_frame db (db'\<lparr>children := cs\<rparr>) = group_frame db db'"
  "group_frame db (db'\<lparr>locks := ls\<rparr>) = group_frame db db'"
  "group_frame db (db'\<lparr>runs := rs\<rparr>) = group_frame db db'"
  by (simp_all add: group_frame_def)

lemma insert_children_frame: "insert_children gid repo now cs db = (res, db') \<Longrightarrow> group_frame db db'"
proof (induction cs arbitrary: db)
  case (Cons c cs)
  obtain r d where r: "insert_child gid repo now c db = (r, d)" by fastforce
  have "group_frame db d" using r by (auto simp: insert_child_def Let_def split: if_splits)
  moreover have "db' = d \<or> insert_children gid repo now cs d = (res, db')" using Cons.prems r by (auto split: sum.splits)
  ultimately show ?case using Cons.IH [of d] group_frame_trans by blast
qed simp

lemma claim_candidates_frame: "claim_candidates now is gs db = (cl, gs', db') \<Longrightarrow> group_frame db db'" for db :: "'a group_db_scheme"
proof (induction "is" arbitrary: gs db cl gs')
  case (Cons i "is")
  obtain b d where p: "promote now i db = (b, d)" by fastforce
  have "group_frame db d" using p by (auto simp: promote_def Let_def)
  moreover have "db' = d \<or> (\<exists>g1 c1 g2. claim_candidates now is g1 d = (c1, g2, db'))"
    using Cons.prems p by (auto split: if_splits option.splits prod.splits)
  ultimately show ?case using Cons.IH [of _ d] group_frame_trans by blast
qed simp

lemma claim_groups_frame: "claim_groups now gs slots db = (cl, db') \<Longrightarrow> group_frame db db'"
proof (induction gs arbitrary: slots db cl)
  case (Cons g gs)
  obtain c s1 d where c: "claim_candidates now (take_slots (min_slots (free_slots (g_requested_concurrency g) (active_in_group (g_group_id g) db)) slots)
      (pending_candidates (g_group_id g) db)) slots db = (c, s1, d)" by (metis prod_cases3)
  have "db' = db \<or> db' = d \<or> (\<exists>s c. claim_groups now gs s db = (c, db')) \<or> (\<exists>s c. claim_groups now gs s d = (c, db'))"
    using Cons.prems c by (auto simp: Let_def split: if_splits prod.splits)
  with claim_candidates_frame [OF c] Cons.IH show ?case using group_frame_trans group_frame_refl by blast
qed simp

lemma group_step_frame: "group_step db db' \<Longrightarrow> group_frame db db'"
proof (induction rule: group_step.induct)
  case (reserve db gid repo specs mode fp lp req inp now)
  have ins: "group_frame db d" if "insert_group_row row db = (u, d0)" "insert_children gid repo now cs d0 = (c, d)" for row u d0 cs c d
  proof -
    have "group_frame db d0" using that(1) by (auto simp: insert_group_row_def split: if_splits)
    then show ?thesis using insert_children_frame [OF that(2)] group_frame_trans by blast
  qed
  show ?case
    unfolding reserve_group_def in_transaction_def Let_def
    by (auto split: option.splits sum.splits prod.splits dest: ins)
next
  case (refresh db gid now)
  show ?case by (simp add: refresh_group_def Let_def split: option.split)
next
  case (claim db limit now)
  obtain cl d where "claim_pending_ids limit now db = (cl, d)" by fastforce
  then show ?case using claim_groups_frame by (simp add: claim_pending_launches_def claim_pending_ids_def)
qed

section \<open>Transactions and reconciliations in flight\<close>

text \<open>
  A reconciliation reads the task and its run, decides, and writes in a later transaction. A state of the system is the database with the
  reconciliations that have read and not yet written. Starts, cancellations and recoveries are sequences of the transactions below: the
  relation interleaves them at every transaction boundary.
\<close>

type_synonym 'a system = "'a scope_db_scheme \<times> (task_row \<times> target option) list"

inductive system_step :: "'a system \<Rightarrow> 'a system \<Rightarrow> bool" where
  run: "run_step db db' \<Longrightarrow> system_step (db, ps) (db', ps)"
| lock: "lock_step db db' \<Longrightarrow> system_step (db, ps) (db', ps)"
| group: "group_step db db' \<Longrightarrow> system_step (db, ps) (db', ps)"
| scope: "scope_step db db' \<Longrightarrow> system_step (db, ps) (db', ps)"
| reserve: "\<not> terminal_task (rq_state rq) \<Longrightarrow> system_step (db, ps) (snd (reserve_task rq now db), ps)"
| reserve_scoped: "\<not> terminal_task (rq_state rq) \<Longrightarrow> system_step (db, ps) (snd (reserve_scoped env b rq now db), ps)"
| event: "system_step (db, ps) (snd (append_task_event k level stage msg state version data now db), ps)"
| command: "system_step (db, ps) (snd (record_command cid k kind req obs status rid reason now db), ps)"
| complete: "system_step (db, ps) (complete_command cid status reason now db, ps)"
| checkpoint: "system_step (db, ps) (snd (create_checkpoint xid k kind version prompt schema cref eref now db), ps)"
| link: "system_step (db, ps) (snd (add_link k ty kind target metadata now db), ps)"
| look: "reconcile_view k now db = Inr p \<Longrightarrow> system_step (db, ps) (db, p # ps)"
| commit: "(t, tg) \<in> set ps \<Longrightarrow> system_step (db, ps) (snd (reconcile_write t tg stage now db), remove1 (t, tg) ps)"
| resolve: "system_step (db, ps) (snd (resolve_recovery env q now db), ps)"

section \<open>The invariant\<close>

text \<open>A terminal task is either what its run says, or was withdrawn by the owner: its reservation and its attempt are quarantined.\<close>

definition outcome_now :: "'a scope_db_scheme \<Rightarrow> task_row \<Rightarrow> task_state" where
  "outcome_now db t = vd_state (derive_verdict t (query (t_backend_ref t) db))"

definition withdrawn :: "'a scope_db_scheme \<Rightarrow> task_row \<Rightarrow> bool" where
  "withdrawn db t = (is_installed db \<and>
     (\<exists>v a. by_key v_task_id (t_task_id t) (reservations db) = Some v \<and> v_status v = TB_QUARANTINED \<and> v_project_id v \<noteq> [] \<and>
        a \<in> set (attempts db) \<and> a_task_id a = t_task_id t \<and> a_status a = AB_QUARANTINED))"

definition tasks_settled :: "'a scope_db_scheme \<Rightarrow> bool" where
  "tasks_settled db = (\<forall>t \<in> set (tasks db). terminal_task (t_state t) \<longrightarrow> outcome_now db t = t_state t \<or> withdrawn db t)"

text \<open>What is known of a reconciliation in flight: the row it read is the stored one or an older one, a terminal state it is about to
  write is still what the run says, and it never takes a terminal task elsewhere.\<close>

definition flight_ok :: "'a scope_db_scheme \<Rightarrow> task_row \<times> target option \<Rightarrow> bool" where
  "flight_ok db p = (case p of (t, tg) \<Rightarrow>
     (\<exists>t'. task_by_id (t_task_id t) db = Some t' \<and> task_row_advances t t') \<and>
     (case tg of None \<Rightarrow> True
      | Some g \<Rightarrow> (\<exists>ob at. tg_fields g = verdict_fields (derive_verdict t ob) @ [T_reconciled_at at] \<and>
          (terminal_task (vd_state (derive_verdict t ob)) \<longrightarrow> outcome_now db t = vd_state (derive_verdict t ob)) \<and>
          (terminal_task (t_state t) \<longrightarrow> vd_state (derive_verdict t ob) = t_state t))))"

definition system_ok :: "'a system \<Rightarrow> bool" where
  "system_ok s = (case s of (db, ps) \<Rightarrow>
     wf_groups db \<and> wf_tasks db \<and> wf_scope db \<and> tasks_settled db \<and> list_all (flight_ok db) ps)"

text \<open>What a step of the system keeps of every run, task and scope record.\<close>

definition terminal_kept :: "'a task_db_scheme \<Rightarrow> 'a task_db_scheme \<Rightarrow> bool" where
  "terminal_kept db db' = (\<forall>k t. task_by_id k db = Some t \<longrightarrow> terminal_task (t_state t) \<longrightarrow>
     (\<exists>t'. task_by_id k db' = Some t' \<and> t_state t' = t_state t))"

definition system_advances :: "'a scope_db_scheme \<Rightarrow> 'a scope_db_scheme \<Rightarrow> bool" where
  "system_advances db db' = (db_advances db db' \<and> tasks_advance db db' \<and> scope_advances db db' \<and> terminal_kept db db')"

lemma terminal_kept_trans: "terminal_kept a b \<Longrightarrow> terminal_kept b c \<Longrightarrow> terminal_kept a c"
  unfolding terminal_kept_def by metis

lemma system_advances_trans: "system_advances a b \<Longrightarrow> system_advances b c \<Longrightarrow> system_advances a c"
  unfolding system_advances_def using db_advances_trans tasks_advance_trans scope_advances_trans terminal_kept_trans by blast

lemma outcome_stays:
  assumes "db_advances db db'" "terminal_task (outcome_now db t)" "backend_of t' = backend_of t"
  shows "outcome_now db' t' = outcome_now db t"
  using durable_runs.terminal_outcome_stays [OF assms(1) _ assms(3)] assms(2)
  by (simp add: durable_runs.outcome_for_def outcome_now_def)

lemma withdrawn_stays:
  assumes "scope_advances db db'" "wf_scope db" "withdrawn db t" "t_task_id t' = t_task_id t"
  shows "withdrawn db' t'"
proof -
  obtain v a where v: "by_key v_task_id (t_task_id t) (reservations db) = Some v" "v_status v = TB_QUARANTINED" "v_project_id v \<noteq> []"
      and a: "a \<in> set (attempts db)" "a_task_id a = t_task_id t" "a_status a = AB_QUARANTINED" and i: "is_installed db"
    using assms(3) by (auto simp: withdrawn_def)
  have "unique_key a_run_id (attempts db)" using assms(2) by (simp add: wf_scope_def)
  from by_key_unique [OF this a(1)] have "by_key a_run_id (a_run_id a) (attempts db) = Some a" .
  then have "by_key a_run_id (a_run_id a) (attempts db') = Some a" using quarantined_attempt_kept [OF assms(1)] a(3) by blast
  then have "a \<in> set (attempts db')" by (rule by_key_Some_in)
  moreover have "by_key v_task_id (t_task_id t) (reservations db') = Some v"
    using assms(1) v by (auto simp: scope_advances_def reservation_advances_def dest: rows_keptD)
  moreover have "is_installed db'" using i assms(1) by (simp add: is_installed_def scope_advances_def)
  ultimately show ?thesis using v a assms(4) by (auto simp: withdrawn_def)
qed

text \<open>A withdrawn task cannot be reconciled: its scope check fails.\<close>

lemma withdrawn_out_of_scope:
  assumes "wf_scope db" "withdrawn db t"
  shows "\<not> in_scope t db"
proof -
  obtain v a where v: "by_key v_task_id (t_task_id t) (reservations db) = Some v" "v_project_id v \<noteq> []"
      and a: "a \<in> set (attempts db)" "a_task_id a = t_task_id t" "a_status a = AB_QUARANTINED" and i: "is_installed db"
    using assms(2) by (auto simp: withdrawn_def)
  have uq: "unique_key a_task_id (attempts db)" using assms(1) by (simp add: wf_scope_def)
  have "x = a" if "x \<in> set (attempts db)" "a_task_id x = t_task_id t" for x using unique_key_inj [OF uq that(1) a(1)] that(2) a(2) by simp
  then have none: "\<not> list_ex (\<lambda>x. a_project_id x = p \<and> a_task_id x = t_task_id t \<and> a_run_id x = r \<and> a_status x \<noteq> AB_QUARANTINED) (attempts db)" for p r
    using a(3) by (auto simp: list_ex_iff)
  have "sp_project_id (scope_for_task (t_task_id t) db) \<noteq> []" using v i by (simp add: scope_for_task_def Let_def)
  then show ?thesis unfolding in_scope_def attempt_error_def require_task_attempt_def using none by (auto split: sum.splits)
qed

section \<open>Every step keeps the invariant\<close>

lemma flight_stays:
  assumes "flight_ok db p" "system_advances db db'"
  shows "flight_ok db' p"
proof -
  obtain t tg where p: "p = (t, tg)" by (cases p)
  obtain t1 where t1: "task_by_id (t_task_id t) db = Some t1" "task_row_advances t t1" using assms(1) p by (auto simp: flight_ok_def)
  obtain t2 where t2: "task_by_id (t_task_id t) db' = Some t2" "task_row_advances t1 t2"
    using tasks_advanceD [OF _ t1(1)] assms(2) by (auto simp: system_advances_def)
  have row: "task_row_advances t t2" by (rule task_row_advances_trans [OF t1(2) t2(2)])
  have "outcome_now db' t = s" if "outcome_now db t = s" "terminal_task s" for s
    using outcome_stays [of db db' t t] that assms(2) by (simp add: system_advances_def)
  then show ?thesis using assms(1) t2(1) row unfolding p flight_ok_def by (auto split: option.splits)
qed

lemma system_keep:
  assumes ok: "system_ok (db, ps)" and adv: "system_advances db db'" and wf: "wf_groups db'" "wf_tasks db'" "wf_scope db'"
    and new: "\<And>t. t \<in> set (tasks db') \<Longrightarrow> terminal_task (t_state t) \<Longrightarrow>
      t \<in> set (tasks db) \<or> outcome_now db' t = t_state t \<or> withdrawn db' t"
  shows "system_ok (db', ps)"
proof -
  have parts: "wf_scope db" "tasks_settled db" "list_all (flight_ok db) ps" using ok by (simp_all add: system_ok_def)
  have "outcome_now db' t = t_state t \<or> withdrawn db' t" if "t \<in> set (tasks db')" "terminal_task (t_state t)" for t
  proof (cases "t \<in> set (tasks db)")
    case True
    then have "outcome_now db t = t_state t \<or> withdrawn db t" using parts(2) that(2) by (simp add: tasks_settled_def)
    then show ?thesis
    proof
      assume o: "outcome_now db t = t_state t"
      then show ?thesis using outcome_stays [of db db' t t] adv that(2) by (simp add: system_advances_def)
    next
      assume "withdrawn db t"
      then show ?thesis using withdrawn_stays [of db db' t t] adv parts(1) by (simp add: system_advances_def)
    qed
  qed (use new that in blast)
  moreover have "list_all (flight_ok db') ps"
    using parts(3) flight_stays [OF _ adv] by (auto simp: list_all_iff)
  ultimately show ?thesis using wf by (simp add: system_ok_def tasks_settled_def)
qed

lemma terminal_kept_same: "tasks db' = tasks db \<Longrightarrow> terminal_kept db db'"
  by (simp add: terminal_kept_def task_by_id_def)

text \<open>A step that does not write the task table.\<close>

lemma system_keep_tasks:
  assumes "system_ok (db, ps)" "tasks db' = tasks db" "db_advances db db'" "scope_advances db db'" "wf_groups db'" "wf_scope db'"
  shows "system_ok (db', ps) \<and> system_advances db db'"
proof -
  have adv: "system_advances db db'"
    using assms tasks_advance_same [of db' db] terminal_kept_same [of db' db] by (simp add: system_advances_def)
  moreover have "wf_tasks db'" using assms(1,2) same_tasks [of db' db] by (simp add: system_ok_def)
  ultimately show ?thesis using system_keep [OF assms(1) adv assms(5) _ assms(6)] assms(2) by simp
qed

lemma system_wf: "system_ok (db, ps) \<Longrightarrow> wf_groups db \<and> wf_locks db \<and> wf_runs db \<and> wf_tasks db \<and> wf_scope db"
  by (simp add: system_ok_def wf_groups_def wf_locks_def)

lemma wf_groups_frame:
  assumes "wf_groups db" "db_advances db db'" "wf_locks db'" "groups db' = groups db" "children db' = children db"
  shows "wf_groups db'"
proof -
  have "run_by_id k db' \<noteq> None" if "run_by_id k db \<noteq> None" for k using that assms(2) by (force simp: db_advances_def)
  then show ?thesis using assms by (auto simp: wf_groups_def group_by_id_def list_all_iff)
qed

lemma wf_groups_cong:
  "runs db' = runs db \<Longrightarrow> locks db' = locks db \<Longrightarrow> groups db' = groups db \<Longrightarrow> children db' = children db \<Longrightarrow> wf_groups db \<Longrightarrow> wf_groups db'"
  by (simp add: wf_groups_def wf_locks_def wf_runs_def group_by_id_def run_by_id_def)

lemma db_advances_cong: "runs db' = runs db \<Longrightarrow> wf_runs db \<Longrightarrow> db_advances db db'"
  using db_advances_same_runs [of db db db'] by simp

text \<open>The tables above the level a step works on.\<close>

lemma upper_tables:
  fixes db db' :: "'a scope_db_scheme"
  shows "run_db.more db' = run_db.more db \<Longrightarrow> locks db' = locks db \<and> lock_frame db db'"
    "lock_frame db db' \<Longrightarrow> groups db' = groups db \<and> children db' = children db \<and> group_frame db db'"
    "group_frame db db' \<Longrightarrow> tasks db' = tasks db \<and> task_db.more db' = task_db.more db"
  by (cases db; cases db'; simp add: lock_frame_def group_frame_def)+

lemma scope_tables_same:
  fixes db db' :: "'a scope_db_scheme"
  assumes "task_db.more db' = task_db.more db"
  shows "scope_advances db db' \<and> wf_scope db' = wf_scope db"
proof -
  have "reservations db' = reservations db \<and> attempts db' = attempts db \<and> quarantine db' = quarantine db \<and> adjudications db' = adjudications db \<and>
      resource_bindings db' = resource_bindings db \<and> projects db' = projects db \<and> ever_activated db' = ever_activated db \<and> scope_schema db' = scope_schema db"
    using assms by (cases db; cases db'; simp)
  moreover from this have "quarantine_view kind k db' = quarantine_view kind k db" for kind k
    by (cases kind) (simp_all add: quarantine_view_def quarantine_owner_def)
  ultimately show ?thesis by (simp add: scope_advances_def wf_scope_def decided_and_preserved_def)
qed

lemma group_level_keeps:
  fixes db db' :: "'a scope_db_scheme"
  assumes "system_ok (db, ps)" "group_frame db db'" "db_advances db db'" "wf_groups db'"
  shows "system_ok (db', ps) \<and> system_advances db db'"
  using system_keep_tasks [OF assms(1) _ assms(3) _ assms(4)] upper_tables(3) [OF assms(2)] scope_tables_same [of db' db]
    system_wf [OF assms(1)] by simp

lemma lock_level_keeps:
  fixes db db' :: "'a scope_db_scheme"
  assumes "system_ok (db, ps)" "lock_frame db db'" "db_advances db db'" "wf_locks db'"
  shows "system_ok (db', ps) \<and> system_advances db db'"
  using group_level_keeps [OF assms(1) _ assms(3)] upper_tables(2) [OF assms(2)]
    wf_groups_frame [OF _ assms(3,4)] system_wf [OF assms(1)] by simp

text \<open>A step of the task store: no run, lock, group or scope row changes.\<close>

lemma task_level_keeps:
  fixes db db' :: "'a scope_db_scheme"
  assumes "system_ok (db, ps)" "task_safe db db'" "terminal_kept db db'"
    and "\<And>t. t \<in> set (tasks db') \<Longrightarrow> terminal_task (t_state t) \<Longrightarrow> t \<in> set (tasks db) \<or> outcome_now db' t = t_state t \<or> withdrawn db' t"
  shows "system_ok (db', ps) \<and> system_advances db db'"
proof -
  note w = system_wf [OF assms(1)]
  have fr: "runs db' = runs db \<and> locks db' = locks db \<and> groups db' = groups db \<and> children db' = children db" "task_db.more db' = task_db.more db"
    "tasks_advance db db'" "wf_tasks db'"
    using assms(2) task_frame_runs [of db db'] by (simp_all add: task_safe_def task_frame_def)
  have adv: "system_advances db db'"
    using fr w assms(3) db_advances_cong [of db' db] scope_tables_same [OF fr(2)] by (simp add: system_advances_def)
  have "wf_groups db'" using wf_groups_cong [of db' db] fr(1) w by simp
  then show ?thesis using system_keep [OF assms(1) adv _ fr(4) _ assms(4)] adv scope_tables_same [OF fr(2)] w by simp
qed

lemma in_flight_old:
  assumes "flight_ok db (t, tg)" "task_by_id (t_task_id t) db = Some old" "t_state_version old = t_state_version t"
  shows "old = t"
  using assms by (auto simp: flight_ok_def task_row_advances_def)

text \<open>The write of a reconciliation: the row is the one that was read, and its new terminal state is what the run says.\<close>

lemma commit_row:
  fixes db :: "'a scope_db_scheme"
  assumes "wf_tasks db" "flight_ok db (t, Some g)" "task_conditional_update (t_task_id t) (tg_fields g) (t_state_version t) (Some [t_state t]) True now db = (Inr (Some u), d)"
  shows "d = put_task (t_task_id t) u db \<and> task_by_id (t_task_id t) db = Some t \<and> t_task_id u = t_task_id t \<and>
    (terminal_task (t_state u) \<longrightarrow> outcome_now db u = t_state u) \<and> (terminal_task (t_state t) \<longrightarrow> t_state u = t_state t)"
  using assms(1,3)
proof (cases rule: task_update_cases)
  case (updated old row)
  then have old: "old = t" using in_flight_old [OF assms(2)] by (simp add: task_guard_def)
  obtain ob at where fs: "tg_fields g = verdict_fields (derive_verdict t ob) @ [T_reconciled_at at]"
      and o: "terminal_task (vd_state (derive_verdict t ob)) \<longrightarrow> outcome_now db t = vd_state (derive_verdict t ob)"
      and k: "terminal_task (t_state t) \<longrightarrow> vd_state (derive_verdict t ob) = t_state t"
    using assms(2) by (auto simp: flight_ok_def)
  have u: "u = task_set (verdict_fields (derive_verdict t ob) @ [T_reconciled_at at]) True now t" using updated old fs by simp
  have st: "t_state u = vd_state (derive_verdict t ob)"
    by (simp add: u task_set_def verdict_fields_def apply_task_fields_append Let_def)
  have b: "backend_of u = backend_of t"
    using verdict_fields_keep(1) [OF derive_verdict_fields [of t ob], of t]
    by (simp add: u task_set_def verdict_fields_def apply_task_fields_append Let_def backend_of_def)
  have "terminal_task (t_state u) \<longrightarrow> outcome_now db u = t_state u"
    using o st outcome_stays [of db db t u] b terminal_verdict_cong [of t "query (t_backend_ref t) db" u "query (t_backend_ref t) db"]
      terminal_verdict [of t "query (t_backend_ref t) db"]
    by (auto simp: outcome_now_def backend_of_def)
  then show ?thesis using updated old u k st by simp
qed simp_all

lemma commit_keeps:
  fixes db :: "'a scope_db_scheme"
  assumes "system_ok (db, ps)" "(t, tg) \<in> set ps" "reconcile_write t tg stage now db = (res, db')"
  shows "system_ok (db', ps) \<and> system_advances db db'"
proof -
  note w = system_wf [OF assms(1)]
  have fl: "flight_ok db (t, tg)" using assms(1,2) by (auto simp: system_ok_def list_all_iff)
  have same: "tasks db' = tasks db \<Longrightarrow> ?thesis"
    using task_level_keeps [OF assms(1) reconcile_write_safe [OF _ assms(3)]] w terminal_kept_same [of db' db] by simp
  show ?thesis
  proof (cases tg)
    case None
    then show ?thesis using same assms(3) by (simp add: reconcile_write_def)
  next
    case (Some g)
    obtain c d where c: "task_conditional_update (t_task_id t) (tg_fields g) (t_state_version t) (Some [t_state t]) True now db = (c, d)" by fastforce
    show ?thesis
    proof (cases "\<exists>u. c = Inr (Some u)")
      case False
      have wf: "wf_tasks db" using w by simp
      have "tasks d = tasks db" using wf c by (cases rule: task_update_cases) (use False in auto)
      then show ?thesis using same assms(3) Some c False by (auto simp: reconcile_write_def split: sum.splits option.splits)
    next
      case True
      then obtain u where u: "c = Inr (Some u)" by blast
      note r = commit_row [OF _ fl [unfolded Some] c [unfolded u]]
      have k: "d = put_task (t_task_id t) u db" "task_by_id (t_task_id t) db = Some t" "t_task_id u = t_task_id t"
        "terminal_task (t_state u) \<Longrightarrow> outcome_now db u = t_state u" "terminal_task (t_state t) \<Longrightarrow> t_state u = t_state t"
        using r w by simp_all
      have ts: "tasks db' = tasks (put_task (t_task_id t) u db)"
      proof -
        obtain e d2 where "append_task_event (t_task_id u) (tg_level g) stage (tg_message g) (task_state_value (t_state u)) (t_state_version u) (tg_data g) now d = (e, d2)" by fastforce
        with append_event_spec [OF this] assms(3) Some c u k(1) show ?thesis by (auto simp: reconcile_write_def split: sum.splits)
      qed
      have look: "task_by_id i db' = (if i = t_task_id t then Some u else task_by_id i db)" for i
        using put_task_lookup [OF k(3,2), of i] ts by (simp add: task_by_id_def)
      have "terminal_kept db db'" unfolding terminal_kept_def using look k(2,5) by auto
      moreover have safe: "task_safe db db'" using reconcile_write_safe [OF _ assms(3)] w by blast
      then have "runs db' = runs db" using task_frame_runs by (auto simp: task_safe_def)
      then have "outcome_now db' x = outcome_now db x" for x unfolding outcome_now_def using query_frame [of db' db] by simp
      moreover have "x = u \<or> x \<in> set (tasks db)" if "x \<in> set (tasks db')" for x
        using that ts by (auto simp: put_task_def sql_update_def)
      ultimately show ?thesis using task_level_keeps [OF assms(1) safe] k(4) by metis
    qed
  qed
qed

lemma look_keeps:
  fixes db :: "'a scope_db_scheme"
  assumes "system_ok (db, ps)" "reconcile_view k now db = Inr (t, tg)"
  shows "system_ok (db, (t, tg) # ps)"
proof -
  have t: "task_by_id k db = Some t" "in_scope t db" "tg = derive_target t (query (t_backend_ref t) db) now"
    using assms(2) by (auto simp: reconcile_view_def get_task_def in_scope_def split: if_splits option.splits)
  have id: "t_task_id t = k" using t(1) by (rule task_by_id_key)
  have "outcome_now db t = t_state t" if "terminal_task (t_state t)"
  proof -
    have "outcome_now db t = t_state t \<or> withdrawn db t"
      using assms(1) task_by_id_in [OF t(1)] that by (simp add: system_ok_def tasks_settled_def)
    then show ?thesis using withdrawn_out_of_scope [of db t] t(2) system_wf [OF assms(1)] by blast
  qed
  then have "flight_ok db (t, tg)"
    using t id by (auto simp: flight_ok_def derive_target_def Let_def outcome_now_def split: option.splits if_splits)
  with assms(1) show ?thesis by (simp add: system_ok_def)
qed

text \<open>A reservation adds one task that is not terminal.\<close>

lemma fresh_task_keeps:
  assumes "fresh_task t db" "tasks db' = tasks db @ [t]" "\<not> terminal_task (t_state t)"
  shows "terminal_kept db db'" "\<And>x. x \<in> set (tasks db') \<Longrightarrow> terminal_task (t_state x) \<Longrightarrow> x \<in> set (tasks db)"
proof -
  have "task_by_id k db' = Some u" if "task_by_id k db = Some u" for k u
    using that unfolding task_by_id_def assms(2) by (simp add: by_key_append)
  then show "terminal_kept db db'" by (simp add: terminal_kept_def)
qed (use assms(2,3) in auto)

lemma reserve_keeps:
  fixes db :: "'a scope_db_scheme"
  assumes "system_ok (db, ps)" "\<not> terminal_task (rq_state rq)" "reserve_task rq now db = (res, db')"
  shows "system_ok (db', ps) \<and> system_advances db db'"
proof -
  note w = system_wf [OF assms(1)]
  consider "db' = db" | "fresh_task (new_task rq now) db" "tasks db' = tasks db @ [new_task rq now]"
    using reserve_task_spec [OF assms(3)] by blast
  then show ?thesis
  proof cases
    case 1
    then show ?thesis using task_level_keeps [OF assms(1) task_safe_refl] w terminal_kept_same [of db db] by simp
  next
    case 2
    have "task_safe db db'" using task_step_safe [of db db'] task_step.reserve [of db rq now] assms(3) w by simp
    then show ?thesis using task_level_keeps [OF assms(1)] fresh_task_keeps [OF 2] assms(2) by simp
  qed
qed

lemma reserve_scoped_keeps:
  fixes db :: "'a scope_db_scheme"
  assumes "system_ok (db, ps)" "\<not> terminal_task (rq_state rq)" "reserve_scoped env b rq now db = (res, db')"
  shows "system_ok (db', ps) \<and> system_advances db db'"
proof (cases "db' = db")
  case True
  then show ?thesis using task_level_keeps [OF assms(1) task_safe_refl] system_wf [OF assms(1)] terminal_kept_same [of db db] by simp
next
  case False
  note w = system_wf [OF assms(1)]
  obtain t d1 d2 where d1: "reserve_task_attempt env b (rq_task_id rq) (rq_backend_ref rq) (rq_parent_task_id rq) now db = (Inr (), d1)"
      and d2: "reserve_task_in_connection rq now d1 = (Inr (t, True), d2)" and d3: "attach_task (t_task_id t) now d2 = (Inr (), db')"
    by (rule reserve_scoped_steps [OF _ assms(3) False]) (use w in auto)
  have s1: "scope_safe db d1" using reserve_attempt_safe [OF _ d1] w by blast
  have r2: "t = new_task rq now" "fresh_task t d1" "tasks d2 = tasks d1 @ [t]" "task_frame d1 d2" using reserve_in_spec [OF d2] by auto
  have m2: "scope_advances d1 d2 \<and> wf_scope d2 = wf_scope d1" using scope_tables_same [of d2 d1] r2(4) by (simp add: task_frame_def)
  have s3: "scope_safe d2 db'" using attach_task_safe [OF _ d3] m2 s1 by (simp add: scope_safe_def)
  have same: "task_db.truncate d1 = task_db.truncate db" "task_db.truncate db' = task_db.truncate d2"
    using s1 s3 by (simp_all add: scope_safe_def scope_frame_def)
  have tasks: "tasks d1 = tasks db" "tasks db' = tasks db @ [t]" using same r2(3) by (simp_all add: task_db.defs)
  have fresh: "fresh_task t db" using r2(2) tasks(1) by (simp add: fresh_task_def)
  have low: "runs db' = runs db \<and> locks db' = locks db \<and> groups db' = groups db \<and> children db' = children db"
    using same task_frame_runs [OF r2(4)] by (simp add: task_db.defs)
  have nt: "\<not> terminal_task (t_state t)" using r2(1) assms(2) by simp
  have "scope_advances db db'" using s1 m2 s3 unfolding scope_safe_def by (blast intro: scope_advances_trans)
  then have adv: "system_advances db db'"
    using db_advances_cong [of db' db] low w fresh_task_advances [OF fresh tasks(2)] fresh_task_keeps(1) [OF fresh tasks(2) nt]
    by (simp add: system_advances_def)
  show ?thesis
    using system_keep [OF assms(1) adv] wf_groups_cong [of db' db] low w fresh_task_wf [OF _ fresh tasks(2)] s3 adv
      fresh_task_keeps(2) [OF fresh tasks(2) nt] by (auto simp: scope_safe_def)
qed

lemma resolve_scope_safe:
  fixes db :: "'a scope_db_scheme"
  assumes "wf_scope db" "recovery_request_error q db = None" "recovery_scope q db = Some (v, a, vs)"
    and "resolve_writes env q t now db = (Inr j, db')"
  shows "scope_advances db db' \<and> wf_scope db' \<and> groups db' = groups db \<and> children db' = children db"
proof -
  define d1 where "d1 = db\<lparr>tasks := sql_update (\<lambda>x. t_task_id x = rr_task_id q \<and> t_state_version x = t_state_version t \<and>
    t_state x \<in> {UNCERTAIN, RECOVERY_PENDING}) (resolved_task now) (tasks db)\<rparr>"
  define d2 where "d2 = quarantine_task env (rr_task_id q) recovery_reason_code now d1"
  have sch: "is_installed db" "scope_schema db \<ge> 2" using assms(2) by (simp_all add: recovery_request_error_def first_error_None check_None)
  have m1: "scope_advances db d1 \<and> wf_scope d1 = wf_scope db" by (rule scope_tables_same) (simp add: d1_def)
  have i1: "is_installed d1" "scope_schema d1 \<ge> 2" using sch by (simp_all add: d1_def is_installed_def)
  have s2: "scope_safe d1 d2" unfolding d2_def using quarantine_task_safe i1 m1 assms(1) by blast
  let ?row = "recovery_adjudication env q now"
  obtain d3 where ev: "map_option q_evidence_hash (by_key quarantine_key (TASK_RESERVATION, rr_task_id q) (quarantine d2)) = Some (recovery_evidence env (rr_task_id q))"
      and ins: "adjudication_insert_ok ?row d2"
      and l: "insert_link (rr_successor_task_id q) LINK_SUPERSEDES TARGET_TASK (rr_task_id q)
        [(''project_id'', JStr (rr_project_id q)), (''reason'', JStr ''recovery_disposition'')] now
        (d2\<lparr>adjudications := adjudications d2 @ [?row]\<rparr>) = (Inr (), d3)"
      and e: "\<exists>a b c d e f g r. append_task_event a b c d e f g now d3 = (r, db')"
    using assms(4) unfolding resolve_writes_def Let_def d1_def [symmetric] d2_def [symmetric]
    by (auto split: if_splits prod.splits sum.splits dest!: and_then_Inr) blast
  have v: "by_key v_task_id (rr_task_id q) (reservations db) = Some v" "v_project_id v = rr_project_id q"
    using assms(3) by (auto simp: recovery_scope_def split: option.splits if_splits)
  have "\<exists>v'. by_key v_task_id (rr_task_id q) (reservations d2) = Some v' \<and> v_project_id v' = rr_project_id q \<and> v_status v' = TB_QUARANTINED"
    using v by (simp add: d2_def d1_def quarantine_task_def quarantine_record_def by_key_sql_update by_key_Some_key [OF v(1)])
  then have view: "quarantine_view (j_record_kind ?row) (j_record_id ?row) d2 = Some (j_project_id ?row, True, j_evidence_hash ?row)"
    using ev by (auto simp: quarantine_view_def quarantine_owner_def recovery_adjudication_def)
  have "scope_schema d2 \<ge> 2" using s2 i1(2) by (simp add: scope_safe_def scope_advances_def)
  then have s3: "scope_safe d2 (d2\<lparr>adjudications := adjudications d2 @ [?row]\<rparr>)"
    using adjudication_append_safe [OF _ ins _ view] s2 by (simp add: scope_safe_def)
  have fr: "task_frame (d2\<lparr>adjudications := adjudications d2 @ [?row]\<rparr>) db'"
    using insert_link_pair [OF l] e append_event_spec task_frame_trans by metis
  then have m4: "scope_advances (d2\<lparr>adjudications := adjudications d2 @ [?row]\<rparr>) db' \<and>
      wf_scope db' = wf_scope (d2\<lparr>adjudications := adjudications d2 @ [?row]\<rparr>)"
    by (intro scope_tables_same) (simp add: task_frame_def)
  have "groups d2 = groups db \<and> children d2 = children db" by (simp add: d2_def d1_def quarantine_task_def quarantine_record_def)
  then have "groups db' = groups db \<and> children db' = children db" using task_frame_runs [OF fr] by simp
  moreover have "wf_scope db'" using s3 m4 by (simp add: scope_safe_def)
  moreover have "scope_advances db db'"
    using m1 m4 s2 s3 unfolding scope_safe_def by (blast intro: scope_advances_trans)
  ultimately show ?thesis by blast
qed

lemma resolve_keeps:
  fixes db :: "'a scope_db_scheme"
  assumes "system_ok (db, ps)" "resolve_recovery env q now db = (res, db')"
  shows "system_ok (db', ps) \<and> system_advances db db'"
proof (cases "db' = db")
  case True
  then show ?thesis using task_level_keeps [OF assms(1) task_safe_refl] system_wf [OF assms(1)] terminal_kept_same [of db db] by simp
next
  case False
  note w = system_wf [OF assms(1)]
  obtain t s v a vs j u where ok: "recovery_request_error q db = None" and t: "task_by_id (rr_task_id q) db = Some t"
      and sc: "recovery_scope q db = Some (v, a, vs)" and un: "in_unresolved_recovery t"
      and wr: "resolve_writes env q t now db = (Inr j, db')" and u: "task_by_id (rr_task_id q) db' = Some u" "disposition_complete q u j db'"
    by (rule resolve_recovery_steps [OF assms(2) False])
  note ws = resolve_writes_spec [OF wr]
  note ss = resolve_scope_safe [OF _ ok sc wr]
  have uq: "unique_key t_task_id (tasks db)" using w by (simp add: wf_tasks_def)
  have old: "by_key t_task_id (rr_task_id q) (tasks db) = Some t" using t by (simp add: task_by_id_def)
  let ?u = "resolved_task now t"
  have id: "t_task_id ?u = rr_task_id q" using task_by_id_key [OF t] by (simp add: resolved_task_def)
  have put: "tasks db' = tasks (put_task (rr_task_id q) ?u db)"
    using ws sql_update_by_key [OF uq old, of "\<lambda>x. t_state_version x = t_state_version t \<and> t_state x \<in> {UNCERTAIN, RECOVERY_PENDING}"] un
    by (simp add: put_task_def in_unresolved_recovery_def)
  have row: "task_row_advances t ?u" by (simp add: task_row_advances_def resolved_task_def task_identity_def)
  have look: "task_by_id k db' = (if k = rr_task_id q then Some ?u else task_by_id k db)" for k
    using put_task_lookup [OF id t, of k] put by (simp add: task_by_id_def)
  have ta: "tasks_advance db db'"
    using put_task_advances [OF t row] tasks_advance_same [OF put] tasks_advance_trans by blast
  have nt: "\<not> terminal_task (t_state t)" using un by (auto simp: in_unresolved_recovery_def terminal_task_iff)
  have tk: "terminal_kept db db'" unfolding terminal_kept_def using look t nt by auto
  have wt: "wf_tasks db'"
  proof -
    have key: "task_identity ?u = task_identity t" "backend_key ?u = backend_key t"
      by (simp_all add: resolved_task_def task_identity_def backend_key_def)
    have "wf_tasks (put_task (rr_task_id q) ?u db)"
      using put_task_wf [OF _ t key(1)] index_ok_put [OF _ t id key(2)] w by blast
    then show ?thesis by (rule same_tasks [OF put])
  qed
  have adv: "system_advances db db'" using db_advances_cong [of db' db] ws w ta ss tk by (simp add: system_advances_def)
  have uu: "u = ?u" using u(1) look by simp
  have wd: "withdrawn db' ?u"
  proof -
    have p: "rr_project_id q \<noteq> []" "is_installed db"
      using ok by (auto simp: recovery_request_error_def first_error_None check_None opaque_id_error_def split: if_splits)
    have "by_key v_task_id (rr_task_id q) (reservations db) = Some v" "v_project_id v = rr_project_id q"
      using sc by (auto simp: recovery_scope_def split: option.splits if_splits)
    then obtain v' where v': "by_key v_task_id (rr_task_id q) (reservations db') = Some v'" "v_project_id v' = rr_project_id q"
      using ss w by (auto simp: scope_advances_def reservation_advances_def dest: rows_keptD)
    obtain a' where a': "by_key a_task_id (rr_task_id q) (attempts db') = Some a'" "a_status a' = AB_QUARANTINED"
      using u(2) by (auto simp: disposition_complete_def)
    have "is_installed db'" using p(2) ss w by (auto simp: is_installed_def scope_advances_def)
    then show ?thesis
      using v' a' p(1) u(2) by_key_Some_in [OF a'(1)] by_key_Some_key [OF a'(1)] id unfolding withdrawn_def disposition_complete_def by auto
  qed
  have "x = ?u \<or> x \<in> set (tasks db)" if "x \<in> set (tasks db')" for x using that put by (auto simp: put_task_def sql_update_def)
  then show ?thesis
    using system_keep [OF assms(1) adv _ wt] wf_groups_cong [of db' db] ws ss w adv wd by blast
qed

lemma scope_level_keeps:
  fixes db :: "'a scope_db_scheme"
  assumes "system_ok (db, ps)" "scope_safe db db'"
  shows "system_ok (db', ps) \<and> system_advances db db'"
proof -
  note w = system_wf [OF assms(1)]
  have low: "tasks db' = tasks db" "runs db' = runs db" "locks db' = locks db" "groups db' = groups db" "children db' = children db"
    using assms(2) by (simp_all add: scope_safe_def scope_frame_def task_db.defs)
  show ?thesis
    using system_keep_tasks [OF assms(1) low(1) db_advances_cong [OF low(2)]] wf_groups_cong [OF low(2-5)] w assms(2)
    by (simp add: scope_safe_def)
qed

lemma task_note_keeps:
  fixes db :: "'a scope_db_scheme"
  assumes "system_ok (db, ps)" "task_step db db'" "tasks db' = tasks db"
  shows "system_ok (db', ps) \<and> system_advances db db'"
  using task_level_keeps [OF assms(1) task_step_safe [OF assms(2)]] system_wf [OF assms(1)] terminal_kept_same [OF assms(3)] assms(3) by simp

lemma system_step_keeps:
  assumes "system_step s s'" "system_ok s"
  shows "system_ok s' \<and> system_advances (fst s) (fst s')"
  using assms
proof (induction rule: system_step.induct)
  case (run db db' ps)
  note w = system_wf [OF run.prems]
  have adv: "db_advances db db'" using run_step_advances [OF run.hyps] w by blast
  note up = upper_tables(1) [OF run_step_more [OF run.hyps]]
  have "wf_locks db'" using up w db_advances_wf [OF adv] by (simp add: wf_locks_def)
  then show ?case using lock_level_keeps [OF run.prems _ adv] up by simp
next
  case (lock db db' ps)
  then show ?case using lock_level_keeps [OF lock.prems lock_step_frame [OF lock.hyps]] lock_step_advances [OF lock.hyps] system_wf by auto
next
  case (group db db' ps)
  then show ?case using group_level_keeps [OF group.prems group_step_frame [OF group.hyps]] group_step_spec [OF group.hyps] system_wf by auto
next
  case (scope db db' ps)
  then show ?case using scope_level_keeps [OF scope.prems scope_step_safe [OF scope.hyps]] system_wf by auto
next
  case (reserve rq db ps now)
  then show ?case using reserve_keeps by (metis fst_conv prod.collapse)
next
  case (reserve_scoped rq db ps env b now)
  then show ?case using reserve_scoped_keeps by (metis fst_conv prod.collapse)
next
  case (event db ps k level stage msg state version data now)
  obtain r d where e: "append_task_event k level stage msg state version data now db = (r, d)" by fastforce
  show ?case using task_note_keeps [OF event task_step.event] append_event_spec [OF e] e by (metis fst_conv snd_conv)
next
  case (command db ps cid k kind req obs status rid reason now)
  obtain r d where e: "record_command cid k kind req obs status rid reason now db = (r, d)" by fastforce
  have "tasks d = tasks db" using record_command_spec [OF e] by auto
  then show ?case using task_note_keeps [OF command task_step.command] e by (metis fst_conv snd_conv)
next
  case (complete db ps cid status reason now)
  show ?case using task_note_keeps [OF complete task_step.complete] by (simp add: complete_command_def)
next
  case (checkpoint db ps xid k kind version prompt schema cref eref now)
  have "tasks (snd (create_checkpoint xid k kind version prompt schema cref eref now db)) = tasks db"
    by (simp add: create_checkpoint_def Let_def)
  then show ?case using task_note_keeps [OF checkpoint task_step.checkpoint] by simp
next
  case (link db ps k ty kind target metadata now)
  have "tasks (snd (add_link k ty kind target metadata now db)) = tasks db" by (simp add: add_link_def)
  then show ?case using task_note_keeps [OF link task_step.link] by simp
next
  case (look k now db p ps)
  moreover have "system_advances db db"
    using task_level_keeps [OF look.prems task_safe_refl] system_wf [OF look.prems] terminal_kept_same [of db db] by simp
  ultimately show ?case using look_keeps by (cases p) simp
next
  case (commit t tg ps db stage now)
  obtain r d where e: "reconcile_write t tg stage now db = (r, d)" by fastforce
  from commit_keeps [OF commit.prems commit.hyps e] have "system_ok (d, ps)" "system_advances db d" by simp_all
  then show ?case using e by (auto simp: system_ok_def list_all_iff dest: set_remove1_subset [THEN subsetD])
next
  case (resolve db ps env q now)
  then show ?case using resolve_keeps by (metis fst_conv prod.collapse)
qed

lemma system_steps_keep:
  assumes "system_step\<^sup>*\<^sup>* s s'" "system_ok s"
  shows "system_ok s' \<and> system_advances (fst s) (fst s')"
  using assms
proof (induction rule: rtranclp_induct)
  case base
  obtain db ps where s: "s = (db, ps)" by (cases s)
  then show ?case using task_level_keeps [of db ps db] task_safe_refl [of db] system_wf [of db ps] terminal_kept_same [of db db] base by simp
next
  case (step y z)
  then show ?case using system_step_keeps [OF step.hyps(2)] system_advances_trans by blast
qed

end
