(* ===== verification/Run_Publication.thy ===== *)
theory Run_Publication
  imports Run_Guarantees
begin

text \<open>
  Publication of the result of a run, \<open>src/soma/run_publication.py\<close>: the authoritative result becomes the file \<open>result.json\<close> of the run
  directory, and the row records the hash of that file together with a bounded public projection bound to the hash of the stored result. Files
  are kept beside the database in a \<open>node\<close>; \<open>atomic_write_json\<close> replaces a file or leaves it, so a write is one step that may fail.

  Between two calls on the store any number of other processes may act: \<open>others k\<close> is what they do at the \<open>k\<close>-th point of the code.
  Rendering is a parameter (\<open>pub_env\<close>): the redacted canonical text of a result, the text of the stored column, SHA-256, the two projection
  builders, which may raise, and the errors of the file system. An exception of these is its printed form.
\<close>

section \<open>Nodes\<close>

text \<open>What a handler did to processes, in order: a worker spawned for a run under a lease token, a process tree terminated, a poller started,
  a worker launched for a generation of a workflow.\<close>

datatype effect = Spawn_worker string string int | Terminate_tree int | Start_poller string | Launch_workflow string string int int

record 'db node =
  n_db :: 'db
  n_files :: "string \<Rightarrow> string option"
  n_trace :: "effect list"

type_synonym 'db others = "nat \<Rightarrow> 'db node \<Rightarrow> 'db node"

definition on_db :: "('db \<Rightarrow> ('db, 'a) outcome) \<Rightarrow> 'db node \<Rightarrow> ('db node, 'a) outcome" where
  "on_db f s = (case f (n_db s) of (v, db) \<Rightarrow> (v, s\<lparr>n_db := db\<rparr>))"

record pub_env =
  pe_content :: "json \<Rightarrow> string"
  pe_text :: "json \<Rightarrow> string"
  pe_digest :: "string \<Rightarrow> string"
  pe_project :: "run_row \<Rightarrow> json \<Rightarrow> string \<Rightarrow> string + json"
  pe_fallback :: "run_row \<Rightarrow> string \<Rightarrow> string \<Rightarrow> string + json"
  pe_json_bytes :: "json \<Rightarrow> nat"
  pe_read_error :: "string \<Rightarrow> string option"
  pe_write_error :: "string \<Rightarrow> string option"

section \<open>The projection\<close>

definition MAX_PUBLICATION_ERROR :: nat where
  "MAX_PUBLICATION_ERROR = 2000"

text \<open>\<open>run.get("result") or {}\<close>\<close>

definition or_object :: "json \<Rightarrow> json" where
  "or_object j = (if py_truthy j then j else JObj [])"

definition source_sha256 :: "pub_env \<Rightarrow> run_row \<Rightarrow> string" where
  "source_sha256 env r = pe_digest env (pe_text env (r_result_json r))"

definition projection_matches :: "run_row \<Rightarrow> string \<Rightarrow> bool" where
  "projection_matches r sha =
     (py_truthy (r_public_result_json r) \<and> r_public_result_status r \<in> {''ready'', ''fallback''} \<and>
      r_public_result_schema_version r = PUBLIC_RESULT_SCHEMA_VERSION \<and> r_public_result_source_sha256 r = sha)"

text \<open>The size a document states about itself: at most four corrections.\<close>

fun settle_bytes :: "pub_env \<Rightarrow> nat \<Rightarrow> (string \<times> json) list \<Rightarrow> (string \<times> json) list" where
  "settle_bytes env 0 d = d"
| "settle_bytes env (Suc n) d =
     (let measured = JInt (int (pe_json_bytes env (JObj d))) in
      if jget ''payload_bytes'' d = Some measured then d else settle_bytes env n (jset ''payload_bytes'' measured d))"

definition emergency_projection :: "pub_env \<Rightarrow> run_row \<Rightarrow> string \<Rightarrow> string \<Rightarrow> json" where
  "emergency_projection env r sha error = JObj (settle_bytes env 4
     [(''ok'', JBool False), (''operation'', JStr ''terminal''), (''run_id'', JStr (r_run_id r)), (''repo_name'', JStr (r_repo_name r)),
      (''tool'', JStr (r_tool r)),
      (''result'', JObj [(''status'', JStr (r_status r)), (''outcome'', JStr ''unknown_failure''), (''summary'', JStr (take 256 (r_summary r))),
                         (''error'', JStr (take 256 (r_error r))), (''safety_failure'', JBool (r_safety_failure r))]),
      (''projection_status'', JStr ''fallback''), (''projection_error'', JStr (take 1024 error)), (''source_result_sha256'', JStr sha),
      (''evidence'', JObj [(''authoritative_operation'', JStr ''result''), (''run_id'', JStr (r_run_id r)), (''source_result_sha256'', JStr sha)]),
      (''error'', JStr []), (''view'', JStr ''summary''), (''projection_version'', JStr ''cf1.v1''),
      (''public_result_schema_version'', JStr PUBLIC_RESULT_SCHEMA_VERSION), (''non_authoritative'', JBool True),
      (''notice'', JStr ''This is a non-authoritative public projection. The complete authoritative record remains available through explicit evidence retrieval.''),
      (''byte_budget'', JInt 12288), (''payload_bytes'', JInt 0)])"

text \<open>Payload, status and error of the projection, and the hash it is bound to.\<close>

definition projection_payload :: "pub_env \<Rightarrow> run_row \<Rightarrow> json \<times> string \<times> string \<times> string" where
  "projection_payload env r =
     (let sha = source_sha256 env r in
      case pe_project env r (or_object (r_result_json r)) sha of
        Inr payload \<Rightarrow> (payload, ''ready'', [], sha)
      | Inl exc \<Rightarrow>
          let primary = take MAX_PUBLICATION_ERROR exc in
          (case pe_fallback env r sha primary of
             Inr payload \<Rightarrow> (payload, ''fallback'', primary, sha)
           | Inl exc2 \<Rightarrow>
               let err = take MAX_PUBLICATION_ERROR (primary @ ''; fallback '' @ exc2) in
               (emergency_projection env r sha err, ''fallback'', err, sha)))"

definition materialize_public_result ::
  "pub_env \<Rightarrow> ('a run_db_scheme) others \<Rightarrow> string \<Rightarrow> ('a run_db_scheme) node \<Rightarrow> (('a run_db_scheme) node, json) outcome" where
  "materialize_public_result env others run_id s =
     (case get_run run_id (n_db s) of
        Inl e \<Rightarrow> (Inl e, s)
      | Inr snapshot \<Rightarrow>
          if \<not> is_terminal (r_status snapshot) then (Inl (ValueError ''Run is not terminal''), s)
          else
            let (payload, status, error, sha) = projection_payload env snapshot in
            if projection_matches snapshot sha then (Inr (r_public_result_json snapshot), s)
            else
              (case on_db (record_public_result run_id payload sha status error (r_state_version snapshot)) (others 20 s) of
                 (Inl e, s1) \<Rightarrow> (Inl e, s1)
               | (Inr (Some recorded), s1) \<Rightarrow> (Inr (r_public_result_json recorded), s1)
               | (Inr None, s1) \<Rightarrow>
                   let s2 = others 21 s1 in
                   (case get_run run_id (n_db s2) of
                      Inl e \<Rightarrow> (Inl e, s2)
                    | Inr current \<Rightarrow>
                        if projection_matches current sha then (Inr (r_public_result_json current), s2)
                        else
                          let s3 = others 22 s2 in
                          (case get_run run_id (n_db s3) of
                             Inl e \<Rightarrow> (Inl e, s3)
                           | Inr latest \<Rightarrow>
                               if source_sha256 env latest \<noteq> sha
                               then (Inl (RuntimeError ''Authoritative terminal result changed during projection''), s3)
                               else
                                 (case on_db (record_public_result run_id payload sha status error (r_state_version latest)) (others 23 s3) of
                                    (Inl e, s4) \<Rightarrow> (Inl e, s4)
                                  | (Inr (Some retried), s4) \<Rightarrow> (Inr (r_public_result_json retried), s4)
                                  | (Inr None, s4) \<Rightarrow>
                                      let s5 = others 24 s4 in
                                      (case get_run run_id (n_db s5) of
                                         Inl e \<Rightarrow> (Inl e, s5)
                                       | Inr again \<Rightarrow>
                                           if projection_matches again sha then (Inr (r_public_result_json again), s5)
                                           else (Inl (RuntimeError ''Could not persist terminal public projection''), s5)))))))"

text \<open>\<open>_materialize_best_effort\<close>: whatever it raises is dropped.\<close>

definition materialize_best_effort ::
  "pub_env \<Rightarrow> ('a run_db_scheme) others \<Rightarrow> string \<Rightarrow> ('a run_db_scheme) node \<Rightarrow> ('a run_db_scheme) node" where
  "materialize_best_effort env others run_id s = snd (materialize_public_result env others run_id s)"

section \<open>Publication\<close>

record publication =
  pb_ok :: bool
  pb_run_id :: string
  pb_status :: string
  pb_hash :: string
  pb_error :: string
  pb_run :: run_row

definition published :: "string \<Rightarrow> string \<Rightarrow> run_row \<Rightarrow> publication" where
  "published run_id hash r = \<lparr>pb_ok = True, pb_run_id = run_id, pb_status = ''published'', pb_hash = hash, pb_error = [], pb_run = r\<rparr>"

definition not_published :: "string \<Rightarrow> string \<Rightarrow> string \<Rightarrow> run_row \<Rightarrow> publication" where
  "not_published run_id status error r =
     \<lparr>pb_ok = False, pb_run_id = run_id, pb_status = status, pb_hash = [], pb_error = error, pb_run = r\<rparr>"

text \<open>The tail that several branches share: repair the projection when it is not the current one, and read the row again.\<close>

definition with_projection ::
  "pub_env \<Rightarrow> ('a run_db_scheme) others \<Rightarrow> string \<Rightarrow> string \<Rightarrow> run_row \<Rightarrow> ('a run_db_scheme) node \<Rightarrow>
   (('a run_db_scheme) node, run_row) outcome" where
  "with_projection env others run_id sha current s =
     (if projection_matches current sha then (Inr current, s)
      else let s1 = others 31 (materialize_best_effort env others run_id (others 30 s)) in (get_run run_id (n_db s1), s1))"

definition publication_failure ::
  "pub_env \<Rightarrow> ('a run_db_scheme) others \<Rightarrow> run_row \<Rightarrow> string \<Rightarrow> string \<Rightarrow> json \<times> string \<times> string \<times> string \<Rightarrow>
   ('a run_db_scheme) node \<Rightarrow> (('a run_db_scheme) node, publication) outcome" where
  "publication_failure env others run error content_hash projection s =
     (let (public_result, public_status, public_error, sha) = projection;
          run_id = r_run_id run;
          bounded_error = take MAX_PUBLICATION_ERROR error in
      case on_db (record_result_publication_with_projection run_id ''failed'' [] None bounded_error public_result sha public_status
              public_error (r_state_version run)) (others 10 s) of
        (Inl e, s1) \<Rightarrow> (Inl e, s1)
      | (Inr recorded, s1) \<Rightarrow>
          (case (case recorded of Some r \<Rightarrow> (Inr r, s1) | None \<Rightarrow> (let s2 = others 11 s1 in (get_run run_id (n_db s2), s2))) of
             (Inl e, s2) \<Rightarrow> (Inl e, s2)
           | (Inr current, s2) \<Rightarrow>
               if r_result_publication_status current = ''published'' \<and> (content_hash = [] \<or> r_result_published_hash current = content_hash)
               then (case with_projection env others run_id sha current s2 of
                       (Inl e, s3) \<Rightarrow> (Inl e, s3)
                     | (Inr r, s3) \<Rightarrow> (Inr (published run_id (r_result_published_hash r) r), s3))
               else (Inr (not_published run_id (r_result_publication_status current) bounded_error current), s2)))"

definition result_path :: "run_row \<Rightarrow> string" where
  "result_path r = r_run_dir r @ ''/result.json''"

text \<open>An exception of the store inside the \<open>try\<close> block becomes a recorded failure. \<open>exc_text\<close> prints it.\<close>

definition exc_text :: "py_error \<Rightarrow> string" where
  "exc_text e = snd (error_parts e)"

definition publish_run_result ::
  "pub_env \<Rightarrow> ('a run_db_scheme) others \<Rightarrow> timestamp \<Rightarrow> string \<Rightarrow> ('a run_db_scheme) node \<Rightarrow> (('a run_db_scheme) node, publication) outcome" where
  "publish_run_result env others now run_id s =
     (case get_run run_id (n_db s) of
        Inl e \<Rightarrow> (Inl e, s)
      | Inr run \<Rightarrow>
          if \<not> is_terminal (r_status run)
          then (let s1 = others 1 s in
                case get_run run_id (n_db s1) of
                  Inl e \<Rightarrow> (Inl e, s1)
                | Inr r \<Rightarrow> (Inr (not_published run_id (r_result_publication_status run) ''Run is not terminal'' r), s1))
          else
            let projection = projection_payload env run;
                (public_result, public_status, public_error, sha) = projection;
                content = pe_content env (or_object (r_result_json run));
                content_hash = pe_digest env content;
                target = result_path run;
                s1 = others 2 s;
                existing = n_files s1 target;
                fail = (\<lambda>exc hash s'. publication_failure env others run (''Could not publish result artifact: '' @ exc) hash projection s');
                record_published = (\<lambda>version. on_db (record_result_publication_with_projection run_id ''published'' content_hash (Some now) []
                                      public_result sha public_status public_error version))
            in case (if existing = None then None else pe_read_error env target) of
                 Some exc \<Rightarrow> fail exc content_hash s1
               | None \<Rightarrow>
                   if existing = Some content \<and> r_result_publication_status run = ''published'' \<and> r_result_published_hash run = content_hash
                   then
                     (let s2 = (if projection_matches run sha then s1 else materialize_best_effort env others run_id s1); s3 = others 3 s2 in
                      case get_run run_id (n_db s3) of
                        Inl e \<Rightarrow> fail (exc_text e) content_hash s3
                      | Inr current \<Rightarrow> (Inr (published run_id content_hash current), s3))
                   else
                     case (if existing \<noteq> Some content then pe_write_error env target else None) of
                       Some exc \<Rightarrow> fail exc content_hash s1
                     | None \<Rightarrow>
                         let s2 = (if existing \<noteq> Some content then s1\<lparr>n_files := (n_files s1)(target \<mapsto> content)\<rparr> else s1) in
                         (case record_published (r_state_version run) (others 4 s2) of
                            (Inl e, s3) \<Rightarrow> fail (exc_text e) content_hash s3
                          | (Inr (Some recorded), s3) \<Rightarrow> (Inr (published run_id content_hash recorded), s3)
                          | (Inr None, s3) \<Rightarrow>
                              let s4 = others 5 s3 in
                              (case get_run run_id (n_db s4) of
                                 Inl e \<Rightarrow> fail (exc_text e) content_hash s4
                               | Inr current \<Rightarrow>
                                   if is_terminal (r_status current) \<and> r_result_published_hash current = content_hash \<and>
                                      r_result_publication_status current = ''published''
                                   then (case with_projection env others run_id sha current s4 of
                                           (Inl e, s5) \<Rightarrow> fail (exc_text e) content_hash s5
                                         | (Inr r, s5) \<Rightarrow> (Inr (published run_id content_hash r), s5))
                                   else
                                     let lost = (\<lambda>s'. case publication_failure env others current ''Result publication metadata changed concurrently''
                                                         content_hash projection s' of
                                                       (Inl e, s6) \<Rightarrow> fail (exc_text e) content_hash s6 | (Inr p, s6) \<Rightarrow> (Inr p, s6)) in
                                     if is_terminal (r_status current)
                                     then (case record_published (r_state_version current) (others 6 s4) of
                                             (Inl e, s5) \<Rightarrow> fail (exc_text e) content_hash s5
                                           | (Inr (Some retried), s5) \<Rightarrow> (Inr (published run_id content_hash retried), s5)
                                           | (Inr None, s5) \<Rightarrow> lost s5)
                                     else lost s4)))"

end
