(* ===== verification/Job_Control.thy ===== *)
theory Job_Control
  imports Run_Publication Group_Guarantees
begin

text \<open>
  The job manager above the stores, \<open>src/soma/job_manager.py\<close>: cancellation of a run, and its reconciliation after a restart, with the launch
  of claimed group children (\<open>src/soma/parallel_groups.py\<close>). Each is the whole handler, every call on the stores and on the files included.

  Between two calls other processes may act (\<open>others\<close>, as in \<open>Run_Publication\<close>). What the operating system and the remote hosts do is a
  parameter (\<open>job_env\<close>): the process table at each point where it is consulted, the report of terminating a process tree, the process that is
  spawned, the answers of a remote controller, the clock, the elapsed time that reading a row computes from it, fresh tokens, and failures to append to the event file.
\<close>

section \<open>Environment\<close>

record job_env =
  je_pub :: pub_env
  je_world :: "nat \<Rightarrow> proc_world"
  je_clock :: "nat \<Rightarrow> timestamp"
  je_terminate :: "int \<Rightarrow> (string \<times> json) list"
  je_spawn :: "string \<Rightarrow> string \<Rightarrow> py_error + int"
  je_cancel_remote :: "string \<Rightarrow> json \<Rightarrow> (string \<times> json) list \<Rightarrow> timestamp \<Rightarrow> int \<Rightarrow> (string \<times> json) list"
  je_probe :: "string \<Rightarrow> json \<Rightarrow> (string \<times> json) list"
  je_reconcile_remote :: "json \<Rightarrow> json \<Rightarrow> (string \<times> json) list"
  je_event_line :: "run_event \<Rightarrow> string"
  je_event_error :: "string \<Rightarrow> py_error option"
  je_token :: string
  je_elapsed :: "run_row \<Rightarrow> pyfloat"
  je_pid :: int
  je_parallel_enabled :: bool
  je_parallel_limit :: "int option"

text \<open>\<open>d.get(key)\<close> and its truth value; the remote tools; a stored lease generation is never zero.\<close>

definition field :: "string \<Rightarrow> (string \<times> json) list \<Rightarrow> json" where
  "field k d = (case jget k d of None \<Rightarrow> JNull | Some v \<Rightarrow> v)"

definition flag :: "string \<Rightarrow> (string \<times> json) list \<Rightarrow> bool" where
  "flag k d = py_truthy (field k d)"

definition is_remote :: "run_row \<Rightarrow> bool" where
  "is_remote r = (r_tool r \<in> {''ssh_monitored_command'', ''remote_powershell''})"

definition LEGACY_READ_ONLY_TOOLS :: "string list" where
  "LEGACY_READ_ONLY_TOOLS = [''codex_plan_task'', ''codex_implement_task'']"

definition controller_contract :: "run_row \<Rightarrow> json option" where
  "controller_contract r = (case jget ''remote_controller_state'' (as_object (r_input_json r)) of Some (JObj d) \<Rightarrow> Some (JObj d) | _ \<Rightarrow> None)"

definition running :: "job_env \<Rightarrow> nat \<Rightarrow> int \<Rightarrow> bool" where
  "running env k pid = process_is_running (je_world env k) (Some pid)"

definition perform :: "effect \<Rightarrow> 'db node \<Rightarrow> 'db node" where
  "perform e s = s\<lparr>n_trace := n_trace s @ [e]\<rparr>"

section \<open>Numbers in documents\<close>

text \<open>\<open>int(value)\<close>: of text, an optional sign and digits; of a float, the digits before the point of its printed form.\<close>

definition digits_to_int :: "string \<Rightarrow> int" where
  "digits_to_int s = foldl (\<lambda>a c. 10 * a + int ((of_char c :: nat) - 48)) 0 s"

definition int_of_text :: "string \<Rightarrow> py_error + int" where
  "int_of_text s =
     (let t = py_strip s; negative = (t \<noteq> [] \<and> hd t = CHR ''-''); u = (if t \<noteq> [] \<and> hd t \<in> {CHR ''-'', CHR ''+''} then tl t else t) in
      if u = [] \<or> \<not> list_all is_digit u then Inl (ValueError (''invalid literal for int() with base 10: '' @ py_repr_str s))
      else Inr (if negative then - digits_to_int u else digits_to_int u))"

fun py_int :: "json \<Rightarrow> py_error + int" where
  "py_int (JInt n) = Inr n"
| "py_int (JBool b) = Inr (if b then 1 else 0)"
| "py_int (JStr s) = int_of_text s"
| "py_int (JFloat t) = int_of_text (takeWhile (\<lambda>c. c \<noteq> CHR ''.'') t)"
| "py_int _ = Inl (TypeError ''int() argument must be a string, a bytes-like object or a real number'')"

section \<open>Events and release\<close>

text \<open>\<open>store.append_event\<close> followed by \<open>ArtifactWriter.append_event\<close>.\<close>

definition note_event ::
  "job_env \<Rightarrow> run_row \<Rightarrow> string \<Rightarrow> string \<Rightarrow> string \<Rightarrow> (string \<times> json) list \<Rightarrow> bool \<Rightarrow> ('a run_db_scheme) node \<Rightarrow>
   (('a run_db_scheme) node, unit) outcome" where
  "note_event env run level stage message data update_metadata s =
     (case on_db (append_event (r_run_id run) level stage message (Some data) None update_metadata (je_clock env 9)) s of
        (Inl e, s1) \<Rightarrow> (Inl e, s1)
      | (Inr ev, s1) \<Rightarrow>
          let path = r_run_dir run @ ''/events.jsonl'';
              old = (case n_files s1 path of None \<Rightarrow> [] | Some t \<Rightarrow> t)
          in (case je_event_error env path of
                Some e \<Rightarrow> (Inl e, s1)
              | None \<Rightarrow> (Inr (), s1\<lparr>n_files := (n_files s1)(path \<mapsto> old @ je_event_line env ev)\<rparr>)))"

definition append_recovery_event ::
  "job_env \<Rightarrow> run_row \<Rightarrow> string \<Rightarrow> string \<Rightarrow> (string \<times> json) list \<Rightarrow> ('a run_db_scheme) node \<Rightarrow> (('a run_db_scheme) node, unit) outcome" where
  "append_recovery_event env run level message data s = note_event env run level ''reconcile'' message data False s"

definition release_run :: "run_row \<Rightarrow> ('a lock_db_scheme) node \<Rightarrow> ('a lock_db_scheme) node" where
  "release_run run s = s\<lparr>n_db := snd (release (r_repo_name run) (r_run_id run) (Some (r_worker_lease_token run)) (Some (lease_gen run)) (n_db s))\<rparr>"

definition publish_run ::
  "job_env \<Rightarrow> ('a run_db_scheme) others \<Rightarrow> string \<Rightarrow> ('a run_db_scheme) node \<Rightarrow> (('a run_db_scheme) node, publication) outcome" where
  "publish_run env others run_id s = publish_run_result (je_pub env) (\<lambda>k. others (100 + k)) (je_clock env 8) run_id s"

text \<open>Publish, record a failed publication as an event: the common tail of the terminal transitions.\<close>

definition publish_noting_failure ::
  "job_env \<Rightarrow> ('a run_db_scheme) others \<Rightarrow> run_row \<Rightarrow> ('a run_db_scheme) node \<Rightarrow> (('a run_db_scheme) node, unit) outcome" where
  "publish_noting_failure env others run s =
     (case publish_run env others (r_run_id run) s of
        (Inl e, s1) \<Rightarrow> (Inl e, s1)
      | (Inr p, s1) \<Rightarrow>
          if pb_ok p then (Inr (), s1)
          else append_recovery_event env run ''error'' ''Canonical terminal result publication failed'' [(''error'', JStr (pb_error p))] (others 40 s1))"

section \<open>Launching claimed children\<close>

text \<open>An exception after the claim fails the child; the reason is the printed exception.\<close>

definition child_launch_failed ::
  "job_env \<Rightarrow> ('a run_db_scheme) others \<Rightarrow> string \<Rightarrow> run_row \<Rightarrow> py_error \<Rightarrow> ('a run_db_scheme) node \<Rightarrow> (('a run_db_scheme) node, bool) outcome" where
  "child_launch_failed env others group_id run exc s =
     (let s1 = others 41 s in
      case get_run (r_run_id run) (n_db s1) of
        Inl e \<Rightarrow> (Inl e, s1)
      | Inr current \<Rightarrow>
          let reason = ''Parallel child worker launch failed: '' @ exc_text exc in
          (case on_db (fail_infrastructure (r_run_id run) reason (Some [r_status current]) (Some (r_state_version current))
                  (Some (r_worker_lease_token current)) (Some (lease_gen current)) (Some (r_heartbeat_at current)) (je_clock env 7)) (others 42 s1) of
             (Inl e, s2) \<Rightarrow> (Inl e, s2)
           | (Inr None, s2) \<Rightarrow> (Inr False, s2)
           | (Inr (Some _), s2) \<Rightarrow>
               (case note_event env run ''error'' ''launch_failed'' reason [(''group_id'', JStr group_id)] False s2 of
                  (Inl e, s3) \<Rightarrow> (Inl e, s3) | (Inr _, s3) \<Rightarrow> (Inr False, s3))))"

definition launch_claimed_child ::
  "job_env \<Rightarrow> ('a run_db_scheme) others \<Rightarrow> string \<Rightarrow> run_row \<Rightarrow> ('a run_db_scheme) node \<Rightarrow> (('a run_db_scheme) node, bool) outcome" where
  "launch_claimed_child env others group_id run s =
     (let run_id = r_run_id run; lease = r_worker_lease_token run; failed = child_launch_failed env others group_id run in
      case je_spawn env run_id lease of
        Inl e \<Rightarrow> failed e s
      | Inr pid \<Rightarrow>
          (case on_db (record_worker_launch run_id pid (Some (r_state_version run)) (Some lease) (Some (r_lease_generation run)) True (je_clock env 6))
                  (others 43 (perform (Spawn_worker run_id lease pid) s)) of
             (Inl e, s1) \<Rightarrow> failed e s1
           | (Inr launched, s1) \<Rightarrow>
               let s2 = others 44 s1 in
               (case (case launched of Some r \<Rightarrow> Inr r | None \<Rightarrow> get_run run_id (n_db s2)) of
                  Inl e \<Rightarrow> failed e s2
                | Inr current \<Rightarrow>
                    if \<not> (r_worker_lease_token current = lease \<and> r_status current \<in> {''queued'', ''running''})
                    then failed (RuntimeError ''Parallel child launch lost durable lease ownership'') (perform (Terminate_tree pid) s2)
                    else (case note_event env run ''info'' ''worker'' ''Parallel child worker launcher started''
                                 [(''group_id'', JStr group_id), (''launcher_pid'', JInt pid)] True s2 of
                            (Inl e, s3) \<Rightarrow> failed e s3 | (Inr _, s3) \<Rightarrow> (Inr True, s3)))))"

definition memberships :: "'a group_db_scheme \<Rightarrow> (string \<times> string) list" where
  "memberships db = map (\<lambda>c. (c_run_id c, c_group_id c))
     (filter (\<lambda>c. case run_by_id (c_run_id c) db of None \<Rightarrow> False | Some r \<Rightarrow> r_status r = ''launch_pending'') (children db))"

text \<open>\<open>dict\<close> of rows: a later row replaces an earlier one.\<close>

fun launch_each ::
  "job_env \<Rightarrow> ('a run_db_scheme) others \<Rightarrow> (string \<times> string) list \<Rightarrow> run_row list \<Rightarrow> ('a run_db_scheme) node \<Rightarrow>
   (('a run_db_scheme) node, string list) outcome" where
  "launch_each env others members [] s = (Inr [], s)"
| "launch_each env others members (run # rest) s =
     (case map_of (rev members) (r_run_id run) of
        None \<Rightarrow> launch_each env others members rest s
      | Some group_id \<Rightarrow>
          if group_id = [] then launch_each env others members rest s
          else
            (case launch_claimed_child env (\<lambda>k. others (1000 + 200 * length rest + k)) group_id run s of
               (Inl e, s1) \<Rightarrow> (Inl e, s1)
             | (Inr ok, s1) \<Rightarrow>
                 (case launch_each env others members rest s1 of
                    (Inl e, s2) \<Rightarrow> (Inl e, s2)
                  | (Inr ids, s2) \<Rightarrow> (Inr (if ok then r_run_id run # ids else ids), s2))))"

text \<open>Refresh the groups, claim what the limits allow, launch every claimed child, refresh again.\<close>

definition refill_powershell_groups ::
  "job_env \<Rightarrow> ('a group_db_scheme) others \<Rightarrow> ('a group_db_scheme) node \<Rightarrow> (('a group_db_scheme) node, string list) outcome" where
  "refill_powershell_groups env others s =
     (if \<not> je_parallel_enabled env then (Inr [], s)
      else
        case on_db (refresh_all_groups (je_clock env 10)) s of
          (Inl e, s1) \<Rightarrow> (Inl e, s1)
        | (Inr _, s1) \<Rightarrow>
            (case on_db (claim_pending_launches (je_parallel_limit env) (je_clock env 11)) (others 45 s1) of
               (Inl e, s2) \<Rightarrow> (Inl e, s2)
             | (Inr claimed, s2) \<Rightarrow>
                 let s3 = others 46 s2 in
                 (case launch_each env others (memberships (n_db s3)) claimed s3 of
                    (Inl e, s4) \<Rightarrow> (Inl e, s4)
                  | (Inr launched, s4) \<Rightarrow>
                      (case on_db (refresh_all_groups (je_clock env 12)) (others 47 s4) of
                         (Inl e, s5) \<Rightarrow> (Inl e, s5) | (Inr _, s5) \<Rightarrow> (Inr launched, s5)))))"

section \<open>Cancellation\<close>

record run_cancellation =
  cn_ok :: bool
  cn_status :: string
  cn_cancelled :: bool
  cn_terminated :: bool
  cn_confirmed :: bool
  cn_reports :: "(string \<times> json) list list"
  cn_reason :: string

definition still_pending :: "bool \<Rightarrow> (string \<times> json) list list \<Rightarrow> string \<Rightarrow> run_cancellation" where
  "still_pending terminated reports reason =
     \<lparr>cn_ok = False, cn_status = ''cancellation_pending'', cn_cancelled = False, cn_terminated = terminated, cn_confirmed = False,
      cn_reports = reports, cn_reason = reason\<rparr>"

definition cancellation_result :: "run_row \<Rightarrow> timestamp \<Rightarrow> string \<Rightarrow> (string \<times> json) list \<Rightarrow> json" where
  "cancellation_result run ended_at error progress = JObj
     [(''run_id'', JStr (r_run_id run)), (''repo_name'', JStr (r_repo_name run)), (''tool'', JStr (r_tool run)), (''status'', JStr ''cancelled''),
      (''classification'', JStr ''cancelled''), (''process_success'', JNull), (''exit_code'', opt_int (r_exit_code run)), (''stdout'', JStr []),
      (''stderr'', JStr []), (''started_at'', opt_str (r_started_at run)), (''ended_at'', JStr ended_at),
      (''duration_seconds'', opt_float (r_duration_seconds run)), (''summary'', JStr error), (''error'', JStr error), (''cancelled'', JBool True),
      (''cancellation'', JObj progress), (''timed_out'', JBool False), (''safety_failure'', JBool False), (''changed_files'', JArr []),
      (''tests_run'', JArr []), (''remaining_risks'', JArr [])]"

text \<open>Another transition won: publish a terminal winner and release the lock when that succeeded.\<close>

definition publish_and_release ::
  "job_env \<Rightarrow> ('a lock_db_scheme) others \<Rightarrow> run_row \<Rightarrow> ('a lock_db_scheme) node \<Rightarrow> (('a lock_db_scheme) node, unit) outcome" where
  "publish_and_release env others run s =
     (case publish_run env others (r_run_id run) s of
        (Inl e, s1) \<Rightarrow> (Inl e, s1)
      | (Inr p, s1) \<Rightarrow> (Inr (), if pb_ok p then release_run run (others 50 s1) else s1))"

definition lost_to_winner ::
  "job_env \<Rightarrow> ('a lock_db_scheme) others \<Rightarrow> run_row \<Rightarrow> bool \<Rightarrow> (string \<times> json) list list \<Rightarrow> string \<Rightarrow> ('a lock_db_scheme) node \<Rightarrow>
   (('a lock_db_scheme) node, run_cancellation) outcome" where
  "lost_to_winner env others run terminated reports reason s =
     (case get_run (r_run_id run) (n_db s) of
        Inl e \<Rightarrow> (Inl e, s)
      | Inr winner \<Rightarrow>
          let over = is_terminal (r_status winner) in
          (case (if over then publish_and_release env others run s else (Inr (), s)) of
             (Inl e, s1) \<Rightarrow> (Inl e, s1)
           | (Inr _, s1) \<Rightarrow>
               (Inr \<lparr>cn_ok = over, cn_status = r_status winner, cn_cancelled = (r_status winner = ''cancelled''), cn_terminated = terminated,
                  cn_confirmed = over, cn_reports = reports, cn_reason = reason\<rparr>, s1)))"

definition persist_progress ::
  "job_env \<Rightarrow> run_row \<Rightarrow> (string \<times> json) list \<Rightarrow> ('a run_db_scheme) node \<Rightarrow> (('a run_db_scheme) node, unit) outcome" where
  "persist_progress env run progress s =
     (case on_db (conditional_update (r_run_id run)
              [F_current_phase ''cancellation_pending'', F_progress_json (JObj progress), F_elapsed_seconds (je_elapsed env run)]
              (default_guard\<lparr>expected_statuses := Some [''cancellation_pending''], expected_lease_token := Some (r_worker_lease_token run),
                 expected_lease_generation := Some (lease_gen run), bump_state_version := False\<rparr>)) s of
        (Inl e, s1) \<Rightarrow> (Inl e, s1) | (Inr _, s1) \<Rightarrow> (Inr (), s1))"

text \<open>The run is stored as cancelled: publish it, release the lock, record the event, let waiting children use the slot.\<close>

definition announce_cancel ::
  "job_env \<Rightarrow> ('a group_db_scheme) others \<Rightarrow> bool \<Rightarrow> run_row \<Rightarrow> (string \<times> json) list list \<Rightarrow> bool \<Rightarrow>
   string \<Rightarrow> ('a group_db_scheme) node \<Rightarrow> (('a group_db_scheme) node, run_cancellation) outcome" where
  "announce_cancel env others suppress_group_refill run reports terminated message s =
     (case publish_noting_failure env others run (others 54 s) of
        (Inl e, s1) \<Rightarrow> (Inl e, s1)
      | (Inr _, s1) \<Rightarrow>
          (case note_event env run ''warning'' ''cancel'' message [(''termination_reports'', JArr (map JObj reports))] False
                  (release_run run (others 55 s1)) of
             (Inl e, s2) \<Rightarrow> (Inl e, s2)
           | (Inr _, s2) \<Rightarrow>
               (case (if suppress_group_refill then (Inr [], s2) else refill_powershell_groups env others (others 56 s2)) of
                  (Inl e, s3) \<Rightarrow> (Inl e, s3)
                | (Inr _, s3) \<Rightarrow>
                    (Inr \<lparr>cn_ok = True, cn_status = ''cancelled'', cn_cancelled = True, cn_terminated = terminated, cn_confirmed = True,
                       cn_reports = reports, cn_reason = []\<rparr>, s3))))"

definition finish_cancel ::
  "job_env \<Rightarrow> ('a group_db_scheme) others \<Rightarrow> bool \<Rightarrow> run_row \<Rightarrow> (string \<times> json) list \<Rightarrow> string \<Rightarrow> (string \<times> json) list list \<Rightarrow> bool \<Rightarrow>
   string \<Rightarrow> ('a group_db_scheme) node \<Rightarrow> (('a group_db_scheme) node, run_cancellation) outcome" where
  "finish_cancel env others suppress_group_refill run progress error reports terminated message s =
     (let s0 = others 51 s; run_id = r_run_id run; ended_at = je_clock env 2 in
      case get_run run_id (n_db s0) of
        Inl e \<Rightarrow> (Inl e, s0)
      | Inr current \<Rightarrow>
          (case on_db (transition_terminal run_id
                  \<lparr>tr_status = ''cancelled'', tr_result = cancellation_result current ended_at error progress, tr_ended_at = Some ended_at,
                   tr_duration_seconds = r_duration_seconds current, tr_exit_code = r_exit_code current, tr_summary = error, tr_error = error,
                   tr_safety_failure = False, tr_recovery_reason = [], tr_progress = Some progress\<rparr>
                  [''cancellation_pending''] (r_state_version current) (Some (r_worker_lease_token run)) (Some (lease_gen run)) None ended_at)
                  (others 52 s0) of
             (Inl e, s1) \<Rightarrow> (Inl e, s1)
           | (Inr None, s1) \<Rightarrow>
               lost_to_winner env others run terminated reports ''Final cancellation lost a concurrent state transition'' (others 53 s1)
           | (Inr (Some _), s1) \<Rightarrow> announce_cancel env others suppress_group_refill run reports terminated message s1))"

definition pending_after ::
  "job_env \<Rightarrow> ('a run_db_scheme) others \<Rightarrow> run_row \<Rightarrow> (string \<times> json) list \<Rightarrow> bool \<Rightarrow> (string \<times> json) list list \<Rightarrow> string \<Rightarrow>
   ('a run_db_scheme) node \<Rightarrow> (('a run_db_scheme) node, run_cancellation) outcome" where
  "pending_after env others run progress terminated reports reason s =
     (case persist_progress env run progress (others 62 s) of
        (Inl e, s1) \<Rightarrow> (Inl e, s1) | (Inr _, s1) \<Rightarrow> (Inr (still_pending terminated reports reason), s1))"

text \<open>The controller has answered: the remote end must be confirmed and stored, then the local client is stopped.\<close>

definition after_remote ::
  "job_env \<Rightarrow> ('a group_db_scheme) others \<Rightarrow> bool \<Rightarrow> run_row \<Rightarrow> (string \<times> json) list \<Rightarrow> (string \<times> json) list \<Rightarrow> ('a group_db_scheme) node \<Rightarrow>
   (('a group_db_scheme) node, run_cancellation) outcome" where
  "after_remote env others suppress run progress ended s =
     (let child = pid_or_zero (r_pid run);
          progress1 = jset ''remote_termination'' (JObj ended) progress
      in if \<not> flag ''terminated'' ended \<or> \<not> flag ''completion_persisted'' ended
         then pending_after env others run progress1 False [ended] ''Remote termination could not be confirmed; lock retained'' s
         else
           let kill = (child > 0 \<and> running env 1 child);
               reports = (if kill then [jset ''role'' (JStr ''child'') (je_terminate env child)] else []);
               s1 = (if kill then perform (Terminate_tree child) s else s);
               progress2 = jset ''termination_reports'' (JArr (map JObj reports)) progress1
           in if \<not> list_all (flag ''terminated'') reports
              then pending_after env others run progress2 True (ended # reports)
                     ''Remote exit confirmed but local SSH termination is unconfirmed; lock retained'' s1
              else finish_cancel env others suppress run progress2 ''Run cancelled after verified remote termination''
                     (ended # reports) True ''Monitored SSH run cancelled after verified remote termination'' s1)"

text \<open>A run of a remote tool: the attached worker, the remote controller, then the local client, each confirmed before the next.\<close>

definition cancel_remote ::
  "job_env \<Rightarrow> ('a group_db_scheme) others \<Rightarrow> bool \<Rightarrow> run_row \<Rightarrow> (string \<times> json) list \<Rightarrow> timestamp \<Rightarrow> ('a group_db_scheme) node \<Rightarrow>
   (('a group_db_scheme) node, run_cancellation) outcome" where
  "cancel_remote env others suppress run progress requested_at s =
     (let child = pid_or_zero (r_pid run); worker = pid_or_zero (r_worker_pid run); launcher = pid_or_zero (r_launcher_pid run);
          input = as_object (r_input_json run); remote_process = as_object (field ''remote_process'' progress) in
      if launcher = 0 \<and> worker = 0 \<and> child = 0
      then finish_cancel env others suppress run progress ''Run cancelled before monitored SSH launch'' [] False
             ''Monitored SSH run cancelled before launch'' s
      else if worker > 0 \<and> running env 0 worker
      then (Inr (still_pending False [] ''Cancellation recorded; attached worker owns remote termination''), s)
      else if remote_process = []
      then (Inr (still_pending False [] ''Worker is unavailable and remote process identity is unknown; lock retained''), s)
      else
        case controller_contract run of
          None \<Rightarrow> (Inr (still_pending False [] ''Authoritative remote-controller contract is unavailable; lock retained''), s)
        | Some contract \<Rightarrow>
            (case jget ''host_id'' input of None \<Rightarrow> (Inl (KeyError ''host_id''), s) | Some host \<Rightarrow>
            (case jget ''command_id'' input of None \<Rightarrow> (Inl (KeyError ''command_id''), s) | Some command \<Rightarrow>
              (case py_int (if flag ''termination_grace_seconds'' progress then field ''termination_grace_seconds'' progress else JInt 5) of
                 Inl e \<Rightarrow> (Inl e, s)
               | Inr grace \<Rightarrow> after_remote env others suppress run progress
                   (je_cancel_remote env (py_str host) contract (jset ''command_id'' (JStr (py_str command)) remote_process) requested_at grace) s))))"

text \<open>A local run: every process tree the row names, without repetition.\<close>

definition cancel_pids :: "run_row \<Rightarrow> (string \<times> int) list" where
  "cancel_pids run =
     (let child = pid_or_zero (r_pid run); worker = pid_or_zero (r_worker_pid run); launcher = pid_or_zero (r_launcher_pid run) in
      (if child > 0 then [(''child'', child)] else []) @
      (if worker > 0 \<and> worker \<noteq> child then [(''worker'', worker)] else []) @
      (if launcher > 0 \<and> launcher \<noteq> child \<and> launcher \<noteq> worker then [(''launcher'', launcher)] else []))"

definition termination_reports :: "job_env \<Rightarrow> run_row \<Rightarrow> (string \<times> json) list list" where
  "termination_reports env run = map (\<lambda>(role, pid). jset ''role'' (JStr role) (je_terminate env pid)) (cancel_pids run)"

definition termination_confirmed :: "job_env \<Rightarrow> run_row \<Rightarrow> bool" where
  "termination_confirmed env run =
     ((cancel_pids run = [] \<and> r_status run \<in> {''pending'', ''launch_pending'', ''queued'', ''recovery_pending''}) \<or>
      (termination_reports env run \<noteq> [] \<and> list_all (flag ''terminated'') (termination_reports env run)))"

definition cancel_local ::
  "job_env \<Rightarrow> ('a group_db_scheme) others \<Rightarrow> bool \<Rightarrow> run_row \<Rightarrow> (string \<times> json) list \<Rightarrow> ('a group_db_scheme) node \<Rightarrow>
   (('a group_db_scheme) node, run_cancellation) outcome" where
  "cancel_local env others suppress run progress s =
     (let reports = termination_reports env run;
          s1 = fold (\<lambda>(_, pid). perform (Terminate_tree pid)) (cancel_pids run) s;
          progress1 = jset ''termination_reports'' (JArr (map JObj reports)) progress
      in if \<not> termination_confirmed env run
         then (case persist_progress env run progress1 (others 63 s1) of
                 (Inl e, s2) \<Rightarrow> (Inl e, s2)
               | (Inr _, s2) \<Rightarrow>
                   (case note_event env run ''error'' ''cancellation_pending'' ''Cancellation requested but process termination is unconfirmed''
                           [(''termination_reports'', JArr (map JObj reports))] False (others 64 s2) of
                      (Inl e, s3) \<Rightarrow> (Inl e, s3)
                    | (Inr _, s3) \<Rightarrow> (Inr (still_pending False reports ''Process termination could not be confirmed; lock retained''), s3)))
         else finish_cancel env others suppress run progress1 ''Run cancelled by request'' reports (reports \<noteq> [])
                ''Run cancelled after process-tree termination was confirmed'' s1)"

datatype run_cancel_reply = Run_lookup_error string py_error | Run_cancel run_cancellation

definition cancel_run ::
  "job_env \<Rightarrow> ('a group_db_scheme) others \<Rightarrow> bool \<Rightarrow> string \<Rightarrow> ('a group_db_scheme) node \<Rightarrow> (('a group_db_scheme) node, run_cancel_reply) outcome" where
  "cancel_run env others suppress run_id s =
     (let reply = (\<lambda>(r, s'). case r of Inl e \<Rightarrow> (Inl e, s') | Inr a \<Rightarrow> (Inr (Run_cancel a), s')) in
      case get_run run_id (n_db s) of
        Inl e \<Rightarrow> (Inr (Run_lookup_error run_id e), s)
      | Inr run \<Rightarrow>
          if is_terminal (r_status run)
          then (case publish_and_release env others run (others 60 s) of
                  (Inl e, s1) \<Rightarrow> (Inl e, s1)
                | (Inr _, s1) \<Rightarrow>
                    (Inr (Run_cancel \<lparr>cn_ok = True, cn_status = r_status run, cn_cancelled = False, cn_terminated = False, cn_confirmed = True,
                       cn_reports = [], cn_reason = ''Run is already terminal''\<rparr>), s1))
          else if r_status run = ''cancellation_pending''
          then (Inr (Run_cancel (still_pending False [] ''Cancellation is already pending'')), s)
          else
            let requested_at = je_clock env 1;
                progress = jset ''cancellation_requested_at'' (JStr requested_at) (as_object (r_progress_json run))
            in (case on_db (request_cancellation run requested_at) (others 60 s) of
                  (Inl e, s1) \<Rightarrow> (Inl e, s1)
                | (Inr None, s1) \<Rightarrow>
                    reply (lost_to_winner env others run False [] ''Cancellation lost a concurrent state transition'' (others 61 s1))
                | (Inr (Some _), s1) \<Rightarrow>
                    reply (if is_remote run then cancel_remote env others suppress run progress requested_at s1
                           else cancel_local env others suppress run progress s1)))"

end
