(* ===== verification/Job_Recovery.thy ===== *)
theory Job_Recovery
  imports Job_Control
begin

text \<open>
  Reconciliation of a run after a restart, \<open>JobManager._reconcile_run\<close> and \<open>JobManager.reconcile_startup\<close> in \<open>src/soma/job_manager.py\<close>. The
  row that is reconciled was read earlier; every write is guarded by what that row showed. The poller of a remote run is an effect; the set of
  pollers of the process is not kept, so starting one twice is two effects.
\<close>

section \<open>Guarded answers\<close>

text \<open>Move the run to \<open>recovery_pending\<close> if it is still as it was read, and say why.\<close>

definition contain ::
  "job_env \<Rightarrow> run_row \<Rightarrow> string list \<Rightarrow> int \<Rightarrow> timestamp option \<Rightarrow> string \<Rightarrow> string \<Rightarrow> (string \<times> json) list \<Rightarrow> ('a run_db_scheme) node \<Rightarrow>
   (('a run_db_scheme) node, unit) outcome" where
  "contain env run statuses version beat level reason data s =
     (case on_db (mark_recovery_pending (r_run_id run) reason (Some statuses) (Some version) (Some (r_worker_lease_token run))
              (Some (lease_gen run)) (Some beat)) s of
        (Inl e, s1) \<Rightarrow> (Inl e, s1)
      | (Inr None, s1) \<Rightarrow> (Inr (), s1)
      | (Inr (Some _), s1) \<Rightarrow> append_recovery_event env run level reason data s1)"

definition contain_as_read ::
  "job_env \<Rightarrow> run_row \<Rightarrow> string \<Rightarrow> string \<Rightarrow> (string \<times> json) list \<Rightarrow> ('a run_db_scheme) node \<Rightarrow> (('a run_db_scheme) node, unit) outcome" where
  "contain_as_read env run level reason data s =
     contain env run [r_status run] (r_state_version run) (r_heartbeat_at run) level reason data s"

definition fail_recovery ::
  "job_env \<Rightarrow> ('a lock_db_scheme) others \<Rightarrow> run_row \<Rightarrow> string \<Rightarrow> ('a lock_db_scheme) node \<Rightarrow> (('a lock_db_scheme) node, bool) outcome" where
  "fail_recovery env others run reason s =
     (case on_db (fail_infrastructure (r_run_id run) reason (Some [r_status run]) (Some (r_state_version run)) (Some (r_worker_lease_token run))
              (Some (lease_gen run)) (Some (r_heartbeat_at run)) (je_clock env 20)) s of
        (Inl e, s1) \<Rightarrow> (Inl e, s1)
      | (Inr None, s1) \<Rightarrow> (Inr False, s1)
      | (Inr (Some _), s1) \<Rightarrow>
          (case publish_noting_failure env others run (others 70 s1) of
             (Inl e, s2) \<Rightarrow> (Inl e, s2)
           | (Inr _, s2) \<Rightarrow>
               (case append_recovery_event env run ''error'' reason [] (release_run run (others 71 s2)) of
                  (Inl e, s3) \<Rightarrow> (Inl e, s3) | (Inr _, s3) \<Rightarrow> (Inr True, s3))))"

section \<open>The worker is alive\<close>

definition worker_verified :: "job_env \<Rightarrow> nat \<Rightarrow> run_row \<Rightarrow> bool" where
  "worker_verified env k r = process_matches_identity (je_world env k) (Some (pid_or_zero (r_worker_pid r))) (r_worker_identity r)"

text \<open>The row still carries the lease that was read.\<close>

definition same_lease :: "run_row \<Rightarrow> run_row \<Rightarrow> bool" where
  "same_lease run current = (r_worker_lease_token current = r_worker_lease_token run \<and> lease_gen current = lease_gen run)"

definition adopt_live_worker ::
  "job_env \<Rightarrow> ('a group_db_scheme) others \<Rightarrow> run_row \<Rightarrow> ('a group_db_scheme) node \<Rightarrow> (('a group_db_scheme) node, unit) outcome" where
  "adopt_live_worker env others run s =
     (let run_id = r_run_id run; token = r_worker_lease_token run; gen = lease_gen run in
      case on_db (adopt_worker run_id (r_state_version run) token gen (r_heartbeat_at run) (je_clock env 21)) s of
        (Inl e, s1) \<Rightarrow> (Inl e, s1)
      | (Inr adopted, s1) \<Rightarrow>
          let s2 = others 72 s1 in
          (case (case adopted of Some r \<Rightarrow> Inr r | None \<Rightarrow> get_run run_id (n_db s2)) of
             Inl e \<Rightarrow> (Inl e, s2)
           | Inr current \<Rightarrow>
               if adopted = None \<and> \<not> (r_status current = ''running'' \<and> same_lease run current \<and> worker_verified env 1 current)
               then (Inr (), s2)
               else
                 (case repository_lock_required_for_run run (n_db s2) of
                    Inl e \<Rightarrow> (Inl e, s2)
                  | Inr required \<Rightarrow>
                      let owner = (let p = pid_or_zero (r_worker_pid current) in if p = 0 then pid_or_zero (r_worker_pid run) else p) in
                      (case (if required then on_db (claim_owner (r_repo_name run) run_id owner token (Some gen) (je_clock env 22)) (others 73 s2)
                             else (Inr True, s2)) of
                         (Inl e, s3) \<Rightarrow> (Inl e, s3)
                       | (Inr claimed, s3) \<Rightarrow>
                           if \<not> claimed
                           then contain env run [''running''] (r_state_version current) (r_heartbeat_at current) ''error''
                                  ''Verified worker could not reclaim matching repository lock ownership'' [] (others 74 s3)
                           else if adopted \<noteq> None
                           then append_recovery_event env run ''info'' ''Active worker identity verified after server restart''
                                  [(''worker_pid'', JInt (pid_or_zero (r_worker_pid run)))] (others 75 s3)
                           else (Inr (), s3)))))"

section \<open>A remote run\<close>

text \<open>What the probe of the remote controller observed, with the result merged in.\<close>

definition observed_remote :: "(string \<times> json) list \<Rightarrow> json" where
  "observed_remote probe =
     (let observed = (if flag ''ok'' probe then field ''state'' probe else JNull) in
      case (observed, field ''result'' probe) of
        (JObj d, JObj r) \<Rightarrow> JObj (jset ''result'' (JObj r) d)
      | _ \<Rightarrow> observed)"

definition remote_terminal_result ::
  "pyfloat \<Rightarrow> run_row \<Rightarrow> string \<Rightarrow> string \<Rightarrow> string \<Rightarrow> string \<Rightarrow> int \<Rightarrow> string \<Rightarrow> (string \<times> json) list \<Rightarrow> (string \<times> json) list \<Rightarrow> json" where
  "remote_terminal_result elapsed run host command status state exit_code ended_at remote_process remote_result = JObj
     [(''run_id'', JStr (r_run_id run)), (''repo_name'', JStr (r_repo_name run)), (''tool'', JStr (r_tool run)), (''host_id'', JStr host),
      (''command_id'', JStr command), (''status'', JStr status), (''exit_code'', JInt exit_code),
      (''started_at'', JStr (case r_started_at run of Some t \<Rightarrow> if t = [] then str_or (r_created_at run) ended_at else t
                             | None \<Rightarrow> str_or (r_created_at run) ended_at)),
      (''ended_at'', JStr ended_at), (''duration_seconds'', JFloat elapsed),
      (''summary'', JStr (''Remote controller reported '' @ state)),
      (''error'', JStr (if exit_code = 0 then [] else ''Remote command exited with code '' @ py_str_int exit_code)),
      (''safety_failure'', JBool False), (''remote_process'', JObj remote_process), (''remote_controller_result'', JObj remote_result),
      (''reconciled_after_restart'', JBool True)]"

definition finish_remote ::
  "job_env \<Rightarrow> ('a lock_db_scheme) others \<Rightarrow> run_row \<Rightarrow> (string \<times> json) list \<Rightarrow> (string \<times> json) list \<Rightarrow> ('a lock_db_scheme) node \<Rightarrow>
   (('a lock_db_scheme) node, unit) outcome" where
  "finish_remote env others run reconciled remote_process s =
     (let input = as_object (r_input_json run);
          remote_result = as_object (field ''result'' reconciled);
          state = (if flag ''authoritative_state'' reconciled then py_str (field ''authoritative_state'' reconciled) else ''failed'');
          status = (if is_terminal state then state else ''failed'');
          ended_at = (if flag ''ended_at'' remote_result then py_str (field ''ended_at'' remote_result) else je_clock env 23) in
      case py_int (case jget ''returncode'' remote_result of None \<Rightarrow> JInt 1 | Some v \<Rightarrow> v) of
        Inl e \<Rightarrow> (Inl e, s)
      | Inr exit_code \<Rightarrow>
          (case jget ''host_id'' input of None \<Rightarrow> (Inl (KeyError ''host_id''), s) | Some host \<Rightarrow>
          (case jget ''command_id'' input of None \<Rightarrow> (Inl (KeyError ''command_id''), s) | Some command \<Rightarrow>
            let summary = ''Remote controller reported '' @ state;
                error = (if exit_code = 0 then [] else ''Remote command exited with code '' @ py_str_int exit_code)
            in (case on_db (transition_terminal (r_run_id run)
                        \<lparr>tr_status = status, tr_result = remote_terminal_result (je_elapsed env run) run (py_str host) (py_str command) status state exit_code ended_at
                           remote_process remote_result,
                         tr_ended_at = Some ended_at, tr_duration_seconds = Some (je_elapsed env run), tr_exit_code = Some exit_code,
                         tr_summary = summary, tr_error = error, tr_safety_failure = False, tr_recovery_reason = [], tr_progress = None\<rparr>
                        [r_status run] (r_state_version run) (Some (r_worker_lease_token run)) (Some (lease_gen run)) None ended_at) s of
                  (Inl e, s1) \<Rightarrow> (Inl e, s1)
                | (Inr None, s1) \<Rightarrow> (Inr (), s1)
                | (Inr (Some _), s1) \<Rightarrow>
                    (case publish_noting_failure env others run (others 76 s1) of
                       (Inl e, s2) \<Rightarrow> (Inl e, s2)
                     | (Inr _, s2) \<Rightarrow>
                         append_recovery_event env run ''info'' ''Terminal remote-controller evidence reconciled after restart''
                           [(''authoritative_state'', JStr state)] (release_run run (others 77 s2)))))))"

definition reconcile_remote_run ::
  "job_env \<Rightarrow> ('a lock_db_scheme) others \<Rightarrow> run_row \<Rightarrow> ('a lock_db_scheme) node \<Rightarrow> (('a lock_db_scheme) node, unit) outcome" where
  "reconcile_remote_run env others run s =
     (case controller_contract run of
        None \<Rightarrow> contain_as_read env run ''warning'' ''Monitored remote execution lacks a durable controller contract'' [] s
      | Some contract \<Rightarrow>
          (case jget ''host_id'' (as_object (r_input_json run)) of None \<Rightarrow> (Inl (KeyError ''host_id''), s) | Some host \<Rightarrow>
            let probe = je_probe env (py_str host) contract;
                reconciled = je_reconcile_remote env contract (observed_remote probe);
                remote_process = as_object (field ''remote_process'' reconciled);
                progress0 = jset ''remote_probe_error'' (JStr (case jget ''error'' probe of None \<Rightarrow> [] | Some v \<Rightarrow> py_str v))
                              (jset ''remote_reconciliation'' (JObj reconciled) (as_object (r_progress_json run)));
                progress = (if remote_process = [] then progress0 else jset ''remote_process'' (JObj remote_process) progress0)
            in if flag ''terminal'' reconciled then finish_remote env others run reconciled remote_process (others 78 s)
               else
                 let adoptable = flag ''adoptable'' reconciled;
                     reason = (if adoptable then ''Matching remote controller adopted after restart''
                               else ''Remote controller state remains uncertain after restart'')
                 in (case on_db (conditional_update (r_run_id run)
                             [F_status ''recovery_pending'', F_current_phase ''remote_reconciliation'', F_ended_at None,
                              F_progress_json (JObj progress), F_error (if adoptable then [] else reason), F_recovery_reason reason,
                              F_safety_failure (\<not> adoptable)]
                             (default_guard\<lparr>expected_statuses := Some [r_status run], expected_state_version := Some (r_state_version run),
                                expected_lease_token := Some (r_worker_lease_token run), expected_lease_generation := Some (lease_gen run),
                                expected_heartbeat_at := Some (r_heartbeat_at run), reject_terminal := True\<rparr>)) (others 79 s) of
                       (Inl e, s1) \<Rightarrow> (Inl e, s1)
                     | (Inr None, s1) \<Rightarrow> (Inr (), s1)
                     | (Inr (Some _), s1) \<Rightarrow>
                         (case append_recovery_event env run (if adoptable then ''info'' else ''warning'') reason
                                 [(''reconciliation_state'', field ''reconciliation_state'' reconciled),
                                  (''uncertainty_state'', field ''uncertainty_state'' reconciled)] s1 of
                            (Inl e, s2) \<Rightarrow> (Inl e, s2)
                          | (Inr _, s2) \<Rightarrow> (Inr (), if adoptable then perform (Start_poller (r_run_id run)) s2 else s2)))))"

section \<open>A run that was never claimed\<close>

text \<open>An exception during the relaunch fails the run, if it still carries the new lease.\<close>

definition relaunch_failed ::
  "job_env \<Rightarrow> ('a lock_db_scheme) others \<Rightarrow> run_row \<Rightarrow> reservation \<Rightarrow> py_error \<Rightarrow> ('a lock_db_scheme) node \<Rightarrow> (('a lock_db_scheme) node, unit) outcome" where
  "relaunch_failed env others run v exc s =
     (let s1 = others 80 s in
      case get_run (r_run_id run) (n_db s1) of
        Inl e \<Rightarrow> (Inl e, s1)
      | Inr current \<Rightarrow>
          if r_worker_lease_token current = je_token env \<and> lease_gen current = rv_lease_generation v
          then (case fail_recovery env others current (''Worker relaunch failed during startup recovery: '' @ exc_text exc) (others 81 s1) of
                  (Inl e, s2) \<Rightarrow> (Inl e, s2) | (Inr _, s2) \<Rightarrow> (Inr (), s2))
          else (Inr (), s1))"

definition relaunch_worker ::
  "job_env \<Rightarrow> ('a lock_db_scheme) others \<Rightarrow> run_row \<Rightarrow> ('a lock_db_scheme) node \<Rightarrow> (('a lock_db_scheme) node, unit) outcome" where
  "relaunch_worker env others run s =
     (let run_id = r_run_id run; token = je_token env;
          (reserved, db1) = reserve_next_launch (r_repo_name run) run_id [r_status run] (r_state_version run) (r_worker_lease_token run)
             (lease_gen run) token (Some (je_pid env)) (je_clock env 24) (n_db s);
          s1 = s\<lparr>n_db := db1\<rparr> in
      case reserved of
        None \<Rightarrow> (Inr (), s1)
      | Some v \<Rightarrow>
          let failed = relaunch_failed env others run v in
          (case je_spawn env run_id token of
             Inl e \<Rightarrow> failed e s1
           | Inr pid \<Rightarrow>
               (case on_db (record_worker_launch run_id pid (Some (rv_state_version v)) (Some token) (Some (rv_lease_generation v)) False
                       (je_clock env 25)) (others 82 (perform (Spawn_worker run_id token pid) s1)) of
                  (Inl e, s2) \<Rightarrow> failed e s2
                | (Inr launched, s2) \<Rightarrow>
                    let s3 = others 83 s2;
                        s4 = others 84 (s3\<lparr>n_db := snd (lock_heartbeat (r_repo_name run) run_id (Some token) (Some (rv_lease_generation v))
                               (je_clock env 26) (n_db s3))\<rparr>) in
                    (case (case launched of Some r \<Rightarrow> Inr r | None \<Rightarrow> get_run run_id (n_db s4)) of
                       Inl e \<Rightarrow> failed e s4
                     | Inr current \<Rightarrow>
                         if \<not> (r_worker_lease_token current = token \<and> lease_gen current = rv_lease_generation v)
                         then (Inr (), perform (Terminate_tree pid) s4)
                         else (case append_recovery_event env run ''warning'' ''Stranded queued worker relaunched once''
                                      [(''launcher_pid'', JInt pid), (''lease_generation'', JInt (rv_lease_generation v))] s4 of
                                 (Inl e, s5) \<Rightarrow> failed e s5 | (Inr _, s5) \<Rightarrow> (Inr (), s5))))))"

definition reconcile_unclaimed ::
  "job_env \<Rightarrow> ('a lock_db_scheme) others \<Rightarrow> run_row \<Rightarrow> ('a lock_db_scheme) node \<Rightarrow> (('a lock_db_scheme) node, unit) outcome" where
  "reconcile_unclaimed env others run s =
     (if r_tool run \<in> set LEGACY_READ_ONLY_TOOLS
      then contain_as_read env run ''warning''
             ''Legacy Codex run cannot be relaunched: Codex execution has been removed from Soma. The record remains readable.'' [] s
      else if running env 0 (pid_or_zero (r_launcher_pid run))
      then append_recovery_event env run ''warning'' ''Launcher remains active; awaiting canonical worker claim''
             [(''launcher_pid'', JInt (pid_or_zero (r_launcher_pid run)))] s
      else if r_launch_attempts run < 2 then relaunch_worker env others run s
      else (case fail_recovery env others run ''Queued run exhausted its bounded worker launch attempts'' s of
              (Inl e, s1) \<Rightarrow> (Inl e, s1) | (Inr _, s1) \<Rightarrow> (Inr (), s1)))"

section \<open>Reconciliation\<close>

definition reconcile_run ::
  "job_env \<Rightarrow> ('a group_db_scheme) others \<Rightarrow> run_row \<Rightarrow> ('a group_db_scheme) node \<Rightarrow> (('a group_db_scheme) node, unit) outcome" where
  "reconcile_run env others run s =
     (if worker_verified env 0 run then adopt_live_worker env others run s
      else if is_remote run then reconcile_remote_run env others run s
      else if running env 0 (pid_or_zero (r_pid run))
      then contain_as_read env run ''warning'' ''Worker ownership is unavailable while a child process remains active''
             [(''child_pid'', JInt (pid_or_zero (r_pid run)))] s
      else if r_status run \<in> {''launch_pending'', ''queued''} then reconcile_unclaimed env others run s
      else if r_status run = ''running''
      then (if pid_or_zero (r_worker_pid run) \<noteq> 0 \<and> r_worker_identity run \<noteq> []
            then (case fail_recovery env others run ''Verified worker process is no longer active after restart'' s of
                    (Inl e, s1) \<Rightarrow> (Inl e, s1) | (Inr _, s1) \<Rightarrow> (Inr (), s1))
            else contain_as_read env run ''warning'' ''Running legacy record has no verifiable worker identity'' [] s)
      else if r_status run \<in> {''cancellation_pending'', ''recovery_pending''}
      then append_recovery_event env run ''warning'' ''Conservative recovery state retained pending operator action'' [] s
      else (Inr (), s))"

text \<open>An exception of one reconciliation contains that run and never stops the loop, unless recording it raises as well.\<close>

definition list_recoverable_runs :: "'a run_db_scheme \<Rightarrow> run_row list" where
  "list_recoverable_runs db = sort_key r_created_at
     (filter (\<lambda>r. r_status r \<in> {''launch_pending'', ''queued'', ''running'', ''cancellation_pending'', ''recovery_pending''}) (runs db))"

definition list_terminal_runs :: "'a run_db_scheme \<Rightarrow> run_row list" where
  "list_terminal_runs db = sort_key r_created_at (filter (\<lambda>r. is_terminal (r_status r)) (runs db))"

definition recover_one ::
  "job_env \<Rightarrow> ('a group_db_scheme) others \<Rightarrow> run_row \<Rightarrow> ('a group_db_scheme) node \<Rightarrow> (('a group_db_scheme) node, unit) outcome" where
  "recover_one env others run s =
     (case reconcile_run env others run s of
        (Inr _, s1) \<Rightarrow> (Inr (), s1)
      | (Inl exc, s1) \<Rightarrow>
          let reason = ''Startup reconciliation failed: '' @ exc_text exc in
          (case on_db (mark_recovery_pending (r_run_id run) reason (Some [r_status run]) (Some (r_state_version run))
                  (Some (r_worker_lease_token run)) (Some (lease_gen run)) (Some (r_heartbeat_at run))) (others 85 s1) of
             (Inl e, s2) \<Rightarrow> (Inl e, s2)
           | (Inr _, s2) \<Rightarrow> append_recovery_event env run ''error'' reason [(''exception_type'', JStr (fst (error_parts exc)))] s2))"

fun recover_each ::
  "job_env \<Rightarrow> ('a group_db_scheme) others \<Rightarrow> run_row list \<Rightarrow> ('a group_db_scheme) node \<Rightarrow> (('a group_db_scheme) node, unit) outcome" where
  "recover_each env others [] s = (Inr (), s)"
| "recover_each env others (run # rest) s =
     (case recover_one env (\<lambda>k. others (200 * length rest + k)) run s of
        (Inl e, s1) \<Rightarrow> (Inl e, s1) | (Inr _, s1) \<Rightarrow> recover_each env others rest s1)"

definition republish_one ::
  "job_env \<Rightarrow> ('a run_db_scheme) others \<Rightarrow> run_row \<Rightarrow> ('a run_db_scheme) node \<Rightarrow> (('a run_db_scheme) node, unit) outcome" where
  "republish_one env others run s =
     (case publish_noting_failure env others run s of
        (Inr _, s1) \<Rightarrow> (Inr (), s1)
      | (Inl exc, s1) \<Rightarrow>
          append_recovery_event env run ''error'' (''Startup result publication repair failed: '' @ exc_text exc)
            [(''exception_type'', JStr (fst (error_parts exc)))] s1)"

fun republish_each ::
  "job_env \<Rightarrow> ('a run_db_scheme) others \<Rightarrow> string list \<Rightarrow> run_row list \<Rightarrow> ('a run_db_scheme) node \<Rightarrow> (('a run_db_scheme) node, nat) outcome" where
  "republish_each env others skip [] s = (Inr 0, s)"
| "republish_each env others skip (run # rest) s =
     (if r_run_id run \<in> set skip then republish_each env others skip rest s
      else (case republish_one env (\<lambda>k. others (200 * length rest + k)) run s of
              (Inl e, s1) \<Rightarrow> (Inl e, s1)
            | (Inr _, s1) \<Rightarrow> (case republish_each env others skip rest s1 of (Inl e, s2) \<Rightarrow> (Inl e, s2) | (Inr n, s2) \<Rightarrow> (Inr (n + 1), s2))))"

definition job_reconcile_startup ::
  "job_env \<Rightarrow> ('a group_db_scheme) others \<Rightarrow> ('a group_db_scheme) node \<Rightarrow> (('a group_db_scheme) node, nat) outcome" where
  "job_reconcile_startup env others s =
     (let recoverable = list_recoverable_runs (n_db s) in
      case recover_each env others recoverable (others 90 s) of
        (Inl e, s1) \<Rightarrow> (Inl e, s1)
      | (Inr _, s1) \<Rightarrow>
          let s2 = others 91 s1 in
          (case republish_each env others (map r_run_id recoverable) (list_terminal_runs (n_db s2)) s2 of
             (Inl e, s3) \<Rightarrow> (Inl e, s3)
           | (Inr n, s3) \<Rightarrow>
               (case on_db (recover_stale (je_world env 2)) (others 92 s3) of
                  (Inl e, s4) \<Rightarrow> (Inl e, s4)
                | (Inr _, s4) \<Rightarrow>
                    (case refill_powershell_groups env others (others 93 s4) of
                       (Inl e, s5) \<Rightarrow> (Inl e, s5)
                     | (Inr launched, s5) \<Rightarrow> (Inr (length recoverable + n + length launched), s5)))))"

end
