(* ===== verification/Job_Guarantees.thy ===== *)
theory Job_Guarantees
  imports Job_Recovery
begin

text \<open>
  What holds of the job manager, whatever the other processes do between its calls. A handler is a program over a node; an invariant of the
  steps of the stores and of the other processes is kept by every handler. The locales \<open>run_invariant\<close>, \<open>lock_invariant\<close> and
  \<open>group_invariant\<close> state this once per level of the database, with one rule per construct a handler is made of, and are then used with
  several invariants.
\<close>

section \<open>Invariants of handlers\<close>

locale run_invariant =
  fixes I :: "('a run_db_scheme) node \<Rightarrow> bool" and others :: "('a run_db_scheme) others"
  assumes others_keep: "I s \<Longrightarrow> I (others k s)"
    and run_keep: "I s \<Longrightarrow> run_step (n_db s) db' \<Longrightarrow> I (s\<lparr>n_db := db'\<rparr>)"
    and files_keep: "I s \<Longrightarrow> I (s\<lparr>n_files := f\<rparr>)"
begin

lemma case_outcome:
  assumes "I (snd p)" "\<And>e s. I s \<Longrightarrow> I (snd (F e s))" "\<And>v s. I s \<Longrightarrow> I (snd (G v s))"
  shows "I (snd (case p of (Inl e, s) \<Rightarrow> F e s | (Inr v, s) \<Rightarrow> G v s))"
  using assms by (auto split: prod.split sum.split)

lemma case_pure:
  assumes "\<And>e. I (snd (F e))" "\<And>v. I (snd (G v))"
  shows "I (snd (case x of Inl e \<Rightarrow> F e | Inr v \<Rightarrow> G v))"
  using assms by (simp split: sum.split)

lemma case_maybe:
  assumes "I (snd F)" "\<And>v. I (snd (G v))"
  shows "I (snd (case x of None \<Rightarrow> F | Some v \<Rightarrow> G v))"
  using assms by (simp split: option.split)

lemma if_both: "I (snd a) \<Longrightarrow> I (snd b) \<Longrightarrow> I (snd (if c then a else b))"
  by simp

lemma let_body: "I (snd (f x)) \<Longrightarrow> I (snd (Let x f))"
  by simp

lemma let_pair: "(\<And>a b. I (snd (f a b))) \<Longrightarrow> I (snd (case p of (a, b) \<Rightarrow> f a b))"
  by (simp split: prod.split)

lemma answer: "I s \<Longrightarrow> I (snd (r, s))"
  by simp

lemma db_step: "I s \<Longrightarrow> run_step (n_db s) (snd (f (n_db s))) \<Longrightarrow> I (snd (on_db f s))"
  using run_keep [of s "snd (f (n_db s))"] by (cases "f (n_db s)") (simp add: on_db_def)

lemma if_node: "I a \<Longrightarrow> I b \<Longrightarrow> I (if c then a else b)"
  by simp

lemmas handler_rules = case_outcome case_pure case_maybe if_both let_body answer if_node others_keep files_keep

lemmas store_steps = run_step.event run_step.launch run_step.adopt run_step.recovery run_step.terminal run_step.infrastructure
  run_step.publication_projection run_step.public_result run_step.cancellation

lemma materialize_keeps: "I s \<Longrightarrow> I (snd (materialize_public_result env (\<lambda>k. others (f k)) run_id s))"
  unfolding materialize_public_result_def
  by (assumption | rule handler_rules db_step store_steps | rule let_pair)+

lemma best_effort_keeps: "I s \<Longrightarrow> I (materialize_best_effort env (\<lambda>k. others (f k)) run_id s)"
  unfolding materialize_best_effort_def by (rule materialize_keeps)

lemma with_projection_keeps: "I s \<Longrightarrow> I (snd (with_projection env (\<lambda>k. others (f k)) run_id sha current s))"
  unfolding with_projection_def
  by (assumption | rule handler_rules best_effort_keeps | rule let_pair)+

lemma publication_failure_keeps: "I s \<Longrightarrow> I (snd (publication_failure env (\<lambda>k. others (f k)) run error hash projection s))"
  unfolding publication_failure_def
  by (assumption | rule handler_rules with_projection_keeps db_step store_steps | rule let_pair)+

lemma publish_keeps: "I s \<Longrightarrow> I (snd (publish_run_result env (\<lambda>k. others (f k)) now run_id s))"
  unfolding publish_run_result_def
  by (assumption | rule handler_rules with_projection_keeps publication_failure_keeps best_effort_keeps db_step store_steps | rule let_pair)+

lemma note_event_keeps: "I s \<Longrightarrow> I (snd (note_event env run level stage msg data upd s))"
  unfolding note_event_def
  by (assumption | rule handler_rules db_step store_steps | rule let_pair)+

lemma recovery_event_keeps: "I s \<Longrightarrow> I (snd (append_recovery_event env run level msg data s))"
  unfolding append_recovery_event_def by (rule note_event_keeps)

lemma publish_run_keeps: "I s \<Longrightarrow> I (snd (publish_run env (\<lambda>k. others (f k)) run_id s))"
  unfolding publish_run_def by (rule publish_keeps)

lemma publish_noting_keeps: "I s \<Longrightarrow> I (snd (publish_noting_failure env (\<lambda>k. others (f k)) run s))"
  unfolding publish_noting_failure_def
  by (assumption | rule handler_rules publish_run_keeps recovery_event_keeps | rule let_pair)+


lemma child_failed_keeps: "I s \<Longrightarrow> I (snd (child_launch_failed env (\<lambda>k. others (f k)) group_id run exc s))"
  unfolding child_launch_failed_def
  by (assumption | rule handler_rules note_event_keeps db_step store_steps | rule let_pair)+



lemma persist_keeps: "I s \<Longrightarrow> I (snd (persist_progress env run progress s))"
  unfolding persist_progress_def
  by (assumption | rule handler_rules db_step run_step.guarded | simp add: lifecycle_eval)+

lemma contain_keeps: "I s \<Longrightarrow> I (snd (contain env run statuses version beat level reason data s))"
  unfolding contain_def
  by (assumption | rule handler_rules recovery_event_keeps db_step store_steps | rule let_pair)+

lemma contain_as_read_keeps: "I s \<Longrightarrow> I (snd (contain_as_read env run level reason data s))"
  unfolding contain_as_read_def by (rule contain_keeps)

end
locale lock_invariant = run_invariant I others for I :: "('a lock_db_scheme) node \<Rightarrow> bool" and others +
  assumes lock_keep: "I s \<Longrightarrow> lock_step (n_db s) db' \<Longrightarrow> I (s\<lparr>n_db := db'\<rparr>)"
begin

lemma lock_step_db: "I s \<Longrightarrow> lock_step (n_db s) (snd (f (n_db s))) \<Longrightarrow> I (snd (on_db f s))"
  using lock_keep [of s "snd (f (n_db s))"] by (cases "f (n_db s)") (simp add: on_db_def)

lemma release_keeps: "I s \<Longrightarrow> I (release_run run s)"
  unfolding release_run_def by (rule lock_keep, assumption, rule lock_step.release)

lemma beat_keeps: "I s \<Longrightarrow> I (s\<lparr>n_db := snd (lock_heartbeat repo run t n now (n_db s))\<rparr>)"
  by (rule lock_keep, assumption, rule lock_step.beat)

lemma publish_release_keeps: "I s \<Longrightarrow> I (snd (publish_and_release env (\<lambda>k. others (f k)) run s))"
  unfolding publish_and_release_def
  by (assumption | rule handler_rules publish_run_keeps release_keeps | rule let_pair)+

lemma lost_keeps: "I s \<Longrightarrow> I (snd (lost_to_winner env (\<lambda>k. others (f k)) run terminated reports reason s))"
  unfolding lost_to_winner_def
  by (assumption | rule handler_rules publish_release_keeps | rule let_pair)+

lemma fail_recovery_keeps: "I s \<Longrightarrow> I (snd (fail_recovery env (\<lambda>k. others (f k)) run reason s))"
  unfolding fail_recovery_def
  by (assumption | rule handler_rules publish_noting_keeps recovery_event_keeps release_keeps db_step store_steps | rule let_pair)+

lemma finish_remote_keeps: "I s \<Longrightarrow> I (snd (finish_remote env (\<lambda>k. others (f k)) run reconciled process s))"
  unfolding finish_remote_def
  by (assumption | rule handler_rules publish_noting_keeps recovery_event_keeps release_keeps db_step store_steps | rule let_pair)+


lemma relaunch_failed_keeps: "I s \<Longrightarrow> I (snd (relaunch_failed env (\<lambda>k. others (f k)) run v exc s))"
  unfolding relaunch_failed_def
  by (assumption | rule handler_rules fail_recovery_keeps | rule let_pair)+



lemma remote_run_keeps:
  assumes "\<And>s k. I s \<Longrightarrow> I (perform (Start_poller k) s)" "I s"
  shows "I (snd (reconcile_remote_run env (\<lambda>k. others (f k)) run s))"
  unfolding reconcile_remote_run_def
  by (rule assms(2) | assumption | rule handler_rules assms(1) finish_remote_keeps contain_as_read_keeps recovery_event_keeps db_step run_step.guarded |
      rule let_pair | simp add: lifecycle_eval)+

text \<open>The rest of a relaunch, from the process that was spawned on.\<close>

lemma spawned_keeps:
  assumes kill: "\<And>s p. I s \<Longrightarrow> I (perform (Terminate_tree p) s)"
    and "reserve_next_launch (r_repo_name run) (r_run_id run) [r_status run] (r_state_version run) (r_worker_lease_token run)
      (lease_gen run) (je_token env) (Some (je_pid env)) (je_clock env 24) (n_db s) = (Some v, db1)"
    and "je_spawn env (r_run_id run) (je_token env) = Inr pid"
    and start: "I (perform (Spawn_worker (r_run_id run) (je_token env) pid) (s\<lparr>n_db := db1\<rparr>))"
  shows "I (snd (relaunch_worker env (\<lambda>k. others (f k)) run s))"
  unfolding relaunch_worker_def Let_def assms(2,3) prod.case option.case sum.case
  by (rule start | assumption | rule handler_rules kill relaunch_failed_keeps recovery_event_keeps beat_keeps db_step store_steps)+

end

locale child_invariant = lock_invariant I others for I :: "('a group_db_scheme) node \<Rightarrow> bool" and others
begin

lemma claim_keeps: "I s \<Longrightarrow> I (snd (on_db (claim_owner repo run owner tok n now) s))"
  by (rule lock_step_db, assumption, rule lock_step.claim)

lemma adopt_keeps: "I s \<Longrightarrow> I (snd (adopt_live_worker env (\<lambda>k. others (f k)) run s))"
  unfolding adopt_live_worker_def
  by (assumption | rule claim_keeps | rule handler_rules contain_keeps recovery_event_keeps db_step store_steps | rule let_pair)+

end

locale group_invariant = child_invariant I others for I :: "('a group_db_scheme) node \<Rightarrow> bool" and others +
  assumes group_keep: "I s \<Longrightarrow> group_step (n_db s) db' \<Longrightarrow> I (s\<lparr>n_db := db'\<rparr>)"
    and trace_keep: "I s \<Longrightarrow> I (perform e s)"
begin

lemma launch_child_keeps: "I s \<Longrightarrow> I (snd (launch_claimed_child env (\<lambda>k. others (f k)) group_id run s))"
  unfolding launch_claimed_child_def
  by (assumption | rule handler_rules trace_keep child_failed_keeps note_event_keeps db_step store_steps | rule let_pair)+

lemma launch_each_keeps: "I s \<Longrightarrow> I (snd (launch_each env (\<lambda>k. others (f k)) members rs s))"
proof (induction rs arbitrary: s)
  case (Cons r rs)
  show ?case
    unfolding launch_each.simps
    by (assumption | rule handler_rules trace_keep launch_child_keeps Cons.IH Cons.prems | rule let_pair)+
qed simp


text \<open>The reconciler reserves a launch only for a run that was not launched.\<close>

lemma relaunch_keeps:
  assumes "I s" "prelaunch (r_status run)"
  shows "I (snd (relaunch_worker env (\<lambda>k. others (f k)) run s))"
proof -
  have reserve: "I (s\<lparr>n_db := snd (reserve_next_launch repo k [r_status run] version tok gen new_tok pid now (n_db s))\<rparr>)"
    for repo k version tok gen new_tok pid now
    by (rule lock_keep [OF assms(1)], rule lock_step.reserve) (simp add: assms(2))
  show ?thesis
    unfolding relaunch_worker_def Let_def case_prod_beta
    by (assumption | rule handler_rules trace_keep reserve relaunch_failed_keeps recovery_event_keeps beat_keeps db_step store_steps)+
qed

lemma unclaimed_keeps:
  assumes "I s" "prelaunch (r_status run)"
  shows "I (snd (reconcile_unclaimed env (\<lambda>k. others (f k)) run s))"
  unfolding reconcile_unclaimed_def
  by (rule assms | rule handler_rules trace_keep relaunch_keeps fail_recovery_keeps contain_as_read_keeps recovery_event_keeps | assumption)+

lemma group_step_db: "I s \<Longrightarrow> group_step (n_db s) (snd (f (n_db s))) \<Longrightarrow> I (snd (on_db f s))"
  using group_keep [of s "snd (f (n_db s))"] by (cases "f (n_db s)") (simp add: on_db_def)



lemma if_knowing: "(c \<Longrightarrow> I (snd a)) \<Longrightarrow> (\<not> c \<Longrightarrow> I (snd b)) \<Longrightarrow> I (snd (if c then a else b))"
  by simp

lemma reconcile_run_keeps:
  assumes "I s"
  shows "I (snd (reconcile_run env (\<lambda>k. others (f k)) run s))"
proof -
  have pre: "prelaunch (r_status run)" if "r_status run \<in> {''launch_pending'', ''queued''}" using that by (auto simp: prelaunch_def)
  show ?thesis
    unfolding reconcile_run_def
    by (rule assms | assumption | rule if_knowing case_outcome answer adopt_keeps remote_run_keeps [OF trace_keep] contain_as_read_keeps recovery_event_keeps
        fail_recovery_keeps unclaimed_keeps [OF _ pre])+
qed

lemma recover_one_keeps: "I s \<Longrightarrow> I (snd (recover_one env (\<lambda>k. others (f k)) run s))"
  unfolding recover_one_def
  by (assumption | rule handler_rules reconcile_run_keeps recovery_event_keeps db_step store_steps | rule let_pair)+

lemma recover_each_keeps: "I s \<Longrightarrow> I (snd (recover_each env (\<lambda>k. others (f k)) rs s))"
proof (induction rs arbitrary: s)
  case (Cons r rs)
  show ?case
    unfolding recover_each.simps
    by (assumption | rule handler_rules recover_one_keeps Cons.IH Cons.prems | rule let_pair)+
qed simp

lemma republish_keeps: "I s \<Longrightarrow> I (snd (republish_one env (\<lambda>k. others (f k)) run s))"
  unfolding republish_one_def
  by (assumption | rule handler_rules publish_noting_keeps recovery_event_keeps | rule let_pair)+

lemma republish_each_keeps: "I s \<Longrightarrow> I (snd (republish_each env (\<lambda>k. others (f k)) skip rs s))"
proof (induction rs arbitrary: s)
  case (Cons r rs)
  show ?case
    unfolding republish_each.simps
    by (assumption | rule handler_rules republish_keeps Cons.IH Cons.prems | rule let_pair)+
qed simp

lemma refresh_each_keeps: "I (s\<lparr>n_db := db\<rparr>) \<Longrightarrow> I (s\<lparr>n_db := snd (refresh_each gids now db)\<rparr>)"
proof (induction gids arbitrary: db)
  case (Cons g gids)
  have "I (s\<lparr>n_db := snd (refresh_group g now db)\<rparr>)"
    using group_keep [OF Cons.prems, of "snd (refresh_group g now db)"] by (simp add: group_step.refresh)
  with Cons.IH show ?case by (auto simp: case_prod_beta split: sum.split prod.split)
qed simp

lemma refresh_all_keeps: "I s \<Longrightarrow> I (snd (on_db (refresh_all_groups now) s))"
  using refresh_each_keeps [where s = s and db = "n_db s"] by (simp add: on_db_def refresh_all_groups_def case_prod_beta)

lemma claim_pending_keeps: "I s \<Longrightarrow> I (snd (on_db (claim_pending_launches limit now) s))"
  by (rule group_step_db, assumption, rule group_step.claim)

lemma refill_keeps: "I s \<Longrightarrow> I (snd (refill_powershell_groups env (\<lambda>k. others (f k)) s))"
  unfolding refill_powershell_groups_def
  by (assumption | rule handler_rules refresh_all_keeps claim_pending_keeps launch_each_keeps | rule let_pair)+

lemma recover_stale_keeps: "I s \<Longrightarrow> I (snd (on_db (recover_stale w) s))"
  by (rule lock_step_db, assumption, rule lock_step.recover)

lemma startup_keeps: "I s \<Longrightarrow> I (snd (job_reconcile_startup env (\<lambda>k. others (f k)) s))"
  unfolding job_reconcile_startup_def
  by (assumption | rule handler_rules recover_each_keeps republish_each_keeps recover_stale_keeps refill_keeps | rule let_pair)+

lemma announce_keeps: "I s \<Longrightarrow> I (snd (announce_cancel env (\<lambda>k. others (f k)) suppress run reports terminated msg s))"
  unfolding announce_cancel_def
  by (assumption | rule handler_rules publish_noting_keeps note_event_keeps release_keeps refill_keeps | rule let_pair)+

lemma finish_keeps: "I s \<Longrightarrow> I (snd (finish_cancel env (\<lambda>k. others (f k)) suppress run progress error reports terminated msg s))"
  unfolding finish_cancel_def
  by (assumption | rule handler_rules lost_keeps announce_keeps db_step store_steps | rule let_pair)+

lemma pending_after_keeps: "I s \<Longrightarrow> I (snd (pending_after env (\<lambda>k. others (f k)) run progress terminated reports reason s))"
  unfolding pending_after_def
  by (assumption | rule handler_rules persist_keeps | rule let_pair)+

lemma after_remote_keeps: "I s \<Longrightarrow> I (snd (after_remote env (\<lambda>k. others (f k)) suppress run progress ended s))"
  unfolding after_remote_def Let_def
  by (assumption | rule handler_rules trace_keep finish_keeps pending_after_keeps | rule let_pair)+

lemma cancel_remote_keeps: "I s \<Longrightarrow> I (snd (cancel_remote env (\<lambda>k. others (f k)) suppress run progress at s))"
  unfolding cancel_remote_def Let_def
  by (assumption | rule handler_rules finish_keeps after_remote_keeps | rule let_pair)+

lemma perform_all_keeps: "I s \<Longrightarrow> I (fold (\<lambda>(_, pid). perform (Terminate_tree pid)) pids s)"
  by (induction pids arbitrary: s) (auto simp: trace_keep)

lemma cancel_local_keeps: "I s \<Longrightarrow> I (snd (cancel_local env (\<lambda>k. others (f k)) suppress run progress s))"
  unfolding cancel_local_def Let_def
  by (assumption | rule handler_rules trace_keep finish_keeps persist_keeps note_event_keeps perform_all_keeps | rule let_pair)+

lemma cancel_run_keeps: "I s \<Longrightarrow> I (snd (cancel_run env (\<lambda>k. others (f k)) suppress run_id s))"
  unfolding cancel_run_def Let_def
  by (assumption | rule handler_rules publish_release_keeps lost_keeps cancel_remote_keeps cancel_local_keeps db_step store_steps | rule let_pair)+

end

end
