(* ===== verification/Job_System.thy ===== *)
theory Job_System
  imports System_Steps Job_Guarantees
begin

text \<open>
  The job manager within the whole system. Every cancellation, reconciliation and start-up is a sequence of steps of the system, interleaved
  with whatever other processes do, so that what holds of every reachable state holds around these handlers too. On top of this: a cancellation
  claims no more than it achieved, and a reconciliation launches a second worker only when nothing of the first one is left.
\<close>

section \<open>Handlers as steps of the system\<close>

text \<open>\<open>later s t\<close>: the database of \<open>t\<close> is reached from that of \<open>s\<close>, whatever reconciliations of tasks are in flight.\<close>

definition later :: "('a scope_db_scheme) node \<Rightarrow> ('a scope_db_scheme) node \<Rightarrow> bool" where
  "later s t = (\<forall>ps. \<exists>ps'. system_step\<^sup>*\<^sup>* (n_db s, ps) (n_db t, ps'))"

text \<open>The other processes act through the system, and the trace is the handler's own.\<close>

definition tame :: "('a scope_db_scheme) others \<Rightarrow> bool" where
  "tame others = (\<forall>k s. later s (others k s) \<and> n_trace (others k s) = n_trace s)"

definition sound_node :: "('a scope_db_scheme) node \<Rightarrow> bool" where
  "sound_node s = (\<exists>ps. system_ok (n_db s, ps))"

lemma later_refl [simp]: "later s s"
  by (auto simp: later_def)

lemma later_trans: "later a b \<Longrightarrow> later b c \<Longrightarrow> later a c"
  unfolding later_def by (meson rtranclp_trans)

lemma later_db: "later s t \<Longrightarrow> n_db t' = n_db t \<Longrightarrow> later s t'"
  by (simp add: later_def)

lemma later_step:
  assumes "later s t" "\<And>ps. system_step (n_db t, ps) (db', ps)"
  shows "later s (t\<lparr>n_db := db'\<rparr>)"
proof -
  have "later t (t\<lparr>n_db := db'\<rparr>)" using assms(2) unfolding later_def by (auto intro!: exI r_into_rtranclp)
  with assms(1) later_trans show ?thesis by blast
qed

lemma later_invariant:
  assumes "tame others"
  shows "group_invariant (later s) others"
proof
  fix t k f e db'
  assume t: "later s t"
  have "later t (others k t)" using assms by (simp add: tame_def)
  then show "later s (others k t)" using t later_trans by blast
  show "later s (t\<lparr>n_files := f\<rparr>)" "later s (perform e t)" using t by (auto intro: later_db simp: perform_def)
  show "later s (t\<lparr>n_db := db'\<rparr>)" if "run_step (n_db t) db'" using later_step [OF t] system_step.run [OF that] .
  show "later s (t\<lparr>n_db := db'\<rparr>)" if "lock_step (n_db t) db'" using later_step [OF t] system_step.lock [OF that] .
  show "later s (t\<lparr>n_db := db'\<rparr>)" if "group_step (n_db t) db'" using later_step [OF t] system_step.group [OF that] .
qed

interpretation undisturbed: group_invariant "later s" "\<lambda>_ t. t" for s :: "('a scope_db_scheme) node"
  by (rule later_invariant) (simp add: tame_def)

text \<open>C17. The job manager stays within the system. Whatever the other processes do between its calls, and whatever the operating system, the remote
  hosts and the file system answer, a cancellation, a reconciliation of a run, the start-up recovery and the refill of the groups change the
  database only by steps of the system, so that every property of the reachable states holds throughout them.\<close>

theorem job_manager_within_system:
  assumes "tame others"
  shows "later s (snd (cancel_run env others suppress run_id s)) \<and> later s (snd (reconcile_run env others run s)) \<and>
    later s (snd (job_reconcile_startup env others s)) \<and> later s (snd (refill_powershell_groups env others s)) \<and>
    later s (snd (publish_run_result (je_pub env) others now run_id s))"
proof -
  note I = later_invariant [OF assms, of s]
  note G = child_invariant.axioms(1) [OF group_invariant.axioms(1) [OF I]]
  note R = lock_invariant.axioms(1) [OF G]
  show ?thesis
    using group_invariant.cancel_run_keeps [OF I, where f = "\<lambda>k. k", OF later_refl]
      group_invariant.reconcile_run_keeps [OF I, where f = "\<lambda>k. k", OF later_refl]
      group_invariant.startup_keeps [OF I, where f = "\<lambda>k. k", OF later_refl]
      group_invariant.refill_keeps [OF I, where f = "\<lambda>k. k", OF later_refl]
      run_invariant.publish_keeps [OF R, where f = "\<lambda>k. k", OF later_refl] by blast
qed

lemma later_sound:
  assumes "later s t" "sound_node s"
  shows "sound_node t" "db_advances (n_db s) (n_db t)" "wf_runs (n_db t)"
proof -
  obtain ps where ok: "system_ok (n_db s, ps)" using assms(2) by (auto simp: sound_node_def)
  obtain ps' where st: "system_step\<^sup>*\<^sup>* (n_db s, ps) (n_db t, ps')" using assms(1) by (auto simp: later_def)
  note k = system_steps_keep [OF st ok]
  show "sound_node t" using k by (auto simp: sound_node_def)
  show adv: "db_advances (n_db s) (n_db t)" using k by (simp add: system_advances_def)
  show "wf_runs (n_db t)" using db_advances_wf [OF adv] .
qed

section \<open>Cancellation\<close>

lemma terminal_stays:
  assumes "later s t" "sound_node s" "run_by_id k (n_db s) = Some r" "is_terminal (r_status r)"
  obtains r' where "run_by_id k (n_db t) = Some r'" "r_status r' = r_status r"
proof -
  obtain r' where r': "run_by_id k (n_db t) = Some r'" "row_advances r r'"
    using db_advancesD [OF later_sound(2) [OF assms(1,2)] assms(3)] by blast
  then have "outcome_of r' = outcome_of r" using assms(4) by (simp add: row_advances_def)
  with r'(1) that show thesis using outcome_status [of r' r] by blast
qed

lemma apply_field_same_status: "field_name f \<noteq> ''status'' \<Longrightarrow> r_status (apply_field f r) = r_status r"
  by (cases f) simp_all

lemma apply_fields_same_status: "list_all (\<lambda>f. field_name f \<noteq> ''status'') fs \<Longrightarrow> r_status (apply_fields fs r) = r_status r"
  by (induction fs arbitrary: r) (simp_all add: apply_field_same_status)

lemma status_written:
  assumes "list_all (\<lambda>f. field_name f \<noteq> ''status'') fs"
  shows "r_status (set_clause (normalize_update_values (F_status st # fs)) g r) = st"
proof -
  have "list_all (\<lambda>f. field_name f \<noteq> ''status'') (map normalize_field
      (fs @ progress_scalar (F_status st # fs) ''last_output_at'' F_last_output_at @
       progress_scalar (F_status st # fs) ''cancellation_requested_at'' F_cancellation_requested_at))"
    using assms by (auto simp: list_all_iff progress_scalar_def split: option.split)
  from apply_fields_same_status [OF this] show ?thesis by (simp add: set_clause_fields normalize_update_values_def)
qed

lemma terminal_recorded:
  assumes "wf_runs db" "transition_terminal k rep ss v t n hb now db = (Inr (Some u), db')"
  shows "run_by_id k db' = Some u" "r_status u = tr_status rep"
proof -
  obtain fs g where fs: "conditional_update k (F_status (tr_status rep) # fs) g db = (Inr (Some u), db')"
      "list_all (\<lambda>f. field_name f \<noteq> ''status'') fs"
    using assms(2) unfolding transition_terminal_def by (force split: if_splits option.splits)
  from assms(1) fs(1) obtain old where old: "run_by_id k db = Some old"
      "u = set_clause (normalize_update_values (F_status (tr_status rep) # fs)) g old" "db' = put_run k u db"
    by (cases rule: conditional_update_cases) auto
  have "r_run_id u = k" using run_by_id_key [OF old(1)] by (simp add: old(2))
  then show "run_by_id k db' = Some u" using old by (simp add: run_by_id_put_run)
  show "r_status u = tr_status rep" using status_written [OF fs(2)] by (simp add: old(2))
qed

text \<open>Handlers of the run store do not touch the locks.\<close>

definition leaves_lock :: "string \<Rightarrow> ('a lock_db_scheme) others \<Rightarrow> bool" where
  "leaves_lock repo others = (\<forall>k s. lock_by_repo repo (n_db (others k s)) = lock_by_repo repo (n_db s))"

definition same_lock :: "string \<Rightarrow> ('a lock_db_scheme) node \<Rightarrow> ('a lock_db_scheme) node \<Rightarrow> bool" where
  "same_lock repo s t = (lock_by_repo repo (n_db t) = lock_by_repo repo (n_db s))"

lemma same_lock_invariant:
  assumes "leaves_lock repo others"
  shows "run_invariant (same_lock repo s) others"
proof
  fix t k f db'
  assume t: "same_lock repo s t"
  show "same_lock repo s (others k t)" using assms t by (simp add: same_lock_def leaves_lock_def)
  show "same_lock repo s (t\<lparr>n_files := f\<rparr>)" using t by (simp add: same_lock_def)
  show "same_lock repo s (t\<lparr>n_db := db'\<rparr>)" if "run_step (n_db t) db'"
    using t run_step_locks [OF that] by (simp add: same_lock_def lock_by_repo_def)
qed

lemma get_run_row: "get_run k db = Inr r \<Longrightarrow> run_by_id k db = Some r"
  by (auto simp: get_run_def split: if_splits option.splits)

text \<open>What an answer of the cancellation promises about the run and the lock of its repository.\<close>

definition honest :: "run_row \<Rightarrow> ('a lock_db_scheme) node \<Rightarrow> run_cancellation \<Rightarrow> ('a lock_db_scheme) node \<Rightarrow> bool" where
  "honest run s a t =
     ((cn_confirmed a \<longrightarrow> (\<exists>r. run_by_id (r_run_id run) (n_db t) = Some r \<and> is_terminal (r_status r) \<and> r_status r = cn_status a)) \<and>
      (\<not> cn_confirmed a \<longrightarrow> \<not> cn_ok a \<and> \<not> cn_cancelled a \<and> same_lock (r_repo_name run) s t) \<and>
      (cn_cancelled a \<longrightarrow> cn_status a = ''cancelled''))"

lemma lost_honest:
  assumes "tame others" "sound_node s" "same_lock (r_repo_name run) s0 s" "lost_to_winner env others run terminated reports reason s = (Inr a, t)"
  shows "honest run s0 a t \<and> cn_reason a = reason"
proof -
  note I = later_invariant [OF assms(1), of s]
  have lt: "later s t"
    using lock_invariant.lost_keeps [OF child_invariant.axioms(1) [OF group_invariant.axioms(1) [OF I]], where f = "\<lambda>k. k", OF later_refl] assms(4) by (metis snd_conv)
  from assms(4) obtain winner where w: "run_by_id (r_run_id run) (n_db s) = Some winner" "cn_status a = r_status winner"
      "cn_confirmed a = is_terminal (r_status winner)" "cn_ok a = is_terminal (r_status winner)"
      "cn_cancelled a = (r_status winner = ''cancelled'')" "cn_reason a = reason" "\<not> is_terminal (r_status winner) \<Longrightarrow> t = s"
    unfolding lost_to_winner_def Let_def by (auto split: sum.splits prod.splits if_splits dest!: get_run_row)
  show ?thesis
  proof (cases "is_terminal (r_status winner)")
    case True
    from terminal_stays [OF lt assms(2) w(1) True] obtain r' where "run_by_id (r_run_id run) (n_db t) = Some r'" "r_status r' = r_status winner" .
    with True w show ?thesis by (auto simp: honest_def)
  next
    case False
    moreover have "is_terminal ''cancelled''" by (simp add: is_terminal_def TERMINAL_STATUSES_def)
    ultimately show ?thesis using w assms(3) by (auto simp: honest_def)
  qed
qed

text \<open>The trace of a handler only grows.\<close>

definition grows :: "'db node \<Rightarrow> 'db node \<Rightarrow> bool" where
  "grows s t = (\<exists>es. n_trace t = n_trace s @ es)"

lemma grows_invariant: "tame others \<Longrightarrow> group_invariant (grows s) others"
  by unfold_locales (auto simp: grows_def tame_def perform_def)

lemma group_to_run: "group_invariant I others \<Longrightarrow> run_invariant I others"
  by (intro lock_invariant.axioms(1) child_invariant.axioms(1) group_invariant.axioms(1))

lemma on_db_Some:
  assumes "on_db f s = (Inr v, t)"
  shows "f (n_db s) = (Inr v, n_db t)" "n_trace t = n_trace s"
  using assms by (auto simp: on_db_def split: prod.splits)

lemma announced:
  assumes "announce_cancel env others suppress run reports terminated msg s = (Inr a, t)"
  shows "cn_reports a = reports" "cn_confirmed a" "cn_status a = ''cancelled''"
  using assms unfolding announce_cancel_def by (auto split: prod.splits sum.splits)

text \<open>The last phase of a cancellation: it is answered as done only after the run is stored as cancelled, and then with the reports it was given.\<close>

lemma finish_honest:
  assumes tame: "tame others" and locks: "leaves_lock (r_repo_name run) others" and s: "sound_node s" "same_lock (r_repo_name run) s0 s"
    and eq: "finish_cancel env others suppress run progress error reports terminated msg s = (Inr a, t)"
  shows "honest run s0 a t \<and> (cn_reason a = [] \<longrightarrow> cn_reports a = reports)"
proof -
  let ?s0 = "others 51 s" and ?s1 = "others 52 (others 51 s)" and ?rep = "\<lambda>current. \<lparr>tr_status = ''cancelled'', tr_result = cancellation_result current (je_clock env 2) error progress, tr_ended_at = Some (je_clock env 2),
     tr_duration_seconds = r_duration_seconds current, tr_exit_code = r_exit_code current, tr_summary = error, tr_error = error,
     tr_safety_failure = False, tr_recovery_reason = [], tr_progress = Some progress\<rparr>"
  obtain current res s2 where cur: "get_run (r_run_id run) (n_db ?s0) = Inr current"
      and tr: "on_db (transition_terminal (r_run_id run) (?rep current) [''cancellation_pending''] (r_state_version current)
        (Some (r_worker_lease_token run)) (Some (lease_gen run)) None (je_clock env 2)) ?s1 = (Inr res, s2)"
    using eq unfolding finish_cancel_def Let_def by (auto split: sum.splits prod.splits)
  have l1: "later s ?s1" using tame later_trans [of s ?s0 ?s1] by (simp add: tame_def)
  have db2: "system_step (n_db ?s1, ps) (n_db s2, ps)" for ps
    using system_step.run [OF run_step.terminal] on_db_Some(1) [OF tr] by (metis snd_conv)
  have l2: "later s s2" using later_step [OF l1 db2] by (auto intro: later_db)
  show ?thesis
  proof (cases res)
    case None
    have k: "same_lock (r_repo_name run) s0 (others 53 s2)"
    proof -
      have "same_lock (r_repo_name run) s0 ?s1" using s(2) locks by (simp add: same_lock_def leaves_lock_def)
      moreover have "locks (n_db s2) = locks (n_db ?s1)"
        using run_step_locks [OF run_step.terminal] on_db_Some(1) [OF tr] by (metis snd_conv)
      ultimately show ?thesis using locks by (simp add: same_lock_def leaves_lock_def lock_by_repo_def)
    qed
    have l3: "later s (others 53 s2)" using tame l2 later_trans [of s s2] by (simp add: tame_def)
    have "lost_to_winner env others run terminated reports ''Final cancellation lost a concurrent state transition'' (others 53 s2) = (Inr a, t)"
      using eq cur tr None unfolding finish_cancel_def Let_def by simp
    from lost_honest [OF tame later_sound(1) [OF l3 s(1)] k this] show ?thesis by simp
  next
    case (Some u)
    have u: "run_by_id (r_run_id run) (n_db s2) = Some u" "r_status u = ''cancelled''"
      using terminal_recorded [OF later_sound(3) [OF l1 s(1)]] on_db_Some(1) [OF tr] Some by (metis, metis terminal_report.select_convs(1))
    have fin: "announce_cancel env others suppress run reports terminated msg s2 = (Inr a, t)"
      using eq cur tr Some unfolding finish_cancel_def Let_def by simp
    have rest: "later s2 t" "cn_reports a = reports" "cn_confirmed a" "cn_status a = ''cancelled''"
      using group_invariant.announce_keeps [OF later_invariant [OF tame], where f = "\<lambda>k. k", OF later_refl, of s2 env suppress run reports terminated msg]
        announced [OF fin] fin by simp_all
    from this obtain r' where "run_by_id (r_run_id run) (n_db t) = Some r'" "r_status r' = r_status u"
      using terminal_stays [OF rest(1) later_sound(1) [OF l2 s(1)] u(1)] u(2) by (auto simp: is_terminal_def TERMINAL_STATUSES_def)
    with rest u(2) show ?thesis by (auto simp: honest_def is_terminal_def TERMINAL_STATUSES_def)
  qed
qed
lemma perform_all:
  "n_db (fold (\<lambda>(_, pid). perform (Terminate_tree pid)) pids s) = n_db s"
  "n_trace (fold (\<lambda>(_, pid). perform (Terminate_tree pid)) pids s) = n_trace s @ map (\<lambda>(_, pid). Terminate_tree pid) pids"
  by (induction pids arbitrary: s) (auto simp: perform_def)

lemma still_pending_honest: "same_lock (r_repo_name run) s t \<Longrightarrow> honest run s (still_pending b reports reason) t"
  by (simp add: honest_def still_pending_def)

lemma finish_grows:
  assumes "tame others" "finish_cancel env others suppress run progress error reports terminated msg s = (r, t)"
  shows "set (n_trace s) \<subseteq> set (n_trace t)"
  using group_invariant.finish_keeps [OF grows_invariant [OF assms(1)], where f = "\<lambda>k. k" and s = s, of s env suppress run progress error reports terminated msg]
    assms(2) by (auto simp: grows_def)

lemma local_honest:
  assumes tame: "tame others" and locks: "leaves_lock (r_repo_name run) others" and s: "sound_node s" "same_lock (r_repo_name run) s0 s"
    and eq: "cancel_local env others suppress run progress s = (Inr a, t)"
  shows "honest run s0 a t \<and> (cn_reason a = [] \<longrightarrow>
    termination_confirmed env run \<and> (\<forall>p \<in> set (cancel_pids run). Terminate_tree (snd p) \<in> set (n_trace t)))"
proof -
  let ?s1 = "fold (\<lambda>(_, pid). perform (Terminate_tree pid)) (cancel_pids run) s"
  let ?progress = "jset ''termination_reports'' (JArr (map JObj (termination_reports env run))) progress"
  have s1: "sound_node ?s1" "same_lock (r_repo_name run) s0 ?s1" using s by (simp_all add: sound_node_def same_lock_def perform_all)
  note R = same_lock_invariant [OF locks, of s0]
  show ?thesis
  proof (cases "termination_confirmed env run")
    case False
    obtain s2 s3 where p: "persist_progress env run ?progress (others 63 ?s1) = (Inr (), s2)"
        and n: "note_event env run ''error'' ''cancellation_pending'' ''Cancellation requested but process termination is unconfirmed''
          [(''termination_reports'', JArr (map JObj (termination_reports env run)))] False (others 64 s2) = (Inr (), s3)"
        and a: "t = s3" "a = still_pending False (termination_reports env run) ''Process termination could not be confirmed; lock retained''"
      using eq False unfolding cancel_local_def Let_def by (auto split: prod.splits sum.splits)
    have "same_lock (r_repo_name run) s0 s2"
      using run_invariant.persist_keeps [OF R run_invariant.others_keep [OF R s1(2), of 63], of env run ?progress] p by simp
    from run_invariant.note_event_keeps [OF R run_invariant.others_keep [OF R this, of 64]] n
    have "same_lock (r_repo_name run) s0 s3" by (metis snd_conv)
    then show ?thesis using still_pending_honest a by (simp add: still_pending_def)
  next
    case True
    then have f: "finish_cancel env others suppress run ?progress ''Run cancelled by request'' (termination_reports env run)
        (termination_reports env run \<noteq> []) ''Run cancelled after process-tree termination was confirmed'' ?s1 = (Inr a, t)"
      using eq unfolding cancel_local_def Let_def by simp
    have "Terminate_tree (snd p) \<in> set (n_trace ?s1)" if "p \<in> set (cancel_pids run)" for p
      unfolding perform_all(2) using that by (force simp: case_prod_beta)
    with finish_honest [OF tame locks s1 f] finish_grows [OF tame f] True show ?thesis by blast
  qed
qed

text \<open>A remote run is cancelled when it was never launched, or when its controller has confirmed and stored the end of the remote process.\<close>

definition remote_evidence :: "job_env \<Rightarrow> run_row \<Rightarrow> run_cancellation \<Rightarrow> bool" where
  "remote_evidence env run a =
     ((pid_or_zero (r_launcher_pid run) = 0 \<and> pid_or_zero (r_worker_pid run) = 0 \<and> pid_or_zero (r_pid run) = 0) \<or>
      (\<not> running env 0 (pid_or_zero (r_worker_pid run)) \<and>
       list_ex (\<lambda>rep. flag ''terminated'' rep \<and> flag ''completion_persisted'' rep) (cn_reports a)))"

lemma pending_after_honest:
  assumes "leaves_lock (r_repo_name run) others" "same_lock (r_repo_name run) s0 s"
    and "pending_after env others run progress terminated reports reason s = (Inr a, t)"
  shows "honest run s0 a t \<and> cn_reason a = reason"
proof -
  note R = same_lock_invariant [OF assms(1), of s0]
  obtain s1 where p: "persist_progress env run progress (others 62 s) = (Inr (), s1)" "t = s1" "a = still_pending terminated reports reason"
    using assms(3) by (auto simp: pending_after_def split: prod.splits sum.splits)
  have "same_lock (r_repo_name run) s0 t"
    using run_invariant.persist_keeps [OF R run_invariant.others_keep [OF R assms(2), of 62], of env run progress] p by simp
  then show ?thesis using still_pending_honest p(3) by (simp add: still_pending_def)
qed

lemma after_remote_honest:
  assumes tame: "tame others" and locks: "leaves_lock (r_repo_name run) others" and s: "sound_node s" "same_lock (r_repo_name run) s0 s"
    and idle: "\<not> running env 0 (pid_or_zero (r_worker_pid run))"
    and eq: "after_remote env others suppress run progress ended s = (Inr a, t)"
  shows "honest run s0 a t \<and> (cn_reason a = [] \<longrightarrow> remote_evidence env run a)"
proof (cases "flag ''terminated'' ended \<and> flag ''completion_persisted'' ended")
  case False
  then have "pending_after env others run (jset ''remote_termination'' (JObj ended) progress) False [ended]
      ''Remote termination could not be confirmed; lock retained'' s = (Inr a, t)"
    using eq unfolding after_remote_def Let_def by (auto split: if_splits)
  from pending_after_honest [OF locks s(2) this] show ?thesis by simp
next
  case True
  let ?child = "pid_or_zero (r_pid run)"
  let ?kill = "?child > 0 \<and> running env 1 ?child"
  let ?reports = "if ?kill then [jset ''role'' (JStr ''child'') (je_terminate env ?child)] else []"
  let ?s1 = "if ?kill then perform (Terminate_tree ?child) s else s"
  let ?p = "jset ''termination_reports'' (JArr (map JObj ?reports)) (jset ''remote_termination'' (JObj ended) progress)"
  have s1: "sound_node ?s1" "same_lock (r_repo_name run) s0 ?s1" using s by (simp_all add: sound_node_def same_lock_def perform_def)
  show ?thesis
  proof (cases "list_all (flag ''terminated'') ?reports")
    case no: False
    then have "pending_after env others run ?p True (ended # ?reports)
        ''Remote exit confirmed but local SSH termination is unconfirmed; lock retained'' ?s1 = (Inr a, t)"
      using eq True unfolding after_remote_def Let_def by (simp only: if_False if_True simp_thms)
    from pending_after_honest [OF locks s1(2) this] show ?thesis by simp
  next
    case yes: True
    then have "finish_cancel env others suppress run ?p ''Run cancelled after verified remote termination'' (ended # ?reports) True
        ''Monitored SSH run cancelled after verified remote termination'' ?s1 = (Inr a, t)"
      using eq True unfolding after_remote_def Let_def by (simp only: if_False if_True simp_thms)
    from finish_honest [OF tame locks s1 this] True idle show ?thesis by (auto simp: remote_evidence_def)
  qed
qed

lemma remote_honest:
  assumes tame: "tame others" and locks: "leaves_lock (r_repo_name run) others" and s: "sound_node s" "same_lock (r_repo_name run) s0 s"
    and eq: "cancel_remote env others suppress run progress at s = (Inr a, t)"
  shows "honest run s0 a t \<and> (cn_reason a = [] \<longrightarrow> remote_evidence env run a)"
proof (cases "pid_or_zero (r_launcher_pid run) = 0 \<and> pid_or_zero (r_worker_pid run) = 0 \<and> pid_or_zero (r_pid run) = 0")
  case True
  then have "finish_cancel env others suppress run progress ''Run cancelled before monitored SSH launch'' [] False
      ''Monitored SSH run cancelled before launch'' s = (Inr a, t)"
    using eq unfolding cancel_remote_def Let_def by (simp only: if_True simp_thms)
  from finish_honest [OF tame locks s this] True show ?thesis by (simp add: remote_evidence_def)
next
  case launched: False
  have wait: "honest run s0 (still_pending False [] reason) s \<and> (cn_reason (still_pending False [] reason) = [] \<longrightarrow> reason = [])" for reason
    using still_pending_honest s(2) by (simp add: still_pending_def)
  show ?thesis
  proof (cases "running env 0 (pid_or_zero (r_worker_pid run))")
    case True
    then have "pid_or_zero (r_worker_pid run) > 0" by (simp add: running_def process_is_running_def)
    with True launched eq wait show ?thesis unfolding cancel_remote_def Let_def by auto
  next
    case idle: False
    with launched eq wait after_remote_honest [OF tame locks s idle] show ?thesis
      unfolding cancel_remote_def Let_def by (auto split: if_splits option.splits sum.splits)
  qed
qed


section \<open>Reconciliation\<close>

fun is_spawn :: "effect \<Rightarrow> bool" where
  "is_spawn (Spawn_worker k tok pid) = True"
| "is_spawn _ = False"

definition spawns :: "'db node \<Rightarrow> effect list" where
  "spawns s = filter is_spawn (n_trace s)"

lemma spawns_simps [simp]:
  "spawns (s\<lparr>n_db := db\<rparr>) = spawns s" "spawns (s\<lparr>n_files := f\<rparr>) = spawns s"
  "spawns (perform e s) = (if is_spawn e then spawns s @ [e] else spawns s)"
  by (simp_all add: spawns_def perform_def)

text \<open>After \<open>s\<close> and with exactly these workers spawned.\<close>

definition spawned_later :: "effect list \<Rightarrow> ('a scope_db_scheme) node \<Rightarrow> ('a scope_db_scheme) node \<Rightarrow> bool" where
  "spawned_later es s t = (later s t \<and> spawns t = es)"

lemma spawned_invariant:
  assumes "tame others"
  shows "child_invariant (spawned_later es s) others"
proof -
  note I = later_invariant [OF assms, of s]
  note C = group_invariant.axioms(1) [OF I]
  note L = child_invariant.axioms(1) [OF C]
  note R = lock_invariant.axioms(1) [OF L]
  show ?thesis
  proof
    fix t k f db'
    assume t: "spawned_later es s t"
    have "spawns (others k t) = spawns t" using assms by (simp add: tame_def spawns_def)
    then show "spawned_later es s (others k t)" using t run_invariant.others_keep [OF R] by (simp add: spawned_later_def)
    show "spawned_later es s (t\<lparr>n_files := f\<rparr>)" using t run_invariant.files_keep [OF R] by (simp add: spawned_later_def)
    show "spawned_later es s (t\<lparr>n_db := db'\<rparr>)" if "run_step (n_db t) db'"
      using t run_invariant.run_keep [OF R _ that] by (simp add: spawned_later_def)
    show "spawned_later es s (t\<lparr>n_db := db'\<rparr>)" if "lock_step (n_db t) db'"
      using t lock_invariant.lock_keep [OF L _ that] by (simp add: spawned_later_def)
  qed
qed

lemma spawned_perform: "spawned_later es s t \<Longrightarrow> \<not> is_spawn e \<Longrightarrow> spawned_later es s (perform e t)"
  by (auto simp: spawned_later_def perform_def spawns_def intro: later_db)

text \<open>When a reconciliation spawns a worker: nothing of the earlier launch is alive, the attempts are bounded, and the lease was reserved.\<close>

definition may_relaunch :: "job_env \<Rightarrow> run_row \<Rightarrow> bool" where
  "may_relaunch env run =
     (\<not> worker_verified env 0 run \<and> \<not> running env 0 (pid_or_zero (r_launcher_pid run)) \<and> \<not> running env 0 (pid_or_zero (r_pid run)) \<and>
      r_launch_attempts run < 2 \<and> r_status run \<in> {''launch_pending'', ''queued''} \<and> \<not> is_remote run)"

lemma relaunch_spawns:
  assumes tame: "tame others" and eq: "relaunch_worker env others run s = (r, t)"
  obtains "spawns t = spawns s"
    | v db1 pid where "reserve_next_launch (r_repo_name run) (r_run_id run) [r_status run] (r_state_version run) (r_worker_lease_token run)
        (lease_gen run) (je_token env) (Some (je_pid env)) (je_clock env 24) (n_db s) = (Some v, db1)"
      "spawned_later (spawns s @ [Spawn_worker (r_run_id run) (je_token env) pid]) (s\<lparr>n_db := db1\<rparr>) t"
proof -
  let ?reserve = "reserve_next_launch (r_repo_name run) (r_run_id run) [r_status run] (r_state_version run) (r_worker_lease_token run)
     (lease_gen run) (je_token env) (Some (je_pid env)) (je_clock env 24) (n_db s)"
  obtain v db1 where v: "?reserve = (v, db1)" by fastforce
  consider (unreserved) "v = None" | (failed) w e where "v = Some w" "je_spawn env (r_run_id run) (je_token env) = Inl e"
    | (spawned) w pid where "v = Some w" "je_spawn env (r_run_id run) (je_token env) = Inr pid"
    by (cases v; cases "je_spawn env (r_run_id run) (je_token env)") auto
  then show thesis
  proof cases
    case unreserved
    with eq v have "t = s\<lparr>n_db := db1\<rparr>" by (simp add: relaunch_worker_def Let_def)
    then show thesis using that(1) by simp
  next
    case (failed w e)
    note L = child_invariant.axioms(1) [OF spawned_invariant [OF tame, of "spawns s" "s\<lparr>n_db := db1\<rparr>"]]
    have "relaunch_failed env others run w e (s\<lparr>n_db := db1\<rparr>) = (r, t)" using eq v failed by (simp add: relaunch_worker_def Let_def)
    with lock_invariant.relaunch_failed_keeps [OF L, where f = "\<lambda>k. k" and s = "s\<lparr>n_db := db1\<rparr>", of env run w e]
    show thesis using that(1) by (simp add: spawned_later_def)
  next
    case (spawned w pid)
    let ?es = "spawns s @ [Spawn_worker (r_run_id run) (je_token env) pid]" and ?s1 = "s\<lparr>n_db := db1\<rparr>"
    note L = child_invariant.axioms(1) [OF spawned_invariant [OF tame, of ?es ?s1]]
    have start: "spawned_later ?es ?s1 (perform (Spawn_worker (r_run_id run) (je_token env) pid) ?s1)"
      by (auto simp: spawned_later_def perform_def spawns_def later_def)
    have kill: "spawned_later ?es ?s1 (perform (Terminate_tree p) u)" if "spawned_later ?es ?s1 u" for u p
      using spawned_perform [OF that] by simp
    have "spawned_later ?es ?s1 (snd (relaunch_worker env others run s))"
      using lock_invariant.spawned_keeps [OF L kill _ spawned(2) start, where f = "\<lambda>k. k"] v spawned(1) by simp
    then show thesis using that(2) v spawned(1) eq by simp
  qed
qed

lemma snd_dropped: "snd (case p of (Inl e, u) \<Rightarrow> (Inl e, u) | (Inr v, u) \<Rightarrow> (Inr (), u)) = snd p"
  by (auto split: prod.split sum.split)

lemma no_spawn_else:
  assumes tame: "tame others" and eq: "reconcile_run env others run s = (r, t)" and "\<not> may_relaunch env run"
  shows "spawns t = spawns s"
proof -
  note C = spawned_invariant [OF tame, of "spawns s" s]
  note L = child_invariant.axioms(1) [OF C]
  note R = lock_invariant.axioms(1) [OF L]
  have s: "spawned_later (spawns s) s s" by (simp add: spawned_later_def)
  have poll: "spawned_later (spawns s) s (perform (Start_poller k) u)" if "spawned_later (spawns s) s u" for u k
    using spawned_perform [OF that] by simp
  note f = lock_invariant.fail_recovery_keeps [OF L s, where f = "\<lambda>k. k"] and c = run_invariant.contain_as_read_keeps [OF R s]
    and e = run_invariant.recovery_event_keeps [OF R s]
  have "spawned_later (spawns s) s (snd (reconcile_run env others run s))"
    using assms(3) s f c e child_invariant.adopt_keeps [OF C s, where f = "\<lambda>k. k"] lock_invariant.remote_run_keeps [OF L poll s, where f = "\<lambda>k. k"]
    unfolding reconcile_run_def reconcile_unclaimed_def may_relaunch_def by (auto simp: snd_dropped)
  then show ?thesis using eq by (simp add: spawned_later_def)
qed

lemma relaunch_only:
  assumes "may_relaunch env run" "r_tool run \<notin> set LEGACY_READ_ONLY_TOOLS"
  shows "reconcile_run env others run s = relaunch_worker env others run s"
  using assms by (auto simp: may_relaunch_def reconcile_run_def reconcile_unclaimed_def)

lemma legacy_spawns_none:
  assumes "tame others" "reconcile_run env others run s = (r, t)" "may_relaunch env run" "r_tool run \<in> set LEGACY_READ_ONLY_TOOLS"
  shows "spawns t = spawns s"
proof -
  note R = lock_invariant.axioms(1) [OF child_invariant.axioms(1) [OF spawned_invariant [OF assms(1), of "spawns s" s]]]
  let ?c = "contain_as_read env run ''warning''
      ''Legacy Codex run cannot be relaunched: Codex execution has been removed from Soma. The record remains readable.'' [] s"
  have "reconcile_run env others run s = ?c"
    using assms(3,4) by (auto simp: may_relaunch_def reconcile_run_def reconcile_unclaimed_def)
  then have "snd ?c = t" using assms(2) by (metis snd_conv)
  moreover have "spawned_later (spawns s) s (snd ?c)" by (rule run_invariant.contain_as_read_keeps [OF R]) (simp add: spawned_later_def)
  ultimately show ?thesis by (simp add: spawned_later_def)
qed

text \<open>C16. A reconciliation never launches beside a live worker, and a second launch fences the first. Whatever other processes do meanwhile, one
  reconciliation spawns at most one worker, under a fresh token, and only when the worker, the launcher and the child the row names are all gone,
  the run was still waiting to be claimed, fewer than two launches were attempted, and the run row and the lock both still showed the lease that
  was read; from then on the stored generation exceeds the old one, so that every write of an earlier worker is refused.\<close>

theorem relaunch_fences_first_worker:
  assumes "tame others" "sound_node s" "n_trace s = []" "reconcile_run env others run s = (res, t)"
  shows "spawns t = [] \<or> (\<exists>pid. spawns t = [Spawn_worker (r_run_id run) (je_token env) pid] \<and> may_relaunch env run \<and>
    relaunch_due (r_repo_name run) (r_run_id run) [r_status run] (r_state_version run) (r_worker_lease_token run) (lease_gen run) (n_db s) \<and>
    (\<exists>r'. run_by_id (r_run_id run) (n_db t) = Some r' \<and> r_lease_generation r' > lease_gen run \<and>
       stale_lease (r_worker_lease_token run) (lease_gen run) r'))"
proof -
  have none: "spawns s = []" using assms(3) by (simp add: spawns_def)
  have wf: "wf_locks (n_db s)" using assms(2) by (auto simp: sound_node_def dest: system_wf)
  show ?thesis
  proof (cases "may_relaunch env run \<and> r_tool run \<notin> set LEGACY_READ_ONLY_TOOLS")
    case False
    then have "spawns t = spawns s" using no_spawn_else [OF assms(1,4)] legacy_spawns_none [OF assms(1,4)] by blast
    then show ?thesis using none by simp
  next
    case True
    then have "relaunch_worker env others run s = (res, t)" using relaunch_only assms(4) by metis
    with assms(1) show ?thesis
    proof (cases rule: relaunch_spawns)
      case 1
      then show ?thesis using none by simp
    next
      case (2 v db1 pid)
      have due: "relaunch_due (r_repo_name run) (r_run_id run) [r_status run] (r_state_version run) (r_worker_lease_token run) (lease_gen run) (n_db s)"
        using reserve_not_due [OF wf] 2(1) by (metis option.distinct(1) prod.inject)
      then obtain r0 l where r0: "run_by_id (r_run_id run) (n_db s) = Some r0" "lock_by_repo (r_repo_name run) (n_db s) = Some l"
        by (auto simp: relaunch_due_def split: option.splits)
      have new: "run_by_id (r_run_id run) db1 = Some (relaunch_row (je_token env) (lease_gen run + 1) (je_clock env 24) r0)"
        using reserve_due(2) [OF wf due r0 2(1), of "r_run_id run"] by simp
      have pre: "list_all prelaunch [r_status run]" using True by (auto simp: may_relaunch_def prelaunch_def)
      have "later s (s\<lparr>n_db := db1\<rparr>)"
        using later_step [OF later_refl, of s db1] system_step.lock [OF lock_step.reserve [OF pre]] 2(1) by (metis snd_conv)
      from later_sound(1) [OF this assms(2)] obtain r' where
        r': "run_by_id (r_run_id run) (n_db t) = Some r'" "row_advances (relaunch_row (je_token env) (lease_gen run + 1) (je_clock env 24) r0) r'"
        using db_advancesD [OF later_sound(2), of "s\<lparr>n_db := db1\<rparr>" t "r_run_id run"] 2(2) new by (auto simp: spawned_later_def)
      then have "r_lease_generation r' > lease_gen run" by (simp add: row_advances_def)
      with r' 2(2) none True due show ?thesis by (auto simp: spawned_later_def stale_lease_def)
    qed
  qed
qed

end
