(* ===== verification/Publication_Guarantees.thy ===== *)
theory Publication_Guarantees
  imports Run_Publication
begin

text \<open>
  What a publication achieves when no other process interferes and the file system works: the artifact, its recorded hash and a current
  projection, in one call, from whatever state the row and the file were in; and that repeating it changes nothing.
\<close>

section \<open>The two guarded records\<close>

definition projected_row :: "json \<Rightarrow> string \<Rightarrow> string \<Rightarrow> string \<Rightarrow> run_row \<Rightarrow> run_row" where
  "projected_row doc sha status error r =
     r\<lparr>r_public_result_json := doc, r_public_result_schema_version := PUBLIC_RESULT_SCHEMA_VERSION, r_public_result_source_sha256 := take 128 sha,
       r_public_result_status := status, r_public_result_error := take 2000 error, r_state_version := r_state_version r + 1\<rparr>"

definition published_row :: "string \<Rightarrow> timestamp \<Rightarrow> json \<Rightarrow> string \<Rightarrow> string \<Rightarrow> string \<Rightarrow> run_row \<Rightarrow> run_row" where
  "published_row hash at doc sha status error r =
     (projected_row doc sha status error r)\<lparr>r_result_publication_status := ''published'', r_result_published_hash := take 128 hash,
       r_result_published_at := Some at, r_result_publication_error := []\<rparr>"

lemma terminal_guard_holds: "is_terminal (r_status r) \<Longrightarrow> guard_holds (terminal_guard (r_state_version r)) r"
  by (simp add: terminal_guard_def default_guard_def guard_holds_def is_terminal_def opt_is_def)

lemma schema_version_short [simp]: "take 128 PUBLIC_RESULT_SCHEMA_VERSION = PUBLIC_RESULT_SCHEMA_VERSION"
  by (simp add: PUBLIC_RESULT_SCHEMA_VERSION_def)

lemma record_published_now:
  assumes "wf_runs db" "valid_run_id k" "run_by_id k db = Some r" "is_terminal (r_status r)" "status \<in> {''ready'', ''fallback''}"
  shows "record_result_publication_with_projection k ''published'' hash (Some at) [] doc sha status error (r_state_version r) db =
    (Inr (Some (published_row hash at doc sha status error r)), put_run k (published_row hash at doc sha status error r) db)"
proof -
  let ?fs = "[F_result_publication_status ''published'', F_result_published_hash hash, F_result_published_at (Some at), F_result_publication_error [],
     F_public_result_json doc, F_public_result_schema_version PUBLIC_RESULT_SCHEMA_VERSION, F_public_result_source_sha256 sha,
     F_public_result_status status, F_public_result_error error]"
  let ?g = "terminal_guard (r_state_version r)"
  have ok: "update_args_ok ?fs ?g" "expected_statuses ?g \<noteq> Some []" "guard_holds ?g r"
    using terminal_guard_holds [OF assms(4)]
    by (simp_all add: update_args_ok_def terminal_guard_def default_guard_def CONDITIONAL_UPDATE_FIELDS_def TERMINAL_STATUSES_def)
  have "set_clause (normalize_update_values ?fs) ?g r = published_row hash at doc sha status error r"
    using assms(5) by (auto simp: set_clause_def normalize_update_values_def progress_scalar_def terminal_guard_def default_guard_def
        published_row_def projected_row_def)
  then show ?thesis using conditional_update_ok [OF assms(1,2) ok(1,2)] assms(3,5) ok(3)
    by (auto simp: record_result_publication_with_projection_def PUBLICATION_STATUSES_def PUBLIC_RESULT_STATUSES_def)
qed

lemma record_projected_now:
  assumes "wf_runs db" "valid_run_id k" "run_by_id k db = Some r" "is_terminal (r_status r)" "status \<in> {''ready'', ''fallback''}"
  shows "record_public_result k doc sha status error (r_state_version r) db =
    (Inr (Some (projected_row doc sha status error r)), put_run k (projected_row doc sha status error r) db)"
proof -
  let ?fs = "[F_public_result_json doc, F_public_result_schema_version PUBLIC_RESULT_SCHEMA_VERSION, F_public_result_source_sha256 sha,
     F_public_result_status status, F_public_result_error error]"
  let ?g = "terminal_guard (r_state_version r)"
  have ok: "update_args_ok ?fs ?g" "expected_statuses ?g \<noteq> Some []" "guard_holds ?g r"
    using terminal_guard_holds [OF assms(4)]
    by (simp_all add: update_args_ok_def terminal_guard_def default_guard_def CONDITIONAL_UPDATE_FIELDS_def TERMINAL_STATUSES_def)
  have "set_clause (normalize_update_values ?fs) ?g r = projected_row doc sha status error r"
    using assms(5) by (auto simp: set_clause_def normalize_update_values_def progress_scalar_def terminal_guard_def default_guard_def
        projected_row_def)
  then show ?thesis using conditional_update_ok [OF assms(1,2) ok(1,2)] assms(3,5) ok(3)
    by (auto simp: record_public_result_def PUBLIC_RESULT_STATUSES_def)
qed
section \<open>A settled publication\<close>

definition result_content :: "pub_env \<Rightarrow> run_row \<Rightarrow> string" where
  "result_content env r = pe_content env (or_object (r_result_json r))"

text \<open>Artifact, recorded hash and projection all belong to the stored result.\<close>

definition publication_settled :: "pub_env \<Rightarrow> run_row \<Rightarrow> 'db node \<Rightarrow> bool" where
  "publication_settled env r s =
     (n_files s (result_path r) = Some (result_content env r) \<and> r_result_publication_status r = ''published'' \<and>
      r_result_published_hash r = pe_digest env (result_content env r) \<and> projection_matches r (source_sha256 env r))"

text \<open>The file of the run can be read and written, a digest fits its column, and a projection that is built is not empty.\<close>

definition pub_works :: "pub_env \<Rightarrow> run_row \<Rightarrow> bool" where
  "pub_works env r =
     (pe_read_error env (result_path r) = None \<and> pe_write_error env (result_path r) = None \<and>
      length (pe_digest env (result_content env r)) \<le> 128 \<and> length (source_sha256 env r) \<le> 128 \<and>
      (case pe_project env r (or_object (r_result_json r)) (source_sha256 env r) of
         Inr doc \<Rightarrow> py_truthy doc
       | Inl exc \<Rightarrow> (case pe_fallback env r (source_sha256 env r) (take MAX_PUBLICATION_ERROR exc) of Inr doc \<Rightarrow> py_truthy doc | Inl _ \<Rightarrow> True)))"

definition alone :: "'db others" where
  "alone = (\<lambda>_ s. s)"

lemma settle_bytes_nonempty: "d \<noteq> [] \<Longrightarrow> settle_bytes env n d \<noteq> []"
proof (induction n arbitrary: d)
  case (Suc n)
  have "jset k v d \<noteq> []" for k v using Suc.prems by (cases d) (auto split: if_splits)
  with Suc show ?case by (simp add: Let_def)
qed simp

lemma projection_usable:
  assumes "pub_works env r" "projection_payload env r = (doc, status, error, sha)"
  shows "py_truthy doc" "status \<in> {''ready'', ''fallback''}" "sha = source_sha256 env r"
proof -
  have "py_truthy (emergency_projection env r s e)" for s e
    using settle_bytes_nonempty by (simp add: emergency_projection_def del: settle_bytes.simps)
  then show "py_truthy doc" using assms
    by (auto simp: pub_works_def projection_payload_def Let_def split: sum.splits)
qed (use assms(2) in \<open>auto simp: projection_payload_def Let_def split: sum.splits\<close>)

lemma projected_row_simps [simp]:
  "outcome_of (projected_row doc sha status error r) = outcome_of r" "result_path (projected_row doc sha status error r) = result_path r"
  "r_run_id (projected_row doc sha status error r) = r_run_id r"
  "result_content env (projected_row doc sha status error r) = result_content env r"
  "source_sha256 env (projected_row doc sha status error r) = source_sha256 env r"
  "outcome_of (published_row hash at doc sha status error r) = outcome_of r"
  "result_path (published_row hash at doc sha status error r) = result_path r"
  "r_run_id (published_row hash at doc sha status error r) = r_run_id r"
  "result_content env (published_row hash at doc sha status error r) = result_content env r"
  "source_sha256 env (published_row hash at doc sha status error r) = source_sha256 env r"
  by (simp_all add: projected_row_def published_row_def outcome_of_def result_path_def result_content_def source_sha256_def)

lemma projected_matches:
  "length sha \<le> 128 \<Longrightarrow> py_truthy doc \<Longrightarrow> status \<in> {''ready'', ''fallback''} \<Longrightarrow> projection_matches (projected_row doc sha status error r) sha"
  "length sha \<le> 128 \<Longrightarrow> py_truthy doc \<Longrightarrow> status \<in> {''ready'', ''fallback''} \<Longrightarrow> projection_matches (published_row hash at doc sha status error r) sha"
  by (auto simp: projection_matches_def projected_row_def published_row_def)

lemma get_run_iff: "get_run k db = Inr r \<longleftrightarrow> valid_run_id k \<and> run_by_id k db = Some r"
  by (auto simp: get_run_def split: option.splits)

text \<open>A settled run is left alone.\<close>

lemma publish_settled:
  assumes "get_run k (n_db s) = Inr r" "is_terminal (r_status r)" "publication_settled env r s" "pe_read_error env (result_path r) = None"
  shows "publish_run_result env alone now k s = (Inr (published k (pe_digest env (result_content env r)) r), s)"
proof -
  obtain doc status error sha where p: "projection_payload env r = (doc, status, error, sha)" by (cases "projection_payload env r")
  have "sha = source_sha256 env r" using p by (auto simp: projection_payload_def Let_def split: sum.splits)
  with p assms show ?thesis by (simp add: publish_run_result_def Let_def alone_def publication_settled_def result_content_def)
qed

text \<open>The two ways to get there: repair the projection of a published result, or write and record everything.\<close>

lemma publish_repairs:
  assumes "wf_runs (n_db s)" "get_run k (n_db s) = Inr run" "is_terminal (r_status run)" "pub_works env run"
    and "n_files s (result_path run) = Some (result_content env run)" "r_result_publication_status run = ''published''"
      "r_result_published_hash run = pe_digest env (result_content env run)" "\<not> projection_matches run (source_sha256 env run)"
  obtains r t where "publish_run_result env alone now k s = (Inr (published k (pe_digest env (result_content env run)) r), t)"
    "get_run k (n_db t) = Inr r" "publication_settled env r t" "outcome_of r = outcome_of run" "result_path r = result_path run"
    "result_content env r = result_content env run"
proof -
  obtain doc status error sha where p: "projection_payload env run = (doc, status, error, sha)" by (cases "projection_payload env run")
  note u = projection_usable [OF assms(4) p]
  let ?r = "projected_row doc sha status error run" and ?t = "s\<lparr>n_db := put_run k (projected_row doc sha status error run) (n_db s)\<rparr>"
  have k: "valid_run_id k" "run_by_id k (n_db s) = Some run" "r_run_id run = k" using assms(2) run_by_id_key by (auto simp: get_run_iff)
  have t: "get_run k (n_db ?t) = Inr ?r" using k by (simp add: get_run_iff run_by_id_put_run)
  have m: "materialize_best_effort env alone k s = ?t"
    using assms(2,3,8) p u(3) record_projected_now [OF assms(1) k(1,2) assms(3) u(2)]
    by (simp add: materialize_best_effort_def materialize_public_result_def Let_def alone_def on_db_def)
  have "publish_run_result env alone now k s = (Inr (published k (pe_digest env (result_content env run)) ?r), ?t)"
    using assms p u(3) m t by (simp add: publish_run_result_def Let_def alone_def result_content_def pub_works_def)
  moreover have "publication_settled env ?r ?t"
    using assms(4-7) u projected_matches(1) [of sha doc status error run]
    by (simp add: publication_settled_def pub_works_def) (simp add: projected_row_def)
  ultimately show thesis using that t by simp
qed

lemma publish_records:
  assumes "wf_runs (n_db s)" "get_run k (n_db s) = Inr run" "is_terminal (r_status run)" "pub_works env run"
    and "\<not> (n_files s (result_path run) = Some (result_content env run) \<and> r_result_publication_status run = ''published'' \<and>
      r_result_published_hash run = pe_digest env (result_content env run))"
  obtains r t where "publish_run_result env alone now k s = (Inr (published k (pe_digest env (result_content env run)) r), t)"
    "get_run k (n_db t) = Inr r" "publication_settled env r t" "outcome_of r = outcome_of run" "result_path r = result_path run"
    "result_content env r = result_content env run"
proof -
  obtain doc status error sha where p: "projection_payload env run = (doc, status, error, sha)" by (cases "projection_payload env run")
  note u = projection_usable [OF assms(4) p]
  let ?h = "pe_digest env (result_content env run)"
  let ?r = "published_row ?h now doc sha status error run"
  let ?s = "if n_files s (result_path run) = Some (result_content env run) then s
    else s\<lparr>n_files := (n_files s)(result_path run \<mapsto> result_content env run)\<rparr>"
  let ?t = "?s\<lparr>n_db := put_run k ?r (n_db s)\<rparr>"
  have k: "valid_run_id k" "run_by_id k (n_db s) = Some run" "r_run_id run = k" using assms(2) run_by_id_key by (auto simp: get_run_iff)
  have t: "get_run k (n_db ?t) = Inr ?r" using k by (simp add: get_run_iff run_by_id_put_run)
  have "publish_run_result env alone now k s = (Inr (published k ?h ?r), ?t)"
    using assms(2-5) p record_published_now [OF assms(1) k(1,2) assms(3) u(2)]
    by (auto simp: publish_run_result_def Let_def alone_def result_content_def pub_works_def on_db_def)
  moreover have "publication_settled env ?r ?t"
    using assms(4) u projected_matches(2) [of sha doc status ?h now error run]
    by (simp add: publication_settled_def pub_works_def) (simp add: published_row_def projected_row_def)
  ultimately show thesis using that t by simp
qed

text \<open>C28. One publication settles a terminal run. Whatever was left of earlier attempts (no file, a stale file, a failed or missing record, an
  outdated projection, a projection builder that raises), when the file system works and nobody interferes, a single call answers positively
  with the hash of the canonical result, the artifact has exactly that content, and the row records that hash and a projection bound to the
  stored result; the outcome of the run is untouched, and any further publication answers the same and changes nothing at all.\<close>

theorem publication_settles:
  assumes "wf_runs (n_db s)" "get_run k (n_db s) = Inr run" "is_terminal (r_status run)" "pub_works env run"
  shows "\<exists>r t. publish_run_result env alone now k s = (Inr (published k (pe_digest env (result_content env run)) r), t) \<and>
    run_by_id k (n_db t) = Some r \<and> publication_settled env r t \<and> outcome_of r = outcome_of run \<and> result_path r = result_path run \<and>
    publish_run_result env alone later_now k t = (Inr (published k (pe_digest env (result_content env run)) r), t)"
proof -
  obtain r t where r: "publish_run_result env alone now k s = (Inr (published k (pe_digest env (result_content env run)) r), t)"
    "get_run k (n_db t) = Inr r" "publication_settled env r t" "outcome_of r = outcome_of run" "result_path r = result_path run"
    "result_content env r = result_content env run"
  proof (cases "publication_settled env run s")
    case True
    then show thesis using that publish_settled [OF assms(2,3) True] assms by (simp add: pub_works_def)
  next
    case False
    then show thesis using that publish_repairs [OF assms] publish_records [OF assms] unfolding publication_settled_def by metis
  qed
  have "is_terminal (r_status r)" using r(4) assms(3) by (simp add: outcome_of_def)
  with publish_settled [OF r(2) this r(3), of later_now] r assms(4) show ?thesis by (auto simp: pub_works_def get_run_iff)
qed


section \<open>Samples\<close>

definition sample_pub :: pub_env where
  "sample_pub = \<lparr>pe_content = (\<lambda>_. ''result''), pe_text = (\<lambda>_. ''result''), pe_digest = (\<lambda>t. ''sha:'' @ t),
     pe_project = (\<lambda>_ _ _. Inr (JObj [(''ok'', JBool True)])), pe_fallback = (\<lambda>_ _ _. Inr (JObj [(''ok'', JBool False)])),
     pe_json_bytes = (\<lambda>_. 20), pe_read_error = (\<lambda>_. None), pe_write_error = (\<lambda>_. None)\<rparr>"

definition sample_finished :: "run_db node" where
  "sample_finished = \<lparr>n_db = \<lparr>runs = [new_run sample_id ''repo'' ''pytest'' ''runs/1'' (JObj []) ''low'' False ''completed'' ''tok'' ''t0''],
     events = [], event_seq = 0\<rparr>, n_files = [''runs/1/result.json'' \<mapsto> ''stale''], n_trace = []\<rparr>"

theorem publication_settles_witness:
  "\<exists>r t. publish_run_result sample_pub alone ''t1'' sample_id sample_finished = (Inr (published sample_id ''sha:result'' r), t) \<and>
    n_files t ''runs/1/result.json'' = Some ''result'' \<and>
    publish_run_result sample_pub alone ''t2'' sample_id t = (Inr (published sample_id ''sha:result'' r), t)"
proof -
  let ?run = "new_run sample_id ''repo'' ''pytest'' ''runs/1'' (JObj []) ''low'' False ''completed'' ''tok'' ''t0''"
  have ok: "valid_run_id sample_id" "is_terminal (r_status ?run)" "pub_works sample_pub ?run" "r_run_id ?run = sample_id" by code_simp+
  have e: "result_path ?run = ''runs/1/result.json''" "pe_digest sample_pub ''result'' = ''sha:result''"
    "result_content sample_pub r = ''result''" for r
    by (simp_all add: result_path_def new_run_def result_content_def sample_pub_def)
  from ok have "wf_runs (n_db sample_finished)" "get_run sample_id (n_db sample_finished) = Inr ?run"
    by (simp_all add: sample_finished_def wf_runs_def get_run_iff run_by_id_def)
  from publication_settles [OF this ok(2,3), of "''t1''" "''t2''"] obtain r t where
    "publish_run_result sample_pub alone ''t1'' sample_id sample_finished = (Inr (published sample_id ''sha:result'' r), t)"
    "publish_run_result sample_pub alone ''t2'' sample_id t = (Inr (published sample_id ''sha:result'' r), t)"
    "publication_settled sample_pub r t" "result_path r = ''runs/1/result.json''" unfolding e by blast
  then show ?thesis using e(3) [of r] unfolding publication_settled_def by fastforce
qed

end
