(* ===== verification/Workflow_Model.thy ===== *)
theory Workflow_Model
  imports Soma_Prelude
begin

text \<open>
  Workflows, \<open>src/soma/workflows/models.py\<close>: the vocabulary, the submitted definition and its validation. A submitted step is a JSON
  document; \<open>parse_step\<close> is what the pydantic model declares (types, defaults, no further keys). The messages pydantic composes itself are
  not modelled: \<open>invalid_document\<close> stands for them. The graph check is the code's: identifiers, then edges, then a depth-first search for
  a cycle.
\<close>

section \<open>Vocabulary\<close>

datatype workflow_status =
    WS_CREATED | WS_QUEUED | WS_RUNNING | WS_CANCELLATION_PENDING | WS_RECOVERY_PENDING | WS_NEEDS_APPROVAL | WS_NEEDS_INPUT
  | WS_COMPLETED | WS_FAILED | WS_CANCELLED | WS_REPORTED

fun workflow_status_value :: "workflow_status \<Rightarrow> string" where
  "workflow_status_value WS_CREATED = ''created''"
| "workflow_status_value WS_QUEUED = ''queued''"
| "workflow_status_value WS_RUNNING = ''running''"
| "workflow_status_value WS_CANCELLATION_PENDING = ''cancellation_pending''"
| "workflow_status_value WS_RECOVERY_PENDING = ''recovery_pending''"
| "workflow_status_value WS_NEEDS_APPROVAL = ''needs_approval''"
| "workflow_status_value WS_NEEDS_INPUT = ''needs_input''"
| "workflow_status_value WS_COMPLETED = ''completed''"
| "workflow_status_value WS_FAILED = ''failed''"
| "workflow_status_value WS_CANCELLED = ''cancelled''"
| "workflow_status_value WS_REPORTED = ''reported''"

datatype step_status = SS_PENDING | SS_RUNNING | SS_PASSED | SS_FAILED | SS_SKIPPED | SS_CANCELLED

datatype step_type = ST_CODEX_IMPLEMENT | ST_PROJECT_COMMAND | ST_PYTEST_PATH | ST_GIT_READONLY | ST_LOCAL_SUMMARY

fun step_type_value :: "step_type \<Rightarrow> string" where
  "step_type_value ST_CODEX_IMPLEMENT = ''codex_implement''"
| "step_type_value ST_PROJECT_COMMAND = ''project_command''"
| "step_type_value ST_PYTEST_PATH = ''pytest_path''"
| "step_type_value ST_GIT_READONLY = ''git_readonly''"
| "step_type_value ST_LOCAL_SUMMARY = ''local_summary''"

definition all_step_types :: "step_type list" where
  "all_step_types = [ST_CODEX_IMPLEMENT, ST_PROJECT_COMMAND, ST_PYTEST_PATH, ST_GIT_READONLY, ST_LOCAL_SUMMARY]"

datatype step_on_failure = OF_STOP | OF_CONTINUE

definition MAX_WORKFLOW_STEPS :: nat where
  "MAX_WORKFLOW_STEPS = 50"

section \<open>The submitted document\<close>

record step_definition =
  sd_id :: string
  sd_type :: step_type
  sd_depends_on :: "string list"
  sd_on_failure :: step_on_failure
  sd_parameters :: "(string \<times> json) list"

definition invalid_document :: py_error where
  "invalid_document = ValueError ''validation error''"

text \<open>\<open>extra="forbid"\<close>: no key but the declared ones; a field without a default is required.\<close>

definition only_keys :: "string list \<Rightarrow> (string \<times> json) list \<Rightarrow> bool" where
  "only_keys ks d = list_all (\<lambda>(k, _). k \<in> set ks) d"

fun str_field :: "json option \<Rightarrow> string option" where
  "str_field (Some (JStr s)) = Some s"
| "str_field _ = None"

fun all_strings :: "json list \<Rightarrow> string list option" where
  "all_strings [] = Some []"
| "all_strings (JStr s # xs) = map_option ((#) s) (all_strings xs)"
| "all_strings _ = None"

fun str_list_field :: "json option \<Rightarrow> string list option" where
  "str_list_field None = Some []"
| "str_list_field (Some (JArr xs)) = all_strings xs"
| "str_list_field _ = None"

fun type_field :: "json option \<Rightarrow> step_type option" where
  "type_field (Some (JStr s)) = find (\<lambda>t. step_type_value t = s) all_step_types"
| "type_field _ = None"

fun on_failure_field :: "json option \<Rightarrow> step_on_failure option" where
  "on_failure_field None = Some OF_STOP"
| "on_failure_field (Some (JStr s)) = (if s = ''stop'' then Some OF_STOP else if s = ''continue'' then Some OF_CONTINUE else None)"
| "on_failure_field _ = None"

fun object_field :: "json option \<Rightarrow> (string \<times> json) list option" where
  "object_field None = Some []"
| "object_field (Some (JObj d)) = Some d"
| "object_field _ = None"

text \<open>The parameters a step of each type takes.\<close>

fun parameters_ok :: "step_type \<Rightarrow> (string \<times> json) list \<Rightarrow> bool" where
  "parameters_ok ST_CODEX_IMPLEMENT d =
     (only_keys [''approved_plan'', ''allowed_files'', ''tests''] d \<and> str_field (jget ''approved_plan'' d) \<noteq> None \<and>
      jget ''allowed_files'' d \<noteq> None \<and> str_list_field (jget ''allowed_files'' d) \<noteq> None \<and> str_list_field (jget ''tests'' d) \<noteq> None)"
| "parameters_ok ST_PROJECT_COMMAND d = (only_keys [''command_id''] d \<and> str_field (jget ''command_id'' d) \<noteq> None)"
| "parameters_ok ST_PYTEST_PATH d = (only_keys [''path''] d \<and> str_field (jget ''path'' d) \<noteq> None)"
| "parameters_ok ST_GIT_READONLY d = (only_keys [''operation''] d \<and> str_field (jget ''operation'' d) \<noteq> None)"
| "parameters_ok ST_LOCAL_SUMMARY d = (only_keys [''include_step_ids''] d \<and> str_list_field (jget ''include_step_ids'' d) \<noteq> None)"

fun parse_step :: "json \<Rightarrow> py_error + step_definition" where
  "parse_step (JObj d) =
     (if \<not> only_keys [''id'', ''type'', ''depends_on'', ''on_failure'', ''parameters''] d then Inl invalid_document
      else case (str_field (jget ''id'' d), type_field (jget ''type'' d), str_list_field (jget ''depends_on'' d),
                 on_failure_field (jget ''on_failure'' d), object_field (jget ''parameters'' d)) of
             (Some i, Some t, Some ds, Some f, Some ps) \<Rightarrow>
               if parameters_ok t ps
               then Inr \<lparr>sd_id = i, sd_type = t, sd_depends_on = ds, sd_on_failure = f, sd_parameters = ps\<rparr>
               else Inl invalid_document
           | _ \<Rightarrow> Inl invalid_document)"
| "parse_step _ = Inl invalid_document"

fun parse_steps :: "json list \<Rightarrow> py_error + step_definition list" where
  "parse_steps [] = Inr []"
| "parse_steps (j # js) =
     (case parse_step j of Inl e \<Rightarrow> Inl e
      | Inr d \<Rightarrow> (case parse_steps js of Inl e \<Rightarrow> Inl e | Inr ds \<Rightarrow> Inr (d # ds)))"

section \<open>Validation of the graph\<close>

definition reject_obsolete_step_types :: "step_definition list \<Rightarrow> py_error option" where
  "reject_obsolete_step_types steps =
     (if list_ex (\<lambda>s. sd_type s = ST_CODEX_IMPLEMENT) steps
      then Some (ValueError ''codex_implement workflow steps are removed compatibility values and cannot be submitted or launched. ChatGPT must use the managed repository lifecycle for source changes.'')
      else None)"

text \<open>First loop: identifiers. \<open>seen\<close> is the set of the earlier ones.\<close>

fun check_ids :: "string list \<Rightarrow> step_definition list \<Rightarrow> py_error option" where
  "check_ids seen [] = None"
| "check_ids seen (s # rest) =
     (if sd_id s = [] \<or> py_strip (sd_id s) = [] then Some (ValueError ''Workflow step IDs must be non-empty'')
      else if sd_id s \<in> set seen then Some (ValueError (''Duplicate workflow step ID: '' @ sd_id s))
      else check_ids (sd_id s # seen) rest)"

text \<open>\<open>index_by_id\<close>; the identifiers are distinct when it is used.\<close>

definition index_of :: "step_definition list \<Rightarrow> string \<Rightarrow> nat option" where
  "index_of steps i = map_of (rev (zip (map sd_id steps) [0..<length steps])) i"

text \<open>Second loop: every edge leads to an earlier step.\<close>

fun check_edges :: "step_definition list \<Rightarrow> nat \<Rightarrow> string \<Rightarrow> string list \<Rightarrow> py_error option" where
  "check_edges steps n i [] = None"
| "check_edges steps n i (d # ds) =
     (case index_of steps d of
        None \<Rightarrow> Some (ValueError (''Workflow step '' @ i @ '' depends on missing step '' @ d))
      | Some m \<Rightarrow> if m \<ge> n then Some (ValueError (''Workflow step '' @ i @ '' must depend only on earlier steps''))
                  else check_edges steps n i ds)"

fun check_all_edges :: "step_definition list \<Rightarrow> nat \<Rightarrow> step_definition list \<Rightarrow> py_error option" where
  "check_all_edges steps n [] = None"
| "check_all_edges steps n (s # rest) =
     (case check_edges steps n (sd_id s) (sd_depends_on s) of Some e \<Rightarrow> Some e | None \<Rightarrow> check_all_edges steps (Suc n) rest)"

lemma index_of_in: "index_of steps i = Some n \<Longrightarrow> i \<in> sd_id ` set steps"
  by (auto simp: index_of_def dest!: map_of_SomeD set_zip_leftD)

text \<open>
  Third loop: depth-first search. \<open>visiting\<close> is the path, \<open>visited\<close> what is finished. A call on a known identifier outside the path
  makes the rest of the identifiers smaller, so the search ends on every input.
\<close>

function (sequential) visit :: "step_definition list \<Rightarrow> string list \<Rightarrow> string list \<Rightarrow> string \<Rightarrow> py_error + string list"
  and visit_all :: "step_definition list \<Rightarrow> string list \<Rightarrow> string list \<Rightarrow> string list \<Rightarrow> py_error + string list" where
  "visit steps visiting visited i =
     (if i \<in> set visited then Inr visited
      else if i \<in> set visiting then Inl (ValueError (''Workflow dependency cycle detected at '' @ i))
      else case index_of steps i of
             None \<Rightarrow> Inl (KeyError i)
           | Some n \<Rightarrow> (if n < length steps
               then (case visit_all steps (i # visiting) visited (sd_depends_on (steps ! n)) of
                       Inl e \<Rightarrow> Inl e | Inr v \<Rightarrow> Inr (i # v))
               else Inl (KeyError i)))"
| "visit_all steps visiting visited [] = Inr visited"
| "visit_all steps visiting visited (d # ds) =
     (case visit steps visiting visited d of Inl e \<Rightarrow> Inl e | Inr v \<Rightarrow> visit_all steps visiting v ds)"
  by pat_completeness auto

termination
proof (relation "measures [\<lambda>x. case x of Inl (steps, p, v, i) \<Rightarrow> card (sd_id ` set steps - set p)
      | Inr (steps, p, v, ds) \<Rightarrow> card (sd_id ` set steps - set p),
    \<lambda>x. case x of Inl _ \<Rightarrow> 0 | Inr (steps, p, v, ds) \<Rightarrow> Suc (length ds)]", goal_cases)
  case (2 steps visiting visited i n)
  then have "i \<in> sd_id ` set steps - set visiting" using index_of_in by auto
  then have "card (sd_id ` set steps - set (i # visiting)) < card (sd_id ` set steps - set visiting)"
    by (intro psubset_card_mono) auto
  then show ?case by simp
qed auto

definition validate_graph :: "step_definition list \<Rightarrow> py_error + unit" where
  "validate_graph steps =
     (if steps = [] then Inl (ValueError ''Workflow must contain at least one step'')
      else if length steps > MAX_WORKFLOW_STEPS then Inl (ValueError ''Workflow exceeds maximum step count of 50'')
      else case check_ids [] steps of Some e \<Rightarrow> Inl e
      | None \<Rightarrow> (case check_all_edges steps 0 steps of Some e \<Rightarrow> Inl e
      | None \<Rightarrow> (case visit_all steps [] [] (map sd_id steps) of Inl e \<Rightarrow> Inl e | Inr _ \<Rightarrow> Inr ())))"

text \<open>\<open>WorkflowDefinition.model_validate\<close> on the steps.\<close>

definition validate_workflow :: "json list \<Rightarrow> py_error + step_definition list" where
  "validate_workflow js =
     (case parse_steps js of Inl e \<Rightarrow> Inl e
      | Inr steps \<Rightarrow> (case reject_obsolete_step_types steps of Some e \<Rightarrow> Inl e
        | None \<Rightarrow> (case validate_graph steps of Inl e \<Rightarrow> Inl e | Inr _ \<Rightarrow> Inr steps)))"

end
