(* ===== verification/Workflow_Graph.thy ===== *)
theory Workflow_Graph
  imports Workflow_Model
begin

text \<open>
  What the validation of a workflow accepts, stated without its loops: the depth-first search never finds anything that the check of the edges
  has not refused already, and the search ends on every input.
\<close>

section \<open>The reference\<close>

definition graph_ok :: "step_definition list \<Rightarrow> bool" where
  "graph_ok steps =
     (steps \<noteq> [] \<and> length steps \<le> MAX_WORKFLOW_STEPS \<and> list_all (\<lambda>s. py_strip (sd_id s) \<noteq> []) steps \<and> distinct (map sd_id steps) \<and>
      (\<forall>n < length steps. \<forall>d \<in> set (sd_depends_on (steps ! n)). \<exists>m < n. sd_id (steps ! m) = d))"

section \<open>The loops\<close>

lemma check_ids_iff:
  "check_ids seen steps = None \<longleftrightarrow>
     list_all (\<lambda>s. py_strip (sd_id s) \<noteq> []) steps \<and> distinct (map sd_id steps) \<and> set (map sd_id steps) \<inter> set seen = {}"
proof (induction seen steps rule: check_ids.induct)
  case (2 seen s rest)
  have "py_strip [] = []" by (simp add: py_strip_def)
  with 2 show ?case by auto
qed simp

lemma index_of_iff:
  assumes "distinct (map sd_id steps)"
  shows "index_of steps i = Some n \<longleftrightarrow> n < length steps \<and> sd_id (steps ! n) = i"
proof -
  let ?l = "zip (map sd_id steps) [0..<length steps]"
  have "distinct (map fst ?l)" using assms by (simp add: map_fst_zip)
  then have "map_of (rev ?l) i = Some n \<longleftrightarrow> (i, n) \<in> set ?l" by (simp add: rev_map [symmetric])
  also have "\<dots> \<longleftrightarrow> n < length steps \<and> sd_id (steps ! n) = i" by (auto simp: in_set_zip intro!: exI [of _ n])
  finally show ?thesis by (simp add: index_of_def)
qed

lemma check_edges_iff: "check_edges steps n i ds = None \<longleftrightarrow> (\<forall>d \<in> set ds. \<exists>m < n. index_of steps d = Some m)"
  by (induction steps n i ds rule: check_edges.induct) (auto split: option.split)

lemma check_all_edges_iff:
  "check_all_edges steps n rest = None \<longleftrightarrow>
     (\<forall>k < length rest. \<forall>d \<in> set (sd_depends_on (rest ! k)). \<exists>m < n + k. index_of steps d = Some m)"
proof (induction steps n rest rule: check_all_edges.induct)
  case (2 steps n s rest)
  show ?case
    by (cases "check_edges steps n (sd_id s) (sd_depends_on s)")
      (use 2 check_edges_iff [of steps n "sd_id s" "sd_depends_on s"] in \<open>auto simp: All_less_Suc2\<close>)
qed simp

text \<open>Along edges to earlier steps the index falls, so the path never meets itself.\<close>

definition falls :: "step_definition list \<Rightarrow> string list \<Rightarrow> string \<Rightarrow> bool" where
  "falls steps path i = (\<exists>n. index_of steps i = Some n \<and> n < length steps \<and> (\<forall>p \<in> set path. \<exists>m > n. index_of steps p = Some m))"

lemma visit_succeeds:
  assumes edges: "\<forall>k < length steps. \<forall>d \<in> set (sd_depends_on (steps ! k)). \<exists>m < k. index_of steps d = Some m"
  shows "falls steps path i \<Longrightarrow> \<exists>v. visit steps path visited i = Inr v"
    and "(\<forall>d \<in> set ds. falls steps path d) \<Longrightarrow> \<exists>v. visit_all steps path visited ds = Inr v"
  using edges
proof (induction steps path visited i and steps path visited ds rule: visit_visit_all.induct)
  case (1 steps path visited i)
  then obtain n where n: "index_of steps i = Some n" "n < length steps" "\<forall>p \<in> set path. \<exists>m > n. index_of steps p = Some m"
    by (auto simp: falls_def)
  show ?case
  proof (cases "i \<in> set visited")
    case False
    have new: "i \<notin> set path" using n by auto
    have "falls steps (i # path) d" if d: "d \<in> set (sd_depends_on (steps ! n))" for d
    proof -
      obtain m where m: "m < n" "index_of steps d = Some m" using "1.prems"(2) n(2) d by blast
      then have "\<exists>k > m. index_of steps p = Some k" if "p \<in> set (i # path)" for p
        using n that less_trans [of m n] by auto
      then show ?thesis using m n(2) by (auto simp: falls_def)
    qed
    with "1.IH" [OF False new n(1,2)] "1.prems"(2) obtain v where "visit_all steps (i # path) visited (sd_depends_on (steps ! n)) = Inr v"
      by blast
    then show ?thesis using False new n by simp
  qed simp
next
  case (3 steps path visited d ds)
  then obtain v where "visit steps path visited d = Inr v" by auto
  with 3 show ?case by auto
qed simp

lemma cycle_search_silent:
  assumes "distinct (map sd_id steps)" "check_all_edges steps 0 steps = None"
  shows "\<exists>v. visit_all steps [] [] (map sd_id steps) = Inr v"
proof -
  have "\<forall>k < length steps. \<forall>d \<in> set (sd_depends_on (steps ! k)). \<exists>m < k. index_of steps d = Some m"
    using assms(2) check_all_edges_iff [of steps 0 steps] by simp
  moreover have "\<forall>d \<in> set (map sd_id steps). falls steps [] d"
    using index_of_iff [OF assms(1)] by (auto simp: falls_def in_set_conv_nth)
  ultimately show ?thesis by (rule visit_succeeds(2))
qed

lemma validate_graph_iff: "(validate_graph steps = Inr ()) = graph_ok steps"
proof -
  have ids: "check_ids [] steps = None \<longleftrightarrow> list_all (\<lambda>s. py_strip (sd_id s) \<noteq> []) steps \<and> distinct (map sd_id steps)"
    using check_ids_iff [of "[]" steps] by simp
  have edges: "check_all_edges steps 0 steps = None \<longleftrightarrow>
      (\<forall>n < length steps. \<forall>d \<in> set (sd_depends_on (steps ! n)). \<exists>m < n. sd_id (steps ! m) = d)" if "distinct (map sd_id steps)"
    using check_all_edges_iff [of steps 0 steps] index_of_iff [OF that] by (simp, intro iffI allI impI ballI) (meson less_trans)+
  have "(validate_graph steps = Inr ()) = (steps \<noteq> [] \<and> length steps \<le> MAX_WORKFLOW_STEPS \<and>
      check_ids [] steps = None \<and> check_all_edges steps 0 steps = None)"
    using ids cycle_search_silent [of steps] by (auto simp: validate_graph_def not_less split: option.splits sum.splits)
  also have "\<dots> = graph_ok steps" using ids edges by (auto simp: graph_ok_def)
  finally show ?thesis .
qed

section \<open>Acceptance\<close>


definition sample_step :: "string \<Rightarrow> step_type \<Rightarrow> string list \<Rightarrow> step_definition" where
  "sample_step i t ds = \<lparr>sd_id = i, sd_type = t, sd_depends_on = ds, sd_on_failure = OF_STOP, sd_parameters = []\<rparr>"

definition sample_steps :: "step_definition list" where
  "sample_steps = [sample_step ''test'' ST_PYTEST_PATH [], sample_step ''build'' ST_PROJECT_COMMAND [''test''],
     sample_step ''report'' ST_LOCAL_SUMMARY [''test'', ''build'']]"


end
