(* ===== verification/Workflow_Store.thy ===== *)
theory Workflow_Store
  imports Project_Scope Workflow_Model
begin

text \<open>
  The workflow store, \<open>src/soma/workflows/store.py\<close>: the tables \<open>workflows\<close>, \<open>workflow_steps\<close> and \<open>workflow_events\<close> of the same SQLite
  file, and every operation on them. A status column holds a value of the enumeration. A JSON column is kept as the document it holds. The
  arguments \<open>now\<close> are what \<open>utc_now()\<close> returned. The fields a guarded update may assign are the constructors of \<open>workflow_field\<close> and
  \<open>step_field\<close>: one per name in \<open>_WORKFLOW_UPDATE_FIELDS\<close> and \<open>_STEP_UPDATE_FIELDS\<close>, so that an unsupported name cannot be written down.
\<close>

section \<open>Tables\<close>

record workflow_row =
  w_workflow_id :: string
  w_repo_name :: string
  w_objective :: string
  w_status :: workflow_status
  w_terminal_status :: "workflow_status option"
  w_created_at :: timestamp
  w_updated_at :: timestamp
  w_started_at :: "timestamp option"
  w_ended_at :: "timestamp option"
  w_launcher_pid :: "int option"
  w_launcher_identity :: string
  w_worker_pid :: "int option"
  w_worker_lease_token :: string
  w_lease_generation :: int
  w_state_version :: int
  w_worker_identity :: string
  w_worker_claimed_at :: "timestamp option"
  w_launch_attempts :: int
  w_heartbeat_at :: "timestamp option"
  w_active_child_run_id :: "string option"
  w_failure_summary :: string
  w_recommended_next_action :: string
  w_artifact_paths :: "string list"
  w_result :: json
  w_publication_status :: string
  w_publication_hash :: string
  w_published_at :: "timestamp option"
  w_publication_error :: string

record step_row =
  s_workflow_id :: string
  s_step_id :: string
  s_order_index :: nat
  s_type :: step_type
  s_parameters :: "(string \<times> json) list"
  s_depends_on :: "string list"
  s_on_failure :: step_on_failure
  s_status :: step_status
  s_state_version :: int
  s_child_run_id :: "string option"
  s_child_launch_attempts :: int
  s_started_at :: "timestamp option"
  s_ended_at :: "timestamp option"
  s_summary :: string
  s_error :: string
  s_artifact_paths :: "string list"
  s_result :: json

record workflow_event =
  we_id :: int
  we_workflow_id :: string
  we_timestamp :: timestamp
  we_level :: string
  we_stage :: string
  we_message :: string
  we_data :: "(string \<times> json) list"

record workflow_db = scope_db +
  workflows :: "workflow_row list"
  workflow_steps :: "step_row list"
  workflow_events :: "workflow_event list"
  workflow_event_seq :: int

definition WORKFLOW_TERMINAL_STATUSES :: "workflow_status list" where
  "WORKFLOW_TERMINAL_STATUSES = [WS_NEEDS_APPROVAL, WS_NEEDS_INPUT, WS_COMPLETED, WS_FAILED, WS_CANCELLED, WS_REPORTED]"

definition workflow_over :: "workflow_status \<Rightarrow> bool" where
  "workflow_over st = (st \<in> set WORKFLOW_TERMINAL_STATUSES)"

definition workflow_by_id :: "string \<Rightarrow> 'a workflow_db_scheme \<Rightarrow> workflow_row option" where
  "workflow_by_id k db = by_key w_workflow_id k (workflows db)"

definition steps_of :: "string \<Rightarrow> 'a workflow_db_scheme \<Rightarrow> step_row list" where
  "steps_of k db = sort_key s_order_index (filter (\<lambda>s. s_workflow_id s = k) (workflow_steps db))"

section \<open>Records\<close>

text \<open>\<open>WorkflowRecord\<close>: a row with its steps. Reading replaces an empty text or a zero process id by \<open>None\<close>.\<close>

record workflow_record =
  wr_row :: workflow_row
  wr_steps :: "step_row list"

definition text_or_none :: "string option \<Rightarrow> string option" where
  "text_or_none x = (if x = Some [] then None else x)"

definition pid_or_none :: "int option \<Rightarrow> int option" where
  "pid_or_none x = (if x = Some 0 then None else x)"

definition read_row :: "workflow_row \<Rightarrow> workflow_row" where
  "read_row r = r\<lparr>w_started_at := text_or_none (w_started_at r), w_ended_at := text_or_none (w_ended_at r),
     w_launcher_pid := pid_or_none (w_launcher_pid r), w_worker_pid := pid_or_none (w_worker_pid r),
     w_lease_generation := (if w_lease_generation r = 0 then 1 else w_lease_generation r),
     w_worker_claimed_at := text_or_none (w_worker_claimed_at r), w_heartbeat_at := text_or_none (w_heartbeat_at r),
     w_active_child_run_id := text_or_none (w_active_child_run_id r),
     w_publication_status := str_or (w_publication_status r) ''pending'', w_published_at := text_or_none (w_published_at r)\<rparr>"

definition read_step :: "step_row \<Rightarrow> step_row" where
  "read_step s = s\<lparr>s_child_run_id := text_or_none (s_child_run_id s), s_started_at := text_or_none (s_started_at s),
     s_ended_at := text_or_none (s_ended_at s)\<rparr>"

definition hydrate_workflow :: "workflow_row \<Rightarrow> step_row list \<Rightarrow> workflow_record" where
  "hydrate_workflow r ss = \<lparr>wr_row = read_row r, wr_steps = map read_step ss\<rparr>"

definition get_workflow :: "string \<Rightarrow> 'a workflow_db_scheme \<Rightarrow> py_error + workflow_record" where
  "get_workflow k db =
     (case workflow_by_id k db of
        None \<Rightarrow> Inl (KeyError (''Workflow not found: '' @ k))
      | Some r \<Rightarrow> Inr (hydrate_workflow r (steps_of k db)))"

section \<open>Creation\<close>

definition new_workflow :: "string \<Rightarrow> string \<Rightarrow> string \<Rightarrow> workflow_status \<Rightarrow> string \<Rightarrow> int \<Rightarrow> int \<Rightarrow> timestamp \<Rightarrow> workflow_row" where
  "new_workflow k repo objective status token gen tries now =
     \<lparr>w_workflow_id = k, w_repo_name = repo, w_objective = objective, w_status = status, w_terminal_status = None,
      w_created_at = now, w_updated_at = now, w_started_at = None, w_ended_at = None, w_launcher_pid = None, w_launcher_identity = [],
      w_worker_pid = None, w_worker_lease_token = token, w_lease_generation = gen, w_state_version = 0, w_worker_identity = [],
      w_worker_claimed_at = None, w_launch_attempts = tries, w_heartbeat_at = None, w_active_child_run_id = None,
      w_failure_summary = [], w_recommended_next_action = [], w_artifact_paths = [], w_result = JObj [], w_publication_status = ''pending'',
      w_publication_hash = [], w_published_at = None, w_publication_error = []\<rparr>"

definition new_step :: "string \<Rightarrow> nat \<Rightarrow> step_definition \<Rightarrow> step_row" where
  "new_step k n d =
     \<lparr>s_workflow_id = k, s_step_id = sd_id d, s_order_index = n, s_type = sd_type d, s_parameters = sd_parameters d,
      s_depends_on = sd_depends_on d, s_on_failure = sd_on_failure d, s_status = SS_PENDING, s_state_version = 0, s_child_run_id = None,
      s_child_launch_attempts = 0, s_started_at = None, s_ended_at = None, s_summary = [], s_error = [], s_artifact_paths = [],
      s_result = JObj []\<rparr>"

definition new_steps :: "string \<Rightarrow> step_definition list \<Rightarrow> step_row list" where
  "new_steps k ds = map (\<lambda>(n, d). new_step k n d) (zip [0..<length ds] ds)"

definition step_key :: "step_row \<Rightarrow> string \<times> string" where
  "step_key s = (s_workflow_id s, s_step_id s)"

definition create_workflow ::
  "string \<Rightarrow> string \<Rightarrow> string \<Rightarrow> step_definition list \<Rightarrow> workflow_status \<Rightarrow> string \<Rightarrow> int \<Rightarrow> int \<Rightarrow> timestamp \<Rightarrow>
   'a workflow_db_scheme \<Rightarrow> ('a workflow_db_scheme, workflow_record) outcome" where
  "create_workflow k repo objective ds status token gen tries now db =
     (if workflow_by_id k db \<noteq> None then (Inl (IntegrityError ''UNIQUE constraint failed: workflows.workflow_id''), db)
      else if \<not> distinct (map step_key (new_steps k ds)) \<or> list_ex (\<lambda>s. step_key s \<in> set (map step_key (workflow_steps db))) (new_steps k ds)
      then (Inl (IntegrityError ''UNIQUE constraint failed: workflow_steps.workflow_id, workflow_steps.step_id''), db)
      else let db' = db\<lparr>workflows := workflows db @ [new_workflow k repo objective status token gen tries now],
                       workflow_steps := workflow_steps db @ new_steps k ds\<rparr>
           in (get_workflow k db', db'))"

section \<open>Guarded update of a workflow\<close>

datatype workflow_field =
    W_status workflow_status
  | W_terminal_status "workflow_status option"
  | W_started_at "timestamp option"
  | W_ended_at "timestamp option"
  | W_launcher_pid "int option"
  | W_launcher_identity string
  | W_worker_pid "int option"
  | W_worker_lease_token string
  | W_lease_generation int
  | W_worker_identity string
  | W_worker_claimed_at "timestamp option"
  | W_launch_attempts int
  | W_heartbeat_at "timestamp option"
  | W_active_child_run_id "string option"
  | W_failure_summary string
  | W_recommended_next_action string
  | W_artifact_paths "string list"
  | W_result json
  | W_publication_status string
  | W_publication_hash string
  | W_published_at "timestamp option"
  | W_publication_error string

fun apply_workflow_field :: "workflow_field \<Rightarrow> workflow_row \<Rightarrow> workflow_row" where
  "apply_workflow_field (W_status v) r = r\<lparr>w_status := v\<rparr>"
| "apply_workflow_field (W_terminal_status v) r = r\<lparr>w_terminal_status := v\<rparr>"
| "apply_workflow_field (W_started_at v) r = r\<lparr>w_started_at := v\<rparr>"
| "apply_workflow_field (W_ended_at v) r = r\<lparr>w_ended_at := v\<rparr>"
| "apply_workflow_field (W_launcher_pid v) r = r\<lparr>w_launcher_pid := v\<rparr>"
| "apply_workflow_field (W_launcher_identity v) r = r\<lparr>w_launcher_identity := v\<rparr>"
| "apply_workflow_field (W_worker_pid v) r = r\<lparr>w_worker_pid := v\<rparr>"
| "apply_workflow_field (W_worker_lease_token v) r = r\<lparr>w_worker_lease_token := v\<rparr>"
| "apply_workflow_field (W_lease_generation v) r = r\<lparr>w_lease_generation := v\<rparr>"
| "apply_workflow_field (W_worker_identity v) r = r\<lparr>w_worker_identity := v\<rparr>"
| "apply_workflow_field (W_worker_claimed_at v) r = r\<lparr>w_worker_claimed_at := v\<rparr>"
| "apply_workflow_field (W_launch_attempts v) r = r\<lparr>w_launch_attempts := v\<rparr>"
| "apply_workflow_field (W_heartbeat_at v) r = r\<lparr>w_heartbeat_at := v\<rparr>"
| "apply_workflow_field (W_active_child_run_id v) r = r\<lparr>w_active_child_run_id := v\<rparr>"
| "apply_workflow_field (W_failure_summary v) r = r\<lparr>w_failure_summary := v\<rparr>"
| "apply_workflow_field (W_recommended_next_action v) r = r\<lparr>w_recommended_next_action := v\<rparr>"
| "apply_workflow_field (W_artifact_paths v) r = r\<lparr>w_artifact_paths := v\<rparr>"
| "apply_workflow_field (W_result v) r = r\<lparr>w_result := v\<rparr>"
| "apply_workflow_field (W_publication_status v) r = r\<lparr>w_publication_status := v\<rparr>"
| "apply_workflow_field (W_publication_hash v) r = r\<lparr>w_publication_hash := v\<rparr>"
| "apply_workflow_field (W_published_at v) r = r\<lparr>w_published_at := v\<rparr>"
| "apply_workflow_field (W_publication_error v) r = r\<lparr>w_publication_error := v\<rparr>"

definition apply_workflow_fields :: "workflow_field list \<Rightarrow> workflow_row \<Rightarrow> workflow_row" where
  "apply_workflow_fields fs r = foldl (\<lambda>r f. apply_workflow_field f r) r fs"

record workflow_guard =
  wg_statuses :: "workflow_status list option"
  wg_state_version :: "int option"
  wg_lease_token :: "string option"
  wg_lease_generation :: "int option"
  wg_heartbeat_at :: "timestamp option option"
  wg_publication_status :: "string option"
  wg_publication_hash :: "string option"
  wg_reject_terminal :: bool
  wg_bump :: bool

definition workflow_guard0 :: workflow_guard where
  "workflow_guard0 = \<lparr>wg_statuses = None, wg_state_version = None, wg_lease_token = None, wg_lease_generation = None, wg_heartbeat_at = None,
     wg_publication_status = None, wg_publication_hash = None, wg_reject_terminal = False, wg_bump = True\<rparr>"

definition workflow_guard_holds :: "workflow_guard \<Rightarrow> workflow_row \<Rightarrow> bool" where
  "workflow_guard_holds g r =
     ((case wg_statuses g of None \<Rightarrow> True | Some ss \<Rightarrow> w_status r \<in> set ss) \<and>
      opt_is (wg_state_version g) (w_state_version r) \<and> opt_is (wg_lease_token g) (w_worker_lease_token r) \<and>
      opt_is (wg_lease_generation g) (w_lease_generation r) \<and> opt_is (wg_heartbeat_at g) (w_heartbeat_at r) \<and>
      opt_is (wg_publication_status g) (w_publication_status r) \<and> opt_is (wg_publication_hash g) (w_publication_hash r) \<and>
      (wg_reject_terminal g \<longrightarrow> \<not> workflow_over (w_status r)))"

definition workflow_set :: "workflow_field list \<Rightarrow> bool \<Rightarrow> timestamp \<Rightarrow> workflow_row \<Rightarrow> workflow_row" where
  "workflow_set fs bump now r =
     (let r' = (apply_workflow_fields fs r)\<lparr>w_updated_at := now\<rparr>
      in if bump then r'\<lparr>w_state_version := w_state_version r + 1\<rparr> else r')"

definition conditional_update_workflow ::
  "string \<Rightarrow> workflow_field list \<Rightarrow> workflow_guard \<Rightarrow> timestamp \<Rightarrow> 'a workflow_db_scheme \<Rightarrow> ('a workflow_db_scheme, workflow_record option) outcome" where
  "conditional_update_workflow k fs g now db =
     (if wg_statuses g = Some [] then (Inr None, db)
      else
        let hit = (\<lambda>r. w_workflow_id r = k \<and> workflow_guard_holds g r);
            db' = db\<lparr>workflows := sql_update hit (workflow_set fs (wg_bump g) now) (workflows db)\<rparr>
        in if sql_count hit (workflows db) \<noteq> 1 then (Inr None, db')
           else (case get_workflow k db' of Inl e \<Rightarrow> (Inl e, db') | Inr w \<Rightarrow> (Inr (Some w), db')))"

definition update_workflow :: "string \<Rightarrow> workflow_field list \<Rightarrow> timestamp \<Rightarrow> 'a workflow_db_scheme \<Rightarrow> ('a workflow_db_scheme, workflow_record) outcome" where
  "update_workflow k fs now db =
     (if fs = [] then (get_workflow k db, db)
      else let db' = db\<lparr>workflows := sql_update (\<lambda>r. w_workflow_id r = k) (workflow_set fs False now) (workflows db)\<rparr>
           in (get_workflow k db', db'))"
section \<open>Worker and lease\<close>

definition workflow_record_launch ::
  "string \<Rightarrow> int \<Rightarrow> int \<Rightarrow> string \<Rightarrow> int \<Rightarrow> string \<Rightarrow> timestamp \<Rightarrow> 'a workflow_db_scheme \<Rightarrow> ('a workflow_db_scheme, workflow_record option) outcome" where
  "workflow_record_launch k pid version token gen identity now =
     conditional_update_workflow k [W_launcher_pid (Some pid), W_launcher_identity identity, W_heartbeat_at (Some now)]
       (workflow_guard0\<lparr>wg_statuses := Some [WS_QUEUED, WS_RUNNING], wg_state_version := Some version, wg_lease_token := Some token,
          wg_lease_generation := Some gen, wg_reject_terminal := True\<rparr>) now"

text \<open>\<open>current.started_at or now\<close> is read before the update, in a transaction of its own; \<open>start\<close> is that value.\<close>

definition workflow_claim_write ::
  "string \<Rightarrow> string \<Rightarrow> int \<Rightarrow> int \<Rightarrow> int \<Rightarrow> string \<Rightarrow> timestamp \<Rightarrow> timestamp \<Rightarrow> 'a workflow_db_scheme \<Rightarrow> ('a workflow_db_scheme, bool) outcome" where
  "workflow_claim_write k token gen version pid identity start now db =
     (case conditional_update_workflow k
         [W_status WS_RUNNING, W_worker_pid (Some pid), W_worker_identity identity, W_worker_claimed_at (Some now),
          W_started_at (Some start), W_heartbeat_at (Some now)]
         (workflow_guard0\<lparr>wg_statuses := Some [WS_QUEUED], wg_state_version := Some version, wg_lease_token := Some token,
            wg_lease_generation := Some gen, wg_reject_terminal := True\<rparr>) now db of
        (Inl e, db') \<Rightarrow> (Inl e, db') | (Inr u, db') \<Rightarrow> (Inr (u \<noteq> None), db'))"

definition workflow_claim_worker ::
  "string \<Rightarrow> string \<Rightarrow> int \<Rightarrow> int \<Rightarrow> int \<Rightarrow> string \<Rightarrow> timestamp \<Rightarrow> 'a workflow_db_scheme \<Rightarrow> ('a workflow_db_scheme, bool) outcome" where
  "workflow_claim_worker k token gen version pid identity now db =
     (case get_workflow k db of
        Inl e \<Rightarrow> (Inl e, db)
      | Inr current \<Rightarrow>
          let start = (case w_started_at (wr_row current) of None \<Rightarrow> now | Some t \<Rightarrow> t)
          in workflow_claim_write k token gen version pid identity start now db)"

definition workflow_heartbeat_worker ::
  "string \<Rightarrow> string \<Rightarrow> int \<Rightarrow> int \<Rightarrow> timestamp \<Rightarrow> 'a workflow_db_scheme \<Rightarrow> ('a workflow_db_scheme, bool) outcome" where
  "workflow_heartbeat_worker k token gen pid now db =
     (case conditional_update_workflow k [W_heartbeat_at (Some now), W_worker_pid (Some pid)]
         (workflow_guard0\<lparr>wg_statuses := Some [WS_RUNNING], wg_lease_token := Some token, wg_lease_generation := Some gen, wg_bump := False\<rparr>)
         now db of
        (Inl e, db') \<Rightarrow> (Inl e, db') | (Inr u, db') \<Rightarrow> (Inr (u \<noteq> None), db'))"

definition workflow_adopt_worker ::
  "string \<Rightarrow> int \<Rightarrow> string \<Rightarrow> int \<Rightarrow> timestamp option \<Rightarrow> timestamp \<Rightarrow> 'a workflow_db_scheme \<Rightarrow> ('a workflow_db_scheme, workflow_record option) outcome" where
  "workflow_adopt_worker k version token gen beat now =
     conditional_update_workflow k [W_heartbeat_at (Some now)]
       (workflow_guard0\<lparr>wg_statuses := Some [WS_RUNNING], wg_state_version := Some version, wg_lease_token := Some token,
          wg_lease_generation := Some gen, wg_heartbeat_at := Some beat, wg_reject_terminal := True\<rparr>) now"

text \<open>The number of launches is read first, as above.\<close>

definition workflow_reserve_write ::
  "string \<Rightarrow> workflow_status list \<Rightarrow> int \<Rightarrow> string \<Rightarrow> int \<Rightarrow> timestamp option \<Rightarrow> string \<Rightarrow> int \<Rightarrow> timestamp \<Rightarrow> 'a workflow_db_scheme \<Rightarrow>
   ('a workflow_db_scheme, workflow_record option) outcome" where
  "workflow_reserve_write k statuses version token gen beat new_token tries now =
     conditional_update_workflow k
       [W_status WS_QUEUED, W_launcher_pid None, W_launcher_identity [], W_worker_pid None, W_worker_lease_token new_token,
        W_lease_generation (gen + 1), W_worker_identity [], W_worker_claimed_at None, W_launch_attempts (tries + 1), W_heartbeat_at (Some now)]
       (workflow_guard0\<lparr>wg_statuses := Some statuses, wg_state_version := Some version, wg_lease_token := Some token,
          wg_lease_generation := Some gen, wg_heartbeat_at := Some beat, wg_reject_terminal := True\<rparr>) now"

definition workflow_reserve_launch ::
  "string \<Rightarrow> workflow_status list \<Rightarrow> int \<Rightarrow> string \<Rightarrow> int \<Rightarrow> timestamp option \<Rightarrow> string \<Rightarrow> timestamp \<Rightarrow> 'a workflow_db_scheme \<Rightarrow>
   ('a workflow_db_scheme, workflow_record option) outcome" where
  "workflow_reserve_launch k statuses version token gen beat new_token now db =
     (case get_workflow k db of
        Inl e \<Rightarrow> (Inl e, db)
      | Inr current \<Rightarrow>
          workflow_reserve_write k statuses version token gen beat new_token (w_launch_attempts (wr_row current)) now db)"

section \<open>Steps\<close>

definition claim_where :: "string \<Rightarrow> string \<Rightarrow> int \<Rightarrow> int option \<Rightarrow> workflow_row \<Rightarrow> bool" where
  "claim_where k token gen version r =
     (w_workflow_id r = k \<and> w_status r = WS_RUNNING \<and> w_worker_lease_token r = token \<and> w_lease_generation r = gen \<and>
      w_active_child_run_id r = None \<and> opt_is version (w_state_version r))"

definition claim_step_where :: "string \<Rightarrow> string \<Rightarrow> int option \<Rightarrow> step_row \<Rightarrow> bool" where
  "claim_step_where k i version s =
     (s_workflow_id s = k \<and> s_step_id s = i \<and> s_status s = SS_PENDING \<and> opt_is version (s_state_version s))"

definition claimed_row :: "string option \<Rightarrow> timestamp \<Rightarrow> workflow_row \<Rightarrow> workflow_row" where
  "claimed_row child now r = r\<lparr>w_active_child_run_id := child, w_updated_at := now, w_state_version := w_state_version r + 1\<rparr>"

definition claimed_step :: "string option \<Rightarrow> timestamp \<Rightarrow> step_row \<Rightarrow> step_row" where
  "claimed_step child now s = s\<lparr>s_status := SS_RUNNING, s_state_version := s_state_version s + 1, s_child_run_id := child,
     s_child_launch_attempts := s_child_launch_attempts s + (if child = None \<or> child = Some [] then 0 else 1),
     s_started_at := (case s_started_at s of None \<Rightarrow> Some now | Some t \<Rightarrow> Some t), s_summary := ''Step running'', s_error := []\<rparr>"

definition claim_step ::
  "string \<Rightarrow> string \<Rightarrow> string \<Rightarrow> int \<Rightarrow> string option \<Rightarrow> int option \<Rightarrow> int option \<Rightarrow> timestamp \<Rightarrow> 'a workflow_db_scheme \<Rightarrow>
   ('a workflow_db_scheme, workflow_record option) outcome" where
  "claim_step k i token gen child wversion sversion now db =
     (if sql_count (claim_where k token gen wversion) (workflows db) \<noteq> 1 then (Inr None, db)
      else if sql_count (claim_step_where k i sversion) (workflow_steps db) \<noteq> 1 then (Inr None, db)
      else let db' = db\<lparr>workflows := sql_update (claim_where k token gen wversion) (claimed_row child now) (workflows db),
                       workflow_steps := sql_update (claim_step_where k i sversion) (claimed_step child now) (workflow_steps db)\<rparr>
           in (case get_workflow k db' of Inl e \<Rightarrow> (Inl e, db') | Inr w \<Rightarrow> (Inr (Some w), db')))"

datatype step_field =
    S_status step_status
  | S_child_run_id "string option"
  | S_child_launch_attempts int
  | S_started_at "timestamp option"
  | S_ended_at "timestamp option"
  | S_summary string
  | S_error string
  | S_artifact_paths "string list"
  | S_result json

fun apply_step_field :: "step_field \<Rightarrow> step_row \<Rightarrow> step_row" where
  "apply_step_field (S_status v) s = s\<lparr>s_status := v\<rparr>"
| "apply_step_field (S_child_run_id v) s = s\<lparr>s_child_run_id := v\<rparr>"
| "apply_step_field (S_child_launch_attempts v) s = s\<lparr>s_child_launch_attempts := v\<rparr>"
| "apply_step_field (S_started_at v) s = s\<lparr>s_started_at := v\<rparr>"
| "apply_step_field (S_ended_at v) s = s\<lparr>s_ended_at := v\<rparr>"
| "apply_step_field (S_summary v) s = s\<lparr>s_summary := v\<rparr>"
| "apply_step_field (S_error v) s = s\<lparr>s_error := v\<rparr>"
| "apply_step_field (S_artifact_paths v) s = s\<lparr>s_artifact_paths := v\<rparr>"
| "apply_step_field (S_result v) s = s\<lparr>s_result := v\<rparr>"

definition step_set :: "step_field list \<Rightarrow> step_row \<Rightarrow> step_row" where
  "step_set fs s = (foldl (\<lambda>s f. apply_step_field f s) s fs)\<lparr>s_state_version := s_state_version s + 1\<rparr>"

definition owned_running :: "string \<Rightarrow> string \<Rightarrow> int \<Rightarrow> workflow_row \<Rightarrow> bool" where
  "owned_running k token gen r =
     (w_workflow_id r = k \<and> w_status r = WS_RUNNING \<and> w_worker_lease_token r = token \<and> w_lease_generation r = gen)"

text \<open>\<open>expected_child_run_id\<close>: \<open>None\<close> is unset, \<open>Some None\<close> asks for NULL.\<close>

record step_guard =
  sg_statuses :: "step_status list"
  sg_state_version :: "int option"
  sg_child_run_id :: "string option option"
  sg_clear_active :: bool
  sg_workflow_version :: "int option"

definition step_where :: "string \<Rightarrow> string \<Rightarrow> step_guard \<Rightarrow> step_row \<Rightarrow> bool" where
  "step_where k i g s =
     (s_workflow_id s = k \<and> s_step_id s = i \<and> s_status s \<in> set (sg_statuses g) \<and> opt_is (sg_state_version g) (s_state_version s) \<and>
      opt_is (sg_child_run_id g) (s_child_run_id s))"

definition step_owner_where :: "string \<Rightarrow> string \<Rightarrow> int \<Rightarrow> step_guard \<Rightarrow> workflow_row \<Rightarrow> bool" where
  "step_owner_where k token gen g r =
     (owned_running k token gen r \<and> opt_is (sg_workflow_version g) (w_state_version r) \<and>
      (sg_clear_active g \<longrightarrow> Some (w_active_child_run_id r) = sg_child_run_id g))"

definition step_owner_set :: "bool \<Rightarrow> workflow_field list \<Rightarrow> timestamp \<Rightarrow> workflow_row \<Rightarrow> workflow_row" where
  "step_owner_set clear fs now = workflow_set ((if clear then [W_active_child_run_id None] else []) @ fs) True now"

definition conditional_update_step ::
  "string \<Rightarrow> string \<Rightarrow> step_field list \<Rightarrow> string \<Rightarrow> int \<Rightarrow> step_guard \<Rightarrow> workflow_field list \<Rightarrow> timestamp \<Rightarrow> 'a workflow_db_scheme \<Rightarrow>
   ('a workflow_db_scheme, workflow_record option) outcome" where
  "conditional_update_step k i fs token gen g wfs now db =
     (if sg_statuses g = [] then (Inr None, db)
      else
        let hit = (\<lambda>s. step_where k i g s \<and> list_ex (owned_running k token gen) (workflows db));
            own = step_owner_where k token gen g
        in if sql_count hit (workflow_steps db) \<noteq> 1 then (Inr None, db)
           else if sg_clear_active g \<and> (case sg_child_run_id g of Some (Some _) \<Rightarrow> False | _ \<Rightarrow> True)
           then (Inl (ValueError ''Clearing an active child requires its expected run ID''), db)
           else if sql_count own (workflows db) \<noteq> 1 then (Inr None, db)
           else let db' = db\<lparr>workflows := sql_update own (step_owner_set (sg_clear_active g) wfs now) (workflows db),
                            workflow_steps := sql_update hit (step_set fs) (workflow_steps db)\<rparr>
                in (case get_workflow k db' of Inl e \<Rightarrow> (Inl e, db') | Inr w \<Rightarrow> (Inr (Some w), db')))"

definition reset_local_summary ::
  "string \<Rightarrow> string \<Rightarrow> int \<Rightarrow> int \<Rightarrow> string \<Rightarrow> int \<Rightarrow> timestamp \<Rightarrow> 'a workflow_db_scheme \<Rightarrow> ('a workflow_db_scheme, workflow_record option) outcome" where
  "reset_local_summary k i wversion sversion token gen now =
     conditional_update_step k i [S_status SS_PENDING, S_ended_at None, S_summary [], S_error []] token gen
       \<lparr>sg_statuses = [SS_RUNNING], sg_state_version = Some sversion, sg_child_run_id = Some None, sg_clear_active = False,
        sg_workflow_version = Some wversion\<rparr> [] now"

definition update_step ::
  "string \<Rightarrow> string \<Rightarrow> step_field list \<Rightarrow> 'a workflow_db_scheme \<Rightarrow> ('a workflow_db_scheme, workflow_record) outcome" where
  "update_step k i fs db =
     (if fs = [] then (Inl (OperationalError ''near WHERE: syntax error''), db)
      else let db' = db\<lparr>workflow_steps := sql_update (\<lambda>s. s_workflow_id s = k \<and> s_step_id s = i)
                         (\<lambda>s. foldl (\<lambda>s f. apply_step_field f s) s fs) (workflow_steps db)\<rparr>
           in (get_workflow k db', db'))"
section \<open>Cancellation, recovery and the end\<close>

definition workflow_request_cancellation ::
  "string \<Rightarrow> workflow_status list \<Rightarrow> int \<Rightarrow> string \<Rightarrow> int \<Rightarrow> json \<Rightarrow> timestamp \<Rightarrow> 'a workflow_db_scheme \<Rightarrow>
   ('a workflow_db_scheme, workflow_record option) outcome" where
  "workflow_request_cancellation k statuses version token gen doc now =
     conditional_update_workflow k
       [W_status WS_CANCELLATION_PENDING, W_result doc,
        W_failure_summary ''Cancellation requested; awaiting child and worker confirmation.'',
        W_recommended_next_action ''Retry cancellation reconciliation until all owned processes and children are terminal.'']
       (workflow_guard0\<lparr>wg_statuses := Some statuses, wg_state_version := Some version, wg_lease_token := Some token,
          wg_lease_generation := Some gen, wg_reject_terminal := True\<rparr>) now"

definition cancelled_row :: "json \<Rightarrow> timestamp \<Rightarrow> workflow_row \<Rightarrow> workflow_row" where
  "cancelled_row doc now r = r\<lparr>w_status := WS_CANCELLED, w_terminal_status := Some WS_CANCELLED, w_ended_at := Some now,
     w_active_child_run_id := None, w_worker_pid := None, w_launcher_pid := None, w_worker_identity := [], w_launcher_identity := [],
     w_result := doc, w_updated_at := now, w_state_version := w_state_version r + 1\<rparr>"

definition step_open :: "string \<Rightarrow> step_row \<Rightarrow> bool" where
  "step_open k s = (s_workflow_id s = k \<and> s_status s \<in> {SS_PENDING, SS_RUNNING})"

definition cancelled_step :: "timestamp \<Rightarrow> step_row \<Rightarrow> step_row" where
  "cancelled_step now s = s\<lparr>s_status := SS_CANCELLED, s_ended_at := Some now, s_summary := ''Cancelled by request'',
     s_error := ''Workflow cancelled'', s_state_version := s_state_version s + 1\<rparr>"

definition finalize_cancellation ::
  "string \<Rightarrow> int \<Rightarrow> string \<Rightarrow> int \<Rightarrow> json \<Rightarrow> timestamp \<Rightarrow> 'a workflow_db_scheme \<Rightarrow> ('a workflow_db_scheme, workflow_record option) outcome" where
  "finalize_cancellation k version token gen doc now db =
     (let hit = (\<lambda>r. w_workflow_id r = k \<and> w_status r = WS_CANCELLATION_PENDING \<and> w_state_version r = version \<and>
                    w_worker_lease_token r = token \<and> w_lease_generation r = gen)
      in if sql_count hit (workflows db) \<noteq> 1 then (Inr None, db)
         else let db' = db\<lparr>workflows := sql_update hit (cancelled_row doc now) (workflows db),
                          workflow_steps := sql_update (step_open k) (cancelled_step now) (workflow_steps db)\<rparr>
              in (case get_workflow k db' of Inl e \<Rightarrow> (Inl e, db') | Inr w \<Rightarrow> (Inr (Some w), db')))"

definition mark_cancellation_retry ::
  "string \<Rightarrow> int \<Rightarrow> string \<Rightarrow> int \<Rightarrow> json \<Rightarrow> string \<Rightarrow> timestamp \<Rightarrow> 'a workflow_db_scheme \<Rightarrow> ('a workflow_db_scheme, workflow_record option) outcome" where
  "mark_cancellation_retry k version token gen doc reason now =
     conditional_update_workflow k
       [W_result doc, W_failure_summary (take 4000 reason),
        W_recommended_next_action ''Retry startup reconciliation or cancellation after confirming child and worker ownership.'']
       (workflow_guard0\<lparr>wg_statuses := Some [WS_CANCELLATION_PENDING], wg_state_version := Some version, wg_lease_token := Some token,
          wg_lease_generation := Some gen\<rparr>) now"

definition workflow_mark_recovery ::
  "string \<Rightarrow> workflow_status list \<Rightarrow> int \<Rightarrow> string \<Rightarrow> int \<Rightarrow> string \<Rightarrow> timestamp \<Rightarrow> 'a workflow_db_scheme \<Rightarrow>
   ('a workflow_db_scheme, workflow_record option) outcome" where
  "workflow_mark_recovery k statuses version token gen reason now =
     conditional_update_workflow k
       [W_status WS_RECOVERY_PENDING, W_failure_summary (take 4000 reason),
        W_recommended_next_action ''Review the ownership mismatch and resolve it before retrying the workflow.'',
        W_result (JObj [(''recovery_reason'', JStr (take 4000 reason))])]
       (workflow_guard0\<lparr>wg_statuses := Some statuses, wg_state_version := Some version, wg_lease_token := Some token,
          wg_lease_generation := Some gen, wg_reject_terminal := True\<rparr>) now"

text \<open>The update that \<open>manager.py\<close> issues itself when a launch fails or the launches are exhausted.\<close>

definition workflow_fail ::
  "string \<Rightarrow> workflow_status \<Rightarrow> int \<Rightarrow> string \<Rightarrow> int \<Rightarrow> timestamp option option \<Rightarrow> string \<Rightarrow> string \<Rightarrow> timestamp \<Rightarrow> 'a workflow_db_scheme \<Rightarrow>
   ('a workflow_db_scheme, workflow_record option) outcome" where
  "workflow_fail k status version token gen beat reason action now =
     conditional_update_workflow k
       [W_status WS_FAILED, W_terminal_status (Some WS_FAILED), W_ended_at (Some now), W_failure_summary reason,
        W_recommended_next_action action]
       (workflow_guard0\<lparr>wg_statuses := Some [status], wg_state_version := Some version, wg_lease_token := Some token,
          wg_lease_generation := Some gen, wg_heartbeat_at := beat, wg_reject_terminal := True\<rparr>) now"

definition workflow_transition_terminal ::
  "string \<Rightarrow> workflow_status \<Rightarrow> int \<Rightarrow> string \<Rightarrow> int \<Rightarrow> string \<Rightarrow> string \<Rightarrow> timestamp \<Rightarrow> 'a workflow_db_scheme \<Rightarrow>
   ('a workflow_db_scheme, workflow_record option) outcome" where
  "workflow_transition_terminal k status version token gen summary action now db =
     (if \<not> workflow_over status \<or> status = WS_REPORTED
      then (Inl (ValueError (''Not a workflow terminal source status: '' @ workflow_status_value status)), db)
      else conditional_update_workflow k
        [W_status status, W_terminal_status (Some status), W_ended_at (Some now), W_active_child_run_id None, W_failure_summary summary,
         W_recommended_next_action action]
        (workflow_guard0\<lparr>wg_statuses := Some [WS_RUNNING], wg_state_version := Some version, wg_lease_token := Some token,
           wg_lease_generation := Some gen, wg_reject_terminal := True\<rparr>) now db)"

text \<open>\<open>WorkflowStore.cancel_workflow\<close> and \<open>mark_reported\<close> have no caller in the package.\<close>

definition store_cancelled_row :: "json \<Rightarrow> timestamp \<Rightarrow> workflow_row \<Rightarrow> workflow_row" where
  "store_cancelled_row doc now r = r\<lparr>w_status := WS_CANCELLED, w_terminal_status := Some WS_CANCELLED, w_ended_at := Some now,
     w_active_child_run_id := None, w_failure_summary := str_or (w_failure_summary r) ''Workflow cancelled'',
     w_recommended_next_action := ''Review completed work and restart only if needed.'', w_result := doc, w_updated_at := now,
     w_state_version := w_state_version r + 1\<rparr>"

definition store_cancelled_step :: "timestamp \<Rightarrow> step_row \<Rightarrow> step_row" where
  "store_cancelled_step now s = s\<lparr>s_status := SS_CANCELLED, s_ended_at := Some now,
     s_summary := (if s_status s = SS_RUNNING then ''Cancelled by request'' else ''Cancelled before execution''),
     s_error := (if s_status s = SS_RUNNING then ''Workflow cancelled'' else ''Workflow cancelled before execution''),
     s_state_version := s_state_version s + 1\<rparr>"

definition store_cancel_workflow ::
  "string \<Rightarrow> workflow_status list \<Rightarrow> int \<Rightarrow> string \<Rightarrow> int \<Rightarrow> json \<Rightarrow> timestamp \<Rightarrow> 'a workflow_db_scheme \<Rightarrow>
   ('a workflow_db_scheme, workflow_record option) outcome" where
  "store_cancel_workflow k statuses version token gen doc now db =
     (if statuses = [] then (Inr None, db)
      else
        let hit = (\<lambda>r. w_workflow_id r = k \<and> w_state_version r = version \<and> w_worker_lease_token r = token \<and>
                      w_lease_generation r = gen \<and> w_status r \<in> set statuses)
        in if sql_count hit (workflows db) \<noteq> 1 then (Inr None, db)
           else let db' = db\<lparr>workflows := sql_update hit (store_cancelled_row doc now) (workflows db),
                            workflow_steps := sql_update (step_open k) (store_cancelled_step now) (workflow_steps db)\<rparr>
                in (case get_workflow k db' of Inl e \<Rightarrow> (Inl e, db') | Inr w \<Rightarrow> (Inr (Some w), db')))"

definition mark_reported ::
  "string \<Rightarrow> workflow_status \<Rightarrow> int \<Rightarrow> workflow_status \<Rightarrow> string list \<Rightarrow> timestamp \<Rightarrow> 'a workflow_db_scheme \<Rightarrow>
   ('a workflow_db_scheme, workflow_record option) outcome" where
  "mark_reported k status version terminal paths now =
     conditional_update_workflow k [W_status WS_REPORTED, W_terminal_status (Some terminal), W_artifact_paths paths]
       (workflow_guard0\<lparr>wg_statuses := Some [status], wg_state_version := Some version\<rparr>) now"

section \<open>Publication\<close>

definition begin_publication ::
  "string \<Rightarrow> workflow_status \<Rightarrow> int \<Rightarrow> string \<Rightarrow> timestamp \<Rightarrow> 'a workflow_db_scheme \<Rightarrow> ('a workflow_db_scheme, workflow_record option) outcome" where
  "begin_publication k status version hash now =
     conditional_update_workflow k [W_publication_status ''publishing'', W_publication_hash hash, W_publication_error []]
       (workflow_guard0\<lparr>wg_statuses := Some [status], wg_state_version := Some version\<rparr>) now"

definition mark_publication_complete ::
  "string \<Rightarrow> workflow_status \<Rightarrow> int \<Rightarrow> string \<Rightarrow> workflow_status \<Rightarrow> string list \<Rightarrow> timestamp \<Rightarrow> 'a workflow_db_scheme \<Rightarrow>
   ('a workflow_db_scheme, workflow_record option) outcome" where
  "mark_publication_complete k status version hash terminal paths now =
     conditional_update_workflow k
       [W_status WS_REPORTED, W_terminal_status (Some terminal), W_artifact_paths paths, W_publication_status ''published'',
        W_published_at (Some now), W_publication_error []]
       (workflow_guard0\<lparr>wg_statuses := Some [status], wg_state_version := Some version, wg_publication_status := Some ''publishing'',
          wg_publication_hash := Some hash\<rparr>) now"

definition mark_publication_failed ::
  "string \<Rightarrow> workflow_status \<Rightarrow> int \<Rightarrow> string \<Rightarrow> string \<Rightarrow> timestamp \<Rightarrow> 'a workflow_db_scheme \<Rightarrow> ('a workflow_db_scheme, workflow_record option) outcome" where
  "mark_publication_failed k status version hash error now =
     conditional_update_workflow k [W_publication_status ''failed'', W_publication_error (take 4000 error)]
       (workflow_guard0\<lparr>wg_statuses := Some [status], wg_state_version := Some version, wg_publication_status := Some ''publishing'',
          wg_publication_hash := Some hash\<rparr>) now"

section \<open>Events and lists\<close>

text \<open>The owner guard of an event; without any expectation the event is written unguarded.\<close>

record event_guard =
  eg_lease_token :: "string option"
  eg_lease_generation :: "int option"
  eg_statuses :: "workflow_status list option"
  eg_state_version :: "int option"

definition unguarded :: event_guard where
  "unguarded = \<lparr>eg_lease_token = None, eg_lease_generation = None, eg_statuses = None, eg_state_version = None\<rparr>"

definition event_guard_holds :: "event_guard \<Rightarrow> workflow_row \<Rightarrow> bool" where
  "event_guard_holds g r =
     (opt_is (eg_lease_token g) (w_worker_lease_token r) \<and> opt_is (eg_lease_generation g) (w_lease_generation r) \<and>
      (case eg_statuses g of None \<Rightarrow> True | Some ss \<Rightarrow> w_status r \<in> set ss) \<and> opt_is (eg_state_version g) (w_state_version r))"

definition workflow_append_event ::
  "string \<Rightarrow> string \<Rightarrow> string \<Rightarrow> string \<Rightarrow> (string \<times> json) list \<Rightarrow> bool \<Rightarrow> event_guard \<Rightarrow> timestamp \<Rightarrow> 'a workflow_db_scheme \<Rightarrow>
   ('a workflow_db_scheme, workflow_event option) outcome" where
  "workflow_append_event k level stage message data touch g now db =
     (if level \<notin> {''info'', ''warning'', ''error''} then (Inl invalid_document, db)
      else if g \<noteq> unguarded \<and> \<not> list_ex (\<lambda>r. w_workflow_id r = k \<and> event_guard_holds g r) (workflows db) then (Inr None, db)
      else if workflow_by_id k db = None then (Inl (IntegrityError ''FOREIGN KEY constraint failed''), db)
      else
        let ev = \<lparr>we_id = workflow_event_seq db + 1, we_workflow_id = k, we_timestamp = now, we_level = level, we_stage = stage,
                  we_message = message, we_data = data\<rparr>;
            beat = (\<lambda>r. r\<lparr>w_heartbeat_at := Some now, w_updated_at := now\<rparr>);
            db1 = db\<lparr>workflow_events := workflow_events db @ [ev], workflow_event_seq := workflow_event_seq db + 1\<rparr>
        in (Inr (Some ev), if touch then db1\<lparr>workflows := sql_update (\<lambda>r. w_workflow_id r = k) beat (workflows db1)\<rparr> else db1))"

definition get_workflow_events :: "string \<Rightarrow> int \<Rightarrow> 'a workflow_db_scheme \<Rightarrow> workflow_event list" where
  "get_workflow_events k limit db =
     (let bounded = nat (max 1 (min limit 500)); mine = sort_key we_id (filter (\<lambda>e. we_workflow_id e = k) (workflow_events db))
      in drop (length mine - bounded) mine)"

definition iter_recoverable_workflows :: "'a workflow_db_scheme \<Rightarrow> workflow_record list" where
  "iter_recoverable_workflows db =
     map (\<lambda>r. hydrate_workflow r (steps_of (w_workflow_id r) db))
       (sort_key w_created_at (filter (\<lambda>r. w_status r \<noteq> WS_CREATED) (workflows db)))"


end
