(* ===== verification/Workflow_Guarantees.thy ===== *)
theory Workflow_Guarantees
  imports Workflow_Store Workflow_Graph System_Steps
begin

text \<open>
  What the workflow store guarantees. \<open>workflow_step\<close> is every transaction that the manager, the worker and the publication issue, under
  the conditions they have read before; \<open>wf_workflows\<close> is the invariant of the tables and \<open>workflow_advances\<close> what never goes back. Four
  operations of the store have no caller in the package (\<open>update_workflow\<close>, \<open>update_step\<close>, \<open>mark_reported\<close>, \<open>cancel_workflow\<close>) and are not
  among the steps; events are always appended without touching the row.
\<close>

section \<open>Facts about a workflow\<close>

definition step_by_key :: "string \<Rightarrow> string \<Rightarrow> 'a workflow_db_scheme \<Rightarrow> step_row option" where
  "step_by_key k i db = by_key step_key (k, i) (workflow_steps db)"

definition deps_passed :: "string \<Rightarrow> string list \<Rightarrow> 'a workflow_db_scheme \<Rightarrow> bool" where
  "deps_passed k ds db = (\<forall>d \<in> set ds. \<exists>q. step_by_key k d db = Some q \<and> s_status q = SS_PASSED)"

definition dep_failed :: "string \<Rightarrow> string list \<Rightarrow> 'a workflow_db_scheme \<Rightarrow> bool" where
  "dep_failed k ds db = (\<exists>d \<in> set ds. \<exists>q. step_by_key k d db = Some q \<and> s_status q \<in> {SS_FAILED, SS_SKIPPED, SS_CANCELLED})"

definition steps_over :: "string \<Rightarrow> 'a workflow_db_scheme \<Rightarrow> bool" where
  "steps_over k db = (\<forall>s \<in> set (workflow_steps db). \<not> step_open k s)"

definition child_completed :: "string \<Rightarrow> 'a run_db_scheme \<Rightarrow> bool" where
  "child_completed c db = (\<exists>r. run_by_id c db = Some r \<and> r_status r = ''completed'')"

section \<open>The transactions\<close>

inductive workflow_step :: "'a workflow_db_scheme \<Rightarrow> 'a workflow_db_scheme \<Rightarrow> bool" where
  create: "validate_graph ds = Inr () \<Longrightarrow> workflow_step db (snd (create_workflow k repo objective ds WS_QUEUED token 1 tries now db))"
| launch: "workflow_step db (snd (workflow_record_launch k pid version token gen identity now db))"
| claim: "workflow_step db (snd (workflow_claim_write k token gen version pid identity start now db))"
| beat: "workflow_step db (snd (workflow_heartbeat_worker k token gen pid now db))"
| adopt: "workflow_step db (snd (workflow_adopt_worker k version token gen beat now db))"
| reserve: "workflow_step db (snd (workflow_reserve_write k statuses version token gen beat new_token tries now db))"
| claim_step: "(\<And>s. step_by_key k i db = Some s \<Longrightarrow> deps_passed k (s_depends_on s) db \<and> (s_type s = ST_LOCAL_SUMMARY \<longleftrightarrow> child = None)) \<Longrightarrow>
    workflow_step db (snd (claim_step k i token gen child wv sv now db))"
| finish: "child_completed c db \<Longrightarrow>
    workflow_step db (snd (conditional_update_step k i [S_status SS_PASSED, S_ended_at ended, S_summary summary, S_error error, S_result result]
      token gen \<lparr>sg_statuses = [SS_RUNNING], sg_state_version = sv, sg_child_run_id = Some (Some c), sg_clear_active = True, sg_workflow_version = wv\<rparr>
      [] now db))"
| fail_step: "workflow_step db (snd (conditional_update_step k i [S_status SS_FAILED, S_ended_at ended, S_summary summary, S_error error, S_result result]
      token gen \<lparr>sg_statuses = [SS_RUNNING], sg_state_version = sv, sg_child_run_id = Some c, sg_clear_active = (c \<noteq> None), sg_workflow_version = wv\<rparr>
      [W_failure_summary reason] now db))"
| skip: "(\<And>s. step_by_key k i db = Some s \<Longrightarrow> dep_failed k (s_depends_on s) db) \<Longrightarrow>
    workflow_step db (snd (conditional_update_step k i [S_status SS_SKIPPED, S_ended_at ended, S_summary summary, S_error error]
      token gen \<lparr>sg_statuses = [SS_PENDING], sg_state_version = sv, sg_child_run_id = Some None, sg_clear_active = False, sg_workflow_version = wv\<rparr>
      [] now db))"
| summary: "workflow_step db (snd (conditional_update_step k i
      [S_status SS_PASSED, S_ended_at ended, S_summary summary, S_artifact_paths paths, S_result result]
      token gen \<lparr>sg_statuses = [SS_RUNNING], sg_state_version = sv, sg_child_run_id = Some None, sg_clear_active = False, sg_workflow_version = wv\<rparr>
      [W_artifact_paths paths'] now db))"
| record_result: "workflow_step db (snd (conditional_update_step k i [S_result result]
      token gen \<lparr>sg_statuses = [SS_RUNNING], sg_state_version = sv, sg_child_run_id = Some (Some c), sg_clear_active = False, sg_workflow_version = wv\<rparr>
      [] now db))"
| reset: "workflow_step db (snd (reset_local_summary k i wversion sversion token gen now db))"
| request: "workflow_step db (snd (workflow_request_cancellation k statuses version token gen doc now db))"
| finalize: "workflow_step db (snd (finalize_cancellation k version token gen doc now db))"
| retry: "workflow_step db (snd (mark_cancellation_retry k version token gen doc reason now db))"
| recovery: "workflow_step db (snd (workflow_mark_recovery k statuses version token gen reason now db))"
| fail: "workflow_step db (snd (workflow_fail k status version token gen beat' reason action now db))"
| transition: "(status = WS_COMPLETED \<Longrightarrow> steps_over k db) \<Longrightarrow>
    workflow_step db (snd (workflow_transition_terminal k status version token gen summary action now db))"
| publish: "workflow_step db (snd (begin_publication k status version hash now db))"
| published: "(\<And>r. workflow_by_id k db = Some r \<Longrightarrow> w_terminal_status r = Some terminal) \<Longrightarrow>
    workflow_step db (snd (mark_publication_complete k status version hash terminal paths now db))"
| unpublished: "workflow_step db (snd (mark_publication_failed k status version hash error now db))"
| event: "workflow_step db (snd (workflow_append_event k level stage message data False g now db))"

section \<open>The invariant\<close>

text \<open>A workflow has a terminal status exactly when it is over.\<close>

definition row_ok :: "workflow_row \<Rightarrow> bool" where
  "row_ok r = (case w_terminal_status r of
     None \<Rightarrow> \<not> workflow_over (w_status r)
   | Some st \<Rightarrow> workflow_over st \<and> st \<noteq> WS_REPORTED \<and> w_status r \<in> {st, WS_REPORTED})"

text \<open>A step is where the steps before it allow it to be, and an external step passes only with its own run.\<close>

definition external :: "step_row \<Rightarrow> bool" where
  "external s = (s_type s \<noteq> ST_LOCAL_SUMMARY)"

definition step_ok :: "'a workflow_db_scheme \<Rightarrow> step_row \<Rightarrow> bool" where
  "step_ok db s =
     ((\<forall>d \<in> set (s_depends_on s). \<exists>q. step_by_key (s_workflow_id s) d db = Some q \<and> s_order_index q < s_order_index s) \<and>
      (s_status s \<in> {SS_RUNNING, SS_PASSED, SS_FAILED} \<longrightarrow> deps_passed (s_workflow_id s) (s_depends_on s) db) \<and>
      (s_status s = SS_PASSED \<and> external s \<longrightarrow> (\<exists>c. s_child_run_id s = Some c \<and> child_completed c db)) \<and>
      (s_status s = SS_SKIPPED \<longrightarrow> dep_failed (s_workflow_id s) (s_depends_on s) db) \<and>
      (s_status s = SS_RUNNING \<longrightarrow> (external s \<longleftrightarrow> s_child_run_id s \<noteq> None)))"

text \<open>The active child belongs to the one external step that is running.\<close>

definition holds_child :: "string \<Rightarrow> step_row \<Rightarrow> bool" where
  "holds_child k s = (s_workflow_id s = k \<and> s_status s = SS_RUNNING \<and> external s)"

definition owned :: "workflow_row \<Rightarrow> step_row list \<Rightarrow> bool" where
  "owned r ss =
     (workflow_over (w_status r) \<or>
      (\<forall>c. w_active_child_run_id r = Some c \<longrightarrow> (\<exists>s \<in> set ss. holds_child (w_workflow_id r) s)) \<and>
      (\<forall>s \<in> set ss. holds_child (w_workflow_id r) s \<longrightarrow> s_child_run_id s = w_active_child_run_id r) \<and>
      (\<forall>s \<in> set ss. \<forall>t \<in> set ss. holds_child (w_workflow_id r) s \<longrightarrow> holds_child (w_workflow_id r) t \<longrightarrow> s = t))"

definition wf_workflows :: "'a workflow_db_scheme \<Rightarrow> bool" where
  "wf_workflows db =
     (unique_key w_workflow_id (workflows db) \<and> unique_key step_key (workflow_steps db) \<and>
      (\<forall>s \<in> set (workflow_steps db). workflow_by_id (s_workflow_id s) db \<noteq> None \<and> step_ok db s) \<and>
      (\<forall>r \<in> set (workflows db). row_ok r \<and> owned r (workflow_steps db) \<and>
         (w_terminal_status r = Some WS_COMPLETED \<longrightarrow> steps_over (w_workflow_id r) db)))"

section \<open>What never goes back\<close>

text \<open>The outcome of a workflow.\<close>

definition workflow_outcome ::
  "workflow_row \<Rightarrow> workflow_status option \<times> timestamp option \<times> string \<times> string \<times> json \<times> string option" where
  "workflow_outcome r = (w_terminal_status r, w_ended_at r, w_failure_summary r, w_recommended_next_action r, w_result r, w_active_child_run_id r)"

definition workflow_row_advances :: "workflow_row \<Rightarrow> workflow_row \<Rightarrow> bool" where
  "workflow_row_advances r r' =
     (w_workflow_id r' = w_workflow_id r \<and> w_repo_name r' = w_repo_name r \<and> w_objective r' = w_objective r \<and>
      w_created_at r' = w_created_at r \<and> w_state_version r \<le> w_state_version r' \<and> w_lease_generation r \<le> w_lease_generation r' \<and>
      (w_lease_generation r' = w_lease_generation r \<longrightarrow> w_worker_lease_token r' = w_worker_lease_token r) \<and>
      (workflow_over (w_status r) \<longrightarrow> workflow_outcome r' = workflow_outcome r \<and> w_status r' \<in> {w_status r, WS_REPORTED}))"

definition step_identity :: "step_row \<Rightarrow> string \<times> string \<times> nat \<times> step_type \<times> (string \<times> json) list \<times> string list \<times> step_on_failure" where
  "step_identity s = (s_workflow_id s, s_step_id s, s_order_index s, s_type s, s_parameters s, s_depends_on s, s_on_failure s)"

definition step_row_advances :: "step_row \<Rightarrow> step_row \<Rightarrow> bool" where
  "step_row_advances s s' =
     (step_identity s' = step_identity s \<and> s_state_version s \<le> s_state_version s' \<and>
      (\<not> step_open (s_workflow_id s) s \<longrightarrow> s' = s) \<and> (s_state_version s' = s_state_version s \<longrightarrow> s' = s))"

definition workflow_advances :: "'a workflow_db_scheme \<Rightarrow> 'a workflow_db_scheme \<Rightarrow> bool" where
  "workflow_advances db db' =
     ((\<forall>k r. workflow_by_id k db = Some r \<longrightarrow> (\<exists>r'. workflow_by_id k db' = Some r' \<and> workflow_row_advances r r')) \<and>
      (\<forall>k i s. step_by_key k i db = Some s \<longrightarrow> (\<exists>s'. step_by_key k i db' = Some s' \<and> step_row_advances s s' \<and>
         (\<forall>r. workflow_by_id k db = Some r \<longrightarrow> workflow_over (w_status r) \<longrightarrow> s' = s))) \<and>
      (\<forall>k i. workflow_by_id k db \<noteq> None \<longrightarrow> step_by_key k i db = None \<longrightarrow> step_by_key k i db' = None))"

lemma workflow_row_refl [simp]: "workflow_row_advances r r"
  by (simp add: workflow_row_advances_def)

lemma step_row_advances_refl [simp]: "step_row_advances s s"
  by (simp add: step_row_advances_def)

lemma workflow_row_advances_trans:
  assumes "workflow_row_advances a b" "workflow_row_advances b c"
  shows "workflow_row_advances a c"
proof -
  have "workflow_over WS_REPORTED" by code_simp
  then show ?thesis using assms unfolding workflow_row_advances_def by (auto simp: workflow_outcome_def)
qed

lemma over_stays: "workflow_row_advances a b \<Longrightarrow> workflow_over (w_status a) \<Longrightarrow> workflow_over (w_status b)"
  by (auto simp: workflow_row_advances_def workflow_over_def WORKFLOW_TERMINAL_STATUSES_def)

lemma step_row_advances_trans:
  assumes "step_row_advances a b" "step_row_advances b c"
  shows "step_row_advances a c"
proof -
  have key: "s_workflow_id b = s_workflow_id a" using assms(1) by (simp add: step_row_advances_def step_identity_def)
  have "c = a" if "s_state_version c = s_state_version a"
  proof -
    have "s_state_version b = s_state_version a" using that assms by (simp add: step_row_advances_def)
    then have "b = a" using assms(1) by (simp add: step_row_advances_def)
    then show ?thesis using that assms(2) by (simp add: step_row_advances_def)
  qed
  then show ?thesis using assms key unfolding step_row_advances_def by auto
qed

lemma workflow_advances_refl [simp]: "workflow_advances db db"
  by (auto simp: workflow_advances_def)

lemma advancesD:
  assumes "workflow_advances db db'"
  shows "workflow_by_id k db = Some r \<Longrightarrow> \<exists>r'. workflow_by_id k db' = Some r' \<and> workflow_row_advances r r'"
    and "step_by_key k i db = Some s \<Longrightarrow> \<exists>s'. step_by_key k i db' = Some s' \<and> step_row_advances s s' \<and>
       (\<forall>r. workflow_by_id k db = Some r \<longrightarrow> workflow_over (w_status r) \<longrightarrow> s' = s)"
    and "workflow_by_id k db \<noteq> None \<Longrightarrow> step_by_key k i db = None \<Longrightarrow> step_by_key k i db' = None"
  using assms unfolding workflow_advances_def by blast+

lemma workflow_advances_trans:
  assumes ab: "workflow_advances a b" and bc: "workflow_advances b c"
  shows "workflow_advances a c"
  unfolding workflow_advances_def
proof (intro conjI allI impI)
  fix k r assume "workflow_by_id k a = Some r"
  then show "\<exists>r'. workflow_by_id k c = Some r' \<and> workflow_row_advances r r'"
    using advancesD(1) [OF ab] advancesD(1) [OF bc] workflow_row_advances_trans by blast
next
  fix k i s assume s: "step_by_key k i a = Some s"
  from advancesD(2) [OF ab s] obtain s1 where s1: "step_by_key k i b = Some s1" "step_row_advances s s1"
      "\<forall>r. workflow_by_id k a = Some r \<longrightarrow> workflow_over (w_status r) \<longrightarrow> s1 = s" by blast
  from advancesD(2) [OF bc s1(1)] obtain s2 where s2: "step_by_key k i c = Some s2" "step_row_advances s1 s2"
      "\<forall>r. workflow_by_id k b = Some r \<longrightarrow> workflow_over (w_status r) \<longrightarrow> s2 = s1" by blast
  have "s2 = s" if r: "workflow_by_id k a = Some r" "workflow_over (w_status r)" for r
  proof -
    obtain r1 where "workflow_by_id k b = Some r1" "workflow_row_advances r r1" using advancesD(1) [OF ab r(1)] by blast
    then have "s2 = s1" using s2(3) over_stays r(2) by blast
    then show ?thesis using s1(3) r by blast
  qed
  then show "\<exists>s'. step_by_key k i c = Some s' \<and> step_row_advances s s' \<and>
      (\<forall>r. workflow_by_id k a = Some r \<longrightarrow> workflow_over (w_status r) \<longrightarrow> s' = s)"
    using s2(1) step_row_advances_trans [OF s1(2) s2(2)] by blast
next
  fix k i assume "workflow_by_id k a \<noteq> None" "step_by_key k i a = None"
  then show "step_by_key k i c = None"
    using advancesD(1) [OF ab] advancesD(3) [OF ab] advancesD(3) [OF bc] by (metis not_None_eq option.distinct(1))
qed

section \<open>Facts that stay\<close>

lemma step_by_key_in: "step_by_key k i db = Some s \<Longrightarrow> s \<in> set (workflow_steps db) \<and> s_workflow_id s = k \<and> s_step_id s = i"
  using by_key_Some_in [of step_key "(k, i)" "workflow_steps db" s] by_key_Some_key [of step_key "(k, i)" "workflow_steps db" s]
  by (simp add: step_by_key_def step_key_def)

lemma step_in_by_key: "unique_key step_key (workflow_steps db) \<Longrightarrow> s \<in> set (workflow_steps db) \<Longrightarrow> step_by_key (s_workflow_id s) (s_step_id s) db = Some s"
  unfolding step_by_key_def using by_key_unique [of step_key "workflow_steps db" s] by (simp add: step_key_def)

lemma workflow_by_id_in: "workflow_by_id k db = Some r \<Longrightarrow> r \<in> set (workflows db) \<and> w_workflow_id r = k"
  using by_key_Some_in [of w_workflow_id k "workflows db" r] by_key_Some_key [of w_workflow_id k "workflows db" r]
  by (simp add: workflow_by_id_def)

lemma workflow_in_by_id: "unique_key w_workflow_id (workflows db) \<Longrightarrow> r \<in> set (workflows db) \<Longrightarrow> workflow_by_id (w_workflow_id r) db = Some r"
  unfolding workflow_by_id_def by (rule by_key_unique)

lemma closed_step_stays:
  assumes "workflow_advances db db'" "step_by_key k i db = Some s" "\<not> step_open k s"
  shows "step_by_key k i db' = Some s"
  using advancesD(2) [OF assms(1,2)] assms(3) step_by_key_in [OF assms(2)] by (auto simp: step_row_advances_def)

lemma status_stays:
  assumes "workflow_advances db db'" "\<exists>q. step_by_key k d db = Some q \<and> s_status q \<in> S" "S \<inter> {SS_PENDING, SS_RUNNING} = {}"
  shows "\<exists>q. step_by_key k d db' = Some q \<and> s_status q \<in> S"
proof -
  obtain q where q: "step_by_key k d db = Some q" "s_status q \<in> S" using assms(2) by blast
  then have "\<not> step_open k q" using assms(3) by (auto simp: step_open_def)
  then show ?thesis using closed_step_stays [OF assms(1) q(1)] q(2) by blast
qed

lemma deps_passed_stays: "workflow_advances db db' \<Longrightarrow> deps_passed k ds db \<Longrightarrow> deps_passed k ds db'"
  unfolding deps_passed_def using status_stays [of db db' k _ "{SS_PASSED}"] by simp

lemma dep_failed_stays:
  assumes "workflow_advances db db'" "dep_failed k ds db"
  shows "dep_failed k ds db'"
proof -
  obtain d where d: "d \<in> set ds" "\<exists>q. step_by_key k d db = Some q \<and> s_status q \<in> {SS_FAILED, SS_SKIPPED, SS_CANCELLED}"
    using assms(2) unfolding dep_failed_def by blast
  show ?thesis unfolding dep_failed_def using status_stays [OF assms(1) d(2)] d(1) by (intro bexI) simp_all
qed

lemma child_completed_stays:
  assumes "db_advances db db'" "child_completed c db"
  shows "child_completed c db'"
proof -
  obtain r where r: "run_by_id c db = Some r" "r_status r = ''completed''" using assms(2) by (auto simp: child_completed_def)
  obtain r' where r': "run_by_id c db' = Some r'" "row_advances r r'" using db_advancesD [OF assms(1) r(1)] by blast
  have "is_terminal ''completed''" by code_simp
  then have "outcome_of r' = outcome_of r" using r(2) r'(2) by (simp add: row_advances_def)
  then have "r_status r' = ''completed''" using outcome_status [of r' r] r(2) by simp
  then show ?thesis using r'(1) by (simp add: child_completed_def)
qed

lemma steps_over_stays:
  assumes "workflow_advances db db'" "steps_over k db" "workflow_by_id k db \<noteq> None" "unique_key step_key (workflow_steps db)"
    "unique_key step_key (workflow_steps db')"
  shows "steps_over k db'"
  unfolding steps_over_def
proof
  fix s assume s: "s \<in> set (workflow_steps db')"
  show "\<not> step_open k s"
  proof (cases "s_workflow_id s = k")
    case True
    then have new: "step_by_key k (s_step_id s) db' = Some s" using step_in_by_key [OF assms(5) s] by simp
    then obtain q where q: "step_by_key k (s_step_id s) db = Some q" using advancesD(3) [OF assms(1,3)] by (metis not_None_eq option.distinct(1))
    then have "\<not> step_open k q" using assms(2) step_by_key_in unfolding steps_over_def by blast
    then have "q = s" using closed_step_stays [OF assms(1) q] new by simp
    then show ?thesis using \<open>\<not> step_open k q\<close> by simp
  qed (simp add: step_open_def)
qed

section \<open>Tables that change row by row\<close>

lemma by_key_map:
  "(\<And>r. r \<in> set rows \<Longrightarrow> key (F r) = key r) \<Longrightarrow> by_key key k (map F rows) = map_option F (by_key key k rows)"
  by (induction rows) auto

lemma unique_key_map: "(\<And>r. r \<in> set rows \<Longrightarrow> key (F r) = key r) \<Longrightarrow> unique_key key (map F rows) = unique_key key rows"
  unfolding unique_key_def by (metis (no_types, lifting) comp_apply map_eq_conv map_map)

text \<open>What a step may become.\<close>

definition moved_ok :: "'a workflow_db_scheme \<Rightarrow> step_row \<Rightarrow> bool" where
  "moved_ok db s =
     ((s_status s \<in> {SS_RUNNING, SS_PASSED, SS_FAILED} \<longrightarrow> deps_passed (s_workflow_id s) (s_depends_on s) db) \<and>
      (s_status s = SS_PASSED \<and> external s \<longrightarrow> (\<exists>c. s_child_run_id s = Some c \<and> child_completed c db)) \<and>
      (s_status s = SS_SKIPPED \<longrightarrow> dep_failed (s_workflow_id s) (s_depends_on s) db) \<and>
      (s_status s = SS_RUNNING \<longrightarrow> (external s \<longleftrightarrow> s_child_run_id s \<noteq> None)))"

lemma step_ok_moved: "step_ok db s \<Longrightarrow> moved_ok db s"
  by (simp add: step_ok_def moved_ok_def)

lemma moved_ok_stays:
  assumes "moved_ok db s" "workflow_advances db db'" "db_advances db db'"
  shows "moved_ok db' s"
  using assms(1) deps_passed_stays [OF assms(2)] dep_failed_stays [OF assms(2)] child_completed_stays [OF assms(3)]
  unfolding moved_ok_def by blast

lemma deps_earlier_stays:
  assumes "workflow_advances db db'" "step_by_key k d db = Some q \<and> s_order_index q < n"
  shows "\<exists>q. step_by_key k d db' = Some q \<and> s_order_index q < n"
  using advancesD(2) [OF assms(1), of k d q] assms(2) by (auto simp: step_row_advances_def step_identity_def)

lemma step_ok_stays:
  assumes "step_ok db s" "workflow_advances db db'" "db_advances db db'" "moved_ok db' s'" "step_identity s' = step_identity s"
  shows "step_ok db' s'"
proof -
  have same: "s_workflow_id s' = s_workflow_id s" "s_depends_on s' = s_depends_on s" "s_order_index s' = s_order_index s"
    using assms(5) by (simp_all add: step_identity_def)
  have "\<exists>q. step_by_key (s_workflow_id s') d db' = Some q \<and> s_order_index q < s_order_index s'" if d: "d \<in> set (s_depends_on s')" for d
  proof -
    obtain q where q: "step_by_key (s_workflow_id s) d db = Some q \<and> s_order_index q < s_order_index s"
      using assms(1) d same by (auto simp: step_ok_def)
    then show ?thesis using deps_earlier_stays [OF assms(2)] same by simp
  qed
  then show ?thesis using assms(4) by (simp add: step_ok_def moved_ok_def)
qed

lemma mapped_step:
  fixes db db' :: "'a workflow_db_scheme"
  assumes wf: "wf_workflows db" and runs: "db_advances db db'"
    and ws: "workflows db' = map F (workflows db)" and ss: "workflow_steps db' = map G (workflow_steps db)"
    and row: "\<And>r. r \<in> set (workflows db) \<Longrightarrow> workflow_row_advances r (F r) \<and> row_ok (F r)"
    and step: "\<And>s. s \<in> set (workflow_steps db) \<Longrightarrow> step_row_advances s (G s) \<and> moved_ok db (G s)"
    and over: "\<And>r s. r \<in> set (workflows db) \<Longrightarrow> s \<in> set (workflow_steps db) \<Longrightarrow> s_workflow_id s = w_workflow_id r \<Longrightarrow>
      workflow_over (w_status r) \<Longrightarrow> G s = s"
    and own: "\<And>r. r \<in> set (workflows db) \<Longrightarrow> owned (F r) (workflow_steps db')"
    and fin: "\<And>r. r \<in> set (workflows db) \<Longrightarrow> w_terminal_status (F r) = Some WS_COMPLETED \<Longrightarrow>
      w_terminal_status r = Some WS_COMPLETED \<or> steps_over (w_workflow_id r) db"
  shows "wf_workflows db' \<and> workflow_advances db db'"
proof -
  have key: "w_workflow_id (F r) = w_workflow_id r" if "r \<in> set (workflows db)" for r
    using row [OF that] by (simp add: workflow_row_advances_def)
  have skey: "step_identity (G s) = step_identity s" "step_key (G s) = step_key s" "s_workflow_id (G s) = s_workflow_id s"
    if "s \<in> set (workflow_steps db)" for s
    using step [OF that] by (auto simp: step_row_advances_def step_identity_def step_key_def)
  have wl: "workflow_by_id k db' = map_option F (workflow_by_id k db)" for k
    unfolding workflow_by_id_def ws by (rule by_key_map) (rule key)
  have sl: "step_by_key k i db' = map_option G (step_by_key k i db)" for k i
    unfolding step_by_key_def ss by (rule by_key_map) (rule skey)
  have adv: "workflow_advances db db'"
    unfolding workflow_advances_def
  proof (intro conjI allI impI)
    fix k r assume "workflow_by_id k db = Some r"
    then show "\<exists>r'. workflow_by_id k db' = Some r' \<and> workflow_row_advances r r'" using wl row workflow_by_id_in by fastforce
  next
    fix k i s assume s: "step_by_key k i db = Some s"
    have "G s = s" if "workflow_by_id k db = Some r" "workflow_over (w_status r)" for r
      using over [of r s] that workflow_by_id_in [OF that(1)] step_by_key_in [OF s] by simp
    then show "\<exists>s'. step_by_key k i db' = Some s' \<and> step_row_advances s s' \<and>
        (\<forall>r. workflow_by_id k db = Some r \<longrightarrow> workflow_over (w_status r) \<longrightarrow> s' = s)"
      using sl [of k i] s step step_by_key_in [OF s] by simp
  next
    fix k i assume "step_by_key k i db = None"
    then show "step_by_key k i db' = None" by (simp add: sl)
  qed
  have uq: "unique_key w_workflow_id (workflows db')" "unique_key step_key (workflow_steps db')"
    unfolding ws ss using wf unique_key_map [of "workflows db" w_workflow_id F] unique_key_map [of "workflow_steps db" step_key G] key skey
    by (simp_all add: wf_workflows_def)
  have "workflow_by_id (s_workflow_id s) db' \<noteq> None \<and> step_ok db' s" if new: "s \<in> set (workflow_steps db')" for s
  proof -
    obtain t where t: "t \<in> set (workflow_steps db)" "s = G t" using new ss by auto
    have old: "workflow_by_id (s_workflow_id t) db \<noteq> None" "step_ok db t" using wf t(1) by (simp_all add: wf_workflows_def)
    have "moved_ok db' s" using step [OF t(1)] moved_ok_stays [OF _ adv runs] t(2) by simp
    then show ?thesis using step_ok_stays [OF old(2) adv runs] skey [OF t(1)] old(1) t(2) wl by simp
  qed
  moreover have "row_ok r \<and> owned r (workflow_steps db') \<and> (w_terminal_status r = Some WS_COMPLETED \<longrightarrow> steps_over (w_workflow_id r) db')"
    if new: "r \<in> set (workflows db')" for r
  proof -
    obtain q where q: "q \<in> set (workflows db)" "r = F q" using new ws by auto
    have u: "unique_key w_workflow_id (workflows db)" "unique_key step_key (workflow_steps db)" using wf by (simp_all add: wf_workflows_def)
    have "steps_over (w_workflow_id q) db'" if "steps_over (w_workflow_id q) db"
      using steps_over_stays [OF adv that _ u(2) uq(2)] workflow_in_by_id [OF u(1) q(1)] by simp
    moreover have "w_terminal_status q = Some WS_COMPLETED \<longrightarrow> steps_over (w_workflow_id q) db" using wf q(1) by (simp add: wf_workflows_def)
    ultimately show ?thesis using row [OF q(1)] own [OF q(1)] fin [OF q(1)] key [OF q(1)] q(2) by auto
  qed
  ultimately have "wf_workflows db'" using uq by (simp add: wf_workflows_def)
  with adv show ?thesis by blast
qed

section \<open>Steps of a row\<close>

lemma workflow_over_simps [simp]:
  "workflow_over WS_CREATED = False" "workflow_over WS_QUEUED = False" "workflow_over WS_RUNNING = False"
  "workflow_over WS_CANCELLATION_PENDING = False" "workflow_over WS_RECOVERY_PENDING = False" "workflow_over WS_NEEDS_APPROVAL = True"
  "workflow_over WS_NEEDS_INPUT = True" "workflow_over WS_COMPLETED = True" "workflow_over WS_FAILED = True" "workflow_over WS_CANCELLED = True"
  "workflow_over WS_REPORTED = True"
  by (simp_all add: workflow_over_def WORKFLOW_TERMINAL_STATUSES_def)

definition row_moves :: "'a workflow_db_scheme \<Rightarrow> workflow_row \<Rightarrow> workflow_row \<Rightarrow> bool" where
  "row_moves db r r' =
     (workflow_row_advances r r' \<and> row_ok r' \<and>
      (workflow_over (w_status r') \<or> \<not> workflow_over (w_status r) \<and> w_active_child_run_id r' = w_active_child_run_id r) \<and>
      (w_terminal_status r' = Some WS_COMPLETED \<longrightarrow> w_terminal_status r = Some WS_COMPLETED \<or> steps_over (w_workflow_id r) db))"

lemma row_not_over: "row_ok r \<Longrightarrow> \<not> workflow_over (w_status r) \<Longrightarrow> w_terminal_status r = None"
  by (auto simp: row_ok_def split: option.splits)

lemma owned_moves:
  assumes "row_moves db r r'" "owned r ss"
  shows "owned r' ss"
proof -
  have "w_workflow_id r' = w_workflow_id r" using assms(1) by (simp add: row_moves_def workflow_row_advances_def)
  with assms show ?thesis by (auto simp: row_moves_def owned_def)
qed

lemma row_step:
  fixes db db' :: "'a workflow_db_scheme"
  assumes wf: "wf_workflows db" "db_advances db db'"
    and ws: "workflows db' = sql_update hit f (workflows db)" and ss: "workflow_steps db' = workflow_steps db"
    and row: "\<And>r. r \<in> set (workflows db) \<Longrightarrow> hit r \<Longrightarrow> row_ok r \<Longrightarrow> row_moves db r (f r)"
  shows "wf_workflows db' \<and> workflow_advances db db'"
proof -
  let ?F = "\<lambda>r. if hit r then f r else r"
  have old: "row_ok r" "owned r (workflow_steps db)" if "r \<in> set (workflows db)" for r
    using wf(1) that by (simp_all add: wf_workflows_def)
  have moved: "row_moves db r (f r)" if "r \<in> set (workflows db)" "hit r" for r using row that old by blast
  show ?thesis
  proof (rule mapped_step [OF wf, where F = ?F and G = "\<lambda>s. s"])
    show "workflows db' = map ?F (workflows db)" using ws by (simp add: sql_update_def)
    show "workflow_steps db' = map (\<lambda>s. s) (workflow_steps db)" using ss by simp
    show "workflow_row_advances r (?F r) \<and> row_ok (?F r)" if "r \<in> set (workflows db)" for r
      using moved [OF that] old [OF that] by (simp add: row_moves_def)
    show "step_row_advances s s \<and> moved_ok db s" if "s \<in> set (workflow_steps db)" for s
      using wf(1) that step_ok_moved by (auto simp: wf_workflows_def)
    show "owned (?F r) (workflow_steps db')" if "r \<in> set (workflows db)" for r
      using owned_moves [OF moved [OF that] old(2) [OF that]] old(2) [OF that] ss by simp
    show "w_terminal_status r = Some WS_COMPLETED \<or> steps_over (w_workflow_id r) db"
      if "r \<in> set (workflows db)" "w_terminal_status (?F r) = Some WS_COMPLETED" for r
      using moved [OF that(1)] that(2) by (auto simp: row_moves_def split: if_splits)
  qed simp
qed

lemma guarded_row_step:
  fixes db :: "'a workflow_db_scheme"
  assumes "wf_workflows db" "wf_runs db"
    and "\<And>r. r \<in> set (workflows db) \<Longrightarrow> w_workflow_id r = k \<Longrightarrow> workflow_guard_holds g r \<Longrightarrow> row_ok r \<Longrightarrow>
      row_moves db r (workflow_set fs (wg_bump g) now r)"
  shows "wf_workflows (snd (conditional_update_workflow k fs g now db)) \<and> workflow_advances db (snd (conditional_update_workflow k fs g now db))"
proof (cases "wg_statuses g = Some []")
  case False
  let ?hit = "\<lambda>r. w_workflow_id r = k \<and> workflow_guard_holds g r"
  let ?db = "db\<lparr>workflows := sql_update ?hit (workflow_set fs (wg_bump g) now) (workflows db)\<rparr>"
  have "snd (conditional_update_workflow k fs g now db) = ?db"
    using False by (simp add: conditional_update_workflow_def Let_def split: sum.split)
  moreover have "wf_workflows ?db \<and> workflow_advances db ?db"
    by (rule row_step [where hit = ?hit and f = "workflow_set fs (wg_bump g) now"]) (use assms db_advances_cong [of ?db db] in auto)
  ultimately show ?thesis by simp
qed (use assms(1) in \<open>simp add: conditional_update_workflow_def\<close>)

lemmas row_defs = row_moves_def workflow_row_advances_def workflow_outcome_def row_ok_def workflow_set_def apply_workflow_fields_def Let_def
  workflow_guard_holds_def workflow_guard0_def opt_is_def

lemma snd_answered:
  "snd (case p of (Inl e, d) \<Rightarrow> (Inl e, d) | (Inr u, d) \<Rightarrow> (Inr (f u), d)) = snd p"
  by (auto split: prod.split sum.split)

text \<open>Every guarded update of a single row.\<close>

lemma row_transactions:
  fixes db :: "'a workflow_db_scheme"
  assumes "wf_workflows db" "wf_runs db"
  defines "ok db' \<equiv> wf_workflows db' \<and> workflow_advances db db'"
  shows "ok (snd (workflow_record_launch k pid version token gen identity now db))"
    and "ok (snd (workflow_claim_write k token gen version pid identity start now db))"
    and "ok (snd (workflow_heartbeat_worker k token gen pid now db))"
    and "ok (snd (workflow_adopt_worker k version token gen beat now db))"
    and "ok (snd (workflow_reserve_write k statuses version token gen beat new_token tries now db))"
    and "ok (snd (workflow_request_cancellation k statuses version token gen doc now db))"
    and "ok (snd (mark_cancellation_retry k version token gen doc reason now db))"
    and "ok (snd (workflow_mark_recovery k statuses version token gen reason now db))"
    and "ok (snd (workflow_fail k status version token gen beat' reason action now db))"
    and "ok (snd (begin_publication k status version hash now db))"
    and "ok (snd (mark_publication_failed k status version hash error now db))"
  unfolding ok_def workflow_record_launch_def workflow_claim_write_def workflow_heartbeat_worker_def workflow_adopt_worker_def
    workflow_reserve_write_def workflow_request_cancellation_def mark_cancellation_retry_def workflow_mark_recovery_def workflow_fail_def
    begin_publication_def mark_publication_failed_def snd_answered
  by (intro guarded_row_step [OF assms(1,2)]; auto simp: row_defs split: option.splits)+

lemma guarded_transactions:
  fixes db :: "'a workflow_db_scheme"
  assumes "wf_workflows db" "wf_runs db"
  defines "ok db' \<equiv> wf_workflows db' \<and> workflow_advances db db'"
  shows "(status = WS_COMPLETED \<Longrightarrow> steps_over k db) \<Longrightarrow> ok (snd (workflow_transition_terminal k status version token gen summary action now db))"
    and "(\<And>r. workflow_by_id k db = Some r \<Longrightarrow> w_terminal_status r = Some terminal) \<Longrightarrow>
      ok (snd (mark_publication_complete k status version hash terminal paths now db))"
proof -
  show "ok (snd (workflow_transition_terminal k status version token gen summary action now db))" if finished: "status = WS_COMPLETED \<Longrightarrow> steps_over k db"
  proof (cases "\<not> workflow_over status \<or> status = WS_REPORTED")
    case False
    then show ?thesis
      unfolding ok_def workflow_transition_terminal_def if_not_P [OF False]
      by (intro guarded_row_step [OF assms(1,2)]) (use finished in \<open>auto simp: row_defs split: option.splits\<close>)
  qed (use assms(1) in \<open>simp add: ok_def workflow_transition_terminal_def\<close>)
  have look: "workflow_by_id k db = Some r" if "r \<in> set (workflows db)" "w_workflow_id r = k" for r
    using workflow_in_by_id [OF _ that(1)] assms(1) that(2) by (simp add: wf_workflows_def)
  show "ok (snd (mark_publication_complete k status version hash terminal paths now db))"
    if "\<And>r. workflow_by_id k db = Some r \<Longrightarrow> w_terminal_status r = Some terminal"
    unfolding ok_def mark_publication_complete_def
    by (rule guarded_row_step [OF assms(1,2)]) (use look that in \<open>auto simp: row_defs split: option.splits\<close>)
qed

section \<open>Steps of a workflow and one of its steps\<close>

lemma sql_update_one:
  assumes "unique_key key rows" "sql_count hit rows = 1" "\<And>r. hit r \<Longrightarrow> key r = k"
  obtains q where "q \<in> set rows" "hit q" "key q = k" "sql_update hit f rows = map (\<lambda>r. if r = q then f q else r) rows"
proof -
  have "filter hit rows \<noteq> []" using assms(2) by (cases "filter hit rows") (simp_all add: sql_count_def)
  then obtain q where q: "q \<in> set rows" "hit q" unfolding filter_empty_conv by blast
  have eq: "r = q" if "r \<in> set rows" "hit r" for r
    using unique_key_inj [OF assms(1) that(1) q(1)] assms(3) [OF that(2)] assms(3) [OF q(2)] by simp
  have "sql_update hit f rows = map (\<lambda>r. if r = q then f q else r) rows"
    unfolding sql_update_def
  proof (rule map_cong [OF refl])
    fix r assume "r \<in> set rows"
    then show "(if hit r then f r else r) = (if r = q then f q else r)" using eq [of r] q(2) by (cases "hit r") auto
  qed
  then show thesis using that [OF q assms(3) [OF q(2)]] by blast
qed

lemma pair_step:
  fixes db db' :: "'a workflow_db_scheme"
  assumes wf: "wf_workflows db" "db_advances db db'"
    and q: "q \<in> set (workflows db)" and s: "s \<in> set (workflow_steps db)" "s_workflow_id s = w_workflow_id q"
    and ws: "workflows db' = map (\<lambda>r. if r = q then q' else r) (workflows db)"
    and ss: "workflow_steps db' = map (\<lambda>t. if t = s then s' else t) (workflow_steps db)"
    and row: "\<not> workflow_over (w_status q)" "workflow_row_advances q q'" "row_ok q'" "w_status q' = w_status q"
    and step: "step_row_advances s s'" "moved_ok db s'"
    and own: "holds_child (w_workflow_id q) s' = holds_child (w_workflow_id q) s \<and> (holds_child (w_workflow_id q) s \<longrightarrow> s_child_run_id s' = s_child_run_id s) \<and>
        w_active_child_run_id q' = w_active_child_run_id q
      \<or> w_active_child_run_id q = None \<and> holds_child (w_workflow_id q) s' \<and> s_child_run_id s' = w_active_child_run_id q'
      \<or> holds_child (w_workflow_id q) s \<and> \<not> holds_child (w_workflow_id q) s' \<and> w_active_child_run_id q' = None"
  shows "wf_workflows db' \<and> workflow_advances db db'"
proof (rule mapped_step [OF wf ws ss])
  let ?k = "w_workflow_id q" and ?G = "\<lambda>t. if t = s then s' else t"
  have u: "unique_key w_workflow_id (workflows db)" "unique_key step_key (workflow_steps db)" using wf by (simp_all add: wf_workflows_def)
  have rest: "\<forall>t \<in> set (workflow_steps db). step_ok db t" "\<forall>r \<in> set (workflows db). row_ok r \<and> owned r (workflow_steps db)"
    using wf by (simp_all add: wf_workflows_def)
  have key: "w_workflow_id q' = ?k" "s_workflow_id s' = ?k" using row step s by (auto simp: workflow_row_advances_def step_row_advances_def step_identity_def)
  show "workflow_row_advances r (if r = q then q' else r) \<and> row_ok (if r = q then q' else r)" if "r \<in> set (workflows db)" for r
    using row rest that by simp
  show "step_row_advances t (?G t) \<and> moved_ok db (?G t)" if "t \<in> set (workflow_steps db)" for t
    using step step_ok_moved [of db t] rest(1) that by simp
  show "?G t = t" if "r \<in> set (workflows db)" "s_workflow_id t = w_workflow_id r" "workflow_over (w_status r)" for r t
  proof -
    have "t \<noteq> s" using unique_key_inj [OF u(1) that(1) q] that(2,3) row(1) s(2) by metis
    then show ?thesis by simp
  qed
  have "w_terminal_status q' = None" using row_not_over [OF row(3)] row(1,4) by simp
  then show "w_terminal_status r = Some WS_COMPLETED \<or> steps_over (w_workflow_id r) db"
    if "w_terminal_status (if r = q then q' else r) = Some WS_COMPLETED" for r using that by (auto split: if_splits)
  have qo: "owned q (workflow_steps db)" using rest(2) q by blast
  have held: "s_child_run_id t = w_active_child_run_id q" "w_active_child_run_id q \<noteq> None"
    if t: "t \<in> set (workflow_steps db)" "holds_child ?k t" for t
  proof -
    show c: "s_child_run_id t = w_active_child_run_id q" using qo row(1) t unfolding owned_def by blast
    have "step_ok db t" using rest(1) t(1) by blast
    then show "w_active_child_run_id q \<noteq> None" using t(2) unfolding c [symmetric] by (simp add: step_ok_def holds_child_def)
  qed
  have one: "t = t'" if "t \<in> set (workflow_steps db)" "t' \<in> set (workflow_steps db)" "holds_child ?k t" "holds_child ?k t'" for t t'
    using qo row(1) that unfolding owned_def by blast
  have mem: "t = s' \<or> t \<in> set (workflow_steps db) \<and> t \<noteq> s" if "t \<in> set (workflow_steps db')" for t
    using that ss by (auto split: if_splits)
  have new: "s' \<in> set (workflow_steps db')" "t \<in> set (workflow_steps db) \<Longrightarrow> t \<noteq> s \<Longrightarrow> t \<in> set (workflow_steps db')" for t
    using ss s(1) by (auto intro: rev_image_eqI)
  have "owned q' (workflow_steps db')"
    using own
  proof (elim disjE conjE)
    assume a: "holds_child ?k s' = holds_child ?k s" "holds_child ?k s \<longrightarrow> s_child_run_id s' = s_child_run_id s"
      "w_active_child_run_id q' = w_active_child_run_id q"
    have "\<exists>t \<in> set (workflow_steps db'). holds_child ?k t" if active: "w_active_child_run_id q = Some c" for c
    proof -
      obtain t where t: "t \<in> set (workflow_steps db)" "holds_child ?k t" using qo row(1) active unfolding owned_def by blast
      then show ?thesis using new a(1) by (cases "t = s") blast+
    qed
    moreover have "s_child_run_id t = w_active_child_run_id q" if "t \<in> set (workflow_steps db')" "holds_child ?k t" for t
      using mem [OF that(1)] that(2) held(1) a(1,2) s(1) by metis
    moreover have "t = t'" if "t \<in> set (workflow_steps db')" "t' \<in> set (workflow_steps db')" "holds_child ?k t" "holds_child ?k t'" for t t'
      using mem [OF that(1)] mem [OF that(2)] that(3,4) one a(1) s(1) by metis
    ultimately show ?thesis unfolding owned_def key(1) a(3) by blast
  next
    assume a: "w_active_child_run_id q = None" "holds_child ?k s'" "s_child_run_id s' = w_active_child_run_id q'"
    have "t = s'" if "t \<in> set (workflow_steps db')" "holds_child ?k t" for t using mem [OF that(1)] held(2) [of t] that(2) a(1) by blast
    then show ?thesis unfolding owned_def key(1) using a new(1) by blast
  next
    assume a: "holds_child ?k s" "\<not> holds_child ?k s'" "w_active_child_run_id q' = None"
    have "\<not> holds_child ?k t" if "t \<in> set (workflow_steps db')" for t using mem [OF that] one [OF _ s(1) _ a(1)] a(2) by blast
    then show ?thesis unfolding owned_def key(1) a(3) by blast
  qed
  moreover have "owned r (workflow_steps db')" if r: "r \<in> set (workflows db)" "r \<noteq> q" for r
  proof -
    have "w_workflow_id r \<noteq> ?k" using unique_key_inj [OF u(1) r(1) q] r(2) by blast
    then have no: "\<not> holds_child (w_workflow_id r) s" "\<not> holds_child (w_workflow_id r) s'" using key(2) s(2) by (auto simp: holds_child_def)
    have ro: "owned r (workflow_steps db)" using rest(2) r(1) by blast
    have same: "t \<in> set (workflow_steps db') \<and> holds_child (w_workflow_id r) t \<longleftrightarrow> t \<in> set (workflow_steps db) \<and> holds_child (w_workflow_id r) t" for t
      using no mem [of t] new(2) [of t] by blast
    then show ?thesis using ro unfolding owned_def by blast
  qed
  ultimately show "owned (if r = q then q' else r) (workflow_steps db')" if "r \<in> set (workflows db)" for r using that by simp
qed

definition pair_ok :: "'a workflow_db_scheme \<Rightarrow> workflow_row \<Rightarrow> workflow_row \<Rightarrow> step_row \<Rightarrow> step_row \<Rightarrow> bool" where
  "pair_ok db q q' s s' =
     (workflow_row_advances q q' \<and> row_ok q' \<and> w_status q' = w_status q \<and> step_row_advances s s' \<and> moved_ok db s' \<and>
      (holds_child (w_workflow_id q) s' = holds_child (w_workflow_id q) s \<and>
         (holds_child (w_workflow_id q) s \<longrightarrow> s_child_run_id s' = s_child_run_id s) \<and> w_active_child_run_id q' = w_active_child_run_id q
       \<or> w_active_child_run_id q = None \<and> holds_child (w_workflow_id q) s' \<and> s_child_run_id s' = w_active_child_run_id q'
       \<or> holds_child (w_workflow_id q) s \<and> \<not> holds_child (w_workflow_id q) s' \<and> w_active_child_run_id q' = None))"

lemma pair_update:
  fixes db :: "'a workflow_db_scheme"
  assumes wf: "wf_workflows db" "wf_runs db"
    and counts: "sql_count hitw (workflows db) = 1" "sql_count hits (workflow_steps db) = 1"
    and keys: "\<And>r. hitw r \<Longrightarrow> w_workflow_id r = k \<and> w_status r = WS_RUNNING" "\<And>s. hits s \<Longrightarrow> step_key s = (k, i)"
    and ok: "\<And>q s. hitw q \<Longrightarrow> hits s \<Longrightarrow> w_workflow_id q = s_workflow_id s \<Longrightarrow> step_by_key k i db = Some s \<Longrightarrow> step_ok db s \<Longrightarrow> row_ok q \<Longrightarrow>
      pair_ok db q (f q) s (g s)"
  defines "db' \<equiv> db\<lparr>workflows := sql_update hitw f (workflows db), workflow_steps := sql_update hits g (workflow_steps db)\<rparr>"
  shows "wf_workflows db' \<and> workflow_advances db db'"
proof -
  have u: "unique_key w_workflow_id (workflows db)" "unique_key step_key (workflow_steps db)" using wf by (simp_all add: wf_workflows_def)
  obtain q where q: "q \<in> set (workflows db)" "hitw q" "w_workflow_id q = k"
      "sql_update hitw f (workflows db) = map (\<lambda>r. if r = q then f q else r) (workflows db)"
    by (rule sql_update_one [OF u(1) counts(1), of k f]) (use keys(1) in blast)+
  obtain s where s: "s \<in> set (workflow_steps db)" "hits s" "step_key s = (k, i)"
      "sql_update hits g (workflow_steps db) = map (\<lambda>t. if t = s then g s else t) (workflow_steps db)"
    by (rule sql_update_one [OF u(2) counts(2), of "(k, i)" g]) (use keys(2) in blast)+
  have id: "s_workflow_id s = w_workflow_id q" using s(3) q(3) by (simp add: step_key_def)
  have look: "step_by_key k i db = Some s" using step_in_by_key [OF u(2) s(1)] s(3) by (simp add: step_key_def)
  have facts: "step_ok db s" "row_ok q" using wf(1) s(1) q(1) by (simp_all add: wf_workflows_def)
  have p: "pair_ok db q (f q) s (g s)" by (rule ok [OF q(2) s(2) id [symmetric] look facts])
  have low: "db_advances db db'" by (rule db_advances_cong [OF _ wf(2)]) (simp add: db'_def)
  have live: "\<not> workflow_over (w_status q)" using keys(1) [OF q(2)] by simp
  show ?thesis
    by (rule pair_step [OF wf(1) low q(1) s(1) id, where q' = "f q" and s' = "g s"])
      (use p live q(4) s(4) in \<open>simp_all add: pair_ok_def db'_def\<close>)
qed

lemma claim_step_keeps:
  fixes db :: "'a workflow_db_scheme"
  assumes wf: "wf_workflows db" "wf_runs db"
    and pre: "\<And>s. step_by_key k i db = Some s \<Longrightarrow> deps_passed k (s_depends_on s) db \<and> (s_type s = ST_LOCAL_SUMMARY \<longleftrightarrow> child = None)"
  shows "wf_workflows (snd (claim_step k i token gen child wv sv now db)) \<and> workflow_advances db (snd (claim_step k i token gen child wv sv now db))"
proof (cases "sql_count (claim_where k token gen wv) (workflows db) = 1 \<and> sql_count (claim_step_where k i sv) (workflow_steps db) = 1")
  case True
  have "snd (claim_step k i token gen child wv sv now db) =
      db\<lparr>workflows := sql_update (claim_where k token gen wv) (claimed_row child now) (workflows db),
         workflow_steps := sql_update (claim_step_where k i sv) (claimed_step child now) (workflow_steps db)\<rparr>"
    using True by (simp add: claim_step_def Let_def split: sum.split)
  moreover have "pair_ok db q (claimed_row child now q) s (claimed_step child now s)"
    if h: "claim_where k token gen wv q" "claim_step_where k i sv s" "step_by_key k i db = Some s" "row_ok q" for q s
  proof -
    have "s_workflow_id s = k" using step_by_key_in [OF h(3)] by simp
    then have "moved_ok db (claimed_step child now s)" using pre [OF h(3)] by (simp add: moved_ok_def claimed_step_def external_def)
    moreover have "workflow_row_advances q (claimed_row child now q)" "row_ok (claimed_row child now q)"
      using h(1,4) by (auto simp: claim_where_def claimed_row_def workflow_row_advances_def row_ok_def split: option.splits)
    moreover have "step_row_advances s (claimed_step child now s)"
      using h(2) by (simp add: step_row_advances_def step_identity_def claimed_step_def claim_step_where_def step_open_def)
    moreover have "external s \<longleftrightarrow> child \<noteq> None" using pre [OF h(3)] by (simp add: external_def)
    ultimately show ?thesis
      using h(1,2) by (cases child) (auto simp: pair_ok_def claim_where_def claim_step_where_def claimed_row_def claimed_step_def holds_child_def external_def)
  qed
  ultimately show ?thesis
    using pair_update [OF wf, where hitw = "claim_where k token gen wv" and hits = "claim_step_where k i sv" and k = k and i = i
        and f = "claimed_row child now" and g = "claimed_step child now"] True
    by (simp add: claim_where_def claim_step_where_def step_key_def)
qed (use wf(1) in \<open>auto simp: claim_step_def\<close>)

lemma step_update_keeps:
  fixes db :: "'a workflow_db_scheme"
  assumes wf: "wf_workflows db" "wf_runs db"
    and ok: "\<And>q s. step_owner_where k token gen g q \<Longrightarrow> step_where k i g s \<Longrightarrow> w_workflow_id q = s_workflow_id s \<Longrightarrow>
      step_by_key k i db = Some s \<Longrightarrow> step_ok db s \<Longrightarrow> row_ok q \<Longrightarrow> pair_ok db q (step_owner_set (sg_clear_active g) wfs now q) s (step_set fs s)"
  defines "db' \<equiv> snd (conditional_update_step k i fs token gen g wfs now db)"
  shows "wf_workflows db' \<and> workflow_advances db db'"
proof -
  let ?hit = "\<lambda>s. step_where k i g s \<and> list_ex (owned_running k token gen) (workflows db)" and ?own = "step_owner_where k token gen g"
  let ?db = "db\<lparr>workflows := sql_update ?own (step_owner_set (sg_clear_active g) wfs now) (workflows db),
    workflow_steps := sql_update ?hit (step_set fs) (workflow_steps db)\<rparr>"
  have "db' = db \<or> (sql_count ?own (workflows db) = 1 \<and> sql_count ?hit (workflow_steps db) = 1 \<and> db' = ?db)"
    unfolding db'_def conditional_update_step_def Let_def by (simp split: sum.split)
  then show ?thesis
  proof (elim disjE conjE)
    assume hit: "sql_count ?own (workflows db) = 1" "sql_count ?hit (workflow_steps db) = 1" "db' = ?db"
    show ?thesis
      unfolding hit(3)
      by (rule pair_update [OF wf hit(1,2), where k = k and i = i])
        (use ok in \<open>auto simp: step_owner_where_def owned_running_def step_where_def step_key_def\<close>)
  qed (use wf in simp)
qed

lemmas pair_defs = pair_ok_def step_set_def step_owner_set_def workflow_set_def apply_workflow_fields_def workflow_row_advances_def
  workflow_outcome_def row_ok_def step_row_advances_def step_identity_def moved_ok_def step_ok_def step_where_def step_owner_where_def
  owned_running_def opt_is_def step_open_def holds_child_def external_def Let_def

lemma step_transactions:
  fixes db :: "'a workflow_db_scheme"
  assumes "wf_workflows db" "wf_runs db"
  defines "ok db' \<equiv> wf_workflows db' \<and> workflow_advances db db'"
  shows "child_completed c db \<Longrightarrow> ok (snd (conditional_update_step k i
      [S_status SS_PASSED, S_ended_at ended, S_summary summary, S_error error, S_result result] token gen
      \<lparr>sg_statuses = [SS_RUNNING], sg_state_version = sv, sg_child_run_id = Some (Some c), sg_clear_active = True, sg_workflow_version = wv\<rparr> [] now db))"
    and "ok (snd (conditional_update_step k i
      [S_status SS_FAILED, S_ended_at ended, S_summary summary, S_error error, S_result result] token gen
      \<lparr>sg_statuses = [SS_RUNNING], sg_state_version = sv, sg_child_run_id = Some ch, sg_clear_active = (ch \<noteq> None), sg_workflow_version = wv\<rparr>
      [W_failure_summary reason] now db))"
    and "(\<And>s. step_by_key k i db = Some s \<Longrightarrow> dep_failed k (s_depends_on s) db) \<Longrightarrow> ok (snd (conditional_update_step k i
      [S_status SS_SKIPPED, S_ended_at ended, S_summary summary, S_error error] token gen
      \<lparr>sg_statuses = [SS_PENDING], sg_state_version = sv, sg_child_run_id = Some None, sg_clear_active = False, sg_workflow_version = wv\<rparr> [] now db))"
    and "ok (snd (conditional_update_step k i
      [S_status SS_PASSED, S_ended_at ended, S_summary summary, S_artifact_paths paths, S_result result] token gen
      \<lparr>sg_statuses = [SS_RUNNING], sg_state_version = sv, sg_child_run_id = Some None, sg_clear_active = False, sg_workflow_version = wv\<rparr>
      [W_artifact_paths paths'] now db))"
    and "ok (snd (conditional_update_step k i [S_result result] token gen
      \<lparr>sg_statuses = [SS_RUNNING], sg_state_version = sv, sg_child_run_id = Some (Some c), sg_clear_active = False, sg_workflow_version = wv\<rparr> [] now db))"
    and "ok (snd (reset_local_summary k i wversion sversion token gen now db))"
proof -
  note rule = step_update_keeps [OF assms(1,2), folded ok_def]
  have id: "s_workflow_id s = k" if "step_by_key k i db = Some s" for s using step_by_key_in [OF that] by simp
  show "child_completed c db \<Longrightarrow> ok (snd (conditional_update_step k i
      [S_status SS_PASSED, S_ended_at ended, S_summary summary, S_error error, S_result result] token gen
      \<lparr>sg_statuses = [SS_RUNNING], sg_state_version = sv, sg_child_run_id = Some (Some c), sg_clear_active = True, sg_workflow_version = wv\<rparr> [] now db))"
    by (rule rule) (auto simp: pair_defs split: option.splits)
  show "ok (snd (conditional_update_step k i
      [S_status SS_FAILED, S_ended_at ended, S_summary summary, S_error error, S_result result] token gen
      \<lparr>sg_statuses = [SS_RUNNING], sg_state_version = sv, sg_child_run_id = Some ch, sg_clear_active = (ch \<noteq> None), sg_workflow_version = wv\<rparr>
      [W_failure_summary reason] now db))"
    by (rule rule) (cases ch; auto simp: pair_defs split: option.splits)
  show "ok (snd (conditional_update_step k i
      [S_status SS_SKIPPED, S_ended_at ended, S_summary summary, S_error error] token gen
      \<lparr>sg_statuses = [SS_PENDING], sg_state_version = sv, sg_child_run_id = Some None, sg_clear_active = False, sg_workflow_version = wv\<rparr> [] now db))"
    if pre: "\<And>s. step_by_key k i db = Some s \<Longrightarrow> dep_failed k (s_depends_on s) db"
    by (rule rule) (use pre id in \<open>auto simp: pair_defs split: option.splits\<close>)
  show "ok (snd (conditional_update_step k i
      [S_status SS_PASSED, S_ended_at ended, S_summary summary, S_artifact_paths paths, S_result result] token gen
      \<lparr>sg_statuses = [SS_RUNNING], sg_state_version = sv, sg_child_run_id = Some None, sg_clear_active = False, sg_workflow_version = wv\<rparr>
      [W_artifact_paths paths'] now db))"
    by (rule rule) (auto simp: pair_defs split: option.splits)
  show "ok (snd (conditional_update_step k i [S_result result] token gen
      \<lparr>sg_statuses = [SS_RUNNING], sg_state_version = sv, sg_child_run_id = Some (Some c), sg_clear_active = False, sg_workflow_version = wv\<rparr> [] now db))"
    by (rule rule) (auto simp: pair_defs split: option.splits)
  show "ok (snd (reset_local_summary k i wversion sversion token gen now db))"
    unfolding reset_local_summary_def by (rule rule) (auto simp: pair_defs split: option.splits)
qed

section \<open>The remaining transactions\<close>

lemma same_workflows:
  fixes db db' :: "'a workflow_db_scheme"
  assumes "wf_workflows db" "db_advances db db'" "workflows db' = workflows db" "workflow_steps db' = workflow_steps db"
  shows "wf_workflows db' \<and> workflow_advances db db'"
  by (rule row_step [OF assms(1,2), where hit = "\<lambda>_. False" and f = "\<lambda>r. r"]) (use assms(3,4) in \<open>simp_all add: sql_update_def\<close>)

lemma finalize_keeps:
  fixes db :: "'a workflow_db_scheme"
  assumes wf: "wf_workflows db" "wf_runs db" and db'_def: "db' = snd (finalize_cancellation k version token gen doc now db)"
  shows "wf_workflows db' \<and> workflow_advances db db'"
proof -
  let ?hit = "\<lambda>r. w_workflow_id r = k \<and> w_status r = WS_CANCELLATION_PENDING \<and> w_state_version r = version \<and>
    w_worker_lease_token r = token \<and> w_lease_generation r = gen"
  let ?F = "\<lambda>r. if ?hit r then cancelled_row doc now r else r" and ?G = "\<lambda>s. if step_open k s then cancelled_step now s else s"
  have "db' = db \<or> sql_count ?hit (workflows db) = 1 \<and> db' = db\<lparr>workflows := sql_update ?hit (cancelled_row doc now) (workflows db),
      workflow_steps := sql_update (step_open k) (cancelled_step now) (workflow_steps db)\<rparr>"
    unfolding db'_def finalize_cancellation_def Let_def by (simp split: sum.split)
  then show ?thesis
  proof (elim disjE conjE)
    assume one: "sql_count ?hit (workflows db) = 1" and db': "db' = db\<lparr>workflows := sql_update ?hit (cancelled_row doc now) (workflows db),
      workflow_steps := sql_update (step_open k) (cancelled_step now) (workflow_steps db)\<rparr>"
    have u: "unique_key w_workflow_id (workflows db)" using wf(1) by (simp add: wf_workflows_def)
    obtain q where q: "q \<in> set (workflows db)" "?hit q" by (rule sql_update_one [OF u one, of k "\<lambda>r. r"]) simp_all
    have hit: "?hit r" if "r \<in> set (workflows db)" "w_workflow_id r = k" for r
      using unique_key_inj [OF u that(1) q(1)] that(2) q(2) by metis
    have facts: "row_ok r" "owned r (workflow_steps db)" if "r \<in> set (workflows db)" for r using wf(1) that by (simp_all add: wf_workflows_def)
    show ?thesis
    proof (rule mapped_step [OF wf(1), where F = ?F and G = ?G])
      show "db_advances db db'" by (rule db_advances_cong [OF _ wf(2)]) (simp add: db')
      show "workflows db' = map ?F (workflows db)" "workflow_steps db' = map ?G (workflow_steps db)" by (simp_all add: db' sql_update_def)
      show "workflow_row_advances r (?F r) \<and> row_ok (?F r)" if "r \<in> set (workflows db)" for r
        using facts(1) [OF that] by (auto simp: cancelled_row_def workflow_row_advances_def row_ok_def split: option.splits)
      show "step_row_advances s (?G s) \<and> moved_ok db (?G s)" if "s \<in> set (workflow_steps db)" for s
      proof (cases "step_open k s")
        case True
        then show ?thesis by (simp add: cancelled_step_def step_row_advances_def step_identity_def step_open_def moved_ok_def)
      next
        case False
        then show ?thesis using step_ok_moved [of db s] wf(1) that by (simp add: wf_workflows_def)
      qed
      show "?G s = s" if "r \<in> set (workflows db)" "s_workflow_id s = w_workflow_id r" "workflow_over (w_status r)" for r s
        using hit [OF that(1)] that(2,3) by (auto simp: step_open_def)
      show "owned (?F r) (workflow_steps db')" if r: "r \<in> set (workflows db)" for r
      proof (cases "w_workflow_id r = k")
        case True
        then show ?thesis using hit [OF r True] by (simp add: owned_def cancelled_row_def)
      next
        case False
        then have "t \<in> set (workflow_steps db') \<and> holds_child (w_workflow_id r) t \<longleftrightarrow> t \<in> set (workflow_steps db) \<and> holds_child (w_workflow_id r) t" for t
          by (auto simp: db' set_sql_update holds_child_def step_open_def cancelled_step_def)
        then show ?thesis using facts(2) [OF r] False unfolding owned_def by (simp, blast)
      qed
      show "w_terminal_status r = Some WS_COMPLETED \<or> steps_over (w_workflow_id r) db" if "w_terminal_status (?F r) = Some WS_COMPLETED" for r
        using that by (auto simp: cancelled_row_def split: if_splits)
    qed
  qed (use wf in simp)
qed

text \<open>A new workflow: its steps are pending, and each depends on earlier ones.\<close>

lemma new_steps_nth: "n < length ds \<Longrightarrow> new_steps k ds ! n = new_step k n (ds ! n)"
  by (simp add: new_steps_def)

lemma new_steps_length [simp]: "length (new_steps k ds) = length ds"
  by (simp add: new_steps_def)

lemma new_steps_in: "s \<in> set (new_steps k ds) \<longleftrightarrow> (\<exists>n < length ds. s = new_step k n (ds ! n))"
  by (auto simp: in_set_conv_nth new_steps_nth)

lemma new_steps_id: "s \<in> set (new_steps k ds) \<Longrightarrow> s_workflow_id s = k \<and> s_status s = SS_PENDING"
  by (auto simp: new_steps_in new_step_def)

lemma create_keeps:
  fixes db :: "'a workflow_db_scheme"
  assumes wf: "wf_workflows db" "wf_runs db" and graph: "graph_ok ds"
    and db'_def: "db' = snd (create_workflow k repo objective ds WS_QUEUED token 1 tries now db)"
  shows "wf_workflows db' \<and> workflow_advances db db'"
proof -
  let ?new = "new_steps k ds" and ?row = "new_workflow k repo objective WS_QUEUED token 1 tries now"
  have "db' = db \<or> workflow_by_id k db = None \<and> distinct (map step_key ?new) \<and>
      (\<forall>s \<in> set ?new. step_key s \<notin> set (map step_key (workflow_steps db))) \<and>
      db' = db\<lparr>workflows := workflows db @ [?row], workflow_steps := workflow_steps db @ ?new\<rparr>"
    unfolding db'_def create_workflow_def Let_def by (simp add: list_ex_iff)
  then show ?thesis
  proof (elim disjE conjE)
    assume fresh: "workflow_by_id k db = None" and new: "distinct (map step_key ?new)"
      "\<forall>s \<in> set ?new. step_key s \<notin> set (map step_key (workflow_steps db))"
      and db': "db' = db\<lparr>workflows := workflows db @ [?row], workflow_steps := workflow_steps db @ ?new\<rparr>"
    have tables: "workflows db' = workflows db @ [?row]" "workflow_steps db' = workflow_steps db @ ?new" by (simp_all add: db')
    have u: "unique_key w_workflow_id (workflows db)" "unique_key step_key (workflow_steps db)" using wf by (simp_all add: wf_workflows_def)
    have uq: "unique_key w_workflow_id (workflows db')" "unique_key step_key (workflow_steps db')"
      using u new fresh by (auto simp: tables unique_key_def by_key_None_iff workflow_by_id_def new_workflow_def)
    have wl: "workflow_by_id i db' = (case workflow_by_id i db of Some r \<Rightarrow> Some r | None \<Rightarrow> if i = k then Some ?row else None)" for i
      by (simp add: workflow_by_id_def tables by_key_append new_workflow_def split: option.split)
    have old_step: "step_by_key i j db' = Some s" if "step_by_key i j db = Some s" for i j s
      using that by (simp add: step_by_key_def tables by_key_append)
    have new_only: "i = k" if "step_by_key i j db = None" "step_by_key i j db' = Some s" for i j s
    proof -
      have "by_key step_key (i, j) ?new = Some s" using that by (simp add: step_by_key_def tables by_key_append)
      then show ?thesis using by_key_Some_in [of step_key "(i, j)" ?new s] by_key_Some_key [of step_key "(i, j)" ?new s] new_steps_id [of s k ds]
        by (simp add: step_key_def)
    qed
    have adv: "workflow_advances db db'"
      unfolding workflow_advances_def
    proof (intro conjI allI impI)
      show "\<exists>r'. workflow_by_id i db' = Some r' \<and> workflow_row_advances r r'" if "workflow_by_id i db = Some r" for i r
        using that by (simp add: wl)
      show "\<exists>s'. step_by_key i j db' = Some s' \<and> step_row_advances s s' \<and>
          (\<forall>r. workflow_by_id i db = Some r \<longrightarrow> workflow_over (w_status r) \<longrightarrow> s' = s)" if "step_by_key i j db = Some s" for i j s
        using old_step [OF that] by simp
      show "step_by_key i j db' = None" if "workflow_by_id i db \<noteq> None" "step_by_key i j db = None" for i j
        using new_only [OF that(2)] that(1) fresh by (cases "step_by_key i j db'") auto
    qed
    have runs: "db_advances db db'" by (rule db_advances_cong [OF _ wf(2)]) (simp add: db')
    have absent: "s_workflow_id s \<noteq> k" if "s \<in> set (workflow_steps db)" for s
      using wf(1) that fresh by (auto simp: wf_workflows_def)
    have "workflow_by_id (s_workflow_id s) db' \<noteq> None \<and> step_ok db' s" if s: "s \<in> set (workflow_steps db')" for s
    proof (cases "s \<in> set (workflow_steps db)")
      case True
      then have "workflow_by_id (s_workflow_id s) db \<noteq> None" "step_ok db s" using wf(1) by (simp_all add: wf_workflows_def)
      then show ?thesis using step_ok_stays [OF _ adv runs moved_ok_stays [OF step_ok_moved adv runs]] by (auto simp: wl)
    next
      case False
      then obtain n where n: "n < length ds" "s = new_step k n (ds ! n)" using s tables(2) new_steps_in by auto
      have "\<exists>q. step_by_key k d db' = Some q \<and> s_order_index q < n" if d: "d \<in> set (sd_depends_on (ds ! n))" for d
      proof -
        obtain m where m: "m < n" "sd_id (ds ! m) = d" using graph n(1) d by (auto simp: graph_ok_def)
        have "new_step k m (ds ! m) \<in> set ?new" unfolding new_steps_in using m(1) n(1) less_trans by blast
        then have "new_step k m (ds ! m) \<in> set (workflow_steps db')" by (simp add: tables)
        from step_in_by_key [OF uq(2) this] have "step_by_key k d db' = Some (new_step k m (ds ! m))" using m(2) by (simp add: new_step_def)
        then show ?thesis using m(1) by (simp add: new_step_def)
      qed
      then show ?thesis using n(2) fresh by (simp add: step_ok_def new_step_def wl)
    qed
    moreover have "row_ok r \<and> owned r (workflow_steps db') \<and> (w_terminal_status r = Some WS_COMPLETED \<longrightarrow> steps_over (w_workflow_id r) db')"
      if r: "r \<in> set (workflows db')" for r
    proof (cases "r \<in> set (workflows db)")
      case True
      then have look: "workflow_by_id (w_workflow_id r) db = Some r" by (rule workflow_in_by_id [OF u(1)])
      have "\<not> holds_child (w_workflow_id r) s" if "s \<in> set ?new" for s using new_steps_id [OF that] by (simp add: holds_child_def)
      then have "s \<in> set (workflow_steps db') \<and> holds_child (w_workflow_id r) s \<longleftrightarrow> s \<in> set (workflow_steps db) \<and> holds_child (w_workflow_id r) s" for s
        by (auto simp: tables)
      moreover have "row_ok r" "owned r (workflow_steps db)" "w_terminal_status r = Some WS_COMPLETED \<longrightarrow> steps_over (w_workflow_id r) db"
        using wf(1) True by (simp_all add: wf_workflows_def)
      moreover have "steps_over (w_workflow_id r) db'" if "steps_over (w_workflow_id r) db"
        using steps_over_stays [OF adv that _ u(2) uq(2)] look by simp
      ultimately show ?thesis unfolding owned_def by blast
    next
      case False
      then have "r = ?row" using r tables(1) by simp
      moreover have "\<not> holds_child k s" if s: "s \<in> set (workflow_steps db')" for s
      proof -
        have "s \<in> set (workflow_steps db) \<or> s \<in> set ?new" using s tables(2) by simp
        then show ?thesis using absent [of s] new_steps_id [of s k ds] unfolding holds_child_def by (cases "s \<in> set ?new") simp_all
      qed
      ultimately show ?thesis by (auto simp: new_workflow_def row_ok_def owned_def)
    qed
    ultimately have "wf_workflows db'" using uq by (simp add: wf_workflows_def)
    with adv show ?thesis by blast
  qed (use wf in simp)
qed

lemma event_keeps:
  fixes db :: "'a workflow_db_scheme"
  assumes "wf_workflows db" "wf_runs db" "db' = snd (workflow_append_event k level stage message data False g now db)"
  shows "wf_workflows db' \<and> workflow_advances db db'"
proof -
  have same: "workflows db' = workflows db" "workflow_steps db' = workflow_steps db" "runs db' = runs db"
    using assms(3) by (simp_all add: workflow_append_event_def Let_def)
  show ?thesis by (rule same_workflows [OF assms(1) db_advances_cong [OF same(3) assms(2)] same(1,2)])
qed

lemma workflow_step_keeps:
  assumes "workflow_step db db'" "wf_workflows db" "wf_runs db"
  shows "wf_workflows db' \<and> workflow_advances db db'"
  using assms
proof (induction rule: workflow_step.induct)
  case (create ds db k repo objective token tries now)
  have "graph_ok ds" using create.hyps validate_graph_iff by simp
  then show ?case using create_keeps [OF create.prems _ refl] by simp
next
  case (claim_step k i db child token gen wv sv now)
  show ?case by (rule claim_step_keeps [OF claim_step.prems]) (rule claim_step.hyps)
next
  case finish
  show ?case by (rule step_transactions(1) [OF finish.prems finish.hyps])
next
  case skip
  show ?case by (rule step_transactions(3) [OF skip.prems]) (rule skip.hyps)
next
  case finalize
  show ?case by (rule finalize_keeps [OF finalize refl])
next
  case transition
  show ?case by (rule guarded_transactions(1) [OF transition.prems]) (rule transition.hyps)
next
  case published
  show ?case by (rule guarded_transactions(2) [OF published.prems]) (rule published.hyps)
next
  case event
  show ?case by (rule event_keeps [OF event refl])
qed (rule row_transactions step_transactions; assumption)+

end
