(* ===== verification/Workflow_Publication.thy ===== *)
theory Workflow_Publication
  imports Workflow_Store Job_Control
begin

text \<open>
  Publication of a terminal workflow, \<open>src/soma/workflows/publication.py\<close>, with the writes of \<open>src/soma/workflows/reporter.py\<close>. A handler is
  a function on nodes (database, files, trace) that may raise; \<open>chain\<close> runs one after another and \<open>attempt\<close> is \<open>try ... except Exception\<close>.
  \<open>after others k m\<close> is \<open>m\<close> once the other processes have done what they do at the \<open>k\<close>-th point.

  The environment \<open>workflow_env\<close> renders: the texts of the snapshot, of the events, of the report and of its manifest, SHA-256, the parser of
  JSON files, redaction, the errors of the file system; and it holds the process world and the clock of \<open>Job_Control\<close>.
\<close>

section \<open>Handlers\<close>

definition chain :: "('s \<Rightarrow> ('s, 'a) outcome) \<Rightarrow> ('a \<Rightarrow> 's \<Rightarrow> ('s, 'b) outcome) \<Rightarrow> 's \<Rightarrow> ('s, 'b) outcome" where
  "chain m f s = (case m s of (Inl e, s1) \<Rightarrow> (Inl e, s1) | (Inr v, s1) \<Rightarrow> f v s1)"

definition attempt :: "('s \<Rightarrow> ('s, 'a) outcome) \<Rightarrow> (py_error \<Rightarrow> 's \<Rightarrow> ('s, 'a) outcome) \<Rightarrow> 's \<Rightarrow> ('s, 'a) outcome" where
  "attempt m handler s = (case m s of (Inl e, s1) \<Rightarrow> handler e s1 | (Inr v, s1) \<Rightarrow> (Inr v, s1))"

definition give :: "'a \<Rightarrow> 's \<Rightarrow> ('s, 'a) outcome" where
  "give v s = (Inr v, s)"

definition throw :: "py_error \<Rightarrow> 's \<Rightarrow> ('s, 'a) outcome" where
  "throw e s = (Inl e, s)"

definition after :: "'db others \<Rightarrow> nat \<Rightarrow> ('db node \<Rightarrow> ('db node, 'a) outcome) \<Rightarrow> 'db node \<Rightarrow> ('db node, 'a) outcome" where
  "after others k m s = m (others k s)"

section \<open>Environment\<close>

record workflow_env =
  wv_job :: job_env
  wv_runs_dir :: string
  wv_clock :: "nat \<Rightarrow> timestamp"
  wv_digest :: "json \<Rightarrow> string"
  wv_redact :: "(string \<times> json) list \<Rightarrow> (string \<times> json) list"
  wv_snapshot_text :: "workflow_record \<Rightarrow> string"
  wv_events_text :: "workflow_event list \<Rightarrow> string"
  wv_report_text :: "workflow_record \<Rightarrow> string"
  wv_resume_text :: "workflow_record \<Rightarrow> string"
  wv_manifest :: "workflow_record \<Rightarrow> (string \<Rightarrow> string option) \<Rightarrow> py_error + string"
  wv_file_sha256 :: "string \<Rightarrow> string"
  wv_parse :: "string \<Rightarrow> (string \<times> json) list option"
  wv_write_error :: "string \<Rightarrow> py_error option"
  wv_summary_text :: "json \<Rightarrow> string"
  wv_cancel_document :: "run_cancel_reply \<Rightarrow> json"
  wv_launch :: "string \<Rightarrow> string \<Rightarrow> int \<Rightarrow> py_error + int"
  wv_workflow_id :: string
  wv_resolve_repo :: "string \<Rightarrow> py_error option"
  wv_config :: bool
  wv_token :: string
  wv_run_id :: "string \<Rightarrow> string"
  wv_pid :: int

definition workflow_run_dir :: "workflow_env \<Rightarrow> string \<Rightarrow> string" where
  "workflow_run_dir env k = wv_runs_dir env @ ''/workflows/'' @ k"

definition write_workflow_file :: "workflow_env \<Rightarrow> string \<Rightarrow> string \<Rightarrow> 'db node \<Rightarrow> ('db node, unit) outcome" where
  "write_workflow_file env path text s =
     (case wv_write_error env path of Some e \<Rightarrow> (Inl e, s) | None \<Rightarrow> (Inr (), s\<lparr>n_files := (n_files s)(path \<mapsto> text)\<rparr>))"

definition read_workflow :: "string \<Rightarrow> ('a workflow_db_scheme) node \<Rightarrow> (('a workflow_db_scheme) node, workflow_record) outcome" where
  "read_workflow k s = (get_workflow k (n_db s), s)"

definition source_status :: "workflow_record \<Rightarrow> workflow_status" where
  "source_status w = (case w_terminal_status (wr_row w) of None \<Rightarrow> w_status (wr_row w) | Some st \<Rightarrow> st)"

section \<open>Snapshot and report\<close>

definition write_workflow_snapshot ::
  "workflow_env \<Rightarrow> workflow_record \<Rightarrow> workflow_event list \<Rightarrow> 'db node \<Rightarrow> ('db node, unit) outcome" where
  "write_workflow_snapshot env w es =
     (let dir = workflow_run_dir env (w_workflow_id (wr_row w)) in
      chain (write_workflow_file env (dir @ ''/result.json'') (wv_snapshot_text env w))
        (\<lambda>_. write_workflow_file env (dir @ ''/events.jsonl'') (wv_events_text env es)))"

definition generate_workflow_report :: "workflow_env \<Rightarrow> workflow_record \<Rightarrow> 'db node \<Rightarrow> ('db node, unit) outcome" where
  "generate_workflow_report env w =
     (if \<not> workflow_over (source_status w) then throw (ValueError (''Workflow is not reportable: '' @ w_workflow_id (wr_row w)))
      else
        let dir = workflow_run_dir env (w_workflow_id (wr_row w)) in
        chain (write_workflow_file env (dir @ ''/workflow_report.md'') (wv_report_text env w)) (\<lambda>_.
        chain (write_workflow_file env (dir @ ''/resume_prompt.txt'') (wv_resume_text env w)) (\<lambda>_ s.
          case wv_manifest env w (n_files s) of
            Inl e \<Rightarrow> (Inl e, s) | Inr text \<Rightarrow> write_workflow_file env (dir @ ''/pulse_manifest.json'') text s)))"

section \<open>The hash of the winner\<close>

definition opt_entry :: "string \<Rightarrow> string option \<Rightarrow> (string \<times> json) list" where
  "opt_entry k v = (case v of None \<Rightarrow> [] | Some t \<Rightarrow> [(k, JStr t)])"

fun step_status_value :: "step_status \<Rightarrow> string" where
  "step_status_value SS_PENDING = ''pending''"
| "step_status_value SS_RUNNING = ''running''"
| "step_status_value SS_PASSED = ''passed''"
| "step_status_value SS_FAILED = ''failed''"
| "step_status_value SS_SKIPPED = ''skipped''"
| "step_status_value SS_CANCELLED = ''cancelled''"

fun on_failure_value :: "step_on_failure \<Rightarrow> string" where
  "on_failure_value OF_STOP = ''stop''"
| "on_failure_value OF_CONTINUE = ''continue''"

text \<open>\<open>step.model_dump(mode="json", exclude_none=True)\<close>\<close>

definition step_document :: "step_row \<Rightarrow> json" where
  "step_document s = JObj
     ([(''id'', JStr (s_step_id s)), (''type'', JStr (step_type_value (s_type s))), (''depends_on'', JArr (map JStr (s_depends_on s))),
       (''on_failure'', JStr (on_failure_value (s_on_failure s))), (''parameters'', JObj (s_parameters s)),
       (''order_index'', JInt (int (s_order_index s))), (''status'', JStr (step_status_value (s_status s))),
       (''state_version'', JInt (s_state_version s))] @
      opt_entry ''child_run_id'' (s_child_run_id s) @ [(''child_launch_attempts'', JInt (s_child_launch_attempts s))] @
      opt_entry ''started_at'' (s_started_at s) @ opt_entry ''ended_at'' (s_ended_at s) @
      [(''summary'', JStr (s_summary s)), (''error'', JStr (s_error s)), (''artifact_paths'', JArr (map JStr (s_artifact_paths s))),
       (''result'', s_result s)])"

definition publication_document :: "workflow_record \<Rightarrow> json" where
  "publication_document w =
     (let r = wr_row w in JObj
       [(''workflow_id'', JStr (w_workflow_id r)), (''repo_name'', JStr (w_repo_name r)), (''objective'', JStr (w_objective r)),
        (''terminal_status'', JStr (workflow_status_value (source_status w))), (''created_at'', JStr (w_created_at r)),
        (''started_at'', opt_str (w_started_at r)), (''ended_at'', opt_str (w_ended_at r)),
        (''active_child_run_id'', opt_str (w_active_child_run_id r)), (''failure_summary'', JStr (w_failure_summary r)),
        (''recommended_next_action'', JStr (w_recommended_next_action r)), (''result'', w_result r),
        (''steps'', JArr (map step_document (wr_steps w)))])"

definition workflow_publication_hash :: "workflow_env \<Rightarrow> workflow_record \<Rightarrow> string" where
  "workflow_publication_hash env w = wv_digest env (publication_document w)"

section \<open>Publication\<close>

text \<open>\<open>str(d.get(key) or "")\<close>\<close>

definition text_of :: "string \<Rightarrow> (string \<times> json) list \<Rightarrow> string" where
  "text_of k d = py_str_or_empty (jget k d)"

definition publication_artifacts_match :: "workflow_env \<Rightarrow> (string \<Rightarrow> string option) \<Rightarrow> workflow_record \<Rightarrow> bool" where
  "publication_artifacts_match env fs w =
     (let dir = workflow_run_dir env (w_workflow_id (wr_row w)); status = workflow_status_value (source_status w);
          result_path = dir @ ''/result.json''; report_path = dir @ ''/workflow_report.md'';
          resume_path = dir @ ''/resume_prompt.txt''; manifest_path = dir @ ''/pulse_manifest.json'' in
      case (fs result_path, fs report_path, fs resume_path, fs manifest_path) of
        (Some result_text, Some report_text, Some resume_text, Some manifest_text) \<Rightarrow>
          (case (wv_parse env manifest_text, wv_parse env result_text) of
             (Some manifest, Some result) \<Rightarrow>
               text_of ''content_sha256'' manifest = wv_file_sha256 env resume_text \<and>
               text_of ''report_sha256'' manifest = wv_file_sha256 env report_text \<and>
               text_of ''result_sha256'' manifest = wv_file_sha256 env result_text \<and>
               text_of ''artifact_id'' manifest = w_workflow_id (wr_row w) \<and> text_of ''source_kind'' manifest = ''workflow'' \<and>
               text_of ''source_status'' manifest = status \<and> text_of ''result_json_path'' manifest = result_path \<and>
               text_of ''report_path'' manifest = report_path \<and> text_of ''resume_prompt_path'' manifest = resume_path \<and>
               text_of ''workflow_id'' result = w_workflow_id (wr_row w) \<and>
               str_or (text_of ''terminal_status'' result) (text_of ''status'' result) = status \<and>
               text_of ''publication_hash'' result = w_publication_hash (wr_row w)
           | _ \<Rightarrow> False)
      | _ \<Rightarrow> False)"

definition dedup :: "string list \<Rightarrow> string list" where
  "dedup xs = rev (remdups (rev xs))"

text \<open>The body of the \<open>try\<close> block: event, snapshot, report, then the guarded completion.\<close>

definition publish_claimed ::
  "workflow_env \<Rightarrow> ('a workflow_db_scheme) others \<Rightarrow> string \<Rightarrow> workflow_record \<Rightarrow> workflow_status \<Rightarrow> workflow_status \<Rightarrow> string \<Rightarrow>
   ('a workflow_db_scheme) node \<Rightarrow> (('a workflow_db_scheme) node, workflow_record) outcome" where
  "publish_claimed env others k claimed expected source hash =
     (let dir = workflow_run_dir env k;
          paths = dedup (w_artifact_paths (wr_row claimed) @
                    [dir @ ''/workflow_report.md'', dir @ ''/resume_prompt.txt'', dir @ ''/pulse_manifest.json'']) in
      chain (on_db (workflow_append_event k ''info'' ''reported'' ''Workflow report artifacts written''
               [(''publication_hash'', JStr hash)] False unguarded (wv_clock env 1))) (\<lambda>_.
      after others 2 (\<lambda>s. chain (write_workflow_snapshot env claimed (get_workflow_events k 500 (n_db s))) (\<lambda>_.
      chain (generate_workflow_report env claimed) (\<lambda>_.
      after others 3 (chain (on_db (mark_publication_complete k expected (w_state_version (wr_row claimed)) hash
               (case w_terminal_status (wr_row claimed) of None \<Rightarrow> source | Some st \<Rightarrow> st) paths (wv_clock env 2))) (\<lambda>published.
      case published of Some w \<Rightarrow> give w | None \<Rightarrow> after others 4 (read_workflow k))))) s)))"

definition publish_workflow ::
  "workflow_env \<Rightarrow> ('a workflow_db_scheme) others \<Rightarrow> string \<Rightarrow> ('a workflow_db_scheme) node \<Rightarrow>
   (('a workflow_db_scheme) node, workflow_record) outcome" where
  "publish_workflow env others k =
     chain (read_workflow k) (\<lambda>winner s.
       let r = wr_row winner; source = source_status winner; expected = w_status r; hash = workflow_publication_hash env winner in
       if w_publication_status r = ''published'' \<and> w_status r = WS_REPORTED \<and> publication_artifacts_match env (n_files s) winner
       then (Inr winner, s)
       else if source \<in> {WS_CANCELLATION_PENDING, WS_RECOVERY_PENDING, WS_QUEUED, WS_RUNNING, WS_CREATED} then (Inr winner, s)
       else chain (on_db (begin_publication k expected (w_state_version r) hash (wv_clock env 0))) (\<lambda>claimed.
         case claimed of
           None \<Rightarrow> after others 1 (read_workflow k)
         | Some c \<Rightarrow> attempt (publish_claimed env others k c expected source hash)
             (\<lambda>e. after others 5 (chain (on_db (mark_publication_failed k expected (w_state_version (wr_row c)) hash (exc_text e)
                     (wv_clock env 3))) (\<lambda>_. after others 6 (read_workflow k))))) (others 0 s))"

end
