(* ===== verification/Workflow_Control.thy ===== *)
theory Workflow_Control
  imports Workflow_Publication
begin

text \<open>
  The workflow manager, \<open>src/soma/workflows/manager.py\<close>: start, cancellation and the reconciliation at start-up. The child runs of a workflow
  are cancelled through \<open>cancel_run\<close> of \<open>Job_Control\<close>, on the same node. Processes are consulted through the process world of the environment;
  terminating a tree and launching a worker are effects. \<open>get_status\<close> and \<open>get_result\<close> of the manager only render a record.
\<close>

section \<open>Processes and children\<close>

definition process_world :: "workflow_env \<Rightarrow> nat \<Rightarrow> proc_world" where
  "process_world env k = je_world (wv_job env) k"

text \<open>\<open>_identity_state\<close>: a process that is recorded without an identity is only known to be alive.\<close>

datatype identity_state = Absent | Active | Uncertain

definition workflow_identity_state :: "workflow_env \<Rightarrow> nat \<Rightarrow> int option \<Rightarrow> string \<Rightarrow> identity_state" where
  "workflow_identity_state env k pid identity =
     (if pid_or_zero pid = 0 then Absent
      else if identity \<noteq> [] then (if process_matches_identity (process_world env k) pid identity then Active else Absent)
      else if process_is_running (process_world env k) pid then Uncertain else Absent)"

definition unverified_report :: "int \<Rightarrow> (string \<times> json) list" where
  "unverified_report pid = [(''pid'', JInt pid), (''terminated'', JBool False), (''termination_attempted'', JBool False),
     (''error'', JStr ''Process identity was not verified.'')]"

definition terminate_if_verified ::
  "workflow_env \<Rightarrow> nat \<Rightarrow> int option \<Rightarrow> string \<Rightarrow> 'db node \<Rightarrow> ('db node, (string \<times> json) list) outcome" where
  "terminate_if_verified env k pid identity s =
     (let p = pid_or_zero pid in
      if p = 0 \<or> identity = [] \<or> \<not> process_matches_identity (process_world env k) pid identity then (Inr (unverified_report p), s)
      else
        let report = je_terminate (wv_job env) p in
        (Inr (if flag ''terminated'' report \<and> process_matches_identity (process_world env (k + 1)) pid identity
              then jset ''error'' (JStr ''Process identity remains active after termination attempt.'')
                     (jset ''terminated'' (JBool False) report)
              else report), perform (Terminate_tree p) s))"

text \<open>\<open>JobManager.get_status(...)["status"]\<close>\<close>

definition child_status :: "string \<Rightarrow> 'a run_db_scheme \<Rightarrow> string" where
  "child_status k db = (case get_run k db of
     Inr r \<Rightarrow> r_status r | Inl (ValueError _) \<Rightarrow> ''invalid'' | Inl _ \<Rightarrow> ''not_found'')"

definition owns_generation :: "workflow_record \<Rightarrow> string \<Rightarrow> int \<Rightarrow> bool" where
  "owns_generation w token gen = (w_worker_lease_token (wr_row w) = token \<and> w_lease_generation (wr_row w) = gen)"

definition launch_live :: "workflow_record \<Rightarrow> bool" where
  "launch_live w = (w_status (wr_row w) \<in> {WS_QUEUED, WS_RUNNING})"

text \<open>\<open>_child_ownership_problem\<close>\<close>

definition child_ownership_problem :: "workflow_record \<Rightarrow> string" where
  "child_ownership_problem w =
     (let active = w_active_child_run_id (wr_row w) in
      case filter (\<lambda>s. s_status s = SS_RUNNING) (wr_steps w) of
        [] \<Rightarrow> if active \<noteq> None then ''Workflow has an active child ID but no running step owns it.'' else []
      | [s] \<Rightarrow>
          if s_type s = ST_LOCAL_SUMMARY
          then (if s_child_run_id s \<noteq> None \<or> active \<noteq> None
                then ''A local summary step has external child ownership and cannot be safely resumed.'' else [])
          else if s_child_run_id s = None then ''Running external step '' @ s_step_id s @ '' has no durable child run ID.''
          else if active \<noteq> s_child_run_id s then ''Workflow active child ID does not match its running external step.''
          else []
      | _ \<Rightarrow> ''Workflow has multiple running steps and cannot safely choose child ownership.'')"

section \<open>Events\<close>

definition workflow_note ::
  "workflow_env \<Rightarrow> ('a workflow_db_scheme) others \<Rightarrow> string \<Rightarrow> string \<Rightarrow> string \<Rightarrow> string \<Rightarrow> (string \<times> json) list \<Rightarrow>
   ('a workflow_db_scheme) node \<Rightarrow> (('a workflow_db_scheme) node, unit) outcome" where
  "workflow_note env others k level stage message data =
     chain (on_db (workflow_append_event k level stage message (wv_redact env data) False unguarded (wv_clock env 10))) (\<lambda>_.
     after others 20 (chain (read_workflow k) (\<lambda>w.
     after others 21 (\<lambda>s. write_workflow_snapshot env w (get_workflow_events k 500 (n_db s)) s))))"

definition finalize_terminal_workflow ::
  "workflow_env \<Rightarrow> ('a workflow_db_scheme) others \<Rightarrow> string \<Rightarrow> ('a workflow_db_scheme) node \<Rightarrow>
   (('a workflow_db_scheme) node, workflow_record) outcome" where
  "finalize_terminal_workflow env others k = publish_workflow env (\<lambda>i. others (100 + i)) k"

section \<open>Cancellation\<close>

text \<open>The child first: its cancellation is requested, then its stored status decides. Whatever it raises is a reason to wait.\<close>

definition cancel_child ::
  "workflow_env \<Rightarrow> ('a workflow_db_scheme) others \<Rightarrow> string \<Rightarrow> ('a workflow_db_scheme) node \<Rightarrow>
   (((string \<times> json) list \<times> string list) \<times> ('a workflow_db_scheme) node)" where
  "cancel_child env others child s =
     (let details = [(''cancelled_by_request'', JBool True), (''child_run_id'', JStr child)] in
      case cancel_run (wv_job env) (\<lambda>i. others (2000 + i)) False child s of
        (Inl e, s1) \<Rightarrow> ((details, [''Child cancellation confirmation failed: '' @ exc_text e]), s1)
      | (Inr reply, s1) \<Rightarrow>
          let s2 = others 30 s1; details1 = jset ''child_cancel_result'' (wv_cancel_document env reply) details in
          ((details1, if is_terminal (child_status child (n_db s2)) then [] else [''Child cancellation is pending confirmation.'']), s2))"

text \<open>Then the two processes. The state is the reports so far and the reasons so far.\<close>

definition cancel_process ::
  "workflow_env \<Rightarrow> nat \<Rightarrow> string \<Rightarrow> int option \<Rightarrow> string \<Rightarrow> (string \<times> json) list list \<times> string list \<Rightarrow> 'db node \<Rightarrow>
   ((string \<times> json) list list \<times> string list) \<times> 'db node" where
  "cancel_process env k role pid identity acc s =
     (let (reports, reasons) = acc; p = pid_or_zero pid in
      if p = 0 \<or> list_ex (\<lambda>r. jget ''pid'' r = Some (JInt p)) reports then (acc, s)
      else case workflow_identity_state env k pid identity of
        Absent \<Rightarrow> (acc, s)
      | Uncertain \<Rightarrow> ((reports, reasons @ [role @ '' PID '' @ py_str_int p @
            '' is live but has no verifiable identity; termination was not attempted.'']), s)
      | Active \<Rightarrow>
          (case terminate_if_verified env (k + 1) pid identity s of
             (Inl e, s1) \<Rightarrow> (acc, s1)
           | (Inr report, s1) \<Rightarrow>
               let report1 = jset ''role'' (JStr role) report in
               ((reports @ [report1],
                 if flag ''terminated'' report1 then reasons else reasons @ [role @ '' process termination was not confirmed.'']), s1)))"

definition with_reports :: "(string \<times> json) list list \<Rightarrow> (string \<times> json) list \<Rightarrow> (string \<times> json) list" where
  "with_reports reports d = (if reports = [] then d else jset ''termination_reports'' (JArr (map JObj reports)) d)"

definition confirm_cancellation ::
  "workflow_env \<Rightarrow> ('a workflow_db_scheme) others \<Rightarrow> string \<Rightarrow> (string \<times> json) list \<Rightarrow> ('a workflow_db_scheme) node \<Rightarrow>
   (('a workflow_db_scheme) node, workflow_record) outcome" where
  "confirm_cancellation env others k details =
     chain (read_workflow k) (\<lambda>current. let r = wr_row current in
     after others 33 (chain (on_db (finalize_cancellation k (w_state_version r) (w_worker_lease_token r) (w_lease_generation r)
         (JObj (jset ''confirmed'' (JBool True) (jupdate (as_object (w_result r)) details))) (wv_clock env 11))) (\<lambda>final.
     case final of
       None \<Rightarrow> after others 34 (read_workflow k)
     | Some _ \<Rightarrow> after others 35 (chain (workflow_note env others k ''warning'' ''cancelled'' ''Workflow cancellation confirmed'' details) (\<lambda>_.
         after others 36 (finalize_terminal_workflow env others k))))))"

definition reconcile_cancellation ::
  "workflow_env \<Rightarrow> ('a workflow_db_scheme) others \<Rightarrow> workflow_record \<Rightarrow> ('a workflow_db_scheme) node \<Rightarrow>
   (('a workflow_db_scheme) node, workflow_record) outcome" where
  "reconcile_cancellation env others w s =
     (let r = wr_row w; k = w_workflow_id r;
          ((details, reasons), s1) = (case w_active_child_run_id r of
             None \<Rightarrow> (([(''cancelled_by_request'', JBool True)], []), s) | Some child \<Rightarrow> cancel_child env others child s);
          ((reports1, reasons1), s2) = cancel_process env 20 ''worker'' (w_worker_pid r) (w_worker_identity r) ([], reasons) s1;
          ((reports2, reasons2), s3) = cancel_process env 24 ''launcher'' (w_launcher_pid r) (w_launcher_identity r) (reports1, reasons1) s2;
          details2 = with_reports reports2 details in
      if reasons2 \<noteq> []
      then chain (on_db (mark_cancellation_retry k (w_state_version r) (w_worker_lease_token r) (w_lease_generation r)
             (JObj (jset ''reasons'' (JArr (map JStr reasons2)) (jupdate (as_object (w_result r)) details2))) (join_with '' '' reasons2)
             (wv_clock env 12)))
             (\<lambda>u. case u of Some updated \<Rightarrow> give updated | None \<Rightarrow> after others 31 (read_workflow k)) (others 32 s3)
      else confirm_cancellation env others k details2 (others 32 s3))"

record workflow_answer =
  wa_ok :: bool
  wa_workflow_id :: string
  wa_status :: string
  wa_cancelled :: bool
  wa_child_run_id :: "string option"
  wa_child_cancel_result :: "json option"
  wa_error :: string

definition workflow_not_found :: "string \<Rightarrow> py_error \<Rightarrow> workflow_answer" where
  "workflow_not_found k e = \<lparr>wa_ok = False, wa_workflow_id = k, wa_status = ''not_found'', wa_cancelled = False, wa_child_run_id = None,
     wa_child_cancel_result = None, wa_error = exc_text e\<rparr>"

definition cancellation_answer :: "string \<Rightarrow> workflow_record \<Rightarrow> workflow_record \<Rightarrow> workflow_answer" where
  "cancellation_answer k w final =
     (let cancelled = (w_terminal_status (wr_row final) = Some WS_CANCELLED) in
      \<lparr>wa_ok = cancelled, wa_workflow_id = k, wa_status = workflow_status_value (w_status (wr_row final)), wa_cancelled = cancelled,
       wa_child_run_id = w_active_child_run_id (wr_row w),
       wa_child_cancel_result = jget ''child_cancel_result'' (as_object (w_result (wr_row final))),
       wa_error = (if cancelled then [] else w_failure_summary (wr_row final))\<rparr>)"

text \<open>When the request loses its race the record is read again, and the reconciliation runs on whatever was read.\<close>

definition cancel_workflow ::
  "workflow_env \<Rightarrow> ('a workflow_db_scheme) others \<Rightarrow> string \<Rightarrow> ('a workflow_db_scheme) node \<Rightarrow>
   (('a workflow_db_scheme) node, workflow_answer) outcome" where
  "cancel_workflow env others k s =
     (case get_workflow k (n_db s) of
        Inl e \<Rightarrow> (Inr (workflow_not_found k e), s)
      | Inr w \<Rightarrow>
          let r = wr_row w in
          if workflow_over (w_status r)
          then (Inr \<lparr>wa_ok = True, wa_workflow_id = k, wa_status = workflow_status_value (w_status r), wa_cancelled = False,
                  wa_child_run_id = None, wa_child_cancel_result = None, wa_error = []\<rparr>, s)
          else
            chain (\<lambda>s. if w_status r = WS_CANCELLATION_PENDING then (Inr w, s)
                 else chain (on_db (workflow_request_cancellation k [w_status r] (w_state_version r) (w_worker_lease_token r)
                        (w_lease_generation r)
                        (JObj [(''cancelled_by_request'', JBool True), (''active_child_run_id'', opt_str (w_active_child_run_id r))])
                        (wv_clock env 13)))
                        (\<lambda>u. case u of Some requested \<Rightarrow> give requested | None \<Rightarrow> after others 38 (read_workflow k)) (others 37 s))
              (\<lambda>w1. after others 39 (chain (reconcile_cancellation env others w1) (\<lambda>final. give (cancellation_answer k w1 final)))) s)"
section \<open>Start\<close>

record workflow_start_answer =
  st_ok :: bool
  st_workflow_id :: string
  st_status :: workflow_status
  st_step_count :: nat
  st_error :: string

text \<open>The worker is launched, then recorded; a recording that loses to the worker's own claim is repeated on the claimed row. When nothing was
  recorded a start reads the row once more, a relaunch keeps what it read (\<open>otherwise\<close>).\<close>

definition record_launch_again ::
  "workflow_env \<Rightarrow> ('a workflow_db_scheme) others \<Rightarrow> string \<Rightarrow> int \<Rightarrow> string \<Rightarrow> int \<Rightarrow> string \<Rightarrow> nat \<Rightarrow>
   (workflow_record \<Rightarrow> ('a workflow_db_scheme) node \<Rightarrow> (('a workflow_db_scheme) node, workflow_record) outcome) \<Rightarrow> workflow_record option \<Rightarrow>
   ('a workflow_db_scheme) node \<Rightarrow> (('a workflow_db_scheme) node, workflow_record) outcome" where
  "record_launch_again env others k pid token gen identity clk otherwise launched =
     (case launched of
        Some w \<Rightarrow> give w
      | None \<Rightarrow> after others 40 (chain (read_workflow k) (\<lambda>current.
          if owns_generation current token gen \<and> launch_live current
          then after others 41 (chain (on_db (workflow_record_launch k pid (w_state_version (wr_row current)) token gen identity (wv_clock env clk)))
                 (\<lambda>again. case again of Some w \<Rightarrow> give w | None \<Rightarrow> otherwise current))
          else otherwise current)))"

definition start_launch ::
  "workflow_env \<Rightarrow> ('a workflow_db_scheme) others \<Rightarrow> string \<Rightarrow> int \<Rightarrow> ('a workflow_db_scheme) node \<Rightarrow>
   (('a workflow_db_scheme) node, workflow_record) outcome" where
  "start_launch env others k version s =
     (case wv_launch env k (wv_token env) 1 of
        Inl e \<Rightarrow> (Inl e, s)
      | Inr pid \<Rightarrow>
          let identity = (\<lambda>i. process_identity (process_world env i) (Some pid)) in
          chain (on_db (workflow_record_launch k pid version (wv_token env) 1 (identity 0) (wv_clock env 15))) (\<lambda>launched.
          chain (record_launch_again env others k pid (wv_token env) 1 (identity 1) 16 (\<lambda>_. after others 42 (read_workflow k)) launched) (\<lambda>current.
          if \<not> owns_generation current (wv_token env) 1 \<or> \<not> launch_live current
          then chain (terminate_if_verified env 3 (Some pid) (identity 2))
                 (\<lambda>_. throw (RuntimeError ''Initial workflow worker launch lost lease ownership''))
          else after others 43 (chain (workflow_note env others k ''info'' ''worker'' ''Workflow worker process started''
                 [(''launcher_pid'', JInt pid), (''lease_generation'', JInt 1)]) (\<lambda>_. give current))))
            (others 44 (perform (Launch_workflow k (wv_token env) 1 pid) s)))"

definition launch_failed ::
  "workflow_env \<Rightarrow> ('a workflow_db_scheme) others \<Rightarrow> string \<Rightarrow> nat \<Rightarrow> py_error \<Rightarrow> ('a workflow_db_scheme) node \<Rightarrow>
   (('a workflow_db_scheme) node, workflow_start_answer) outcome" where
  "launch_failed env others k count e =
     after others 45 (chain (read_workflow k) (\<lambda>current.
       let r = wr_row current; reason = ''Workflow worker launch failed after durable acceptance: '' @ exc_text e;
           answer = \<lparr>st_ok = False, st_workflow_id = k, st_status = WS_FAILED, st_step_count = count, st_error = reason\<rparr> in
       after others 46 (chain (on_db (workflow_fail k (w_status r) (w_state_version r) (w_worker_lease_token r) (w_lease_generation r) None reason
           ''Review worker startup and retry the workflow.'' (wv_clock env 17))) (\<lambda>failed.
       case failed of
         None \<Rightarrow> give answer
       | Some _ \<Rightarrow> after others 47 (chain (workflow_note env others k ''error'' ''launch_failed'' reason []) (\<lambda>_.
           after others 48 (chain (finalize_terminal_workflow env others k) (\<lambda>_. give answer))))))))"

definition start_workflow ::
  "workflow_env \<Rightarrow> ('a workflow_db_scheme) others \<Rightarrow> string \<Rightarrow> string \<Rightarrow> json list \<Rightarrow> ('a workflow_db_scheme) node \<Rightarrow>
   (('a workflow_db_scheme) node, workflow_start_answer) outcome" where
  "start_workflow env others repo objective js s =
     (case wv_resolve_repo env repo of Some e \<Rightarrow> (Inl e, s) | None \<Rightarrow>
      if \<not> wv_config env
      then (Inr \<lparr>st_ok = False, st_workflow_id = [], st_status = WS_FAILED, st_step_count = 0,
              st_error = ''Durable workflows require a config file path''\<rparr>, s)
      else
        case validate_workflow js of Inl e \<Rightarrow> (Inl e, s) | Inr steps \<Rightarrow>
        let k = wv_workflow_id env; count = length steps in
        chain (on_db (create_workflow k repo objective steps WS_QUEUED (wv_token env) 1 1 (wv_clock env 14))) (\<lambda>persisted.
        after others 49 (chain (workflow_note env others k ''info'' ''queued'' ''Workflow queued'' [(''step_count'', JInt (int count))]) (\<lambda>_.
        after others 50 (chain (read_workflow k) (\<lambda>intent.
        after others 51 (attempt (chain (start_launch env others k (w_state_version (wr_row intent)))
            (\<lambda>w. give \<lparr>st_ok = True, st_workflow_id = k, st_status = w_status (wr_row w), st_step_count = count, st_error = []\<rparr>))
            (launch_failed env others k count))))))) s)"

section \<open>Reconciliation at start-up\<close>

definition mark_workflow_recovery ::
  "workflow_env \<Rightarrow> ('a workflow_db_scheme) others \<Rightarrow> workflow_record \<Rightarrow> string \<Rightarrow> ('a workflow_db_scheme) node \<Rightarrow>
   (('a workflow_db_scheme) node, unit) outcome" where
  "mark_workflow_recovery env others w reason =
     (let r = wr_row w; k = w_workflow_id r in
      chain (on_db (workflow_mark_recovery k [w_status r] (w_state_version r) (w_worker_lease_token r) (w_lease_generation r) reason
          (wv_clock env 18))) (\<lambda>changed.
      case changed of None \<Rightarrow> give () | Some _ \<Rightarrow> after others 52 (workflow_note env others k ''error'' ''recovery_pending'' reason [])))"

definition adopt_live_workflow ::
  "workflow_env \<Rightarrow> ('a workflow_db_scheme) others \<Rightarrow> workflow_record \<Rightarrow> ('a workflow_db_scheme) node \<Rightarrow>
   (('a workflow_db_scheme) node, unit) outcome" where
  "adopt_live_workflow env others w =
     (let r = wr_row w; k = w_workflow_id r in
      chain (on_db (workflow_adopt_worker k (w_state_version r) (w_worker_lease_token r) (w_lease_generation r) (w_heartbeat_at r)
          (wv_clock env 19))) (\<lambda>adopted.
      case adopted of
        None \<Rightarrow> give ()
      | Some _ \<Rightarrow> after others 53 (workflow_note env others k ''info'' ''reconcile'' ''Active workflow worker identity verified after restart''
          [(''worker_pid'', opt_int (w_worker_pid r))])))"

definition exhausted_workflow ::
  "workflow_env \<Rightarrow> ('a workflow_db_scheme) others \<Rightarrow> workflow_record \<Rightarrow> ('a workflow_db_scheme) node \<Rightarrow>
   (('a workflow_db_scheme) node, unit) outcome" where
  "exhausted_workflow env others w =
     (let r = wr_row w; k = w_workflow_id r; reason = ''Workflow exhausted its bounded worker launch attempts'' in
      chain (on_db (workflow_fail k (w_status r) (w_state_version r) (w_worker_lease_token r) (w_lease_generation r) (Some (w_heartbeat_at r)) reason
          ''Review workflow worker startup before retrying.'' (wv_clock env 20))) (\<lambda>failed.
      case failed of
        None \<Rightarrow> give ()
      | Some _ \<Rightarrow> after others 54 (chain (workflow_note env others k ''error'' ''reconcile'' reason []) (\<lambda>_.
          after others 55 (chain (finalize_terminal_workflow env others k) (\<lambda>_. give ()))))))"

definition relaunch_workflow_failed ::
  "workflow_env \<Rightarrow> ('a workflow_db_scheme) others \<Rightarrow> string \<Rightarrow> int \<Rightarrow> py_error \<Rightarrow> ('a workflow_db_scheme) node \<Rightarrow>
   (('a workflow_db_scheme) node, bool) outcome" where
  "relaunch_workflow_failed env others k gen e =
     after others 56 (chain (read_workflow k) (\<lambda>current.
       let r = wr_row current in
       if owns_generation current (wv_token env) gen
       then after others 57 (chain (on_db (workflow_fail k (w_status r) (w_state_version r) (wv_token env) gen None
              (''Workflow worker relaunch failed: '' @ exc_text e) ''Review workflow worker startup before retrying.'' (wv_clock env 21))) (\<lambda>failed.
            case failed of
              None \<Rightarrow> give False
            | Some _ \<Rightarrow> after others 58 (chain (finalize_terminal_workflow env others k) (\<lambda>_. give False))))
       else give False))"

definition launch_reserved ::
  "workflow_env \<Rightarrow> ('a workflow_db_scheme) others \<Rightarrow> workflow_record \<Rightarrow> workflow_record \<Rightarrow> ('a workflow_db_scheme) node \<Rightarrow>
   (('a workflow_db_scheme) node, bool) outcome" where
  "launch_reserved env others w reserved s =
     (let r = wr_row w; k = w_workflow_id r; token = wv_token env; gen = w_lease_generation (wr_row reserved) in
      case wv_launch env k token gen of
        Inl e \<Rightarrow> (Inl e, s)
      | Inr pid \<Rightarrow>
          let identity = process_identity (process_world env 6) (Some pid) in
          chain (on_db (workflow_record_launch k pid (w_state_version (wr_row reserved)) token gen identity (wv_clock env 22))) (\<lambda>launched.
          chain (record_launch_again env others k pid token gen identity 23 give launched) (\<lambda>current.
          if \<not> owns_generation current token gen \<or> \<not> launch_live current
          then chain (terminate_if_verified env 7 (Some pid) identity) (\<lambda>_. give False)
          else after others 59 (chain (workflow_note env others k ''warning'' ''reconcile'' ''Workflow worker relaunched with a new lease generation''
                 [(''previous_worker_pid'', opt_int (w_worker_pid r)), (''launcher_pid'', JInt pid),
                  (''previous_lease_generation'', JInt (w_lease_generation r)), (''lease_generation'', JInt gen)]) (\<lambda>_. give True))))
            (others 60 (perform (Launch_workflow k token gen pid) s)))"

definition relaunch_workflow ::
  "workflow_env \<Rightarrow> ('a workflow_db_scheme) others \<Rightarrow> workflow_record \<Rightarrow> ('a workflow_db_scheme) node \<Rightarrow>
   (('a workflow_db_scheme) node, bool) outcome" where
  "relaunch_workflow env others w =
     (let r = wr_row w; k = w_workflow_id r in
      chain (on_db (workflow_reserve_launch k [w_status r] (w_state_version r) (w_worker_lease_token r) (w_lease_generation r) (w_heartbeat_at r)
          (wv_token env) (wv_clock env 24))) (\<lambda>reserved.
      case reserved of
        None \<Rightarrow> give False
      | Some v \<Rightarrow> after others 61 (attempt (launch_reserved env others w v)
          (relaunch_workflow_failed env others k (w_lease_generation (wr_row v))))))"

text \<open>One workflow of the loop, as it was read; the answer tells whether a worker was launched.\<close>

definition reconcile_workflow ::
  "workflow_env \<Rightarrow> ('a workflow_db_scheme) others \<Rightarrow> workflow_record \<Rightarrow> ('a workflow_db_scheme) node \<Rightarrow>
   (('a workflow_db_scheme) node, bool) outcome" where
  "reconcile_workflow env others w =
     (let r = wr_row w; no = (\<lambda>m. chain m (\<lambda>_. give False)); problem = child_ownership_problem w;
          worker = workflow_identity_state env 4 (w_worker_pid r) (w_worker_identity r);
          launcher = workflow_identity_state env 5 (w_launcher_pid r) (w_launcher_identity r) in
      if workflow_over (w_status r) then chain (finalize_terminal_workflow env others (w_workflow_id r)) (\<lambda>_. give False)
      else if w_status r = WS_CANCELLATION_PENDING then chain (reconcile_cancellation env others w) (\<lambda>_. give False)
      else if w_status r = WS_RECOVERY_PENDING then give False
      else if problem \<noteq> [] then no (mark_workflow_recovery env others w problem)
      else if worker = Active then no (adopt_live_workflow env others w)
      else if launcher = Active then give False
      else if worker = Uncertain \<or> launcher = Uncertain
      then no (mark_workflow_recovery env others w
             ''A recorded workflow PID is live but has no verifiable process-start identity; no relaunch or raw-PID termination was attempted.'')
      else if w_launch_attempts r \<ge> 2 then no (exhausted_workflow env others w)
      else relaunch_workflow env others w)"

fun reconcile_workflows ::
  "(nat \<Rightarrow> workflow_env) \<Rightarrow> ('a workflow_db_scheme) others \<Rightarrow> workflow_record list \<Rightarrow> ('a workflow_db_scheme) node \<Rightarrow>
   (('a workflow_db_scheme) node, nat) outcome" where
  "reconcile_workflows env others [] = give 0"
| "reconcile_workflows env others (w # ws) =
     chain (reconcile_workflow (env (length ws)) (\<lambda>i. others (5000 * length ws + i)) w)
       (\<lambda>launched. chain (reconcile_workflows env others ws) (\<lambda>n. give (if launched then n + 1 else n)))"

definition workflow_reconcile_startup ::
  "(nat \<Rightarrow> workflow_env) \<Rightarrow> ('a workflow_db_scheme) others \<Rightarrow> ('a workflow_db_scheme) node \<Rightarrow>
   (('a workflow_db_scheme) node, nat) outcome" where
  "workflow_reconcile_startup env others s =
     (if \<not> wv_config (env 0) then (Inr 0, s)
      else reconcile_workflows env others (iter_recoverable_workflows (n_db s)) (others 1 s))"


end
