(* ===== verification/Workflow_Worker.thy ===== *)
theory Workflow_Worker
  imports Workflow_Control
begin

text \<open>
  The workflow worker, \<open>src/soma/workflows/worker.py\<close>. One turn of its loop is a handler that answers \<open>None\<close> to go on and \<open>Some code\<close> to
  return; the loop itself is a partial function, so that \<open>None\<close> is a worker that never returns. Sleeping has no effect of its own. The start
  of a child run is an argument (\<open>start\<close>): the operations \<open>start_project_command\<close>, \<open>start_pytest_path\<close> and \<open>start_git_readonly\<close> of the job
  manager. The environment and the interference may differ from turn to turn.
\<close>

type_synonym 'db starter = "string \<Rightarrow> step_type \<Rightarrow> string \<Rightarrow> string \<Rightarrow> 'db node \<Rightarrow> ('db node, (string \<times> json) list) outcome"

record worker =
  wk_id :: string
  wk_token :: string
  wk_generation :: int

section \<open>Events and ends\<close>

definition step_over :: "step_status \<Rightarrow> bool" where
  "step_over st = (st \<in> {SS_PASSED, SS_FAILED, SS_SKIPPED, SS_CANCELLED})"

definition find_step :: "string \<Rightarrow> workflow_record \<Rightarrow> step_row option" where
  "find_step i w = find (\<lambda>s. s_step_id s = i) (wr_steps w)"

text \<open>\<open>_event\<close>: written only by the holder of the lease, against the version just read.\<close>

definition worker_event ::
  "workflow_env \<Rightarrow> ('a workflow_db_scheme) others \<Rightarrow> worker \<Rightarrow> string \<Rightarrow> string \<Rightarrow> string \<Rightarrow> (string \<times> json) list \<Rightarrow>
   ('a workflow_db_scheme) node \<Rightarrow> (('a workflow_db_scheme) node, bool) outcome" where
  "worker_event env others me level stage message data =
     chain (read_workflow (wk_id me)) (\<lambda>w. let r = wr_row w in
     if w_worker_lease_token r \<noteq> wk_token me \<or> w_lease_generation r \<noteq> wk_generation me then give False
     else after others 10 (chain (on_db (workflow_append_event (wk_id me) level stage message (wv_redact env data) False
            \<lparr>eg_lease_token = Some (wk_token me), eg_lease_generation = Some (wk_generation me), eg_statuses = Some [w_status r],
             eg_state_version = Some (w_state_version r)\<rparr> (wv_clock env 30))) (\<lambda>ev.
       case ev of
         None \<Rightarrow> give False
       | Some _ \<Rightarrow> after others 11 (chain (read_workflow (wk_id me)) (\<lambda>current.
           after others 12 (\<lambda>s. chain (write_workflow_snapshot env current (get_workflow_events (wk_id me) 500 (n_db s))) (\<lambda>_. give True) s))))))"

definition worker_transition ::
  "workflow_env \<Rightarrow> ('a workflow_db_scheme) others \<Rightarrow> worker \<Rightarrow> workflow_status \<Rightarrow> string \<Rightarrow> string \<Rightarrow>
   ('a workflow_db_scheme) node \<Rightarrow> (('a workflow_db_scheme) node, unit) outcome" where
  "worker_transition env others me status summary action =
     chain (read_workflow (wk_id me)) (\<lambda>current.
     after others 13 (chain (on_db (workflow_transition_terminal (wk_id me) status (w_state_version (wr_row current)) (wk_token me)
         (wk_generation me) summary action (wv_clock env 31))) (\<lambda>updated.
     case updated of
       None \<Rightarrow> give ()
     | Some _ \<Rightarrow> after others 14 (chain (worker_event env others me (if status = WS_COMPLETED then ''info'' else ''warning'') ''terminal''
           (''Workflow reached terminal status '' @ workflow_status_value status) [(''recommended_next_action'', JStr action)]) (\<lambda>_.
         after others 15 (chain (publish_workflow env (\<lambda>i. others (100 + i)) (wk_id me)) (\<lambda>_. give ())))))))"

definition worker_recovery ::
  "workflow_env \<Rightarrow> ('a workflow_db_scheme) others \<Rightarrow> worker \<Rightarrow> string \<Rightarrow> ('a workflow_db_scheme) node \<Rightarrow>
   (('a workflow_db_scheme) node, unit) outcome" where
  "worker_recovery env others me reason =
     chain (read_workflow (wk_id me)) (\<lambda>current.
     after others 16 (chain (on_db (workflow_mark_recovery (wk_id me) [WS_RUNNING] (w_state_version (wr_row current)) (wk_token me)
         (wk_generation me) reason (wv_clock env 32))) (\<lambda>changed.
     case changed of
       None \<Rightarrow> give ()
     | Some _ \<Rightarrow> after others 17 (chain (worker_event env others me ''error'' ''recovery_pending'' reason []) (\<lambda>_. give ())))))"

section \<open>Ending a step\<close>

text \<open>\<open>redact_and_truncate(result)\<close> as the stored document.\<close>

definition stored_result :: "workflow_env \<Rightarrow> (string \<times> json) list \<Rightarrow> json" where
  "stored_result env d = JObj (wv_redact env d)"

definition finish_step ::
  "workflow_env \<Rightarrow> ('a workflow_db_scheme) others \<Rightarrow> worker \<Rightarrow> step_row \<Rightarrow> step_status \<Rightarrow> timestamp \<Rightarrow> string \<Rightarrow> string \<Rightarrow>
   (string \<times> json) list \<Rightarrow> bool \<Rightarrow> ('a workflow_db_scheme) node \<Rightarrow> (('a workflow_db_scheme) node, bool) outcome" where
  "finish_step env others me step status ended_at summary error result clear_child =
     chain (read_workflow (wk_id me)) (\<lambda>current.
     case find_step (s_step_id step) current of
       None \<Rightarrow> give False
     | Some now_step \<Rightarrow> after others 18 (chain (on_db (conditional_update_step (wk_id me) (s_step_id step)
           [S_status status, S_ended_at (Some ended_at), S_summary summary, S_error error, S_result (stored_result env result)]
           (wk_token me) (wk_generation me)
           \<lparr>sg_statuses = [SS_RUNNING], sg_state_version = Some (s_state_version now_step), sg_child_run_id = Some (s_child_run_id step),
            sg_clear_active = clear_child, sg_workflow_version = Some (w_state_version (wr_row current))\<rparr> [] (wv_clock env 33)))
         (\<lambda>u. give (u \<noteq> None))))"

definition fail_step ::
  "workflow_env \<Rightarrow> ('a workflow_db_scheme) others \<Rightarrow> worker \<Rightarrow> step_row \<Rightarrow> string \<Rightarrow> string \<Rightarrow> (string \<times> json) list \<Rightarrow>
   workflow_status option \<Rightarrow> string \<Rightarrow> ('a workflow_db_scheme) node \<Rightarrow> (('a workflow_db_scheme) node, bool) outcome" where
  "fail_step env others me step summary error result workflow_status action =
     chain (read_workflow (wk_id me)) (\<lambda>current.
     case find_step (s_step_id step) current of
       None \<Rightarrow> give False
     | Some now_step \<Rightarrow>
         if s_status now_step \<noteq> SS_RUNNING then give False
         else after others 19 (chain (on_db (conditional_update_step (wk_id me) (s_step_id step)
             [S_status SS_FAILED, S_ended_at (Some (wv_clock env 34)), S_summary summary, S_error error, S_result (stored_result env result)]
             (wk_token me) (wk_generation me)
             \<lparr>sg_statuses = [SS_RUNNING], sg_state_version = Some (s_state_version now_step), sg_child_run_id = Some (s_child_run_id now_step),
              sg_clear_active = (s_child_run_id now_step \<noteq> None), sg_workflow_version = Some (w_state_version (wr_row current))\<rparr>
             [W_failure_summary summary] (wv_clock env 35))) (\<lambda>updated.
           case updated of
             None \<Rightarrow> give False
           | Some _ \<Rightarrow> after others 20 (chain (worker_event env others me ''error'' ''step_failed''
                 (''Workflow step '' @ s_step_id step @ '' failed'') [(''error'', JStr error), (''child_run_id'', opt_str (s_child_run_id step))]) (\<lambda>_.
               case (case workflow_status of Some st \<Rightarrow> Some st | None \<Rightarrow> if s_on_failure step = OF_STOP then Some WS_FAILED else None) of
                 None \<Rightarrow> give True
               | Some target \<Rightarrow> after others 21 (chain (worker_transition env others me target summary
                     (str_or action ''Inspect the failing step and adjust the workflow before retrying.'')) (\<lambda>_. give True)))))))"

section \<open>The active child\<close>

definition lookup_error_document :: "string \<Rightarrow> py_error \<Rightarrow> (string \<times> json) list" where
  "lookup_error_document k e =
     [(''ok'', JBool False), (''run_id'', JStr k),
      (''status'', JStr (case e of ValueError _ \<Rightarrow> ''invalid'' | _ \<Rightarrow> ''not_found'')), (''classification'', JStr ''lookup_error''),
      (''error_code'', JStr (case e of ValueError _ \<Rightarrow> ''invalid_run_id'' | _ \<Rightarrow> ''run_not_found'')), (''error'', JStr (exc_text e)),
      (''result_available'', JBool False), (''exit_code'', JNull), (''stdout'', JStr []), (''stderr'', JStr [])]"

text \<open>\<open>get_result\<close>: the stored result, or what is known of a run that has none yet. A workflow names its child by a plain identifier, so the
  branch for opaque references is not taken.\<close>

definition result_payload :: "run_row \<Rightarrow> (string \<times> json) list" where
  "result_payload r =
     (if py_truthy (r_result_json r) then as_object (r_result_json r)
      else [(''run_id'', JStr (r_run_id r)), (''repo_name'', JStr (r_repo_name r)), (''tool'', JStr (r_tool r)), (''status'', JStr (r_status r)),
        (''exit_code'', opt_int (r_exit_code r)), (''stdout'', JStr []), (''stderr'', JStr []), (''process_success'', JNull),
        (''classification'', JStr ''pending''), (''started_at'', opt_str (r_started_at r)), (''ended_at'', opt_str (r_ended_at r)),
        (''duration_seconds'', (case r_duration_seconds r of None \<Rightarrow> JNull | Some d \<Rightarrow> JFloat d)), (''changed_files'', JArr []),
        (''git_status'', JStr []), (''diff_stat'', JStr []), (''tests_run'', JArr []), (''test_results'', JStr []),
        (''summary'', JStr (r_summary r)), (''remaining_risks'', JArr []), (''error'', JStr (r_error r)),
        (''safety_failure'', JBool (r_safety_failure r)), (''cancelled'', JBool False), (''timed_out'', JBool False)])"

definition child_result :: "workflow_env \<Rightarrow> string \<Rightarrow> 'a run_db_scheme \<Rightarrow> (string \<times> json) list" where
  "child_result env k db =
     (case get_run k db of Inl e \<Rightarrow> lookup_error_document k e | Inr r \<Rightarrow> wv_redact env (result_payload r))"

definition or_text :: "json option \<Rightarrow> string \<Rightarrow> string" where
  "or_text v d = str_or (py_str_or_empty v) d"

text \<open>\<open>True\<close> goes on with the loop. A child that is not terminal, or that does not exist, is polled again.\<close>

definition reconcile_active_child ::
  "workflow_env \<Rightarrow> ('a workflow_db_scheme) others \<Rightarrow> worker \<Rightarrow> workflow_record \<Rightarrow> string \<Rightarrow> ('a workflow_db_scheme) node \<Rightarrow>
   (('a workflow_db_scheme) node, bool) outcome" where
  "reconcile_active_child env others me w child s =
     (case find (\<lambda>st. s_child_run_id st = Some child) (wr_steps w) of
        None \<Rightarrow> chain (worker_recovery env others me ''Active child ownership does not match a running workflow step.'') (\<lambda>_. give False) s
      | Some step \<Rightarrow>
          if s_status step \<noteq> SS_RUNNING
          then chain (worker_recovery env others me ''Active child ownership does not match a running workflow step.'') (\<lambda>_. give False) s
          else
            let state = child_status child (n_db s) in
            if \<not> is_terminal state then (Inr True, s)
            else
              let s1 = others 22 s; result = child_result env child (n_db s1); s2 = others 23 s1 in
              if state = ''completed''
              then finish_step env others me step SS_PASSED (wv_clock env 36) (or_text (jget ''summary'' result) ''Step completed'') [] result True s2
              else if state = ''needs_input''
              then fail_step env others me step (or_text (jget ''summary'' result) ''Child run needs input'')
                     (or_text (jget ''error'' result) ''Child run needs input'') result (Some WS_NEEDS_INPUT)
                     ''Review the child run result and provide the requested input before resuming.'' s2
              else if state = ''cancelled'' \<and> w_status (wr_row w) = WS_CANCELLATION_PENDING then (Inr False, s2)
              else fail_step env others me step (or_text (jget ''summary'' result) (''Child run ended with status '' @ state))
                     (or_text (jget ''error'' result) (''Child run status '' @ state)) result None [] s2)"

definition replay_local_summaries ::
  "workflow_env \<Rightarrow> worker \<Rightarrow> workflow_record \<Rightarrow> ('a workflow_db_scheme) node \<Rightarrow> (('a workflow_db_scheme) node, bool) outcome" where
  "replay_local_summaries env me w =
     (case find (\<lambda>s. s_type s = ST_LOCAL_SUMMARY \<and> s_status s = SS_RUNNING) (wr_steps w) of
        None \<Rightarrow> give False
      | Some step \<Rightarrow> chain (on_db (reset_local_summary (wk_id me) (s_step_id step) (w_state_version (wr_row w)) (s_state_version step)
            (wk_token me) (wk_generation me) (wv_clock env 37))) (\<lambda>_. give True))"

section \<open>Choosing a step\<close>

definition status_by_id :: "workflow_record \<Rightarrow> string \<Rightarrow> step_status option" where
  "status_by_id w i = map_of (rev (map (\<lambda>s. (s_step_id s, s_status s)) (wr_steps w))) i"

definition step_ready :: "workflow_record \<Rightarrow> step_row \<Rightarrow> bool" where
  "step_ready w s = (s_status s = SS_PENDING \<and> list_all (\<lambda>d. status_by_id w d = Some SS_PASSED) (s_depends_on s))"

definition step_blocked :: "workflow_record \<Rightarrow> step_row \<Rightarrow> bool" where
  "step_blocked w s =
     (s_status s = SS_PENDING \<and> s_depends_on s \<noteq> [] \<and>
      list_all (\<lambda>d. case status_by_id w d of None \<Rightarrow> False | Some st \<Rightarrow> step_over st) (s_depends_on s) \<and>
      list_ex (\<lambda>d. status_by_id w d \<noteq> Some SS_PASSED) (s_depends_on s))"

definition skip_blocked_steps ::
  "workflow_env \<Rightarrow> ('a workflow_db_scheme) others \<Rightarrow> worker \<Rightarrow> ('a workflow_db_scheme) node \<Rightarrow> (('a workflow_db_scheme) node, bool) outcome" where
  "skip_blocked_steps env others me =
     chain (read_workflow (wk_id me)) (\<lambda>w.
     case find (step_blocked w) (wr_steps w) of
       None \<Rightarrow> give False
     | Some step \<Rightarrow> after others 24 (chain (on_db (conditional_update_step (wk_id me) (s_step_id step)
           [S_status SS_SKIPPED, S_ended_at (Some (wv_clock env 38)), S_summary ''Skipped because a dependency did not pass'',
            S_error ''Blocked by failed dependency''] (wk_token me) (wk_generation me)
           \<lparr>sg_statuses = [SS_PENDING], sg_state_version = Some (s_state_version step), sg_child_run_id = Some None, sg_clear_active = False,
            sg_workflow_version = Some (w_state_version (wr_row w))\<rparr> [] (wv_clock env 39))) (\<lambda>updated.
         case updated of
           None \<Rightarrow> give True
         | Some _ \<Rightarrow> after others 25 (chain (worker_event env others me ''warning'' ''step_skipped''
               (''Workflow step '' @ s_step_id step @ '' skipped due to dependency state'')
               [(''depends_on'', JArr (map JStr (s_depends_on step)))]) (\<lambda>_. give True)))))"

section \<open>Starting a step\<close>

text \<open>The argument a step passes to its child: the parameter of its type. An invalid document raises.\<close>

fun step_argument :: "step_row \<Rightarrow> py_error + string" where
  "step_argument s =
     (let arg = (\<lambda>key. if parameters_ok (s_type s) (s_parameters s)
                     then (case str_field (jget key (s_parameters s)) of Some v \<Rightarrow> Inr v | None \<Rightarrow> Inl invalid_document) else Inl invalid_document) in
      case s_type s of
        ST_PROJECT_COMMAND \<Rightarrow> arg ''command_id'' | ST_PYTEST_PATH \<Rightarrow> arg ''path'' | ST_GIT_READONLY \<Rightarrow> arg ''operation''
      | ST_CODEX_IMPLEMENT \<Rightarrow> Inl (ValueError ''codex_implement workflow steps are removed compatibility values and have no worker or launch implementation.'')
      | ST_LOCAL_SUMMARY \<Rightarrow> Inl (ValueError ''Unsupported workflow step type: local_summary''))"

definition start_child_run ::
  "('a workflow_db_scheme) starter \<Rightarrow> ('a workflow_db_scheme) others \<Rightarrow> worker \<Rightarrow> step_row \<Rightarrow> string \<Rightarrow> ('a workflow_db_scheme) node \<Rightarrow>
   (('a workflow_db_scheme) node, (string \<times> json) list) outcome" where
  "start_child_run start others me step reserved =
     chain (read_workflow (wk_id me)) (\<lambda>w.
     case step_argument step of
       Inl e \<Rightarrow> throw e
     | Inr argument \<Rightarrow> after others 26 (start (w_repo_name (wr_row w)) (s_type step) argument reserved))"

definition summary_entry :: "step_row \<Rightarrow> json" where
  "summary_entry s = JObj
     [(''step_id'', JStr (s_step_id s)), (''type'', JStr (step_type_value (s_type s))), (''status'', JStr (step_status_value (s_status s))),
      (''child_run_id'', opt_str (s_child_run_id s)), (''summary'', JStr (s_summary s)), (''error'', JStr (s_error s)),
      (''artifact_paths'', JArr (map JStr (s_artifact_paths s)))]"

definition summary_document :: "step_row \<Rightarrow> string list \<Rightarrow> workflow_record \<Rightarrow> (string \<times> json) list" where
  "summary_document step include w =
     (let r = wr_row w; prior = filter (\<lambda>s. s_order_index s < s_order_index step) (wr_steps w);
          chosen = (if include = [] then prior else filter (\<lambda>s. s_step_id s \<in> set include) prior) in
      [(''workflow_id'', JStr (w_workflow_id r)), (''repo_name'', JStr (w_repo_name r)), (''objective'', JStr (w_objective r)),
       (''steps'', JArr (map summary_entry chosen))])"

definition run_local_summary ::
  "workflow_env \<Rightarrow> ('a workflow_db_scheme) others \<Rightarrow> worker \<Rightarrow> step_row \<Rightarrow> ('a workflow_db_scheme) node \<Rightarrow>
   (('a workflow_db_scheme) node, bool) outcome" where
  "run_local_summary env others me step =
     (if \<not> parameters_ok ST_LOCAL_SUMMARY (s_parameters step) then throw invalid_document
      else
        let include = (case str_list_field (jget ''include_step_ids'' (s_parameters step)) of Some l \<Rightarrow> l | None \<Rightarrow> []);
            path = workflow_run_dir env (wk_id me) @ ''/artifacts/'' @ s_step_id step @ ''_summary.json'' in
        chain (read_workflow (wk_id me)) (\<lambda>w. let document = summary_document step include w in
        chain (write_workflow_file env path (wv_summary_text env (JObj (wv_redact env document)))) (\<lambda>_.
        after others 27 (chain (read_workflow (wk_id me)) (\<lambda>current.
        case find_step (s_step_id step) current of
          None \<Rightarrow> throw (RuntimeError ''StopIteration'')
        | Some now_step \<Rightarrow> after others 28 (chain (on_db (conditional_update_step (wk_id me) (s_step_id step)
              [S_status SS_PASSED, S_ended_at (Some (wv_clock env 40)), S_summary ''Structured local summary written'', S_artifact_paths [path],
               S_result (JObj document)] (wk_token me) (wk_generation me)
              \<lparr>sg_statuses = [SS_RUNNING], sg_state_version = Some (s_state_version now_step), sg_child_run_id = Some None,
               sg_clear_active = False, sg_workflow_version = Some (w_state_version (wr_row current))\<rparr>
              [W_artifact_paths (dedup (w_artifact_paths (wr_row current) @ [path]))] (wv_clock env 41))) (\<lambda>updated.
            case updated of
              None \<Rightarrow> give False
            | Some _ \<Rightarrow> after others 29 (chain (worker_event env others me ''info'' ''local_summary''
                  (''Workflow step '' @ s_step_id step @ '' wrote local summary'') [(''artifact_path'', JStr path)]) (\<lambda>_. give True)))))))))"

text \<open>What the answer of the launch makes of the claimed step.\<close>

definition judge_launch ::
  "workflow_env \<Rightarrow> ('a workflow_db_scheme) others \<Rightarrow> worker \<Rightarrow> step_row \<Rightarrow> string \<Rightarrow> (string \<times> json) list \<Rightarrow>
   ('a workflow_db_scheme) node \<Rightarrow> (('a workflow_db_scheme) node, bool) outcome" where
  "judge_launch env others me step child launch =
     (let accepted = py_truthy (case jget ''accepted'' launch of Some v \<Rightarrow> v | None \<Rightarrow> (case jget ''ok'' launch of Some v \<Rightarrow> v | None \<Rightarrow> JBool False));
          human = flag ''requires_human'' launch;
          failure = str_or (text_of ''reason'' launch) (or_text (jget ''error'' launch) ''Child run launch refused'');
          launched = text_of ''run_id'' launch in
      if \<not> accepted
      then fail_step env others me step failure failure launch (Some (if human then WS_NEEDS_APPROVAL else WS_FAILED))
             (if human then ''Approve or adjust the workflow input before retrying.''
              else ''Review the failed launch response and adjust the workflow definition.'')
      else if launched \<noteq> child
      then fail_step env others me step ''Child launch returned an unexpected run ID''
             (''Expected '' @ child @ '', received '' @ str_or launched ''<empty>'') launch None []
      else chain (read_workflow (wk_id me)) (\<lambda>current.
        case find_step (s_step_id step) current of
          None \<Rightarrow> throw (RuntimeError ''StopIteration'')
        | Some now_step \<Rightarrow> after others 31 (chain (on_db (conditional_update_step (wk_id me) (s_step_id step)
              [S_result (stored_result env launch)] (wk_token me) (wk_generation me)
              \<lparr>sg_statuses = [SS_RUNNING], sg_state_version = Some (s_state_version now_step), sg_child_run_id = Some (Some child),
               sg_clear_active = False, sg_workflow_version = Some (w_state_version (wr_row current))\<rparr> [] (wv_clock env 42))) (\<lambda>recorded.
            case recorded of
              None \<Rightarrow> give False
            | Some _ \<Rightarrow> after others 32 (chain (worker_event env others me ''info'' ''child_run_started''
                  (''Workflow step '' @ s_step_id step @ '' launched child run'') [(''child_run_id'', JStr child)]) (\<lambda>_. give True))))))"

definition start_claimed_step ::
  "('a workflow_db_scheme) starter \<Rightarrow> workflow_env \<Rightarrow> ('a workflow_db_scheme) others \<Rightarrow> worker \<Rightarrow> step_row \<Rightarrow> string option \<Rightarrow>
   ('a workflow_db_scheme) node \<Rightarrow> (('a workflow_db_scheme) node, bool) outcome" where
  "start_claimed_step start env others me step child =
     chain (worker_event env others me ''info'' ''step_running'' (''Workflow step '' @ s_step_id step @ '' claimed'')
        [(''child_run_id'', opt_str child)]) (\<lambda>owned.
     if \<not> owned then give False
     else case child of
        None \<Rightarrow> after others 33 (run_local_summary env others me step)
      | Some c \<Rightarrow> after others 34 (\<lambda>s.
          case start_child_run start others me step c s of
            (Inl e, s1) \<Rightarrow> fail_step env others me step ''Child run launch failed'' (exc_text e) [(''error'', JStr (exc_text e))] None [] (others 35 s1)
          | (Inr launch, s1) \<Rightarrow> judge_launch env others me step c launch (others 36 s1)))"

definition start_step ::
  "('a workflow_db_scheme) starter \<Rightarrow> workflow_env \<Rightarrow> ('a workflow_db_scheme) others \<Rightarrow> worker \<Rightarrow> step_row \<Rightarrow>
   ('a workflow_db_scheme) node \<Rightarrow> (('a workflow_db_scheme) node, bool) outcome" where
  "start_step start env others me step =
     chain (read_workflow (wk_id me)) (\<lambda>w.
     let child = (if s_type step = ST_LOCAL_SUMMARY then None
                  else Some (wv_run_id env (if s_type step = ST_CODEX_IMPLEMENT then ''codex_implement_task'' else ''project_command''))) in
     after others 37 (chain (on_db (claim_step (wk_id me) (s_step_id step) (wk_token me) (wk_generation me) child
         (Some (w_state_version (wr_row w))) (Some (s_state_version step)) (wv_clock env 43))) (\<lambda>claimed.
     case claimed of
       None \<Rightarrow> give False
     | Some c \<Rightarrow> (case find_step (s_step_id step) c of
         None \<Rightarrow> throw (RuntimeError ''StopIteration'')
       | Some mine \<Rightarrow> after others 38 (start_claimed_step start env others me mine child)))))"

section \<open>The loop\<close>

definition complete_workflow ::
  "workflow_env \<Rightarrow> ('a workflow_db_scheme) others \<Rightarrow> worker \<Rightarrow> ('a workflow_db_scheme) node \<Rightarrow> (('a workflow_db_scheme) node, unit) outcome" where
  "complete_workflow env others me =
     chain (read_workflow (wk_id me)) (\<lambda>w.
     let failed = filter (\<lambda>s. s_status s = SS_FAILED) (wr_steps w) in
     after others 39 (worker_transition env others me WS_COMPLETED
       (join_with ''; '' (filter (\<lambda>t. t \<noteq> []) (map s_summary failed)))
       (if failed = [] then ''No immediate action required.'' else ''Review the failed step outputs captured in the workflow artifacts.'')))"

definition leave_or_publish ::
  "workflow_env \<Rightarrow> ('a workflow_db_scheme) others \<Rightarrow> worker \<Rightarrow> ('a workflow_db_scheme) node \<Rightarrow> (('a workflow_db_scheme) node, int option) outcome" where
  "leave_or_publish env others me = chain (publish_workflow env (\<lambda>i. others (100 + i)) (wk_id me)) (\<lambda>_. give (Some 0))"

text \<open>A handler that answers \<open>True\<close> goes on with the next turn.\<close>

definition or_leave :: "('s \<Rightarrow> ('s, bool) outcome) \<Rightarrow> 's \<Rightarrow> ('s, int option) outcome" where
  "or_leave m = chain m (\<lambda>ok. give (if ok then None else Some 1))"

definition next_action ::
  "('a workflow_db_scheme) starter \<Rightarrow> workflow_env \<Rightarrow> ('a workflow_db_scheme) others \<Rightarrow> worker \<Rightarrow> ('a workflow_db_scheme) node \<Rightarrow>
   (('a workflow_db_scheme) node, int option) outcome" where
  "next_action start env others me =
     chain (skip_blocked_steps env others me) (\<lambda>skipped.
     if skipped then give None
     else after others 43 (chain (read_workflow (wk_id me)) (\<lambda>w.
       case find (step_ready w) (wr_steps w) of
         Some step \<Rightarrow> after others 44 (or_leave (start_step start env others me step))
       | None \<Rightarrow> after others 45 (chain (read_workflow (wk_id me)) (\<lambda>w1.
           if list_all (\<lambda>s. step_over (s_status s)) (wr_steps w1)
           then after others 46 (chain (complete_workflow env others me) (\<lambda>_. give None)) else give None)))))"

definition worker_turn ::
  "('a workflow_db_scheme) starter \<Rightarrow> workflow_env \<Rightarrow> ('a workflow_db_scheme) others \<Rightarrow> worker \<Rightarrow> ('a workflow_db_scheme) node \<Rightarrow>
   (('a workflow_db_scheme) node, int option) outcome" where
  "worker_turn start env others me =
     chain (read_workflow (wk_id me)) (\<lambda>w. let r = wr_row w in
     if w_status r \<in> {WS_CANCELLATION_PENDING, WS_RECOVERY_PENDING} then give (Some 1)
     else if workflow_over (w_status r) then after others 40 (leave_or_publish env others me)
     else after others 41 (chain (on_db (workflow_heartbeat_worker (wk_id me) (wk_token me) (wk_generation me) (wv_pid env) (wv_clock env 44))) (\<lambda>alive.
       if \<not> alive then give (Some 1)
       else after others 42 (chain (replay_local_summaries env me w) (\<lambda>replayed.
         if replayed then give None
         else case w_active_child_run_id r of
             Some child \<Rightarrow> after others 47 (or_leave (reconcile_active_child env others me w child))
           | None \<Rightarrow> after others 48 (next_action start env others me))))))"

partial_function (option) worker_loop ::
  "('a workflow_db_scheme) starter \<Rightarrow> (nat \<Rightarrow> workflow_env) \<Rightarrow> (nat \<Rightarrow> ('a workflow_db_scheme) others) \<Rightarrow> worker \<Rightarrow> nat \<Rightarrow>
   ('a workflow_db_scheme) node \<Rightarrow> ((('a workflow_db_scheme) node, int) outcome) option" where
  "worker_loop start env others me n s =
     (case worker_turn start (env n) (others n) me s of
        (Inl e, s1) \<Rightarrow> Some (Inl e, s1)
      | (Inr (Some code), s1) \<Rightarrow> Some (Inr code, s1)
      | (Inr None, s1) \<Rightarrow> worker_loop start env others me (Suc n) (others n 49 s1))"

definition execute_worker ::
  "('a workflow_db_scheme) starter \<Rightarrow> (nat \<Rightarrow> workflow_env) \<Rightarrow> (nat \<Rightarrow> ('a workflow_db_scheme) others) \<Rightarrow> worker \<Rightarrow>
   ('a workflow_db_scheme) node \<Rightarrow> ((('a workflow_db_scheme) node, int) outcome) option" where
  "execute_worker start env others me s =
     (case get_workflow (wk_id me) (n_db s) of
        Inl e \<Rightarrow> Some (Inl e, s)
      | Inr w \<Rightarrow>
          let r = wr_row w; enter = (\<lambda>s. worker_loop start env others me 1 s); pid = wv_pid (env 0) in
          if w_status r \<in> {WS_CANCELLATION_PENDING, WS_RECOVERY_PENDING} then Some (Inr 1, s)
          else if workflow_over (w_status r)
          then (case publish_workflow (env 0) (\<lambda>i. others 0 (100 + i)) (wk_id me) (others 0 50 s) of
                  (Inl e, s1) \<Rightarrow> Some (Inl e, s1) | (Inr _, s1) \<Rightarrow> Some (Inr 0, s1))
          else if w_status r = WS_QUEUED
          then (case on_db (workflow_claim_worker (wk_id me) (wk_token me) (wk_generation me) (w_state_version r) pid
                     (process_identity (process_world (env 0) 0) (Some pid)) (wv_clock (env 0) 45)) (others 0 51 s) of
                  (Inl e, s1) \<Rightarrow> Some (Inl e, s1)
                | (Inr claimed, s1) \<Rightarrow> if claimed then enter (others 0 52 s1) else Some (Inr 1, s1))
          else if w_status r = WS_RUNNING then enter (others 0 53 s) else Some (Inr 1, s))"

end
