(* ===== verification/Platform_Steps.thy ===== *)
theory Platform_Steps
  imports Workflow_Guarantees Workflow_Worker
begin

text \<open>
  The whole platform: the transactions of \<open>System_Steps\<close> and those of the workflow store on one database. Each side leaves the tables of the
  other alone, so both invariants hold in every reachable state, and a workflow step that passed keeps its completed run for ever.
\<close>

section \<open>What each side leaves alone\<close>

definition workflow_frame :: "'a scope_db_scheme \<Rightarrow> 'b scope_db_scheme \<Rightarrow> bool" where
  "workflow_frame db db' = (scope_db.truncate db' = scope_db.truncate db)"

lemma workflow_frame_refl [simp]: "workflow_frame db db"
  by (simp add: workflow_frame_def)

lemma workflow_frame_updates [simp]:
  "workflow_frame db (db'\<lparr>workflows := ws\<rparr>) = workflow_frame db db'"
  "workflow_frame db (db'\<lparr>workflow_steps := ss\<rparr>) = workflow_frame db db'"
  "workflow_frame db (db'\<lparr>workflow_events := es\<rparr>) = workflow_frame db db'"
  "workflow_frame db (db'\<lparr>workflow_event_seq := n\<rparr>) = workflow_frame db db'"
  by (simp_all add: workflow_frame_def scope_db.defs)

lemma conditional_update_frame [simp]: "workflow_frame db (snd (conditional_update_workflow k fs g now db))"
  by (simp add: conditional_update_workflow_def Let_def split: sum.split)

lemma step_update_frame [simp]: "workflow_frame db (snd (conditional_update_step k i fs token gen g wfs now db))"
  by (simp add: conditional_update_step_def Let_def split: sum.split)

lemma workflow_step_frame: "workflow_step db db' \<Longrightarrow> workflow_frame db db'"
proof (induction rule: workflow_step.induct)
  case create
  show ?case by (simp add: create_workflow_def Let_def)
next
  case claim
  show ?case unfolding workflow_claim_write_def snd_answered by simp
next
  case beat
  show ?case unfolding workflow_heartbeat_worker_def snd_answered by simp
next
  case claim_step
  show ?case by (simp add: claim_step_def Let_def split: sum.split)
next
  case finalize
  show ?case by (simp add: finalize_cancellation_def Let_def split: sum.split)
next
  case transition
  show ?case by (simp add: workflow_transition_terminal_def)
next
  case event
  show ?case by (simp add: workflow_append_event_def Let_def)
qed (simp_all add: workflow_record_launch_def workflow_adopt_worker_def workflow_reserve_write_def reset_local_summary_def
    workflow_request_cancellation_def mark_cancellation_retry_def workflow_mark_recovery_def workflow_fail_def begin_publication_def
    mark_publication_complete_def mark_publication_failed_def)

text \<open>The tables of a workflow database below the workflows.\<close>

lemma workflow_frame_tables:
  assumes "workflow_frame db db'"
  shows "runs db' = runs db" "locks db' = locks db" "groups db' = groups db" "children db' = children db" "tasks db' = tasks db"
    "scope_advances db db'" "wf_scope db' = wf_scope db"
proof -
  have eq: "scope_db.truncate db' = scope_db.truncate db" using assms by (simp add: workflow_frame_def)
  then show "runs db' = runs db" "locks db' = locks db" "groups db' = groups db" "children db' = children db" "tasks db' = tasks db"
    by (simp_all add: scope_db.defs)
  have same: "reservations db' = reservations db \<and> attempts db' = attempts db \<and> quarantine db' = quarantine db \<and> adjudications db' = adjudications db \<and>
      resource_bindings db' = resource_bindings db \<and> projects db' = projects db \<and> ever_activated db' = ever_activated db \<and> scope_schema db' = scope_schema db"
    using eq by (simp add: scope_db.defs)
  moreover from this have "quarantine_view kind k db' = quarantine_view kind k db" for kind k
    by (cases kind) (simp_all add: quarantine_view_def quarantine_owner_def)
  ultimately show "scope_advances db db'" "wf_scope db' = wf_scope db"
    by (simp_all add: scope_advances_def wf_scope_def decided_and_preserved_def)
qed

definition upper_frame :: "'a scope_db_scheme \<Rightarrow> 'a scope_db_scheme \<Rightarrow> bool" where
  "upper_frame db db' = (scope_db.more db' = scope_db.more db)"

lemma upper_frame_refl [simp]: "upper_frame db db"
  by (simp add: upper_frame_def)

lemma upper_frame_trans: "upper_frame a b \<Longrightarrow> upper_frame b c \<Longrightarrow> upper_frame a c"
  by (simp add: upper_frame_def)

lemma task_more_upper: "task_db.more db' = task_db.more db \<Longrightarrow> upper_frame db db'" for db db' :: "'a scope_db_scheme"
  by (cases db; cases db'; simp add: upper_frame_def)

lemma lower_frames:
  fixes db db' :: "'a scope_db_scheme"
  shows "run_db.more db' = run_db.more db \<Longrightarrow> upper_frame db db'" "lock_frame db db' \<Longrightarrow> upper_frame db db'"
    "group_frame db db' \<Longrightarrow> upper_frame db db'" "task_frame db db' \<Longrightarrow> upper_frame db db'" "scope_frame db db' \<Longrightarrow> upper_frame db db'"
  by (cases db; cases db'; simp add: upper_frame_def lock_frame_def group_frame_def task_frame_def scope_frame_def)+

lemma resolve_writes_upper:
  fixes db :: "'a scope_db_scheme"
  assumes "resolve_writes env q t now db = (Inr j, db')"
  shows "upper_frame db db'"
proof -
  define d1 where "d1 = db\<lparr>tasks := sql_update (\<lambda>x. t_task_id x = rr_task_id q \<and> t_state_version x = t_state_version t \<and>
    t_state x \<in> {UNCERTAIN, RECOVERY_PENDING}) (resolved_task now) (tasks db)\<rparr>"
  define d2 where "d2 = quarantine_task env (rr_task_id q) recovery_reason_code now d1"
  let ?d = "d2\<lparr>adjudications := adjudications d2 @ [recovery_adjudication env q now]\<rparr>"
  obtain d3 where l: "insert_link (rr_successor_task_id q) LINK_SUPERSEDES TARGET_TASK (rr_task_id q)
        [(''project_id'', JStr (rr_project_id q)), (''reason'', JStr ''recovery_disposition'')] now ?d = (Inr (), d3)"
      and e: "\<exists>a b c d e f g r. append_task_event a b c d e f g now d3 = (r, db')"
    using assms unfolding resolve_writes_def Let_def d1_def [symmetric] d2_def [symmetric]
    by (auto split: if_splits prod.splits sum.splits dest!: and_then_Inr) blast
  have "task_frame ?d db'" using insert_link_pair [OF l] e append_event_spec task_frame_trans by metis
  then have "upper_frame ?d db'" by (rule lower_frames(4))
  moreover have "upper_frame db ?d" by (simp add: upper_frame_def d2_def d1_def quarantine_task_def quarantine_record_def)
  ultimately show ?thesis using upper_frame_trans by blast
qed

lemma system_step_upper:
  fixes db :: "'a scope_db_scheme"
  assumes "system_step (db, ps) (db', ps')" "system_ok (db, ps)"
  shows "upper_frame db db'"
proof -
  have w: "wf_tasks db" "wf_scope db" using system_wf [OF assms(2)] by simp_all
  have task: "task_step db d \<Longrightarrow> upper_frame db d" for d
    using task_step_safe [OF _ w(1)] lower_frames(4) by (auto simp: task_safe_def)
  show ?thesis
    using assms(1)
  proof cases
    case run
    show ?thesis by (rule lower_frames(1) [OF run_step_more [OF run(2)]])
  next
    case lock
    show ?thesis by (rule lower_frames(2) [OF lock_step_frame [OF lock(2)]])
  next
    case group
    show ?thesis by (rule lower_frames(3) [OF group_step_frame [OF group(2)]])
  next
    case scope
    then show ?thesis using scope_step_safe [OF scope(2) w(2)] lower_frames(5) by (auto simp: scope_safe_def)
  next
    case (reserve rq now)
    show ?thesis unfolding reserve(1) by (rule task) (rule task_step.reserve)
  next
    case (reserve_scoped rq env b now)
    show ?thesis
    proof (cases "db' = db")
      case False
      obtain res where r: "reserve_scoped env b rq now db = (res, db')" using reserve_scoped(1) by (metis prod.collapse)
      show ?thesis
      proof (rule reserve_scoped_steps [OF w(1) r False])
        fix t d1 d2
        assume d: "reserve_task_attempt env b (rq_task_id rq) (rq_backend_ref rq) (rq_parent_task_id rq) now db = (Inr (), d1)"
          "reserve_task_in_connection rq now d1 = (Inr (t, True), d2)" "attach_task (t_task_id t) now d2 = (Inr (), db')"
        have s1: "scope_safe db d1" using reserve_attempt_safe [OF w(2) d(1)] .
        have f2: "task_frame d1 d2" using reserve_in_spec [OF d(2)] by auto
        have "wf_scope d2" using scope_tables_same [of d2 d1] f2 s1 by (simp add: task_frame_def scope_safe_def)
        then have "scope_safe d2 db'" using attach_task_safe [OF _ d(3)] by blast
        then show ?thesis using s1 lower_frames(4) [OF f2] lower_frames(5) upper_frame_trans unfolding scope_safe_def by blast
      qed
    qed simp
  next
    case event
    show ?thesis unfolding event(1) by (rule task) (rule task_step.event)
  next
    case command
    show ?thesis unfolding command(1) by (rule task) (rule task_step.command)
  next
    case complete
    show ?thesis unfolding complete(1) by (rule task) (rule task_step.complete)
  next
    case checkpoint
    show ?thesis unfolding checkpoint(1) by (rule task) (rule task_step.checkpoint)
  next
    case link
    show ?thesis unfolding link(1) by (rule task) (rule task_step.link)
  next
    case look
    then show ?thesis by simp
  next
    case (commit t tg stage now)
    obtain res where r: "reconcile_write t tg stage now db = (res, db')" using commit(1) by (metis prod.collapse)
    show ?thesis using reconcile_write_safe [OF w(1) r] lower_frames(4) by (auto simp: task_safe_def)
  next
    case (resolve env q now)
    obtain res where r: "resolve_recovery env q now db = (res, db')" using resolve(1) by (metis prod.collapse)
    show ?thesis
    proof (cases "db' = db")
      case False
      show ?thesis by (rule resolve_recovery_steps [OF r False]) (rule resolve_writes_upper)
    qed simp
  qed
qed

section \<open>The platform\<close>

type_synonym 'a platform = "'a workflow_db_scheme \<times> (task_row \<times> target option) list"

inductive platform_step :: "'a platform \<Rightarrow> 'a platform \<Rightarrow> bool" where
  system: "system_step s s' \<Longrightarrow> platform_step s s'"
| workflow: "workflow_step db db' \<Longrightarrow> platform_step (db, ps) (db', ps)"

definition platform_ok :: "'a platform \<Rightarrow> bool" where
  "platform_ok s = (system_ok s \<and> wf_workflows (fst s))"

definition platform_advances :: "'a workflow_db_scheme \<Rightarrow> 'a workflow_db_scheme \<Rightarrow> bool" where
  "platform_advances db db' = (system_advances db db' \<and> workflow_advances db db')"

lemma upper_workflows: "upper_frame db db' \<Longrightarrow> workflows db' = workflows db \<and> workflow_steps db' = workflow_steps db"
  for db db' :: "'a workflow_db_scheme"
  by (cases db; cases db'; simp add: upper_frame_def)

lemma platform_step_keeps:
  assumes "platform_step s s'" "platform_ok s"
  shows "platform_ok s' \<and> platform_advances (fst s) (fst s')"
  using assms
proof (induction rule: platform_step.induct)
  case (system s s')
  obtain db ps db' ps' where s: "s = (db, ps)" "s' = (db', ps')" by (cases s, cases s')
  have ok: "system_ok s" "wf_workflows db" using system.prems by (simp_all add: platform_ok_def s)
  have k: "system_ok s' \<and> system_advances db db'" using system_step_keeps [OF system.hyps ok(1)] by (simp add: s)
  have "workflows db' = workflows db \<and> workflow_steps db' = workflow_steps db"
    by (rule upper_workflows) (rule system_step_upper [OF system.hyps [unfolded s] ok(1) [unfolded s]])
  then show ?case using same_workflows [OF ok(2)] k by (simp add: platform_ok_def platform_advances_def system_advances_def s)
next
  case (workflow db db' ps)
  have ok: "system_ok (db, ps)" "wf_workflows db" using workflow.prems by (simp_all add: platform_ok_def)
  note t = workflow_frame_tables [OF workflow_step_frame [OF workflow.hyps]]
  have w: "wf_groups db \<and> wf_runs db \<and> wf_scope db" using system_wf [OF ok(1)] by simp
  have "system_ok (db', ps) \<and> system_advances db db'"
    using system_keep_tasks [OF ok(1) t(5) db_advances_cong [OF t(1)] t(6)] wf_groups_cong [OF t(1-4)] w t(7) by simp
  moreover have "wf_workflows db' \<and> workflow_advances db db'" using workflow_step_keeps [OF workflow.hyps ok(2)] w by blast
  ultimately show ?case by (simp add: platform_ok_def platform_advances_def)
qed

lemma platform_advances_trans: "platform_advances a b \<Longrightarrow> platform_advances b c \<Longrightarrow> platform_advances a c"
  unfolding platform_advances_def using system_advances_trans workflow_advances_trans by blast

lemma platform_advances_refl:
  assumes "platform_ok (db, ps)"
  shows "platform_advances db db"
  using task_level_keeps [of db ps db] task_safe_refl [of db] system_wf [of db ps] terminal_kept_same [of db db] assms
  by (simp add: platform_advances_def platform_ok_def)

lemma platform_steps_keep:
  assumes "platform_step\<^sup>*\<^sup>* s s'" "platform_ok s"
  shows "platform_ok s' \<and> platform_advances (fst s) (fst s')"
  using assms
proof (induction rule: rtranclp_induct)
  case base
  then show ?case using platform_advances_refl by (cases s) simp
next
  case (step y z)
  then show ?case using platform_step_keeps [OF step.hyps(2)] platform_advances_trans by blast
qed

end
