(* ===== verification/Workflow_System.thy ===== *)
theory Workflow_System
  imports Platform_Steps Job_System
begin

text \<open>
  The workflow manager and the workflow worker within the platform. Every handler, whatever the other processes do between its transactions
  and whatever processes, files and children answer, changes the database only by steps of \<open>Platform_Steps\<close>: what it read before a write is
  still true when it writes, or the write has no effect.
\<close>

section \<open>Nodes of the platform\<close>

definition onward :: "('a workflow_db_scheme) node \<Rightarrow> ('a workflow_db_scheme) node \<Rightarrow> bool" where
  "onward s t = (\<forall>ps. \<exists>ps'. platform_step\<^sup>*\<^sup>* (n_db s, ps) (n_db t, ps'))"

definition platform_node :: "('a workflow_db_scheme) node \<Rightarrow> bool" where
  "platform_node s = (\<exists>ps. platform_ok (n_db s, ps))"

lemma onward_refl [simp]: "onward s s"
  by (auto simp: onward_def)

lemma onward_trans: "onward a b \<Longrightarrow> onward b c \<Longrightarrow> onward a c"
  unfolding onward_def by (meson rtranclp_trans)

lemma onward_db: "n_db t = n_db s \<Longrightarrow> onward s t"
  unfolding onward_def by auto

lemma onward_workflow: "workflow_step (n_db s) (n_db t) \<Longrightarrow> onward s t"
  unfolding onward_def using platform_step.workflow by blast

lemma onward_system:
  assumes "\<And>ps. system_step (n_db s, ps) (n_db t, ps)"
  shows "onward s t"
  unfolding onward_def using platform_step.system [OF assms] by blast

lemma onward_node:
  assumes "onward s t" "platform_node s"
  shows "platform_node t" "platform_advances (n_db s) (n_db t)"
proof -
  obtain ps where ok: "platform_ok (n_db s, ps)" using assms(2) by (auto simp: platform_node_def)
  obtain ps' where st: "platform_step\<^sup>*\<^sup>* (n_db s, ps) (n_db t, ps')" using assms(1) by (auto simp: onward_def)
  note k = platform_steps_keep [OF st ok]
  show "platform_node t" using k by (auto simp: platform_node_def)
  show "platform_advances (n_db s) (n_db t)" using k by simp
qed

lemma onward_advances:
  assumes "onward s t" "platform_node s"
  shows "workflow_advances (n_db s) (n_db t)" "db_advances (n_db s) (n_db t)" "wf_workflows (n_db s)" "wf_workflows (n_db t)"
  using onward_node [OF assms] assms(2) by (auto simp: platform_advances_def system_advances_def platform_node_def platform_ok_def)

text \<open>Facts that a handler reads and that stay true.\<close>

definition ended :: "string \<Rightarrow> workflow_status \<Rightarrow> 'a workflow_db_scheme \<Rightarrow> bool" where
  "ended k st db = (\<exists>r. workflow_by_id k db = Some r \<and> workflow_over (w_status r) \<and> w_terminal_status r = Some st)"

lemma ended_stays:
  assumes "onward s t" "platform_node s" "ended k st (n_db s)"
  shows "ended k st (n_db t)"
proof -
  obtain r where r: "workflow_by_id k (n_db s) = Some r" "workflow_over (w_status r)" "w_terminal_status r = Some st"
    using assms(3) by (auto simp: ended_def)
  obtain r' where r': "workflow_by_id k (n_db t) = Some r'" "workflow_row_advances r r'"
    using advancesD(1) [OF onward_advances(1) [OF assms(1,2)] r(1)] by blast
  have "w_terminal_status r' = Some st" using r r'(2) by (simp add: workflow_row_advances_def workflow_outcome_def)
  then show ?thesis using r' over_stays [OF r'(2) r(2)] by (simp add: ended_def)
qed

lemma read_facts:
  assumes "get_workflow k db = Inr w"
  obtains r where "workflow_by_id k db = Some r" "w_workflow_id (wr_row w) = k" "w_status (wr_row w) = w_status r"
    "w_terminal_status (wr_row w) = w_terminal_status r" "w_active_child_run_id (wr_row w) = text_or_none (w_active_child_run_id r)"
    "wr_steps w = map read_step (steps_of k db)"
proof -
  obtain r where r: "workflow_by_id k db = Some r" "w = hydrate_workflow r (steps_of k db)"
    using assms by (auto simp: get_workflow_def split: option.splits)
  have "w_workflow_id r = k" using workflow_by_id_in [OF r(1)] by simp
  with r that show thesis by (simp add: hydrate_workflow_def read_row_def)
qed

section \<open>Composition of handlers\<close>

lemma chain_onward:
  assumes "platform_node s" "onward s (snd (m s))"
    and "\<And>v t. m s = (Inr v, t) \<Longrightarrow> platform_node t \<Longrightarrow> onward s t \<Longrightarrow> onward t (snd (f v t))"
  shows "onward s (snd (chain m f s))"
proof -
  obtain r b where b: "m s = (r, b)" by fastforce
  then have "onward s b" "platform_node b" using assms(2) onward_node(1) [OF assms(2,1)] by simp_all
  then show ?thesis using assms(3) [of _ b] onward_trans [of s b] b by (cases r) (simp_all add: chain_def)
qed

lemma attempt_onward:
  assumes "platform_node s" "onward s (snd (m s))" "\<And>e t. platform_node t \<Longrightarrow> onward s t \<Longrightarrow> onward t (snd (h e t))"
  shows "onward s (snd (attempt m h s))"
proof -
  obtain r b where b: "m s = (r, b)" by fastforce
  then have "onward s b" "platform_node b" using assms(2) onward_node(1) [OF assms(2,1)] by simp_all
  then show ?thesis using assms(3) [of b] onward_trans [of s b] b by (cases r) (simp_all add: attempt_def)
qed

lemma give_onward: "onward s (snd (give v s))"
  by (simp add: give_def)

lemma throw_onward: "onward s (snd (throw e s))"
  by (simp add: throw_def)

lemma pure_onward: "onward s (snd (x, s))"
  by simp

lemma read_onward: "onward s (snd (read_workflow k s))"
  by (simp add: read_workflow_def)

lemma perform_onward: "onward s (perform e s)"
  by (rule onward_db) (simp add: perform_def)

lemma on_db_onward: "workflow_step (n_db s) (snd (f (n_db s))) \<Longrightarrow> onward s (snd (on_db f s))"
  by (rule onward_workflow) (cases "f (n_db s)", simp add: on_db_def)

lemma read_chain_onward:
  assumes "\<And>w. get_workflow k (n_db s) = Inr w \<Longrightarrow> onward s (snd (f w s))"
  shows "onward s (snd (chain (read_workflow k) f s))"
  using assms by (cases "get_workflow k (n_db s)") (simp_all add: chain_def read_workflow_def)

locale platform_world =
  fixes others :: "('a workflow_db_scheme) others"
  assumes tame_platform: "platform_node s \<Longrightarrow> onward s (others k s)"
begin

lemma after_onward:
  assumes "platform_node s" "\<And>t. platform_node t \<Longrightarrow> onward s t \<Longrightarrow> onward t (snd (m t))"
  shows "onward s (snd (after (\<lambda>i. others (f i)) k m s))"
  using assms(2) [OF onward_node(1) [OF tame_platform assms(1)]] tame_platform [OF assms(1)] onward_trans assms(1)
  unfolding after_def by blast

lemma others_onward:
  assumes "platform_node s" "onward s t"
  shows "onward s (others k t)" "platform_node (others k t)"
  using onward_node(1) [OF assms(2,1)] tame_platform onward_trans [OF assms(2)] onward_node(1) by blast+

end

interpretation undisturbed_platform: platform_world "\<lambda>_ s. s"
  by unfold_locales simp

section \<open>Publication\<close>

lemma write_onward: "onward s (snd (write_workflow_file env path text s))"
  by (rule onward_db) (simp add: write_workflow_file_def split: option.split)

lemma snapshot_onward: "platform_node s \<Longrightarrow> onward s (snd (write_workflow_snapshot env w es s))"
  unfolding write_workflow_snapshot_def Let_def by (assumption | rule chain_onward write_onward)+

lemma report_onward:
  assumes "platform_node s"
  shows "onward s (snd (generate_workflow_report env w s))"
proof -
  have manifest: "onward s (snd (case wv_manifest env w (n_files s) of Inl e \<Rightarrow> (Inl e, s) | Inr text \<Rightarrow> write_workflow_file env p text s))" for s p
    using write_onward by (cases "wv_manifest env w (n_files s)") simp_all
  show ?thesis
    unfolding generate_workflow_report_def Let_def
    using assms by (cases "workflow_over (source_status w)") (simp_all add: chain_onward write_onward manifest throw_onward)
qed

text \<open>Whoever has claimed the publication read the row when it was over.\<close>

lemma claimed_ended:
  assumes "platform_node s" "get_workflow k (n_db s) = Inr winner" "onward s t"
    and "source_status winner \<notin> {WS_CANCELLATION_PENDING, WS_RECOVERY_PENDING, WS_QUEUED, WS_RUNNING, WS_CREATED}"
    and "on_db (begin_publication k (w_status (wr_row winner)) v hash now) t = (Inr (Some c), u)"
  shows "ended k (case w_terminal_status (wr_row c) of None \<Rightarrow> source | Some st \<Rightarrow> st) (n_db u)"
proof -
  obtain r where r: "workflow_by_id k (n_db s) = Some r" "w_status (wr_row winner) = w_status r"
      "w_terminal_status (wr_row winner) = w_terminal_status r" by (rule read_facts [OF assms(2)]) blast
  have rok: "row_ok r" using workflow_by_id_in [OF r(1)] onward_advances(3) [OF assms(3,1)] by (simp add: wf_workflows_def)
  have over: "workflow_over (w_status r)"
  proof (rule ccontr)
    assume n: "\<not> workflow_over (w_status r)"
    then have "source_status winner = w_status r" using row_not_over [OF rok] r by (simp add: source_status_def)
    with n assms(4) show False by (cases "w_status r") simp_all
  qed
  then obtain st where st: "w_terminal_status r = Some st" using rok by (auto simp: row_ok_def split: option.splits)
  have "ended k st (n_db s)" using r(1) over st by (simp add: ended_def)
  then have e: "ended k st (n_db t)" by (rule ended_stays [OF assms(3,1)])
  have "onward t (snd (on_db (begin_publication k (w_status (wr_row winner)) v hash now) t))"
    by (rule on_db_onward, rule workflow_step.publish)
  then have step: "onward t u" using assms(5) by simp
  have eu: "ended k st (n_db u)" by (rule ended_stays [OF step onward_node(1) [OF assms(3,1)] e])
  have "get_workflow k (n_db u) = Inr c"
    using assms(5) by (auto simp: on_db_def begin_publication_def conditional_update_workflow_def Let_def split: if_splits sum.splits prod.splits)
  then have "w_terminal_status (wr_row c) = Some st" using eu by (auto simp: ended_def elim!: read_facts)
  then show ?thesis using eu by simp
qed

context platform_world
begin

lemma publish_claimed_onward:
  assumes "platform_node s" "ended k (case w_terminal_status (wr_row c) of None \<Rightarrow> source | Some st \<Rightarrow> st) (n_db s)"
  shows "onward s (snd (publish_claimed env (\<lambda>i. others (f i)) k c expected source hash s))"
proof -
  let ?st = "case w_terminal_status (wr_row c) of None \<Rightarrow> source | Some st \<Rightarrow> st"
  have finished: "onward t (snd (on_db (mark_publication_complete k expected v hash ?st paths now) t))" if "ended k ?st (n_db t)" for t v paths now
    by (rule on_db_onward, rule workflow_step.published) (use that in \<open>auto simp: ended_def\<close>)
  have last: "onward t (snd (case p of None \<Rightarrow> after (\<lambda>i. others (f i)) 4 (read_workflow k) t | Some w \<Rightarrow> give w t))" if "platform_node t" for t p
    by (cases p) (simp_all add: give_onward after_onward [OF that read_onward])
  show ?thesis
    unfolding publish_claimed_def Let_def
    apply (rule chain_onward [OF assms(1)], rule on_db_onward, rule workflow_step.event)
    apply (rule after_onward, assumption)
    apply (rule chain_onward, assumption, rule snapshot_onward, assumption)
    apply (rule chain_onward, assumption, rule report_onward, assumption)
    apply (rule after_onward, assumption)
    apply (rule chain_onward, assumption, rule finished)
     apply (rule ended_stays [OF _ assms], blast intro: onward_trans)
    subgoal for v t ta va tb vb tc td p te using last [of te p] by (cases p) simp_all
    done
qed

end

section \<open>Rules for handlers\<close>

lemma if_onward:
  "(c \<Longrightarrow> onward s (snd (a s))) \<Longrightarrow> (\<not> c \<Longrightarrow> onward s (snd (b s))) \<Longrightarrow> onward s (snd ((if c then a else b) s))"
  "(c \<Longrightarrow> onward s (snd p)) \<Longrightarrow> (\<not> c \<Longrightarrow> onward s (snd q)) \<Longrightarrow> onward s (snd (if c then p else q))"
  by simp_all

lemma option_onward:
  "(x = None \<Longrightarrow> onward s (snd (a s))) \<Longrightarrow> (\<And>v. x = Some v \<Longrightarrow> onward s (snd (b v s))) \<Longrightarrow>
     onward s (snd ((case x of None \<Rightarrow> a | Some v \<Rightarrow> b v) s))"
  "(x = None \<Longrightarrow> onward s (snd p)) \<Longrightarrow> (\<And>v. x = Some v \<Longrightarrow> onward s (snd (q v))) \<Longrightarrow>
     onward s (snd (case x of None \<Rightarrow> p | Some v \<Rightarrow> q v))"
  by (cases x; simp)+

lemma sum_onward:
  "(\<And>e. x = Inl e \<Longrightarrow> onward s (snd (a e s))) \<Longrightarrow> (\<And>v. x = Inr v \<Longrightarrow> onward s (snd (b v s))) \<Longrightarrow>
     onward s (snd ((case x of Inl e \<Rightarrow> a e | Inr v \<Rightarrow> b v) s))"
  "(\<And>e. x = Inl e \<Longrightarrow> onward s (snd (p e))) \<Longrightarrow> (\<And>v. x = Inr v \<Longrightarrow> onward s (snd (q v))) \<Longrightarrow>
     onward s (snd (case x of Inl e \<Rightarrow> p e | Inr v \<Rightarrow> q v))"
  by (cases x; simp)+

lemma step_onward:
  "onward s (snd (on_db (workflow_append_event k level stage message data False g now) s))"
  "onward s (snd (on_db (workflow_record_launch k pid version token gen identity now) s))"
  "onward s (snd (on_db (workflow_heartbeat_worker k token gen pid now) s))"
  "onward s (snd (on_db (workflow_adopt_worker k version token gen beat now) s))"
  "onward s (snd (on_db (reset_local_summary k i wversion sversion token gen now) s))"
  "onward s (snd (on_db (workflow_request_cancellation k statuses version token gen doc now) s))"
  "onward s (snd (on_db (finalize_cancellation k version token gen doc now) s))"
  "onward s (snd (on_db (mark_cancellation_retry k version token gen doc reason now) s))"
  "onward s (snd (on_db (workflow_mark_recovery k statuses version token gen reason now) s))"
  "onward s (snd (on_db (workflow_fail k status version token gen beat' reason action now) s))"
  "onward s (snd (on_db (begin_publication k status version hash now) s))"
  "onward s (snd (on_db (mark_publication_failed k status version hash error now) s))"
  by (rule on_db_onward, rule workflow_step.intros)+

lemma read_step_onward:
  "onward s (snd (on_db (workflow_claim_worker k token gen version pid identity now) s))"
  "onward s (snd (on_db (workflow_reserve_launch k statuses version token gen beat new_token now) s))"
proof -
  have same: "onward s (s\<lparr>n_db := n_db s\<rparr>)" by (rule onward_db) simp
  have "onward s (snd (on_db (workflow_claim_write k token gen version pid identity start now) s))" for start
    by (rule on_db_onward, rule workflow_step.claim)
  then show "onward s (snd (on_db (workflow_claim_worker k token gen version pid identity now) s))"
    using same by (cases "get_workflow k (n_db s)") (simp_all add: on_db_def workflow_claim_worker_def Let_def)
  have "onward s (snd (on_db (workflow_reserve_write k statuses version token gen beat new_token tries now) s))" for tries
    by (rule on_db_onward, rule workflow_step.reserve)
  then show "onward s (snd (on_db (workflow_reserve_launch k statuses version token gen beat new_token now) s))"
    using same by (cases "get_workflow k (n_db s)") (simp_all add: on_db_def workflow_reserve_launch_def)
qed

lemmas handler_onward = if_onward option_onward sum_onward step_onward read_step_onward give_onward throw_onward pure_onward read_chain_onward
  attempt_onward snapshot_onward report_onward write_onward read_onward perform_onward

context platform_world
begin

lemma publish_onward:
  assumes "platform_node s"
  shows "onward s (snd (publish_workflow env (\<lambda>i. others (f i)) k s))"
proof -
  have handler: "onward t (snd (attempt (publish_claimed env (\<lambda>i. others (f i)) k c expected source hash)
      (\<lambda>e. after (\<lambda>i. others (f i)) 5 (chain (on_db (mark_publication_failed k expected v h (exc_text e) now))
         (\<lambda>_. after (\<lambda>i. others (f i)) 6 (read_workflow k)))) t))"
    if "platform_node t" "ended k (case w_terminal_status (wr_row c) of None \<Rightarrow> source | Some st \<Rightarrow> st) (n_db t)" for t c expected source hash v h now
    by (rule attempt_onward [OF that(1)], rule publish_claimed_onward [OF that])
      (assumption | rule after_onward chain_onward step_onward read_onward)+
  let ?s = "others (f 0) s"
  have node: "onward s ?s" "platform_node ?s" using others_onward [OF assms onward_refl] by blast+
  show ?thesis
    unfolding publish_workflow_def Let_def
    apply (rule read_chain_onward, rule if_onward(2), rule pure_onward, rule if_onward(2), rule pure_onward)
    subgoal premises p for w
      apply (rule onward_trans [OF node(1)], rule chain_onward [OF node(2)], rule step_onward)
      apply (rule option_onward(1))
       apply (rule after_onward, assumption, rule read_onward)
      apply (rule handler, assumption)
      apply hypsubst
      apply (rule claimed_ended [OF assms p(1) node(1) p(3)], assumption)
      done
    done
qed

lemmas publishing = publish_onward after_onward

lemma note_onward: "platform_node s \<Longrightarrow> onward s (snd (workflow_note env (\<lambda>i. others (f i)) k level stage message data s))"
  unfolding workflow_note_def by (assumption | rule handler_onward after_onward chain_onward)+

lemma finalize_onward: "platform_node s \<Longrightarrow> onward s (snd (finalize_terminal_workflow env (\<lambda>i. others (f i)) k s))"
  unfolding finalize_terminal_workflow_def by (rule publish_onward)

end

section \<open>The manager\<close>

lemma terminate_db: "n_db (snd (terminate_if_verified env k pid identity s)) = n_db s"
  by (simp add: terminate_if_verified_def perform_def Let_def)

lemma terminate_onward: "onward s (snd (terminate_if_verified env k pid identity s))"
  by (rule onward_db) (rule terminate_db)

lemma cancel_process_onward: "onward s (snd (cancel_process env k role pid identity acc s))"
proof (rule onward_db)
  obtain v t where t: "terminate_if_verified env (Suc k) pid identity s = (v, t)" by fastforce
  then have "n_db t = n_db s" using terminate_db [of env "Suc k" pid identity s] by simp
  then show "n_db (snd (cancel_process env k role pid identity acc s)) = n_db s"
    by (simp add: cancel_process_def Let_def t split: prod.split identity_state.split sum.split)
qed

lemma pair_onward:
  assumes "platform_node s" "onward s (snd p)"
    and "\<And>x t. platform_node t \<Longrightarrow> onward s t \<Longrightarrow> onward t (snd (F x t))"
  shows "onward s (snd (case p of (x, t) \<Rightarrow> F x t))"
proof -
  have "onward s (snd p)" "platform_node (snd p)" using assms(2) onward_node(1) [OF assms(2,1)] by simp_all
  then show ?thesis using assms(3) [of "snd p" "fst p"] onward_trans [of s "snd p"] by (simp add: case_prod_unfold)
qed

context platform_world
begin

lemma onward_invariant:
  assumes "platform_node s"
  shows "group_invariant (onward s) others"
proof
  fix t k files e db'
  assume t: "onward s t"
  show "onward s (others k t)" using others_onward [OF assms t] by blast
  show "onward s (t\<lparr>n_files := files\<rparr>)" "onward s (perform e t)"
    by (rule onward_trans [OF t], rule onward_db, simp add: perform_def)+
  show "onward s (t\<lparr>n_db := db'\<rparr>)" if "run_step (n_db t) db'"
    by (rule onward_trans [OF t], rule onward_system) (use that in \<open>simp add: system_step.run\<close>)
  show "onward s (t\<lparr>n_db := db'\<rparr>)" if "lock_step (n_db t) db'"
    by (rule onward_trans [OF t], rule onward_system) (use that in \<open>simp add: system_step.lock\<close>)
  show "onward s (t\<lparr>n_db := db'\<rparr>)" if "group_step (n_db t) db'"
    by (rule onward_trans [OF t], rule onward_system) (use that in \<open>simp add: system_step.group\<close>)
qed

lemma cancel_run_onward: "platform_node s \<Longrightarrow> onward s (snd (cancel_run env (\<lambda>i. others (f i)) suppress c s))"
  by (rule group_invariant.cancel_run_keeps [OF onward_invariant onward_refl])

lemma cancel_child_onward:
  assumes "platform_node s"
  shows "onward s (snd (cancel_child env (\<lambda>i. others (f i)) c s))"
proof -
  obtain v t where t: "cancel_run (wv_job env) (\<lambda>i. others (f (2000 + i))) False c s = (v, t)" by fastforce
  then have "onward s t" using cancel_run_onward [OF assms, of "wv_job env" "\<lambda>i. f (2000 + i)" False c] by simp
  then show ?thesis using t others_onward(1) [OF assms, of t "f 30"] by (simp add: cancel_child_def Let_def split: sum.split)
qed

lemma confirm_onward:
  "platform_node s \<Longrightarrow> onward s (snd (confirm_cancellation env (\<lambda>i. others (f i)) k details s))"
  unfolding confirm_cancellation_def Let_def
  by (assumption | rule handler_onward after_onward note_onward finalize_onward chain_onward)+

lemma reconcile_cancellation_onward:
  assumes "platform_node s"
  shows "onward s (snd (reconcile_cancellation env (\<lambda>i. others (f i)) w s))"
proof -
  have child: "onward s (snd (case w_active_child_run_id (wr_row w) of
      None \<Rightarrow> (([(''cancelled_by_request'', JBool True)], []), s) | Some c \<Rightarrow> cancel_child env (\<lambda>i. others (f i)) c s))"
    using cancel_child_onward [OF assms] by (simp split: option.split)
  have last: "onward t (snd (if reasons \<noteq> []
      then chain (on_db (mark_cancellation_retry k v tok gen doc reason now))
             (\<lambda>u. case u of None \<Rightarrow> after (\<lambda>i. others (f i)) 31 (read_workflow k) | Some updated \<Rightarrow> give updated) (others (f 32) u)
      else confirm_cancellation env (\<lambda>i. others (f i)) k details (others (f 32) u)))"
    if t: "platform_node t" "onward t u" for t u reasons k v tok gen doc reason now details
    using others_onward [OF t, of "f 32"]
    by (auto intro!: onward_trans [of t "others (f 32) u"] confirm_onward chain_onward option_onward step_onward give_onward after_onward read_onward)
  show ?thesis
    unfolding reconcile_cancellation_def Let_def
    by (rule pair_onward [OF assms child], simp only: split_beta, rule last, assumption, rule onward_trans [OF cancel_process_onward cancel_process_onward])
qed

lemma cancel_workflow_onward:
  assumes "platform_node s"
  shows "onward s (snd (cancel_workflow env (\<lambda>i. others (f i)) k s))"
proof -
  note node = others_onward [OF assms onward_refl, of "f 37"]
  have request: "onward s (snd (chain (on_db (workflow_request_cancellation k statuses v tok gen doc now))
      (\<lambda>u. case u of None \<Rightarrow> after (\<lambda>i. others (f i)) 38 (read_workflow k) | Some requested \<Rightarrow> give requested) (others (f 37) s)))" for statuses v tok gen doc now
    by (rule onward_trans [OF node(1)], rule chain_onward [OF node(2)])
      (assumption | rule handler_onward after_onward)+
  show ?thesis
    unfolding cancel_workflow_def Let_def
    by (rule sum_onward(2), rule pure_onward, rule if_onward(2), rule pure_onward, rule chain_onward [OF assms], rule if_onward(2), rule pure_onward,
        rule request, rule after_onward, assumption, rule chain_onward, assumption, rule reconcile_cancellation_onward, assumption, rule give_onward)
qed

end

context platform_world
begin

lemma launch_again_onward:
  assumes "platform_node s" "\<And>w t. platform_node t \<Longrightarrow> onward t (snd (otherwise w t))"
  shows "onward s (snd (record_launch_again env (\<lambda>i. others (f i)) k pid token gen identity clk otherwise launched s))"
  unfolding record_launch_again_def
  by (rule option_onward(1); (assumption | rule handler_onward after_onward chain_onward assms)+)

lemma start_launch_onward:
  assumes "platform_node s"
  shows "onward s (snd (start_launch env (\<lambda>i. others (f i)) k version s))"
proof -
  note node = others_onward [OF assms perform_onward]
  show ?thesis
    unfolding start_launch_def Let_def
    by (rule sum_onward(2), rule pure_onward, rule onward_trans [OF node(1)], rule chain_onward [OF node(2)])
      (assumption | rule handler_onward launch_again_onward after_onward note_onward terminate_onward chain_onward)+
qed

lemma launch_failed_onward: "platform_node s \<Longrightarrow> onward s (snd (launch_failed env (\<lambda>i. others (f i)) k count e s))"
  unfolding launch_failed_def Let_def
  by (assumption | rule handler_onward after_onward note_onward finalize_onward chain_onward)+

lemma validated_graph: "validate_workflow js = Inr ds \<Longrightarrow> validate_graph ds = Inr ()"
  by (auto simp: validate_workflow_def split: if_splits sum.splits option.splits)

lemma start_workflow_onward:
  assumes "platform_node s"
  shows "onward s (snd (start_workflow env (\<lambda>i. others (f i)) repo objective js s))"
proof -
  have "onward s (snd (on_db (create_workflow k repo objective ds WS_QUEUED token 1 1 now) s))" if "validate_workflow js = Inr ds" for k ds token now
    by (rule on_db_onward, rule workflow_step.create, rule validated_graph [OF that])
  then show ?thesis
    unfolding start_workflow_def Let_def using assms
    by (auto intro!: option_onward(2) if_onward(2) sum_onward(2) chain_onward after_onward attempt_onward note_onward read_onward
      start_launch_onward launch_failed_onward give_onward)
qed

text \<open>Reconciliation at start-up.\<close>

lemma mark_recovery_onward: "platform_node s \<Longrightarrow> onward s (snd (mark_workflow_recovery env (\<lambda>i. others (f i)) w reason s))"
  unfolding mark_workflow_recovery_def Let_def
  by (assumption | rule handler_onward after_onward note_onward chain_onward)+

lemma adopt_live_onward: "platform_node s \<Longrightarrow> onward s (snd (adopt_live_workflow env (\<lambda>i. others (f i)) w s))"
  unfolding adopt_live_workflow_def Let_def
  by (assumption | rule handler_onward after_onward note_onward chain_onward)+

lemma exhausted_onward: "platform_node s \<Longrightarrow> onward s (snd (exhausted_workflow env (\<lambda>i. others (f i)) w s))"
  unfolding exhausted_workflow_def Let_def
  by (assumption | rule handler_onward after_onward note_onward finalize_onward chain_onward)+

lemma relaunch_failed_onward: "platform_node s \<Longrightarrow> onward s (snd (relaunch_workflow_failed env (\<lambda>i. others (f i)) k gen e s))"
  unfolding relaunch_workflow_failed_def Let_def
  by (assumption | rule handler_onward after_onward finalize_onward chain_onward)+

lemma launch_reserved_onward:
  assumes "platform_node s"
  shows "onward s (snd (launch_reserved env (\<lambda>i. others (f i)) w reserved s))"
proof -
  note node = others_onward [OF assms perform_onward]
  show ?thesis
    unfolding launch_reserved_def Let_def
    by (rule sum_onward(2), rule pure_onward, rule onward_trans [OF node(1)], rule chain_onward [OF node(2)])
      (assumption | rule handler_onward launch_again_onward after_onward note_onward terminate_onward chain_onward)+
qed

lemma relaunch_onward: "platform_node s \<Longrightarrow> onward s (snd (relaunch_workflow env (\<lambda>i. others (f i)) w s))"
  unfolding relaunch_workflow_def Let_def
  by (assumption | rule handler_onward after_onward launch_reserved_onward relaunch_failed_onward chain_onward)+

lemma reconcile_workflow_onward: "platform_node s \<Longrightarrow> onward s (snd (reconcile_workflow env (\<lambda>i. others (f i)) w s))"
  unfolding reconcile_workflow_def Let_def
  by (assumption | rule handler_onward finalize_onward reconcile_cancellation_onward mark_recovery_onward adopt_live_onward exhausted_onward
    relaunch_onward chain_onward)+

lemma reconcile_workflows_onward: "platform_node s \<Longrightarrow> onward s (snd (reconcile_workflows env (\<lambda>i. others (f i)) ws s))"
  by (induction ws arbitrary: s f) (auto intro!: give_onward chain_onward reconcile_workflow_onward)

lemma workflow_startup_onward: "platform_node s \<Longrightarrow> onward s (snd (workflow_reconcile_startup env (\<lambda>i. others (f i)) s))"
  unfolding workflow_reconcile_startup_def
  by (rule if_onward(2), rule pure_onward, rule onward_trans [OF others_onward(1) reconcile_workflows_onward [OF others_onward(2)]])
    (assumption | rule onward_refl)+

end

end
