(* ===== verification/Command_Profiles.thy ===== *)
theory Command_Profiles
  imports Job_Control
begin

text \<open>
  The command profiles, \<open>src/soma/command_profiles.py\<close>: which commands may be run in a repository, the check of every argument against the
  blocked patterns, the validation of a path inside the repository, the resolution of a command id, and the execution of a profile. Texts are
  ASCII. The file system below the root of the repository is a parameter (\<open>repo_files\<close>), a path there is the list of its parts; the processes
  and the environment are the parameters of \<open>exec_env\<close>.
\<close>

section \<open>Blocked patterns\<close>

definition MAX_OUTPUT_BYTES :: nat where
  "MAX_OUTPUT_BYTES = 100000"

definition DEFAULT_TIMEOUT :: int where
  "DEFAULT_TIMEOUT = 120"

text \<open>What the patterns are made of: \<open>\b\<close>, a literal, an optional literal, \<open>\s+\<close> and \<open>\s*\<close>. A pattern is a list of alternatives.\<close>

datatype re_item = Boundary | Lit string | Maybe string | Spaces | Any_spaces

record blocked_pattern =
  bp_text :: string
  bp_alternatives :: "re_item list list"

definition alternatives :: "string \<Rightarrow> re_item list list \<Rightarrow> blocked_pattern" where
  "alternatives t alts = \<lparr>bp_text = t, bp_alternatives = alts\<rparr>"

definition word_pattern :: "string \<Rightarrow> re_item list \<Rightarrow> blocked_pattern" where
  "word_pattern t items = alternatives (CHR 0x5C # ''b'' @ t @ [CHR 0x5C] @ ''b'') [Boundary # items @ [Boundary]]"

definition ws_plus :: string where
  "ws_plus = [CHR 0x5C] @ ''s+''"

definition exe :: string where
  "exe = ''('' @ [CHR 0x5C] @ ''.exe)?''"

definition BLOCKED_ARGV_PATTERNS :: "blocked_pattern list" where
  "BLOCKED_ARGV_PATTERNS =
     [word_pattern (''pip'' @ ws_plus @ ''install'') [Lit ''pip'', Spaces, Lit ''install''],
      word_pattern (''pip3'' @ ws_plus @ ''install'') [Lit ''pip3'', Spaces, Lit ''install''],
      word_pattern (''npm'' @ ws_plus @ ''install'') [Lit ''npm'', Spaces, Lit ''install''],
      word_pattern (''yarn'' @ ws_plus @ ''add'') [Lit ''yarn'', Spaces, Lit ''add''],
      word_pattern (''cmd'' @ exe) [Lit ''cmd'', Maybe ''.exe''],
      word_pattern (''powershell'' @ exe) [Lit ''powershell'', Maybe ''.exe''],
      word_pattern ''Invoke-Expression'' [Lit ''invoke-expression''],
      word_pattern ''Invoke-Command'' [Lit ''invoke-command''],
      word_pattern (''rm'' @ ws_plus @ ''-rf'') [Lit ''rm'', Spaces, Lit ''-rf''],
      word_pattern ''rmdir'' [Lit ''rmdir''],
      word_pattern (''del'' @ [CHR 0x5C] @ ''s*/s'') [Lit ''del'', Any_spaces, Lit ''/s''],
      word_pattern ''deploy'' [Lit ''deploy''],
      word_pattern (''docker'' @ ws_plus @ ''push'') [Lit ''docker'', Spaces, Lit ''push''],
      word_pattern ''ssh'' [Lit ''ssh''],
      word_pattern ''curl'' [Lit ''curl''],
      word_pattern ''wget'' [Lit ''wget''],
      alternatives ('';|&&|'' @ [CHR 0x5C] @ ''|'' @ [CHR 0x5C] @ ''||'' @ [CHR 0x5C] @ ''|'') [[Lit '';''], [Lit ''&&''], [Lit ''||''], [Lit ''|'']],
      alternatives [CHR 0x60] [[Lit [CHR 0x60]]],
      alternatives ([CHR 0x5C] @ ''$'' @ [CHR 0x5C] @ ''('') [[Lit ''$('']]]"

definition word_char :: "char \<Rightarrow> bool" where
  "word_char c = (is_digit c \<or> is_lower_alpha (lower_char c) \<or> c = CHR ''_'')"

definition word_start :: "string \<Rightarrow> bool" where
  "word_start s = (s \<noteq> [] \<and> word_char (hd s))"

definition drop_prefix :: "string \<Rightarrow> string \<Rightarrow> string option" where
  "drop_prefix p s = (if take (length p) s = p then Some (drop (length p) s) else None)"

definition was_word :: "bool \<Rightarrow> string \<Rightarrow> bool" where
  "was_word before t = (if t = [] then before else word_char (last t))"

text \<open>\<open>re_here\<close> matches at the start of the rest; \<open>before\<close> tells whether the character before it is one of a word. Spaces are taken one by one.\<close>

function re_here :: "re_item list \<Rightarrow> bool \<Rightarrow> string \<Rightarrow> bool" where
  "re_here [] before s = True"
| "re_here (Boundary # items) before s = (before \<noteq> word_start s \<and> re_here items before s)"
| "re_here (Lit t # items) before s = (case drop_prefix t s of None \<Rightarrow> False | Some rest \<Rightarrow> re_here items (was_word before t) rest)"
| "re_here (Maybe t # items) before s =
     ((case drop_prefix t s of None \<Rightarrow> False | Some rest \<Rightarrow> re_here items (was_word before t) rest) \<or> re_here items before s)"
| "re_here (Spaces # items) before s =
     (case s of [] \<Rightarrow> False | c # rest \<Rightarrow> is_space c \<and> (re_here items False rest \<or> re_here (Spaces # items) False rest))"
| "re_here (Any_spaces # items) before s =
     (re_here items before s \<or> (case s of [] \<Rightarrow> False | c # rest \<Rightarrow> is_space c \<and> re_here (Any_spaces # items) False rest))"
  by pat_completeness auto

termination
  by (relation "measures [\<lambda>(items, _, _). length items, \<lambda>(_, _, s). length s]") auto

fun re_search :: "re_item list \<Rightarrow> bool \<Rightarrow> string \<Rightarrow> bool" where
  "re_search items before [] = re_here items before []"
| "re_search items before (c # s) = (re_here items before (c # s) \<or> re_search items (word_char c) s)"

definition blocks :: "blocked_pattern \<Rightarrow> string \<Rightarrow> bool" where
  "blocks p s = list_ex (\<lambda>items. re_search items False (lower s)) (bp_alternatives p)"

section \<open>Profiles\<close>

record command_profile =
  cp_id :: string
  cp_argv :: "string list"
  cp_timeout :: int
  cp_description :: string
  cp_writes_files :: bool
  cp_async_only :: bool

definition id_char :: "char \<Rightarrow> bool" where
  "id_char c = (is_digit c \<or> is_lower_alpha (lower_char c) \<or> c \<in> {CHR ''_'', CHR ''-''})"

definition command_id_ok :: "string \<Rightarrow> bool" where
  "command_id_ok s = re_end (\<lambda>t. t \<noteq> [] \<and> list_all id_char t) s"

definition invalid_command_id :: "string \<Rightarrow> py_error" where
  "invalid_command_id i = ValueError (''Invalid command_id: '' @ py_repr_str i)"

definition blocked_element :: "string \<Rightarrow> py_error option" where
  "blocked_element element = (case find (\<lambda>p. blocks p element) BLOCKED_ARGV_PATTERNS of
     None \<Rightarrow> None | Some p \<Rightarrow> Some (ValueError (''Blocked pattern in argv element '' @ py_repr_str element @ '': '' @ bp_text p)))"

definition validate_profile :: "command_profile \<Rightarrow> py_error + command_profile" where
  "validate_profile p =
     (if cp_id p = [] \<or> \<not> command_id_ok (cp_id p) then Inl (invalid_command_id (cp_id p))
      else if cp_argv p = [] then Inl (ValueError ''argv must not be empty'')
      else case List.map_filter blocked_element (cp_argv p) of e # _ \<Rightarrow> Inl e | [] \<Rightarrow> Inr p)"

definition plain_profile :: "string \<Rightarrow> string list \<Rightarrow> int \<Rightarrow> string \<Rightarrow> bool \<Rightarrow> command_profile" where
  "plain_profile i argv timeout description async =
     \<lparr>cp_id = i, cp_argv = argv, cp_timeout = timeout, cp_description = description, cp_writes_files = False, cp_async_only = async\<rparr>"

definition GIT_READONLY_OPERATIONS :: "(string \<times> string list) list" where
  "GIT_READONLY_OPERATIONS =
     [(''status'', [''git'', ''status'', ''--short'', ''--branch'']), (''diff_check'', [''git'', ''diff'', ''--check'']),
      (''diff_name_only'', [''git'', ''diff'', ''--name-only'']),
      (''ls_files'', [''git'', ''ls-files'', ''--cached'', ''--others'', ''--exclude-standard''])]"

definition BUILTIN_PROFILES :: "command_profile list" where
  "BUILTIN_PROFILES =
     [plain_profile ''pytest'' [''python'', ''-m'', ''pytest'', ''-q''] 600 ''Run pytest in quiet mode as a durable async command'' True,
      plain_profile ''pip_check'' [''python'', ''-m'', ''pip'', ''check''] 60 ''Verify no broken package requirements'' False,
      plain_profile ''git_status'' [''git'', ''status'', ''--short'', ''--branch''] 30 ''Read repository branch and working-tree status'' False,
      plain_profile ''git_readonly'' [''git'', ''status'', ''--short'', ''--branch''] 30 ''Run one fixed read-only git operation'' False]"

definition builtin_profile :: "string \<Rightarrow> command_profile option" where
  "builtin_profile i = find (\<lambda>p. cp_id p = i) BUILTIN_PROFILES"

section \<open>Paths inside the repository\<close>

text \<open>\<open>rf_linked\<close>: the entry is a symbolic link or a reparse point.\<close>

record repo_files =
  rf_linked :: "string list \<Rightarrow> bool"
  rf_exists :: "string list \<Rightarrow> bool"
  rf_directory :: "string list \<Rightarrow> bool"
  rf_file :: "string list \<Rightarrow> bool"

fun split_slash :: "string \<Rightarrow> string list" where
  "split_slash [] = [[]]"
| "split_slash (c # s) = (if c = CHR ''/'' then [] # split_slash s
     else (case split_slash s of p # ps \<Rightarrow> (c # p) # ps | [] \<Rightarrow> [[c]]))"

text \<open>\<open>PurePosixPath(text).parts\<close> of a relative path: empty and single-dot parts disappear.\<close>

definition posix_parts :: "string \<Rightarrow> string list" where
  "posix_parts s = filter (\<lambda>p. p \<notin> {[], ''.''}) (split_slash s)"

definition as_posix :: "string list \<Rightarrow> string" where
  "as_posix = join_with ''/''"

definition starts_with :: "string \<Rightarrow> string \<Rightarrow> bool" where
  "starts_with p s = (take (length p) s = p)"

definition slashes :: "string \<Rightarrow> string" where
  "slashes s = map (\<lambda>c. if c = CHR 0x5C then CHR ''/'' else c) s"

definition control_char :: "char \<Rightarrow> bool" where
  "control_char c = ((of_char c :: nat) < 32 \<or> (of_char c :: nat) = 127)"

definition drive_prefix :: "string \<Rightarrow> bool" where
  "drive_prefix s = (case s of a # b # _ \<Rightarrow> is_lower_alpha (lower_char a) \<and> b = CHR '':'' | _ \<Rightarrow> False)"

definition wildcard :: "char \<Rightarrow> bool" where
  "wildcard c = (c \<in> {CHR ''*'', CHR ''?'', CHR ''['', CHR '']''})"

text \<open>\<open>text.partition("::")\<close>\<close>

fun partition_colons :: "string \<Rightarrow> string \<times> bool \<times> string" where
  "partition_colons (a # b # s) =
     (if a = CHR '':'' \<and> b = CHR '':'' then ([], True, s)
      else (let (p, found, rest) = partition_colons (b # s) in (a # p, found, rest)))"
| "partition_colons s = (s, False, [])"

text \<open>\<open>PurePath.suffix\<close> of a name: from the last dot, unless it is the first or the last character.\<close>

definition suffix_of :: "string \<Rightarrow> string" where
  "suffix_of name =
     (let tail = takeWhile (\<lambda>c. c \<noteq> CHR ''.'') (rev name); stem = length name - length tail in
      if stem \<le> 1 \<or> tail = [] then [] else CHR ''.'' # rev tail)"

definition linked_prefix :: "repo_files \<Rightarrow> string list \<Rightarrow> bool" where
  "linked_prefix fs parts = list_ex (\<lambda>n. rf_linked fs (take n parts)) [1..<length parts + 1]"

text \<open>The checks both validations share, in the order of the source; \<open>who\<close> is the word the message starts with.\<close>

definition path_refusal :: "string \<Rightarrow> string \<Rightarrow> string \<Rightarrow> string option" where
  "path_refusal who raw path =
     (if starts_with ''-'' path then Some (who @ '' path target must not start with an option'')
      else if starts_with ''/'' path \<or> starts_with [CHR 0x5C, CHR 0x5C] raw \<or> starts_with ''//'' raw
      then Some (who @ '' path target must be repository-relative'')
      else if drive_prefix path then Some (who @ '' path target must not include a drive prefix'')
      else if list_ex wildcard path then Some (who @ '' path target must not contain wildcards'')
      else None)"

definition validate_pytest_target :: "repo_files \<Rightarrow> string \<Rightarrow> py_error + string" where
  "validate_pytest_target fs raw =
     (if py_strip raw = [] then Inl (ValueError ''Pytest path target must not be empty'')
      else if list_ex control_char raw then Inl (ValueError ''Pytest path target contains control characters'')
      else
        let (path_part, separator, selector) = partition_colons raw; path = slashes (py_strip path_part) in
        if path = [] then Inl (ValueError ''Pytest path target must include a repository path'')
        else case path_refusal ''Pytest'' raw path of Some m \<Rightarrow> Inl (ValueError m) | None \<Rightarrow>
        let parts = posix_parts path in
        if parts = [] then Inl (ValueError ''Pytest path target must include a repository path'')
        else if list_ex (\<lambda>p. p \<in> {[], ''.'', ''..''}) parts
        then Inl (ValueError ''Pytest path target must not contain traversal segments'')
        else if linked_prefix fs parts then Inl (ValueError ''Pytest path target must not traverse symlinks or reparse points'')
        else if \<not> rf_exists fs parts then Inl (ValueError ''Pytest path target does not exist'')
        else if \<not> rf_directory fs parts \<and> \<not> rf_file fs parts then Inl (ValueError ''Pytest path target must be a file or directory'')
        else if \<not> rf_directory fs parts \<and> suffix_of (last parts) \<noteq> ''.py''
        then Inl (ValueError ''Pytest path target file must be a .py file'')
        else Inr (as_posix parts @ (if separator then ''::'' @ selector else [])))"

definition validate_command_path :: "repo_files \<Rightarrow> string list \<Rightarrow> string \<Rightarrow> py_error + string" where
  "validate_command_path fs allowed raw =
     (if py_strip raw = [] then Inl (ValueError ''Validated path target must not be empty'')
      else if list_ex control_char raw then Inl (ValueError ''Validated path target contains control characters'')
      else
        let path = slashes (py_strip raw) in
        case path_refusal ''Validated'' raw path of Some m \<Rightarrow> Inl (ValueError m) | None \<Rightarrow>
        let parts = posix_parts path in
        if parts = [] \<or> list_ex (\<lambda>p. p \<in> {[], ''.'', ''..''}) parts
        then Inl (ValueError ''Validated path target must not contain traversal segments'')
        else if linked_prefix fs parts then Inl (ValueError ''Validated path target must not traverse symlinks or reparse points'')
        else if \<not> rf_exists fs parts \<or> \<not> rf_file fs parts then Inl (ValueError ''Validated path target must be an existing file'')
        else if lower (suffix_of (last parts)) \<notin> set allowed
        then Inl (ValueError (''Validated path target must use one of: '' @ join_with '', '' allowed))
        else Inr (as_posix parts))"

section \<open>Building and resolving profiles\<close>

definition checked :: "py_error + string \<Rightarrow> (string \<Rightarrow> command_profile) \<Rightarrow> py_error + command_profile" where
  "checked target p = (case target of Inl e \<Rightarrow> Inl e | Inr normalized \<Rightarrow> validate_profile (p normalized))"

definition build_pytest_path_profile :: "repo_files \<Rightarrow> string \<Rightarrow> py_error + command_profile" where
  "build_pytest_path_profile fs target = checked (validate_pytest_target fs target) (\<lambda>normalized.
     plain_profile ''pytest_path'' [''python'', ''-m'', ''pytest'', ''-q'', normalized] 600
       ''Run pytest in quiet mode for one validated repo-relative path'' True)"

definition build_py_compile_path_profile :: "repo_files \<Rightarrow> string \<Rightarrow> py_error + command_profile" where
  "build_py_compile_path_profile fs target = checked (validate_command_path fs [''.py''] target) (\<lambda>normalized.
     plain_profile ''py_compile_path'' [''python'', ''-m'', ''py_compile'', normalized] 120
       ''Compile one validated Python file without executing it'' False)"

definition build_bash_n_path_profile :: "repo_files \<Rightarrow> string \<Rightarrow> py_error + command_profile" where
  "build_bash_n_path_profile fs target = checked (validate_command_path fs [''.bash'', ''.sh''] target) (\<lambda>normalized.
     plain_profile ''bash_n_path'' [''bash'', ''-n'', normalized] 120 ''Run bash -n on one validated shell script'' False)"

definition build_json_validate_path_profile :: "repo_files \<Rightarrow> string \<Rightarrow> py_error + command_profile" where
  "build_json_validate_path_profile fs target = checked (validate_command_path fs [''.json''] target) (\<lambda>normalized.
     plain_profile ''json_validate_path'' [''python'', ''-m'', ''json.tool'', normalized] 120 ''Validate one repository JSON file'' False)"

definition build_git_readonly_profile :: "string \<Rightarrow> py_error + command_profile" where
  "build_git_readonly_profile operation =
     (case map_of GIT_READONLY_OPERATIONS operation of
        None \<Rightarrow> Inl (ValueError (''Unsupported git read-only operation: '' @ py_repr_str operation @ ''. Allowed: '' @
                  py_repr (JArr (map JStr [''diff_check'', ''diff_name_only'', ''ls_files'', ''status'']))))
      | Some argv \<Rightarrow> validate_profile (plain_profile ''git_readonly'' argv 30 ''Run one fixed read-only git operation'' False))"

text \<open>\<open>raw\<close> is one entry of \<open>command_profiles\<close> in the configuration; a missing value falls back on the built-in profile of the same id.\<close>

definition raw_or :: "string \<Rightarrow> (string \<times> json) list \<Rightarrow> json \<Rightarrow> json" where
  "raw_or k raw d = (case jget k raw of None \<Rightarrow> d | Some v \<Rightarrow> v)"

definition parse_repo_profile :: "(string \<times> json) list \<Rightarrow> py_error + command_profile" where
  "parse_repo_profile raw =
     (let command_id = py_str (raw_or ''command_id'' raw (JStr [])); builtin = builtin_profile command_id;
          default = (\<lambda>f d. case builtin of None \<Rightarrow> d | Some b \<Rightarrow> f b) in
      case jget ''argv'' raw of
        Some (JArr (a # as)) \<Rightarrow>
          (case py_int (raw_or ''timeout_seconds'' raw (JInt (default cp_timeout DEFAULT_TIMEOUT))) of
             Inl e \<Rightarrow> Inl e
           | Inr timeout \<Rightarrow> validate_profile
               \<lparr>cp_id = command_id, cp_argv = map py_str (a # as), cp_timeout = timeout,
                cp_description = py_str (raw_or ''description'' raw (JStr (case builtin of None \<Rightarrow> [] | Some b \<Rightarrow> cp_description b))),
                cp_writes_files = py_truthy (raw_or ''writes_files'' raw (JBool (case builtin of None \<Rightarrow> False | Some b \<Rightarrow> cp_writes_files b))),
                cp_async_only = py_truthy (raw_or ''async_only'' raw (JBool (case builtin of None \<Rightarrow> False | Some b \<Rightarrow> cp_async_only b)))\<rparr>)
      | _ \<Rightarrow> Inl (ValueError (''Repo command profile '' @ [CHR 0x27] @ command_id @ [CHR 0x27] @ '' must have a non-empty argv list'')))"

definition resolve_command_profile :: "string \<Rightarrow> (string \<times> json) list list \<Rightarrow> py_error + command_profile" where
  "resolve_command_profile command_id repo_profiles =
     (if command_id = [] \<or> \<not> command_id_ok command_id then Inl (invalid_command_id command_id)
      else case find (\<lambda>raw. py_str (raw_or ''command_id'' raw (JStr [])) = command_id) repo_profiles of
        Some raw \<Rightarrow> parse_repo_profile raw
      | None \<Rightarrow>
          (case builtin_profile command_id of
             Some p \<Rightarrow> Inr p
           | None \<Rightarrow> Inl (ValueError (''Unknown command_id: '' @ py_repr_str command_id @ ''. Allowed built-ins: '' @
               py_repr (JArr (map JStr (sort (map cp_id BUILTIN_PROFILES))))))))"

section \<open>Execution\<close>

text \<open>The interpreter of the repository: a path is the root, then the parts below it. \<open>xe_is_file\<close> is false where the file system raises.\<close>

datatype run_outcome = Completed string string int | Timed_out string string | Not_started string

record exec_env =
  xe_windows :: bool
  xe_vars :: "(string \<times> string) list"
  xe_is_file :: "string \<Rightarrow> bool"
  xe_absolute :: "string \<Rightarrow> string"
  xe_within :: "string \<Rightarrow> string \<Rightarrow> bool"
  xe_resolve :: "string \<Rightarrow> string"

definition join_path :: "string \<Rightarrow> string list \<Rightarrow> string" where
  "join_path root parts = join_with ''/'' (root # parts)"

definition virtualenv_candidates :: "bool \<Rightarrow> (string \<times> string \<times> string) list" where
  "virtualenv_candidates windows_host =
     (let windows = map (\<lambda>v. (v, ''Scripts'', ''python.exe'')) [''.venv'', ''venv'', ''venv312''];
          posix = map (\<lambda>v. (v, ''bin'', ''python'')) [''.venv'', ''venv'', ''venv312'']
      in if windows_host then windows @ posix else posix @ windows)"

text \<open>The interpreter, its directory and the root of the environment.\<close>

definition interpreter_in_env :: "exec_env \<Rightarrow> string \<Rightarrow> (string \<times> string \<times> string) option" where
  "interpreter_in_env x root =
     map_option (\<lambda>(d, p). (join_path root [d, p], join_path root [d], root))
       (find (\<lambda>(d, p). xe_is_file x (join_path root [d, p])) [(''Scripts'', ''python.exe''), (''bin'', ''python'')])"

definition env_interpreter :: "exec_env \<Rightarrow> string \<Rightarrow> string \<Rightarrow> (string \<times> string \<times> string) option" where
  "env_interpreter x repo name =
     (let value = py_strip (case map_of (xe_vars x) name of None \<Rightarrow> [] | Some v \<Rightarrow> v) in
      if value = [] then None
      else case interpreter_in_env x value of
        None \<Rightarrow> None
      | Some found \<Rightarrow> if xe_within x value repo then Some found else None)"

definition local_interpreter :: "exec_env \<Rightarrow> string \<Rightarrow> (string \<times> string \<times> string) option" where
  "local_interpreter x repo =
     map_option (\<lambda>(v, d, p). (join_path repo [v, d, p], join_path repo [v, d], join_path repo [v]))
       (find (\<lambda>(v, d, p). xe_is_file x (join_path repo [v, d, p])) (virtualenv_candidates (xe_windows x)))"

definition find_repo_python :: "exec_env \<Rightarrow> string \<Rightarrow> (string \<times> string \<times> string) option" where
  "find_repo_python x cwd =
     (let repo = xe_resolve x cwd; absolute = (\<lambda>(a, b, c). (xe_absolute x a, xe_absolute x b, xe_absolute x c)) in
      map_option absolute
        (case env_interpreter x repo ''VIRTUAL_ENV'' of
           Some f \<Rightarrow> Some f
         | None \<Rightarrow> (case env_interpreter x repo ''CONDA_PREFIX'' of Some f \<Rightarrow> Some f | None \<Rightarrow> local_interpreter x repo)))"

fun set_var :: "string \<Rightarrow> string \<Rightarrow> (string \<times> string) list \<Rightarrow> (string \<times> string) list" where
  "set_var k v [] = [(k, v)]"
| "set_var k v ((k', v') # d) = (if k = k' then (k, v) # d else (k', v') # set_var k v d)"

definition prepare_repo_execution :: "exec_env \<Rightarrow> command_profile \<Rightarrow> string \<Rightarrow> string list \<times> (string \<times> string) list" where
  "prepare_repo_execution x profile cwd =
     (case find_repo_python x cwd of
        None \<Rightarrow> (cp_argv profile, xe_vars x)
      | Some (python, scripts, root) \<Rightarrow>
          let path = (case map_of (xe_vars x) ''PATH'' of None \<Rightarrow> [] | Some v \<Rightarrow> v);
              separator = (if xe_windows x then '';'' else '':'');
              vars = filter (\<lambda>(k, _). k \<noteq> ''PYTHONHOME'')
                (set_var ''VIRTUAL_ENV'' root (set_var ''PATH'' (if path = [] then scripts else scripts @ separator @ path) (xe_vars x)))
          in (case cp_argv profile of
                a # as \<Rightarrow> (if lower a \<in> {''python'', ''python.exe'', ''python3'', ''python3.exe''} then python # as else a # as, vars)
              | [] \<Rightarrow> ([], vars)))"

record command_result =
  cr_ok :: bool
  cr_command_id :: string
  cr_argv :: "string list"
  cr_exit_code :: int
  cr_timed_out :: bool
  cr_stdout :: string
  cr_stderr :: string
  cr_truncated :: bool
  cr_error :: string

text \<open>What the process left behind: both streams, the exit code and whether it timed out. Then the combined output is capped.\<close>

fun observed :: "run_outcome \<Rightarrow> string \<times> string \<times> int \<times> bool" where
  "observed (Completed out err code) = (out, err, code, False)"
| "observed (Timed_out out err) = (out, err, 124, True)"
| "observed (Not_started message) = ([], message, 1, False)"

definition cap_output :: "string \<Rightarrow> string \<Rightarrow> string \<times> string \<times> bool" where
  "cap_output out err =
     (if length (out @ err) \<le> MAX_OUTPUT_BYTES then (out, err, False)
      else if length out > MAX_OUTPUT_BYTES then (take MAX_OUTPUT_BYTES out, [], True)
      else (out, take (MAX_OUTPUT_BYTES - length out) err, True))"

definition run_command_profile ::
  "exec_env \<Rightarrow> (string list \<Rightarrow> (string \<times> string) list \<Rightarrow> run_outcome) \<Rightarrow> command_profile \<Rightarrow> string \<Rightarrow> (string \<times> string) list \<Rightarrow> command_result" where
  "run_command_profile x execute profile cwd extra =
     (let (argv, vars) = prepare_repo_execution x profile cwd;
          (out0, err0, code, late) = observed (execute argv (foldl (\<lambda>d (k, v). set_var k v d) vars extra));
          (out, err, truncated) = cap_output out0 err0 in
      \<lparr>cr_ok = (code = 0 \<and> \<not> late), cr_command_id = cp_id profile, cr_argv = argv, cr_exit_code = code, cr_timed_out = late,
       cr_stdout = out, cr_stderr = err, cr_truncated = truncated,
       cr_error = (if late then ''Timed out after '' @ py_str_int (cp_timeout profile) @ ''s''
                   else if code \<noteq> 0 then take 300 (py_strip err) else [])\<rparr>)"

end
