(* ===== verification/Run_Launch.thy ===== *)
theory Run_Launch
  imports Command_Profiles Workflow_Publication
begin

text \<open>
  How a run comes into being: \<open>JobManager._create_and_launch\<close> and the \<open>start_*\<close> operations above it in \<open>src/soma/job_manager.py\<close>. The
  repository lock is acquired first, then the run is recorded, bound to the lock, and its worker launched; a failure after the run was recorded
  fails the run, publishes it and gives the lock back. The configuration, the builders of staging documents and the file system are parameters
  (\<open>launch_world\<close>); the processes, the clock and the spawn are those of \<open>job_env\<close>.
\<close>

section \<open>Environment and answers\<close>

record launch_world =
  lw_job :: job_env
  lw_resolve :: "string \<Rightarrow> py_error + string"
  lw_profiles :: "string \<Rightarrow> (string \<times> json) list list"
  lw_files :: "string \<Rightarrow> repo_files"
  lw_config :: bool
  lw_new_id :: "string \<Rightarrow> string"
  lw_runs_dir :: string
  lw_powershell :: "(string \<times> json) list \<Rightarrow> string \<Rightarrow> py_error + (string \<times> json) list"
  lw_executable :: "(string \<times> json) list \<Rightarrow> string \<Rightarrow> py_error + json"
  lw_ssh_manifest :: "string \<Rightarrow> string \<Rightarrow> string option \<Rightarrow> py_error + json"
  lw_contract :: "string \<Rightarrow> string \<Rightarrow> string \<Rightarrow> py_error + json"
  lw_fingerprint :: "(string \<times> json) list \<Rightarrow> string"
  lw_make_dir :: "string \<Rightarrow> py_error option"
  lw_stage :: "string \<Rightarrow> string \<Rightarrow> (string \<times> json) list \<Rightarrow> py_error option"
  lw_write :: "string \<Rightarrow> py_error option"
  lw_input_text :: "(string \<times> json) list \<Rightarrow> string"

text \<open>\<open>PolicyDecision\<close> and \<open>to_start_response\<close>.\<close>

record start_decision =
  dc_accepted :: bool
  dc_tier :: int
  dc_risk :: string
  dc_human :: bool
  dc_reason :: string
  dc_minutes :: int
  dc_check :: int

definition response ::
  "string \<Rightarrow> bool \<Rightarrow> string \<Rightarrow> int \<Rightarrow> int \<Rightarrow> string \<Rightarrow> bool \<Rightarrow> string \<Rightarrow> (string \<times> json) list" where
  "response run_id accepted status estimate recheck risk human reason =
     [(''run_id'', JStr run_id), (''accepted'', JBool accepted), (''status'', JStr status), (''estimated_duration_minutes'', JInt estimate),
      (''recommended_check_after_minutes'', JInt recheck), (''risk_level'', JStr risk), (''requires_human'', JBool human), (''reason'', JStr reason)]"

definition to_start_response :: "start_decision \<Rightarrow> string \<Rightarrow> string \<Rightarrow> (string \<times> json) list" where
  "to_start_response d run_id status =
     response run_id (dc_accepted d) status (dc_minutes d) (dc_check d) (dc_risk d) (dc_human d) (dc_reason d)"

section \<open>The request\<close>

definition unmanaged_target :: "string \<Rightarrow> bool" where
  "unmanaged_target repo = (repo = ''__soma_config__'' \<or> starts_with ''ssh:'' repo \<or> starts_with ''cloudflare:'' repo)"

definition canonical_request :: "launch_world \<Rightarrow> string \<Rightarrow> (string \<times> json) list \<Rightarrow> py_error + (string \<times> (string \<times> json) list)" where
  "canonical_request w repo input =
     (if unmanaged_target repo then Inr (repo, input)
      else case lw_resolve w repo of
        Inl e \<Rightarrow> Inl e
      | Inr canonical \<Rightarrow> Inr (canonical, jset ''requested_repo_name'' (JStr repo)
          (if jget ''repo_name'' input \<noteq> None then jset ''repo_name'' (JStr canonical) input else input)))"

definition script_text :: "(string \<times> json) list \<Rightarrow> string" where
  "script_text input = (case jget ''script'' input of None \<Rightarrow> [] | Some v \<Rightarrow> if py_truthy v then py_str v else [])"

definition monitored_contract :: "launch_world \<Rightarrow> (string \<times> json) list \<Rightarrow> string \<Rightarrow> py_error + (string \<times> json) list" where
  "monitored_contract w input run_id =
     (case jget ''host_id'' input of None \<Rightarrow> Inl (KeyError ''host_id'') | Some host \<Rightarrow>
      (case jget ''command_id'' input of None \<Rightarrow> Inl (KeyError ''command_id'') | Some command \<Rightarrow>
       (case lw_contract w (py_str host) (py_str command) run_id of
          Inl e \<Rightarrow> Inl e | Inr contract \<Rightarrow> Inr (jset ''remote_controller_state'' contract input))))"

definition prepare_input :: "launch_world \<Rightarrow> string \<Rightarrow> (string \<times> json) list \<Rightarrow> string \<Rightarrow> py_error + (string \<times> json) list" where
  "prepare_input w tool input run_id =
     (if tool = ''remote_powershell''
      then (case jget ''remote_powershell_request'' input of
              Some (JObj request) \<Rightarrow> lw_powershell w request run_id
            | _ \<Rightarrow> Inl (ValueError ''Remote PowerShell durable request is missing''))
      else if tool = ''executable_profile''
      then (case lw_executable w input run_id of Inl e \<Rightarrow> Inl e | Inr manifest \<Rightarrow> Inr (jset ''staging_manifest'' manifest input))
      else if tool \<in> {''ssh_reviewed_script'', ''ssh_monitored_command''}
      then (case lw_ssh_manifest w tool run_id (if tool = ''ssh_reviewed_script'' then Some (script_text input) else None) of
              Inl e \<Rightarrow> Inl e
            | Inr manifest \<Rightarrow>
                let staged = jset ''staging_manifest'' manifest input in
                if tool = ''ssh_monitored_command'' then monitored_contract w staged run_id else Inr staged)
      else Inr input)"

definition lock_required :: "string \<Rightarrow> (string \<times> json) list \<Rightarrow> py_error + bool" where
  "lock_required tool input =
     (case jget ''repository_lock_required'' input of
        Some (JBool False) \<Rightarrow>
          if tool = ''executable_profile'' \<and> (case jget ''hermes_companion'' input of Some (JObj _) \<Rightarrow> True | _ \<Rightarrow> False) then Inr False
          else Inl (ValueError ''Only Hermes companion executable runs may disable the repository lock'')
      | Some (JBool True) \<Rightarrow> Inr True
      | None \<Rightarrow> Inr True
      | Some _ \<Rightarrow> Inl (ValueError ''repository_lock_required must be boolean''))"

text \<open>What the launch works with once the request is accepted.\<close>

record launch_plan =
  lp_tool :: string
  lp_repo :: string
  lp_run_id :: string
  lp_input :: "(string \<times> json) list"
  lp_locked :: bool
  lp_risk :: string
  lp_human :: bool

section \<open>Recording the run\<close>

definition run_dir_of :: "launch_world \<Rightarrow> launch_plan \<Rightarrow> string" where
  "run_dir_of w p = lw_runs_dir w @ ''/'' @ lp_run_id p"

definition staged_tool :: "string \<Rightarrow> bool" where
  "staged_tool tool = (tool \<in> {''executable_profile'', ''ssh_reviewed_script'', ''ssh_monitored_command''})"

definition artifact_input :: "launch_plan \<Rightarrow> (string \<times> json) list" where
  "artifact_input p =
     (if lp_tool p \<in> {''ssh_reviewed_script'', ''ssh_root_shell''} \<and> jget ''script'' (lp_input p) \<noteq> None
      then jset ''script'' (JStr ''[REDACTED]'') (lp_input p) else lp_input p)"

definition make_dir :: "launch_world \<Rightarrow> string \<Rightarrow> 'db node \<Rightarrow> ('db node, unit) outcome" where
  "make_dir w path s = (case lw_make_dir w path of Some e \<Rightarrow> (Inl e, s) | None \<Rightarrow> (Inr (), s))"

definition stage_files :: "launch_world \<Rightarrow> launch_plan \<Rightarrow> 'db node \<Rightarrow> ('db node, unit) outcome" where
  "stage_files w p s =
     (if \<not> staged_tool (lp_tool p) then (Inr (), s)
      else case lw_stage w (lp_tool p) (run_dir_of w p) (lp_input p) of Some e \<Rightarrow> (Inl e, s) | None \<Rightarrow> (Inr (), s))"

definition write_input :: "launch_world \<Rightarrow> launch_plan \<Rightarrow> 'db node \<Rightarrow> ('db node, unit) outcome" where
  "write_input w p s =
     (let path = run_dir_of w p @ ''/input.json'' in
      case lw_write w path of
        Some e \<Rightarrow> (Inl e, s)
      | None \<Rightarrow> (Inr (), s\<lparr>n_files := (n_files s)(path \<mapsto> lw_input_text w (artifact_input p))\<rparr>))"

definition record_run ::
  "launch_world \<Rightarrow> ('a lock_db_scheme) others \<Rightarrow> launch_plan \<Rightarrow> ('a lock_db_scheme) node \<Rightarrow> (('a lock_db_scheme) node, run_row) outcome" where
  "record_run w others p =
     chain (make_dir w (run_dir_of w p)) (\<lambda>_. chain (stage_files w p) (\<lambda>_. chain (write_input w p) (\<lambda>_.
     after others 1 (on_db (create_run (lp_run_id p) (lp_repo p) (lp_tool p) (run_dir_of w p) (JObj (lp_input p)) (lp_risk p) (lp_human p)
       ''launch_pending'' (je_token (lw_job w)) (je_clock (lw_job w) 30))))))"

section \<open>Launching the worker\<close>

definition bind_lock ::
  "launch_world \<Rightarrow> launch_plan \<Rightarrow> ('a lock_db_scheme) node \<Rightarrow> (('a lock_db_scheme) node, unit) outcome" where
  "bind_lock w p =
     (if \<not> lp_locked p then give ()
      else chain (on_db (bind_run_ownership (lp_repo p) (lp_run_id p) (je_token (lw_job w)) 1))
             (\<lambda>bound. if bound then give () else throw (RuntimeError ''Durable run could not bind repository lock ownership'')))"

definition keep_lock :: "launch_world \<Rightarrow> launch_plan \<Rightarrow> ('a lock_db_scheme) node \<Rightarrow> (('a lock_db_scheme) node, unit) outcome" where
  "keep_lock w p s =
     (Inr (), if lp_locked p
      then s\<lparr>n_db := snd (lock_heartbeat (lp_repo p) (lp_run_id p) (Some (je_token (lw_job w))) (Some 1) (je_clock (lw_job w) 32) (n_db s))\<rparr> else s)"

definition read_run :: "string \<Rightarrow> ('a run_db_scheme) node \<Rightarrow> (('a run_db_scheme) node, run_row) outcome" where
  "read_run k s = (get_run k (n_db s), s)"

definition spawn_worker :: "launch_world \<Rightarrow> launch_plan \<Rightarrow> 'db node \<Rightarrow> ('db node, int) outcome" where
  "spawn_worker w p s =
     (case je_spawn (lw_job w) (lp_run_id p) (je_token (lw_job w)) of
        Inl e \<Rightarrow> (Inl e, s)
      | Inr pid \<Rightarrow> (Inr pid, perform (Spawn_worker (lp_run_id p) (je_token (lw_job w)) pid) s))"

definition still_ours :: "launch_world \<Rightarrow> run_row \<Rightarrow> bool" where
  "still_ours w r = (r_worker_lease_token r = je_token (lw_job w) \<and> lease_gen r = 1 \<and> r_status r \<in> {''queued'', ''running''})"

definition confirm_launch ::
  "launch_world \<Rightarrow> ('a lock_db_scheme) others \<Rightarrow> launch_plan \<Rightarrow> run_row \<Rightarrow> int \<Rightarrow> run_row \<Rightarrow> ('a lock_db_scheme) node \<Rightarrow>
   (('a lock_db_scheme) node, unit) outcome" where
  "confirm_launch w others p run pid current s =
     (if \<not> still_ours w current
      then (Inl (RuntimeError ''Initial worker launch lost durable lease ownership''), perform (Terminate_tree pid) s)
      else chain (keep_lock w p) (\<lambda>_. after others 7 (note_event (lw_job w) run ''info'' ''worker'' ''Worker launcher process started''
             [(''launcher_pid'', JInt pid)] True)) s)"

definition launch_worker ::
  "launch_world \<Rightarrow> ('a lock_db_scheme) others \<Rightarrow> launch_plan \<Rightarrow> run_row \<Rightarrow> ('a lock_db_scheme) node \<Rightarrow> (('a lock_db_scheme) node, unit) outcome" where
  "launch_worker w others p run =
     chain (bind_lock w p) (\<lambda>_.
     after others 2 (chain (note_event (lw_job w) run ''info'' ''launch_pending'' ''Durable worker launch intent recorded''
         [(''tool'', JStr (lp_tool p))] True) (\<lambda>_.
     after others 3 (chain (read_run (lp_run_id p)) (\<lambda>intent.
     chain (spawn_worker w p) (\<lambda>pid.
     after others 4 (chain (on_db (record_worker_launch (lp_run_id p) pid (Some (r_state_version intent)) (Some (je_token (lw_job w)))
         (Some (r_lease_generation intent)) False (je_clock (lw_job w) 31))) (\<lambda>launched.
     after others 5 (chain (case launched of Some r \<Rightarrow> give r | None \<Rightarrow> read_run (lp_run_id p)) (\<lambda>current.
     after others 6 (confirm_launch w others p run pid current)))))))))))"

section \<open>Failure\<close>

definition release_lock :: "string \<Rightarrow> string \<Rightarrow> string \<Rightarrow> int \<Rightarrow> ('a lock_db_scheme) node \<Rightarrow> (('a lock_db_scheme) node, unit) outcome" where
  "release_lock repo k token gen s = (Inr (), s\<lparr>n_db := snd (release repo k (Some token) (Some gen) (n_db s))\<rparr>)"

definition launch_failed_reason :: "py_error \<Rightarrow> string" where
  "launch_failed_reason e = ''Worker launch failed after durable acceptance: '' @ exc_text e"

text \<open>The run was recorded: it fails if it is still as it was read, is published, and gives the lock back.\<close>

definition fail_launched ::
  "launch_world \<Rightarrow> ('a lock_db_scheme) others \<Rightarrow> launch_plan \<Rightarrow> string \<Rightarrow> ('a lock_db_scheme) node \<Rightarrow> (('a lock_db_scheme) node, unit) outcome" where
  "fail_launched w others p reason =
     after others 10 (chain (read_run (lp_run_id p)) (\<lambda>current.
     after others 11 (chain (on_db (fail_infrastructure (lp_run_id p) reason (Some [r_status current]) (Some (r_state_version current))
         (Some (r_worker_lease_token current)) (Some (lease_gen current)) (Some (r_heartbeat_at current)) (je_clock (lw_job w) 33))) (\<lambda>failed.
     case failed of
       None \<Rightarrow> give ()
     | Some _ \<Rightarrow> after others 12 (chain (publish_noting_failure (lw_job w) others current) (\<lambda>_.
         after others 13 (chain (note_event (lw_job w) current ''error'' ''launch_failed'' reason [] False) (\<lambda>_.
         after others 14 (if lp_locked p then release_lock (lp_repo p) (lp_run_id p) (r_worker_lease_token current) (lease_gen current)
                          else give ())))))))))"

definition failed_response :: "string \<Rightarrow> string \<Rightarrow> string \<Rightarrow> (string \<times> json) list" where
  "failed_response k risk reason = response k False ''failed'' 0 0 risk False reason"

definition refused_response :: "string \<Rightarrow> string \<Rightarrow> (string \<times> json) list" where
  "refused_response risk reason = response [] False ''refused'' 0 0 risk False reason"

definition launch_recorded ::
  "launch_world \<Rightarrow> ('a lock_db_scheme) others \<Rightarrow> launch_plan \<Rightarrow> (string \<times> json) list \<Rightarrow> run_row \<Rightarrow> ('a lock_db_scheme) node \<Rightarrow>
   (('a lock_db_scheme) node, (string \<times> json) list) outcome" where
  "launch_recorded w others p accepted run =
     attempt (chain (launch_worker w others p run) (\<lambda>_. give accepted))
       (\<lambda>e. chain (fail_launched w others p (launch_failed_reason e)) (\<lambda>_. give (failed_response (lp_run_id p) (lp_risk p) (launch_failed_reason e))))"

definition launch_unrecorded ::
  "launch_world \<Rightarrow> ('a lock_db_scheme) others \<Rightarrow> launch_plan \<Rightarrow> py_error \<Rightarrow> ('a lock_db_scheme) node \<Rightarrow>
   (('a lock_db_scheme) node, (string \<times> json) list) outcome" where
  "launch_unrecorded w others p e =
     after others 15 (chain (if lp_locked p then release_lock (lp_repo p) (lp_run_id p) (je_token (lw_job w)) 1 else give ())
       (\<lambda>_. give (failed_response [] (lp_risk p) (launch_failed_reason e))))"

definition launch_locked ::
  "launch_world \<Rightarrow> ('a lock_db_scheme) others \<Rightarrow> launch_plan \<Rightarrow> (string \<times> json) list \<Rightarrow> ('a lock_db_scheme) node \<Rightarrow>
   (('a lock_db_scheme) node, (string \<times> json) list) outcome" where
  "launch_locked w others p accepted s =
     (case record_run w others p s of
        (Inl e, s1) \<Rightarrow> launch_unrecorded w others p e s1
      | (Inr run, s1) \<Rightarrow> after others 16 (launch_recorded w others p accepted run) s1)"

section \<open>Create and launch\<close>

text \<open>The row of the lock is read, then the lock is taken in a transaction of its own.\<close>

definition take_lock ::
  "launch_world \<Rightarrow> ('a lock_db_scheme) others \<Rightarrow> launch_plan \<Rightarrow> ('a lock_db_scheme) node \<Rightarrow> (('a lock_db_scheme) node, lock_acquisition) outcome" where
  "take_lock w others p s =
     (let view = acquire_read (je_world (lw_job w) 30) (lp_repo p) (n_db s) in
      after others 20 (on_db (acquire_write view (lp_repo p) (lp_tool p) (lw_fingerprint w (lp_input p)) (lp_run_id p)
        (Some (je_pid (lw_job w))) (je_token (lw_job w)) 1 (je_clock (lw_job w) 34))) s)"

definition launch_planned ::
  "launch_world \<Rightarrow> ('a lock_db_scheme) others \<Rightarrow> launch_plan \<Rightarrow> (string \<times> json) list \<Rightarrow> ('a lock_db_scheme) node \<Rightarrow>
   (('a lock_db_scheme) node, (string \<times> json) list) outcome" where
  "launch_planned w others p accepted =
     (if \<not> lp_locked p then launch_locked w others p accepted
      else chain (take_lock w others p) (\<lambda>a.
        if \<not> a_acquired a
        then give (refused_response (lp_risk p) (a_reason a) @ [(''duplicate'', JBool (a_duplicate a))])
        else after others 21 (launch_locked w others p accepted)))"

definition plan_launch ::
  "launch_world \<Rightarrow> string \<Rightarrow> string \<Rightarrow> (string \<times> json) list \<Rightarrow> start_decision \<Rightarrow> string \<Rightarrow> py_error + launch_plan" where
  "plan_launch w tool repo input d run_id =
     (if \<not> valid_run_id run_id then Inl (invalid_run_id run_id)
      else case prepare_input w tool input run_id of
        Inl e \<Rightarrow> Inl e
      | Inr prepared \<Rightarrow>
          (case lock_required tool prepared of
             Inl e \<Rightarrow> Inl e
           | Inr locked \<Rightarrow> Inr \<lparr>lp_tool = tool, lp_repo = repo, lp_run_id = run_id, lp_input = prepared, lp_locked = locked,
               lp_risk = dc_risk d, lp_human = dc_human d\<rparr>))"

definition accepted_response :: "start_decision \<Rightarrow> string \<Rightarrow> string \<Rightarrow> string \<Rightarrow> (string \<times> json) list" where
  "accepted_response d run_id repo requested =
     (let r = jset ''repo_name'' (JStr repo) (to_start_response d run_id ''queued'') in
      if requested \<noteq> repo then jset ''requested_repo_name'' (JStr requested) r else r)"

definition create_and_launch ::
  "launch_world \<Rightarrow> ('a lock_db_scheme) others \<Rightarrow> string \<Rightarrow> string \<Rightarrow> (string \<times> json) list \<Rightarrow> start_decision \<Rightarrow> string option \<Rightarrow>
   ('a lock_db_scheme) node \<Rightarrow> (('a lock_db_scheme) node, (string \<times> json) list) outcome" where
  "create_and_launch w others tool repo input d reserved s =
     (if tool \<in> set LEGACY_READ_ONLY_TOOLS
      then (Inl (ValueError (''Run tool '' @ [CHR 0x27] @ tool @ [CHR 0x27] @ '' is a legacy read-only type: Soma no longer executes Codex and cannot create new instances. Generate an external-coder handoff instead.'')), s)
      else case canonical_request w repo input of
        Inl e \<Rightarrow> (Inl e, s)
      | Inr (canonical, request) \<Rightarrow>
          if \<not> lw_config w then (Inr (refused_response ''high'' ''Async jobs require a config file path''), s)
          else
            let run_id = (case reserved of Some k \<Rightarrow> str_or k (lw_new_id w tool) | None \<Rightarrow> lw_new_id w tool) in
            case plan_launch w tool canonical request d run_id of
              Inl e \<Rightarrow> (Inl e, s)
            | Inr p \<Rightarrow> launch_planned w others p (accepted_response d run_id canonical repo) s)"

section \<open>The start operations\<close>

definition minutes :: "int \<Rightarrow> int" where
  "minutes seconds = max 1 ((seconds + 59) div 60)"

definition async_decision :: "string \<Rightarrow> string \<Rightarrow> int \<Rightarrow> int \<Rightarrow> start_decision" where
  "async_decision risk reason seconds recheck =
     \<lparr>dc_accepted = True, dc_tier = 1, dc_risk = risk, dc_human = False, dc_reason = reason, dc_minutes = minutes seconds, dc_check = recheck\<rparr>"

definition with_default :: "string \<Rightarrow> json \<Rightarrow> (string \<times> json) list \<Rightarrow> (string \<times> json) list" where
  "with_default k v d = (if jget k d = None then jset k v d else d)"

text \<open>\<open>resolve_repo\<close>, then the profile, then the run; the answer is completed with what was asked for.\<close>

definition start_profile ::
  "launch_world \<Rightarrow> ('a lock_db_scheme) others \<Rightarrow> string \<Rightarrow> (string \<Rightarrow> py_error + command_profile) \<Rightarrow>
   (command_profile \<Rightarrow> start_decision) \<Rightarrow> (command_profile \<Rightarrow> (string \<times> json) list) \<Rightarrow> string option \<Rightarrow>
   ('a lock_db_scheme) node \<Rightarrow> (('a lock_db_scheme) node, (string \<times> json) list) outcome" where
  "start_profile w others repo find_profile decision input reserved s =
     (case lw_resolve w repo of
        Inl e \<Rightarrow> (Inl e, s)
      | Inr canonical \<Rightarrow>
          (case find_profile canonical of
             Inl e \<Rightarrow> (Inl e, s)
           | Inr profile \<Rightarrow>
               chain (create_and_launch w others ''project_command'' repo ((''repo_name'', JStr repo) # input profile) (decision profile) reserved)
                 (\<lambda>answer. give (jupdate (with_default ''repo_name'' (JStr repo) answer) (filter (\<lambda>(k, _). k \<noteq> ''timeout_seconds'') (input profile)))) s))"

definition start_project_command ::
  "launch_world \<Rightarrow> ('a lock_db_scheme) others \<Rightarrow> string \<Rightarrow> string \<Rightarrow> string option \<Rightarrow> ('a lock_db_scheme) node \<Rightarrow>
   (('a lock_db_scheme) node, (string \<times> json) list) outcome" where
  "start_project_command w others repo command_id =
     start_profile w others repo (\<lambda>canonical. resolve_command_profile command_id (lw_profiles w canonical))
       (\<lambda>p. async_decision (if cp_writes_files p then ''medium'' else ''low'') ''Allowlisted project command is approved for durable async execution''
          (cp_timeout p) (min 2 (minutes (cp_timeout p))))
       (\<lambda>_. [(''command_id'', JStr command_id)])"

definition start_pytest_path ::
  "launch_world \<Rightarrow> ('a lock_db_scheme) others \<Rightarrow> string \<Rightarrow> string \<Rightarrow> string option \<Rightarrow> ('a lock_db_scheme) node \<Rightarrow>
   (('a lock_db_scheme) node, (string \<times> json) list) outcome" where
  "start_pytest_path w others repo path =
     start_profile w others repo (\<lambda>canonical. build_pytest_path_profile (lw_files w canonical) path)
       (\<lambda>p. async_decision ''low'' ''Allowlisted scoped pytest command is approved for durable async execution'' (cp_timeout p)
          (min 2 (minutes (cp_timeout p))))
       (\<lambda>p. [(''command_id'', JStr ''pytest_path''), (''path'', JStr (last (cp_argv p)))])"

definition start_git_readonly ::
  "launch_world \<Rightarrow> ('a lock_db_scheme) others \<Rightarrow> string \<Rightarrow> string \<Rightarrow> string option \<Rightarrow> ('a lock_db_scheme) node \<Rightarrow>
   (('a lock_db_scheme) node, (string \<times> json) list) outcome" where
  "start_git_readonly w others repo operation =
     start_profile w others repo (\<lambda>_. build_git_readonly_profile operation)
       (\<lambda>p. async_decision ''low'' ''Allowlisted read-only git operation is approved for durable async execution'' (cp_timeout p) 1)
       (\<lambda>_. [(''command_id'', JStr ''git_readonly''), (''operation'', JStr operation)])"

text \<open>\<open>_start_validated_path_command\<close> and the three validators that use it; a zero timeout stands for that of the profile.\<close>

definition validated_timeout :: "int option \<Rightarrow> command_profile \<Rightarrow> int" where
  "validated_timeout t p = (case t of Some n \<Rightarrow> if n = 0 then cp_timeout p else n | None \<Rightarrow> cp_timeout p)"

definition timeout_checked :: "int option \<Rightarrow> command_profile \<Rightarrow> py_error + command_profile" where
  "timeout_checked t p =
     (if validated_timeout t p < 1 \<or> validated_timeout t p > 604800
      then Inl (ValueError ''validator timeout_seconds must be between 1 and 604800'') else Inr p)"

definition start_validated_path ::
  "launch_world \<Rightarrow> ('a lock_db_scheme) others \<Rightarrow> string \<Rightarrow> string \<Rightarrow> (repo_files \<Rightarrow> py_error + command_profile) \<Rightarrow> string \<Rightarrow> int option \<Rightarrow>
   ('a lock_db_scheme) node \<Rightarrow> (('a lock_db_scheme) node, (string \<times> json) list) outcome" where
  "start_validated_path w others repo command_id build reason timeout =
     start_profile w others repo
       (\<lambda>canonical. case build (lw_files w canonical) of Inl e \<Rightarrow> Inl e | Inr p \<Rightarrow> timeout_checked timeout p)
       (\<lambda>p. async_decision ''low'' reason (validated_timeout timeout p) (min 2 (minutes (validated_timeout timeout p))))
       (\<lambda>p. [(''command_id'', JStr command_id), (''path'', JStr (last (cp_argv p))), (''timeout_seconds'', JInt (validated_timeout timeout p))]) None"

definition start_py_compile_path where
  "start_py_compile_path w others repo path =
     start_validated_path w others repo ''py_compile_path'' (\<lambda>fs. build_py_compile_path_profile fs path)
       ''Allowlisted py_compile path validation is approved for durable async execution''"

definition start_bash_n_path where
  "start_bash_n_path w others repo path =
     start_validated_path w others repo ''bash_n_path'' (\<lambda>fs. build_bash_n_path_profile fs path)
       ''Allowlisted bash -n path validation is approved for durable async execution''"

definition start_json_validation_path where
  "start_json_validation_path w others repo path =
     start_validated_path w others repo ''json_validate_path'' (\<lambda>fs. build_json_validate_path_profile fs path)
       ''Allowlisted JSON validation path is approved for durable async execution''"

definition start_repo_apply ::
  "launch_world \<Rightarrow> ('a lock_db_scheme) others \<Rightarrow> string \<Rightarrow> string \<Rightarrow> (string \<times> json) list \<Rightarrow> ('a lock_db_scheme) node \<Rightarrow>
   (('a lock_db_scheme) node, (string \<times> json) list) outcome" where
  "start_repo_apply w others repo operation payload s =
     (case lw_resolve w repo of
        Inl e \<Rightarrow> (Inl e, s)
      | Inr _ \<Rightarrow>
          if operation \<notin> {''previewed_change'', ''cleanup'', ''revert'', ''move_file''}
          then (Inl (ValueError (''Unsupported repository apply operation: '' @ operation)), s)
          else chain (create_and_launch w others ''repo_apply'' repo
                 (jupdate [(''repo_name'', JStr repo), (''operation'', JStr operation)] payload)
                 \<lparr>dc_accepted = True, dc_tier = 4, dc_risk = ''medium'', dc_human = False,
                  dc_reason = ''Hash-verified managed repository apply is approved for durable execution'', dc_minutes = 1, dc_check = 1\<rparr> None)
                 (\<lambda>answer. give (jset ''operation'' (JStr operation) (with_default ''repo_name'' (JStr repo) answer))) s)"

end
