(* ===== verification/Launch_Guarantees.thy ===== *)
theory Launch_Guarantees
  imports Run_Launch Job_System
begin

text \<open>
  What holds of the launch of a run. The launch keeps every invariant of the steps of the stores and of the other processes (locale
  \<open>launch_invariant\<close>), so it stays within the system; on its own, a launch that is refused leaves everything as it was, and one that fails
  gives the lock back.
\<close>

section \<open>Invariants of the launch\<close>

locale launch_invariant = lock_invariant I others for I :: "('a lock_db_scheme) node \<Rightarrow> bool" and others +
  assumes effect_keep: "I s \<Longrightarrow> I (perform e s)"
begin

lemma chain_keeps: "I (snd (m s)) \<Longrightarrow> (\<And>v t. I t \<Longrightarrow> I (snd (f v t))) \<Longrightarrow> I (snd (chain m f s))"
  unfolding chain_def by (rule case_outcome) simp_all

lemma attempt_keeps: "I (snd (m s)) \<Longrightarrow> (\<And>e t. I t \<Longrightarrow> I (snd (h e t))) \<Longrightarrow> I (snd (attempt m h s))"
  unfolding attempt_def by (rule case_outcome) simp_all

lemma after_keeps: "I s \<Longrightarrow> (\<And>t. I t \<Longrightarrow> I (snd (m t))) \<Longrightarrow> I (snd (after (\<lambda>k. others (f k)) k m s))"
  by (simp add: after_def others_keep)

lemma give_keeps: "I s \<Longrightarrow> I (snd (give v s))" "I s \<Longrightarrow> I (snd (throw e s))" "I s \<Longrightarrow> I (snd (read_run k s))"
  by (simp_all add: give_def throw_def read_run_def)

lemma choice_keeps:
  "(c \<Longrightarrow> I (snd (a s))) \<Longrightarrow> (\<not> c \<Longrightarrow> I (snd (b s))) \<Longrightarrow> I (snd ((if c then a else b) s))"
  "I (snd (m s)) \<Longrightarrow> (\<And>v. I (snd (n v s))) \<Longrightarrow> I (snd ((case x of None \<Rightarrow> m | Some v \<Rightarrow> n v) s))"
  by (simp_all split: option.split)

lemma files_keeps: "I s \<Longrightarrow> I (snd (make_dir w path s))" "I s \<Longrightarrow> I (snd (stage_files w p s))" "I s \<Longrightarrow> I (snd (write_input w p s))"
  by (simp_all add: make_dir_def stage_files_def write_input_def Let_def files_keep split: option.split)

lemma lock_writes_keep:
  "I s \<Longrightarrow> I (snd (keep_lock w p s))" "I s \<Longrightarrow> I (snd (release_lock repo k token gen s))"
  "I s \<Longrightarrow> I (snd (on_db (bind_run_ownership repo k token gen) s))"
  "I s \<Longrightarrow> I (snd (on_db (acquire_write view repo tool fp k owner token gen now) s))"
  "I s \<Longrightarrow> I (snd (on_db (create_run k repo tool dir input risk human st token now) s))"
proof -
  assume s: "I s"
  show "I (snd (keep_lock w p s))" using s by (simp add: keep_lock_def beat_keeps)
  show "I (snd (release_lock repo k token gen s))" unfolding release_lock_def snd_conv by (rule lock_keep [OF s lock_step.release])
  show "I (snd (on_db (bind_run_ownership repo k token gen) s))" by (rule lock_step_db [OF s]) (rule lock_step.bind)
  show "I (snd (on_db (acquire_write view repo tool fp k owner token gen now) s))" by (rule lock_step_db [OF s]) (rule lock_step.acquire)
  show "I (snd (on_db (create_run k repo tool dir input risk human st token now) s))" by (rule db_step [OF s]) (rule run_step.create)
qed

lemma spawn_keeps: "I s \<Longrightarrow> I (snd (spawn_worker w p s))"
  by (simp add: spawn_worker_def effect_keep split: sum.split)

lemmas launch_rules = chain_keeps attempt_keeps after_keeps give_keeps choice_keeps files_keeps lock_writes_keep spawn_keeps answer

lemma confirm_keeps: "I s \<Longrightarrow> I (snd (confirm_launch w (\<lambda>k. others (f k)) p run pid current s))"
  unfolding confirm_launch_def
  by (rule if_both) (assumption | rule launch_rules effect_keep note_event_keeps)+

lemma launch_worker_keeps: "I s \<Longrightarrow> I (snd (launch_worker w (\<lambda>k. others (f k)) p run s))"
  unfolding launch_worker_def bind_lock_def
  by (assumption | rule launch_rules note_event_keeps confirm_keeps db_step run_step.launch)+

lemma fail_launched_keeps: "I s \<Longrightarrow> I (snd (fail_launched w (\<lambda>k. others (f k)) p reason s))"
  unfolding fail_launched_def
  by (assumption | rule launch_rules note_event_keeps publish_noting_keeps db_step run_step.infrastructure)+

lemma launch_recorded_keeps: "I s \<Longrightarrow> I (snd (launch_recorded w (\<lambda>k. others (f k)) p accepted run s))"
  unfolding launch_recorded_def
  by (assumption | rule launch_rules launch_worker_keeps fail_launched_keeps)+

lemma record_run_keeps: "I s \<Longrightarrow> I (snd (record_run w (\<lambda>k. others (f k)) p s))"
  unfolding record_run_def by (assumption | rule launch_rules)+

lemma launch_locked_keeps: "I s \<Longrightarrow> I (snd (launch_locked w (\<lambda>k. others (f k)) p accepted s))"
  unfolding launch_locked_def launch_unrecorded_def
  by (rule case_outcome, rule record_run_keeps, assumption) (assumption | rule launch_rules launch_recorded_keeps)+

lemma launch_planned_keeps: "I s \<Longrightarrow> I (snd (launch_planned w (\<lambda>k. others (f k)) p accepted s))"
  unfolding launch_planned_def take_lock_def Let_def
  by (assumption | rule launch_rules launch_locked_keeps)+

lemma create_launch_keeps: "I s \<Longrightarrow> I (snd (create_and_launch w (\<lambda>k. others (f k)) tool repo input d reserved s))"
  unfolding create_and_launch_def Let_def
  by (assumption | rule if_both case_pure let_pair answer launch_planned_keeps)+

lemma start_profile_keeps: "I s \<Longrightarrow> I (snd (start_profile w (\<lambda>k. others (f k)) repo find_profile decision input reserved s))"
  unfolding start_profile_def
  by (assumption | rule case_pure launch_rules create_launch_keeps)+

lemma start_keeps:
  "I s \<Longrightarrow> I (snd (start_project_command w (\<lambda>k. others (f k)) repo command_id reserved s))"
  "I s \<Longrightarrow> I (snd (start_pytest_path w (\<lambda>k. others (f k)) repo path reserved s))"
  "I s \<Longrightarrow> I (snd (start_git_readonly w (\<lambda>k. others (f k)) repo operation reserved s))"
  "I s \<Longrightarrow> I (snd (start_py_compile_path w (\<lambda>k. others (f k)) repo path timeout s))"
  "I s \<Longrightarrow> I (snd (start_bash_n_path w (\<lambda>k. others (f k)) repo path timeout s))"
  "I s \<Longrightarrow> I (snd (start_json_validation_path w (\<lambda>k. others (f k)) repo path timeout s))"
  unfolding start_project_command_def start_pytest_path_def start_git_readonly_def start_py_compile_path_def start_bash_n_path_def
    start_json_validation_path_def start_validated_path_def
  by (rule start_profile_keeps, assumption)+

lemma start_repo_apply_keeps: "I s \<Longrightarrow> I (snd (start_repo_apply w (\<lambda>k. others (f k)) repo operation payload s))"
  unfolding start_repo_apply_def
  by (assumption | rule case_pure if_both launch_rules create_launch_keeps)+

end

sublocale group_invariant \<subseteq> launching: launch_invariant I others
  by unfold_locales (rule trace_keep)

context group_invariant
begin

lemma as_launch: "launch_invariant I others"
  by (rule launching.launch_invariant_axioms)

end

text \<open>The law holds of the model: from any state on, with nothing in between.\<close>

interpretation undisturbed_launch: launch_invariant "later s" "\<lambda>_ t. t" for s :: "('a scope_db_scheme) node"
  by (rule group_invariant.as_launch, rule undisturbed.group_invariant_axioms)

end
