(* ===== verification/Worker_System.thy ===== *)
theory Worker_System
  imports Workflow_System Launch_Guarantees
begin

text \<open>
  The workflow worker within the platform. A worker decides on what it read: a step is claimed when the steps before it have passed, skipped
  when one of them has failed, finished when its run has completed, and the workflow is completed when every step is over. All of that is still
  true at the write, because it never goes back.
\<close>

section \<open>What a read tells\<close>

lemma read_step_simps [simp]:
  "s_workflow_id (read_step q) = s_workflow_id q" "s_step_id (read_step q) = s_step_id q" "s_type (read_step q) = s_type q"
  "s_depends_on (read_step q) = s_depends_on q" "s_status (read_step q) = s_status q" "s_state_version (read_step q) = s_state_version q"
  by (simp_all add: read_step_def)

lemma read_steps:
  assumes "get_workflow k db = Inr w" "st \<in> set (wr_steps w)" "unique_key step_key (workflow_steps db)"
  obtains q where "step_by_key k (s_step_id st) db = Some q" "st = read_step q"
proof -
  have "wr_steps w = map read_step (steps_of k db)" by (rule read_facts [OF assms(1)])
  then obtain q where q: "q \<in> set (workflow_steps db)" "s_workflow_id q = k" "st = read_step q" using assms(2) by (auto simp: steps_of_def)
  with step_in_by_key [OF assms(3) q(1)] that show thesis by simp
qed

lemma all_steps_read:
  assumes "get_workflow k db = Inr w" "s \<in> set (workflow_steps db)" "s_workflow_id s = k"
  shows "read_step s \<in> set (wr_steps w)"
proof -
  have "wr_steps w = map read_step (steps_of k db)" by (rule read_facts [OF assms(1)])
  then show ?thesis using assms(2,3) by (simp add: steps_of_def)
qed

lemma status_read:
  assumes "get_workflow k db = Inr w" "status_by_id w d = Some st" "unique_key step_key (workflow_steps db)"
  shows "\<exists>q. step_by_key k d db = Some q \<and> s_status q = st"
proof -
  have "(d, st) \<in> set (map (\<lambda>s. (s_step_id s, s_status s)) (wr_steps w))"
    using map_of_SomeD [OF assms(2) [unfolded status_by_id_def]] by simp
  then obtain x where "x \<in> set (wr_steps w)" "s_step_id x = d" "s_status x = st" by auto
  then show ?thesis using read_steps [OF assms(1) _ assms(3), of x] by (metis read_step_simps(5))
qed

lemma find_step_in: "find_step i w = Some x \<Longrightarrow> x \<in> set (wr_steps w) \<and> s_step_id x = i"
  by (auto simp: find_step_def find_Some_iff)

section \<open>Decisions that stay right\<close>

definition step_known :: "string \<Rightarrow> step_row \<Rightarrow> (step_row \<Rightarrow> 'a workflow_db_scheme \<Rightarrow> bool) \<Rightarrow> 'a workflow_db_scheme \<Rightarrow> bool" where
  "step_known k st P db = (\<exists>q. step_by_key k (s_step_id st) db = Some q \<and> s_type q = s_type st \<and> P q db)"

definition may_start :: "string \<Rightarrow> step_row \<Rightarrow> 'a workflow_db_scheme \<Rightarrow> bool" where
  "may_start k st = step_known k st (\<lambda>q. deps_passed k (s_depends_on q))"

definition must_skip :: "string \<Rightarrow> step_row \<Rightarrow> 'a workflow_db_scheme \<Rightarrow> bool" where
  "must_skip k st = step_known k st (\<lambda>q. dep_failed k (s_depends_on q))"

lemma step_known_stays:
  assumes "onward s t" "platform_node s" "step_known k st P (n_db s)"
    and "\<And>q q'. s_depends_on q' = s_depends_on q \<Longrightarrow> P q (n_db s) \<Longrightarrow> P q' (n_db t)"
  shows "step_known k st P (n_db t)"
proof -
  obtain q where q: "step_by_key k (s_step_id st) (n_db s) = Some q" "s_type q = s_type st" "P q (n_db s)"
    using assms(3) by (auto simp: step_known_def)
  obtain q' where q': "step_by_key k (s_step_id st) (n_db t) = Some q'" "step_row_advances q q'"
    using advancesD(2) [OF onward_advances(1) [OF assms(1,2)] q(1)] by blast
  then have "s_type q' = s_type q" "s_depends_on q' = s_depends_on q" by (simp_all add: step_row_advances_def step_identity_def)
  then show ?thesis using q q' assms(4) by (simp add: step_known_def)
qed

lemma may_start_stays: "onward s t \<Longrightarrow> platform_node s \<Longrightarrow> may_start k st (n_db s) \<Longrightarrow> may_start k st (n_db t)"
  unfolding may_start_def by (rule step_known_stays, assumption+) (auto intro: deps_passed_stays [OF onward_advances(1)])

lemma must_skip_stays: "onward s t \<Longrightarrow> platform_node s \<Longrightarrow> must_skip k st (n_db s) \<Longrightarrow> must_skip k st (n_db t)"
  unfolding must_skip_def by (rule step_known_stays, assumption+) (auto intro: dep_failed_stays [OF onward_advances(1)])

lemma node_unique: "platform_node s \<Longrightarrow> unique_key step_key (workflow_steps (n_db s))"
  using onward_advances(3) [OF onward_refl] by (auto simp: wf_workflows_def)

lemma ready_may_start:
  assumes "platform_node s" "get_workflow k (n_db s) = Inr w" "find (step_ready w) (wr_steps w) = Some st"
  shows "may_start k st (n_db s)"
proof -
  have st: "st \<in> set (wr_steps w)" "step_ready w st" using assms(3) by (auto simp: find_Some_iff)
  note u = node_unique [OF assms(1)]
  obtain q where q: "step_by_key k (s_step_id st) (n_db s) = Some q" "st = read_step q" by (rule read_steps [OF assms(2) st(1) u])
  have "deps_passed k (s_depends_on q) (n_db s)"
    unfolding deps_passed_def using st(2) q(2) status_read [OF assms(2) _ u] by (auto simp: step_ready_def list_all_iff)
  then show ?thesis using q by (auto simp: may_start_def step_known_def)
qed

lemma blocked_must_skip:
  assumes "platform_node s" "get_workflow k (n_db s) = Inr w" "find (step_blocked w) (wr_steps w) = Some st"
  shows "must_skip k st (n_db s)"
proof -
  have st: "st \<in> set (wr_steps w)" "step_blocked w st" using assms(3) by (auto simp: find_Some_iff)
  note u = node_unique [OF assms(1)]
  obtain q where q: "step_by_key k (s_step_id st) (n_db s) = Some q" "st = read_step q" by (rule read_steps [OF assms(2) st(1) u])
  obtain d where d: "d \<in> set (s_depends_on q)" "status_by_id w d \<noteq> Some SS_PASSED"
    "case status_by_id w d of None \<Rightarrow> False | Some x \<Rightarrow> step_over x"
    using st(2) q(2) by (auto simp: step_blocked_def list_all_iff list_ex_iff)
  obtain x where x: "status_by_id w d = Some x" "x \<in> {SS_FAILED, SS_SKIPPED, SS_CANCELLED}"
    using d(2,3) by (auto simp: step_over_def split: option.splits)
  have "dep_failed k (s_depends_on q) (n_db s)"
    unfolding dep_failed_def using d(1) x(2) status_read [OF assms(2) x(1) u] by blast
  then show ?thesis using q by (auto simp: must_skip_def step_known_def)
qed

lemma read_all_over:
  assumes "get_workflow k (n_db s) = Inr w" "list_all (\<lambda>s. step_over (s_status s)) (wr_steps w)"
  shows "steps_over k (n_db s)"
  unfolding steps_over_def
proof
  fix x assume x: "x \<in> set (workflow_steps (n_db s))"
  show "\<not> step_open k x"
  proof (cases "s_workflow_id x = k")
    case True
    then have "step_over (s_status x)" using all_steps_read [OF assms(1) x] assms(2) by (auto simp: list_all_iff)
    then show ?thesis by (auto simp: step_open_def step_over_def)
  qed (simp add: step_open_def)
qed

lemma steps_over_onward:
  assumes "onward s t" "platform_node s" "steps_over k (n_db s)" "workflow_by_id k (n_db s) \<noteq> None"
  shows "steps_over k (n_db t)"
  by (rule steps_over_stays [OF onward_advances(1) [OF assms(1,2)] assms(3,4) node_unique [OF assms(2)] node_unique [OF onward_node(1) [OF assms(1,2)]]])

lemma completed_read: "child_status c db = ''completed'' \<Longrightarrow> child_completed c db"
  by (auto simp: child_status_def child_completed_def get_run_def split: sum.splits py_error.splits option.splits if_splits)

lemma completed_onward: "onward s t \<Longrightarrow> platform_node s \<Longrightarrow> child_completed c (n_db s) \<Longrightarrow> child_completed c (n_db t)"
  by (rule child_completed_stays [OF onward_advances(2)])

section \<open>The handlers of the worker\<close>

lemma worker_step_onward:
  "onward s (snd (on_db (conditional_update_step k i [S_status SS_FAILED, S_ended_at end_time, S_summary summary, S_error error, S_result result]
     token gen \<lparr>sg_statuses = [SS_RUNNING], sg_state_version = sv, sg_child_run_id = Some c, sg_clear_active = (c \<noteq> None), sg_workflow_version = wv\<rparr>
     [W_failure_summary reason] now) s))"
  "onward s (snd (on_db (conditional_update_step k i
     [S_status SS_PASSED, S_ended_at end_time, S_summary summary, S_artifact_paths paths, S_result result]
     token gen \<lparr>sg_statuses = [SS_RUNNING], sg_state_version = sv, sg_child_run_id = Some None, sg_clear_active = False, sg_workflow_version = wv\<rparr>
     [W_artifact_paths paths'] now) s))"
  "onward s (snd (on_db (conditional_update_step k i [S_result result]
     token gen \<lparr>sg_statuses = [SS_RUNNING], sg_state_version = sv, sg_child_run_id = Some (Some d), sg_clear_active = False, sg_workflow_version = wv\<rparr>
     [] now) s))"
  by (rule on_db_onward, rule workflow_step.intros)+

context platform_world
begin

lemma worker_event_onward: "platform_node s \<Longrightarrow> onward s (snd (worker_event env (\<lambda>i. others (f i)) me level stage message data s))"
  unfolding worker_event_def Let_def by (assumption | rule handler_onward after_onward chain_onward)+

lemma worker_transition_onward:
  assumes "platform_node s" "status = WS_COMPLETED \<Longrightarrow> steps_over (wk_id me) (n_db s)"
  shows "onward s (snd (worker_transition env (\<lambda>i. others (f i)) me status summary action s))"
proof -
  have move: "onward t (snd (on_db (workflow_transition_terminal (wk_id me) status v (wk_token me) (wk_generation me) summary action now) t))"
    if t: "onward s t" and w: "get_workflow (wk_id me) (n_db s) = Inr w" for t v now w
  proof (rule on_db_onward, rule workflow_step.transition)
    assume c: "status = WS_COMPLETED"
    have "workflow_by_id (wk_id me) (n_db s) \<noteq> None" by (rule read_facts [OF w]) simp
    then show "steps_over (wk_id me) (n_db t)" by (rule steps_over_onward [OF t assms(1) assms(2) [OF c]])
  qed
  show ?thesis
    unfolding worker_transition_def Let_def
    apply (rule read_chain_onward, rule after_onward [OF assms(1)], rule chain_onward, assumption, rule move, assumption, assumption)
    apply (assumption | rule handler_onward after_onward chain_onward worker_event_onward publish_onward)+
    done
qed

lemma worker_recovery_onward: "platform_node s \<Longrightarrow> onward s (snd (worker_recovery env (\<lambda>i. others (f i)) me reason s))"
  unfolding worker_recovery_def Let_def by (assumption | rule handler_onward after_onward chain_onward worker_event_onward)+

lemma finish_step_onward:
  assumes "platform_node s" "s_child_run_id step = Some c" "child_completed c (n_db s)"
  shows "onward s (snd (finish_step env (\<lambda>i. others (f i)) me step SS_PASSED end_time summary error result True s))"
proof -
  have pass: "onward t (snd (on_db (conditional_update_step k i [S_status SS_PASSED, S_ended_at e, S_summary summary, S_error error, S_result res]
      token gen \<lparr>sg_statuses = [SS_RUNNING], sg_state_version = sv, sg_child_run_id = Some (Some c), sg_clear_active = True, sg_workflow_version = wv\<rparr>
      [] now) t))" if "onward s t" for t k i e res token gen sv wv now
    by (rule on_db_onward, rule workflow_step.finish, rule completed_onward [OF that assms(1,3)])
  show ?thesis
    unfolding finish_step_def Let_def assms(2)
    by (rule read_chain_onward, rule option_onward(1), rule give_onward, rule after_onward [OF assms(1)], rule chain_onward, assumption,
        rule pass, assumption, rule give_onward)
qed

lemma fail_step_onward:
  assumes "platform_node s" "target \<noteq> Some WS_COMPLETED"
  shows "onward s (snd (fail_step env (\<lambda>i. others (f i)) me step summary error result target action s))"
proof -
  have finish: "onward t (snd ((case (case target of Some st \<Rightarrow> Some st | None \<Rightarrow> if s_on_failure step = OF_STOP then Some WS_FAILED else None) of
        None \<Rightarrow> give True
      | Some st \<Rightarrow> after (\<lambda>i. others (f i)) 21 (chain (worker_transition env (\<lambda>i. others (f i)) me st a b) (\<lambda>_. give True))) t))"
    if t: "platform_node t" for t a b
    by (rule option_onward(1), rule give_onward, rule after_onward [OF t], rule chain_onward, assumption, rule worker_transition_onward, assumption)
      (use assms(2) in \<open>auto simp: give_onward split: option.splits if_splits\<close>)
  show ?thesis
    unfolding fail_step_def Let_def
    by (assumption | rule assms(1) finish handler_onward after_onward chain_onward worker_step_onward worker_event_onward)+
qed

lemma reconcile_child_onward:
  assumes "platform_node s"
  shows "onward s (snd (reconcile_active_child env (\<lambda>i. others (f i)) me w child s))"
proof (cases "find (\<lambda>st. s_child_run_id st = Some child) (wr_steps w)")
  case None
  then show ?thesis unfolding reconcile_active_child_def using assms
    by (simp add: chain_onward worker_recovery_onward give_onward)
next
  case (Some step)
  then have child: "s_child_run_id step = Some child" by (auto simp: find_Some_iff)
  note node = others_onward [OF assms others_onward(1) [OF assms onward_refl, of "f 22"], of "f 23"]
  have pass: "onward s (snd (finish_step env (\<lambda>i. others (f i)) me step SS_PASSED end_time summary error result True
      (others (f 23) (others (f 22) s))))" if "child_status child (n_db s) = ''completed''" for end_time summary error result
    by (rule onward_trans [OF node(1)], rule finish_step_onward [OF node(2) child], rule completed_onward [OF node(1) assms], rule completed_read [OF that])
  have failing: "onward s (snd (fail_step env (\<lambda>i. others (f i)) me step summary error result target action (others (f 23) (others (f 22) s))))"
    if "target \<noteq> Some WS_COMPLETED" for summary error result target action
    by (rule onward_trans [OF node(1)], rule fail_step_onward [OF node(2) that])
  show ?thesis
    unfolding reconcile_active_child_def Let_def Some option.case
    using assms node(1) by (simp add: chain_onward worker_recovery_onward give_onward pass failing)
qed

lemma replay_onward: "platform_node s \<Longrightarrow> onward s (snd (replay_local_summaries env me w s))"
  unfolding replay_local_summaries_def by (assumption | rule handler_onward chain_onward)+

lemma skip_onward:
  assumes "platform_node s"
  shows "onward s (snd (skip_blocked_steps env (\<lambda>i. others (f i)) me s))"
proof -
  have skip: "onward t (snd (on_db (conditional_update_step (wk_id me) (s_step_id step) [S_status SS_SKIPPED, S_ended_at e, S_summary summary, S_error error]
      token gen \<lparr>sg_statuses = [SS_PENDING], sg_state_version = sv, sg_child_run_id = Some None, sg_clear_active = False, sg_workflow_version = wv\<rparr>
      [] now) t))"
    if "onward s t" "get_workflow (wk_id me) (n_db s) = Inr w" "find (step_blocked w) (wr_steps w) = Some step" for t w step e summary error token gen sv wv now
    by (rule on_db_onward, rule workflow_step.skip)
      (use must_skip_stays [OF that(1) assms blocked_must_skip [OF assms that(2,3)]] in \<open>auto simp: must_skip_def step_known_def\<close>)
  show ?thesis
    unfolding skip_blocked_steps_def Let_def
    apply (rule read_chain_onward, rule option_onward(1), rule give_onward, rule after_onward [OF assms], rule chain_onward, assumption,
        rule skip, assumption, assumption, assumption)
    apply (assumption | rule handler_onward after_onward chain_onward worker_event_onward)+
    done
qed

lemma local_summary_onward:
  assumes "platform_node s"
  shows "onward s (snd (run_local_summary env (\<lambda>i. others (f i)) me step s))"
  unfolding run_local_summary_def Let_def
  by (assumption | rule assms handler_onward after_onward chain_onward worker_step_onward worker_event_onward)+

lemma judge_launch_onward:
  assumes "platform_node s"
  shows "onward s (snd (judge_launch env (\<lambda>i. others (f i)) me step child launch s))"
  unfolding judge_launch_def Let_def
  by (assumption | rule assms fail_step_onward handler_onward after_onward chain_onward worker_step_onward worker_event_onward | simp split: if_splits)+

end

section \<open>Starting a step and the loop\<close>

lemma outcome_onward:
  assumes "platform_node s" "onward s (snd p)"
    and "\<And>e t. platform_node t \<Longrightarrow> onward s t \<Longrightarrow> onward t (snd (A e t))" "\<And>v t. platform_node t \<Longrightarrow> onward s t \<Longrightarrow> onward t (snd (B v t))"
  shows "onward s (snd (case p of (Inl e, t) \<Rightarrow> A e t | (Inr v, t) \<Rightarrow> B v t))"
proof -
  obtain r t where p: "p = (r, t)" by fastforce
  then have "onward s t" "platform_node t" using assms(2) onward_node(1) [OF assms(2,1)] by simp_all
  then show ?thesis using assms(3,4) [of t] onward_trans [of s t] p by (cases r) simp_all
qed

locale platform_worker = platform_world others for others :: "('a workflow_db_scheme) others" +
  fixes start :: "('a workflow_db_scheme) starter"
  assumes tame_start: "platform_node s \<Longrightarrow> onward s (snd (start repo type argument reserved s))"
begin

lemma start_child_onward: "platform_node s \<Longrightarrow> onward s (snd (start_child_run start (\<lambda>i. others (f i)) me step reserved s))"
  unfolding start_child_run_def by (assumption | rule handler_onward after_onward tame_start)+

lemma start_claimed_onward:
  assumes "platform_node s"
  shows "onward s (snd (start_claimed_step start env (\<lambda>i. others (f i)) me step child s))"
proof -
  have launch: "onward t (snd (case start_child_run start (\<lambda>i. others (f i)) me step c t of
      (Inl e, s1) \<Rightarrow> fail_step env (\<lambda>i. others (f i)) me step a (exc_text e) (d e) None [] (others (f 35) s1)
    | (Inr launch, s1) \<Rightarrow> judge_launch env (\<lambda>i. others (f i)) me step c launch (others (f 36) s1)))"
    if t: "platform_node t" for t c a d
    by (rule outcome_onward [OF t start_child_onward [OF t]])
      (rule onward_trans [OF others_onward(1) [OF _ onward_refl]], assumption,
        (rule fail_step_onward judge_launch_onward, rule others_onward(2) [OF _ onward_refl], assumption, simp?)+)+
  show ?thesis
    unfolding start_claimed_step_def
    by (rule chain_onward [OF assms], rule worker_event_onward [OF assms], rule if_onward(1), rule give_onward, rule option_onward(1))
      (rule after_onward, assumption, rule local_summary_onward launch, assumption)+
qed

lemma start_step_onward:
  assumes "platform_node s" "may_start (wk_id me) step (n_db s)"
  shows "onward s (snd (start_step start env (\<lambda>i. others (f i)) me step s))"
proof -
  have claim: "onward t (snd (on_db (claim_step (wk_id me) (s_step_id step) token gen
      (if s_type step = ST_LOCAL_SUMMARY then None else Some c) wv sv now) t))" if "onward s t" for t token gen c wv sv now
    by (rule on_db_onward, rule workflow_step.claim_step)
      (use may_start_stays [OF that assms] in \<open>auto simp: may_start_def step_known_def\<close>)
  show ?thesis
    unfolding start_step_def Let_def
    by (rule read_chain_onward, rule after_onward [OF assms(1)], rule chain_onward, assumption, rule claim, assumption)
      (assumption | rule handler_onward after_onward start_claimed_onward)+
qed

lemma complete_onward:
  assumes "platform_node s" "steps_over (wk_id me) (n_db s)"
  shows "onward s (snd (complete_workflow env (\<lambda>i. others (f i)) me s))"
proof (cases "get_workflow (wk_id me) (n_db s)")
  case (Inr w)
  then have present: "workflow_by_id (wk_id me) (n_db s) \<noteq> None" by (elim read_facts) simp
  show ?thesis
    unfolding complete_workflow_def Let_def
    by (rule read_chain_onward, rule after_onward [OF assms(1)], rule worker_transition_onward, assumption)
      (rule steps_over_onward [OF _ assms present])
qed (simp add: complete_workflow_def chain_def read_workflow_def)

lemma next_action_onward:
  assumes "platform_node s"
  shows "onward s (snd (next_action start env (\<lambda>i. others (f i)) me s))"
proof -
  have ready: "onward t (snd (or_leave (start_step start env (\<lambda>i. others (f i)) me step) t))"
    if "platform_node t" "may_start (wk_id me) step (n_db t)" for t step
    unfolding or_leave_def by (rule chain_onward [OF that(1)], rule start_step_onward [OF that], rule give_onward)
  have finish: "onward t (snd (chain (read_workflow (wk_id me)) (\<lambda>w1.
      if list_all (\<lambda>s. step_over (s_status s)) (wr_steps w1)
      then after (\<lambda>i. others (f i)) 46 (chain (complete_workflow env (\<lambda>i. others (f i)) me) (\<lambda>_. give None)) else give None) t))"
    if t: "platform_node t" for t
  proof (rule read_chain_onward, rule if_onward(1))
    fix w assume w: "get_workflow (wk_id me) (n_db t) = Inr w" "list_all (\<lambda>s. step_over (s_status s)) (wr_steps w)"
    have present: "workflow_by_id (wk_id me) (n_db t) \<noteq> None" by (rule read_facts [OF w(1)]) simp
    note over = steps_over_onward [OF _ t read_all_over [OF w] present]
    show "onward t (snd (after (\<lambda>i. others (f i)) 46 (chain (complete_workflow env (\<lambda>i. others (f i)) me) (\<lambda>_. give None)) t))"
      by (rule after_onward [OF t], rule chain_onward, assumption, rule complete_onward, assumption, rule over, assumption, rule give_onward)
  qed (rule give_onward)
  have choose: "onward t (snd (chain (read_workflow (wk_id me)) (\<lambda>w.
      case find (step_ready w) (wr_steps w) of
        None \<Rightarrow> after (\<lambda>i. others (f i)) 45 (chain (read_workflow (wk_id me)) (\<lambda>w1.
          if list_all (\<lambda>s. step_over (s_status s)) (wr_steps w1)
          then after (\<lambda>i. others (f i)) 46 (chain (complete_workflow env (\<lambda>i. others (f i)) me) (\<lambda>_. give None)) else give None))
      | Some step \<Rightarrow> after (\<lambda>i. others (f i)) 44 (or_leave (start_step start env (\<lambda>i. others (f i)) me step))) t))"
    if t: "platform_node t" for t
    by (rule read_chain_onward, rule option_onward(1), rule after_onward [OF t], rule finish, assumption, rule after_onward [OF t], rule ready,
        assumption, rule may_start_stays [OF _ t], assumption, rule ready_may_start [OF t])
  show ?thesis
    unfolding next_action_def
    by (rule chain_onward [OF assms], rule skip_onward [OF assms], rule if_onward(1), rule give_onward, rule after_onward, assumption, rule choose)
qed

lemma turn_onward:
  assumes "platform_node s"
  shows "onward s (snd (worker_turn start env (\<lambda>i. others (f i)) me s))"
  unfolding worker_turn_def Let_def or_leave_def leave_or_publish_def
  by (assumption | rule assms handler_onward after_onward publish_onward replay_onward next_action_onward reconcile_child_onward chain_onward)+

end

section \<open>The loop\<close>

lemma loop_onward:
  assumes "worker_loop start env others me n s = Some r" "platform_node s" "\<forall>n. platform_worker (others n) start"
  shows "onward s (snd r)"
  using assms
proof (induction start env others me n s r rule: worker_loop.raw_induct [rotated, consumes 1])
  case (1 loop start env others me n s r)
  have world: "platform_worker (others n) start" for n using 1(4) by blast
  obtain v t where t: "worker_turn start (env n) (others n) me s = (v, t)" by fastforce
  have go: "onward s t" using platform_worker.turn_onward [OF world [of n] 1(3), where f = "\<lambda>i. i" and env = "env n" and me = me] t by simp
  have base: "platform_world (others n)" using world platform_worker_def by blast
  note next_node = platform_world.others_onward [OF base 1(3) go, of 49]
  show ?case
  proof (cases v)
    case (Inr w)
    show ?thesis
    proof (cases w)
      case None
      with 1(2) t Inr have "loop start env others me (Suc n) (others n 49 t) = Some r" by simp
      then have "onward (others n 49 t) (snd r)" using 1(1) [OF _ next_node(2) 1(4)] by simp
      then show ?thesis by (rule onward_trans [OF next_node(1)])
    qed (use 1(2) t Inr go in auto)
  qed (use 1(2) t go in auto)
qed

lemma execute_onward:
  assumes "execute_worker start env others me s = Some r" "\<forall>n. platform_worker (others n) start" "platform_node s"
  shows "onward s (snd r)"
proof -
  note loop = loop_onward [OF _ _ assms(2)]
  have world: "platform_world (others 0)" using assms(2) platform_worker_def by blast
  note node = platform_world.others_onward [OF world assms(3) onward_refl]
  note rules = onward_trans [OF node(1)] platform_world.others_onward [OF world]
  show ?thesis
  proof (cases "get_workflow (wk_id me) (n_db s)")
    case (Inr w)
    have publish: "onward s t" if "publish_workflow (env 0) (\<lambda>i. others 0 (100 + i)) (wk_id me) (others 0 50 s) = (v, t)" for v t
      using onward_trans [OF node(1) platform_world.publish_onward [OF world node(2)], where f1 = "\<lambda>i. 100 + i"] that by (metis snd_conv)
    have claim: "onward s t" if "on_db (workflow_claim_worker k token gen v pid identity now) (others 0 51 s) = (x, t)" for k token gen v pid identity now x t
      using onward_trans [OF node(1) read_step_onward(1)] that by (metis snd_conv)
    have enter: "onward s (snd r)" if "onward s t" "worker_loop start env others me 1 (others 0 i t) = Some r" for t i
      by (rule onward_trans [OF _ loop [OF that(2)]]) (rule platform_world.others_onward [OF world assms(3) that(1)])+
    show ?thesis
      using assms(1) Inr publish enter [OF onward_refl] enter [unfolded One_nat_def, OF claim]
      by (auto simp: execute_worker_def Let_def split: if_splits prod.splits sum.splits dest: claim)
  qed (use assms(1) in \<open>auto simp: execute_worker_def\<close>)
qed

section \<open>The children of a workflow\<close>

text \<open>\<open>_start_child_run\<close>: the start operations of the job manager, under the run id that the worker has reserved.\<close>

definition child_starter :: "launch_world \<Rightarrow> ('a workflow_db_scheme) others \<Rightarrow> ('a workflow_db_scheme) starter" where
  "child_starter w others repo type argument reserved =
     (case type of
        ST_CODEX_IMPLEMENT \<Rightarrow> throw (ValueError ''codex_implement workflow steps are removed compatibility values and have no worker or launch implementation.'')
      | ST_PROJECT_COMMAND \<Rightarrow> start_project_command w others repo argument (Some reserved)
      | ST_PYTEST_PATH \<Rightarrow> start_pytest_path w others repo argument (Some reserved)
      | ST_GIT_READONLY \<Rightarrow> start_git_readonly w others repo argument (Some reserved)
      | _ \<Rightarrow> throw (ValueError (''Unsupported workflow step type: '' @ step_type_value type)))"

lemma child_starter_onward:
  assumes "platform_world others" "platform_node s"
  shows "onward s (snd (child_starter w others repo type argument reserved s))"
proof -
  note L = group_invariant.as_launch [OF platform_world.onward_invariant [OF assms]]
  note keeps = launch_invariant.start_keeps [OF L, where f = "\<lambda>k. k", OF onward_refl]
  show ?thesis by (cases type) (simp_all add: child_starter_def keeps throw_onward)
qed

text \<open>The start operations of the job manager are what the worker needs of its starter.\<close>

interpretation undisturbed_worker: platform_worker "\<lambda>_ s. s" "child_starter w (\<lambda>_ s. s)" for w
  by (simp add: platform_worker_def platform_worker_axioms_def undisturbed_platform.platform_world_axioms child_starter_onward)

end
