(* ===== verification/Platform_Samples.thy ===== *)
theory Platform_Samples
  imports Worker_System
begin

text \<open>
  A workflow from its creation to its publication: a read-only git command, then a summary of it. Every state is a step of the platform after
  the one before, so the properties of reachable states apply to each of them.
\<close>

section \<open>Evaluating the facts about a workflow\<close>

lemma deps_passed_code [code]:
  "deps_passed k ds db = list_all (\<lambda>d. case step_by_key k d db of None \<Rightarrow> False | Some q \<Rightarrow> s_status q = SS_PASSED) ds"
  by (auto simp: deps_passed_def list_all_iff split: option.splits)

lemma child_completed_code [code]:
  "child_completed c db = (case run_by_id c db of None \<Rightarrow> False | Some r \<Rightarrow> r_status r = ''completed'')"
  by (auto simp: child_completed_def split: option.splits)

lemma steps_over_code [code]: "steps_over k db = list_all (\<lambda>s. \<not> step_open k s) (workflow_steps db)"
  by (simp add: steps_over_def list_all_iff)

section \<open>The states\<close>

definition sample_steps_of :: "step_definition list" where
  "sample_steps_of =
     [\<lparr>sd_id = ''look'', sd_type = ST_GIT_READONLY, sd_depends_on = [], sd_on_failure = OF_STOP,
       sd_parameters = [(''operation'', JStr ''status'')]\<rparr>,
      \<lparr>sd_id = ''tell'', sd_type = ST_LOCAL_SUMMARY, sd_depends_on = [''look''], sd_on_failure = OF_STOP, sd_parameters = []\<rparr>]"

definition sample_child_run :: run_row where
  "sample_child_run = new_run sample_id ''Repo'' ''project_command'' ''runs/1'' (JObj []) ''low'' False ''completed'' ''tok'' ''t0''"

definition empty_platform :: workflow_db where
  "empty_platform = init_scope_db \<lparr>runs = [sample_child_run], events = [], event_seq = 0, locks = [], groups = [], children = [], tasks = [], links = [],
     link_seq = 0, task_events = [], task_event_seq = 0, commands = [], checkpoints = [], scope_schema = 0, writes_enabled = False,
     ever_activated = False, settings_updated_at = [], projects = [], resources = [], resource_bindings = [], repository_bindings = [],
     reservations = [], attempts = [], quarantine = [], bootstrap_events = [], adjudications = [],
     workflows = [], workflow_steps = [], workflow_events = [], workflow_event_seq = 0\<rparr>"

lemma empty_platform_ok: "platform_ok (empty_platform, [])"
proof -
  have "wf_scope empty_platform" by (simp add: empty_platform_def wf_scope_def init_scope_db_def exclusive_bindings_def)
  moreover have "tasks_settled empty_platform" by (simp add: tasks_settled_def empty_platform_def init_scope_db_def)
  moreover have "wf_groups empty_platform"
    by (simp add: wf_groups_def wf_locks_def wf_runs_def empty_platform_def init_scope_db_def)
  moreover have "wf_tasks empty_platform" by (simp add: wf_tasks_def bound_def empty_platform_def init_scope_db_def)
  moreover have "wf_workflows empty_platform" by (simp add: wf_workflows_def unique_key_def empty_platform_def init_scope_db_def)
  ultimately show ?thesis by (simp add: platform_ok_def system_ok_def)
qed

definition queued_workflow :: workflow_db where
  "queued_workflow = snd (create_workflow ''w1'' ''Repo'' ''look'' sample_steps_of WS_QUEUED ''lease'' 1 1 ''t1'' empty_platform)"

definition running_workflow :: workflow_db where
  "running_workflow = snd (workflow_claim_write ''w1'' ''lease'' 1 0 7 ''id'' ''t2'' ''t2'' queued_workflow)"

definition looking_workflow :: workflow_db where
  "looking_workflow = snd (claim_step ''w1'' ''look'' ''lease'' 1 (Some sample_id) (Some 1) (Some 0) ''t3'' running_workflow)"

definition looked_workflow :: workflow_db where
  "looked_workflow = snd (conditional_update_step ''w1'' ''look''
     [S_status SS_PASSED, S_ended_at (Some ''t4''), S_summary ''ok'', S_error [], S_result (JObj [])] ''lease'' 1
     \<lparr>sg_statuses = [SS_RUNNING], sg_state_version = Some 1, sg_child_run_id = Some (Some sample_id), sg_clear_active = True,
      sg_workflow_version = Some 2\<rparr> [] ''t4'' looking_workflow)"

definition telling_workflow :: workflow_db where
  "telling_workflow = snd (claim_step ''w1'' ''tell'' ''lease'' 1 None (Some 3) (Some 0) ''t5'' looked_workflow)"

definition told_workflow :: workflow_db where
  "told_workflow = snd (conditional_update_step ''w1'' ''tell''
     [S_status SS_PASSED, S_ended_at (Some ''t6''), S_summary ''told'', S_artifact_paths [''a''], S_result (JObj [])] ''lease'' 1
     \<lparr>sg_statuses = [SS_RUNNING], sg_state_version = Some 1, sg_child_run_id = Some None, sg_clear_active = False, sg_workflow_version = Some 4\<rparr>
     [W_artifact_paths [''a'']] ''t6'' telling_workflow)"

definition completed_workflow :: workflow_db where
  "completed_workflow = snd (workflow_transition_terminal ''w1'' WS_COMPLETED 5 ''lease'' 1 [] ''none'' ''t7'' told_workflow)"

definition publishing_workflow :: workflow_db where
  "publishing_workflow = snd (begin_publication ''w1'' WS_COMPLETED 6 ''hash'' ''t8'' completed_workflow)"

definition reported_workflow :: workflow_db where
  "reported_workflow = snd (mark_publication_complete ''w1'' WS_COMPLETED 7 ''hash'' WS_COMPLETED [''r''] ''t9'' publishing_workflow)"

lemma sample_statuses:
  "map w_status (workflows completed_workflow) = [WS_COMPLETED]" "map w_status (workflows reported_workflow) = [WS_REPORTED]"
  "map w_terminal_status (workflows publishing_workflow) = [Some WS_COMPLETED]"
  "map s_status (workflow_steps looking_workflow) = [SS_RUNNING, SS_PENDING]"
  "map s_status (workflow_steps reported_workflow) = [SS_PASSED, SS_PASSED]"
  by code_simp+

section \<open>The life of the sample\<close>

lemma platform_workflow: "workflow_step db db' \<Longrightarrow> platform_step\<^sup>*\<^sup>* (db, ps) (db', ps)"
  by (rule r_into_rtranclp) (rule platform_step.workflow)

lemma claim_premise:
  assumes "case step_by_key k i db of None \<Rightarrow> True
    | Some s \<Rightarrow> deps_passed k (s_depends_on s) db \<and> (if s_type s = ST_LOCAL_SUMMARY then child = None else child \<noteq> None)"
  shows "workflow_step db (snd (claim_step k i token gen child wv sv now db))"
  by (rule workflow_step.claim_step) (use assms in \<open>auto split: if_splits\<close>)

lemma to_running: "platform_step\<^sup>*\<^sup>* (empty_platform, []) (running_workflow, [])"
proof -
  have 1: "platform_step\<^sup>*\<^sup>* (empty_platform, []) (queued_workflow, [])"
    unfolding queued_workflow_def by (rule platform_workflow, rule workflow_step.create) code_simp
  have 2: "platform_step\<^sup>*\<^sup>* (queued_workflow, []) (running_workflow, [])"
    unfolding running_workflow_def by (rule platform_workflow, rule workflow_step.claim)
  show ?thesis by (rule rtranclp_trans [OF 1 2])
qed

lemma to_looking: "platform_step\<^sup>*\<^sup>* (empty_platform, []) (looking_workflow, [])"
proof -
  have "platform_step\<^sup>*\<^sup>* (running_workflow, []) (looking_workflow, [])"
    unfolding looking_workflow_def by (rule platform_workflow, rule claim_premise) code_simp
  then show ?thesis by (rule rtranclp_trans [OF to_running])
qed

lemma to_completed: "platform_step\<^sup>*\<^sup>* (looking_workflow, []) (completed_workflow, [])"
proof -
  have 4: "platform_step\<^sup>*\<^sup>* (looking_workflow, []) (looked_workflow, [])"
    unfolding looked_workflow_def by (rule platform_workflow, rule workflow_step.finish) code_simp
  have 5: "platform_step\<^sup>*\<^sup>* (looked_workflow, []) (telling_workflow, [])"
    unfolding telling_workflow_def by (rule platform_workflow, rule claim_premise) code_simp
  have 6: "platform_step\<^sup>*\<^sup>* (telling_workflow, []) (told_workflow, [])"
    unfolding told_workflow_def by (rule platform_workflow, rule workflow_step.summary)
  have over: "steps_over ''w1'' told_workflow" by code_simp
  have 7: "platform_step\<^sup>*\<^sup>* (told_workflow, []) (completed_workflow, [])"
    unfolding completed_workflow_def by (rule platform_workflow, rule workflow_step.transition, rule over)
  show ?thesis by (rule rtranclp_trans [OF rtranclp_trans [OF 4 5] rtranclp_trans [OF 6 7]])
qed

lemma to_reported: "platform_step\<^sup>*\<^sup>* (completed_workflow, []) (reported_workflow, [])"
proof -
  have 8: "platform_step\<^sup>*\<^sup>* (completed_workflow, []) (publishing_workflow, [])"
    unfolding publishing_workflow_def by (rule platform_workflow, rule workflow_step.publish)
  have "w_terminal_status r = Some WS_COMPLETED" if "workflow_by_id ''w1'' publishing_workflow = Some r" for r
    using workflow_by_id_in [OF that] sample_statuses(3) by auto
  then have 9: "platform_step\<^sup>*\<^sup>* (publishing_workflow, []) (reported_workflow, [])"
    unfolding reported_workflow_def by (intro platform_workflow workflow_step.published)
  show ?thesis by (rule rtranclp_trans [OF 8 9])
qed

lemma running_ok: "platform_ok (running_workflow, [])"
  using platform_steps_keep [OF to_running empty_platform_ok] by blast

lemma looking_ok: "platform_ok (looking_workflow, [])"
  using platform_steps_keep [OF to_looking empty_platform_ok] by blast

lemma completed_workflow_ok: "platform_ok (completed_workflow, [])"
  using platform_steps_keep [OF to_completed looking_ok] by blast

text \<open>A node of the platform on which no other process acts, and what the environment answers.\<close>

definition node_at :: "workflow_db \<Rightarrow> workflow_db node" where
  "node_at db = \<lparr>n_db = db, n_files = (\<lambda>_. None), n_trace = []\<rparr>"

lemma sample_nodes: "platform_node (node_at running_workflow)" "platform_node (node_at looking_workflow)"
  using running_ok looking_ok by (auto simp: platform_node_def node_at_def)

lemma quiet_platform: "platform_world (\<lambda>_ s. s)"
  by (rule undisturbed_platform.platform_world_axioms)

lemma quiet_worker: "platform_worker (\<lambda>_ s. s) (child_starter w (\<lambda>_ s. s))"
  by (rule undisturbed_worker.platform_worker_axioms)

end
