(* ===== verification/Workflow_Properties.thy ===== *)
theory Workflow_Properties
  imports Platform_Samples
begin

text \<open>
  The properties of workflows, each with an instance on the sample workflow: what is final, what justifies the state of a step, that the
  handlers stay within the platform, that a workflow always has something to do, and when a worker stops.
\<close>

section \<open>Reachable states\<close>

text \<open>C5. The outcome of a workflow is final. Once a workflow is over, then whatever managers, workers, runs, tasks and other workflows do
  afterwards, in any interleaving, its terminal status, its end, its summary, its result and every one of its steps stay as they are; the only
  change left is that its status becomes reported.\<close>

theorem workflow_outcome_final:
  assumes "platform_ok s" "platform_step\<^sup>*\<^sup>* s s'" "workflow_by_id k (fst s) = Some r" "workflow_over (w_status r)"
  shows "\<exists>r'. workflow_by_id k (fst s') = Some r' \<and> workflow_outcome r' = workflow_outcome r \<and> w_status r' \<in> {w_status r, WS_REPORTED} \<and>
    (\<forall>i. step_by_key k i (fst s') = step_by_key k i (fst s))"
proof -
  have adv: "workflow_advances (fst s) (fst s')" using platform_steps_keep [OF assms(2,1)] by (simp add: platform_advances_def)
  obtain r' where r': "workflow_by_id k (fst s') = Some r'" "workflow_row_advances r r'" using advancesD(1) [OF adv assms(3)] by blast
  have "step_by_key k i (fst s') = step_by_key k i (fst s)" for i
    using advancesD(2) [OF adv, of k i] advancesD(3) [OF adv, of k i] assms(3,4) by (cases "step_by_key k i (fst s)") auto
  then show ?thesis using r' assms(4) by (simp add: workflow_row_advances_def)
qed

theorem workflow_outcome_final_witness:
  "\<exists>r r'. workflow_by_id ''w1'' completed_workflow = Some r \<and> workflow_by_id ''w1'' reported_workflow = Some r' \<and>
    workflow_outcome r' = workflow_outcome r \<and> step_by_key ''w1'' ''look'' reported_workflow = step_by_key ''w1'' ''look'' completed_workflow"
proof -
  have "case workflow_by_id ''w1'' completed_workflow of None \<Rightarrow> False | Some r \<Rightarrow> workflow_over (w_status r)" by code_simp
  then obtain r where r: "workflow_by_id ''w1'' completed_workflow = Some r" "workflow_over (w_status r)" by (auto split: option.splits)
  from workflow_outcome_final [OF completed_workflow_ok to_reported, of "''w1''" r] r show ?thesis by fastforce
qed

text \<open>C6. Every step is where the steps before it allow it to be. In every reachable state the steps a step depends on exist and come before it
  in the order; a step that runs, has passed or has failed depends only on steps that passed; an external step has passed only if the durable
  run it names has completed; a step was skipped only if a step it depends on failed, was skipped or was cancelled.\<close>

theorem workflow_steps_justified:
  assumes "platform_ok s" "platform_step\<^sup>*\<^sup>* s s'" "st \<in> set (workflow_steps (fst s'))"
  shows "(\<forall>d \<in> set (s_depends_on st). \<exists>q. step_by_key (s_workflow_id st) d (fst s') = Some q \<and> s_order_index q < s_order_index st) \<and>
    (s_status st \<in> {SS_RUNNING, SS_PASSED, SS_FAILED} \<longrightarrow> deps_passed (s_workflow_id st) (s_depends_on st) (fst s')) \<and>
    (s_status st = SS_PASSED \<and> s_type st \<noteq> ST_LOCAL_SUMMARY \<longrightarrow> (\<exists>c. s_child_run_id st = Some c \<and> child_completed c (fst s'))) \<and>
    (s_status st = SS_SKIPPED \<longrightarrow> dep_failed (s_workflow_id st) (s_depends_on st) (fst s'))"
proof -
  have "wf_workflows (fst s')" using platform_steps_keep [OF assms(2,1)] by (simp add: platform_ok_def)
  then have "step_ok (fst s') st" using assms(3) by (simp add: wf_workflows_def)
  then show ?thesis unfolding step_ok_def external_def by blast
qed

theorem workflow_steps_justified_witness:
  "\<exists>st \<in> set (workflow_steps completed_workflow). s_step_id st = ''look'' \<and> (\<exists>c. s_child_run_id st = Some c \<and> child_completed c completed_workflow)"
proof -
  have "case step_by_key ''w1'' ''look'' completed_workflow of None \<Rightarrow> False | Some q \<Rightarrow> s_status q = SS_PASSED \<and> s_type q \<noteq> ST_LOCAL_SUMMARY"
    by code_simp
  then obtain q where q: "step_by_key ''w1'' ''look'' completed_workflow = Some q" "s_status q = SS_PASSED" "s_type q \<noteq> ST_LOCAL_SUMMARY"
    by (auto split: option.splits)
  from workflow_steps_justified [OF looking_ok to_completed, of q] step_by_key_in [OF q(1)] q(2,3) show ?thesis by auto
qed

text \<open>C7. A workflow runs one child at a time. In every reachable state, while a workflow is not over, the run it names as its active child
  belongs to exactly one step, which is running and external; without an active child no external step runs. A workflow that has completed has
  no step left that is pending or running.\<close>

theorem workflow_one_child:
  assumes "platform_ok s" "platform_step\<^sup>*\<^sup>* s s'" "r \<in> set (workflows (fst s'))"
  shows "(\<not> workflow_over (w_status r) \<longrightarrow>
      (case w_active_child_run_id r of
         Some c \<Rightarrow> (\<exists>!st. st \<in> set (workflow_steps (fst s')) \<and> holds_child (w_workflow_id r) st) \<and>
           (\<forall>st \<in> set (workflow_steps (fst s')). holds_child (w_workflow_id r) st \<longrightarrow> s_child_run_id st = Some c)
       | None \<Rightarrow> \<not> (\<exists>st \<in> set (workflow_steps (fst s')). holds_child (w_workflow_id r) st))) \<and>
    (w_terminal_status r = Some WS_COMPLETED \<longrightarrow> steps_over (w_workflow_id r) (fst s'))"
proof -
  have wf: "wf_workflows (fst s')" using platform_steps_keep [OF assms(2,1)] by (simp add: platform_ok_def)
  then have own: "owned r (workflow_steps (fst s'))" "w_terminal_status r = Some WS_COMPLETED \<longrightarrow> steps_over (w_workflow_id r) (fst s')"
    using assms(3) by (simp_all add: wf_workflows_def)
  have named: "s_child_run_id st \<noteq> None" if "st \<in> set (workflow_steps (fst s'))" "holds_child (w_workflow_id r) st" for st
    using wf that by (auto simp: wf_workflows_def step_ok_def holds_child_def)
  show ?thesis
  proof (intro conjI impI)
    assume open_row: "\<not> workflow_over (w_status r)"
    show "case w_active_child_run_id r of
         Some c \<Rightarrow> (\<exists>!st. st \<in> set (workflow_steps (fst s')) \<and> holds_child (w_workflow_id r) st) \<and>
           (\<forall>st \<in> set (workflow_steps (fst s')). holds_child (w_workflow_id r) st \<longrightarrow> s_child_run_id st = Some c)
       | None \<Rightarrow> \<not> (\<exists>st \<in> set (workflow_steps (fst s')). holds_child (w_workflow_id r) st)"
    proof (cases "w_active_child_run_id r")
      case None
      have "\<forall>st \<in> set (workflow_steps (fst s')). holds_child (w_workflow_id r) st \<longrightarrow> s_child_run_id st = None"
        using own(1) open_row None by (simp add: owned_def)
      with named None show ?thesis by fastforce
    next
      case (Some c)
      from own(1) open_row have o: "\<forall>c. w_active_child_run_id r = Some c \<longrightarrow> (\<exists>st \<in> set (workflow_steps (fst s')). holds_child (w_workflow_id r) st)"
        "\<forall>st \<in> set (workflow_steps (fst s')). holds_child (w_workflow_id r) st \<longrightarrow> s_child_run_id st = w_active_child_run_id r"
        "\<forall>st \<in> set (workflow_steps (fst s')). \<forall>t \<in> set (workflow_steps (fst s')).
           holds_child (w_workflow_id r) st \<longrightarrow> holds_child (w_workflow_id r) t \<longrightarrow> st = t"
        unfolding owned_def by blast+
      obtain st where st: "st \<in> set (workflow_steps (fst s'))" "holds_child (w_workflow_id r) st" using o(1) Some by blast
      have "\<exists>!st. st \<in> set (workflow_steps (fst s')) \<and> holds_child (w_workflow_id r) st"
        using st o(3) by (intro ex1I [of _ st]) auto
      then show ?thesis using o(2) Some by simp
    qed
  qed (use own(2) in blast)
qed

theorem workflow_one_child_witness:
  "\<exists>r \<in> set (workflows looking_workflow). w_active_child_run_id r = Some sample_id \<and>
    (\<exists>!st. st \<in> set (workflow_steps looking_workflow) \<and> holds_child ''w1'' st)"
proof -
  have "case workflow_by_id ''w1'' looking_workflow of None \<Rightarrow> False
    | Some r \<Rightarrow> w_active_child_run_id r = Some sample_id \<and> \<not> workflow_over (w_status r)" by code_simp
  then obtain r where r: "workflow_by_id ''w1'' looking_workflow = Some r" "w_active_child_run_id r = Some sample_id" "\<not> workflow_over (w_status r)"
    by (auto split: option.splits)
  note mem = workflow_by_id_in [OF r(1)]
  from workflow_one_child [OF empty_platform_ok to_looking, of r] mem r(2,3) show ?thesis by (intro bexI [of _ r]) auto
qed

section \<open>Handlers\<close>

text \<open>C14. The workflow manager and the workflow worker stay within the platform. Whatever the other processes do between their transactions, and
  whatever the operating system, the file system and the children answer, a start, a cancellation, the start-up reconciliation, a publication
  and every complete execution of a worker change the database only by steps of the platform: what a handler read before a write still allows
  it, or the write has no effect.\<close>

theorem workflow_handlers_within_platform:
  assumes "platform_world others" "platform_node s"
  shows "onward s (snd (start_workflow env others repo objective js s)) \<and> onward s (snd (cancel_workflow env others k s)) \<and>
    onward s (snd (workflow_reconcile_startup envs others s)) \<and> onward s (snd (publish_workflow env others k s)) \<and>
    (case execute_worker (child_starter w others) envs (\<lambda>_. others) me s of None \<Rightarrow> True | Some (v, t) \<Rightarrow> onward s t)"
proof -
  have worker: "platform_worker others (child_starter w others)"
    using assms(1) child_starter_onward [OF assms(1)] by (simp add: platform_worker_def platform_worker_axioms_def)
  have "onward s (snd r)" if "execute_worker (child_starter w others) envs (\<lambda>_. others) me s = Some r" for r
    using execute_onward [OF that _ assms(2)] worker by simp
  then show ?thesis
    using platform_world.start_workflow_onward [OF assms, where f = "\<lambda>i. i"] platform_world.cancel_workflow_onward [OF assms, where f = "\<lambda>i. i"]
      platform_world.workflow_startup_onward [OF assms, where f = "\<lambda>i. i"] platform_world.publish_onward [OF assms, where f = "\<lambda>i. i"]
    by (auto split: option.split)
qed

section \<open>Liveness\<close>

lemma open_status: "s_status s \<noteq> SS_RUNNING \<Longrightarrow> \<not> step_over (s_status s) \<Longrightarrow> s_status s = SS_PENDING"
  by (cases "s_status s") (simp_all add: step_over_def)

lemma read_status_by_id:
  assumes "get_workflow k db = Inr w" "step_by_key k d db = Some q" "unique_key step_key (workflow_steps db)"
  shows "status_by_id w d = Some (s_status q)"
proof -
  note q = step_by_key_in [OF assms(2)]
  have "read_step q \<in> set (wr_steps w)" using all_steps_read [OF assms(1)] q by blast
  then have "d \<in> fst ` set (rev (map (\<lambda>s. (s_step_id s, s_status s)) (wr_steps w)))"
    using q image_eqI [of d s_step_id "read_step q" "set (wr_steps w)"] by (simp add: image_image)
  then have "status_by_id w d \<noteq> None" unfolding status_by_id_def by (simp only: map_of_eq_None_iff not_not)
  then obtain st where st: "status_by_id w d = Some st" by blast
  then show ?thesis using status_read [OF assms(1) st assms(3)] assms(2) by auto
qed



theorem workflow_handlers_within_platform_witness:
  "platform_node (node_at looking_workflow) \<and>
    (\<forall>env. onward (node_at looking_workflow) (snd (cancel_workflow env (\<lambda>_ s. s) ''w1'' (node_at looking_workflow))))"
  using workflow_handlers_within_platform [OF quiet_platform sample_nodes(2)] sample_nodes(2) by blast

section \<open>Leases\<close>

lemma no_hit_update: "(\<And>r. r \<in> set rows \<Longrightarrow> \<not> hit r) \<Longrightarrow> sql_update hit f rows = rows \<and> sql_count hit rows = 0"
  by (induction rows) (auto simp: sql_update_def sql_count_def)

lemma refused_update:
  assumes "\<And>r. r \<in> set (workflows db) \<Longrightarrow> w_workflow_id r = k \<Longrightarrow> \<not> workflow_guard_holds g r"
  shows "conditional_update_workflow k fs g now db = (Inr None, db)"
  using no_hit_update [of "workflows db" "\<lambda>r. w_workflow_id r = k \<and> workflow_guard_holds g r"] assms
  by (auto simp: conditional_update_workflow_def Let_def)

lemma fenced_rows:
  assumes "platform_ok s" "platform_step\<^sup>*\<^sup>* s s'" "workflow_by_id k (fst s) = Some r" "gen < w_lease_generation r"
    "q \<in> set (workflows (fst s'))" "w_workflow_id q = k"
  shows "w_lease_generation q \<noteq> gen"
proof -
  note kept = platform_steps_keep [OF assms(2,1)]
  have adv: "workflow_advances (fst s) (fst s')" using kept by (simp add: platform_advances_def)
  obtain r' where r': "workflow_by_id k (fst s') = Some r'" "workflow_row_advances r r'" using advancesD(1) [OF adv assms(3)] by blast
  have "unique_key w_workflow_id (workflows (fst s'))" using kept by (simp add: platform_ok_def wf_workflows_def)
  then have "workflow_by_id k (fst s') = Some q" using workflow_in_by_id [of "fst s'" q] assms(5,6) by simp
  then show ?thesis using r' assms(4) by (simp add: workflow_row_advances_def)
qed

lemma refused_beat:
  assumes "\<And>q. q \<in> set (workflows db) \<Longrightarrow> w_workflow_id q = k \<Longrightarrow> w_lease_generation q \<noteq> gen"
  shows "workflow_heartbeat_worker k token gen pid now db = (Inr False, db)"
  unfolding workflow_heartbeat_worker_def
  by (subst refused_update) (use assms in \<open>auto simp: workflow_guard_holds_def workflow_guard0_def opt_is_def\<close>)

text \<open>C18. A worker that lost its lease can do nothing. The generation of a workflow never goes down; and once it is above that of a worker, then at
  every later moment every write of that worker (claiming the workflow, beating, claiming, ending or resetting a step, recording the result of
  a child, ending the workflow or marking it for recovery) is refused and leaves the database exactly as it is.\<close>

theorem superseded_worker_powerless:
  assumes "platform_ok s" "platform_step\<^sup>*\<^sup>* s s'" "workflow_by_id k (fst s) = Some r" "gen < w_lease_generation r"
  defines "db \<equiv> fst s'"
  shows "workflow_claim_write k token gen version pid identity start now db = (Inr False, db) \<and>
    workflow_heartbeat_worker k token gen pid now db = (Inr False, db) \<and>
    claim_step k i token gen child wv sv now db = (Inr None, db) \<and>
    snd (conditional_update_step k i fs token gen g wfs now db) = db \<and>
    snd (workflow_transition_terminal k status version token gen summary action now db) = db \<and>
    workflow_mark_recovery k statuses version token gen reason now db = (Inr None, db)"
proof -
  have fenced: "w_lease_generation q \<noteq> gen" if "q \<in> set (workflows db)" "w_workflow_id q = k" for q
    using fenced_rows [OF assms(1-4)] that by (simp add: db_def)
  note refused = refused_update [of db k] and guards = workflow_guard_holds_def workflow_guard0_def opt_is_def
  have 1: "workflow_claim_write k token gen version pid identity start now db = (Inr False, db)"
    unfolding workflow_claim_write_def by (subst refused) (use fenced in \<open>auto simp: guards\<close>)
  have 2: "workflow_heartbeat_worker k token gen pid now db = (Inr False, db)"
    by (rule refused_beat) (rule fenced)
  have 3: "claim_step k i token gen child wv sv now db = (Inr None, db)"
  proof -
    have "sql_count (claim_where k token gen wv) (workflows db) = 0"
      by (rule conjunct2 [OF no_hit_update [where f = "\<lambda>r. r"]]) (use fenced in \<open>auto simp: claim_where_def\<close>)
    then show ?thesis by (simp add: claim_step_def)
  qed
  have 4: "snd (conditional_update_step k i fs token gen g wfs now db) = db"
  proof -
    have "\<not> list_ex (owned_running k token gen) (workflows db)" using fenced by (auto simp: list_ex_iff owned_running_def)
    then show ?thesis
      using no_hit_update [of "workflow_steps db" "\<lambda>s. step_where k i g s \<and> list_ex (owned_running k token gen) (workflows db)"]
      by (simp add: conditional_update_step_def Let_def)
  qed
  have 5: "snd (workflow_transition_terminal k status version token gen summary action now db) = db"
    unfolding workflow_transition_terminal_def by (subst refused) (use fenced in \<open>auto simp: guards\<close>)
  have 6: "workflow_mark_recovery k statuses version token gen reason now db = (Inr None, db)"
    unfolding workflow_mark_recovery_def by (subst refused) (use fenced in \<open>auto simp: guards\<close>)
  from 1 2 3 4 5 6 show ?thesis by blast
qed

theorem superseded_worker_powerless_witness:
  "claim_step ''w1'' ''look'' ''old'' 0 (Some sample_id) (Some 1) (Some 0) ''t9'' running_workflow = (Inr None, running_workflow)"
proof -
  have "case workflow_by_id ''w1'' running_workflow of None \<Rightarrow> False | Some r \<Rightarrow> 0 < w_lease_generation r" by code_simp
  then obtain r where "workflow_by_id ''w1'' running_workflow = Some r" "0 < w_lease_generation r" by (auto split: option.splits)
  from superseded_worker_powerless [OF running_ok rtranclp.rtrancl_refl, of "''w1''" r 0] this show ?thesis by simp
qed



section \<open>A child that was never created\<close>

text \<open>The step is claimed, with the run id reserved for its child, before the child is started. A worker that dies in between leaves this
  state: the workflow runs, its external step is running, and the run it waits for has no row.\<close>

definition waits_for_nothing :: "worker \<Rightarrow> string \<Rightarrow> 'a workflow_db_scheme \<Rightarrow> bool" where
  "waits_for_nothing me c db =
     (unique_key w_workflow_id (workflows db) \<and> run_by_id c db = None \<and>
      (case workflow_by_id (wk_id me) db of
         None \<Rightarrow> False
       | Some r \<Rightarrow> w_status r = WS_RUNNING \<and> w_worker_lease_token r = wk_token me \<and> w_lease_generation r = wk_generation me \<and> wk_generation me \<noteq> 0 \<and>
           w_active_child_run_id r = Some c \<and> c \<noteq> []) \<and>
      list_all (\<lambda>st. \<not> (s_type st = ST_LOCAL_SUMMARY \<and> s_status st = SS_RUNNING)) (steps_of (wk_id me) db) \<and>
      (case find (\<lambda>st. s_child_run_id st = Some c) (steps_of (wk_id me) db) of None \<Rightarrow> False | Some st \<Rightarrow> s_status st = SS_RUNNING))"

lemma beat_keeps_waiting:
  assumes "waits_for_nothing me c db"
  obtains db' where "workflow_heartbeat_worker (wk_id me) (wk_token me) (wk_generation me) pid now db = (Inr True, db')" "waits_for_nothing me c db'"
proof -
  let ?k = "wk_id me" and ?g = "workflow_guard0\<lparr>wg_statuses := Some [WS_RUNNING], wg_lease_token := Some (wk_token me),
    wg_lease_generation := Some (wk_generation me), wg_bump := False\<rparr>" and ?fs = "[W_heartbeat_at (Some now), W_worker_pid (Some pid)]"
  let ?hit = "\<lambda>r. w_workflow_id r = ?k \<and> workflow_guard_holds ?g r"
  let ?db = "db\<lparr>workflows := sql_update ?hit (workflow_set ?fs False now) (workflows db)\<rparr>"
  have same: "w_workflow_id (workflow_set ?fs False now r) = w_workflow_id r" for r by (simp add: workflow_set_def apply_workflow_fields_def)
  obtain r where r: "workflow_by_id ?k db = Some r" "w_status r = WS_RUNNING" "w_worker_lease_token r = wk_token me"
      "w_lease_generation r = wk_generation me" "w_active_child_run_id r = Some c" "unique_key w_workflow_id (workflows db)"
    using assms by (auto simp: waits_for_nothing_def split: option.splits)
  have holds: "workflow_guard_holds ?g r" using r by (simp add: workflow_guard_holds_def workflow_guard0_def opt_is_def)
  have "sql_count ?hit (workflows db) = 1" using sql_count_key [OF r(6), of ?k "workflow_guard_holds ?g"] r(1) holds by (simp add: workflow_by_id_def)
  moreover have row: "workflow_by_id ?k ?db = Some (workflow_set ?fs False now r)"
    using r(1) holds workflow_by_id_in [OF r(1)] same by (simp add: workflow_by_id_def by_key_sql_update)
  ultimately have "workflow_heartbeat_worker ?k (wk_token me) (wk_generation me) pid now db = (Inr True, ?db)"
    by (simp add: workflow_heartbeat_worker_def conditional_update_workflow_def Let_def get_workflow_def)
  moreover have "waits_for_nothing me c ?db"
    using assms row r same by (simp add: waits_for_nothing_def steps_of_def workflow_set_def apply_workflow_fields_def run_by_id_def)
  ultimately show thesis using that by blast
qed

lemma find_map_step: "find p (map f xs) = map_option f (find (\<lambda>x. p (f x)) xs)"
  by (induction xs) auto

lemma missing_run: "run_by_id c db = None \<Longrightarrow> \<not> is_terminal (child_status c db)"
proof -
  assume "run_by_id c db = None"
  then have "child_status c db \<in> {''not_found'', ''invalid''}" by (simp add: child_status_def get_run_def invalid_run_id_def)
  moreover have "\<not> is_terminal ''not_found''" "\<not> is_terminal ''invalid''" by code_simp+
  ultimately show ?thesis by auto
qed

lemma waiting_turn:
  assumes "waits_for_nothing me c (n_db s)"
  shows "\<exists>t. worker_turn start env (\<lambda>_ s. s) me s = (Inr None, t) \<and> waits_for_nothing me c (n_db t)"
proof -
  obtain r where r: "workflow_by_id (wk_id me) (n_db s) = Some r" "w_status r = WS_RUNNING" "w_active_child_run_id r = Some c" "c \<noteq> []"
    using assms by (auto simp: waits_for_nothing_def split: option.splits)
  obtain st where st: "find (\<lambda>st. s_child_run_id st = Some c) (steps_of (wk_id me) (n_db s)) = Some st" "s_status st = SS_RUNNING"
    using assms by (auto simp: waits_for_nothing_def split: option.splits)
  let ?w = "hydrate_workflow r (steps_of (wk_id me) (n_db s))"
  have w: "get_workflow (wk_id me) (n_db s) = Inr ?w" using r(1) by (simp add: get_workflow_def)
  have row: "w_status (wr_row ?w) = WS_RUNNING" "w_active_child_run_id (wr_row ?w) = Some c"
    using r by (simp_all add: hydrate_workflow_def read_row_def text_or_none_def)
  have child: "find (\<lambda>st. s_child_run_id st = Some c) (wr_steps ?w) = Some (read_step st)"
  proof -
    have "(s_child_run_id (read_step x) = Some c) = (s_child_run_id x = Some c)" for x using r(4) by (auto simp: read_step_def text_or_none_def)
    then show ?thesis using st(1) by (simp add: hydrate_workflow_def find_map_step)
  qed
  have replay: "find (\<lambda>st. s_type st = ST_LOCAL_SUMMARY \<and> s_status st = SS_RUNNING) (wr_steps ?w) = None"
    using assms by (auto simp: waits_for_nothing_def hydrate_workflow_def find_map_step list_all_iff find_None_iff)
  obtain db' where beat: "workflow_heartbeat_worker (wk_id me) (wk_token me) (wk_generation me) (wv_pid env) (wv_clock env 44) (n_db s) = (Inr True, db')"
      "waits_for_nothing me c db'" using beat_keeps_waiting [OF assms] by blast
  have "\<not> is_terminal (child_status c db')"
    by (rule missing_run) (use beat(2) in \<open>simp add: waits_for_nothing_def\<close>)
  then have "worker_turn start env (\<lambda>_ s. s) me s = (Inr None, s\<lparr>n_db := db'\<rparr>)"
    using w row child replay beat(1) st(2)
    by (simp add: worker_turn_def chain_def read_workflow_def after_def give_def on_db_def replay_local_summaries_def or_leave_def
        reconcile_active_child_def)
  then show ?thesis using beat(2) by simp
qed

text \<open>C21. A worker whose child was never created never returns. If the step was claimed and the worker died before the run was recorded, the worker
  that takes over waits for a run that does not exist: left to itself, it never fails the step, never marks the workflow for recovery and never
  returns.\<close>

theorem missing_child_never_returns:
  assumes "waits_for_nothing me c (n_db s)"
  shows "worker_loop start env (\<lambda>_ _ s. s) me n s = None"
proof -
  have never: "\<not> waits_for_nothing me c (n_db s)"
    if "worker_loop start env others me n s = Some y" "others = (\<lambda>_ _ s. s)" for start env others me n s and y :: "(py_error + int) \<times> ('a workflow_db_scheme) node"
    using that
  proof (induction start env others me n s y rule: worker_loop.raw_induct [rotated, consumes 1])
    case (1 loop start env others me n s y)
    show ?case
    proof
      assume "waits_for_nothing me c (n_db s)"
      from waiting_turn [OF this] obtain t where t: "worker_turn start (env n) (\<lambda>_ s. s) me s = (Inr None, t)" "waits_for_nothing me c (n_db t)" by blast
      with 1(2,3) have "loop start env others me (Suc n) t = Some y" by simp
      with 1(1) [OF this 1(3)] t(2) show False by blast
    qed
  qed
  then show ?thesis using assms by (cases "worker_loop start env (\<lambda>_ _ s. s) me n s") blast+
qed

definition lost_child_plane :: workflow_db where
  "lost_child_plane = looking_workflow\<lparr>runs := []\<rparr>"

theorem missing_child_never_returns_witness:
  "\<forall>start env n. worker_loop start env (\<lambda>_ _ s. s) \<lparr>wk_id = ''w1'', wk_token = ''lease'', wk_generation = 1\<rparr> n (node_at lost_child_plane) = None"
proof -
  have "waits_for_nothing \<lparr>wk_id = ''w1'', wk_token = ''lease'', wk_generation = 1\<rparr> sample_id lost_child_plane" by code_simp
  then have "waits_for_nothing \<lparr>wk_id = ''w1'', wk_token = ''lease'', wk_generation = 1\<rparr> sample_id (n_db (node_at lost_child_plane))"
    by (simp add: node_at_def)
  from missing_child_never_returns [OF this] show ?thesis by blast
qed

end
