(* ===== verification/Ownership.thy ===== *)
theory Ownership
  imports Launch_Guarantees Publication_Guarantees
begin

text \<open>
  What a process that works on a run can rely on. The handlers are chains of steps that may raise; \<open>triple P m Q E\<close> says what holds after \<open>m\<close> when
  it answers (\<open>Q\<close>) and when it raises (\<open>E\<close>), with one rule per way of chaining. \<open>lock_owned\<close> is the lock of a run under its lease, \<open>kept\<close> adds the
  status of the run; the steps of the run store leave the lock alone and a terminal status stays.
\<close>

section \<open>Triples\<close>

definition triple :: "('s \<Rightarrow> bool) \<Rightarrow> ('s \<Rightarrow> ('s, 'a) outcome) \<Rightarrow> ('a \<Rightarrow> 's \<Rightarrow> bool) \<Rightarrow> ('s \<Rightarrow> bool) \<Rightarrow> bool" where
  "triple P m Q E \<longleftrightarrow> (\<forall>s. P s \<longrightarrow> (case m s of (Inr v, t) \<Rightarrow> Q v t | (Inl _, t) \<Rightarrow> E t))"

lemma tripleI: "(\<And>s. P s \<Longrightarrow> (case m s of (Inr v, t) \<Rightarrow> Q v t | (Inl _, t) \<Rightarrow> E t)) \<Longrightarrow> triple P m Q E"
  by (simp add: triple_def)

lemma tripleD: "triple P m Q E \<Longrightarrow> P s \<Longrightarrow> m s = (Inr v, t) \<Longrightarrow> Q v t"
  by (fastforce simp: triple_def)

lemma triple_chain: "triple P m Q E \<Longrightarrow> (\<And>v. triple (Q v) (f v) R E) \<Longrightarrow> triple P (chain m f) R E"
  unfolding triple_def chain_def by (fastforce split: prod.splits sum.splits)

lemma triple_attempt: "triple P m Q F \<Longrightarrow> (\<And>e. triple F (h e) Q E) \<Longrightarrow> triple P (attempt m h) Q E"
  unfolding triple_def attempt_def by (fastforce split: prod.splits sum.splits)

lemma triple_after: "(\<And>s. P s \<Longrightarrow> P' (others k s)) \<Longrightarrow> triple P' m Q E \<Longrightarrow> triple P (after others k m) Q E"
  unfolding triple_def after_def by simp

lemma triple_give: "(\<And>s. P s \<Longrightarrow> Q v s) \<Longrightarrow> triple P (give v) Q E"
  by (simp add: triple_def give_def)

lemma triple_throw: "(\<And>s. P s \<Longrightarrow> E s) \<Longrightarrow> triple P (throw e) Q E"
  by (simp add: triple_def throw_def)

lemma triple_if: "(c \<Longrightarrow> triple P a Q E) \<Longrightarrow> (\<not> c \<Longrightarrow> triple P b Q E) \<Longrightarrow> triple P (if c then a else b) Q E"
  by simp

lemma triple_weaken: "triple P m Q E \<Longrightarrow> (\<And>v s. Q v s \<Longrightarrow> Q' v s) \<Longrightarrow> (\<And>s. E s \<Longrightarrow> E' s) \<Longrightarrow> triple P m Q' E'"
  unfolding triple_def by (fastforce split: prod.splits sum.splits)

lemma triple_keeps: "(\<And>s. P s \<Longrightarrow> P (snd (m s))) \<Longrightarrow> triple P m (\<lambda>_. P) P"
  by (rule tripleI) (auto split: prod.split sum.split, (metis snd_conv)+)

lemma triple_snd: "triple P m (\<lambda>_. R) R \<Longrightarrow> P s \<Longrightarrow> R (snd (m s))"
  by (cases "m s"; cases "fst (m s)") (auto simp: triple_def)

lemma triple_either: "triple P m Q E \<Longrightarrow> triple P' m Q E \<Longrightarrow> triple (\<lambda>s. P s \<or> P' s) m Q E"
  by (auto simp: triple_def)

lemma triple_some:
  assumes "\<And>x. triple (P x) m Q E"
  shows "triple (\<lambda>s. \<exists>x. P x s) m Q E"
proof (rule tripleI)
  fix s assume "\<exists>x. P x s"
  then obtain x where "P x s" ..
  with assms [of x] show "case m s of (Inr v, t) \<Rightarrow> Q v t | (Inl _, t) \<Rightarrow> E t" by (simp add: triple_def)
qed

lemma triple_strengthen: "triple P m Q E \<Longrightarrow> (\<And>s. P' s \<Longrightarrow> P s) \<Longrightarrow> triple P' m Q E"
  by (auto simp: triple_def)

lemma triple_option: "triple P a Q E \<Longrightarrow> (\<And>v. triple P (b v) Q E) \<Longrightarrow> triple P (case x of None \<Rightarrow> a | Some v \<Rightarrow> b v) Q E"
  by (cases x) simp_all

lemma triple_fact: "(c \<Longrightarrow> triple P m Q E) \<Longrightarrow> triple (\<lambda>s. c \<and> P s) m Q E"
  by (simp add: triple_def)

section \<open>Ownership\<close>

definition lock_owned :: "string \<Rightarrow> string \<Rightarrow> string \<Rightarrow> int \<Rightarrow> 'a lock_db_scheme \<Rightarrow> bool" where
  "lock_owned repo k tok gen db = (wf_locks db \<and> (\<exists>l. lock_by_repo repo db = Some l \<and> owns k (Some tok) (Some gen) l))"

definition kept :: "string \<Rightarrow> string \<Rightarrow> string \<Rightarrow> int \<Rightarrow> string \<Rightarrow> ('a lock_db_scheme) node \<Rightarrow> bool" where
  "kept repo k tok gen st s = (lock_owned repo k tok gen (n_db s) \<and> (\<exists>r. run_by_id k (n_db s) = Some r \<and> r_status r = st))"

lemma lock_owned_code [code]:
  "lock_owned repo k tok gen db = (wf_locks db \<and> (case lock_by_repo repo db of None \<Rightarrow> False | Some l \<Rightarrow> owns k (Some tok) (Some gen) l))"
  by (simp add: lock_owned_def split: option.split)

lemma kept_code [code]:
  "kept repo k tok gen st s = (lock_owned repo k tok gen (n_db s) \<and> (case run_by_id k (n_db s) of None \<Rightarrow> False | Some r \<Rightarrow> r_status r = st))"
  by (simp add: kept_def split: option.split)

lemma lock_owned_wf: "lock_owned repo k tok gen db \<Longrightarrow> wf_locks db" "lock_owned repo k tok gen db \<Longrightarrow> wf_runs db"
  by (simp_all add: lock_owned_def wf_locks_def)

lemma run_step_owned: "run_step db db' \<Longrightarrow> lock_owned repo k tok gen db \<Longrightarrow> lock_owned repo k tok gen db'"
  using run_step_locks [of db db'] run_step_advances [of db db'] by (simp add: lock_owned_def wf_locks_def lock_by_repo_def db_advances_def)

lemma beat_owned: "lock_owned repo k tok gen db \<Longrightarrow> lock_owned repo k tok gen (snd (lock_heartbeat repo k (Some tok) (Some gen) now db))"
    "runs (snd (lock_heartbeat repo k (Some tok) (Some gen) now db)) = runs db"
proof -
  have eq: "snd (lock_heartbeat repo k (Some tok) (Some gen) now db) =
      lock_update repo (owns k (Some tok) (Some gen)) (\<lambda>l. l\<lparr>l_heartbeat_at := now\<rparr>) db"
    by (simp add: lock_heartbeat_def Let_def lock_where_key lock_update_def)
  show "lock_owned repo k tok gen db \<Longrightarrow> lock_owned repo k tok gen (snd (lock_heartbeat repo k (Some tok) (Some gen) now db))"
    unfolding eq by (auto simp: lock_owned_def lock_update_wf lock_update_lookup owns_def)
  show "runs (snd (lock_heartbeat repo k (Some tok) (Some gen) now db)) = runs db" by (simp add: eq)
qed

lemma release_owned:
  assumes "lock_owned repo k tok gen db" "db' = snd (release repo k (Some tok) (Some gen) db)"
  shows "lock_by_repo repo db' = None" "map_option r_status (run_by_id k db') = map_option r_status (run_by_id k db)"
proof -
  obtain ok where rel: "release repo k (Some tok) (Some gen) db = (ok, db')"
    using assms(2) by (cases "release repo k (Some tok) (Some gen) db") simp
  with release_only_by_owner [OF lock_owned_wf(1) [OF assms(1)] rel] assms(1)
  have "lock_by_repo repo db' = None \<and> run_by_id k db' = map_option bumped (run_by_id k db)" by (auto simp: lock_owned_def)
  then show "lock_by_repo repo db' = None" "map_option r_status (run_by_id k db') = map_option r_status (run_by_id k db)"
    by (simp_all add: option.map_comp comp_def)
qed

text \<open>A status that is over stays, as long as the others keep it.\<close>

lemma kept_invariant:
  fixes others :: "('a lock_db_scheme) others"
  assumes "is_terminal st" "\<And>j s. kept repo k tok gen st s \<Longrightarrow> kept repo k tok gen st (others j s)"
  shows "run_invariant (kept repo k tok gen st) others"
proof
  fix t :: "('a lock_db_scheme) node" and j f db'
  assume t: "kept repo k tok gen st t"
  then have wf: "wf_runs (n_db t)" by (auto simp: kept_def lock_owned_wf)
  show "kept repo k tok gen st (others j t)" using t by (rule assms(2))
  show "kept repo k tok gen st (t\<lparr>n_files := f\<rparr>)" using t by (simp add: kept_def)
  show "kept repo k tok gen st (t\<lparr>n_db := db'\<rparr>)" if step: "run_step (n_db t) db'"
  proof -
    obtain u where u: "run_by_id k (n_db t) = Some u" "r_status u = st" using t by (auto simp: kept_def)
    obtain u' where u': "run_by_id k db' = Some u'" "row_advances u u'"
      using db_advancesD [OF run_step_advances [OF step wf] u(1)] by blast
    then have "r_status u' = st" using assms(1) u(2) outcome_status [of u' u] by (simp add: row_advances_def)
    then show ?thesis using t u'(1) run_step_owned [OF step] by (simp add: kept_def)
  qed
qed

section \<open>Steps on the run table\<close>

lemma update_keeps_row:
  assumes "wf_runs db" "run_by_id j db = Some r" "P r" "\<And>r. P r \<Longrightarrow> P (set_clause (normalize_update_values fs) g r)"
  shows "\<exists>r. run_by_id j (snd (conditional_update k fs g db)) = Some r \<and> P r"
proof -
  obtain c db' where c: "conditional_update k fs g db = (c, db')" by (cases "conditional_update k fs g db")
  from assms(1) c show ?thesis
  proof (cases rule: conditional_update_cases)
    case (updated old)
    have id: "r_run_id (set_clause (normalize_update_values fs) g old) = k" using run_by_id_key [OF updated(1)] by simp
    show ?thesis using c updated(1,5) assms(2-4) id by (cases "j = k") (auto simp: run_by_id_put_run)
  qed (use c assms(2,3) in auto)
qed

text \<open>An update of fields other than the status and the lease.\<close>

definition lease_free :: "run_field \<Rightarrow> bool" where
  "lease_free f = (field_name f \<notin> {''status'', ''worker_lease_token'', ''lease_generation'', ''input_json''})"

lemma lease_free_row:
  "list_all lease_free fs \<Longrightarrow> r_worker_lease_token (set_clause fs g r) = r_worker_lease_token r \<and>
     r_lease_generation (set_clause fs g r) = r_lease_generation r \<and> r_status (set_clause fs g r) = r_status r \<and>
     r_input_json (set_clause fs g r) = r_input_json r"
proof -
  have f: "lease_free f \<Longrightarrow> r_worker_lease_token (apply_field f r) = r_worker_lease_token r \<and>
      r_lease_generation (apply_field f r) = r_lease_generation r \<and> r_status (apply_field f r) = r_status r \<and>
      r_input_json (apply_field f r) = r_input_json r" for f r
    by (cases f) (simp_all add: lease_free_def)
  have "list_all lease_free fs \<Longrightarrow> r_worker_lease_token (apply_fields fs r) = r_worker_lease_token r \<and>
      r_lease_generation (apply_fields fs r) = r_lease_generation r \<and> r_status (apply_fields fs r) = r_status r \<and>
      r_input_json (apply_fields fs r) = r_input_json r"
    by (induction fs arbitrary: r) (simp_all add: f)
  then show "list_all lease_free fs \<Longrightarrow> ?thesis" by (simp add: set_clause_def Let_def split: option.split)
qed

lemma on_db_snd: "n_db (snd (on_db f s)) = snd (f (n_db s))" "n_trace (snd (on_db f s)) = n_trace s"
  by (simp_all add: on_db_def split: prod.split)

lemma note_event_db: "n_db (snd (note_event env run level stage msg data upd s)) =
    snd (append_event (r_run_id run) level stage msg (Some data) None upd (je_clock env 9) (n_db s))"
  "n_trace (snd (note_event env run level stage msg data upd s)) = n_trace s"
  by (auto simp: note_event_def on_db_def Let_def split: prod.split sum.split option.split)

text \<open>When the row is as it was read and the run is open, the terminal transition is made.\<close>

lemma terminal_exact:
  assumes wf: "wf_runs db" and k: "valid_run_id k" "run_by_id k db = Some r"
    and rep: "is_terminal (tr_status rep)" and r: "r_status r \<in> set ss" "\<not> is_terminal (r_status r)"
    and g: "r_state_version r = v" "opt_is tok (r_worker_lease_token r)" "opt_is gen (r_lease_generation r)" "opt_is hb (r_heartbeat_at r)"
  obtains u db' where "transition_terminal k rep ss v tok gen hb now db = (Inr (Some u), db')" "run_by_id k db' = Some u" "r_status u = tr_status rep"
proof -
  have "update_args_ok fs g" if "list_all (\<lambda>f. field_name f \<in> set CONDITIONAL_UPDATE_FIELDS) fs" "fs \<noteq> []"
      "bump_state_version g" "\<not> bump_state_version_if_phase_changes g" for fs g
    using that by (simp add: update_args_ok_def)
  moreover have "guard_holds (default_guard\<lparr>expected_statuses := Some ss, expected_state_version := Some v,
      expected_lease_token := tok, expected_lease_generation := gen, expected_heartbeat_at := hb, reject_terminal := True\<rparr>) r"
    using r g by (simp add: guard_holds_def opt_is_def [of "Some v"])
  moreover have "ss \<noteq> []" using r(1) by auto
  ultimately obtain u where u: "fst (transition_terminal k rep ss v tok gen hb now db) = Inr (Some u)"
    using k rep unfolding transition_terminal_def
    by (simp add: conditional_update_ok [OF wf] CONDITIONAL_UPDATE_FIELDS_def default_guard_def split: option.split)
  then obtain db' where t: "transition_terminal k rep ss v tok gen hb now db = (Inr (Some u), db')" by (cases "transition_terminal k rep ss v tok gen hb now db") auto
  show thesis by (rule that [OF t terminal_recorded [OF wf t]])
qed

end
