(* ===== verification/Launch_Outcomes.thy ===== *)
theory Launch_Outcomes
  imports Ownership
begin

text \<open>
  How a launch ends, with the triples of \<open>Ownership\<close>. With other processes that work on other repositories and other runs, an accepted launch leaves
  the repository locked by its run, the run leased and its worker spawned; a failed one leaves the run failed and the repository free; a refused
  one changes nothing.
\<close>

section \<open>What the launch holds\<close>

definition held :: "launch_world \<Rightarrow> run_row \<Rightarrow> bool" where
  "held w r = (r_worker_lease_token r = je_token (lw_job w) \<and> r_lease_generation r = 1 \<and> r_status r \<in> {''launch_pending'', ''queued'', ''running''})"

definition our_lock :: "launch_world \<Rightarrow> launch_plan \<Rightarrow> 'a lock_db_scheme \<Rightarrow> bool" where
  "our_lock w p db = lock_owned (lp_repo p) (lp_run_id p) (je_token (lw_job w)) 1 db"

definition our_run :: "launch_world \<Rightarrow> launch_plan \<Rightarrow> 'a run_db_scheme \<Rightarrow> bool" where
  "our_run w p db = (\<exists>r. run_by_id (lp_run_id p) db = Some r \<and> held w r)"

definition spawned :: "launch_world \<Rightarrow> launch_plan \<Rightarrow> 'db node \<Rightarrow> bool" where
  "spawned w p s = (\<exists>pid. Spawn_worker (lp_run_id p) (je_token (lw_job w)) pid \<in> set (n_trace s))"

abbreviation acquired :: "launch_world \<Rightarrow> launch_plan \<Rightarrow> ('a lock_db_scheme) node \<Rightarrow> bool" where
  "acquired w p s \<equiv> our_lock w p (n_db s) \<and> run_by_id (lp_run_id p) (n_db s) = None"

abbreviation mine :: "launch_world \<Rightarrow> launch_plan \<Rightarrow> ('a lock_db_scheme) node \<Rightarrow> bool" where
  "mine w p s \<equiv> our_lock w p (n_db s) \<and> our_run w p (n_db s)"

text \<open>Other processes that work on other repositories and other runs.\<close>

definition elsewhere :: "launch_plan \<Rightarrow> ('a lock_db_scheme) others \<Rightarrow> bool" where
  "elsewhere p others =
     (\<forall>k s. wf_locks (n_db s) \<longrightarrow> wf_locks (n_db (others k s)) \<and>
        lock_by_repo (lp_repo p) (n_db (others k s)) = lock_by_repo (lp_repo p) (n_db s) \<and>
        run_by_id (lp_run_id p) (n_db (others k s)) = run_by_id (lp_run_id p) (n_db s) \<and> grows s (others k s))"

lemma elsewhere_keeps:
  assumes "elsewhere p others"
  shows "our_lock w p (n_db s) \<Longrightarrow> our_lock w p (n_db (others k s))"
    "wf_locks (n_db s) \<Longrightarrow> our_run w p (n_db s) \<Longrightarrow> our_run w p (n_db (others k s))"
    "wf_locks (n_db s) \<Longrightarrow> run_by_id (lp_run_id p) (n_db (others k s)) = run_by_id (lp_run_id p) (n_db s)"
    "wf_locks (n_db s) \<Longrightarrow> spawned w p s \<Longrightarrow> spawned w p (others k s)"
  using assms by (auto simp: elsewhere_def our_lock_def lock_owned_def our_run_def spawned_def grows_def) (metis Un_iff set_append)

lemma our_lock_wf: "our_lock w p db \<Longrightarrow> wf_locks db" "our_lock w p db \<Longrightarrow> wf_runs db"
  by (simp_all add: our_lock_def lock_owned_def wf_locks_def)

lemma quiet_elsewhere: "elsewhere p (\<lambda>_ s. s)"
  by (simp add: elsewhere_def grows_def)

section \<open>Steps on the run table\<close>

lemma run_step_lock: "run_step db db' \<Longrightarrow> our_lock w p db \<Longrightarrow> our_lock w p db'"
  unfolding our_lock_def by (rule run_step_owned)

lemma update_keeps_run:
  assumes "wf_runs db" "our_run w p db" "\<And>r. held w r \<Longrightarrow> held w (set_clause (normalize_update_values fs) g r)"
  shows "our_run w p (snd (conditional_update k fs g db))"
  using assms(2) update_keeps_row [where P = "held w", OF assms(1) _ _ assms(3)] by (auto simp: our_run_def)

lemma event_keeps_run:
  assumes "wf_runs db" "our_run w p db"
  shows "our_run w p (snd (append_event k level stage msg data ts meta now db))"
proof -
  define fs where "fs = [F_heartbeat_at (Some (or_now ts now)), F_current_phase stage]"
  define g where "g = default_guard\<lparr>bump_state_version := False, bump_state_version_if_phase_changes := True\<rparr>"
  have "list_all lease_free (normalize_update_values fs)"
    by (simp add: fs_def normalize_update_values_def progress_scalar_def lease_free_def)
  then have "held w (set_clause (normalize_update_values fs) g r)" if "held w r" for r
    using that lease_free_row [of "normalize_update_values fs" g r] by (simp add: held_def)
  from update_keeps_run [OF assms this] have u: "our_run w p (snd (conditional_update k fs g db))" .
  have i: "our_run w p (snd (case insert_event ev db1 of (Inl e, db2) \<Rightarrow> (Inl e, db2) | (Inr _, db2) \<Rightarrow> (Inr ev, db2)))" if "our_run w p db1" for ev db1
    using that by (auto simp: insert_event_def our_run_def run_by_id_def)
  obtain c db' where c: "conditional_update k fs g db = (c, db')" by (cases "conditional_update k fs g db")
  with u have "our_run w p db'" by simp
  then show ?thesis using i [of db] i [of db'] assms(2) c
    by (auto simp: append_event_def fs_def g_def Let_def split: sum.split option.split)
qed

lemma mine_step:
  assumes "mine w p s" "run_step (n_db s) (snd (f (n_db s)))" "our_run w p (snd (f (n_db s)))"
  shows "mine w p (snd (on_db f s))" 
  using assms by (simp add: on_db_snd run_step_lock)

text \<open>Events, wherever they are written, keep what the launch holds, and so do the steps of the launch.\<close>

lemma note_mine: "mine w p s \<Longrightarrow> mine w p (snd (note_event env run level stage msg data upd s))"
  using our_lock_wf(2) [of w p "n_db s"] by (simp add: note_event_db run_step_lock [OF run_step.event] event_keeps_run)

lemma bind_mine:
  assumes "mine w p s"
  shows "mine w p (snd (on_db (bind_run_ownership repo k token gen) s))"
proof -
  note wf = our_lock_wf(1) [OF conjunct1 [OF assms]]
  have l: "our_lock w p (snd (bind_in_connection repo k token gen (n_db s)))"
    using assms bind_wf [OF wf] bind_lookup [OF wf, of "lp_repo p" repo k token gen]
    by (auto simp: our_lock_def lock_owned_def split: option.splits if_splits)
  have "our_run w p (bump_db k (n_db s))"
    using assms by (auto simp: our_run_def bump_run_by_id bumped_def held_def)
  then have "our_run w p (snd (bind_in_connection repo k token gen (n_db s)))"
    using assms bind_runs [OF wf, of repo k token gen] by (auto simp: our_run_def run_by_id_def split: option.splits if_splits)
  with l show ?thesis by (simp add: on_db_snd bind_run_ownership_eq [OF wf])
qed

lemma launch_mine:
  assumes "mine w p s"
  shows "mine w p (snd (on_db (record_worker_launch k pid v (Some (je_token (lw_job w))) n False now) s))"
proof -
  let ?db = "n_db s"
  have h: "held w (set_clause (normalize_update_values [F_status ''queued'', F_current_phase ''queued'', F_launcher_pid (Some pid),
      F_heartbeat_at (Some now), F_recovery_reason []]) g r)" if "held w r" for g r
    using that by (simp add: held_def normalize_update_values_def progress_scalar_def set_clause_def Let_def split: option.split)
  have "our_run w p (snd (record_worker_launch k pid v (Some (je_token (lw_job w))) n False now ?db))"
    using assms our_lock_wf(2) [of w p ?db] by (auto simp: record_worker_launch_def Let_def update_keeps_run h split: sum.split)
  then show ?thesis using assms by (simp add: on_db_snd run_step_lock [OF run_step.launch])
qed

section \<open>The failure of a recorded run\<close>

lemma held_open: "held w r \<Longrightarrow> \<not> is_terminal (r_status r)" "held w r \<Longrightarrow> lease_gen r = 1"
  by (auto simp: held_def is_terminal_def TERMINAL_STATUSES_def lease_gen_def)

lemma fail_exact:
  assumes "wf_runs db" "get_run k db = Inr r" "held w r"
    "fail_infrastructure k reason (Some [r_status r]) (Some (r_state_version r)) (Some (r_worker_lease_token r)) (Some (lease_gen r))
       (Some (r_heartbeat_at r)) now db = (res, db')"
  shows "\<exists>u. res = Inr (Some u) \<and> run_by_id k db' = Some u \<and> r_status u = ''failed''"
proof -
  have k: "valid_run_id k" "run_by_id k db = Some r" using assms(2) by (auto simp: get_run_def split: if_splits option.splits)
  define rep where "rep = \<lparr>tr_status = ''failed'', tr_result = infrastructure_result r reason now, tr_ended_at = Some now,
     tr_duration_seconds = r_duration_seconds r, tr_exit_code = None, tr_summary = reason, tr_error = reason, tr_safety_failure = False,
     tr_recovery_reason = reason, tr_progress = None\<rparr>"
  have t: "transition_terminal k rep [r_status r] (r_state_version r) (Some (r_worker_lease_token r)) (Some (lease_gen r))
      (Some (r_heartbeat_at r)) now db = (res, db')"
    using assms(2,4) by (simp add: fail_infrastructure_def statuses_or_current_def rep_def)
  have "is_terminal (tr_status rep)" by (simp add: rep_def is_terminal_def TERMINAL_STATUSES_def)
  note made = terminal_exact [OF assms(1) k this, of "[r_status r]" "r_state_version r" "Some (r_worker_lease_token r)" "Some (lease_gen r)"
      "Some (r_heartbeat_at r)" now]
  show ?thesis
    by (rule made) (use held_open [OF assms(3)] assms(3) t in \<open>simp_all add: opt_is_def held_def rep_def\<close>)
qed

abbreviation run_over :: "launch_world \<Rightarrow> launch_plan \<Rightarrow> ('a lock_db_scheme) node \<Rightarrow> bool" where
  "run_over w p \<equiv> kept (lp_repo p) (lp_run_id p) (je_token (lw_job w)) 1 ''failed''"

lemma over_invariant:
  fixes others :: "('a lock_db_scheme) others"
  assumes "elsewhere p others"
  shows "run_invariant (run_over w p) others"
proof (rule kept_invariant)
  fix j and s :: "('a lock_db_scheme) node"
  assume s: "run_over w p s"
  then have "our_lock w p (n_db s)" by (simp add: kept_def our_lock_def)
  with s elsewhere_keeps(1,3) [OF assms] our_lock_wf(1) [of w p "n_db s"] show "run_over w p (others j s)" by (simp add: kept_def our_lock_def [symmetric])
qed (simp add: is_terminal_def TERMINAL_STATUSES_def)

definition settled_failed :: "launch_plan \<Rightarrow> ('a lock_db_scheme) node \<Rightarrow> bool" where
  "settled_failed p s =
     (lock_by_repo (lp_repo p) (n_db s) = None \<and>
      (case run_by_id (lp_run_id p) (n_db s) of None \<Rightarrow> True | Some u \<Rightarrow> r_status u = ''failed''))"

lemma release_ours:
  assumes "our_lock w p db" "tok = je_token (lw_job w)" "db' = snd (release (lp_repo p) (lp_run_id p) (Some tok) (Some 1) db)"
  shows "lock_by_repo (lp_repo p) db' = None"
    "map_option r_status (run_by_id (lp_run_id p) db') = map_option r_status (run_by_id (lp_run_id p) db)"
  using release_owned [of "lp_repo p" "lp_run_id p" tok 1 db db'] assms by (simp_all add: our_lock_def)

lemma release_settles:
  assumes "lp_locked p"
  shows "triple (run_over w p) (release_lock (lp_repo p) (lp_run_id p) (je_token (lw_job w)) 1) (\<lambda>_. settled_failed p) (\<lambda>_. True)"
proof (rule tripleI)
  fix s assume s: "run_over w p s"
  then have l: "our_lock w p (n_db s)" by (simp add: kept_def our_lock_def [symmetric])
  from s release_ours [OF l refl refl]
  show "case release_lock (lp_repo p) (lp_run_id p) (je_token (lw_job w)) 1 s of (Inr v, t) \<Rightarrow> settled_failed p t | (Inl _, t) \<Rightarrow> True"
    by (auto simp: release_lock_def settled_failed_def kept_def our_lock_def [symmetric] split: option.split)
qed

section \<open>The launch, step by step\<close>

lemma mine_elsewhere: "elsewhere p others \<Longrightarrow> mine w p s \<Longrightarrow> mine w p (others k s)"
  using our_lock_wf(1) [of w p "n_db s"] by (simp add: elsewhere_keeps)

lemma acquired_elsewhere: "elsewhere p others \<Longrightarrow> acquired w p s \<Longrightarrow> acquired w p (others k s)"
  using our_lock_wf(1) [of w p "n_db s"] by (simp add: elsewhere_keeps)

lemma files_acquired:
  "acquired w p s \<Longrightarrow> acquired w p (snd (make_dir w path s))" "acquired w p s \<Longrightarrow> acquired w p (snd (stage_files w p s))"
  "acquired w p s \<Longrightarrow> acquired w p (snd (write_input w p s))"
  by (simp_all add: make_dir_def stage_files_def write_input_def Let_def split: option.split)

lemma create_triple:
  "triple (acquired w p) (on_db (create_run (lp_run_id p) repo tool dir input risk human ''launch_pending'' (je_token (lw_job w)) now))
     (\<lambda>_. mine w p) (acquired w p)"
proof (rule tripleI)
  fix s assume s: "acquired w p s"
  let ?db' = "snd (create_run (lp_run_id p) repo tool dir input risk human ''launch_pending'' (je_token (lw_job w)) now (n_db s))"
  have l: "our_lock w p ?db'" using s run_step_lock [OF run_step.create] by blast
  have h: "held w (new_run (lp_run_id p) repo tool dir input risk human ''launch_pending'' (je_token (lw_job w)) now)"
    by (simp add: held_def new_run_def)
  show "case on_db (create_run (lp_run_id p) repo tool dir input risk human ''launch_pending'' (je_token (lw_job w)) now) s of
      (Inr v, t) \<Rightarrow> mine w p t | (Inl _, t) \<Rightarrow> acquired w p t"
    using s l h
    by (auto simp: on_db_def create_run_def Let_def get_run_def our_run_def run_by_id_def by_key_append new_run_def split: option.splits)
qed

lemma record_triple:
  assumes "elsewhere p others"
  shows "triple (acquired w p) (record_run w others p) (\<lambda>_. mine w p) (acquired w p)"
  unfolding record_run_def
  by (rule triple_chain, rule triple_keeps, erule files_acquired)+ (rule triple_after, erule acquired_elsewhere [OF assms], rule create_triple)

lemma keep_lock_mine: "mine w p s \<Longrightarrow> mine w p (snd (keep_lock w p s))"
  by (simp add: keep_lock_def our_lock_def our_run_def run_by_id_def beat_owned)

abbreviation launched :: "launch_world \<Rightarrow> launch_plan \<Rightarrow> ('a lock_db_scheme) node \<Rightarrow> bool" where
  "launched w p s \<equiv> mine w p s \<and> spawned w p s"

lemma launched_elsewhere: "elsewhere p others \<Longrightarrow> launched w p s \<Longrightarrow> launched w p (others k s)"
  using our_lock_wf(1) [of w p "n_db s"] by (simp add: elsewhere_keeps)

lemma spawned_same: "n_trace t = n_trace s \<Longrightarrow> spawned w p s \<Longrightarrow> spawned w p t"
  by (simp add: spawned_def)

lemma launched_keeps:
  assumes "\<And>s. mine w p s \<Longrightarrow> mine w p (snd (m s))" "\<And>s. n_trace (snd (m s)) = n_trace s"
  shows "triple (launched w p) m (\<lambda>_. launched w p) (launched w p)"
  using assms(1) spawned_same [OF assms(2)] by (intro triple_keeps) blast

lemma spawn_triple: "triple (mine w p) (spawn_worker w p) (\<lambda>_. launched w p) (mine w p)"
  by (rule tripleI) (auto simp: spawn_worker_def perform_def spawned_def split: sum.split)

lemma confirm_triple:
  assumes "elsewhere p others"
  shows "triple (launched w p) (confirm_launch w others p run pid current) (\<lambda>_. launched w p) (launched w p)"
proof -
  have "triple (launched w p) (chain (keep_lock w p) (\<lambda>_. after others 7 (note_event (lw_job w) run ''info'' ''worker'' ''Worker launcher process started''
      [(''launcher_pid'', JInt pid)] True))) (\<lambda>_. launched w p) (launched w p)"
    by (rule triple_chain, rule launched_keeps, erule keep_lock_mine, simp add: keep_lock_def, rule triple_after, erule launched_elsewhere [OF assms],
        rule launched_keeps, erule note_mine, rule note_event_db)
  then show ?thesis by (auto simp: triple_def confirm_launch_def perform_def spawned_def)
qed

lemma bind_triple:
  assumes "lp_locked p"
  shows "triple (mine w p) (bind_lock w p) (\<lambda>_. mine w p) (mine w p)"
proof -
  have b: "bind_lock w p = chain (on_db (bind_run_ownership (lp_repo p) (lp_run_id p) (je_token (lw_job w)) 1))
      (\<lambda>bound. if bound then give () else throw (RuntimeError ''Durable run could not bind repository lock ownership''))"
    by (simp add: bind_lock_def assms)
  show ?thesis unfolding b
    by (rule triple_chain, rule triple_keeps, erule bind_mine) (rule triple_if, rule triple_give, assumption, rule triple_throw, assumption)
qed

lemma read_triple: "triple (launched w p) (read_run k) (\<lambda>_. launched w p) (launched w p)" "triple (mine w p) (read_run k) (\<lambda>_. mine w p) (mine w p)"
  by (rule launched_keeps, simp_all add: read_run_def) (rule triple_keeps, simp add: read_run_def)

lemma launched_record_triple:
  "triple (launched w p) (on_db (record_worker_launch k pid v (Some (je_token (lw_job w))) n False now)) (\<lambda>_. launched w p) (launched w p)"
  by (rule launched_keeps, erule launch_mine) (rule on_db_snd)

lemma launch_triple:
  assumes e: "elsewhere p others" and l: "lp_locked p"
  shows "triple (mine w p) (launch_worker w others p run) (\<lambda>_. launched w p) (mine w p)"
proof -
  note after_launch = triple_after [where P = "launched w p" and P' = "launched w p" and others = others]
    and after_mine = triple_after [where P = "mine w p" and P' = "mine w p" and others = others]
    and el = launched_elsewhere [OF e] and em = mine_elsewhere [OF e]
  have late: "triple (launched w p) (after others 4 (chain (on_db (record_worker_launch (lp_run_id p) pid v (Some (je_token (lw_job w))) n False now)) (\<lambda>launched.
      after others 5 (chain (case launched of Some r \<Rightarrow> give r | None \<Rightarrow> read_run (lp_run_id p)) (\<lambda>current.
      after others 6 (confirm_launch w others p run pid current)))))) (\<lambda>_. launched w p) (launched w p)" for pid v n now
    by (rule after_launch, erule el, rule triple_chain, rule launched_record_triple, rule after_launch, erule el, rule triple_chain,
        rule triple_option, rule read_triple, rule triple_give, assumption, rule after_launch, erule el, rule confirm_triple [OF e])
  show ?thesis
    unfolding launch_worker_def
    by (rule triple_chain, rule bind_triple [OF l], rule after_mine, erule em, rule triple_chain, rule triple_keeps, erule note_mine,
        rule after_mine, erule em, rule triple_chain, rule read_triple, rule triple_chain, rule spawn_triple,
        rule triple_weaken [OF late]) simp_all
qed

text \<open>The row that was read is still there when the run is failed.\<close>

abbreviation as_read :: "launch_world \<Rightarrow> launch_plan \<Rightarrow> run_row \<Rightarrow> ('a lock_db_scheme) node \<Rightarrow> bool" where
  "as_read w p r s \<equiv> our_lock w p (n_db s) \<and> get_run (lp_run_id p) (n_db s) = Inr r"

lemma as_read_elsewhere: "elsewhere p others \<Longrightarrow> as_read w p r s \<Longrightarrow> as_read w p r (others k s)"
proof -
  assume e: "elsewhere p others" and s: "as_read w p r s"
  note wf = our_lock_wf(1) [OF conjunct1 [OF s]]
  have "get_run (lp_run_id p) (n_db (others k s)) = get_run (lp_run_id p) (n_db s)"
    by (simp only: get_run_def elsewhere_keeps(3) [OF e wf])
  with s elsewhere_keeps(1) [OF e] show ?thesis by simp
qed

lemma read_row_triple: "triple (mine w p) (read_run (lp_run_id p)) (\<lambda>r s. held w r \<and> as_read w p r s) (\<lambda>_. True)"
  by (rule tripleI) (auto simp: read_run_def our_run_def get_run_def split: sum.split option.splits if_splits)

lemma fail_row_triple:
  assumes "held w r"
  shows "triple (as_read w p r) (on_db (fail_infrastructure (lp_run_id p) reason (Some [r_status r]) (Some (r_state_version r))
      (Some (r_worker_lease_token r)) (Some (lease_gen r)) (Some (r_heartbeat_at r)) now)) (\<lambda>x s. x \<noteq> None \<and> run_over w p s) (\<lambda>_. True)"
proof (rule tripleI)
  fix s assume s: "as_read w p r s"
  obtain res db' where f: "fail_infrastructure (lp_run_id p) reason (Some [r_status r]) (Some (r_state_version r))
      (Some (r_worker_lease_token r)) (Some (lease_gen r)) (Some (r_heartbeat_at r)) now (n_db s) = (res, db')" by (rule prod.exhaust)
  obtain u where u: "res = Inr (Some u)" "run_by_id (lp_run_id p) db' = Some u" "r_status u = ''failed''"
    using fail_exact [OF our_lock_wf(2) [OF conjunct1 [OF s]] conjunct2 [OF s] assms f] by blast
  have "our_lock w p db'" using run_step_lock [OF run_step.infrastructure] s f by (metis snd_conv)
  with u show "case on_db (fail_infrastructure (lp_run_id p) reason (Some [r_status r]) (Some (r_state_version r))
      (Some (r_worker_lease_token r)) (Some (lease_gen r)) (Some (r_heartbeat_at r)) now) s of
      (Inr x, t) \<Rightarrow> x \<noteq> None \<and> run_over w p t | (Inl _, t) \<Rightarrow> True"
    by (simp add: on_db_def f kept_def our_lock_def [symmetric])
qed

lemma over_triples:
  fixes others :: "('a lock_db_scheme) others"
  assumes "elsewhere p others"
  shows "triple (run_over w p) (publish_noting_failure env others run) (\<lambda>_. run_over w p) (\<lambda>_. True)"
    "triple (run_over w p :: ('a lock_db_scheme) node \<Rightarrow> bool) (note_event env run level stage msg data upd) (\<lambda>_. run_over w p) (\<lambda>_. True)"
    "run_over w p s \<Longrightarrow> run_over w p (others k s)"
proof -
  note I = over_invariant [OF assms, of w]
  show "triple (run_over w p) (publish_noting_failure env others run) (\<lambda>_. run_over w p) (\<lambda>_. True)"
    using run_invariant.publish_noting_keeps [OF I, where f = "\<lambda>k. k"] by (intro triple_weaken [OF triple_keeps]) auto
  show "triple (run_over w p :: ('a lock_db_scheme) node \<Rightarrow> bool) (note_event env run level stage msg data upd) (\<lambda>_. run_over w p) (\<lambda>_. True)"
    using run_invariant.note_event_keeps [OF I] by (intro triple_weaken [OF triple_keeps]) auto
  show "run_over w p s \<Longrightarrow> run_over w p (others k s)" by (rule run_invariant.others_keep [OF I])
qed

lemma fail_triple:
  assumes e: "elsewhere p others" and l: "lp_locked p"
  shows "triple (mine w p) (fail_launched w others p reason) (\<lambda>_. settled_failed p) (\<lambda>_. True)"
proof -
  note over = over_triples [OF e]
  note after_over = triple_after [where P = "run_over w p" and P' = "run_over w p" and others = others]
  have last: "triple (run_over w p) (after others 12 (chain (publish_noting_failure (lw_job w) others r) (\<lambda>_.
      after others 13 (chain (note_event (lw_job w) r ''error'' ''launch_failed'' reason [] False) (\<lambda>_.
      after others 14 (if lp_locked p then release_lock (lp_repo p) (lp_run_id p) (r_worker_lease_token r) (lease_gen r) else give ()))))))
      (\<lambda>_. settled_failed p) (\<lambda>_. True)" if "held w r" for r
    using release_settles [OF l, of w] that held_open(2) [OF that] l
    by (intro after_over triple_chain [OF over(1)] triple_chain [OF over(2)]) (simp_all add: over(3) held_def)
  have fail: "triple (as_read w p r) (after others 11 (chain (on_db (fail_infrastructure (lp_run_id p) reason (Some [r_status r]) (Some (r_state_version r))
         (Some (r_worker_lease_token r)) (Some (lease_gen r)) (Some (r_heartbeat_at r)) now)) (\<lambda>failed.
       case failed of None \<Rightarrow> give () | Some _ \<Rightarrow> after others 12 (chain (publish_noting_failure (lw_job w) others r) (\<lambda>_.
         after others 13 (chain (note_event (lw_job w) r ''error'' ''launch_failed'' reason [] False) (\<lambda>_.
         after others 14 (if lp_locked p then release_lock (lp_repo p) (lp_run_id p) (r_worker_lease_token r) (lease_gen r) else give ()))))))))
      (\<lambda>_. settled_failed p) (\<lambda>_. True)" if "held w r" for r now
    by (rule triple_after, erule as_read_elsewhere [OF e], rule triple_chain, rule fail_row_triple [OF that], rule triple_fact)
      (use last [OF that] in \<open>auto split: option.split\<close>)
  show ?thesis
    unfolding fail_launched_def
    by (rule triple_after, erule mine_elsewhere [OF e], rule triple_chain, rule read_row_triple, rule triple_fact, rule fail)
qed

section \<open>The answer\<close>

definition refused_flag :: "(string \<times> json) list \<Rightarrow> bool" where
  "refused_flag a = (jget ''accepted'' a = Some (JBool False))"

definition launch_end :: "launch_world \<Rightarrow> launch_plan \<Rightarrow> (string \<times> json) list \<Rightarrow> (string \<times> json) list \<Rightarrow> ('a lock_db_scheme) node \<Rightarrow> bool" where
  "launch_end w p accepted a s = ((a = accepted \<and> launched w p s) \<or> (refused_flag a \<and> settled_failed p s))"

lemma failed_flag: "refused_flag (failed_response k risk reason)" "refused_flag (refused_response risk reason @ d)"
  by (simp_all add: refused_flag_def failed_response_def refused_response_def response_def jget_def)

lemma recorded_triple:
  assumes "elsewhere p others" "lp_locked p"
  shows "triple (mine w p) (launch_recorded w others p accepted run) (launch_end w p accepted) (\<lambda>_. True)"
  unfolding launch_recorded_def
  by (rule triple_attempt, rule triple_chain, rule launch_triple [OF assms], rule triple_give, simp add: launch_end_def,
      rule triple_chain, rule fail_triple [OF assms], rule triple_give, simp add: launch_end_def failed_flag)

lemma unrecorded_triple:
  assumes "elsewhere p others" "lp_locked p"
  shows "triple (acquired w p) (launch_unrecorded w others p e) (launch_end w p accepted) (\<lambda>_. True)"
proof -
  have r: "triple (acquired w p) (release_lock (lp_repo p) (lp_run_id p) (je_token (lw_job w)) 1) (\<lambda>_. settled_failed p) (\<lambda>_. True)"
  proof (rule tripleI)
    fix s assume s: "acquired w p s"
    from s release_ours [OF conjunct1 [OF s] refl refl]
    show "case release_lock (lp_repo p) (lp_run_id p) (je_token (lw_job w)) 1 s of (Inr v, t) \<Rightarrow> settled_failed p t | (Inl _, t) \<Rightarrow> True"
      by (auto simp: release_lock_def settled_failed_def)
  qed
  show ?thesis
    unfolding launch_unrecorded_def
    by (rule triple_after, erule acquired_elsewhere [OF assms(1)], simp add: assms(2), rule triple_chain, rule r, rule triple_give)
      (simp add: launch_end_def failed_flag)
qed

lemma locked_triple:
  fixes others :: "('a lock_db_scheme) others"
  assumes "elsewhere p others" "lp_locked p"
  shows "triple (acquired w p) (launch_locked w others p accepted) (launch_end w p accepted) (\<lambda>_. True)"
proof (rule tripleI)
  fix s :: "('a lock_db_scheme) node"
  assume s: "acquired w p s"
  obtain res s1 where rec: "record_run w others p s = (res, s1)" by (rule prod.exhaust)
  show "case launch_locked w others p accepted s of (Inr v, t) \<Rightarrow> launch_end w p accepted v t | (Inl _, t) \<Rightarrow> True"
  proof (cases res)
    case (Inl e)
    with record_triple [OF assms(1), of w] s rec have "acquired w p s1" by (auto simp: triple_def split: prod.splits)
    with unrecorded_triple [OF assms, of w e accepted] show ?thesis by (simp add: launch_locked_def rec Inl triple_def)
  next
    case (Inr run)
    with record_triple [OF assms(1), of w] s rec have "mine w p s1" by (auto simp: triple_def split: prod.splits)
    with recorded_triple [OF assms, of w accepted run] mine_elsewhere [OF assms(1)] show ?thesis
      by (simp add: launch_locked_def rec Inr triple_def after_def)
  qed
qed

section \<open>Taking the lock\<close>

text \<open>The lock is inserted after the row that was read as stale, if there was one, is removed.\<close>

lemma store_lock:
  fixes tool fp :: string and w and now :: timestamp and pid :: "int option"
  assumes "wf_locks db" "lock_by_repo (lp_repo p) db = None" "run_by_id (lp_run_id p) db = None"
  defines "row \<equiv> new_lock (lp_repo p) tool fp (lp_run_id p) pid (je_token (lw_job w)) 1 now"
  shows "insert_lock row db = (Inr (), insert_db row db)"
    "bind_run_ownership (lp_repo p) (lp_run_id p) (je_token (lw_job w)) 1 (insert_db row db) = (Inr False, insert_db row db)"
    "our_lock w p (insert_db row db)" "run_by_id (lp_run_id p) (insert_db row db) = None"
proof -
  have row: "l_repo_name row = lp_repo p" "owns (lp_run_id p) (Some (je_token (lw_job w))) (Some 1) row" "\<not> l_bound row"
    by (simp_all add: row_def new_lock_def owns_def opt_is_def)
  have free: "lock_by_repo (l_repo_name row) db = None" by (simp add: row(1) assms(2))
  note ins = insert_db_facts [OF assms(1) free]
  show "insert_lock row db = (Inr (), insert_db row db)" by (simp add: insert_lock_def insert_db_def row(1) assms(2))
  show "our_lock w p (insert_db row db)" using ins row by (simp add: our_lock_def lock_owned_def)
  show "run_by_id (lp_run_id p) (insert_db row db) = None" using ins assms(3) by simp
  then show "bind_run_ownership (lp_repo p) (lp_run_id p) (je_token (lw_job w)) 1 (insert_db row db) = (Inr False, insert_db row db)"
    using ins row by (simp add: bind_run_ownership_eq bind_in_connection_eq)
qed

lemma take_free:
  assumes e: "elsewhere p others" and s: "wf_locks (n_db s)" "run_by_id (lp_run_id p) (n_db s) = None"
    and free: "lock_free (je_world (lw_job w) 30) (lp_repo p) (n_db s)"
  obtains a t where "take_lock w others p s = (Inr a, t)" "a_acquired a" "acquired w p t"
proof -
  let ?db = "n_db (others 20 s)"
  have o: "wf_locks ?db" "run_by_id (lp_run_id p) ?db = None" "lock_by_repo (lp_repo p) ?db = lock_by_repo (lp_repo p) (n_db s)"
    using e s unfolding elsewhere_def by auto
  have granted: "a_acquired (granted_acquisition r f)" for r f by (simp add: granted_acquisition_def)
  show thesis
  proof (cases "lock_by_repo (lp_repo p) (n_db s)")
    case None
    then have "lock_by_repo (lp_repo p) ?db = None" using o(3) by simp
    note st = store_lock [OF o(1) this o(2), where tool = "lp_tool p" and fp = "lw_fingerprint w (lp_input p)" and pid = "Some (je_pid (lw_job w))" and w = w
        and now = "je_clock (lw_job w) 34"]
    show thesis
      by (rule that, simp add: take_lock_def acquire_read_def acquire_write_def after_def on_db_def Let_def None st(1,2)) (simp_all add: st granted)
  next
    case (Some l)
    then have "lock_is_stale (je_world (lw_job w) 30) (n_db s) l" using free by (simp add: lock_free_def)
    then have view: "acquire_read (je_world (lw_job w) 30) (lp_repo p) (n_db s) = Stale l" by (simp add: acquire_read_def Some)
    have del: "delete_stale (lp_repo p) l ?db = takeover_db (lp_repo p) l ?db" using delete_stale_eq [OF o(1)] o(3) Some by simp
    note tk = takeover_facts [OF o(1), where repo = "lp_repo p" and existing = l]
    have gone: "lock_by_repo (lp_repo p) (takeover_db (lp_repo p) l ?db) = None" "run_by_id (lp_run_id p) (takeover_db (lp_repo p) l ?db) = None"
      using tk o(2) by auto
    note st = store_lock [OF tk(1) gone, where tool = "lp_tool p" and fp = "lw_fingerprint w (lp_input p)" and pid = "Some (je_pid (lw_job w))" and w = w
        and now = "je_clock (lw_job w) 34"]
    show thesis
      by (rule that, simp add: take_lock_def view acquire_write_def after_def on_db_def Let_def del st(1,2)) (simp_all add: st granted)
  qed
qed

lemma take_busy:
  assumes "\<not> lock_free (je_world (lw_job w) 30) (lp_repo p) (n_db s)"
  obtains l where "lock_by_repo (lp_repo p) (n_db s) = Some l"
    "take_lock w others p s = (Inr (refused_acquisition (lp_repo p) (lp_tool p) (lw_fingerprint w (lp_input p)) l), others 20 s)"
  using assms by (auto simp: lock_free_def take_lock_def acquire_read_def acquire_write_def after_def on_db_def Let_def split: option.splits)

lemma planned_end:
  assumes e: "elsewhere p others" and l: "lp_locked p" and s: "wf_locks (n_db s)" "run_by_id (lp_run_id p) (n_db s) = None"
    and eq: "launch_planned w others p accepted s = (Inr a, t)"
  shows "if lock_free (je_world (lw_job w) 30) (lp_repo p) (n_db s) then launch_end w p accepted a t else refused_flag a \<and> t = others 20 s"
proof (cases "lock_free (je_world (lw_job w) 30) (lp_repo p) (n_db s)")
  case True
  obtain q u where q: "take_lock w others p s = (Inr q, u)" "a_acquired q" "acquired w p u" by (rule take_free [OF e s True])
  have "launch_locked w others p accepted (others 21 u) = (Inr a, t)" using eq l q by (simp add: launch_planned_def chain_def after_def)
  with tripleD [OF locked_triple [OF e l] acquired_elsewhere [OF e q(3)]] True show ?thesis by simp
next
  case False
  obtain r where "take_lock w others p s = (Inr (refused_acquisition (lp_repo p) (lp_tool p) (lw_fingerprint w (lp_input p)) r), others 20 s)"
    by (rule take_busy [OF False])
  then show ?thesis using eq l False by (auto simp: launch_planned_def chain_def give_def refused_acquisition_def Let_def failed_flag)
qed

lemma planned_names: "plan_launch w tool repo input d k = Inr p \<Longrightarrow> lp_run_id p = k \<and> lp_repo p = repo \<and> lp_tool p = tool"
  by (auto simp: plan_launch_def split: if_splits sum.splits)


section \<open>A launch on a sample\<close>

text \<open>The repository is locked by a run that is over; the launch takes the lock over.\<close>

definition fresh_id :: string where
  "fresh_id = ''20240101T000000Z_pytest_00000009''"

definition sample_launch :: launch_world where
  "sample_launch =
     \<lparr>lw_job = \<lparr>je_pub = sample_pub, je_world = (\<lambda>_. sample_world), je_clock = (\<lambda>_. ''t5''), je_terminate = (\<lambda>_. []), je_spawn = (\<lambda>_ _. Inr 99),
        je_cancel_remote = (\<lambda>_ _ _ _ _. []), je_probe = (\<lambda>_ _. []), je_reconcile_remote = (\<lambda>_ _. []), je_event_line = (\<lambda>_. ''event''),
        je_event_error = (\<lambda>_. None), je_token = ''new'', je_elapsed = r_elapsed_seconds, je_pid = 5, je_parallel_enabled = False,
        je_parallel_limit = None\<rparr>,
      lw_resolve = Inr, lw_profiles = (\<lambda>_. []), lw_files = (\<lambda>_. \<lparr>rf_linked = (\<lambda>_. False), rf_exists = (\<lambda>_. False), rf_directory = (\<lambda>_. False),
        rf_file = (\<lambda>_. False)\<rparr>),
      lw_config = True, lw_new_id = (\<lambda>_. fresh_id), lw_runs_dir = ''runs'', lw_powershell = (\<lambda>d _. Inr d), lw_executable = (\<lambda>_ _. Inr JNull),
      lw_ssh_manifest = (\<lambda>_ _ _. Inr JNull), lw_contract = (\<lambda>_ _ _. Inr JNull), lw_fingerprint = (\<lambda>_. ''fp''), lw_make_dir = (\<lambda>_. None),
      lw_stage = (\<lambda>_ _ _. None), lw_write = (\<lambda>_. None), lw_input_text = (\<lambda>_. ''input'')\<rparr>"

definition sample_start_decision :: start_decision where
  "sample_start_decision = async_decision ''low'' ''ok'' 30 1"

definition sample_request_plan :: "py_error + launch_plan" where
  "sample_request_plan = plan_launch sample_launch ''project_command'' ''repo'' [(''requested_repo_name'', JStr ''repo'')] sample_start_decision fresh_id"

definition unlaunched :: "lock_db node" where
  "unlaunched = \<lparr>n_db = sample_locks, n_files = (\<lambda>_. None), n_trace = []\<rparr>"


end
