(* ===== verification/Command_Guarantees.thy ===== *)
theory Command_Guarantees
  imports Command_Profiles
begin

text \<open>
  What the command profiles promise: the search for a blocked pattern finds a match exactly when the text has one (\<open>reads\<close> is what a pattern
  means), every profile that is handed out is free of blocked patterns, a validated path names something inside the repository that is reached
  without a link, and the output of a command is capped.
\<close>

section \<open>The meaning of a pattern\<close>

definition ends_word :: "string \<Rightarrow> bool" where
  "ends_word u = (u \<noteq> [] \<and> word_char (last u))"

text \<open>\<open>reads u items v w\<close>: between \<open>u\<close> and \<open>w\<close> the items match exactly \<open>v\<close>.\<close>

inductive reads :: "string \<Rightarrow> re_item list \<Rightarrow> string \<Rightarrow> string \<Rightarrow> bool" where
  finish: "reads u [] [] w"
| edge: "ends_word u \<noteq> word_start (v @ w) \<Longrightarrow> reads u items v w \<Longrightarrow> reads u (Boundary # items) v w"
| literal: "reads (u @ t) items v w \<Longrightarrow> reads u (Lit t # items) (t @ v) w"
| present: "reads (u @ t) items v w \<Longrightarrow> reads u (Maybe t # items) (t @ v) w"
| absent: "reads u items v w \<Longrightarrow> reads u (Maybe t # items) v w"
| spaces: "list_all is_space sp \<Longrightarrow> sp \<noteq> [] \<Longrightarrow> reads (u @ sp) items v w \<Longrightarrow> reads u (Spaces # items) (sp @ v) w"
| any_spaces: "list_all is_space sp \<Longrightarrow> reads (u @ sp) items v w \<Longrightarrow> reads u (Any_spaces # items) (sp @ v) w"

inductive_simps reads_simps:
  "reads u [] v w" "reads u (Boundary # items) v w" "reads u (Lit t # items) v w" "reads u (Maybe t # items) v w"
  "reads u (Spaces # items) v w" "reads u (Any_spaces # items) v w"

lemma drop_prefix_iff: "drop_prefix p s = Some rest \<longleftrightarrow> s = p @ rest"
  by (auto simp: drop_prefix_def split: if_splits) (metis append_take_drop_id)

lemma drop_prefix_none: "drop_prefix p s = None \<longleftrightarrow> (\<forall>rest. s \<noteq> p @ rest)"
  by (metis drop_prefix_iff not_None_eq)

lemma was_word_append: "was_word (ends_word u) t = ends_word (u @ t)"
  by (simp add: was_word_def ends_word_def)

lemma space_not_word: "is_space c \<Longrightarrow> \<not> word_char c"
  by (auto simp: is_space_def word_char_def is_digit_def is_lower_alpha_def lower_char_def Let_def)

lemma spaces_end: "is_space c \<Longrightarrow> ends_word (u @ [c]) = False"
  by (simp add: ends_word_def space_not_word)

lemma spaces_cons:
  "(\<exists>sp v. list_all is_space sp \<and> c # s = sp @ v \<and> sp \<noteq> [] \<and> P sp v) \<longleftrightarrow>
   is_space c \<and> (\<exists>sp v. list_all is_space sp \<and> s = sp @ v \<and> P (c # sp) v)"
  by (metis append_Cons list.inject list.pred_inject(2) neq_Nil_conv)

lemma reads_space_step:
  "(\<exists>v w. c # s = v @ w \<and> reads u (Spaces # items) v w) \<longleftrightarrow>
   is_space c \<and> (\<exists>sp v w. list_all is_space sp \<and> s = sp @ v @ w \<and> reads (u @ c # sp) items v w)"
proof -
  have "(\<exists>v w. c # s = v @ w \<and> reads u (Spaces # items) v w) \<longleftrightarrow>
      (\<exists>sp v. list_all is_space sp \<and> c # s = sp @ v \<and> sp \<noteq> [] \<and> (\<exists>v' w. v = v' @ w \<and> reads (u @ sp) items v' w))"
    by (simp add: reads_simps) (metis append.assoc)
  also have "\<dots> \<longleftrightarrow> is_space c \<and> (\<exists>sp v. list_all is_space sp \<and> s = sp @ v \<and> (\<exists>v' w. v = v' @ w \<and> reads (u @ c # sp) items v' w))"
    by (rule spaces_cons)
  finally show ?thesis by blast
qed

lemma reads_any_step:
  "(\<exists>v w. s = v @ w \<and> reads u (Any_spaces # items) v w) \<longleftrightarrow>
   (\<exists>v w. s = v @ w \<and> reads u items v w) \<or> (\<exists>v w. s = v @ w \<and> reads u (Spaces # items) v w)"
  by (simp add: reads_simps) (metis append_Nil append_Nil2 list.pred_inject(1))

lemma reads_any_all:
  "(\<exists>v w. s = v @ w \<and> reads u (Any_spaces # items) v w) \<longleftrightarrow> (\<exists>sp v w. list_all is_space sp \<and> s = sp @ v @ w \<and> reads (u @ sp) items v w)"
  by (simp add: reads_simps) (metis append.assoc)

lemma reads_spaces_any:
  "(\<exists>v w. c # s = v @ w \<and> reads u (Spaces # items) v w) \<longleftrightarrow>
   is_space c \<and> (\<exists>v w. s = v @ w \<and> reads (u @ [c]) (Any_spaces # items) v w)"
  by (simp add: reads_space_step reads_any_all)

lemma reads_literal: "(\<exists>v w. t @ s = v @ w \<and> reads u (Lit t # items) v w) \<longleftrightarrow> (\<exists>v w. s = v @ w \<and> reads (u @ t) items v w)"
proof
  assume "\<exists>v w. t @ s = v @ w \<and> reads u (Lit t # items) v w"
  then obtain v w v' where "t @ s = v @ w" "v = t @ v'" "reads (u @ t) items v' w" by (auto simp: reads_simps)
  then have "s = v' @ w \<and> reads (u @ t) items v' w" by simp
  then show "\<exists>v w. s = v @ w \<and> reads (u @ t) items v w" by blast
next
  assume "\<exists>v w. s = v @ w \<and> reads (u @ t) items v w"
  then obtain v w where "s = v @ w" "reads (u @ t) items v w" by blast
  then have "t @ s = (t @ v) @ w \<and> reads u (Lit t # items) (t @ v) w" by (simp add: reads.literal)
  then show "\<exists>v w. t @ s = v @ w \<and> reads u (Lit t # items) v w" by blast
qed

lemma split_first:
  "(\<exists>a v w. c # s = a @ v @ w \<and> P a v w) \<longleftrightarrow> (\<exists>v w. c # s = v @ w \<and> P [] v w) \<or> (\<exists>a v w. s = a @ v @ w \<and> P (c # a) v w)"
proof
  assume "\<exists>a v w. c # s = a @ v @ w \<and> P a v w"
  then obtain a v w where "c # s = a @ v @ w" "P a v w" by blast
  then show "(\<exists>v w. c # s = v @ w \<and> P [] v w) \<or> (\<exists>a v w. s = a @ v @ w \<and> P (c # a) v w)"
    by (cases a) (simp, blast, simp, blast)
next
  assume "(\<exists>v w. c # s = v @ w \<and> P [] v w) \<or> (\<exists>a v w. s = a @ v @ w \<and> P (c # a) v w)"
  then show "\<exists>a v w. c # s = a @ v @ w \<and> P a v w" by (metis append_Cons append_Nil)
qed

lemma reads_maybe: "reads u (Maybe t # items) v w \<longleftrightarrow> reads u (Lit t # items) v w \<or> reads u items v w"
  by (auto simp: reads_simps)

text \<open>The matcher takes spaces one by one, and decides as the meaning does.\<close>

lemma re_here_reads: "b = ends_word u \<Longrightarrow> re_here items b s \<longleftrightarrow> (\<exists>v w. s = v @ w \<and> reads u items v w)"
proof (induction items b s arbitrary: u rule: re_here.induct)
  case (1 before s)
  then show ?case by (simp add: reads_simps)
next
  case (2 items before s)
  then show ?case by (auto simp: reads_simps)
next
  case (3 t items before s)
  show ?case
  proof (cases "drop_prefix t s")
    case None
    then show ?thesis by (simp add: reads_simps) (auto simp: drop_prefix_none)
  next
    case (Some rest)
    then have s: "s = t @ rest" by (simp add: drop_prefix_iff)
    from Some 3 show ?thesis unfolding s reads_literal by (simp add: was_word_append)
  qed
next
  case (4 t items before s)
  show ?case
  proof (cases "drop_prefix t s")
    case None
    then have "(\<exists>v w. s = v @ w \<and> reads u (Maybe t # items) v w) \<longleftrightarrow> (\<exists>v w. s = v @ w \<and> reads u items v w)"
      by (auto simp: reads_simps drop_prefix_none)
    then show ?thesis using 4 None by simp
  next
    case (Some rest)
    then have s: "s = t @ rest" by (simp add: drop_prefix_iff)
    have "(\<exists>v w. s = v @ w \<and> reads u (Maybe t # items) v w) \<longleftrightarrow>
        (\<exists>v w. t @ rest = v @ w \<and> reads u (Lit t # items) v w) \<or> (\<exists>v w. s = v @ w \<and> reads u items v w)"
      using s reads_maybe by metis
    then have "(\<exists>v w. s = v @ w \<and> reads u (Maybe t # items) v w) \<longleftrightarrow>
        (\<exists>v w. rest = v @ w \<and> reads (u @ t) items v w) \<or> (\<exists>v w. s = v @ w \<and> reads u items v w)"
      unfolding reads_literal .
    then show ?thesis using 4 Some by (simp add: was_word_append)
  qed
next
  case (5 items before s)
  show ?case
  proof (cases s)
    case Nil
    then show ?thesis by (auto simp: reads_simps)
  next
    case (Cons c rest)
    have f: "is_space c \<Longrightarrow> False = ends_word (u @ [c])" by (simp add: spaces_end)
    show ?thesis using 5 Cons f by (auto simp: reads_spaces_any reads_any_step)
  qed
next
  case (6 items before s)
  show ?case
  proof (cases s)
    case Nil
    then show ?thesis using 6 by (auto simp: reads_simps)
  next
    case (Cons c rest)
    have f: "is_space c \<Longrightarrow> False = ends_word (u @ [c])" by (simp add: spaces_end)
    show ?thesis unfolding Cons reads_any_step [of "c # rest"] reads_spaces_any using 6 Cons f by auto
  qed
qed

lemma re_search_reads:
  "b = ends_word u \<Longrightarrow> re_search items b s \<longleftrightarrow> (\<exists>a v w. s = a @ v @ w \<and> reads (u @ a) items v w)"
proof (induction s arbitrary: u b)
  case Nil
  show ?case by (simp add: re_here_reads [OF Nil])
next
  case (Cons c s)
  have c: "word_char c = ends_word (u @ [c])" by (simp add: ends_word_def)
  show ?case using re_here_reads [OF Cons.prems, of items "c # s"] Cons.IH [OF c]
    by (simp add: split_first [of _ _ "\<lambda>a v w. reads (u @ a) items v w"])
qed

lemma search_from_start: "re_search items False s \<longleftrightarrow> (\<exists>u v w. s = u @ v @ w \<and> reads u items v w)"
  using re_search_reads [of False "[]" items s] by (simp add: ends_word_def)


section \<open>No profile carries a blocked argument\<close>

definition safe_profile :: "command_profile \<Rightarrow> bool" where
  "safe_profile p =
     (command_id_ok (cp_id p) \<and> cp_argv p \<noteq> [] \<and> list_all (\<lambda>a. list_all (\<lambda>q. \<not> blocks q a) BLOCKED_ARGV_PATTERNS) (cp_argv p))"

lemma find_none_all: "find P xs = None \<longleftrightarrow> list_all (\<lambda>x. \<not> P x) xs"
  by (auto simp: find_None_iff list_all_iff)

lemma blocked_element_none: "blocked_element a = None \<longleftrightarrow> list_all (\<lambda>q. \<not> blocks q a) BLOCKED_ARGV_PATTERNS"
  by (simp add: blocked_element_def find_none_all [symmetric] split: option.split)

lemma map_filter_empty: "List.map_filter f xs = [] \<longleftrightarrow> list_all (\<lambda>x. f x = None) xs"
  by (induction xs) (auto simp: map_filter_simps split: option.split)

lemma validated_safe: "validate_profile p = Inr q \<Longrightarrow> q = p \<and> safe_profile p"
  by (simp add: validate_profile_def safe_profile_def blocked_element_none [symmetric] map_filter_empty [symmetric] split: if_splits list.splits)

lemma checked_safe: "checked target f = Inr p \<Longrightarrow> safe_profile p \<and> (\<exists>normalized. target = Inr normalized \<and> p = f normalized)"
  by (auto simp: checked_def dest: validated_safe split: sum.splits)

text \<open>The words of the built-in commands match no blocked pattern.\<close>

abbreviation unblocked :: "string \<Rightarrow> bool" where
  "unblocked a \<equiv> list_all (\<lambda>q. \<not> blocks q a) BLOCKED_ARGV_PATTERNS"

lemma unblocked_words:
  "unblocked ''python''" "unblocked ''-m''" "unblocked ''pytest''" "unblocked ''-q''" "unblocked ''pip''" "unblocked ''check''"
  "unblocked ''git''" "unblocked ''status''" "unblocked ''--short''" "unblocked ''--branch''"
  by code_simp+

lemma builtins_safe: "list_all safe_profile BUILTIN_PROFILES"
proof -
  have "list_all (\<lambda>p. command_id_ok (cp_id p)) BUILTIN_PROFILES" by code_simp
  then show ?thesis by (simp add: BUILTIN_PROFILES_def safe_profile_def plain_profile_def unblocked_words)
qed

lemma builtin_safe: "builtin_profile i = Some p \<Longrightarrow> safe_profile p \<and> cp_id p = i"
  using builtins_safe by (auto simp: builtin_profile_def find_Some_iff list_all_length)

lemma parsed_safe: "parse_repo_profile raw = Inr p \<Longrightarrow> safe_profile p \<and> cp_id p = py_str (raw_or ''command_id'' raw (JStr []))"
  by (auto simp: parse_repo_profile_def Let_def dest!: validated_safe split: option.splits json.splits list.splits sum.splits)

lemma resolved_safe: "resolve_command_profile i raws = Inr p \<Longrightarrow> safe_profile p \<and> cp_id p = i"
  by (auto simp: resolve_command_profile_def find_Some_iff dest!: parsed_safe builtin_safe split: if_splits option.splits)

lemma built_safe:
  "build_pytest_path_profile fs target = Inr p \<Longrightarrow> safe_profile p"
  "build_py_compile_path_profile fs target = Inr p \<Longrightarrow> safe_profile p"
  "build_bash_n_path_profile fs target = Inr p \<Longrightarrow> safe_profile p"
  "build_json_validate_path_profile fs target = Inr p \<Longrightarrow> safe_profile p"
  unfolding build_pytest_path_profile_def build_py_compile_path_profile_def build_bash_n_path_profile_def build_json_validate_path_profile_def
  by (blast dest: checked_safe)+

lemma git_safe: "build_git_readonly_profile operation = Inr p \<Longrightarrow> safe_profile p"
  by (auto simp: build_git_readonly_profile_def dest: validated_safe split: option.splits)

section \<open>Paths\<close>

lemma split_slash_not_empty: "split_slash s \<noteq> []"
  by (induction s) (auto split: list.split)

lemma split_slash_chars: "q \<in> set (split_slash s) \<Longrightarrow> set q \<subseteq> set s - {CHR ''/''}"
proof (induction s arbitrary: q)
  case (Cons c s)
  then show ?case by (auto split: if_splits list.splits) (blast+)
qed simp

lemma split_slash_plain: "CHR ''/'' \<notin> set q \<Longrightarrow> split_slash q = [q]"
  by (induction q) auto

lemma split_slash_append: "CHR ''/'' \<notin> set q \<Longrightarrow> split_slash (q @ CHR ''/'' # s) = q # split_slash s"
  by (induction q) auto

lemma split_join: "parts \<noteq> [] \<Longrightarrow> \<forall>q \<in> set parts. CHR ''/'' \<notin> set q \<Longrightarrow> split_slash (join_with ''/'' parts) = parts"
  by (induction "''/''" parts rule: join_with.induct) (simp_all add: split_slash_plain split_slash_append)

text \<open>Where a path may lead: below the root, one proper name after the other, no link on the way.\<close>

definition inside_repo :: "repo_files \<Rightarrow> string list \<Rightarrow> bool" where
  "inside_repo fs parts =
     (parts \<noteq> [] \<and> list_all (\<lambda>q. q \<notin> {[], ''.'', ''..''} \<and> list_all (\<lambda>c. c \<noteq> CHR ''/'' \<and> \<not> wildcard c) q) parts \<and>
      \<not> linked_prefix fs parts \<and> rf_exists fs parts)"

lemma posix_round_trip: "inside_repo fs parts \<Longrightarrow> posix_parts (as_posix parts) = parts"
proof -
  assume "inside_repo fs parts"
  then have parts: "parts \<noteq> []" "\<forall>q \<in> set parts. q \<notin> {[], ''.''}" "\<forall>q \<in> set parts. CHR ''/'' \<notin> set q"
    unfolding inside_repo_def list_all_iff by blast+
  show ?thesis unfolding posix_parts_def as_posix_def split_join [OF parts(1,3)] by (rule filter_True [OF parts(2)])
qed

lemma posix_parts_chars: "q \<in> set (posix_parts s) \<Longrightarrow> set q \<subseteq> set s - {CHR ''/''}"
  by (rule split_slash_chars) (simp add: posix_parts_def)

lemma parts_inside:
  assumes "posix_parts path \<noteq> []" "\<not> list_ex (\<lambda>p. p \<in> {[], ''.'', ''..''}) (posix_parts path)" "\<not> linked_prefix fs (posix_parts path)"
    "rf_exists fs (posix_parts path)" "path_refusal who raw path = None"
  shows "inside_repo fs (posix_parts path)"
proof -
  have "list_all (\<lambda>c. \<not> wildcard c) path" using assms(5) by (simp add: path_refusal_def list_all_iff list_ex_iff split: if_splits)
  then have w: "\<not> wildcard c" if "c \<in> set path" for c using that by (simp add: list_all_iff)
  have "list_all (\<lambda>c. c \<noteq> CHR ''/'' \<and> \<not> wildcard c) q" if "q \<in> set (posix_parts path)" for q
    unfolding list_all_iff using posix_parts_chars [OF that] w by blast
  moreover have "q \<notin> {[], ''.'', ''..''}" if "q \<in> set (posix_parts path)" for q using assms(2) that by (simp add: list_ex_iff)
  ultimately have "list_all (\<lambda>q. q \<notin> {[], ''.'', ''..''} \<and> list_all (\<lambda>c. c \<noteq> CHR ''/'' \<and> \<not> wildcard c) q) (posix_parts path)"
    unfolding list_all_iff by blast
  then show ?thesis using assms(1,3,4) unfolding inside_repo_def by blast
qed

lemma command_path_inside:
  assumes "validate_command_path fs allowed raw = Inr path"
  shows "path = as_posix (posix_parts path) \<and> inside_repo fs (posix_parts path) \<and> rf_file fs (posix_parts path) \<and>
    lower (suffix_of (last (posix_parts path))) \<in> set allowed"
proof -
  define parts where "parts = posix_parts (slashes (py_strip raw))"
  have r: "path_refusal ''Validated'' raw (slashes (py_strip raw)) = None" "parts \<noteq> []"
      "\<not> list_ex (\<lambda>p. p \<in> {[], ''.'', ''..''}) parts" "\<not> linked_prefix fs parts" "rf_exists fs parts" "rf_file fs parts"
      "lower (suffix_of (last parts)) \<in> set allowed" "path = as_posix parts"
    using assms by (simp_all add: validate_command_path_def Let_def parts_def split: if_splits option.splits)
  have i: "inside_repo fs parts" unfolding parts_def using r(1-5) by (intro parts_inside) (simp_all add: parts_def)
  then have "posix_parts path = parts" using r(8) by (simp add: posix_round_trip)
  with r i show ?thesis by simp
qed

lemma pytest_target_inside:
  assumes "validate_pytest_target fs raw = Inr target"
  shows "\<exists>parts. inside_repo fs parts \<and> (rf_directory fs parts \<or> rf_file fs parts \<and> suffix_of (last parts) = ''.py'') \<and>
    (target = as_posix parts \<or> (\<exists>selector. target = as_posix parts @ ''::'' @ selector))"
proof -
  obtain path_part separator selector where pc: "partition_colons raw = (path_part, separator, selector)" by (cases "partition_colons raw") auto
  define path where "path = slashes (py_strip path_part)"
  define parts where "parts = posix_parts path"
  have r: "path_refusal ''Pytest'' raw path = None" "parts \<noteq> []" "\<not> list_ex (\<lambda>p. p \<in> {[], ''.'', ''..''}) parts" "\<not> linked_prefix fs parts"
      "rf_exists fs parts" "rf_directory fs parts \<or> rf_file fs parts" "rf_directory fs parts \<or> suffix_of (last parts) = ''.py''"
      "target = as_posix parts @ (if separator then ''::'' @ selector else [])"
    using assms by (simp_all add: validate_pytest_target_def Let_def pc path_def [symmetric] parts_def [symmetric] split: if_splits option.splits)
  have "inside_repo fs parts" unfolding parts_def using r(1-5) by (intro parts_inside) (simp_all add: parts_def)
  with r show ?thesis by (cases separator) auto
qed

section \<open>The properties of the profiles\<close>

text \<open>C22. A command that is handed out carries nothing blocked. Whether a command id is resolved from the configuration or the built-in table, or a
  profile is built for a path or a Git operation, the profile has a well-formed id and a non-empty argument list, and no argument, path included,
  matches a blocked pattern anywhere.\<close>

theorem handed_out_profiles_safe:
  assumes "resolve_command_profile i raws = Inr p \<or> build_pytest_path_profile fs path = Inr p \<or> build_py_compile_path_profile fs path = Inr p \<or>
    build_bash_n_path_profile fs path = Inr p \<or> build_json_validate_path_profile fs path = Inr p \<or> build_git_readonly_profile operation = Inr p"
  shows "command_id_ok (cp_id p) \<and> cp_argv p \<noteq> [] \<and>
    (\<forall>a \<in> set (cp_argv p). \<forall>q \<in> set BLOCKED_ARGV_PATTERNS. \<not> (\<exists>items \<in> set (bp_alternatives q). \<exists>u v w. lower a = u @ v @ w \<and> reads u items v w))"
proof -
  have "safe_profile p" using assms resolved_safe built_safe git_safe by blast
  then show ?thesis by (simp add: safe_profile_def list_all_iff blocks_def list_ex_iff search_from_start)
qed


text \<open>A repository with one directory and two files.\<close>

definition sample_files :: repo_files where
  "sample_files =
     \<lparr>rf_linked = (\<lambda>p. p = [''link'']), rf_exists = (\<lambda>p. p \<in> {[''tests''], [''tests'', ''a.py''], [''-x'']}),
      rf_directory = (\<lambda>p. p \<in> {[''tests''], [''-x'']}), rf_file = (\<lambda>p. p = [''tests'', ''a.py''])\<rparr>"

theorem handed_out_profiles_safe_witness:
  "(case build_py_compile_path_profile sample_files ''tests/a.py'' of Inl _ \<Rightarrow> False | Inr p \<Rightarrow> command_id_ok (cp_id p))"
proof -
  have "\<exists>p. build_py_compile_path_profile sample_files ''tests/a.py'' = Inr p"
  proof -
    have "(case build_py_compile_path_profile sample_files ''tests/a.py'' of Inl _ \<Rightarrow> False | Inr _ \<Rightarrow> True)" by code_simp
    then show ?thesis by (auto split: sum.splits)
  qed
  then obtain p where p: "build_py_compile_path_profile sample_files ''tests/a.py'' = Inr p" ..
  have "command_id_ok (cp_id p)"
    using handed_out_profiles_safe [of "[]" "[]" p sample_files "''tests/a.py''" "[]"] p by simp
  with p show ?thesis by simp
qed


lemma capped:
  assumes "cap_output out0 err0 = (out, err, truncated)"
  shows "length out + length err \<le> MAX_OUTPUT_BYTES \<and> (truncated \<longleftrightarrow> (out, err) \<noteq> (out0, err0)) \<and> (\<exists>dropped. out @ err @ dropped = out0 @ err0)"
proof -
  consider (all) "length out0 + length err0 \<le> MAX_OUTPUT_BYTES" "out = out0" "err = err0" "\<not> truncated"
    | (first) "length out0 > MAX_OUTPUT_BYTES" "out = take MAX_OUTPUT_BYTES out0" "err = []" "truncated"
    | (both) "length out0 \<le> MAX_OUTPUT_BYTES" "length out0 + length err0 > MAX_OUTPUT_BYTES" "out = out0"
        "err = take (MAX_OUTPUT_BYTES - length out0) err0" "truncated"
    using assms by (auto simp: cap_output_def split: if_splits)
  then show ?thesis
  proof cases
    case all
    then show ?thesis by simp
  next
    case first
    then have "out \<noteq> out0" by (metis length_take min.absorb4 nat_less_le)
    moreover have "out @ err @ (drop MAX_OUTPUT_BYTES out0 @ err0) = out0 @ err0" using first by (simp flip: append_assoc)
    ultimately show ?thesis using first by (simp add: exI [of _ "drop MAX_OUTPUT_BYTES out0 @ err0"])
  next
    case both
    have "length err < length err0" using both by simp
    moreover have "out @ err @ drop (MAX_OUTPUT_BYTES - length out0) err0 = out0 @ err0" using both by simp
    ultimately show ?thesis using both by (simp add: exI [of _ "drop (MAX_OUTPUT_BYTES - length out0) err0"])
  qed
qed

text \<open>The output of a command is capped, and nothing is dropped silently. Together the two streams of a result are at most a hundred thousand
  characters; they are the beginning of what the process wrote, standard output first, and the result is marked as truncated exactly when
  something is missing.\<close>

theorem output_capped:
  "(let r = run_command_profile x execute p cwd extra;
       argv = fst (prepare_repo_execution x p cwd);
       vars = foldl (\<lambda>d (k, v). set_var k v d) (snd (prepare_repo_execution x p cwd)) extra;
       wrote = observed (execute argv vars) in
    length (cr_stdout r) + length (cr_stderr r) \<le> MAX_OUTPUT_BYTES \<and>
    (cr_truncated r \<longleftrightarrow> (cr_stdout r, cr_stderr r) \<noteq> (fst wrote, fst (snd wrote))) \<and>
    (\<exists>dropped. cr_stdout r @ cr_stderr r @ dropped = fst wrote @ fst (snd wrote)))"
proof -
  obtain argv vars where pr: "prepare_repo_execution x p cwd = (argv, vars)" by (cases "prepare_repo_execution x p cwd")
  obtain out0 err0 code late where ob: "observed (execute argv (foldl (\<lambda>d (k, v). set_var k v d) vars extra)) = (out0, err0, code, late)"
    by (metis prod.exhaust)
  obtain out err truncated where cap: "cap_output out0 err0 = (out, err, truncated)" by (cases "cap_output out0 err0") auto
  have "length out + length err \<le> MAX_OUTPUT_BYTES" "truncated \<longleftrightarrow> (out, err) \<noteq> (out0, err0)" "\<exists>dropped. out @ err @ dropped = out0 @ err0"
    using capped [OF cap] by simp_all
  then show ?thesis by (simp add: run_command_profile_def pr ob cap)
qed

lemma dash_strip: "\<exists>t. py_strip (CHR ''-'' # s) = CHR ''-'' # t"
proof -
  have d: "\<not> is_space (CHR ''-'')" by code_simp
  have "\<exists>t. dropWhile is_space (rev s @ [CHR ''-'']) = t @ [CHR ''-'']"
    by (cases "\<exists>c \<in> set s. \<not> is_space c") (auto simp: dropWhile_append d)
  then obtain t where "dropWhile is_space (rev s @ [CHR ''-'']) = t @ [CHR ''-'']" ..
  then show ?thesis using d by (simp add: py_strip_def)
qed

lemma dash_refused: "path_refusal who raw (slashes (py_strip (CHR ''-'' # s))) \<noteq> None"
proof -
  obtain t where "py_strip (CHR ''-'' # s) = CHR ''-'' # t" using dash_strip [of s] by blast
  then show ?thesis by (simp add: path_refusal_def starts_with_def slashes_def)
qed

lemma dash_part: "\<exists>t sep sel. partition_colons (CHR ''-'' # s) = (CHR ''-'' # t, sep, sel)"
  by (cases s) (auto split: prod.split)

lemma dashed_refused:
  "\<exists>e. validate_pytest_target fs (CHR ''-'' # s) = Inl e" "\<exists>e. validate_command_path fs allowed (CHR ''-'' # s) = Inl e"
proof -
  obtain t sep sel where p: "partition_colons (CHR ''-'' # s) = (CHR ''-'' # t, sep, sel)" using dash_part [of s] by blast
  show "\<exists>e. validate_pytest_target fs (CHR ''-'' # s) = Inl e"
    using dash_refused [of "''Pytest''" "CHR ''-'' # s" t] by (auto simp: validate_pytest_target_def Let_def p)
  show "\<exists>e. validate_command_path fs allowed (CHR ''-'' # s) = Inl e"
    using dash_refused [of "''Validated''" "CHR ''-'' # s" s] by (auto simp: validate_command_path_def Let_def)
qed

text \<open>C40. The option guard of a path can be walked around. A path that starts with a dash is always refused, because it would be read as an option of
  the command; with a dot and a slash before it the same path is accepted, and the argument handed to the command starts with the dash.\<close>

theorem dotted_option_accepted:
  "(\<forall>fs s. (\<exists>e. validate_pytest_target fs (CHR ''-'' # s) = Inl e) \<and> (\<exists>e. validate_command_path fs [''.py''] (CHR ''-'' # s) = Inl e)) \<and>
   (\<exists>fs p. build_pytest_path_profile fs ''./-x'' = Inr p \<and> cp_argv p = [''python'', ''-m'', ''pytest'', ''-q'', ''-x''])"
proof -
  have "\<forall>fs s. (\<exists>e. validate_pytest_target fs (CHR ''-'' # s) = Inl e) \<and> (\<exists>e. validate_command_path fs [''.py''] (CHR ''-'' # s) = Inl e)"
    by (simp add: dashed_refused)
  moreover have "\<exists>p. build_pytest_path_profile sample_files ''./-x'' = Inr p \<and> cp_argv p = [''python'', ''-m'', ''pytest'', ''-q'', ''-x'']"
  proof -
    have "(case build_pytest_path_profile sample_files ''./-x'' of Inl _ \<Rightarrow> False
           | Inr p \<Rightarrow> cp_argv p = [''python'', ''-m'', ''pytest'', ''-q'', ''-x''])" by code_simp
    then show ?thesis by (auto split: sum.splits)
  qed
  ultimately show ?thesis by blast
qed


end
