(* ===== verification/Lock_Refinement.thy ===== *)
theory Lock_Refinement
  imports Lock_Guarantees
begin

text \<open>
  What the lock store means: a ledger from repositories to owners. An owner is a run with the token and the generation of its lease. Each call
  on the store, made in a world that says which processes are alive, is simulated by a command on the ledger, which knows nothing of rows,
  bindings, versions, heartbeats or process ids. The ledger is told two things by the rest of the database: which holders have expired and
  whether the run row of a relaunch still shows the lease that was observed.
\<close>

section \<open>The ledger\<close>

type_synonym lock_owner = "string \<times> string \<times> int"
type_synonym ledger = "string \<Rightarrow> lock_owner option"

datatype lock_command =
    Acquire_lock string lock_request
  | Claim_lock string string int string "int option" timestamp
  | Beat_lock string string "string option" "int option" timestamp
  | Release_lock string string "string option" "int option"
  | Relaunch_lock string string "string list" int string int string "int option" timestamp
  | Recover_locks

fun owner_is :: "string \<Rightarrow> string option \<Rightarrow> int option \<Rightarrow> lock_owner option \<Rightarrow> bool" where
  "owner_is run t n None = False"
| "owner_is run t n (Some (run', tok, gen)) = (run' = run \<and> opt_is t tok \<and> opt_is n gen)"

fun ledger_command :: "(string \<Rightarrow> bool) \<Rightarrow> bool \<Rightarrow> lock_command \<Rightarrow> ledger \<Rightarrow> bool \<times> ledger" where
  "ledger_command expired due (Acquire_lock repo q) L =
     (if L repo = None \<or> expired repo then (True, L(repo \<mapsto> request_owner q)) else (False, L))"
| "ledger_command expired due (Claim_lock repo run pid tok n now) L = (owner_is run (Some tok) n (L repo), L)"
| "ledger_command expired due (Beat_lock repo run t n now) L = (owner_is run t n (L repo), L)"
| "ledger_command expired due (Release_lock repo run t n) L =
     (if owner_is run t n (L repo) then (True, L(repo := None)) else (False, L))"
| "ledger_command expired due (Relaunch_lock repo run statuses version tok gen new_tok pid now) L =
     (if due \<and> owner_is run (Some tok) (Some gen) (L repo) then (True, L(repo \<mapsto> (run, new_tok, gen + 1))) else (False, L))"
| "ledger_command expired due Recover_locks L = (True, \<lambda>k. if expired k then None else L k)"

section \<open>The store\<close>

fun run_command :: "proc_world \<Rightarrow> lock_command \<Rightarrow> 'a lock_db_scheme \<Rightarrow> bool \<times> 'a lock_db_scheme" where
  "run_command w (Acquire_lock repo q) db = try_acquire w repo q db"
| "run_command w (Claim_lock repo run pid tok n now) db =
     (case claim_owner repo run pid tok n now db of (Inl e, db') \<Rightarrow> (False, db') | (Inr b, db') \<Rightarrow> (b, db'))"
| "run_command w (Beat_lock repo run t n now) db = lock_heartbeat repo run t n now db"
| "run_command w (Release_lock repo run t n) db = release repo run t n db"
| "run_command w (Relaunch_lock repo run statuses version tok gen new_tok pid now) db =
     (case reserve_next_launch repo run statuses version tok gen new_tok pid now db of (v, db') \<Rightarrow> (v \<noteq> None, db'))"
| "run_command w Recover_locks db = (case recover_stale w db of (Inl e, db') \<Rightarrow> (False, db') | (Inr n, db') \<Rightarrow> (True, db'))"

text \<open>The condition of a relaunch on the run row.\<close>

fun run_due :: "lock_command \<Rightarrow> 'a run_db_scheme \<Rightarrow> bool" where
  "run_due (Relaunch_lock repo run statuses version tok gen new_tok pid now) db =
     (case run_by_id run db of None \<Rightarrow> False | Some r \<Rightarrow> relaunch_where run statuses version tok gen r)"
| "run_due _ db = True"

text \<open>Lease generations count from one, as the callers pass them.\<close>

fun command_ok :: "lock_command \<Rightarrow> bool" where
  "command_ok (Acquire_lock repo q) = (1 \<le> q_generation q)"
| "command_ok _ = True"

definition leases_counted :: "ledger \<Rightarrow> bool" where
  "leases_counted L = (\<forall>k run tok gen. L k = Some (run, tok, gen) \<longrightarrow> 1 \<le> gen)"

lemma ledger_leases_counted:
  "leases_counted L \<Longrightarrow> command_ok c \<Longrightarrow> leases_counted (snd (ledger_command expired due c L))"
  by (cases c) (fastforce simp: leases_counted_def request_owner_def opt_is_def split: if_splits elim!: owner_is.elims)+

section \<open>Simulation\<close>

lemma owner_is_holder:
  "owner_is run t n (lock_holder db repo) = (case lock_by_repo repo db of None \<Rightarrow> False | Some l \<Rightarrow> owns run t n l)"
  by (simp add: lock_holder_def owns_def split: option.split)

lemma holder_acquired:
  assumes "wf_locks db" "lock_free w (l_repo_name row) db"
  shows "lock_holder (acquired_db w row db) = (lock_holder db)(l_repo_name row \<mapsto> (l_run_id row, l_owner_token row, l_lease_generation row))"
  using acquired_facts(2) [OF assms refl] by (simp add: fun_eq_iff lock_holder_def)

lemma holder_acquire:
  assumes "wf_locks db" "try_acquire w repo q db = (ok, db')"
  shows "ledger_command (lock_expired w db) due (Acquire_lock repo q) (lock_holder db) = (ok, lock_holder db')"
proof (cases "lock_free w repo db")
  case True
  let ?row = "new_lock repo (q_tool q) (q_fingerprint q) (q_run_id q) (q_owner_pid q) (q_token q) (q_generation q) (q_now q)"
  have "lock_holder (acquired_db w ?row db) = (lock_holder db)(repo \<mapsto> request_owner q)"
    using holder_acquired [OF assms(1), of w ?row] True by (simp add: new_lock_def request_owner_def)
  with True assms show ?thesis by (auto simp: try_acquire_eq lock_free_iff)
next
  case False
  with assms show ?thesis by (auto simp: try_acquire_eq lock_free_iff)
qed

lemma holder_update:
  assumes "\<And>l. l_repo_name (f l) = l_repo_name l" "\<And>l. (l_run_id (f l), l_owner_token (f l), l_lease_generation (f l)) = (l_run_id l, l_owner_token l, l_lease_generation l)"
  shows "lock_holder (lock_update repo q f db) = lock_holder db"
  using assms(2) by (cases "lock_by_repo repo db") (auto simp: fun_eq_iff lock_holder_def lock_update_lookup [of f, OF assms(1)])

lemma holder_bump [simp]: "lock_holder (bump_db run db) = lock_holder db"
  by (simp add: fun_eq_iff lock_holder_def lock_by_repo_def)

lemma holder_bind [simp]: "wf_locks db \<Longrightarrow> lock_holder (snd (bind_in_connection repo run tok gen db)) = lock_holder db"
  by (auto simp: fun_eq_iff lock_holder_def bind_lookup split: option.split)

lemma holder_claim:
  assumes "wf_locks db"
  shows "case claim_owner repo run pid tok n now db of (r, db') \<Rightarrow>
    r = Inr (owner_is run (Some tok) n (lock_holder db repo)) \<and> lock_holder db' = lock_holder db"
  using assms by (auto simp: claim_owner_eq owner_is_holder Let_def holder_update split: option.split)

lemma holder_beat:
  assumes "wf_locks db"
  shows "lock_heartbeat repo run t n now db =
    (owner_is run t n (lock_holder db repo), lock_update repo (owns run t n) (\<lambda>l. l\<lparr>l_heartbeat_at := now\<rparr>) db)"
  using assms by (simp add: lock_heartbeat_def lock_where_key lock_update_def Let_def lock_count owner_is_holder split: option.split)

lemma holder_delete:
  assumes "wf_locks db" "owner_is run t n (lock_holder db repo)"
  shows "lock_holder (lock_delete repo (owns run t n) db) = (lock_holder db)(repo := None)"
  using assms unfolding owner_is_holder by (auto simp: fun_eq_iff lock_holder_def lock_delete_lookup split: option.splits)

lemma holder_release:
  assumes "wf_locks db" "release repo run t n db = (ok, db')"
  shows "ledger_command expired due (Release_lock repo run t n) (lock_holder db) = (ok, lock_holder db')"
  using assms holder_delete [OF assms(1), of run t n repo] by (auto simp: release_eq owner_is_holder split: option.splits if_splits)

lemma due_split:
  "relaunch_due repo run statuses version tok gen db =
    (run_due (Relaunch_lock repo run statuses version tok gen new_tok pid now) db \<and> owner_is run (Some tok) (Some gen) (lock_holder db repo))"
proof -
  have "r_run_id r = run" if "run_by_id run db = Some r" for r
    using that unfolding run_by_id_def by (rule by_key_Some_key)
  then show ?thesis by (auto simp: relaunch_due_def owner_is_holder relaunch_where_def split: option.split)
qed

lemma holder_relaunch:
  assumes wf: "wf_locks db" and eq: "reserve_next_launch repo run statuses version tok gen new_tok pid now db = (v, db')"
  shows "ledger_command expired (run_due (Relaunch_lock repo run statuses version tok gen new_tok pid now) db)
    (Relaunch_lock repo run statuses version tok gen new_tok pid now) (lock_holder db) = (v \<noteq> None, lock_holder db')"
proof (cases "relaunch_due repo run statuses version tok gen db")
  case True
  then obtain r l where r: "run_by_id run db = Some r" and l: "lock_by_repo repo db = Some l" and o: "l_run_id l = run"
    by (auto simp: relaunch_due_def owns_def split: option.splits)
  note R = reserve_due [OF wf True r l eq]
  have "lock_holder db' = (lock_holder db)(repo \<mapsto> (run, new_tok, gen + 1))"
    using o by (simp add: fun_eq_iff lock_holder_def R(3))
  with True R(1) due_split [of repo run statuses version tok gen db new_tok pid now] show ?thesis by simp
next
  case False
  with reserve_not_due [OF wf False, of new_tok pid now] eq due_split [of repo run statuses version tok gen db new_tok pid now]
  show ?thesis by auto
qed

lemma holder_recover:
  assumes wf: "wf_locks db" and gens: "leases_counted (lock_holder db)" and eq: "recover_stale w db = (r, db')"
  shows "(\<exists>n. r = Inr n) \<and> lock_holder db' = (\<lambda>k. if lock_expired w db k then None else lock_holder db k)"
proof -
  have "l_lease_generation l \<noteq> 0" if "l \<in> set (locks db)" for l
  proof -
    have "lock_holder db (l_repo_name l) = Some (l_run_id l, l_owner_token l, l_lease_generation l)"
      using locks_lookup [OF wf that] by (simp add: lock_holder_def)
    then show ?thesis using gens unfolding leases_counted_def by fastforce
  qed
  then have S: "(\<exists>n. r = Inr n) \<and> (\<forall>k. lock_by_repo k db' = recover_outcome w db k)"
    using recover_stale_spec [OF wf _ eq] by blast
  then have "lock_holder db' k = (if lock_expired w db k then None else lock_holder db k)" for k
    by (auto simp: lock_holder_def recover_outcome_def lock_expired_def bound_lock_def split: option.split)
  with S show ?thesis by auto
qed

lemma command_simulates:
  assumes wf: "wf_locks db" and gens: "leases_counted (lock_holder db)"
    and eq: "run_command w c db = (ok, db')"
  shows "ledger_command (lock_expired w db) (run_due c db) c (lock_holder db) = (ok, lock_holder db')"
proof (cases c)
  case (Acquire_lock repo q)
  with eq holder_acquire [OF wf] show ?thesis by simp
next
  case (Claim_lock repo run pid tok n now)
  with eq holder_claim [OF wf, where repo = repo and run = run and pid = pid and tok = tok and n = n and now = now] show ?thesis by (auto split: prod.splits sum.splits)
next
  case (Beat_lock repo run t n now)
  with eq holder_beat [OF wf, of repo run t n now] show ?thesis by (auto simp: holder_update)
next
  case (Release_lock repo run t n)
  with eq holder_release [OF wf] show ?thesis by simp
next
  case (Relaunch_lock repo run statuses version tok gen new_tok pid now)
  then obtain v where v: "reserve_next_launch repo run statuses version tok gen new_tok pid now db = (v, db')" "ok = (v \<noteq> None)"
    using eq by (auto split: prod.splits)
  show ?thesis unfolding Relaunch_lock v(2) by (rule holder_relaunch [OF wf v(1)])
next
  case Recover_locks
  with eq holder_recover [OF wf gens] show ?thesis by (auto split: prod.splits sum.splits)
qed

lemma command_wf:
  assumes "wf_locks db" "run_command w c db = (ok, db')"
  shows "wf_locks db'"
proof (cases c)
  case (Acquire_lock repo q)
  with assms acquired_facts(1) [OF assms(1), of w repo] show ?thesis
    by (auto simp: try_acquire_eq new_lock_def split: if_splits)
next
  case (Claim_lock repo run pid tok n now)
  with assms claim_owner_advances [OF assms(1), of repo run pid tok n now] show ?thesis by (auto split: prod.splits sum.splits)
next
  case (Beat_lock repo run t n now)
  with assms lock_heartbeat_advances [OF assms(1), of repo run t n now] show ?thesis by simp
next
  case (Release_lock repo run t n)
  with assms release_advances [OF assms(1), of repo run t n] show ?thesis by simp
next
  case (Relaunch_lock repo run statuses version tok gen new_tok pid now)
  show ?thesis
  proof (cases "relaunch_due repo run statuses version tok gen db")
    case True
    then obtain r l where "run_by_id run db = Some r" "lock_by_repo repo db = Some l" by (auto simp: relaunch_due_def split: option.splits)
    with Relaunch_lock assms(2) reserve_due(4) [OF assms(1) True] show ?thesis by (auto split: prod.splits)
  next
    case False
    with Relaunch_lock assms reserve_not_due [OF assms(1) False, of new_tok pid now] show ?thesis by simp
  qed
next
  case Recover_locks
  with assms recover_stale_advances [OF assms(1), of w] show ?thesis by (auto split: prod.splits sum.splits)
qed

section \<open>Histories\<close>

fun run_commands :: "(proc_world \<times> lock_command) list \<Rightarrow> 'a lock_db_scheme \<Rightarrow> bool list \<times> 'a lock_db_scheme" where
  "run_commands [] db = ([], db)"
| "run_commands ((w, c) # cs) db =
     (let (ok, db1) = run_command w c db; (oks, db2) = run_commands cs db1 in (ok # oks, db2))"

text \<open>A history of the ledger: at each command, some holders may have expired and a relaunch may be due or not.\<close>

inductive ledger_run :: "ledger \<Rightarrow> lock_command list \<Rightarrow> bool list \<Rightarrow> ledger \<Rightarrow> bool" where
  finished: "ledger_run L [] [] L"
| command: "ledger_command expired due c L = (ok, L1) \<Longrightarrow> ledger_run L1 cs oks L2 \<Longrightarrow> ledger_run L (c # cs) (ok # oks) L2"

text \<open>C35. The lock store implements a ledger of owners. Every history of acquisitions, claims, heartbeats, releases, relaunches and recoveries on
  the lock tables, in whatever worlds they run, gives exactly the answers of a history of the ledger and ends in the ledger of its rows; and at
  every single call the ledger follows the store with the holders that are stale in the tables at that moment and no others.\<close>

theorem lock_store_refines_ledger:
  assumes "wf_locks db" "leases_counted (lock_holder db)" "list_all (command_ok \<circ> snd) cs" "run_commands cs db = (oks, db')"
  shows "ledger_run (lock_holder db) (map snd cs) oks (lock_holder db') \<and>
    (\<forall>w c. ledger_command (lock_expired w db') (run_due c db') c (lock_holder db') =
       (fst (run_command w c db'), lock_holder (snd (run_command w c db'))))"
proof -
  have "ledger_run (lock_holder db) (map snd cs) oks (lock_holder db') \<and> wf_locks db' \<and> leases_counted (lock_holder db')"
    using assms
  proof (induction cs arbitrary: db oks)
    case Nil
    then show ?case by (simp add: ledger_run.finished)
  next
    case (Cons wc cs)
    obtain w c where wc: "wc = (w, c)" by fastforce
    obtain ok db1 oks1 where s: "run_command w c db = (ok, db1)" "run_commands cs db1 = (oks1, db')" "oks = ok # oks1"
      using Cons.prems(4) by (auto simp: wc Let_def split: prod.splits)
    note sim = command_simulates [OF Cons.prems(1,2) s(1)]
    have "leases_counted (lock_holder db1)"
      using ledger_leases_counted [OF Cons.prems(2), of c "lock_expired w db" "run_due c db"] Cons.prems(3) sim by (simp add: wc)
    with Cons.IH [OF command_wf [OF Cons.prems(1) s(1)] this _ s(2)] Cons.prems(3) show ?case
      by (auto simp: wc s(3) intro: ledger_run.command [OF sim])
  qed
  then show ?thesis using command_simulates [of db'] by (simp add: prod_eq_iff)
qed

theorem lock_store_refines_ledger_witness:
  "ledger_run (lock_holder sample_locks) [Acquire_lock ''repo'' sample_request, Release_lock ''repo'' old_id None None]
     [True, False] (lock_holder sample_held)"
proof -
  let ?cs = "[(sample_world, Acquire_lock ''repo'' sample_request), (sample_world, Release_lock ''repo'' old_id None None)]"
  have "lock_holder sample_locks k = (if k = ''repo'' then Some (old_id, ''old'', 1) else None)" for k
    by (simp add: lock_holder_def lock_by_repo_def sample_locks_def new_lock_def)
  then have "leases_counted (lock_holder sample_locks)" by (simp add: leases_counted_def)
  moreover have "list_all (command_ok \<circ> snd) ?cs" by code_simp
  moreover have "run_commands ?cs sample_locks = ([True, False], sample_held)" by code_simp
  ultimately show ?thesis using lock_store_refines_ledger [OF sample_locks_wf, of ?cs] by simp
qed

end
