(* ===== verification/Policy.thy ===== *)
theory Policy
  imports Soma_Prelude
begin

text \<open>
  Policy and approvals, \<open>src/soma/policy\<close>: the permission tiers and profiles, the classification of a request by markers in its text, the
  evaluation under an autonomy profile, and the store of approval requests. The store is a directory of JSON files, one per request; it is
  modelled as an association list from file names to records, since reading a file gives back the record that was written to it.
  Identifiers drawn from \<open>uuid4\<close> and the clock are arguments; the calls of \<open>utc_now\<close> within one operation read the same clock. The order in
  which the directory is enumerated is the order of the list.
\<close>

section \<open>Models\<close>

datatype tier =
    T0_READ_ONLY
  | T1_SAFE_LOCAL_TEST
  | T2_LONG_RUNNING_NON_DESTRUCTIVE_JOB
  | T3_WRITE_PREVIEW_DRY_RUN
  | T4_WRITE_APPLY_CHATGPT_DELEGATED
  | T5_COMMIT_PRIVATE_BRANCH_CHATGPT_DELEGATED
  | T6_HUMAN_ONLY_RISKY_ACTION

fun tier_value :: "tier \<Rightarrow> string" where
  "tier_value T0_READ_ONLY = ''T0_READ_ONLY''"
| "tier_value T1_SAFE_LOCAL_TEST = ''T1_SAFE_LOCAL_TEST''"
| "tier_value T2_LONG_RUNNING_NON_DESTRUCTIVE_JOB = ''T2_LONG_RUNNING_NON_DESTRUCTIVE_JOB''"
| "tier_value T3_WRITE_PREVIEW_DRY_RUN = ''T3_WRITE_PREVIEW_DRY_RUN''"
| "tier_value T4_WRITE_APPLY_CHATGPT_DELEGATED = ''T4_WRITE_APPLY_CHATGPT_DELEGATED''"
| "tier_value T5_COMMIT_PRIVATE_BRANCH_CHATGPT_DELEGATED = ''T5_COMMIT_PRIVATE_BRANCH_CHATGPT_DELEGATED''"
| "tier_value T6_HUMAN_ONLY_RISKY_ACTION = ''T6_HUMAN_ONLY_RISKY_ACTION''"

definition all_tiers :: "tier list" where
  "all_tiers = [T0_READ_ONLY, T1_SAFE_LOCAL_TEST, T2_LONG_RUNNING_NON_DESTRUCTIVE_JOB, T3_WRITE_PREVIEW_DRY_RUN,
     T4_WRITE_APPLY_CHATGPT_DELEGATED, T5_COMMIT_PRIVATE_BRANCH_CHATGPT_DELEGATED, T6_HUMAN_ONLY_RISKY_ACTION]"

definition LEGACY_PERMISSION_MAP :: "(string \<times> tier) list" where
  "LEGACY_PERMISSION_MAP =
     [(''read_only'', T0_READ_ONLY), (''safe_local_test'', T1_SAFE_LOCAL_TEST),
      (''long_running_non_destructive_job'', T2_LONG_RUNNING_NON_DESTRUCTIVE_JOB), (''write_preview_dry_run'', T3_WRITE_PREVIEW_DRY_RUN),
      (''write_apply_under_delegated_approval'', T4_WRITE_APPLY_CHATGPT_DELEGATED),
      (''commit_private_branch_push_under_delegated_approval'', T5_COMMIT_PRIVATE_BRANCH_CHATGPT_DELEGATED),
      (''human_only_risky_action'', T6_HUMAN_ONLY_RISKY_ACTION)]"

datatype risk_level = RISK_LOW | RISK_MEDIUM | RISK_HIGH | RISK_CRITICAL | RISK_UNKNOWN

datatype policy_decision =
    ALLOWED
  | ALLOWED_WITH_CHATGPT_DELEGATED_APPROVAL
  | NEEDS_CHATGPT_APPROVAL
  | NEEDS_HUMAN_APPROVAL
  | POLICY_BLOCKED
  | POLICY_DENIED
  | POLICY_UNKNOWN

datatype approval_status = APPROVAL_PENDING | APPROVAL_APPROVED | APPROVAL_DENIED | APPROVAL_EXPIRED | APPROVAL_CANCELLED

record autonomy_profile =
  ap_name :: string
  allow_tiers :: "tier list"
  chatgpt_approval_tiers :: "tier list"
  human_approval_tiers :: "tier list"

record risk_classification =
  rc_action_type :: string
  rc_tier :: tier
  rc_risk_level :: risk_level
  rc_human_required :: bool
  rc_blocked :: bool
  rc_reasons :: "string list"
  rc_matched_rules :: "string list"
  rc_sensitivity_flags :: "string list"

record approval_request =
  ar_id :: string
  ar_request_id :: string
  ar_action_type :: string
  ar_repo_name :: "string option"
  ar_repo_path :: "string option"
  ar_tier :: tier
  ar_risk_level :: risk_level
  ar_requested_by :: string
  ar_required_approver :: string
  ar_status :: approval_status
  ar_reasons :: "string list"
  ar_created_at :: timestamp
  ar_decided_at :: "timestamp option"
  ar_decided_by :: "string option"
  ar_decision_notes :: string
  ar_audit_event_id :: string

record approval_decision =
  ad_id :: string
  ad_status :: approval_status
  ad_decided_by :: string
  ad_decided_at :: timestamp
  ad_decision_notes :: string

text \<open>The tier of a request: none, a member of the enumeration, or text.\<close>

datatype tier_input = No_tier | Tier tier | Tier_text string

record policy_request =
  pq_request_id :: string
  pq_action :: string
  pq_action_type :: string
  pq_repo_name :: "string option"
  pq_repo_path :: "string option"
  pq_requested_by :: string
  pq_autonomy_profile :: string
  pq_permission_tier :: tier_input
  pq_metadata :: "(string \<times> json) list"

record policy_result =
  pr_request_id :: string
  pr_action_type :: string
  pr_repo_name :: "string option"
  pr_repo_path :: "string option"
  pr_requested_by :: string
  pr_profile :: string
  pr_tier :: tier
  pr_risk_level :: risk_level
  pr_decision :: policy_decision
  pr_approval_required :: bool
  pr_human_required :: bool
  pr_chatgpt_allowed :: bool
  pr_blocked :: bool
  pr_reasons :: "string list"
  pr_matched_rules :: "string list"
  pr_sensitivity_flags :: "string list"
  pr_approval_request_id :: "string option"
  pr_audit_event_id :: string
  pr_created_at :: timestamp

section \<open>Profiles\<close>

definition conservative_profile :: autonomy_profile where
  "conservative_profile = \<lparr>ap_name = ''conservative'', allow_tiers = [T0_READ_ONLY], chatgpt_approval_tiers = [],
     human_approval_tiers = [T1_SAFE_LOCAL_TEST, T2_LONG_RUNNING_NON_DESTRUCTIVE_JOB, T3_WRITE_PREVIEW_DRY_RUN,
       T4_WRITE_APPLY_CHATGPT_DELEGATED, T5_COMMIT_PRIVATE_BRANCH_CHATGPT_DELEGATED, T6_HUMAN_ONLY_RISKY_ACTION]\<rparr>"

definition balanced_profile :: autonomy_profile where
  "balanced_profile = \<lparr>ap_name = ''balanced'',
     allow_tiers = [T0_READ_ONLY, T1_SAFE_LOCAL_TEST, T2_LONG_RUNNING_NON_DESTRUCTIVE_JOB],
     chatgpt_approval_tiers = [T3_WRITE_PREVIEW_DRY_RUN, T4_WRITE_APPLY_CHATGPT_DELEGATED, T5_COMMIT_PRIVATE_BRANCH_CHATGPT_DELEGATED],
     human_approval_tiers = [T6_HUMAN_ONLY_RISKY_ACTION]\<rparr>"

definition permissive_profile :: autonomy_profile where
  "permissive_profile = \<lparr>ap_name = ''permissive'',
     allow_tiers = [T0_READ_ONLY, T1_SAFE_LOCAL_TEST, T2_LONG_RUNNING_NON_DESTRUCTIVE_JOB, T3_WRITE_PREVIEW_DRY_RUN,
       T4_WRITE_APPLY_CHATGPT_DELEGATED, T5_COMMIT_PRIVATE_BRANCH_CHATGPT_DELEGATED],
     chatgpt_approval_tiers = [], human_approval_tiers = [T6_HUMAN_ONLY_RISKY_ACTION]\<rparr>"

definition get_autonomy_profile :: "string \<Rightarrow> autonomy_profile" where
  "get_autonomy_profile name =
     (if name = ''conservative'' then conservative_profile
      else if name = ''permissive'' then permissive_profile
      else balanced_profile)"

section \<open>Classification\<close>

text \<open>\<open>marker in text\<close>\<close>

fun py_in :: "string \<Rightarrow> string \<Rightarrow> bool" where
  "py_in m [] = (m = [])"
| "py_in m (c # s) = (take (length m) (c # s) = m \<or> py_in m s)"

definition SENSITIVE_MARKERS :: "string list" where
  "SENSITIVE_MARKERS = [''api key'', ''secret'', ''password'', ''token'', ''private key'', ''credential'', ''authorization'', ''bearer'']"

definition HUMAN_MARKERS :: "string list" where
  "HUMAN_MARKERS = [''production deploy'', ''production infrastructure'', ''real-money'', ''real money'', ''public repo push'', ''push to main'',
     ''push main'', ''push to master'', ''release tag'', ''deployment branch'', ''grant external access'', ''external permission'',
     ''connector ui approval'', ''sudo'', ''chmod -r'', ''chown -r'']"

definition BLOCKED_MARKERS :: "string list" where
  "BLOCKED_MARKERS = [''rm -rf'', ''delete volume'', ''drop database'', ''wipe'', ''format drive'', ''remove-item -recurse -force'']"

definition normalize_tier :: "tier_input \<Rightarrow> tier option" where
  "normalize_tier v =
     (case v of
        No_tier \<Rightarrow> None
      | Tier t \<Rightarrow> Some t
      | Tier_text s \<Rightarrow>
          (case map_of LEGACY_PERMISSION_MAP s of Some t \<Rightarrow> Some t | None \<Rightarrow> find (\<lambda>t. tier_value t = s) all_tiers))"

definition infer_tier :: "string \<Rightarrow> string \<Rightarrow> tier" where
  "infer_tier text action_type =
     (let mentions = (\<lambda>terms. list_ex (\<lambda>m. py_in m text) terms) in
      if mentions [''git status'', ''git diff'', ''inspect'', ''list files'', ''read-only'', ''read only''] then T0_READ_ONLY
      else if mentions [''pytest'', ''pip check'', ''run tests'', ''safe test''] then T1_SAFE_LOCAL_TEST
      else if mentions [''long-running'', ''long running'', ''job profile'', ''benchmark job'', ''cancel job'', ''job status'']
      then T2_LONG_RUNNING_NON_DESTRUCTIVE_JOB
      else if mentions [''dry run'', ''preview'', ''plan write''] then T3_WRITE_PREVIEW_DRY_RUN
      else if mentions [''commit'', ''private branch'', ''feature branch push''] then T5_COMMIT_PRIVATE_BRANCH_CHATGPT_DELEGATED
      else if mentions [''edit'', ''write'', ''apply'', ''fix'', ''refactor'', ''create module'', ''non-secret config'']
      then T4_WRITE_APPLY_CHATGPT_DELEGATED
      else if action_type = ''unknown'' then T6_HUMAN_ONLY_RISKY_ACTION else T0_READ_ONLY)"

fun tier_risk :: "tier \<Rightarrow> risk_level" where
  "tier_risk T0_READ_ONLY = RISK_LOW"
| "tier_risk T1_SAFE_LOCAL_TEST = RISK_LOW"
| "tier_risk T6_HUMAN_ONLY_RISKY_ACTION = RISK_HIGH"
| "tier_risk _ = RISK_MEDIUM"

text \<open>The text that is searched: action, type and the printed metadata, in lower case.\<close>

definition searched_text :: "policy_request \<Rightarrow> string" where
  "searched_text q = lower (pq_action q @ '' '' @ pq_action_type q @ '' '' @ py_repr (JObj (pq_metadata q)))"

definition upper_flag :: "string \<Rightarrow> string" where
  "upper_flag m = map (\<lambda>c. if is_lower_alpha c then char_of ((of_char c :: nat) - 32) else if c = CHR '' '' then CHR ''_'' else c) m"

definition risky :: "string \<Rightarrow> risk_level \<Rightarrow> bool \<Rightarrow> string \<Rightarrow> string \<Rightarrow> string list \<Rightarrow> risk_classification" where
  "risky action_type level blocked reason rule flags =
     \<lparr>rc_action_type = action_type, rc_tier = T6_HUMAN_ONLY_RISKY_ACTION, rc_risk_level = level, rc_human_required = True,
      rc_blocked = blocked, rc_reasons = [reason], rc_matched_rules = [rule], rc_sensitivity_flags = flags\<rparr>"

definition classify :: "policy_request \<Rightarrow> risk_classification" where
  "classify q =
     (let text = searched_text q; sensitivity = map upper_flag (filter (\<lambda>m. py_in m text) SENSITIVE_MARKERS) in
      if sensitivity \<noteq> [] then risky (pq_action_type q) RISK_CRITICAL True ''secret_like_content'' ''sensitive_marker'' sensitivity
      else if list_ex (\<lambda>m. py_in m text) BLOCKED_MARKERS
      then risky (pq_action_type q) RISK_CRITICAL True ''destructive_action'' ''destructive_marker'' []
      else if list_ex (\<lambda>m. py_in m text) HUMAN_MARKERS
      then risky (pq_action_type q) RISK_HIGH False ''human_only_boundary'' ''human_required_marker'' []
      else
        let t = (case normalize_tier (pq_permission_tier q) of Some t \<Rightarrow> t | None \<Rightarrow> infer_tier text (pq_action_type q)) in
        \<lparr>rc_action_type = pq_action_type q, rc_tier = t, rc_risk_level = tier_risk t,
         rc_human_required = (t = T6_HUMAN_ONLY_RISKY_ACTION), rc_blocked = False,
         rc_reasons = [''classified_'' @ lower (tier_value t)], rc_matched_rules = [''metadata_or_text_classification''],
         rc_sensitivity_flags = []\<rparr>)"

section \<open>The approval store\<close>

type_synonym approvals = "(string \<times> approval_request) list"

definition approval_path :: "string \<Rightarrow> string" where
  "approval_path i = map (\<lambda>c. if c = CHR ''/'' \<or> c = CHR 0x5C then CHR ''_'' else c) i @ ''.json''"

text \<open>\<open>write_text\<close>: the file is created or replaced.\<close>

fun write_file :: "string \<Rightarrow> approval_request \<Rightarrow> approvals \<Rightarrow> approvals" where
  "write_file p r [] = [(p, r)]"
| "write_file p r ((p', r') # fs) = (if p = p' then (p, r) # fs else (p', r') # write_file p r fs)"

definition create_approval :: "approval_request \<Rightarrow> approvals \<Rightarrow> approvals" where
  "create_approval r fs = write_file (approval_path (ar_id r)) r fs"

definition get_approval :: "string \<Rightarrow> approvals \<Rightarrow> py_error + approval_request" where
  "get_approval i fs = (case map_of fs (approval_path i) of
     None \<Rightarrow> Inl (KeyError (''Approval request not found: '' @ i)) | Some r \<Rightarrow> Inr r)"

definition list_all_approvals :: "approvals \<Rightarrow> approval_request list" where
  "list_all_approvals fs = sort_key ar_created_at (map snd fs)"

definition list_pending :: "approvals \<Rightarrow> approval_request list" where
  "list_pending fs = filter (\<lambda>r. ar_status r = APPROVAL_PENDING) (list_all_approvals fs)"

definition decided :: "bool \<Rightarrow> string \<Rightarrow> string \<Rightarrow> timestamp \<Rightarrow> approval_request \<Rightarrow> approval_request" where
  "decided approved by notes now r = r\<lparr>ar_status := (if approved then APPROVAL_APPROVED else APPROVAL_DENIED),
     ar_decided_at := Some now, ar_decided_by := Some by, ar_decision_notes := notes\<rparr>"

definition record_decision ::
  "string \<Rightarrow> string \<Rightarrow> bool \<Rightarrow> string \<Rightarrow> timestamp \<Rightarrow> approvals \<Rightarrow> (approvals, approval_decision) outcome" where
  "record_decision i decided_by approved notes now fs =
     (case get_approval i fs of
        Inl e \<Rightarrow> (Inl e, fs)
      | Inr r \<Rightarrow>
          if ar_required_approver r = ''human'' \<and> decided_by = ''chatgpt'' \<and> approved
          then (Inl (PermissionError ''ChatGPT cannot approve human-only approval requests''), fs)
          else let r' = decided approved decided_by notes now r in
            (Inr \<lparr>ad_id = i, ad_status = ar_status r', ad_decided_by = decided_by, ad_decided_at = now, ad_decision_notes = notes\<rparr>,
             create_approval r' fs))"

definition expired :: "timestamp \<Rightarrow> approval_request \<Rightarrow> approval_request" where
  "expired now r = r\<lparr>ar_status := APPROVAL_EXPIRED, ar_decided_at := Some now,
     ar_decision_notes := ''Expired by policy store maintenance''\<rparr>"

definition expire_stale :: "timestamp \<Rightarrow> approvals \<Rightarrow> nat \<times> approvals" where
  "expire_stale now fs =
     (length (list_pending fs), fold (\<lambda>r acc. create_approval (expired now r) acc) (list_pending fs) fs)"

section \<open>Evaluation\<close>

record autonomy_config =
  autonomy_default_profile :: string
  autonomy_whitelisted_repos :: "string list"

definition repo_allowed :: "autonomy_config \<Rightarrow> policy_request \<Rightarrow> tier \<Rightarrow> bool" where
  "repo_allowed cfg q t =
     (if t \<in> {T0_READ_ONLY, T1_SAFE_LOCAL_TEST, T2_LONG_RUNNING_NON_DESTRUCTIVE_JOB} then True
      else if autonomy_whitelisted_repos cfg = [] then True
      else case pq_repo_name q of None \<Rightarrow> False | Some n \<Rightarrow> n \<noteq> [] \<and> n \<in> set (autonomy_whitelisted_repos cfg))"

text \<open>The decision ladder: decision, approval required, human required, delegated approval possible, refused by the profile.\<close>

definition decide :: "autonomy_profile \<Rightarrow> risk_classification \<Rightarrow> policy_decision \<times> bool \<times> bool \<times> bool \<times> bool" where
  "decide profile c =
     (let (d, approval, human, chatgpt, refused) =
        (if rc_blocked c then (POLICY_BLOCKED, False, rc_human_required c, False, False)
         else if rc_tier c \<in> set (allow_tiers profile) then (ALLOWED, False, rc_human_required c, False, False)
         else if rc_tier c \<in> set (chatgpt_approval_tiers profile) then (NEEDS_CHATGPT_APPROVAL, True, rc_human_required c, True, False)
         else if rc_tier c \<in> set (human_approval_tiers profile) \<or> rc_human_required c then (NEEDS_HUMAN_APPROVAL, True, True, False, False)
         else (POLICY_BLOCKED, False, rc_human_required c, False, True))
      in if rc_tier c = T6_HUMAN_ONLY_RISKY_ACTION
         then (if d \<noteq> POLICY_BLOCKED then NEEDS_HUMAN_APPROVAL else d, True, True, chatgpt, refused)
         else (d, approval, human, chatgpt, refused))"

definition evaluate ::
  "autonomy_config \<Rightarrow> policy_request \<Rightarrow> string \<Rightarrow> string \<Rightarrow> timestamp \<Rightarrow> approvals \<Rightarrow> policy_result \<times> approvals" where
  "evaluate cfg q approval_id audit_id now fs =
     (let c = classify q;
          profile = get_autonomy_profile (str_or (pq_autonomy_profile q) (autonomy_default_profile cfg));
          listed = repo_allowed cfg q (rc_tier c);
          (d, approval, human, chatgpt, refused) = decide profile c;
          reasons = rc_reasons c @ (if listed then [] else [''repo_not_whitelisted'']) @
                    (if refused then [''tier_not_allowed_by_profile''] else []);
          blocked = (rc_blocked c \<or> \<not> listed \<or> refused);
          asks = (approval \<and> \<not> blocked);
          request = \<lparr>ar_id = approval_id, ar_request_id = pq_request_id q, ar_action_type = pq_action_type q,
             ar_repo_name = pq_repo_name q, ar_repo_path = pq_repo_path q, ar_tier = rc_tier c, ar_risk_level = rc_risk_level c,
             ar_requested_by = pq_requested_by q, ar_required_approver = (if human then ''human'' else ''chatgpt''),
             ar_status = APPROVAL_PENDING, ar_reasons = reasons, ar_created_at = now, ar_decided_at = None, ar_decided_by = None,
             ar_decision_notes = [], ar_audit_event_id = audit_id\<rparr>
      in (\<lparr>pr_request_id = pq_request_id q, pr_action_type = pq_action_type q, pr_repo_name = pq_repo_name q,
           pr_repo_path = pq_repo_path q, pr_requested_by = pq_requested_by q, pr_profile = ap_name profile, pr_tier = rc_tier c, pr_risk_level = rc_risk_level c,
           pr_decision = d, pr_approval_required = approval, pr_human_required = human, pr_chatgpt_allowed = chatgpt,
           pr_blocked = (blocked \<or> d = POLICY_BLOCKED), pr_reasons = reasons, pr_matched_rules = rc_matched_rules c,
           pr_sensitivity_flags = rc_sensitivity_flags c,
           pr_approval_request_id = (if asks then Some approval_id else None),
           pr_audit_event_id = audit_id, pr_created_at = now\<rparr>,
          if asks then create_approval request fs else fs))"

end
