(* ===== verification/Policy_Guarantees.thy ===== *)
theory Policy_Guarantees
  imports Policy
begin

text \<open>
  What the policy engine guarantees: secret-like and destructive requests are blocked and human-only requests reach a human whatever the
  request claims about itself, a more permissive profile is never stricter, and an approval reserved for a human is never granted by the
  delegate, in any history of the approval store.
\<close>

section \<open>The ladder\<close>

definition mentions :: "string list \<Rightarrow> policy_request \<Rightarrow> bool" where
  "mentions ms q = list_ex (\<lambda>m. py_in m (searched_text q)) ms"

lemma classify_cases:
  obtains (forbidden) level reason rule flags where "mentions (SENSITIVE_MARKERS @ BLOCKED_MARKERS) q"
      "classify q = risky (pq_action_type q) level True reason rule flags"
    | (human) level reason rule flags where "\<not> mentions (SENSITIVE_MARKERS @ BLOCKED_MARKERS) q" "mentions HUMAN_MARKERS q"
      "classify q = risky (pq_action_type q) level False reason rule flags"
    | (plain) "\<not> mentions (SENSITIVE_MARKERS @ BLOCKED_MARKERS) q" "\<not> mentions HUMAN_MARKERS q" "\<not> rc_blocked (classify q)"
      "rc_human_required (classify q) = (rc_tier (classify q) = T6_HUMAN_ONLY_RISKY_ACTION)"
proof (cases "mentions (SENSITIVE_MARKERS @ BLOCKED_MARKERS) q")
  case True
  then have "\<exists>level reason rule flags. classify q = risky (pq_action_type q) level True reason rule flags"
    unfolding classify_def Let_def mentions_def by (auto simp: list_ex_iff filter_empty_conv)
  with True forbidden show thesis by blast
next
  case False
  then have clean: "filter (\<lambda>m. py_in m (searched_text q)) SENSITIVE_MARKERS = []" "\<not> list_ex (\<lambda>m. py_in m (searched_text q)) BLOCKED_MARKERS"
    by (simp_all add: mentions_def list_ex_iff filter_empty_conv)
  show thesis
  proof (cases "mentions HUMAN_MARKERS q")
    case True
    then have "classify q = risky (pq_action_type q) RISK_HIGH False ''human_only_boundary'' ''human_required_marker'' []"
      using clean by (simp add: classify_def Let_def mentions_def)
    with human [OF False True] show thesis by blast
  next
    case no: False
    then have "\<not> rc_blocked (classify q)" "rc_human_required (classify q) = (rc_tier (classify q) = T6_HUMAN_ONLY_RISKY_ACTION)"
      using clean by (simp_all add: classify_def Let_def mentions_def)
    with plain [OF False no] show thesis by blast
  qed
qed

lemma risky_facts [simp]:
  "rc_tier (risky a l b r s f) = T6_HUMAN_ONLY_RISKY_ACTION" "rc_blocked (risky a l b r s f) = b" "rc_human_required (risky a l b r s f)"
  by (simp_all add: risky_def)

text \<open>What each profile answers for a request that is not blocked outright.\<close>

lemma decide_human:
  assumes "rc_tier c = T6_HUMAN_ONLY_RISKY_ACTION" "\<not> rc_blocked c"
  shows "decide (get_autonomy_profile name) c = (NEEDS_HUMAN_APPROVAL, True, True, False, False)"
  using assms by (simp add: decide_def get_autonomy_profile_def conservative_profile_def permissive_profile_def balanced_profile_def)

lemma decide_blocked: "rc_blocked c \<Longrightarrow> fst (decide p c) = POLICY_BLOCKED"
  by (simp add: decide_def)

lemma evaluate_parts:
  assumes "evaluate cfg q aid audit now fs = (r, fs')"
    and "decide (get_autonomy_profile (str_or (pq_autonomy_profile q) (autonomy_default_profile cfg))) (classify q) = (d, approval, human, chatgpt, refused)"
  shows "pr_decision r = d" "pr_human_required r = human" "pr_chatgpt_allowed r = chatgpt"
    "pr_blocked r = (rc_blocked (classify q) \<or> \<not> repo_allowed cfg q (rc_tier (classify q)) \<or> refused \<or> d = POLICY_BLOCKED)"
    "if approval \<and> \<not> (rc_blocked (classify q) \<or> \<not> repo_allowed cfg q (rc_tier (classify q)) \<or> refused)
     then pr_approval_request_id r = Some aid \<and> (\<exists>a. fs' = create_approval a fs \<and> ar_id a = aid \<and> ar_status a = APPROVAL_PENDING \<and>
       ar_tier a = rc_tier (classify q) \<and> ar_required_approver a = (if human then ''human'' else ''chatgpt''))
     else pr_approval_request_id r = None \<and> fs' = fs"
  using assms by (auto simp: evaluate_def Let_def)

text \<open>C36. What a request claims about itself cannot lower its risk. A request whose text mentions a secret or a destructive command is blocked and
  leaves no approval to be granted, and one that crosses a human-only boundary is never allowed and never delegated: it is blocked or waits for
  a human. This holds for every claimed tier, every profile and every configuration.\<close>

theorem risky_text_never_delegated:
  assumes "evaluate cfg q aid audit now fs = (r, fs')"
  shows "(mentions (SENSITIVE_MARKERS @ BLOCKED_MARKERS) q \<longrightarrow>
      pr_decision r = POLICY_BLOCKED \<and> pr_blocked r \<and> pr_approval_request_id r = None \<and> fs' = fs) \<and>
    (mentions HUMAN_MARKERS q \<longrightarrow> pr_decision r \<in> {POLICY_BLOCKED, NEEDS_HUMAN_APPROVAL} \<and> pr_human_required r \<and> \<not> pr_chatgpt_allowed r)"
proof -
  let ?name = "str_or (pq_autonomy_profile q) (autonomy_default_profile cfg)"
  obtain d approval human chatgpt refused where dec: "decide (get_autonomy_profile ?name) (classify q) = (d, approval, human, chatgpt, refused)"
    by (metis prod.exhaust)
  note p = evaluate_parts [OF assms dec]
  show ?thesis
  proof (cases rule: classify_cases [of q])
    case (forbidden level reason rule flags)
    then have "d = POLICY_BLOCKED" "human" "\<not> chatgpt" using dec by (auto simp: decide_def split: if_splits)
    with p forbidden show ?thesis by auto
  next
    case (human level reason rule flags)
    then have "decide (get_autonomy_profile ?name) (classify q) = (NEEDS_HUMAN_APPROVAL, True, True, False, False)"
      using decide_human [of "classify q"] by simp
    with dec p human show ?thesis by auto
  next
    case plain
    then show ?thesis by simp
  qed
qed

fun strictness :: "policy_decision \<Rightarrow> nat" where
  "strictness ALLOWED = 0"
| "strictness ALLOWED_WITH_CHATGPT_DELEGATED_APPROVAL = 1"
| "strictness NEEDS_CHATGPT_APPROVAL = 2"
| "strictness NEEDS_HUMAN_APPROVAL = 3"
| "strictness POLICY_BLOCKED = 4"
| "strictness POLICY_DENIED = 4"
| "strictness POLICY_UNKNOWN = 4"

text \<open>The profiles are ordered. For the same request under the same configuration, \<open>permissive\<close> never answers more strictly than
  \<open>balanced\<close>, nor \<open>balanced\<close> more strictly than \<open>conservative\<close>; an unknown profile name is treated as \<open>balanced\<close>, never as anything
  weaker; and no profile allows a request of the human-only tier.\<close>

theorem profiles_ordered:
  assumes "name \<noteq> ''conservative''" "name \<noteq> ''permissive''" "name \<noteq> []"
  shows "let ask = (\<lambda>p. pr_decision (fst (evaluate cfg (q\<lparr>pq_autonomy_profile := p\<rparr>) aid audit now fs))) in
    strictness (ask ''permissive'') \<le> strictness (ask ''balanced'') \<and> strictness (ask ''balanced'') \<le> strictness (ask ''conservative'') \<and>
    ask name = ask ''balanced'' \<and>
    (rc_tier (classify q) = T6_HUMAN_ONLY_RISKY_ACTION \<longrightarrow> strictness (ask ''permissive'') \<ge> 3)"
proof -
  have c: "classify (q\<lparr>pq_autonomy_profile := p\<rparr>) = classify q" for p by (simp add: classify_def searched_text_def Let_def cong: if_cong option.case_cong)
  have ask: "pr_decision (fst (evaluate cfg (q\<lparr>pq_autonomy_profile := p\<rparr>) aid audit now fs)) = fst (decide (get_autonomy_profile p) (classify q))"
    if "p \<noteq> []" for p
  proof -
    let ?q = "q\<lparr>pq_autonomy_profile := p\<rparr>"
    obtain r fs' where e: "evaluate cfg ?q aid audit now fs = (r, fs')" by fastforce
    obtain d rest where d: "decide (get_autonomy_profile p) (classify q) = (d, rest)"
      by (cases "decide (get_autonomy_profile p) (classify q)")
    then have "decide (get_autonomy_profile (str_or (pq_autonomy_profile ?q) (autonomy_default_profile cfg))) (classify ?q) = (d, rest)"
      using that by (simp add: c str_or_def)
    with evaluate_parts(1) [OF e, of d] e d show ?thesis by (cases rest) auto
  qed
  have "get_autonomy_profile name = balanced_profile" using assms by (simp add: get_autonomy_profile_def)
  moreover have "get_autonomy_profile ''balanced'' = balanced_profile" "get_autonomy_profile ''permissive'' = permissive_profile"
    "get_autonomy_profile ''conservative'' = conservative_profile" by (simp_all add: get_autonomy_profile_def)
  ultimately show ?thesis
    unfolding Let_def using ask assms(3)
    by (cases "rc_blocked (classify q)"; cases "rc_tier (classify q)")
      (simp_all add: decide_def balanced_profile_def permissive_profile_def conservative_profile_def)
qed

section \<open>Histories of the approval store\<close>

inductive approval_step :: "approvals \<Rightarrow> approvals \<Rightarrow> bool" where
  evaluate: "approval_step fs (snd (evaluate cfg q aid audit now fs))"
| decision: "approval_step fs (snd (record_decision i decided_by approved notes now fs))"
| expire: "approval_step fs (snd (expire_stale now fs))"

text \<open>A human-only record is approved only by somebody other than the delegate, and the human-only tier always asks for a human.\<close>

definition record_ok :: "approval_request \<Rightarrow> bool" where
  "record_ok r = ((ar_required_approver r = ''human'' \<and> ar_status r = APPROVAL_APPROVED \<longrightarrow> ar_decided_by r \<noteq> Some ''chatgpt'') \<and>
     (ar_tier r = T6_HUMAN_ONLY_RISKY_ACTION \<longrightarrow> ar_required_approver r = ''human''))"

definition store_ok :: "approvals \<Rightarrow> bool" where
  "store_ok fs = (\<forall>f \<in> set fs. record_ok (snd f))"

lemma write_file_set: "set (write_file p r fs) \<subseteq> insert (p, r) (set fs)"
  by (induction fs) (auto split: if_splits)

lemma create_ok: "record_ok r \<Longrightarrow> store_ok fs \<Longrightarrow> store_ok (create_approval r fs)"
  using write_file_set [of "approval_path (ar_id r)" r fs] by (auto simp: store_ok_def create_approval_def)

lemma get_ok: "get_approval i fs = Inr r \<Longrightarrow> store_ok fs \<Longrightarrow> record_ok r"
  by (auto simp: get_approval_def store_ok_def split: option.splits dest!: map_of_SomeD)

lemma expire_ok:
  assumes "store_ok fs" "\<forall>r \<in> set rs. record_ok r"
  shows "store_ok (fold (\<lambda>r acc. create_approval (expired now r) acc) rs fs)"
  using assms
proof (induction rs arbitrary: fs)
  case (Cons r rs)
  have "record_ok (expired now r)" using Cons.prems(2) by (simp add: record_ok_def expired_def)
  then show ?case using Cons create_ok [of "expired now r" fs] by simp
qed simp

lemma evaluate_ok:
  assumes "store_ok fs" "evaluate cfg q aid audit now fs = (r, fs')"
  shows "store_ok fs'"
proof -
  let ?p = "get_autonomy_profile (str_or (pq_autonomy_profile q) (autonomy_default_profile cfg))"
  obtain d approval human chatgpt refused where dec: "decide ?p (classify q) = (d, approval, human, chatgpt, refused)" by (metis prod.exhaust)
  have "rc_tier (classify q) = T6_HUMAN_ONLY_RISKY_ACTION \<Longrightarrow> human" using dec by (auto simp: decide_def Let_def split: if_splits)
  then have "record_ok a" if "ar_status a = APPROVAL_PENDING" "ar_tier a = rc_tier (classify q)" "ar_required_approver a = (if human then ''human'' else ''chatgpt'')" for a
    using that by (auto simp: record_ok_def)
  then show ?thesis using evaluate_parts(5) [OF assms(2) dec] assms(1) create_ok by (auto split: if_splits)
qed

lemma approval_step_ok: "approval_step fs fs' \<Longrightarrow> store_ok fs \<Longrightarrow> store_ok fs'"
proof (induction rule: approval_step.induct)
  case (evaluate fs cfg q aid audit now)
  then show ?case using evaluate_ok by (metis prod.collapse)
next
  case (decision fs i decided_by approved remark now)
  have "record_ok (decided approved decided_by remark now r)"
    if "get_approval i fs = Inr r" "\<not> (ar_required_approver r = ''human'' \<and> decided_by = ''chatgpt'' \<and> approved)" for r
    using get_ok [OF that(1) decision] that(2) by (auto simp: record_ok_def decided_def)
  then show ?case using decision create_ok by (auto simp: record_decision_def Let_def split: sum.splits)
next
  case (expire fs now)
  have "\<forall>r \<in> set (list_pending fs). record_ok r" using expire by (auto simp: list_pending_def list_all_approvals_def store_ok_def)
  then show ?case using expire_ok [OF expire] by (simp add: expire_stale_def)
qed

text \<open>C37. A decision reserved for a human is never taken by the delegate. In every store that evaluations, decisions and expiry can produce from an
  empty one, an approved request that requires a human was decided by somebody other than \<open>chatgpt\<close>, every request of the human-only tier
  requires a human, and an attempt of the delegate to approve such a request fails and leaves the store as it was.\<close>

theorem human_approval_reserved:
  assumes "approval_step\<^sup>*\<^sup>* [] fs" "get_approval i fs = Inr r"
  shows "(ar_tier r = T6_HUMAN_ONLY_RISKY_ACTION \<longrightarrow> ar_required_approver r = ''human'') \<and>
    (ar_required_approver r = ''human'' \<longrightarrow> (ar_status r = APPROVAL_APPROVED \<longrightarrow> ar_decided_by r \<noteq> Some ''chatgpt'') \<and>
      record_decision i ''chatgpt'' True notes now fs =
        (Inl (PermissionError ''ChatGPT cannot approve human-only approval requests''), fs))"
proof -
  have "store_ok []" by (simp add: store_ok_def)
  with assms(1) have "store_ok fs" by (induction rule: rtranclp_induct) (auto intro: approval_step_ok)
  from get_ok [OF assms(2) this] assms(2) show ?thesis by (auto simp: record_ok_def record_decision_def)
qed

section \<open>Witnesses\<close>

definition sample_policy_request :: policy_request where
  "sample_policy_request = \<lparr>pq_request_id = ''r1'', pq_action = ''Push to MAIN'', pq_action_type = ''git'', pq_repo_name = Some ''repo'',
     pq_repo_path = None, pq_requested_by = ''chatgpt'', pq_autonomy_profile = ''permissive'', pq_permission_tier = Tier T0_READ_ONLY,
     pq_metadata = [(''n'', JInt 1)]\<rparr>"

definition sample_policy_config :: autonomy_config where
  "sample_policy_config = \<lparr>autonomy_default_profile = ''balanced'', autonomy_whitelisted_repos = []\<rparr>"

definition sample_approvals :: approvals where
  "sample_approvals = snd (evaluate sample_policy_config sample_policy_request ''a/1'' ''audit'' ''t0'' [])"

theorem risky_text_never_delegated_witness:
  "pr_decision (fst (evaluate sample_policy_config sample_policy_request ''a/1'' ''audit'' ''t0'' [])) \<in> {POLICY_BLOCKED, NEEDS_HUMAN_APPROVAL}"
proof -
  have "mentions HUMAN_MARKERS sample_policy_request" by code_simp
  then show ?thesis
    using risky_text_never_delegated [of sample_policy_config sample_policy_request "''a/1''" "''audit''" "''t0''" "[]"] by (metis prod.collapse)
qed

theorem profiles_ordered_witness:
  "pr_decision (fst (evaluate sample_policy_config (sample_policy_request\<lparr>pq_autonomy_profile := ''reckless''\<rparr>) ''a/1'' ''audit'' ''t0'' [])) =
   pr_decision (fst (evaluate sample_policy_config (sample_policy_request\<lparr>pq_autonomy_profile := ''balanced''\<rparr>) ''a/1'' ''audit'' ''t0'' []))"
  using profiles_ordered [of "''reckless''" sample_policy_config sample_policy_request "''a/1''" "''audit''" "''t0''" "[]"] by (simp add: Let_def)

theorem human_approval_reserved_witness:
  "fst (record_decision ''a_1'' ''chatgpt'' True [] ''t1'' sample_approvals) = Inl (PermissionError ''ChatGPT cannot approve human-only approval requests'')"
proof -
  have "case get_approval ''a_1'' sample_approvals of Inr r \<Rightarrow> ar_required_approver r = ''human'' | Inl _ \<Rightarrow> False" by code_simp
  then obtain r where r: "get_approval ''a_1'' sample_approvals = Inr r" "ar_required_approver r = ''human''" by (auto split: sum.splits)
  have "approval_step\<^sup>*\<^sup>* [] sample_approvals" unfolding sample_approvals_def by (rule r_into_rtranclp) (rule approval_step.evaluate)
  from human_approval_reserved [OF this r(1)] r(2) show ?thesis by simp
qed

end
