(* ===== verification/Payload_Chunks.thy ===== *)
theory Payload_Chunks
  imports Soma_Prelude
begin

text \<open>
  Splitting of a payload into files and its verified reassembly, \<open>src/soma/payload_chunks.py\<close>. Bytes are characters. SHA-256 is the
  argument \<open>digest\<close>, the reader of a file is the argument \<open>read\<close>. A descriptor is read back from JSON, so an entry of its chunk list may
  be anything: \<open>Bad_entry\<close> is one that is not a dictionary, and the entries of a dictionary may be missing.
\<close>

type_synonym bytes = string

definition PAYLOAD_CHUNK_BYTES :: nat where
  "PAYLOAD_CHUNK_BYTES = 256 * 1024"

definition payload_file_name :: "nat \<Rightarrow> string" where
  "payload_file_name index = ''payload_'' @ nat_digits index @ ''.bin''"

text \<open>\<open>{chunk_index:04d}\<close>\<close>

definition pad4 :: "nat \<Rightarrow> string" where
  "pad4 n = replicate (4 - length (nat_digits n)) (CHR ''0'') @ nat_digits n"

definition payload_chunk_file_name :: "nat \<Rightarrow> nat \<Rightarrow> string" where
  "payload_chunk_file_name index chunk_index = ''payload_'' @ nat_digits index @ ''.part_'' @ pad4 chunk_index @ ''.bin''"

datatype chunk_entry = Bad_entry | Chunk "string option" "string option" "int option"

record payload_descriptor =
  pd_file :: string
  pd_chunks :: "chunk_entry list"
  pd_sha256 :: string
  pd_size_bytes :: "int option"

section \<open>Splitting\<close>

text \<open>\<open>enumerate(range(0, len(data), PAYLOAD_CHUNK_BYTES))\<close>\<close>

definition chunk_count :: "bytes \<Rightarrow> nat" where
  "chunk_count data = (length data + PAYLOAD_CHUNK_BYTES - 1) div PAYLOAD_CHUNK_BYTES"

definition chunk_at :: "bytes \<Rightarrow> nat \<Rightarrow> bytes" where
  "chunk_at data i = take PAYLOAD_CHUNK_BYTES (drop (i * PAYLOAD_CHUNK_BYTES) data)"

definition build_payload_parts :: "(bytes \<Rightarrow> string) \<Rightarrow> nat \<Rightarrow> bytes \<Rightarrow> payload_descriptor \<times> (string \<times> bytes) list" where
  "build_payload_parts digest index data =
     (let base = \<lparr>pd_file = [], pd_chunks = [], pd_sha256 = digest data, pd_size_bytes = Some (int (length data))\<rparr> in
      if length data \<le> PAYLOAD_CHUNK_BYTES
      then (base\<lparr>pd_file := payload_file_name index\<rparr>, [(payload_file_name index, data)])
      else
        let parts = map (\<lambda>i. (payload_chunk_file_name index i, chunk_at data i)) [0..<chunk_count data] in
        (base\<lparr>pd_chunks := map (\<lambda>(name, c). Chunk (Some name) (Some (digest c)) (Some (int (length c)))) parts\<rparr>, parts))"

section \<open>Reassembly\<close>

type_synonym reader = "string \<Rightarrow> string \<Rightarrow> py_error + bytes"

text \<open>One entry of the list: its file must be the expected one, in order, with the recorded size and hash.\<close>

definition read_chunk :: "(bytes \<Rightarrow> string) \<Rightarrow> reader \<Rightarrow> nat \<Rightarrow> nat \<Rightarrow> chunk_entry \<Rightarrow> py_error + bytes" where
  "read_chunk digest read index i entry =
     (case entry of
        Bad_entry \<Rightarrow> Inl (ValueError ''Invalid payload chunk metadata'')
      | Chunk file sha sz \<Rightarrow>
          let filename = (case file of None \<Rightarrow> [] | Some f \<Rightarrow> f); expected = payload_chunk_file_name index i in
          if filename \<noteq> expected then Inl (ValueError ''Payload chunk order or filename mismatch'')
          else (case read filename expected of
                  Inl e \<Rightarrow> Inl e
                | Inr data \<Rightarrow>
                    if int (length data) \<noteq> (case sz of None \<Rightarrow> - 1 | Some n \<Rightarrow> n) then Inl (ValueError ''Payload chunk size mismatch'')
                    else if digest data \<noteq> (case sha of None \<Rightarrow> [] | Some s \<Rightarrow> s) then Inl (ValueError ''Payload chunk hash mismatch'')
                    else Inr data))"

fun read_chunks :: "(bytes \<Rightarrow> string) \<Rightarrow> reader \<Rightarrow> nat \<Rightarrow> nat \<Rightarrow> chunk_entry list \<Rightarrow> bytes \<Rightarrow> py_error + bytes" where
  "read_chunks digest read index i [] output = Inr output"
| "read_chunks digest read index i (c # cs) output =
     (case read_chunk digest read index i c of
        Inl e \<Rightarrow> Inl e | Inr data \<Rightarrow> read_chunks digest read index (i + 1) cs (output @ data))"

definition assemble_payload :: "(bytes \<Rightarrow> string) \<Rightarrow> reader \<Rightarrow> nat \<Rightarrow> payload_descriptor \<Rightarrow> py_error + bytes" where
  "assemble_payload digest read index d =
     (case (if pd_chunks d \<noteq> [] then read_chunks digest read index 0 (pd_chunks d) []
            else if pd_file d = [] then Inl (ValueError ''Missing payload file metadata'')
            else if pd_file d \<noteq> payload_file_name index then Inl (ValueError ''Payload filename mismatch'')
            else read (pd_file d) (payload_file_name index)) of
        Inl e \<Rightarrow> Inl e
      | Inr payload \<Rightarrow>
          if pd_sha256 d = [] \<or> digest payload \<noteq> pd_sha256 d then Inl (ValueError ''Payload hash mismatch'')
          else if (case pd_size_bytes d of None \<Rightarrow> False | Some n \<Rightarrow> int (length payload) \<noteq> n) then Inl (ValueError ''Payload size mismatch'')
          else Inr payload)"

section \<open>Names\<close>

definition digits_value :: "string \<Rightarrow> nat" where
  "digits_value s = foldl (\<lambda>a c. 10 * a + (of_char c - 48)) 0 s"

lemma digits_value_append: "foldl (\<lambda>a c. 10 * a + (of_char c - 48)) n s = n * 10 ^ length s + digits_value s" for n :: nat
  unfolding digits_value_def
proof (induction s rule: rev_induct)
  case (snoc c s)
  then show ?case by (simp add: algebra_simps)
qed simp

lemma digit_char_value: "d < 10 \<Longrightarrow> (of_char (digit_char d) :: nat) - 48 = d"
  by (simp add: digit_char_def)

lemma digits_value_nat [simp]: "digits_value (nat_digits n) = n"
proof (induction n rule: nat_digits.induct)
  case (1 n)
  show ?case
  proof (cases "n < 10")
    case True
    then show ?thesis by (simp add: nat_digits.simps [of n] digits_value_def digit_char_value)
  next
    case False
    have "digits_value (nat_digits n) = 10 * digits_value (nat_digits (n div 10)) + n mod 10"
      using False digit_char_value [of "n mod 10"] by (simp add: nat_digits.simps [of n] digits_value_def)
    then show ?thesis using 1 False by simp
  qed
qed

lemma digits_value_zeros: "digits_value (replicate k (CHR ''0'') @ s) = digits_value s"
proof -
  have "foldl (\<lambda>a c. 10 * a + (of_char c - 48)) 0 (replicate k (CHR ''0'')) = (0::nat)" by (induction k) simp_all
  then show ?thesis by (simp add: digits_value_def)
qed

lemma pad4_inj: "pad4 i = pad4 j \<longleftrightarrow> i = j"
  using digits_value_zeros [of _ "nat_digits i"] digits_value_zeros [of _ "nat_digits j"] unfolding pad4_def by (metis digits_value_nat)

lemma chunk_name_inj: "payload_chunk_file_name index i = payload_chunk_file_name index j \<longleftrightarrow> i = j"
  by (simp add: payload_chunk_file_name_def pad4_inj)

section \<open>Chunks\<close>

lemma chunk_bytes_pos: "PAYLOAD_CHUNK_BYTES > 0"
  by (simp add: PAYLOAD_CHUNK_BYTES_def)

lemma chunks_concat: "concat (map (chunk_at data) [0..<k]) = take (k * PAYLOAD_CHUNK_BYTES) data"
proof (induction k)
  case (Suc k)
  then show ?case by (simp add: chunk_at_def take_add [symmetric] add.commute)
qed simp

lemma chunk_count_covers: "length data \<le> chunk_count data * PAYLOAD_CHUNK_BYTES"
proof -
  have "length data + PAYLOAD_CHUNK_BYTES - 1 < (chunk_count data + 1) * PAYLOAD_CHUNK_BYTES"
    unfolding chunk_count_def using chunk_bytes_pos by (metis Suc_eq_plus1 dividend_less_div_times mult.commute mult_Suc)
  then show ?thesis using chunk_bytes_pos by simp
qed

text \<open>The files as they were written, before any other files.\<close>

definition read_parts :: "(string \<times> bytes) list \<Rightarrow> reader" where
  "read_parts files f expected = (case map_of files f of None \<Rightarrow> Inl (KeyError f) | Some b \<Rightarrow> Inr b)"

lemma read_chunks_parts:
  assumes "\<And>j. i \<le> j \<Longrightarrow> j < n \<Longrightarrow> read (payload_chunk_file_name index j) (payload_chunk_file_name index j) = Inr (chunk_at data j)" "i \<le> n"
  shows "read_chunks digest read index i
      (map (\<lambda>j. Chunk (Some (payload_chunk_file_name index j)) (Some (digest (chunk_at data j))) (Some (int (length (chunk_at data j))))) [i..<n]) out =
    Inr (out @ concat (map (chunk_at data) [i..<n]))"
  using assms
proof (induction "n - i" arbitrary: i out)
  case (Suc m)
  then have "i < n" by simp
  moreover have "m = n - (i + 1)" using Suc.hyps(2) by simp
  moreover have "read_chunk digest read index i (Chunk (Some (payload_chunk_file_name index i)) (Some (digest (chunk_at data i)))
      (Some (int (length (chunk_at data i))))) = Inr (chunk_at data i)"
    using Suc.prems(1) [of i] \<open>i < n\<close> by (simp add: read_chunk_def)
  ultimately show ?case using Suc.hyps(1) [of "i + 1" "out @ chunk_at data i"] Suc.prems(1) by (simp add: upt_conv_Cons)
qed simp

text \<open>C38. Splitting and reassembly are inverse. For every payload, of any size up to and beyond the chunk limit, the files that were written,
  read back from among any other files, are reassembled to exactly that payload; each file is at most one chunk long.\<close>

theorem payload_roundtrip:
  "case build_payload_parts digest index data of (d, parts) \<Rightarrow>
     (digest data \<noteq> [] \<longrightarrow> assemble_payload digest (read_parts (parts @ others)) index d = Inr data) \<and>
     list_all (\<lambda>(name, b). length b \<le> PAYLOAD_CHUNK_BYTES) parts"
proof (cases "length data \<le> PAYLOAD_CHUNK_BYTES")
  case True
  moreover have "payload_file_name index \<noteq> []" by (simp add: payload_file_name_def)
  ultimately show ?thesis by (auto simp: build_payload_parts_def assemble_payload_def read_parts_def)
next
  case False
  let ?n = "chunk_count data"
  let ?parts = "map (\<lambda>i. (payload_chunk_file_name index i, chunk_at data i)) [0..<?n]"
  let ?chunks = "map (\<lambda>j. Chunk (Some (payload_chunk_file_name index j)) (Some (digest (chunk_at data j))) (Some (int (length (chunk_at data j))))) [0..<?n]"
  have d: "build_payload_parts digest index data =
      (\<lparr>pd_file = [], pd_chunks = ?chunks, pd_sha256 = digest data, pd_size_bytes = Some (int (length data))\<rparr>, ?parts)"
    using False by (simp add: build_payload_parts_def Let_def comp_def)
  have "distinct (map fst ?parts)" by (auto simp: comp_def distinct_map inj_on_def chunk_name_inj)
  then have "map_of (?parts @ others) (payload_chunk_file_name index j) = Some (chunk_at data j)" if "j < ?n" for j
    using that map_of_is_SomeI [of ?parts "payload_chunk_file_name index j" "chunk_at data j"] by (force simp: map_add_Some_iff)
  then have "read_chunks digest (read_parts (?parts @ others)) index 0 ?chunks [] = Inr (concat (map (chunk_at data) [0..<?n]))"
    using read_chunks_parts [of 0 ?n "read_parts (?parts @ others)" index data digest "[]"] by (simp add: read_parts_def)
  moreover have "concat (map (chunk_at data) [0..<?n]) = data" using chunks_concat [of data ?n] chunk_count_covers [of data] by simp
  moreover have "?n \<noteq> 0" using chunk_count_covers [of data] False by (metis le_0_eq length_0_conv list.size(3) mult_0 zero_le)
  ultimately show ?thesis unfolding d by (auto simp: assemble_payload_def list_all_iff chunk_at_def)
qed

text \<open>Tampering is detected. Whatever the reader returns, and whatever the files have become, a payload is only ever handed out with the recorded
  hash and size; so, unless it collides with the original under the hash, it is the original. Every other case is an error.\<close>

theorem payload_tamper_evident:
  assumes "assemble_payload digest read index (fst (build_payload_parts digest index data)) = Inr p"
    and "digest p = digest data \<and> length p = length data \<Longrightarrow> p = data"
  shows "p = data \<and> digest data \<noteq> []"
proof -
  let ?d = "fst (build_payload_parts digest index data)"
  have d: "pd_sha256 ?d = digest data" "pd_size_bytes ?d = Some (int (length data))" by (simp_all add: build_payload_parts_def Let_def)
  have "digest data \<noteq> [] \<and> digest p = digest data \<and> length p = length data"
    using assms(1) unfolding assemble_payload_def d by (auto split: sum.splits if_splits)
  then show ?thesis using assms(2) by blast
qed

section \<open>Witnesses\<close>

text \<open>A stand-in for the hash that has no collisions.\<close>

definition mark :: "bytes \<Rightarrow> string" where
  "mark b = CHR ''#'' # b"

lemma small_name: "payload_file_name 3 = ''payload_3.bin''"
  by code_simp

lemma small_parts:
  "build_payload_parts mark 3 ''abc'' = (\<lparr>pd_file = ''payload_3.bin'', pd_chunks = [], pd_sha256 = ''#abc'', pd_size_bytes = Some 3\<rparr>, [(''payload_3.bin'', ''abc'')])"
  by (simp add: build_payload_parts_def PAYLOAD_CHUNK_BYTES_def small_name mark_def)

theorem payload_tamper_evident_witness:
  "assemble_payload mark (read_parts [(''payload_3.bin'', ''abc'')]) 3 (fst (build_payload_parts mark 3 ''abc'')) = Inr ''abc'' \<and>
   assemble_payload mark (read_parts [(''payload_3.bin'', ''abd'')]) 3 (fst (build_payload_parts mark 3 ''abc'')) \<noteq> Inr ''abd''"
proof -
  have "assemble_payload mark (read_parts [(''payload_3.bin'', ''abc'')]) 3 (fst (build_payload_parts mark 3 ''abc'')) = Inr ''abc''"
    by (simp add: small_parts assemble_payload_def small_name read_parts_def mark_def)
  moreover have False if "assemble_payload mark (read_parts [(''payload_3.bin'', ''abd'')]) 3 (fst (build_payload_parts mark 3 ''abc'')) = Inr ''abd''"
    using payload_tamper_evident [OF that] by (simp add: mark_def)
  ultimately show ?thesis by blast
qed

theorem payload_roundtrip_witness:
  "assemble_payload mark (read_parts (snd (build_payload_parts mark 3 ''abc'') @ [(''payload_3.bin'', ''zzz'')])) 3
     (fst (build_payload_parts mark 3 ''abc'')) = Inr ''abc''"
proof -
  have "mark ''abc'' \<noteq> []" by (simp add: mark_def)
  then show ?thesis
    using payload_roundtrip [where digest = mark and index = 3 and data = "''abc''" and others = "[(''payload_3.bin'', ''zzz'')]"]
    by (simp split: prod.splits)
qed

end
