(* ===== verification/Redaction.thy ===== *)
theory Redaction
  imports Soma_Prelude
begin

text \<open>
  Redaction of secrets and the bound on stored texts: \<open>redact_secret_values\<close> of \<open>src/soma/safety.py\<close> and \<open>truncate_text\<close> and
  \<open>redact_and_truncate\<close> of \<open>src/soma/events.py\<close>. Every event and every text artifact of a run passes through them. The two patterns have one match
  at most at a position, found from left to right, so a match is a function from the rest of the text to the name it captures and to what
  follows the match. Texts are ASCII.
\<close>

section \<open>The two patterns\<close>

datatype secret_pattern = Assignment | Bearer_token

text \<open>A literal without regard to case: what was read, and the rest.\<close>

definition read_literal :: "string \<Rightarrow> string \<Rightarrow> (string \<times> string) option" where
  "read_literal t s = (if lower (take (length t) s) = t then Some (take (length t) s, drop (length t) s) else None)"

text \<open>\<open>api[_-]?key\<close>\<close>

definition api_key :: "string \<Rightarrow> (string \<times> string) option" where
  "api_key s =
     (case read_literal ''api'' s of None \<Rightarrow> None | Some (a, r) \<Rightarrow>
      let sep = (if r \<noteq> [] \<and> hd r \<in> {CHR ''_'', CHR ''-''} then [hd r] else []) in
      (case read_literal ''key'' (drop (length sep) r) of None \<Rightarrow> None | Some (k, rest) \<Rightarrow> Some (a @ sep @ k, rest)))"

fun first_some :: "('a \<Rightarrow> 'b option) list \<Rightarrow> 'a \<Rightarrow> 'b option" where
  "first_some [] x = None"
| "first_some (f # fs) x = (case f x of None \<Rightarrow> first_some fs x | Some y \<Rightarrow> Some y)"

definition secret_name :: "string \<Rightarrow> (string \<times> string) option" where
  "secret_name = first_some [api_key, read_literal ''token'', read_literal ''secret'', read_literal ''password'', read_literal ''credential'']"

definition quote_char :: "char \<Rightarrow> bool" where
  "quote_char c = (c \<in> {CHR 0x27, CHR 0x22})"

definition value_char :: "char \<Rightarrow> bool" where
  "value_char c = (\<not> quote_char c \<and> \<not> is_space c)"

definition bearer_char :: "char \<Rightarrow> bool" where
  "bearer_char c = (is_digit c \<or> is_lower_alpha (lower_char c) \<or> c \<in> {CHR ''.'', CHR ''_'', CHR ''-''})"

text \<open>At least one character of a class, as many as there are; the rest.\<close>

definition run_of :: "(char \<Rightarrow> bool) \<Rightarrow> string \<Rightarrow> string option" where
  "run_of P s = (if s \<noteq> [] \<and> P (hd s) then Some (dropWhile P s) else None)"

text \<open>What follows a name: spaces, \<open>:\<close> or \<open>=\<close>, spaces, perhaps a quote, and the value.\<close>

definition assigned :: "string \<Rightarrow> string option" where
  "assigned s =
     (case dropWhile is_space s of
        [] \<Rightarrow> None
      | c # r \<Rightarrow>
          if c \<notin> {CHR '':'', CHR ''=''} then None
          else let v = dropWhile is_space r in run_of value_char (if v \<noteq> [] \<and> quote_char (hd v) then tl v else v))"

fun match_secret :: "secret_pattern \<Rightarrow> string \<Rightarrow> (string \<times> string) option" where
  "match_secret Assignment s =
     (case secret_name s of None \<Rightarrow> None | Some (name, r) \<Rightarrow> (case assigned r of None \<Rightarrow> None | Some rest \<Rightarrow> Some (name, rest)))"
| "match_secret Bearer_token s =
     (case read_literal ''bearer'' s of None \<Rightarrow> None | Some (name, r) \<Rightarrow>
      (case run_of is_space r of None \<Rightarrow> None | Some v \<Rightarrow> (case run_of bearer_char v of None \<Rightarrow> None | Some rest \<Rightarrow> Some (name, rest))))"

section \<open>Every match is shorter\<close>

lemma read_literal_parts: "read_literal t s = Some (a, r) \<Longrightarrow> s = a @ r \<and> lower a = t"
  by (auto simp: read_literal_def split: if_splits) (metis append_take_drop_id)

lemma read_literal_length: "read_literal t s = Some (a, r) \<Longrightarrow> length a = length t"
  using read_literal_parts [of t s a r] by (auto simp: lower_def)

lemma api_key_parts: "api_key s = Some (a, r) \<Longrightarrow> s = a @ r \<and> a \<noteq> []"
  by (auto simp: api_key_def Let_def split: option.splits if_splits dest!: read_literal_parts simp: lower_def neq_Nil_conv)

lemma secret_name_parts: "secret_name s = Some (a, r) \<Longrightarrow> s = a @ r \<and> a \<noteq> []"
  by (auto simp: secret_name_def split: option.splits dest: api_key_parts read_literal_parts simp: lower_def)

lemma run_of_shorter: "run_of P s = Some r \<Longrightarrow> length r < length s"
  by (cases s) (auto simp: run_of_def le_imp_less_Suc length_dropWhile_le split: if_splits)

lemma assigned_shorter: "assigned s = Some r \<Longrightarrow> length r < length s"
proof -
  assume a: "assigned s = Some r"
  then obtain c u where s: "dropWhile is_space s = c # u" by (auto simp: assigned_def split: list.splits)
  let ?v = "dropWhile is_space u"
  have "run_of value_char (if ?v \<noteq> [] \<and> quote_char (hd ?v) then tl ?v else ?v) = Some r"
    using a s unfolding assigned_def Let_def by (simp only: list.case) (metis option.distinct(1))
  from run_of_shorter [OF this] have "length r < length ?v \<or> length r < length (tl ?v)" by (simp split: if_splits)
  moreover have "length ?v \<le> length u" "length (dropWhile is_space s) \<le> length s" by (rule length_dropWhile_le)+
  ultimately show ?thesis using s by auto
qed

lemma match_shorter: "match_secret p s = Some (name, rest) \<Longrightarrow> length rest < length s"
proof (cases p)
  case Assignment
  assume m: "match_secret p s = Some (name, rest)"
  then obtain r where r: "secret_name s = Some (name, r)" "assigned r = Some rest" using Assignment by (auto split: option.splits)
  from secret_name_parts [OF r(1)] assigned_shorter [OF r(2)] show ?thesis by auto
next
  case Bearer_token
  assume m: "match_secret p s = Some (name, rest)"
  then obtain r v where r: "read_literal ''bearer'' s = Some (name, r)" "run_of is_space r = Some v" "run_of bearer_char v = Some rest"
    using Bearer_token by (auto split: option.splits)
  from read_literal_parts [OF r(1)] run_of_shorter [OF r(2)] run_of_shorter [OF r(3)] show ?thesis by auto
qed

section \<open>Redaction\<close>

text \<open>\<open>pattern.sub\<close>: a match is replaced by the name it captures and the mark.\<close>

definition redaction_mark :: string where
  "redaction_mark = ''=[REDACTED]''"

function redact_matches :: "secret_pattern \<Rightarrow> string \<Rightarrow> string" where
  "redact_matches p [] = []"
| "redact_matches p (c # s) =
     (case match_secret p (c # s) of
        None \<Rightarrow> c # redact_matches p s
      | Some (name, rest) \<Rightarrow> name @ redaction_mark @ redact_matches p rest)"
  by pat_completeness auto

termination
  by (relation "measure (\<lambda>(_, s). length s)") (use match_shorter in fastforce)+

definition redact_secret_values :: "string \<Rightarrow> string" where
  "redact_secret_values s = redact_matches Bearer_token (redact_matches Assignment s)"

definition MAX_TEXT_LENGTH :: int where
  "MAX_TEXT_LENGTH = 20000"

definition truncate_text :: "string \<Rightarrow> string" where
  "truncate_text s =
     (if int (length s) \<le> MAX_TEXT_LENGTH then s
      else take (nat MAX_TEXT_LENGTH) s @ [CHR 0x0A] @ ''[truncated '' @ py_str_int (int (length s) - MAX_TEXT_LENGTH) @ '' characters]'')"

fun redact_and_truncate :: "json \<Rightarrow> json" and redact_item :: "string \<times> json \<Rightarrow> string \<times> json" where
  "redact_and_truncate (JStr s) = JStr (truncate_text (redact_secret_values s))"
| "redact_and_truncate (JArr xs) = JArr (map redact_and_truncate xs)"
| "redact_and_truncate (JObj d) = JObj (map redact_item d)"
| "redact_and_truncate j = j"
| "redact_item (k, v) = (k, redact_and_truncate v)"

definition redact_text :: "string \<Rightarrow> string" where
  "redact_text s = truncate_text (redact_secret_values s)"

definition redact_data :: "(string \<times> json) list \<Rightarrow> (string \<times> json) list" where
  "redact_data d = map redact_item d"

end
