(* ===== verification/Job_Worker.thy ===== *)
theory Job_Worker
  imports Run_Launch Redaction
begin

text \<open>
  The process that carries out a run: \<open>JobWorker\<close> and \<open>main\<close> of \<open>src/soma/job_worker.py\<close>, and what the job manager does when a child of a group
  ends (\<open>enforce_powershell_group_failure_policy\<close>). The worker claims the run and the lock, beats beside the work, carries out the tool of the
  run, stores the result under its lease, publishes it and gives the lock back. The tool is an argument: it maps the run and the time it
  started to a result document, working on the node it is given. Documents carry their exit code as an integer or null and the
  times as text.
\<close>

section \<open>The worker\<close>

record worker_world =
  ww_job :: job_env
  ww_elapsed :: "nat \<Rightarrow> pyfloat"
  ww_duration :: "string \<Rightarrow> string \<Rightarrow> pyfloat"

record job_worker =
  jw_run :: run_row
  jw_token :: string
  jw_generation :: int
  jw_locked :: bool

type_synonym 'db tool = "run_row \<Rightarrow> string \<Rightarrow> 'db node \<Rightarrow> ('db node, (string \<times> json) list) outcome"

abbreviation jw_id :: "job_worker \<Rightarrow> string" where
  "jw_id me \<equiv> r_run_id (jw_run me)"

definition open_worker ::
  "('a group_db_scheme) others \<Rightarrow> string \<Rightarrow> string option \<Rightarrow> ('a group_db_scheme) node \<Rightarrow> (('a group_db_scheme) node, job_worker) outcome" where
  "open_worker others run_id lease_token =
     chain (read_run run_id) (\<lambda>run. after others 60 (\<lambda>s.
       case repository_lock_required_for_run run (n_db s) of
         Inl e \<Rightarrow> (Inl e, s)
       | Inr locked \<Rightarrow> (Inr \<lparr>jw_run = run, jw_token = (case lease_token of Some t \<Rightarrow> t | None \<Rightarrow> r_worker_lease_token run),
           jw_generation = lease_gen run, jw_locked = locked\<rparr>, s)))"

definition beat_lock :: "worker_world \<Rightarrow> job_worker \<Rightarrow> nat \<Rightarrow> ('a lock_db_scheme) node \<Rightarrow> (('a lock_db_scheme) node, bool) outcome" where
  "beat_lock w me n s =
     (if \<not> jw_locked me then (Inr True, s)
      else case lock_heartbeat (r_repo_name (jw_run me)) (jw_id me) (Some (jw_token me)) (Some (jw_generation me)) (je_clock (ww_job w) n) (n_db s) of
        (active, db) \<Rightarrow> (Inr active, s\<lparr>n_db := db\<rparr>))"

text \<open>\<open>JobWorker.event\<close>: progress under the lease, the lock, then the event; false when the lease or the lock is lost.\<close>

definition job_event ::
  "worker_world \<Rightarrow> ('a lock_db_scheme) others \<Rightarrow> job_worker \<Rightarrow> string \<Rightarrow> string \<Rightarrow> string \<Rightarrow> (string \<times> json) list \<Rightarrow> ('a lock_db_scheme) node \<Rightarrow>
   (('a lock_db_scheme) node, bool) outcome" where
  "job_event w others me level stage message data =
     chain (on_db (update_worker_progress (jw_id me) (jw_token me) (jw_generation me) stage (ww_elapsed w 1) (Some data) (je_clock (ww_job w) 40)))
       (\<lambda>active. if \<not> active then give False
         else after others 80 (chain (beat_lock w me 41) (\<lambda>lock_active.
           if jw_token me \<noteq> [] \<and> \<not> lock_active then give False
           else after others 81 (chain (note_event (ww_job w) (jw_run me) level stage message (redact_data data) False) (\<lambda>_. give True)))))"

text \<open>One turn of \<open>_heartbeat_loop\<close>: true when the loop goes on, also after an exception. The loop runs beside the worker, so its turns are
  among what the other processes do.\<close>

definition heartbeat_turn ::
  "worker_world \<Rightarrow> ('a lock_db_scheme) others \<Rightarrow> job_worker \<Rightarrow> ('a lock_db_scheme) node \<Rightarrow> (('a lock_db_scheme) node, bool) outcome" where
  "heartbeat_turn w others me =
     attempt (chain (on_db (heartbeat_worker (jw_id me) (jw_token me) (ww_elapsed w 2) (Some [(''worker_pid'', JInt (je_pid (ww_job w)))])
         (Some (jw_generation me)) (je_clock (ww_job w) 42))) (\<lambda>run_active.
       after others 82 (chain (beat_lock w me 43) (\<lambda>lock_active.
         give (run_active \<and> \<not> (jw_token me \<noteq> [] \<and> \<not> lock_active))))))
     (\<lambda>_. give True)"

definition note_output :: "worker_world \<Rightarrow> job_worker \<Rightarrow> ('a run_db_scheme) node \<Rightarrow> (('a run_db_scheme) node, bool) outcome" where
  "note_output w me =
     on_db (heartbeat_worker (jw_id me) (jw_token me) (ww_elapsed w 3) (Some [(''last_output_at'', JStr (je_clock (ww_job w) 44))])
       (Some (jw_generation me)) (je_clock (ww_job w) 45))"

section \<open>Result documents\<close>

definition complete_result :: "(string \<times> json) list \<Rightarrow> (string \<times> json) list" where
  "complete_result d0 =
     (let d1 = with_default ''stderr'' (JStr []) (with_default ''stdout'' (JStr []) d0); code = field ''exit_code'' d1;
          d2 = with_default ''process_success'' (if code = JNull then JNull else JBool (code = JInt 0)) d1
      in with_default ''classification''
           (JStr (if code \<notin> {JNull, JInt 0} then ''process_failure''
                  else if field ''status'' d2 \<in> {JStr ''failed'', JStr ''partial''} then ''semantic_failure'' else ''success'')) d2)"

definition result_status :: "(string \<times> json) list \<Rightarrow> string" where
  "result_status d =
     (if flag ''status'' d then py_str (field ''status'' d)
      else if flag ''safety_failure'' d \<or> flag ''blocked'' d \<or> jget ''exit_code'' d \<noteq> Some (JInt 0) then ''failed'' else ''completed'')"

definition result_code :: "(string \<times> json) list \<Rightarrow> int option" where
  "result_code d = (case field ''exit_code'' d of JInt n \<Rightarrow> Some n | _ \<Rightarrow> None)"

definition exit_of :: "(string \<times> json) list \<Rightarrow> int" where
  "exit_of d = (case result_code d of None \<Rightarrow> 0 | Some n \<Rightarrow> n)"

definition text_field :: "string \<Rightarrow> (string \<times> json) list \<Rightarrow> string" where
  "text_field k d = (case jget k d of None \<Rightarrow> [] | Some v \<Rightarrow> py_str v)"

definition seconds_of :: "json \<Rightarrow> pyfloat option" where
  "seconds_of v = (case v of JFloat t \<Rightarrow> Some t | JInt n \<Rightarrow> Some (py_str_int n) | _ \<Rightarrow> None)"

definition required :: "string \<Rightarrow> (string \<times> json) list \<Rightarrow> py_error + json" where
  "required k d = (case jget k d of None \<Rightarrow> Inl (KeyError k) | Some v \<Rightarrow> Inr v)"

definition result_report :: "string \<Rightarrow> string \<Rightarrow> json \<Rightarrow> (string \<times> json) list \<Rightarrow> terminal_report" where
  "result_report status ended_at duration d =
     \<lparr>tr_status = status, tr_result = JObj d, tr_ended_at = Some ended_at, tr_duration_seconds = seconds_of duration, tr_exit_code = result_code d,
      tr_summary = text_field ''summary'' d, tr_error = text_field ''error'' d, tr_safety_failure = flag ''safety_failure'' d,
      tr_recovery_reason = [], tr_progress = None\<rparr>"

definition error_result :: "worker_world \<Rightarrow> job_worker \<Rightarrow> string \<Rightarrow> string \<Rightarrow> py_error \<Rightarrow> (string \<times> json) list" where
  "error_result w me started_at ended_at exc =
     [(''run_id'', JStr (jw_id me)), (''repo_name'', JStr (r_repo_name (jw_run me))), (''tool'', JStr (r_tool (jw_run me))),
      (''status'', JStr ''failed''), (''exit_code'', JInt 1), (''stdout'', JStr []), (''stderr'', JStr []), (''process_success'', JBool False),
      (''classification'', JStr ''infrastructure_failure''), (''cancelled'', JBool False), (''timed_out'', JBool False),
      (''started_at'', JStr started_at), (''ended_at'', JStr ended_at), (''duration_seconds'', JFloat (ww_duration w started_at ended_at)),
      (''changed_files'', JArr []), (''git_status'', JStr []), (''diff_stat'', JStr []), (''tests_run'', JArr []), (''test_results'', JStr []),
      (''summary'', JStr (exc_text exc)), (''remaining_risks'', JArr [JStr ''Async worker failed'']), (''error'', JStr (exc_text exc)),
      (''safety_failure'', JBool True)]"

section \<open>Storing the result\<close>

definition persist_result ::
  "worker_world \<Rightarrow> job_worker \<Rightarrow> string \<Rightarrow> string \<Rightarrow> (string \<times> json) list \<Rightarrow> run_row \<Rightarrow> ('a run_db_scheme) node \<Rightarrow>
   (('a run_db_scheme) node, run_row option) outcome" where
  "persist_result w me status ended_at d current =
     (if is_terminal status
      then (case required ''duration_seconds'' d of
              Inl e \<Rightarrow> throw e
            | Inr duration \<Rightarrow> on_db (transition_terminal (jw_id me) (result_report status ended_at duration d)
                (if r_tool (jw_run me) = ''ssh_monitored_command'' \<and> status \<in> {''cancelled'', ''timed_out''}
                 then [''running'', ''cancellation_pending''] else [''running''])
                (r_state_version current) (Some (jw_token me)) (Some (jw_generation me)) None (je_clock (ww_job w) 46)))
      else if status = ''cancellation_pending''
      then (case required ''duration_seconds'' d of
              Inl e \<Rightarrow> throw e
            | Inr duration \<Rightarrow> on_db (worker_cancellation_pending (jw_id me) (jw_token me) (jw_generation me) (r_state_version current)
                (result_report status ended_at duration d)))
      else throw (ValueError (''Unsupported worker result status: '' @ status)))"

definition publish_worker ::
  "worker_world \<Rightarrow> ('a run_db_scheme) others \<Rightarrow> job_worker \<Rightarrow> ('a run_db_scheme) node \<Rightarrow> (('a run_db_scheme) node, unit) outcome" where
  "publish_worker w others me =
     chain (publish_run (ww_job w) others (jw_id me)) (\<lambda>p.
       if pb_ok p then give ()
       else after others 90 (chain (on_db (append_event (jw_id me) ''error'' ''result_publication'' ''Canonical result publication failed''
         (Some [(''error'', JStr (pb_error p))]) None False (je_clock (ww_job w) 47))) (\<lambda>_. give ())))"

definition result_level :: "string \<Rightarrow> string" where
  "result_level status =
     (if status = ''completed'' then ''info'' else if status \<in> {''partial'', ''cancelled'', ''timed_out''} then ''warning'' else ''error'')"

text \<open>Another transition won: a terminal winner is published; the race is noted while the lease is still ours.\<close>

definition result_lost ::
  "worker_world \<Rightarrow> ('a run_db_scheme) others \<Rightarrow> job_worker \<Rightarrow> string \<Rightarrow> (string \<times> json) list \<Rightarrow> ('a run_db_scheme) node \<Rightarrow>
   (('a run_db_scheme) node, int) outcome" where
  "result_lost w others me status d =
     chain (read_run (jw_id me)) (\<lambda>winner.
     chain (if is_terminal (r_status winner) then after others 70 (publish_worker w others me) else give ()) (\<lambda>_.
     chain (if r_worker_lease_token winner = jw_token me \<and> lease_gen winner = jw_generation me
            then after others 71 (note_event (ww_job w) (jw_run me) ''warning'' ''result_race'' ''Worker result lost a conditional state transition''
                   [(''attempted_status'', JStr status), (''winner'', JStr (r_status winner))] False)
            else give ()) (\<lambda>_.
     give (if is_terminal (r_status winner) \<or> r_status winner = ''cancellation_pending'' then exit_of d else 1))))"

definition announce_result ::
  "worker_world \<Rightarrow> ('a run_db_scheme) others \<Rightarrow> job_worker \<Rightarrow> string \<Rightarrow> (string \<times> json) list \<Rightarrow> ('a run_db_scheme) node \<Rightarrow>
   (('a run_db_scheme) node, int) outcome" where
  "announce_result w others me status d =
     chain (if is_terminal status then after others 72 (publish_worker w others me) else give ()) (\<lambda>_.
     after others 73 (chain (note_event (ww_job w) (jw_run me) (result_level status) ''result'' (''Run '' @ status)
         [(''exit_code'', field ''exit_code'' d)] False) (\<lambda>_.
       give (if status \<in> {''failed'', ''cancellation_pending''} \<and> exit_of d = 0 then 1 else exit_of d))))"

definition finish_run ::
  "worker_world \<Rightarrow> ('a run_db_scheme) others \<Rightarrow> job_worker \<Rightarrow> (string \<times> json) list \<Rightarrow> ('a run_db_scheme) node \<Rightarrow> (('a run_db_scheme) node, int) outcome" where
  "finish_run w others me d =
     (case required ''ended_at'' d of
        Inl e \<Rightarrow> throw e
      | Inr ended_at \<Rightarrow>
          chain (read_run (jw_id me)) (\<lambda>current.
          after others 68 (chain (persist_result w me (result_status d) (py_str ended_at) d current) (\<lambda>persisted.
            after others 69 (case persisted of
              None \<Rightarrow> result_lost w others me (result_status d) d
            | Some _ \<Rightarrow> announce_result w others me (result_status d) d)))))"

section \<open>Failure\<close>

text \<open>A monitored remote process that is known to have started keeps the run pending: its end is not confirmed.\<close>

definition remote_process_of :: "run_row \<Rightarrow> (string \<times> json) list" where
  "remote_process_of r = as_object (field ''remote_process'' (as_object (r_progress_json r)))"

definition remote_known :: "job_worker \<Rightarrow> run_row \<Rightarrow> bool" where
  "remote_known me r =
     (r_tool (jw_run me) = ''ssh_monitored_command'' \<and> list_all (\<lambda>k. flag k (remote_process_of r)) [''pid'', ''pgid'', ''start_time_ticks''])"

definition failure_document :: "worker_world \<Rightarrow> job_worker \<Rightarrow> string \<Rightarrow> py_error \<Rightarrow> run_row \<Rightarrow> (string \<times> json) list" where
  "failure_document w me started_at exc r =
     (let d = error_result w me started_at (je_clock (ww_job w) 48) exc in
      if remote_known me r
      then jupdate d [(''status'', JStr ''cancellation_pending''),
             (''error'', JStr (''Worker failed after remote launch; remote exit is unconfirmed: '' @ exc_text exc)),
             (''safety_failure'', JBool True), (''remote_process'', JObj (remote_process_of r))]
      else d)"

definition persist_failure ::
  "worker_world \<Rightarrow> job_worker \<Rightarrow> bool \<Rightarrow> (string \<times> json) list \<Rightarrow> run_row \<Rightarrow> ('a run_db_scheme) node \<Rightarrow> (('a run_db_scheme) node, run_row option) outcome" where
  "persist_failure w me known d current =
     (let rep = result_report (if known then ''cancellation_pending'' else ''failed'') (je_clock (ww_job w) 48) (field ''duration_seconds'' d) d in
      if known
      then on_db (worker_cancellation_pending (jw_id me) (jw_token me) (jw_generation me) (r_state_version current) rep)
      else on_db (transition_terminal (jw_id me) rep [''running''] (r_state_version current) (Some (jw_token me)) (Some (jw_generation me)) None
             (je_clock (ww_job w) 49)))"

definition worker_failed ::
  "worker_world \<Rightarrow> ('a run_db_scheme) others \<Rightarrow> job_worker \<Rightarrow> string \<Rightarrow> py_error \<Rightarrow> ('a run_db_scheme) node \<Rightarrow> (('a run_db_scheme) node, int) outcome" where
  "worker_failed w others me started_at exc =
     chain (read_run (jw_id me)) (\<lambda>r. let known = remote_known me r; d = failure_document w me started_at exc r in
     after others 75 (chain (read_run (jw_id me)) (\<lambda>current.
     after others 76 (chain (persist_failure w me known d current) (\<lambda>persisted.
     after others 77 (case persisted of
       Some _ \<Rightarrow>
         chain (if known then give () else publish_worker w others me) (\<lambda>_.
         after others 78 (chain (note_event (ww_job w) (jw_run me) ''error'' (if known then ''cancellation_pending'' else ''result'')
             (if known then ''Run requires remote recovery'' else ''Run failed'') [(''error'', JStr (exc_text exc))] False) (\<lambda>_. give 1)))
     | None \<Rightarrow>
         chain (read_run (jw_id me)) (\<lambda>winner.
         chain (if is_terminal (r_status winner) then after others 79 (chain (publish_run (ww_job w) others (jw_id me)) (\<lambda>_. give ())) else give ())
           (\<lambda>_. give 1))))))))"

section \<open>Execution\<close>

text \<open>\<open>try: m finally: c\<close>.\<close>

definition at_last :: "('s \<Rightarrow> ('s, 'v) outcome) \<Rightarrow> ('s \<Rightarrow> ('s, unit) outcome) \<Rightarrow> 's \<Rightarrow> ('s, 'v) outcome" where
  "at_last m c s = (case m s of (v, s1) \<Rightarrow> (case c s1 of (Inl e, s2) \<Rightarrow> (Inl e, s2) | (Inr _, s2) \<Rightarrow> (v, s2)))"

definition give_back ::
  "('a lock_db_scheme) others \<Rightarrow> job_worker \<Rightarrow> ('a lock_db_scheme) node \<Rightarrow> (('a lock_db_scheme) node, unit) outcome" where
  "give_back others me =
     chain (read_run (jw_id me)) (\<lambda>r.
       if jw_locked me \<and> r_status r \<noteq> ''cancellation_pending''
       then after others 83 (release_lock (r_repo_name (jw_run me)) (jw_id me) (jw_token me) (jw_generation me)) else give ())"

definition supervised ::
  "worker_world \<Rightarrow> ('a lock_db_scheme) others \<Rightarrow> ('a lock_db_scheme) tool \<Rightarrow> job_worker \<Rightarrow> string \<Rightarrow> ('a lock_db_scheme) node \<Rightarrow>
   (('a lock_db_scheme) node, int) outcome" where
  "supervised w others tool me started_at =
     at_last
       (attempt (chain (tool (jw_run me) started_at) (\<lambda>d. after others 67 (finish_run w others me (complete_result d))))
          (\<lambda>exc. after others 74 (worker_failed w others me started_at exc)))
       (after others 84 (give_back others me))"

definition claim_lock :: "worker_world \<Rightarrow> job_worker \<Rightarrow> run_row \<Rightarrow> ('a lock_db_scheme) node \<Rightarrow> (('a lock_db_scheme) node, bool) outcome" where
  "claim_lock w me before =
     (if \<not> jw_locked me then give True
      else on_db (claim_owner (r_repo_name before) (jw_id me) (je_pid (ww_job w)) (jw_token me) (Some (jw_generation me)) (je_clock (ww_job w) 51)))"

definition started_of :: "worker_world \<Rightarrow> run_row \<Rightarrow> string" where
  "started_of w r = (case r_started_at r of None \<Rightarrow> je_clock (ww_job w) 52 | Some t \<Rightarrow> str_or t (je_clock (ww_job w) 52))"

definition claimed_run ::
  "worker_world \<Rightarrow> ('a lock_db_scheme) others \<Rightarrow> ('a lock_db_scheme) tool \<Rightarrow> job_worker \<Rightarrow> run_row \<Rightarrow> ('a lock_db_scheme) node \<Rightarrow>
   (('a lock_db_scheme) node, int) outcome" where
  "claimed_run w others tool me before =
     after others 62 (chain (claim_lock w me before) (\<lambda>lock_claimed.
     after others 63 (chain (read_run (jw_id me)) (\<lambda>run.
     if jw_token me \<noteq> [] \<and> \<not> lock_claimed
     then after others 64 (chain (on_db (mark_recovery_pending (jw_id me) ''Worker claimed run lease but repository lock ownership did not match''
            (Some [''running'']) (Some (r_state_version run)) (Some (jw_token me)) (Some (jw_generation me)) (Some (r_heartbeat_at run)))) (\<lambda>_. give 1))
     else
       let me' = me\<lparr>jw_run := run\<rparr> in
       after others 65 (chain (job_event w others me' ''info'' ''worker'' ''Worker claimed durable execution lease''
           [(''worker_pid'', JInt (je_pid (ww_job w))),
            (''worker_identity_recorded'', JBool (process_identity (je_world (ww_job w) 50) (Some (je_pid (ww_job w))) \<noteq> []))]) (\<lambda>_.
         after others 66 (supervised w others tool me' (started_of w run))))))))"

definition execute_run ::
  "worker_world \<Rightarrow> ('a lock_db_scheme) others \<Rightarrow> ('a lock_db_scheme) tool \<Rightarrow> job_worker \<Rightarrow> ('a lock_db_scheme) node \<Rightarrow> (('a lock_db_scheme) node, int) outcome" where
  "execute_run w others tool me =
     chain (read_run (jw_id me)) (\<lambda>before.
       if r_status before = ''cancelled'' then give 0
       else after others 61 (chain (on_db (claim_worker (jw_id me) (jw_token me) (je_pid (ww_job w))
           (process_identity (je_world (ww_job w) 50) (Some (je_pid (ww_job w)))) (Some (jw_generation me)) (Some (r_state_version before))
           (je_clock (ww_job w) 50))) (\<lambda>claimed.
         if \<not> claimed then give 1 else claimed_run w others tool me before)))"

section \<open>The end of a child of a group\<close>

fun cancel_each ::
  "job_env \<Rightarrow> ('a group_db_scheme) others \<Rightarrow> string \<Rightarrow> child_payload list \<Rightarrow> ('a group_db_scheme) node \<Rightarrow>
   (('a group_db_scheme) node, run_cancel_reply list) outcome" where
  "cancel_each env others run_id [] s = (Inr [], s)"
| "cancel_each env others run_id (child # rest) s =
     (if cp_run_id child = run_id \<or> is_terminal (cp_status child) then cancel_each env others run_id rest s
      else case cancel_run env (\<lambda>k. others (2000 + 200 * length rest + k)) True (cp_run_id child) s of
        (Inl e, s1) \<Rightarrow> (Inl e, s1)
      | (Inr reply, s1) \<Rightarrow>
          (case cancel_each env others run_id rest s1 of (Inl e, s2) \<Rightarrow> (Inl e, s2) | (Inr replies, s2) \<Rightarrow> (Inr (reply # replies), s2)))"

definition enforce_failure_policy ::
  "job_env \<Rightarrow> ('a group_db_scheme) others \<Rightarrow> string \<Rightarrow> ('a group_db_scheme) node \<Rightarrow>
   (('a group_db_scheme) node, (run_cancel_reply list \<times> group_view) option) outcome" where
  "enforce_failure_policy env others run_id s =
     (case get_group_for_child run_id (n_db s) of
        Inl (KeyError _) \<Rightarrow> (Inr None, s)
      | Inl e \<Rightarrow> (Inl e, s)
      | Inr g \<Rightarrow>
          if g_failure_policy (gv_group g) \<noteq> ''cancel_remaining_on_failure'' then (Inr None, s)
          else after others 121 (chain (read_run run_id) (\<lambda>failed.
            if r_status failed \<notin> {''failed'', ''timed_out''} then give None
            else after others 122 (chain (cancel_each env others run_id (gv_children g)) (\<lambda>replies.
              after others 123 (chain (refill_powershell_groups env (\<lambda>k. others (400 + k))) (\<lambda>_.
                after others 124 (chain (on_db (refresh_group (g_group_id (gv_group g)) (je_clock env 53))) (\<lambda>view.
                  give (Some (replies, view)))))))))) s)"

text \<open>\<open>main\<close>: whatever goes wrong after the worker has ended is left to the next start-up.\<close>

definition swallow :: "('s \<Rightarrow> ('s, 'v) outcome) \<Rightarrow> 's \<Rightarrow> ('s, unit) outcome" where
  "swallow m s = (Inr (), snd (m s))"

definition job_worker_main ::
  "worker_world \<Rightarrow> ('a group_db_scheme) others \<Rightarrow> (job_worker \<Rightarrow> ('a group_db_scheme) tool) \<Rightarrow> string \<Rightarrow> string option \<Rightarrow>
   ('a group_db_scheme) node \<Rightarrow> (('a group_db_scheme) node, int) outcome" where
  "job_worker_main w others tool run_id lease_token =
     chain (open_worker others run_id lease_token) (\<lambda>me.
     after others 110 (chain (execute_run w others (tool me) me) (\<lambda>code.
     after others 111 (chain (swallow (chain (enforce_failure_policy (ww_job w) (\<lambda>k. others (3000 + k)) run_id)
         (\<lambda>_. after others 112 (refill_powershell_groups (ww_job w) (\<lambda>k. others (800 + k)))))) (\<lambda>_. give code)))))"

end
