(* ===== verification/Repo_Execution.thy ===== *)
theory Repo_Execution
  imports Job_Worker
begin

text \<open>
  The tools of a worker that run in the repository: \<open>_execute_inner\<close>, \<open>_execute_project_command\<close>, \<open>_execute_repo_apply\<close> and the commit they may
  end with, in \<open>src/soma/job_worker.py\<close>, and the attribution of changes in \<open>src/soma/run_guards.py\<close>. What the process does, what Git and the
  workspace look like before the command, after it and after the commit, and the operations of Git and of the repository writer are in
  \<open>exec_world\<close>; the remote and the container tools are one argument.
\<close>

section \<open>The repository\<close>

text \<open>What \<open>git_status\<close>, \<open>diff_stat\<close>, \<open>changed_files\<close> and \<open>snapshot_workspace\<close> report at one moment.\<close>

record git_observation =
  go_status :: string
  go_diff :: string
  go_changed :: "string list"
  go_snapshot :: "(string \<times> int \<times> int) list"

record exec_world =
  ew_worker :: worker_world
  ew_resolve :: "string \<Rightarrow> py_error + string"
  ew_profiles :: "string \<Rightarrow> py_error + (string \<times> json) list list"
  ew_files :: "string \<Rightarrow> repo_files"
  ew_env :: exec_env
  ew_process :: "string list \<Rightarrow> (string \<times> string) list \<Rightarrow> run_outcome"
  ew_git :: "nat \<Rightarrow> string \<Rightarrow> git_observation"
  ew_make_dir :: "string \<Rightarrow> py_error option"
  ew_write_error :: "string \<Rightarrow> py_error option"
  ew_finalize :: "string \<Rightarrow> string list \<Rightarrow> string \<Rightarrow> string \<Rightarrow> string option \<Rightarrow> string \<Rightarrow> py_error + (string \<times> json) list"
  ew_compact :: "(string \<times> json) list \<Rightarrow> (string \<times> json) list \<times> (string \<times> json) list"
  ew_compact_paths :: "json list \<Rightarrow> json"
  ew_dump :: "(string \<times> json) list \<Rightarrow> string"
  ew_sha256 :: "string \<Rightarrow> string"
  ew_bytes :: "string \<Rightarrow> nat"
  ew_apply :: "string \<Rightarrow> string \<Rightarrow> (string \<times> json) list \<Rightarrow> py_error + (string \<times> json) list"
  ew_wiki :: "string \<Rightarrow> string \<Rightarrow> string \<Rightarrow> py_error + (string \<times> json) list"
  ew_analyze :: "string \<Rightarrow> py_error + (string \<times> json) list"
  ew_pytest_present :: "string \<Rightarrow> bool"

abbreviation ew_job :: "exec_world \<Rightarrow> job_env" where
  "ew_job x \<equiv> ww_job (ew_worker x)"

definition changed_workspace_paths :: "(string \<times> int \<times> int) list \<Rightarrow> (string \<times> int \<times> int) list \<Rightarrow> string list" where
  "changed_workspace_paths before behind =
     sort (filter (\<lambda>p. map_of before p \<noteq> map_of behind p) (remdups (map fst before @ map fst behind)))"

text \<open>A path the command changed and Git reports was introduced by it; a path that was dirty before and still is, is preserved.\<close>

definition posix_path :: "string \<Rightarrow> string" where
  "posix_path p = as_posix (posix_parts p)"

definition classify_git_attribution ::
  "string list \<Rightarrow> (string \<times> int \<times> int) list \<Rightarrow> (string \<times> int \<times> int) list \<Rightarrow> string list \<Rightarrow> string list \<times> string list" where
  "classify_git_attribution changed_after before behind dirty_before =
     (let changed = map posix_path changed_after;
          introduced = sort (filter (\<lambda>p. p \<in> set changed) (changed_workspace_paths before behind));
          preserved = sort (filter (\<lambda>p. p \<in> set changed \<and> p \<notin> set introduced) (remdups (map posix_path dirty_before)))
      in (introduced, preserved))"

section \<open>Artifacts and commits\<close>

definition artifact_path :: "run_row \<Rightarrow> string \<Rightarrow> string" where
  "artifact_path run name = r_run_dir run @ ''/'' @ name"

definition store_text :: "exec_world \<Rightarrow> string \<Rightarrow> string \<Rightarrow> 'db node \<Rightarrow> ('db node, unit) outcome" where
  "store_text x path text s =
     (case ew_write_error x path of Some e \<Rightarrow> (Inl e, s) | None \<Rightarrow> (Inr (), s\<lparr>n_files := (n_files s)(path \<mapsto> text)\<rparr>))"

definition write_text :: "exec_world \<Rightarrow> run_row \<Rightarrow> string \<Rightarrow> string \<Rightarrow> 'db node \<Rightarrow> ('db node, unit) outcome" where
  "write_text x run name text = store_text x (artifact_path run name) (redact_text text)"

definition ensure_dir :: "exec_world \<Rightarrow> string \<Rightarrow> 'db node \<Rightarrow> ('db node, unit) outcome" where
  "ensure_dir x path = (case ew_make_dir x path of Some e \<Rightarrow> throw e | None \<Rightarrow> give ())"

definition COMMIT_EVIDENCE_ARTIFACT :: string where
  "COMMIT_EVIDENCE_ARTIFACT = ''commit_evidence.json''"

text \<open>\<open>_compact_commit_data\<close>: the bulk of the evidence goes to an artifact, and stays inline when that cannot be written.\<close>

definition compact_commit_data ::
  "exec_world \<Rightarrow> ('a lock_db_scheme) others \<Rightarrow> job_worker \<Rightarrow> (string \<times> json) list \<Rightarrow> ('a lock_db_scheme) node \<Rightarrow>
   (('a lock_db_scheme) node, (string \<times> json) list) outcome" where
  "compact_commit_data x others me data =
     (case field ''commit_result'' data of
        JObj commit_result \<Rightarrow>
          let (compact, body0) = ew_compact x commit_result;
              preserved = field ''preserved_preexisting_changes'' data;
              body = (case preserved of JArr _ \<Rightarrow> jset ''preserved_preexisting_changes'' preserved body0 | _ \<Rightarrow> body0)
          in if body = [] then give data
             else
               let payload = ew_dump x body;
                   reference = [(''artifact'', JStr COMMIT_EVIDENCE_ARTIFACT), (''fields'', JArr (map JStr (sort (map fst body)))),
                     (''available'', JBool True), (''sha256'', JStr (ew_sha256 x payload)), (''size_bytes'', JInt (int (ew_bytes x payload)))];
                   d1 = jset ''commit_result'' (JObj compact) data;
                   d2 = (case preserved of JArr ps \<Rightarrow> jset ''preserved_preexisting_changes'' (ew_compact_paths x ps) d1 | _ \<Rightarrow> d1)
               in attempt
                    (chain (store_text x (artifact_path (jw_run me) COMMIT_EVIDENCE_ARTIFACT) payload)
                       (\<lambda>_. give (jset ''commit_evidence_ref'' (JObj reference) d2)))
                    (\<lambda>e. after others 130 (chain (job_event (ew_worker x) others me ''warning'' ''evidence''
                       ''Commit evidence artifact could not be written; retaining inline body''
                       [(''artifact'', JStr COMMIT_EVIDENCE_ARTIFACT), (''error'', JStr (take 500 (exc_text e)))]) (\<lambda>_. give data)))
      | _ \<Rightarrow> give data)"

definition finalize_commit ::
  "exec_world \<Rightarrow> ('a lock_db_scheme) others \<Rightarrow> job_worker \<Rightarrow> string \<Rightarrow> string list \<Rightarrow> string \<Rightarrow> string \<Rightarrow> string \<Rightarrow> ('a lock_db_scheme) node \<Rightarrow>
   (('a lock_db_scheme) node, (string \<times> json) list) outcome" where
  "finalize_commit x others me root changed tool title description =
     (case ew_finalize x root changed tool (jw_id me) (if title = [] then None else Some title) description of
        Inl e \<Rightarrow> throw e
      | Inr data \<Rightarrow> compact_commit_data x others me data)"

definition mark_wiki_stale ::
  "exec_world \<Rightarrow> ('a lock_db_scheme) others \<Rightarrow> job_worker \<Rightarrow> string \<Rightarrow> string \<Rightarrow> string \<Rightarrow> ('a lock_db_scheme) node \<Rightarrow>
   (('a lock_db_scheme) node, (string \<times> json) list) outcome" where
  "mark_wiki_stale x others me root repo reason =
     (case ew_wiki x root repo reason of
        Inr d \<Rightarrow> give d
      | Inl e \<Rightarrow>
          let detail = take 500 (fst (error_parts e) @ '': '' @ snd (error_parts e)) in
          chain (job_event (ew_worker x) others me ''error'' ''repo_wiki'' ''Repository knowledge could not be marked stale after a managed change''
              [(''repo_name'', JStr repo), (''reason'', JStr reason), (''error'', JStr detail)])
            (\<lambda>_. give [(''ok'', JBool False), (''stale'', JNull), (''freshness_known'', JBool False), (''reason'', JStr reason), (''error'', JStr detail),
               (''recommended_action'', JStr ''Repository knowledge may be stale. Refresh the repository wiki before relying on it.'')]))"

section \<open>A project command\<close>

definition path_profile ::
  "(repo_files \<Rightarrow> string \<Rightarrow> py_error + command_profile) \<Rightarrow> repo_files \<Rightarrow> (string \<times> json) list \<Rightarrow> py_error + (string \<times> command_profile)" where
  "path_profile build files input =
     (case required ''path'' input of Inl e \<Rightarrow> Inl e | Inr path \<Rightarrow>
      (case build files (py_str path) of Inl e \<Rightarrow> Inl e | Inr first \<Rightarrow>
        let target = last (cp_argv first) in
        (case build files target of Inl e \<Rightarrow> Inl e | Inr p \<Rightarrow> Inr (target, p))))"

text \<open>The target of the command, empty when it has none, and its profile.\<close>

definition command_target :: "exec_world \<Rightarrow> string \<Rightarrow> string \<Rightarrow> string \<Rightarrow> (string \<times> json) list \<Rightarrow> py_error + (string \<times> command_profile)" where
  "command_target x repo root command_id input =
     (let files = ew_files x root in
      if command_id = ''pytest_path'' then path_profile build_pytest_path_profile files input
      else if command_id = ''py_compile_path'' then path_profile build_py_compile_path_profile files input
      else if command_id = ''bash_n_path'' then path_profile build_bash_n_path_profile files input
      else if command_id = ''json_validate_path'' then path_profile build_json_validate_path_profile files input
      else if command_id = ''git_readonly''
      then (let operation = text_field ''operation'' input in
            case build_git_readonly_profile operation of Inl e \<Rightarrow> Inl e | Inr p \<Rightarrow> Inr (operation, p))
      else (case ew_profiles x repo of Inl e \<Rightarrow> Inl e | Inr profiles \<Rightarrow>
            (case resolve_command_profile command_id profiles of Inl e \<Rightarrow> Inl e | Inr p \<Rightarrow> Inr ([], p))))"

definition with_timeout :: "(string \<times> json) list \<Rightarrow> command_profile \<Rightarrow> py_error + command_profile" where
  "with_timeout input p =
     (case field ''timeout_seconds'' input of
        JNull \<Rightarrow> Inr p
      | v \<Rightarrow> (case py_int v of
                Inl e \<Rightarrow> Inl e
              | Inr n \<Rightarrow> if n < 1 \<or> n > 604800 then Inl (ValueError ''validator timeout_seconds must be between 1 and 604800'')
                         else Inr (p\<lparr>cp_timeout := n\<rparr>)))"

definition runs_pytest :: "string \<Rightarrow> command_profile \<Rightarrow> bool" where
  "runs_pytest command_id p = (command_id \<in> {''pytest'', ''pytest_path''} \<or> ''pytest'' \<in> set (cp_argv p))"

definition temporary_env :: "exec_world \<Rightarrow> run_row \<Rightarrow> string \<Rightarrow> command_profile \<Rightarrow> (string \<times> string) list" where
  "temporary_env x run command_id p =
     (let tmp = artifact_path run ''tmp'';
          addopts = py_strip (case map_of (xe_vars (ew_env x)) ''PYTEST_ADDOPTS'' of None \<Rightarrow> [] | Some v \<Rightarrow> v);
          basetemp = ''--basetemp='' @ [CHR 0x22] @ artifact_path run ''pytest-tmp'' @ [CHR 0x22]
      in [(''TMP'', tmp), (''TEMP'', tmp), (''TMPDIR'', tmp)] @
         (if runs_pytest command_id p then [(''PYTEST_ADDOPTS'', join_with '' '' (filter (\<lambda>v. v \<noteq> []) [addopts, basetemp]))] else []))"

text \<open>What the command came to, before and after a commit.\<close>

definition changed_repository :: "command_profile \<Rightarrow> git_observation \<Rightarrow> git_observation \<Rightarrow> bool" where
  "changed_repository p before behind =
     (\<not> cp_writes_files p \<and> (go_status before \<noteq> go_status behind \<or> go_diff before \<noteq> go_diff behind))"

definition command_outcome :: "command_result \<Rightarrow> bool \<Rightarrow> string" where
  "command_outcome r safety =
     (if cr_timed_out r then ''timed_out'' else if cr_ok r \<and> \<not> safety then ''completed'' else ''failed'')"

definition no_commit :: "(string \<times> json) list" where
  "no_commit =
     [(''commit_required'', JBool False), (''commit_attempted'', JBool False), (''commit_hash'', JStr []), (''commit_error'', JStr []),
      (''commit_result'', JObj [(''ok'', JBool True), (''reason'', JStr ''not_applicable'')])]"

definition commit_failed :: "(string \<times> json) list \<Rightarrow> bool" where
  "commit_failed d = (flag ''commit_attempted'' d \<and> flag ''commit_error'' d)"

definition output_summary :: "command_result \<Rightarrow> string" where
  "output_summary r = py_strip (str_or (cr_stdout r) (cr_stderr r))"

definition last_chars :: "nat \<Rightarrow> string \<Rightarrow> string" where
  "last_chars n s = drop (length s - n) s"

definition command_summary :: "string \<Rightarrow> command_result \<Rightarrow> string" where
  "command_summary command_id r =
     str_or (last_chars 4000 (output_summary r))
       (''Project command '' @ command_id @ '' completed with exit code '' @ py_str_int (cr_exit_code r))"

definition command_risks :: "command_result \<Rightarrow> bool \<Rightarrow> string list" where
  "command_risks r safety =
     (if safety then [''Read-only command changed repository state''] else []) @
     (if cr_timed_out r then [''Project command timed out; inspect saved output before retrying''] else [])"

definition command_error :: "command_result \<Rightarrow> bool \<Rightarrow> string" where
  "command_error r safety =
     join_with ''; '' (filter (\<lambda>e. e \<noteq> []) ([py_strip (cr_error r)] @ (if safety then [''Read-only command changed repository state''] else [])))"

definition command_class :: "command_result \<Rightarrow> bool \<Rightarrow> string" where
  "command_class r safety =
     (if cr_timed_out r then ''timeout'' else if cr_exit_code r \<noteq> 0 then ''process_failure''
      else if safety then ''semantic_failure'' else ''success'')"

definition json_strings :: "string list \<Rightarrow> json" where
  "json_strings ss = JArr (map JStr ss)"

definition command_document :: "command_result \<Rightarrow> json \<Rightarrow> json" where
  "command_document r duration = JObj
     [(''ok'', JBool (cr_ok r)), (''command_id'', JStr (cr_command_id r)), (''argv'', json_strings (cr_argv r)), (''exit_code'', JInt (cr_exit_code r)),
      (''timed_out'', JBool (cr_timed_out r)), (''duration_seconds'', duration), (''stdout'', JStr (cr_stdout r)), (''stderr'', JStr (cr_stderr r)),
      (''output_truncated'', JBool (cr_truncated r)), (''error'', JStr (cr_error r))]"

definition validation_of :: "exec_world \<Rightarrow> string \<Rightarrow> string \<Rightarrow> string \<Rightarrow> command_result \<Rightarrow> py_error + json" where
  "validation_of x root command_id target r =
     (if command_id \<notin> {''py_compile_path'', ''bash_n_path'', ''json_validate_path''} then Inr JNull
      else case ew_analyze x (root @ ''/'' @ target) of
        Inl e \<Rightarrow> Inl e
      | Inr d \<Rightarrow>
          let text = py_strip (cr_stderr r) in
          (case (required ''sha256'' d, required ''size_bytes'' d, required ''total_lines'' d, required ''newline_diagnostic'' d) of
             (Inr sha, Inr size_bytes, Inr lines, Inr line_ends) \<Rightarrow> Inr (JObj
               [(''ok'', JBool (cr_exit_code r = 0)), (''error_count'', JInt (if cr_exit_code r = 0 then 0 else 1)),
                (''representative_errors'', if text \<noteq> [] then json_strings [take 1024 text] else JArr []),
                (''truncated'', JBool (ew_bytes x (cr_stderr r) > 1024)), (''target_sha256'', sha), (''target_size_bytes'', size_bytes),
                (''target_total_lines'', lines), (''newline_diagnostic'', line_ends)])
           | (Inl e, _) \<Rightarrow> Inl e | (_, Inl e, _) \<Rightarrow> Inl e | (_, _, Inl e, _) \<Rightarrow> Inl e | (_, _, _, Inl e) \<Rightarrow> Inl e))"

text \<open>The result: \<open>status\<close> and the observation are those after the commit, when there was one.\<close>

definition project_document ::
  "exec_world \<Rightarrow> run_row \<Rightarrow> string \<Rightarrow> string \<Rightarrow> string \<Rightarrow> string \<Rightarrow> string \<Rightarrow> command_result \<Rightarrow> bool \<Rightarrow> string list \<Rightarrow> string list \<Rightarrow> git_observation \<Rightarrow>
   string list \<Rightarrow> (string \<times> json) list \<Rightarrow> json \<Rightarrow> string \<Rightarrow> (string \<times> json) list" where
  "project_document x run repo command_id target started_at status r safety introduced preserved seen risks commit validation ended_at =
     jupdate
       [(''run_id'', JStr (r_run_id run)), (''repo_name'', JStr repo), (''tool'', JStr ''project_command''), (''command_id'', JStr command_id),
        (''path'', JStr target), (''status'', JStr status), (''exit_code'', JInt (cr_exit_code r)), (''stdout'', JStr (cr_stdout r)),
        (''stderr'', JStr (cr_stderr r)), (''process_success'', JBool (cr_exit_code r = 0)), (''classification'', JStr (command_class r safety)),
        (''started_at'', JStr started_at), (''ended_at'', JStr ended_at),
        (''duration_seconds'', JFloat (ww_duration (ew_worker x) started_at ended_at)), (''changed_files'', json_strings introduced),
        (''introduced_changes'', json_strings introduced), (''preserved_preexisting_changes'', json_strings preserved),
        (''git_status'', JStr (go_status seen)), (''diff_stat'', JStr (go_diff seen)),
        (''tests_run'', json_strings [if target \<noteq> [] then command_id @ '':'' @ target else command_id]), (''test_results'', JStr (output_summary r)),
        (''summary'', JStr (command_summary command_id r)), (''remaining_risks'', json_strings risks),
        (''error'', if flag ''commit_error'' commit then field ''commit_error'' commit else JStr (command_error r safety)),
        (''safety_failure'', JBool safety), (''timed_out'', JBool (cr_timed_out r)), (''output_truncated'', JBool (cr_truncated r)),
        (''validation'', validation), (''argv'', json_strings (cr_argv r)), (''temporary_directory'', JStr (artifact_path run ''tmp'')),
        (''pytest_basetemp'', JStr (if ew_pytest_present x (artifact_path run ''pytest-tmp'') then artifact_path run ''pytest-tmp'' else [])),
        (''command_result'', command_document r (JFloat (ww_elapsed (ew_worker x) 4)))]
       commit"

text \<open>A command that completed and may write is committed; a commit that fails fails the run.\<close>

definition finish_command ::
  "exec_world \<Rightarrow> ('a lock_db_scheme) others \<Rightarrow> job_worker \<Rightarrow> string \<Rightarrow> string \<Rightarrow> string \<Rightarrow> string \<Rightarrow> string \<Rightarrow> command_profile \<Rightarrow> git_observation \<Rightarrow>
   command_result \<Rightarrow> ('a lock_db_scheme) node \<Rightarrow> (('a lock_db_scheme) node, (string \<times> json) list) outcome" where
  "finish_command x others me repo root command_id target started_at p before r =
     (let behind = ew_git x 1 root; safety = changed_repository p before behind;
          (introduced, preserved) = classify_git_attribution (go_changed behind) (go_snapshot before) (go_snapshot behind) (go_changed before);
          status = command_outcome r safety; risks = command_risks r safety;
          document = (\<lambda>status seen risks commit.
            case validation_of x root command_id target r of
              Inl e \<Rightarrow> throw e
            | Inr validation \<Rightarrow> give (project_document x (jw_run me) repo command_id target started_at status r safety introduced preserved seen risks
                commit validation (je_clock (ew_job x) 54)))
      in chain (write_text x (jw_run me) ''git_after.txt'' (go_status behind)) (\<lambda>_.
         chain (write_text x (jw_run me) ''diff_stat.txt'' (go_diff behind)) (\<lambda>_.
         if status = ''completed'' \<and> cp_writes_files p
         then after others 131 (chain (finalize_commit x others me root introduced ''project_command'' [] []) (\<lambda>commit.
                if commit_failed commit
                then document ''failed'' (ew_git x 2 root)
                       (risks @ [''Automatic commit finalization failed: '' @ py_str (field ''commit_error'' commit)]) commit
                else document status (ew_git x 2 root) risks commit))
         else document status behind risks no_commit)))"

definition execute_project_command ::
  "exec_world \<Rightarrow> ('a lock_db_scheme) others \<Rightarrow> job_worker \<Rightarrow> string \<Rightarrow> string \<Rightarrow> string \<Rightarrow> (string \<times> json) list \<Rightarrow> ('a lock_db_scheme) node \<Rightarrow>
   (('a lock_db_scheme) node, (string \<times> json) list) outcome" where
  "execute_project_command x others me started_at repo root input =
     (case required ''command_id'' input of Inl e \<Rightarrow> throw e | Inr c \<Rightarrow>
      let command_id = py_str c; run = jw_run me in
      (case command_target x repo root command_id input of Inl e \<Rightarrow> throw e | Inr (target, p0) \<Rightarrow>
       (case with_timeout input p0 of Inl e \<Rightarrow> throw e | Inr p \<Rightarrow>
          let before = ew_git x 0 root; r = run_command_profile (ew_env x) (ew_process x) p root (temporary_env x run command_id p) in
          chain (ensure_dir x (artifact_path run ''tmp'')) (\<lambda>_.
          chain (if runs_pytest command_id p then ensure_dir x (artifact_path run ''pytest-tmp'') else give ()) (\<lambda>_.
          chain (write_text x run ''git_before.txt'' (go_status before)) (\<lambda>_.
          after others 132 (chain (job_event (ew_worker x) others me ''info'' ''command'' ''Starting allowlisted project command''
              [(''command_id'', JStr command_id), (''timeout_seconds'', JInt (cp_timeout p)), (''temporary_directory'', JStr (artifact_path run ''tmp'')),
               (''path'', JStr target)]) (\<lambda>_.
          after others 133 (chain (write_text x run ''stdout.txt'' (cr_stdout r)) (\<lambda>_.
          chain (write_text x run ''stderr.txt'' (cr_stderr r)) (\<lambda>_.
          finish_command x others me repo root command_id target started_at p before r)))))))))))"

section \<open>A change to the repository\<close>

definition apply_operation :: "exec_world \<Rightarrow> string \<Rightarrow> string \<Rightarrow> (string \<times> json) list \<Rightarrow> py_error + (string \<times> json) list" where
  "apply_operation x root operation input =
     (let needed = (if operation = ''previewed_change'' \<or> operation = ''revert'' then [''patch_id''] else if operation = ''cleanup'' then [''cleanup_id'']
                    else [''source_path'', ''destination_path'', ''expected_sha256'']) in
      case find (\<lambda>k. jget k input = None) needed of Some k \<Rightarrow> Inl (KeyError k) | None \<Rightarrow> ew_apply x root operation input)"

definition apply_strings :: "json \<Rightarrow> string list" where
  "apply_strings j = (case j of JArr js \<Rightarrow> map py_str js | _ \<Rightarrow> [])"

text \<open>The result of an operation that committed nothing, or whose commit succeeded or failed, before the missing fields are filled in.\<close>

definition committed_apply ::
  "exec_world \<Rightarrow> ('a lock_db_scheme) others \<Rightarrow> job_worker \<Rightarrow> string \<Rightarrow> string \<Rightarrow> (string \<times> json) list \<Rightarrow> ('a lock_db_scheme) node \<Rightarrow>
   (('a lock_db_scheme) node, (string \<times> json) list) outcome" where
  "committed_apply x others me repo root d =
     (if flag ''ok'' d \<and> flag ''changed_files'' d
      then chain (finalize_commit x others me root (apply_strings (field ''changed_files'' d)) ''repo_apply''
             (if flag ''commit_title'' d then py_str (field ''commit_title'' d) else [])
             (if flag ''commit_description'' d then py_str (field ''commit_description'' d) else [])) (\<lambda>commit.
           let d1 = jupdate d commit in
           if commit_failed commit
           then give (jset ''error'' (field ''commit_error'' commit) (jset ''status'' (JStr ''commit_failed'') (jset ''ok'' (JBool False) d1)))
           else after others 134 (chain (mark_wiki_stale x others me root repo ''repo_apply'') (\<lambda>f. give (jset ''wiki_freshness'' (JObj f) d1))))
      else give d)"

definition apply_status :: "(string \<times> json) list \<Rightarrow> string" where
  "apply_status d = (if flag ''ok'' d then ''completed'' else ''failed'')"

definition complete_apply :: "exec_world \<Rightarrow> string \<Rightarrow> string \<Rightarrow> (string \<times> json) list \<Rightarrow> (string \<times> json) list" where
  "complete_apply x started_at operation d0 =
     (let d1 = with_default ''status'' (JStr (apply_status d0)) d0;
          d2 = (if (case field ''status'' d1 of JStr st \<Rightarrow> is_terminal st | _ \<Rightarrow> False) then d1 else jset ''status'' (JStr (apply_status d1)) d1);
          d3 = with_default ''error'' (JStr []) d2;
          ended_at = (if flag ''ended_at'' d3 then py_str (field ''ended_at'' d3) else je_clock (ew_job x) 55);
          d4 = with_default ''duration_seconds'' (JFloat (ww_duration (ew_worker x) started_at ended_at)) (jset ''ended_at'' (JStr ended_at) d3);
          finished = (field ''status'' d4 = JStr ''completed'');
          d5 = with_default ''exit_code'' (JInt (if finished then 0 else 1)) d4;
          d6 = with_default ''process_success'' (JBool (field ''exit_code'' d5 = JInt 0)) d5;
          d7 = with_default ''classification'' (JStr (if finished then ''success'' else ''semantic_failure'')) d6;
          d8 = with_default ''summary'' (if flag ''error'' d7 then field ''error'' d7
                 else JStr (''Repository apply '' @ operation @ '' '' @ py_str (field ''status'' d7))) d7
      in with_default ''safety_failure'' (JBool False) (with_default ''remaining_risks'' (JArr []) d8))"

definition execute_repo_apply ::
  "exec_world \<Rightarrow> ('a lock_db_scheme) others \<Rightarrow> job_worker \<Rightarrow> string \<Rightarrow> string \<Rightarrow> string \<Rightarrow> (string \<times> json) list \<Rightarrow> ('a lock_db_scheme) node \<Rightarrow>
   (('a lock_db_scheme) node, (string \<times> json) list) outcome" where
  "execute_repo_apply x others me started_at repo root input =
     (case required ''operation'' input of Inl e \<Rightarrow> throw e | Inr op \<Rightarrow>
      let operation = py_str op in
      (case apply_operation x root operation input of
         Inl e \<Rightarrow> throw e
       | Inr d \<Rightarrow>
           chain (committed_apply x others me repo root (jupdate d [(''run_id'', JStr (jw_id me)), (''operation'', JStr operation), (''started_at'', JStr started_at)]))
             (\<lambda>d1. give (complete_apply x started_at operation d1))))"

section \<open>Dispatch\<close>

definition DIRECT_TOOLS :: "string list" where
  "DIRECT_TOOLS =
     [''executable_profile'', ''cloudflare_action'', ''ssh_command'', ''ssh_monitored_command'', ''remote_powershell'', ''ssh_reviewed_script'',
      ''ssh_root_shell'', ''ssh_action'', ''ssh_transfer'', ''ssh_deployment'', ''ssh_profile_activation'']"

text \<open>The remote, the executable and the container tools, and the fixture validation, are the argument \<open>far\<close>.\<close>

definition execute_inner ::
  "exec_world \<Rightarrow> ('a lock_db_scheme) others \<Rightarrow> ('a lock_db_scheme) tool \<Rightarrow> job_worker \<Rightarrow> ('a lock_db_scheme) tool" where
  "execute_inner x others far me run started_at =
     (let input = as_object (r_input_json run); me' = me\<lparr>jw_run := run\<rparr> in
      if r_tool run \<in> set DIRECT_TOOLS then far run started_at
      else case required ''repo_name'' input of Inl e \<Rightarrow> throw e | Inr name \<Rightarrow>
        let repo = py_str name in
        (case ew_resolve x repo of
           Inl e \<Rightarrow> throw e
         | Inr root \<Rightarrow>
             if r_tool run = ''repo_apply'' then execute_repo_apply x others me' started_at repo root input
             else if r_tool run = ''project_command'' then execute_project_command x others me' started_at repo root input
             else if r_tool run \<in> {''docker_action'', ''external_fixture_validation''} then far run started_at
             else throw (ValueError (''Unsupported async tool: '' @ r_tool run))))"

end
