(* ===== verification/Job_Worker_System.thy ===== *)
theory Job_Worker_System
  imports Job_Worker Worker_System
begin

text \<open>
  The worker of a run within the system: whatever the tool does to the node, as long as it keeps to the steps of the stores, the worker keeps every
  invariant of those steps and of the other processes (locale \<open>tool_invariant\<close>), up to the cancellation of the siblings of a failed child and the
  refill of the groups.
\<close>

context group_invariant
begin

lemma either_keeps:
  "(\<And>e. I (snd (a e s))) \<Longrightarrow> (\<And>v. I (snd (b v s))) \<Longrightarrow> I (snd ((case x of Inl e \<Rightarrow> a e | Inr v \<Rightarrow> b v) s))"
  by (simp split: sum.split)

lemmas worker_rules = either_keeps launching.chain_keeps launching.attempt_keeps launching.after_keeps launching.give_keeps launching.choice_keeps
  launching.lock_writes_keep answer case_pure let_body

lemma beat_lock_keeps: "I s \<Longrightarrow> I (snd (beat_lock w me n s))"
  by (simp add: beat_lock_def lock_heartbeat_def Let_def) (metis beat_keeps lock_heartbeat_def snd_conv)

lemma job_event_keeps: "I s \<Longrightarrow> I (snd (job_event w (\<lambda>k. others (f k)) me level stage msg data s))"
  unfolding job_event_def
  by (assumption | rule worker_rules beat_lock_keeps note_event_keeps db_step run_step.progress)+

lemma publish_worker_keeps: "I s \<Longrightarrow> I (snd (publish_worker w (\<lambda>k. others (f k)) me s))"
  unfolding publish_worker_def
  by (assumption | rule worker_rules publish_run_keeps db_step run_step.event)+

lemma persist_keeps':
  "I s \<Longrightarrow> I (snd (persist_result w me status ended_at d current s))" "I s \<Longrightarrow> I (snd (persist_failure w me known d current s))"
  unfolding persist_result_def persist_failure_def Let_def
  by ((assumption | rule worker_rules db_step run_step.terminal run_step.worker_cancellation)+)

lemma finish_run_keeps: "I s \<Longrightarrow> I (snd (finish_run w (\<lambda>k. others (f k)) me d s))"
  unfolding finish_run_def result_lost_def announce_result_def
  by (assumption | rule worker_rules persist_keeps' publish_worker_keeps note_event_keeps)+

lemma worker_failed_keeps: "I s \<Longrightarrow> I (snd (worker_failed w (\<lambda>k. others (f k)) me started_at exc s))"
  unfolding worker_failed_def Let_def
  by (assumption | rule worker_rules persist_keeps' publish_worker_keeps publish_run_keeps note_event_keeps)+

lemma at_last_keeps: "I (snd (m s)) \<Longrightarrow> (\<And>t. I t \<Longrightarrow> I (snd (c t))) \<Longrightarrow> I (snd (at_last m c s))"
  by (simp add: at_last_def split: prod.split sum.split) (metis snd_conv)

end

locale tool_invariant = group_invariant I others
  for I :: "('a group_db_scheme) node \<Rightarrow> bool" and others :: "('a group_db_scheme) others" +
  fixes tool :: "('a group_db_scheme) tool"
  assumes tool_keep: "I s \<Longrightarrow> I (snd (tool run started_at s))"
begin

lemma supervised_keeps: "I s \<Longrightarrow> I (snd (supervised w (\<lambda>k. others (f k)) tool me started_at s))"
  unfolding supervised_def give_back_def
  by (assumption | rule at_last_keeps worker_rules tool_keep finish_run_keeps worker_failed_keeps)+

lemma claimed_run_keeps: "I s \<Longrightarrow> I (snd (claimed_run w (\<lambda>k. others (f k)) tool me before s))"
  unfolding claimed_run_def claim_lock_def Let_def
  by (assumption | rule worker_rules claim_keeps job_event_keeps supervised_keeps db_step run_step.recovery)+

lemma execute_run_keeps: "I s \<Longrightarrow> I (snd (execute_run w (\<lambda>k. others (f k)) tool me s))"
  unfolding execute_run_def
  by (assumption | rule worker_rules claimed_run_keeps db_step run_step.claim)+

end

context group_invariant
begin

lemma cancel_each_keeps: "I s \<Longrightarrow> I (snd (cancel_each env (\<lambda>k. others (f k)) run_id cs s))"
proof (induction cs arbitrary: s)
  case (Cons c cs)
  show ?case
    unfolding cancel_each.simps
    by (assumption | rule handler_rules cancel_run_keeps [where f = "\<lambda>k. f (2000 + 200 * length cs + k)"] Cons.IH Cons.prems)+
qed simp

lemma enforce_keeps: "I s \<Longrightarrow> I (snd (enforce_failure_policy env (\<lambda>k. others (f k)) run_id s))"
proof -
  have refresh: "I t \<Longrightarrow> I (snd (on_db (refresh_group g now) t))" for t g now
    by (rule group_step_db, assumption, rule group_step.refresh)
  show "I s \<Longrightarrow> ?thesis"
    unfolding enforce_failure_policy_def
    by (simp split: sum.split py_error.split)
      (auto intro!: worker_rules refresh cancel_each_keeps refill_keeps [where f = "\<lambda>k. f (400 + k)"])
qed

lemma main_keeps:
  assumes tool: "\<And>me run started_at t. I t \<Longrightarrow> I (snd (tool me run started_at t))" and "I s"
  shows "I (snd (job_worker_main w (\<lambda>k. others (f k)) tool run_id token s))"
proof -
  have swallow: "I t \<Longrightarrow> I (snd (m t)) \<Longrightarrow> I (snd (swallow m t))" for m :: "'a group_db_scheme node \<Rightarrow> ('a group_db_scheme node, 'b) outcome" and t
    by (simp add: swallow_def)
  have execute: "I t \<Longrightarrow> I (snd (execute_run w (\<lambda>k. others (f k)) (tool me) me t))" for me t
    by (rule tool_invariant.execute_run_keeps, unfold_locales) (rule tool)
  show ?thesis
    unfolding job_worker_main_def open_worker_def
    by (rule assms(2) | assumption | rule worker_rules swallow execute enforce_keeps [where f = "\<lambda>k. f (3000 + k)"] refill_keeps [where f = "\<lambda>k. f (800 + k)"])+
qed

end

end
