(* ===== verification/Job_Worker_Guarantees.thy ===== *)
theory Job_Worker_Guarantees
  imports Job_Worker_System
    Ownership
begin

text \<open>
  How the worker of a run ends. While the other processes leave the row of the run and the lock as the worker holds them, and the tool keeps the run
  running under its lease, the worker ends with the run over and the repository free, or with the cancellation pending and the repository kept.
  The heartbeat thread of the worker is among the processes that do so. A worker that cannot claim the run does nothing.
\<close>

section \<open>What the worker holds\<close>

text \<open>The lock under the lease, and the row with the status, the lease and the version.\<close>

definition row_held :: "job_worker \<Rightarrow> string \<Rightarrow> run_row \<Rightarrow> bool" where
  "row_held me st r = (r_status r = st \<and> r_worker_lease_token r = jw_token me \<and> r_lease_generation r = jw_generation me \<and>
     r_repo_name r = r_repo_name (jw_run me) \<and> r_tool r = r_tool (jw_run me) \<and> r_input_json r = r_input_json (jw_run me) \<and>
     r_run_dir r = r_run_dir (jw_run me))"

abbreviation our_repo :: "job_worker \<Rightarrow> string" where
  "our_repo me \<equiv> r_repo_name (jw_run me)"

abbreviation owned_by :: "job_worker \<Rightarrow> 'a lock_db_scheme \<Rightarrow> bool" where
  "owned_by me \<equiv> lock_owned (our_repo me) (jw_id me) (jw_token me) (jw_generation me)"

definition holds :: "job_worker \<Rightarrow> string \<Rightarrow> int \<Rightarrow> ('a lock_db_scheme) node \<Rightarrow> bool" where
  "holds me st v s = (owned_by me (n_db s) \<and> valid_run_id (jw_id me) \<and>
     (\<exists>r. run_by_id (jw_id me) (n_db s) = Some r \<and> row_held me st r \<and> r_state_version r = v))"

lemma holds_code [code]:
  "holds me st v s = (owned_by me (n_db s) \<and> valid_run_id (jw_id me) \<and>
     (case run_by_id (jw_id me) (n_db s) of None \<Rightarrow> False | Some r \<Rightarrow> row_held me st r \<and> r_state_version r = v))"
  by (simp add: holds_def split: option.split)

definition working :: "job_worker \<Rightarrow> ('a lock_db_scheme) node \<Rightarrow> bool" where
  "working me s = (\<exists>v. holds me ''running'' v s)"

definition settled_as :: "job_worker \<Rightarrow> string \<Rightarrow> ('a lock_db_scheme) node \<Rightarrow> bool" where
  "settled_as me st s = (valid_run_id (jw_id me) \<and> kept (our_repo me) (jw_id me) (jw_token me) (jw_generation me) st s)"

text \<open>Other processes that leave the row and the lock so, whatever else they do.\<close>

definition beside :: "job_worker \<Rightarrow> ('a lock_db_scheme) others \<Rightarrow> bool" where
  "beside me others =
     (\<forall>k s st. (\<forall>v. holds me st v s \<longrightarrow> holds me st v (others k s)) \<and> (settled_as me st s \<longrightarrow> settled_as me st (others k s)))"

lemma beside_keeps:
  assumes "beside me others"
  shows "holds me st v s \<Longrightarrow> holds me st v (others k s)" "working me s \<Longrightarrow> working me (others k s)"
    "settled_as me st s \<Longrightarrow> settled_as me st (others k s)"
  using assms unfolding beside_def working_def by blast+

lemma same_worker:
  assumes "row_held me st r" "r_run_id r = jw_id me"
  shows "holds (me\<lparr>jw_run := r\<rparr>) = holds me" "working (me\<lparr>jw_run := r\<rparr>) = working me" "beside (me\<lparr>jw_run := r\<rparr>) = beside me"
    "settled_as (me\<lparr>jw_run := r\<rparr>) = settled_as me"
proof -
  have r: "r_run_id r = jw_id me" "r_repo_name r = our_repo me" "r_tool r = r_tool (jw_run me)" "r_input_json r = r_input_json (jw_run me)"
      "r_run_dir r = r_run_dir (jw_run me)"
    using assms by (auto simp: row_held_def)
  show h: "holds (me\<lparr>jw_run := r\<rparr>) = holds me" by (intro ext) (simp add: holds_def row_held_def r)
  show "working (me\<lparr>jw_run := r\<rparr>) = working me" by (intro ext) (simp add: working_def h)
  show s: "settled_as (me\<lparr>jw_run := r\<rparr>) = settled_as me" by (intro ext) (simp add: settled_as_def r)
  show "beside (me\<lparr>jw_run := r\<rparr>) = beside me" by (intro ext) (simp add: beside_def h s)
qed

section \<open>Steps of a worker at work\<close>

lemma holds_update:
  assumes "holds me st v s" "n_db t = snd (conditional_update k fs g (n_db s))" "run_step (n_db s) (n_db t)"
    "list_all lease_free (normalize_update_values fs)" "\<not> bump_state_version g"
  shows "\<exists>v'. holds me st v' t" "\<not> bump_state_version_if_phase_changes g \<Longrightarrow> holds me st v t"
proof -
  have wf: "wf_runs (n_db s)" using assms(1) lock_owned_wf(2) by (auto simp: holds_def)
  have own: "owned_by me (n_db t)" "valid_run_id (jw_id me)" using assms(1) run_step_owned [OF assms(3)] by (auto simp: holds_def)
  obtain r where r: "run_by_id (jw_id me) (n_db s) = Some r" "row_held me st r" "r_state_version r = v" using assms(1) by (auto simp: holds_def)
  have P: "row_held me st (set_clause (normalize_update_values fs) g q)" if "row_held me st q" for q
    using that lease_free_row [OF assms(4)] by (simp add: row_held_def)
  show "\<exists>v'. holds me st v' t"
    using update_keeps_row [where P = "row_held me st", OF wf r(1,2) P] own by (auto simp: holds_def assms(2))
  assume v: "\<not> bump_state_version_if_phase_changes g"
  have "row_held me st (set_clause (normalize_update_values fs) g q) \<and> r_state_version (set_clause (normalize_update_values fs) g q) = v"
    if "row_held me st q \<and> r_state_version q = v" for q
    using P that assms(5) v by (simp add: set_clause_def)
  from update_keeps_row [where P = "\<lambda>q. row_held me st q \<and> r_state_version q = v", OF wf r(1) _ this] r own
  show "holds me st v t" by (auto simp: holds_def assms(2))
qed

lemma answered_db: "snd (answered c) = snd c"
  by (auto simp: answered_def split: prod.split sum.split)

lemma beat_fields_free:
  "list_all lease_free (normalize_update_values [F_heartbeat_at h, F_elapsed_seconds e, F_progress_json j])"
  "list_all lease_free (normalize_update_values [F_current_phase ph, F_heartbeat_at h, F_elapsed_seconds e, F_progress_json j])"
  by (auto simp: normalize_update_values_def progress_scalar_def lease_free_def split: option.split)

text \<open>The heartbeats and the progress reports leave the lease; the heartbeats also leave the version.\<close>

lemma heartbeat_holds:
  assumes "holds me st v s"
  shows "holds me st v (snd (on_db (heartbeat_worker k token el upd n now) s))"
proof (cases "get_run k (n_db s)")
  case Inl
  then show ?thesis using assms by (simp add: on_db_def heartbeat_worker_def)
next
  case (Inr current)
  let ?t = "snd (on_db (heartbeat_worker k token el upd n now) s)"
  have step: "run_step (n_db s) (n_db ?t)" by (simp only: on_db_snd) (rule run_step.worker_heartbeat)
  show ?thesis
    by (rule holds_update(2) [where k = k and fs = "[F_heartbeat_at (Some now), F_elapsed_seconds el,
          F_progress_json (JObj (jupdate (as_object (r_progress_json current)) (case upd of None \<Rightarrow> [] | Some u \<Rightarrow> u)))]"
        and g = "(running_guard token (case n of None \<Rightarrow> r_lease_generation current | Some x \<Rightarrow> x))\<lparr>bump_state_version := False\<rparr>",
        OF assms _ step])
      (simp_all add: on_db_snd heartbeat_worker_def Inr answered_db beat_fields_free Let_def running_guard_def default_guard_def)
qed

lemma progress_holds: "holds me st v s \<Longrightarrow> \<exists>v'. holds me st v' (snd (on_db (update_worker_progress k token gen phase el prog now) s))"
  by (rule holds_update(1) [where k = k and fs = "[F_current_phase phase, F_heartbeat_at (Some now), F_elapsed_seconds el,
        F_progress_json (JObj (case prog of None \<Rightarrow> [] | Some d \<Rightarrow> d))]" and g = "(running_guard token gen)\<lparr>bump_state_version := False,
        bump_state_version_if_phase_changes := True\<rparr>"], assumption)
    (simp_all add: on_db_snd update_worker_progress_def answered_db beat_fields_free run_step.progress [unfolded update_worker_progress_def answered_db])

lemma beat_holds: "holds me st v s \<Longrightarrow> holds me st v (snd (beat_lock w me n s))"
  by (simp add: beat_lock_def holds_def split_beta beat_owned run_by_id_def)

section \<open>The heartbeat beside the worker\<close>

lemma settled_update:
  assumes "settled_as me st s" "run_step (n_db s) db'" "db' = snd (conditional_update k fs g (n_db s))" "list_all lease_free (normalize_update_values fs)"
  shows "settled_as me st (s\<lparr>n_db := db'\<rparr>)"
proof -
  have wf: "wf_runs (n_db s)" using assms(1) lock_owned_wf(2) by (auto simp: settled_as_def kept_def)
  obtain r where r: "run_by_id (jw_id me) (n_db s) = Some r" "r_status r = st" using assms(1) by (auto simp: settled_as_def kept_def)
  have "\<exists>r. run_by_id (jw_id me) (snd (conditional_update k fs g (n_db s))) = Some r \<and> r_status r = st"
    by (rule update_keeps_row [OF wf r(1)]) (use r(2) lease_free_row [OF assms(4)] in auto)
  then show ?thesis using assms(1) run_step_owned [OF assms(2)] by (auto simp: settled_as_def kept_def assms(3))
qed

lemma heartbeat_settled:
  assumes "settled_as me st s"
  shows "settled_as me st (snd (on_db (heartbeat_worker k token el upd n now) s))"
proof (cases "get_run k (n_db s)")
  case Inl
  then show ?thesis using assms by (simp add: on_db_def heartbeat_worker_def)
next
  case (Inr current)
  let ?db = "snd (heartbeat_worker k token el upd n now (n_db s))"
  have t: "snd (on_db (heartbeat_worker k token el upd n now) s) = s\<lparr>n_db := ?db\<rparr>" by (simp add: on_db_def split_beta)
  show ?thesis unfolding t
    by (rule settled_update [where k = k and fs = "[F_heartbeat_at (Some now), F_elapsed_seconds el,
          F_progress_json (JObj (jupdate (as_object (r_progress_json current)) (case upd of None \<Rightarrow> [] | Some u \<Rightarrow> u)))]", OF assms run_step.worker_heartbeat])
      (simp_all add: heartbeat_worker_def Inr answered_db beat_fields_free Let_def)
qed

lemma beat_settled: "settled_as me st s \<Longrightarrow> settled_as me st (snd (beat_lock w me n s))"
  by (simp add: beat_lock_def settled_as_def kept_def split_beta beat_owned run_by_id_def)

text \<open>The heartbeat thread of the worker itself is such a process.\<close>

lemma heartbeat_beside:
  fixes others :: "('a lock_db_scheme) others"
  assumes "beside me others"
  shows "beside me (\<lambda>_ s. snd (heartbeat_turn w others me s))"
proof -
  have turn: "P (snd (heartbeat_turn w others me s))" if "P s" "\<And>t k. P t \<Longrightarrow> P (others k t)"
      "\<And>t k token el upd n now. P t \<Longrightarrow> P (snd (on_db (heartbeat_worker k token el upd n now) t))"
      "\<And>t n. P t \<Longrightarrow> P (snd (beat_lock w me n t))" for P and s :: "('a lock_db_scheme) node"
  proof -
    have "triple P (heartbeat_turn w others me) (\<lambda>_. P) P"
      unfolding heartbeat_turn_def
      by (rule triple_attempt, rule triple_chain, rule triple_keeps, erule that(3), rule triple_after, erule that(2), rule triple_chain,
          rule triple_keeps, erule that(4), rule triple_give, assumption, rule triple_give)
    then show ?thesis using that(1) by (rule triple_snd)
  qed
  have "holds me st v s \<Longrightarrow> holds me st v (snd (heartbeat_turn w others me s))" for st v s
    by (rule turn [where P = "holds me st v"]) (assumption | erule beside_keeps(1) [OF assms] heartbeat_holds beat_holds)+
  moreover have "settled_as me st s \<Longrightarrow> settled_as me st (snd (heartbeat_turn w others me s))" for st s
    by (rule turn [where P = "settled_as me st"]) (assumption | erule beside_keeps(3) [OF assms] heartbeat_settled beat_settled)+
  ultimately show ?thesis unfolding beside_def by blast
qed

section \<open>The worker, step by step\<close>


lemma event_rows: "run_by_id j (snd (append_event k level stage msg data ts False now db)) = run_by_id j db"
  by (simp add: append_event_def insert_event_def Let_def run_by_id_def)

lemma note_event_holds: "holds me st v s \<Longrightarrow> holds me st v (snd (note_event env run level stage msg data False s))"
  "settled_as me st s \<Longrightarrow> settled_as me st (snd (note_event env run level stage msg data False s))"
proof -
  have "run_step (n_db s) (n_db (snd (note_event env run level stage msg data False s)))"
    by (simp only: note_event_db) (rule run_step.event)
  note own = run_step_owned [OF this]
  show "holds me st v s \<Longrightarrow> holds me st v (snd (note_event env run level stage msg data False s))"
    using own by (simp add: holds_def note_event_db event_rows)
  show "settled_as me st s \<Longrightarrow> settled_as me st (snd (note_event env run level stage msg data False s))"
    using own by (simp add: settled_as_def kept_def note_event_db event_rows)
qed

lemma job_event_triple:
  fixes others :: "('a lock_db_scheme) others"
  assumes "beside me others"
  shows "triple (working me) (job_event w others me level stage msg data) (\<lambda>_. working me) (working me)"
proof -
  note W = beside_keeps(2) [OF assms]
  have p: "working me s \<Longrightarrow> working me (snd (on_db (update_worker_progress (jw_id me) (jw_token me) (jw_generation me) stage el d now) s))"
    for el d now and s :: "('a lock_db_scheme) node"
    unfolding working_def by (elim exE) (rule progress_holds)
  have b: "working me s \<Longrightarrow> working me (snd (beat_lock w me n s))" for n and s :: "('a lock_db_scheme) node"
    unfolding working_def by (elim exE) (rule exI, erule beat_holds)
  have e: "working me s \<Longrightarrow> working me (snd (note_event env run level stage msg d False s))" for env run d and s :: "('a lock_db_scheme) node"
    unfolding working_def by (elim exE) (rule exI, erule note_event_holds)
  show ?thesis
    unfolding job_event_def
    by (rule triple_chain, rule triple_keeps, erule p, rule triple_if, rule triple_give, assumption, rule triple_after, erule W, rule triple_chain,
        rule triple_keeps, erule b, rule triple_if, rule triple_give, assumption, rule triple_after, erule W, rule triple_chain, rule triple_keeps,
        erule e, rule triple_give, assumption)
qed

lemma read_holds: "triple (holds me st v) (read_run (jw_id me)) (\<lambda>r s. (row_held me st r \<and> r_run_id r = jw_id me \<and> r_state_version r = v) \<and> holds me st v s) (\<lambda>_. False)"
  by (rule tripleI) (auto simp: holds_def read_run_def get_run_def run_by_id_key)

lemma read_settled: "triple (settled_as me st) (read_run (jw_id me)) (\<lambda>r s. r_status r = st \<and> settled_as me st s) (\<lambda>_. False)"
  by (rule tripleI) (auto simp: settled_as_def kept_def read_run_def get_run_def)

text \<open>What ends a run for its worker.\<close>

lemma pending_open: "\<not> is_terminal ''cancellation_pending''" "\<not> is_terminal ''running''"
  by (simp_all add: is_terminal_def TERMINAL_STATUSES_def)

text \<open>\<open>ok\<close> is what a run recorded as completed stands for.\<close>

definition ending :: "bool \<Rightarrow> string \<Rightarrow> bool" where
  "ending ok st = ((is_terminal st \<or> st = ''cancellation_pending'') \<and> (st = ''completed'' \<longrightarrow> ok))"

lemma terminal_persist:
  assumes "is_terminal (tr_status rep)" "''running'' \<in> set ss"
  shows "triple (holds me ''running'' v) (on_db (transition_terminal (jw_id me) rep ss v (Some (jw_token me)) (Some (jw_generation me)) None now))
    (\<lambda>x s. x \<noteq> None \<and> settled_as me (tr_status rep) s) (\<lambda>_. False)"
proof (rule tripleI)
  fix s :: "('a lock_db_scheme) node" assume s: "holds me ''running'' v s"
  then obtain r where r: "run_by_id (jw_id me) (n_db s) = Some r" "row_held me ''running'' r" "r_state_version r = v" by (auto simp: holds_def)
  have wf: "wf_runs (n_db s)" "valid_run_id (jw_id me)" "owned_by me (n_db s)" using s lock_owned_wf(2) by (auto simp: holds_def)
  have g: "r_status r \<in> set ss" "\<not> is_terminal (r_status r)" "opt_is (Some (jw_token me)) (r_worker_lease_token r)"
      "opt_is (Some (jw_generation me)) (r_lease_generation r)" "opt_is None (r_heartbeat_at r)"
    using r(2) assms(2) by (auto simp: row_held_def opt_is_def is_terminal_def TERMINAL_STATUSES_def)
  obtain u db' where t: "transition_terminal (jw_id me) rep ss v (Some (jw_token me)) (Some (jw_generation me)) None now (n_db s) = (Inr (Some u), db')"
      "run_by_id (jw_id me) db' = Some u" "r_status u = tr_status rep"
    by (rule terminal_exact [OF wf(1,2) r(1) assms(1) g(1,2) r(3) g(3-5)])
  have "owned_by me db'"
    using run_step_owned [OF run_step.terminal wf(3), of "jw_id me" rep ss v "Some (jw_token me)" "Some (jw_generation me)" None now] t(1) by simp
  with t wf(2) show "case on_db (transition_terminal (jw_id me) rep ss v (Some (jw_token me)) (Some (jw_generation me)) None now) s of
      (Inr x, t) \<Rightarrow> x \<noteq> None \<and> settled_as me (tr_status rep) t | (Inl _, t) \<Rightarrow> False"
    by (simp add: on_db_def settled_as_def kept_def)
qed

lemma pending_persist:
  "triple (holds me ''running'' v) (on_db (worker_cancellation_pending (jw_id me) (jw_token me) (jw_generation me) v rep))
    (\<lambda>x s. x \<noteq> None \<and> settled_as me ''cancellation_pending'' s) (\<lambda>_. False)"
proof (rule tripleI)
  fix s :: "('a lock_db_scheme) node" assume s: "holds me ''running'' v s"
  then obtain r where r: "run_by_id (jw_id me) (n_db s) = Some r" "row_held me ''running'' r" "r_state_version r = v" by (auto simp: holds_def)
  have wf: "wf_runs (n_db s)" "valid_run_id (jw_id me)" "owned_by me (n_db s)" using s lock_owned_wf(2) by (auto simp: holds_def)
  define fs where "fs = [F_current_phase ''cancellation_pending'', F_ended_at None,
        F_duration_seconds (tr_duration_seconds rep), F_exit_code (tr_exit_code rep),
        F_summary (tr_summary rep), F_error (tr_error rep),
        F_safety_failure (tr_safety_failure rep), F_result_json (tr_result rep)]"
  define g where "g = (running_guard (jw_token me) (jw_generation me))\<lparr>expected_state_version := Some v, reject_terminal := True\<rparr>"
  let ?fs = "F_status ''cancellation_pending'' # fs"
  have def: "worker_cancellation_pending (jw_id me) (jw_token me) (jw_generation me) v rep db = conditional_update (jw_id me) ?fs g db" for db :: "'a lock_db_scheme"
    by (simp add: worker_cancellation_pending_def fs_def g_def)
  have "guard_holds g r" using r(2,3) by (simp add: g_def guard_holds_def running_guard_def default_guard_def opt_is_def row_held_def is_terminal_def TERMINAL_STATUSES_def)
  moreover have "update_args_ok ?fs g" "expected_statuses g \<noteq> Some []"
    by (simp_all add: update_args_ok_def fs_def g_def running_guard_def default_guard_def CONDITIONAL_UPDATE_FIELDS_def)
  ultimately have u: "conditional_update (jw_id me) ?fs g (n_db s) =
      (Inr (Some (set_clause (normalize_update_values ?fs) g r)), put_run (jw_id me) (set_clause (normalize_update_values ?fs) g r) (n_db s))"
    using conditional_update_ok [OF wf(1,2)] r(1) by simp
  have st: "r_status (set_clause (normalize_update_values ?fs) g r) = ''cancellation_pending''"
    by (rule status_written) (simp add: fs_def)
  have "r_run_id (set_clause (normalize_update_values ?fs) g r) = jw_id me" using run_by_id_key [OF r(1)] by simp
  moreover have "owned_by me (snd (conditional_update (jw_id me) ?fs g (n_db s)))"
    unfolding def [symmetric] by (rule run_step_owned [OF run_step.worker_cancellation wf(3)])
  ultimately show "case on_db (worker_cancellation_pending (jw_id me) (jw_token me) (jw_generation me) v rep) s of
      (Inr x, t) \<Rightarrow> x \<noteq> None \<and> settled_as me ''cancellation_pending'' t | (Inl _, t) \<Rightarrow> False"
    using u st wf(2) r(1) by (simp add: on_db_def def settled_as_def kept_def run_by_id_put_run)
qed

text \<open>A run that is settled is not settled_as again.\<close>

lemma no_row_triple:
  assumes "\<And>s. P s \<Longrightarrow> no_row (n_db s) (f (n_db s))"
  shows "triple P (on_db f) (\<lambda>x s. x = None \<and> P s) P"
proof (rule tripleI)
  fix s assume s: "P s"
  with assms [OF s] show "case on_db f s of (Inr x, t) \<Rightarrow> x = None \<and> P t | (Inl _, t) \<Rightarrow> P t"
    by (auto simp: on_db_def no_row_def split: prod.split sum.split option.splits)
qed

lemma settled_missed:
  assumes "settled_as me st s" "st \<noteq> ''running''" "expected_statuses g = Some [''running'']"
  shows "no_row (n_db s) (conditional_update (jw_id me) fs g (n_db s))"
  using assms lock_owned_wf(2) by (intro no_row_update) (auto simp: settled_as_def kept_def guard_holds_def)

lemma settled_again:
  assumes "ending ok st"
  shows "triple (settled_as me st) (persist_failure w me known d current) (\<lambda>x s. x = None \<and> settled_as me st s) (settled_as me st)"
proof -
  have st: "st \<noteq> ''running''" using assms by (auto simp: ending_def is_terminal_def TERMINAL_STATUSES_def)
  have t: "settled_as me st s \<Longrightarrow> no_row (n_db s) (transition_terminal (jw_id me) rep [''running''] v tok gen hb now (n_db s))"
    for rep v tok gen hb now and s :: "('a lock_db_scheme) node"
    by (simp add: transition_terminal_def settled_missed [OF _ st]) (simp add: no_row_def)
  have p: "settled_as me st s \<Longrightarrow> no_row (n_db s) (worker_cancellation_pending (jw_id me) tok gen v rep (n_db s))"
    for rep v tok gen and s :: "('a lock_db_scheme) node"
    unfolding worker_cancellation_pending_def by (rule settled_missed [OF _ st]) (simp_all add: running_guard_def)
  show ?thesis
    unfolding persist_failure_def Let_def
    by (rule triple_if) (rule no_row_triple, erule p, rule no_row_triple, erule t)
qed

text \<open>Publication and events leave a settled run.\<close>

lemma settled_invariant:
  fixes others :: "('a lock_db_scheme) others"
  assumes "beside me others" "is_terminal st"
  shows "run_invariant (settled_as me st) others"
proof (cases "valid_run_id (jw_id me)")
  case True
  with beside_keeps(3) [OF assms(1), unfolded settled_as_def] have "kept (our_repo me) (jw_id me) (jw_token me) (jw_generation me) st s \<Longrightarrow>
      kept (our_repo me) (jw_id me) (jw_token me) (jw_generation me) st (others j s)" for j s by blast
  from kept_invariant [OF assms(2) this] True show ?thesis by (simp add: settled_as_def [abs_def])
qed (unfold_locales, simp_all add: settled_as_def)

lemma publish_triples:
  fixes others :: "('a lock_db_scheme) others"
  assumes "beside me others" "is_terminal st"
  shows "triple (settled_as me st) (publish_run env others k) (\<lambda>_. settled_as me st) (settled_as me st)"
    "triple (settled_as me st) (publish_worker w others me) (\<lambda>_. settled_as me st) (settled_as me st)"
proof -
  note I = settled_invariant [OF assms]
  show p: "triple (settled_as me st) (publish_run env others k) (\<lambda>_. settled_as me st) (settled_as me st)" for env k
    using run_invariant.publish_run_keeps [OF I, where f = "\<lambda>k. k"] by (intro triple_keeps) blast
  have e: "triple (settled_as me st :: ('a lock_db_scheme) node \<Rightarrow> bool) (on_db (append_event k level stage msg data None False now)) (\<lambda>_. settled_as me st) (settled_as me st)" for k level stage msg data now
    by (rule triple_keeps, rule run_invariant.db_step [OF I], assumption, rule run_step.event)
  show "triple (settled_as me st) (publish_worker w others me) (\<lambda>_. settled_as me st) (settled_as me st)"
    unfolding publish_worker_def
    by (rule triple_chain, rule p, rule triple_if, rule triple_give, assumption, rule triple_after, erule beside_keeps(3) [OF assms(1)],
        rule triple_chain, rule e, rule triple_give, assumption)
qed

lemma note_triple: "triple (settled_as me st) (note_event env run level stage msg data False) (\<lambda>_. settled_as me st) (settled_as me st)"
  by (rule triple_keeps) (erule note_event_holds(2))

section \<open>The result\<close>

text \<open>The run is settled, and an exit code 0 is for a run that neither failed nor is left pending.\<close>

definition reported :: "job_worker \<Rightarrow> bool \<Rightarrow> int \<Rightarrow> ('a lock_db_scheme) node \<Rightarrow> bool" where
  "reported me ok code s = (\<exists>st. (ending ok st \<and> (code = 0 \<longrightarrow> st \<notin> {''failed'', ''cancellation_pending''})) \<and> settled_as me st s)"

abbreviation over :: "job_worker \<Rightarrow> bool \<Rightarrow> ('a lock_db_scheme) node \<Rightarrow> bool" where
  "over me ok s \<equiv> \<exists>st. ending ok st \<and> settled_as me st s"

lemma announce_triple:
  fixes others :: "('a lock_db_scheme) others"
  assumes b: "beside me others" and st: "ending ok st"
  shows "triple (settled_as me st) (announce_result w others me st d) (reported me ok) (settled_as me st)"
proof -
  note S = beside_keeps(3) [OF b]
  have say: "triple (settled_as me st) (after others 73 (chain (note_event (ww_job w) (jw_run me) (result_level st) ''result'' (''Run '' @ st)
         [(''exit_code'', field ''exit_code'' d)] False) (\<lambda>_. give (if st \<in> {''failed'', ''cancellation_pending''} \<and> exit_of d = 0 then 1 else exit_of d))))
      (reported me ok) (settled_as me st)"
    by (rule triple_after, erule S, rule triple_chain, rule note_triple, rule triple_give) (use st in \<open>auto simp: reported_def\<close>)
  show ?thesis
    unfolding announce_result_def
    by (rule triple_chain, rule triple_if, rule triple_after, erule S, rule publish_triples [OF b], assumption, rule triple_give, assumption, rule say)
qed

lemma persist_triple:
  fixes me :: job_worker
  shows "triple (holds me ''running'' v) (persist_result w me st at_end d (r\<lparr>r_state_version := v\<rparr>))
     (\<lambda>x s. (x \<noteq> None \<and> ending True st) \<and> settled_as me st s)
     (working me :: ('a lock_db_scheme) node \<Rightarrow> bool)"
proof -
  define Q :: "run_row option \<Rightarrow> ('a lock_db_scheme) node \<Rightarrow> bool" where "Q = (\<lambda>x s. (x \<noteq> None \<and> ending True st) \<and> settled_as me st s)"
  have weak: "triple (holds me ''running'' v) m Q (working me)"
    if "triple (holds me ''running'' v) m (\<lambda>x s. x \<noteq> None \<and> settled_as me st s) (\<lambda>_. False)" "ending True st" for m
    by (rule triple_weaken [OF that(1)]) (use that(2) in \<open>auto simp: Q_def\<close>)
  have raise: "triple (holds me ''running'' v) (throw e) Q (working me)" for e
    by (rule triple_throw) (auto simp: working_def)
  have rep: "tr_status (result_report st at_end x d) = st" for x by (simp add: result_report_def)
  have final: "triple (holds me ''running'' v) (on_db (transition_terminal (jw_id me) (result_report st at_end x d) ss v (Some (jw_token me))
      (Some (jw_generation me)) None now)) Q (working me)" if "is_terminal st" "''running'' \<in> set ss" for x ss now
    by (rule weak, rule terminal_persist [where rep = "result_report st at_end x d", unfolded rep]) (use that in \<open>simp_all add: ending_def\<close>)
  have pending: "triple (holds me ''running'' v) (on_db (worker_cancellation_pending (jw_id me) (jw_token me) (jw_generation me) v r)) Q (working me)"
    if "st = ''cancellation_pending''" for r
    by (rule weak, unfold that, rule pending_persist) (simp add: ending_def)
  show ?thesis
    unfolding persist_result_def Q_def [symmetric]
    by (simp add: raise pending final pending_open split: sum.split)
qed

abbreviation busy_or_over :: "job_worker \<Rightarrow> bool \<Rightarrow> ('a lock_db_scheme) node \<Rightarrow> bool" where
  "busy_or_over me ok s \<equiv> working me s \<or> over me ok s"

lemma finish_triple:
  fixes others :: "('a lock_db_scheme) others"
  assumes b: "beside me others" and d: "result_status d = ''completed'' \<longrightarrow> ok"
  shows "triple (working me) (finish_run w others me d) (reported me ok) (busy_or_over me ok)"
proof -
  let ?E = "busy_or_over me ok :: ('a lock_db_scheme) node \<Rightarrow> bool" and ?st = "result_status d"
  have ends: "ending ok ?st" if "ending True ?st" using that d by (simp add: ending_def)
  have rest: "triple (\<lambda>s. (x \<noteq> None \<and> ending True ?st) \<and> settled_as me ?st s)
      (after others 69 (case x of None \<Rightarrow> result_lost w others me ?st d | Some _ \<Rightarrow> announce_result w others me ?st d)) (reported me ok) ?E" for x :: "run_row option"
    by (rule triple_fact, rule triple_after, erule beside_keeps(3) [OF b], clarsimp, rule triple_weaken [OF announce_triple [OF b ends]]) (use ends in auto)
  have persist: "triple (\<lambda>s. (row_held me ''running'' r \<and> r_run_id r = jw_id me \<and> r_state_version r = v) \<and> holds me ''running'' v s)
      (after others 68 (chain (persist_result w me ?st e d r) (\<lambda>x. after others 69 (case x of None \<Rightarrow> result_lost w others me ?st d
        | Some _ \<Rightarrow> announce_result w others me ?st d)))) (reported me ok) ?E" for r v e
  proof (rule triple_fact)
    assume "row_held me ''running'' r \<and> r_run_id r = jw_id me \<and> r_state_version r = v"
    then have r: "r = r\<lparr>r_state_version := v\<rparr>" by simp
    show "triple (holds me ''running'' v) (after others 68 (chain (persist_result w me ?st e d r) (\<lambda>x. after others 69 (case x of None \<Rightarrow>
        result_lost w others me ?st d | Some _ \<Rightarrow> announce_result w others me ?st d)))) (reported me ok) ?E"
      by (subst r, rule triple_after, erule beside_keeps(1) [OF b], rule triple_chain, rule triple_weaken [OF persist_triple], assumption, simp, rule rest)
  qed
  have read: "triple (holds me ''running'' v) (chain (read_run (jw_id me)) (\<lambda>current.
      after others 68 (chain (persist_result w me ?st e d current) (\<lambda>x. after others 69 (case x of None \<Rightarrow> result_lost w others me ?st d
        | Some _ \<Rightarrow> announce_result w others me ?st d))))) (reported me ok) ?E" for v e
    by (rule triple_chain, rule triple_weaken [OF read_holds], assumption, simp, rule persist)
  have "triple (holds me ''running'' v) (finish_run w others me d) (reported me ok) ?E" for v
  proof (cases "required ''ended_at'' d")
    case (Inl e)
    show ?thesis unfolding finish_run_def Inl sum.case by (rule triple_throw) (auto simp: working_def)
  next
    case (Inr e)
    show ?thesis unfolding finish_run_def Inr sum.case by (rule read)
  qed
  then show ?thesis unfolding working_def [abs_def] by (rule triple_some)
qed

section \<open>Failure\<close>

lemma failure_recorded:
  "triple (holds me ''running'' v :: ('a lock_db_scheme) node \<Rightarrow> bool) (persist_failure w me known d (r\<lparr>r_state_version := v\<rparr>))
     (\<lambda>x s. x \<noteq> None \<and> settled_as me (if known then ''cancellation_pending'' else ''failed'') s) (\<lambda>_. False)"
proof -
  have "is_terminal ''failed''" by (simp add: is_terminal_def TERMINAL_STATUSES_def)
  then have failed: "triple (holds me ''running'' v :: ('a lock_db_scheme) node \<Rightarrow> bool) (on_db (transition_terminal (jw_id me) (result_report ''failed'' t x d) [''running''] v (Some (jw_token me))
      (Some (jw_generation me)) None now)) (\<lambda>x s. x \<noteq> None \<and> settled_as me ''failed'' s) (\<lambda>_. False)" for t x now
    using terminal_persist [where ss = "[''running'']" and rep = "result_report ''failed'' t x d"] by (simp add: result_report_def)
  have v: "r_state_version (r\<lparr>r_state_version := v\<rparr>) = v" by simp
  show ?thesis by (cases known) (simp_all only: persist_failure_def Let_def if_True if_False v pending_persist failed simp_thms)
qed

lemma told_triple:
  fixes others :: "('a lock_db_scheme) others"
  assumes b: "beside me others"
  shows "triple (settled_as me (if known then ''cancellation_pending'' else ''failed''))
     (chain (if known then give () else publish_worker w others me) (\<lambda>_. after others 78 (chain (note_event env run ''error'' stage msg data False) (\<lambda>_. give 1))))
     (reported me ok) (over me ok)"
proof -
  let ?st = "if known then ''cancellation_pending'' else ''failed''"
  have st: "ending ok ?st" "\<not> known \<Longrightarrow> is_terminal ?st" by (simp_all add: ending_def is_terminal_def TERMINAL_STATUSES_def)
  have "triple (settled_as me ?st) (if known then give () else publish_worker w others me) (\<lambda>_. settled_as me ?st) (settled_as me ?st)"
    by (rule triple_if, rule triple_give, assumption, rule publish_triples [OF b], erule st)
  then have "triple (settled_as me ?st) (chain (if known then give () else publish_worker w others me) (\<lambda>_. after others 78
      (chain (note_event env run ''error'' stage msg data False) (\<lambda>_. give 1)))) (\<lambda>c s. c = 1 \<and> settled_as me ?st s) (settled_as me ?st)"
    by (rule triple_chain) (rule triple_after, erule beside_keeps(3) [OF b], rule triple_chain, rule note_triple, rule triple_give, simp)
  then show ?thesis by (rule triple_weaken) (use st in \<open>auto simp: reported_def\<close>)
qed

lemma beaten_triple:
  fixes others :: "('a lock_db_scheme) others"
  assumes b: "beside me others" and "ending ok st"
  shows "triple (settled_as me st) (chain (read_run (jw_id me)) (\<lambda>winner.
      chain (if is_terminal (r_status winner) then after others 79 (chain (publish_run env others (jw_id me)) (\<lambda>_. give ())) else give ()) (\<lambda>_. give 1)))
     (reported me ok) (over me ok)"
proof -
  have p: "triple (settled_as me st) (if is_terminal st then after others 79 (chain (publish_run env others (jw_id me)) (\<lambda>_. give ())) else give ())
      (\<lambda>_. settled_as me st) (settled_as me st)"
    by (rule triple_if, rule triple_after, erule beside_keeps(3) [OF b], rule triple_chain, erule publish_triples [OF b], rule triple_give, assumption,
        rule triple_give, assumption)
  have q: "triple (\<lambda>s. r_status r = st \<and> settled_as me st s)
      (chain (if is_terminal (r_status r) then after others 79 (chain (publish_run env others (jw_id me)) (\<lambda>_. give ())) else give ()) (\<lambda>_. give 1))
      (\<lambda>c s. c = 1 \<and> settled_as me st s) (settled_as me st)" for r
    by (rule triple_fact, simp only:, rule triple_chain, rule p, rule triple_give) simp
  have "triple (settled_as me st) (chain (read_run (jw_id me)) (\<lambda>winner.
      chain (if is_terminal (r_status winner) then after others 79 (chain (publish_run env others (jw_id me)) (\<lambda>_. give ())) else give ()) (\<lambda>_. give 1)))
     (\<lambda>c s. c = 1 \<and> settled_as me st s) (settled_as me st)"
    by (rule triple_chain, rule triple_weaken [OF read_settled], assumption, simp, rule q)
  then show ?thesis by (rule triple_weaken) (use assms in \<open>auto simp: reported_def\<close>)
qed

text \<open>The choice between the two ends of a failure.\<close>

definition failure_end ::
  "worker_world \<Rightarrow> ('a run_db_scheme) others \<Rightarrow> job_worker \<Rightarrow> py_error \<Rightarrow> bool \<Rightarrow> run_row option \<Rightarrow> ('a run_db_scheme) node \<Rightarrow>
   (('a run_db_scheme) node, int) outcome" where
  "failure_end w others me exc known persisted =
     (case persisted of
       Some _ \<Rightarrow>
         chain (if known then give () else publish_worker w others me) (\<lambda>_.
         after others 78 (chain (note_event (ww_job w) (jw_run me) ''error'' (if known then ''cancellation_pending'' else ''result'')
             (if known then ''Run requires remote recovery'' else ''Run failed'') [(''error'', JStr (exc_text exc))] False) (\<lambda>_. give 1)))
     | None \<Rightarrow>
         chain (read_run (jw_id me)) (\<lambda>winner.
         chain (if is_terminal (r_status winner) then after others 79 (chain (publish_run (ww_job w) others (jw_id me)) (\<lambda>_. give ())) else give ())
           (\<lambda>_. give 1)))"

definition failure_write ::
  "worker_world \<Rightarrow> ('a run_db_scheme) others \<Rightarrow> job_worker \<Rightarrow> py_error \<Rightarrow> bool \<Rightarrow> (string \<times> json) list \<Rightarrow> ('a run_db_scheme) node \<Rightarrow>
   (('a run_db_scheme) node, int) outcome" where
  "failure_write w others me exc known d =
     after others 75 (chain (read_run (jw_id me)) (\<lambda>current.
     after others 76 (chain (persist_failure w me known d current) (\<lambda>persisted. after others 77 (failure_end w others me exc known persisted)))))"

lemma worker_failed_parts:
  "worker_failed w others me started_at exc =
     chain (read_run (jw_id me)) (\<lambda>r. failure_write w others me exc (remote_known me r) (failure_document w me started_at exc r))"
  by (simp add: worker_failed_def failure_write_def failure_end_def Let_def)

lemma end_triples:
  fixes others :: "('a lock_db_scheme) others"
  assumes b: "beside me others"
  shows "triple (\<lambda>s. x \<noteq> None \<and> settled_as me (if known then ''cancellation_pending'' else ''failed'') s)
      (after others 77 (failure_end w others me exc known x)) (reported me ok) (over me ok)"
    "ending ok st \<Longrightarrow> triple (\<lambda>s. x = None \<and> settled_as me st s) (after others 77 (failure_end w others me exc known x)) (reported me ok) (over me ok)"
proof -
  note S = beside_keeps(3) [OF b]
  show "triple (\<lambda>s. x \<noteq> None \<and> settled_as me (if known then ''cancellation_pending'' else ''failed'') s)
      (after others 77 (failure_end w others me exc known x)) (reported me ok) (over me ok)"
  proof (rule triple_fact, rule triple_after, erule S)
    assume "x \<noteq> None"
    then obtain y where x: "x = Some y" by blast
    show "triple (settled_as me (if known then ''cancellation_pending'' else ''failed'')) (failure_end w others me exc known x) (reported me ok) (over me ok)"
      unfolding failure_end_def x option.case by (rule told_triple [OF b])
  qed
  show "triple (\<lambda>s. x = None \<and> settled_as me st s) (after others 77 (failure_end w others me exc known x)) (reported me ok) (over me ok)" if "ending ok st"
    by (rule triple_fact, rule triple_after, erule S, simp only: failure_end_def option.case) (rule beaten_triple [OF b that])
qed

lemma write_triples:
  fixes others :: "('a lock_db_scheme) others"
  assumes b: "beside me others"
  shows "triple (holds me ''running'' v) (failure_write w others me exc known d) (reported me ok) (over me ok)"
    "ending ok st \<Longrightarrow> triple (settled_as me st) (failure_write w others me exc known d) (reported me ok) (over me ok)"
proof -
  note H = beside_keeps(1) [OF b] and S = beside_keeps(3) [OF b]
  have recorded: "triple (\<lambda>s. (row_held me ''running'' r \<and> r_run_id r = jw_id me \<and> r_state_version r = v) \<and> holds me ''running'' v s)
      (after others 76 (chain (persist_failure w me known d r) (\<lambda>x. after others 77 (failure_end w others me exc known x)))) (reported me ok) (over me ok)" for r
  proof (rule triple_fact)
    assume "row_held me ''running'' r \<and> r_run_id r = jw_id me \<and> r_state_version r = v"
    then have r: "r = r\<lparr>r_state_version := v\<rparr>" by simp
    show "triple (holds me ''running'' v) (after others 76 (chain (persist_failure w me known d r)
        (\<lambda>x. after others 77 (failure_end w others me exc known x)))) (reported me ok) (over me ok)"
      by (subst r, rule triple_after, erule H, rule triple_chain, rule triple_weaken [OF failure_recorded], assumption, simp, rule end_triples(1) [OF b])
  qed
  show "triple (holds me ''running'' v) (failure_write w others me exc known d) (reported me ok) (over me ok)"
    unfolding failure_write_def
    by (rule triple_after, erule H, rule triple_chain, rule triple_weaken [OF read_holds], assumption, simp, rule recorded)
  assume st: "ending ok st"
  have again: "triple (\<lambda>s. r_status r = st \<and> settled_as me st s)
      (after others 76 (chain (persist_failure w me known d r) (\<lambda>x. after others 77 (failure_end w others me exc known x)))) (reported me ok) (over me ok)" for r
    by (rule triple_fact, rule triple_after, erule S, rule triple_chain, rule triple_weaken [OF settled_again [OF st]], assumption)
      (use st in blast, rule end_triples(2) [OF b st])
  show "triple (settled_as me st) (failure_write w others me exc known d) (reported me ok) (over me ok)"
    unfolding failure_write_def
    by (rule triple_after, erule S, rule triple_chain, rule triple_weaken [OF read_settled], assumption, simp, rule again)
qed

lemma failed_triple:
  fixes others :: "('a lock_db_scheme) others"
  assumes b: "beside me others"
  shows "triple (busy_or_over me ok) (worker_failed w others me started_at exc) (reported me ok) (over me ok)"
proof -
  have busy: "triple (working me) (worker_failed w others me started_at exc) (reported me ok) (over me ok)"
    unfolding worker_failed_parts working_def [abs_def]
    by (rule triple_some, rule triple_chain, rule triple_weaken [OF read_holds], assumption, simp, rule triple_fact, rule write_triples [OF b])
  have settled: "triple (over me ok) (worker_failed w others me started_at exc) (reported me ok) (over me ok)"
    unfolding worker_failed_parts
    by (rule triple_some, rule triple_fact, rule triple_chain, rule triple_weaken [OF read_settled], assumption, simp, rule triple_fact,
        erule write_triples [OF b])
  from triple_either [OF busy settled] show ?thesis .
qed

section \<open>Claim and release\<close>

lemma triple_at_last:
  assumes "triple P m Q E" "\<And>v. triple (Q v) c (\<lambda>_. R v) (\<lambda>_. False)" "triple E c (\<lambda>_. F) (\<lambda>_. False)"
  shows "triple P (at_last m c) R F"
  unfolding triple_def
proof (intro allI impI)
  fix s assume s: "P s"
  obtain v s1 where m: "m s = (v, s1)" by fastforce
  obtain x s2 where c: "c s1 = (x, s2)" by fastforce
  show "case at_last m c s of (Inl _, t) \<Rightarrow> F t | (Inr v, t) \<Rightarrow> R v t"
    using s m c assms(1,3) assms(2) by (cases v; cases x) (fastforce simp: at_last_def triple_def)+
qed

text \<open>What the worker leaves behind.\<close>

definition left_as :: "job_worker \<Rightarrow> string \<Rightarrow> ('a lock_db_scheme) node \<Rightarrow> bool" where
  "left_as me st s =
     (map_option r_status (run_by_id (jw_id me) (n_db s)) = Some st \<and>
      (if st = ''cancellation_pending'' then owned_by me (n_db s) else lock_by_repo (our_repo me) (n_db s) = None))"

lemma give_back_triple:
  fixes others :: "('a lock_db_scheme) others"
  assumes b: "beside me others" and l: "jw_locked me"
  shows "triple (settled_as me st) (after others 84 (give_back others me)) (\<lambda>_. left_as me st) (\<lambda>_. False)"
proof -
  note S = beside_keeps(3) [OF b]
  have rel: "triple (settled_as me st :: ('a lock_db_scheme) node \<Rightarrow> bool) (release_lock (our_repo me) (jw_id me) (jw_token me) (jw_generation me)) (\<lambda>_. left_as me st) (\<lambda>_. False)"
    if "st \<noteq> ''cancellation_pending''"
  proof (rule tripleI)
    fix s :: "('a lock_db_scheme) node" assume s: "settled_as me st s"
    then have o: "owned_by me (n_db s)" and r: "map_option r_status (run_by_id (jw_id me) (n_db s)) = Some st" by (auto simp: settled_as_def kept_def)
    from release_owned [OF o refl] r that
    show "case release_lock (our_repo me) (jw_id me) (jw_token me) (jw_generation me) s of (Inr v, t) \<Rightarrow> left_as me st t | (Inl _, t) \<Rightarrow> False"
      by (simp add: release_lock_def left_as_def)
  qed
  have keep: "triple (settled_as me ''cancellation_pending'' :: ('a lock_db_scheme) node \<Rightarrow> bool) (give ()) (\<lambda>_. left_as me ''cancellation_pending'') (\<lambda>_. False)"
    by (rule triple_give) (auto simp: settled_as_def kept_def left_as_def)
  have choose: "triple (\<lambda>s :: ('a lock_db_scheme) node. r_status r = st \<and> settled_as me st s)
      (if jw_locked me \<and> r_status r \<noteq> ''cancellation_pending''
       then after others 83 (release_lock (our_repo me) (jw_id me) (jw_token me) (jw_generation me)) else give ()) (\<lambda>_. left_as me st) (\<lambda>_. False)" for r
    by (rule triple_fact, rule triple_if, rule triple_after, erule S) (simp_all add: l rel keep)
  show ?thesis
    unfolding give_back_def
    by (rule triple_after, erule S, rule triple_chain, rule triple_weaken [OF read_settled], assumption, simp, rule choose)
qed

lemma left_as_code [code]:
  "left_as me st s = ((case run_by_id (jw_id me) (n_db s) of None \<Rightarrow> False | Some r \<Rightarrow> r_status r = st) \<and>
     (if st = ''cancellation_pending'' then owned_by me (n_db s) else lock_by_repo (our_repo me) (n_db s) = None))"
  by (simp add: left_as_def split: option.split)

definition concluded :: "job_worker \<Rightarrow> bool \<Rightarrow> int \<Rightarrow> ('a lock_db_scheme) node \<Rightarrow> bool" where
  "concluded me ok code s = (\<exists>st. (ending ok st \<and> (code = 0 \<longrightarrow> st \<notin> {''failed'', ''cancellation_pending''})) \<and> left_as me st s)"

text \<open>A tool that keeps the run running under its lease.\<close>

definition steady :: "job_worker \<Rightarrow> bool \<Rightarrow> ('a lock_db_scheme) tool \<Rightarrow> bool" where
  "steady me ok tool =
     (\<forall>run started_at. row_held me ''running'' run \<and> r_run_id run = jw_id me \<longrightarrow>
        triple (working me) (tool run started_at) (\<lambda>d s. (result_status (complete_result d) = ''completed'' \<longrightarrow> ok) \<and> working me s) (working me))"

lemma supervised_triple:
  fixes others :: "('a lock_db_scheme) others"
  assumes b: "beside me others" and l: "jw_locked me" and tool: "steady me ok tool" and r: "row_held me ''running'' (jw_run me)"
  shows "triple (working me) (supervised w others tool me started_at) (concluded me ok) (\<lambda>s. \<exists>st. ending ok st \<and> left_as me st s)"
proof -
  note W = beside_keeps(2) [OF b]
  have t: "triple (working me) (tool (jw_run me) started_at)
      (\<lambda>d s. (result_status (complete_result d) = ''completed'' \<longrightarrow> ok) \<and> working me s) (working me)"
    using tool r by (simp add: steady_def)
  have work: "triple (working me) (chain (tool (jw_run me) started_at) (\<lambda>d. after others 67 (finish_run w others me (complete_result d))))
      (reported me ok) (busy_or_over me ok)"
    by (rule triple_chain, rule triple_weaken [OF t], assumption, simp, rule triple_fact, rule triple_after, erule W, rule finish_triple [OF b])
  have failed: "triple (busy_or_over me ok) (after others 74 (worker_failed w others me started_at exc)) (reported me ok) (over me ok)" for exc
    by (rule triple_after [OF _ failed_triple [OF b]]) (use W beside_keeps(3) [OF b] in blast)
  show ?thesis
    unfolding supervised_def
  proof (rule triple_at_last, rule triple_attempt, rule work, rule failed)
    show "triple (reported me ok v) (after others 84 (give_back others me)) (\<lambda>_. concluded me ok v) (\<lambda>_. False)" for v
      unfolding reported_def [abs_def]
      by (rule triple_some, rule triple_fact, rule triple_weaken [OF give_back_triple [OF b l]]) (auto simp: concluded_def)
    show "triple (over me ok) (after others 84 (give_back others me)) (\<lambda>_ s. \<exists>st. ending ok st \<and> left_as me st s) (\<lambda>_. False)"
      by (rule triple_some, rule triple_fact, rule triple_weaken [OF give_back_triple [OF b l]]) auto
  qed
qed

lemma claim_triple:
  assumes "st \<in> {''launch_pending'', ''queued''}"
  shows "triple (holds me st v) (on_db (claim_worker (jw_id me) (jw_token me) pid ident (Some (jw_generation me)) (Some v) now))
    (\<lambda>c s. c \<and> working me s) (\<lambda>_. False)"
proof (rule tripleI)
  fix s :: "('a lock_db_scheme) node" assume s: "holds me st v s"
  then obtain r where r: "run_by_id (jw_id me) (n_db s) = Some r" "row_held me st r" "r_state_version r = v" by (auto simp: holds_def)
  have wf: "wf_runs (n_db s)" "valid_run_id (jw_id me)" "owned_by me (n_db s)" using s lock_owned_wf(2) by (auto simp: holds_def)
  define fs where "fs = [F_status ''running'', F_current_phase ''worker'', F_worker_pid (Some pid),
           F_worker_identity ident, F_worker_claimed_at (Some now),
           F_started_at (Some (or_now (r_started_at r) now)), F_heartbeat_at (Some now), F_recovery_reason []]"
  define g where "g = default_guard\<lparr>expected_statuses := Some [''launch_pending'', ''queued''],
             expected_state_version := Some v, expected_lease_token := Some (jw_token me),
             expected_lease_generation := Some (jw_generation me), reject_terminal := True\<rparr>"
  have def: "claim_worker (jw_id me) (jw_token me) pid ident (Some (jw_generation me)) (Some v) now (n_db s) =
      answered (conditional_update (jw_id me) fs g (n_db s))"
    using r(1) wf(2) by (simp add: claim_worker_answered get_run_def fs_def g_def)
  have "guard_holds g r"
    using r(2,3) assms by (auto simp: g_def guard_holds_def default_guard_def opt_is_def row_held_def is_terminal_def TERMINAL_STATUSES_def)
  moreover have "update_args_ok fs g" "expected_statuses g \<noteq> Some []"
    by (simp_all add: update_args_ok_def fs_def g_def default_guard_def CONDITIONAL_UPDATE_FIELDS_def)
  ultimately have u: "conditional_update (jw_id me) fs g (n_db s) =
      (Inr (Some (set_clause (normalize_update_values fs) g r)), put_run (jw_id me) (set_clause (normalize_update_values fs) g r) (n_db s))"
    using conditional_update_ok [OF wf(1,2)] r(1) by simp
  have "row_held me ''running'' (set_clause (normalize_update_values fs) g r)"
    using r(2) by (simp add: row_held_def fs_def g_def default_guard_def set_clause_def normalize_update_values_def progress_scalar_def)
  moreover have "r_run_id (set_clause (normalize_update_values fs) g r) = jw_id me" using run_by_id_key [OF r(1)] by simp
  moreover have "owned_by me (snd (answered (conditional_update (jw_id me) fs g (n_db s))))"
    unfolding def [symmetric] by (rule run_step_owned [OF run_step.claim wf(3)])
  ultimately show "case on_db (claim_worker (jw_id me) (jw_token me) pid ident (Some (jw_generation me)) (Some v) now) s of
      (Inr c, t) \<Rightarrow> c \<and> working me t | (Inl _, t) \<Rightarrow> False"
    using u wf(2) r(1) by (simp add: on_db_def def answered_def working_def holds_def run_by_id_put_run)
qed

text \<open>Binding and claiming the lock leave the lock with its owner, and the row but for its version.\<close>

lemma claim_owner_kept:
  assumes o: "lock_owned repo k tok gen db" and r: "run_by_id k db = Some r" "P r" "\<And>r. P r \<Longrightarrow> P (bumped r)"
  obtains db' where "claim_owner repo k pid tok (Some gen) now db = (Inr True, db')" "lock_owned repo k tok gen db'" "\<exists>r. run_by_id k db' = Some r \<and> P r"
proof -
  note wf = lock_owned_wf(1) [OF o]
  obtain l where l: "lock_by_repo repo db = Some l" "owns k (Some tok) (Some gen) l" using o by (auto simp: lock_owned_def)
  define actual where "actual = (if l_lease_generation l = 0 then 1 else l_lease_generation l)"
  define db1 where "db1 = snd (bind_in_connection repo k tok actual db)"
  define db2 where "db2 = lock_update repo (owns k (Some tok) (Some gen)) (\<lambda>l. l\<lparr>l_owner_pid := Some pid, l_heartbeat_at := now\<rparr>) db1"
  have 1: "wf_locks db1" "\<exists>l. lock_by_repo repo db1 = Some l \<and> owns k (Some tok) (Some gen) l"
    using bind_wf [OF wf] bind_lookup [OF wf, of repo repo k tok actual] l by (auto simp: db1_def bound_lock_def owns_def)
  have 2: "lock_owned repo k tok gen db2" using 1 by (auto simp: lock_owned_def db2_def lock_update_wf lock_update_lookup owns_def)
  have row: "\<exists>r. run_by_id k (bump_db k d) = Some r \<and> P r" if "\<exists>r. run_by_id k d = Some r \<and> P r" for d :: "'a lock_db_scheme"
    using that r(3) by (auto simp: bump_run_by_id)
  have "\<exists>r. run_by_id k db1 = Some r \<and> P r"
    using row [of db] r(1,2) bind_runs [OF wf, of repo k tok actual] l by (auto simp: db1_def run_by_id_def split: if_splits)
  then have 3: "\<exists>r. run_by_id k db2 = Some r \<and> P r" by (simp add: db2_def)
  have "claim_owner repo k pid tok (Some gen) now db = (Inr True, if pid_or_zero (l_owner_pid l) \<noteq> pid then bump_db k db2 else db2)"
    using l by (simp add: claim_owner_eq [OF wf] Let_def db2_def db1_def actual_def)
  then show thesis
    by (rule that) (use 2 3 row in \<open>auto simp: lock_owned_def\<close>)
qed

lemma claim_lock_triple:
  assumes "jw_locked me" "r_repo_name before = our_repo me"
  shows "triple (working me) (claim_lock w me before) (\<lambda>c s. c \<and> working me s) (\<lambda>_. False)"
proof (rule tripleI)
  fix s :: "('a lock_db_scheme) node" assume "working me s"
  then obtain r where s: "owned_by me (n_db s)" "valid_run_id (jw_id me)" "run_by_id (jw_id me) (n_db s) = Some r" "row_held me ''running'' r"
    by (auto simp: working_def holds_def)
  obtain db' where "claim_owner (our_repo me) (jw_id me) (je_pid (ww_job w)) (jw_token me) (Some (jw_generation me)) (je_clock (ww_job w) 51) (n_db s) = (Inr True, db')"
      "owned_by me db'" "\<exists>r. run_by_id (jw_id me) db' = Some r \<and> row_held me ''running'' r"
    by (rule claim_owner_kept [where P = "row_held me ''running''", OF s(1,3,4)]) (simp_all add: row_held_def bumped_def)
  with s(2) show "case claim_lock w me before s of (Inr c, t) \<Rightarrow> c \<and> working me t | (Inl _, t) \<Rightarrow> False"
    using assms by (auto simp: claim_lock_def on_db_def working_def holds_def)
qed

section \<open>The execution\<close>

lemma same_ends:
  assumes "row_held me st r" "r_run_id r = jw_id me"
  shows "left_as (me\<lparr>jw_run := r\<rparr>) = left_as me" "concluded (me\<lparr>jw_run := r\<rparr>) = concluded me" "steady (me\<lparr>jw_run := r\<rparr>) = steady me"
proof -
  have r: "r_run_id r = jw_id me" "r_repo_name r = our_repo me" using assms by (auto simp: row_held_def)
  show "left_as (me\<lparr>jw_run := r\<rparr>) = left_as me" "concluded (me\<lparr>jw_run := r\<rparr>) = concluded me"
    by (intro ext, simp add: concluded_def left_as_def r)+
  have "row_held (me\<lparr>jw_run := r\<rparr>) = row_held me" using assms by (intro ext) (auto simp: row_held_def)
  then show "steady (me\<lparr>jw_run := r\<rparr>) = steady me" by (intro ext) (simp add: steady_def same_worker [OF assms] r)
qed

lemma read_working:
  "triple (working me) (read_run (jw_id me)) (\<lambda>r s. (row_held me ''running'' r \<and> r_run_id r = jw_id me) \<and> working me s) (\<lambda>_. False)"
  unfolding working_def [abs_def] by (rule triple_some, rule triple_weaken [OF read_holds]) auto

abbreviation stopped :: "job_worker \<Rightarrow> bool \<Rightarrow> ('a lock_db_scheme) node \<Rightarrow> bool" where
  "stopped me ok s \<equiv> working me s \<or> (\<exists>st. ending ok st \<and> left_as me st s)"

lemma work_triple:
  fixes others :: "('a lock_db_scheme) others"
  assumes b: "beside me others" and l: "jw_locked me" and tool: "steady me ok tool" and r: "row_held me ''running'' r" "r_run_id r = jw_id me"
  shows "triple (working me) (after others 65 (chain (job_event w others (me\<lparr>jw_run := r\<rparr>) level stage msg d) (\<lambda>_.
      after others 66 (supervised w others tool (me\<lparr>jw_run := r\<rparr>) t)))) (concluded me ok) (stopped me ok)"
proof -
  let ?me = "me\<lparr>jw_run := r\<rparr>"
  note W = beside_keeps(2) [OF b] and same = same_worker [OF r] same_ends [OF r]
  have b': "beside ?me others" "steady ?me ok tool" "jw_locked ?me" "row_held ?me ''running'' (jw_run ?me)"
    using b tool l r by (simp_all add: same row_held_def)
  have sup: "triple (working me) (supervised w others tool ?me t) (concluded me ok) (\<lambda>s. \<exists>st. ending ok st \<and> left_as me st s)"
    using supervised_triple [OF b'(1,3,2,4), of w t] by (simp only: same)
  have ev: "triple (working me) (job_event w others ?me level stage msg d) (\<lambda>_. working me) (working me)"
    using job_event_triple [OF b'(1)] by (simp only: same)
  show ?thesis
    by (rule triple_after, erule W, rule triple_chain, rule triple_weaken [OF ev], assumption, simp, rule triple_after, erule W,
        rule triple_weaken [OF sup], assumption, simp)
qed

lemma claimed_triple:
  fixes others :: "('a lock_db_scheme) others"
  assumes b: "beside me others" and l: "jw_locked me" and tool: "steady me ok tool" and before: "r_repo_name before = our_repo me"
  shows "triple (working me) (claimed_run w others tool me before) (concluded me ok) (stopped me ok)"
proof -
  note W = beside_keeps(2) [OF b]
  have go: "triple (\<lambda>s. (row_held me ''running'' r \<and> r_run_id r = jw_id me) \<and> working me s)
      (if jw_token me \<noteq> [] \<and> \<not> True then refuse r
       else let me' = me\<lparr>jw_run := r\<rparr> in
         after others 65 (chain (job_event w others me' ''info'' ''worker'' ''Worker claimed durable execution lease'' d) (\<lambda>_.
           after others 66 (supervised w others tool me' (started_of w r))))) (concluded me ok) (stopped me ok)" for r refuse d
    by (rule triple_fact) (simp add: Let_def work_triple [OF b l tool])
  have read: "triple (\<lambda>s. c \<and> working me s)
      (after others 63 (chain (read_run (jw_id me)) (\<lambda>r.
       if jw_token me \<noteq> [] \<and> \<not> c then refuse r
       else let me' = me\<lparr>jw_run := r\<rparr> in
         after others 65 (chain (job_event w others me' ''info'' ''worker'' ''Worker claimed durable execution lease'' d) (\<lambda>_.
           after others 66 (supervised w others tool me' (started_of w r))))))) (concluded me ok) (stopped me ok)" for c refuse d
    by (rule triple_fact, rule triple_after, erule W, rule triple_chain, rule triple_weaken [OF read_working], assumption, simp)
      (simp only: go)
  show ?thesis
    unfolding claimed_run_def
    by (rule triple_after, erule W, rule triple_chain, rule triple_weaken [OF claim_lock_triple [OF l before]], assumption, simp, rule read)
qed

lemma execute_triple:
  fixes others :: "('a lock_db_scheme) others"
  assumes b: "beside me others" and l: "jw_locked me" and tool: "steady me ok tool" and st: "st \<in> {''launch_pending'', ''queued''}"
  shows "triple (holds me st v) (execute_run w others tool me) (concluded me ok) (stopped me ok)"
proof -
  note H = beside_keeps(1) [OF b] and W = beside_keeps(2) [OF b]
  have claim: "triple (\<lambda>s. (row_held me st r \<and> r_run_id r = jw_id me \<and> r_state_version r = v) \<and> holds me st v s)
      (if r_status r = ''cancelled'' then give 0
       else after others 61 (chain (on_db (claim_worker (jw_id me) (jw_token me) pid identity (Some (jw_generation me)) (Some (r_state_version r)) now))
         (\<lambda>c. if \<not> c then give 1 else claimed_run w others tool me r))) (concluded me ok) (stopped me ok)" for r pid identity now
  proof (rule triple_fact)
    assume r: "row_held me st r \<and> r_run_id r = jw_id me \<and> r_state_version r = v"
    have go: "triple (\<lambda>s. c \<and> working me s) (if \<not> c then give 1 else claimed_run w others tool me r) (concluded me ok) (stopped me ok)" for c
      by (rule triple_fact) (use r in \<open>simp add: claimed_triple [OF b l tool] row_held_def\<close>)
    have "triple (holds me st v) (after others 61 (chain (on_db (claim_worker (jw_id me) (jw_token me) pid identity (Some (jw_generation me)) (Some v) now))
         (\<lambda>c. if \<not> c then give 1 else claimed_run w others tool me r))) (concluded me ok) (stopped me ok)"
      by (rule triple_after, erule H, rule triple_chain, rule triple_weaken [OF claim_triple [OF st]], assumption, simp, rule go)
    then show "triple (holds me st v) (if r_status r = ''cancelled'' then give 0
       else after others 61 (chain (on_db (claim_worker (jw_id me) (jw_token me) pid identity (Some (jw_generation me)) (Some (r_state_version r)) now))
         (\<lambda>c. if \<not> c then give 1 else claimed_run w others tool me r))) (concluded me ok) (stopped me ok)"
      using r st by (auto simp: row_held_def)
  qed
  show ?thesis
    unfolding execute_run_def
    by (rule triple_chain, rule triple_weaken [OF read_holds], assumption, simp, rule claim)
qed

text \<open>C9. A worker settles its run. When the run is launched, the repository is locked under its lease, the other processes meanwhile leave that row and
  that lock as they are, and the tool keeps the run running, then whenever the worker returns an exit code the run is over and the repository is
  free again, or the cancellation is pending and the repository is still kept for it; and the code is 0 only for a run that did not fail and is
  not left pending. When the worker raises instead, either that holds all the same, or the work never began: the run is running and locked, for the
  recovery to find.\<close>

theorem worker_settles:
  assumes "beside me others" "steady me ok tool" "jw_locked me" "st \<in> {''launch_pending'', ''queued''}" "holds me st v s"
    "execute_run w others tool me s = (res, t)"
  shows "case res of Inr code \<Rightarrow> concluded me ok code t | Inl e \<Rightarrow> working me t \<or> (\<exists>st. ending ok st \<and> left_as me st t)"
  using execute_triple [OF assms(1,3,2,4), of v w] assms(5,6) by (fastforce simp: triple_def split: sum.splits)

text \<open>The heartbeat does not race the result. If the other processes leave the row and the lock of the run to its worker, they still do when
  any number of turns of the worker's own heartbeat thread come between its steps: a heartbeat renews the lock and the progress, but neither the
  lease nor the version that the result is stored under.\<close>

theorem heartbeat_never_races:
  assumes "beside me others"
  shows "beside me (\<lambda>k s. ((\<lambda>u. snd (heartbeat_turn w others me u)) ^^ turns k) (others k s))"
proof -
  have turn: "holds me st v (((\<lambda>u. snd (heartbeat_turn w others me u)) ^^ n) u)" if "holds me st v u" for st v n u
    using beside_keeps(1) [OF heartbeat_beside [OF assms]] that by (induction n) auto
  have turn': "settled_as me st (((\<lambda>u. snd (heartbeat_turn w others me u)) ^^ n) u)" if "settled_as me st u" for st n u
    using beside_keeps(3) [OF heartbeat_beside [OF assms]] that by (induction n) auto
  show ?thesis
    using turn turn' beside_keeps(1,3) [OF assms] unfolding beside_def by blast
qed

text \<open>A worker that cannot claim its run does nothing. When the lease it shows is no longer that of the run, or the run is past its launch, it
  writes nothing, leaves the tool alone (any tool gives the same), and returns 1 if it returns.\<close>

theorem unclaimed_worker_idle:
  assumes "wf_runs (n_db (others 61 s))" "get_run (jw_id me) (n_db s) = Inr before" "r_status before \<noteq> ''cancelled''"
    "run_by_id (jw_id me) (n_db (others 61 s)) = Some r" "stale_lease (jw_token me) (jw_generation me) r \<or> \<not> prelaunch (r_status r)"
    "execute_run w others tool me s = (res, t)"
  shows "t = others 61 s \<and> (\<forall>code. res = Inr code \<longrightarrow> code = 1) \<and> (\<forall>tool'. execute_run w others tool' me s = (res, t))"
proof -
  define c where "c = claim_worker (jw_id me) (jw_token me) (je_pid (ww_job w)) (process_identity (je_world (ww_job w) 50) (Some (je_pid (ww_job w))))
     (Some (jw_generation me)) (Some (r_state_version before)) (je_clock (ww_job w) 50) (n_db (others 61 s))"
  have "no_success (n_db (others 61 s)) c"
    unfolding c_def using assms(5) stale_lease_changes_nothing [OF assms(1,4)] claim_after_launch [OF assms(1,4)] by blast
  then have c: "snd c = n_db (others 61 s)" "fst c \<noteq> Inr True" by (simp_all add: no_success_def)
  have "execute_run w others tool' me s = (case fst c of Inl e \<Rightarrow> Inl e | Inr _ \<Rightarrow> Inr 1, others 61 s)" for tool'
    using assms(2,3) c by (cases c; cases "fst c") (auto simp: execute_run_def chain_def read_run_def after_def on_db_def c_def [symmetric] give_def)
  with assms(6) show ?thesis by (auto split: sum.splits)
qed

section \<open>Concrete instances\<close>

text \<open>The run of \<open>sample_held\<close> is launched and holds the repository; its tool reports progress and succeeds.\<close>

definition sample_worker_world :: worker_world where
  "sample_worker_world =
     \<lparr>ww_job = \<lparr>je_pub = sample_pub, je_world = (\<lambda>_. sample_world), je_clock = (\<lambda>_. ''t5''), je_terminate = (\<lambda>_. []), je_spawn = (\<lambda>_ _. Inr 99),
        je_cancel_remote = (\<lambda>_ _ _ _ _. []), je_probe = (\<lambda>_ _. []), je_reconcile_remote = (\<lambda>_ _. []), je_event_line = (\<lambda>_. ''event''),
        je_event_error = (\<lambda>_. None), je_token = ''new'', je_elapsed = r_elapsed_seconds, je_pid = 7, je_parallel_enabled = False,
        je_parallel_limit = None\<rparr>,
      ww_elapsed = (\<lambda>_. ''0''), ww_duration = (\<lambda>_ _. ''1'')\<rparr>"

definition sample_worker :: job_worker where
  "sample_worker = \<lparr>jw_run = new_run sample_id ''repo'' ''pytest'' ''runs/1'' (JObj []) ''low'' False ''launch_pending'' ''tok'' ''t0'',
     jw_token = ''tok'', jw_generation = 1, jw_locked = True\<rparr>"

definition sample_tool :: "lock_db tool" where
  "sample_tool run started_at =
     chain (job_event sample_worker_world (\<lambda>_ s. s) sample_worker ''info'' ''command'' ''Starting'' [])
       (\<lambda>_. give [(''exit_code'', JInt 0), (''ended_at'', JStr ''t6''), (''duration_seconds'', JFloat ''1'')])"

definition held_node :: "lock_db node" where
  "held_node = \<lparr>n_db = sample_held, n_files = (\<lambda>_. None), n_trace = []\<rparr>"

lemma quiet_beside: "beside me (\<lambda>_ s. s)"
  by (simp add: beside_def)

lemma sample_tool_steady: "steady sample_worker True sample_tool"
  unfolding steady_def sample_tool_def
  by (intro allI impI, rule triple_chain, rule job_event_triple [OF quiet_beside], rule triple_give) simp

lemma sample_holds: "holds sample_worker ''launch_pending'' 1 held_node"
  by code_simp

theorem worker_settles_witness:
  "\<exists>t. execute_run sample_worker_world (\<lambda>_ s. s) sample_tool sample_worker held_node = (Inr 0, t) \<and> concluded sample_worker True 0 t"
proof -
  have r: "fst (execute_run sample_worker_world (\<lambda>_ s. s) sample_tool sample_worker held_node) = Inr 0" by code_simp
  then obtain t where t: "execute_run sample_worker_world (\<lambda>_ s. s) sample_tool sample_worker held_node = (Inr 0, t)"
    by (metis prod.collapse)
  have l: "jw_locked sample_worker" "''launch_pending'' \<in> {''launch_pending'', ''queued''}" by (simp_all add: sample_worker_def)
  from worker_settles [OF quiet_beside sample_tool_steady l sample_holds t] t show ?thesis by auto
qed

end
