(* ===== verification/Repo_Guarantees.thy ===== *)
theory Repo_Guarantees
  imports Repo_Execution Job_Worker_Guarantees
begin

text \<open>
  What a completed run of a repository tool stands for. The tools of \<open>Repo_Execution\<close> keep to the steps of the stores and keep the run of their
  worker running, so the worker settles with them; and a run of a project command that ends as completed exited with 0 in time, and left the
  repository as it was unless its profile may write.
\<close>

section \<open>The tools keep the run running\<close>

lemma store_text_working: "triple (working me) (store_text x path body) (\<lambda>_. working me) (working me)"
  by (rule triple_keeps) (auto simp: store_text_def working_def holds_def split: option.split)

lemma write_text_working: "triple (working me) (write_text x run name text) (\<lambda>_. working me) (working me)"
  unfolding write_text_def by (rule store_text_working)

lemma ensure_dir_working: "triple (working me) (ensure_dir x path) (\<lambda>_. working me) (working me)"
  unfolding ensure_dir_def by (rule triple_option) (rule triple_give, assumption, rule triple_throw, assumption)

lemma triple_sum: "(\<And>e. triple P (a e) Q E) \<Longrightarrow> (\<And>v. triple P (b v) Q E) \<Longrightarrow> triple P (case y of Inl e \<Rightarrow> a e | Inr v \<Rightarrow> b v) Q E"
  by (cases y) simp_all

lemma triple_stay: "(\<And>s. P s \<Longrightarrow> Q s) \<Longrightarrow> triple P (give v) (\<lambda>_. Q) E" "(\<And>s. P s \<Longrightarrow> E s) \<Longrightarrow> triple P (throw e) Q' E"
  by (simp_all add: triple_give triple_throw)

text \<open>The tool works on the row that the worker has just read, under the worker's own name and lease.\<close>

lemma own_event:
  fixes others :: "('a lock_db_scheme) others"
  assumes "beside me others" "row_held me ''running'' run" "r_run_id run = jw_id me"
  shows "triple (working me) (job_event w others (me\<lparr>jw_run := run\<rparr>) level stage msg d) (\<lambda>_. working me) (working me)"
proof -
  note same = same_worker [OF assms(2,3)]
  have "beside (me\<lparr>jw_run := run\<rparr>) others" using assms(1) by (simp add: same)
  from job_event_triple [OF this] show ?thesis by (simp only: same)
qed

lemma finalize_working:
  fixes others :: "('a lock_db_scheme) others"
  assumes b: "beside me others" and r: "row_held me ''running'' run" "r_run_id run = jw_id me"
  shows "triple (working me) (finalize_commit x others (me\<lparr>jw_run := run\<rparr>) root changed tool title description) (\<lambda>_. working me) (working me)"
    "triple (working me) (mark_wiki_stale x others (me\<lparr>jw_run := run\<rparr>) root repo reason) (\<lambda>_. working me) (working me)"
proof -
  note W = beside_keeps(2) [OF b] and event = own_event [OF b r]
  have compact: "triple (working me) (compact_commit_data x others (me\<lparr>jw_run := run\<rparr>) data) (\<lambda>_. working me) (working me)" for data
  proof -
    have "triple (working me) (attempt (chain (store_text x path body) (\<lambda>_. give d))
        (\<lambda>e. after others 130 (chain (job_event (ew_worker x) others (me\<lparr>jw_run := run\<rparr>) level stage msg (dat e)) (\<lambda>_. give data))))
        (\<lambda>_. working me) (working me)" for path body d level stage msg dat
      by (rule triple_attempt, rule triple_chain, rule store_text_working, rule triple_give, assumption, rule triple_after, erule W, rule triple_chain,
          rule event, rule triple_give, assumption)
    then show ?thesis
      by (auto simp: compact_commit_data_def Let_def split_beta intro: triple_stay split: json.split)
  qed
  show "triple (working me) (finalize_commit x others (me\<lparr>jw_run := run\<rparr>) root changed tool title description) (\<lambda>_. working me) (working me)"
    unfolding finalize_commit_def by (rule triple_sum, rule triple_throw, assumption, rule compact)
  show "triple (working me) (mark_wiki_stale x others (me\<lparr>jw_run := run\<rparr>) root repo reason) (\<lambda>_. working me) (working me)"
    unfolding mark_wiki_stale_def Let_def
    by (rule triple_sum, rule triple_chain, rule event, rule triple_give, assumption, rule triple_give, assumption)
qed

section \<open>Documents\<close>

lemma jget_jset: "jget k (jset k' v d) = (if k = k' then Some v else jget k d)"
  unfolding jget_def by (induction d) auto

lemma jget_jupdate: "jget k u = None \<Longrightarrow> jget k (jupdate d u) = jget k d"
proof (induction u arbitrary: d)
  case (Cons e u)
  then have "jget k (jupdate (jset (fst e) (snd e) d) u) = jget k (jset (fst e) (snd e) d)" "k \<noteq> fst e"
    by (auto simp: jget_def split: if_splits)
  then show ?case by (simp add: jupdate_def split_beta jget_jset)
qed (simp add: jupdate_def)

lemma field_jset [simp]: "field k (jset k' v d) = (if k = k' then v else field k d)"
  by (simp add: field_def jget_jset)

lemma flag_jset [simp]: "flag k (jset k' v d) = (if k = k' then py_truthy v else flag k d)"
  by (simp add: flag_def)

lemma with_default_other: "k \<noteq> k' \<Longrightarrow> jget k (with_default k' v d) = jget k d" "jget k d = Some u \<Longrightarrow> with_default k v d = d"
  by (simp_all add: with_default_def jget_jset)

text \<open>A document that names its status keeps it.\<close>

lemma result_status_named: "jget ''status'' d = Some (JStr st) \<Longrightarrow> st \<noteq> [] \<Longrightarrow> result_status (complete_result d) = st"
  by (simp add: complete_result_def Let_def result_status_def flag_def field_def with_default_other)

section \<open>A completed command\<close>

text \<open>What \<open>finalize_explicit_changes\<close> answers has no status of its own.\<close>

definition plain_commits :: "exec_world \<Rightarrow> bool" where
  "plain_commits x = (\<forall>root changed tool run title description data.
     ew_finalize x root changed tool run title description = Inr data \<longrightarrow> jget ''status'' data = None)"

text \<open>The command exited with 0 in time; it may write and its changes were committed, or the repository is as it was.\<close>

definition command_kept :: "exec_world \<Rightarrow> run_row \<Rightarrow> string \<Rightarrow> command_profile \<Rightarrow> command_result \<Rightarrow> bool" where
  "command_kept x run root p r =
     (let before = ew_git x 0 root; behind = ew_git x 1 root in
      cr_exit_code r = 0 \<and> \<not> cr_timed_out r \<and>
      (if cp_writes_files p
       then (case ew_finalize x root (fst (classify_git_attribution (go_changed behind) (go_snapshot before) (go_snapshot behind) (go_changed before)))
               ''project_command'' (r_run_id run) None [] of Inl _ \<Rightarrow> False | Inr commit \<Rightarrow> \<not> commit_failed commit)
       else go_status before = go_status behind \<and> go_diff before = go_diff behind))"

definition project_kept :: "exec_world \<Rightarrow> run_row \<Rightarrow> string \<Rightarrow> string \<Rightarrow> (string \<times> json) list \<Rightarrow> bool" where
  "project_kept x run repo root input =
     (case required ''command_id'' input of Inl _ \<Rightarrow> False | Inr c \<Rightarrow>
      (case command_target x repo root (py_str c) input of Inl _ \<Rightarrow> False | Inr (target, p0) \<Rightarrow>
       (case with_timeout input p0 of Inl _ \<Rightarrow> False | Inr p \<Rightarrow>
          command_kept x run root p (run_command_profile (ew_env x) (ew_process x) p root (temporary_env x run (py_str c) p)))))"

lemma run_ok: "command_result.cr_ok (run_command_profile env process p root extra) =
    (cr_exit_code (run_command_profile env process p root extra) = 0 \<and> \<not> cr_timed_out (run_command_profile env process p root extra))"
  by (simp add: run_command_profile_def Let_def split: prod.split)

lemma document_status:
  assumes "jget ''status'' commit = None" "st \<noteq> []"
  shows "result_status (complete_result (project_document x run repo command_id target started_at st r safety introduced preserved seen risks commit validation ended_at)) = st"
  by (rule result_status_named) (use assms in \<open>simp_all add: project_document_def jget_jupdate, simp_all add: jget_def\<close>)

lemma compact_value:
  fixes others :: "('a lock_db_scheme) others"
  assumes "beside me others" "row_held me ''running'' run" "r_run_id run = jw_id me"
  shows "triple (working me) (compact_commit_data x others (me\<lparr>jw_run := run\<rparr>) data)
    (\<lambda>d s. (commit_failed d = commit_failed data \<and> jget ''status'' d = jget ''status'' data) \<and> working me s) (working me)"
proof -
  note W = beside_keeps(2) [OF assms(1)] and event = own_event [OF assms]
  let ?Q = "\<lambda>d s. (commit_failed d = commit_failed data \<and> jget ''status'' d = jget ''status'' data) \<and> working me s"
  have "triple (working me) (attempt (chain (store_text x path body) (\<lambda>_. give d))
      (\<lambda>e. after others 130 (chain (job_event (ew_worker x) others (me\<lparr>jw_run := run\<rparr>) level stage msg (dat e)) (\<lambda>_. give data)))) ?Q (working me)"
    if "commit_failed d = commit_failed data" "jget ''status'' d = jget ''status'' data" for path body d level stage msg dat
    by (rule triple_attempt, rule triple_chain, rule store_text_working, rule triple_give, use that in simp, rule triple_after, erule W, rule triple_chain,
        rule event, rule triple_give, simp)
  then show ?thesis
    by (auto simp: compact_commit_data_def Let_def split_beta commit_failed_def jget_jset intro!: triple_give split: json.split)
qed

lemma finalize_value:
  fixes others :: "('a lock_db_scheme) others"
  assumes "beside me others" "row_held me ''running'' run" "r_run_id run = jw_id me" "plain_commits x"
  shows "triple (working me) (finalize_commit x others (me\<lparr>jw_run := run\<rparr>) root changed tool title description)
    (\<lambda>d s. ((\<exists>data. ew_finalize x root changed tool (jw_id me) (if title = [] then None else Some title) description = Inr data \<and>
        commit_failed d = commit_failed data) \<and> jget ''status'' d = None) \<and> working me s) (working me)"
proof (cases "ew_finalize x root changed tool (jw_id me) (if title = [] then None else Some title) description")
  case (Inl e)
  then show ?thesis using assms(3) by (simp add: finalize_commit_def triple_throw)
next
  case (Inr data)
  have "jget ''status'' data = None" using assms(4) Inr unfolding plain_commits_def by blast
  then show ?thesis
    using Inr assms(3) triple_weaken [OF compact_value [OF assms(1-3), of x data]] by (simp add: finalize_commit_def)
qed

lemma settle_triple:
  fixes others :: "('a lock_db_scheme) others"
  assumes b: "beside me others" and r: "row_held me ''running'' run" "r_run_id run = jw_id me" and c: "plain_commits x"
    and out: "command_result.cr_ok out = (cr_exit_code out = 0 \<and> \<not> cr_timed_out out)"
  shows "triple (working me) (finish_command x others (me\<lparr>jw_run := run\<rparr>) repo root command_id target started_at p (ew_git x 0 root) out)
    (\<lambda>d s. (result_status (complete_result d) = ''completed'' \<longrightarrow> command_kept x run root p out) \<and> working me s) (working me)"
proof -
  let ?me = "me\<lparr>jw_run := run\<rparr>" and ?behind = "ew_git x 1 root" and ?before = "ew_git x 0 root"
  let ?safety = "changed_repository p ?before ?behind"
  obtain introduced preserved where cl: "classify_git_attribution (go_changed ?behind) (go_snapshot ?before) (go_snapshot ?behind) (go_changed ?before)
      = (introduced, preserved)" by fastforce
  let ?st = "command_outcome out ?safety"
  let ?Q = "\<lambda>d s. (result_status (complete_result d) = ''completed'' \<longrightarrow> command_kept x run root p out) \<and> working me s"
  define doc where "doc = (\<lambda>status seen risks commit. case validation_of x root command_id target out of Inl e \<Rightarrow> throw e
      | Inr validation \<Rightarrow> (give (project_document x run repo command_id target started_at status out ?safety introduced preserved seen risks
          commit validation (je_clock (ew_job x) 54)) :: ('a lock_db_scheme) node \<Rightarrow> _))"
  have doc: "triple (working me) (doc status seen risks commit) ?Q (working me)"
    if "jget ''status'' commit = None" "status \<noteq> []" "status = ''completed'' \<Longrightarrow> command_kept x run root p out" for status seen risks commit
    unfolding doc_def by (rule triple_sum, rule triple_throw, assumption, rule triple_give) (use that in \<open>simp add: document_status\<close>)
  have st: "?st \<noteq> []" "?st = ''completed'' \<longleftrightarrow> cr_exit_code out = 0 \<and> \<not> cr_timed_out out \<and> \<not> ?safety"
    by (auto simp: command_outcome_def out)
  have plain: "triple (working me) (doc ?st ?behind (command_risks out ?safety) no_commit) ?Q (working me)"
    if "\<not> (?st = ''completed'' \<and> cp_writes_files p)"
    by (rule doc) (use that st in \<open>auto simp: no_commit_def jget_def command_kept_def Let_def changed_repository_def\<close>)
  have commit: "triple (\<lambda>s. ((\<exists>data. ew_finalize x root introduced ''project_command'' (jw_id me) None [] = Inr data \<and>
        commit_failed d = commit_failed data) \<and> jget ''status'' d = None) \<and> working me s)
      (if commit_failed d then doc ''failed'' (ew_git x 2 root) (risks d) d else doc ?st (ew_git x 2 root) (command_risks out ?safety) d) ?Q (working me)"
    if "?st = ''completed''" "cp_writes_files p" for d risks
    by (rule triple_fact, rule triple_if; rule doc) (use that st r(2) in \<open>auto simp: command_kept_def Let_def cl [unfolded One_nat_def]\<close>)
  have finalize: "triple (working me) (after others 131 (chain (finalize_commit x others ?me root introduced ''project_command'' [] [])
      (\<lambda>d. if commit_failed d then doc ''failed'' (ew_git x 2 root) (risks d) d else doc ?st (ew_git x 2 root) (command_risks out ?safety) d))) ?Q (working me)"
    if "?st = ''completed''" "cp_writes_files p" for risks
    by (rule triple_after, erule beside_keeps(2) [OF b], rule triple_chain, rule finalize_value [OF b r c], simp only: if_True simp_thms)
      (rule commit [OF that])
  have run: "jw_run ?me = run" by simp
  have eq: "finish_command x others ?me repo root command_id target started_at p ?before out =
      chain (write_text x run ''git_after.txt'' (go_status ?behind)) (\<lambda>_.
      chain (write_text x run ''diff_stat.txt'' (go_diff ?behind)) (\<lambda>_.
      if ?st = ''completed'' \<and> cp_writes_files p
      then after others 131 (chain (finalize_commit x others ?me root introduced ''project_command'' [] []) (\<lambda>d.
             if commit_failed d
             then doc ''failed'' (ew_git x 2 root)
                    (command_risks out ?safety @ [''Automatic commit finalization failed: '' @ py_str (field ''commit_error'' d)]) d
             else doc ?st (ew_git x 2 root) (command_risks out ?safety) d))
      else doc ?st ?behind (command_risks out ?safety) no_commit))"
    by (simp only: finish_command_def Let_def cl prod.case doc_def run)
  show ?thesis
    unfolding eq
    by (rule triple_chain, rule write_text_working, rule triple_chain, rule write_text_working, rule triple_if)
      (erule conjE, erule (1) finalize, erule plain)
qed

text \<open>The whole command, from its profile on.\<close>

lemma project_triple:
  fixes others :: "('a lock_db_scheme) others"
  assumes b: "beside me others" and r: "row_held me ''running'' run" "r_run_id run = jw_id me" and c: "plain_commits x"
  shows "triple (working me) (execute_project_command x others (me\<lparr>jw_run := run\<rparr>) started_at repo root input)
    (\<lambda>d s. (result_status (complete_result d) = ''completed'' \<longrightarrow> project_kept x run repo root input) \<and> working me s) (working me)"
proof -
  note W = beside_keeps(2) [OF b] and event = own_event [OF b r]
  have run: "jw_run (me\<lparr>jw_run := run\<rparr>) = run" by simp
  show ?thesis
  proof (cases "\<exists>c target p0 p. required ''command_id'' input = Inr c \<and> command_target x repo root (py_str c) input = Inr (target, p0) \<and> with_timeout input p0 = Inr p")
    case False
    then show ?thesis by (auto simp: execute_project_command_def Let_def intro!: triple_throw split: sum.split)
  next
    case True
    then obtain c target p0 p where p: "required ''command_id'' input = Inr c" "command_target x repo root (py_str c) input = Inr (target, p0)"
        "with_timeout input p0 = Inr p" by blast
    let ?out = "run_command_profile (ew_env x) (ew_process x) p root (temporary_env x run (py_str c) p)"
    have kept: "project_kept x run repo root input = command_kept x run root p ?out" by (simp add: project_kept_def p)
    show ?thesis
      unfolding execute_project_command_def Let_def p sum.case prod.case run kept
      by (rule triple_chain, rule ensure_dir_working, rule triple_chain, rule triple_if, rule ensure_dir_working, rule triple_give, assumption,
          rule triple_chain, rule write_text_working, rule triple_after, erule W, rule triple_chain, rule event, rule triple_after, erule W,
          rule triple_chain, rule write_text_working, rule triple_chain, rule write_text_working, rule settle_triple [OF b r \<open>plain_commits x\<close> run_ok])
  qed
qed

section \<open>A completed change\<close>

text \<open>The operation succeeded and, when it changed files, they were committed.\<close>

definition apply_kept :: "exec_world \<Rightarrow> run_row \<Rightarrow> string \<Rightarrow> (string \<times> json) list \<Rightarrow> bool" where
  "apply_kept x run root input =
     (case required ''operation'' input of Inl _ \<Rightarrow> False | Inr op \<Rightarrow>
      (case apply_operation x root (py_str op) input of Inl _ \<Rightarrow> False | Inr d \<Rightarrow>
        flag ''ok'' d \<and> flag ''changed_files'' d \<longrightarrow>
        (case ew_finalize x root (apply_strings (field ''changed_files'' d)) ''repo_apply'' (r_run_id run)
           (if flag ''commit_title'' d \<and> py_str (field ''commit_title'' d) \<noteq> [] then Some (py_str (field ''commit_title'' d)) else None)
           (if flag ''commit_description'' d then py_str (field ''commit_description'' d) else []) of
           Inl _ \<Rightarrow> False | Inr commit \<Rightarrow> \<not> commit_failed commit)))"

lemma field_jupdate: "jget k u = None \<Longrightarrow> field k (jupdate d u) = field k d" "jget k u = None \<Longrightarrow> flag k (jupdate d u) = flag k d"
  by (simp_all add: field_def flag_def jget_jupdate)

lemma uncommitted_fails:
  "result_status (complete_result (complete_apply x started_at operation
     (jset ''error'' e (jset ''status'' (JStr ''commit_failed'') (jset ''ok'' (JBool False) d))))) = ''failed''"
proof (rule result_status_named)
  have "\<not> is_terminal ''commit_failed''" by (simp add: is_terminal_def TERMINAL_STATUSES_def)
  then show "jget ''status'' (complete_apply x started_at operation
      (jset ''error'' e (jset ''status'' (JStr ''commit_failed'') (jset ''ok'' (JBool False) d)))) = Some (JStr ''failed'')"
    by (simp add: complete_apply_def Let_def with_default_other jget_jset apply_status_def)
qed simp

lemma apply_triple:
  fixes others :: "('a lock_db_scheme) others"
  assumes b: "beside me others" and r: "row_held me ''running'' run" "r_run_id run = jw_id me" and c: "plain_commits x"
  shows "triple (working me) (execute_repo_apply x others (me\<lparr>jw_run := run\<rparr>) started_at repo root input)
    (\<lambda>d s. (result_status (complete_result d) = ''completed'' \<longrightarrow> apply_kept x run root input) \<and> working me s) (working me)"
proof (cases "\<exists>op d. required ''operation'' input = Inr op \<and> apply_operation x root (py_str op) input = Inr d")
  case False
  then show ?thesis by (auto simp: execute_repo_apply_def Let_def intro!: triple_throw split: sum.split)
next
  case True
  then obtain op d where d: "required ''operation'' input = Inr op" "apply_operation x root (py_str op) input = Inr d" by blast
  let ?me = "me\<lparr>jw_run := run\<rparr>" and ?kept = "apply_kept x run root input"
  let ?title = "if flag ''commit_title'' d then py_str (field ''commit_title'' d) else []"
    and ?description = "if flag ''commit_description'' d then py_str (field ''commit_description'' d) else []"
  define d0 where "d0 = jupdate d [(''run_id'', JStr (jw_id ?me)), (''operation'', JStr (py_str op)), (''started_at'', JStr started_at)]"
  have same: "flag k d0 = flag k d" "field k d0 = field k d" if "k \<notin> {''run_id'', ''operation'', ''started_at''}" for k
    using that by (simp_all add: d0_def field_jupdate jget_def)
  have kept: "?kept = (flag ''ok'' d \<and> flag ''changed_files'' d \<longrightarrow>
      (case ew_finalize x root (apply_strings (field ''changed_files'' d)) ''repo_apply'' (jw_id me) (if ?title = [] then None else Some ?title) ?description of
         Inl _ \<Rightarrow> False | Inr commit \<Rightarrow> \<not> commit_failed commit))"
    using r(2) by (auto simp: apply_kept_def d)
  let ?R = "\<lambda>d1 s. (result_status (complete_result (complete_apply x started_at (py_str op) d1)) = ''completed'' \<longrightarrow> ?kept) \<and> working me s"
  have "triple (working me) (committed_apply x others ?me repo root d0) ?R (working me)"
  proof (cases "flag ''ok'' d \<and> flag ''changed_files'' d")
    case False
    then show ?thesis by (auto simp: committed_apply_def same kept intro!: triple_give)
  next
    case changed: True
    let ?finalize = "ew_finalize x root (apply_strings (field ''changed_files'' d)) ''repo_apply'' (jw_id me) (if ?title = [] then None else Some ?title) ?description"
    have failed: "triple (working me) (give (jset ''error'' e (jset ''status'' (JStr ''commit_failed'') (jset ''ok'' (JBool False) d1)))) ?R (working me)" for e d1
      by (rule triple_give) (simp add: uncommitted_fails)
    have marked: "triple (working me) (after others 134 (chain (mark_wiki_stale x others ?me root repo ''repo_apply'') (\<lambda>f. give (g f)))) ?R (working me)"
      if "?kept" for g
      by (rule triple_after, erule beside_keeps(2) [OF b], rule triple_chain, rule finalize_working(2) [OF b r], rule triple_give) (use that in simp)
    have rest: "triple (\<lambda>s. ((\<exists>data. ?finalize = Inr data \<and> commit_failed commit = commit_failed data) \<and> jget ''status'' commit = None) \<and> working me s)
        (let d1 = jupdate d0 commit in
           if commit_failed commit
           then give (jset ''error'' (field ''commit_error'' commit) (jset ''status'' (JStr ''commit_failed'') (jset ''ok'' (JBool False) d1)))
           else after others 134 (chain (mark_wiki_stale x others ?me root repo ''repo_apply'') (\<lambda>f. give (jset ''wiki_freshness'' (JObj f) d1)))) ?R (working me)" for commit
      unfolding Let_def
      by (rule triple_fact, rule triple_if, rule failed, rule marked) (use changed kept in auto)
    have eq: "committed_apply x others ?me repo root d0 =
        chain (finalize_commit x others ?me root (apply_strings (field ''changed_files'' d)) ''repo_apply'' ?title ?description) (\<lambda>commit.
          let d1 = jupdate d0 commit in
           if commit_failed commit
           then give (jset ''error'' (field ''commit_error'' commit) (jset ''status'' (JStr ''commit_failed'') (jset ''ok'' (JBool False) d1)))
           else after others 134 (chain (mark_wiki_stale x others ?me root repo ''repo_apply'') (\<lambda>f. give (jset ''wiki_freshness'' (JObj f) d1))))"
      using changed by (simp add: committed_apply_def same)
    show ?thesis unfolding eq by (rule triple_chain, rule finalize_value [OF b r c], rule rest)
  qed
  note done_so = this [unfolded d0_def]
  show ?thesis
    unfolding execute_repo_apply_def Let_def d sum.case by (rule triple_chain, rule done_so, rule triple_give)
qed

section \<open>The run that was recorded\<close>

definition run_stands :: "exec_world \<Rightarrow> run_row \<Rightarrow> bool" where
  "run_stands x run =
     (let input = as_object (r_input_json run) in
      r_tool run \<in> {''project_command'', ''repo_apply''} \<longrightarrow>
      (case required ''repo_name'' input of Inl _ \<Rightarrow> False | Inr name \<Rightarrow>
       (case ew_resolve x (py_str name) of Inl _ \<Rightarrow> False | Inr root \<Rightarrow>
          if r_tool run = ''project_command'' then project_kept x run (py_str name) root input else apply_kept x run root input)))"

lemma run_stands_cong:
  assumes "r_tool a = r_tool b" "r_input_json a = r_input_json b" "r_run_id a = r_run_id b" "r_run_dir a = r_run_dir b"
  shows "run_stands x a = run_stands x b"
proof -
  have "command_kept x a = command_kept x b" by (intro ext) (simp only: command_kept_def assms)
  moreover have "temporary_env x a = temporary_env x b" by (intro ext) (simp only: temporary_env_def artifact_path_def assms)
  ultimately have "project_kept x a = project_kept x b" by (intro ext) (simp only: project_kept_def)
  moreover have "apply_kept x a = apply_kept x b" by (intro ext) (simp only: apply_kept_def assms)
  ultimately show ?thesis by (simp only: run_stands_def assms)
qed

lemma inner_steady:
  fixes others :: "('a lock_db_scheme) others"
  assumes b: "beside me others" and c: "plain_commits x" and far: "steady me True far"
  shows "steady me (run_stands x (jw_run me)) (execute_inner x others far me)"
  unfolding steady_def
proof (intro allI impI)
  fix run started_at
  assume "row_held me ''running'' run \<and> r_run_id run = jw_id me"
  then have r: "row_held me ''running'' run" "r_run_id run = jw_id me" by simp_all
  let ?input = "as_object (r_input_json run)" and ?ok = "run_stands x (jw_run me)"
  let ?Q = "\<lambda>d s. (result_status (complete_result d) = ''completed'' \<longrightarrow> ?ok) \<and> working me s"
  have ok: "?ok = run_stands x run" using r by (intro run_stands_cong) (auto simp: row_held_def)
  have out: "triple (working me) (far run started_at) ?Q (working me)" if "?ok"
    using far r that by (auto simp: steady_def intro: triple_weaken)
  show "triple (working me) (execute_inner x others far me run started_at) ?Q (working me)"
  proof (cases "r_tool run \<in> {''project_command'', ''repo_apply''}")
    case False
    then have "?ok" unfolding ok by (simp add: run_stands_def Let_def)
    with out False show ?thesis by (auto simp: execute_inner_def Let_def intro!: triple_throw triple_sum)
  next
    case True
    then have "r_tool run \<notin> set DIRECT_TOOLS" by (auto simp: DIRECT_TOOLS_def)
    then show ?thesis
      unfolding ok using True project_triple [OF b r c] apply_triple [OF b r c]
      by (auto simp: execute_inner_def Let_def run_stands_def intro!: triple_throw split: sum.split)
  qed
qed



section \<open>The tools within the system\<close>

context group_invariant
begin

lemma store_text_keeps: "I s \<Longrightarrow> I (snd (store_text x path body s))" "I s \<Longrightarrow> I (snd (write_text x run name body s))"
    "I s \<Longrightarrow> I (snd (ensure_dir x path s))"
  by (simp_all add: write_text_def store_text_def ensure_dir_def give_def throw_def files_keep split: option.split)

lemma compact_keeps: "I s \<Longrightarrow> I (snd (compact_commit_data x (\<lambda>k. others (f k)) me data s))"
proof -
  assume s: "I s"
  have "I (snd (attempt (chain (store_text x path body) (\<lambda>_. give d))
      (\<lambda>e. after (\<lambda>k. others (f k)) 130 (chain (job_event (ew_worker x) (\<lambda>k. others (f k)) me level stage msg (dat e)) (\<lambda>_. give data))) s))"
    for path body d level stage msg dat
    by (rule s | assumption | rule worker_rules store_text_keeps job_event_keeps)+
  with s show ?thesis
    by (auto simp: compact_commit_data_def Let_def split_beta give_def split: json.split)
qed

lemma finalization_keeps: "I s \<Longrightarrow> I (snd (finalize_commit x (\<lambda>k. others (f k)) me root changed tool title description s))"
    "I s \<Longrightarrow> I (snd (mark_wiki_stale x (\<lambda>k. others (f k)) me root repo reason s))"
  unfolding finalize_commit_def mark_wiki_stale_def Let_def
  by (assumption | rule worker_rules compact_keeps job_event_keeps)+

lemma finish_command_keeps: "I s \<Longrightarrow> I (snd (finish_command x (\<lambda>k. others (f k)) me repo root command_id target started_at p before out s))"
  unfolding finish_command_def Let_def case_prod_beta
  by (assumption | rule worker_rules store_text_keeps finalization_keeps)+

lemma pair_either_keeps:
  "(\<And>e. I (snd (a e s))) \<Longrightarrow> (\<And>u v. I (snd (b u v s))) \<Longrightarrow> I (snd ((case x of Inl e \<Rightarrow> a e | Inr (u, v) \<Rightarrow> b u v) s))"
  by (simp split: sum.split prod.split)

lemma project_keeps: "I s \<Longrightarrow> I (snd (execute_project_command x (\<lambda>k. others (f k)) me started_at repo root input s))"
  unfolding execute_project_command_def Let_def
  by (assumption | rule pair_either_keeps worker_rules store_text_keeps job_event_keeps finish_command_keeps)+

lemma apply_keeps: "I s \<Longrightarrow> I (snd (execute_repo_apply x (\<lambda>k. others (f k)) me started_at repo root input s))"
  unfolding execute_repo_apply_def committed_apply_def Let_def
  by (assumption | rule worker_rules finalization_keeps)+

lemma inner_keeps:
  assumes "\<And>t. I t \<Longrightarrow> I (snd (far run started_at t))" "I s"
  shows "I (snd (execute_inner x (\<lambda>k. others (f k)) far me run started_at s))"
  unfolding execute_inner_def Let_def
  by (rule assms(2) | assumption | rule worker_rules assms(1) project_keeps apply_keeps)+

end

text \<open>The law of the tool holds of the tools of the model, whatever the remote ones answer, when these leave the stores alone.\<close>

interpretation repository_tool: tool_invariant "later s" "\<lambda>_ t. t" "execute_inner x (\<lambda>_ t. t) (\<lambda>run started_at t. (answer run started_at, t)) me"
  for s :: "('a scope_db_scheme) node" and x answer me
  by unfold_locales (rule undisturbed.inner_keeps, simp)

text \<open>C11. The worker process stays within the system. From the claim of the run through its command or its change, the commit, the result and its
  publication, to the cancellation of the other children of a failed group and the refill, a worker changes the stores only by steps of the
  system, whatever other processes do between its steps and whatever Git, the command and the remote tools answer, as long as the remote tools
  too keep to those steps; so every property of the reachable states holds throughout.\<close>

theorem job_worker_within_system:
  assumes "tame others" "\<forall>run started_at t. later s t \<longrightarrow> later s (snd (far run started_at t))"
  shows "later s (snd (job_worker_main w others (\<lambda>me. execute_inner x others far me) run_id token s))"
proof -
  note I = later_invariant [OF assms(1), of s]
  have "later s t \<Longrightarrow> later s (snd (execute_inner x others far me run started_at t))" for me run started_at t
    using group_invariant.inner_keeps [OF I, where f = "\<lambda>k. k"] assms(2) by blast
  from group_invariant.main_keeps [OF I, where f = "\<lambda>k. k" and tool = "\<lambda>me. execute_inner x others far me", OF this later_refl] show ?thesis by blast
qed

section \<open>Concrete instances\<close>

lemma cap_output_code [code]:
  "cap_output out err =
     (if int (length (out @ err)) \<le> 100000 then (out, err, False)
      else if length out > MAX_OUTPUT_BYTES then (take MAX_OUTPUT_BYTES out, [], True)
      else (out, take (MAX_OUTPUT_BYTES - length out) err, True))"
  by (simp add: cap_output_def MAX_OUTPUT_BYTES_def)

text \<open>A repository that the command leaves as it is; the process exits with 0.\<close>

definition sample_exec :: exec_world where
  "sample_exec =
     \<lparr>ew_worker = sample_worker_world, ew_resolve = (\<lambda>r. Inr (''/'' @ r)), ew_profiles = (\<lambda>_. Inr []),
      ew_files = (\<lambda>_. \<lparr>rf_linked = (\<lambda>_. False), rf_exists = (\<lambda>_. False), rf_directory = (\<lambda>_. False), rf_file = (\<lambda>_. False)\<rparr>),
      ew_env = \<lparr>xe_windows = False, xe_vars = [(''PATH'', ''/bin'')], xe_is_file = (\<lambda>_. False), xe_absolute = (\<lambda>p. p), xe_within = (\<lambda>_ _. True),
        xe_resolve = (\<lambda>p. p)\<rparr>,
      ew_process = (\<lambda>_ _. Completed ''ok'' [] 0),
      ew_git = (\<lambda>_ _. \<lparr>go_status = ''clean'', go_diff = [], go_changed = [], go_snapshot = []\<rparr>),
      ew_make_dir = (\<lambda>_. None), ew_write_error = (\<lambda>_. None),
      ew_finalize = (\<lambda>_ _ _ _ _ _. Inr [(''commit_attempted'', JBool False), (''commit_error'', JStr [])]),
      ew_compact = (\<lambda>d. (d, [])), ew_compact_paths = JArr, ew_dump = (\<lambda>_. ''{}''), ew_sha256 = (\<lambda>_. ''sha''), ew_bytes = length,
      ew_apply = (\<lambda>_ _ _. Inr []), ew_wiki = (\<lambda>_ _ _. Inr []), ew_analyze = (\<lambda>_. Inr []), ew_pytest_present = (\<lambda>_. False)\<rparr>"

definition command_run :: run_row where
  "command_run = new_run sample_id ''repo'' ''project_command'' ''runs/1''
     (JObj [(''repo_name'', JStr ''repo''), (''command_id'', JStr ''git_status'')]) ''low'' False ''queued'' ''tok'' ''t0''"

definition command_node :: "lock_db node" where
  "command_node =
     \<lparr>n_db = \<lparr>runs = [command_run], events = [], event_seq = 0, locks = [new_lock ''repo'' ''project_command'' ''f'' sample_id (Some 7) ''tok'' 1 ''t0'']\<rparr>,
      n_files = (\<lambda>_. None), n_trace = []\<rparr>"

definition command_worker :: job_worker where
  "command_worker = \<lparr>jw_run = command_run, jw_token = ''tok'', jw_generation = 1, jw_locked = True\<rparr>"

definition no_remote :: "lock_db tool" where
  "no_remote run started_at = throw (RuntimeError ''No remote tool'')"

lemma no_remote_steady: "steady me True no_remote"
  by (simp add: steady_def no_remote_def triple_throw)

lemma sample_commits_plain: "plain_commits sample_exec"
  by (simp add: plain_commits_def sample_exec_def jget_def)

lemma command_held: "holds command_worker ''queued'' 0 command_node" "jw_locked command_worker"
  by code_simp+


text \<open>A worker that comes with a lease of another launch.\<close>

definition late_worker :: job_worker where
  "late_worker = \<lparr>jw_run = command_run, jw_token = ''older'', jw_generation = 1, jw_locked = True\<rparr>"

theorem unclaimed_worker_idle_witness:
  "execute_run sample_worker_world (\<lambda>_ s. s) no_remote late_worker command_node = (Inr 1, command_node)"
proof -
  let ?e = "execute_run sample_worker_world (\<lambda>_ s. s) no_remote late_worker command_node"
  have facts: "wf_runs (n_db command_node)" "get_run (jw_id late_worker) (n_db command_node) = Inr command_run" "r_status command_run \<noteq> ''cancelled''"
      "run_by_id (jw_id late_worker) (n_db command_node) = Some command_run"
      "stale_lease (jw_token late_worker) (jw_generation late_worker) command_run" by code_simp+
  have "fst ?e = Inr 1" by code_simp
  then obtain t where t: "?e = (Inr 1, t)" by (metis prod.collapse)
  have "t = command_node"
    using unclaimed_worker_idle [where others = "\<lambda>_ s. s" and s = command_node and me = late_worker and w = sample_worker_world and tool = no_remote
        and res = "Inr 1" and t = t and before = command_run and r = command_run, OF facts(1-4) disjI1 [OF facts(5)] t] by blast
  with t show ?thesis by simp
qed

theorem heartbeat_never_races_witness:
  "beside command_worker (\<lambda>k s. ((\<lambda>u. snd (heartbeat_turn sample_worker_world (\<lambda>_ s. s) command_worker u)) ^^ Suc k) s)"
  using heartbeat_never_races [where others = "\<lambda>_ s. s" and me = command_worker and w = sample_worker_world and turns = Suc, OF quiet_beside] .

end
