(* ===== verification/Text_Edits.thy ===== *)
theory Text_Edits
  imports Command_Profiles Payload_Chunks
begin

text \<open>
  The edits of a text that a patch is made of, \<open>src/soma/repo_writer.py\<close>: newline forms, the exact replacement, the replacement of a range of lines,
  the unified diff and the replacement of a Python definition, each once on a text with normalised newlines and once on the text as it is
  (\<open>_preserving_newlines\<close>). An operation is a JSON object. The parser of Python is an argument: it gives the top-level nodes with
  their lines.
\<close>

section \<open>Newlines\<close>

definition carriage :: char where
  "carriage = CHR 0x0D"

definition LF :: string where
  "LF = [newline]"

definition CRLF :: string where
  "CRLF = [carriage, newline]"

fun crlf_to_lf :: "string \<Rightarrow> string" where
  "crlf_to_lf (a # b # s) = (if a = carriage \<and> b = newline then newline # crlf_to_lf s else a # crlf_to_lf (b # s))"
| "crlf_to_lf s = s"

definition normalize_newlines :: "string \<Rightarrow> string" where
  "normalize_newlines s = map (\<lambda>c. if c = carriage then newline else c) (crlf_to_lf s)"

text \<open>\<open>s.replace("\n", nl)\<close>\<close>

definition with_newlines :: "string \<Rightarrow> string \<Rightarrow> string" where
  "with_newlines nl s = concat (map (\<lambda>c. if c = newline then nl else [c]) s)"

text \<open>\<open>str.count\<close>: occurrences that do not overlap, from the left.\<close>

function str_count :: "string \<Rightarrow> string \<Rightarrow> nat" where
  "str_count p s =
     (if p = [] then length s + 1 else if length s < length p then 0
      else if starts_with p s then 1 + str_count p (drop (length p) s) else str_count p (tl s))"
  by pat_completeness auto

termination
  by (relation "measure (\<lambda>(p, s). length s)") (auto simp: neq_Nil_conv Suc_le_eq not_less)

declare str_count.simps [simp del]

text \<open>\<open>s.replace(old, new, 1)\<close>\<close>

fun replace_once :: "string \<Rightarrow> string \<Rightarrow> string \<Rightarrow> string" where
  "replace_once old new [] = (if old = [] then new else [])"
| "replace_once old new (c # s) = (if starts_with old (c # s) then new @ drop (length old) (c # s) else c # replace_once old new s)"

definition dominant_newline :: "string \<Rightarrow> string" where
  "dominant_newline text =
     (let crlf = int (str_count CRLF text); lf = int (str_count LF (normalize_newlines text))
      in if crlf \<noteq> 0 \<and> crlf \<ge> max 1 (lf - crlf) then CRLF else LF)"

definition restore_newlines :: "string \<Rightarrow> string \<Rightarrow> string" where
  "restore_newlines text nl = (let n = normalize_newlines text in if nl = LF then n else with_newlines nl n)"

section \<open>Lines\<close>

definition line_break :: "char \<Rightarrow> bool" where
  "line_break c = ((of_char c :: nat) \<in> {10, 11, 12, 13, 28, 29, 30, 133})"

text \<open>\<open>splitlines(keepends=True)\<close>\<close>

fun split_lines :: "string \<Rightarrow> string list" where
  "split_lines [] = []"
| "split_lines [c] = [[c]]"
| "split_lines (a # b # s) =
     (if a = carriage \<and> b = newline then [a, b] # split_lines s
      else if line_break a then [a] # split_lines (b # s)
      else (case split_lines (b # s) of [] \<Rightarrow> [[a]] | l # ls \<Rightarrow> (a # l) # ls))"

definition ends_with :: "string \<Rightarrow> string \<Rightarrow> bool" where
  "ends_with p s = starts_with (rev p) (rev s)"

text \<open>A line without its line break, and \<open>splitlines()\<close>.\<close>

definition bare_line :: "string \<Rightarrow> string" where
  "bare_line l = (if ends_with CRLF l then butlast (butlast l) else if l \<noteq> [] \<and> line_break (last l) then butlast l else l)"

definition bare_lines :: "string \<Rightarrow> string list" where
  "bare_lines s = map bare_line (split_lines s)"

definition line_ending :: "string \<Rightarrow> string" where
  "line_ending l = (if ends_with CRLF l then CRLF else if ends_with LF l then LF else [])"

text \<open>\<open>line.removesuffix(_line_ending(line))\<close>\<close>

definition shown_line :: "string \<Rightarrow> string" where
  "shown_line l = take (length l - length (line_ending l)) l"

definition slice :: "nat \<Rightarrow> nat \<Rightarrow> 'a list \<Rightarrow> 'a list" where
  "slice i j xs = drop i (take j xs)"

definition line_range_replacement_newline :: "string \<Rightarrow> string list \<Rightarrow> nat \<Rightarrow> nat \<Rightarrow> string" where
  "line_range_replacement_newline content lines i j =
     (case filter (\<lambda>nl. nl \<noteq> []) (map line_ending (slice i j lines @ rev (take i lines) @ drop j lines)) of
        nl # _ \<Rightarrow> nl | [] \<Rightarrow> dominant_newline content)"

section \<open>Exact text\<close>

definition op_label :: "nat \<Rightarrow> string" where
  "op_label idx = ''op['' @ nat_digits idx @ '']: ''"

definition op_error :: "nat \<Rightarrow> string \<Rightarrow> py_error" where
  "op_error idx m = ValueError (op_label idx @ m)"

definition quoted :: "string \<Rightarrow> string" where
  "quoted s = [CHR 0x27] @ s @ [CHR 0x27]"

definition text_required :: "string \<Rightarrow> (string \<times> json) list \<Rightarrow> nat \<Rightarrow> py_error + string" where
  "text_required k op idx = (case field k op of JStr s \<Rightarrow> Inr s | _ \<Rightarrow> Inl (op_error idx (k @ '' is required and must be a string'')))"

definition not_unique :: "nat \<Rightarrow> string \<Rightarrow> nat \<Rightarrow> py_error" where
  "not_unique idx path n = op_error idx (''old_text appears '' @ nat_digits n @ '' times in '' @ quoted path @ ''; must be unique'')"

definition apply_exact_text :: "string \<Rightarrow> (string \<times> json) list \<Rightarrow> string \<Rightarrow> nat \<Rightarrow> py_error + string" where
  "apply_exact_text content op path idx =
     (case text_required ''old_text'' op idx of Inl e \<Rightarrow> Inl e | Inr old0 \<Rightarrow>
      (case text_required ''new_text'' op idx of Inl e \<Rightarrow> Inl e | Inr new0 \<Rightarrow>
       let old = normalize_newlines old0; new = normalize_newlines new0; n = str_count old content
       in if n = 0 then Inl (op_error idx (''old_text not found in '' @ quoted path))
          else if n > 1 then Inl (not_unique idx path n)
          else Inr (replace_once old new content)))"

text \<open>The old text is looked for with both newline forms; the form that is found is the one of the new text.\<close>

definition newline_matches :: "string \<Rightarrow> string \<Rightarrow> (string \<times> string \<times> nat) list" where
  "newline_matches content old =
     (let candidates = (if with_newlines CRLF old = old then [(old, LF)] else [(old, LF), (with_newlines CRLF old, CRLF)])
      in filter (\<lambda>(_, _, n). n \<noteq> 0) (map (\<lambda>(candidate, nl). (candidate, nl, str_count candidate content)) candidates))"

definition apply_exact_text_preserving :: "string \<Rightarrow> (string \<times> json) list \<Rightarrow> string \<Rightarrow> nat \<Rightarrow> py_error + string" where
  "apply_exact_text_preserving content op path idx =
     (case text_required ''old_text'' op idx of Inl e \<Rightarrow> Inl e | Inr old0 \<Rightarrow>
      (case text_required ''new_text'' op idx of Inl e \<Rightarrow> Inl e | Inr new0 \<Rightarrow>
       let found = newline_matches content (normalize_newlines old0); n = sum_list (map (\<lambda>(_, _, n). n) found)
       in case found of
            [] \<Rightarrow> Inl (op_error idx (''old_text not found in '' @ quoted path))
          | (candidate, nl, _) # _ \<Rightarrow>
              if n > 1 then Inl (not_unique idx path n)
              else Inr (replace_once candidate (with_newlines nl (normalize_newlines new0)) content)))"

section \<open>Line ranges\<close>

definition int_field :: "string \<Rightarrow> (string \<times> json) list \<Rightarrow> py_error + int" where
  "int_field k op = (case jget k op of None \<Rightarrow> Inr 0 | Some v \<Rightarrow> py_int v)"

definition line_bounds :: "(string \<times> json) list \<Rightarrow> string \<Rightarrow> nat \<Rightarrow> py_error + (nat \<times> nat \<times> string)" where
  "line_bounds op path idx =
     (case int_field ''start_line'' op of Inl e \<Rightarrow> Inl e | Inr first \<Rightarrow>
      (case int_field ''end_line'' op of Inl e \<Rightarrow> Inl e | Inr final \<Rightarrow>
       if first < 1 \<or> final < first then Inl (op_error idx (''invalid line range for '' @ quoted path))
       else case text_required ''new_text'' op idx of Inl e \<Rightarrow> Inl e | Inr new \<Rightarrow> Inr (nat first - 1, nat final, new)))"

definition apply_line_range :: "string \<Rightarrow> (string \<times> json) list \<Rightarrow> string \<Rightarrow> nat \<Rightarrow> py_error + string" where
  "apply_line_range content op path idx =
     (case line_bounds op path idx of Inl e \<Rightarrow> Inl e
      | Inr (i, j, new) \<Rightarrow> let lines = split_lines content in
          Inr (concat (take i lines) @ concat (split_lines (normalize_newlines new)) @ concat (drop j lines)))"

definition apply_line_range_preserving :: "string \<Rightarrow> (string \<times> json) list \<Rightarrow> string \<Rightarrow> nat \<Rightarrow> py_error + string" where
  "apply_line_range_preserving content op path idx =
     (case line_bounds op path idx of Inl e \<Rightarrow> Inl e
      | Inr (i, j, new) \<Rightarrow> let lines = split_lines content in
          Inr (concat (take i lines) @ restore_newlines new (line_range_replacement_newline content lines i j) @ concat (drop j lines)))"

section \<open>Unified diffs\<close>

definition take_number :: "string \<Rightarrow> (nat \<times> string) option" where
  "take_number s = (let d = takeWhile is_digit s in if d = [] then None else Some (digits_value d, dropWhile is_digit s))"

text \<open>\<open>(?:,\d+)?\<close>\<close>

definition skip_count :: "string \<Rightarrow> string" where
  "skip_count s =
     (if s \<noteq> [] \<and> hd s = CHR '','' then (case take_number (tl s) of None \<Rightarrow> s | Some (_, r) \<Rightarrow> r) else s)"

text \<open>\<open>@@ -\d+(?:,\d+)? \+(\d+)(?:,\d+)? @@\<close>: the captured number is the first line of the hunk in the new file.\<close>

definition hunk_header :: "string \<Rightarrow> nat option" where
  "hunk_header line =
     (case drop_prefix ''@@ -'' line of None \<Rightarrow> None | Some r \<Rightarrow>
      (case take_number r of None \<Rightarrow> None | Some (_, r1) \<Rightarrow>
       (case drop_prefix '' +'' (skip_count r1) of None \<Rightarrow> None | Some r2 \<Rightarrow>
        (case take_number r2 of None \<Rightarrow> None | Some (n, r3) \<Rightarrow> if drop_prefix '' @@'' (skip_count r3) = None then None else Some n))))"

fun parse_hunks :: "nat \<Rightarrow> string list \<Rightarrow> string list \<Rightarrow> py_error + (nat \<times> string list) list" where
  "parse_hunks first seen [] = Inr (if seen = [] then [] else [(first, seen)])"
| "parse_hunks first seen (l # ls) =
     (if starts_with ''@@'' l
      then (case hunk_header l of
              None \<Rightarrow> Inl (ValueError ''Invalid unified diff hunk header'')
            | Some n \<Rightarrow> (case parse_hunks n [] ls of Inl e \<Rightarrow> Inl e | Inr hs \<Rightarrow> Inr (if seen = [] then hs else (first, seen) # hs)))
      else if starts_with ''---'' l \<or> starts_with ''+++'' l then parse_hunks first seen ls
      else parse_hunks first (seen @ [l]) ls)"

definition parse_unified_hunks :: "string \<Rightarrow> py_error + (nat \<times> string list) list" where
  "parse_unified_hunks diff = parse_hunks 0 [] (bare_lines diff)"

text \<open>One hunk from line \<open>p\<close> on: context and removals must be what the text shows there.\<close>

fun run_hunk ::
  "(string \<Rightarrow> string) \<Rightarrow> (string \<Rightarrow> string) \<Rightarrow> string \<Rightarrow> nat \<Rightarrow> string list \<Rightarrow> nat \<Rightarrow> string list \<Rightarrow> string list \<Rightarrow> py_error + (nat \<times> string list)" where
  "run_hunk shown added path idx lines p rebuilt [] = Inr (p, rebuilt)"
| "run_hunk shown added path idx lines p rebuilt (l # ls) =
     (let marker = (if l = [] then CHR '' '' else hd l); text = (if l = [] then [] else tl l); here = p < length lines \<and> shown (lines ! p) = text in
      if marker = CHR '' ''
      then (if here then run_hunk shown added path idx lines (p + 1) (rebuilt @ [lines ! p]) ls
            else Inl (op_error idx (''unified diff context mismatch in '' @ quoted path)))
      else if marker = CHR ''-''
      then (if here then run_hunk shown added path idx lines (p + 1) rebuilt ls
            else Inl (op_error idx (''unified diff removal mismatch in '' @ quoted path)))
      else if marker = CHR ''+'' then run_hunk shown added path idx lines p (rebuilt @ [added text]) ls
      else Inl (op_error idx (''unsupported diff line in '' @ quoted path)))"

text \<open>The hunks one after the other; \<open>offset\<close> is how many lines the earlier ones have added.\<close>

fun run_hunks ::
  "(string \<Rightarrow> string) \<Rightarrow> (string list \<Rightarrow> nat \<Rightarrow> string list \<Rightarrow> string \<Rightarrow> string) \<Rightarrow> string \<Rightarrow> nat \<Rightarrow> string list \<Rightarrow> int \<Rightarrow> (nat \<times> string list) list \<Rightarrow>
   py_error + string list" where
  "run_hunks shown added path idx lines offset [] = Inr lines"
| "run_hunks shown added path idx lines offset ((first, h) # hs) =
     (let i = nat (max 0 (int first - 1 + offset)) in
      case run_hunk shown (added lines i h) path idx lines i [] h of
        Inl e \<Rightarrow> Inl e
      | Inr (p, rebuilt) \<Rightarrow>
          run_hunks shown added path idx (take i lines @ rebuilt @ drop p lines) (offset + (int (length rebuilt) - int (p - i))) hs)"

definition diff_text :: "(string \<times> json) list \<Rightarrow> string \<Rightarrow> nat \<Rightarrow> py_error + string" where
  "diff_text op path idx =
     (case (if flag ''diff'' op then field ''diff'' op else field ''unified_diff'' op) of
        JStr s \<Rightarrow> if py_strip s = [] then Inl (op_error idx (''unified diff text is required for '' @ quoted path)) else Inr (normalize_newlines s)
      | _ \<Rightarrow> Inl (op_error idx (''unified diff text is required for '' @ quoted path)))"

definition apply_unified_diff :: "string \<Rightarrow> (string \<times> json) list \<Rightarrow> string \<Rightarrow> nat \<Rightarrow> py_error + string" where
  "apply_unified_diff content op path idx =
     (case diff_text op path idx of Inl e \<Rightarrow> Inl e | Inr diff \<Rightarrow>
      (case parse_unified_hunks diff of Inl e \<Rightarrow> Inl e | Inr hunks \<Rightarrow>
       (case run_hunks (\<lambda>l. l) (\<lambda>_ _ _ text. text) path idx (bare_lines content) 0 hunks of Inl e \<Rightarrow> Inl e
        | Inr lines \<Rightarrow> Inr (join_with LF lines @ (if ends_with LF content \<or> lines \<noteq> [] then LF else [])))))"

definition apply_unified_diff_preserving :: "string \<Rightarrow> (string \<times> json) list \<Rightarrow> string \<Rightarrow> nat \<Rightarrow> py_error + string" where
  "apply_unified_diff_preserving content op path idx =
     (case diff_text op path idx of Inl e \<Rightarrow> Inl e | Inr diff \<Rightarrow>
      (case parse_unified_hunks diff of Inl e \<Rightarrow> Inl e | Inr hunks \<Rightarrow>
       (case run_hunks shown_line
               (\<lambda>lines i h text. text @ line_range_replacement_newline content lines i (min (length lines) (i + max 1 (length h))))
               path idx (split_lines content) 0 hunks of Inl e \<Rightarrow> Inl e
        | Inr lines \<Rightarrow> Inr (concat lines))))"

section \<open>Python definitions\<close>

datatype node_kind = Function_node | Class_node | Import_node | Other_node

record ast_node =
  an_kind :: node_kind
  an_name :: string
  an_first :: nat
  an_last :: nat

definition text_or_empty :: "string \<Rightarrow> (string \<times> json) list \<Rightarrow> string" where
  "text_or_empty k op = (case jget k op of None \<Rightarrow> [] | Some v \<Rightarrow> py_str v)"

text \<open>The target: its kind, its name, the new text, and whether it is inserted when it is missing.\<close>

definition ast_target :: "(string \<times> json) list \<Rightarrow> string \<Rightarrow> nat \<Rightarrow> py_error + (string \<times> string \<times> string \<times> bool)" where
  "ast_target op path idx =
     (let kind = py_strip (text_or_empty ''target_type'' op) in
      if kind \<notin> {''function'', ''class'', ''import''} then Inl (op_error idx (''unsupported python_ast target_type for '' @ quoted path))
      else case text_required ''new_text'' op idx of
        Inl e \<Rightarrow> Inl e
      | Inr new \<Rightarrow> Inr (kind, py_strip (text_or_empty ''target_name'' op), new, flag ''insert_if_missing'' op))"

definition node_matches :: "string \<Rightarrow> string \<Rightarrow> string list \<Rightarrow> ast_node \<Rightarrow> bool" where
  "node_matches kind name lines n =
     (kind = ''function'' \<and> an_kind n = Function_node \<and> an_name n = name \<or>
      kind = ''class'' \<and> an_kind n = Class_node \<and> an_name n = name \<or>
      kind = ''import'' \<and> an_kind n = Import_node \<and> py_strip (normalize_newlines (concat (slice (an_first n - 1) (an_last n) lines))) = name)"

type_synonym python_parser = "string \<Rightarrow> py_error + ast_node list"

definition apply_python_ast :: "python_parser \<Rightarrow> string \<Rightarrow> (string \<times> json) list \<Rightarrow> string \<Rightarrow> nat \<Rightarrow> py_error + string" where
  "apply_python_ast parse content op path idx =
     (case ast_target op path idx of Inl e \<Rightarrow> Inl e | Inr (kind, name, new, adding) \<Rightarrow>
      (case parse (str_or content LF) of Inl e \<Rightarrow> Inl e | Inr body \<Rightarrow>
       let lines = split_lines content; replacement = normalize_newlines new in
       (case find (node_matches kind name lines) body of
          Some n \<Rightarrow> Inr (concat (take (an_first n - 1) lines) @ replacement @ concat (drop (an_last n) lines))
        | None \<Rightarrow>
            if \<not> adding then Inl (op_error idx (''python_ast target not found in '' @ quoted path))
            else
              let insertion = (if ends_with LF replacement then replacement else replacement @ LF) in
              if kind = ''import'' then Inr (insertion @ content)
              else Inr (content @ (if ends_with LF content \<or> content = [] then [] else LF) @ insertion))))"

definition apply_python_ast_preserving :: "python_parser \<Rightarrow> string \<Rightarrow> (string \<times> json) list \<Rightarrow> string \<Rightarrow> nat \<Rightarrow> py_error + string" where
  "apply_python_ast_preserving parse content op path idx =
     (case ast_target op path idx of Inl e \<Rightarrow> Inl e | Inr (kind, name, new, adding) \<Rightarrow>
      (case parse (str_or content LF) of Inl e \<Rightarrow> Inl e | Inr body \<Rightarrow>
       let lines = split_lines content in
       (case find (node_matches kind name lines) body of
          Some n \<Rightarrow>
            Inr (concat (take (an_first n - 1) lines) @
                 restore_newlines new (line_range_replacement_newline content lines (an_first n - 1) (an_last n)) @ concat (drop (an_last n) lines))
        | None \<Rightarrow>
            if \<not> adding then Inl (op_error idx (''python_ast target not found in '' @ quoted path))
            else
              let nl = dominant_newline content; replacement = restore_newlines new nl;
                  insertion = (if ends_with nl replacement then replacement else replacement @ nl) in
              if kind = ''import'' then Inr (insertion @ content)
              else Inr (content @ (if content = [] \<or> last content \<in> {newline, carriage} then [] else nl) @ insertion))))"

section \<open>One operation\<close>

datatype edit_type = Exact | Line_range | Diff | Python_ast | Unknown_edit

definition edit_type_of :: "string \<Rightarrow> edit_type" where
  "edit_type_of t =
     (if t \<in> {''exact_text'', ''replace_exact'', ''modify'', []} then Exact
      else if t \<in> {''replace_lines'', ''line_range''} then Line_range
      else if t \<in> {''unified_diff'', ''apply_unified_diff''} then Diff
      else if t \<in> {''python_ast'', ''ast_python''} then Python_ast else Unknown_edit)"

text \<open>\<open>str(op.get("type") or op.get("operation") or "exact_text")\<close>\<close>

definition operation_type :: "(string \<times> json) list \<Rightarrow> string" where
  "operation_type op =
     (if flag ''type'' op then py_str (field ''type'' op) else if flag ''operation'' op then py_str (field ''operation'' op) else ''exact_text'')"

definition apply_operation_to_content :: "python_parser \<Rightarrow> string \<Rightarrow> (string \<times> json) list \<Rightarrow> string \<Rightarrow> nat \<Rightarrow> py_error + string" where
  "apply_operation_to_content parse content op path idx =
     (case edit_type_of (py_strip (operation_type op)) of
        Exact \<Rightarrow> apply_exact_text content op path idx
      | Line_range \<Rightarrow> apply_line_range content op path idx
      | Diff \<Rightarrow> apply_unified_diff content op path idx
      | Python_ast \<Rightarrow> apply_python_ast parse content op path idx
      | Unknown_edit \<Rightarrow> Inl (op_error idx (''unsupported operation type '' @ quoted (py_strip (operation_type op)))))"

definition apply_preserving :: "python_parser \<Rightarrow> string \<Rightarrow> (string \<times> json) list \<Rightarrow> string \<Rightarrow> nat \<Rightarrow> py_error + string" where
  "apply_preserving parse content op path idx =
     (case edit_type_of (operation_type op) of
        Exact \<Rightarrow> apply_exact_text_preserving content op path idx
      | Line_range \<Rightarrow> apply_line_range_preserving content op path idx
      | Diff \<Rightarrow> apply_unified_diff_preserving content op path idx
      | Python_ast \<Rightarrow> apply_python_ast_preserving parse content op path idx
      | Unknown_edit \<Rightarrow> Inl (op_error idx
          (''preserve_newlines is supported only for exact_text, line_range, unified_diff, and python_ast edits in '' @ quoted path)))"

section \<open>Diagnostics\<close>

text \<open>Lines added or removed, as a unified diff shows them.\<close>

definition count_changed_lines :: "string \<Rightarrow> nat" where
  "count_changed_lines diff =
     length (filter (\<lambda>l. (starts_with ''+'' l \<or> starts_with ''-'' l) \<and> \<not> starts_with ''+++'' l \<and> \<not> starts_with ''---'' l) (bare_lines diff))"

record newline_counts =
  nc_lf :: nat
  nc_crlf :: nat
  nc_cr :: nat

fun drop_crlf :: "string \<Rightarrow> string" where
  "drop_crlf (a # b # s) = (if a = carriage \<and> b = newline then drop_crlf s else a # drop_crlf (b # s))"
| "drop_crlf s = s"

definition count_newlines :: "string \<Rightarrow> newline_counts" where
  "count_newlines text =
     \<lparr>nc_lf = count_list (drop_crlf text) newline, nc_crlf = str_count CRLF text, nc_cr = count_list (drop_crlf text) carriage\<rparr>"

definition mixed_newlines :: "newline_counts \<Rightarrow> bool" where
  "mixed_newlines n = (length (filter (\<lambda>v. v > 0) [nc_lf n, nc_crlf n, nc_cr n]) > 1)"

definition line_endings :: "string \<Rightarrow> string list" where
  "line_endings text =
     map (\<lambda>l. if ends_with CRLF l then ''crlf'' else if ends_with [carriage] l then ''cr'' else ''lf'')
       (filter (\<lambda>l. last l \<in> {carriage, newline}) (split_lines text))"

record newline_diagnostic =
  nd_old :: newline_counts
  nd_new :: newline_counts
  nd_mixed_old :: bool
  nd_mixed_new :: bool
  nd_lines :: "nat list"
  nd_total :: nat
  nd_truncated :: bool

definition diagnose_newlines :: "string \<Rightarrow> string \<Rightarrow> newline_diagnostic" where
  "diagnose_newlines old new =
     (let xs = line_endings old; ys = line_endings new;
          at_line = (\<lambda>zs i. if i < length zs then zs ! i else []);
          affected = map Suc (filter (\<lambda>i. at_line xs i \<noteq> at_line ys i) [0..<max (length xs) (length ys)])
      in \<lparr>nd_old = count_newlines old, nd_new = count_newlines new, nd_mixed_old = mixed_newlines (count_newlines old),
          nd_mixed_new = mixed_newlines (count_newlines new), nd_lines = take 20 affected, nd_total = length affected,
          nd_truncated = length affected > 20\<rparr>)"

end
