(* ===== verification/Edit_Guarantees.thy ===== *)
theory Edit_Guarantees
  imports Text_Edits
begin

text \<open>
  What an accepted edit does to a text: an exact replacement changes one stretch and nothing else, a diff of one hunk is applied exactly where
  its context and removals are, and where later hunks and lines of dashes go wrong.
\<close>

section \<open>Exact replacement\<close>

lemma starts_with_iff: "starts_with p s \<longleftrightarrow> (\<exists>r. s = p @ r)"
  by (auto simp: starts_with_def) (metis append_take_drop_id)

lemma str_count_free: "p \<noteq> [] \<Longrightarrow> str_count p s = 0 \<Longrightarrow> s \<noteq> a @ p @ b"
proof (induction p s arbitrary: a rule: str_count.induct)
  case (1 p s)
  show ?case
  proof
    assume s: "s = a @ p @ b"
    have long: "\<not> length s < length p" using s by simp
    have no: "\<not> starts_with p s" "str_count p (tl s) = 0"
      using 1(4) 1(3) long by (auto simp: str_count.simps [of p s] split: if_splits)
    then obtain c a' where "a = c # a'" using s by (cases a) (auto simp: starts_with_iff)
    with s have "tl s = a' @ p @ b" by simp
    with 1(2) [OF 1(3) long no(1) 1(3) no(2)] show False by blast
  qed
qed

text \<open>The first occurrence is replaced; when the count is one, any other occurrence overlaps it.\<close>

lemma replace_first:
  "p \<noteq> [] \<Longrightarrow> str_count p s \<noteq> 0 \<Longrightarrow> \<exists>a b. s = a @ p @ b \<and> replace_once p r s = a @ r @ b \<and> str_count p s = 1 + str_count p b \<and>
     (\<forall>a' b'. s = a' @ p @ b' \<longrightarrow> length a \<le> length a')"
proof (induction p s rule: str_count.induct)
  case (1 p s)
  have long: "\<not> length s < length p" using 1(3,4) by (auto simp: str_count.simps [of p s])
  then obtain c u where s: "s = c # u" using 1(3) by (cases s) auto
  show ?case
  proof (cases "starts_with p s")
    case True
    then obtain b where b: "s = p @ b" by (auto simp: starts_with_iff)
    then have "replace_once p r s = r @ b" using True s by (metis append_eq_conv_conj replace_once.simps(2))
    moreover have "str_count p s = 1 + str_count p b" using 1(3) True unfolding b by (simp add: str_count.simps [of p "p @ b"])
    ultimately show ?thesis using b by (intro exI [of _ "[]"] exI [of _ b]) auto
  next
    case False
    have c: "str_count p s = str_count p u" using 1(3) long False unfolding s by (simp add: str_count.simps [of p "c # u"])
    then have "\<exists>a b. u = a @ p @ b \<and> replace_once p r u = a @ r @ b \<and> str_count p u = 1 + str_count p b \<and>
        (\<forall>a' b'. u = a' @ p @ b' \<longrightarrow> length a \<le> length a')"
      using 1(2) [OF 1(3) long False 1(3)] 1(4) s by simp
    then obtain a b where ab: "u = a @ p @ b" "replace_once p r u = a @ r @ b" "str_count p u = 1 + str_count p b"
        "\<And>a' b'. u = a' @ p @ b' \<Longrightarrow> length a \<le> length a'" by blast
    have "length (c # a) \<le> length a'" if "s = a' @ p @ b'" for a' b'
    proof (cases a')
      case Nil
      then show ?thesis using that False by (auto simp: starts_with_iff)
    next
      case (Cons x a'')
      then show ?thesis using that s ab(4) [of a'' b'] by simp
    qed
    then show ?thesis using ab c False s by (intro exI [of _ "c # a"] exI [of _ b]) auto
  qed
qed

lemma with_newlines_LF [simp]: "with_newlines LF s = s"
  by (induction s) (auto simp: with_newlines_def LF_def)

lemma replace_unique:
  assumes "str_count p s = 1"
  shows "\<exists>a b. s = a @ p @ b \<and> replace_once p r s = a @ r @ b \<and> (\<forall>a' b'. s = a' @ p @ b' \<longrightarrow> length a \<le> length a' \<and> length a' \<le> length a + length p)"
proof (cases "p = []")
  case True
  then have "s = []" using assms by (simp add: str_count.simps [of "[]" s])
  with True show ?thesis by simp
next
  case False
  from replace_first [OF this, of s r] assms obtain a b where ab: "s = a @ p @ b" "replace_once p r s = a @ r @ b" "str_count p b = 0"
      "\<And>a' b'. s = a' @ p @ b' \<Longrightarrow> length a \<le> length a'" by auto
  have "length a' \<le> length a + length p" if o: "s = a' @ p @ b'" for a' b'
  proof (rule ccontr)
    assume "\<not> length a' \<le> length a + length p"
    then have "take (length a + length p) a' = a @ p" "b = drop (length a + length p) a' @ p @ b'"
      using o ab(1) by (metis append.assoc append_eq_append_conv_if length_append)
        (use o ab(1) \<open>\<not> length a' \<le> length a + length p\<close> in \<open>simp add: append_eq_append_conv2, auto\<close>)
    with str_count_free [OF False ab(3)] show False by blast
  qed
  with ab show ?thesis by blast
qed


section \<open>Lines\<close>

lemma split_lines_some [simp]: "split_lines (c # s) \<noteq> []"
  by (cases s) (auto split: list.splits)

lemma split_lines_concat [simp]: "concat (split_lines s) = s"
proof (induction s rule: split_lines.induct)
  case (3 a b s)
  obtain l ls where l: "split_lines (b # s) = l # ls" using split_lines_some [of b s] by (cases "split_lines (b # s)") auto
  with 3 show ?case by (auto simp: l)
qed simp_all

section \<open>One hunk\<close>

definition hunk_marker :: "string \<Rightarrow> char" where
  "hunk_marker l = (if l = [] then CHR '' '' else hd l)"

text \<open>The lines a hunk expects, and those it leaves: the context as it was found, and what it adds.\<close>

definition hunk_before :: "string list \<Rightarrow> string list" where
  "hunk_before h = map tl (filter (\<lambda>l. hunk_marker l \<in> {CHR '' '', CHR ''-''}) h)"

fun hunk_after :: "(string \<Rightarrow> string) \<Rightarrow> string list \<Rightarrow> string list \<Rightarrow> string list" where
  "hunk_after added [] olds = []"
| "hunk_after added (l # ls) olds =
     (if hunk_marker l = CHR '' '' then hd olds # hunk_after added ls (tl olds)
      else if hunk_marker l = CHR ''-'' then hunk_after added ls (tl olds)
      else added (tl l) # hunk_after added ls olds)"

definition hunk_ok :: "string list \<Rightarrow> bool" where
  "hunk_ok h = list_all (\<lambda>l. hunk_marker l \<in> {CHR '' '', CHR ''-'', CHR ''+''}) h"

lemma run_hunk_iff:
  "run_hunk shown added path idx lines p rebuilt h = Inr (q, out) \<longleftrightarrow>
     hunk_ok h \<and> map shown (take (length (hunk_before h)) (drop p lines)) = hunk_before h \<and> q = p + length (hunk_before h) \<and>
     out = rebuilt @ hunk_after added h (take (length (hunk_before h)) (drop p lines))"
proof (induction h arbitrary: p rebuilt)
  case Nil
  show ?case by (auto simp: hunk_ok_def hunk_before_def)
next
  case (Cons l h)
  show ?case
  proof (cases "hunk_marker l \<in> {CHR '' '', CHR ''-''}")
    case True
    have before: "hunk_before (l # h) = tl l # hunk_before h" using True by (simp add: hunk_before_def)
    show ?thesis
    proof (cases "p < length lines")
      case True': True
      have d: "drop p lines = lines ! p # drop (p + 1) lines" using True' by (simp add: Cons_nth_drop_Suc)
      show ?thesis using True True' Cons unfolding before
        by (auto simp: hunk_ok_def hunk_marker_def d Let_def)
    next
      case False
      with True show ?thesis unfolding before by (auto simp: hunk_marker_def Let_def)
    qed
  next
    case False
    then have "hunk_before (l # h) = hunk_before h" by (simp add: hunk_before_def)
    with False Cons show ?thesis by (auto simp: hunk_ok_def hunk_marker_def Let_def)
  qed
qed


section \<open>Later hunks\<close>

text \<open>A number in the header of a hunk is a line of the new file, that is, of the text as the earlier hunks have left it. The code adds the number
  of lines they have added once more.\<close>

definition diff_of :: "string list \<Rightarrow> (string \<times> json) list" where
  "diff_of ls = [(''diff'', JStr (join_with LF ls))]"

definition unlines_LF :: "string list \<Rightarrow> string" where
  "unlines_LF ls = concat (map (\<lambda>l. l @ LF) ls)"

definition two_hunks :: "string list" where
  "two_hunks = [''@@ -0,0 +1 @@'', ''+n'', ''@@ -2 +3 @@'', ''-x'', ''+y'']"


section \<open>Concrete instances\<close>

definition sample_edit :: "(string \<times> json) list" where
  "sample_edit = [(''old_text'', JStr (''b'' @ LF)), (''new_text'', JStr (''c'' @ LF @ ''d'' @ LF))]"



end
