(* ===== verification/Repo_Paths.thy ===== *)
theory Repo_Paths
  imports Text_Edits Workflow_Publication
begin

text \<open>
  The files of a repository and the paths that may be written: \<open>validate_repo_relative_path\<close> of \<open>src/soma/safety.py\<close>, \<open>_resolve_and_validate\<close> of
  \<open>src/soma/repo_reader.py\<close>, and the checks \<open>src/soma/repo_writer.py\<close> adds for a write. A tree maps paths to regular files and links; a link
  is stored with the path it finally leads to. Directories are fixed, the root is resolved, and the host is a POSIX one.
\<close>

section \<open>The repository\<close>

datatype entry = Regular bytes | Link string

type_synonym tree = "string \<Rightarrow> entry option"

text \<open>
  \<open>rw_fault label path\<close> is the error of the write, removal or creation named by the label, \<open>rw_decode\<close> is decoding with replacement,
  \<open>rw_decode_strict\<close> without, \<open>rw_diff\<close> is \<open>difflib.unified_diff\<close>.
\<close>

record repo_world =
  rw_root :: string
  rw_directory :: "string \<Rightarrow> bool"
  rw_reparse :: "string \<Rightarrow> bool"
  rw_probe_fails :: "string \<Rightarrow> bool"
  rw_read_error :: "string \<Rightarrow> py_error option"
  rw_fault :: "string \<Rightarrow> string \<Rightarrow> py_error option"
  rw_sha :: "bytes \<Rightarrow> string"
  rw_encode :: "string \<Rightarrow> bytes"
  rw_decode :: "bytes \<Rightarrow> string"
  rw_decode_strict :: "bytes \<Rightarrow> py_error + string"
  rw_diff :: "string \<Rightarrow> string \<Rightarrow> string \<Rightarrow> string"
  rw_python :: python_parser
  rw_head :: string
  rw_fingerprint :: string
  rw_dirty :: "string list"
  rw_clock :: "nat \<Rightarrow> timestamp"
  rw_patch_id :: string

text \<open>\<open>Path.resolve\<close> of a path whose directories are resolved, \<open>exists\<close>, and the bytes of a file.\<close>

definition resolved :: "tree \<Rightarrow> string \<Rightarrow> string" where
  "resolved t p = (case t p of Some (Link q) \<Rightarrow> q | _ \<Rightarrow> p)"

definition file_at :: "tree \<Rightarrow> string \<Rightarrow> bytes option" where
  "file_at t p = (case t (resolved t p) of Some (Regular b) \<Rightarrow> Some b | _ \<Rightarrow> None)"

definition path_exists :: "repo_world \<Rightarrow> tree \<Rightarrow> string \<Rightarrow> bool" where
  "path_exists w t p = (file_at t p \<noteq> None \<or> rw_directory w (resolved t p))"

definition path_linked :: "tree \<Rightarrow> string \<Rightarrow> bool" where
  "path_linked t p = (case t p of Some (Link _) \<Rightarrow> True | _ \<Rightarrow> False)"

definition path_is_directory :: "repo_world \<Rightarrow> tree \<Rightarrow> string \<Rightarrow> bool" where
  "path_is_directory w t p = (file_at t p = None \<and> rw_directory w (resolved t p))"

definition repo_path :: "repo_world \<Rightarrow> string \<Rightarrow> string" where
  "repo_path w rel = join_path (rw_root w) (posix_parts rel)"

definition within :: "string \<Rightarrow> string \<Rightarrow> bool" where
  "within root p = (p = root \<or> starts_with (root @ ''/'') p)"

definition parts_below :: "string \<Rightarrow> string \<Rightarrow> string list" where
  "parts_below root p = posix_parts (drop (length root) p)"

section \<open>Paths\<close>

text \<open>\<open>PureWindowsPath(path).drive\<close>, apart from UNC shares.\<close>

definition windows_drive :: "string \<Rightarrow> bool" where
  "windows_drive s = (case s of a # b # _ \<Rightarrow> b = CHR '':'' \<and> a \<notin> {CHR ''/'', CHR 0x5C} | _ \<Rightarrow> False)"

definition validate_repo_relative_path :: "repo_world \<Rightarrow> tree \<Rightarrow> string \<Rightarrow> py_error + string" where
  "validate_repo_relative_path w t rel =
     (if py_strip rel = [] then Inl (ValueError ''Path must not be empty'')
      else if windows_drive rel \<or> starts_with ''//'' (slashes rel)
      then Inl (ValueError (''Absolute, drive, and UNC paths are not allowed: '' @ rel))
      else if starts_with ''/'' rel then Inl (ValueError (''Absolute paths are not allowed: '' @ rel))
      else if list_ex wildcard rel then Inl (ValueError (''Wildcard paths are not allowed: '' @ rel))
      else if ''..'' \<in> set (split_slash (slashes rel)) then Inl (ValueError (''Parent traversal is not allowed: '' @ rel))
      else let p = resolved t (repo_path w rel) in
           if within (rw_root w) p then Inr p else Inl (ValueError (''Path escapes repo: '' @ rel)))"

definition BLOCKED_NAMES :: "string list" where
  "BLOCKED_NAMES =
     [''.git'', ''.venv'', ''venv'', ''__pycache__'', ''.pytest_cache'', ''.mypy_cache'', ''.ruff_cache'', ''.codex-pytest-temp'',
      ''.tmp.driveupload'', ''.tox'', ''.nox'', ''node_modules'', ''runs'', ''dist'', ''build'', ''coverage'', ''htmlcov'', ''.next'', ''generated'',
      ''media'', ''artifacts'', ''models'', ''credentials'', ''secrets'']"

definition BLOCKED_EXTENSIONS :: "string list" where
  "BLOCKED_EXTENSIONS = [''.pyc'', ''.pyo'', ''.pem'', ''.key'', ''.p12'', ''.pfx'', ''.bak'', ''.tmp'']"

definition BLOCKED_FILE_NAMES :: "string list" where
  "BLOCKED_FILE_NAMES = [''desktop.ini'']"

definition ALLOWED_ENV_NAMES :: "string list" where
  "ALLOWED_ENV_NAMES = [''.env.example'', ''.env.sample'', ''.env.template'']"

definition is_blocked_name :: "string \<Rightarrow> bool" where
  "is_blocked_name name =
     (lower name \<in> set BLOCKED_NAMES \<or> lower name \<in> set BLOCKED_FILE_NAMES \<or> lower (suffix_of name) \<in> set BLOCKED_EXTENSIONS)"

definition is_blocked_env :: "string \<Rightarrow> bool" where
  "is_blocked_env name = (starts_with ''.env'' (lower name) \<and> lower name \<notin> set ALLOWED_ENV_NAMES)"

definition path_is_allowed :: "repo_world \<Rightarrow> tree \<Rightarrow> string \<Rightarrow> bool" where
  "path_is_allowed w t p =
     (within (rw_root w) p \<and> list_all (\<lambda>part. \<not> is_blocked_name part \<and> \<not> is_blocked_env part) (parts_below (rw_root w) p) \<and>
      within (rw_root w) (resolved t p) \<and> \<not> rw_reparse w p)"

definition resolve_and_validate :: "repo_world \<Rightarrow> tree \<Rightarrow> string \<Rightarrow> py_error + string" where
  "resolve_and_validate w t rel =
     (case validate_repo_relative_path w t rel of
        Inl e \<Rightarrow> Inl e
      | Inr p \<Rightarrow> if path_is_allowed w t p then Inr p else Inl (ValueError (''Path is not allowed: '' @ rel)))"

definition WRITE_BLOCKED_EXTENSIONS :: "string list" where
  "WRITE_BLOCKED_EXTENSIONS = [''.bak'', ''.tmp'', ''.pyc'', ''.pyo'', ''.pem'', ''.key'', ''.p12'', ''.pfx'']"

definition WRITE_BLOCKED_NAMES_EXTRA :: "string list" where
  "WRITE_BLOCKED_NAMES_EXTRA = [''desktop.ini'']"

definition final_name :: "string \<Rightarrow> string" where
  "final_name rel = (if posix_parts rel = [] then [] else last (posix_parts rel))"

definition resolve_and_validate_write :: "repo_world \<Rightarrow> tree \<Rightarrow> string \<Rightarrow> py_error + string" where
  "resolve_and_validate_write w t rel =
     (case resolve_and_validate w t rel of
        Inl e \<Rightarrow> Inl e
      | Inr p \<Rightarrow>
          if lower (suffix_of (final_name rel)) \<in> set WRITE_BLOCKED_EXTENSIONS
          then Inl (ValueError (''Writing to this file type is not allowed: '' @ rel))
          else if lower (final_name rel) \<in> set WRITE_BLOCKED_NAMES_EXTRA
          then Inl (ValueError (''Writing to this file is not allowed: '' @ rel))
          else Inr p)"

section \<open>Reading and checking a target\<close>

definition MAX_BINARY_PROBE :: nat where
  "MAX_BINARY_PROBE = 8192"

definition is_binary :: "repo_world \<Rightarrow> tree \<Rightarrow> string \<Rightarrow> bool" where
  "is_binary w t p =
     (rw_probe_fails w p \<or> (case file_at t p of None \<Rightarrow> True | Some b \<Rightarrow> CHR 0x00 \<in> set (take MAX_BINARY_PROBE b)))"

definition read_bytes :: "repo_world \<Rightarrow> tree \<Rightarrow> string \<Rightarrow> py_error + bytes" where
  "read_bytes w t p =
     (case rw_read_error w p of
        Some e \<Rightarrow> Inl e
      | None \<Rightarrow> (case file_at t p of Some b \<Rightarrow> Inr b | None \<Rightarrow> Inl (FileNotFoundError p)))"

definition MAX_CREATE_BYTES :: nat where
  "MAX_CREATE_BYTES = 200 * 1024"

definition validate_create_target :: "repo_world \<Rightarrow> tree \<Rightarrow> string \<Rightarrow> string \<Rightarrow> py_error + (string \<times> nat)" where
  "validate_create_target w t path content =
     (case resolve_and_validate_write w t path of
        Inl e \<Rightarrow> Inl e
      | Inr p \<Rightarrow>
          if path_exists w t p then Inl (ValueError (''File already exists: '' @ path))
          else if p = rw_root w then Inl (ValueError (''Parent directory is outside the repository: '' @ path))
          else let n = length (rw_encode w content) in
               if n > MAX_CREATE_BYTES then Inl (ValueError ''Content exceeds 200 KB limit for create_repo_file'') else Inr (p, n))"

text \<open>A stale hash; the ellipsis of the message is written as three dots.\<close>

definition stale_hash :: "string \<Rightarrow> string \<Rightarrow> string \<Rightarrow> string \<Rightarrow> string" where
  "stale_hash word path expected found =
     word @ quoted path @ '': expected '' @ take 12 expected @ ''... got '' @ take 12 found @ ''...''"

definition validate_remove_target :: "repo_world \<Rightarrow> tree \<Rightarrow> string \<Rightarrow> string \<Rightarrow> py_error + (string \<times> bytes \<times> string)" where
  "validate_remove_target w t path expected =
     (case resolve_and_validate_write w t path of
        Inl e \<Rightarrow> Inl e
      | Inr p \<Rightarrow>
          if \<not> path_exists w t p then Inl (FileNotFoundError (''File not found: '' @ path))
          else if path_is_directory w t p then Inl (ValueError (''Directory deletion is not allowed: '' @ path))
          else if path_linked t p then Inl (ValueError (''Symlinks are not allowed: '' @ path))
          else case read_bytes w t p of
            Inl e \<Rightarrow> Inl e
          | Inr b \<Rightarrow> if rw_sha w b \<noteq> expected then Inl (ValueError (stale_hash ''Stale hash for '' path expected (rw_sha w b)))
                     else Inr (p, b, rw_sha w b))"

end
