(* ===== verification/Repo_Patches.thy ===== *)
theory Repo_Patches
  imports Repo_Paths Redaction
begin

text \<open>
  Managed patches, \<open>src/soma/repo_writer.py\<close>: the validation of edits into one final text per file, the preview bundle, its application with a
  rollback, its reversal, and the creation, removal and move of a file; with the transactions of \<open>src/soma/transactions.py\<close>. A bundle is the
  directory of a patch: its manifest, its files and its rollback directory. The repository lock keeps other writers away, so nothing happens
  between two steps; but every write may fail.
\<close>

section \<open>Edits of several files\<close>

definition MAX_PATCH_FILES :: nat where
  "MAX_PATCH_FILES = 50"

definition MAX_PATCH_LINES :: nat where
  "MAX_PATCH_LINES = 10000"

definition MAX_PATCH_BYTES :: nat where
  "MAX_PATCH_BYTES = 2 * 1024 * 1024"

datatype newline_mode = No_mode | Preserved | Normalized

record edit_result =
  er_index :: nat
  er_type :: string
  er_error :: "string option"

text \<open>What is known of one file while its edits are composed.\<close>

record edit_state =
  es_path :: string
  es_absolute :: string
  es_bytes :: bytes
  es_content :: string
  es_working :: string
  es_preserved :: string
  es_mode :: newline_mode
  es_dominant :: string
  es_sha :: string
  es_results :: "edit_result list"
  es_exact :: "(string \<times> nat) list"

definition es_by_path :: "string \<Rightarrow> edit_state list \<Rightarrow> edit_state option" where
  "es_by_path path states = find (\<lambda>st. es_path st = path) states"

definition put_edit_state :: "edit_state \<Rightarrow> edit_state list \<Rightarrow> edit_state list" where
  "put_edit_state st states =
     (if es_by_path (es_path st) states = None then states @ [st] else map (\<lambda>x. if es_path x = es_path st then st else x) states)"

text \<open>The first edit of a file reads it; \<open>Inr (Inl m)\<close> is a message for the caller.\<close>

definition open_edit_state :: "repo_world \<Rightarrow> tree \<Rightarrow> nat \<Rightarrow> string \<Rightarrow> string + edit_state" where
  "open_edit_state w t idx path =
     (case resolve_and_validate_write w t path of
        Inl e \<Rightarrow> Inl (op_label idx @ exc_text e)
      | Inr p \<Rightarrow>
          if \<not> path_exists w t p then Inl (op_label idx @ ''file does not exist: '' @ path)
          else if path_is_directory w t p then Inl (op_label idx @ ''path is a directory: '' @ path)
          else if path_linked t p then Inl (op_label idx @ ''symlinks are not allowed: '' @ path)
          else if is_binary w t p then Inl (op_label idx @ ''binary files are not supported: '' @ path)
          else case read_bytes w t p of
            Inl e \<Rightarrow> Inl (op_label idx @ ''cannot read file: '' @ exc_text e)
          | Inr b \<Rightarrow> let text = rw_decode w b in Inr
              \<lparr>es_path = path, es_absolute = p, es_bytes = b, es_content = text, es_working = normalize_newlines text, es_preserved = text,
               es_mode = No_mode, es_dominant = dominant_newline text, es_sha = rw_sha w b, es_results = [], es_exact = []\<rparr>)"

definition preserves_newlines :: "(string \<times> json) list \<Rightarrow> bool" where
  "preserves_newlines op =
     (if field ''preserve_newlines'' op = JNull then edit_type_of (operation_type op) \<noteq> Unknown_edit else flag ''preserve_newlines'' op)"

text \<open>One edit of a file whose hash is the expected one.\<close>

definition edit_file :: "repo_world \<Rightarrow> (string \<times> json) list \<Rightarrow> nat \<Rightarrow> edit_state \<Rightarrow> py_error + edit_state" where
  "edit_file w op idx st =
     (let mode = (if preserves_newlines op then Preserved else Normalized) in
      if es_mode st \<noteq> No_mode \<and> es_mode st \<noteq> mode
      then Inl (op_error idx (''cannot mix preserve_newlines and normalized edits for '' @ quoted (es_path st)))
      else
        case (if preserves_newlines op
              then map_sum (\<lambda>e. e) (\<lambda>new. st\<lparr>es_preserved := new\<rparr>) (apply_preserving (rw_python w) (es_preserved st) op (es_path st) idx)
              else map_sum (\<lambda>e. e) (\<lambda>new. st\<lparr>es_working := new\<rparr>) (apply_operation_to_content (rw_python w) (es_working st) op (es_path st) idx)) of
          Inl e \<Rightarrow> Inl e
        | Inr st' \<Rightarrow> Inr (st'\<lparr>es_mode := mode,
            es_exact := (if edit_type_of (operation_type op) = Exact
                         then (normalize_newlines (text_or_empty ''old_text'' op), idx) # es_exact st else es_exact st),
            es_results := es_results st @ [\<lparr>er_index = idx, er_type = operation_type op, er_error = None\<rparr>]\<rparr>))"

text \<open>An exact text that is gone because an earlier edit replaced it is reported as an overlap.\<close>

definition edit_message :: "(string \<times> json) list \<Rightarrow> nat \<Rightarrow> edit_state \<Rightarrow> string \<Rightarrow> string" where
  "edit_message op idx st m =
     (if edit_type_of (operation_type op) = Exact \<and> str_count ''old_text not found'' m > 0
      then (case map_of (es_exact st) (normalize_newlines (text_or_empty ''old_text'' op)) of
              Some prior \<Rightarrow> op_label idx @ ''edit overlaps op['' @ nat_digits prior @ ''] in '' @ quoted (es_path st)
            | None \<Rightarrow> m)
      else m)"

definition try_edit :: "repo_world \<Rightarrow> (string \<times> json) list \<Rightarrow> nat \<Rightarrow> edit_state \<Rightarrow> py_error + edit_state \<times> string list" where
  "try_edit w op idx st =
     (case edit_file w op idx st of
        Inr st' \<Rightarrow> Inr (st', [])
      | Inl (ValueError m0) \<Rightarrow>
          let m = edit_message op idx st m0 in
          Inr (st\<lparr>es_results := es_results st @ [\<lparr>er_index = idx, er_type = operation_type op, er_error = Some m\<rparr>]\<rparr>, [m])
      | Inl e \<Rightarrow> Inl e)"

fun compose_edits ::
  "repo_world \<Rightarrow> tree \<Rightarrow> nat \<Rightarrow> json list \<Rightarrow> edit_state list \<Rightarrow> string list \<Rightarrow> py_error + edit_state list \<times> string list" where
  "compose_edits w t idx [] states errors = Inr (states, errors)"
| "compose_edits w t idx (JObj op # ops) states errors =
     (case field ''path'' op of
        JStr path \<Rightarrow>
          if path = [] then compose_edits w t (idx + 1) ops states (errors @ [op_label idx @ ''path is required''])
          else (case (case es_by_path path states of Some st \<Rightarrow> Inr st | None \<Rightarrow> open_edit_state w t idx path) of
             Inl m \<Rightarrow> compose_edits w t (idx + 1) ops states (errors @ [m])
           | Inr st \<Rightarrow>
               let states' = put_edit_state st states; expected = text_or_empty ''expected_sha256'' op in
               if flag ''expected_sha256'' op \<and> es_sha st \<noteq> expected
               then compose_edits w t (idx + 1) ops states' (errors @ [op_label idx @ stale_hash ''stale hash for '' path expected (es_sha st)])
               else case try_edit w op idx st of
                 Inl e \<Rightarrow> Inl e
               | Inr (st', ms) \<Rightarrow> compose_edits w t (idx + 1) ops (put_edit_state st' states') (errors @ ms))
      | _ \<Rightarrow> compose_edits w t (idx + 1) ops states (errors @ [op_label idx @ ''path is required'']))"
| "compose_edits w t idx (_ # ops) states errors =
     compose_edits w t (idx + 1) ops states (errors @ [op_label idx @ ''operation must be an object''])"

record validated_edit =
  ve_path :: string
  ve_absolute :: string
  ve_sha :: string
  ve_content :: string
  ve_new :: string
  ve_diff :: string
  ve_changed :: nat
  ve_logical :: nat
  ve_newline_only :: nat
  ve_diagnostic :: newline_diagnostic
  ve_warnings :: "string list"
  ve_bytes :: nat
  ve_results :: "edit_result list"

definition distance :: "nat \<Rightarrow> nat \<Rightarrow> nat" where
  "distance a b = (if a \<le> b then b - a else a - b)"

text \<open>The final text of a file all of whose edits succeeded, or the message that only newlines would change.\<close>

definition validated_edit_of :: "repo_world \<Rightarrow> edit_state \<Rightarrow> string + validated_edit" where
  "validated_edit_of w st =
     (let old = es_content st; path = es_path st;
          new = (if es_mode st = Preserved then es_preserved st else restore_newlines (es_working st) (es_dominant st));
          diff = rw_diff w old new path; changed = count_changed_lines diff;
          logical = count_changed_lines (rw_diff w (normalize_newlines old) (normalize_newlines new) path);
          only = changed - logical; d = diagnose_newlines old new
      in if es_mode st = Preserved \<and> only \<noteq> 0
         then Inl (''Patch for '' @ quoted path @ '' introduces '' @ nat_digits only @ '' newline-only changed lines while preserve_newlines is enabled'')
         else Inr \<lparr>ve_path = path, ve_absolute = es_absolute st, ve_sha = es_sha st, ve_content = old, ve_new = new, ve_diff = diff,
                 ve_changed = changed, ve_logical = logical, ve_newline_only = only, ve_diagnostic = d,
                 ve_warnings = (if es_mode st = Normalized \<and> nd_mixed_old d \<and> nd_old d \<noteq> nd_new d
                   then [quoted path @ '' requests whole-file newline normalization; set preserve_newlines=true to keep untouched newline sequences'']
                   else []),
                 ve_bytes = distance (length (rw_encode w new)) (length (es_bytes st)), ve_results = es_results st\<rparr>)"

definition edits_ok :: "edit_state \<Rightarrow> bool" where
  "edits_ok st = (es_results st \<noteq> [] \<and> list_all (\<lambda>r. er_error r = None) (es_results st))"

definition requested_paths :: "json list \<Rightarrow> string list" where
  "requested_paths ops = remdups (map (\<lambda>j. py_str (field ''path'' (as_object j))) (filter (\<lambda>j. flag ''path'' (as_object j)) ops))"

definition validate_operations :: "repo_world \<Rightarrow> tree \<Rightarrow> json list \<Rightarrow> py_error + validated_edit list \<times> string list" where
  "validate_operations w t ops =
     (if ops = [] then Inr ([], [''operations must be a non-empty list''])
      else
        let n = length (requested_paths ops);
            too_many = (if n > MAX_PATCH_FILES then [''Patch exceeds 50 file limit ('' @ nat_digits n @ '' files)''] else [])
        in case compose_edits w t 0 ops [] too_many of
             Inl e \<Rightarrow> Inl e
           | Inr (states, errors) \<Rightarrow>
               let outcomes = map (validated_edit_of w) (filter edits_ok states);
                   validated = List.map_filter (\<lambda>x. case x of Inr v \<Rightarrow> Some v | Inl _ \<Rightarrow> None) outcomes;
                   messages = List.map_filter (\<lambda>x. case x of Inl m \<Rightarrow> Some m | Inr _ \<Rightarrow> None) outcomes;
                   lines = sum_list (map ve_changed validated); size_bytes = sum_list (map ve_bytes validated)
               in Inr (validated, errors @ messages @
                    (if lines > MAX_PATCH_LINES then [''Patch exceeds 10000 changed-line limit ('' @ nat_digits lines @ '' lines)''] else []) @
                    (if size_bytes > MAX_PATCH_BYTES then [''Patch exceeds 2048 KB changed-byte limit''] else [])))"

section \<open>Bundles\<close>

record patch_entry =
  pe_action :: string
  pe_path :: string
  pe_sha :: string
  pe_payload :: payload_descriptor
  pe_changed :: nat
  pe_logical :: nat
  pe_newline_only :: nat
  pe_diagnostic :: "newline_diagnostic option"
  pe_bytes :: nat

record applied_result =
  ap_action :: string
  ap_path :: string
  ap_sha :: string
  ap_rollback :: string

record transaction_result =
  tn_phases :: "(string \<times> (string \<times> json) list) list"
  tn_validation :: "edit_result list"
  tn_introduced :: "string list"
  tn_preserved :: "string list"
  tn_workspace :: "string list"

record apply_answer =
  aa_changed_files :: "string list"
  aa_results :: "(string \<times> string) list"
  aa_git_head :: string
  aa_title :: string
  aa_description :: string
  aa_transaction :: "transaction_result option"
  aa_replay :: bool

record manifest =
  mf_version :: int
  mf_created_at :: timestamp
  mf_fingerprint :: string
  mf_head :: string
  mf_status :: string
  mf_operations :: "patch_entry list"
  mf_errors :: "string list"
  mf_warnings :: "string list"
  mf_title :: string
  mf_description :: string
  mf_applying_at :: "timestamp option"
  mf_applied_at :: "timestamp option"
  mf_failed_at :: "timestamp option"
  mf_reverted_at :: "timestamp option"
  mf_applied_head :: string
  mf_applied :: "applied_result list"
  mf_result :: "apply_answer option"

text \<open>The directory of a patch: its manifest, its other files, and its rollback directory once that exists.\<close>

record patch_bundle =
  bd_manifest :: manifest
  bd_files :: tree
  bd_rollback :: "tree option"

text \<open>What the removal and the move of a single file keep beside the bundles: the content that was removed, and the manifests.\<close>

datatype kept_copy =
    Original_content string bytes
  | Delete_manifest string string string timestamp
  | Move_manifest string string string string timestamp

record repo_state =
  rs_tree :: tree
  rs_bundles :: "string \<Rightarrow> patch_bundle option"
  rs_kept :: "kept_copy list"

text \<open>\<open>_PATCH_ID_RE.fullmatch\<close>\<close>

definition digits_at :: "string \<Rightarrow> nat \<Rightarrow> nat \<Rightarrow> bool" where
  "digits_at s i n = (length (take n (drop i s)) = n \<and> list_all is_digit (take n (drop i s)))"

definition patch_id_ok :: "string \<Rightarrow> bool" where
  "patch_id_ok s =
     (length s = 31 \<and> digits_at s 0 8 \<and> take 1 (drop 8 s) = ''T'' \<and> digits_at s 9 6 \<and> take 8 (drop 15 s) = ''Z_patch_'' \<and>
      list_all is_hex_lower (drop 23 s))"

definition find_bundle :: "string \<Rightarrow> repo_state \<Rightarrow> py_error + patch_bundle" where
  "find_bundle pid s =
     (if \<not> patch_id_ok pid then Inl (ValueError (''Invalid patch_id: '' @ py_repr_str pid))
      else case rs_bundles s pid of None \<Rightarrow> Inl (ValueError (''Unknown patch_id: '' @ pid)) | Some b \<Rightarrow> Inr b)"

definition update_bundle :: "string \<Rightarrow> (patch_bundle \<Rightarrow> patch_bundle) \<Rightarrow> repo_state \<Rightarrow> repo_state" where
  "update_bundle pid f s = s\<lparr>rs_bundles := (rs_bundles s)(pid := map_option f (rs_bundles s pid))\<rparr>"

text \<open>Every write is atomic: it happens as a whole or it raises.\<close>

definition effect :: "repo_world \<Rightarrow> string \<Rightarrow> string \<Rightarrow> (repo_state \<Rightarrow> repo_state) \<Rightarrow> repo_state \<Rightarrow> (repo_state, unit) outcome" where
  "effect w label path f s = (case rw_fault w label path of Some e \<Rightarrow> (Inl e, s) | None \<Rightarrow> (Inr (), f s))"

definition put_file :: "repo_world \<Rightarrow> string \<Rightarrow> string \<Rightarrow> bytes \<Rightarrow> repo_state \<Rightarrow> (repo_state, unit) outcome" where
  "put_file w label path b = effect w label path (\<lambda>s. s\<lparr>rs_tree := (rs_tree s)(path \<mapsto> Regular b)\<rparr>)"

definition unlink_file :: "repo_world \<Rightarrow> string \<Rightarrow> string \<Rightarrow> repo_state \<Rightarrow> (repo_state, unit) outcome" where
  "unlink_file w label path s =
     (if rs_tree s path = None then (Inl (FileNotFoundError path), s) else effect w label path (\<lambda>s. s\<lparr>rs_tree := (rs_tree s)(path := None)\<rparr>) s)"

definition put_manifest :: "repo_world \<Rightarrow> string \<Rightarrow> string \<Rightarrow> manifest \<Rightarrow> repo_state \<Rightarrow> (repo_state, unit) outcome" where
  "put_manifest w label pid m = effect w label ''manifest.json'' (update_bundle pid (\<lambda>b. b\<lparr>bd_manifest := m\<rparr>))"

definition rollback_file_name :: "nat \<Rightarrow> string" where
  "rollback_file_name i = ''rollback_'' @ nat_digits i @ ''.bin''"

definition legacy_rollback_file_name :: "string \<Rightarrow> string" where
  "legacy_rollback_file_name path = concat (map (\<lambda>c. if c \<in> {CHR ''/'', CHR 0x5C} then ''__'' else [c]) path)"

definition put_rollback :: "repo_world \<Rightarrow> string \<Rightarrow> string \<Rightarrow> string \<Rightarrow> bytes \<Rightarrow> repo_state \<Rightarrow> (repo_state, unit) outcome" where
  "put_rollback w label pid name b =
     effect w label name (update_bundle pid (\<lambda>d. d\<lparr>bd_rollback := map_option (\<lambda>files. files(name \<mapsto> Regular b)) (bd_rollback d)\<rparr>))"

definition make_rollback_dir :: "repo_world \<Rightarrow> string \<Rightarrow> repo_state \<Rightarrow> (repo_state, unit) outcome" where
  "make_rollback_dir w pid =
     effect w ''mkdir'' ''rollback'' (update_bundle pid (\<lambda>d. d\<lparr>bd_rollback := Some (case bd_rollback d of None \<Rightarrow> Map.empty | Some t \<Rightarrow> t)\<rparr>))"

text \<open>\<open>_resolve_bundle_file\<close> and the reading of the file.\<close>

definition read_bundle_file :: "repo_world \<Rightarrow> tree \<Rightarrow> string \<Rightarrow> string \<Rightarrow> string \<Rightarrow> py_error + bytes" where
  "read_bundle_file w files kind filename expected =
     (let Kind = (if kind = ''payload'' then ''Payload'' else ''Rollback'') in
      if filename \<noteq> expected then Inl (ValueError (Kind @ '' filename mismatch: expected '' @ quoted expected))
      else case files filename of
        None \<Rightarrow> Inl (ValueError (if kind = ''payload'' then ''Patch bundle is missing the opaque payload: '' @ filename
                                 else ''Missing '' @ kind @ '' file: '' @ filename))
      | Some (Link _) \<Rightarrow> Inl (ValueError (Kind @ '' file must not be a symlink: '' @ filename))
      | Some (Regular b) \<Rightarrow> (case rw_fault w ''read'' filename of Some e \<Rightarrow> Inl e | None \<Rightarrow> Inr b))"

definition no_payload :: payload_descriptor where
  "no_payload = \<lparr>pd_file = [], pd_chunks = [], pd_sha256 = [], pd_size_bytes = Some 0\<rparr>"

record planned_op =
  pn_entry :: patch_entry
  pn_text :: "string option"

definition plan_payload :: "repo_world \<Rightarrow> nat \<Rightarrow> planned_op \<Rightarrow> patch_entry \<times> (string \<times> bytes) list" where
  "plan_payload w index op =
     (case pn_text op of
        None \<Rightarrow> (pn_entry op, [])
      | Some text \<Rightarrow> (case build_payload_parts (rw_sha w) index (rw_encode w text) of
          (descriptor, parts) \<Rightarrow> ((pn_entry op)\<lparr>pe_payload := descriptor\<rparr>, parts)))"

definition bundle_files :: "(string \<times> bytes) list \<Rightarrow> tree" where
  "bundle_files parts = map_of (rev (map (\<lambda>(name, b). (name, Regular b)) parts))"

definition new_manifest :: "repo_world \<Rightarrow> patch_entry list \<Rightarrow> string list \<Rightarrow> string list \<Rightarrow> string \<Rightarrow> string \<Rightarrow> manifest" where
  "new_manifest w entries errors warnings title description =
     \<lparr>mf_version = 3, mf_created_at = rw_clock w 0, mf_fingerprint = rw_fingerprint w, mf_head = rw_head w,
      mf_status = (if errors \<noteq> [] then ''preview_failed'' else ''preview_ok''), mf_operations = entries, mf_errors = errors, mf_warnings = warnings,
      mf_title = title, mf_description = description, mf_applying_at = None, mf_applied_at = None, mf_failed_at = None, mf_reverted_at = None,
      mf_applied_head = [], mf_applied = [], mf_result = None\<rparr>"

text \<open>\<open>_write_preview_bundle\<close>: the payloads, the manifest and the diff of the preview; the repository is not touched.\<close>

definition write_preview_bundle ::
  "repo_world \<Rightarrow> planned_op list \<Rightarrow> string \<Rightarrow> string list \<Rightarrow> string list \<Rightarrow> string \<Rightarrow> string \<Rightarrow> repo_state \<Rightarrow> (repo_state, unit) outcome" where
  "write_preview_bundle w ops diff errors warnings title description =
     (let plans = map (\<lambda>(i, op). plan_payload w i op) (enumerate 0 ops);
          parts = concat (map snd plans) @ (if diff = [] then [] else [(''preview.diff'', rw_encode w diff)]);
          d = \<lparr>bd_manifest = new_manifest w (map fst plans) errors warnings title description, bd_files = bundle_files parts, bd_rollback = None\<rparr>
      in effect w ''preview'' (rw_patch_id w) (\<lambda>s. s\<lparr>rs_bundles := (rs_bundles s)(rw_patch_id w \<mapsto> d)\<rparr>))"

section \<open>Previews\<close>

definition MAX_COMMIT_TITLE_LENGTH :: nat where
  "MAX_COMMIT_TITLE_LENGTH = 200"

definition MAX_COMMIT_DESCRIPTION_LENGTH :: nat where
  "MAX_COMMIT_DESCRIPTION_LENGTH = 10000"

fun contains_secret :: "string \<Rightarrow> bool" where
  "contains_secret [] = False"
| "contains_secret (c # s) = (match_secret Assignment (c # s) \<noteq> None \<or> match_secret Bearer_token (c # s) \<noteq> None \<or> contains_secret s)"

text \<open>\<open>git_tools._validate_commit_metadata\<close>; its exception is a \<open>ValueError\<close>.\<close>

definition commit_metadata_error :: "string \<Rightarrow> string \<Rightarrow> string option" where
  "commit_metadata_error title description =
     (if py_strip title = [] then Some ''Commit title must not be empty''
      else if length title > MAX_COMMIT_TITLE_LENGTH then Some ''Commit title exceeds 200 characters''
      else if newline \<in> set title \<or> carriage \<in> set title then Some ''Commit title must be a single line''
      else if list_ex (\<lambda>c. (of_char c :: nat) < 32) title then Some ''Commit title contains a control character''
      else if length description > MAX_COMMIT_DESCRIPTION_LENGTH then Some ''Commit description exceeds 10000 characters''
      else if list_ex (\<lambda>c. (of_char c :: nat) < 32 \<and> c \<notin> {CHR 0x09, newline, carriage}) description
      then Some ''Commit description contains a control character''
      else if contains_secret title then Some ''Commit title appears to contain a secret value''
      else if contains_secret description then Some ''Commit description appears to contain a secret value''
      else None)"

record preview_answer =
  pa_patch_id :: string
  pa_diff :: string
  pa_changed_files :: "string list"
  pa_changed_lines :: nat
  pa_changed_bytes :: nat
  pa_warnings :: "string list"
  pa_errors :: "string list"

definition bound_description :: "repo_world \<Rightarrow> string \<Rightarrow> string \<Rightarrow> string" where
  "bound_description w title description =
     (if title = [] \<and> description = [] then description
      else join_with LF (filter (\<lambda>x. x \<noteq> []) [description, ''Preview-ID: '' @ rw_patch_id w]))"

definition modify_op :: "validated_edit \<Rightarrow> planned_op" where
  "modify_op v =
     \<lparr>pn_entry = \<lparr>pe_action = ''modify'', pe_path = ve_path v, pe_sha = ve_sha v, pe_payload = no_payload, pe_changed = ve_changed v,
        pe_logical = ve_logical v, pe_newline_only = ve_newline_only v, pe_diagnostic = Some (ve_diagnostic v), pe_bytes = ve_bytes v\<rparr>,
      pn_text = Some (ve_new v)\<rparr>"

definition preview_repo_patch :: "repo_world \<Rightarrow> json list \<Rightarrow> string \<Rightarrow> string \<Rightarrow> repo_state \<Rightarrow> (repo_state, preview_answer) outcome" where
  "preview_repo_patch w ops title description s =
     (let bound = bound_description w title description in
      case (if title = [] \<and> description = [] then None else commit_metadata_error (str_or title ''Soma: repo_apply'') bound) of
        Some m \<Rightarrow> (Inl (ValueError m), s)
      | None \<Rightarrow>
          (case validate_operations w (rs_tree s) ops of
             Inl e \<Rightarrow> (Inl e, s)
           | Inr (vs, errors) \<Rightarrow>
               let diff = concat (map ve_diff vs); warnings = concat (map ve_warnings vs) in
               chain (write_preview_bundle w (map modify_op vs) diff errors warnings title bound)
                 (\<lambda>_. give \<lparr>pa_patch_id = rw_patch_id w, pa_diff = diff, pa_changed_files = map ve_path vs, pa_changed_lines = sum_list (map ve_changed vs),
                    pa_changed_bytes = sum_list (map ve_bytes vs), pa_warnings = take 20 warnings, pa_errors = errors\<rparr>) s))"

definition plain_entry :: "string \<Rightarrow> string \<Rightarrow> string \<Rightarrow> nat \<Rightarrow> nat \<Rightarrow> patch_entry" where
  "plain_entry action path sha lines size_bytes =
     \<lparr>pe_action = action, pe_path = path, pe_sha = sha, pe_payload = no_payload, pe_changed = lines, pe_logical = lines, pe_newline_only = 0,
      pe_diagnostic = None, pe_bytes = size_bytes\<rparr>"

definition preview_single ::
  "repo_world \<Rightarrow> string \<Rightarrow> py_error + planned_op \<times> string \<Rightarrow> repo_state \<Rightarrow> (repo_state, preview_answer) outcome" where
  "preview_single w path planned =
     (case planned of
        Inl e \<Rightarrow> chain (write_preview_bundle w [] [] [exc_text e] [] [] [])
          (\<lambda>_. give \<lparr>pa_patch_id = rw_patch_id w, pa_diff = [], pa_changed_files = [], pa_changed_lines = 0, pa_changed_bytes = 0, pa_warnings = [],
             pa_errors = [exc_text e]\<rparr>)
      | Inr (op, diff) \<Rightarrow> chain (write_preview_bundle w [op] diff [] [] [] [])
          (\<lambda>_. give \<lparr>pa_patch_id = rw_patch_id w, pa_diff = diff, pa_changed_files = [path], pa_changed_lines = pe_changed (pn_entry op),
             pa_changed_bytes = pe_bytes (pn_entry op), pa_warnings = [], pa_errors = []\<rparr>))"

definition preview_repo_file_creation :: "repo_world \<Rightarrow> string \<Rightarrow> string \<Rightarrow> repo_state \<Rightarrow> (repo_state, preview_answer) outcome" where
  "preview_repo_file_creation w path content s =
     preview_single w path
       (case validate_create_target w (rs_tree s) path content of
          Inl e \<Rightarrow> Inl e
        | Inr (_, n) \<Rightarrow> let diff = rw_diff w [] content path in
            Inr (\<lparr>pn_entry = plain_entry ''create'' path [] (count_changed_lines diff) n, pn_text = Some content\<rparr>, diff)) s"

text \<open>The diff of a removal does not show binary content.\<close>

definition removal_diff :: "repo_world \<Rightarrow> tree \<Rightarrow> string \<Rightarrow> string \<Rightarrow> bytes \<Rightarrow> string" where
  "removal_diff w t path p b =
     (if is_binary w t p
      then ''--- a/'' @ path @ LF @ ''+++ b/'' @ path @ LF @ ''@@ -1 +0,0 @@'' @ LF @ ''-[binary content omitted]'' @ LF
      else rw_diff w (rw_decode w b) [] path)"

definition preview_repo_file_removal :: "repo_world \<Rightarrow> string \<Rightarrow> string \<Rightarrow> repo_state \<Rightarrow> (repo_state, preview_answer) outcome" where
  "preview_repo_file_removal w path expected s =
     preview_single w path
       (case validate_remove_target w (rs_tree s) path expected of
          Inl e \<Rightarrow> Inl e
        | Inr (p, b, sha) \<Rightarrow> let diff = removal_diff w (rs_tree s) path p b in
            Inr (\<lparr>pn_entry = plain_entry ''remove'' path sha (count_changed_lines diff) (length b), pn_text = None\<rparr>, diff)) s"

section \<open>Application of a preview\<close>

record prepared_op =
  pr_action :: string
  pr_path :: string
  pr_absolute :: string
  pr_payload :: "bytes option"
  pr_rollback :: "bytes option"
  pr_lines :: nat
  pr_bytes :: nat

text \<open>The entries with their resolved paths, no two alike. The comparison of the paths ignores nothing on a POSIX host.\<close>

fun resolve_entries :: "repo_world \<Rightarrow> tree \<Rightarrow> string \<Rightarrow> string list \<Rightarrow> patch_entry list \<Rightarrow> py_error + (patch_entry \<times> string) list" where
  "resolve_entries w t pid seen [] = Inr []"
| "resolve_entries w t pid seen (op # ops) =
     (if pe_action op \<notin> {''modify'', ''create'', ''remove''} then Inl (ValueError (''Patch '' @ pid @ '' has an invalid operation entry''))
      else case resolve_and_validate_write w t (pe_path op) of
        Inl e \<Rightarrow> Inl e
      | Inr p \<Rightarrow>
          if p \<in> set seen then Inl (ValueError (''Patch '' @ pid @ '' includes duplicate paths: '' @ pe_path op))
          else (case resolve_entries w t pid (p # seen) ops of Inl e \<Rightarrow> Inl e | Inr rest \<Rightarrow> Inr ((op, p) # rest)))"

definition patch_payload :: "repo_world \<Rightarrow> string \<Rightarrow> tree \<Rightarrow> nat \<Rightarrow> patch_entry \<Rightarrow> py_error + bytes" where
  "patch_payload w pid files i op =
     (case assemble_payload (rw_sha w) (read_bundle_file w files ''payload'') i (pe_payload op) of
        Inl (ValueError m) \<Rightarrow> Inl (ValueError (''Patch '' @ pid @ '' payload verification failed for '' @ quoted (pe_path op) @ '': '' @ m))
      | r \<Rightarrow> r)"

definition prepare_op :: "repo_world \<Rightarrow> tree \<Rightarrow> string \<Rightarrow> tree \<Rightarrow> nat \<Rightarrow> patch_entry \<Rightarrow> string \<Rightarrow> py_error + prepared_op" where
  "prepare_op w t pid files i op p =
     (let path = pe_path op;
          made = (\<lambda>payload rollback lines n. \<lparr>pr_action = pe_action op, pr_path = path, pr_absolute = p, pr_payload = payload, pr_rollback = rollback,
             pr_lines = lines, pr_bytes = n\<rparr>) in
      if pe_action op = ''modify''
      then (if \<not> path_exists w t p then Inl (ValueError (''File does not exist: '' @ path))
            else if path_is_directory w t p then Inl (ValueError (''Path is a directory: '' @ path))
            else if path_linked t p then Inl (ValueError (''Symlinks are not allowed: '' @ path))
            else if is_binary w t p then Inl (ValueError (''Binary files are not supported: '' @ path))
            else case read_bytes w t p of Inl e \<Rightarrow> Inl e | Inr b \<Rightarrow>
            if rw_sha w b \<noteq> pe_sha op then Inl (ValueError (''File '' @ quoted path @ '' has changed since preview (hash mismatch)''))
            else case patch_payload w pid files i op of Inl e \<Rightarrow> Inl e | Inr payload \<Rightarrow>
            case rw_decode_strict w payload of Inl e \<Rightarrow> Inl e | Inr text \<Rightarrow>
            Inr (made (Some payload) (Some b) (count_changed_lines (rw_diff w (rw_decode w b) text path)) (distance (length payload) (length b))))
      else if pe_action op = ''create''
      then (case patch_payload w pid files i op of Inl e \<Rightarrow> Inl e | Inr payload \<Rightarrow>
            case rw_decode_strict w payload of Inl e \<Rightarrow> Inl e | Inr text \<Rightarrow>
            case validate_create_target w t path text of Inl e \<Rightarrow> Inl e | Inr (_, n) \<Rightarrow>
            Inr (made (Some payload) None (count_changed_lines (rw_diff w [] text path)) n))
      else (case validate_remove_target w t path (pe_sha op) of Inl e \<Rightarrow> Inl e | Inr (_, b, _) \<Rightarrow>
            Inr (made None (Some b) (count_changed_lines (removal_diff w t path p b)) (length b))))"

fun prepare_ops :: "repo_world \<Rightarrow> tree \<Rightarrow> string \<Rightarrow> tree \<Rightarrow> nat \<Rightarrow> (patch_entry \<times> string) list \<Rightarrow> py_error + prepared_op list" where
  "prepare_ops w t pid files i [] = Inr []"
| "prepare_ops w t pid files i ((op, p) # ops) =
     (case prepare_op w t pid files i op p of Inl e \<Rightarrow> Inl e | Inr x \<Rightarrow>
      (case prepare_ops w t pid files (i + 1) ops of Inl e \<Rightarrow> Inl e | Inr xs \<Rightarrow> Inr (x # xs)))"

text \<open>Everything that is checked before the first write.\<close>

definition prepare_patch :: "repo_world \<Rightarrow> tree \<Rightarrow> string \<Rightarrow> patch_bundle \<Rightarrow> py_error + prepared_op list" where
  "prepare_patch w t pid d =
     (let m = bd_manifest d; ops = mf_operations m in
      if mf_version m \<notin> {2, 3} then Inl (ValueError (''Patch '' @ pid @ '' does not include an opaque preview bundle''))
      else if mf_fingerprint m = [] then Inl (ValueError (''Patch '' @ pid @ '' is missing repository binding metadata''))
      else if rw_fingerprint w \<noteq> mf_fingerprint m then Inl (ValueError (''Patch '' @ pid @ '' does not belong to the requested repository''))
      else if ops = [] then Inl (ValueError (''Patch '' @ pid @ '' does not include any previewed operations''))
      else if length ops > MAX_PATCH_FILES then Inl (ValueError (''Patch exceeds 50 file limit ('' @ nat_digits (length ops) @ '' files)''))
      else case resolve_entries w t pid [] ops of Inl e \<Rightarrow> Inl e | Inr resolved_ops \<Rightarrow>
      if list_ex (\<lambda>op. pe_action op \<in> {''modify'', ''remove''}) ops \<and> mf_head m \<noteq> [] \<and> rw_head w \<noteq> [] \<and> rw_head w \<noteq> mf_head m
      then Inl (ValueError (''Git HEAD has changed since preview (preview: '' @ take 12 (mf_head m) @ '', current: '' @ take 12 (rw_head w) @ '')''))
      else case prepare_ops w t pid (bd_files d) 0 resolved_ops of Inl e \<Rightarrow> Inl e | Inr prepared \<Rightarrow>
      if sum_list (map pr_lines prepared) > MAX_PATCH_LINES
      then Inl (ValueError (''Patch exceeds 10000 changed-line limit ('' @ nat_digits (sum_list (map pr_lines prepared)) @ '' lines)''))
      else if sum_list (map pr_bytes prepared) > MAX_PATCH_BYTES then Inl (ValueError ''Patch exceeds 2048 KB changed-byte limit'')
      else Inr prepared)"

section \<open>Transactions\<close>

text \<open>What the touched paths held when the transaction began, and a rollback to it; \<open>touched\<close> are paths below the root as they were given.\<close>

record snapshot =
  sn_path :: string
  sn_content :: "bytes option"

definition take_snapshots :: "repo_world \<Rightarrow> tree \<Rightarrow> string list \<Rightarrow> snapshot list" where
  "take_snapshots w t touched = map (\<lambda>rel. \<lparr>sn_path = rel, sn_content = file_at t (repo_path w rel)\<rparr>) touched"

definition restore_snapshot :: "repo_world \<Rightarrow> snapshot \<Rightarrow> repo_state \<Rightarrow> (repo_state, unit) outcome" where
  "restore_snapshot w sn s =
     (let p = repo_path w (sn_path sn) in
      case sn_content sn of
        Some b \<Rightarrow> put_file w ''rollback'' p b s
      | None \<Rightarrow> if path_exists w (rs_tree s) p then unlink_file w ''rollback'' p s else (Inr (), s))"

fun restore_snapshots :: "repo_world \<Rightarrow> snapshot list \<Rightarrow> repo_state \<Rightarrow> string list \<times> repo_state" where
  "restore_snapshots w [] s = ([], s)"
| "restore_snapshots w (sn # sns) s =
     (case restore_snapshot w sn s of
        (Inl e, s1) \<Rightarrow> (case restore_snapshots w sns s1 of (es, s2) \<Rightarrow> ((sn_path sn @ '': '' @ exc_text e) # es, s2))
      | (Inr _, s1) \<Rightarrow> restore_snapshots w sns s1)"

definition drop_rollback_dir :: "repo_world \<Rightarrow> string \<Rightarrow> repo_state \<Rightarrow> string list \<times> repo_state" where
  "drop_rollback_dir w pid s =
     (if (case rs_bundles s pid of None \<Rightarrow> True | Some d \<Rightarrow> Option.is_none (bd_rollback d)) then ([], s)
      else case effect w ''rmtree'' ''rollback'' (update_bundle pid (\<lambda>d. d\<lparr>bd_rollback := None\<rparr>)) s of
        (Inl e, s1) \<Rightarrow> ([''rollback: '' @ exc_text e], s1) | (Inr _, s1) \<Rightarrow> ([], s1))"

definition rollback_transaction :: "repo_world \<Rightarrow> string \<Rightarrow> snapshot list \<Rightarrow> repo_state \<Rightarrow> string list \<times> repo_state" where
  "rollback_transaction w pid sns s =
     (case restore_snapshots w (rev sns) s of (es, s1) \<Rightarrow> (case drop_rollback_dir w pid s1 of (es', s2) \<Rightarrow> (es @ es', s2)))"

definition changed_since :: "repo_world \<Rightarrow> tree \<Rightarrow> snapshot \<Rightarrow> bool" where
  "changed_since w t sn = (file_at t (repo_path w (sn_path sn)) \<noteq> sn_content sn)"

definition build_transaction_result ::
  "repo_world \<Rightarrow> snapshot list \<Rightarrow> (string \<times> (string \<times> json) list) list \<Rightarrow> edit_result list \<Rightarrow> repo_state \<Rightarrow> transaction_result" where
  "build_transaction_result w sns phases results s =
     (let touched = remdups (map sn_path (filter (changed_since w (rs_tree s)) sns)); dirty = remdups (rw_dirty w)
      in \<lparr>tn_phases = phases, tn_validation = results, tn_introduced = sort (filter (\<lambda>p. p \<notin> set dirty) touched), tn_preserved = sort dirty,
          tn_workspace = sort touched\<rparr>)"

definition phase :: "string \<Rightarrow> (string \<times> json) list \<Rightarrow> string \<times> (string \<times> json) list" where
  "phase name details = (name, details)"

definition count_phase :: "string \<Rightarrow> string \<Rightarrow> nat \<Rightarrow> string \<times> (string \<times> json) list" where
  "count_phase name key n = phase name [(key, JInt (int n))]"

section \<open>apply_previewed_repo_change\<close>

definition apply_one :: "repo_world \<Rightarrow> string \<Rightarrow> nat \<Rightarrow> prepared_op \<Rightarrow> repo_state \<Rightarrow> (repo_state, applied_result) outcome" where
  "apply_one w pid i op =
     chain (case pr_rollback op of None \<Rightarrow> give [] | Some b \<Rightarrow> chain (put_rollback w ''save'' pid (rollback_file_name i) b) (\<lambda>_. give (rollback_file_name i)))
       (\<lambda>saved. chain (case pr_payload op of
            Some b \<Rightarrow> chain (put_file w ''apply'' (pr_absolute op) b) (\<lambda>_. give (rw_sha w b))
          | None \<Rightarrow> chain (unlink_file w ''apply'' (pr_absolute op)) (\<lambda>_. give []))
       (\<lambda>sha. give \<lparr>ap_action = pr_action op, ap_path = pr_path op, ap_sha = sha, ap_rollback = saved\<rparr>))"

text \<open>The operations in order, until one fails; what was applied before.\<close>

fun apply_each ::
  "repo_world \<Rightarrow> string \<Rightarrow> nat \<Rightarrow> prepared_op list \<Rightarrow> applied_result list \<Rightarrow> repo_state \<Rightarrow> py_error option \<times> applied_result list \<times> repo_state" where
  "apply_each w pid i [] made s = (None, made, s)"
| "apply_each w pid i (op # ops) made s =
     (case apply_one w pid i op s of
        (Inl e, s1) \<Rightarrow> (Some e, made, s1) | (Inr r, s1) \<Rightarrow> apply_each w pid (i + 1) ops (made @ [r]) s1)"

definition rollback_files :: "string \<Rightarrow> repo_state \<Rightarrow> tree" where
  "rollback_files pid s = (case rs_bundles s pid of None \<Rightarrow> Map.empty | Some d \<Rightarrow> (case bd_rollback d of None \<Rightarrow> Map.empty | Some t \<Rightarrow> t))"

definition undo_one :: "repo_world \<Rightarrow> string \<Rightarrow> nat \<Rightarrow> applied_result \<Rightarrow> repo_state \<Rightarrow> (repo_state, unit) outcome" where
  "undo_one w pid i r s =
     (case resolve_and_validate_write w (rs_tree s) (ap_path r) of
        Inl e \<Rightarrow> (Inl e, s)
      | Inr p \<Rightarrow>
          if ap_action r = ''create''
          then (if path_exists w (rs_tree s) p then unlink_file w ''undo'' p s else (Inr (), s))
          else case read_bundle_file w (rollback_files pid s) ''rollback'' (ap_rollback r) (rollback_file_name i) of
            Inl e \<Rightarrow> (Inl e, s)
          | Inr b \<Rightarrow> put_file w ''undo'' p b s)"

text \<open>\<open>_rollback_applied_preview_ops\<close>, on the results with their indices, the last one first.\<close>

fun undo_each :: "repo_world \<Rightarrow> string \<Rightarrow> (nat \<times> applied_result) list \<Rightarrow> repo_state \<Rightarrow> (repo_state, unit) outcome" where
  "undo_each w pid [] s = (Inr (), s)"
| "undo_each w pid ((i, r) # rs) s = chain (undo_one w pid i r) (\<lambda>_. undo_each w pid rs) s"

definition apply_failed ::
  "repo_world \<Rightarrow> string \<Rightarrow> manifest \<Rightarrow> snapshot list \<Rightarrow> applied_result list \<Rightarrow> py_error \<Rightarrow> repo_state \<Rightarrow> (repo_state, apply_answer) outcome" where
  "apply_failed w pid m sns made exc s =
     (let (errors, s1) = (case undo_each w pid (rev (enumerate 0 made)) s of
            (Inl e, s1) \<Rightarrow> ([exc_text e], s1) | (Inr _, s1) \<Rightarrow> rollback_transaction w pid sns s1);
          m' = m\<lparr>mf_status := (if errors \<noteq> [] then ''rollback_failed'' else ''failed''), mf_failed_at := Some (rw_clock w 3),
             mf_errors := exc_text exc # errors\<rparr>
      in chain (put_manifest w ''failed'' pid m') (\<lambda>_. throw (RuntimeError (''Apply failed (partial rollback attempted): '' @ exc_text exc))) s1)"

definition preview_phases :: "string \<Rightarrow> prepared_op list \<Rightarrow> (string \<times> (string \<times> json) list) list" where
  "preview_phases pid ops =
     [phase ''preflight'' [(''patch_id'', JStr pid)], count_phase ''snapshot'' ''touched_files'' (length ops)] @
     map (\<lambda>(i, op). phase ''apply'' [(''path'', JStr (pr_path op)), (''index'', JInt (int i))]) (enumerate 0 ops) @
     [count_phase ''validate'' ''written_files'' (length ops), count_phase ''commit'' ''written_files'' (length ops)]"

text \<open>The answer once the manifest says that the patch is applied; it is recorded in the manifest in its turn.\<close>

definition record_answer ::
  "repo_world \<Rightarrow> string \<Rightarrow> manifest \<Rightarrow> applied_result list \<Rightarrow> transaction_result \<Rightarrow> repo_state \<Rightarrow> (repo_state, apply_answer) outcome" where
  "record_answer w pid m made tn =
     (let answer = \<lparr>aa_changed_files = map ap_path made, aa_results = map (\<lambda>r. (ap_path r, ap_sha r)) made, aa_git_head = rw_head w,
          aa_title = mf_title m, aa_description = mf_description m, aa_transaction = Some tn, aa_replay = False\<rparr>
      in chain (put_manifest w ''answer'' pid (m\<lparr>mf_result := Some answer\<rparr>)) (\<lambda>_. give answer))"

definition carry_out ::
  "repo_world \<Rightarrow> string \<Rightarrow> manifest \<Rightarrow> snapshot list \<Rightarrow> prepared_op list \<Rightarrow> repo_state \<Rightarrow> (repo_state, apply_answer) outcome" where
  "carry_out w pid m sns ops s =
     (case apply_each w pid 0 ops [] s of
        (Some e, made, s1) \<Rightarrow> apply_failed w pid m sns made e s1
      | (None, made, s1) \<Rightarrow>
          let m' = m\<lparr>mf_status := ''applied'', mf_applied_at := Some (rw_clock w 2), mf_applied_head := rw_head w, mf_applied := made\<rparr> in
          (case put_manifest w ''applied'' pid m' s1 of
             (Inl e, s2) \<Rightarrow> apply_failed w pid m' sns made e s2
           | (Inr _, s2) \<Rightarrow> record_answer w pid m' made (build_transaction_result w sns (preview_phases pid ops) [] s2) s2))"

text \<open>\<open>_idempotent_apply_result\<close>\<close>

definition replayed_answer :: "manifest \<Rightarrow> apply_answer" where
  "replayed_answer m =
     (case mf_result m of
        Some a \<Rightarrow> a\<lparr>aa_replay := True\<rparr>
      | None \<Rightarrow> let rs = filter (\<lambda>r. ap_path r \<noteq> []) (mf_applied m) in
          \<lparr>aa_changed_files = map ap_path rs, aa_results = map (\<lambda>r. (ap_path r, ap_sha r)) rs, aa_git_head = mf_applied_head m,
           aa_title = [], aa_description = [], aa_transaction = None, aa_replay = True\<rparr>)"

definition status_refusal :: "string \<Rightarrow> manifest \<Rightarrow> py_error option" where
  "status_refusal pid m =
     (if mf_status m = ''reverted'' then Some (ValueError (''Patch '' @ pid @ '' has been reverted''))
      else if mf_status m = ''preview_failed'' then Some (ValueError (''Patch '' @ pid @ '' preview had validation errors; cannot apply''))
      else None)"

definition start_applying :: "repo_world \<Rightarrow> string \<Rightarrow> manifest \<Rightarrow> repo_state \<Rightarrow> (repo_state, unit) outcome" where
  "start_applying w pid m =
     attempt (put_manifest w ''applying'' pid m) (\<lambda>e. throw (RuntimeError (''Apply failed before writes: '' @ exc_text e)))"

definition apply_previewed_repo_change :: "repo_world \<Rightarrow> string \<Rightarrow> repo_state \<Rightarrow> (repo_state, apply_answer) outcome" where
  "apply_previewed_repo_change w pid s =
     (case find_bundle pid s of Inl e \<Rightarrow> (Inl e, s) | Inr d \<Rightarrow>
      let m = bd_manifest d in
      if mf_status m = ''applied'' then (Inr (replayed_answer m), s)
      else case status_refusal pid m of Some e \<Rightarrow> (Inl e, s) | None \<Rightarrow>
      (case prepare_patch w (rs_tree s) pid d of Inl e \<Rightarrow> (Inl e, s) | Inr ops \<Rightarrow>
       let m1 = m\<lparr>mf_status := ''applying'', mf_applying_at := Some (rw_clock w 1)\<rparr>;
           sns = take_snapshots w (rs_tree s) (map pr_path ops)
       in chain (make_rollback_dir w pid) (\<lambda>_. chain (start_applying w pid m1) (\<lambda>_. carry_out w pid m1 sns ops)) s))"

section \<open>apply_repo_patch\<close>

definition entry_for :: "string \<Rightarrow> patch_entry list \<Rightarrow> patch_entry option" where
  "entry_for path ops = find (\<lambda>op. pe_path op = path) (rev ops)"

text \<open>A validated edit against the manifest of its preview.\<close>

definition manifest_mismatch :: "repo_world \<Rightarrow> string \<Rightarrow> patch_entry list \<Rightarrow> validated_edit \<Rightarrow> py_error option" where
  "manifest_mismatch w pid ops v =
     (case entry_for (ve_path v) ops of
        None \<Rightarrow> Some (ValueError (''Operation for '' @ quoted (ve_path v) @ '' was not in the preview manifest''))
      | Some op \<Rightarrow>
          if ve_sha v \<noteq> pe_sha op then Some (ValueError (''File '' @ quoted (ve_path v) @ '' has changed since preview (hash mismatch)''))
          else if pd_sha256 (pe_payload op) = []
          then Some (ValueError (''Patch '' @ pid @ '' is missing opaque payload metadata for '' @ quoted (ve_path v)))
          else if rw_sha w (rw_encode w (ve_new v)) \<noteq> pd_sha256 (pe_payload op)
          then Some (ValueError (''Operation for '' @ quoted (ve_path v) @ '' does not match the previewed payload''))
          else None)"

fun save_originals :: "repo_world \<Rightarrow> string \<Rightarrow> validated_edit list \<Rightarrow> repo_state \<Rightarrow> (repo_state, unit) outcome" where
  "save_originals w pid [] s = (Inr (), s)"
| "save_originals w pid (v # vs) s =
     chain (put_rollback w ''save'' pid (legacy_rollback_file_name (ve_path v)) (rw_encode w (ve_content v))) (\<lambda>_. save_originals w pid vs) s"

fun write_edits :: "repo_world \<Rightarrow> validated_edit list \<Rightarrow> (string \<times> string) list \<Rightarrow> repo_state \<Rightarrow> (repo_state, (string \<times> string) list) outcome" where
  "write_edits w [] written s = (Inr written, s)"
| "write_edits w (v # vs) written s =
     chain (put_file w ''apply'' (ve_absolute v) (rw_encode w (ve_new v)))
       (\<lambda>_ s1. case read_bytes w (rs_tree s1) (ve_absolute v) of
          Inl e \<Rightarrow> (Inl e, s1) | Inr b \<Rightarrow> write_edits w vs (written @ [(ve_path v, rw_sha w b)]) s1) s"

definition edits_failed ::
  "repo_world \<Rightarrow> string \<Rightarrow> manifest \<Rightarrow> snapshot list \<Rightarrow> py_error \<Rightarrow> repo_state \<Rightarrow> (repo_state, apply_answer) outcome" where
  "edits_failed w pid m sns exc s =
     (let (errors, s1) = rollback_transaction w pid sns s;
          m' = m\<lparr>mf_status := (if errors = [] then ''failed'' else ''rollback_failed''), mf_failed_at := Some (rw_clock w 3),
             mf_errors := exc_text exc # errors\<rparr>
      in chain (put_manifest w ''failed'' pid m') (\<lambda>_. throw (RuntimeError (''Apply failed (partial rollback attempted): '' @ exc_text exc))) s1)"

definition edit_phases :: "string \<Rightarrow> nat \<Rightarrow> (string \<times> (string \<times> json) list) list" where
  "edit_phases pid n =
     [phase ''preflight'' [(''patch_id'', JStr pid)], count_phase ''snapshot'' ''touched_files'' n, count_phase ''apply'' ''touched_files'' n,
      count_phase ''validate'' ''written_files'' n, count_phase ''commit'' ''written_files'' n]"

definition carry_out_edits ::
  "repo_world \<Rightarrow> string \<Rightarrow> manifest \<Rightarrow> snapshot list \<Rightarrow> validated_edit list \<Rightarrow> repo_state \<Rightarrow> (repo_state, apply_answer) outcome" where
  "carry_out_edits w pid m sns vs s =
     (case write_edits w vs [] s of
        (Inl e, s1) \<Rightarrow> edits_failed w pid m sns e s1
      | (Inr written, s1) \<Rightarrow>
          let made = map (\<lambda>(path, sha). \<lparr>ap_action = ''modify'', ap_path = path, ap_sha = sha, ap_rollback = legacy_rollback_file_name path\<rparr>) written;
              m' = m\<lparr>mf_status := ''applied'', mf_applied_at := Some (rw_clock w 2), mf_applied_head := rw_head w, mf_applied := made\<rparr>
          in chain (put_manifest w ''applied'' pid m') (\<lambda>_ s2.
               record_answer w pid m' made
                 (build_transaction_result w sns (edit_phases pid (length vs)) (concat (map ve_results vs)) s2) s2) s1)"

definition apply_repo_patch :: "repo_world \<Rightarrow> json list \<Rightarrow> string \<Rightarrow> repo_state \<Rightarrow> (repo_state, apply_answer) outcome" where
  "apply_repo_patch w operations pid s =
     (case find_bundle pid s of Inl e \<Rightarrow> (Inl e, s) | Inr d \<Rightarrow>
      let m = bd_manifest d in
      if mf_status m = ''applied'' then (Inr (replayed_answer m), s)
      else case status_refusal pid m of Some e \<Rightarrow> (Inl e, s) | None \<Rightarrow>
      if mf_head m \<noteq> [] \<and> rw_head w \<noteq> [] \<and> rw_head w \<noteq> mf_head m
      then (Inl (ValueError (''Git HEAD has changed since preview (preview: '' @ take 12 (mf_head m) @ '', current: '' @ take 12 (rw_head w) @ '')'')), s)
      else (case validate_operations w (rs_tree s) operations of Inl e \<Rightarrow> (Inl e, s) | Inr (vs, errors) \<Rightarrow>
       if errors \<noteq> [] then (Inl (ValueError (''Re-validation failed: '' @ join_with ''; '' errors)), s)
       else case List.map_filter (manifest_mismatch w pid (mf_operations m)) vs of e # _ \<Rightarrow> (Inl e, s) | [] \<Rightarrow>
       let m1 = m\<lparr>mf_status := ''applying'', mf_applying_at := Some (rw_clock w 1)\<rparr>;
           sns = take_snapshots w (rs_tree s) (map ve_path vs)
       in chain (make_rollback_dir w pid) (\<lambda>_. chain (save_originals w pid vs) (\<lambda>_.
          chain (start_applying w pid m1) (\<lambda>_. carry_out_edits w pid m1 sns vs))) s))"

section \<open>Reversal\<close>

definition revert_refusal :: "repo_world \<Rightarrow> tree \<Rightarrow> applied_result \<Rightarrow> py_error option" where
  "revert_refusal w t r =
     (case resolve_and_validate_write w t (ap_path r) of
        Inl e \<Rightarrow> Some e
      | Inr p \<Rightarrow>
          if ap_action r = ''remove''
          then (if path_exists w t p then Some (ValueError (''Cannot revert: removed file '' @ quoted (ap_path r) @ '' now exists on disk'')) else None)
          else if \<not> path_exists w t p
          then Some (ValueError (''Cannot revert: file '' @ quoted (ap_path r) @ '' no longer exists on disk''))
          else case read_bytes w t p of
            Inl e \<Rightarrow> Some e
          | Inr b \<Rightarrow> if rw_sha w b = ap_sha r then None
              else Some (ValueError (''Cannot revert: file '' @ quoted (ap_path r) @ '' has been modified since the patch was applied (expected '' @
                 take 12 (ap_sha r) @ ''..., got '' @ take 12 (rw_sha w b) @ ''...)'')))"

text \<open>The name a rollback file must have: the one of its index, or the one older bundles derive from the path.\<close>

definition rollback_name :: "nat \<Rightarrow> applied_result \<Rightarrow> string \<times> string" where
  "rollback_name i r =
     (let legacy = legacy_rollback_file_name (ap_path r); name = str_or (ap_rollback r) legacy in
      (name, if name = rollback_file_name i then rollback_file_name i else if name = legacy then legacy
             else if ap_rollback r \<noteq> [] then rollback_file_name i else legacy))"

definition revert_one :: "repo_world \<Rightarrow> string \<Rightarrow> nat \<Rightarrow> applied_result \<Rightarrow> repo_state \<Rightarrow> (repo_state, string) outcome" where
  "revert_one w pid i r s =
     (case resolve_and_validate_write w (rs_tree s) (ap_path r) of
        Inl e \<Rightarrow> (Inl e, s)
      | Inr p \<Rightarrow>
          if ap_action r = ''create'' then chain (unlink_file w ''revert'' p) (\<lambda>_. give (ap_path r)) s
          else case read_bundle_file w (rollback_files pid s) ''rollback'' (fst (rollback_name i r)) (snd (rollback_name i r)) of
            Inl e \<Rightarrow> (Inl e, s)
          | Inr b \<Rightarrow> chain (put_file w ''revert'' p b) (\<lambda>_. give (ap_path r)) s)"

fun revert_each :: "repo_world \<Rightarrow> string \<Rightarrow> (nat \<times> applied_result) list \<Rightarrow> repo_state \<Rightarrow> (repo_state, string list) outcome" where
  "revert_each w pid [] s = (Inr [], s)"
| "revert_each w pid ((i, r) # rs) s =
     chain (revert_one w pid i r) (\<lambda>path. chain (revert_each w pid rs) (\<lambda>paths. give (path # paths))) s"

definition revert_managed_patch :: "repo_world \<Rightarrow> string \<Rightarrow> repo_state \<Rightarrow> (repo_state, string list) outcome" where
  "revert_managed_patch w pid s =
     (case find_bundle pid s of Inl e \<Rightarrow> (Inl e, s) | Inr d \<Rightarrow>
      let m = bd_manifest d; made = mf_applied m in
      if mf_status m \<noteq> ''applied''
      then (Inl (ValueError (''Patch '' @ pid @ '' is not in '' @ quoted ''applied'' @ '' state (status: '' @ mf_status m @ '')'')), s)
      else if made = [] then (Inl (ValueError (''Patch '' @ pid @ '' is missing applied result metadata'')), s)
      else case List.map_filter (revert_refusal w (rs_tree s)) made of e # _ \<Rightarrow> (Inl e, s) | [] \<Rightarrow>
      chain (attempt (revert_each w pid (rev (enumerate 0 made)))
               (\<lambda>e. throw (RuntimeError (''Revert failed after partial write: '' @ exc_text e)))) (\<lambda>paths.
      chain (put_manifest w ''reverted'' pid (m\<lparr>mf_status := ''reverted'', mf_reverted_at := Some (rw_clock w 4)\<rparr>)) (\<lambda>_. give paths)) s)"

section \<open>Single files\<close>

definition create_repo_file :: "repo_world \<Rightarrow> string \<Rightarrow> string \<Rightarrow> repo_state \<Rightarrow> (repo_state, string \<times> nat) outcome" where
  "create_repo_file w path content s =
     (case validate_create_target w (rs_tree s) path content of
        Inl e \<Rightarrow> (Inl e, s)
      | Inr (p, n) \<Rightarrow> chain (put_file w ''create'' p (rw_encode w content)) (\<lambda>_ s1.
          case read_bytes w (rs_tree s1) p of Inl e \<Rightarrow> (Inl e, s1) | Inr b \<Rightarrow> (Inr (rw_sha w b, n), s1)) s)"

text \<open>The rollback copy, its manifest and then the removal; the answer is the identifier of the copy.\<close>

definition keep :: "repo_world \<Rightarrow> string \<Rightarrow> string \<Rightarrow> kept_copy \<Rightarrow> repo_state \<Rightarrow> (repo_state, unit) outcome" where
  "keep w label name k = effect w label name (\<lambda>s. s\<lparr>rs_kept := rs_kept s @ [k]\<rparr>)"

definition delete_repo_file :: "repo_world \<Rightarrow> string \<Rightarrow> string \<Rightarrow> repo_state \<Rightarrow> (repo_state, string) outcome" where
  "delete_repo_file w path expected s =
     (case validate_remove_target w (rs_tree s) path expected of
        Inl e \<Rightarrow> (Inl e, s)
      | Inr (p, b, sha) \<Rightarrow>
          let del_id = replace_once ''_patch_'' ''_delete_'' (rw_patch_id w) in
          chain (keep w ''delete'' ''original_content.txt'' (Original_content del_id b)) (\<lambda>_.
          chain (keep w ''delete'' ''manifest.json'' (Delete_manifest del_id path sha (rw_clock w 0))) (\<lambda>_.
          chain (unlink_file w ''delete'' p) (\<lambda>_. give del_id))) s)"

definition move_repo_file :: "repo_world \<Rightarrow> string \<Rightarrow> string \<Rightarrow> string \<Rightarrow> repo_state \<Rightarrow> (repo_state, string \<times> string) outcome" where
  "move_repo_file w source destination expected s =
     (let t = rs_tree s; mv_id = replace_once ''_patch_'' ''_move_'' (rw_patch_id w) in
      case resolve_and_validate_write w t source of Inl e \<Rightarrow> (Inl e, s) | Inr p \<Rightarrow>
      case resolve_and_validate_write w t destination of Inl e \<Rightarrow> (Inl e, s) | Inr q \<Rightarrow>
      if \<not> path_exists w t p then (Inl (FileNotFoundError (''Source file not found: '' @ source)), s)
      else if path_is_directory w t p then (Inl (ValueError (''Directory moves are not allowed: '' @ source)), s)
      else if path_linked t p then (Inl (ValueError (''Symlinks are not allowed: '' @ source)), s)
      else if path_exists w t q then (Inl (ValueError (''Destination already exists: '' @ destination)), s)
      else case read_bytes w t p of Inl e \<Rightarrow> (Inl e, s) | Inr b \<Rightarrow>
      if rw_sha w b \<noteq> expected then (Inl (ValueError (stale_hash ''Stale hash for '' source expected (rw_sha w b))), s)
      else if q = rw_root w then (Inl (ValueError (''Destination parent is outside the repository: '' @ destination)), s)
      else chain (keep w ''move'' ''manifest.json'' (Move_manifest mv_id source destination (rw_sha w b) (rw_clock w 0))) (\<lambda>_.
           chain (effect w ''move'' q (\<lambda>s. s\<lparr>rs_tree := (rs_tree s)(p := None, q \<mapsto> Regular b)\<rparr>)) (\<lambda>_ s1.
             case read_bytes w (rs_tree s1) q of Inl e \<Rightarrow> (Inl e, s1) | Inr b' \<Rightarrow> (Inr (rw_sha w b', mv_id), s1))) s)"

text \<open>\<open>get_patch_status\<close>\<close>

definition get_patch_status :: "repo_world \<Rightarrow> string \<Rightarrow> repo_state \<Rightarrow> py_error + manifest" where
  "get_patch_status w pid s =
     (case find_bundle pid s of Inl e \<Rightarrow> Inl e | Inr d \<Rightarrow>
      let m = bd_manifest d in
      if mf_fingerprint m \<noteq> [] \<and> mf_fingerprint m \<noteq> rw_fingerprint w
      then Inl (ValueError (''Patch '' @ pid @ '' does not belong to the requested repository'')) else Inr m)"

end
