(* ===== verification/Patch_Guarantees.thy ===== *)
theory Patch_Guarantees
  imports Repo_Patches
begin

text \<open>
  What the application and the reversal of a managed patch do to a repository without links: all of the patch or nothing, exactly what was
  previewed, and back again. \<open>fits\<close> is what the checks before the first write establish of every operation; the effect of a list of operations
  on a tree is \<open>changed\<close>.
\<close>

section \<open>Trees without links\<close>

definition link_free :: "tree \<Rightarrow> bool" where
  "link_free t = (\<forall>p q. t p \<noteq> Some (Link q))"

lemma link_freeD: "link_free t \<Longrightarrow> t p \<noteq> Some (Link q)"
  by (simp add: link_free_def)

lemma resolved_free [simp]: "link_free t \<Longrightarrow> resolved t p = p"
  by (auto simp: resolved_def link_free_def split: option.split entry.split)

lemma file_at_free: "link_free t \<Longrightarrow> file_at t p = (case t p of Some (Regular b) \<Rightarrow> Some b | _ \<Rightarrow> None)"
  by (simp add: file_at_def)

lemma file_at_iff [simp]:
  "link_free t \<Longrightarrow> file_at t p = Some b \<longleftrightarrow> t p = Some (Regular b)"
  "link_free t \<Longrightarrow> file_at t p = None \<longleftrightarrow> t p = None"
  by (auto simp: file_at_free link_free_def split: option.split entry.split)

lemma path_linked_free [simp]: "link_free t \<Longrightarrow> \<not> path_linked t p"
  by (auto simp: path_linked_def link_free_def split: option.split entry.split)

lemma link_free_update [simp]: "link_free t \<Longrightarrow> link_free (t(p := map_option Regular b))"
  by (cases b) (auto simp: link_free_def)

lemma write_path_same: "link_free t \<Longrightarrow> link_free t' \<Longrightarrow> resolve_and_validate_write w t rel = resolve_and_validate_write w t' rel"
  by (simp add: resolve_and_validate_write_def resolve_and_validate_def validate_repo_relative_path_def path_is_allowed_def Let_def)

text \<open>A path that may be written.\<close>

definition writable :: "repo_world \<Rightarrow> string \<Rightarrow> bool" where
  "writable w p =
     (within (rw_root w) p \<and> list_all (\<lambda>part. \<not> is_blocked_name part \<and> \<not> is_blocked_env part) (parts_below (rw_root w) p) \<and> \<not> rw_reparse w p)"

lemma write_path_facts:
  "link_free t \<Longrightarrow> resolve_and_validate_write w t rel = Inr p \<Longrightarrow> p = repo_path w rel \<and> writable w p"
  by (auto simp: resolve_and_validate_write_def resolve_and_validate_def validate_repo_relative_path_def path_is_allowed_def writable_def Let_def
      split: sum.splits if_splits)

section \<open>What the checks establish\<close>

definition fits :: "repo_world \<Rightarrow> tree \<Rightarrow> prepared_op \<Rightarrow> bool" where
  "fits w t op =
     (resolve_and_validate_write w t (pr_path op) = Inr (pr_absolute op) \<and>
      (case pr_rollback op of
         None \<Rightarrow> pr_action op = ''create'' \<and> pr_payload op \<noteq> None \<and> t (pr_absolute op) = None \<and> \<not> rw_directory w (pr_absolute op)
       | Some b \<Rightarrow> pr_action op \<noteq> ''create'' \<and> (pr_action op = ''remove'' \<longleftrightarrow> pr_payload op = None) \<and> t (pr_absolute op) = Some (Regular b)))"

text \<open>What an operation writes is what its preview stored, and what it replaces is what its preview saw.\<close>

definition as_previewed :: "repo_world \<Rightarrow> patch_entry \<Rightarrow> prepared_op \<Rightarrow> bool" where
  "as_previewed w e op =
     (pr_path op = pe_path e \<and> pr_action op = pe_action e \<and>
      (case pr_payload op of None \<Rightarrow> True | Some b \<Rightarrow> rw_sha w b = pd_sha256 (pe_payload e)) \<and>
      (case pr_rollback op of None \<Rightarrow> True | Some b \<Rightarrow> rw_sha w b = pe_sha e))"

lemma assembled_hash: "assemble_payload digest read i d = Inr b \<Longrightarrow> digest b = pd_sha256 d"
  by (auto simp: assemble_payload_def split: sum.splits if_splits option.splits)

lemma payload_hash: "patch_payload w pid files i e = Inr b \<Longrightarrow> rw_sha w b = pd_sha256 (pe_payload e)"
  by (rule assembled_hash) (auto simp: patch_payload_def split: sum.splits py_error.splits)

lemma read_bytes_Inr: "read_bytes w t p = Inr b \<Longrightarrow> file_at t p = Some b"
  by (auto simp: read_bytes_def split: option.splits)

lemma prepared_fits:
  assumes "link_free t" "prepare_op w t pid files i e p = Inr op" "pe_action e \<in> {''modify'', ''create'', ''remove''}"
    "resolve_and_validate_write w t (pe_path e) = Inr p"
  shows "fits w t op \<and> pr_absolute op = p \<and> as_previewed w e op"
proof -
  consider (modify) "pe_action e = ''modify''" | (create) "pe_action e = ''create''" | (remove) "pe_action e = ''remove''" using assms(3) by auto
  then show ?thesis
  proof cases
    case modify
    then show ?thesis using assms
      by (auto simp: prepare_op_def Let_def fits_def as_previewed_def split: if_splits sum.splits dest!: read_bytes_Inr payload_hash)
  next
    case create
    then show ?thesis using assms
      by (auto simp: prepare_op_def Let_def fits_def as_previewed_def validate_create_target_def path_exists_def split: if_splits sum.splits
          dest!: payload_hash)
  next
    case remove
    then show ?thesis using assms
      by (auto simp: prepare_op_def Let_def fits_def as_previewed_def validate_remove_target_def split: if_splits sum.splits dest!: read_bytes_Inr)
  qed
qed

lemma resolve_entries_facts:
  "resolve_entries w t pid seen ops = Inr rs \<Longrightarrow> map fst rs = ops \<and> distinct (map snd rs) \<and> set (map snd rs) \<inter> set seen = {} \<and>
     (\<forall>(e, p) \<in> set rs. pe_action e \<in> {''modify'', ''create'', ''remove''} \<and> resolve_and_validate_write w t (pe_path e) = Inr p)"
proof (induction ops arbitrary: seen rs)
  case (Cons e ops)
  then obtain p rest where r: "pe_action e \<in> {''modify'', ''create'', ''remove''}" "resolve_and_validate_write w t (pe_path e) = Inr p" "p \<notin> set seen"
      "resolve_entries w t pid (p # seen) ops = Inr rest" "rs = (e, p) # rest"
    by (auto split: if_splits sum.splits)
  from Cons.IH [OF r(4)] r show ?case by auto
qed simp

lemma prepare_ops_facts:
  assumes "link_free t" "prepare_ops w t pid files i rs = Inr ops"
    "\<forall>(e, p) \<in> set rs. pe_action e \<in> {''modify'', ''create'', ''remove''} \<and> resolve_and_validate_write w t (pe_path e) = Inr p"
  shows "map pr_absolute ops = map snd rs \<and> list_all (fits w t) ops \<and> list_all2 (as_previewed w) (map fst rs) ops"
  using assms(2,3)
proof (induction rs arbitrary: i ops)
  case (Cons ep rs)
  obtain e p where ep: "ep = (e, p)" by (cases ep)
  then obtain op rest where r: "prepare_op w t pid files i e p = Inr op" "prepare_ops w t pid files (i + 1) rs = Inr rest" "ops = op # rest"
    using Cons.prems(1) by (auto split: sum.splits)
  have "\<forall>(e, p) \<in> set rs. pe_action e \<in> {''modify'', ''create'', ''remove''} \<and> resolve_and_validate_write w t (pe_path e) = Inr p"
    and "pe_action e \<in> {''modify'', ''create'', ''remove''}" "resolve_and_validate_write w t (pe_path e) = Inr p"
    using Cons.prems(2) ep by auto
  with Cons.IH [OF r(2)] prepared_fits [OF assms(1) r(1)] r(3) ep show ?case by simp
qed simp

lemma prepare_patch_facts:
  assumes "link_free t" "prepare_patch w t pid d = Inr ops"
  shows "distinct (map pr_absolute ops)" "list_all (fits w t) ops" "list_all2 (as_previewed w) (mf_operations (bd_manifest d)) ops" "ops \<noteq> []"
proof -
  obtain rs where r: "resolve_entries w t pid [] (mf_operations (bd_manifest d)) = Inr rs" "prepare_ops w t pid (bd_files d) 0 rs = Inr ops"
      "mf_operations (bd_manifest d) \<noteq> []"
    using assms(2) by (auto simp: prepare_patch_def Let_def split: if_splits sum.splits)
  note e = resolve_entries_facts [OF r(1)]
  from e have "\<forall>(e, p) \<in> set rs. pe_action e \<in> {''modify'', ''create'', ''remove''} \<and> resolve_and_validate_write w t (pe_path e) = Inr p" by blast
  note p = prepare_ops_facts [OF assms(1) r(2) this]
  from e p show "distinct (map pr_absolute ops)" "list_all (fits w t) ops" "list_all2 (as_previewed w) (mf_operations (bd_manifest d)) ops" by simp_all
  with r(3) show "ops \<noteq> []" by auto
qed

section \<open>The effect of the operations\<close>

fun changed :: "prepared_op list \<Rightarrow> tree \<Rightarrow> tree" where
  "changed [] t = t"
| "changed (op # ops) t = changed ops (t(pr_absolute op := map_option Regular (pr_payload op)))"

lemma changed_append: "changed (xs @ ys) t = changed ys (changed xs t)"
  by (induction xs arbitrary: t) simp_all

lemma changed_free [simp]: "link_free t \<Longrightarrow> link_free (changed ops t)"
  by (induction ops arbitrary: t) simp_all

lemma changed_other: "p \<notin> pr_absolute ` set ops \<Longrightarrow> changed ops t p = t p"
  by (induction ops arbitrary: t) auto

lemma changed_at: "distinct (map pr_absolute ops) \<Longrightarrow> op \<in> set ops \<Longrightarrow> changed ops t (pr_absolute op) = map_option Regular (pr_payload op)"
proof (induction ops arbitrary: t)
  case (Cons x ops)
  then show ?case
  proof (cases "op = x")
    case True
    with Cons.prems changed_other [of "pr_absolute x" ops] show ?thesis by (simp add: image_iff)
  next
    case False
    with Cons show ?thesis by simp
  qed
qed simp

definition result_of :: "repo_world \<Rightarrow> nat \<Rightarrow> prepared_op \<Rightarrow> applied_result" where
  "result_of w i op =
     \<lparr>ap_action = pr_action op, ap_path = pr_path op, ap_sha = (case pr_payload op of None \<Rightarrow> [] | Some b \<Rightarrow> rw_sha w b),
      ap_rollback = (case pr_rollback op of None \<Rightarrow> [] | Some _ \<Rightarrow> rollback_file_name i)\<rparr>"

definition results_of :: "repo_world \<Rightarrow> nat \<Rightarrow> prepared_op list \<Rightarrow> applied_result list" where
  "results_of w i ops = map (\<lambda>(j, op). result_of w j op) (enumerate i ops)"

text \<open>The rollback directory holds the original of each of the operations from index \<open>i\<close> on.\<close>

definition saved :: "string \<Rightarrow> repo_state \<Rightarrow> nat \<Rightarrow> prepared_op list \<Rightarrow> bool" where
  "saved pid s i ops =
     list_all (\<lambda>(j, op). \<forall>b. pr_rollback op = Some b \<longrightarrow> rollback_files pid s (rollback_file_name j) = Some (Regular b)) (enumerate i ops)"

definition has_rollback_dir :: "string \<Rightarrow> repo_state \<Rightarrow> bool" where
  "has_rollback_dir pid s = (case rs_bundles s pid of None \<Rightarrow> False | Some d \<Rightarrow> bd_rollback d \<noteq> None)"

lemma rollback_name_inj [simp]: "rollback_file_name i = rollback_file_name j \<longleftrightarrow> i = j"
  unfolding rollback_file_name_def by (metis append_same_eq digits_value_nat same_append_eq)

lemma put_rollback_cases:
  assumes "has_rollback_dir pid s" "put_rollback w label pid name b s = (r, s')"
  shows "rs_tree s' = rs_tree s \<and> has_rollback_dir pid s' \<and> (case r of Inl _ \<Rightarrow> s' = s | Inr _ \<Rightarrow> rollback_files pid s' = (rollback_files pid s)(name \<mapsto> Regular b))"
  using assms by (auto simp: put_rollback_def effect_def update_bundle_def rollback_files_def has_rollback_dir_def split: option.splits)

lemma put_file_cases:
  "put_file w label p b s = (r, s') \<Longrightarrow> rs_bundles s' = rs_bundles s \<and>
     rs_tree s' = (case r of Inl _ \<Rightarrow> rs_tree s | Inr _ \<Rightarrow> (rs_tree s)(p \<mapsto> Regular b))"
  by (auto simp: put_file_def effect_def split: option.splits)

lemma unlink_file_cases:
  "unlink_file w label p s = (r, s') \<Longrightarrow> rs_bundles s' = rs_bundles s \<and>
     rs_tree s' = (case r of Inl _ \<Rightarrow> rs_tree s | Inr _ \<Rightarrow> (rs_tree s)(p := None))"
  by (auto simp: unlink_file_def effect_def split: option.splits if_splits)

lemma same_bundles:
  "rs_bundles s' = rs_bundles s \<Longrightarrow> rollback_files pid s' = rollback_files pid s \<and> has_rollback_dir pid s' = has_rollback_dir pid s"
  by (simp add: rollback_files_def has_rollback_dir_def)

lemma chain_give: "chain m (\<lambda>_. give v) s = (q, s') \<longleftrightarrow> (\<exists>u. m s = (u, s') \<and> q = (case u of Inl e \<Rightarrow> Inl e | Inr _ \<Rightarrow> Inr v))"
  by (cases "m s") (auto simp: chain_def give_def split: sum.splits)

lemma write_cases:
  assumes "(case pr_payload op of Some b \<Rightarrow> chain (put_file w ''apply'' (pr_absolute op) b) (\<lambda>_. give (rw_sha w b))
        | None \<Rightarrow> chain (unlink_file w ''apply'' (pr_absolute op)) (\<lambda>_. give [])) s = (q, s')"
  shows "rs_bundles s' = rs_bundles s \<and>
      (case q of Inl _ \<Rightarrow> rs_tree s' = rs_tree s
       | Inr sha \<Rightarrow> sha = ap_sha (result_of w i op) \<and> rs_tree s' = (rs_tree s)(pr_absolute op := map_option Regular (pr_payload op)))"
proof (cases "pr_payload op")
  case None
  then obtain u where u: "unlink_file w ''apply'' (pr_absolute op) s = (u, s')" "q = (case u of Inl e \<Rightarrow> Inl e | Inr _ \<Rightarrow> Inr [])"
    using assms by (auto simp: chain_give)
  from unlink_file_cases [OF u(1)] u(2) None show ?thesis by (cases u) (simp_all add: result_of_def)
next
  case (Some b)
  then obtain u where u: "put_file w ''apply'' (pr_absolute op) b s = (u, s')" "q = (case u of Inl e \<Rightarrow> Inl e | Inr _ \<Rightarrow> Inr (rw_sha w b))"
    using assms by (auto simp: chain_give)
  from put_file_cases [OF u(1)] u(2) Some show ?thesis by (cases u) (simp_all add: result_of_def)
qed

lemma apply_one_cases:
  assumes "has_rollback_dir pid s" "apply_one w pid i op s = (r, s')"
  shows "has_rollback_dir pid s' \<and> (\<forall>name. name \<noteq> rollback_file_name i \<longrightarrow> rollback_files pid s' name = rollback_files pid s name) \<and>
    (case r of
       Inl _ \<Rightarrow> rs_tree s' = rs_tree s
     | Inr x \<Rightarrow> x = result_of w i op \<and> rs_tree s' = (rs_tree s)(pr_absolute op := map_option Regular (pr_payload op)) \<and> saved pid s' i [op])"
proof -
  let ?name = "case pr_rollback op of None \<Rightarrow> [] | Some _ \<Rightarrow> rollback_file_name i"
  let ?save = "case pr_rollback op of None \<Rightarrow> give [] | Some b \<Rightarrow> chain (put_rollback w ''save'' pid (rollback_file_name i) b) (\<lambda>_. give (rollback_file_name i))"
  obtain q s1 where p: "?save s = (q, s1)" by fastforce
  have c: "rs_tree s1 = rs_tree s \<and> has_rollback_dir pid s1 \<and>
        (\<forall>name. name \<noteq> rollback_file_name i \<longrightarrow> rollback_files pid s1 name = rollback_files pid s name) \<and>
        (case q of Inl _ \<Rightarrow> True | Inr name \<Rightarrow> name = ?name \<and> saved pid s1 i [op])"
  proof (cases "pr_rollback op")
    case None
    with p assms(1) show ?thesis
      by (auto simp: give_def saved_def)
  next
    case (Some b)
    then obtain u where u: "put_rollback w ''save'' pid (rollback_file_name i) b s = (u, s1)"
        "q = (case u of Inl e \<Rightarrow> Inl e | Inr _ \<Rightarrow> Inr (rollback_file_name i))"
      using p by (auto simp: chain_give)
    from put_rollback_cases [OF assms(1) u(1)] u(2) Some show ?thesis
      by (cases u) (auto simp: saved_def)
  qed
  show ?thesis
  proof (cases q)
    case (Inl e)
    with assms(2) p have "r = Inl e" "s' = s1" by (auto simp: apply_one_def chain_def)
    with c show ?thesis by simp
  next
    case (Inr name)
    let ?change = "case pr_payload op of Some b \<Rightarrow> chain (put_file w ''apply'' (pr_absolute op) b) (\<lambda>_. give (rw_sha w b))
        | None \<Rightarrow> chain (unlink_file w ''apply'' (pr_absolute op)) (\<lambda>_. give [])"
    obtain u s2 where u: "?change s1 = (u, s2)" by fastforce
    note x = write_cases [OF u, of i]
    have r: "s' = s2" "r = (case u of Inl e \<Rightarrow> Inl e | Inr sha \<Rightarrow> Inr \<lparr>ap_action = pr_action op, ap_path = pr_path op, ap_sha = sha, ap_rollback = name\<rparr>)"
      using assms(2) p Inr u by (auto simp: apply_one_def chain_def give_def split: sum.splits)
    have b: "rollback_files pid s2 = rollback_files pid s1" "has_rollback_dir pid s2 = has_rollback_dir pid s1"
      using x same_bundles [of s2 s1 pid] by simp_all
    show ?thesis using x r b c Inr by (cases u) (auto simp: result_of_def saved_def split: option.splits)
  qed
qed

lemma saved_Cons: "saved pid s i (op # ops) \<longleftrightarrow> saved pid s i [op] \<and> saved pid s (i + 1) ops"
  by (simp add: saved_def)

lemma saved_append: "saved pid s i (xs @ ys) \<longleftrightarrow> saved pid s i xs \<and> saved pid s (i + length xs) ys"
  by (simp add: saved_def enumerate_append_eq)

lemma saved_cong: "rollback_files pid s' = rollback_files pid s \<Longrightarrow> saved pid s' i ops = saved pid s i ops"
  by (simp add: saved_def)

lemma results_of_Nil [simp]: "results_of w i [] = []"
  by (simp add: results_of_def)

lemma results_of_Cons [simp]: "results_of w i (op # ops) = result_of w i op # results_of w (i + 1) ops"
  by (simp add: results_of_def)

lemma results_of_paths [simp]: "map ap_path (results_of w i ops) = map pr_path ops"
  by (induction ops arbitrary: i) (simp_all add: result_of_def)

lemma results_of_snoc: "results_of w i (ops @ [op]) = results_of w i ops @ [result_of w (i + length ops) op]"
  by (simp add: results_of_def enumerate_append_eq)

text \<open>The operations that were carried out are a first part of the list, with their originals saved.\<close>

lemma apply_each_cases:
  "has_rollback_dir pid s \<Longrightarrow> apply_each w pid i ops made s = (res, made', s') \<Longrightarrow>
     \<exists>xs ys. ops = xs @ ys \<and> (res = None \<longrightarrow> ys = []) \<and> made' = made @ results_of w i xs \<and> rs_tree s' = changed xs (rs_tree s) \<and>
       has_rollback_dir pid s' \<and> saved pid s' i xs \<and> (\<forall>j < i. rollback_files pid s' (rollback_file_name j) = rollback_files pid s (rollback_file_name j))"
proof (induction ops arbitrary: i made s)
  case Nil
  then show ?case by (intro exI [of _ "[]"]) (simp add: saved_def)
next
  case (Cons op ops)
  obtain r s1 where a: "apply_one w pid i op s = (r, s1)" by fastforce
  note one = apply_one_cases [OF Cons.prems(1) a]
  show ?case
  proof (cases r)
    case (Inl e)
    with Cons.prems(2) a have "res = Some e" "made' = made" "s' = s1" by simp_all
    with one Inl show ?thesis by (intro exI [of _ "[]"] exI [of _ "op # ops"]) (simp add: saved_def)
  next
    case (Inr x)
    with one have x: "x = result_of w i op" "rs_tree s1 = (rs_tree s)(pr_absolute op := map_option Regular (pr_payload op))"
      "saved pid s1 i [op]" "has_rollback_dir pid s1" by simp_all
    have "apply_each w pid (i + 1) ops (made @ [x]) s1 = (res, made', s')" using Cons.prems(2) a Inr by simp
    from Cons.IH [OF x(4) this] obtain xs ys where r: "ops = xs @ ys" "res = None \<longrightarrow> ys = []" "made' = (made @ [x]) @ results_of w (i + 1) xs"
        "rs_tree s' = changed xs (rs_tree s1)" "has_rollback_dir pid s'" "saved pid s' (i + 1) xs"
        "\<And>j. j < i + 1 \<Longrightarrow> rollback_files pid s' (rollback_file_name j) = rollback_files pid s1 (rollback_file_name j)" by blast
    have "saved pid s' i [op]" using x(3) r(7) [of i] by (simp add: saved_def)
    moreover have "rollback_files pid s' (rollback_file_name j) = rollback_files pid s (rollback_file_name j)" if "j < i" for j
      using r(7) [of j] one that by simp
    ultimately show ?thesis using r x saved_Cons [of pid s' i op xs] by (intro exI [of _ "op # xs"] exI [of _ ys]) simp
  qed
qed

section \<open>Undoing\<close>

text \<open>The writes that undo a patch do not fail.\<close>

definition calm :: "repo_world \<Rightarrow> string list \<Rightarrow> bool" where
  "calm w labels = (\<forall>label \<in> set labels. \<forall>p. rw_fault w label p = None)"

lemma calmD: "calm w labels \<Longrightarrow> label \<in> set labels \<Longrightarrow> rw_fault w label p = None"
  by (simp add: calm_def)

lemma calm_put: "calm w labels \<Longrightarrow> label \<in> set labels \<Longrightarrow> put_file w label p b s = (Inr (), s\<lparr>rs_tree := (rs_tree s)(p \<mapsto> Regular b)\<rparr>)"
  by (simp add: put_file_def effect_def calmD)

lemma calm_unlink:
  "calm w labels \<Longrightarrow> label \<in> set labels \<Longrightarrow> rs_tree s p \<noteq> None \<Longrightarrow> unlink_file w label p s = (Inr (), s\<lparr>rs_tree := (rs_tree s)(p := None)\<rparr>)"
  by (simp add: unlink_file_def effect_def calmD)

lemma calm_read:
  "calm w labels \<Longrightarrow> ''read'' \<in> set labels \<Longrightarrow> files name = Some (Regular b) \<Longrightarrow> read_bundle_file w files kind name name = Inr b"
  by (simp add: read_bundle_file_def calmD Let_def)

lemma rollback_name_of [simp]: "pr_rollback op = Some b \<Longrightarrow> ap_rollback (result_of w i op) = rollback_file_name i"
  by (simp add: result_of_def)

lemma result_of_simps [simp]: "ap_path (result_of w i op) = pr_path op" "ap_action (result_of w i op) = pr_action op"
  by (simp_all add: result_of_def)

text \<open>Undoing or reverting the last operation gives the tree before it.\<close>

lemma last_undone:
  assumes "link_free t" "fits w t op" "pr_absolute op \<notin> pr_absolute ` set xs" "rs_tree s = changed (xs @ [op]) t" "saved pid s i [op]"
  shows "calm w [''undo'', ''read''] \<Longrightarrow> undo_one w pid i (result_of w i op) s = (Inr (), s\<lparr>rs_tree := changed xs t\<rparr>)"
    and "calm w [''revert'', ''read''] \<Longrightarrow> revert_one w pid i (result_of w i op) s = (Inr (pr_path op), s\<lparr>rs_tree := changed xs t\<rparr>)"
proof -
  let ?p = "pr_absolute op"
  have tree: "rs_tree s = (changed xs t)(?p := map_option Regular (pr_payload op))" using assms(4) by (simp add: changed_append)
  have free: "link_free (rs_tree s)" using assms(1,4) by simp
  have path: "resolve_and_validate_write w (rs_tree s) (pr_path op) = Inr ?p"
    using assms(2) write_path_same [OF free assms(1)] by (simp add: fits_def)
  have before: "changed xs t ?p = t ?p" by (rule changed_other [OF assms(3)])
  show "calm w [''undo'', ''read''] \<Longrightarrow> undo_one w pid i (result_of w i op) s = (Inr (), s\<lparr>rs_tree := changed xs t\<rparr>)"
  proof (cases "pr_rollback op")
    case None
    assume c: "calm w [''undo'', ''read'']"
    have f: "pr_action op = ''create''" "t ?p = None" "rs_tree s ?p \<noteq> None" using assms(2) None tree by (auto simp: fits_def)
    then have "path_exists w (rs_tree s) ?p" using free by (simp add: path_exists_def)
    moreover have "unlink_file w ''undo'' ?p s = (Inr (), s\<lparr>rs_tree := changed xs t\<rparr>)"
      using calm_unlink [OF c, of "''undo''" s ?p] f tree before by (simp add: fun_upd_idem)
    ultimately show ?thesis using path f by (simp add: undo_one_def)
  next
    case (Some b)
    assume c: "calm w [''undo'', ''read'']"
    have f: "pr_action op \<noteq> ''create''" "t ?p = Some (Regular b)" using assms(2) Some by (auto simp: fits_def)
    have "rollback_files pid s (rollback_file_name i) = Some (Regular b)" using assms(5) Some by (simp add: saved_def)
    from calm_read [where files = "rollback_files pid s" and name = "rollback_file_name i" and kind = "''rollback''", OF c _ this] calm_put [OF c, of "''undo''" ?p b s] path f tree before Some show ?thesis
      by (simp add: undo_one_def fun_upd_idem)
  qed
  show "calm w [''revert'', ''read''] \<Longrightarrow> revert_one w pid i (result_of w i op) s = (Inr (pr_path op), s\<lparr>rs_tree := changed xs t\<rparr>)"
  proof (cases "pr_rollback op")
    case None
    assume c: "calm w [''revert'', ''read'']"
    have f: "pr_action op = ''create''" "t ?p = None" "rs_tree s ?p \<noteq> None" using assms(2) None tree by (auto simp: fits_def)
    have "unlink_file w ''revert'' ?p s = (Inr (), s\<lparr>rs_tree := changed xs t\<rparr>)"
      using calm_unlink [OF c, of "''revert''" s ?p] f tree before by (simp add: fun_upd_idem)
    then show ?thesis using path f by (simp add: revert_one_def chain_def give_def)
  next
    case (Some b)
    assume c: "calm w [''revert'', ''read'']"
    have f: "pr_action op \<noteq> ''create''" "t ?p = Some (Regular b)" using assms(2) Some by (auto simp: fits_def)
    have n: "rollback_name i (result_of w i op) = (rollback_file_name i, rollback_file_name i)"
      using Some by (simp add: rollback_name_def Let_def str_or_def rollback_file_name_def)
    have "rollback_files pid s (rollback_file_name i) = Some (Regular b)" using assms(5) Some by (simp add: saved_def)
    from calm_read [where files = "rollback_files pid s" and name = "rollback_file_name i" and kind = "''rollback''", OF c _ this] calm_put [OF c, of "''revert''" ?p b s] path f tree before n show ?thesis
      by (simp add: revert_one_def chain_def give_def fun_upd_idem)
  qed
qed

lemma all_undone:
  assumes "link_free t"
  shows "distinct (map pr_absolute xs) \<Longrightarrow> list_all (fits w t) xs \<Longrightarrow> rs_tree s = changed xs t \<Longrightarrow> saved pid s 0 xs \<Longrightarrow>
    (calm w [''undo'', ''read''] \<longrightarrow> undo_each w pid (rev (enumerate 0 (results_of w 0 xs))) s = (Inr (), s\<lparr>rs_tree := t\<rparr>)) \<and>
    (calm w [''revert'', ''read''] \<longrightarrow> revert_each w pid (rev (enumerate 0 (results_of w 0 xs))) s = (Inr (map pr_path (rev xs)), s\<lparr>rs_tree := t\<rparr>))"
proof (induction xs arbitrary: s rule: rev_induct)
  case Nil
  then show ?case by simp
next
  case (snoc op xs)
  have en: "rev (enumerate 0 (results_of w 0 (xs @ [op]))) = (length xs, result_of w (length xs) op) # rev (enumerate 0 (results_of w 0 xs))"
    by (simp add: results_of_snoc enumerate_append_eq results_of_def)
  have s: "saved pid s (length xs) [op]" "saved pid s 0 xs" using snoc.prems(4) by (simp_all add: saved_append)
  have p: "pr_absolute op \<notin> pr_absolute ` set xs" "fits w t op" using snoc.prems(1,2) by auto
  let ?s1 = "s\<lparr>rs_tree := changed xs t\<rparr>"
  have "saved pid ?s1 0 xs" using s(2) saved_cong [of pid ?s1 s 0 xs] by (simp add: rollback_files_def)
  with snoc.IH [of ?s1] snoc.prems(1,2) have rest:
    "calm w [''undo'', ''read''] \<longrightarrow> undo_each w pid (rev (enumerate 0 (results_of w 0 xs))) ?s1 = (Inr (), s\<lparr>rs_tree := t\<rparr>)"
    "calm w [''revert'', ''read''] \<longrightarrow> revert_each w pid (rev (enumerate 0 (results_of w 0 xs))) ?s1 = (Inr (map pr_path (rev xs)), s\<lparr>rs_tree := t\<rparr>)"
    by simp_all
  note one = last_undone [OF assms p(2,1) snoc.prems(3) s(1)]
  show ?case using rest one by (simp add: en chain_def give_def)
qed

lemma restored:
  assumes "link_free t" "calm w [''rollback'']" "rs_tree s = t" "\<forall>rel \<in> set paths. t (repo_path w rel) = None \<longrightarrow> \<not> rw_directory w (repo_path w rel)"
  shows "restore_snapshots w (rev (take_snapshots w t paths)) s = ([], s)"
proof -
  have one: "restore_snapshot w sn s = (Inr (), s)"
    if "sn_content sn = file_at t (repo_path w (sn_path sn))" "t (repo_path w (sn_path sn)) = None \<longrightarrow> \<not> rw_directory w (repo_path w (sn_path sn))" for sn
  proof (cases "sn_content sn")
    case None
    then have "t (repo_path w (sn_path sn)) = None" using that assms(1) by simp
    then show ?thesis using None that(2) assms by (simp add: restore_snapshot_def Let_def path_exists_def)
  next
    case (Some b)
    then have "t (repo_path w (sn_path sn)) = Some (Regular b)" using that assms(1) by simp
    then show ?thesis using Some assms(3) calm_put [OF assms(2), of "''rollback''"] by (simp add: restore_snapshot_def Let_def fun_upd_idem)
  qed
  have "\<forall>sn \<in> set sns. restore_snapshot w sn s = (Inr (), s) \<Longrightarrow> restore_snapshots w sns s = ([], s)" for sns
    by (induction sns) simp_all
  then show ?thesis using one assms(4) by (simp add: take_snapshots_def)
qed

lemma fits_path: "link_free t \<Longrightarrow> fits w t op \<Longrightarrow> pr_absolute op = repo_path w (pr_path op) \<and> writable w (pr_absolute op)"
  using write_path_facts [of t w "pr_path op" "pr_absolute op"] by (auto simp: fits_def)

lemma fits_new: "fits w t op \<Longrightarrow> t (pr_absolute op) = None \<Longrightarrow> \<not> rw_directory w (pr_absolute op)"
  by (auto simp: fits_def split: option.splits)

definition undo_labels :: "string list" where
  "undo_labels = [''undo'', ''read'', ''rollback'', ''rmtree'']"

lemma calm_parts: "calm w undo_labels \<Longrightarrow> calm w [''undo'', ''read''] \<and> calm w [''rollback'']"
  by (simp add: calm_def undo_labels_def)

lemma rollback_dir_dropped: "calm w undo_labels \<Longrightarrow> fst (drop_rollback_dir w pid s) = [] \<and> rs_tree (snd (drop_rollback_dir w pid s)) = rs_tree s"
  by (simp add: drop_rollback_dir_def effect_def update_bundle_def calm_def undo_labels_def split: option.split)

lemma failed_restores:
  assumes "link_free t" "calm w undo_labels" "distinct (map pr_absolute ops)" "list_all (fits w t) ops" "ops = xs @ ys"
    "rs_tree s = changed xs t" "saved pid s 0 xs"
    "apply_failed w pid m (take_snapshots w t (map pr_path ops)) (results_of w 0 xs) exc s = (r, s')"
  shows "rs_tree s' = t \<and> (\<exists>e. r = Inl e) \<and>
    (rw_fault w ''failed'' ''manifest.json'' = None \<longrightarrow> rs_bundles s pid \<noteq> None \<longrightarrow> map_option (mf_status \<circ> bd_manifest) (rs_bundles s' pid) = Some ''failed'')"
proof -
  have x: "distinct (map pr_absolute xs)" "list_all (fits w t) xs" using assms(3-5) by simp_all
  let ?s1 = "s\<lparr>rs_tree := t\<rparr>"
  from all_undone [OF assms(1) x assms(6,7)] calm_parts [OF assms(2)]
  have u: "undo_each w pid (rev (enumerate 0 (results_of w 0 xs))) s = (Inr (), ?s1)" by simp
  have "t (repo_path w (pr_path op)) = None \<longrightarrow> \<not> rw_directory w (repo_path w (pr_path op))" if "op \<in> set ops" for op
    using that assms(4) fits_path [OF assms(1), of w op] fits_new [of w t op] by (auto simp: list_all_iff)
  then have r: "restore_snapshots w (rev (take_snapshots w t (map pr_path ops))) ?s1 = ([], ?s1)"
    using calm_parts [OF assms(2)] by (intro restored [OF assms(1)]) auto
  obtain s2 where d: "drop_rollback_dir w pid ?s1 = ([], s2)" "rs_tree s2 = t"
    using rollback_dir_dropped [OF assms(2), of pid ?s1] by (cases "drop_rollback_dir w pid ?s1") simp
  have b: "rs_bundles s pid \<noteq> None \<Longrightarrow> rs_bundles s2 pid \<noteq> None"
    using d(1) by (auto simp: drop_rollback_dir_def effect_def update_bundle_def split: if_splits option.splits prod.splits)
  from assms(8) u r d show ?thesis using b
    by (auto simp: apply_failed_def rollback_transaction_def Let_def chain_def throw_def put_manifest_def effect_def update_bundle_def
        split: option.splits)
qed

section \<open>All or nothing\<close>

text \<open>The bundle says that the operations were applied, and keeps their originals.\<close>

definition applied_state :: "repo_world \<Rightarrow> string \<Rightarrow> prepared_op list \<Rightarrow> repo_state \<Rightarrow> bool" where
  "applied_state w pid ops s =
     (saved pid s 0 ops \<and> (\<exists>d. rs_bundles s pid = Some d \<and> mf_status (bd_manifest d) = ''applied'' \<and> mf_applied (bd_manifest d) = results_of w 0 ops))"

lemma put_manifest_cases:
  assumes "has_rollback_dir pid s" "put_manifest w label pid m s = (r, s')"
  shows "rs_tree s' = rs_tree s \<and> rollback_files pid s' = rollback_files pid s \<and> has_rollback_dir pid s' \<and>
    (case r of Inl _ \<Rightarrow> s' = s | Inr _ \<Rightarrow> map_option bd_manifest (rs_bundles s' pid) = Some m)"
  using assms by (auto simp: put_manifest_def effect_def update_bundle_def rollback_files_def has_rollback_dir_def split: option.splits)

lemma carry_out_cases:
  assumes "link_free t" "calm w undo_labels" "distinct (map pr_absolute ops)" "list_all (fits w t) ops" "rs_tree s = t" "has_rollback_dir pid s"
    "carry_out w pid m (take_snapshots w t (map pr_path ops)) ops s = (r, s')"
  shows "rs_tree s' = t \<and> (\<exists>e. r = Inl e) \<or>
    rs_tree s' = changed ops t \<and> applied_state w pid ops s' \<and> (\<forall>a. r = Inr a \<longrightarrow> \<not> aa_replay a \<and> aa_changed_files a = map pr_path ops)"
proof -
  obtain res made s1 where a: "apply_each w pid 0 ops [] s = (res, made, s1)" by (cases "apply_each w pid 0 ops [] s") auto
  from apply_each_cases [OF assms(6) a] assms(5) obtain xs ys where x: "ops = xs @ ys" "res = None \<longrightarrow> ys = []" "made = results_of w 0 xs"
      "rs_tree s1 = changed xs t" "has_rollback_dir pid s1" "saved pid s1 0 xs" by auto
  show ?thesis
  proof (cases res)
    case (Some e)
    then have "apply_failed w pid m (take_snapshots w t (map pr_path ops)) (results_of w 0 xs) e s1 = (r, s')"
      using assms(7) a x(3) by (simp add: carry_out_def)
    from failed_restores [OF assms(1-4) x(1,4,6) this] show ?thesis by simp
  next
    case None
    then have all: "xs = ops" using x(1,2) by simp
    let ?m = "m\<lparr>mf_status := ''applied'', mf_applied_at := Some (rw_clock w 2), mf_applied_head := rw_head w, mf_applied := made\<rparr>"
    obtain q s2 where p: "put_manifest w ''applied'' pid ?m s1 = (q, s2)" by fastforce
    note c = put_manifest_cases [OF x(5) p]
    show ?thesis
    proof (cases q)
      case (Inl e)
      then have "apply_failed w pid ?m (take_snapshots w t (map pr_path ops)) (results_of w 0 xs) e s1 = (r, s')"
        using assms(7) a None p c x(3) by (simp add: carry_out_def Let_def)
      from failed_restores [OF assms(1-4) x(1,4,6) this] show ?thesis by simp
    next
      case (Inr u)
      let ?tn = "build_transaction_result w (take_snapshots w t (map pr_path ops)) (preview_phases pid ops) [] s2"
      have rec: "record_answer w pid ?m made ?tn s2 = (r, s')" using assms(7) a None p Inr by (simp add: carry_out_def Let_def)
      define answer where "answer = \<lparr>aa_changed_files = map ap_path made, aa_results = map (\<lambda>r. (ap_path r, ap_sha r)) made, aa_git_head = rw_head w,
          aa_title = mf_title ?m, aa_description = mf_description ?m, aa_transaction = Some ?tn, aa_replay = False\<rparr>"
      obtain v s3 where v: "put_manifest w ''answer'' pid (?m\<lparr>mf_result := Some answer\<rparr>) s2 = (v, s3)" by fastforce
      have dir: "has_rollback_dir pid s2" using c by simp
      note c' = put_manifest_cases [OF dir v]
      have r: "s' = s3" "\<forall>a. r = Inr a \<longrightarrow> a = answer"
        using rec v unfolding record_answer_def Let_def answer_def [symmetric] by (auto simp: chain_give split: sum.splits)
      have files: "rollback_files pid s3 = rollback_files pid s1" "rs_tree s3 = changed ops t" using c c' x(4) all by simp_all
      have "map_option bd_manifest (rs_bundles s2 pid) = Some ?m" using c Inr by simp
      then have "\<exists>d. rs_bundles s3 pid = Some d \<and> mf_status (bd_manifest d) = ''applied'' \<and> mf_applied (bd_manifest d) = made"
        using c' by (cases v) auto
      then have "applied_state w pid ops s3" using x(3,6) all saved_cong [OF files(1)] by (simp add: applied_state_def)
      moreover have "map ap_path made = map pr_path ops" using x(3) all by simp
      ultimately show ?thesis using files(2) r by (auto simp: answer_def)
    qed
  qed
qed

lemma change_cases:
  assumes "link_free (rs_tree s)" "calm w undo_labels" "apply_previewed_repo_change w pid s = (r, s')"
  obtains (idle) "rs_tree s' = rs_tree s \<and> ((\<exists>e. r = Inl e) \<or> s' = s \<and> (\<exists>a. r = Inr a \<and> aa_replay a))"
  | (all) d ops where "patch_id_ok pid" "rs_bundles s pid = Some d" "prepare_patch w (rs_tree s) pid d = Inr ops" "rs_tree s' = changed ops (rs_tree s)"
      "applied_state w pid ops s'" "\<forall>a. r = Inr a \<longrightarrow> \<not> aa_replay a \<and> aa_changed_files a = map pr_path ops"
proof -
  let ?t = "rs_tree s"
  consider (refused) e where "r = Inl e" "s' = s"
    | (replayed) a where "r = Inr a" "aa_replay a" "s' = s"
    | (started) d ops m where "find_bundle pid s = Inr d" "prepare_patch w ?t pid d = Inr ops"
        "chain (make_rollback_dir w pid) (\<lambda>_. chain (start_applying w pid m) (\<lambda>_. carry_out w pid m (take_snapshots w ?t (map pr_path ops)) ops)) s = (r, s')"
    using assms(3)
    by (auto simp: apply_previewed_repo_change_def replayed_answer_def Let_def split: sum.splits if_splits option.splits)
  then show thesis
  proof cases
    case refused
    then show thesis by (intro idle) simp_all
  next
    case replayed
    then show thesis by (intro idle) simp_all
  next
    case (started d ops m)
    have b: "patch_id_ok pid" "rs_bundles s pid = Some d" using started(1) by (auto simp: find_bundle_def split: if_splits option.splits)
    obtain q s1 where mk: "make_rollback_dir w pid s = (q, s1)" by fastforce
    then have s1: "rs_tree s1 = ?t" "\<forall>u. q = Inr u \<longrightarrow> has_rollback_dir pid s1"
      using b(2) by (auto simp: make_rollback_dir_def effect_def update_bundle_def has_rollback_dir_def split: option.splits)
    show thesis
    proof (cases q)
      case (Inl e)
      then show thesis using started(3) mk s1 by (intro idle) (auto simp: chain_def)
    next
      case (Inr u)
      then have dir: "has_rollback_dir pid s1" using s1(2) by simp
      obtain q2 s2 where st: "start_applying w pid m s1 = (q2, s2)" by fastforce
      then have s2: "rs_tree s2 = ?t" "has_rollback_dir pid s2"
        using put_manifest_cases [OF dir] s1(1) by (auto simp: start_applying_def attempt_def throw_def split: prod.splits sum.splits)
      show thesis
      proof (cases q2)
        case (Inl e)
        then show thesis using started(3) mk \<open>q = Inr u\<close> st s2 by (intro idle) (auto simp: chain_def)
      next
        case (Inr u2)
        then have c: "carry_out w pid m (take_snapshots w ?t (map pr_path ops)) ops s2 = (r, s')"
          using started(3) mk \<open>q = Inr u\<close> st by (simp add: chain_def)
        note p = prepare_patch_facts [OF assms(1) started(2)]
        from carry_out_cases [OF assms(1,2) p(1,2) s2 c] show thesis using idle all [OF b started(2)] by blast
      qed
    qed
  qed
qed


section \<open>There and back\<close>

definition revert_labels :: "string list" where
  "revert_labels = [''revert'', ''read'', ''reverted'']"

lemma revertible:
  assumes "link_free t" "\<forall>p. rw_read_error w p = None" "\<forall>p. t p \<noteq> None \<longrightarrow> \<not> rw_directory w p" "distinct (map pr_absolute ops)" "op \<in> set ops" "fits w t op"
  shows "revert_refusal w (changed ops t) (result_of w i op) = None"
proof -
  let ?p = "pr_absolute op" and ?t = "changed ops t"
  have path: "resolve_and_validate_write w ?t (pr_path op) = Inr ?p"
    using assms(6) write_path_same [of ?t t w "pr_path op"] assms(1) by (simp add: fits_def)
  have at_p: "?t ?p = map_option Regular (pr_payload op)" by (rule changed_at [OF assms(4,5)])
  show ?thesis
  proof (cases "pr_payload op")
    case None
    then have "pr_action op = ''remove''" "t ?p \<noteq> None" using assms(6) by (auto simp: fits_def split: option.splits)
    with assms(1,3) at_p None path show ?thesis by (simp add: revert_refusal_def path_exists_def)
  next
    case (Some b)
    then have "pr_action op \<noteq> ''remove''" using assms(6) by (auto simp: fits_def split: option.splits)
    with assms(1,2) at_p Some path show ?thesis by (simp add: revert_refusal_def path_exists_def read_bytes_def result_of_def file_at_free)
  qed
qed


section \<open>Concrete instances\<close>

text \<open>Comparisons with the limits, on integers.\<close>

lemma is_binary_code [code]:
  "is_binary w t p = (rw_probe_fails w p \<or> (case file_at t p of None \<Rightarrow> True
     | Some b \<Rightarrow> if int (length b) \<le> 8192 then CHR 0x00 \<in> set b else CHR 0x00 \<in> set (take MAX_BINARY_PROBE b)))"
  by (auto simp: is_binary_def MAX_BINARY_PROBE_def split: option.split)

lemma build_payload_parts_code [code]:
  "build_payload_parts digest index data =
     (let base = \<lparr>pd_file = [], pd_chunks = [], pd_sha256 = digest data, pd_size_bytes = Some (int (length data))\<rparr> in
      if int (length data) \<le> 262144
      then (base\<lparr>pd_file := payload_file_name index\<rparr>, [(payload_file_name index, data)])
      else
        let parts = map (\<lambda>i. (payload_chunk_file_name index i, chunk_at data i)) [0..<chunk_count data] in
        (base\<lparr>pd_chunks := map (\<lambda>(name, c). Chunk (Some name) (Some (digest c)) (Some (int (length c)))) parts\<rparr>, parts))"
  by (simp add: build_payload_parts_def PAYLOAD_CHUNK_BYTES_def)

lemma validate_create_target_code [code]:
  "validate_create_target w t path content =
     (case resolve_and_validate_write w t path of
        Inl e \<Rightarrow> Inl e
      | Inr p \<Rightarrow>
          if path_exists w t p then Inl (ValueError (''File already exists: '' @ path))
          else if p = rw_root w then Inl (ValueError (''Parent directory is outside the repository: '' @ path))
          else let n = length (rw_encode w content) in
               if int n > 204800 then Inl (ValueError ''Content exceeds 200 KB limit for create_repo_file'') else Inr (p, n))"
  by (simp add: validate_create_target_def MAX_CREATE_BYTES_def Let_def split: sum.split)

lemma patch_limits:
  "n > MAX_PATCH_FILES \<longleftrightarrow> int n > 50" "n > MAX_PATCH_LINES \<longleftrightarrow> int n > 10000" "n > MAX_PATCH_BYTES \<longleftrightarrow> int n > 2097152"
  by (simp_all add: MAX_PATCH_FILES_def MAX_PATCH_LINES_def MAX_PATCH_BYTES_def)

lemma prepare_patch_code [code]:
  "prepare_patch w t pid d =
     (let m = bd_manifest d; ops = mf_operations m in
      if mf_version m \<notin> {2, 3} then Inl (ValueError (''Patch '' @ pid @ '' does not include an opaque preview bundle''))
      else if mf_fingerprint m = [] then Inl (ValueError (''Patch '' @ pid @ '' is missing repository binding metadata''))
      else if rw_fingerprint w \<noteq> mf_fingerprint m then Inl (ValueError (''Patch '' @ pid @ '' does not belong to the requested repository''))
      else if ops = [] then Inl (ValueError (''Patch '' @ pid @ '' does not include any previewed operations''))
      else if int (length ops) > 50 then Inl (ValueError (''Patch exceeds 50 file limit ('' @ nat_digits (length ops) @ '' files)''))
      else case resolve_entries w t pid [] ops of Inl e \<Rightarrow> Inl e | Inr resolved_ops \<Rightarrow>
      if list_ex (\<lambda>op. pe_action op \<in> {''modify'', ''remove''}) ops \<and> mf_head m \<noteq> [] \<and> rw_head w \<noteq> [] \<and> rw_head w \<noteq> mf_head m
      then Inl (ValueError (''Git HEAD has changed since preview (preview: '' @ take 12 (mf_head m) @ '', current: '' @ take 12 (rw_head w) @ '')''))
      else case prepare_ops w t pid (bd_files d) 0 resolved_ops of Inl e \<Rightarrow> Inl e | Inr prepared \<Rightarrow>
      if int (sum_list (map pr_lines prepared)) > 10000
      then Inl (ValueError (''Patch exceeds 10000 changed-line limit ('' @ nat_digits (sum_list (map pr_lines prepared)) @ '' lines)''))
      else if int (sum_list (map pr_bytes prepared)) > 2097152 then Inl (ValueError ''Patch exceeds 2048 KB changed-byte limit'')
      else Inr prepared)"
  by (simp only: prepare_patch_def patch_limits)

definition sample_repo :: repo_world where
  "sample_repo =
     \<lparr>rw_root = ''/r'', rw_directory = (\<lambda>p. p = ''/r''), rw_reparse = (\<lambda>_. False), rw_probe_fails = (\<lambda>_. False), rw_read_error = (\<lambda>_. None),
      rw_fault = (\<lambda>_ _. None), rw_sha = (\<lambda>b. CHR ''#'' # b), rw_encode = (\<lambda>t. t), rw_decode = (\<lambda>b. b), rw_decode_strict = Inr,
      rw_diff = (\<lambda>_ _ _. []), rw_python = (\<lambda>_. Inr []), rw_head = ''h'', rw_fingerprint = ''f'', rw_dirty = [], rw_clock = (\<lambda>_. ''t''),
      rw_patch_id = ''20260101T000000Z_patch_0123abcd''\<rparr>"

definition sample_tree :: tree where
  "sample_tree = [''/r/a.txt'' \<mapsto> Regular ''x'']"

definition previewed_repo :: repo_state where
  "previewed_repo = snd (preview_repo_file_creation sample_repo ''b.txt'' ''y'' \<lparr>rs_tree = sample_tree, rs_bundles = Map.empty, rs_kept = []\<rparr>)"

definition applied_repo :: repo_state where
  "applied_repo = snd (apply_previewed_repo_change sample_repo (rw_patch_id sample_repo) previewed_repo)"

text \<open>A preview writes its bundle and no file of the repository.\<close>

lemma preview_single_tree: "rs_tree (snd (preview_single w path planned s)) = rs_tree s"
  by (auto simp: preview_single_def chain_def give_def write_preview_bundle_def effect_def Let_def split: sum.split option.split)

lemma previewed_tree: "rs_tree previewed_repo = sample_tree"
  by (simp add: previewed_repo_def preview_repo_file_creation_def preview_single_tree)

lemma sample_link_free: "link_free sample_tree"
  by (simp add: link_free_def sample_tree_def)

lemma sample_calm: "calm sample_repo labels"
  by (simp add: calm_def sample_repo_def)

lemma sample_files: "sample_tree p \<noteq> None \<longrightarrow> \<not> rw_directory sample_repo p"
  by (simp add: sample_tree_def sample_repo_def)

lemma sample_runs:
  "(case fst (apply_previewed_repo_change sample_repo (rw_patch_id sample_repo) previewed_repo) of
      Inl e \<Rightarrow> False | Inr a \<Rightarrow> \<not> aa_replay a \<and> aa_changed_files a = [''b.txt''])"
  by code_simp

lemma sample_applied:
  obtains a where "apply_previewed_repo_change sample_repo (rw_patch_id sample_repo) previewed_repo = (Inr a, applied_repo)"
    "\<not> aa_replay a" "aa_changed_files a = [''b.txt'']"
  using sample_runs unfolding applied_repo_def
  by (cases "apply_previewed_repo_change sample_repo (rw_patch_id sample_repo) previewed_repo") (auto split: sum.splits)



end
