(* ===== verification/Spec2Isabelle.thy ===== *)
theory Spec2Isabelle
  imports Job_System Publication_Guarantees Workflow_Graph Workflow_Properties Launch_Outcomes Command_Guarantees Lock_Refinement Policy_Guarantees
    Payload_Chunks Repo_Guarantees Edit_Guarantees Patch_Guarantees
begin

text \<open>
  Verification of the durable execution core of CodexBridge (Python package \<open>soma\<close>).

  \<^bold>\<open>The program.\<close> A controller asks the server for work: one command, a group of PowerShell commands, a workflow of dependent steps. Every
  piece of work is a row of one SQLite file before any process exists; processes are spawned afterwards and fight over rows with guarded
  updates (status, \<open>state_version\<close>, lease token, lease generation). Whatever crashes, a later start-up reads the rows and adopts, relaunches,
  contains or ends what it finds. The components, bottom up:

  \<^item> The run store (\<open>src/soma/run_store.py\<close>) keeps one row per run and its events. Theories \<open>Run_Store\<close> (tables, guarded update) and
    \<open>Run_Lifecycle\<close> (claim, heartbeat, adoption, progress, recovery, end, publication columns).
  \<^item> The repository locks (\<open>src/soma/operation_locks.py\<close>, \<open>Operation_Locks\<close>; liveness of processes, \<open>src/soma/process_control.py\<close>,
    \<open>Process_Control\<close>): one holder per repository, bound to a run and its lease.
  \<^item> Parallel groups (\<open>src/soma/parallel_groups.py\<close>, \<open>Parallel_Groups\<close>): reservation of children, refresh, and the claim of launches under a
    global and a group limit.
  \<^item> The task plane (\<open>src/soma/tasks\<close>): \<open>Task_Store\<close> (\<open>models.py\<close>, \<open>store.py\<close>) and \<open>Task_Manager\<close> (\<open>backends.py\<close>, \<open>manager.py\<close>): a canonical task
    projects the run behind it and never invents an outcome.
  \<^item> Project scope (\<open>src/soma/project_scope\<close>, \<open>Project_Scope\<close>): which project owns a repository, reservations and attempts, quarantine and its
    adjudication.
  \<^item> The job manager: \<open>Run_Publication\<close> (\<open>src/soma/run_publication.py\<close>), \<open>Job_Control\<close> (\<open>JobManager.cancel_run\<close>), \<open>Job_Recovery\<close>
    (\<open>JobManager._reconcile_run\<close>, \<open>reconcile_startup\<close>, refill of the groups), \<open>Run_Launch\<close> (\<open>JobManager._create_and_launch\<close> and the \<open>start_*\<close>
    operations for project commands, paths, read-only Git and repository changes), and the failure policy of a group, in \<open>Job_Worker\<close>.
  \<^item> The job worker (\<open>src/soma/job_worker.py\<close>): \<open>Job_Worker\<close> (\<open>JobWorker.execute\<close>, \<open>event\<close>, the heartbeat, \<open>main\<close>) and \<open>Repo_Execution\<close> (the tools
    that work in the repository: \<open>_execute_project_command\<close>, \<open>_execute_repo_apply\<close>, the commit and its evidence, and the attribution of changes of
    \<open>src/soma/run_guards.py\<close>). What a worker writes passes through \<open>Redaction\<close> (\<open>src/soma/safety.py\<close>, \<open>src/soma/events.py\<close>).
  \<^item> Command profiles (\<open>src/soma/command_profiles.py\<close>, \<open>Command_Profiles\<close>): which command may run where, with which arguments.
  \<^item> Workflows (\<open>src/soma/workflows\<close>): \<open>Workflow_Model\<close> (\<open>models.py\<close>), \<open>Workflow_Store\<close> (\<open>store.py\<close>), \<open>Workflow_Publication\<close> (\<open>publication.py\<close>, the
    writes of \<open>reporter.py\<close>), \<open>Workflow_Control\<close> (\<open>manager.py\<close>), \<open>Workflow_Worker\<close> (\<open>worker.py\<close>). The steps of a workflow are runs of the run store.
  \<^item> Repository changes: \<open>Text_Edits\<close> (the four kinds of edits of a text, \<open>src/soma/repo_writer.py\<close>), \<open>Repo_Paths\<close> (which paths may be written,
    \<open>src/soma/safety.py\<close> and \<open>src/soma/repo_reader.py\<close>) and \<open>Repo_Patches\<close> (preview bundles, their application and reversal,
    \<open>src/soma/repo_writer.py\<close>, with the transactions of \<open>src/soma/transactions.py\<close>). The job worker calls them through its tools.
  \<^item> Policy and approvals (\<open>src/soma/policy\<close>, \<open>Policy\<close>) and the chunked payloads (\<open>src/soma/payload_chunks.py\<close>, \<open>Payload_Chunks\<close>), which need no
    database.

  \<^bold>\<open>How the code became definitions.\<close> A table is a list of records, one record per row, with the columns as fields; the database is one record,
  extended component by component (\<open>run_db\<close>, \<open>lock_db\<close>, \<open>group_db\<close>, \<open>task_db\<close>, \<open>scope_db\<close>, \<open>workflow_db\<close>), and every operation is polymorphic in the
  extension, so that the operations of a lower component work on the database of an upper one as they do in the shared file. \<open>UPDATE\<close> is
  \<open>sql_update\<close>, its row count \<open>sql_count\<close>; a transaction is one function; a rollback returns the database it began with. An exception is \<open>Inl e\<close>
  with the Python class as constructor. Where the code reads in one transaction and writes in a later one, the model has two functions
  (\<open>acquire_read\<close> and \<open>acquire_write\<close>, \<open>reconcile_view\<close> and \<open>reconcile_write\<close>) or a handler with a point of interference between them. A handler of
  the job and workflow managers and of the workflow worker is a function on a \<open>node\<close>: the database, the files, and the trace of what was done to processes. Its argument
  \<open>others\<close> says what all other processes do at each numbered point between two of its transactions; theorems quantify over it.

  \<^bold>\<open>Arguments of the model.\<close> Clock values, random identifiers and tokens; SHA-256 and the printing of JSON; redaction; the process table and the
  effect of a termination; the launchers and their failures; the answer of a remote controller; the texts of reports; the errors of the file
  system. They are fields of an environment record (\<open>pub_env\<close>, \<open>job_env\<close>, \<open>workflow_env\<close>, \<open>launch_world\<close>, \<open>exec_env\<close>, \<open>exec_world\<close>, \<open>repo_world\<close>) or arguments, and nothing is assumed of them but what a
  theorem states. A float is its printed text; \<open>lower\<close> and \<open>strip\<close> are those of ASCII; the \<open>$\<close> of a pattern also matches before a final newline,
  as in Python. A document that the code treats as a dictionary is an object (\<open>as_object\<close>).

  \<^bold>\<open>What the lemmas show.\<close> \<open>Run_Guarantees\<close>: well-formed tables, bounded columns, races on guarded updates, leases. \<open>Lock_Guarantees\<close> and
  \<open>Lock_Refinement\<close>: exclusive locks, and the simulation of the store by a ledger of owners. \<open>Group_Guarantees\<close>: atomic reservations, limits,
  aggregation. \<open>Task_Guarantees\<close>, \<open>Manager_Guarantees\<close>, \<open>Start_Guarantees\<close>: idempotent requests, honest projections, single launches.
  \<open>Scope_Guarantees\<close> and \<open>Scope_Decisions\<close>: ownership, quarantine, adjudication. \<open>System_Steps\<close>: the relation of all transactions, with any number
  of reconciliations in flight, and its invariant. \<open>Publication_Guarantees\<close>, \<open>Job_Guarantees\<close>, \<open>Job_System\<close>: what the handlers of the job manager
  keep whatever runs between their transactions. \<open>Workflow_Graph\<close>: what the validation of a workflow accepts.
  \<open>Workflow_Guarantees\<close>: the invariant of the workflow tables, kept by every operation. \<open>Platform_Steps\<close>: the steps of the system and of the
  workflow store as one relation. \<open>Workflow_System\<close> and \<open>Worker_System\<close>: the handlers of the workflow manager and the loop of the worker stay
  within that relation whatever runs in between (locales \<open>platform_world\<close> and \<open>platform_worker\<close>). \<open>Workflow_Properties\<close>: finality, order,
  ownership, fencing and progress of workflows, on the samples of \<open>Platform_Samples\<close>. \<open>Launch_Guarantees\<close>: a launch keeps every invariant of the
  system; \<open>Launch_Outcomes\<close>: how it ends, by the triples over steps of \<open>Ownership\<close>. \<open>Job_Worker_System\<close> (locale \<open>tool_invariant\<close>),
  \<open>Job_Worker_Guarantees\<close> and \<open>Repo_Guarantees\<close>: how a worker ends whatever its tool does, what its heartbeat leaves alone, and what a completed
  run of a repository tool stands for. \<open>Command_Guarantees\<close>: the search of the patterns is what the patterns mean, no
  profile carries a blocked argument, and no validated path leaves the repository.
  \<open>Edit_Guarantees\<close>: what an accepted edit changes, and where the diffs of several hunks go wrong. \<open>Patch_Guarantees\<close>: a change is applied
  as a whole or not at all, whichever write fails, and its reversal restores every byte.
  \<open>Policy_Guarantees\<close>: no delegation of risky or human-only work. This theory holds the properties that need more than one of them.

  \<^bold>\<open>Loops and bounds.\<close> All loops but one are recursions whose end is proved: over lists, or by a measure (the search of \<open>validate_graph\<close>). The loop of
  the workflow worker polls and may run for ever: it is a \<open>partial_function (option)\<close>, \<open>None\<close> being a worker that never returns. No fuel is used.

  \<^bold>\<open>Not modelled.\<close> The start operations of the job manager for PowerShell, Docker, SSH and Cloudflare, the tools of the job worker for
  executables, SSH, Docker and Cloudflare (one argument of \<open>execute_inner\<close>), the remote poller, schema migrations, the rendering of responses and reports, the MCP server and its request models, the
  readers of repositories, the Git, SSH, Docker and Cloudflare tools, the memory, knowledge and research stores, the supervisor and the dashboard: file system,
  network and subprocess effects, rendering, or separate stores that the execution core does not consult.
\<close>

section \<open>Properties of the whole system\<close>

text \<open>C1. A terminal task is final. Whatever runs, locks, groups, scope records and task commands do afterwards, in any interleaving, and with any
  number of reconciliations that read the task earlier and write it later, a task that is completed, failed or cancelled keeps that state.\<close>

theorem terminal_task_final:
  assumes "system_ok (db, ps)" "system_step\<^sup>*\<^sup>* (db, ps) (db', ps')" "task_by_id k db = Some t" "terminal_task (t_state t)"
  shows "\<exists>t'. task_by_id k db' = Some t' \<and> t_state t' = t_state t \<and> t_state_version t \<le> t_state_version t'"
proof -
  have adv: "system_advances db db'" using system_steps_keep [OF assms(2,1)] by simp
  then obtain t' where "task_by_id k db' = Some t'" "t_state t' = t_state t"
    using assms(3,4) by (auto simp: system_advances_def terminal_kept_def)
  moreover obtain t'' where "task_by_id k db' = Some t''" "task_row_advances t t''"
    using tasks_advanceD [OF _ assms(3)] adv by (auto simp: system_advances_def)
  ultimately show ?thesis by (auto simp: task_row_advances_def)
qed

text \<open>C2. Every terminal task is justified. In every reachable state a task that is completed, failed or cancelled either has its own durable
  run, stored as terminal with a status that maps to this state, or was withdrawn by its owner: its reservation is quarantined.\<close>

theorem terminal_tasks_justified:
  assumes "system_ok (db, ps)" "system_step\<^sup>*\<^sup>* (db, ps) (db', ps')" "t \<in> set (tasks db')" "terminal_task (t_state t)"
  shows "(\<exists>r. run_by_id (t_backend_ref t) db' = Some r \<and> is_terminal (r_status r) \<and> backend_identity_matches t (run_observation r) \<and>
      fst (map_backend_status (r_status r)) = t_state t) \<or>
    (\<exists>v. by_key v_task_id (t_task_id t) (reservations db') = Some v \<and> v_status v = TB_QUARANTINED)"
proof -
  have "tasks_settled db'" using system_steps_keep [OF assms(2,1)] by (simp add: system_ok_def)
  then have "outcome_now db' t = t_state t \<or> withdrawn db' t" using assms(3,4) by (simp add: tasks_settled_def)
  then show ?thesis
  proof
    assume o: "outcome_now db' t = t_state t"
    note v = terminal_verdict [of t "query (t_backend_ref t) db'"]
    from o assms(4) v query_run [of "t_backend_ref t" db'] obtain r where
      r: "run_by_id (t_backend_ref t) db' = Some r" "query (t_backend_ref t) db' = run_observation r" "backend_identity_matches t (run_observation r)"
      by (auto simp: outcome_now_def)
    have "fst (map_backend_status (r_status r)) = t_state t"
      using o v r assms(4) by (simp add: outcome_now_def observed_state_def run_observation_def)
    with r observed_terminal_status [of "r_status r"] assms(4) show ?thesis by auto
  qed (auto simp: withdrawn_def)
qed


text \<open>A version comparison misses nothing. If the version of a run is what a caller read before, nothing that decides about the run has
  changed in between (only heartbeat and progress columns may have); if the version of a task is what a caller read, the whole row is.\<close>

theorem version_detects_every_change:
  assumes "system_ok (db, ps)" "system_step\<^sup>*\<^sup>* (db, ps) (db', ps')"
  shows "(\<forall>k r r'. run_by_id k db = Some r \<and> run_by_id k db' = Some r' \<and> r_state_version r' = r_state_version r \<longrightarrow> control_of r' = control_of r) \<and>
    (\<forall>k t t'. task_by_id k db = Some t \<and> task_by_id k db' = Some t' \<and> t_state_version t' = t_state_version t \<longrightarrow> t' = t)"
proof -
  have adv: "db_advances db db'" "tasks_advance db db'" using system_steps_keep [OF assms(2,1)] by (simp_all add: system_advances_def)
  have "control_of r' = control_of r"
    if "run_by_id k db = Some r" "run_by_id k db' = Some r'" "r_state_version r' = r_state_version r" for k r r'
    using db_advancesD [OF adv(1) that(1)] that(2,3) by (auto simp: row_advances_def)
  moreover have "t' = t" if "task_by_id k db = Some t" "task_by_id k db' = Some t'" "t_state_version t' = t_state_version t" for k t t'
    using tasks_advanceD [OF adv(2) that(1)] that(2,3) by (auto simp: task_row_advances_def)
  ultimately show ?thesis by blast
qed

text \<open>C4. A run is claimed by one worker. After a successful claim, at every later moment in the life of the system, every further claim of the run
  is answered negatively or with an exception and writes nothing, whichever token, generation or version it carries.\<close>

theorem run_claimed_once:
  assumes "system_ok (db, ps)" "claim_worker k tok pid ident n v now db = (Inr True, db1)" "system_step\<^sup>*\<^sup>* (db1, ps) (db2, ps2)"
  shows "fst (claim_worker k tok' pid' ident' n' v' now' db2) \<noteq> Inr True \<and> snd (claim_worker k tok' pid' ident' n' v' now' db2) = db2"
proof -
  have st: "system_step (db, ps) (db1, ps)" using system_step.run [OF run_step.claim [of db k tok pid ident n v now]] assms(2) by simp
  have ok1: "system_ok (db1, ps)" using system_step_keeps [OF st assms(1)] by blast
  have ok2: "system_ok (db2, ps2)" and adv: "db_advances db1 db2"
    using system_steps_keep [OF assms(3) ok1] by (simp_all add: system_advances_def)
  obtain r1 where r1: "run_by_id k db1 = Some r1" "r_status r1 = ''running''"
    using claim_success_status [OF _ assms(2)] system_wf [OF assms(1)] by auto
  obtain r2 where r2: "run_by_id k db2 = Some r2" "row_advances r1 r2" using db_advancesD [OF adv r1(1)] by blast
  have "\<not> prelaunch (r_status r2)" using r1(2) r2(2) by (auto simp: row_advances_def prelaunch_def)
  from claim_after_launch [OF _ r2(1) this] system_wf [OF ok2] show ?thesis by (simp add: no_success_def)
qed

section \<open>Sample states and witnesses\<close>

definition completed_plane :: scope_db where
  "completed_plane = snd (reconcile_task sample_task_id ''s'' ''t2'' finished_plane)"

definition queued_plane :: scope_db where
  "queued_plane = accepted_plane\<lparr>runs := [new_run sample_id ''Repo'' ''executable_profile'' ''runs/1'' (JObj []) ''low'' False ''queued'' ''tok'' ''t0'']\<rparr>"

definition claimed_plane :: scope_db where
  "claimed_plane = snd (claim_worker sample_id ''tok'' 77 ''id'' None None ''t2'' queued_plane)"

definition locked_plane :: scope_db where
  "locked_plane = queued_plane\<lparr>locks := [new_lock ''Repo'' ''executable_profile'' ''f0'' sample_id None ''tok'' 1 ''t0'']\<rparr>"

lemma sample_system_ok: "system_ok (finished_plane, [])" "system_ok (queued_plane, [])" "system_ok (locked_plane, [])"
proof -
  note defs = finished_plane_def queued_plane_def locked_plane_def accepted_plane_def
  have "wf_scope finished_plane" "wf_scope queued_plane" "wf_scope locked_plane"
    using scope_tables_same [of finished_plane empty_scope] scope_tables_same [of queued_plane empty_scope]
      scope_tables_same [of locked_plane empty_scope] empty_scope_wf by (simp_all add: defs)
  moreover have "tasks_settled finished_plane" "tasks_settled queued_plane" "tasks_settled locked_plane"
    by (simp_all add: tasks_settled_def defs sample_task_request_def terminal_task_iff)
  moreover have "wf_groups finished_plane" "wf_groups queued_plane" "wf_groups locked_plane"
    by (simp_all add: wf_groups_def wf_locks_def wf_runs_def defs empty_scope_def init_scope_db_def)
  moreover have "wf_tasks queued_plane" "wf_tasks locked_plane" by (simp_all add: defs wf_tasks_def bound_def)
  ultimately show "system_ok (finished_plane, [])" "system_ok (queued_plane, [])" "system_ok (locked_plane, [])"
    using sample_plane_wf by (simp_all add: system_ok_def)
qed

lemma completed_steps: "system_step\<^sup>*\<^sup>* (finished_plane, []) (completed_plane, [])"
proof -
  have "case reconcile_view sample_task_id ''t2'' finished_plane of Inr _ \<Rightarrow> True | Inl _ \<Rightarrow> False" by code_simp
  then obtain p where p: "reconcile_view sample_task_id ''t2'' finished_plane = Inr p" by (auto split: sum.splits)
  obtain t tg where tg: "p = (t, tg)" by (cases p)
  have 1: "system_step (finished_plane, []) (finished_plane, [(t, tg)])" using system_step.look [OF p] tg by simp
  have 2: "system_step (finished_plane, [(t, tg)]) (completed_plane, [])"
    using system_step.commit [of t tg "[(t, tg)]" finished_plane "''s''" "''t2''"] p tg by (simp add: completed_plane_def reconcile_task_def)
  from 1 2 show ?thesis by (meson rtranclp.rtrancl_into_rtrancl rtranclp.rtrancl_refl)
qed

lemma completed_ok: "system_ok (completed_plane, [])"
  using system_steps_keep [OF completed_steps sample_system_ok(1)] by blast

lemma completed_facts: "map t_state (tasks completed_plane) = [COMPLETED]" "map t_task_id (tasks completed_plane) = [sample_task_id]"
  "map t_backend_ref (tasks completed_plane) = [sample_id]" "map r_status (runs completed_plane) = [''completed'']"
  "map r_run_id (runs completed_plane) = [sample_id]"
  by code_simp+

lemma completed_task: "\<exists>t. task_by_id sample_task_id completed_plane = Some t \<and> t_state t = COMPLETED \<and> t_backend_ref t = sample_id \<and> t \<in> set (tasks completed_plane)"
  using completed_facts(1-3) by (auto simp: task_by_id_def map_eq_Cons_conv)

definition disturbed_plane :: scope_db where
  "disturbed_plane = snd (fail_infrastructure sample_id ''late'' None None None None None ''t9'' completed_plane)"

lemma disturbed_steps: "system_step\<^sup>*\<^sup>* (completed_plane, []) (disturbed_plane, [])"
  unfolding disturbed_plane_def by (rule r_into_rtranclp) (rule system_step.run, rule run_step.infrastructure)

theorem terminal_task_final_witness:
  "\<exists>t'. task_by_id sample_task_id disturbed_plane = Some t' \<and> t_state t' = COMPLETED"
proof -
  obtain t where t: "task_by_id sample_task_id completed_plane = Some t" "t_state t = COMPLETED" using completed_task by blast
  from terminal_task_final [OF completed_ok disturbed_steps t(1)] t(2) show ?thesis by (auto simp: terminal_task_iff)
qed

theorem terminal_tasks_justified_witness:
  "\<exists>r. run_by_id sample_id completed_plane = Some r \<and> is_terminal (r_status r)"
proof -
  obtain t where t: "t \<in> set (tasks completed_plane)" "t_state t = COMPLETED" "t_backend_ref t = sample_id" using completed_task by blast
  have "reservations completed_plane = []" by code_simp
  with terminal_tasks_justified [OF sample_system_ok(1) completed_steps t(1)] t show ?thesis by (auto simp: terminal_task_iff)
qed


theorem version_detects_every_change_witness:
  "\<exists>t t'. task_by_id sample_task_id finished_plane = Some t \<and> task_by_id sample_task_id completed_plane = Some t' \<and> t_state_version t' \<noteq> t_state_version t"
proof -
  obtain t' where t': "task_by_id sample_task_id completed_plane = Some t'" "t_state t' = COMPLETED" using completed_task by blast
  have "t_state (new_task sample_task_request ''t1'') = ACCEPTED" by (simp add: sample_task_request_def)
  with version_detects_every_change [OF sample_system_ok(1) completed_steps] t' sample_plane_task(2) show ?thesis by force
qed

theorem run_claimed_once_witness:
  "fst (claim_worker sample_id ''tok'' 78 ''id2'' None None ''t3'' claimed_plane) \<noteq> Inr True"
proof -
  have "fst (claim_worker sample_id ''tok'' 77 ''id'' None None ''t2'' queued_plane) = Inr True" by code_simp
  then have "claim_worker sample_id ''tok'' 77 ''id'' None None ''t2'' queued_plane = (Inr True, claimed_plane)" by (simp add: claimed_plane_def prod_eq_iff)
  from run_claimed_once [OF sample_system_ok(2) this rtranclp.rtrancl_refl] show ?thesis by blast
qed

section \<open>Samples of the job manager\<close>

text \<open>No other process acts; every process is gone but 77, which a termination ends; the file system and the remote hosts answer.\<close>

definition sample_job_env :: job_env where
  "sample_job_env = \<lparr>je_pub = sample_pub, je_world = (\<lambda>_. \<lparr>pw_alive = (\<lambda>p. p = 77), pw_start = (\<lambda>_. ''start'')\<rparr>), je_clock = (\<lambda>_. ''t5''),
     je_terminate = (\<lambda>_. [(''terminated'', JBool True)]), je_spawn = (\<lambda>_ _. Inr 99), je_cancel_remote = (\<lambda>_ _ _ _ _. []),
     je_probe = (\<lambda>_ _. []), je_reconcile_remote = (\<lambda>_ _. []), je_event_line = (\<lambda>_. ''event''), je_event_error = (\<lambda>_. None),
     je_token = ''new'', je_elapsed = r_elapsed_seconds, je_pid = 5, je_parallel_enabled = False, je_parallel_limit = None\<rparr>"

definition quiet :: "scope_db others" where
  "quiet = (\<lambda>_ s. s)"

definition node_of :: "scope_db \<Rightarrow> scope_db node" where
  "node_of db = \<lparr>n_db = db, n_files = (\<lambda>_. None), n_trace = []\<rparr>"

definition stranded_run :: run_row where
  "stranded_run = new_run sample_id ''Repo'' ''executable_profile'' ''runs/1'' (JObj []) ''low'' False ''queued'' ''tok'' ''t0''"

lemma quiet_tame: "tame quiet" "leaves_lock repo quiet"
  by (simp_all add: quiet_def tame_def leaves_lock_def)

lemma sample_nodes_sound: "sound_node (node_of claimed_plane)" "sound_node (node_of locked_plane)"
proof -
  have "system_step (queued_plane, []) (claimed_plane, [])"
    unfolding claimed_plane_def by (rule system_step.run, rule run_step.claim)
  from system_step_keeps [OF this sample_system_ok(2)] show "sound_node (node_of claimed_plane)" by (auto simp: sound_node_def node_of_def)
  from sample_system_ok(3) show "sound_node (node_of locked_plane)" by (auto simp: sound_node_def node_of_def)
qed

theorem job_manager_within_system_witness:
  "tame quiet \<and> later (node_of claimed_plane) (snd (cancel_run sample_job_env quiet False sample_id (node_of claimed_plane)))"
  using job_manager_within_system [OF quiet_tame(1)] quiet_tame(1) by blast


theorem relaunch_fences_first_worker_witness:
  "\<exists>pid t. spawns t = [Spawn_worker sample_id ''new'' pid] \<and> snd (reconcile_run sample_job_env quiet stranded_run (node_of locked_plane)) = t \<and>
    (\<exists>r'. run_by_id sample_id (n_db t) = Some r' \<and> r_lease_generation r' > 1)"
proof -
  let ?r = "reconcile_run sample_job_env quiet stranded_run (node_of locked_plane)"
  have "length (n_trace (snd ?r)) = 1" "map is_spawn (n_trace (snd ?r)) = [True]" by code_simp+
  then have "spawns (snd ?r) \<noteq> []" by (auto simp: spawns_def map_eq_Cons_conv)
  moreover have "r_run_id stranded_run = sample_id" "lease_gen stranded_run = 1" "je_token sample_job_env = ''new''" by code_simp+
  moreover have "n_trace (node_of locked_plane) = []" by (simp add: node_of_def)
  moreover obtain x t where "?r = (x, t)" by fastforce
  ultimately show ?thesis
    using relaunch_fences_first_worker [OF quiet_tame(1) sample_nodes_sound(2), of sample_job_env stranded_run x t] by auto
qed

text \<open>A worker whose remote tool answers with the document of a success.\<close>

definition remote_answer :: "scope_db tool" where
  "remote_answer run started_at s =
     (Inr [(''exit_code'', JInt 0), (''ended_at'', JStr ''t6''), (''duration_seconds'', JFloat ''1'')], s)"

theorem job_worker_within_system_witness:
  "map r_status (runs (n_db (snd (job_worker_main sample_worker_world quiet (\<lambda>me. execute_inner sample_exec quiet remote_answer me) sample_id (Some ''tok'')
      (node_of locked_plane))))) = [''completed''] \<and>
    later (node_of locked_plane) (snd (job_worker_main sample_worker_world quiet (\<lambda>me. execute_inner sample_exec quiet remote_answer me) sample_id
      (Some ''tok'') (node_of locked_plane)))"
proof
  show "map r_status (runs (n_db (snd (job_worker_main sample_worker_world quiet (\<lambda>me. execute_inner sample_exec quiet remote_answer me) sample_id (Some ''tok'')
      (node_of locked_plane))))) = [''completed'']" by code_simp
  show "later (node_of locked_plane) (snd (job_worker_main sample_worker_world quiet (\<lambda>me. execute_inner sample_exec quiet remote_answer me) sample_id
      (Some ''tok'') (node_of locked_plane)))"
    by (rule job_worker_within_system [OF quiet_tame(1)]) (simp add: remote_answer_def)
qed

end
